(* ===== verification/Prelude.thy ===== *)
theory Prelude
  imports Main "HOL-Library.Word" "HOL-Library.Monad_Syntax" "HOL-Library.Multiset" "HOL-Library.Sublist"
begin

unbundle bit_operations_syntax

text \<open>
  Shared vocabulary of the development: the machine's word types, the byte-addressed
  memory with its little-endian 32-bit loads and stores, address ranges and their
  disjointness, and the machine state every kernel component extends.

  The kernel is C compiled for a 32-bit little-endian ARM. Pointers and \<open>u32\<close> are both
  \<open>32 word\<close>; a structure field is a load or store at a constant offset. A routine that
  works on the state returns an \<open>option\<close>: \<open>None\<close> is "does not return" (an endless loop).
\<close>

type_synonym u8 = "8 word"
type_synonym u16 = "16 word"
type_synonym u32 = "32 word"
type_synonym u64 = "64 word"
type_synonym memory = "u32 \<Rightarrow> u8"

text \<open>\<open>mem_simps\<close>: reading back what was stored, and what a store leaves alone.
  \<open>frame_intro\<close>: rules for "this range is not touched".\<close>

named_theorems mem_simps
named_theorems frame_intro

section \<open>Address ranges\<close>

text \<open>The \<open>n\<close> addresses from \<open>a\<close> on, modulo \<open>2^32\<close>.\<close>

definition span :: "u32 \<Rightarrow> nat \<Rightarrow> u32 set" where
  "span a n = {x. unat (x - a) < n}"

lemma mem_span_iff: "x \<in> span a n \<longleftrightarrow> unat (x - a) < n"
  by (simp add: span_def)

lemma span_empty [simp]: "span a 0 = {}"
  by (simp add: span_def)

lemma span_mono: "n \<le> k \<Longrightarrow> span a n \<subseteq> span a k"
  by (auto simp: span_def)

lemma span_base [simp]: "a \<in> span a n \<longleftrightarrow> 0 < n"
  by (simp add: span_def)

lemma u32_bound: "unat (x :: u32) < 4294967296"
  using unsigned_less [of x, where ?'a = nat] by simp

lemma unat_of_nat_u32: "n < 4294967296 \<Longrightarrow> unat (of_nat n :: u32) = n"
  by (simp add: unat_of_nat)

lemma u32_eqI: "unat (a :: u32) = unat b \<Longrightarrow> a = b"
  by (simp add: word_unat_eq_iff)

lemma unat_pow2_u32: "k < 32 \<Longrightarrow> unat ((2 :: u32) ^ k) = 2 ^ k"
proof -
  assume "k < 32"
  then have "(2 :: nat) ^ k < 2 ^ 32" by (intro power_strict_increasing) auto
  then show ?thesis using unat_of_nat_u32 [of "2 ^ k"] by simp
qed

lemma uint_bound: "0 \<le> uint (x :: u32)" "uint (x :: u32) < 4294967296"
  using unsigned_less [of x, where ?'a = int] by simp_all

lemma sint_u32:
  fixes x :: u32
  shows "sint x = (if uint x < 2147483648 then uint x else uint x - 4294967296)"
proof -
  have "sint x = (uint x + 2147483648) mod 4294967296 - 2147483648"
    by (simp add: sint_uint signed_take_bit_eq_take_bit_shift take_bit_eq_mod)
  also have "(uint x + 2147483648) mod 4294967296
      = (if uint x < 2147483648 then uint x + 2147483648 else uint x - 2147483648)"
  proof (cases "uint x < 2147483648")
    case True
    then show ?thesis using uint_bound(1) [of x] by simp
  next
    case False
    then have "(uint x - 2147483648 + 4294967296) mod 4294967296 = uint x - 2147483648"
      using uint_bound(2) [of x] by (simp only: mod_add_self2) simp
    with False show ?thesis by (simp add: add.commute)
  qed
  finally show ?thesis by simp
qed

lemma sint_u32_bounds: "- 2147483648 \<le> sint (x :: u32)" "sint (x :: u32) < 2147483648"
  unfolding sint_u32 using uint_bound [of x] by (split if_split, linarith)+

lemma sint_word_of_int_u32:
  assumes "- 2147483648 \<le> i" and "i < 2147483648"
  shows "sint (word_of_int i :: u32) = i"
  using assms by (simp add: signed_take_bit_int_eq_self sint_sbintrunc')

lemma u32_diff:
  fixes a b :: u32
  shows "unat (a - b) = (if unat b \<le> unat a then unat a - unat b else unat a + 4294967296 - unat b)"
  by (simp add: unat_sub_if')

lemma uint_minus_u32: "x \<noteq> 0 \<Longrightarrow> uint (- (x :: u32)) = 4294967296 - uint x"
proof -
  assume "x \<noteq> 0"
  then have "unat (- x) = 4294967296 - unat x"
    using u32_diff [of 0 x] by (auto simp: word_unat_eq_iff)
  then have "int (unat (- x)) = 4294967296 - int (unat x)"
    using u32_bound [of x] by linarith
  then show ?thesis by simp
qed

lemma unat_and_mask_u32: "unat ((x :: u32) AND mask n) = unat x mod 2 ^ n"
proof -
  have "unat (x AND mask n) = take_bit n (unat x)"
    by (simp only: take_bit_eq_mask [symmetric] unsigned_take_bit_eq)
  then show ?thesis by (simp add: take_bit_eq_mod)
qed

lemma unat_and_3: "unat ((x :: u32) AND 3) = unat x mod 4"
  using unat_and_mask_u32 [of x 2] by (simp add: mask_eq_exp_minus_1)

lemma unat_and_FFF: "unat ((x :: u32) AND 0xFFF) = unat x mod 4096"
  using unat_and_mask_u32 [of x 12] by (simp add: mask_eq_exp_minus_1)

lemma span_1 [simp]: "span a (Suc 0) = {a}"
proof -
  have "unat (x - a) = 0 \<longleftrightarrow> x = a" for x
    by (metis unsigned_eq_0_iff eq_iff_diff_eq_0)
  then show ?thesis by (auto simp: span_def)
qed

lemma unat_diff_flip:
  fixes a b :: u32
  assumes "a \<noteq> b"
  shows "unat (a - b) = 4294967296 - unat (b - a)"
proof -
  have "unat a \<noteq> unat b" using assms by (simp add: word_unat_eq_iff)
  then show ?thesis
    using u32_bound [of a] u32_bound [of b] unfolding u32_diff by presburger
qed

lemma span_nowrap:
  assumes "unat a + n \<le> 2 ^ 32"
  shows "x \<in> span a n \<longleftrightarrow> unat a \<le> unat x \<and> unat x < unat a + n"
  using assms u32_bound [of x] by (auto simp: span_def unat_sub_if')

lemma span_disjI:
  assumes "n \<le> unat (b - a)" and "k \<le> unat (a - b)"
  shows "span a n \<inter> span b k = {}"
proof -
  have False if "unat (x - a) < n" and "unat (x - b) < k" for x
  proof -
    have "x - b = (x - a) - (b - a)" by simp
    moreover have "unat (x - a) < unat (b - a)" using assms that by simp
    ultimately have "unat (x - b) = unat (x - a) + 4294967296 - unat (b - a)"
      using u32_diff [of "x - a" "b - a"] by simp
    moreover have "a \<noteq> b" using assms that by auto
    ultimately show False using assms that unat_diff_flip [of a b] by simp
  qed
  then show ?thesis by (auto simp: span_def)
qed

lemma span_offset_subset:
  assumes "unat k + n \<le> l"
  shows "span (a + k) n \<subseteq> span a l"
proof
  fix x assume "x \<in> span (a + k) n"
  then have "unat (x - (a + k)) < n" by (simp add: span_def)
  moreover have "unat (x - a) \<le> unat (x - (a + k)) + unat k"
  proof -
    have "x - a = (x - (a + k)) + k" by simp
    then show ?thesis by (metis unat_plus_if' le_add1 le_refl diff_le_self)
  qed
  ultimately show "x \<in> span a l" using assms by (simp add: span_def)
qed

text \<open>Ranges that do not wrap are intervals, so their disjointness is arithmetic.\<close>

lemma span_disj_nowrap:
  assumes "unat a + n \<le> 2 ^ 32" and "unat b + k \<le> 2 ^ 32"
    and "unat a + n \<le> unat b \<or> unat b + k \<le> unat a"
  shows "span a n \<inter> span b k = {}"
  using assms by (auto simp: span_nowrap)

lemma span_subset_nowrap:
  assumes "unat b + k \<le> 2 ^ 32" and "unat b \<le> unat a" and "unat a + n \<le> unat b + k"
  shows "span a n \<subseteq> span b k"
proof -
  have "unat a + n \<le> 2 ^ 32" using assms by simp
  then show ?thesis using assms by (auto simp: span_nowrap)
qed

lemma span_split_nowrap:
  assumes "unat a + n \<le> 2 ^ 32" and "k \<le> n" and "b = a + of_nat k" and "k < n \<or> unat a + n < 2 ^ 32"
  shows "span a n = span a k \<union> span b (n - k)"
proof -
  have lt: "unat a + k < 2 ^ 32" using assms by auto
  have b: "unat b = unat a + k"
    using lt by (simp add: assms(3) unat_word_ariths unat_of_nat)
  have "unat b + (n - k) \<le> 2 ^ 32" using assms b by simp
  then show ?thesis using assms b by (auto simp: span_nowrap)
qed

section \<open>Memory\<close>

definition ld32 :: "memory \<Rightarrow> u32 \<Rightarrow> u32" where
  "ld32 m a = ucast (m a) OR push_bit 8 (ucast (m (a + 1)))
     OR push_bit 16 (ucast (m (a + 2))) OR push_bit 24 (ucast (m (a + 3)))"

definition st32 :: "memory \<Rightarrow> u32 \<Rightarrow> u32 \<Rightarrow> memory" where
  "st32 m a v = m(a := ucast v, a + 1 := ucast (drop_bit 8 v),
     a + 2 := ucast (drop_bit 16 v), a + 3 := ucast (drop_bit 24 v))"

definition ld16 :: "memory \<Rightarrow> u32 \<Rightarrow> u16" where
  "ld16 m a = ucast (m a) OR push_bit 8 (ucast (m (a + 1)))"

lemma span4: "span a 4 = {a, a + 1, a + 2, a + 3}"
proof -
  have "unat (x - a) < 4 \<longleftrightarrow> x - a \<in> {0, 1, 2, 3}" for x
    by (auto simp: word_unat_eq_iff)
  moreover have "x - a = k \<longleftrightarrow> x = a + k" for x k by (auto simp: algebra_simps)
  ultimately show ?thesis by (auto simp: span_def)
qed

lemma ld32_st32_same [simp, mem_simps]: "ld32 (st32 m a v) a = v"
proof -
  have "a + 1 \<noteq> a" "a + 2 \<noteq> a" "a + 3 \<noteq> a" "a + 2 \<noteq> a + 1" "a + 3 \<noteq> a + 1" "a + 3 \<noteq> a + 2"
    by simp_all
  then have "bit (ld32 (st32 m a v) a) n \<longleftrightarrow> bit v n" if "n < 32" for n
    using that le_add_diff_inverse [of 24 n] le_add_diff_inverse [of 16 n] le_add_diff_inverse [of 8 n]
    by (cases "24 \<le> n"; cases "16 \<le> n"; cases "8 \<le> n") (auto simp: ld32_def st32_def bit_simps)
  then show ?thesis by (intro bit_eqI) simp
qed

lemma st32_out [mem_simps, frame_intro]: "x \<notin> span a 4 \<Longrightarrow> st32 m a v x = m x"
  by (auto simp: span4 st32_def)

lemma ld32_cong [frame_intro]: "(\<And>x. x \<in> span a 4 \<Longrightarrow> m' x = m x) \<Longrightarrow> ld32 m' a = ld32 m a"
  by (simp add: ld32_def span4)

lemma ld32_st32_disj [frame_intro]:
  "span a 4 \<inter> span b 4 = {} \<Longrightarrow> ld32 (st32 m b v) a = ld32 m a"
  by (rule ld32_cong) (auto intro: st32_out)

lemma ld32_st32_far: "4 \<le> unat (b - a) \<Longrightarrow> 4 \<le> unat (a - b) \<Longrightarrow> ld32 (st32 m b v) a = ld32 m a"
  by (intro ld32_st32_disj span_disjI)

text \<open>Two fields of one structure: the offsets decide.\<close>

lemma ld32_st32_offsets [simp, mem_simps]:
  "4 \<le> unat (i - j) \<Longrightarrow> 4 \<le> unat (j - i) \<Longrightarrow> ld32 (st32 m (a + i) v) (a + j) = ld32 m (a + j)"
  "4 \<le> unat (- j) \<Longrightarrow> 4 \<le> unat j \<Longrightarrow> ld32 (st32 m a v) (a + j) = ld32 m (a + j)"
  "4 \<le> unat i \<Longrightarrow> 4 \<le> unat (- i) \<Longrightarrow> ld32 (st32 m (a + i) v) a = ld32 m a"
  by (rule ld32_st32_far; simp)+

text \<open>Two structures in disjoint ranges: a store into one leaves the other's fields.\<close>

lemma ld32_st32_structs:
  assumes "span p n \<inter> span q k = {}"
  shows "unat i + 4 \<le> n \<Longrightarrow> unat j + 4 \<le> k \<Longrightarrow> ld32 (st32 m (p + i) v) (q + j) = ld32 m (q + j)"
    and "unat i + 4 \<le> n \<Longrightarrow> 4 \<le> k \<Longrightarrow> ld32 (st32 m (p + i) v) q = ld32 m q"
    and "4 \<le> n \<Longrightarrow> unat j + 4 \<le> k \<Longrightarrow> ld32 (st32 m p v) (q + j) = ld32 m (q + j)"
    and "4 \<le> n \<Longrightarrow> 4 \<le> k \<Longrightarrow> ld32 (st32 m p v) q = ld32 m q"
  using assms span_offset_subset [of i 4 n p] span_offset_subset [of j 4 k q] span_mono [of 4 n p]
    span_mono [of 4 k q]
  by (intro ld32_st32_disj; blast)+

section \<open>Frames\<close>

text \<open>The memories agree outside a set of addresses.\<close>

definition same_outside :: "u32 set \<Rightarrow> memory \<Rightarrow> memory \<Rightarrow> bool" where
  "same_outside A m m' \<longleftrightarrow> (\<forall>x. x \<notin> A \<longrightarrow> m' x = m x)"

lemma same_outsideD: "same_outside A m m' \<Longrightarrow> x \<notin> A \<Longrightarrow> m' x = m x"
  by (simp add: same_outside_def)

lemma same_outside_refl [simp, frame_intro]: "same_outside A m m"
  by (simp add: same_outside_def)

lemma same_outside_mono: "same_outside A m m' \<Longrightarrow> A \<subseteq> B \<Longrightarrow> same_outside B m m'"
  by (auto simp: same_outside_def)

lemma same_outside_trans:
  "same_outside A m m' \<Longrightarrow> same_outside A m' m'' \<Longrightarrow> same_outside A m m''"
  by (simp add: same_outside_def)

lemma same_outside_st32 [frame_intro]:
  "span a 4 \<subseteq> A \<Longrightarrow> same_outside A m (st32 m a v)"
  by (auto simp: same_outside_def intro: st32_out)

lemma same_outside_st32_trans:
  "same_outside A m m' \<Longrightarrow> span a 4 \<subseteq> A \<Longrightarrow> same_outside A m (st32 m' a v)"
  by (blast intro: same_outside_trans same_outside_st32)

lemma ld32_same_outside:
  "same_outside A m m' \<Longrightarrow> span a 4 \<inter> A = {} \<Longrightarrow> ld32 m' a = ld32 m a"
  by (rule ld32_cong) (auto simp: same_outside_def)

section \<open>Counting loops\<close>

text \<open>A loop over the values of its counter, whose body may not return.\<close>

fun loop :: "('b \<Rightarrow> 's \<Rightarrow> 's option) \<Rightarrow> 'b list \<Rightarrow> 's \<Rightarrow> 's option" where
  "loop f [] s = Some s"
| "loop f (i # is) s = do { s \<leftarrow> f i s; loop f is s }"

lemma loop_append [simp]: "loop f (is @ js) s = do { s \<leftarrow> loop f is s; loop f js s }"
  by (induction "is" arbitrary: s) (auto split: bind_split)

text \<open>An invariant indexed by the part of the list that is done.\<close>

lemma loop_inv:
  assumes "I [] s"
    and "\<And>js i s. prefix (js @ [i]) is \<Longrightarrow> I js s \<Longrightarrow> \<exists>s'. f i s = Some s' \<and> I (js @ [i]) s'"
  shows "\<exists>s'. loop f is s = Some s' \<and> I is s'"
  using assms
proof (induction "is" rule: rev_induct)
  case (snoc i "is")
  have "prefix (js @ [k]) (is @ [i])" if "prefix (js @ [k]) is" for js k
    using that by (auto simp: prefix_def)
  then obtain s' where s': "loop f is s = Some s'" "I is s'"
    using snoc.IH snoc.prems by meson
  from snoc.prems(2) [OF _ s'(2)] show ?case using s'(1) by auto
qed simp

section \<open>The machine state\<close>

text \<open>An access to a device register: what was read, or written. \<open>Mcr n m k v\<close> is the write
  \<open>mcr p15, 0, v, cn, cm, k\<close> of the system control coprocessor, \<open>Mrc\<close> the read.
  On the MIPS machine \<open>Mfc0 r sel v\<close> and \<open>Mtc0 r sel v\<close> are the read and the write of its
  coprocessor 0, and \<open>Out8x\<close> and \<open>Out32x\<close> write above the low 4 GB of physical addresses.\<close>

datatype io_event =
    In8 u32 u8 | In16 u32 u16 | In32 u32 u32
  | Out8 u32 u8 | Out16 u32 u16 | Out32 u32 u32
  | Mcr nat nat nat u32 | Mrc nat nat nat u32
  | Mfc0 nat nat u64 | Mtc0 nat nat u64 | Out8x u64 u8 | Out32x u64 u32

text \<open>
  What every kernel routine runs on: the memory, the bytes sent to the serial console so far,
  and the device accesses so far. A component with static variables of its own extends this
  record with them.
\<close>

record machine =
  mem :: memory
  con :: string
  io :: "io_event list"

definition kputs :: "string \<Rightarrow> 'a machine_scheme \<Rightarrow> 'a machine_scheme" where
  "kputs str s = s\<lparr>con := con s @ str\<rparr>"

definition crlf :: string where
  "crlf = [CHR 0x0D, CHR 0x0A]"

lemma mem_kputs [simp]: "mem (kputs str s) = mem s"
  by (simp add: kputs_def)

text \<open>A 32-bit load and store on the machine.\<close>

definition rd :: "'a machine_scheme \<Rightarrow> u32 \<Rightarrow> u32" where
  "rd s a = ld32 (mem s) a"

definition wr :: "u32 \<Rightarrow> u32 \<Rightarrow> 'a machine_scheme \<Rightarrow> 'a machine_scheme" where
  "wr a v s = s\<lparr>mem := st32 (mem s) a v\<rparr>"

lemma wr_more [simp]: "con (wr a v s) = con s" "machine.more (wr a v s) = machine.more s"
  by (simp_all add: wr_def)

lemma rd_kputs [simp]: "rd (kputs str s) a = rd s a"
  by (simp add: rd_def)

lemma mem_wr [simp]: "mem (wr a v s) = st32 (mem s) a v"
  by (simp add: wr_def)

lemma rd_wr [simp, mem_simps]: "rd (wr a v s) b = ld32 (st32 (mem s) a v) b"
  by (simp add: rd_def)

text \<open>A write to the system control coprocessor, and its use to invalidate the translation
  lookaside buffer (\<open>invalidate_tlb\<close> of \<open>pte.c\<close>).\<close>

definition mcr :: "nat \<Rightarrow> nat \<Rightarrow> nat \<Rightarrow> u32 \<Rightarrow> 'a machine_scheme \<Rightarrow> 'a machine_scheme" where
  "mcr n m k v s = s\<lparr>io := io s @ [Mcr n m k v]\<rparr>"

definition invalidate_tlb :: "'a machine_scheme \<Rightarrow> 'a machine_scheme" where
  "invalidate_tlb s = mcr 8 7 0 0 s"

lemma mem_mcr [simp]: "mem (mcr n m k v s) = mem s" "mem (invalidate_tlb s) = mem s"
  by (simp_all add: mcr_def invalidate_tlb_def)

text \<open>A program using the kernel's memory writes a byte.\<close>

definition poke :: "u32 \<Rightarrow> u8 \<Rightarrow> 'a machine_scheme \<Rightarrow> 'a machine_scheme" where
  "poke a v s = s\<lparr>mem := (mem s)(a := v)\<rparr>"

lemma mem_poke [simp]: "mem (poke a v s) = (mem s)(a := v)"
  by (simp add: poke_def)

end
