(* ===== verification/Division.thy ===== *)
theory Division
  imports Prelude
begin

text \<open>
  \<open>drivers/misc/division-arm.c\<close>: the integer division the compiler calls on a core with
  no divide instruction. A routine leaves its C return value in \<open>r0\<close> and the remainder
  in \<open>r1\<close>; the model returns the pair, with \<open>None\<close> for an \<open>r1\<close> the path does not set.
  The outer \<open>None\<close> is "does not return".
\<close>

section \<open>The routines\<close>

type_synonym div_regs = "u32 \<times> u32 option"

definition aeabi_idiv0 :: "u32 \<Rightarrow> u32 \<Rightarrow> u32" where
  "aeabi_idiv0 numerator denominator = - 1"

definition ABS :: "u32 \<Rightarrow> u32" where
  "ABS x = (if x <s 0 then - x else x)"

text \<open>The \<open>for\<close> loop that scales \<open>i\<close> and the denominator up.\<close>

partial_function (option) uidivmod_scale :: "u32 \<Rightarrow> u32 \<Rightarrow> u32 \<Rightarrow> u32 \<Rightarrow> (u32 \<times> u32) option" where
  [code]: "uidivmod_scale numerator i denominator shift =
     (if shift < 0x80000000 \<and> shift \<le> numerator
      then uidivmod_scale numerator (push_bit 1 i) (push_bit 1 denominator) (push_bit 1 shift)
      else Some (i, denominator))"

text \<open>The inner \<open>while (numerator >= denominator)\<close>.\<close>

partial_function (option) uidivmod_subtract :: "u32 \<Rightarrow> u32 \<Rightarrow> u32 \<Rightarrow> u32 \<Rightarrow> (u32 \<times> u32) option" where
  [code]: "uidivmod_subtract i numerator denominator quot =
     (if denominator \<le> numerator
      then uidivmod_subtract i (numerator - denominator) denominator (quot + i)
      else Some (numerator, quot))"

text \<open>The outer \<open>for (; i > 0; i >>= 1, denominator >>= 1)\<close>.\<close>

partial_function (option) uidivmod_loop :: "u32 \<Rightarrow> u32 \<Rightarrow> u32 \<Rightarrow> u32 \<Rightarrow> (u32 \<times> u32) option" where
  [code]: "uidivmod_loop i numerator denominator quot =
     (if 0 < i
      then do {
        (numerator', quot') \<leftarrow> uidivmod_subtract i numerator denominator quot;
        uidivmod_loop (drop_bit 1 i) numerator' (drop_bit 1 denominator) quot'
      }
      else Some (quot, numerator))"

definition aeabi_uidivmod :: "u32 \<Rightarrow> u32 \<Rightarrow> div_regs option" where
  "aeabi_uidivmod numerator denominator =
     (let shift = push_bit 1 denominator in
      if denominator = 0 then Some (aeabi_idiv0 numerator denominator, None)
      else do {
        (i, denominator') \<leftarrow> uidivmod_scale numerator 1 denominator shift;
        (quot, remainder) \<leftarrow> uidivmod_loop i numerator denominator' 0;
        Some (quot, Some remainder)
      })"

definition aeabi_uidiv :: "u32 \<Rightarrow> u32 \<Rightarrow> div_regs option" where
  "aeabi_uidiv numerator denominator = aeabi_uidivmod numerator denominator"

text \<open>
  The signed routine. The \<open>asm\<close> statement loads \<open>r0\<close> with the quotient and \<open>r1\<close> with
  the remainder, and then \<open>return 0\<close> sets \<open>r0\<close>, the return value, to 0.
\<close>

definition aeabi_idivmod :: "u32 \<Rightarrow> u32 \<Rightarrow> div_regs option" where
  "aeabi_idivmod numerator denominator =
     (if denominator = 0 then Some (aeabi_idiv0 numerator denominator, None)
      else do {
        (result0, _) \<leftarrow> aeabi_uidivmod (ABS numerator) (ABS denominator);
        let result1 = (if numerator <s 0 \<and> 0 <s denominator then - result0 else result0);
        let result = (if 0 \<le>s numerator \<and> denominator <s 0 then - result1 else result1);
        let remain = numerator - result * denominator;
        Some (0, Some remain)
      })"

definition aeabi_idiv :: "u32 \<Rightarrow> u32 \<Rightarrow> div_regs option" where
  "aeabi_idiv numerator denominator = aeabi_idivmod numerator denominator"

section \<open>The loops\<close>

lemma push_bit_1_nat:
  fixes x :: u32
  shows "unat x < 2 ^ 31 \<Longrightarrow> unat (push_bit 1 x) = 2 * unat x"
  by (simp add: push_bit_eq_mult unat_word_ariths)

lemma uidivmod_subtract_eq:
  assumes "0 < denominator"
  shows "uidivmod_subtract i numerator denominator quot =
    Some (numerator mod denominator, quot + i * (numerator div denominator))"
  using assms
proof (induction "unat numerator" arbitrary: numerator quot rule: less_induct)
  case less
  show ?case
  proof (cases "denominator \<le> numerator")
    case True
    have "unat (numerator - denominator) < unat numerator"
      using True less.prems by (simp add: unat_sub word_le_nat_alt word_less_nat_alt)
    from less.hyps [OF this less.prems] have IH: "uidivmod_subtract i (numerator - denominator) denominator (quot + i)
      = Some ((numerator - denominator) mod denominator,
          quot + i + i * ((numerator - denominator) div denominator))" .
    have n: "unat (numerator - denominator) = unat numerator - unat denominator"
      using True by (simp add: unat_sub)
    have "(numerator - denominator) mod denominator = numerator mod denominator"
      using True by (simp add: word_unat_eq_iff unat_mod_distrib n word_le_nat_alt le_mod_geq)
    moreover have "numerator div denominator = (numerator - denominator) div denominator + 1"
    proof -
      have "unat numerator div unat denominator = Suc ((unat numerator - unat denominator) div unat denominator)"
        using True less.prems by (simp add: word_le_nat_alt word_less_nat_alt le_div_geq)
      then have "unat (numerator div denominator) = Suc (unat ((numerator - denominator) div denominator))"
        by (simp add: unat_div_distrib n)
      then show ?thesis
        using u32_bound [of "numerator div denominator"]
        by (simp add: word_unat_eq_iff unat_word_ariths)
    qed
    ultimately show ?thesis
      using True IH by (subst uidivmod_subtract.simps) (simp add: algebra_simps)
  next
    case False
    then have "unat numerator < unat denominator" by (simp add: word_le_nat_alt)
    then have "numerator mod denominator = numerator" "numerator div denominator = 0"
      by (simp_all add: word_unat_eq_iff unat_mod_distrib unat_div_distrib)
    with False show ?thesis by (subst uidivmod_subtract.simps) simp
  qed
qed

lemma of_nat_div_u32: "(x :: u32) div y = of_nat (unat x div unat y)"
  by (simp add: word_unat_eq_iff unat_div_distrib unat_of_nat)
    (metis div_le_dividend le_less_trans mod_less u32_bound)

lemma split_div_pow2:
  fixes n d :: nat
  assumes "0 < d"
  shows "n div d = 2 ^ k * (n div (d * 2 ^ k)) + n mod (d * 2 ^ k) div d"
proof -
  let ?D = "d * 2 ^ k"
  have "n = d * (2 ^ k * (n div ?D)) + n mod ?D"
    by (metis mult.assoc mult_div_mod_eq)
  then show ?thesis using assms by (metis div_mult_self4 less_not_refl2 add.commute div_mult_self2)
qed

lemma uidivmod_loop_done [simp]: "uidivmod_loop 0 numerator denominator quot = Some (quot, numerator)"
  by (subst uidivmod_loop.simps) simp

lemma uidivmod_loop_eq:
  assumes "0 < unat d" and "unat d * 2 ^ k < 2 ^ 32" and "k < 32"
  shows "uidivmod_loop (2 ^ k) numerator (of_nat (unat d * 2 ^ k)) quot =
    Some (quot + numerator div d, numerator mod d)"
  using assms
proof (induction k arbitrary: numerator quot)
  case 0
  have d: "0 < d" using 0 by (simp add: word_less_nat_alt)
  show ?case
    by (subst uidivmod_loop.simps) (simp add: uidivmod_subtract_eq [OF d] drop_bit_eq_div)
next
  case (Suc k)
  let ?D = "of_nat (unat d * 2 ^ Suc k) :: u32"
  have uD: "unat ?D = unat d * 2 ^ Suc k"
    using Suc.prems by (intro unat_of_nat_u32) simp
  then have D: "0 < ?D" using Suc.prems by (simp add: word_less_nat_alt)
  have half: "drop_bit 1 ?D = of_nat (unat d * 2 ^ k)"
  proof (rule u32_eqI)
    have "unat (drop_bit 1 ?D) = unat ?D div 2"
      by (simp add: drop_bit_eq_div unat_div_distrib del: of_nat_mult power_Suc)
    also have "\<dots> = unat d * 2 ^ k" unfolding uD by simp
    also have "\<dots> = unat (of_nat (unat d * 2 ^ k) :: u32)"
      by (rule unat_of_nat_u32 [symmetric]) (use Suc.prems in simp)
    finally show "unat (drop_bit 1 ?D) = unat (of_nat (unat d * 2 ^ k) :: u32)" .
  qed
  have i: "0 < (2 :: u32) ^ Suc k" "drop_bit 1 ((2 :: u32) ^ Suc k) = 2 ^ k"
    using Suc.prems
    using unat_pow2_u32 [of "Suc k"] unat_pow2_u32 [of k]
    by (simp_all add: word_less_nat_alt drop_bit_eq_div word_unat_eq_iff unat_div_distrib)
  let ?n = "numerator mod ?D"
  have "numerator div d = 2 ^ Suc k * (numerator div ?D) + ?n div d"
    using split_div_pow2 [OF Suc.prems(1), of "unat numerator" "Suc k"] uD
    by (simp add: of_nat_div_u32 unat_mod_distrib del: power_Suc flip: of_nat_add of_nat_mult)
      (simp add: of_nat_div_u32 unat_mod_distrib)
  moreover have "?n mod d = numerator mod d"
    by (simp add: word_unat_eq_iff unat_mod_distrib uD mod_mod_cancel del: power_Suc of_nat_mult)
  moreover have "unat d * 2 ^ k < 4294967296" using Suc.prems(2) by simp
  ultimately show ?case
    using Suc.IH [OF Suc.prems(1), of ?n "quot + 2 ^ Suc k * (numerator div ?D)"] Suc.prems i half
      uidivmod_subtract_eq [OF D, of "2 ^ Suc k" numerator quot]
    by (subst uidivmod_loop.simps) (simp add: add_ac del: of_nat_mult power_Suc)
qed


lemma uidivmod_scale_eq:
  assumes "0 < unat d" and "unat d * 2 ^ Suc k < 2 ^ 32"
  shows "\<exists>j < 32. unat d * 2 ^ j < 2 ^ 32 \<and>
    uidivmod_scale numerator (2 ^ k) (of_nat (unat d * 2 ^ k)) (of_nat (unat d * 2 ^ Suc k))
      = Some (2 ^ j, of_nat (unat d * 2 ^ j))"
  using assms
proof (induction "32 - k" arbitrary: k rule: less_induct)
  case less
  let ?shift = "of_nat (unat d * 2 ^ Suc k) :: u32"
  have sh: "unat ?shift = unat d * 2 ^ Suc k"
    using less.prems by (intro unat_of_nat_u32) simp
  have k: "Suc k < 32"
  proof (rule ccontr)
    assume "\<not> Suc k < 32"
    then have "(2 :: nat) ^ 32 \<le> 2 ^ Suc k" by (intro power_increasing) auto
    also have "\<dots> \<le> unat d * 2 ^ Suc k" using less.prems(1) by simp
    finally show False using less.prems(2) by simp
  qed
  show ?case
  proof (cases "?shift < 0x80000000 \<and> ?shift \<le> numerator")
    case True
    then have bound: "unat d * 2 ^ Suc (Suc k) < 2 ^ 32"
      using sh by (simp add: word_less_nat_alt)
    have step: "push_bit 1 ((2 :: u32) ^ k) = 2 ^ Suc k"
      "push_bit 1 (of_nat (unat d * 2 ^ k) :: u32) = of_nat (unat d * 2 ^ Suc k)"
      "push_bit 1 ?shift = of_nat (unat d * 2 ^ Suc (Suc k))"
      by (simp_all add: push_bit_eq_mult algebra_simps)
    have "32 - Suc k < 32 - k" using k by simp
    from less.hyps [OF this less.prems(1) bound] True step show ?thesis
      by (subst uidivmod_scale.simps) (simp del: power_Suc of_nat_mult)
  next
    case False
    then show ?thesis
      using k less.prems
      by (subst uidivmod_scale.simps) (auto intro!: exI [of _ k] simp del: of_nat_mult)
  qed
qed

section \<open>Results\<close>

text \<open>
  C22. The unsigned routine returns, with the quotient in \<open>r0\<close> and the remainder in \<open>r1\<close>,
  for every divisor below \<open>2^31\<close>; above that, for every dividend for which the doubled
  divisor, which then wraps, keeps out of the scaling loop.
\<close>

theorem uidivmod_correct:
  assumes "0 < denominator"
    and "denominator < 0x80000000 \<or> numerator < push_bit 1 denominator
      \<or> 0x80000000 \<le> push_bit 1 denominator"
  shows "aeabi_uidivmod numerator denominator
    = Some (numerator div denominator, Some (numerator mod denominator))"
proof -
  have d: "0 < unat denominator" using assms by (simp add: word_less_nat_alt)
  have "\<exists>j < 32. unat denominator * 2 ^ j < 2 ^ 32 \<and>
    uidivmod_scale numerator 1 denominator (push_bit 1 denominator)
      = Some (2 ^ j, of_nat (unat denominator * 2 ^ j))"
  proof (cases "denominator < 0x80000000")
    case True
    then have "unat denominator * 2 ^ Suc 0 < 2 ^ 32" by (simp add: word_less_nat_alt)
    from uidivmod_scale_eq [OF d this, of numerator] show ?thesis
      by (auto simp: push_bit_eq_mult mult.commute)
  next
    case False
    then have "uidivmod_scale numerator 1 denominator (push_bit 1 denominator) = Some (1, denominator)"
      using assms(2) by (subst uidivmod_scale.simps) auto
    then show ?thesis using u32_bound [of denominator] by (intro exI [of _ 0]) simp
  qed
  then obtain j where j: "j < 32" "unat denominator * 2 ^ j < 2 ^ 32"
    "uidivmod_scale numerator 1 denominator (push_bit 1 denominator)
      = Some (2 ^ j, of_nat (unat denominator * 2 ^ j))"
    by blast
  show ?thesis
    using j uidivmod_loop_eq [OF d j(2,1), of numerator 0] assms
    by (simp add: aeabi_uidivmod_def Let_def del: of_nat_mult)
qed

theorem uidivmod_correct_witness:
  "aeabi_uidivmod 1000003 97 = Some (10309, Some 30)"
  using uidivmod_correct [of 97 1000003] by simp

lemma uidivmod_scale_zero:
  assumes "uidivmod_scale numerator i denominator shift = Some r"
  shows "shift \<noteq> 0"
proof (rule uidivmod_scale.raw_induct [where P = "\<lambda>n i d s r. s \<noteq> 0", OF _ assms])
  fix f :: "u32 \<Rightarrow> u32 \<Rightarrow> u32 \<Rightarrow> u32 \<Rightarrow> (u32 \<times> u32) option" and n i d s r
  assume IH: "\<And>n i d s r. f n i d s = Some r \<Longrightarrow> s \<noteq> 0"
    and eq: "(if s < 0x80000000 \<and> s \<le> n then f n (push_bit 1 i) (push_bit 1 d) (push_bit 1 s)
      else Some (i, d)) = Some r"
  show "s \<noteq> 0"
    using eq IH [of n "push_bit 1 i" "push_bit 1 d" "push_bit 1 s" r] by (auto split: if_splits)
qed

text \<open>
  For the divisor \<open>2^31\<close> the doubled divisor is 0, the scaling loop never ends and the
  routine does not return, whatever the dividend.
\<close>

theorem uidivmod_hangs: "aeabi_uidivmod numerator 0x80000000 = None"
proof -
  have "push_bit 1 (0x80000000 :: u32) = 0" by simp
  moreover have "uidivmod_scale numerator 1 0x80000000 0 = None"
    using uidivmod_scale_zero [of numerator 1 "0x80000000" 0]
    by (cases "uidivmod_scale numerator 1 0x80000000 0") auto
  ultimately show ?thesis unfolding aeabi_uidivmod_def Let_def by (simp only: bind.simps) simp
qed

text \<open>
  A divisor above \<open>2^31\<close> can give a wrong quotient: here the quotient of
  \<open>2^32 - 1\<close> by \<open>2^31 + 1\<close> comes out as \<open>2^32 - 1\<close>, with remainder 0, in place of 1 and \<open>2^31 - 2\<close>.
\<close>

theorem uidivmod_wrong_above:
  "aeabi_uidivmod 0xFFFFFFFF 0x80000001 = Some (0xFFFFFFFF, Some 0)
   \<and> (0xFFFFFFFF :: u32) div 0x80000001 = 1"
proof
  show "aeabi_uidivmod 0xFFFFFFFF 0x80000001 = Some (0xFFFFFFFF, Some 0)"
    by code_simp
  show "(0xFFFFFFFF :: u32) div 0x80000001 = 1"
    by simp
qed

text \<open>The absolute value, and the signed remainder.\<close>

lemma uint_ABS: "uint (ABS x) = \<bar>sint x\<bar>"
  using uint_bound [of x] uint_minus_u32 [of x]
  by (cases "x = 0") (auto simp: ABS_def word_sless_alt sint_u32)

lemma ABS_nonzero:
  assumes "x \<noteq> 0" and "x \<noteq> 0x80000000"
  shows "0 < ABS x" and "ABS x < 0x80000000"
proof -
  have "uint x \<noteq> 0" "uint x \<noteq> 0x80000000"
    using assms by (metis word_of_int_uint of_int_0 of_int_numeral)+
  then have "0 < uint (ABS x)" "uint (ABS x) < 0x80000000"
    using uint_bound [of x] by (auto simp: uint_ABS sint_u32)
  then show "0 < ABS x" "ABS x < 0x80000000" by (simp_all add: word_less_def)
qed

lemma uidivmod_ABS:
  assumes "denominator \<noteq> 0" and "denominator \<noteq> 0x80000000"
  shows "aeabi_uidivmod (ABS numerator) (ABS denominator)
    = Some (ABS numerator div ABS denominator, Some (ABS numerator mod ABS denominator))"
  using ABS_nonzero [OF assms] by (intro uidivmod_correct) simp_all

lemma trunc_div_mod:
  fixes n d :: int
  shows "n = sgn n * sgn d * (\<bar>n\<bar> div \<bar>d\<bar>) * d + sgn n * (\<bar>n\<bar> mod \<bar>d\<bar>)"
proof -
  let ?a = "\<bar>n\<bar> div \<bar>d\<bar>" and ?b = "\<bar>n\<bar> mod \<bar>d\<bar>"
  have "\<bar>n\<bar> = ?a * \<bar>d\<bar> + ?b" by simp
  moreover have "sgn d * d = \<bar>d\<bar>" "sgn n * \<bar>n\<bar> = n" by (simp_all add: sgn_if)
  moreover have "sgn n * sgn d * x * d + sgn n * y = sgn n * (x * (sgn d * d) + y)" for x y
    by (simp add: algebra_simps)
  ultimately show ?thesis by metis
qed

text \<open>
  Signed division. For a divisor other than 0 and \<open>-2^31\<close> the routine returns, \<open>r1\<close>
  holds the remainder of division truncated towards zero, with the sign of the dividend;
  the return value in \<open>r0\<close> is 0, never the quotient.
\<close>

theorem idivmod_remainder:
  assumes "denominator \<noteq> 0" and "denominator \<noteq> 0x80000000"
  shows "\<exists>r. aeabi_idivmod numerator denominator = Some (0, Some r)
    \<and> sint r = sgn (sint numerator) * (\<bar>sint numerator\<bar> mod \<bar>sint denominator\<bar>)"
proof -
  let ?n = "sint numerator" and ?d = "sint denominator"
  let ?q = "sgn ?n * sgn ?d * (\<bar>?n\<bar> div \<bar>?d\<bar>)"
  have N: "numerator = word_of_int ?n" and D: "denominator = word_of_int ?d" by simp_all
  have A: "ABS numerator div ABS denominator = word_of_int (\<bar>?n\<bar> div \<bar>?d\<bar>)"
    by (metis uint_ABS uint_div word_of_int_uint)
  have neg: "numerator <s 0 \<longleftrightarrow> ?n < 0" "denominator <s 0 \<longleftrightarrow> ?d < 0"
    "0 <s denominator \<longleftrightarrow> 0 < ?d" "0 \<le>s numerator \<longleftrightarrow> 0 \<le> ?n"
    by (simp_all add: word_sless_alt word_sle_eq)
  have d0: "?d \<noteq> 0" using assms(1) by (metis D of_int_0)
  let ?r = "sgn ?n * (\<bar>?n\<bar> mod \<bar>?d\<bar>)"
  have "aeabi_idivmod numerator denominator
      = Some (0, Some (numerator - word_of_int ?q * denominator))"
    using d0 uidivmod_ABS [OF assms, of numerator] assms
    by (cases "?n < 0"; cases "?d < 0"; cases "?n = 0")
      (auto simp: aeabi_idivmod_def A neg Let_def)
  moreover have "?n = ?q * ?d + ?r" by (rule trunc_div_mod)
  then have "(word_of_int ?n :: u32) = word_of_int (?q * ?d + ?r)" by (rule arg_cong)
  then have "numerator = word_of_int ?q * denominator + word_of_int ?r"
    unfolding of_int_add [of "?q * ?d" ?r] of_int_mult [of ?q ?d] N [symmetric] D [symmetric] .
  then have "numerator - word_of_int ?q * denominator = word_of_int ?r"
    by (metis add_diff_cancel_left')
  moreover have "sint (word_of_int ?r :: u32) = ?r"
  proof (rule sint_word_of_int_u32)
    have "0 \<le> \<bar>?n\<bar> mod \<bar>?d\<bar>" "\<bar>?n\<bar> mod \<bar>?d\<bar> < \<bar>?d\<bar>" "\<bar>?d\<bar> \<le> 2147483648"
      using d0 sint_u32_bounds [of denominator] by auto
    then show "- 2147483648 \<le> ?r" "?r < 2147483648"
      by (auto simp: sgn_if)
  qed
  ultimately show ?thesis by auto
qed

theorem idivmod_remainder_witness:
  "\<exists>r. aeabi_idivmod (- 7) 2 = Some (0, Some r) \<and> sint r = - 1"
  using idivmod_remainder [of 2 "- 7"] by simp

end
