(* ===== verification/LibString.thy ===== *)
theory LibString
  imports Prelude
begin

text \<open>
  \<open>lib/libc/string\<close>: \<open>memcpy\<close>, which aligns the operands, copies whole words and then
  the trailing bytes, and \<open>memset\<close>. Both return their first argument; the model returns
  it with the new memory. \<open>copied\<close> and \<open>filled\<close> are the byte-wise specifications.
\<close>

section \<open>The code\<close>

text \<open>\<open>TLOOP1(*dst++ = *src++)\<close>: the body runs before the test, \<open>t\<close> is a \<open>size_t\<close>.\<close>

function copy_bytes :: "u32 \<Rightarrow> u32 \<Rightarrow> u32 \<Rightarrow> memory \<Rightarrow> u32 \<times> u32 \<times> memory" where
  "copy_bytes t dst src m =
     (let m' = m(dst := m src)
      in if t - 1 \<noteq> 0 then copy_bytes (t - 1) (dst + 1) (src + 1) m'
         else (dst + 1, src + 1, m'))"
  by pat_completeness auto
termination
proof (relation "measure (\<lambda>(t, _). unat (t - 1))")
  show "wf (measure (\<lambda>(t :: u32, _ :: u32 \<times> u32 \<times> memory). unat (t - 1)))" by simp
next
  fix t dst src :: u32 and m m' :: memory
  assume "t - 1 \<noteq> 0"
  then show "((t - 1, dst + 1, src + 1, m'), t, dst, src, m) \<in> measure (\<lambda>(t, _). unat (t - 1))"
    using u32_diff [of "t - 1" 1] by (auto simp: word_unat_eq_iff)
qed

text \<open>\<open>TLOOP1(*(word *)dst = *(word *)src; src += wsize; dst += wsize)\<close>.\<close>

function copy_words :: "u32 \<Rightarrow> u32 \<Rightarrow> u32 \<Rightarrow> memory \<Rightarrow> u32 \<times> u32 \<times> memory" where
  "copy_words t dst src m =
     (let m' = st32 m dst (ld32 m src)
      in if t - 1 \<noteq> 0 then copy_words (t - 1) (dst + 4) (src + 4) m'
         else (dst + 4, src + 4, m'))"
  by pat_completeness auto
termination
proof (relation "measure (\<lambda>(t, _). unat (t - 1))")
  show "wf (measure (\<lambda>(t :: u32, _ :: u32 \<times> u32 \<times> memory). unat (t - 1)))" by simp
next
  fix t dst src :: u32 and m m' :: memory
  assume "t - 1 \<noteq> 0"
  then show "((t - 1, dst + 4, src + 4, m'), t, dst, src, m) \<in> measure (\<lambda>(t, _). unat (t - 1))"
    using u32_diff [of "t - 1" 1] by (auto simp: word_unat_eq_iff)
qed

declare copy_bytes.simps [simp del] copy_words.simps [simp del]

definition wmask :: u32 where
  "wmask = 4 - 1"

text \<open>The head of \<open>memcpy\<close>: how many bytes to copy before the operands are aligned.\<close>

definition memcpy_head :: "u32 \<Rightarrow> u32 \<Rightarrow> u32 \<Rightarrow> u32" where
  "memcpy_head dst src len =
     (if (src XOR dst) AND wmask \<noteq> 0 \<or> len < 4 then len else 4 - (src AND wmask))"

definition memcpy :: "u32 \<Rightarrow> u32 \<Rightarrow> u32 \<Rightarrow> memory \<Rightarrow> u32 \<times> memory" where
  "memcpy dst0 src0 length0 m0 =
     (if length0 = 0 \<or> dst0 = src0 then (dst0, m0)
      else
        let (length1, dst1, src1, m1) =
              (if (src0 OR dst0) AND wmask \<noteq> 0
               then let t = memcpy_head dst0 src0 length0
                    in (length0 - t, copy_bytes t dst0 src0 m0)
               else (length0, dst0, src0, m0));
            t = length1 div 4;
            (dst2, src2, m2) = (if t \<noteq> 0 then copy_words t dst1 src1 m1 else (dst1, src1, m1));
            t' = length1 AND wmask;
            (_, _, m3) = (if t' \<noteq> 0 then copy_bytes t' dst2 src2 m2 else (dst2, src2, m2))
        in (dst0, m3))"

function set_bytes :: "u8 \<Rightarrow> u32 \<Rightarrow> u32 \<Rightarrow> memory \<Rightarrow> memory" where
  "set_bytes c d n m =
     (let m' = m(d := c)
      in if n - 1 \<noteq> 0 then set_bytes c (d + 1) (n - 1) m' else m')"
  by pat_completeness auto
termination
proof (relation "measure (\<lambda>(_, _, n, _). unat (n - 1))")
  show "wf (measure (\<lambda>(_ :: u8, _ :: u32, n :: u32, _ :: memory). unat (n - 1)))" by simp
next
  fix c :: u8 and d n :: u32 and m m' :: memory
  assume "n - 1 \<noteq> 0"
  then show "((c, d + 1, n - 1, m'), c, d, n, m) \<in> measure (\<lambda>(_, _, n, _). unat (n - 1))"
    using u32_diff [of "n - 1" 1] by (auto simp: word_unat_eq_iff)
qed

declare set_bytes.simps [simp del]

definition memset :: "u32 \<Rightarrow> u32 \<Rightarrow> u32 \<Rightarrow> memory \<Rightarrow> u32 \<times> memory" where
  "memset dst c n m = (dst, if n \<noteq> 0 then set_bytes (ucast c) dst n m else m)"

section \<open>Specifications\<close>

definition copied :: "u32 \<Rightarrow> u32 \<Rightarrow> nat \<Rightarrow> memory \<Rightarrow> memory" where
  "copied dst src n m = (\<lambda>x. if x \<in> span dst n then m (src + (x - dst)) else m x)"

definition filled :: "u32 \<Rightarrow> nat \<Rightarrow> u8 \<Rightarrow> memory \<Rightarrow> memory" where
  "filled dst n c m = (\<lambda>x. if x \<in> span dst n then c else m x)"

lemma span_src_iff: "src + (x - dst) \<in> span src n \<longleftrightarrow> x \<in> span dst n"
  by (simp add: span_def)

lemma copied_0 [simp]: "copied dst src 0 m = m"
  by (simp add: copied_def)

lemma span_Un_next:
  assumes "unat k = i" and "i + j \<le> 4294967296"
  shows "x \<in> span a (i + j) \<longleftrightarrow> x \<in> span a i \<or> x \<in> span (a + k) j"
proof -
  have "unat (x - (a + k)) = (if i \<le> unat (x - a) then unat (x - a) - i
      else unat (x - a) + 4294967296 - i)"
    using u32_diff [of "x - a" k] assms(1) by (simp add: diff_diff_eq)
  then show ?thesis
    using assms u32_bound [of "x - a"] u32_bound [of k]
    unfolding mem_span_iff by (cases "i \<le> unat (x - a)") auto
qed

lemma copied_append:
  assumes "unat k = i" and "i + j \<le> 4294967296"
    and disj: "span dst (i + j) \<inter> span src (i + j) = {}"
  shows "copied (dst + k) (src + k) j (copied dst src i m) = copied dst src (i + j) m"
proof
  fix x
  note next_iff = span_Un_next [OF assms(1,2), of x dst]
  show "copied (dst + k) (src + k) j (copied dst src i m) x = copied dst src (i + j) m x"
  proof (cases "x \<in> span (dst + k) j")
    case True
    then have x: "x \<in> span dst (i + j)" using next_iff by blast
    then have "src + (x - dst) \<in> span src (i + j)" by (simp only: span_src_iff)
    then have "src + (x - dst) \<notin> span dst i"
      using disj span_mono [of i "i + j" dst] by auto
    moreover have "src + k + (x - (dst + k)) = src + (x - dst)" by simp
    ultimately show ?thesis using True x unfolding copied_def by presburger
  next
    case False
    then have "x \<in> span dst (i + j) \<longleftrightarrow> x \<in> span dst i" using next_iff by blast
    with False show ?thesis by (simp only: copied_def if_False if_cancel)
  qed
qed

lemma copied_1: "copied dst src 1 m = m(dst := m src)"
  by (auto simp: copied_def)

lemma copied_Suc_0 [simp]: "copied dst src (Suc 0) m = m(dst := m src)"
  using copied_1 by simp

lemma copy_bytes_eq:
  assumes "t \<noteq> 0" and "span dst (unat t) \<inter> span src (unat t) = {}"
  shows "copy_bytes t dst src m = (dst + t, src + t, copied dst src (unat t) m)"
  using assms
proof (induction t dst src m rule: copy_bytes.induct)
  case (1 t dst src m)
  show ?case
  proof (cases "t - 1 = 0")
    case True
    then have "t = 1" by simp
    then show ?thesis by (subst copy_bytes.simps) (simp add: copied_1)
  next
    case False
    have t: "unat t = Suc (unat (t - 1))"
      using "1.prems"(1) u32_diff [of t 1] by (auto simp: word_unat_eq_iff)
    have "span (dst + 1) (unat (t - 1)) \<inter> span (src + 1) (unat (t - 1)) = {}"
      using "1.prems"(2) span_offset_subset [of 1 "unat (t - 1)" "unat t"] t by fastforce
    then have IH: "copy_bytes (t - 1) (dst + 1) (src + 1) (copied dst src 1 m)
        = (dst + 1 + (t - 1), src + 1 + (t - 1),
           copied (dst + 1) (src + 1) (unat (t - 1)) (copied dst src 1 m))"
      using "1.IH" [OF refl False False] by (simp only: copied_1)
    have "copied (dst + 1) (src + 1) (unat (t - 1)) (copied dst src 1 m) = copied dst src (unat t) m"
      using copied_append [of 1 1 "unat (t - 1)" dst src m] t "1.prems"(2) u32_bound [of t] by simp
    with IH False show ?thesis
      by (subst copy_bytes.simps) (simp del: fun_upd_apply)
  qed
qed


text \<open>Storing a loaded word copies its four bytes.\<close>

lemma ld32_bytes:
  "ucast (ld32 m a) = m a" "ucast (drop_bit 8 (ld32 m a)) = m (a + 1)"
  "ucast (drop_bit 16 (ld32 m a)) = m (a + 2)" "ucast (drop_bit 24 (ld32 m a)) = m (a + 3)"
  by (rule bit_eqI, auto simp: ld32_def bit_simps dest: bit_imp_possible_bit)+

lemma st32_ld32:
  assumes "span dst 4 \<inter> span src 4 = {}"
  shows "st32 m dst (ld32 m src) = copied dst src 4 m"
proof
  fix x
  show "st32 m dst (ld32 m src) x = copied dst src 4 m x"
    by (auto simp: copied_def st32_def ld32_bytes span4)
qed

lemma copy_words_eq:
  assumes "t \<noteq> 0" and "4 * unat t < 4294967296"
    and "span dst (4 * unat t) \<inter> span src (4 * unat t) = {}"
  shows "copy_words t dst src m = (dst + 4 * t, src + 4 * t, copied dst src (4 * unat t) m)"
  using assms
proof (induction t dst src m rule: copy_words.induct)
  case (1 t dst src m)
  have s4: "span dst 4 \<inter> span src 4 = {}"
  proof -
    have "4 \<le> 4 * unat t" using "1.prems"(1) by (simp add: word_unat_eq_iff)
    then show ?thesis using "1.prems"(3) span_mono by blast
  qed
  show ?case
  proof (cases "t - 1 = 0")
    case True
    then have "t = 1" by simp
    then show ?thesis by (subst copy_words.simps) (simp add: st32_ld32 [OF s4])
  next
    case False
    have t: "unat t = Suc (unat (t - 1))"
      using "1.prems"(1) u32_diff [of t 1] by (auto simp: word_unat_eq_iff)
    have "span (dst + 4) (4 * unat (t - 1)) \<inter> span (src + 4) (4 * unat (t - 1)) = {}"
      using "1.prems"(3) span_offset_subset [of 4 "4 * unat (t - 1)" "4 * unat t"] t by fastforce
    then have IH: "copy_words (t - 1) (dst + 4) (src + 4) (copied dst src 4 m)
        = (dst + 4 + 4 * (t - 1), src + 4 + 4 * (t - 1),
           copied (dst + 4) (src + 4) (4 * unat (t - 1)) (copied dst src 4 m))"
      using "1.IH" [OF refl False False] "1.prems"(2) t unfolding st32_ld32 [OF s4] by force
    have "copied (dst + 4) (src + 4) (4 * unat (t - 1)) (copied dst src 4 m)
        = copied dst src (4 * unat t) m"
      using copied_append [of 4 4 "4 * unat (t - 1)" dst src m] t "1.prems"(2,3) by simp
    with IH False show ?thesis
      by (subst copy_words.simps) (simp add: st32_ld32 [OF s4] algebra_simps)
  qed
qed


lemma filled_next:
  assumes "unat k = i" and "i + j \<le> 4294967296"
  shows "filled (d + k) j c (filled d i c m) = filled d (i + j) c m"
  using span_Un_next [OF assms, of _ d] by (auto simp: filled_def)

lemma filled_1: "filled d 1 c m = m(d := c)"
  by (auto simp: filled_def)

lemma set_bytes_eq: "n \<noteq> 0 \<Longrightarrow> set_bytes c d n m = filled d (unat n) c m"
proof (induction c d n m rule: set_bytes.induct)
  case (1 c d n m)
  show ?case
  proof (cases "n - 1 = 0")
    case True
    then have "n = 1" by simp
    then show ?thesis using filled_1 [of d c m] by (subst set_bytes.simps) simp
  next
    case False
    have n: "unat n = Suc (unat (n - 1))"
      using "1.prems"(1) u32_diff [of n 1] by (auto simp: word_unat_eq_iff)
    have "set_bytes c (d + 1) (n - 1) (filled d 1 c m) = filled (d + 1) (unat (n - 1)) c (filled d 1 c m)"
      using "1.IH" [OF refl False False] by (simp only: filled_1)
    also have "\<dots> = filled d (unat n) c m"
      using filled_next [of 1 1 "unat (n - 1)" d c m] n u32_bound [of n] by simp
    finally show ?thesis
      using False by (subst set_bytes.simps) (simp del: fun_upd_apply add: filled_1 [simplified])
  qed
qed

text \<open>The three stages of \<open>memcpy\<close>, each skipped when its count is 0.\<close>

definition maybe_bytes :: "u32 \<Rightarrow> u32 \<times> u32 \<times> memory \<Rightarrow> u32 \<times> u32 \<times> memory" where
  "maybe_bytes t = (\<lambda>(d, s, m). if t \<noteq> 0 then copy_bytes t d s m else (d, s, m))"

definition maybe_words :: "u32 \<Rightarrow> u32 \<times> u32 \<times> memory \<Rightarrow> u32 \<times> u32 \<times> memory" where
  "maybe_words t = (\<lambda>(d, s, m). if t \<noteq> 0 then copy_words t d s m else (d, s, m))"

lemma maybe_bytes_eq:
  "span d (unat t) \<inter> span s (unat t) = {} \<Longrightarrow>
    maybe_bytes t (d, s, m) = (d + t, s + t, copied d s (unat t) m)"
  by (simp add: maybe_bytes_def copy_bytes_eq)

lemma maybe_words_eq:
  "4 * unat t < 4294967296 \<Longrightarrow> span d (4 * unat t) \<inter> span s (4 * unat t) = {} \<Longrightarrow>
    maybe_words t (d, s, m) = (d + 4 * t, s + 4 * t, copied d s (4 * unat t) m)"
  by (simp add: maybe_words_def copy_words_eq)

lemma disj_within:
  assumes "span d n \<inter> span s n = {}" and "unat k + j \<le> n"
  shows "span (d + k) j \<inter> span (s + k) j = {}"
  using assms span_offset_subset [of k j n d] span_offset_subset [of k j n s] by blast

lemma memcpy_head_le: "unat (memcpy_head d s len) \<le> unat len"
  by (auto simp: memcpy_head_def u32_diff wmask_def unat_and_3 word_less_nat_alt)

lemma memcpy_head_nz: "len \<noteq> 0 \<Longrightarrow> memcpy_head d s len \<noteq> 0"
proof -
  have "unat (s AND 3) < 4" by (simp add: unat_and_3)
  then have "s AND 3 \<noteq> 4" by (auto simp del: unat_and_3)
  then show "len \<noteq> 0 \<Longrightarrow> memcpy_head d s len \<noteq> 0"
    by (auto simp: memcpy_head_def wmask_def)
qed

section \<open>The whole copy and fill\<close>

lemma memcpy_disj:
  assumes "span dst (unat len) \<inter> span src (unat len) = {}"
  shows "memcpy dst src len m = (dst, copied dst src (unat len) m)"
proof (cases "len = 0")
  case True
  then show ?thesis by (simp add: memcpy_def)
next
  case False
  then have len0: "0 < unat len" by (simp add: word_unat_eq_iff)
  then have "dst \<noteq> src" using assms span_base [of dst "unat len"] by blast
  define h where "h = (if (src OR dst) AND wmask \<noteq> 0 then memcpy_head dst src len else 0)"
  define l where "l = len - h"
  have "unat h \<le> unat len" by (simp add: h_def memcpy_head_le)
  then have l: "unat l = unat len - unat h" by (simp add: l_def u32_diff)
  have split: "unat len = unat h + 4 * unat (l div 4) + unat (l AND wmask)"
    using l \<open>unat h \<le> unat len\<close> by (simp add: wmask_def unat_and_3 unat_div_distrib)
  let ?k = "unat h + 4 * unat (l div 4)" and ?w = "h + 4 * (l div 4)"
  have w: "unat ?w = ?k"
    using split u32_bound [of len] by (simp add: unat_word_ariths)
  have part: "span dst j \<inter> span src j = {}" if "j \<le> unat len" for j
    using assms span_mono [OF that, of dst] span_mono [OF that, of src] by blast
  have "memcpy dst src len m = (dst, snd (snd (maybe_bytes (l AND wmask) (maybe_words (l div 4)
      (maybe_bytes h (dst, src, m))))))"
    using False \<open>dst \<noteq> src\<close>
    by (auto simp: memcpy_def maybe_bytes_def maybe_words_def h_def l_def Let_def
        memcpy_head_nz split: prod.splits)
  also have "maybe_bytes h (dst, src, m) = (dst + h, src + h, copied dst src (unat h) m)"
    using part by (intro maybe_bytes_eq) (simp add: split)
  also have "maybe_words (l div 4) \<dots> = (dst + h + 4 * (l div 4), src + h + 4 * (l div 4),
      copied (dst + h) (src + h) (4 * unat (l div 4)) (copied dst src (unat h) m))"
    using split u32_bound [of len] by (intro maybe_words_eq disj_within [OF assms]) simp_all
  also have "copied (dst + h) (src + h) (4 * unat (l div 4)) (copied dst src (unat h) m)
      = copied dst src ?k m"
    using split u32_bound [of len] part by (intro copied_append) simp_all
  also have "(dst + h + 4 * (l div 4), src + h + 4 * (l div 4), copied dst src ?k m)
      = (dst + ?w, src + ?w, copied dst src ?k m)" by simp
  also have "maybe_bytes (l AND wmask) \<dots> = (dst + ?w + (l AND wmask), src + ?w + (l AND wmask),
      copied (dst + ?w) (src + ?w) (unat (l AND wmask)) (copied dst src ?k m))"
    using split w by (intro maybe_bytes_eq disj_within [OF assms]) simp_all
  also have "copied (dst + ?w) (src + ?w) (unat (l AND wmask)) (copied dst src ?k m)
      = copied dst src (?k + unat (l AND wmask)) m"
    using split u32_bound [of len] part w by (intro copied_append) simp_all
  finally show ?thesis by (simp add: split)
qed

lemma memset_filled: "memset dst c n m = (dst, filled dst (unat n) (ucast c) m)"
  by (cases "n = 0") (auto simp: memset_def set_bytes_eq filled_def)

text \<open>Reading back what was copied or filled.\<close>

lemma copied_same_outside [frame_intro]: "same_outside (span d n) m (copied d s n m)"
  by (simp add: same_outside_def copied_def span_def)

lemma filled_same_outside [frame_intro]: "same_outside (span d n) m (filled d n v m)"
  by (simp add: same_outside_def filled_def span_def)

lemma ld32_copied: "unat k + 4 \<le> n \<Longrightarrow> ld32 (copied d s n m) (d + k) = ld32 m (s + k)"
proof -
  assume a: "unat k + 4 \<le> n"
  have "unat (k + 1) < n" "unat (k + 2) < n" "unat (k + 3) < n" "unat k < n"
    using a unat_plus_if' [of k 1] unat_plus_if' [of k 2] unat_plus_if' [of k 3] by (auto split: if_splits)
  then show ?thesis by (simp add: ld32_def copied_def mem_span_iff add.assoc add.commute [of k])
qed

lemma ld32_filled: "unat k + 4 \<le> n \<Longrightarrow> ld32 (filled d n 0 m) (d + k) = 0"
proof -
  assume a: "unat k + 4 \<le> n"
  have "unat (k + 1) < n" "unat (k + 2) < n" "unat (k + 3) < n" "unat k < n"
    using a unat_plus_if' [of k 1] unat_plus_if' [of k 2] unat_plus_if' [of k 3] by (auto split: if_splits)
  then show ?thesis by (simp add: ld32_def filled_def mem_span_iff add.assoc)
qed

section \<open>Results\<close>

text \<open>
  C23. For operands that do not overlap \<open>memcpy\<close> is the byte-wise copy: it returns its first
  argument, the destination range holds the source bytes and nothing else changes. So the
  head, word and tail loops together copy each byte exactly once.
\<close>

theorem memcpy_correct:
  assumes "span dst (unat len) \<inter> span src (unat len) = {}"
  shows "memcpy dst src len m = (dst, copied dst src (unat len) m)"
  by (rule memcpy_disj [OF assms])

theorem memcpy_correct_witness:
  "memcpy 0x1003 0x2007 9 (\<lambda>a. ucast a) = (0x1003, copied 0x1003 0x2007 9 (\<lambda>a. ucast a))"
proof -
  have "span 0x1003 (unat (9 :: u32)) \<inter> span 0x2007 (unat (9 :: u32)) = {}"
    by (rule span_disjI) simp_all
  from memcpy_correct [OF this] show ?thesis by simp
qed

text \<open>\<open>memset\<close> fills exactly the \<open>n\<close> bytes from its first argument on.\<close>

theorem memset_correct: "memset dst c n m = (dst, filled dst (unat n) (ucast c) m)"
  by (rule memset_filled)

end
