(* ===== verification/Printf.thy ===== *)
theory Printf
  imports Prelude "HOL-Library.Char_ord"
begin

text \<open>
  \<open>lib/libc/stdio/snprintf.c\<close>, \<open>drivers/serial/uart-printf.c\<close> and the string routines of
  \<open>drivers/serial/uart.c\<close>: formatted output. The buffer is filled from position 0 upwards,
  so it is modelled by the list of bytes written so far; a \<open>set_ch\<close> that fills it ends the
  call. The format string is the list of its bytes up to the terminating NUL.
\<close>

section \<open>Numbers\<close>

definition digits :: string where
  "digits = ''0123456789ABCDEF''"

definition digit :: "u32 \<Rightarrow> char" where
  "digit n = digits ! unat n"

text \<open>The loop that fills \<open>buf\<close>, least significant digit first; the bases are 8, 10 and 16.\<close>

function uint_buf :: "u32 \<Rightarrow> u32 \<Rightarrow> string" where
  [code]: "uint_buf base uval =
     (if 0 < uval \<and> 1 < base then digit (uval mod base) # uint_buf base (uval div base) else [])"
  by pat_completeness auto
termination
  by (relation "measure (\<lambda>(_, uval). unat uval)")
    (auto simp: unat_div_distrib word_less_nat_alt)

declare uint_buf.simps [simp del]

definition FLAG_ZEROPAD :: u32 where "FLAG_ZEROPAD = 0x002"
definition FLAG_NEG :: u32 where "FLAG_NEG = 0x100"

text \<open>
  The bytes \<open>print_uint\<close> sends to \<open>set_ch\<close>. The second condition is the code's
  \<open>flag | FLAG_ZEROPAD\<close>, which is never 0, so the third branch is never taken.
\<close>

definition print_uint :: "u32 \<Rightarrow> int \<Rightarrow> u32 \<Rightarrow> u32 \<Rightarrow> string" where
  "print_uint flag width base uval =
     (let buf = (if uint_buf base uval = [] then ''0'' else uint_buf base uval);
          sign = (if flag AND FLAG_NEG \<noteq> 0 then ''-'' else '''')
      in if width = 0 then sign @ rev buf
         else if 0 < width \<and> flag OR FLAG_ZEROPAD \<noteq> 0
         then sign @ map (\<lambda>k. if length buf \<le> k then CHR ''0'' else buf ! k) (rev [0..<nat width])
         else if 0 < width
         then map (\<lambda>k. if length (buf @ sign) \<le> k then CHR '' '' else (buf @ sign) ! k)
           (rev [0..<nat width])
         else '''')"

section \<open>\<open>vsnprintf\<close>\<close>

text \<open>
  An argument is a 32-bit word or a string pointer (\<open>None\<close> is \<open>NULL\<close>). The outcome is the
  return value with the bytes written from \<open>str[0]\<close> on, or \<open>Undefined\<close> where the code reads
  past the end of the format, or takes an argument that is not there or is of the other kind.
\<close>

datatype va = VWord u32 | VStr "string option"

datatype vsn_result = Returns nat string | Undefined

definition NUL :: char where
  "NUL = CHR 0x00"

definition set_ch :: "nat \<Rightarrow> string \<Rightarrow> char \<Rightarrow> vsn_result + string" where
  "set_ch sz out ch =
     (let out' = out @ [ch]
      in if length out' = sz then Inl (Returns sz (out'[sz - 1 := NUL])) else Inr out')"

fun set_chs :: "nat \<Rightarrow> string \<Rightarrow> string \<Rightarrow> vsn_result + string" where
  "set_chs sz out [] = Inr out"
| "set_chs sz out (ch # chs) =
     (case set_ch sz out ch of Inl r \<Rightarrow> Inl r | Inr out' \<Rightarrow> set_chs sz out' chs)"

definition is_digit :: "char \<Rightarrow> bool" where
  "is_digit ch \<longleftrightarrow> CHR ''0'' \<le> ch \<and> ch \<le> CHR ''9''"

definition add_width :: "int \<Rightarrow> string \<Rightarrow> int" where
  "add_width = foldl (\<lambda>w ch. w * 10 + (int (of_char ch) - 48))"

text \<open>The text of a conversion that takes an argument, or \<open>None\<close> where that is undefined.\<close>

fun conversion :: "char \<Rightarrow> u32 \<Rightarrow> int \<Rightarrow> va \<Rightarrow> string option" where
  "conversion ch flag width (VWord v) =
     (if ch = CHR ''d'' then
        (if v <s 0 then Some (print_uint (flag OR FLAG_NEG) width 10 (- v))
         else Some (print_uint flag width 10 v))
      else if ch = CHR ''o'' then Some (print_uint flag width 8 v)
      else if ch = CHR ''x'' \<or> ch = CHR ''p'' then Some (print_uint flag width 16 v)
      else if ch = CHR ''u'' then Some (print_uint flag width 10 v)
      else if ch = CHR ''c'' then Some [char_of (unat v)]
      else None)"
| "conversion ch flag width (VStr p) =
     (if ch = CHR ''s'' then
        (let str = (case p of None \<Rightarrow> ''(null)'' | Some str \<Rightarrow> str)
         in Some (str @ replicate (nat width - length str) (CHR '' '')))
      else None)"

text \<open>
  The main loop. \<open>pct\<close> says that the code is at \<open>fmt_loop\<close>, inside a conversion. The flag
  and the width are reset after a conversion, but not after an unknown one.
\<close>

function vsn :: "nat \<Rightarrow> bool \<Rightarrow> u32 \<Rightarrow> int \<Rightarrow> string \<Rightarrow> va list \<Rightarrow> string \<Rightarrow> vsn_result" where
  "vsn sz False flag width [] ap out =
     (case set_ch sz out NUL of Inl r \<Rightarrow> r | Inr out' \<Rightarrow> Returns (length out' - 1) out')"
| "vsn sz False flag width (ch # fmt) ap out =
     (if ch = CHR ''%'' then vsn sz True flag width fmt ap out
      else (case set_ch sz out ch of
          Inl r \<Rightarrow> r
        | Inr out' \<Rightarrow> vsn sz False flag width fmt ap out'))"
| "vsn sz True flag width [] ap out =
     (case set_chs sz out [CHR ''%'', NUL] of Inl r \<Rightarrow> r | Inr _ \<Rightarrow> Undefined)"
| "vsn sz True flag width (ch # fmt) ap out =
     (if ch \<in> set ''doxpucs'' then
        (case ap of
          [] \<Rightarrow> Undefined
        | a # ap' \<Rightarrow>
            (case conversion ch flag width a of
              None \<Rightarrow> Undefined
            | Some text \<Rightarrow>
                (case set_chs sz out text of
                  Inl r \<Rightarrow> r
                | Inr out' \<Rightarrow> vsn sz False 0 0 fmt ap' out')))
      else if ch = CHR ''%'' then
        (case set_ch sz out ch of
          Inl r \<Rightarrow> r
        | Inr out' \<Rightarrow> vsn sz False 0 0 fmt ap out')
      else if ch = CHR ''0'' then vsn sz True (flag OR FLAG_ZEROPAD) width fmt ap out
      else if is_digit ch then
        vsn sz True flag (add_width width (ch # takeWhile is_digit fmt))
          (dropWhile is_digit fmt) ap out
      else
        (case set_chs sz out [CHR ''%'', ch] of
          Inl r \<Rightarrow> r
        | Inr out' \<Rightarrow> vsn sz False flag width fmt ap out'))"
  by pat_completeness auto
termination
  by (relation "measure (\<lambda>(_, _, _, _, fmt, _). length fmt)")
    (auto simp: less_Suc_eq_le length_dropWhile_le)

definition vsnprintf :: "nat \<Rightarrow> string \<Rightarrow> va list \<Rightarrow> vsn_result" where
  "vsnprintf sz fmt ap = vsn sz False 0 0 fmt ap []"

definition snprintf :: "nat \<Rightarrow> string \<Rightarrow> va list \<Rightarrow> vsn_result" where
  "snprintf sz fmt ap = vsnprintf sz fmt ap"

section \<open>The console\<close>

definition BUFSIZ :: nat where
  "BUFSIZ = 1024"

text \<open>\<open>uart_spin_puts\<close> sends the bytes of a C string, up to its NUL.\<close>

definition uart_spin_puts :: "string \<Rightarrow> 'a machine_scheme \<Rightarrow> 'a machine_scheme" where
  "uart_spin_puts str s = kputs (takeWhile (\<lambda>ch. ch \<noteq> NUL) str) s"

definition uart_spin_vprintf ::
    "string \<Rightarrow> va list \<Rightarrow> 'a machine_scheme \<Rightarrow> nat option \<times> 'a machine_scheme" where
  "uart_spin_vprintf fmt ap s =
     (case vsnprintf BUFSIZ fmt ap of
        Returns result printf_buf \<Rightarrow> (Some result, uart_spin_puts printf_buf s)
      | Undefined \<Rightarrow> (None, s))"

text \<open>The kernel never looks at the result of a diagnostic.\<close>

definition uart_spin_printf :: "string \<Rightarrow> va list \<Rightarrow> 'a machine_scheme \<Rightarrow> 'a machine_scheme" where
  "uart_spin_printf fmt ap s = snd (uart_spin_vprintf fmt ap s)"

definition puthex_text :: "u32 \<Rightarrow> string" where
  "puthex_text num = map (\<lambda>i. digit (drop_bit i num AND 0xF)) [28, 24, 20, 16, 12, 8, 4, 0] @ crlf"

definition puthex :: "u32 \<Rightarrow> 'a machine_scheme \<Rightarrow> 'a machine_scheme" where
  "puthex num s = uart_spin_puts (puthex_text num) s"

lemma mem_uart [simp]:
  "mem (uart_spin_puts str s) = mem s"
  "mem (uart_spin_printf fmt ap s) = mem s"
  "mem (puthex num s) = mem s"
  by (simp_all add: uart_spin_puts_def uart_spin_printf_def uart_spin_vprintf_def puthex_def
      split: vsn_result.split)

text \<open>A diagnostic appends to the console and does nothing else.\<close>

lemma uart_kputs:
  obtains str where "uart_spin_printf fmt ap s = kputs str s"
  by (cases "vsnprintf BUFSIZ fmt ap")
    (auto simp: uart_spin_printf_def uart_spin_vprintf_def uart_spin_puts_def kputs_def intro: that [of "[]"])

section \<open>The output buffer is never overrun\<close>

lemma set_ch_Inr: "set_ch sz out ch = Inr out' \<Longrightarrow> out' = out @ [ch] \<and> Suc (length out) \<noteq> sz"
  by (auto simp: set_ch_def Let_def split: if_splits)

lemma set_ch_room: "set_ch sz out ch = Inr out' \<Longrightarrow> length out < sz \<Longrightarrow> length out' < sz"
  by (auto dest: set_ch_Inr)

lemma set_chs_Inr: "set_chs sz out chs = Inr out' \<Longrightarrow> length out < sz \<Longrightarrow> out' = out @ chs \<and> length out' < sz"
  by (induction sz out chs rule: set_chs.induct) (fastforce split: sum.splits dest: set_ch_Inr)+

definition vsn_good :: "nat \<Rightarrow> vsn_result \<Rightarrow> bool" where
  "vsn_good sz r \<longleftrightarrow> (case r of
     Returns n buf \<Rightarrow> buf \<noteq> [] \<and> last buf = NUL \<and> length buf \<le> sz
       \<and> (n = sz \<and> length buf = sz \<or> n + 1 = length buf \<and> n + 1 < sz)
   | Undefined \<Rightarrow> True)"

lemma set_ch_Inl: "set_ch sz out ch = Inl r \<Longrightarrow> vsn_good sz r"
  by (auto simp: set_ch_def Let_def vsn_good_def last_conv_nth split: if_splits)

lemma set_chs_Inl: "set_chs sz out chs = Inl r \<Longrightarrow> vsn_good sz r"
  by (induction sz out chs rule: set_chs.induct) (auto split: sum.splits dest: set_ch_Inl)

lemma vsn_good: "length out < sz \<Longrightarrow> vsn_good sz (vsn sz pct flag width fmt ap out)"
proof (induction sz pct flag width fmt ap out rule: vsn.induct)
  case (1 sz flag width ap out)
  then show ?case
    by (auto simp: vsn_good_def NUL_def split: sum.splits dest: set_ch_Inl set_ch_Inr)
next
  case (2 sz flag width ch fmt ap out)
  then show ?case by (auto split: sum.splits dest: set_ch_Inl set_ch_room)
next
  case (3 sz flag width ap out)
  then show ?case
    by (auto simp: vsn_good_def [of _ Undefined] split: sum.splits simp del: set_chs.simps
        dest: set_chs_Inl)
next
  case (4 sz flag width ch fmt ap out)
  have chs: "vsn_good sz (case set_chs sz out chs of Inl r \<Rightarrow> r | Inr out' \<Rightarrow> f out')"
    if "\<And>out'. set_chs sz out chs = Inr out' \<Longrightarrow> length out' < sz \<Longrightarrow> vsn_good sz (f out')" for chs f
    using that set_chs_Inl set_chs_Inr [OF _ "4.prems"] by (auto split: sum.split)
  have ch1: "vsn_good sz (case set_ch sz out c of Inl r \<Rightarrow> r | Inr out' \<Rightarrow> f out')"
    if "\<And>out'. set_ch sz out c = Inr out' \<Longrightarrow> length out' < sz \<Longrightarrow> vsn_good sz (f out')" for c f
    using that set_ch_Inl set_ch_room [OF _ "4.prems"] by (auto split: sum.split)
  have und: "vsn_good sz Undefined" by (simp add: vsn_good_def)
  consider "ch \<in> set ''doxpucs''" | "ch = CHR ''%''" | "ch = CHR ''0''"
    | "ch \<notin> set ''doxpucs''" "ch \<noteq> CHR ''%''" "ch \<noteq> CHR ''0''" "is_digit ch"
    | "ch \<notin> set ''doxpucs''" "ch \<noteq> CHR ''%''" "ch \<noteq> CHR ''0''" "\<not> is_digit ch" by blast
  then show ?case
  proof cases
    case 1
    show ?thesis
      unfolding vsn.simps if_P [OF 1]
      by (cases ap; auto split: option.split simp: und intro!: chs "4.IH"(1) [OF 1])
  next
    case 2
    then show ?thesis by (simp del: set_chs.simps) (rule ch1, rule "4.IH"(2), simp_all)
  next
    case 3
    then show ?thesis using "4.IH"(3) "4.prems" by (simp del: set_chs.simps)
  next
    case 4
    then show ?thesis using "4.IH"(4) "4.prems" by (simp del: set_chs.simps)
  next
    case 5
    then show ?thesis
      unfolding vsn.simps if_not_P [OF 5(1)] if_not_P [OF 5(2)] if_not_P [OF 5(3)] if_not_P [OF 5(4)]
      by (intro chs "4.IH"(5)) auto
  qed
qed

text \<open>
  C24. With a buffer of at least one byte, \<open>vsnprintf\<close> never writes past it and always leaves
  it terminated by a NUL; a return value below the size is the length of the text, a return
  value equal to the size says that the buffer is full.
\<close>

theorem vsnprintf_bounded:
  assumes "0 < sz" and "vsnprintf sz fmt ap = Returns n buf"
  shows "buf \<noteq> [] \<and> length buf \<le> sz \<and> last buf = NUL
    \<and> (n = sz \<and> length buf = sz \<or> n + 1 = length buf \<and> n + 1 < sz)"
  using vsn_good [of "[]" sz False 0 0 fmt ap] assms
  by (simp add: vsnprintf_def vsn_good_def)

theorem vsnprintf_bounded_witness:
  "last [CHR ''4'', CHR ''2'', NUL] = NUL \<and> length [CHR ''4'', CHR ''2'', NUL] \<le> 3"
proof -
  have "vsnprintf 3 ''%d%d'' [VWord 42, VWord 7] = Returns 3 [CHR ''4'', CHR ''2'', NUL]"
    by code_simp
  from vsnprintf_bounded [OF _ this] show ?thesis by simp
qed

section \<open>Numbers are printed exactly\<close>

text \<open>The value of a digit string, most significant digit first, and of a signed decimal.\<close>

definition digit_value :: "char \<Rightarrow> nat" where
  "digit_value ch = (let c = of_char ch in if c < 58 then c - 48 else c - 55)"

definition parse_uint :: "nat \<Rightarrow> string \<Rightarrow> nat" where
  "parse_uint base = foldl (\<lambda>a ch. a * base + digit_value ch) 0"

definition parse_int :: "string \<Rightarrow> int" where
  "parse_int str = (case str of
     ch # chs \<Rightarrow> if ch = CHR ''-'' then - int (parse_uint 10 chs) else int (parse_uint 10 str)
   | [] \<Rightarrow> 0)"

lemma parse_uint_snoc: "parse_uint base (str @ [ch]) = parse_uint base str * base + digit_value ch"
  by (simp add: parse_uint_def)

lemma parse_uint_Nil [simp]: "parse_uint base [] = 0"
  by (simp add: parse_uint_def)

lemma all_u32_below_16:
  assumes "unat (n :: u32) < 16" and "\<And>k. k \<in> {0, 1, 2, 3, 4, 5, 6, 7, 8, 9, 10, 11, 12, 13, 14, 15} \<Longrightarrow> P k"
  shows "P n"
proof -
  have "i \<in> {0, 1, 2, 3, 4, 5, 6, 7, 8, 9, 10, 11, 12, 13, 14, 15}" if "i < 16" for i :: nat
    using that by (simp, presburger)
  then have "unat n \<in> {0, 1, 2, 3, 4, 5, 6, 7, 8, 9, 10, 11, 12, 13, 14, 15}"
    using assms(1) .
  then have "n \<in> {0, 1, 2, 3, 4, 5, 6, 7, 8, 9, 10, 11, 12, 13, 14, 15}"
    by (simp add: word_unat_eq_iff)
  then show ?thesis by (rule assms(2))
qed

lemma digit_value_digit: "unat n < 16 \<Longrightarrow> digit_value (digit n) = unat n"
  by (erule all_u32_below_16) (auto simp: digit_def digits_def digit_value_def)

lemma digit_not_minus: "unat n < 16 \<Longrightarrow> digit n \<noteq> CHR ''-''"
  by (erule all_u32_below_16) (auto simp: digit_def digits_def)

lemma uint_buf_0 [simp]: "uint_buf base 0 = []"
  by (subst uint_buf.simps) simp

lemma uint_buf_step:
  "1 < base \<Longrightarrow> uval \<noteq> 0 \<Longrightarrow>
    uint_buf base uval = digit (uval mod base) # uint_buf base (uval div base)"
  by (subst uint_buf.simps) (simp add: word_neq_0_conv)

lemma mod_base_16: "1 < base \<Longrightarrow> base \<le> 16 \<Longrightarrow> unat ((uval :: u32) mod base) < 16"
  by (simp add: unat_mod_distrib word_less_nat_alt word_le_nat_alt)
    (metis less_le_trans mod_less_divisor gr_implies_not0 neq0_conv)

lemma parse_uint_buf:
  assumes "1 < base" and "base \<le> 16"
  shows "parse_uint (unat base) (rev (uint_buf base uval)) = unat uval"
proof (induction "unat uval" arbitrary: uval rule: less_induct)
  case less
  show ?case
  proof (cases "uval = 0")
    case False
    have "unat (uval div base) < unat uval"
      using False assms(1) by (simp add: unat_div_distrib word_less_nat_alt word_unat_eq_iff)
    from less.hyps [OF this]
    have "parse_uint (unat base) (rev (uint_buf base uval))
        = unat (uval div base) * unat base + digit_value (digit (uval mod base))"
      by (simp add: uint_buf_step False assms parse_uint_snoc)
    then show ?thesis
      unfolding digit_value_digit [OF mod_base_16 [OF assms]]
      by (simp add: unat_div_distrib unat_mod_distrib)
  qed simp
qed

lemma uint_buf_digits:
  assumes "1 < base" and "base \<le> 16"
  shows "ch \<in> set (uint_buf base uval) \<Longrightarrow> \<exists>n :: u32. unat n < 16 \<and> ch = digit n"
proof (induction "unat uval" arbitrary: uval rule: less_induct)
  case less
  show ?case
  proof (cases "uval = 0")
    case False
    have "unat (uval div base) < unat uval"
      using False assms(1) by (simp add: unat_div_distrib word_less_nat_alt word_unat_eq_iff)
    note IH = less.hyps [OF this]
    have "ch = digit (uval mod base) \<or> ch \<in> set (uint_buf base (uval div base))"
      using less.prems False assms by (simp add: uint_buf_step)
    then show ?thesis using IH mod_base_16 [OF assms, of uval] by blast
  qed (use less.prems in simp)
qed

lemma uint_buf_length:
  assumes "1 < base"
  shows "unat uval < unat base ^ k \<Longrightarrow> length (uint_buf base uval) \<le> k"
proof (induction k arbitrary: uval)
  case 0
  then show ?case by (simp add: unsigned_eq_0_iff)
next
  case (Suc k)
  show ?case
  proof (cases "uval = 0")
    case False
    have "unat (uval div base) < unat base ^ k"
      using Suc.prems by (simp add: unat_div_distrib less_mult_imp_div_less mult.commute)
    with Suc.IH False assms show ?thesis by (simp add: uint_buf_step)
  qed simp
qed

lemma set_chs_room: "length out + length chs < sz \<Longrightarrow> set_chs sz out chs = Inr (out @ chs)"
  by (induction sz out chs rule: set_chs.induct) (auto simp: set_ch_def)

definition uint_text :: "u32 \<Rightarrow> u32 \<Rightarrow> string" where
  "uint_text base uval = (if uint_buf base uval = [] then ''0'' else rev (uint_buf base uval))"

lemma print_uint_0:
  "print_uint flag 0 base uval = (if flag AND FLAG_NEG \<noteq> 0 then ''-'' else '''') @ uint_text base uval"
  by (simp add: print_uint_def uint_text_def Let_def)

lemma uint_buf_Nil_iff: "1 < base \<Longrightarrow> uint_buf base uval = [] \<longleftrightarrow> uval = 0"
  by (cases "uval = 0") (simp_all add: uint_buf_step)

lemma parse_uint_text: "1 < base \<Longrightarrow> base \<le> 16 \<Longrightarrow> parse_uint (unat base) (uint_text base uval) = unat uval"
  by (auto simp: uint_text_def uint_buf_Nil_iff parse_uint_buf)
    (simp add: parse_uint_def digit_value_def)

lemma hd_uint_text:
  assumes "1 < base" and "base \<le> 16"
  shows "\<exists>ch chs. uint_text base uval = ch # chs \<and> ch \<noteq> CHR ''-''"
proof (cases "uint_buf base uval = []")
  case True
  then show ?thesis by (simp add: uint_text_def)
next
  case False
  then obtain chs ch where "uint_buf base uval = chs @ [ch]" by (meson rev_exhaust)
  moreover from this obtain n :: u32 where "unat n < 16" "ch = digit n"
    using uint_buf_digits [OF assms, of ch uval] by auto
  ultimately show ?thesis by (auto simp: uint_text_def digit_not_minus)
qed

lemma uint_text_length: "length (uint_text 10 uval) \<le> 10"
  using uint_buf_length [of 10 uval 10] u32_bound [of uval] by (simp add: uint_text_def)

definition int_text :: "u32 \<Rightarrow> string" where
  "int_text v = (if v <s 0 then ''-'' @ uint_text 10 (- v) else uint_text 10 v)"

lemma int_text_length: "length (int_text v) \<le> 11"
  using uint_text_length [of v] uint_text_length [of "- v"] by (simp add: int_text_def)

lemma parse_int_text: "parse_int (int_text v) = sint v"
proof (cases "v <s 0")
  case True
  then have neg: "sint v < 0" by (simp add: word_sless_alt)
  then have "v \<noteq> 0" by auto
  then have "int (unat (- v)) = - sint v"
    using neg uint_minus_u32 [of v] uint_bound [of v] by (simp add: sint_u32 split: if_splits)
  then show ?thesis
    using True parse_uint_text [of 10 "- v"] by (simp add: int_text_def parse_int_def)
next
  case False
  then have "0 \<le> sint v" by (simp add: word_sless_alt)
  then have "int (unat v) = sint v" using uint_bound [of v] by (simp add: sint_u32 split: if_splits)
  then show ?thesis
    using False parse_uint_text [of 10 v] hd_uint_text [of 10 v]
    by (auto simp: int_text_def parse_int_def)
qed

text \<open>
  C25. \<open>%d\<close> prints a \<open>long\<close> exactly: in a buffer of 13 bytes or more the result is a text
  of the returned length that reads back as the signed value of the argument.
\<close>

theorem vsnprintf_d_roundtrip:
  assumes "13 \<le> sz"
  shows "\<exists>str. vsnprintf sz ''%d'' [VWord v] = Returns (length str) (str @ [NUL])
    \<and> parse_int str = sint v"
proof (intro exI conjI)
  have "length (int_text v) < sz" "length (int_text v) + 1 < sz"
    using int_text_length [of v] assms by simp_all
  moreover have "conversion CHR ''d'' 0 0 (VWord v) = Some (int_text v)"
    by (simp add: int_text_def print_uint_0 FLAG_NEG_def)
  ultimately show "vsnprintf sz ''%d'' [VWord v] = Returns (length (int_text v)) (int_text v @ [NUL])"
    by (simp add: vsnprintf_def set_chs_room set_ch_def Let_def del: conversion.simps)
  show "parse_int (int_text v) = sint v" by (rule parse_int_text)
qed

theorem vsnprintf_d_roundtrip_witness:
  "\<exists>str. vsnprintf 16 ''%d'' [VWord (- 120)] = Returns (length str) (str @ [NUL])
    \<and> parse_int str = - 120"
  using vsnprintf_d_roundtrip [of 16 "- 120"] by simp

lemma parse_uint_Cons: "parse_uint base (ch # str) = digit_value ch * base ^ length str + parse_uint base str"
proof (induction str rule: rev_induct)
  case (snoc c str)
  have "parse_uint base (ch # str @ [c]) = parse_uint base (ch # str) * base + digit_value c"
    using parse_uint_snoc [of base "ch # str" c] by simp
  then show ?case using snoc by (simp add: parse_uint_snoc algebra_simps)
qed (simp add: parse_uint_def)

lemma padded_shift:
  "map (\<lambda>k. if length (d # buf) \<le> k then z else (d # buf) ! k) (rev [0..<Suc w])
    = map (\<lambda>k. if length buf \<le> k then z else buf ! k) (rev [0..<w]) @ [d]"
proof -
  have "[0..<Suc w] = 0 # map Suc [0..<w]"
    by (simp only: map_Suc_upt upt_conv_Cons zero_less_Suc)
  then have "rev [0..<Suc w] = map Suc (rev [0..<w]) @ [0]"
    by (simp add: rev_map del: upt_Suc)
  then show ?thesis by (simp add: comp_def del: upt_Suc)
qed

lemma padded_Nil: "parse_uint base (map (\<lambda>k. CHR ''0'') ks) = 0"
  by (induction ks rule: rev_induct) (simp_all add: parse_uint_snoc digit_value_def)

text \<open>The value of the low \<open>w\<close> digits of a buffer, padded with zeros.\<close>

lemma parse_uint_padded:
  assumes "1 < base" and "base \<le> 16"
  shows "parse_uint (unat base)
      (map (\<lambda>k. if length (uint_buf base uval) \<le> k then CHR ''0'' else uint_buf base uval ! k) (rev [0..<w]))
    = unat uval mod unat base ^ w"
proof (induction w arbitrary: uval)
  case (Suc w)
  show ?case
  proof (cases "uval = 0")
    case False
    have "unat uval mod unat base ^ Suc w
        = unat base * (unat uval div unat base mod unat base ^ w) + unat uval mod unat base"
      by (simp add: mod_mult2_eq)
    then show ?thesis
      unfolding uint_buf_step [OF assms(1) False] padded_shift parse_uint_snoc Suc.IH
        digit_value_digit [OF mod_base_16 [OF assms]]
      by (simp add: unat_div_distrib unat_mod_distrib)
  qed (simp add: padded_Nil del: upt_Suc)
qed simp

text \<open>
  A field width is exact and pads with zeros: whatever the flags, a number printed with
  width \<open>w > 0\<close> takes \<open>w\<close> digits, whose value is that of the low \<open>w\<close> digits of the
  number; a longer number loses its leading digits.
\<close>

theorem print_uint_width:
  assumes "base = 8 \<or> base = 10 \<or> base = 16" and "0 < w" and "flag AND FLAG_NEG = 0"
  shows "length (print_uint flag (int w) base uval) = w
    \<and> parse_uint (unat base) (print_uint flag (int w) base uval) = unat uval mod unat base ^ w"
proof -
  have base: "1 < base" "base \<le> 16" using assms(1) by auto
  have "bit (flag OR FLAG_ZEROPAD) 1" by (simp add: FLAG_ZEROPAD_def bit_simps)
  then have "flag OR FLAG_ZEROPAD \<noteq> 0" by auto
  moreover have "(if Suc 0 \<le> k then CHR ''0'' else ''0'' ! k) = CHR ''0''" for k
    by (cases k) simp_all
  ultimately show ?thesis
    using assms(2,3) parse_uint_padded [OF base, of uval w]
    by (cases "uval = 0") (simp_all add: print_uint_def Let_def uint_buf_Nil_iff base(1) padded_Nil)
qed

theorem print_uint_width_witness:
  "length (print_uint 0 4 10 123456) = 4 \<and> parse_uint 10 (print_uint 0 4 10 123456) = 3456"
  using print_uint_width [of 10 4 0 123456] by (simp add: FLAG_NEG_def)

lemma nibble_step: "(n div (k * 16)) * 16 + n div k mod 16 = (n :: nat) div k"
  by (metis div_mult2_eq div_mult_mod_eq)

text \<open>\<open>puthex\<close> writes eight digits, whose value is its argument, and a line end.\<close>

theorem puthex_roundtrip:
  "length (puthex_text num) = 10 \<and> parse_uint 16 (take 8 (puthex_text num)) = unat num"
proof -
  have d: "digit_value (digit (drop_bit i num AND 0xF)) = unat num div 2 ^ i mod 16" for i
  proof -
    have "unat (drop_bit i num) = unat num div 2 ^ i"
      by (simp only: unat_drop_bit_eq) (simp only: drop_bit_eq_div)
    then have "unat (drop_bit i num AND 0xF) = unat num div 2 ^ i mod 16"
      using unat_and_mask_u32 [of "drop_bit i num" 4] by (simp add: mask_eq_exp_minus_1)
    then show ?thesis by (simp add: digit_value_digit)
  qed
  have "unat num div 268435456 mod 16 = unat num div 268435456"
    using u32_bound [of num] by simp
  then show ?thesis
    using nibble_step [of "unat num" 16777216] nibble_step [of "unat num" 1048576]
      nibble_step [of "unat num" 65536] nibble_step [of "unat num" 4096]
      nibble_step [of "unat num" 256] nibble_step [of "unat num" 16] nibble_step [of "unat num" 1]
      d [of 0]
    by (simp add: puthex_text_def parse_uint_def d crlf_def)
qed

end
