(* ===== verification/Alloc.thy ===== *)
theory Alloc
  imports Prelude
begin

text \<open>
  The contract of a memory allocator, shared by the page allocator, the object caches and
  \<open>kmalloc\<close>. An allocator owns a set of addresses; it hands out blocks of them and takes
  them back, and touches nothing else. The client may write to the blocks it holds.
\<close>

section \<open>Blocks\<close>

type_synonym area = "u32 \<times> u32"

definition foot :: "area list \<Rightarrow> u32 set" where
  "foot xs = (\<Union>(a, n) \<in> set xs. span a (unat n))"

lemma foot_Nil [simp]: "foot [] = {}"
  by (simp add: foot_def)

lemma foot_Cons [simp]: "foot ((a, n) # xs) = span a (unat n) \<union> foot xs"
  by (simp add: foot_def)

lemma foot_append [simp]: "foot (xs @ ys) = foot xs \<union> foot ys"
  by (auto simp: foot_def)

lemma area_in_foot: "(a, n) \<in> set xs \<Longrightarrow> span a (unat n) \<subseteq> foot xs"
  by (auto simp: foot_def)

lemma base_in_foot: "(b, k) \<in> set xs \<Longrightarrow> 0 < unat k \<Longrightarrow> b \<in> foot xs"
  using area_in_foot [of b k xs] by (auto simp del: span_base simp: span_base [of b "unat k"])

lemma foot_remove1_subset: "foot (remove1 x xs) \<subseteq> foot xs"
  using set_remove1_subset [of x xs] by (auto simp: foot_def)

lemma foot_remove1: "(a, n) \<in> set xs \<Longrightarrow> foot xs = span a (unat n) \<union> foot (remove1 (a, n) xs)"
  by (induction xs) (auto simp: foot_def)

text \<open>No two blocks of the list overlap.\<close>

fun blocks_disj :: "area list \<Rightarrow> bool" where
  "blocks_disj [] \<longleftrightarrow> True"
| "blocks_disj ((a, n) # xs) \<longleftrightarrow> span a (unat n) \<inter> foot xs = {} \<and> blocks_disj xs"

lemma blocks_disj_remove1:
  "blocks_disj xs \<Longrightarrow> (a, n) \<in> set xs \<Longrightarrow>
    blocks_disj (remove1 (a, n) xs) \<and> span a (unat n) \<inter> foot (remove1 (a, n) xs) = {}"
proof (induction xs)
  case (Cons bk xs)
  obtain b k where bk: "bk = (b, k)" by force
  show ?case
  proof (cases "bk = (a, n)")
    case True
    then show ?thesis using Cons.prems(1) by simp
  next
    case False
    then have mem: "(a, n) \<in> set xs" using Cons.prems(2) by simp
    then show ?thesis
      using False Cons.IH Cons.prems(1) foot_remove1_subset [of "(a, n)" xs] area_in_foot [OF mem]
      by (auto simp: bk)
  qed
qed simp

lemma blocks_disj_nth:
  "blocks_disj xs \<Longrightarrow> i < j \<Longrightarrow> j < length xs \<Longrightarrow>
    span (fst (xs ! i)) (unat (snd (xs ! i))) \<inter> span (fst (xs ! j)) (unat (snd (xs ! j))) = {}"
proof (induction xs arbitrary: i j rule: blocks_disj.induct)
  case (2 a n xs)
  show ?case
  proof (cases i)
    case 0
    have "(fst (xs ! (j - 1)), snd (xs ! (j - 1))) \<in> set xs" using "2.prems" by simp
    from area_in_foot [OF this] show ?thesis using 0 "2.prems" by (auto simp: nth_Cons')
  next
    case (Suc i')
    then show ?thesis using 2 by (cases j) auto
  qed
qed simp

section \<open>Runs of an allocator with its client\<close>

text \<open>
  The states that calls of \<open>alloc\<close> and \<open>release\<close> and client writes reach, with the blocks
  the client holds. \<open>ok\<close> says which sizes are asked for.
\<close>

inductive alloc_run ::
    "(u32 \<Rightarrow> 's \<Rightarrow> (u32 \<times> 's) option) \<Rightarrow> (u32 \<Rightarrow> u32 \<Rightarrow> 's \<Rightarrow> 's option) \<Rightarrow>
     (u32 \<Rightarrow> u8 \<Rightarrow> 's \<Rightarrow> 's) \<Rightarrow> (u32 \<Rightarrow> bool) \<Rightarrow> 's \<Rightarrow> 's \<Rightarrow> area list \<Rightarrow> bool"
  for alloc :: "u32 \<Rightarrow> 's \<Rightarrow> (u32 \<times> 's) option" and release :: "u32 \<Rightarrow> u32 \<Rightarrow> 's \<Rightarrow> 's option"
    and poke :: "u32 \<Rightarrow> u8 \<Rightarrow> 's \<Rightarrow> 's" and ok :: "u32 \<Rightarrow> bool" and s0 :: 's
  where
    run_start: "alloc_run alloc release poke ok s0 s0 []"
  | run_alloc: "alloc_run alloc release poke ok s0 s live \<Longrightarrow> ok k \<Longrightarrow> alloc k s = Some (p, s')
      \<Longrightarrow> alloc_run alloc release poke ok s0 s' ((p, k) # live)"
  | run_release: "alloc_run alloc release poke ok s0 s live \<Longrightarrow> (p, k) \<in> set live
      \<Longrightarrow> release p k s = Some s' \<Longrightarrow> alloc_run alloc release poke ok s0 s' (remove1 (p, k) live)"
  | run_write: "alloc_run alloc release poke ok s0 s live \<Longrightarrow> x \<in> foot live
      \<Longrightarrow> alloc_run alloc release poke ok s0 (poke x v s) live"

inductive_cases alloc_run_emptyE [elim]: "alloc_run alloc release poke ok s0 s []"

section \<open>The contract\<close>

locale allocator =
  fixes inv :: "'s \<Rightarrow> u32 set \<Rightarrow> bool"
    and mem_of :: "'s \<Rightarrow> memory"
    and alloc :: "u32 \<Rightarrow> 's \<Rightarrow> (u32 \<times> 's) option"
    and release :: "u32 \<Rightarrow> u32 \<Rightarrow> 's \<Rightarrow> 's option"
    and poke :: "u32 \<Rightarrow> u8 \<Rightarrow> 's \<Rightarrow> 's"
    and ok :: "u32 \<Rightarrow> bool"
    and good :: "u32 \<Rightarrow> u32 \<Rightarrow> bool"
  assumes alloc_law: "inv s own \<Longrightarrow> ok k \<Longrightarrow> alloc k s = Some (p, s') \<Longrightarrow>
      good p k \<and> span p (unat k) \<subseteq> own \<and> same_outside own (mem_of s) (mem_of s')
      \<and> (\<exists>own'. inv s' own' \<and> own' \<subseteq> own - span p (unat k))"
    and release_law: "inv s own \<Longrightarrow> ok k \<Longrightarrow> good p k \<Longrightarrow> span p (unat k) \<inter> own = {} \<Longrightarrow>
      release p k s = Some s' \<Longrightarrow>
      same_outside (own \<union> span p (unat k)) (mem_of s) (mem_of s')
      \<and> (\<exists>own'. inv s' own' \<and> own' \<subseteq> own \<union> span p (unat k))"
    and poke_law: "inv s own \<Longrightarrow> x \<notin> own \<Longrightarrow>
      inv (poke x v s) own \<and> mem_of (poke x v s) = (mem_of s)(x := v)"
begin

text \<open>Whatever the client does, its blocks do not overlap and the allocator owns none of them.\<close>

lemma run_inv:
  assumes "alloc_run alloc release poke ok s0 s live" and "inv s0 own0"
  shows "\<exists>own. inv s own \<and> own \<subseteq> own0 \<and> foot live \<subseteq> own0 \<and> own \<inter> foot live = {}
    \<and> blocks_disj live \<and> (\<forall>(p, k) \<in> set live. good p k \<and> ok k)
    \<and> same_outside own0 (mem_of s0) (mem_of s)"
  using assms
proof (induction rule: alloc_run.induct)
  case run_start
  then show ?case by (intro exI [of _ own0]) auto
next
  case (run_alloc s live k p s')
  then obtain own where own: "inv s own" "own \<subseteq> own0" "foot live \<subseteq> own0" "own \<inter> foot live = {}"
    "blocks_disj live" "\<forall>(p, k) \<in> set live. good p k \<and> ok k" "same_outside own0 (mem_of s0) (mem_of s)"
    by blast
  from alloc_law [OF own(1) run_alloc.hyps(2,3)] obtain own' where new: "good p k"
    "span p (unat k) \<subseteq> own" "same_outside own (mem_of s) (mem_of s')" "inv s' own'"
    "own' \<subseteq> own - span p (unat k)" by blast
  have "same_outside own0 (mem_of s0) (mem_of s')"
    using own(2,7) new(3) by (blast intro: same_outside_trans same_outside_mono)
  then show ?case using own new run_alloc.hyps(2) by (intro exI [of _ own']) auto
next
  case (run_release s live p k s')
  then obtain own where own: "inv s own" "own \<subseteq> own0" "foot live \<subseteq> own0" "own \<inter> foot live = {}"
    "blocks_disj live" "\<forall>(p, k) \<in> set live. good p k \<and> ok k" "same_outside own0 (mem_of s0) (mem_of s)"
    by blast
  have pk: "good p k" "ok k" "span p (unat k) \<subseteq> foot live"
    using own(6) run_release.hyps(2) area_in_foot by auto
  then have disj: "span p (unat k) \<inter> own = {}" using own(4) by auto
  from release_law [OF own(1) pk(2,1) disj run_release.hyps(3)] obtain own' where new:
    "same_outside (own \<union> span p (unat k)) (mem_of s) (mem_of s')" "inv s' own'"
    "own' \<subseteq> own \<union> span p (unat k)" by blast
  have "same_outside own0 (mem_of s) (mem_of s')"
    by (rule same_outside_mono [OF new(1)]) (use own(2,3) pk(3) in blast)
  then have "same_outside own0 (mem_of s0) (mem_of s')" using own(7) same_outside_trans by blast
  moreover note rem = blocks_disj_remove1 [OF own(5) run_release.hyps(2)]
    foot_remove1_subset [of "(p, k)" live]
  moreover have "\<forall>(p, k) \<in> set (remove1 (p, k) live). good p k \<and> ok k"
    using own(6) set_remove1_subset [of "(p, k)" live] by blast
  moreover have "own' \<subseteq> own0" "own' \<inter> foot (remove1 (p, k) live) = {}"
    "foot (remove1 (p, k) live) \<subseteq> own0"
    using calculation(2,3) own(2,3,4) pk(3) new(3) by blast+
  ultimately show ?case using new(2) by blast
next
  case (run_write s live x v)
  then obtain own where own: "inv s own" "own \<subseteq> own0" "foot live \<subseteq> own0" "own \<inter> foot live = {}"
    "blocks_disj live" "\<forall>(p, k) \<in> set live. good p k \<and> ok k" "same_outside own0 (mem_of s0) (mem_of s)"
    by blast
  have "x \<notin> own" using own(4) run_write.hyps(2) by auto
  from poke_law [OF own(1) this] have new: "inv (poke x v s) own"
    "mem_of (poke x v s) = (mem_of s)(x := v)" by auto
  have "same_outside own0 (mem_of s0) (mem_of (poke x v s))"
    using own(3,7) run_write.hyps(2) by (auto simp: same_outside_def new(2))
  then show ?case using own new by blast
qed

text \<open>An allocation leaves the contents of the client's blocks alone.\<close>

lemma run_alloc_keeps:
  assumes "alloc_run alloc release poke ok s0 s live" and "inv s0 own0" and "ok k"
    and "alloc k s = Some (p, s')" and "x \<in> foot live"
  shows "mem_of s' x = mem_of s x \<and> x \<notin> span p (unat k)"
proof -
  obtain own where own: "inv s own" "own \<inter> foot live = {}"
    using run_inv [OF assms(1,2)] by blast
  from alloc_law [OF own(1) assms(3,4)]
  have "span p (unat k) \<subseteq> own" "same_outside own (mem_of s) (mem_of s')" by blast+
  then show ?thesis using own(2) assms(5) by (auto simp: same_outside_def)
qed

text \<open>A release leaves the contents of the other blocks alone.\<close>

lemma run_release_keeps:
  assumes "alloc_run alloc release poke ok s0 s live" and "inv s0 own0"
    and "(p, k) \<in> set live" and "release p k s = Some s'" and "x \<in> foot (remove1 (p, k) live)"
  shows "mem_of s' x = mem_of s x"
proof -
  obtain own where own: "inv s own" "own \<inter> foot live = {}" "blocks_disj live"
    "\<forall>(p, k) \<in> set live. good p k \<and> ok k"
    using run_inv [OF assms(1,2)] by blast
  have pk: "good p k" "ok k" "span p (unat k) \<inter> own = {}"
    using own(2,4) assms(3) area_in_foot [OF assms(3)] by auto
  have "same_outside (own \<union> span p (unat k)) (mem_of s) (mem_of s')"
    using release_law [OF own(1) pk(2,1,3) assms(4)] by blast
  moreover have "x \<notin> own \<union> span p (unat k)"
    using blocks_disj_remove1 [OF own(3) assms(3)] foot_remove1_subset [of "(p, k)" live] own(2) assms(5)
    by auto
  ultimately show ?thesis by (rule same_outsideD)
qed

end

end
