(* ===== verification/Pages.thy ===== *)
theory Pages
  imports Printf Alloc
begin

text \<open>
  \<open>kern/mm/pages_manage.c\<close>: the physical page allocator. The free areas form a singly
  linked list, sorted by address and threaded through the free memory itself: the first two
  words of a free area are its successor and its size. The kernel reads and writes physical
  memory at the virtual addresses from \<open>KERNEL_BASE\<close> on.

  The model runs on the memory and the static \<open>farea_head\<close>. The second half proves that it
  refines a list of disjoint, maximal areas: first-fit allocation, and insertion that merges
  with both neighbours.
\<close>

section \<open>The allocator\<close>

definition KERNEL_BASE :: u32 where
  "KERNEL_BASE = 0x80000000"

definition P2V :: "u32 \<Rightarrow> u32" where
  "P2V paddr = paddr + KERNEL_BASE"

definition V2P :: "u32 \<Rightarrow> u32" where
  "V2P vaddr = vaddr - KERNEL_BASE"

record pages_state = machine +
  farea_head :: u32

text \<open>The fields of \<open>free_area_t\<close>: \<open>next\<close> at offset 0 and \<open>size\<close> at offset 4.\<close>

definition fa_next :: "memory \<Rightarrow> u32 \<Rightarrow> u32" where
  "fa_next m p = ld32 m p"

definition fa_size :: "memory \<Rightarrow> u32 \<Rightarrow> u32" where
  "fa_size m p = ld32 m (p + 4)"

definition set_fa_next :: "u32 \<Rightarrow> u32 \<Rightarrow> 'a machine_scheme \<Rightarrow> 'a machine_scheme" where
  "set_fa_next p v s = wr p v s"

definition set_fa_size :: "u32 \<Rightarrow> u32 \<Rightarrow> 'a machine_scheme \<Rightarrow> 'a machine_scheme" where
  "set_fa_size p v s = wr (p + 4) v s"

text \<open>
  The walk \<open>for (next = ...; next != NULL && cond; last = next, next = next->next)\<close> of
  \<open>pages_alloc\<close> and \<open>pages_free\<close>. It does not return on a cyclic list.
\<close>

partial_function (option) fa_scan ::
    "(u32 \<Rightarrow> bool) \<Rightarrow> memory \<Rightarrow> u32 \<Rightarrow> u32 \<Rightarrow> (u32 \<times> u32) option" where
  [code]: "fa_scan cond m last' next =
     (if next \<noteq> 0 \<and> cond next then fa_scan cond m next (fa_next m next) else Some (last', next))"

definition pages_split ::
    "u32 \<Rightarrow> u32 \<Rightarrow> 'a pages_state_scheme \<Rightarrow> u32 \<times> 'a pages_state_scheme" where
  "pages_split p first_size s =
     (if p = 0 \<or> fa_size (mem s) p < first_size \<or> first_size AND 0xFFF \<noteq> 0
      then (1, uart_spin_puts (''---WRONG:'' @ [CHR 0x09] @ ''in split_pages()'' @ crlf) s)
      else if fa_size (mem s) p = first_size then (0, s)
      else (let q = p + first_size;
                s1 = set_fa_size q (fa_size (mem s) p - first_size) s;
                s2 = set_fa_next q (fa_next (mem s1) p) s1;
                s3 = set_fa_size p first_size s2
            in (0, set_fa_next p q s3)))"

text \<open>The last two assignments of \<open>pages_alloc\<close>: \<open>next\<close> leaves the list.\<close>

definition fa_unlink :: "u32 \<Rightarrow> u32 \<Rightarrow> 'a pages_state_scheme \<Rightarrow> 'a pages_state_scheme" where
  "fa_unlink last' next s =
     (let s2 = (if last' \<noteq> 0 then set_fa_next last' (fa_next (mem s) next) s else s)
      in if next = farea_head s2 then s2\<lparr>farea_head := fa_next (mem s2) next\<rparr> else s2)"

text \<open>\<open>None\<close> is also the \<open>while (1);\<close> taken when no area is large enough.\<close>

definition pages_alloc ::
    "u32 \<Rightarrow> 'a pages_state_scheme \<Rightarrow> (u32 \<times> 'a pages_state_scheme) option" where
  "pages_alloc need_size s =
     (if need_size AND 0xFFF \<noteq> 0
      then Some (0, uart_spin_puts
        (''---WRONG:'' @ [CHR 0x09] @ ''in alloc_pages(), size not aligned.'' @ crlf) s)
      else do {
        (last, next) \<leftarrow>
          fa_scan (\<lambda>p. fa_size (mem s) p < need_size) (mem s) 0 (farea_head s);
        if next = 0 \<or> fa_size (mem s) next < need_size then None
        else (let (failed, s1) =
                (if need_size < fa_size (mem s) next then pages_split next need_size s else (0, s))
              in if failed \<noteq> 0 then Some (1, s1)
                 else Some (V2P next, fa_unlink last next s1))
      })"

text \<open>Both merges of \<open>pages_free\<close>: \<open>x\<close> swallows its successor \<open>y\<close>.\<close>

definition fa_merge :: "u32 \<Rightarrow> u32 \<Rightarrow> 'a pages_state_scheme \<Rightarrow> 'a pages_state_scheme" where
  "fa_merge x y s =
     (let s1 = set_fa_next x (fa_next (mem s) y) s
      in set_fa_size x (fa_size (mem s1) x + fa_size (mem s1) y) s1)"

definition pages_free ::
    "u32 \<Rightarrow> u32 \<Rightarrow> 'a pages_state_scheme \<Rightarrow> (u32 \<times> 'a pages_state_scheme) option" where
  "pages_free st fi s =
     (let temp = P2V st in
      if st AND 0xFFF \<noteq> 0 \<or> fi AND 0xFFF \<noteq> 0
      then Some (1, uart_spin_puts
        (''---WRONG:'' @ [CHR 0x09] @ ''in free_pages(), st & fi not aligned'' @ crlf) s)
      else do {
        (last, next) \<leftarrow> fa_scan (\<lambda>p. V2P p < st) (mem s) 0 (farea_head s);
        let s1 = set_fa_next temp next (set_fa_size temp (fi - st) s);
        let s2 = (if last = 0 then s1\<lparr>farea_head := temp\<rparr> else set_fa_next last temp s1);
        let (temp', s3) =
          (if last \<noteq> 0 \<and> P2V last + fa_size (mem s2) last = P2V temp
           then (last, fa_merge last temp s2) else (temp, s2));
        let s4 =
          (if next \<noteq> 0 \<and> P2V temp' + fa_size (mem s3) temp' = P2V next
           then fa_merge temp' next s3 else s3);
        Some (0, s4)
      })"

definition init_pspace :: "'a pages_state_scheme \<Rightarrow> (u32 \<times> 'a pages_state_scheme) option" where
  "init_pspace s = pages_free 0x800000 0x1f000000 (s\<lparr>farea_head := 0\<rparr>)"

section \<open>The list of free areas\<close>

text \<open>The memory holds the areas \<open>xs\<close>, linked from \<open>p\<close> to \<open>q\<close>.\<close>

fun fa_seg :: "memory \<Rightarrow> u32 \<Rightarrow> area list \<Rightarrow> u32 \<Rightarrow> bool" where
  "fa_seg m p [] q \<longleftrightarrow> p = q"
| "fa_seg m p ((a, n) # xs) q \<longleftrightarrow> p = a \<and> fa_size m a = n \<and> fa_seg m (fa_next m a) xs q"

text \<open>
  Page-aligned non-empty areas above \<open>lo\<close>, in increasing order with at least \<open>g\<close> bytes in
  between (1 says that no two touch, 0 that they do not overlap), none reaching the end of the
  address space. \<open>fa_end\<close> is the bound after the last.
\<close>

fun fa_wf :: "nat \<Rightarrow> nat \<Rightarrow> area list \<Rightarrow> bool" where
  "fa_wf g lo [] \<longleftrightarrow> True"
| "fa_wf g lo ((a, n) # xs) \<longleftrightarrow> lo \<le> unat a \<and> 0 < unat n \<and> 4096 dvd unat a \<and> 4096 dvd unat n
     \<and> unat a + unat n < 2 ^ 32 \<and> fa_wf g (unat a + unat n + g) xs"

fun fa_end :: "nat \<Rightarrow> nat \<Rightarrow> area list \<Rightarrow> nat" where
  "fa_end g lo [] = lo"
| "fa_end g lo ((a, n) # xs) = fa_end g (unat a + unat n + g) xs"

definition pages_inv :: "'a pages_state_scheme \<Rightarrow> area list \<Rightarrow> bool" where
  "pages_inv s xs \<longleftrightarrow> fa_wf 1 (unat KERNEL_BASE) xs \<and> fa_seg (mem s) (farea_head s) xs 0"

text \<open>The specification: first fit, and insertion with merging.\<close>

fun fl_alloc :: "u32 \<Rightarrow> area list \<Rightarrow> (u32 \<times> area list) option" where
  "fl_alloc need [] = None"
| "fl_alloc need ((a, n) # xs) =
     (if need \<le> n then Some (a, if need < n then (a + need, n - need) # xs else xs)
      else map_option (\<lambda>(r, ys). (r, (a, n) # ys)) (fl_alloc need xs))"

fun fl_join :: "area \<Rightarrow> area list \<Rightarrow> area list" where
  "fl_join (a, n) [] = [(a, n)]"
| "fl_join (a, n) ((b, k) # xs) = (if a + n = b then (a, n + k) # xs else (a, n) # (b, k) # xs)"

fun fl_insert :: "area \<Rightarrow> area list \<Rightarrow> area list" where
  "fl_insert (a, n) [] = [(a, n)]"
| "fl_insert (a, n) ((b, k) # xs) =
     (if a \<le> b then fl_join (a, n) ((b, k) # xs)
      else if b + k = a then fl_join (b, k + n) xs
      else (b, k) # fl_insert (a, n) xs)"

section \<open>Facts about area lists\<close>

lemma fa_seg_append [simp]:
  "fa_seg m p (xs @ ys) q \<longleftrightarrow> (\<exists>r. fa_seg m p xs r \<and> fa_seg m r ys q)"
  by (induction m p xs q rule: fa_seg.induct) auto

lemma fa_end_append [simp]: "fa_end g lo (xs @ ys) = fa_end g (fa_end g lo xs) ys"
  by (induction g lo xs rule: fa_end.induct) auto

lemma fa_wf_append [simp]: "fa_wf g lo (xs @ ys) \<longleftrightarrow> fa_wf g lo xs \<and> fa_wf g (fa_end g lo xs) ys"
  by (induction g lo xs rule: fa_wf.induct) auto

lemma fa_wf_mono: "fa_wf g lo xs \<Longrightarrow> lo' \<le> lo \<Longrightarrow> fa_wf g lo' xs"
  by (cases xs) auto

lemma fa_end_ge: "fa_wf g lo xs \<Longrightarrow> lo \<le> fa_end g lo xs"
  by (induction g lo xs rule: fa_wf.induct) auto

lemma fa_end_mono: "xs \<noteq> [] \<Longrightarrow> fa_end g lo xs = fa_end g lo' xs"
  by (cases xs) auto

lemma fa_wf_mem:
  "fa_wf g lo xs \<Longrightarrow> (a, n) \<in> set xs \<Longrightarrow> lo \<le> unat a \<and> 4096 \<le> unat n \<and> unat a + unat n + g \<le> fa_end g lo xs
     \<and> unat a + unat n < 2 ^ 32 \<and> 4096 dvd unat a \<and> 4096 dvd unat n"
proof (induction g lo xs rule: fa_wf.induct)
  case (2 g lo b k xs)
  show ?case
  proof (cases "(a, n) = (b, k)")
    case True
    then show ?thesis using 2 fa_end_ge [of g "unat b + unat k + g" xs] by (auto dest: dvd_imp_le)
  next
    case False
    then show ?thesis using 2 by auto
  qed
qed simp

lemma span_area: "unat a + unat n < 2 ^ 32 \<Longrightarrow> x \<in> span a (unat n) \<longleftrightarrow> unat a \<le> unat x \<and> unat x < unat a + unat n"
  by (simp add: span_nowrap)

lemma foot_bounds:
  assumes "fa_wf g lo xs" and "x \<in> foot xs"
  shows "lo \<le> unat x \<and> unat x + g < fa_end g lo xs"
proof -
  obtain a n where "(a, n) \<in> set xs" "x \<in> span a (unat n)" using assms(2) by (auto simp: foot_def)
  then show ?thesis using fa_wf_mem [OF assms(1), of a n] span_area [of a n x] by auto
qed

lemma fa_seg_cong:
  assumes "fa_wf g lo xs" and "\<And>x. x \<in> foot xs \<Longrightarrow> m' x = m x"
  shows "fa_seg m' p xs q \<longleftrightarrow> fa_seg m p xs q"
  using assms
proof (induction m p xs q arbitrary: lo rule: fa_seg.induct)
  case (2 m p a n xs q)
  have n: "8 \<le> unat n" and wf: "fa_wf g (unat a + unat n + g) xs"
    using "2.prems"(1) fa_wf_mem [OF "2.prems"(1), of a n] by auto
  have sub: "span a 4 \<subseteq> span a (unat n)" "span (a + 4) 4 \<subseteq> span a (unat n)"
    using n by (auto intro!: span_mono span_offset_subset simp del: span_base)
  have "fa_next m' a = fa_next m a"
    unfolding fa_next_def using "2.prems"(2) sub(1) by (intro ld32_cong) auto
  moreover have "fa_size m' a = fa_size m a"
    unfolding fa_size_def using "2.prems"(2) sub(2) by (intro ld32_cong) auto
  moreover have "fa_seg m' (fa_next m a) xs q \<longleftrightarrow> fa_seg m (fa_next m a) xs q"
    using "2.IH" [OF wf] "2.prems"(2) by auto
  ultimately show ?case by simp
qed simp

lemma fa_seg_same_outside:
  "fa_wf g lo xs \<Longrightarrow> same_outside A m m' \<Longrightarrow> A \<inter> foot xs = {} \<Longrightarrow> fa_seg m' p xs q \<longleftrightarrow> fa_seg m p xs q"
  by (rule fa_seg_cong) (auto simp: same_outside_def)

lemma KERNEL_BASE_unat: "unat KERNEL_BASE = 2147483648"
  by (simp add: KERNEL_BASE_def)

lemma fa_seg_head:
  "fa_seg m p xs q \<Longrightarrow> p = (if xs = [] then q else fst (hd xs))"
  by (cases xs) auto

text \<open>The walk stops at the first area that fails its condition.\<close>

lemma fa_scan_seg:
  assumes "fa_seg m p (pre @ suf) 0" and "fa_wf g lo (pre @ suf)" and "0 < lo"
    and "\<forall>(a, n) \<in> set pre. cond a"
    and "suf \<noteq> [] \<Longrightarrow> \<not> cond (fst (hd suf))"
  shows "fa_scan cond m l p
    = Some (if pre = [] then l else fst (last pre), if suf = [] then 0 else fst (hd suf))"
  using assms
proof (induction pre arbitrary: l p lo)
  case Nil
  then show ?case using fa_seg_head [of m p suf 0] by (subst fa_scan.simps) auto
next
  case (Cons an pre)
  obtain a n where an: "an = (a, n)" by force
  have p: "p = a" and "a \<noteq> 0" and "cond a" using Cons.prems by (auto simp: an)
  have "fa_scan cond m l p = fa_scan cond m p (fa_next m p)"
    using p \<open>a \<noteq> 0\<close> \<open>cond a\<close> by (subst fa_scan.simps) simp
  also have "\<dots> = Some (if pre = [] then p else fst (last pre), if suf = [] then 0 else fst (hd suf))"
    using Cons.prems p by (intro Cons.IH [where lo = "unat a + unat n + g"]) (auto simp: an)
  finally show ?case by (auto simp: p an)
qed

lemma fa_seg_size: "fa_seg m p xs q \<Longrightarrow> (a, n) \<in> set xs \<Longrightarrow> fa_size m a = n"
  by (induction m p xs q rule: fa_seg.induct) auto

lemma foot_disj:
  assumes "fa_wf g lo (xs @ ys)"
  shows "foot xs \<inter> foot ys = {}"
proof -
  have "x \<notin> foot ys" if "x \<in> foot xs" for x
    using foot_bounds [of g lo xs x] foot_bounds [of g "fa_end g lo xs" ys x] assms that by auto
  then show ?thesis by auto
qed

lemma header_in_area:
  assumes "fa_wf g lo xs" and "(a, n) \<in> set xs"
  shows "span a 4 \<subseteq> span a (unat n)" and "span (a + 4) 4 \<subseteq> span a (unat n)"
  using fa_wf_mem [OF assms] by (auto intro!: span_mono span_offset_subset simp del: span_base)

lemma last_header_in_foot:
  assumes "fa_wf g lo xs" and "xs \<noteq> []"
  shows "span (fst (last xs)) 4 \<subseteq> foot xs" and "span (fst (last xs) + 4) 4 \<subseteq> foot xs"
proof -
  have "(fst (last xs), snd (last xs)) \<in> set xs" using assms(2) by simp
  then show "span (fst (last xs)) 4 \<subseteq> foot xs" "span (fst (last xs) + 4) 4 \<subseteq> foot xs"
    using header_in_area [OF assms(1)] area_in_foot by blast+
qed

text \<open>Storing into the link of the last area redirects the segment.\<close>

lemma fa_seg_set_last:
  assumes "fa_seg m p xs q" and "fa_wf g lo xs" and "xs \<noteq> []"
  shows "fa_seg (st32 m (fst (last xs)) y) p xs y"
proof -
  obtain pre l k where xs: "xs = pre @ [(l, k)]"
    using assms(3) by (metis rev_exhaust surj_pair)
  have disj: "span l 4 \<inter> foot pre = {}"
    using foot_disj [of g lo pre "[(l, k)]"] header_in_area [OF assms(2), of l k] assms(2) by (auto simp: xs)
  have "fa_seg (st32 m l y) p pre l"
    using assms(1,2) disj by (subst fa_seg_same_outside [of g lo pre "span l 4" m])
      (auto simp: xs intro: frame_intro)
  moreover have "fa_size (st32 m l y) l = k"
    using assms(1) by (simp add: xs fa_size_def)
  ultimately show ?thesis by (simp add: xs fa_next_def)
qed

text \<open>What an operation leaves: a prefix of the list, relinked to a new rest.\<close>

lemma fa_seg_relink:
  assumes "fa_seg m p pre q" and "same_outside A m m1" and "A \<inter> foot pre = {}"
    and "fa_wf g lo (pre @ new)" and "fa_seg m1 x new 0" and "pre \<noteq> []"
  shows "fa_seg (st32 m1 (fst (last pre)) x) p (pre @ new) 0"
proof -
  have pre: "fa_seg m1 p pre q"
    using fa_seg_same_outside [OF _ assms(2,3)] assms(1,4) by auto
  have "span (fst (last pre)) 4 \<inter> foot new = {}"
    using last_header_in_foot(1) [of g lo pre] foot_disj [OF assms(4)] assms(4,6) by auto
  then have "fa_seg (st32 m1 (fst (last pre)) x) x new 0"
    using fa_seg_same_outside [of g "fa_end g lo pre" new "span (fst (last pre)) 4" m1
        "st32 m1 (fst (last pre)) x" x 0] assms(4,5)
    by (auto intro: frame_intro)
  then show ?thesis using fa_seg_set_last [OF pre, of g lo x] assms(4,6) by auto
qed

section \<open>Allocation refines first fit\<close>

lemma fl_alloc_Some:
  assumes "fl_alloc need xs = Some (a, ys)"
  obtains pre n rest where "xs = pre @ (a, n) # rest" and "\<forall>(b, k) \<in> set pre. k < need"
    and "need \<le> n" and "ys = pre @ (if need < n then (a + need, n - need) # rest else rest)"
proof -
  have "\<exists>pre n rest. xs = pre @ (a, n) # rest \<and> (\<forall>(b, k) \<in> set pre. k < need) \<and> need \<le> n
      \<and> ys = pre @ (if need < n then (a + need, n - need) # rest else rest)"
    using assms
  proof (induction need xs arbitrary: ys rule: fl_alloc.induct)
    case (2 need b k xs)
    show ?case
    proof (cases "need \<le> k")
      case True
      then show ?thesis using "2.prems"
        by (intro exI [of _ "[]"] exI [of _ k] exI [of _ xs]) auto
    next
      case False
      then obtain zs where zs: "fl_alloc need xs = Some (a, zs)" "ys = (b, k) # zs"
        using "2.prems" by auto
      from "2.IH" [OF False zs(1)] obtain pre n rest where "xs = pre @ (a, n) # rest"
        "\<forall>(b, k) \<in> set pre. k < need" "need \<le> n"
        "zs = pre @ (if need < n then (a + need, n - need) # rest else rest)" by blast
      then show ?thesis using False zs(2)
        by (intro exI [of _ "(b, k) # pre"] exI [of _ n] exI [of _ rest]) auto
    qed
  qed simp
  then show thesis using that by blast
qed

lemma fl_alloc_None: "fl_alloc need xs = None \<longleftrightarrow> (\<forall>(b, k) \<in> set xs. k < need)"
  by (induction need xs rule: fl_alloc.induct) (auto simp: not_le)

lemma aligned_iff: "(x :: u32) AND 0xFFF = 0 \<longleftrightarrow> 4096 dvd unat x"
  using unat_and_FFF [of x] by (simp add: dvd_eq_mod_eq_0 word_unat_eq_iff)

lemma unat_area_end: "unat (a :: u32) + unat n < 2 ^ 32 \<Longrightarrow> unat (a + n) = unat a + unat n"
  by (simp add: unat_word_ariths)

lemma unat_sub_le: "(n :: u32) \<le> k \<Longrightarrow> unat (k - n) = unat k - unat n"
  by (simp add: unat_sub)

lemma fl_alloc_wf:
  assumes "fa_wf g lo (pre @ (a, n) # rest)" and "need < n" and "4096 dvd unat need"
  shows "fa_wf g lo (pre @ (a + need, n - need) # rest)"
proof -
  have lt: "unat need < unat n" using assms(2) by (simp add: word_less_nat_alt)
  have old: "fa_wf g lo pre" "fa_end g lo pre \<le> unat a" "4096 dvd unat a" "4096 dvd unat n"
    "unat a + unat n < 2 ^ 32" "fa_wf g (unat a + unat n + g) rest"
    using assms(1) by simp_all
  have num: "unat (a + need) = unat a + unat need" "unat (n - need) = unat n - unat need"
    using assms(2) old(5) lt by (simp_all add: unat_area_end unat_sub_le)
  have "unat a + unat need + (unat n - unat need) = unat a + unat n" using lt by simp
  then show ?thesis
    unfolding fa_wf_append fa_wf.simps num
    using old lt assms(3) by (simp add: dvd_diff_nat)
qed

lemma fa_wf_drop: "fa_wf g lo (pre @ (a, n) # rest) \<Longrightarrow> fa_wf g lo (pre @ rest)"
  by (auto elim!: fa_wf_mono)

text \<open>Splitting an area in the memory.\<close>

lemma farea_head_wr [simp]:
  "farea_head (set_fa_next p v s) = farea_head s" "farea_head (set_fa_size p v s) = farea_head s"
  by (simp_all add: set_fa_next_def set_fa_size_def wr_def)

lemma set_fa_simps [simp]:
  "mem (set_fa_next p v s) = st32 (mem s) p v" "mem (set_fa_size p v s) = st32 (mem s) (p + 4) v"
  "con (set_fa_next p v s) = con s" "con (set_fa_size p v s) = con s"
  by (simp_all add: set_fa_next_def set_fa_size_def)

lemma pages_split_area:
  assumes "8 \<le> unat first" "unat first + 8 \<le> unat n" "4096 dvd unat first" "a \<noteq> 0"
    and "fa_size (mem s) a = n" and "unat a + unat n < 2 ^ 32"
  shows "\<exists>s'. pages_split a first s = (0, s') \<and> same_outside (span a (unat n)) (mem s) (mem s')
    \<and> fa_next (mem s') a = a + first \<and> fa_size (mem s') a = first
    \<and> fa_next (mem s') (a + first) = fa_next (mem s) a \<and> fa_size (mem s') (a + first) = n - first
    \<and> farea_head s' = farea_head s \<and> con s' = con s"
proof -
  define q where "q = a + first"
  have lt: "first < n" "n \<noteq> first" "first \<le> n"
    using assms(1,2) by (auto simp: word_less_nat_alt word_le_nat_alt)
  have q: "unat q = unat a + unat first" using assms by (simp add: unat_area_end q_def)
  have sub8: "span q 8 \<subseteq> span a (unat n)"
    using assms by (simp add: q_def span_offset_subset)
  have sub: "span q 4 \<subseteq> span a (unat n)" "span (q + 4) 4 \<subseteq> span a (unat n)"
    "span a 4 \<subseteq> span a (unat n)" "span (a + 4) 4 \<subseteq> span a (unat n)"
    using sub8 span_mono [of 4 8 q] span_offset_subset [of 4 4 8 q] assms
      span_mono [of 4 "unat n" a] span_offset_subset [of 4 4 "unat n" a] by simp_all
  have disj: "span q 8 \<inter> span a 8 = {}"
    using assms q by (intro span_disj_nowrap) auto
  note field = ld32_st32_structs [OF disj] ld32_st32_structs [OF disj [unfolded Int_commute [of "span q 8"]]]
  show ?thesis
    using assms lt unfolding pages_split_def Let_def fa_next_def fa_size_def
    by (simp add: aligned_iff not_less flip: q_def)
      (simp add: field same_outside_st32_trans sub)
qed

text \<open>
  Taking an area off the list: the block at \<open>a\<close> sits between \<open>pre\<close> and the new rest, where the
  memory has been changed only inside the block.
\<close>

lemma fa_unlink_inv:
  assumes "fa_seg m (farea_head s1) pre a" and "same_outside (span a (unat n)) m (mem s1)"
    and "fa_wf g lo (pre @ (a, n) # rest)" and "fa_wf g lo (pre @ new)" and "0 < lo"
    and "fa_seg (mem s1) (fa_next (mem s1) a) new 0"
    and "s2 = fa_unlink (if pre = [] then 0 else fst (last pre)) a s1"
  shows "fa_seg (mem s2) (farea_head s2) (pre @ new) 0" and "con s2 = con s1"
    and "same_outside (foot (pre @ [(a, n)])) m (mem s2)"
proof -
  have con: "con s2 = con s1" by (simp add: assms(7) fa_unlink_def Let_def)
  have frame: "same_outside (foot (pre @ [(a, n)])) m (mem s1)"
    using assms(2) by (auto elim: same_outside_mono)
  have "fa_seg (mem s2) (farea_head s2) (pre @ new) 0
      \<and> same_outside (foot (pre @ [(a, n)])) m (mem s2)"
  proof (cases "pre = []")
    case True
    then show ?thesis using assms(1,6) frame by (simp add: assms(7) fa_unlink_def)
  next
    case False
    let ?l = "fst (last pre)"
    have wf: "fa_wf g lo pre" using assms(3) by simp
    have l: "(?l, snd (last pre)) \<in> set pre" using False by simp
    have "lo \<le> unat ?l" using fa_wf_mem [OF wf l] by simp
    then have "?l \<noteq> 0" using assms(5) by auto
    moreover have "farea_head s1 \<noteq> a"
    proof -
      obtain b k where bk: "farea_head s1 = b" "(b, k) \<in> set pre"
        using assms(1) False by (cases pre) fastforce+
      show ?thesis using fa_wf_mem [OF wf bk(2)] assms(3) by (auto simp: bk(1))
    qed
    ultimately have s2: "s2 = set_fa_next ?l (fa_next (mem s1) a) s1"
      using False by (simp add: assms(7) fa_unlink_def)
    have "span a (unat n) \<inter> foot pre = {}"
      using foot_disj [OF assms(3)] by auto
    from fa_seg_relink [OF assms(1,2) this assms(4,6) False]
    have "fa_seg (mem s2) (farea_head s2) (pre @ new) 0" by (simp add: s2)
    moreover have "same_outside (foot (pre @ [(a, n)])) m (mem s2)"
      using last_header_in_foot(1) [OF wf False] frame by (auto simp: s2 intro: same_outside_st32_trans)
    ultimately show ?thesis ..
  qed
  then show "fa_seg (mem s2) (farea_head s2) (pre @ new) 0" "con s2 = con s1"
    "same_outside (foot (pre @ [(a, n)])) m (mem s2)"
    using con by simp_all
qed

lemma dvd_4096_ge8: "4096 dvd (k :: nat) \<Longrightarrow> 0 < k \<Longrightarrow> 4096 \<le> k"
  by (rule dvd_imp_le)

lemma fa_seg_takes:
  assumes "fa_seg m p (pre @ (a, n) # rest) 0"
  shows "fa_seg m p pre a" and "fa_size m a = n" and "fa_seg m (fa_next m a) rest 0"
  using assms by auto

lemma pages_alloc_ok:
  assumes "pages_inv s xs" and "4096 dvd unat need" and "need \<noteq> 0"
    and "fl_alloc need xs = Some (a, ys)"
  shows "\<exists>s'. pages_alloc need s = Some (V2P a, s') \<and> pages_inv s' ys
    \<and> same_outside (foot xs) (mem s) (mem s') \<and> con s' = con s"
proof -
  obtain pre n rest where xs: "xs = pre @ (a, n) # rest" and small: "\<forall>(b, k) \<in> set pre. k < need"
    and fit: "need \<le> n" and ys: "ys = pre @ (if need < n then (a + need, n - need) # rest else rest)"
    by (rule fl_alloc_Some [OF assms(4)])
  let ?m = "mem s" and ?lo = "unat KERNEL_BASE"
  have wf: "fa_wf 1 ?lo (pre @ (a, n) # rest)" and seg: "fa_seg ?m (farea_head s) (pre @ (a, n) # rest) 0"
    using assms(1) by (auto simp: pages_inv_def xs)
  note take = fa_seg_takes [OF seg]
  have lo: "0 < ?lo" by (simp add: KERNEL_BASE_unat)
  have a: "?lo \<le> unat a" "unat a + unat n < 2 ^ 32" "4096 dvd unat n" using wf fa_end_ge [of 1 ?lo pre] by auto
  then have "a \<noteq> 0" using lo by auto
  have scan: "fa_scan (\<lambda>p. fa_size ?m p < need) ?m 0 (farea_head s)
      = Some (if pre = [] then 0 else fst (last pre), a)"
  proof -
    have "\<forall>(b, k) \<in> set pre. fa_size ?m b < need"
      using small fa_seg_size [OF take(1)] by auto
    then show ?thesis
      using fa_scan_seg [OF seg wf lo, of "\<lambda>p. fa_size ?m p < need" 0] fit take(2) by (simp add: not_less)
  qed
  obtain s1 new where s1: "(if need < n then pages_split a need s else (0, s)) = (0, s1)"
    and new: "ys = pre @ new" "fa_seg (mem s1) (fa_next (mem s1) a) new 0" "fa_wf 1 ?lo (pre @ new)"
    and same: "same_outside (span a (unat n)) ?m (mem s1)" "farea_head s1 = farea_head s" "con s1 = con s"
  proof (cases "need < n")
    case True
    have lt: "unat need < unat n" using True by (simp add: word_less_nat_alt)
    have big: "4096 \<le> unat need" "4096 \<le> unat n - unat need"
      using dvd_4096_ge8 [of "unat need"] dvd_4096_ge8 [of "unat n - unat need"] assms(2,3) a(3) lt
      by (auto simp: dvd_diff_nat unat_gt_0)
    then have "8 \<le> unat need" "unat need + 8 \<le> unat n" by linarith+
    then obtain s1 where s1: "pages_split a need s = (0, s1)" "same_outside (span a (unat n)) ?m (mem s1)"
      "fa_next (mem s1) a = a + need" "fa_next (mem s1) (a + need) = fa_next ?m a"
      "fa_size (mem s1) (a + need) = n - need" "farea_head s1 = farea_head s" "con s1 = con s"
      using pages_split_area [OF _ _ assms(2) \<open>a \<noteq> 0\<close> take(2) a(2)] by blast
    have "fa_seg (mem s1) (fa_next ?m a) rest 0"
    proof (subst fa_seg_same_outside [OF _ s1(2)])
      show "fa_wf 1 (unat a + unat n + 1) rest" using wf by simp
      show "span a (unat n) \<inter> foot rest = {}"
        using wf foot_disj [of 1 ?lo "pre @ [(a, n)]" rest] by auto
    qed (rule take(3))
    then show thesis
      using that [of s1 "(a + need, n - need) # rest"] s1 True ys fl_alloc_wf [OF wf True assms(2)]
      by simp
  next
    case False
    then show thesis using that [of s rest] take ys fa_wf_drop [OF wf] by simp
  qed
  let ?s2 = "fa_unlink (if pre = [] then 0 else fst (last pre)) a s1"
  note un = fa_unlink_inv [OF _ same(1) wf new(3) lo new(2), of ?s2, unfolded same, OF take(1) refl]
  have "pages_alloc need s = Some (V2P a, ?s2)"
    using fit s1 assms(2) by (simp add: pages_alloc_def aligned_iff scan take \<open>a \<noteq> 0\<close> not_less)
  moreover have "pages_inv ?s2 ys" using un(1) new by (simp add: pages_inv_def)
  moreover have "same_outside (foot xs) ?m (mem ?s2)" using un(3) by (rule same_outside_mono) (auto simp: xs)
  ultimately show ?thesis using un(2) by blast
qed

section \<open>Freeing refines insertion with merging\<close>

lemma fa_wf_weaken: "fa_wf g lo xs \<Longrightarrow> g' \<le> g \<Longrightarrow> lo' \<le> lo \<Longrightarrow> fa_wf g' lo' xs"
proof (induction g lo xs arbitrary: lo' rule: fa_wf.induct)
  case (2 g lo a n xs)
  then show ?case using "2.IH" [of "unat a + unat n + g'"] by simp
qed simp

lemma fa_merge_seg:
  assumes "fa_seg (mem s) p (pre @ (l, k) # (a, n) # rest) 0"
    and "fa_wf 0 lo (pre @ (l, k) # (a, n) # rest)"
  shows "fa_seg (mem (fa_merge l a s)) p (pre @ (l, k + n) # rest) 0"
    and "same_outside (span l (unat k)) (mem s) (mem (fa_merge l a s))"
    and "farea_head (fa_merge l a s) = farea_head s \<and> con (fa_merge l a s) = con s"
proof -
  let ?m = "mem s" and ?m' = "mem (fa_merge l a s)"
  have hl: "span l 4 \<subseteq> span l (unat k)" "span (l + 4) 4 \<subseteq> span l (unat k)"
    using header_in_area [OF assms(2), of l k] by auto
  have ha: "span a 4 \<subseteq> span a (unat n)" "span (a + 4) 4 \<subseteq> span a (unat n)"
    using header_in_area [OF assms(2), of a n] by auto
  have disj: "span l (unat k) \<inter> span a (unat n) = {}" "span l (unat k) \<inter> foot pre = {}"
    "span l (unat k) \<inter> foot rest = {}"
    using foot_disj [of 0 lo "pre @ [(l, k)]" "(a, n) # rest"] foot_disj [of 0 lo pre "(l, k) # (a, n) # rest"]
      assms(2) by auto
  have far: "ld32 (st32 m l v) (a + 4) = ld32 m (a + 4)" for m v
    using hl ha disj(1) by (intro ld32_st32_disj) blast
  have m': "?m' = st32 (st32 ?m l (fa_next ?m a)) (l + 4) (k + n)"
    using assms(1) by (auto simp: fa_merge_def Let_def far fa_size_def)
  show frame: "same_outside (span l (unat k)) ?m ?m'"
    unfolding m' using hl by (intro same_outside_st32_trans same_outside_refl)
  have "fa_seg ?m' p pre l"
    using assms disj(2) by (subst fa_seg_same_outside [OF _ frame]) auto
  moreover have "fa_seg ?m' (fa_next ?m a) rest 0"
  proof (subst fa_seg_same_outside [OF _ frame])
    show "fa_wf 0 (unat a + unat n) rest" using assms(2) by simp
    show "span l (unat k) \<inter> foot rest = {}" by (rule disj(3))
    show "fa_seg ?m (fa_next ?m a) rest 0" using assms(1) by auto
  qed
  moreover have "fa_size ?m' l = k + n" "fa_next ?m' l = fa_next ?m a"
    unfolding m' fa_size_def fa_next_def by simp_all
  ultimately show "fa_seg ?m' p (pre @ (l, k + n) # rest) 0" by simp
  show "farea_head (fa_merge l a s) = farea_head s \<and> con (fa_merge l a s) = con s"
    by (simp add: fa_merge_def Let_def)
qed

lemma fl_insert_split:
  assumes "\<forall>(b, k) \<in> set pre. b < a" and "fa_wf 1 lo pre" and "suf \<noteq> [] \<Longrightarrow> a \<le> fst (hd suf)"
  shows "fl_insert (a, n) (pre @ suf) =
    (if pre \<noteq> [] \<and> fst (last pre) + snd (last pre) = a
     then butlast pre @ fl_join (fst (last pre), snd (last pre) + n) suf
     else pre @ fl_join (a, n) suf)"
  using assms
proof (induction pre arbitrary: lo)
  case Nil
  then show ?case by (cases suf) auto
next
  case (Cons bk pre)
  obtain b k where bk: "bk = (b, k)" by force
  have lt: "\<not> a \<le> b" using Cons.prems(1) by (simp add: bk not_le)
  have IH: "fl_insert (a, n) (pre @ suf) =
    (if pre \<noteq> [] \<and> fst (last pre) + snd (last pre) = a
     then butlast pre @ fl_join (fst (last pre), snd (last pre) + n) suf
     else pre @ fl_join (a, n) suf)"
    using Cons.prems by (intro Cons.IH [of "unat b + unat k + 1"]) (auto simp: bk)
  show ?case
  proof (cases "pre = []")
    case True
    then show ?thesis using lt IH by (simp add: bk)
  next
    case False
    then obtain c j pre' where pre: "pre = (c, j) # pre'" by (cases pre) auto
    have "unat (b + k) = unat b + unat k" "unat b + unat k < unat c" "unat c < unat a"
      using Cons.prems by (auto simp: bk pre unat_area_end word_less_nat_alt)
    then have "b + k \<noteq> a" by auto
    then show ?thesis using lt IH False by (simp add: bk)
  qed
qed

text \<open>Where a new block falls: after the areas below it, before those above.\<close>

lemma fa_place:
  assumes "fa_wf 1 lo xs" and "0 < unat n" and "span a (unat n) \<inter> foot xs = {}"
    and "unat a + unat n < 2 ^ 32" and "4096 dvd unat a" and "4096 dvd unat n" and "lo \<le> unat a"
  obtains pre suf where "xs = pre @ suf" and "\<forall>(b, k) \<in> set pre. b < a"
    and "suf \<noteq> [] \<Longrightarrow> a \<le> fst (hd suf)" and "fa_wf 0 lo (pre @ (a, n) # suf)"
    and "fa_end 0 lo pre \<le> unat a"
proof -
  let ?P = "\<lambda>(b, k). b < a"
  let ?pre = "takeWhile ?P xs" and ?suf = "dropWhile ?P xs"
  have xs: "xs = ?pre @ ?suf" by simp
  then have wf: "fa_wf 1 lo (?pre @ ?suf)" using assms(1) by simp
  have pre: "\<forall>(b, k) \<in> set ?pre. b < a" by (auto dest: set_takeWhileD)
  have suf: "a \<le> fst (hd ?suf)" if "?suf \<noteq> []"
    using hd_dropWhile [OF that] by (auto simp: case_prod_beta)
  have below: "unat b + unat k \<le> unat a" if "(b, k) \<in> set ?pre" for b k
  proof (rule ccontr)
    assume "\<not> ?thesis"
    moreover have "unat b < unat a" using pre that by (auto simp: word_less_nat_alt)
    moreover have "(b, k) \<in> set xs" using that by (rule set_takeWhileD [THEN conjunct1])
    moreover from this have "unat b + unat k < 2 ^ 32" using fa_wf_mem [OF assms(1)] by blast
    ultimately have "a \<in> foot xs" using area_in_foot [of b k xs] by (auto simp: span_area)
    then show False using assms(2,3) by (metis IntI empty_iff span_base)
  qed
  have "fa_end 0 lo ?pre \<le> unat a"
  proof (cases "?pre = []")
    case False
    then obtain pre' b k where p: "?pre = pre' @ [(b, k)]" by (metis rev_exhaust surj_pair)
    have "(b, k) \<in> set ?pre" by (simp add: p)
    from below [OF this] show ?thesis by (simp add: p)
  qed (simp add: assms(7))
  moreover have "fa_wf 0 (unat a + unat n) ?suf"
  proof (cases ?suf)
    case (Cons bk rest)
    obtain b k where bk: "bk = (b, k)" by force
    have mem: "(b, k) \<in> set xs" using Cons bk by (metis list.set_intros(1) set_dropWhileD)
    have k: "0 < unat k" "unat b + unat k < 2 ^ 32" using fa_wf_mem [OF assms(1) mem] by simp_all
    have "unat a \<le> unat b" using suf Cons by (simp add: bk word_le_nat_alt)
    moreover have "b \<notin> span a (unat n)" using assms(3) base_in_foot [OF mem k(1)] by blast
    ultimately have "unat a + unat n \<le> unat b" using assms(4) by (simp add: span_area)
    moreover have "fa_wf 1 (fa_end 1 lo ?pre) ((b, k) # rest)" using wf Cons bk by simp
    ultimately show ?thesis using fa_wf_weaken [of 1 "Suc (unat b + unat k)" rest 0]
      by (simp add: Cons bk)
  qed (simp only: fa_wf.simps)
  moreover have "fa_wf 0 lo ?pre"
    using wf unfolding fa_wf_append by (blast intro: fa_wf_weaken le0 order_refl)
  ultimately have "fa_wf 0 lo (?pre @ (a, n) # ?suf)"
    using assms(2,4,5,6) by simp
  with xs pre suf \<open>fa_end 0 lo ?pre \<le> unat a\<close> show thesis using that by blast
qed

lemma fl_join_wf:
  assumes "fa_wf 0 lo ((a, n) # suf)" and "fa_wf 1 lo' suf"
  shows "fa_wf 1 lo (fl_join (a, n) suf)"
proof (cases suf)
  case Nil
  then show ?thesis using assms by simp
next
  case (Cons bk rest)
  obtain b k where bk: "bk = (b, k)" by force
  have old: "lo \<le> unat a" "0 < unat n" "4096 dvd unat a" "4096 dvd unat n" "unat a + unat n < 2 ^ 32"
    "unat a + unat n \<le> unat b" "0 < unat k" "4096 dvd unat b" "4096 dvd unat k" "unat b + unat k < 2 ^ 32"
    "fa_wf 1 (unat b + unat k + 1) rest"
    using assms by (simp_all add: Cons bk)
  have an: "unat (a + n) = unat a + unat n" using old(5) by (rule unat_area_end)
  show ?thesis
  proof (cases "a + n = b")
    case True
    then have "unat b = unat a + unat n" using an by simp
    moreover from this have "unat (n + k) = unat n + unat k" using old(10) by (intro unat_area_end) simp
    ultimately show ?thesis using old True by (simp add: Cons bk algebra_simps dvd_add)
  next
    case False
    then have "unat a + unat n \<noteq> unat b" using an by (auto simp: word_unat_eq_iff)
    then show ?thesis using old False by (simp add: Cons bk)
  qed
qed

lemma fa_end_touch:
  assumes "fa_wf 1 lo pre" and "fa_wf 0 lo (pre @ (a, n) # suf)"
    and "pre = [] \<or> fst (last pre) + snd (last pre) \<noteq> a"
  shows "fa_end 1 lo pre \<le> unat a"
proof (cases "pre = []")
  case False
  then obtain pre' l k where p: "pre = pre' @ [(l, k)]" by (metis rev_exhaust surj_pair)
  have "unat (l + k) = unat l + unat k" "unat l + unat k \<le> unat a"
    using assms(2) by (auto simp: p intro: unat_area_end)
  moreover have "unat (l + k) \<noteq> unat a" using assms(3) False by (auto simp: p word_unat_eq_iff)
  ultimately show ?thesis by (simp add: p)
qed (use assms(2) in simp)

text \<open>The second merge, seen from whatever block it starts at.\<close>

lemma fa_merge_next:
  assumes "fa_seg (mem s) (farea_head s) (pre @ (a, n) # suf) 0" and "fa_wf 0 lo (pre @ (a, n) # suf)"
    and "0 < lo" and "next = (if suf = [] then 0 else fst (hd suf))"
    and "s' = (if next \<noteq> 0 \<and> P2V a + fa_size (mem s) a = P2V next then fa_merge a next s else s)"
  shows "fa_seg (mem s') (farea_head s') (pre @ fl_join (a, n) suf) 0"
    and "same_outside (span a (unat n)) (mem s) (mem s')" and "con s' = con s"
proof -
  have size: "fa_size (mem s) a = n" using assms(1) by auto
  have nz: "next \<noteq> 0 \<longleftrightarrow> suf \<noteq> []"
  proof (cases suf)
    case (Cons bk rest)
    then show ?thesis using assms(2,3,4) by (cases bk) auto
  qed (simp add: assms(4))
  have "fa_seg (mem s') (farea_head s') (pre @ fl_join (a, n) suf) 0
    \<and> same_outside (span a (unat n)) (mem s) (mem s') \<and> con s' = con s"
  proof (cases "suf \<noteq> [] \<and> a + n = next")
    case True
    then obtain k rest where suf: "suf = (next, k) # rest" using assms(4) by (cases suf) auto
    have "s' = fa_merge a next s"
      using True nz size by (simp add: assms(5) P2V_def algebra_simps)
    moreover have "pre @ fl_join (a, n) suf = pre @ (a, n + k) # rest" using True by (simp add: suf)
    ultimately show ?thesis
      using fa_merge_seg [OF assms(1,2) [unfolded suf]] by simp
  next
    case False
    then have "\<not> (next \<noteq> 0 \<and> P2V a + n = P2V next)"
      using nz by (auto simp: P2V_def algebra_simps)
    then have "s' = s" using size by (auto simp: assms(5))
    moreover have "fl_join (a, n) suf = (a, n) # suf"
      using False assms(4) by (cases suf) auto
    ultimately show ?thesis using assms(1) by simp
  qed
  then show "fa_seg (mem s') (farea_head s') (pre @ fl_join (a, n) suf) 0"
    "same_outside (span a (unat n)) (mem s) (mem s')" "con s' = con s" by blast+
qed

lemma fa_last_nonnull:
  "fa_wf g lo pre \<Longrightarrow> 0 < lo \<Longrightarrow> pre \<noteq> [] \<Longrightarrow> fst (last pre) \<noteq> 0"
  using fa_wf_mem [of g lo pre "fst (last pre)" "snd (last pre)"] by auto

text \<open>Linking the new block in between \<open>pre\<close> and \<open>suf\<close>.\<close>

lemma fa_link:
  assumes "fa_seg (mem s) (farea_head s) (pre @ suf) 0" and "fa_wf 0 lo (pre @ (a, n) # suf)"
    and "0 < lo" and "last' = (if pre = [] then 0 else fst (last pre))"
    and "s1 = set_fa_next a (if suf = [] then 0 else fst (hd suf)) (set_fa_size a n s)"
    and "s2 = (if last' = 0 then s1\<lparr>farea_head := a\<rparr> else set_fa_next last' a s1)"
  shows "fa_seg (mem s2) (farea_head s2) (pre @ (a, n) # suf) 0" and "con s2 = con s"
    and "same_outside (foot (pre @ [(a, n)])) (mem s) (mem s2)"
proof -
  let ?A = "span a (unat n)"
  have h: "span a 4 \<subseteq> ?A" "span (a + 4) 4 \<subseteq> ?A"
    using header_in_area [OF assms(2), of a n] by auto
  have disj: "?A \<inter> foot pre = {}" "?A \<inter> foot suf = {}"
    using foot_disj [of 0 lo "pre @ [(a, n)]" suf] foot_disj [of 0 lo pre "(a, n) # suf"] assms(2) by auto
  obtain q where q: "fa_seg (mem s) (farea_head s) pre q" "fa_seg (mem s) q suf 0"
    using assms(1) by auto
  have frame: "same_outside ?A (mem s) (mem s1)"
    using h by (auto simp: assms(5) intro!: same_outside_st32_trans)
  have "fa_seg (mem s1) q suf 0"
    using fa_seg_same_outside [OF _ frame disj(2)] assms(2) q(2) by auto
  moreover have "q = (if suf = [] then 0 else fst (hd suf))" using fa_seg_head [OF q(2)] .
  ultimately have seg: "fa_seg (mem s1) a ((a, n) # suf) 0"
    by (simp add: assms(5) fa_size_def fa_next_def)
  have head: "farea_head s1 = farea_head s" "con s1 = con s" by (simp_all add: assms(5))
  have f1: "same_outside (foot (pre @ [(a, n)])) (mem s) (mem s1)"
    using frame by (auto elim: same_outside_mono)
  show "con s2 = con s" by (simp add: assms(6) head)
  show "fa_seg (mem s2) (farea_head s2) (pre @ (a, n) # suf) 0"
  proof (cases "pre = []")
    case True
    then show ?thesis using seg by (simp add: assms(4,6))
  next
    case False
    moreover have "last' \<noteq> 0" using fa_last_nonnull [of 0 lo pre] assms(2-4) False by auto
    ultimately show ?thesis
      using fa_seg_relink [OF q(1) frame disj(1) assms(2) seg False] by (simp add: assms(4,6) head)
  qed
  show "same_outside (foot (pre @ [(a, n)])) (mem s) (mem s2)"
  proof (cases "last' = 0")
    case False
    then have "pre \<noteq> []" using assms(4) by auto
    then show ?thesis
      using last_header_in_foot(1) [of 0 lo pre] assms(2,4) f1
      by (auto simp: assms(6) intro: same_outside_st32_trans)
  qed (use f1 in \<open>simp add: assms(6)\<close>)
qed

lemma unat_P2V: "unat st < 2147483648 \<Longrightarrow> unat (P2V st) = unat st + 2147483648"
  using unat_area_end [of st KERNEL_BASE] by (simp add: P2V_def KERNEL_BASE_unat)

lemma V2P_P2V [simp]: "V2P (P2V st) = st" "P2V (V2P a) = a"
  by (simp_all add: V2P_def P2V_def)

lemma V2P_less:
  assumes "2147483648 \<le> unat b" and "unat st < 2147483648"
  shows "V2P b < st \<longleftrightarrow> b < P2V st"
proof -
  have "unat (V2P b) = unat b - 2147483648"
    using assms(1) by (simp add: V2P_def u32_diff KERNEL_BASE_unat)
  then show ?thesis using assms by (auto simp: word_less_nat_alt unat_P2V)
qed

lemma pages_free_ok:
  assumes "pages_inv s xs" and "4096 dvd unat st" and "4096 dvd unat fi"
    and "unat st < unat fi" and "unat fi < 2147483648"
    and "span (P2V st) (unat fi - unat st) \<inter> foot xs = {}"
  shows "\<exists>s'. pages_free st fi s = Some (0, s') \<and> pages_inv s' (fl_insert (P2V st, fi - st) xs)
    \<and> same_outside (foot xs \<union> span (P2V st) (unat fi - unat st)) (mem s) (mem s') \<and> con s' = con s"
proof -
  let ?lo = "unat KERNEL_BASE" and ?m = "mem s"
  define a where "a = P2V st"
  define n where "n = fi - st"
  have lo: "0 < ?lo" by (simp add: KERNEL_BASE_unat)
  have st: "unat st < 2147483648" using assms by simp
  have a: "unat a = unat st + 2147483648" using unat_P2V [OF st] by (simp add: a_def)
  have n: "unat n = unat fi - unat st" using assms(4) by (simp add: n_def u32_diff)
  have wf: "fa_wf 1 ?lo xs" and seg: "fa_seg ?m (farea_head s) xs 0"
    using assms(1) by (auto simp: pages_inv_def)
  obtain pre suf where xs: "xs = pre @ suf" and pre: "\<forall>(b, k) \<in> set pre. b < a"
    and suf: "suf \<noteq> [] \<Longrightarrow> a \<le> fst (hd suf)" and wf0: "fa_wf 0 ?lo (pre @ (a, n) # suf)"
  proof (rule fa_place [OF wf, of n a])
    show "span a (unat n) \<inter> foot xs = {}" using assms(6) by (simp add: a_def n)
    show "4096 dvd unat a" using assms(2) by (simp add: a)
    show "?lo \<le> unat a" by (simp add: a KERNEL_BASE_unat)
  qed (use assms a n in \<open>auto simp: dvd_diff_nat\<close>)
  let ?last = "if pre = [] then 0 else fst (last pre)" and ?next = "if suf = [] then 0 else fst (hd suf)"
  have scan: "fa_scan (\<lambda>p. V2P p < st) ?m 0 (farea_head s) = Some (?last, ?next)"
  proof (rule fa_scan_seg [OF _ _ lo])
    have ge: "2147483648 \<le> unat b" if "(b, k) \<in> set xs" for b k
      using fa_wf_mem [OF wf that] by (simp add: KERNEL_BASE_unat)
    show "\<forall>(b, k) \<in> set pre. V2P b < st"
    proof
      fix bk assume bk: "bk \<in> set pre"
      obtain b k where "bk = (b, k)" by force
      with bk pre ge [of b k] show "case bk of (b, k) \<Rightarrow> V2P b < st"
        by (auto simp: xs V2P_less st a_def)
    qed
    show "\<not> V2P (fst (hd suf)) < st" if "suf \<noteq> []"
      using suf [OF that] ge [of "fst (hd suf)" "snd (hd suf)"] that
      by (simp add: xs V2P_less st a_def not_less)
  qed (use seg wf in \<open>auto simp: xs\<close>)
  define s1 where "s1 = set_fa_next a ?next (set_fa_size a n s)"
  define s2 where "s2 = (if ?last = 0 then s1\<lparr>farea_head := a\<rparr> else set_fa_next ?last a s1)"
  note link = fa_link [OF seg [unfolded xs] wf0 lo refl s1_def s2_def]
  have wf': "fa_wf 1 (fa_end 1 ?lo pre) suf" "fa_wf 1 ?lo pre" using wf by (auto simp: xs)
  define merge where "merge \<longleftrightarrow> pre \<noteq> [] \<and> fst (last pre) + snd (last pre) = a"
  define s3 where "s3 = (if merge then fa_merge ?last a s2 else s2)"
  define t where "t = (if merge then ?last else a)"
  define N where "N = (if merge then snd (last pre) + n else n)"
  define P where "P = (if merge then butlast pre else pre)"
  have cond: "?last \<noteq> 0 \<and> P2V ?last + fa_size (mem s2) ?last = P2V a \<longleftrightarrow> merge"
  proof (cases "pre = []")
    case False
    have "fa_size (mem s2) (fst (last pre)) = snd (last pre)"
      using fa_seg_size [OF link(1)] False by (metis Un_iff last_in_set prod.collapse set_append)
    then show ?thesis
      using False fa_last_nonnull [OF wf'(2) lo] by (auto simp: merge_def P2V_def algebra_simps)
  qed (simp add: merge_def)
  have s3: "fa_seg (mem s3) (farea_head s3) (P @ (t, N) # suf) 0" "fa_wf 0 ?lo (P @ (t, N) # suf)"
    "con s3 = con s" "same_outside (foot (xs @ [(a, n)])) ?m (mem s3)" "fa_wf 1 ?lo P"
    "fa_end 1 ?lo P \<le> unat t" "span t (unat N) \<subseteq> foot (xs @ [(a, n)])"
  proof -
    have frame: "same_outside (foot (xs @ [(a, n)])) ?m (mem s2)"
      using link(3) by (rule same_outside_mono) (auto simp: xs)
    have "fa_seg (mem s3) (farea_head s3) (P @ (t, N) # suf) 0 \<and> fa_wf 0 ?lo (P @ (t, N) # suf)
      \<and> con s3 = con s \<and> same_outside (foot (xs @ [(a, n)])) ?m (mem s3) \<and> fa_wf 1 ?lo P
      \<and> fa_end 1 ?lo P \<le> unat t \<and> span t (unat N) \<subseteq> foot (xs @ [(a, n)])"
    proof (cases merge)
      case False
      have "fa_end 1 ?lo pre \<le> unat a"
        using fa_end_touch [OF wf'(2) wf0] False by (auto simp: merge_def)
      then show ?thesis
        using link(1,2) wf0 frame wf'(2) False by (simp add: s3_def P_def t_def N_def)
    next
      case True
      then obtain pre' l k where p: "pre = pre' @ [(l, k)]"
        by (metis merge_def rev_exhaust surj_pair)
      have la: "l + k = a" using True by (simp add: merge_def p)
      have fm: "fa_seg (mem s3) (farea_head s3) (pre' @ (l, k + n) # suf) 0"
        "same_outside (span l (unat k)) (mem s2) (mem s3)" "con s3 = con s2"
        using fa_merge_seg [of s2 "farea_head s2" pre' l k a n suf ?lo] link(1) wf0 True
        unfolding p s3_def by (auto simp: p)
      have old: "unat l + unat k < 2 ^ 32" "unat a + unat n < 2 ^ 32" "fa_wf 0 ?lo pre'"
        "fa_end 0 ?lo pre' \<le> unat l" "0 < unat k" "4096 dvd unat l" "4096 dvd unat k" "4096 dvd unat n"
        "fa_wf 0 (unat a + unat n) suf" "fa_wf 1 ?lo pre'" "fa_end 1 ?lo pre' \<le> unat l"
        using wf0 wf'(2) by (simp_all add: p)
      have ua: "unat a = unat l + unat k" using unat_area_end [OF old(1)] la by simp
      have kn: "unat (k + n) = unat k + unat n" using ua old(2) by (intro unat_area_end) simp
      have "fa_wf 0 ?lo (pre' @ (l, k + n) # suf)"
        using old ua by (simp add: kn add.assoc)
      moreover have "span l (unat k) \<subseteq> foot (xs @ [(a, n)])" by (auto simp: xs p)
      moreover have "span l (unat (k + n)) \<subseteq> foot (xs @ [(a, n)])"
        using old(1,2) ua by (auto simp: xs p kn span_nowrap)
      ultimately show ?thesis
        using fm old(10,11) True same_outside_trans [OF frame same_outside_mono [OF fm(2)]] link(2)
        by (simp add: P_def t_def N_def p)
    qed
    then show "fa_seg (mem s3) (farea_head s3) (P @ (t, N) # suf) 0" "fa_wf 0 ?lo (P @ (t, N) # suf)"
      "con s3 = con s" "same_outside (foot (xs @ [(a, n)])) ?m (mem s3)" "fa_wf 1 ?lo P"
      "fa_end 1 ?lo P \<le> unat t" "span t (unat N) \<subseteq> foot (xs @ [(a, n)])"
      by blast+
  qed
  define s4 where "s4 = (if ?next \<noteq> 0 \<and> P2V t + fa_size (mem s3) t = P2V ?next then fa_merge t ?next s3 else s3)"
  note fm = fa_merge_next [OF s3(1,2) lo refl s4_def]
  have ins: "fl_insert (a, n) xs = P @ fl_join (t, N) suf"
    using fl_insert_split [OF pre wf'(2) suf] by (simp add: xs P_def t_def N_def merge_def)
  have "pages_free st fi s = Some (0, s4)"
  proof -
    have "(if merge then (?last, fa_merge ?last a s2) else (a, s2)) = (t, s3)"
      by (simp add: t_def s3_def)
    then show ?thesis
      unfolding pages_free_def Let_def a_def [symmetric] n_def [symmetric] scan bind.bind_lunit
        case_prod_conv s1_def [symmetric] s2_def [symmetric] cond s4_def
      using assms(2,3) by (simp add: aligned_iff)
  qed
  moreover have "pages_inv s4 (fl_insert (a, n) xs)"
    using fm(1) s3(5,6) fl_join_wf [of "fa_end 1 ?lo P" t N suf "fa_end 1 ?lo pre"] s3(2) wf'(1)
    by (simp add: pages_inv_def ins)
  moreover have "same_outside (foot xs \<union> span a (unat n)) ?m (mem s4)"
    using same_outside_trans [OF s3(4) same_outside_mono [OF fm(2) s3(7)]] by simp
  moreover have "unat (fi - st) = unat fi - unat st" using n by (simp add: n_def)
  ultimately show ?thesis using fm(3) s3(3) by (auto simp: a_def n_def)
qed

section \<open>Addresses of the lists\<close>

lemma span_join:
  assumes "a + n = b" and "unat a + unat n < 2 ^ 32" and "unat b + unat k < 2 ^ 32"
  shows "span a (unat (n + k)) = span a (unat n) \<union> span b (unat k)"
    and "unat a + unat (n + k) = unat b + unat k"
proof -
  have b: "unat b = unat a + unat n" using unat_area_end [OF assms(2)] assms(1) by simp
  have nk: "unat (n + k) = unat n + unat k" using assms(3) b by (intro unat_area_end) simp
  show "unat a + unat (n + k) = unat b + unat k" by (simp add: b nk)
  show "span a (unat (n + k)) = span a (unat n) \<union> span b (unat k)"
    using assms(3) b by (auto simp: nk span_nowrap)
qed

lemma fl_join_foot:
  assumes "unat a + unat n < 2 ^ 32" and "\<forall>(b, k) \<in> set xs. unat b + unat k < 2 ^ 32"
  shows "foot (fl_join (a, n) xs) = span a (unat n) \<union> foot xs"
proof (cases xs)
  case (Cons bk rest)
  obtain b k where bk: "bk = (b, k)" by force
  then have "unat b + unat k < 2 ^ 32" using assms(2) Cons by simp
  then show ?thesis using span_join(1) [OF _ assms(1), of b k] by (simp add: Cons bk Un_assoc)
qed simp

lemma fl_insert_foot:
  assumes "unat a + unat n < 2 ^ 32" and "\<forall>(b, k) \<in> set xs. unat b + unat k < 2 ^ 32"
  shows "foot (fl_insert (a, n) xs) = span a (unat n) \<union> foot xs"
  using assms(2)
proof (induction xs)
  case (Cons bk xs)
  obtain b k where bk: "bk = (b, k)" by force
  have b: "unat b + unat k < 2 ^ 32" using Cons.prems by (simp add: bk)
  consider "a \<le> b" | "\<not> a \<le> b" "b + k = a" | "\<not> a \<le> b" "b + k \<noteq> a" by blast
  then show ?case
  proof cases
    case 1
    then show ?thesis using fl_join_foot [of a n "(b, k) # xs"] assms(1) Cons.prems by (simp add: bk)
  next
    case 2
    note j = span_join [OF 2(2) b assms(1)]
    show ?thesis
      using fl_join_foot [of b "k + n" xs] j assms(1) Cons.prems 2 by (simp add: bk) blast
  next
    case 3
    then show ?thesis using Cons by (simp add: bk) blast
  qed
qed simp

lemma fl_alloc_foot:
  assumes "fl_alloc need xs = Some (a, ys)" and "fa_wf 1 lo xs"
  shows "span a (unat need) \<subseteq> foot xs" and "foot ys = foot xs - span a (unat need)"
    and "4096 dvd unat a \<and> lo \<le> unat a \<and> unat a + unat need < 2 ^ 32"
proof -
  obtain pre n rest where xs: "xs = pre @ (a, n) # rest" and fit: "need \<le> n"
    and ys: "ys = pre @ (if need < n then (a + need, n - need) # rest else rest)"
    by (rule fl_alloc_Some [OF assms(1)])
  have le: "unat need \<le> unat n" using fit by (simp add: word_le_nat_alt)
  have an: "unat a + unat n < 2 ^ 32" "4096 dvd unat a" "lo \<le> unat a"
    using fa_wf_mem [OF assms(2), of a n] by (auto simp: xs)
  have disj: "span a (unat n) \<inter> foot pre = {}" "span a (unat n) \<inter> foot rest = {}"
    using assms(2) foot_disj [of 1 lo "pre @ [(a, n)]" rest] foot_disj [of 1 lo pre "(a, n) # rest"]
    by (auto simp: xs)
  have sub: "span a (unat need) \<subseteq> span a (unat n)" using le by (rule span_mono)
  then show "span a (unat need) \<subseteq> foot xs" by (auto simp: xs)
  have "span (a + need) (unat (n - need)) = span a (unat n) - span a (unat need)" if "need < n"
  proof -
    have "unat (a + need) = unat a + unat need" "unat (n - need) = unat n - unat need"
      using an(1) le fit by (simp_all add: unat_area_end unat_sub_le)
    then show ?thesis using an(1) le by (auto simp: span_nowrap)
  qed
  moreover have "need = n" if "\<not> need < n" using that fit by simp
  ultimately show "foot ys = foot xs - span a (unat need)"
    using disj sub by (auto simp: xs ys)
  show "4096 dvd unat a \<and> lo \<le> unat a \<and> unat a + unat need < 2 ^ 32" using an le by auto
qed

lemma fl_alloc_insert:
  assumes "fl_alloc need xs = Some (a, ys)" and "fa_wf 1 lo xs"
  shows "fl_insert (a, need) ys = xs"
proof -
  obtain pre n rest where xs: "xs = pre @ (a, n) # rest" and fit: "need \<le> n"
    and ys: "ys = pre @ (if need < n then (a + need, n - need) # rest else rest)"
    by (rule fl_alloc_Some [OF assms(1)])
  let ?suf = "if need < n then (a + need, n - need) # rest else rest"
  have an: "unat a + unat n < 2 ^ 32" "fa_wf 1 lo pre" "fa_end 1 lo pre \<le> unat a"
    "fa_wf 1 (unat a + unat n + 1) rest"
    using assms(2) by (simp_all add: xs)
  have pre: "\<forall>(b, k) \<in> set pre. b < a"
    using fa_wf_mem [OF an(2)] an(3) by (fastforce simp: word_less_nat_alt)
  have far: "\<not> (pre \<noteq> [] \<and> fst (last pre) + snd (last pre) = a)"
  proof (cases "pre = []")
    case False
    then obtain pre' l k where p: "pre = pre' @ [(l, k)]" by (metis rev_exhaust surj_pair)
    have "unat l + unat k < 2 ^ 32" "unat l + unat k < unat a" using an(2,3) by (auto simp: p)
    then show ?thesis using unat_area_end [of l k] by (auto simp: p)
  qed simp
  have suf: "a \<le> fst (hd ?suf)" if "?suf \<noteq> []"
  proof (cases "need < n")
    case True
    then have "unat need < unat n" by (simp add: word_less_nat_alt)
    then have "unat (a + need) = unat a + unat need" using an(1) by (intro unat_area_end) simp
    then show ?thesis using True by (simp add: word_le_nat_alt)
  next
    case False
    then show ?thesis using that an(4) by (cases rest) (auto simp: word_le_nat_alt)
  qed
  have "fl_join (a, need) ?suf = (a, n) # rest"
  proof (cases "need < n")
    case False
    then have "need = n" using fit by simp
    moreover have "a + n \<noteq> b" if "rest = (b, k) # rest'" for b k rest'
      using an(4) unat_area_end [OF an(1)] by (auto simp: that)
    ultimately show ?thesis by (cases rest) auto
  qed simp
  then show ?thesis
    using fl_insert_split [OF pre an(2) suf] far by (auto simp: xs ys)
qed

lemma pages_alloc_None:
  assumes "pages_inv s xs" and "4096 dvd unat need" and "fl_alloc need xs = None"
  shows "pages_alloc need s = None"
proof -
  have wf: "fa_wf 1 (unat KERNEL_BASE) (xs @ [])" and seg: "fa_seg (mem s) (farea_head s) (xs @ []) 0"
    using assms(1) by (simp_all add: pages_inv_def)
  have "\<forall>(b, k) \<in> set xs. fa_size (mem s) b < need"
    using assms(3) fa_seg_size seg by (fastforce simp: fl_alloc_None)
  from fa_scan_seg [OF seg wf _ this, of 0] show ?thesis
    using assms(2) by (simp add: pages_alloc_def aligned_iff KERNEL_BASE_unat)
qed

section \<open>The contract of the page allocator\<close>

definition pages_own :: "'a pages_state_scheme \<Rightarrow> u32 set \<Rightarrow> bool" where
  "pages_own s own \<longleftrightarrow> (\<exists>xs. pages_inv s xs \<and> own = foot xs)"

text \<open>Blocks of whole pages, seen at their virtual addresses.\<close>

definition pages_get :: "u32 \<Rightarrow> 'a pages_state_scheme \<Rightarrow> (u32 \<times> 'a pages_state_scheme) option" where
  "pages_get k s = map_option (\<lambda>(p, s'). (P2V p, s')) (pages_alloc k s)"

definition pages_put :: "u32 \<Rightarrow> u32 \<Rightarrow> 'a pages_state_scheme \<Rightarrow> 'a pages_state_scheme option" where
  "pages_put p k s = map_option snd (pages_free (V2P p) (V2P p + k) s)"

definition whole_pages :: "u32 \<Rightarrow> bool" where
  "whole_pages k \<longleftrightarrow> k \<noteq> 0 \<and> k AND 0xFFF = 0"

definition page_block :: "u32 \<Rightarrow> u32 \<Rightarrow> bool" where
  "page_block p k \<longleftrightarrow> 2147483648 \<le> unat p \<and> 4096 dvd unat p \<and> unat p + unat k < 2 ^ 32"

lemma farea_head_poke [simp]: "farea_head (poke x v s) = farea_head s"
  by (simp add: poke_def)

lemma pages_inv_same:
  assumes "pages_inv s xs" and "\<And>x. x \<in> foot xs \<Longrightarrow> mem s' x = mem s x"
    and "farea_head s' = farea_head s"
  shows "pages_inv s' xs"
  using assms fa_seg_cong [of 1 "unat KERNEL_BASE" xs "mem s'" "mem s"] by (auto simp: pages_inv_def)

lemma pages_get_ok:
  assumes "pages_inv s xs" and "whole_pages k" and "pages_get k s = Some (p, s')"
  obtains ys where "pages_inv s' ys" and "page_block p k" and "span p (unat k) \<subseteq> foot xs"
    and "foot ys = foot xs - span p (unat k)" and "same_outside (foot xs) (mem s) (mem s')"
    and "con s' = con s"
proof -
  have k: "4096 dvd unat k" "k \<noteq> 0" using assms(2) by (auto simp: whole_pages_def aligned_iff)
  obtain q where q: "pages_alloc k s = Some (q, s')" "p = P2V q"
    using assms(3) by (auto simp: pages_get_def)
  obtain a ys where ys: "fl_alloc k xs = Some (a, ys)"
    using pages_alloc_None [OF assms(1) k(1)] q(1) by (cases "fl_alloc k xs") auto
  have wf: "fa_wf 1 (unat KERNEL_BASE) xs" using assms(1) by (simp add: pages_inv_def)
  from pages_alloc_ok [OF assms(1) k ys] q have "p = a" "pages_inv s' ys"
    "same_outside (foot xs) (mem s) (mem s')" "con s' = con s" by auto
  then show thesis
    using that [of ys] fl_alloc_foot [OF ys wf] by (auto simp: page_block_def KERNEL_BASE_unat)
qed

lemma pages_put_ok:
  assumes "pages_inv s xs" and "whole_pages k" and "page_block p k"
    and "span p (unat k) \<inter> foot xs = {}"
  shows "\<exists>s' ys. pages_put p k s = Some s' \<and> pages_inv s' ys \<and> foot ys = span p (unat k) \<union> foot xs
    \<and> same_outside (foot xs \<union> span p (unat k)) (mem s) (mem s') \<and> con s' = con s"
proof -
  have k: "4096 dvd unat k" "0 < unat k"
    using assms(2) by (auto simp: whole_pages_def aligned_iff unat_gt_0)
  have p: "2147483648 \<le> unat p" "4096 dvd unat p" "unat p + unat k < 4294967296"
    using assms(3) by (auto simp: page_block_def)
  have st: "unat (V2P p) = unat p - 2147483648"
    using p(1) by (simp add: V2P_def u32_diff KERNEL_BASE_unat)
  have fi: "unat (V2P p + k) = unat (V2P p) + unat k" using p st by (intro unat_area_end) simp
  have "4096 dvd unat (V2P p)" using p(1,2) by (simp add: st dvd_diff_nat)
  moreover from this have "4096 dvd unat (V2P p + k)" using k(1) by (simp add: fi dvd_add)
  moreover have "unat (V2P p) < unat (V2P p + k)" "unat (V2P p + k) < 2147483648"
    "unat (V2P p + k) - unat (V2P p) = unat k"
    using k(2) p(1,3) st fi by linarith+
  ultimately obtain s' where s': "pages_free (V2P p) (V2P p + k) s = Some (0, s')"
    "pages_inv s' (fl_insert (p, k) xs)" "same_outside (foot xs \<union> span p (unat k)) (mem s) (mem s')"
    "con s' = con s"
    using pages_free_ok [OF assms(1), of "V2P p" "V2P p + k"] assms(4) by auto
  have "\<forall>(b, j) \<in> set xs. unat b + unat j < 2 ^ 32"
    using assms(1) fa_wf_mem [of 1 "unat KERNEL_BASE" xs] by (auto simp: pages_inv_def)
  from fl_insert_foot [OF _ this, of p k] p(3) s' show ?thesis by (auto simp: pages_put_def)
qed

interpretation pg: allocator pages_own mem pages_get pages_put poke whole_pages page_block
proof
  fix s :: "'a pages_state_scheme" and own k p s'
  assume "pages_own s own" and "whole_pages k" and get: "pages_get k s = Some (p, s')"
  then obtain xs where xs: "pages_inv s xs" "own = foot xs" by (auto simp: pages_own_def)
  show "page_block p k \<and> span p (unat k) \<subseteq> own \<and> same_outside own (mem s) (mem s')
      \<and> (\<exists>own'. pages_own s' own' \<and> own' \<subseteq> own - span p (unat k))"
    by (rule pages_get_ok [OF xs(1) \<open>whole_pages k\<close> get]) (auto simp: pages_own_def xs(2))
next
  fix s :: "'a pages_state_scheme" and own k p s'
  assume "pages_own s own" and hyps: "whole_pages k" "page_block p k" "span p (unat k) \<inter> own = {}"
    and put: "pages_put p k s = Some s'"
  then obtain xs where xs: "pages_inv s xs" "own = foot xs" by (auto simp: pages_own_def)
  from pages_put_ok [OF xs(1) hyps [unfolded xs(2)]] put
  show "same_outside (own \<union> span p (unat k)) (mem s) (mem s')
      \<and> (\<exists>own'. pages_own s' own' \<and> own' \<subseteq> own \<union> span p (unat k))"
    by (auto simp: pages_own_def xs(2))
next
  fix s :: "'a pages_state_scheme" and own x v
  assume "pages_own s own" and "x \<notin> own"
  then obtain xs where xs: "pages_inv s xs" "own = foot xs" by (auto simp: pages_own_def)
  then have "pages_inv (poke x v s) xs" using \<open>x \<notin> own\<close> by (intro pages_inv_same [OF xs(1)]) auto
  then show "pages_own (poke x v s) own \<and> mem (poke x v s) = (mem s)(x := v)"
    using xs(2) by (auto simp: pages_own_def)
qed

section \<open>What a page operation may change\<close>

text \<open>The memory, the console and the head of the list; nothing a larger state adds.\<close>

definition pages_only :: "'a pages_state_scheme \<Rightarrow> 'a pages_state_scheme \<Rightarrow> bool" where
  "pages_only s s' \<longleftrightarrow> s'\<lparr>mem := \<lambda>_. 0, con := [], farea_head := 0\<rparr>
     = s\<lparr>mem := \<lambda>_. 0, con := [], farea_head := 0\<rparr>"

lemma pages_only_refl [simp, frame_intro]: "pages_only s s"
  by (simp add: pages_only_def)

lemma pages_only_trans: "pages_only s s' \<Longrightarrow> pages_only s' s'' \<Longrightarrow> pages_only s s''"
  by (simp add: pages_only_def)

lemma pages_only_step:
  "pages_only s s' \<Longrightarrow> pages_only s (wr a v s')"
  "pages_only s s' \<Longrightarrow> pages_only s (kputs str s')"
  "pages_only s s' \<Longrightarrow> pages_only s (s'\<lparr>farea_head := f\<rparr>)"
  by (simp_all add: pages_only_def wr_def kputs_def)

lemma pages_only_set:
  "pages_only s s' \<Longrightarrow> pages_only s (set_fa_next a v s')"
  "pages_only s s' \<Longrightarrow> pages_only s (set_fa_size a v s')"
  "pages_only s s' \<Longrightarrow> pages_only s (uart_spin_puts str s')"
  by (simp_all add: set_fa_next_def set_fa_size_def uart_spin_puts_def pages_only_step)

lemma pages_split_only: "pages_split p n s = (r, s') \<Longrightarrow> pages_only s s'"
  by (auto simp: pages_split_def Let_def pages_only_set split: if_splits)

lemma pages_alloc_only: "pages_alloc need s = Some (p, s') \<Longrightarrow> pages_only s s'"
  by (auto simp: pages_alloc_def fa_unlink_def Let_def bind_eq_Some_conv pages_only_set pages_only_step
      split: if_splits prod.splits dest: pages_split_only)

lemma pages_free_only: "pages_free st fi s = Some (r, s') \<Longrightarrow> pages_only s s'"
  by (auto simp: pages_free_def fa_merge_def Let_def bind_eq_Some_conv pages_only_set pages_only_step
      split: if_splits prod.splits)

section \<open>Properties\<close>

definition boot_state :: "memory \<Rightarrow> pages_state" where
  "boot_state m = \<lparr>mem = m, con = [], io = [], farea_head = 0\<rparr>"

lemma init_pspace_free:
  "\<exists>s'. init_pspace s = Some (0, s') \<and> pages_inv s' [(0x80800000, 0x1e800000)]"
proof -
  have "pages_inv (s\<lparr>farea_head := 0\<rparr>) []" by (simp add: pages_inv_def)
  from pages_free_ok [OF this, of "0x800000" "0x1f000000"] show ?thesis
    by (auto simp: init_pspace_def P2V_def KERNEL_BASE_def)
qed

lemma booted:
  obtains s where "init_pspace (boot_state (\<lambda>_. 0)) = Some (0, s)"
    and "pages_inv s [(0x80800000, 0x1e800000)]"
  using init_pspace_free by blast

text \<open>
  C1. \<open>pages_alloc\<close> implements first fit: on a well-formed free list it returns the physical
  address of the first area that is large enough, leaves a well-formed list without that block
  and touches only free memory; when no area is large enough it never returns.
\<close>

theorem pages_alloc_refines:
  assumes "pages_inv s xs" and "need \<noteq> 0" and "need AND 0xFFF = 0"
  shows "case fl_alloc need xs of
      None \<Rightarrow> pages_alloc need s = None
    | Some (a, ys) \<Rightarrow> \<exists>s'. pages_alloc need s = Some (V2P a, s') \<and> pages_inv s' ys
        \<and> same_outside (foot xs) (mem s) (mem s') \<and> con s' = con s"
proof (cases "fl_alloc need xs")
  case None
  then show ?thesis using pages_alloc_None [OF assms(1)] assms(3) by (simp add: aligned_iff)
next
  case (Some ays)
  then show ?thesis using pages_alloc_ok [OF assms(1)] assms(2,3) by (cases ays) (simp add: aligned_iff)
qed

theorem pages_alloc_refines_witness:
  "\<exists>s s'. init_pspace (boot_state (\<lambda>_. 0)) = Some (0, s) \<and> pages_alloc 0x3000 s = Some (0x800000, s')
    \<and> pages_inv s' [(0x80803000, 0x1e7fd000)]"
proof -
  obtain s where s: "init_pspace (boot_state (\<lambda>_. 0)) = Some (0, s)"
    "pages_inv s [(0x80800000, 0x1e800000)]" by (rule booted)
  from pages_alloc_refines [OF s(2), of "0x3000"] s(1) show ?thesis
    by (auto simp: V2P_def KERNEL_BASE_def)
qed

text \<open>
  C11. \<open>pages_free\<close> implements insertion with merging: freeing an aligned range that is not
  free yields the sorted list in which the range is merged with the areas it touches, and
  touches only free memory and the range.
\<close>

theorem pages_free_refines:
  assumes "pages_inv s xs" and "st AND 0xFFF = 0" and "fi AND 0xFFF = 0"
    and "st < fi" and "fi < 0x80000000" and "span (P2V st) (unat (fi - st)) \<inter> foot xs = {}"
  shows "\<exists>s'. pages_free st fi s = Some (0, s') \<and> pages_inv s' (fl_insert (P2V st, fi - st) xs)
    \<and> foot (fl_insert (P2V st, fi - st) xs) = span (P2V st) (unat (fi - st)) \<union> foot xs
    \<and> same_outside (foot xs \<union> span (P2V st) (unat (fi - st))) (mem s) (mem s') \<and> con s' = con s"
proof -
  have lt: "unat st < unat fi" "unat fi < 2147483648" using assms(4,5) by (simp_all add: word_less_nat_alt)
  then have n: "unat (fi - st) = unat fi - unat st" by (simp add: u32_diff)
  have "unat (P2V st) + unat (fi - st) < 2 ^ 32" using lt by (simp add: unat_P2V n)
  moreover have "\<forall>(b, j) \<in> set xs. unat b + unat j < 2 ^ 32"
    using assms(1) fa_wf_mem [of 1 "unat KERNEL_BASE" xs] by (auto simp: pages_inv_def)
  ultimately have "foot (fl_insert (P2V st, fi - st) xs) = span (P2V st) (unat (fi - st)) \<union> foot xs"
    by (rule fl_insert_foot)
  then show ?thesis
    using pages_free_ok [OF assms(1), of st fi] assms(2,3,6) lt by (simp add: aligned_iff n)
qed

theorem pages_free_refines_witness:
  "\<exists>s s'. init_pspace (boot_state (\<lambda>_. 0)) = Some (0, s) \<and> pages_free 0x1f000000 0x1f001000 s = Some (0, s')
    \<and> pages_inv s' [(0x80800000, 0x1e801000)]"
proof -
  obtain s where s: "init_pspace (boot_state (\<lambda>_. 0)) = Some (0, s)"
    "pages_inv s [(0x80800000, 0x1e800000)]" by (rule booted)
  have "span (P2V 0x1f000000) 4096 \<inter> foot [(0x80800000, 0x1e800000)] = {}"
    by (auto simp: P2V_def KERNEL_BASE_def span_nowrap)
  with pages_free_refines [OF s(2), of "0x1f000000" "0x1f001000"] s(1) show ?thesis
    by (auto simp: P2V_def KERNEL_BASE_def)
qed

text \<open>
  C18. Freeing the block just allocated restores the free list exactly, splits and merges
  included.
\<close>

theorem pages_alloc_free_restores:
  assumes "pages_inv s xs" and "need \<noteq> 0" and "need AND 0xFFF = 0"
    and "pages_alloc need s = Some (p, s')"
  shows "\<exists>s''. pages_free p (p + need) s' = Some (0, s'') \<and> pages_inv s'' xs"
proof -
  have k: "4096 dvd unat need" using assms(3) by (simp add: aligned_iff)
  obtain a ys where ys: "fl_alloc need xs = Some (a, ys)"
    using pages_alloc_None [OF assms(1) k] assms(4) by (cases "fl_alloc need xs") auto
  have wf: "fa_wf 1 (unat KERNEL_BASE) xs" using assms(1) by (simp add: pages_inv_def)
  from pages_alloc_ok [OF assms(1) k assms(2) ys] assms(4)
  have p: "p = V2P a" and inv': "pages_inv s' ys" by auto
  note ft = fl_alloc_foot [OF ys wf]
  have a: "2147483648 \<le> unat a" using ft(3) by (simp add: KERNEL_BASE_unat)
  have st: "unat p = unat a - 2147483648"
    using a by (simp add: p V2P_def u32_diff KERNEL_BASE_unat)
  have "unat p + unat need < 2 ^ 32" using ft(3) st by linarith
  then have fi: "unat (p + need) = unat p + unat need" by (rule unat_area_end)
  have "4096 dvd unat p" using ft(3) a by (simp add: st dvd_diff_nat)
  moreover from this have "4096 dvd unat (p + need)" using k by (simp add: fi dvd_add)
  moreover have "0 < unat need" using assms(2) by (simp add: unat_gt_0)
  moreover from this have "unat p < unat (p + need)" "unat (p + need) < 2147483648"
    "unat (p + need) - unat p = unat need"
    using ft(3) [simplified] a st fi by linarith+
  moreover have "span (P2V p) (unat need) \<inter> foot ys = {}" "p + need - p = need"
    using ft(2) by (auto simp: p)
  ultimately show ?thesis
    using pages_free_ok [OF inv', of p "p + need"] fl_alloc_insert [OF ys wf] by (auto simp: p)
qed

theorem pages_alloc_free_restores_witness:
  "\<exists>s s' s''. init_pspace (boot_state (\<lambda>_. 0)) = Some (0, s) \<and> pages_alloc 0x3000 s = Some (0x800000, s')
    \<and> pages_free 0x800000 0x803000 s' = Some (0, s'') \<and> pages_inv s'' [(0x80800000, 0x1e800000)]"
proof -
  obtain s where s: "init_pspace (boot_state (\<lambda>_. 0)) = Some (0, s)"
    "pages_inv s [(0x80800000, 0x1e800000)]" by (rule booted)
  obtain s' where s': "pages_alloc 0x3000 s = Some (0x800000, s')"
    using pages_alloc_ok [OF s(2), of "0x3000"] by (auto simp: V2P_def KERNEL_BASE_def)
  from pages_alloc_free_restores [OF s(2) _ _ s'] s(1) s' show ?thesis by auto
qed

text \<open>
  C17. After \<open>init_pspace\<close>, whatever blocks of whole pages the kernel takes, gives back and
  writes to: the blocks it holds never overlap, they and the free areas partition the 488 MB
  given to the allocator at start, and no byte outside these has changed.
\<close>

theorem pages_run_partition:
  assumes "init_pspace s = Some (r, s0)"
    and "alloc_run pages_get pages_put poke whole_pages s0 s' live"
  shows "blocks_disj live \<and> same_outside (span 0x80800000 0x1e800000) (mem s0) (mem s')
    \<and> (\<exists>xs. pages_inv s' xs \<and> foot xs \<inter> foot live = {}
        \<and> foot xs \<union> foot live = span 0x80800000 0x1e800000)"
proof -
  let ?arena = "span 0x80800000 0x1e800000"
  have s0: "pages_inv s0 [(0x80800000, 0x1e800000)]" using init_pspace_free [of s] assms(1) by auto
  have arena: "foot [(0x80800000, 0x1e800000)] = ?arena" by simp
  have own0: "pages_own s0 ?arena" using s0 arena by (metis pages_own_def)
  have "\<exists>xs. pages_inv s' xs \<and> foot xs \<inter> foot live = {} \<and> foot xs \<union> foot live = ?arena"
    using assms(2)
  proof (induction rule: alloc_run.induct)
    case run_start
    show ?case using s0 by (intro exI [of _ "[(0x80800000, 0x1e800000)]"]) simp
  next
    case (run_alloc s live k p s')
    then obtain xs where xs: "pages_inv s xs" "foot xs \<inter> foot live = {}" "foot xs \<union> foot live = ?arena"
      by blast
    obtain ys where "pages_inv s' ys" "span p (unat k) \<subseteq> foot xs" "foot ys = foot xs - span p (unat k)"
      by (rule pages_get_ok [OF xs(1) run_alloc.hyps(2,3)])
    then show ?case using xs(2,3) by (intro exI [of _ ys]) auto
  next
    case (run_release s live p k s')
    then obtain xs where xs: "pages_inv s xs" "foot xs \<inter> foot live = {}" "foot xs \<union> foot live = ?arena"
      by blast
    have live: "blocks_disj live" "whole_pages k" "page_block p k"
      using pg.run_inv [OF run_release.hyps(1) own0] run_release.hyps(2) by auto
    note rem = blocks_disj_remove1 [OF live(1) run_release.hyps(2)]
      foot_remove1 [OF run_release.hyps(2)]
    have disj: "span p (unat k) \<inter> foot xs = {}" using xs(2) rem by auto
    obtain ys where ys: "pages_inv s' ys" "foot ys = span p (unat k) \<union> foot xs"
      using pages_put_ok [OF xs(1) live(2,3) disj] run_release.hyps(3) by auto
    then show ?case using xs(2,3) rem by (intro exI [of _ ys]) auto
  next
    case (run_write s live x v)
    then obtain xs where xs: "pages_inv s xs" "foot xs \<inter> foot live = {}" "foot xs \<union> foot live = ?arena"
      by blast
    moreover have "pages_inv (poke x v s) xs"
      using xs(2) run_write.hyps(2) by (intro pages_inv_same [OF xs(1)]) auto
    ultimately show ?case by blast
  qed
  then show ?thesis using pg.run_inv [OF assms(2) own0] by blast
qed

theorem pages_run_partition_witness:
  "\<exists>s0 s'. init_pspace (boot_state (\<lambda>_. 0)) = Some (0, s0) \<and> pages_get 0x3000 s0 = Some (0x80800000, s')
    \<and> blocks_disj [(0x80800000, 0x3000)] \<and> same_outside (span 0x80800000 0x1e800000) (mem s0) (mem s')"
proof -
  obtain s where s: "init_pspace (boot_state (\<lambda>_. 0)) = Some (0, s)"
    "pages_inv s [(0x80800000, 0x1e800000)]" by (rule booted)
  obtain s' where s': "pages_get 0x3000 s = Some (0x80800000, s')"
    using pages_alloc_ok [OF s(2), of "0x3000"] by (auto simp: pages_get_def)
  have "alloc_run pages_get pages_put poke whole_pages s s' [(0x80800000, 0x3000)]"
    using run_alloc [OF run_start [of pages_get pages_put poke whole_pages s], of "0x3000"] s'
    by (auto simp: whole_pages_def)
  from pages_run_partition [OF s(1) this] s(1) s' show ?thesis by blast
qed

lemma fa_scan_Some:
  assumes "fa_scan cond m l p = Some r"
  shows "\<not> (fa_next m p = p \<and> p \<noteq> 0 \<and> cond p)"
proof (rule fa_scan.raw_induct
    [where P = "\<lambda>cond m l p r. \<not> (fa_next m p = p \<and> p \<noteq> 0 \<and> cond p)", OF _ assms])
  fix f :: "(u32 \<Rightarrow> bool) \<Rightarrow> memory \<Rightarrow> u32 \<Rightarrow> u32 \<Rightarrow> (u32 \<times> u32) option" and cond m l p r
  assume IH: "\<And>cond m l p r. f cond m l p = Some r \<Longrightarrow> \<not> (fa_next m p = p \<and> p \<noteq> 0 \<and> cond p)"
    and eq: "(if p \<noteq> 0 \<and> cond p then f cond m p (fa_next m p) else Some (l, p)) = Some r"
  show "\<not> (fa_next m p = p \<and> p \<noteq> 0 \<and> cond p)"
    using eq IH [of cond m p "fa_next m p" r] by auto
qed

lemma fa_scan_self: "fa_next m a = a \<Longrightarrow> a \<noteq> 0 \<Longrightarrow> cond a \<Longrightarrow> fa_scan cond m l a = None"
  using fa_scan_Some [of cond m l a] by (cases "fa_scan cond m l a") auto

text \<open>An area of size 0 that is its own successor, at the head of the list. A state reached by
  allocations alone, with whatever sizes, keeps it.\<close>

definition fa_stuck :: "'a pages_state_scheme \<Rightarrow> u32 \<Rightarrow> bool" where
  "fa_stuck s a \<longleftrightarrow> a \<noteq> 0 \<and> farea_head s = a \<and> fa_size (mem s) a = 0 \<and> fa_next (mem s) a = a"

inductive allocs_only :: "'a pages_state_scheme \<Rightarrow> 'a pages_state_scheme \<Rightarrow> bool" for s where
  allocs_none: "allocs_only s s"
| allocs_step: "allocs_only s t \<Longrightarrow> pages_alloc need t = Some (r, u) \<Longrightarrow> allocs_only s u"

lemma stuck_unaligned: "need AND 0xFFF \<noteq> 0 \<Longrightarrow> \<exists>c. pages_alloc need s = Some (0, s\<lparr>con := c\<rparr>)"
  unfolding pages_alloc_def uart_spin_puts_def kputs_def by (simp only: if_True not_False_eq_True) blast

lemma stuck_zero:
  assumes "fa_stuck s a"
  shows "pages_alloc 0 s = Some (V2P a, s)"
proof -
  have "fa_scan (\<lambda>p. False) (mem s) 0 a = Some (0, a)" by (subst fa_scan.simps) simp
  then show ?thesis using assms by (simp add: fa_stuck_def pages_alloc_def fa_unlink_def)
qed

lemma stuck_hangs:
  assumes "fa_stuck s a" and "need AND 0xFFF = 0" and "need \<noteq> 0"
  shows "pages_alloc need s = None"
  using assms fa_scan_self [of "mem s" a "\<lambda>p. fa_size (mem s) p < need" 0]
  by (simp add: fa_stuck_def pages_alloc_def word_neq_0_conv)

lemma stuck_stays: "allocs_only s t \<Longrightarrow> fa_stuck s a \<Longrightarrow> fa_stuck t a"
proof (induction rule: allocs_only.induct)
  case (allocs_step t need r u)
  then have t: "fa_stuck t a" by simp
  consider "need AND 0xFFF \<noteq> 0" | "need = 0" | "need AND 0xFFF = 0" "need \<noteq> 0" by blast
  then show ?case
  proof cases
    case 1
    then show ?thesis using stuck_unaligned [of need t] allocs_step.hyps(2) t by (auto simp: fa_stuck_def)
  qed (use stuck_zero [OF t] stuck_hangs [OF t] allocs_step.hyps(2) t in auto)
qed

lemma alloc_zero_stuck:
  assumes "pages_inv s ((a, n) # xs)"
  shows "\<exists>s'. pages_alloc 0 s = Some (V2P a, s') \<and> fa_stuck s' a"
proof -
  have head: "farea_head s = a" "fa_size (mem s) a = n" "2147483648 \<le> unat a" "0 < unat n"
    using assms by (auto simp: pages_inv_def KERNEL_BASE_unat)
  then have nz: "a \<noteq> 0" "n \<noteq> 0" "0 < n" by (auto simp: word_less_nat_alt)
  have scan: "fa_scan (\<lambda>p. False) (mem s) 0 a = Some (0, a)"
    by (subst fa_scan.simps) simp
  define s' where "s' = set_fa_next a a (set_fa_size a 0 (set_fa_next a (fa_next (mem s) a)
    (set_fa_size a n s)))\<lparr>farea_head := a\<rparr>"
  have "pages_alloc 0 s = Some (V2P a, s')"
    using head nz unfolding pages_alloc_def head(1)
    by (simp add: head(1) scan pages_split_def fa_unlink_def Let_def s'_def fa_next_def fa_size_def)
  moreover have "fa_stuck s' a"
    using nz by (simp add: fa_stuck_def s'_def fa_size_def fa_next_def)
  ultimately show ?thesis by blast
qed

text \<open>
  C39. An allocation of size 0 destroys the allocator until something is freed: it returns the
  address of the first free area and turns that area into one of size 0 that is its own
  successor. In every state reached from there by allocations only, of whatever sizes, an
  allocation of a page or more (a size that is not 0 and a multiple of the page size) loops
  forever, an allocation of size 0 hands out the same address again, and one of an unaligned size
  is refused with 0. Nothing is said of what happens once something has been freed.
\<close>

theorem pages_alloc_zero_destroys:
  assumes "pages_inv s ((a, n) # xs)"
  shows "\<exists>s'. pages_alloc 0 s = Some (V2P a, s') \<and> farea_head s' = a \<and> fa_size (mem s') a = 0
    \<and> fa_next (mem s') a = a
    \<and> (\<forall>t. allocs_only s' t \<longrightarrow> pages_alloc 0 t = Some (V2P a, t)
        \<and> (\<forall>need. need AND 0xFFF = 0 \<and> need \<noteq> 0 \<longrightarrow> pages_alloc need t = None)
        \<and> (\<forall>need. need AND 0xFFF \<noteq> 0 \<longrightarrow> (\<exists>u. pages_alloc need t = Some (0, u))))"
proof -
  obtain s' where s': "pages_alloc 0 s = Some (V2P a, s')" "fa_stuck s' a"
    using alloc_zero_stuck [OF assms] by blast
  have "pages_alloc 0 t = Some (V2P a, t)" "need AND 0xFFF = 0 \<and> need \<noteq> 0 \<longrightarrow> pages_alloc need t = None"
    "need AND 0xFFF \<noteq> 0 \<longrightarrow> (\<exists>u. pages_alloc need t = Some (0, u))" if "allocs_only s' t" for t need
    using stuck_zero stuck_hangs stuck_unaligned stuck_stays [OF that s'(2)] by blast+
  then show ?thesis using s' unfolding fa_stuck_def by blast
qed

text \<open>Here the page asked for after an allocation of size 0, one of size 7 and another of size 0.\<close>

theorem pages_alloc_zero_destroys_witness:
  "\<exists>s s' t. init_pspace (boot_state (\<lambda>_. 0)) = Some (0, s) \<and> pages_alloc 0 s = Some (0x800000, s')
    \<and> pages_alloc 7 s' = Some (0, t) \<and> pages_alloc 0 t = Some (0x800000, t) \<and> pages_alloc 0x1000 t = None"
proof -
  obtain s where s: "init_pspace (boot_state (\<lambda>_. 0)) = Some (0, s)"
    "pages_inv s [(0x80800000, 0x1e800000)]" by (rule booted)
  have need: "(0x1000 :: u32) AND 0xFFF = 0 \<and> (0x1000 :: u32) \<noteq> 0" "(7 :: u32) AND 0xFFF \<noteq> 0" by simp_all
  obtain s' where s': "pages_alloc 0 s = Some (0x800000, s')"
    "\<And>t. allocs_only s' t \<Longrightarrow> pages_alloc 0 t = Some (0x800000, t) \<and> pages_alloc 0x1000 t = None
      \<and> (\<exists>u. pages_alloc 7 t = Some (0, u))"
    using pages_alloc_zero_destroys [OF s(2)] need by (auto simp: V2P_def KERNEL_BASE_def)
  obtain t where t: "pages_alloc 7 s' = Some (0, t)" using s'(2) [OF allocs_none] by blast
  from s'(2) [OF allocs_step [OF allocs_none t]] show ?thesis using s(1) s'(1) t by blast
qed

end
