(* ===== verification/Slab.thy ===== *)
theory Slab
  imports Pages
begin

text \<open>
  \<open>kern/mm/slb.c\<close>: caches of equal-sized objects. A cache (\<open>slb_t\<close>) is a list of pools; a
  pool is a run of pages with a header (\<open>slb_pool_t\<close>) and the list of its free objects, linked
  through their first word. The descriptors of the caches are objects of the cache for
  16-byte objects that \<open>slb_init\<close> sets up.
\<close>

section \<open>The object caches\<close>

record slb_state = pages_state +
  slb_head :: u32

text \<open>\<open>min\<close> and \<open>max\<close> take \<open>int\<close>s.\<close>

definition int_min :: "u32 \<Rightarrow> u32 \<Rightarrow> u32" where
  "int_min a b = (if a <s b then a else b)"

definition int_max :: "u32 \<Rightarrow> u32 \<Rightarrow> u32" where
  "int_max a b = (if b <s a then a else b)"

definition MAX_u32 :: "u32 \<Rightarrow> u32 \<Rightarrow> u32" where
  "MAX_u32 a b = (if b < a then a else b)"

definition sizeof_slb_t :: u32 where "sizeof_slb_t = 16"
definition sizeof_slb_pool_t :: u32 where "sizeof_slb_pool_t = 16"
definition sizeof_slb_obj_t :: u32 where "sizeof_slb_obj_t = 4"

text \<open>The fields of \<open>slb_t\<close>, \<open>slb_pool_t\<close> and \<open>slb_obj_t\<close>.\<close>

definition obj_align :: "memory \<Rightarrow> u32 \<Rightarrow> u32" where "obj_align m p = ld32 m p"
definition obj_size :: "memory \<Rightarrow> u32 \<Rightarrow> u32" where "obj_size m p = ld32 m (p + 4)"
definition pool_head :: "memory \<Rightarrow> u32 \<Rightarrow> u32" where "pool_head m p = ld32 m (p + 8)"
definition next_slb :: "memory \<Rightarrow> u32 \<Rightarrow> u32" where "next_slb m p = ld32 m (p + 12)"
definition cnt_inuse :: "memory \<Rightarrow> u32 \<Rightarrow> u32" where "cnt_inuse m p = ld32 m p"
definition pool_size :: "memory \<Rightarrow> u32 \<Rightarrow> u32" where "pool_size m p = ld32 m (p + 4)"
definition obj_head :: "memory \<Rightarrow> u32 \<Rightarrow> u32" where "obj_head m p = ld32 m (p + 8)"
definition next_pool :: "memory \<Rightarrow> u32 \<Rightarrow> u32" where "next_pool m p = ld32 m (p + 12)"
definition next_obj :: "memory \<Rightarrow> u32 \<Rightarrow> u32" where "next_obj m p = ld32 m p"

text \<open>
  The loop of \<open>pool_segm\<close>. The object at \<open>i\<close> is pushed on the pool's list when it is
  aligned. It does not return when the steps wrap around the address space forever.
\<close>

partial_function (option) pool_segm_loop ::
    "u32 \<Rightarrow> u32 \<Rightarrow> u32 \<Rightarrow> u32 \<Rightarrow> u32 \<Rightarrow> 'a slb_state_scheme \<Rightarrow> 'a slb_state_scheme option" where
  [code]: "pool_segm_loop pool psize osize align i s =
     (if i + osize \<le> pool + psize
      then let s' = (if align = 0 \<or> i AND (align - 1) = 0
                     then wr (pool + 8) i (wr i (obj_head (mem s) pool) s)
                     else s)
           in pool_segm_loop pool psize osize align (i + MAX_u32 osize align) s'
      else Some s)"

definition pool_segm ::
    "u32 \<Rightarrow> u32 \<Rightarrow> u32 \<Rightarrow> u32 \<Rightarrow> 'a slb_state_scheme \<Rightarrow> (u32 \<times> 'a slb_state_scheme) option" where
  "pool_segm pool psize osize align s =
     (if pool = 0 then Some (0, s)
      else let s1 = wr (pool + 12) 0 (wr (pool + 8) 0 (wr (pool + 4) psize (wr pool 0 s)));
               i = pool + 16;
               i = (if align \<noteq> 0 \<and> i AND (align - 1) \<noteq> 0
                    then i + align - ((align - 1) AND i) else i)
           in if pool + psize \<le> i then Some (0, s1)
              else do {
                s2 \<leftarrow> pool_segm_loop pool psize osize align i (wr (pool + 8) 0 s1);
                Some (pool, s2)
              })"

text \<open>
  The loop of \<open>pool_alloc\<close> that retries with one page less. Its test looks at the virtual
  address, which is \<open>NULL\<close> only for the physical address \<open>0x80000000\<close>.
\<close>

partial_function (option) pool_pages ::
    "u32 \<Rightarrow> 'a slb_state_scheme \<Rightarrow> (u32 \<times> u32 \<times> 'a slb_state_scheme) option" where
  [code]: "pool_pages psize s = do {
     (p, s) \<leftarrow> pages_alloc psize s;
     if P2V p = 0 \<and> 0 < psize then pool_pages (psize - 0x1000) s else Some (P2V p, psize, s)
   }"

definition pool_bytes :: "u32 \<Rightarrow> u32" where
  "pool_bytes osize =
     (let psize = osize * 10 + sizeof_slb_pool_t + 10
      in if psize AND 0xFFF \<noteq> 0 then push_bit 12 (drop_bit 12 psize + 1) else psize)"

definition pool_alloc :: "u32 \<Rightarrow> u32 \<Rightarrow> 'a slb_state_scheme \<Rightarrow> (u32 \<times> 'a slb_state_scheme) option" where
  "pool_alloc osize align s = do {
     (pool, psize, s) \<leftarrow> pool_pages (pool_bytes osize) s;
     (segm, s) \<leftarrow> pool_segm pool psize osize align s;
     if segm = 0 then do {
       (_, s) \<leftarrow> pages_free pool (pool + psize) s;
       Some (0, s)
     }
     else Some (pool, s)
   }"

text \<open>The code has a \<open>pool_free\<close> that nothing calls.\<close>

definition pool_free :: "u32 \<Rightarrow> 'a slb_state_scheme \<Rightarrow> 'a slb_state_scheme option" where
  "pool_free p s = map_option snd (pages_free (V2P p) (V2P p + pool_size (mem s) p) s)"

text \<open>The walks over the caches and over the pools of a cache.\<close>

partial_function (option) slb_find :: "memory \<Rightarrow> u32 \<Rightarrow> u32 \<Rightarrow> u32 \<Rightarrow> u32 option" where
  [code]: "slb_find m sz align iter_slb =
     (if iter_slb \<noteq> 0 \<and> \<not> (obj_align m iter_slb = align \<and> obj_size m iter_slb = sz)
      then slb_find m sz align (next_slb m iter_slb) else Some iter_slb)"

partial_function (option) pool_find_free :: "memory \<Rightarrow> u32 \<Rightarrow> u32 option" where
  [code]: "pool_find_free m iter_pool =
     (if iter_pool \<noteq> 0 \<and> obj_head m iter_pool = 0
      then pool_find_free m (next_pool m iter_pool) else Some iter_pool)"

partial_function (option) pool_find :: "memory \<Rightarrow> u32 \<Rightarrow> u32 \<Rightarrow> u32 option" where
  [code]: "pool_find m p iter_pool =
     (if iter_pool \<noteq> 0 \<and> \<not> (iter_pool \<le> p \<and> p < iter_pool + pool_size m iter_pool)
      then pool_find m p (next_pool m iter_pool) else Some iter_pool)"

text \<open>Taking the first free object of a pool.\<close>

definition pool_pop :: "u32 \<Rightarrow> 'a slb_state_scheme \<Rightarrow> u32 \<times> 'a slb_state_scheme" where
  "pool_pop iter_pool s =
     (let result = obj_head (mem s) iter_pool;
          s1 = wr (iter_pool + 8) (next_obj (mem s) result) s
      in (result, wr iter_pool (cnt_inuse (mem s1) iter_pool + 1) s1))"

text \<open>The body of the search loop of \<open>slb_alloc_align\<close>, when the cache matches.\<close>

definition slb_alloc_hit ::
    "u32 \<Rightarrow> u32 \<Rightarrow> u32 \<Rightarrow> 'a slb_state_scheme \<Rightarrow> (u32 \<times> 'a slb_state_scheme) option" where
  "slb_alloc_hit iter_slb osize align s = do {
     iter_pool \<leftarrow> pool_find_free (mem s) (pool_head (mem s) iter_slb);
     if iter_pool = 0 then do {
       (iter_pool, s) \<leftarrow> pool_alloc osize align s;
       if iter_pool = 0 then Some (0, s)
       else (let s1 = wr (iter_pool + 12) (pool_head (mem s) iter_slb) s;
                 s2 = wr (iter_slb + 8) iter_pool s1
             in Some (pool_pop iter_pool s2))
     }
     else Some (pool_pop iter_pool s)
   }"

definition slb_free_align ::
    "u32 \<Rightarrow> u32 \<Rightarrow> u32 \<Rightarrow> 'a slb_state_scheme \<Rightarrow> (u32 \<times> 'a slb_state_scheme) option" where
  "slb_free_align p sz align s = (
     let align = (if align = 0 \<and> sz \<le> 4 then sz else align) in do {
     iter_slb \<leftarrow> slb_find (mem s) sz align (slb_head s);
     if iter_slb = 0 then Some (1, s)
     else do {
       iter_pool \<leftarrow> pool_find (mem s) p (pool_head (mem s) iter_slb);
       if iter_pool = 0 then Some (1, s)
       else (let s1 = wr p (obj_head (mem s) iter_pool) s;
                 s2 = wr (iter_pool + 8) p s1
             in Some (0, wr iter_pool (cnt_inuse (mem s2) iter_pool - 1) s2))
     }
   })"

definition slb_free :: "u32 \<Rightarrow> u32 \<Rightarrow> 'a slb_state_scheme \<Rightarrow> (u32 \<times> 'a slb_state_scheme) option" where
  "slb_free p sz s = slb_free_align p sz 0 s"

partial_function (option) slb_alloc_align ::
    "u32 \<Rightarrow> u32 \<Rightarrow> 'a slb_state_scheme \<Rightarrow> (u32 \<times> 'a slb_state_scheme) option" where
  [code]: "slb_alloc_align osize0 align0 s = (
     let align = (if align0 = 0 then int_min osize0 4 else align0);
         osize = int_max osize0 sizeof_slb_obj_t
     in do {
     iter_slb \<leftarrow> slb_find (mem s) osize align (slb_head s);
     if iter_slb \<noteq> 0 then slb_alloc_hit iter_slb osize align s
     else do {
       (iter_slb, s) \<leftarrow> slb_alloc_align sizeof_slb_t 0 s;
       if iter_slb = 0 then Some (0, s)
       else do {
         (pool, s) \<leftarrow> pool_alloc osize align (wr (iter_slb + 4) osize (wr iter_slb align s));
         let s = wr (iter_slb + 8) pool s;
         if pool = 0 then do {
           (_, s) \<leftarrow> slb_free iter_slb sizeof_slb_t s;
           Some (0, s)
         }
         else slb_alloc_align osize align
           (wr (iter_slb + 12) (slb_head s) s\<lparr>slb_head := iter_slb\<rparr>)
       }
     }
   })"

definition slb_alloc :: "u32 \<Rightarrow> 'a slb_state_scheme \<Rightarrow> (u32 \<times> 'a slb_state_scheme) option" where
  "slb_alloc sz s = slb_alloc_align sz 0 s"

definition slb_init :: "'a slb_state_scheme \<Rightarrow> (u32 \<times> 'a slb_state_scheme) option" where
  "slb_init s = do {
     (init_pool, s) \<leftarrow> pool_alloc 16 0 (s\<lparr>slb_head := 0\<rparr>);
     if init_pool = 0 then Some (1, s)
     else (let head = obj_head (mem s) init_pool;
               s1 = wr (init_pool + 8) (next_obj (mem s) head) (s\<lparr>slb_head := head\<rparr>);
               s2 = wr head (int_min 4 sizeof_slb_t) s1;
               s3 = wr (head + 4) (int_max sizeof_slb_t sizeof_slb_obj_t) s2;
               s4 = wr (head + 8) init_pool s3
           in Some (0, wr (head + 12) 0 s4))
   }"

section \<open>\<open>kmalloc\<close>\<close>

text \<open>
  \<open>kern/mm/kmemory_manage.c\<close>: blocks of any size, in the cache of the next power of two,
  with the requested size in the word before the block.
\<close>

definition lowbit :: "u32 \<Rightarrow> u32" where
  "lowbit x = x AND (- x)"

partial_function (option) up_bound_loop :: "u32 \<Rightarrow> u32 option" where
  [code]: "up_bound_loop sz = (if sz \<noteq> lowbit sz then up_bound_loop (sz + lowbit sz) else Some sz)"

definition up_bound :: "u32 \<Rightarrow> u32 option" where
  "up_bound sz = up_bound_loop (sz + 4)"

definition kmalloc :: "u32 \<Rightarrow> 'a slb_state_scheme \<Rightarrow> (u32 \<times> 'a slb_state_scheme) option" where
  "kmalloc sz s = do {
     n \<leftarrow> up_bound sz;
     (p, s) \<leftarrow> slb_alloc n s;
     if p = 0 then Some (0, s) else Some (p + 4, wr p sz s)
   }"

definition kmfree :: "u32 \<Rightarrow> 'a slb_state_scheme \<Rightarrow> (u32 \<times> 'a slb_state_scheme) option" where
  "kmfree p s = do {
     let p = p - 4;
     n \<leftarrow> up_bound (rd s p);
     slb_free p n s
   }"

end
