(* ===== verification/Slab_Correct.thy ===== *)
theory Slab_Correct
  imports Slab
begin

text \<open>
  What the object caches keep and promise. The caches are a list of lists; every structure of
  the allocator - a cache descriptor, a pool header, a free object - is a block of its own, and
  no two of them overlap each other, the free pages or the client's objects.
\<close>

section \<open>The caches in memory\<close>

type_synonym pool = "u32 \<times> u32 \<times> u32 list"
type_synonym cache = "u32 \<times> u32 \<times> u32 \<times> pool list"

fun obj_list :: "memory \<Rightarrow> u32 \<Rightarrow> u32 list \<Rightarrow> bool" where
  "obj_list m p [] \<longleftrightarrow> p = 0"
| "obj_list m p (a # os) \<longleftrightarrow> p = a \<and> a \<noteq> 0 \<and> obj_list m (next_obj m a) os"

fun pool_seg :: "memory \<Rightarrow> u32 \<Rightarrow> pool list \<Rightarrow> u32 \<Rightarrow> bool" where
  "pool_seg m p [] q \<longleftrightarrow> p = q"
| "pool_seg m p ((a, n, os) # ps) q \<longleftrightarrow> p = a \<and> a \<noteq> 0 \<and> pool_size m a = n
     \<and> obj_list m (obj_head m a) os \<and> pool_seg m (next_pool m a) ps q"

fun slb_seg :: "memory \<Rightarrow> u32 \<Rightarrow> cache list \<Rightarrow> u32 \<Rightarrow> bool" where
  "slb_seg m p [] q \<longleftrightarrow> p = q"
| "slb_seg m p ((c, al, sz, ps) # cs) q \<longleftrightarrow> p = c \<and> c \<noteq> 0 \<and> obj_align m c = al \<and> obj_size m c = sz
     \<and> pool_seg m (pool_head m c) ps 0 \<and> slb_seg m (next_slb m c) cs q"

text \<open>The blocks the structures take.\<close>

definition obj_chunks :: "u32 \<Rightarrow> u32 list \<Rightarrow> area list" where
  "obj_chunks sz os = map (\<lambda>a. (a, sz)) os"

fun pool_chunks :: "u32 \<Rightarrow> pool list \<Rightarrow> area list" where
  "pool_chunks sz [] = []"
| "pool_chunks sz ((a, n, os) # ps) = (a, 16) # obj_chunks sz os @ pool_chunks sz ps"

fun chunks :: "cache list \<Rightarrow> area list" where
  "chunks [] = []"
| "chunks ((c, al, sz, ps) # cs) = (c, 16) # pool_chunks sz ps @ chunks cs"

definition aligned :: "u32 \<Rightarrow> u32 \<Rightarrow> bool" where
  "aligned al a \<longleftrightarrow> al = 0 \<or> a AND (al - 1) = 0"

definition in_pool :: "u32 \<Rightarrow> u32 \<Rightarrow> u32 \<Rightarrow> bool" where
  "in_pool a n p \<longleftrightarrow> a \<le> p \<and> p < a + n"

definition cache_ok :: "cache \<Rightarrow> bool" where
  "cache_ok = (\<lambda>(c, al, sz, ps). al \<noteq> 0 \<and> 4 \<le> unat sz
     \<and> (\<forall>(a, n, os) \<in> set ps. list_all (\<lambda>b. aligned al b \<and> in_pool a n b) os))"

text \<open>The pool a block of size \<open>sz\<close> and alignment \<open>al\<close> goes back to, if there is one: the first
  that contains it in the first cache of that size and alignment. And the caches after that.\<close>

fun pool_of :: "u32 \<Rightarrow> pool list \<Rightarrow> u32 option" where
  "pool_of p [] = None"
| "pool_of p ((a, n, os) # ps) = (if in_pool a n p then Some a else pool_of p ps)"

fun block_pool :: "u32 \<Rightarrow> u32 \<Rightarrow> u32 \<Rightarrow> cache list \<Rightarrow> u32 option" where
  "block_pool p sz al [] = None"
| "block_pool p sz al ((c, al', sz', ps) # cs) =
     (if al' = al \<and> sz' = sz then pool_of p ps else block_pool p sz al cs)"

fun pool_back :: "u32 \<Rightarrow> pool list \<Rightarrow> pool list" where
  "pool_back p [] = []"
| "pool_back p ((a, n, os) # ps) = (if in_pool a n p then (a, n, p # os) # ps else (a, n, os) # pool_back p ps)"

fun block_back :: "u32 \<Rightarrow> u32 \<Rightarrow> u32 \<Rightarrow> cache list \<Rightarrow> cache list" where
  "block_back p sz al [] = []"
| "block_back p sz al ((c, al', sz', ps) # cs) =
     (if al' = al \<and> sz' = sz then (c, al', sz', pool_back p ps) # cs else (c, al', sz', ps) # block_back p sz al cs)"

definition arena :: "u32 set" where
  "arena = {x. 2147483648 \<le> unat x \<and> unat x < 2684354560}"

definition slb_inv :: "'a slb_state_scheme \<Rightarrow> area list \<Rightarrow> cache list \<Rightarrow> bool" where
  "slb_inv s xs cs \<longleftrightarrow> pages_inv s xs \<and> slb_seg (mem s) (slb_head s) cs 0
     \<and> blocks_disj (chunks cs) \<and> foot (chunks cs) \<inter> foot xs = {}
     \<and> foot xs \<union> foot (chunks cs) \<subseteq> arena \<and> list_all cache_ok cs
     \<and> (\<exists>c ps. (c, 4, 16, ps) \<in> set cs)"

section \<open>Splitting and framing\<close>

lemma blocks_disj_append [simp]:
  "blocks_disj (xs @ ys) \<longleftrightarrow> blocks_disj xs \<and> blocks_disj ys \<and> foot xs \<inter> foot ys = {}"
  by (induction xs rule: blocks_disj.induct) auto

lemma obj_chunks_simps [simp]:
  "obj_chunks sz [] = []" "obj_chunks sz (a # os) = (a, sz) # obj_chunks sz os"
  "obj_chunks sz (os @ os') = obj_chunks sz os @ obj_chunks sz os'"
  by (simp_all add: obj_chunks_def)

lemma pool_chunks_append [simp]: "pool_chunks sz (ps @ ps') = pool_chunks sz ps @ pool_chunks sz ps'"
  by (induction sz ps rule: pool_chunks.induct) auto

lemma chunks_append [simp]: "chunks (cs @ cs') = chunks cs @ chunks cs'"
  by (induction cs rule: chunks.induct) auto

lemma pool_seg_append [simp]:
  "pool_seg m p (ps @ ps') q \<longleftrightarrow> (\<exists>r. pool_seg m p ps r \<and> pool_seg m r ps' q)"
  by (induction m p ps q rule: pool_seg.induct) auto

lemma slb_seg_append [simp]:
  "slb_seg m p (cs @ cs') q \<longleftrightarrow> (\<exists>r. slb_seg m p cs r \<and> slb_seg m r cs' q)"
  by (induction m p cs q rule: slb_seg.induct) auto

lemma field_same:
  assumes "same_outside A m m'" and "span a n \<inter> A = {}"
  shows "unat i + 4 \<le> n \<Longrightarrow> ld32 m' (a + i) = ld32 m (a + i)"
    and "4 \<le> n \<Longrightarrow> ld32 m' a = ld32 m a"
  using assms span_offset_subset [of i 4 n a] span_mono [of 4 n a]
  by (auto intro!: ld32_same_outside)

lemma obj_list_frame:
  assumes "same_outside A m m'" and "A \<inter> foot (obj_chunks sz os) = {}" and "4 \<le> unat sz"
  shows "obj_list m' p os \<longleftrightarrow> obj_list m p os"
  using assms(2)
proof (induction os arbitrary: p)
  case (Cons a os)
  have "next_obj m' a = next_obj m a"
    unfolding next_obj_def using Cons.prems assms(3)
    by (intro field_same(2) [OF assms(1), of a "unat sz"]) auto
  then show ?case using Cons by auto
qed simp

lemma pool_fields_same:
  assumes "same_outside A m m'" and "A \<inter> span a 16 = {}"
  shows "pool_size m' a = pool_size m a" "obj_head m' a = obj_head m a"
    "next_pool m' a = next_pool m a" "cnt_inuse m' a = cnt_inuse m a"
    "obj_align m' a = obj_align m a" "obj_size m' a = obj_size m a"
    "pool_head m' a = pool_head m a" "next_slb m' a = next_slb m a"
  using field_same [OF assms(1), of a 16] assms(2)
  by (auto simp: pool_size_def obj_head_def next_pool_def cnt_inuse_def obj_align_def obj_size_def
      pool_head_def next_slb_def Int_commute)

lemma pool_seg_frame:
  assumes "same_outside A m m'" and "A \<inter> foot (pool_chunks sz ps) = {}" and "4 \<le> unat sz"
  shows "pool_seg m' p ps q \<longleftrightarrow> pool_seg m p ps q"
  using assms(2)
proof (induction ps arbitrary: p)
  case (Cons ans ps)
  obtain a n os where ans: "ans = (a, n, os)" using prod_cases3 by blast
  have "A \<inter> span a 16 = {}" "A \<inter> foot (obj_chunks sz os) = {}" "A \<inter> foot (pool_chunks sz ps) = {}"
    using Cons.prems by (auto simp: ans)
  then show ?case
    using pool_fields_same [OF assms(1)] obj_list_frame [OF assms(1) _ assms(3)] Cons.IH
    by (simp add: ans)
qed simp

lemma slb_seg_frame:
  assumes "same_outside A m m'" and "A \<inter> foot (chunks cs) = {}" and "list_all cache_ok cs"
  shows "slb_seg m' p cs q \<longleftrightarrow> slb_seg m p cs q"
  using assms(2,3)
proof (induction cs arbitrary: p)
  case (Cons c0 cs)
  obtain c al sz ps where c0: "c0 = (c, al, sz, ps)" using prod_cases4 by blast
  have "A \<inter> span c 16 = {}" "A \<inter> foot (pool_chunks sz ps) = {}" "A \<inter> foot (chunks cs) = {}" "4 \<le> unat sz"
    using Cons.prems by (auto simp: c0 cache_ok_def)
  then show ?case
    using pool_fields_same [OF assms(1)] pool_seg_frame [OF assms(1)] Cons
    by (simp add: c0)
qed simp

text \<open>The searches find what they look for.\<close>

lemma slb_find_seg:
  assumes "slb_seg m p cs 0"
  shows "(\<exists>cs1 c ps cs2. cs = cs1 @ (c, al, sz, ps) # cs2 \<and> (\<forall>c ps. (c, al, sz, ps) \<notin> set cs1)
        \<and> slb_find m sz al p = Some c)
    \<or> ((\<forall>c ps. (c, al, sz, ps) \<notin> set cs) \<and> slb_find m sz al p = Some 0)"
  using assms
proof (induction cs arbitrary: p)
  case Nil
  then show ?case by (subst slb_find.simps) simp
next
  case (Cons c0 cs)
  obtain c al' sz' ps where c0: "c0 = (c, al', sz', ps)" using prod_cases4 by blast
  have p: "p = c" "c \<noteq> 0" "obj_align m c = al'" "obj_size m c = sz'" "slb_seg m (next_slb m c) cs 0"
    using Cons.prems by (auto simp: c0)
  show ?case
  proof (cases "al' = al \<and> sz' = sz")
    case True
    then have "slb_find m sz al p = Some c" using p by (subst slb_find.simps) simp
    then show ?thesis using True by (intro disjI1 exI [of _ "[]"]) (auto simp: c0)
  next
    case False
    then have step: "slb_find m sz al p = slb_find m sz al (next_slb m c)"
      using p by (subst slb_find.simps) auto
    from Cons.IH [OF p(5)] show ?thesis
    proof (elim disjE exE conjE)
      fix cs1 d qs cs2 assume "cs = cs1 @ (d, al, sz, qs) # cs2" "\<forall>c ps. (c, al, sz, ps) \<notin> set cs1"
        and "slb_find m sz al (next_slb m c) = Some d"
      then show ?thesis using step False by (intro disjI1 exI [of _ "c0 # cs1"]) (auto simp: c0)
    next
      assume "\<forall>c ps. (c, al, sz, ps) \<notin> set cs" "slb_find m sz al (next_slb m c) = Some 0"
      then show ?thesis using step False by (auto simp: c0)
    qed
  qed
qed

lemma pool_find_free_seg:
  assumes "pool_seg m p ps 0"
  shows "(\<exists>ps1 a n b os ps2. ps = ps1 @ (a, n, b # os) # ps2 \<and> pool_find_free m p = Some a)
    \<or> pool_find_free m p = Some 0"
  using assms
proof (induction ps arbitrary: p)
  case Nil
  then show ?case by (subst pool_find_free.simps) simp
next
  case (Cons a0 ps)
  obtain a n os where a0: "a0 = (a, n, os)" using prod_cases3 by blast
  have p: "p = a" "a \<noteq> 0" "obj_list m (obj_head m a) os" "pool_seg m (next_pool m a) ps 0"
    using Cons.prems by (auto simp: a0)
  show ?case
  proof (cases os)
    case (Cons b os')
    then have "pool_find_free m p = Some a" using p by (subst pool_find_free.simps) simp
    then show ?thesis using Cons by (intro disjI1 exI [of _ "[]"]) (auto simp: a0)
  next
    case Nil
    then have step: "pool_find_free m p = pool_find_free m (next_pool m a)"
      using p by (subst pool_find_free.simps) simp
    from Cons.IH [OF p(4)] show ?thesis
    proof (elim disjE exE conjE)
      fix ps1 a' n' b os' ps2 assume "ps = ps1 @ (a', n', b # os') # ps2"
        and "pool_find_free m (next_pool m a) = Some a'"
      then show ?thesis using step by (intro disjI1 exI [of _ "a0 # ps1"]) auto
    next
      assume "pool_find_free m (next_pool m a) = Some 0"
      then show ?thesis using step by simp
    qed
  qed
qed

lemma pool_find_seg:
  assumes "pool_seg m p ps 0"
  shows "(\<exists>ps1 a n os ps2. ps = ps1 @ (a, n, os) # ps2 \<and> pool_find m x p = Some a \<and> in_pool a n x
        \<and> pool_of x ps = Some a \<and> pool_back x ps = ps1 @ (a, n, x # os) # ps2)
    \<or> pool_find m x p = Some 0 \<and> pool_of x ps = None"
  using assms
proof (induction ps arbitrary: p)
  case Nil
  then show ?case by (subst pool_find.simps) simp
next
  case (Cons a0 ps)
  obtain a n os where a0: "a0 = (a, n, os)" using prod_cases3 by blast
  have p: "p = a" "a \<noteq> 0" "pool_size m a = n" "pool_seg m (next_pool m a) ps 0"
    using Cons.prems by (auto simp: a0)
  show ?case
  proof (cases "in_pool a n x")
    case True
    then have "pool_find m x p = Some a" using p by (subst pool_find.simps) (simp add: in_pool_def)
    then show ?thesis using True by (intro disjI1 exI [of _ "[]"]) (auto simp: a0)
  next
    case False
    then have step: "pool_find m x p = pool_find m x (next_pool m a)"
      using p by (subst pool_find.simps) (auto simp: in_pool_def)
    from Cons.IH [OF p(4)] show ?thesis
    proof (elim disjE exE conjE)
      fix ps1 a' n' os' ps2 assume "ps = ps1 @ (a', n', os') # ps2" "in_pool a' n' x" "pool_of x ps = Some a'"
        "pool_back x ps = ps1 @ (a', n', x # os') # ps2" "pool_find m x (next_pool m a) = Some a'"
      then show ?thesis using step False by (intro disjI1 exI [of _ "a0 # ps1"]) (auto simp: a0)
    next
      assume "pool_find m x (next_pool m a) = Some 0" "pool_of x ps = None"
      then show ?thesis using step False by (simp add: a0)
    qed
  qed
qed

lemma block_pool_skip:
  assumes "\<forall>c ps. (c, al, sz, ps) \<notin> set cs1"
  shows "block_pool p sz al (cs1 @ cs) = block_pool p sz al cs \<and> block_back p sz al (cs1 @ cs) = cs1 @ block_back p sz al cs"
  using assms
proof (induction cs1)
  case (Cons x cs1)
  obtain c al' sz' ps where x: "x = (c, al', sz', ps)" using prod_cases4 by blast
  have "\<not> (al' = al \<and> sz' = sz)" "\<forall>c ps. (c, al, sz, ps) \<notin> set cs1" using Cons.prems by (auto simp: x)
  then show ?case using Cons.IH by (auto simp: x)
qed simp

lemma block_pool_first:
  assumes "\<forall>c ps. (c, al, sz, ps) \<notin> set cs1"
  shows "block_pool p sz al (cs1 @ (c, al, sz, ps) # cs2) = pool_of p ps"
    and "block_back p sz al (cs1 @ (c, al, sz, ps) # cs2) = cs1 @ (c, al, sz, pool_back p ps) # cs2"
  by (simp_all add: block_pool_skip [OF assms])

lemma block_pool_none: "\<forall>c ps. (c, al, sz, ps) \<notin> set cs \<Longrightarrow> block_pool p sz al cs = None \<and> block_back p sz al cs = cs"
  using block_pool_skip [of al sz cs p "[]"] by simp

lemma pool_of_in: "(a, n, os) \<in> set ps \<Longrightarrow> in_pool a n p \<Longrightarrow> pool_of p ps \<noteq> None"
  by (induction p ps rule: pool_of.induct) auto

lemma pool_back_none: "pool_of p ps = None \<Longrightarrow> pool_back p ps = ps"
  by (induction p ps rule: pool_of.induct) (auto split: if_splits)

section \<open>Changing one pool\<close>

text \<open>
  A change inside one pool's blocks, that leaves its size and link alone, replaces its list
  of free objects.
\<close>

lemma pool_change:
  assumes "pool_seg m p (ps1 @ (a, n, os) # ps2) 0" and "same_outside A m m'" and "4 \<le> unat sz"
    and "A \<inter> foot (pool_chunks sz (ps1 @ ps2)) = {}"
    and "pool_size m' a = pool_size m a" and "next_pool m' a = next_pool m a"
    and "obj_list m' (obj_head m' a) os'"
  shows "pool_seg m' p (ps1 @ (a, n, os') # ps2) 0"
proof -
  have "A \<inter> foot (pool_chunks sz ps1) = {}" "A \<inter> foot (pool_chunks sz ps2) = {}"
    using assms(4) by auto
  then have "pool_seg m' p ps1 a" "pool_seg m' (next_pool m a) ps2 0"
    using assms(1) pool_seg_frame [OF assms(2) _ assms(3)] by auto
  then show ?thesis using assms(1,5-7) by auto
qed

lemma cache_change:
  assumes "slb_seg m h (cs1 @ (c, al, sz, ps) # cs2) 0" and "same_outside A m m'"
    and "list_all cache_ok (cs1 @ cs2)" and "A \<inter> foot (chunks (cs1 @ cs2)) = {}"
    and "obj_align m' c = obj_align m c" and "obj_size m' c = obj_size m c"
    and "next_slb m' c = next_slb m c" and "pool_seg m' (pool_head m' c) ps' 0"
  shows "slb_seg m' h (cs1 @ (c, al, sz, ps') # cs2) 0"
proof -
  have "A \<inter> foot (chunks cs1) = {}" "A \<inter> foot (chunks cs2) = {}" "list_all cache_ok cs1" "list_all cache_ok cs2"
    using assms(3,4) by auto
  then have "slb_seg m' h cs1 c" "slb_seg m' (next_slb m c) cs2 0"
    using assms(1) slb_seg_frame [OF assms(2)] by auto
  then show ?thesis using assms(1,5-8) by auto
qed

text \<open>The memory after \<open>pool_pop\<close> and after the push of \<open>slb_free_align\<close>.\<close>

lemma header_sub: "span a 4 \<subseteq> span a 16" "span (a + 4) 4 \<subseteq> span a 16"
  "span (a + 8) 4 \<subseteq> span a 16" "span (a + 12) 4 \<subseteq> span a 16"
  by (auto intro!: span_mono span_offset_subset simp del: span_base)

lemma slb_pop:
  assumes "slb_seg m h (cs1 @ (c, al, sz, ps1 @ (a, n, b # os) # ps2) # cs2) 0"
    and "blocks_disj (chunks (cs1 @ (c, al, sz, ps1 @ (a, n, b # os) # ps2) # cs2))"
    and "list_all cache_ok (cs1 @ (c, al, sz, ps1 @ (a, n, b # os) # ps2) # cs2)"
    and "m' = st32 (st32 m (a + 8) (next_obj m b)) a v"
  shows "slb_seg m' h (cs1 @ (c, al, sz, ps1 @ (a, n, os) # ps2) # cs2) 0"
    and "same_outside (span a 16) m m'" and "obj_head m a = b"
proof -
  let ?A = "span a 16"
  show same: "same_outside ?A m m'"
    unfolding assms(4) using header_sub by (intro same_outside_st32_trans same_outside_refl)
  have sz: "4 \<le> unat sz" "list_all cache_ok (cs1 @ cs2)" using assms(3) by (auto simp: cache_ok_def)
  have disj: "?A \<inter> foot (chunks (cs1 @ cs2)) = {}" "?A \<inter> span c 16 = {}"
    "?A \<inter> foot (pool_chunks sz (ps1 @ ps2)) = {}" "?A \<inter> foot (obj_chunks sz os) = {}"
    using assms(2) by auto
  note c = pool_fields_same [OF same disj(2)]
  have pool: "pool_seg m (pool_head m c) (ps1 @ (a, n, b # os) # ps2) 0" using assms(1) by auto
  then have b: "obj_head m a = b" "obj_list m (next_obj m b) os" by auto
  then show "obj_head m a = b" by simp
  have "pool_seg m' (pool_head m c) (ps1 @ (a, n, os) # ps2) 0"
  proof (rule pool_change [OF pool same sz(1) disj(3)])
    show "pool_size m' a = pool_size m a" "next_pool m' a = next_pool m a"
      by (simp_all add: assms(4) pool_size_def next_pool_def)
    have "obj_head m' a = next_obj m b" by (simp add: assms(4) obj_head_def)
    then show "obj_list m' (obj_head m' a) os"
      using b(2) obj_list_frame [OF same disj(4) sz(1)] by simp
  qed
  then show "slb_seg m' h (cs1 @ (c, al, sz, ps1 @ (a, n, os) # ps2) # cs2) 0"
    using c by (intro cache_change [OF assms(1) same sz(2) disj(1)]) simp_all
qed

lemma slb_push:
  assumes "slb_seg m h (cs1 @ (c, al, sz, ps1 @ (a, n, os) # ps2) # cs2) 0"
    and "blocks_disj (chunks (cs1 @ (c, al, sz, ps1 @ (a, n, os) # ps2) # cs2))"
    and "list_all cache_ok (cs1 @ (c, al, sz, ps1 @ (a, n, os) # ps2) # cs2)"
    and "span b (unat sz) \<inter> foot (chunks (cs1 @ (c, al, sz, ps1 @ (a, n, os) # ps2) # cs2)) = {}"
    and "b \<noteq> 0" and "m' = st32 (st32 (st32 m b (obj_head m a)) (a + 8) b) a v"
  shows "slb_seg m' h (cs1 @ (c, al, sz, ps1 @ (a, n, b # os) # ps2) # cs2) 0"
    and "same_outside (span a 16 \<union> span b (unat sz)) m m'"
proof -
  let ?A = "span a 16 \<union> span b (unat sz)"
  have sz: "4 \<le> unat sz" "list_all cache_ok (cs1 @ cs2)" using assms(3) by (auto simp: cache_ok_def)
  have b4: "span b 4 \<subseteq> span b (unat sz)" using sz(1) by (rule span_mono)
  show same: "same_outside ?A m m'"
    unfolding assms(6) using header_sub [of a] b4 by (intro same_outside_st32_trans same_outside_refl) auto
  have disj: "?A \<inter> foot (chunks (cs1 @ cs2)) = {}" "?A \<inter> span c 16 = {}"
    "?A \<inter> foot (pool_chunks sz (ps1 @ ps2)) = {}" "?A \<inter> foot (obj_chunks sz os) = {}"
    "span b (unat sz) \<inter> span a 16 = {}"
    using assms(2,4) by auto
  note c = pool_fields_same [OF same disj(2)]
  have pool: "pool_seg m (pool_head m c) (ps1 @ (a, n, os) # ps2) 0" using assms(1) by auto
  have far: "ld32 (st32 M b w) (a + i) = ld32 M (a + i)" if "unat i + 4 \<le> 16" for M w i
    using ld32_st32_structs(3) [OF disj(5), of i M w] sz(1) that by simp
  have "pool_seg m' (pool_head m c) (ps1 @ (a, n, b # os) # ps2) 0"
  proof (rule pool_change [OF pool same sz(1) disj(3)])
    show "pool_size m' a = pool_size m a" "next_pool m' a = next_pool m a"
      by (simp_all add: assms(6) pool_size_def next_pool_def far)
    have head: "obj_head m' a = b" by (simp add: assms(6) obj_head_def)
    have "next_obj m' b = obj_head m a"
    proof -
      have "span a 16 \<inter> span b (unat sz) = {}" using disj(5) by blast
      from ld32_st32_structs(2,4) [OF this] show ?thesis
        using sz(1) by (simp add: assms(6) next_obj_def)
    qed
    moreover have "obj_list m (obj_head m a) os" using pool by auto
    ultimately show "obj_list m' (obj_head m' a) (b # os)"
      using obj_list_frame [OF same disj(4) sz(1)] assms(5) by (simp add: head)
  qed
  then show "slb_seg m' h (cs1 @ (c, al, sz, ps1 @ (a, n, b # os) # ps2) # cs2) 0"
    using c by (intro cache_change [OF assms(1) same sz(2) disj(1)]) simp_all
qed

text \<open>A new pool at the head of a cache's list.\<close>

lemma slb_add_pool:
  assumes "slb_seg m h (cs1 @ (c, al, sz, ps) # cs2) 0"
    and "blocks_disj (chunks (cs1 @ (c, al, sz, ps) # cs2))"
    and "list_all cache_ok (cs1 @ (c, al, sz, ps) # cs2)"
    and "foot ((a, 16) # obj_chunks sz os) \<inter> foot (chunks (cs1 @ (c, al, sz, ps) # cs2)) = {}"
    and "span a 16 \<inter> foot (obj_chunks sz os) = {}"
    and "a \<noteq> 0" and "pool_size m a = n" and "obj_list m (obj_head m a) os"
    and "m' = st32 (st32 m (a + 12) (pool_head m c)) (c + 8) a"
  shows "slb_seg m' h (cs1 @ (c, al, sz, (a, n, os) # ps) # cs2) 0"
    and "same_outside (span a 16 \<union> span c 16) m m'"
proof -
  let ?A = "span (a + 12) 4 \<union> span (c + 8) 4"
  have same: "same_outside ?A m m'"
    unfolding assms(9) by (intro same_outside_st32_trans same_outside_refl) auto
  then show "same_outside (span a 16 \<union> span c 16) m m'"
    using header_sub by (blast intro: same_outside_mono)
  have sz: "4 \<le> unat sz" "list_all cache_ok (cs1 @ cs2)" using assms(3) by (auto simp: cache_ok_def)
  have sub: "?A \<subseteq> span a 16 \<union> span c 16" using header_sub by blast
  have big: "(span a 16 \<union> span c 16) \<inter> foot (chunks (cs1 @ cs2)) = {}" "span a 16 \<inter> span c 16 = {}"
    "(span a 16 \<union> span c 16) \<inter> foot (pool_chunks sz ps) = {}"
    "(span a 16 \<union> span c 16) \<inter> foot (obj_chunks sz os) = {}"
    using assms(2,4,5) by auto
  then have disj: "?A \<inter> foot (chunks (cs1 @ cs2)) = {}" "?A \<inter> foot (pool_chunks sz ps) = {}"
    "?A \<inter> foot (obj_chunks sz os) = {}"
    using sub by blast+
  have "span c 16 \<inter> span a 16 = {}" using big(2) by blast
  note far = ld32_st32_structs [OF this] ld32_st32_structs [OF big(2)]
  have pool: "pool_seg m (pool_head m c) ps 0" using assms(1) by auto
  have a: "pool_size m' a = n" "obj_head m' a = obj_head m a" "next_pool m' a = pool_head m c"
    using assms(7) by (simp_all add: assms(9) pool_size_def obj_head_def next_pool_def far)
  have "pool_seg m' a ((a, n, os) # ps) 0"
    using a assms(6,8) pool pool_seg_frame [OF same disj(2) sz(1)] obj_list_frame [OF same disj(3) sz(1)]
    by simp
  moreover have "obj_align m' c = obj_align m c" "obj_size m' c = obj_size m c"
    "next_slb m' c = next_slb m c" "pool_head m' c = a"
    by (simp_all add: assms(9) obj_align_def obj_size_def next_slb_def pool_head_def far)
  ultimately show "slb_seg m' h (cs1 @ (c, al, sz, (a, n, os) # ps) # cs2) 0"
    by (intro cache_change [OF assms(1) same sz(2) disj(1)]) simp_all
qed

section \<open>Cutting a pool into objects\<close>

lemma foot_obj_chunks:
  assumes "x \<in> foot (obj_chunks sz os)" and "\<forall>b \<in> set os. lo \<le> unat b \<and> unat b + unat sz \<le> hi"
    and "hi < 2 ^ 32"
  shows "lo \<le> unat x \<and> unat x < hi"
proof -
  obtain b where b: "b \<in> set os" "x \<in> span b (unat sz)"
    using assms(1) by (auto simp: foot_def obj_chunks_def)
  then have "lo \<le> unat b" "unat b + unat sz \<le> hi" using assms(2) by auto
  then show ?thesis using b(2) assms(3) by (auto simp: span_nowrap)
qed

text \<open>What the objects of a pool satisfy, up to the position \<open>hi\<close>.\<close>

definition objs_ok :: "u32 \<Rightarrow> u32 \<Rightarrow> nat \<Rightarrow> nat \<Rightarrow> u32 list \<Rightarrow> bool" where
  "objs_ok osize align lo hi os \<longleftrightarrow> (\<forall>b \<in> set os. lo \<le> unat b \<and> unat b + unat osize \<le> hi)
     \<and> blocks_disj (obj_chunks osize os) \<and> list_all (aligned align) os"

lemma objs_ok_Cons:
  assumes "objs_ok osize align lo (unat i) os" and "lo \<le> unat i" and "unat i + unat osize < 2 ^ 32"
    and "aligned align i"
  shows "objs_ok osize align lo (unat i + unat osize) (i # os)"
proof -
  have "x \<notin> foot (obj_chunks osize os)" if "x \<in> span i (unat osize)" for x
  proof
    assume "x \<in> foot (obj_chunks osize os)"
    then have "unat x < unat i"
      using assms(1) foot_obj_chunks [of x osize os lo "unat i"] u32_bound [of i] by (auto simp: objs_ok_def)
    then show False using that assms(3) by (auto simp: span_nowrap)
  qed
  then show ?thesis using assms by (auto simp: objs_ok_def)
qed

lemma objs_ok_mono: "objs_ok osize align lo hi os \<Longrightarrow> hi \<le> hi' \<Longrightarrow> objs_ok osize align lo hi' os"
  by (fastforce simp: objs_ok_def)

lemma objs_ok_in_pool:
  assumes "objs_ok sz al (unat a + 16) (unat a + unat n) os" and "unat a + unat n < 2 ^ 32" and "4 \<le> unat sz"
  shows "list_all (\<lambda>b. aligned al b \<and> in_pool a n b) os"
proof -
  have "unat (a + n) = unat a + unat n" using assms(2) by (simp add: unat_word_ariths)
  then have "in_pool a n b" if "b \<in> set os" for b
    using assms(1,3) that by (force simp: objs_ok_def in_pool_def word_le_nat_alt word_less_nat_alt)
  then show ?thesis using assms(1) by (simp add: objs_ok_def list_all_iff)
qed

lemma unat_MAX: "unat (MAX_u32 a b) = max (unat a) (unat b)"
  by (auto simp: MAX_u32_def word_less_nat_alt)

text \<open>One object: linked into the list of the pool.\<close>

lemma pool_segm_push:
  assumes "obj_list m (obj_head m pool) os" and "objs_ok osize align (unat pool + 16) (unat i) os"
    and "unat pool + 16 \<le> unat i" and "unat i + unat osize < 2 ^ 32" and "4 \<le> unat osize"
    and "m' = st32 (st32 m i (obj_head m pool)) (pool + 8) i"
  shows "obj_list m' (obj_head m' pool) (i # os)"
    and "cnt_inuse m' pool = cnt_inuse m pool \<and> pool_size m' pool = pool_size m pool
      \<and> next_pool m' pool = next_pool m pool"
    and "same_outside (span (pool + 8) 4 \<union> span i 4) m m'"
proof -
  let ?A = "span (pool + 8) 4 \<union> span i 4"
  show same: "same_outside ?A m m'"
    unfolding assms(6) by (intro same_outside_st32_trans same_outside_refl) auto
  have nw: "unat pool + 16 < 2 ^ 32" using assms(3) u32_bound [of i] by simp
  have disj: "span pool 16 \<inter> span i 4 = {}"
    using assms(3-5) nw by (intro span_disj_nowrap) auto
  have p8: "x \<in> span (pool + 8) 4 \<Longrightarrow> unat x < unat pool + 16" for x
    using header_sub(3) [of pool] nw by (auto simp: span_nowrap dest!: subsetD)
  have "?A \<inter> foot (obj_chunks osize os) = {}"
  proof -
    have "unat pool + 16 \<le> unat x \<and> unat x < unat i" if "x \<in> foot (obj_chunks osize os)" for x
      using that foot_obj_chunks [of x osize os "unat pool + 16" "unat i"] assms(2) u32_bound [of i]
      by (auto simp: objs_ok_def)
    moreover have "unat i \<le> unat x" if "x \<in> span i 4" for x
      using that assms(4,5) by (auto simp: span_nowrap)
    ultimately show ?thesis using p8 by fastforce
  qed
  note list = obj_list_frame [OF same this assms(5)]
  have "span i 4 \<inter> span pool 16 = {}" using disj by blast
  note far = ld32_st32_structs [OF this] ld32_st32_structs [OF disj]
  have "obj_head m' pool = i" "next_obj m' i = obj_head m pool"
    by (simp_all add: assms(6) obj_head_def next_obj_def far)
  moreover have "i \<noteq> 0" using assms(3) by auto
  ultimately show "obj_list m' (obj_head m' pool) (i # os)" using list assms(1) by simp
  show "cnt_inuse m' pool = cnt_inuse m pool \<and> pool_size m' pool = pool_size m pool
      \<and> next_pool m' pool = next_pool m pool"
    by (simp add: assms(6) cnt_inuse_def pool_size_def next_pool_def far)
qed

lemma pool_segm_loop_ok:
  assumes "4 \<le> unat osize" and "unat pool + unat psize + unat osize + unat align < 2 ^ 32"
    and "obj_list (mem s) (obj_head (mem s) pool) os"
    and "objs_ok osize align (unat pool + 16) (unat i) os"
    and "objs_ok osize align (unat pool + 16) (unat pool + unat psize) os"
    and "unat pool + 16 \<le> unat i" and "unat i + unat osize < 2 ^ 32" and "16 \<le> unat psize"
  shows "\<exists>m' os'. pool_segm_loop pool psize osize align i s = Some (s\<lparr>mem := m'\<rparr>)
    \<and> obj_list m' (obj_head m' pool) os' \<and> objs_ok osize align (unat pool + 16) (unat pool + unat psize) os'
    \<and> cnt_inuse m' pool = cnt_inuse (mem s) pool \<and> pool_size m' pool = pool_size (mem s) pool
    \<and> next_pool m' pool = next_pool (mem s) pool \<and> same_outside (span pool (unat psize)) (mem s) m'
    \<and> (os \<noteq> [] \<or> aligned align i \<and> unat i + unat osize \<le> unat pool + unat psize \<longrightarrow> os' \<noteq> [])"
  using assms(3-7)
proof (induction "unat pool + unat psize - unat i" arbitrary: i s os rule: less_induct)
  case less
  let ?L = "unat pool + unat psize"
  have ul: "unat (pool + psize) = ?L" using assms(2) by (intro unat_area_end) simp
  have ui: "unat (i + osize) = unat i + unat osize" using less.prems(5) by (intro unat_area_end) simp
  show ?case
  proof (cases "i + osize \<le> pool + psize")
    case False
    then have "\<not> unat i + unat osize \<le> ?L" using ul ui by (simp add: word_le_nat_alt)
    then show ?thesis using False less.prems
      by (subst pool_segm_loop.simps) (auto intro!: exI [of _ "mem s"] exI [of _ os])
  next
    case True
    then have le: "unat i + unat osize \<le> ?L" using ul ui by (simp add: word_le_nat_alt)
    let ?i' = "i + MAX_u32 osize align"
    have step: "unat ?i' = unat i + max (unat osize) (unat align)"
      using le assms(2) by (subst unat_area_end) (auto simp: unat_MAX)
    then have i': "unat i + unat osize \<le> unat ?i'" "unat pool + 16 \<le> unat ?i'" "unat ?i' + unat osize < 2 ^ 32"
      "?L - unat ?i' < ?L - unat i"
      using less.prems(4) le assms(1,2) by auto
    define m1 where "m1 = (if aligned align i
      then st32 (st32 (mem s) i (obj_head (mem s) pool)) (pool + 8) i else mem s)"
    define os1 where "os1 = (if aligned align i then i # os else os)"
    have step_eq: "pool_segm_loop pool psize osize align i s
        = pool_segm_loop pool psize osize align ?i' (s\<lparr>mem := m1\<rparr>)"
      using True by (subst pool_segm_loop.simps) (auto simp: m1_def aligned_def wr_def)
    note push = pool_segm_push [OF less.prems(1,2,4,5) assms(1), of "st32 (st32 (mem s) i (obj_head (mem s) pool)) (pool + 8) i"]
    have ok_i: "objs_ok osize align (unat pool + 16) (unat i + unat osize) os1"
      using objs_ok_Cons [OF less.prems(2,4,5)] objs_ok_mono [OF less.prems(2)] by (auto simp: os1_def)
    have "same_outside (span pool (unat psize)) (mem s) m1"
    proof -
      have "span (pool + 8) 4 \<subseteq> span pool (unat psize)"
        using assms(8) by (intro span_offset_subset) simp
      moreover have "span i 4 \<subseteq> span pool (unat psize)"
        using le less.prems(4) assms(1,2) by (intro span_subset_nowrap) auto
      ultimately show ?thesis
        using push(3) by (auto simp: m1_def intro: same_outside_mono)
    qed
    moreover have "\<exists>m' os'. pool_segm_loop pool psize osize align ?i' (s\<lparr>mem := m1\<rparr>) = Some (s\<lparr>mem := m1\<rparr>\<lparr>mem := m'\<rparr>)
      \<and> obj_list m' (obj_head m' pool) os' \<and> objs_ok osize align (unat pool + 16) ?L os'
      \<and> cnt_inuse m' pool = cnt_inuse m1 pool \<and> pool_size m' pool = pool_size m1 pool
      \<and> next_pool m' pool = next_pool m1 pool \<and> same_outside (span pool (unat psize)) m1 m'
      \<and> (os1 \<noteq> [] \<or> aligned align ?i' \<and> unat ?i' + unat osize \<le> ?L \<longrightarrow> os' \<noteq> [])"
      using less.hyps [OF i'(4), of "s\<lparr>mem := m1\<rparr>" os1] i'(2,3) push(1) less.prems(1)
        objs_ok_mono [OF ok_i i'(1)] objs_ok_mono [OF ok_i le]
      by (auto simp: m1_def os1_def)
    moreover have "cnt_inuse m1 pool = cnt_inuse (mem s) pool \<and> pool_size m1 pool = pool_size (mem s) pool
      \<and> next_pool m1 pool = next_pool (mem s) pool"
      using push(2) by (simp add: m1_def)
    ultimately obtain m' os' where "pool_segm_loop pool psize osize align i s = Some (s\<lparr>mem := m'\<rparr>)"
      "obj_list m' (obj_head m' pool) os'" "objs_ok osize align (unat pool + 16) ?L os'"
      "cnt_inuse m' pool = cnt_inuse (mem s) pool" "pool_size m' pool = pool_size (mem s) pool"
      "next_pool m' pool = next_pool (mem s) pool" "same_outside (span pool (unat psize)) (mem s) m'"
      "os1 \<noteq> [] \<longrightarrow> os' \<noteq> []"
      unfolding step_eq by (auto intro: same_outside_trans)
    then show ?thesis
      by (intro exI [of _ m'] exI [of _ os']) (auto simp: os1_def split: if_splits)
  qed
qed

section \<open>A new pool\<close>

text \<open>Sizes and alignments the caches are used with.\<close>

definition request_ok :: "u32 \<Rightarrow> u32 \<Rightarrow> bool" where
  "request_ok osize align \<longleftrightarrow> 4 \<le> unat osize \<and> unat osize \<le> 16777216
     \<and> unat align \<le> 8 * unat osize \<and> (unat align \<le> 16 \<or> (\<exists>k. align = 2 ^ k))"

lemma pool_bytes_bounds:
  assumes "unat osize \<le> 16777216"
  shows "4096 dvd unat (pool_bytes osize)" and "10 * unat osize + 26 \<le> unat (pool_bytes osize)"
    and "unat (pool_bytes osize) < 10 * unat osize + 26 + 4096"
proof -
  define n where "n = osize * 10 + sizeof_slb_pool_t + 10"
  have n: "unat n = 10 * unat osize + 26"
  proof -
    have "unat (osize * 10) = unat osize * 10" using assms by (simp add: unat_word_ariths)
    moreover from this have "unat (osize * 10 + 26) = unat (osize * 10) + unat (26 :: u32)"
      using assms by (intro unat_area_end) simp
    ultimately show ?thesis by (simp add: n_def sizeof_slb_pool_t_def add.assoc)
  qed
  have up: "unat (push_bit 12 (drop_bit 12 n + 1)) = (unat n div 4096 + 1) * 4096"
  proof -
    have "unat (drop_bit 12 n) = unat n div 2 ^ 12"
      by (simp only: unat_drop_bit_eq) (simp only: drop_bit_eq_div)
    then have d: "unat (drop_bit 12 n) = unat n div 4096" by simp
    define t where "t = drop_bit 12 n + 1"
    have t: "unat t = unat n div 4096 + 1"
      using n assms d by (simp add: t_def) (subst unat_area_end, auto)
    have "unat t * 4096 < 4294967296" using n assms by (simp add: t)
    moreover have "push_bit 12 t = t * 4096" by (simp add: push_bit_eq_mult)
    ultimately have "unat (push_bit 12 t) = unat t * 4096" by (simp add: unat_word_ariths(2))
    then show ?thesis by (simp add: t flip: t_def)
  qed
  have "4096 dvd unat (pool_bytes osize) \<and> unat n \<le> unat (pool_bytes osize)
      \<and> unat (pool_bytes osize) < unat n + 4096"
  proof (cases "n AND 0xFFF = 0")
    case True
    then show ?thesis by (simp add: pool_bytes_def Let_def n_def [symmetric] aligned_iff)
  next
    case False
    then have "pool_bytes osize = push_bit 12 (drop_bit 12 n + 1)"
      by (simp add: pool_bytes_def Let_def n_def [symmetric])
    then have ub: "unat (pool_bytes osize) = unat n div 4096 * 4096 + 4096" by (simp add: up)
    have "unat n div 4096 * 4096 + unat n mod 4096 = unat n" "unat n mod 4096 < 4096" by simp_all
    moreover have "unat n mod 4096 \<noteq> 0" using False by (simp add: aligned_iff dvd_eq_mod_eq_0)
    ultimately have "unat n \<le> unat (pool_bytes osize)" "unat (pool_bytes osize) < unat n + 4096"
      unfolding ub by linarith+
    then show ?thesis by (simp add: ub)
  qed
  then show "4096 dvd unat (pool_bytes osize)" "10 * unat osize + 26 \<le> unat (pool_bytes osize)"
    "unat (pool_bytes osize) < 10 * unat osize + 26 + 4096" by (simp_all add: n)
qed

text \<open>The first position tried is aligned.\<close>

definition first_obj :: "u32 \<Rightarrow> u32 \<Rightarrow> u32" where
  "first_obj pool align = (let i = pool + 16 in
     if align \<noteq> 0 \<and> i AND (align - 1) \<noteq> 0 then i + align - ((align - 1) AND i) else i)"

lemma and_small_16:
  assumes "16 dvd unat (i :: u32)" and "unat w < 16"
  shows "i AND w = 0"
proof -
  have "unat (take_bit 4 w) = unat w mod 2 ^ 4"
    by (simp only: unsigned_take_bit_eq) (simp only: take_bit_eq_mod)
  then have "take_bit 4 w = w" using assms(2) by (intro u32_eqI) simp
  moreover have "unat (take_bit 4 i) = unat i mod 2 ^ 4"
    by (simp only: unsigned_take_bit_eq) (simp only: take_bit_eq_mod)
  then have "take_bit 4 i = 0" using assms(1) by (intro u32_eqI) simp
  ultimately have w: "w AND mask 4 = w" and i: "i AND mask 4 = 0"
    by (simp_all only: take_bit_eq_mask)
  have "i AND w = (i AND mask 4) AND w"
    by (subst (1) w [symmetric]) (simp only: and.commute and.left_commute)
  then show ?thesis by (simp add: i)
qed

lemma pow2_mask_u32: "k < 32 \<Longrightarrow> unat (i AND ((2 :: u32) ^ k - 1)) = unat i mod 2 ^ k"
  using unat_and_mask_u32 [of i k] by (simp add: mask_eq_exp_minus_1)

lemma first_obj_ok:
  assumes "request_ok osize align" and "4096 dvd unat pool" and "unat pool \<le> 2684354560"
  shows "aligned align (first_obj pool align)" and "unat pool + 16 \<le> unat (first_obj pool align)"
    and "unat (first_obj pool align) \<le> unat pool + 16 + unat align"
proof -
  let ?i = "pool + 16"
  have ui: "unat ?i = unat pool + 16" using assms(3) unat_area_end [of pool 16] by simp
  have al: "unat align \<le> 134217728" using assms(1) by (auto simp: request_ok_def)
  have "aligned align (first_obj pool align) \<and> unat pool + 16 \<le> unat (first_obj pool align)
    \<and> unat (first_obj pool align) \<le> unat pool + 16 + unat align"
  proof (cases "align = 0 \<or> ?i AND (align - 1) = 0")
    case True
    then show ?thesis by (auto simp: first_obj_def aligned_def ui)
  next
    case False
    have "\<not> unat align \<le> 16"
    proof
      assume le: "unat align \<le> 16"
      have "16 dvd unat ?i" using assms(2) by (auto simp: ui intro: dvd_add dvd_trans [of 16 4096])
      moreover have "unat (align - 1) < 16" using le False by (simp add: unat_minus_one)
      ultimately show False using and_small_16 False by blast
    qed
    then obtain k where k: "align = 2 ^ k" using assms(1) by (auto simp: request_ok_def)
    have "k < 32"
    proof (rule ccontr)
      assume "\<not> k < 32"
      then have "(2 :: u32) ^ k = 0" by simp
      then show False using False k by simp
    qed
    then have ua: "unat align = 2 ^ k" by (simp add: k unat_pow2_u32)
    have um: "unat (?i AND (align - 1)) = unat ?i mod 2 ^ k" using pow2_mask_u32 [OF \<open>k < 32\<close>] by (simp add: k)
    have f: "first_obj pool align = ?i + align - (?i AND (align - 1))"
      using False by (simp add: first_obj_def Let_def and.commute)
    have uf: "unat (first_obj pool align) = unat ?i + 2 ^ k - unat ?i mod 2 ^ k"
    proof -
      have "unat (?i + align) = unat ?i + 2 ^ k"
        using al assms(3) ui ua by (subst unat_area_end) auto
      moreover have "unat ?i mod 2 ^ k \<le> unat ?i + 2 ^ k" by (simp add: trans_le_add1)
      ultimately show ?thesis by (simp add: f u32_diff um)
    qed
    have eq: "x + 2 ^ k - x mod 2 ^ k = (x div 2 ^ k + 1) * 2 ^ k" for x :: nat
    proof -
      have "x + 2 ^ k - x mod 2 ^ k = x div 2 ^ k * 2 ^ k + 2 ^ k"
        using div_mult_mod_eq [of x "2 ^ k"] by linarith
      then show ?thesis by simp
    qed

    have "unat (first_obj pool align AND (align - 1)) = 0"
      using pow2_mask_u32 [OF \<open>k < 32\<close>, of "first_obj pool align"] uf eq by (simp add: k)
    then have "aligned align (first_obj pool align)" by (simp add: aligned_def unsigned_eq_0_iff)
    moreover have "unat ?i mod 2 ^ k < 2 ^ k" by simp
    ultimately show ?thesis using uf ui ua by linarith
  qed
  then show "aligned align (first_obj pool align)" "unat pool + 16 \<le> unat (first_obj pool align)"
    "unat (first_obj pool align) \<le> unat pool + 16 + unat align" by simp_all
qed

text \<open>A pool in memory with the objects \<open>os\<close>.\<close>

definition pool_at :: "memory \<Rightarrow> u32 \<Rightarrow> u32 \<Rightarrow> u32 list \<Rightarrow> bool" where
  "pool_at m a n os \<longleftrightarrow> pool_size m a = n \<and> next_pool m a = 0 \<and> cnt_inuse m a = 0
     \<and> obj_list m (obj_head m a) os"

lemma pool_segm_ok:
  assumes "request_ok osize align" and "4096 dvd unat pool" and "pool \<noteq> 0"
    and "unat pool + unat psize \<le> 2684354560" and "10 * unat osize + 26 \<le> unat psize"
  shows "\<exists>m' os. pool_segm pool psize osize align s = Some (pool, s\<lparr>mem := m'\<rparr>)
    \<and> pool_at m' pool psize os \<and> objs_ok osize align (unat pool + 16) (unat pool + unat psize) os
    \<and> os \<noteq> [] \<and> same_outside (span pool (unat psize)) (mem s) m'"
proof -
  let ?i = "first_obj pool align" and ?A = "span pool (unat psize)"
  have pool: "unat pool \<le> 2684354560" using assms(4) by simp
  note first = first_obj_ok [OF assms(1,2) pool]
  have os: "4 \<le> unat osize" "unat osize \<le> 16777216" "unat align \<le> 8 * unat osize"
    using assms(1) by (auto simp: request_ok_def)
  have up: "unat (pool + psize) = unat pool + unat psize" using assms(4) by (intro unat_area_end) simp
  define s1 where "s1 = wr (pool + 8) 0 (wr (pool + 12) 0 (wr (pool + 8) 0 (wr (pool + 4) psize (wr pool 0 s))))"
  have sub: "span pool 16 \<subseteq> ?A" using assms(5) by (intro span_mono) simp
  then have same1: "same_outside ?A (mem s) (mem s1)"
    unfolding s1_def mem_wr using header_sub [of pool]
    by (intro same_outside_st32_trans same_outside_refl) blast+
  have f1: "pool_size (mem s1) pool = psize" "next_pool (mem s1) pool = 0" "cnt_inuse (mem s1) pool = 0"
    "obj_head (mem s1) pool = 0"
    by (simp_all add: s1_def pool_size_def next_pool_def cnt_inuse_def obj_head_def)
  have le: "unat ?i + unat osize \<le> unat pool + unat psize"
    using first(3) os assms(5) by simp
  have bound: "unat pool + unat psize + unat osize + unat align < 2 ^ 32" using os assms(4) by simp
  have "\<exists>m' os'. pool_segm_loop pool psize osize align ?i s1 = Some (s1\<lparr>mem := m'\<rparr>)
    \<and> obj_list m' (obj_head m' pool) os' \<and> objs_ok osize align (unat pool + 16) (unat pool + unat psize) os'
    \<and> cnt_inuse m' pool = cnt_inuse (mem s1) pool \<and> pool_size m' pool = pool_size (mem s1) pool
    \<and> next_pool m' pool = next_pool (mem s1) pool \<and> same_outside ?A (mem s1) m'
    \<and> ([] \<noteq> ([] :: u32 list) \<or> aligned align ?i \<and> unat ?i + unat osize \<le> unat pool + unat psize \<longrightarrow> os' \<noteq> [])"
    using le assms(4,5) f1 first(2)
    by (intro pool_segm_loop_ok os(1) bound) (auto simp: objs_ok_def)
  then obtain m' os' where loop: "pool_segm_loop pool psize osize align ?i s1 = Some (s1\<lparr>mem := m'\<rparr>)"
    "obj_list m' (obj_head m' pool) os'" "objs_ok osize align (unat pool + 16) (unat pool + unat psize) os'"
    "cnt_inuse m' pool = 0" "pool_size m' pool = psize" "next_pool m' pool = 0"
    "same_outside ?A (mem s1) m'" "os' \<noteq> []"
    using le first(1) by (auto simp: f1)
  have "\<not> pool + psize \<le> ?i" using le up os(1) by (simp add: word_le_nat_alt)
  then have "pool_segm pool psize osize align s = Some (pool, s1\<lparr>mem := m'\<rparr>)"
    using assms(3) loop(1) by (simp add: pool_segm_def first_obj_def Let_def s1_def split del: if_split)
  moreover have "s1\<lparr>mem := m'\<rparr> = s\<lparr>mem := m'\<rparr>" by (simp add: s1_def wr_def)
  ultimately show ?thesis
    using loop same_outside_trans [OF same1 loop(7)] by (auto simp: pool_at_def)
qed

lemma slb_head_only: "pages_only s s' \<Longrightarrow> slb_head s' = slb_head (s :: 'a slb_state_scheme)"
  unfolding pages_only_def by (drule arg_cong [where f = slb_head]) simp

lemma arena_bounds:
  fixes n :: u32
  assumes "span a (unat n) \<subseteq> arena" and "0 < unat n" and "unat a + unat n < 2 ^ 32"
  shows "2147483648 \<le> unat a" and "unat a + unat n \<le> 2684354560" and "a \<noteq> 0"
proof -
  have "a \<in> arena" using assms(1,2) by auto
  then show a: "2147483648 \<le> unat a" by (simp add: arena_def)
  then show "a \<noteq> 0" by auto
  let ?l = "a + (n - 1)"
  have "unat (n - 1) = unat n - 1" using assms(2) by (intro unat_minus_one) auto
  then have "unat ?l = unat a + (unat n - 1)" using assms(2,3) by (subst unat_area_end) auto
  moreover from this have "?l \<in> span a (unat n)" using assms(2,3) by (simp add: span_area)
  ultimately show "unat a + unat n \<le> 2684354560" using assms(1,2) by (auto simp: arena_def)
qed

lemma pool_pages_eq:
  assumes "pages_alloc psize s = Some (V2P a, s')" and "a \<noteq> 0"
  shows "pool_pages psize s = Some (a, psize, s')"
  using assms by (subst pool_pages.simps) simp

lemma pool_alloc_ok:
  assumes "pages_inv s xs" and "foot xs \<subseteq> arena" and "request_ok osize align"
  shows "(fl_alloc (pool_bytes osize) xs = None \<and> pool_alloc osize align s = None)
    \<or> (\<exists>a ys s' os. fl_alloc (pool_bytes osize) xs = Some (a, ys) \<and> pool_alloc osize align s = Some (a, s')
        \<and> pages_inv s' ys \<and> foot ys = foot xs - span a (unat (pool_bytes osize))
        \<and> span a (unat (pool_bytes osize)) \<subseteq> foot xs \<and> a \<noteq> 0
        \<and> unat a + unat (pool_bytes osize) < 2 ^ 32 \<and> pages_only s s'
        \<and> pool_at (mem s') a (pool_bytes osize) os
        \<and> objs_ok osize align (unat a + 16) (unat a + unat (pool_bytes osize)) os \<and> os \<noteq> []
        \<and> same_outside (foot xs) (mem s) (mem s'))"
proof -
  let ?n = "pool_bytes osize"
  have os: "unat osize \<le> 16777216" using assms(3) by (simp add: request_ok_def)
  note n = pool_bytes_bounds [OF os]
  have nz: "?n \<noteq> 0" using n(2) by auto
  have wf: "fa_wf 1 (unat KERNEL_BASE) xs" using assms(1) by (simp add: pages_inv_def)
  show ?thesis
  proof (cases "fl_alloc ?n xs")
    case None
    then have "pages_alloc ?n s = None" using pages_alloc_None [OF assms(1) n(1)] by simp
    then show ?thesis using None by (simp add: pool_alloc_def pool_pages.simps)
  next
    case (Some ay)
    obtain a ys where ay: "fl_alloc ?n xs = Some (a, ys)" using Some by (cases ay) auto
    note ft = fl_alloc_foot [OF ay wf]
    obtain s1 where s1: "pages_alloc ?n s = Some (V2P a, s1)" "pages_inv s1 ys"
      "same_outside (foot xs) (mem s) (mem s1)"
      using pages_alloc_ok [OF assms(1) n(1) nz ay] by blast
    have a: "a \<noteq> 0" "unat a + unat ?n \<le> 2684354560" "4096 dvd unat a" "unat a + unat ?n < 2 ^ 32"
      using arena_bounds [of a ?n] ft assms(2) n(2) by auto
    obtain m' os where m': "pool_segm a ?n osize align s1 = Some (a, s1\<lparr>mem := m'\<rparr>)" "pool_at m' a ?n os"
      "objs_ok osize align (unat a + 16) (unat a + unat ?n) os" "os \<noteq> []"
      "same_outside (span a (unat ?n)) (mem s1) m'"
      using pool_segm_ok [OF assms(3) a(3,1,2) n(2), of s1] by blast
    have alloc: "pool_alloc osize align s = Some (a, s1\<lparr>mem := m'\<rparr>)"
      using pool_pages_eq [OF s1(1) a(1)] m'(1) a(1) by (simp add: pool_alloc_def)
    have "pages_inv (s1\<lparr>mem := m'\<rparr>) ys"
      using m'(5) ft(2) by (intro pages_inv_same [OF s1(2)]) (auto simp: same_outside_def)
    moreover have "same_outside (foot xs) (mem s) m'"
      using s1(3) m'(5) ft(1) by (blast intro: same_outside_trans same_outside_mono)
    moreover have "pages_only s (s1\<lparr>mem := m'\<rparr>)"
      using pages_alloc_only [OF s1(1)] by (simp add: pages_only_def)
    ultimately show ?thesis using ay alloc ft(1,2) a(1,4) m'(2-4) by auto
  qed
qed

text \<open>The blocks of the new pool lie in the pages it took.\<close>

lemma new_pool_chunks:
  fixes n :: u32
  assumes "objs_ok osize align (unat a + 16) (unat a + unat n) os" and "unat a + unat n < 2 ^ 32"
    and "16 \<le> unat n"
  shows "foot ((a, 16) # obj_chunks osize os) \<subseteq> span a (unat n)"
    and "span a 16 \<inter> foot (obj_chunks osize os) = {}" and "blocks_disj (obj_chunks osize os)"
proof -
  have b: "unat a + 16 \<le> unat x \<and> unat x < unat a + unat n" if "x \<in> foot (obj_chunks osize os)" for x
    using that foot_obj_chunks [of x osize os "unat a + 16" "unat a + unat n"] assms(1,2)
    by (auto simp: objs_ok_def)
  have "span a 16 \<subseteq> span a (unat n)" using assms(3) by (rule span_mono)
  moreover have "foot (obj_chunks osize os) \<subseteq> span a (unat n)"
    using b assms(2) by (fastforce simp: span_area)
  ultimately show "foot ((a, 16) # obj_chunks osize os) \<subseteq> span a (unat n)" by simp
  show "span a 16 \<inter> foot (obj_chunks osize os) = {}"
  proof -
    have "unat x < unat a + 16" if "x \<in> span a 16" for x
      using that assms(2,3) by (auto simp: span_nowrap)
    then show ?thesis using b by fastforce
  qed
  show "blocks_disj (obj_chunks osize os)" using assms(1) by (simp add: objs_ok_def)
qed

section \<open>Allocation from a cache that exists\<close>

lemma slb_inv_same_pages:
  assumes "pages_inv s xs" and "same_outside A (mem s) (mem s')" and "A \<inter> foot xs = {}"
    and "farea_head s' = farea_head s"
  shows "pages_inv s' xs"
  using assms(2,3) by (intro pages_inv_same [OF assms(1) _ assms(4)]) (auto simp: same_outside_def)

text \<open>The allocator's invariant survives a write to memory that is not its own.\<close>

lemma slb_inv_frame:
  assumes "slb_inv s xs cs" and "same_outside A (mem s) (mem s')"
    and "A \<inter> (foot xs \<union> foot (chunks cs)) = {}"
    and "farea_head s' = farea_head s" and "slb_head s' = slb_head s"
  shows "slb_inv s' xs cs"
proof -
  have "A \<inter> foot xs = {}" "A \<inter> foot (chunks cs) = {}" using assms(3) by blast+
  then show ?thesis
    using assms(1,5) slb_inv_same_pages [of s xs A s'] assms(2,4) slb_seg_frame [OF assms(2), of cs]
    by (auto simp: slb_inv_def)
qed

text \<open>
  What an allocation of \<open>osize\<close> bytes gives: a block that leaves the allocator's memory. The
  free areas lose at most \<open>d\<close> bytes: where one had \<open>t + d\<close> bytes, one has \<open>t\<close> afterwards. The block
  lies in a pool of its cache, so it can be given back.
\<close>

definition room :: "area list \<Rightarrow> nat \<Rightarrow> bool" where
  "room xs t \<longleftrightarrow> (\<exists>(b, n) \<in> set xs. t \<le> unat n)"

definition slb_gives ::
    "nat \<Rightarrow> 'a slb_state_scheme \<Rightarrow> area list \<Rightarrow> cache list \<Rightarrow> u32 \<Rightarrow> u32 \<Rightarrow> u32 \<Rightarrow> 'a slb_state_scheme \<Rightarrow> bool" where
  "slb_gives d s xs cs osize align p s' \<longleftrightarrow> aligned align p
     \<and> span p (unat osize) \<subseteq> foot xs \<union> foot (chunks cs)
     \<and> same_outside (foot xs \<union> foot (chunks cs)) (mem s) (mem s')
     \<and> (\<exists>xs' cs'. slb_inv s' xs' cs' \<and> (\<forall>t > 0. room xs (t + d) \<longrightarrow> room xs' t)
         \<and> foot xs' \<union> foot (chunks cs') \<subseteq> (foot xs \<union> foot (chunks cs)) - span p (unat osize)
         \<and> block_pool p osize align cs' \<noteq> None)"

lemma pool_pop_simps:
  "pool_pop a s = (b, s') \<Longrightarrow> b = obj_head (mem s) a \<and> (\<exists>v. mem s' = st32 (st32 (mem s) (a + 8) (next_obj (mem s) b)) a v)
    \<and> farea_head s' = farea_head s \<and> slb_head s' = slb_head s \<and> pages_only s s'"
  by (auto simp: pool_pop_def Let_def wr_def pages_only_def)

lemma slb_pop_ok:
  assumes "slb_inv s xs (cs1 @ (c, al, sz, ps1 @ (a, n, b # os) # ps2) # cs2)"
    and first: "\<forall>c ps. (c, al, sz, ps) \<notin> set cs1"
  shows "\<exists>s'. pool_pop a s = (b, s') \<and> slb_inv s' xs (cs1 @ (c, al, sz, ps1 @ (a, n, os) # ps2) # cs2)
    \<and> slb_gives 0 s xs (cs1 @ (c, al, sz, ps1 @ (a, n, b # os) # ps2) # cs2) sz al b s'"
proof -
  let ?cs = "cs1 @ (c, al, sz, ps1 @ (a, n, b # os) # ps2) # cs2"
  let ?cs' = "cs1 @ (c, al, sz, ps1 @ (a, n, os) # ps2) # cs2"
  have inv: "pages_inv s xs" "slb_seg (mem s) (slb_head s) ?cs 0" "blocks_disj (chunks ?cs)"
    "foot (chunks ?cs) \<inter> foot xs = {}" "foot xs \<union> foot (chunks ?cs) \<subseteq> arena" "list_all cache_ok ?cs"
    "\<exists>c ps. (c, 4, 16, ps) \<in> set ?cs"
    using assms(1) unfolding slb_inv_def by blast+
  obtain r s' where pop: "pool_pop a s = (r, s')" by force
  have b: "obj_head (mem s) a = b" using slb_pop(3) [OF inv(2,3,6) refl] .
  then obtain v where s': "r = b" "mem s' = st32 (st32 (mem s) (a + 8) (next_obj (mem s) b)) a v"
    "farea_head s' = farea_head s" "slb_head s' = slb_head s"
    using pool_pop_simps [OF pop] by auto
  note seg = slb_pop(1,2) [OF inv(2,3,6) s'(2)]
  have "span a 16 \<inter> foot xs = {}" using inv(4) by auto
  then have "pages_inv s' xs" by (rule slb_inv_same_pages [OF inv(1) seg(2) _ s'(3)])
  moreover have "\<exists>c ps. (c, 4, 16, ps) \<in> set ?cs'" using inv(7) by auto
  moreover have "list_all cache_ok ?cs'" "aligned al b" "in_pool a n b" using inv(6) by (auto simp: cache_ok_def)
  moreover have "blocks_disj (chunks ?cs')" "foot (chunks ?cs') \<inter> foot xs = {}" "foot xs \<union> foot (chunks ?cs') \<subseteq> arena"
    using inv(3-5) by auto
  ultimately have inv': "slb_inv s' xs ?cs'" using seg(1) s'(4) by (simp add: slb_inv_def)
  have "same_outside (foot xs \<union> foot (chunks ?cs)) (mem s) (mem s')"
    by (rule same_outside_mono [OF seg(2)]) auto
  moreover have "span b (unat sz) \<subseteq> foot xs \<union> foot (chunks ?cs)" by auto
  moreover have "foot xs \<union> foot (chunks ?cs') \<subseteq> (foot xs \<union> foot (chunks ?cs)) - span b (unat sz)"
    using inv(3,4) by auto
  moreover have "block_pool b sz al ?cs' \<noteq> None"
    unfolding block_pool_first(1) [OF first] using \<open>in_pool a n b\<close> by (intro pool_of_in [of a n os]) simp_all
  ultimately have "slb_gives 0 s xs ?cs sz al b s'"
    using inv' \<open>aligned al b\<close> unfolding slb_gives_def add_0_right by blast
  then show ?thesis using pop s'(1) inv' by blast
qed

text \<open>A fresh pool joins a cache.\<close>

lemma slb_grow_ok:
  assumes "slb_inv s xs (cs1 @ (c, al, sz, ps) # cs2)" and "request_ok sz al"
    and "pool_alloc sz al s = Some (a, s1)"
    and "s2 = wr (c + 8) a (wr (a + 12) (pool_head (mem s1) c) s1)"
  shows "\<exists>n b os ys. a \<noteq> 0 \<and> fl_alloc (pool_bytes sz) xs = Some (a, ys) \<and> slb_inv s2 ys (cs1 @ (c, al, sz, (a, n, b # os) # ps) # cs2)
    \<and> foot ys \<union> foot (chunks (cs1 @ (c, al, sz, (a, n, b # os) # ps) # cs2))
      \<subseteq> foot xs \<union> foot (chunks (cs1 @ (c, al, sz, ps) # cs2))
    \<and> same_outside (foot xs \<union> foot (chunks (cs1 @ (c, al, sz, ps) # cs2))) (mem s) (mem s2)"
proof -
  let ?cs = "cs1 @ (c, al, sz, ps) # cs2"
  have inv: "pages_inv s xs" "slb_seg (mem s) (slb_head s) ?cs 0" "blocks_disj (chunks ?cs)"
    "foot (chunks ?cs) \<inter> foot xs = {}" "foot xs \<union> foot (chunks ?cs) \<subseteq> arena" "list_all cache_ok ?cs"
    "\<exists>c ps. (c, 4, 16, ps) \<in> set ?cs"
    using assms(1) unfolding slb_inv_def by blast+
  let ?n = "pool_bytes sz"
  have "foot xs \<subseteq> arena" using inv(5) by blast
  from pool_alloc_ok [OF inv(1) this assms(2)] assms(3) obtain ys os where
    new: "pages_inv s1 ys" "foot ys = foot xs - span a (unat ?n)" "span a (unat ?n) \<subseteq> foot xs" "a \<noteq> 0"
      "unat a + unat ?n < 2 ^ 32" "pages_only s s1" "pool_at (mem s1) a ?n os"
      "objs_ok sz al (unat a + 16) (unat a + unat ?n) os" "os \<noteq> []" "same_outside (foot xs) (mem s) (mem s1)"
      "fl_alloc ?n xs = Some (a, ys)"
    by auto
  obtain b os' where os: "os = b # os'" using new(9) by (cases os) auto
  let ?p = "(a, ?n, os) :: pool"
  let ?cs' = "cs1 @ (c, al, sz, ?p # ps) # cs2"
  have "16 \<le> unat ?n" using assms(2) pool_bytes_bounds(2) [of sz] by (simp add: request_ok_def)
  note nc = new_pool_chunks [OF new(8,5) this]
  have seg1: "slb_seg (mem s1) (slb_head s) ?cs 0"
    using slb_seg_frame [OF new(10) _ inv(6)] inv(2,4) by (simp add: Int_commute)
  have disj: "foot ((a, 16) # obj_chunks sz os) \<inter> foot (chunks ?cs) = {}"
    using nc(1) new(3) inv(4) by blast
  have at: "pool_size (mem s1) a = ?n" "obj_list (mem s1) (obj_head (mem s1) a) os"
    using new(7) by (auto simp: pool_at_def)
  have m2: "mem s2 = st32 (st32 (mem s1) (a + 12) (pool_head (mem s1) c)) (c + 8) a"
    by (simp add: assms(4))
  note add = slb_add_pool [OF seg1 inv(3,6) disj nc(2) new(4) at m2]
  have sub: "span a 16 \<subseteq> span a (unat ?n)" "foot (obj_chunks sz os) \<subseteq> span a (unat ?n)"
    "span c 16 \<subseteq> foot (chunks ?cs)"
    using nc(1) by auto
  have ys: "pages_inv s2 ys"
    using add(2) sub(1,3) new(2) inv(4) assms(4)
    by (intro slb_inv_same_pages [OF new(1)]) (auto simp: wr_def)
  have head: "slb_head s2 = slb_head s" using slb_head_only [OF new(6)] by (simp add: assms(4) wr_def)
  have feet: "foot (chunks ?cs') = foot ((a, 16) # obj_chunks sz os) \<union> foot (chunks ?cs)" by auto
  have "blocks_disj (chunks ?cs')" using inv(3) disj nc(2,3) by auto
  moreover have "foot (chunks ?cs') \<inter> foot ys = {}"
    unfolding feet new(2) using nc(1) inv(4) by auto
  moreover have "foot ys \<union> foot (chunks ?cs') \<subseteq> foot xs \<union> foot (chunks ?cs)"
    unfolding feet new(2) using nc(1) new(3) by auto
  moreover from this have "foot ys \<union> foot (chunks ?cs') \<subseteq> arena" using inv(5) by blast
  moreover have "list_all cache_ok ?cs'"
    using inv(6) objs_ok_in_pool [OF new(8,5)] by (auto simp: cache_ok_def)
  moreover have "\<exists>c ps. (c, 4, 16, ps) \<in> set ?cs'" using inv(7) by auto
  ultimately have "slb_inv s2 ys ?cs'" using ys add(1) head by (simp add: slb_inv_def)
  moreover have "same_outside (foot xs \<union> foot (chunks ?cs)) (mem s) (mem s2)"
  proof -
    have "span a 16 \<union> span c 16 \<subseteq> foot xs \<union> foot (chunks ?cs)" using sub new(3) by blast
    then show ?thesis
      using same_outside_trans [OF same_outside_mono [OF new(10)] same_outside_mono [OF add(2)]] by blast
  qed
  ultimately show ?thesis
    using new(4,11) \<open>foot ys \<union> foot (chunks ?cs') \<subseteq> foot xs \<union> foot (chunks ?cs)\<close> unfolding os by blast
qed

lemma fl_alloc_room:
  assumes "fl_alloc need xs = Some (a, ys)" and "room xs (t + unat need)" and "0 < t"
  shows "room ys t"
proof -
  obtain pre n rest where xs: "xs = pre @ (a, n) # rest" and fit: "need \<le> n"
    and ys: "ys = pre @ (if need < n then (a + need, n - need) # rest else rest)"
    by (rule fl_alloc_Some [OF assms(1)])
  obtain b k where bk: "(b, k) \<in> set xs" "t + unat need \<le> unat k"
    using assms(2) by (auto simp: room_def)
  show ?thesis
  proof (cases "(b, k) \<in> set pre \<union> set rest")
    case True
    then show ?thesis using bk(2) by (auto simp: room_def ys intro!: bexI [of _ "(b, k)"])
  next
    case False
    then have "k = n" using bk(1) by (auto simp: xs)
    then have "need < n" "unat (n - need) = unat n - unat need"
      using bk(2) assms(3) fit by (auto simp: word_less_nat_alt unat_sub_le)
    then show ?thesis using bk(2) \<open>k = n\<close> by (auto simp: room_def ys)
  qed
qed

lemma slb_gives_trans:
  assumes "slb_gives d s1 xs1 cs1 osize align p s'"
    and "same_outside (foot xs \<union> foot (chunks cs)) (mem s) (mem s1)"
    and "foot xs1 \<union> foot (chunks cs1) \<subseteq> foot xs \<union> foot (chunks cs)"
    and "\<And>t. 0 < t \<Longrightarrow> room xs (t + d') \<Longrightarrow> room xs1 t"
  shows "slb_gives (d + d') s xs cs osize align p s'"
proof -
  have g: "aligned align p" "span p (unat osize) \<subseteq> foot xs1 \<union> foot (chunks cs1)"
    "same_outside (foot xs1 \<union> foot (chunks cs1)) (mem s1) (mem s')"
    using assms(1) unfolding slb_gives_def by blast+
  obtain xs' cs' where inv: "slb_inv s' xs' cs'" "\<forall>t > 0. room xs1 (t + d) \<longrightarrow> room xs' t"
    "foot xs' \<union> foot (chunks cs') \<subseteq> (foot xs1 \<union> foot (chunks cs1)) - span p (unat osize)"
    "block_pool p osize align cs' \<noteq> None"
    using assms(1) unfolding slb_gives_def by blast
  have "same_outside (foot xs \<union> foot (chunks cs)) (mem s) (mem s')"
    using same_outside_trans [OF assms(2) same_outside_mono [OF g(3) assms(3)]] .
  moreover have "\<forall>t > 0. room xs (t + (d + d')) \<longrightarrow> room xs' t"
    using inv(2) assms(4) by (metis add.assoc add_gr_0)
  ultimately show ?thesis using g(1,2) inv(1,3,4) assms(3) unfolding slb_gives_def by blast
qed

lemma slb_gives_mono:
  assumes "slb_gives d s xs cs osize align p s'" and "d \<le> d'"
  shows "slb_gives d' s xs cs osize align p s'"
proof -
  have "room xs (t + d') \<Longrightarrow> room xs (t + d)" for t
    using assms(2) by (force simp: room_def)
  then show ?thesis using assms(1) unfolding slb_gives_def by blast
qed

lemma slb_hit_ok:
  assumes "slb_inv s xs (cs1 @ (c, al, sz, ps) # cs2)" and "request_ok sz al"
    and first: "\<forall>c ps. (c, al, sz, ps) \<notin> set cs1"
  shows "(fl_alloc (pool_bytes sz) xs = None \<and> slb_alloc_hit c sz al s = None)
    \<or> (\<exists>p s'. slb_alloc_hit c sz al s = Some (p, s') 
      \<and> slb_gives (unat (pool_bytes sz)) s xs (cs1 @ (c, al, sz, ps) # cs2) sz al p s')"
proof -
  let ?cs = "cs1 @ (c, al, sz, ps) # cs2"
  have inv: "pages_inv s xs" "slb_seg (mem s) (slb_head s) ?cs 0" "foot xs \<union> foot (chunks ?cs) \<subseteq> arena"
    using assms(1) unfolding slb_inv_def by blast+
  then have pools: "pool_seg (mem s) (pool_head (mem s) c) ps 0" and arena: "foot xs \<subseteq> arena" by auto
  from pool_find_free_seg [OF pools] show ?thesis
  proof (elim disjE exE conjE)
    fix ps1 a n b os ps2
    assume ps: "ps = ps1 @ (a, n, b # os) # ps2"
      and f: "pool_find_free (mem s) (pool_head (mem s) c) = Some a"
    have "a \<noteq> 0" using pools by (auto simp: ps)
    from slb_pop_ok [OF assms(1) [unfolded ps] first] obtain s' where "pool_pop a s = (b, s')"
      "slb_gives (unat (pool_bytes sz)) s xs ?cs sz al b s'"
      unfolding ps using slb_gives_mono [OF _ le0] by blast
    then show ?thesis using \<open>a \<noteq> 0\<close> by (simp add: slb_alloc_hit_def f)
  next
    assume f: "pool_find_free (mem s) (pool_head (mem s) c) = Some 0"
    show ?thesis
    proof (cases "pool_alloc sz al s")
      case None
      then have "fl_alloc (pool_bytes sz) xs = None"
        using pool_alloc_ok [OF inv(1) arena assms(2)] by auto
      then show ?thesis using None by (simp add: slb_alloc_hit_def f)
    next
      case (Some as)
      obtain a s1 where a: "pool_alloc sz al s = Some (a, s1)" using Some by (cases as) auto
      define s2 where "s2 = wr (c + 8) a (wr (a + 12) (pool_head (mem s1) c) s1)"
      from slb_grow_ok [OF assms(1,2) a s2_def] obtain n b os ys where g: "a \<noteq> 0"
        "slb_inv s2 ys (cs1 @ (c, al, sz, [] @ (a, n, b # os) # ps) # cs2)"
        "foot ys \<union> foot (chunks (cs1 @ (c, al, sz, [] @ (a, n, b # os) # ps) # cs2)) \<subseteq> foot xs \<union> foot (chunks ?cs)"
        "same_outside (foot xs \<union> foot (chunks ?cs)) (mem s) (mem s2)"
        "fl_alloc (pool_bytes sz) xs = Some (a, ys)" unfolding append_Nil by blast
      from slb_pop_ok [OF g(2) first] obtain s' where s': "pool_pop a s2 = (b, s')"
        "slb_gives 0 s2 ys (cs1 @ (c, al, sz, [] @ (a, n, b # os) # ps) # cs2) sz al b s'" by blast
      have "slb_gives (0 + unat (pool_bytes sz)) s xs ?cs sz al b s'"
        by (rule slb_gives_trans [OF s'(2) g(4,3) fl_alloc_room [OF g(5)]])
      moreover have "slb_alloc_hit c sz al s = Some (b, s')"
        using g(1) s'(1) by (simp add: slb_alloc_hit_def f a s2_def [symmetric])
      ultimately show ?thesis by auto
    qed
  qed
qed

section \<open>Allocation\<close>

lemma slb_new_cache:
  assumes "slb_inv s1 xs cs" and "request_ok sz al" and "al \<noteq> 0" and "c \<noteq> 0" and "span c 16 \<subseteq> arena"
    and "span c 16 \<inter> (foot xs \<union> foot (chunks cs)) = {}"
    and "s2 = wr (c + 4) sz (wr c al s1)" and "pool_alloc sz al s2 = Some (a, s3)"
    and "s5 = wr (c + 12) (slb_head s3) (wr (c + 8) a s3)\<lparr>slb_head := c\<rparr>"
  shows "\<exists>n b os ys. a \<noteq> 0 \<and> fl_alloc (pool_bytes sz) xs = Some (a, ys)
    \<and> slb_inv s5 ys ((c, al, sz, [(a, n, b # os)]) # cs)
    \<and> foot ys \<union> foot (chunks ((c, al, sz, [(a, n, b # os)]) # cs))
      \<subseteq> foot xs \<union> foot (chunks cs) \<union> span c 16
    \<and> same_outside (foot xs \<union> foot (chunks cs) \<union> span c 16) (mem s1) (mem s5)"
proof -
  have inv: "pages_inv s1 xs" "slb_seg (mem s1) (slb_head s1) cs 0" "blocks_disj (chunks cs)"
    "foot (chunks cs) \<inter> foot xs = {}" "foot xs \<union> foot (chunks cs) \<subseteq> arena" "list_all cache_ok cs"
    "\<exists>c ps. (c, 4, 16, ps) \<in> set cs"
    using assms(1) unfolding slb_inv_def by blast+
  have same12: "same_outside (span c 16) (mem s1) (mem s2)"
    unfolding assms(7) mem_wr using header_sub [of c] by (intro same_outside_st32_trans same_outside_refl)
  have "pages_inv s2 xs"
    using assms(6) by (intro slb_inv_same_pages [OF inv(1) same12]) (auto simp: assms(7) wr_def)
  moreover have "foot xs \<subseteq> arena" using inv(5) by blast
  ultimately obtain ys os where
    new: "pages_inv s3 ys" "foot ys = foot xs - span a (unat (pool_bytes sz))"
      "span a (unat (pool_bytes sz)) \<subseteq> foot xs" "a \<noteq> 0" "unat a + unat (pool_bytes sz) < 2 ^ 32"
      "pages_only s2 s3" "pool_at (mem s3) a (pool_bytes sz) os"
      "objs_ok sz al (unat a + 16) (unat a + unat (pool_bytes sz)) os" "os \<noteq> []"
      "same_outside (foot xs) (mem s2) (mem s3)" "fl_alloc (pool_bytes sz) xs = Some (a, ys)"
    using pool_alloc_ok [OF _ _ assms(2), of s2 xs] assms(8) by auto
  obtain b os' where os: "os = b # os'" using new(9) by (cases os) auto
  have "16 \<le> unat (pool_bytes sz)" using assms(2) pool_bytes_bounds(2) [of sz] by (simp add: request_ok_def)
  note nc = new_pool_chunks [OF new(8,5) this]
  have sub: "span a 16 \<union> foot (obj_chunks sz os) \<subseteq> foot xs" using nc(1) new(3) by auto
  have same35: "same_outside (span c 16) (mem s3) (mem s5)"
    unfolding assms(9) using header_sub [of c]
    by (auto intro!: same_outside_st32_trans)
  let ?c = "(c, al, sz, [(a, pool_bytes sz, os)]) :: cache"
  have head: "slb_head s3 = slb_head s1" using slb_head_only [OF new(6)] by (simp add: assms(7) wr_def)
  have sz: "4 \<le> unat sz" using assms(2) by (simp add: request_ok_def)
  have fields: "obj_align (mem s5) c = al" "obj_size (mem s5) c = sz" "pool_head (mem s5) c = a"
    "next_slb (mem s5) c = slb_head s1"
  proof -
    have "span c 16 \<inter> foot xs = {}" using assms(6) by blast
    from field_same [OF new(10) this] have "ld32 (mem s3) c = al" "ld32 (mem s3) (c + 4) = sz"
      by (simp_all add: assms(7))
    then show "obj_align (mem s5) c = al" "obj_size (mem s5) c = sz" "pool_head (mem s5) c = a"
      "next_slb (mem s5) c = slb_head s1"
      by (simp_all add: assms(9) head obj_align_def obj_size_def pool_head_def next_slb_def)
  qed
  have cdisj: "span c 16 \<inter> span a 16 = {}" "span c 16 \<inter> foot (obj_chunks sz os) = {}"
    "span c 16 \<inter> foot (chunks cs) = {}" "span c 16 \<inter> foot xs = {}"
    using assms(6) sub by blast+
  have "slb_seg (mem s5) (slb_head s1) cs 0"
  proof (subst slb_seg_frame [OF same35 cdisj(3) inv(6)], subst slb_seg_frame [OF new(10) _ inv(6)])
    show "foot xs \<inter> foot (chunks cs) = {}" using inv(4) by blast
    show "slb_seg (mem s2) (slb_head s1) cs 0"
      using inv(2) slb_seg_frame [OF same12 cdisj(3) inv(6)] by blast
  qed
  moreover have "pool_seg (mem s5) a [(a, pool_bytes sz, os)] 0"
    using new(7) pool_fields_same [OF same35 cdisj(1)] obj_list_frame [OF same35 cdisj(2) sz] new(4)
    by (simp add: pool_at_def)
  ultimately have seg: "slb_seg (mem s5) (slb_head s5) (?c # cs) 0"
    using fields assms(4,9) by simp
  have ys: "pages_inv s5 ys"
    using cdisj(4) new(2) by (intro slb_inv_same_pages [OF new(1) same35]) (auto simp: assms(9) wr_def)
  have feet: "foot (chunks (?c # cs)) = span c 16 \<union> (foot ((a, 16) # obj_chunks sz os) \<union> foot (chunks cs))"
    by auto
  have sep: "(span a 16 \<union> foot (obj_chunks sz os)) \<inter> foot (chunks cs) = {}"
    using sub inv(4) by blast
  have "blocks_disj (chunks (?c # cs))" using inv(3) cdisj nc(2,3) sep by auto
  moreover have "foot (chunks (?c # cs)) \<inter> foot ys = {}"
    unfolding feet new(2) using nc(1) inv(4) cdisj(4) by auto
  moreover have small: "foot ys \<union> foot (chunks (?c # cs)) \<subseteq> foot xs \<union> foot (chunks cs) \<union> span c 16"
    unfolding feet new(2) using nc(1) new(3) by auto
  moreover from this have "foot ys \<union> foot (chunks (?c # cs)) \<subseteq> arena" using inv(5) assms(5) by blast
  moreover have "list_all cache_ok (?c # cs)"
    using inv(6) objs_ok_in_pool [OF new(8,5) sz] sz assms(3) by (auto simp: cache_ok_def)
  moreover have "\<exists>c ps. (c, 4, 16, ps) \<in> set (?c # cs)" using inv(7) by auto
  ultimately have inv5: "slb_inv s5 ys (?c # cs)" using ys seg unfolding slb_inv_def by blast
  have "same_outside (foot xs \<union> foot (chunks cs) \<union> span c 16) (mem s1) (mem s5)"
    using same_outside_trans [OF same_outside_mono [OF same12]
        same_outside_trans [OF same_outside_mono [OF new(10)] same_outside_mono [OF same35]]] by blast
  then show ?thesis using new(4,11) inv5 small unfolding os by blast
qed

text \<open>The size and alignment a request is served with.\<close>

definition slb_sz :: "u32 \<Rightarrow> u32" where
  "slb_sz k = int_max k sizeof_slb_obj_t"

definition slb_al :: "u32 \<Rightarrow> u32 \<Rightarrow> u32" where
  "slb_al k a = (if a = 0 then int_min k 4 else a)"

definition slb_request :: "u32 \<Rightarrow> u32 \<Rightarrow> bool" where
  "slb_request k a \<longleftrightarrow> 1 \<le> unat k \<and> unat k \<le> 16777216 \<and> unat a \<le> 8 * unat k
     \<and> (unat a \<le> 16 \<or> (\<exists>j. a = 2 ^ j))"

lemma sint_small: "unat (k :: u32) < 2147483648 \<Longrightarrow> sint k = int (unat k)"
proof -
  assume "unat k < 2147483648"
  then have "int (unat k) < 2147483648" by linarith
  then show ?thesis by (simp add: sint_u32)
qed

lemma sint_numeral_4: "sint (4 :: u32) = 4"
  by simp

lemma int_min_max_small:
  assumes "unat (k :: u32) \<le> 16777216"
  shows "unat (int_max k 4) = max (unat k) 4" and "unat (int_min k 4) = min (unat k) 4"
proof -
  have "sint k = int (unat k)" using assms by (intro sint_small) simp
  then have "4 <s k \<longleftrightarrow> 4 < unat k" "k <s 4 \<longleftrightarrow> unat k < 4"
    unfolding word_sless_alt by (simp_all only: sint_numeral_4) linarith+
  then show "unat (int_max k 4) = max (unat k) 4" "unat (int_min k 4) = min (unat k) 4"
    by (auto simp: int_max_def int_min_def)
qed

lemma slb_request_ok:
  assumes "slb_request k a"
  shows "request_ok (slb_sz k) (slb_al k a)" and "slb_al k a \<noteq> 0"
    and "slb_sz (slb_sz k) = slb_sz k" and "slb_al (slb_sz k) (slb_al k a) = slb_al k a"
proof -
  have k: "1 \<le> unat k" "unat k \<le> 16777216" "unat a \<le> 8 * unat k" "unat a \<le> 16 \<or> (\<exists>j. a = 2 ^ j)"
    using assms by (auto simp: slb_request_def)
  have sz: "unat (slb_sz k) = max (unat k) 4"
    using int_min_max_small [OF k(2)] by (simp add: slb_sz_def sizeof_slb_obj_t_def)
  have al: "a = 0 \<Longrightarrow> unat (slb_al k a) = min (unat k) 4" "a \<noteq> 0 \<Longrightarrow> slb_al k a = a"
    using int_min_max_small [OF k(2)] by (simp_all add: slb_al_def)
  show nz: "slb_al k a \<noteq> 0" using al k(1) by (cases "a = 0") auto
  show "request_ok (slb_sz k) (slb_al k a)"
    using k sz al by (cases "a = 0") (auto simp: request_ok_def)
  have "unat (slb_sz k) \<le> 16777216" using sz k(2) by simp
  from int_min_max_small(1) [OF this] show "slb_sz (slb_sz k) = slb_sz k"
    using sz by (intro u32_eqI) (simp add: slb_sz_def sizeof_slb_obj_t_def)
  show "slb_al (slb_sz k) (slb_al k a) = slb_al k a" using nz by (simp add: slb_al_def)
qed

lemma slb_alloc_align_unfold:
  "slb_alloc_align k a s = do {
     iter_slb \<leftarrow> slb_find (mem s) (slb_sz k) (slb_al k a) (slb_head s);
     if iter_slb \<noteq> 0 then slb_alloc_hit iter_slb (slb_sz k) (slb_al k a) s
     else do {
       (iter_slb, s) \<leftarrow> slb_alloc_align sizeof_slb_t 0 s;
       if iter_slb = 0 then Some (0, s)
       else do {
         (pool, s) \<leftarrow> pool_alloc (slb_sz k) (slb_al k a) (wr (iter_slb + 4) (slb_sz k) (wr iter_slb (slb_al k a) s));
         let s = wr (iter_slb + 8) pool s;
         if pool = 0 then do {
           (_, s) \<leftarrow> slb_free iter_slb sizeof_slb_t s;
           Some (0, s)
         }
         else slb_alloc_align (slb_sz k) (slb_al k a)
           (wr (iter_slb + 12) (slb_head s) s\<lparr>slb_head := iter_slb\<rparr>)
       }
     }
   }"
  unfolding slb_sz_def slb_al_def by (subst slb_alloc_align.simps) (simp only: Let_def)

text \<open>An allocation whose cache exists does not recurse.\<close>

lemma slb_alloc_found:
  assumes "slb_inv s xs cs" and "request_ok (slb_sz k) (slb_al k a)"
    and "(c0, slb_al k a, slb_sz k, ps0) \<in> set cs"
  shows "(fl_alloc (pool_bytes (slb_sz k)) xs = None \<and> slb_alloc_align k a s = None)
    \<or> (\<exists>p s'. slb_alloc_align k a s = Some (p, s')
        \<and> slb_gives (unat (pool_bytes (slb_sz k))) s xs cs (slb_sz k) (slb_al k a) p s')"
proof -
  have seg: "slb_seg (mem s) (slb_head s) cs 0" using assms(1) by (simp add: slb_inv_def)
  obtain cs1 c ps cs2 where cs: "cs = cs1 @ (c, slb_al k a, slb_sz k, ps) # cs2"
    and first: "\<forall>c ps. (c, slb_al k a, slb_sz k, ps) \<notin> set cs1"
    and f: "slb_find (mem s) (slb_sz k) (slb_al k a) (slb_head s) = Some c"
    using slb_find_seg [OF seg, of "slb_al k a" "slb_sz k"] assms(3) by blast
  have "c \<noteq> 0" using seg by (auto simp: cs)
  then have "slb_alloc_align k a s = slb_alloc_hit c (slb_sz k) (slb_al k a) s"
    by (subst slb_alloc_align_unfold) (simp add: f)
  then show ?thesis using slb_hit_ok [OF assms(1) [unfolded cs] assms(2) first] by (simp add: cs)
qed

lemma fl_alloc_None_room: "fl_alloc k xs = None \<Longrightarrow> \<not> room xs (unat k)"
  by (auto simp: fl_alloc_None room_def word_less_nat_alt)

lemma pool_bytes_16: "unat (pool_bytes 16) = 4096"
  by (simp add: pool_bytes_def Let_def sizeof_slb_pool_t_def)

lemma slb_alloc_align_ok:
  assumes "slb_inv s xs cs" and "slb_request k a"
  shows "(slb_alloc_align k a s = None \<and> \<not> room xs (unat (pool_bytes (slb_sz k)) + 4096))
    \<or> (\<exists>p s'. slb_alloc_align k a s = Some (p, s')
        \<and> slb_gives (unat (pool_bytes (slb_sz k)) + 4096) s xs cs (slb_sz k) (slb_al k a) p s')"
proof -
  let ?sz = "slb_sz k" and ?al = "slb_al k a" and ?N = "unat (pool_bytes (slb_sz k))"
  have no: "\<not> room xs ?N \<Longrightarrow> \<not> room xs (?N + 4096)" for xs by (force simp: room_def)
  note req = slb_request_ok [OF assms(2)]
  show ?thesis
  proof (cases "\<exists>c ps. (c, ?al, ?sz, ps) \<in> set cs")
    case True
    then obtain c0 ps0 where c0: "(c0, ?al, ?sz, ps0) \<in> set cs" by blast
    show ?thesis using slb_alloc_found [OF assms(1) req(1) c0]
    proof (elim disjE conjE exE)
      assume "fl_alloc (pool_bytes ?sz) xs = None" "slb_alloc_align k a s = None"
      then show ?thesis using no fl_alloc_None_room by blast
    next
      fix p s' assume "slb_alloc_align k a s = Some (p, s')" "slb_gives ?N s xs cs ?sz ?al p s'"
      then show ?thesis using slb_gives_mono [of ?N s xs cs ?sz ?al p s' "?N + 4096"] by auto
    qed
  next
    case False
    have seg: "slb_seg (mem s) (slb_head s) cs 0" and arena: "foot xs \<union> foot (chunks cs) \<subseteq> arena"
      using assms(1) by (simp_all add: slb_inv_def)
    have find0: "slb_find (mem s) ?sz ?al (slb_head s) = Some 0"
      using slb_find_seg [OF seg, of ?al ?sz] False by (metis in_set_conv_decomp)
    have n16: "slb_sz sizeof_slb_t = 16" "slb_al sizeof_slb_t 0 = 4"
      by (simp_all add: slb_sz_def slb_al_def sizeof_slb_t_def sizeof_slb_obj_t_def int_max_def int_min_def
          word_sless_alt)
    have "request_ok 16 4" by (simp add: request_ok_def)
    moreover obtain d0 qs0 where "(d0, 4, 16, qs0) \<in> set cs" using assms(1) by (auto simp: slb_inv_def)
    ultimately have desc: "(fl_alloc (pool_bytes 16) xs = None \<and> slb_alloc_align sizeof_slb_t 0 s = None)
      \<or> (\<exists>p s'. slb_alloc_align sizeof_slb_t 0 s = Some (p, s') \<and> slb_gives 4096 s xs cs 16 4 p s')"
      using slb_alloc_found [OF assms(1), of sizeof_slb_t 0] by (simp add: n16 pool_bytes_16)
    show ?thesis
    proof (cases "slb_alloc_align sizeof_slb_t 0 s")
      case None
      then have "\<not> room xs 4096" using desc fl_alloc_None_room [of "pool_bytes 16" xs] by (auto simp: pool_bytes_16)
      then have "\<not> room xs (?N + 4096)" by (force simp: room_def)
      moreover have "slb_alloc_align k a s = None"
        by (subst slb_alloc_align_unfold) (simp add: find0 None)
      ultimately show ?thesis by blast
    next
      case (Some cs1)
      obtain c s1 where c: "slb_alloc_align sizeof_slb_t 0 s = Some (c, s1)" using Some by (cases cs1) auto
      then have g: "slb_gives 4096 s xs cs 16 4 c s1" using desc by auto
      obtain xs1 cs1 where inv1: "slb_inv s1 xs1 cs1" "\<forall>t > 0. room xs (t + 4096) \<longrightarrow> room xs1 t"
        "foot xs1 \<union> foot (chunks cs1) \<subseteq> (foot xs \<union> foot (chunks cs)) - span c 16"
        "span c 16 \<subseteq> foot xs \<union> foot (chunks cs)"
        "same_outside (foot xs \<union> foot (chunks cs)) (mem s) (mem s1)"
        using g unfolding slb_gives_def by auto
      have cblk: "span c 16 \<subseteq> arena" "span c 16 \<inter> (foot xs1 \<union> foot (chunks cs1)) = {}"
        using inv1(3,4) arena by blast+
      have "c \<in> arena" using cblk(1) by auto
      then have "c \<noteq> 0" by (auto simp: arena_def)
      define s2 where "s2 = wr (c + 4) ?sz (wr c ?al s1)"
      have top: "slb_alloc_align k a s = do {
         (pool, s) \<leftarrow> pool_alloc ?sz ?al s2;
         let s = wr (c + 8) pool s;
         if pool = 0 then do { (_, s) \<leftarrow> slb_free c sizeof_slb_t s; Some (0, s) }
         else slb_alloc_align ?sz ?al (wr (c + 12) (slb_head s) s\<lparr>slb_head := c\<rparr>) }"
        by (subst slb_alloc_align_unfold) (simp add: find0 c \<open>c \<noteq> 0\<close> s2_def)
      have s2: "pages_inv s2 xs1"
      proof -
        have "pages_inv s1 xs1" "span c 16 \<inter> foot xs1 = {}"
          using inv1(1) cblk(2) by (auto simp: slb_inv_def)
        moreover have "same_outside (span c 16) (mem s1) (mem s2)"
          unfolding s2_def mem_wr using header_sub [of c] by (intro same_outside_st32_trans same_outside_refl)
        ultimately show ?thesis by (rule_tac slb_inv_same_pages) (auto simp: s2_def wr_def)
      qed
      have arena1: "foot xs1 \<subseteq> arena" using inv1(3) arena by blast
      show ?thesis
      proof (cases "pool_alloc ?sz ?al s2")
        case None
        then have "fl_alloc (pool_bytes ?sz) xs1 = None"
          using pool_alloc_ok [OF s2 arena1 req(1)] by auto
        then have "\<not> room xs1 ?N" by (rule fl_alloc_None_room)
        moreover have "0 < ?N" using pool_bytes_bounds(2) [of ?sz] req(1) by (simp add: request_ok_def)
        ultimately have "\<not> room xs (?N + 4096)" using inv1(2) by blast
        then show ?thesis by (simp add: top None)
      next
        case (Some as)
        obtain b s3 where b: "pool_alloc ?sz ?al s2 = Some (b, s3)" using Some by (cases as) auto
        define s5 where "s5 = wr (c + 12) (slb_head s3) (wr (c + 8) b s3)\<lparr>slb_head := c\<rparr>"
        from slb_new_cache [OF inv1(1) req(1,2) \<open>c \<noteq> 0\<close> cblk s2_def b s5_def]
        obtain n o1 os ys where new: "b \<noteq> 0" "fl_alloc (pool_bytes ?sz) xs1 = Some (b, ys)"
          "slb_inv s5 ys ([] @ (c, ?al, ?sz, [] @ (b, n, o1 # os) # []) # cs1)"
          "foot ys \<union> foot (chunks ([] @ (c, ?al, ?sz, [] @ (b, n, o1 # os) # []) # cs1))
            \<subseteq> foot xs1 \<union> foot (chunks cs1) \<union> span c 16"
          "same_outside (foot xs1 \<union> foot (chunks cs1) \<union> span c 16) (mem s1) (mem s5)"
          unfolding append_Nil by blast
        let ?cs5 = "[] @ (c, ?al, ?sz, [] @ (b, n, o1 # os) # []) # cs1"
        have eq: "slb_alloc_align k a s = slb_alloc_align ?sz ?al s5"
          using new(1) by (simp add: top b s5_def wr_def)
        have find: "slb_find (mem s5) ?sz ?al (slb_head s5) = Some c"
          using new(3) by (subst slb_find.simps) (auto simp: slb_inv_def)
        have head: "pool_head (mem s5) c = b" "obj_head (mem s5) b = o1" "o1 \<noteq> 0"
          using new(3) by (auto simp: slb_inv_def)
        have free: "pool_find_free (mem s5) b = Some b"
          using head by (subst pool_find_free.simps) simp
        obtain s' where s': "pool_pop b s5 = (o1, s')" "slb_gives 0 s5 ys ?cs5 ?sz ?al o1 s'"
          using slb_pop_ok [OF new(3)] by auto
        have "slb_alloc_align ?sz ?al s5 = Some (o1, s')"
          by (subst slb_alloc_align_unfold)
            (simp add: req(3,4) find \<open>c \<noteq> 0\<close> slb_alloc_hit_def head free new(1) s'(1))
        moreover have "slb_gives (0 + (?N + 4096)) s xs cs ?sz ?al o1 s'"
        proof (rule slb_gives_trans [OF s'(2)])
          have "same_outside (foot xs \<union> foot (chunks cs)) (mem s1) (mem s5)"
            using inv1(3,4) by (intro same_outside_mono [OF new(5)]) blast
          then show "same_outside (foot xs \<union> foot (chunks cs)) (mem s) (mem s5)"
            using inv1(5) same_outside_trans by blast
          show "foot ys \<union> foot (chunks ?cs5) \<subseteq> foot xs \<union> foot (chunks cs)"
            using new(4) inv1(3,4) by blast
          show "room ys t" if "0 < t" "room xs (t + (?N + 4096))" for t
          proof (rule fl_alloc_room [OF new(2) _ that(1)])
            show "room xs1 (t + ?N)" using inv1(2) that by (simp add: add.assoc)
          qed
        qed
        ultimately show ?thesis using eq by auto
      qed
    qed
  qed
qed

section \<open>Release\<close>

lemma slb_free_align_exact:
  assumes "slb_inv s xs cs" and "al \<noteq> 0 \<or> 4 < unat sz"
    and "span p (unat sz) \<subseteq> arena" and "aligned al p" and "4 \<le> unat sz"
    and "span p (unat sz) \<inter> (foot xs \<union> foot (chunks cs)) = {}"
  shows "\<exists>s'. slb_free_align p sz al s = Some (if block_pool p sz al cs = None then 1 else 0, s')
    \<and> slb_inv s' xs (block_back p sz al cs)
    \<and> same_outside (foot (chunks cs) \<union> span p (unat sz)) (mem s) (mem s')
    \<and> (case block_pool p sz al cs of
        None \<Rightarrow> s' = s \<and> block_back p sz al cs = cs
      | Some a \<Rightarrow> cnt_inuse (mem s') a = cnt_inuse (mem s) a - 1
          \<and> foot (chunks (block_back p sz al cs)) = foot (chunks cs) \<union> span p (unat sz))"
proof -
  have inv: "pages_inv s xs" "slb_seg (mem s) (slb_head s) cs 0" "blocks_disj (chunks cs)"
    "foot (chunks cs) \<inter> foot xs = {}" "foot xs \<union> foot (chunks cs) \<subseteq> arena" "list_all cache_ok cs"
    "\<exists>c ps. (c, 4, 16, ps) \<in> set cs"
    using assms(1) unfolding slb_inv_def by blast+
  have al: "(if al = 0 \<and> sz \<le> 4 then sz else al) = al"
    using assms(2,5) by (auto simp: word_le_nat_alt)
  have fail: ?thesis if "slb_free_align p sz al s = Some (1, s)" "block_pool p sz al cs = None \<and> block_back p sz al cs = cs"
    using that assms(1) by simp
  show ?thesis
    using slb_find_seg [OF inv(2), of al sz]
  proof (elim disjE exE conjE)
    assume "slb_find (mem s) sz al (slb_head s) = Some 0" "\<forall>c ps. (c, al, sz, ps) \<notin> set cs"
    then show ?thesis by (intro fail block_pool_none) (simp_all add: slb_free_align_def al Let_def)
  next
    fix cs1 c ps cs2
    assume cs: "cs = cs1 @ (c, al, sz, ps) # cs2" and find: "slb_find (mem s) sz al (slb_head s) = Some c"
      and first: "\<forall>c ps. (c, al, sz, ps) \<notin> set cs1"
    have "c \<noteq> 0" and pools: "pool_seg (mem s) (pool_head (mem s) c) ps 0" using inv(2) by (auto simp: cs)
    from pool_find_seg [OF pools, of p] show ?thesis
    proof (elim disjE exE conjE)
      assume "pool_find (mem s) p (pool_head (mem s) c) = Some 0" "pool_of p ps = None"
      then show ?thesis using \<open>c \<noteq> 0\<close>
        by (intro fail) (simp_all add: slb_free_align_def al Let_def find cs block_pool_first [OF first] pool_back_none)
    next
      fix ps1 a n os ps2
      assume ps: "ps = ps1 @ (a, n, os) # ps2" and pf: "pool_find (mem s) p (pool_head (mem s) c) = Some a"
        and "in_pool a n p" and po: "pool_of p ps = Some a" "pool_back p ps = ps1 @ (a, n, p # os) # ps2"
      have "a \<noteq> 0" using pools by (auto simp: ps)
      let ?cs = "cs1 @ (c, al, sz, ps1 @ (a, n, os) # ps2) # cs2"
      let ?cs' = "cs1 @ (c, al, sz, ps1 @ (a, n, p # os) # ps2) # cs2"
      have bp: "block_pool p sz al cs = Some a" "block_back p sz al cs = ?cs'"
        by (simp_all add: cs block_pool_first [OF first] po)
      have cs: "cs = ?cs" by (simp add: cs ps)
      define s1 where "s1 = wr (a + 8) p (wr p (obj_head (mem s) a) s)"
      define s' where "s' = wr a (cnt_inuse (mem s1) a - 1) s1"
      have "p \<in> arena" using assms(3,5) by auto
      then have "p \<noteq> 0" by (auto simp: arena_def)
      have m': "mem s' = st32 (st32 (st32 (mem s) p (obj_head (mem s) a)) (a + 8) p) a (cnt_inuse (mem s1) a - 1)"
        by (simp add: s'_def s1_def)
      have "span p (unat sz) \<inter> foot (chunks ?cs) = {}" using assms(6) by (auto simp: cs)
      note push = slb_push [OF inv(2,3,6) [unfolded cs] this \<open>p \<noteq> 0\<close> m']
      have frame: "same_outside (foot (chunks cs) \<union> span p (unat sz)) (mem s) (mem s')"
        by (rule same_outside_mono [OF push(2)]) (auto simp: cs)
      have feet: "foot (chunks ?cs') = foot (chunks cs) \<union> span p (unat sz)" by (auto simp: cs)
      have "(foot (chunks cs) \<union> span p (unat sz)) \<inter> foot xs = {}" using inv(4) assms(6) by blast
      then have "pages_inv s' xs"
        by (intro slb_inv_same_pages [OF inv(1) frame]) (auto simp: s'_def s1_def wr_def)
      moreover have "slb_head s' = slb_head s" by (simp add: s'_def s1_def wr_def)
      moreover have "blocks_disj (chunks ?cs')" using inv(3) assms(6) by (auto simp: cs)
      moreover have "list_all cache_ok ?cs'" using inv(6) assms(4) \<open>in_pool a n p\<close> by (auto simp: cs cache_ok_def)
      moreover have "\<exists>c ps. (c, 4, 16, ps) \<in> set ?cs'" using inv(7) by (auto simp: cs)
      moreover have "foot (chunks ?cs') \<inter> foot xs = {}" "foot xs \<union> foot (chunks ?cs') \<subseteq> arena"
        unfolding feet using inv(4,5) assms(3,6) by blast+
      ultimately have "slb_inv s' xs ?cs'" using push(1) unfolding slb_inv_def by simp
      moreover have "slb_free_align p sz al s = Some (0, s')"
        using \<open>c \<noteq> 0\<close> \<open>a \<noteq> 0\<close> by (simp add: slb_free_align_def al Let_def find pf s1_def s'_def)
      moreover have "cnt_inuse (mem s') a = cnt_inuse (mem s) a - 1"
      proof -
        have "span a 16 \<inter> span p (unat sz) = {}" using assms(6) by (auto simp: cs)
        then have "span a 4 \<inter> span p 4 = {}"
          using header_sub(1) [of a] span_mono [OF assms(5), of p] by blast
        then have "cnt_inuse (mem s1) a = cnt_inuse (mem s) a"
          by (simp add: s1_def cnt_inuse_def ld32_st32_disj ld32_st32_far)
        then show ?thesis by (simp add: s'_def cnt_inuse_def)
      qed
      ultimately show ?thesis using frame feet bp by simp
    qed
  qed
qed


text \<open>No cache has alignment 0, so a request to free with that alignment finds none.\<close>

lemma slb_free_align_0:
  assumes "slb_inv s xs cs" and "4 < unat sz"
  shows "slb_free_align p sz 0 s = Some (1, s)"
proof -
  have inv: "slb_seg (mem s) (slb_head s) cs 0" "list_all cache_ok cs"
    using assms(1) by (simp_all add: slb_inv_def)
  have "(c, 0, sz, ps) \<notin> set cs" for c ps using inv(2) by (auto simp: list_all_iff cache_ok_def)
  then have "slb_find (mem s) sz 0 (slb_head s) = Some 0"
    using slb_find_seg [OF inv(1), of 0 sz] by (metis in_set_conv_decomp)
  moreover have "\<not> sz \<le> 4" using assms(2) by (simp add: word_le_nat_alt)
  ultimately show ?thesis by (simp add: slb_free_align_def)
qed


section \<open>Initialisation\<close>

lemma mult_16_and_3: "16 dvd unat (i :: u32) \<Longrightarrow> i AND 3 = 0"
  by (rule and_small_16) simp_all

text \<open>In the first pool every object is aligned to 4, though no alignment is asked for.\<close>

lemma pool_segm_loop_16:
  fixes s :: "'a slb_state_scheme"
  assumes "unat pool + unat psize \<le> 2684354560"
  shows "16 dvd unat i \<Longrightarrow> unat i \<le> 2684354576 \<Longrightarrow>
    pool_segm_loop pool psize 16 0 i s = pool_segm_loop pool psize 16 4 i s"
proof (induction "2684354576 - unat i" arbitrary: i s rule: less_induct)
  case less
  have up: "unat (pool + psize) = unat pool + unat psize" using assms by (intro unat_area_end) simp
  have ui: "unat (i + 16) = unat i + 16" using less.prems(2) by (subst unat_area_end) auto
  show ?case
  proof (cases "i + 16 \<le> pool + psize")
    case False
    then show ?thesis by (subst (1 2) pool_segm_loop.simps) simp
  next
    case True
    then have "unat i + 16 \<le> 2684354560" using up ui assms by (simp add: word_le_nat_alt)
    then have IH: "pool_segm_loop pool psize 16 0 (i + 16) s = pool_segm_loop pool psize 16 4 (i + 16) s"
      for s :: "'a slb_state_scheme"
      using less.hyps [of "i + 16" s] less.prems(1) by (simp add: ui)
    have "i AND 3 = 0" using less.prems(1) by (rule mult_16_and_3)
    then show ?thesis
      using True IH by (subst (1 2) pool_segm_loop.simps) (simp add: MAX_u32_def)
  qed
qed

lemma pool_segm_16:
  fixes s :: "'a slb_state_scheme"
  assumes "unat pool + unat psize \<le> 2684354560" and "4096 dvd unat pool"
  shows "pool_segm pool psize 16 0 s = pool_segm pool psize 16 4 s"
proof -
  have "unat (pool + 16) = unat pool + 16" using assms(1) by (subst unat_area_end) auto
  moreover have "16 dvd unat pool + 16" using assms(2) by (auto intro: dvd_add dvd_trans [of 16 4096])
  ultimately have i: "16 dvd unat (pool + 16)" "unat (pool + 16) \<le> 2684354576"
    using assms(1) by simp_all
  have "pool_segm_loop pool psize 16 0 (pool + 16) s = pool_segm_loop pool psize 16 4 (pool + 16) s"
    for s :: "'a slb_state_scheme"
    by (rule pool_segm_loop_16 [OF assms(1) i])
  with mult_16_and_3 [OF i(1)] show ?thesis by (simp add: pool_segm_def Let_def)
qed

lemma pool_alloc_16:
  assumes "pages_inv s xs" and "foot xs \<subseteq> arena"
  shows "pool_alloc 16 0 s = pool_alloc 16 4 s"
proof (cases "fl_alloc (pool_bytes 16) xs")
  case None
  have "request_ok 16 0" "request_ok 16 4" by (simp_all add: request_ok_def)
  then show ?thesis using None pool_alloc_ok [OF assms] by (metis option.distinct(1))
next
  case (Some ay)
  obtain a ys where ay: "fl_alloc (pool_bytes 16) xs = Some (a, ys)" using Some by (cases ay) auto
  have wf: "fa_wf 1 (unat KERNEL_BASE) xs" using assms(1) by (simp add: pages_inv_def)
  note ft = fl_alloc_foot [OF ay wf]
  have a: "unat a + unat (pool_bytes 16) \<le> 2684354560" "a \<noteq> 0" "4096 dvd unat a"
    using arena_bounds [of a "pool_bytes 16"] ft assms(2) by (auto simp: pool_bytes_16)
  have "4096 dvd unat (pool_bytes 16)" "pool_bytes 16 \<noteq> 0"
    by (auto simp: pool_bytes_16 simp flip: unat_eq_0)
  then obtain s1 where "pages_alloc (pool_bytes 16) s = Some (V2P a, s1)"
    using pages_alloc_ok [OF assms(1) _ _ ay] by blast
  from pool_pages_eq [OF this a(2)] show ?thesis
    by (simp add: pool_alloc_def pool_segm_16 [OF a(1,3)])
qed

lemma slb_init_ok:
  assumes "pages_inv s xs" and "foot xs \<subseteq> arena" and "fl_alloc 4096 xs = Some (a, ys)"
  shows "\<exists>s' c os. slb_init s = Some (0, s') \<and> slb_inv s' ys [(c, 4, 16, [(a, 4096, os)])]
    \<and> foot (chunks [(c, 4, 16, [(a, 4096, os)])]) \<subseteq> span a 4096 \<and> same_outside (foot xs) (mem s) (mem s')"
proof -
  let ?s0 = "s\<lparr>slb_head := 0\<rparr>"
  have pb: "pool_bytes 16 = 4096" by (intro u32_eqI) (simp add: pool_bytes_16)
  have s0: "pages_inv ?s0 xs" using assms(1) by (simp add: pages_inv_def)
  have "request_ok 16 4" by (simp add: request_ok_def)
  from pool_alloc_ok [OF s0 assms(2) this] assms(3) obtain s1 os where
    new: "pool_alloc 16 4 ?s0 = Some (a, s1)" "pages_inv s1 ys" "foot ys = foot xs - span a 4096"
      "span a 4096 \<subseteq> foot xs" "a \<noteq> 0" "unat a + 4096 < 2 ^ 32" "pool_at (mem s1) a 4096 os"
      "objs_ok 16 4 (unat a + 16) (unat a + 4096) os" "os \<noteq> []" "same_outside (foot xs) (mem s) (mem s1)"
    by (auto simp: pb)
  have alloc: "pool_alloc 16 0 ?s0 = Some (a, s1)" using new(1) pool_alloc_16 [OF s0 assms(2)] by simp
  obtain c os' where os: "os = c # os'" using new(9) by (cases os) auto
  have nc: "foot ((a, 16) # obj_chunks 16 os) \<subseteq> span a 4096" "span a 16 \<inter> foot (obj_chunks 16 os) = {}"
    "blocks_disj (obj_chunks 16 os)"
    using new_pool_chunks [of 16 4 a 4096 os] new(6,8) by simp_all
  have disj: "span a 16 \<inter> span c 16 = {}" "span c 16 \<inter> span a 16 = {}" "span c 16 \<inter> foot (obj_chunks 16 os') = {}"
    "span a 16 \<inter> foot (obj_chunks 16 os') = {}"
    using nc by (auto simp: os)
  have at: "pool_size (mem s1) a = 4096" "next_pool (mem s1) a = 0" "obj_head (mem s1) a = c"
    "obj_list (mem s1) (next_obj (mem s1) c) os'" "c \<noteq> 0"
    using new(7) by (auto simp: pool_at_def os)
  define s' where "s' = wr (c + 12) 0 (wr (c + 8) a (wr (c + 4) 16 (wr c 4
    (wr (a + 8) (next_obj (mem s1) c) (s1\<lparr>slb_head := c\<rparr>)))))"
  have init: "slb_init s = Some (0, s')"
    by (simp add: slb_init_def alloc new(5) Let_def at(3) s'_def int_min_def int_max_def sizeof_slb_t_def
        sizeof_slb_obj_t_def word_sless_alt)
  let ?A = "span a 16 \<union> span c 16"
  have same: "same_outside ?A (mem s1) (mem s')"
    using header_sub [of a] header_sub [of c] by (auto simp: s'_def intro!: same_outside_st32_trans)
  note far = ld32_st32_structs [OF disj(1)] ld32_st32_structs [OF disj(2)]
  have "obj_list (mem s') (next_obj (mem s1) c) os'"
    using at(4) disj(3,4) by (subst obj_list_frame [OF same]) auto
  then have seg: "slb_seg (mem s') (slb_head s') [(c, 4, 16, [(a, 4096, os')])] 0"
    using at by (simp add: s'_def wr_def obj_align_def obj_size_def pool_head_def next_slb_def pool_size_def
        next_pool_def obj_head_def far new(5))
  have sub: "foot (chunks [(c, 4, 16, [(a, 4096, os')])]) \<subseteq> span a 4096" using nc(1) by (auto simp: os)
  have "pages_inv s' ys"
    using sub new(3) by (intro slb_inv_same_pages [OF new(2) same]) (auto simp: s'_def wr_def)
  moreover have "blocks_disj (chunks [(c, 4, 16, [(a, 4096, os')])])" using nc(3) disj by (auto simp: os)
  moreover have "list_all cache_ok [(c, 4, 16, [(a, 4096, os')])]"
    using objs_ok_in_pool [of 16 4 a 4096 os] new(6,8) by (auto simp: cache_ok_def os)
  ultimately have "slb_inv s' ys [(c, 4, 16, [(a, 4096, os')])]"
    using seg sub new(3,4) assms(2) unfolding slb_inv_def by auto
  moreover have "same_outside (foot xs) (mem s) (mem s')"
  proof -
    have "?A \<subseteq> foot xs" using sub new(4) by auto
    then show ?thesis using same_outside_trans [OF new(10) same_outside_mono [OF same]] by blast
  qed
  ultimately show ?thesis using init sub by blast
qed

section \<open>What the object caches may change\<close>

text \<open>The memory, the console and the two list heads; nothing a larger state adds.\<close>

definition slb_only :: "'a slb_state_scheme \<Rightarrow> 'a slb_state_scheme \<Rightarrow> bool" where
  "slb_only s s' \<longleftrightarrow> s'\<lparr>mem := \<lambda>_. 0, con := [], farea_head := 0, slb_head := 0\<rparr>
     = s\<lparr>mem := \<lambda>_. 0, con := [], farea_head := 0, slb_head := 0\<rparr>"

lemma slb_only_refl [simp, frame_intro]: "slb_only s s"
  by (simp add: slb_only_def)

lemma slb_only_trans [trans]: "slb_only s s' \<Longrightarrow> slb_only s' s'' \<Longrightarrow> slb_only s s''"
  by (simp add: slb_only_def)

lemma slb_only_step [simp]:
  "slb_only s (wr a v s') \<longleftrightarrow> slb_only s s'"
  "slb_only (wr a v s) s' \<longleftrightarrow> slb_only s s'"
  "slb_only s (s'\<lparr>slb_head := f\<rparr>) \<longleftrightarrow> slb_only s s'"
  "slb_only (s\<lparr>slb_head := f\<rparr>) s' \<longleftrightarrow> slb_only s s'"
  by (simp_all add: slb_only_def wr_def)

lemma pages_slb_only:
  assumes "pages_only s s'"
  shows "slb_only s s'"
proof -
  have "(s'\<lparr>mem := \<lambda>_. 0, con := [], farea_head := 0\<rparr>)\<lparr>slb_head := 0\<rparr>
      = (s\<lparr>mem := \<lambda>_. 0, con := [], farea_head := 0\<rparr>)\<lparr>slb_head := 0\<rparr>"
    using assms by (simp add: pages_only_def)
  then show ?thesis by (simp add: slb_only_def)
qed

lemma pool_segm_loop_only:
  assumes "pool_segm_loop pool psize osize align i s = Some s'"
  shows "slb_only s s'"
proof (rule pool_segm_loop.raw_induct
    [where P = "\<lambda>pool psize osize align i s s'. slb_only s s'", OF _ assms])
  fix f :: "u32 \<Rightarrow> u32 \<Rightarrow> u32 \<Rightarrow> u32 \<Rightarrow> u32 \<Rightarrow> 'a slb_state_scheme \<Rightarrow> 'a slb_state_scheme option"
    and pool psize osize align i s s'
  assume IH: "\<And>pool psize osize align i s s'. f pool psize osize align i s = Some s' \<Longrightarrow> slb_only s s'"
    and eq: "(if i + osize \<le> pool + psize
      then let s' = (if align = 0 \<or> i AND (align - 1) = 0
                     then wr (pool + 8) i (wr i (obj_head (mem s) pool) s)
                     else s)
           in f pool psize osize align (i + MAX_u32 osize align) s'
      else Some s) = Some s'"
  define s1 where "s1 = (if align = 0 \<or> i AND (align - 1) = 0
    then wr (pool + 8) i (wr i (obj_head (mem s) pool) s) else s)"
  have "slb_only s s1" by (simp add: s1_def)
  moreover have "s' = s \<or> f pool psize osize align (i + MAX_u32 osize align) s1 = Some s'"
    using eq unfolding Let_def s1_def [symmetric] by (cases "i + osize \<le> pool + psize") (simp_all only: if_True if_False option.inject simp_thms)
  then have "s' = s \<or> slb_only s1 s'" using IH by blast
  ultimately show "slb_only s s'" using slb_only_trans slb_only_refl by blast
qed

lemma pool_pages_only:
  assumes "pool_pages psize s = Some (a, n, s')"
  shows "slb_only s s'"
proof -
  have "slb_only s (snd (snd (a, n, s')))"
  proof (rule pool_pages.raw_induct [where P = "\<lambda>psize s r. slb_only s (snd (snd r))", OF _ assms])
    fix f :: "u32 \<Rightarrow> 'a slb_state_scheme \<Rightarrow> (u32 \<times> u32 \<times> 'a slb_state_scheme) option" and psize s r
    assume IH: "\<And>psize s r. f psize s = Some r \<Longrightarrow> slb_only s (snd (snd r))"
      and eq: "pages_alloc psize s \<bind> (\<lambda>(p, s). if P2V p = 0 \<and> 0 < psize then f (psize - 0x1000) s
        else Some (P2V p, psize, s)) = Some r"
    then obtain p s1 where p: "pages_alloc psize s = Some (p, s1)" by (auto simp: bind_eq_Some_conv)
    then have "slb_only s s1" using pages_alloc_only pages_slb_only by blast
    moreover have "slb_only s1 (snd (snd r))" using eq p IH by (auto split: if_splits)
    ultimately show "slb_only s (snd (snd r))" by (rule slb_only_trans)
  qed
  then show ?thesis by simp
qed

lemma pool_segm_only: "pool_segm pool psize osize align s = Some (a, s') \<Longrightarrow> slb_only s s'"
  by (auto simp: pool_segm_def Let_def bind_eq_Some_conv split: if_splits dest!: pool_segm_loop_only)

lemma pool_alloc_only:
  assumes "pool_alloc osize align s = Some (a, s')"
  shows "slb_only s s'"
proof -
  obtain pool psize s1 segm s2 where
    p: "pool_pages (pool_bytes osize) s = Some (pool, psize, s1)" "pool_segm pool psize osize align s1 = Some (segm, s2)"
      "s' = s2 \<or> (\<exists>r. pages_free pool (pool + psize) s2 = Some (r, s'))"
    using assms by (auto simp: pool_alloc_def bind_eq_Some_conv split: if_splits)
  have "slb_only s2 s'" using p(3) pages_free_only pages_slb_only by fastforce
  with pool_pages_only [OF p(1)] pool_segm_only [OF p(2)] show ?thesis using slb_only_trans by blast
qed

lemma pool_pop_only: "pool_pop a s = (b, s') \<Longrightarrow> slb_only s s'"
  using pool_pop_simps pages_slb_only by blast

lemma slb_free_align_only: "slb_free_align p sz al s = Some (r, s') \<Longrightarrow> slb_only s s'"
  by (auto simp: slb_free_align_def Let_def bind_eq_Some_conv split: if_splits)

lemma slb_alloc_hit_only:
  assumes "slb_alloc_hit c osize align s = Some (p, s')"
  shows "slb_only s s'"
proof -
  consider a where "pool_pop a s = (p, s')"
    | a s1 where "pool_alloc osize align s = Some (a, s1)" "s' = s1"
    | a s1 where "pool_alloc osize align s = Some (a, s1)"
      "pool_pop a (wr (c + 8) a (wr (a + 12) (pool_head (mem s1) c) s1)) = (p, s')"
    using assms by (auto simp: slb_alloc_hit_def bind_eq_Some_conv Let_def split: if_splits)
  then show ?thesis
  proof cases
    case 1
    then show ?thesis by (rule pool_pop_only)
  next
    case 2
    then show ?thesis using pool_alloc_only by blast
  next
    case 3
    have "slb_only s (wr (c + 8) a (wr (a + 12) (pool_head (mem s1) c) s1))"
      using pool_alloc_only [OF 3(1)] by simp
    then show ?thesis using pool_pop_only [OF 3(2)] slb_only_trans by blast
  qed
qed

text \<open>One unfolding of \<open>slb_alloc_align\<close>, with its recursive calls abstracted to \<open>f\<close>.\<close>

definition slb_alloc_step ::
    "(u32 \<Rightarrow> u32 \<Rightarrow> 'a slb_state_scheme \<Rightarrow> (u32 \<times> 'a slb_state_scheme) option) \<Rightarrow>
     u32 \<Rightarrow> u32 \<Rightarrow> 'a slb_state_scheme \<Rightarrow> (u32 \<times> 'a slb_state_scheme) option" where
  "slb_alloc_step f osize0 align0 s = (
     let align = (if align0 = 0 then int_min osize0 4 else align0);
         osize = int_max osize0 sizeof_slb_obj_t
     in do {
     iter_slb \<leftarrow> slb_find (mem s) osize align (slb_head s);
     if iter_slb \<noteq> 0 then slb_alloc_hit iter_slb osize align s
     else do {
       (iter_slb, s) \<leftarrow> f sizeof_slb_t 0 s;
       if iter_slb = 0 then Some (0, s)
       else do {
         (pool, s) \<leftarrow> pool_alloc osize align (wr (iter_slb + 4) osize (wr iter_slb align s));
         let s = wr (iter_slb + 8) pool s;
         if pool = 0 then do {
           (_, s) \<leftarrow> slb_free iter_slb sizeof_slb_t s;
           Some (0, s)
         }
         else f osize align
           (wr (iter_slb + 12) (slb_head s) s\<lparr>slb_head := iter_slb\<rparr>)
       }
     }
   })"

lemma slb_alloc_step_only:
  assumes "\<And>k a s p s'. f k a s = Some (p, s') \<Longrightarrow> slb_only s s'"
    and "slb_alloc_step f k a s = Some (p, s')"
  shows "slb_only s s'"
proof -
  let ?al = "if a = 0 then int_min k 4 else a" and ?sz = "int_max k sizeof_slb_obj_t"
  consider c where "slb_alloc_hit c ?sz ?al s = Some (p, s')"
    | s1 where "f sizeof_slb_t 0 s = Some (0, s1)" "s' = s1"
    | c s1 s2 r where "f sizeof_slb_t 0 s = Some (c, s1)"
      "pool_alloc ?sz ?al (wr (c + 4) ?sz (wr c ?al s1)) = Some (0, s2)"
      "slb_free c sizeof_slb_t (wr (c + 8) 0 s2) = Some (r, s')"
    | c s1 b s2 where "f sizeof_slb_t 0 s = Some (c, s1)"
      "pool_alloc ?sz ?al (wr (c + 4) ?sz (wr c ?al s1)) = Some (b, s2)"
      "f ?sz ?al (wr (c + 12) (slb_head (wr (c + 8) b s2)) (wr (c + 8) b s2)\<lparr>slb_head := c\<rparr>) = Some (p, s')"
    using assms(2) unfolding slb_alloc_step_def Let_def
    by (auto simp: bind_eq_Some_conv split: if_splits)
  then show ?thesis
  proof cases
    case 1
    then show ?thesis by (rule slb_alloc_hit_only)
  next
    case 2
    then show ?thesis using assms(1) by blast
  next
    case 3
    then show ?thesis
      using assms(1) [OF 3(1)] pool_alloc_only [OF 3(2)] slb_free_align_only [OF 3(3) [unfolded slb_free_def]]
      by (auto intro: slb_only_trans)
  next
    case 4
    then show ?thesis
      using assms(1) [OF 4(1)] pool_alloc_only [OF 4(2)] assms(1) [OF 4(3)]
      by (auto intro: slb_only_trans)
  qed
qed

lemma slb_alloc_align_only:
  assumes "slb_alloc_align k a s = Some (p, s')"
  shows "slb_only s s'"
proof -
  have "slb_only s (snd (p, s'))"
  proof (rule slb_alloc_align.raw_induct [where P = "\<lambda>k a s r. slb_only s (snd r)", OF _ assms])
    fix f :: "u32 \<Rightarrow> u32 \<Rightarrow> 'a slb_state_scheme \<Rightarrow> (u32 \<times> 'a slb_state_scheme) option" and k a s r
    assume IH: "\<And>k a s r. f k a s = Some r \<Longrightarrow> slb_only s (snd r)"
      and eq: "(let align = (if a = 0 then int_min k 4 else a);
         osize = int_max k sizeof_slb_obj_t
     in do {
     iter_slb \<leftarrow> slb_find (mem s) osize align (slb_head s);
     if iter_slb \<noteq> 0 then slb_alloc_hit iter_slb osize align s
     else do {
       (iter_slb, s) \<leftarrow> f sizeof_slb_t 0 s;
       if iter_slb = 0 then Some (0, s)
       else do {
         (pool, s) \<leftarrow> pool_alloc osize align (wr (iter_slb + 4) osize (wr iter_slb align s));
         let s = wr (iter_slb + 8) pool s;
         if pool = 0 then do {
           (_, s) \<leftarrow> slb_free iter_slb sizeof_slb_t s;
           Some (0, s)
         }
         else f osize align
           (wr (iter_slb + 12) (slb_head s) s\<lparr>slb_head := iter_slb\<rparr>)
       }
     }
   }) = Some r"
    obtain q t where r: "r = (q, t)" by force
    show "slb_only s (snd r)"
      using slb_alloc_step_only [of f k a s q t] IH eq unfolding r slb_alloc_step_def by (metis snd_conv)
  qed
  then show ?thesis by simp
qed

section \<open>The contract of the object caches\<close>





definition slb_size_ok :: "u32 \<Rightarrow> bool" where
  "slb_size_ok k \<longleftrightarrow> 1 \<le> unat k \<and> unat k \<le> 16777216"



lemma slb_sz_ge: "slb_size_ok k \<Longrightarrow> unat (slb_sz k) = max (unat k) 4"
  using int_min_max_small [of k] by (simp add: slb_sz_def sizeof_slb_obj_t_def slb_size_ok_def)

lemma slb_head_poke [simp]: "slb_head (poke x v s) = slb_head s"
  by (simp add: poke_def)




section \<open>Properties\<close>

text \<open>The boot sequence up to the object caches.\<close>

definition mm_boot :: "memory \<Rightarrow> slb_state option" where
  "mm_boot m = do {
     (_, s) \<leftarrow> init_pspace \<lparr>mem = m, con = [], io = [], farea_head = 0, slb_head = 0\<rparr>;
     (_, s) \<leftarrow> slb_init s;
     Some s
   }"

lemma mm_boot_ok:
  "\<exists>s c os. mm_boot m = Some s \<and> slb_inv s [(0x80801000, 0x1e7ff000)] [(c, 4, 16, [(0x80800000, 4096, os)])]"
proof -
  let ?s = "\<lparr>mem = m, con = [], io = [], farea_head = 0, slb_head = 0\<rparr> :: slb_state"
  obtain s where s: "init_pspace ?s = Some (0, s)" "pages_inv s [(0x80800000, 0x1e800000)]"
    using init_pspace_free [of ?s] by blast
  have "foot [(0x80800000, 0x1e800000)] \<subseteq> arena" by (auto simp: arena_def span_nowrap)
  from slb_init_ok [OF s(2) this, of "0x80800000" "[(0x80801000, 0x1e7ff000)]"] s(1)
  obtain s' c os where "slb_init s = Some (0, s')"
    "slb_inv s' [(0x80801000, 0x1e7ff000)] [(c, 4, 16, [(0x80800000, 4096, os)])]" by auto
  then have "mm_boot m = Some s'" using s(1) by (simp add: mm_boot_def)
  then show ?thesis using \<open>slb_inv s' _ _\<close> by blast
qed

lemma mm_booted:
  obtains s c os where "mm_boot (\<lambda>_. 0) = Some s"
    and "slb_inv s [(0x80801000, 0x1e7ff000)] [(c, 4, 16, [(0x80800000, 4096, os)])]"
  using mm_boot_ok [of "\<lambda>_. 0"] by blast

lemma slb_gives_block:
  assumes "slb_gives d s xs cs sz al p s'" and "foot xs \<union> foot (chunks cs) \<subseteq> arena"
  obtains xs' cs' where "slb_inv s' xs' cs'" and "aligned al p" and "span p (unat sz) \<subseteq> arena"
    and "span p (unat sz) \<inter> (foot xs' \<union> foot (chunks cs')) = {}" and "block_pool p sz al cs' \<noteq> None"
  using assms unfolding slb_gives_def by blast

lemma alloc_8:
  obtains s p s' xs' cs' where "mm_boot (\<lambda>_. 0) = Some s" and "slb_alloc 8 s = Some (p, s')"
    and "slb_inv s' xs' cs'" and "span p 8 \<subseteq> arena" and "aligned 4 p"
    and "span p 8 \<inter> (foot xs' \<union> foot (chunks cs')) = {}" and "block_pool p 8 4 cs' \<noteq> None"
proof -
  obtain s c os where s: "mm_boot (\<lambda>_. 0) = Some s"
    "slb_inv s [(0x80801000, 0x1e7ff000)] [(c, 4, 16, [(0x80800000, 4096, os)])]" by (rule mm_booted)
  have req: "slb_request 8 0" by (simp add: slb_request_def)
  have sz: "slb_sz 8 = 8" "slb_al 8 0 = 4"
    by (simp_all add: slb_sz_def slb_al_def sizeof_slb_obj_t_def int_max_def int_min_def word_sless_alt)
  then have "room [(0x80801000, 0x1e7ff000)] (unat (pool_bytes (slb_sz 8)) + 4096)"
    by (simp add: room_def pool_bytes_def Let_def sizeof_slb_pool_t_def)
  then obtain p s' where p: "slb_alloc 8 s = Some (p, s')"
    "slb_gives (unat (pool_bytes 8) + 4096) s [(0x80801000, 0x1e7ff000)]
       [(c, 4, 16, [(0x80800000, 4096, os)])] 8 4 p s'"
    using slb_alloc_align_ok [OF s(2) req] by (auto simp: slb_alloc_def sz)
  have "foot [(0x80801000, 0x1e7ff000)] \<union> foot (chunks [(c, 4, 16, [(0x80800000, 4096, os)])]) \<subseteq> arena"
    using s(2) by (simp add: slb_inv_def)
  from slb_gives_block [OF p(2) this] obtain xs' cs' where "slb_inv s' xs' cs'" "aligned 4 p"
    "span p (unat (8 :: u32)) \<subseteq> arena" "span p (unat (8 :: u32)) \<inter> (foot xs' \<union> foot (chunks cs')) = {}"
    "block_pool p 8 4 cs' \<noteq> None" .
  then show thesis using that [OF s(1) p(1)] by simp
qed

text \<open>
  C10. \<open>slb_alloc_align\<close>, for any size up to 16 MB: it returns an aligned block of at least the
  requested size, taken out of the free memory or the free objects; the allocator's structures
  stay well-formed and no longer contain the block, and nothing outside the allocator's memory
  has changed. It fails to return only when no free area holds the pool and one page more.
\<close>

theorem slb_alloc_align_correct:
  assumes "slb_inv s xs cs" and "slb_request k a"
  shows "case slb_alloc_align k a s of
      None \<Rightarrow> \<not> room xs (unat (pool_bytes (slb_sz k)) + 4096)
    | Some (p, s') \<Rightarrow> aligned (slb_al k a) p \<and> k \<le> slb_sz k
        \<and> span p (unat (slb_sz k)) \<subseteq> foot xs \<union> foot (chunks cs)
        \<and> same_outside (foot xs \<union> foot (chunks cs)) (mem s) (mem s')
        \<and> (\<exists>xs' cs'. slb_inv s' xs' cs'
            \<and> foot xs' \<union> foot (chunks cs') \<subseteq> (foot xs \<union> foot (chunks cs)) - span p (unat (slb_sz k)))"
proof -
  have "k \<le> slb_sz k"
    using slb_sz_ge [of k] assms(2) by (simp add: slb_request_def slb_size_ok_def word_le_nat_alt)
  then show ?thesis
  proof (cases "slb_alloc_align k a s")
    case None
    then show ?thesis using slb_alloc_align_ok [OF assms] by simp
  next
    case (Some ps)
    obtain p s' where p: "ps = (p, s')" by force
    have "slb_gives (unat (pool_bytes (slb_sz k)) + 4096) s xs cs (slb_sz k) (slb_al k a) p s'"
      using slb_alloc_align_ok [OF assms] Some p by auto
    then show ?thesis using \<open>k \<le> slb_sz k\<close> unfolding slb_gives_def Some p by (simp, blast)
  qed
qed

theorem slb_alloc_align_correct_witness:
  "\<exists>s s' p. mm_boot (\<lambda>_. 0) = Some s \<and> slb_alloc_align 0x400 0x400 s = Some (p, s') \<and> p AND 0x3FF = 0"
proof -
  obtain s c os where s: "mm_boot (\<lambda>_. 0) = Some s"
    "slb_inv s [(0x80801000, 0x1e7ff000)] [(c, 4, 16, [(0x80800000, 4096, os)])]" by (rule mm_booted)
  have "slb_request 0x400 0x400" by (auto simp: slb_request_def intro: exI [of _ 10])
  note t = slb_alloc_align_correct [OF s(2) this]
  have "slb_sz 0x400 = 0x400" by (simp add: slb_sz_def sizeof_slb_obj_t_def int_max_def word_sless_alt)
  then have "room [(0x80801000, 0x1e7ff000)] (unat (pool_bytes (slb_sz 0x400)) + 4096)"
    by (simp add: room_def pool_bytes_def Let_def sizeof_slb_pool_t_def)
  with t s(1) show ?thesis by (auto simp: aligned_def slb_al_def split: option.splits)
qed

text \<open>
  C19. \<open>slb_free_align\<close>, called with a block that is not free, its size and the alignment of its
  cache. When the first cache of that size and alignment has a pool that contains the block, the
  call returns 0, the block is the first free object of that pool and the pool's count of used
  objects is one less. When there is no such cache or pool, the call returns 1 and the state is
  unchanged. In both cases the structures stay well-formed and no other memory is touched. The
  witness takes 8 bytes after the start of the allocator and gives them back.
\<close>

theorem slb_free_align_correct:
  assumes "slb_inv s xs cs" and "al \<noteq> 0" and "span p (unat sz) \<subseteq> arena" and "aligned al p"
    and "4 \<le> unat sz" and "span p (unat sz) \<inter> (foot xs \<union> foot (chunks cs)) = {}"
  shows "\<exists>s'. slb_free_align p sz al s = Some (if block_pool p sz al cs = None then 1 else 0, s')
    \<and> slb_inv s' xs (block_back p sz al cs)
    \<and> same_outside (foot (chunks cs) \<union> span p (unat sz)) (mem s) (mem s')
    \<and> (case block_pool p sz al cs of
        None \<Rightarrow> s' = s \<and> block_back p sz al cs = cs
      | Some a \<Rightarrow> cnt_inuse (mem s') a = cnt_inuse (mem s) a - 1
          \<and> foot (chunks (block_back p sz al cs)) = foot (chunks cs) \<union> span p (unat sz))"
  using slb_free_align_exact [OF assms(1) _ assms(3-6)] assms(2) by blast

theorem slb_free_align_correct_witness:
  "\<exists>s p s' s''. mm_boot (\<lambda>_. 0) = Some s \<and> slb_alloc 8 s = Some (p, s')
    \<and> slb_free_align p 8 4 s' = Some (0, s'')"
proof -
  obtain s p s' xs' cs' where s: "mm_boot (\<lambda>_. 0) = Some s" "slb_alloc 8 s = Some (p, s')"
    "slb_inv s' xs' cs'" "span p 8 \<subseteq> arena" "aligned 4 p" "span p 8 \<inter> (foot xs' \<union> foot (chunks cs')) = {}"
    "block_pool p 8 4 cs' \<noteq> None"
    by (rule alloc_8)
  have "span p (unat (8 :: u32)) \<subseteq> arena"
    "span p (unat (8 :: u32)) \<inter> (foot xs' \<union> foot (chunks cs')) = {}" using s(4,6) by simp_all
  then obtain s'' where "slb_free_align p 8 4 s' = Some (0, s'')"
    using slb_free_align_correct [OF s(3), of 4 p 8] s(5,7) by auto
  then show ?thesis using s(1,2) by blast
qed

text \<open>
  C20. A block that \<open>slb_alloc_align\<close> has given out goes back: freed with the size and the
  alignment it was registered under, whatever its owner has written into it, the call returns 0,
  the structures are well-formed and contain the block again, and the memory outside what the
  allocator had before is untouched.
\<close>

theorem slb_alloc_free_returns:
  assumes "slb_inv s xs cs" and "slb_request k a" and "slb_alloc_align k a s = Some (p, s1)"
    and "same_outside (span p (unat (slb_sz k))) (mem s1) (mem s2)"
    and "farea_head s2 = farea_head s1" and "slb_head s2 = slb_head s1"
  shows "\<exists>s' xs' cs'. slb_free_align p (slb_sz k) (slb_al k a) s2 = Some (0, s') \<and> slb_inv s' xs' cs'
    \<and> span p (unat (slb_sz k)) \<subseteq> foot (chunks cs')
    \<and> foot xs' \<union> foot (chunks cs') \<subseteq> foot xs \<union> foot (chunks cs)
    \<and> same_outside (foot xs \<union> foot (chunks cs)) (mem s) (mem s')"
proof -
  let ?sz = "slb_sz k" and ?al = "slb_al k a"
  note req = slb_request_ok [OF assms(2)]
  obtain xs' cs' where g: "aligned ?al p" "span p (unat ?sz) \<subseteq> foot xs \<union> foot (chunks cs)"
    "same_outside (foot xs \<union> foot (chunks cs)) (mem s) (mem s1)" "slb_inv s1 xs' cs'"
    "foot xs' \<union> foot (chunks cs') \<subseteq> (foot xs \<union> foot (chunks cs)) - span p (unat ?sz)"
    "block_pool p ?sz ?al cs' \<noteq> None"
    using slb_alloc_align_ok [OF assms(1,2)] assms(3) unfolding slb_gives_def by auto
  have disj: "span p (unat ?sz) \<inter> (foot xs' \<union> foot (chunks cs')) = {}" using g(5) by blast
  have "slb_inv s2 xs' cs'" by (rule slb_inv_frame [OF g(4) assms(4) disj assms(5,6)])
  moreover have "span p (unat ?sz) \<subseteq> arena" using g(2) assms(1) unfolding slb_inv_def by blast
  moreover have "?al \<noteq> 0 \<or> 4 < unat ?sz" "4 \<le> unat ?sz" using req by (simp_all add: request_ok_def)
  ultimately obtain a s' where "slb_free_align p ?sz ?al s2 = Some (0, s')" "slb_inv s' xs' (block_back p ?sz ?al cs')"
    "same_outside (foot (chunks cs') \<union> span p (unat ?sz)) (mem s2) (mem s')"
    "foot (chunks (block_back p ?sz ?al cs')) = foot (chunks cs') \<union> span p (unat ?sz)"
    using slb_free_align_exact [OF _ _ _ g(1) _ disj] g(6) by fastforce
  moreover from this have "same_outside (foot xs \<union> foot (chunks cs)) (mem s) (mem s')"
    using g(2,3,5) same_outside_trans [OF same_outside_trans [OF g(3) same_outside_mono [OF assms(4) g(2)]]] same_outside_mono
    by blast
  ultimately show ?thesis using g(2,5) by blast
qed

theorem slb_alloc_free_returns_witness:
  "\<exists>s p s' s''. mm_boot (\<lambda>_. 0) = Some s \<and> slb_alloc_align 0x400 0x400 s = Some (p, s')
    \<and> slb_free_align p 0x400 0x400 (poke p 7 s') = Some (0, s'')"
proof -
  obtain s c os where s: "mm_boot (\<lambda>_. 0) = Some s"
    "slb_inv s [(0x80801000, 0x1e7ff000)] [(c, 4, 16, [(0x80800000, 4096, os)])]" by (rule mm_booted)
  have req: "slb_request 0x400 0x400" by (auto simp: slb_request_def intro: exI [of _ 10])
  have sz: "slb_sz 0x400 = 0x400" "slb_al 0x400 0x400 = 0x400"
    by (simp_all add: slb_sz_def slb_al_def sizeof_slb_obj_t_def int_max_def word_sless_alt)
  then have "room [(0x80801000, 0x1e7ff000)] (unat (pool_bytes (slb_sz 0x400)) + 4096)"
    by (simp add: room_def pool_bytes_def Let_def sizeof_slb_pool_t_def)
  then obtain p s' where p: "slb_alloc_align 0x400 0x400 s = Some (p, s')"
    using slb_alloc_align_ok [OF s(2) req] by auto
  have "same_outside (span p (unat (slb_sz 0x400))) (mem s') (mem (poke p 7 s'))"
    by (auto simp: sz same_outside_def)
  from slb_alloc_free_returns [OF s(2) req p this] show ?thesis using s(1) p by (auto simp: sz)
qed



text \<open>
  \<open>slb_free\<close> never frees a block of more than 4 bytes: \<open>slb_alloc\<close> registers it under
  alignment 4, \<open>slb_free\<close> looks for alignment 0. The call returns 1 and the block is lost.
\<close>

theorem slb_free_leaks:
  assumes "slb_inv s xs cs" and "4 < sz"
  shows "slb_free p sz s = Some (1, s)"
  using slb_free_align_0 [OF assms(1), of sz p] assms(2) by (simp add: slb_free_def word_less_nat_alt)

theorem slb_free_leaks_witness:
  "\<exists>s p s'. mm_boot (\<lambda>_. 0) = Some s \<and> slb_alloc 8 s = Some (p, s') \<and> slb_free p 8 s' = Some (1, s')"
proof -
  obtain s p s' xs' cs' where s: "mm_boot (\<lambda>_. 0) = Some s" "slb_alloc 8 s = Some (p, s')"
    "slb_inv s' xs' cs'"
    by (rule alloc_8)
  from slb_free_leaks [OF s(3), of 8 p] s show ?thesis by auto
qed

end
