(* ===== verification/Kmem.thy ===== *)
theory Kmem
  imports Slab_Correct
begin

text \<open>
  Properties of \<open>kern/mm/kmemory_manage.c\<close>: the rounding of a size to a power of two, the
  blocks of \<open>kmalloc\<close>, and what \<open>kmfree\<close> does with them. The definitions are in \<open>Slab\<close>.
\<close>

section \<open>The lowest set bit\<close>

lemma even_unat: "even (unat (x :: u32)) \<longleftrightarrow> even x"
  using bit_unsigned_iff [of x 0, where ?'a = nat] by (simp add: bit_0)

lemma odd_and_minus: "odd (q :: u32) \<Longrightarrow> q AND (- q) = 1"
proof -
  assume "odd q"
  then have "even (NOT q)" by simp
  then have "- q = NOT q OR 1" by (simp add: minus_eq_not_plus_1 or_one_eq)
  then show ?thesis using \<open>odd q\<close> by (simp add: bit.conj_disj_distrib and_one_eq mod_2_eq_odd)
qed

lemma lowbit_push: "odd q \<Longrightarrow> lowbit (push_bit j q) = push_bit j 1"
proof -
  assume q: "odd q"
  have "- push_bit j q = push_bit j (- q)" by (simp add: push_bit_eq_mult)
  then show ?thesis using odd_and_minus [OF q] by (simp add: lowbit_def flip: push_bit_and)
qed

lemma u32_odd_part:
  "x \<noteq> 0 \<Longrightarrow> \<exists>j q. (x :: u32) = push_bit j q \<and> odd q \<and> unat x = 2 ^ j * unat q \<and> j < 32"
proof (induction "unat x" arbitrary: x rule: less_induct)
  case less
  show ?case
  proof (cases "odd x")
    case True
    then show ?thesis by (intro exI [of _ 0] exI [of _ x]) simp
  next
    case False
    let ?h = "drop_bit 1 x"
    have h: "unat ?h = unat x div 2" by (simp only: unat_drop_bit_eq) (simp add: drop_bit_eq_div)
    have ev: "even (unat x)" using False by (simp add: even_unat)
    have pos: "0 < unat x" using less.prems by (simp add: unat_gt_0)
    then have "unat ?h < unat x" "unat ?h \<noteq> 0" using ev h by (auto elim!: evenE)
    then obtain j q where jq: "?h = push_bit j q" "odd q" "unat ?h = 2 ^ j * unat q" "j < 32"
      using less.hyps [of ?h] by (metis unat_0)
    have ux: "unat x = 2 ^ Suc j * unat q" using ev h jq(3) by (auto elim!: evenE)
    have "0 < unat q" using ux pos by (cases "unat q") auto
    then have "2 ^ Suc j \<le> unat x" using ux by simp
    then have "(2 :: nat) ^ Suc j < 2 ^ 32" using u32_bound [of x] by simp
    then have "Suc j < 32" by (simp only: power_strict_increasing_iff)
    moreover have "push_bit 1 ?h = x"
      using bits_ident [of 1 x] False by (simp add: even_iff_mod_2_eq_zero)
    then have "x = push_bit (Suc j) q" using jq(1) by (simp del: push_bit_Suc)
    ultimately show ?thesis using ux jq(2) by blast
  qed
qed

lemma lowbit_unat:
  assumes "x \<noteq> 0"
  obtains j q where "unat x = 2 ^ j * q" and "odd q" and "unat (lowbit x) = 2 ^ j" and "j < 32"
proof -
  obtain j q where x: "x = push_bit j q" "odd q" "unat x = 2 ^ j * unat q" "j < 32"
    using u32_odd_part [OF assms] by blast
  have "lowbit x = 2 ^ j" using lowbit_push [OF x(2)] by (simp add: x(1) push_bit_eq_mult)
  then have "unat (lowbit x) = 2 ^ j" using unat_pow2_u32 [OF x(4)] by simp
  then show thesis using that x by (auto simp: even_unat)
qed

text \<open>Adding the lowest bit stays below any power of two above.\<close>

lemma pow2_dvd_step:
  assumes "(x :: nat) = 2 ^ j * q" and "x < 2 ^ k" and "0 < q"
  shows "x + 2 ^ j \<le> 2 ^ k"
proof -
  have "2 ^ j * 1 \<le> x" unfolding assms(1) using assms(3) by (intro mult_le_mono2) simp
  then have "(2 :: nat) ^ j < 2 ^ k" using assms(2) by (intro le_less_trans [of "2 ^ j" x]) simp_all
  then have "j \<le> k" by simp
  then have k: "(2 :: nat) ^ k = 2 ^ j * 2 ^ (k - j)" by (simp flip: power_add)
  then have "2 ^ j * q < 2 ^ j * 2 ^ (k - j)" using assms(1,2) by simp
  then have "q < 2 ^ (k - j)" by simp
  then have "2 ^ j * Suc q \<le> 2 ^ j * 2 ^ (k - j)" by (intro mult_le_mono2) simp
  then show ?thesis using assms(1) by (simp add: k)
qed

section \<open>Rounding up\<close>

lemma lowbit_pow2: "k < 32 \<Longrightarrow> lowbit (2 ^ k) = 2 ^ k"
  using lowbit_push [of 1 k] by (simp add: push_bit_eq_mult)

lemma up_bound_loop_pow2: "k < 32 \<Longrightarrow> up_bound_loop (2 ^ k) = Some (2 ^ k)"
  by (subst up_bound_loop.simps) (simp add: lowbit_pow2)

lemma up_bound_loop_0: "up_bound_loop 0 = Some 0"
  by (subst up_bound_loop.simps) (simp add: lowbit_def)

text \<open>Up to \<open>2^k\<close> the loop ends at \<open>2^k\<close>; for \<open>k = 32\<close> that is 0.\<close>

lemma up_bound_loop_reaches:
  assumes "1 \<le> k" and "k \<le> 32"
  shows "2 ^ (k - 1) < unat x \<Longrightarrow> unat x \<le> 2 ^ k \<Longrightarrow> up_bound_loop x = Some (2 ^ k)"
proof (induction "2 ^ k - unat x" arbitrary: x rule: less_induct)
  case less
  show ?case
  proof (cases "unat x = 2 ^ k")
    case True
    then have "k < 32" using u32_bound [of x] assms(2) by (cases "k = 32") auto
    then have "x = 2 ^ k" using True by (intro u32_eqI) (simp add: unat_pow2_u32)
    then show ?thesis using up_bound_loop_pow2 \<open>k < 32\<close> by simp
  next
    case False
    then have lt: "unat x < 2 ^ k" using less.prems by simp
    have "x \<noteq> 0" using less.prems(1) by auto
    then obtain j q where x: "unat x = 2 ^ j * q" "odd q" "unat (lowbit x) = 2 ^ j" "j < 32"
      by (rule lowbit_unat)
    have "q \<noteq> 1"
    proof
      assume "q = 1"
      then have "(2 :: nat) ^ (k - 1) < 2 ^ j" "(2 :: nat) ^ j < 2 ^ k" using x(1) less.prems(1) lt by simp_all
      then show False by simp
    qed
    then have "2 ^ j < unat x" using x(1,2) by (cases q) (auto elim: oddE)
    then have ne: "x \<noteq> lowbit x" using x(3) by auto
    have le: "unat x + 2 ^ j \<le> 2 ^ k" using pow2_dvd_step [OF x(1) lt] x(2) by (auto intro: odd_pos)
    have step: "up_bound_loop x = up_bound_loop (x + lowbit x)"
      using ne by (subst up_bound_loop.simps) simp
    show ?thesis
    proof (cases "unat x + 2 ^ j < 2 ^ 32")
      case True
      then have sum: "unat (x + lowbit x) = unat x + 2 ^ j" using unat_area_end [of x "lowbit x"] x(3) by simp
      then show ?thesis
        unfolding step using less.prems le lt by (intro less.hyps) (auto intro: diff_less_mono2)
    next
      case False
      have "(2 :: nat) ^ k \<le> 2 ^ 32" using assms(2) by (intro power_increasing) auto
      then have eq: "unat x + 2 ^ j = 2 ^ 32" "(2 :: nat) ^ k = 2 ^ 32" using False le by linarith+
      then have "k = 32" by (simp only: power_inject_exp) 
      moreover have "x + lowbit x = 0"
        using eq(1) x(3) by (intro u32_eqI) (simp add: unat_word_ariths)
      ultimately show ?thesis by (simp add: step up_bound_loop_0)
    qed
  qed
qed

lemma pow2_above:
  fixes n :: nat
  assumes "1 < n"
  obtains k where "2 ^ (k - 1) < n" and "n \<le> 2 ^ k" and "1 \<le> k"
proof -
  define k where "k = (LEAST k. n \<le> (2 :: nat) ^ k)"
  have ex: "n \<le> 2 ^ n" by (simp add: less_imp_le)
  then have le: "n \<le> 2 ^ k" unfolding k_def by (rule LeastI)
  then have "0 < k" using assms by (cases k) auto
  then have "\<not> n \<le> 2 ^ (k - 1)"
    using not_less_Least [of "k - 1" "\<lambda>k. n \<le> 2 ^ k"] by (simp add: k_def)
  then show thesis using that [of k] le \<open>0 < k\<close> by simp
qed

lemma up_bound_small:
  assumes "unat sz + 4 \<le> 2 ^ 32" and "unat sz < 4294967292"
  obtains k where "up_bound sz = Some (2 ^ k)" and "2 ^ (k - 1) < unat sz + 4" and "unat sz + 4 \<le> 2 ^ k"
    and "2 \<le> k" and "k \<le> 32"
proof -
  have n: "unat (sz + 4) = unat sz + 4" using assms by (subst unat_area_end) auto
  obtain k where k: "2 ^ (k - 1) < unat sz + 4" "unat sz + 4 \<le> 2 ^ k" "1 \<le> k"
    using pow2_above [of "unat sz + 4"] by auto
  have "(2 :: nat) ^ (k - 1) < 2 ^ 32" using k(1) assms(1) by linarith
  then have "k - 1 < 32" by (rule power_less_imp_less_exp [rotated]) simp
  then have "k \<le> 32" by simp
  moreover have "2 \<le> k"
  proof (rule ccontr)
    assume "\<not> 2 \<le> k"
    then have "k \<le> 1" by simp
    then have "(2 :: nat) ^ k \<le> 2 ^ 1" by (intro power_increasing) auto
    then show False using k(2) by simp
  qed
  moreover have "up_bound sz = Some (2 ^ k)"
    using up_bound_loop_reaches [OF k(3) \<open>k \<le> 32\<close>, of "sz + 4"] k(1,2) by (simp add: up_bound_def n)
  ultimately show thesis using that k(1,2) by blast
qed

section \<open>Properties\<close>

text \<open>
  \<open>up_bound\<close> always returns, and up to \<open>2^31 - 4\<close> with the least power of two that holds
  the size and the four bytes of its record.
\<close>

theorem up_bound_correct:
  assumes "unat sz + 4 \<le> 2147483648"
  shows "\<exists>k. up_bound sz = Some (2 ^ k) \<and> 2 \<le> k \<and> k \<le> 31 \<and> unat sz + 4 \<le> 2 ^ k
    \<and> (\<forall>j. unat sz + 4 \<le> 2 ^ j \<longrightarrow> k \<le> j)"
proof -
  obtain k where k: "up_bound sz = Some (2 ^ k)" "2 ^ (k - 1) < unat sz + 4" "unat sz + 4 \<le> 2 ^ k" "2 \<le> k"
    using up_bound_small [of sz] assms by auto
  have "(2 :: nat) ^ (k - 1) < 2 ^ 31" using k(2) assms by simp
  then have "k - 1 < 31" by (rule power_less_imp_less_exp [rotated]) simp
  moreover have "k \<le> j" if "unat sz + 4 \<le> 2 ^ j" for j
  proof -
    have "(2 :: nat) ^ (k - 1) < 2 ^ j" using k(2) that by linarith
    then have "k - 1 < j" by (rule power_less_imp_less_exp [rotated]) simp
    then show ?thesis by simp
  qed
  ultimately show ?thesis using k by auto
qed

theorem up_bound_correct_witness: "\<exists>k. up_bound 100 = Some (2 ^ k) \<and> 104 \<le> (2 :: nat) ^ k"
  using up_bound_correct [of 100] by auto

text \<open>
  Above that the power of two does not fit in 32 bits and \<open>up_bound\<close> returns 0: \<open>kmalloc\<close>
  then asks for a block of 0 bytes.
\<close>

theorem up_bound_overflow:
  assumes "2147483648 < unat sz + 4" and "unat sz + 4 \<le> 4294967296"
  shows "up_bound sz = Some 0"
proof (cases "unat sz + 4 = 4294967296")
  case True
  then have "sz + 4 = 0" by (intro u32_eqI) (simp add: unat_word_ariths)
  then show ?thesis using up_bound_loop_0 by (simp add: up_bound_def)
next
  case False
  then obtain k where k: "up_bound sz = Some (2 ^ k)" "unat sz + 4 \<le> 2 ^ k" "k \<le> 32"
    using up_bound_small [of sz] assms(2) by auto
  have "(2 :: nat) ^ 31 < 2 ^ k" using k(2) assms(1) by simp
  then have "31 < k" by (rule power_less_imp_less_exp [rotated]) simp
  then have "k = 32" using k(3) by simp
  then show ?thesis using k(1) by simp
qed

theorem up_bound_overflow_witness: "up_bound 0x80000000 = Some 0"
  using up_bound_overflow [of "0x80000000"] by simp

lemma up_bound_le:
  assumes "unat sz \<le> 16777212"
  obtains n where "up_bound sz = Some n" and "unat sz + 4 \<le> unat n" and "unat n \<le> 16777216"
proof -
  obtain k where k: "up_bound sz = Some (2 ^ k)" "k \<le> 31" "unat sz + 4 \<le> 2 ^ k"
    "\<forall>j. unat sz + 4 \<le> 2 ^ j \<longrightarrow> k \<le> j"
    using up_bound_correct [of sz] assms by auto
  have "unat sz + 4 \<le> 2 ^ 24" using assms by simp
  then have "k \<le> 24" using k(4) by blast
  then have "(2 :: nat) ^ k \<le> 2 ^ 24" by (intro power_increasing) auto
  moreover have "unat ((2 :: u32) ^ k) = 2 ^ k" using k(2) by (intro unat_pow2_u32) simp
  ultimately show thesis using that [OF k(1)] k(3) by simp
qed

lemma up_bound_is:
  assumes "2 ^ k < unat sz + 4" and "unat sz + 4 \<le> 2 ^ Suc k" and "k < 30"
  shows "up_bound sz = Some (2 ^ Suc k)"
proof -
  have "(2 :: nat) ^ Suc k \<le> 2 ^ 31" using assms(3) by (intro power_increasing) auto
  then have "unat sz + 4 \<le> 2147483648" using assms(2) by simp
  from up_bound_correct [OF this] obtain i where i: "up_bound sz = Some (2 ^ i)" "unat sz + 4 \<le> 2 ^ i"
    "\<forall>j. unat sz + 4 \<le> 2 ^ j \<longrightarrow> i \<le> j" by blast
  have "i \<le> Suc k" using i(3) assms(2) by blast
  moreover have "(2 :: nat) ^ k < 2 ^ i" using assms(1) i(2) by (rule less_le_trans)
  then have "k < i" by (rule power_less_imp_less_exp [rotated]) simp
  ultimately have "i = Suc k" by simp
  then show ?thesis using i(1) by simp
qed

text \<open>An allocation that has room: the block, and what is left.\<close>

definition kmalloc_gives :: "u32 \<Rightarrow> 'a slb_state_scheme \<Rightarrow> area list \<Rightarrow> cache list \<Rightarrow> nat \<Rightarrow> u32 \<Rightarrow> 'a slb_state_scheme \<Rightarrow> area list \<Rightarrow> cache list \<Rightarrow> bool" where
  "kmalloc_gives sz s xs cs d p s' xs' cs' \<longleftrightarrow> kmalloc sz s = Some (p, s') \<and> rd s' (p - 4) = sz
     \<and> span (p - 4) (unat sz + 4) \<subseteq> foot xs \<union> foot (chunks cs)
     \<and> same_outside (foot xs \<union> foot (chunks cs)) (mem s) (mem s') \<and> slb_only s s' \<and> slb_inv s' xs' cs'
     \<and> foot xs' \<union> foot (chunks cs') \<subseteq> (foot xs \<union> foot (chunks cs)) - span (p - 4) (unat sz + 4)
     \<and> (\<forall>t > 0. room xs (t + d) \<longrightarrow> room xs' t)"

lemma kmalloc_full:
  assumes inv: "slb_inv s xs cs" and n: "up_bound sz = Some n" "unat sz + 4 \<le> unat n" "unat n \<le> 16777216"
  shows "(kmalloc sz s = None \<and> \<not> room xs (unat (pool_bytes n) + 4096))
    \<or> (\<exists>p s' xs' cs'. kmalloc_gives sz s xs cs (unat (pool_bytes n) + 4096) p s' xs' cs')"
proof -
  have req: "slb_request n 0" using n(2,3) by (simp add: slb_request_def)
  have sz: "slb_sz n = n" using slb_sz_ge [of n] n(2,3) by (intro u32_eqI) (simp add: slb_size_ok_def)
  let ?own = "foot xs \<union> foot (chunks cs)" and ?d = "unat (pool_bytes n) + 4096"
  have "(slb_alloc n s = None \<and> \<not> room xs ?d) \<or> (\<exists>q s1. slb_alloc n s = Some (q, s1) \<and> slb_gives ?d s xs cs n (slb_al n 0) q s1)"
    using slb_alloc_align_ok [OF inv req] by (simp add: slb_alloc_def sz)
  then show ?thesis
  proof (elim disjE conjE exE)
    fix q s1 assume q: "slb_alloc n s = Some (q, s1)" and g: "slb_gives ?d s xs cs n (slb_al n 0) q s1"
    obtain xs' cs' where new: "span q (unat n) \<subseteq> ?own" "same_outside ?own (mem s) (mem s1)"
      "slb_inv s1 xs' cs'" "foot xs' \<union> foot (chunks cs') \<subseteq> ?own - span q (unat n)" "\<forall>t > 0. room xs (t + ?d) \<longrightarrow> room xs' t"
      using g unfolding slb_gives_def by blast
    have "?own \<subseteq> arena" using inv by (simp add: slb_inv_def)
    moreover have "q \<in> span q (unat n)" using n(2) by simp
    ultimately have "q \<in> arena" using new(1) by blast
    then have "q \<noteq> 0" by (auto simp: arena_def)
    then have eq: "kmalloc sz s = Some (q + 4, wr q sz s1)" by (simp add: kmalloc_def n(1) q)
    have blk: "span q (unat sz + 4) \<subseteq> span q (unat n)" using n(2) by (rule span_mono)
    have q4: "span q 4 \<subseteq> span q (unat n)" using n(2) by (intro span_mono) simp
    have frame: "same_outside (span q 4) (mem s1) (mem (wr q sz s1))" by (simp add: same_outside_st32)
    have "slb_inv (wr q sz s1) xs' cs'"
      by (rule slb_inv_frame [OF new(3) frame]) (use q4 new(4) in \<open>auto simp: wr_def\<close>)
    moreover have "same_outside ?own (mem s) (mem (wr q sz s1))"
      using same_outside_mono [OF frame, of ?own] q4 new(1) by (intro same_outside_trans [OF new(2)]) blast
    moreover have "slb_only s s1" using q slb_alloc_align_only [of n 0 s q s1] by (simp add: slb_alloc_def)
    ultimately show ?thesis using new(1,4,5) blk
      by (intro disjI2 exI [of _ "q + 4"] exI [of _ "wr q sz s1"] exI [of _ xs'] exI [of _ cs'])
        (auto simp: kmalloc_gives_def eq rd_def)
  qed (simp add: kmalloc_def n(1))
qed


lemma room_mono: "room xs k \<Longrightarrow> j \<le> k \<Longrightarrow> room xs j"
  by (force simp: room_def)

lemma kmalloc_ok:
  assumes "slb_inv s xs cs" and "unat sz \<le> 16777212"
  shows "case kmalloc sz s of
      None \<Rightarrow> \<exists>n. up_bound sz = Some n \<and> \<not> room xs (unat (pool_bytes n) + 4096)
    | Some (p, s') \<Rightarrow> span p (unat sz) \<subseteq> span (p - 4) (unat sz + 4)
        \<and> span (p - 4) (unat sz + 4) \<subseteq> foot xs \<union> foot (chunks cs) \<and> rd s' (p - 4) = sz
        \<and> same_outside (foot xs \<union> foot (chunks cs)) (mem s) (mem s')
        \<and> (\<exists>xs' cs'. slb_inv s' xs' cs'
            \<and> foot xs' \<union> foot (chunks cs') \<subseteq> (foot xs \<union> foot (chunks cs)) - span (p - 4) (unat sz + 4))"
proof -
  obtain n where n: "up_bound sz = Some n" "unat sz + 4 \<le> unat n" "unat n \<le> 16777216"
    by (rule up_bound_le [OF assms(2)])
  have "span p (unat sz) \<subseteq> span (p - 4) (unat sz + 4)" for p using span_offset_subset [of 4 "unat sz" "unat sz + 4" "p - 4"] by simp
  with kmalloc_full [OF assms(1) n] n(1) show ?thesis by (auto simp: kmalloc_gives_def) blast+
qed

text \<open>
  C21. \<open>kmalloc\<close> of up to \<open>2^24 - 4\<close> bytes returns a block of that size that lies, with the
  word before it, in memory the allocator gives up; that word holds the size, and nothing
  outside the allocator's memory has changed. It fails to return only for want of pages.
\<close>

theorem kmalloc_correct:
  assumes "slb_inv s xs cs" and "unat sz \<le> 16777212"
  shows "case kmalloc sz s of
      None \<Rightarrow> \<exists>n. up_bound sz = Some n \<and> \<not> room xs (unat (pool_bytes n) + 4096)
    | Some (p, s') \<Rightarrow> span p (unat sz) \<subseteq> span (p - 4) (unat sz + 4)
        \<and> span (p - 4) (unat sz + 4) \<subseteq> foot xs \<union> foot (chunks cs) \<and> rd s' (p - 4) = sz
        \<and> same_outside (foot xs \<union> foot (chunks cs)) (mem s) (mem s')
        \<and> (\<exists>xs' cs'. slb_inv s' xs' cs'
            \<and> foot xs' \<union> foot (chunks cs') \<subseteq> (foot xs \<union> foot (chunks cs)) - span (p - 4) (unat sz + 4))"
  by (rule kmalloc_ok [OF assms])

theorem kmalloc_correct_witness:
  "\<exists>s p s'. mm_boot (\<lambda>_. 0) = Some s \<and> kmalloc 100 s = Some (p, s') \<and> rd s' (p - 4) = 100"
proof -
  obtain s c os where s: "mm_boot (\<lambda>_. 0) = Some s"
    "slb_inv s [(0x80801000, 0x1e7ff000)] [(c, 4, 16, [(0x80800000, 4096, os)])]" by (rule mm_booted)
  have "up_bound 100 = Some 128" by code_simp
  moreover have "room [(0x80801000, 0x1e7ff000)] (unat (pool_bytes 128) + 4096)"
    by (simp add: room_def pool_bytes_def Let_def sizeof_slb_pool_t_def)
  ultimately show ?thesis
    using kmalloc_correct [OF s(2), of 100] s(1) by (auto split: option.splits)
qed

lemma kmfree_ok:
  assumes "slb_inv s xs cs" and "rd s (p - 4) = sz" and "0 < sz" and "unat sz + 4 \<le> 2147483648"
  shows "kmfree p s = Some (1, s)"
proof -
  obtain k where k: "up_bound sz = Some (2 ^ k)" "k \<le> 31" "unat sz + 4 \<le> 2 ^ k"
    using up_bound_correct [OF assms(4)] by auto
  have "unat ((2 :: u32) ^ k) = 2 ^ k" using k(2) by (intro unat_pow2_u32) simp
  moreover have "0 < unat sz" using assms(3) by (simp add: word_less_nat_alt)
  ultimately have "4 < unat ((2 :: u32) ^ k)" using k(3) by simp
  from slb_free_align_0 [OF assms(1) this] show ?thesis
    by (simp add: kmfree_def assms(2) k(1) slb_free_def)
qed

text \<open>
  C40. \<open>kmfree\<close> frees nothing: for every block of at least one byte it returns 1 and leaves the
  state as it is, so the block is lost.
\<close>

theorem kmfree_leaks:
  assumes "slb_inv s xs cs" and "rd s (p - 4) = sz" and "0 < sz" and "unat sz + 4 \<le> 2147483648"
  shows "kmfree p s = Some (1, s)"
  by (rule kmfree_ok [OF assms])

theorem kmfree_leaks_witness:
  "\<exists>s p s'. mm_boot (\<lambda>_. 0) = Some s \<and> kmalloc 100 s = Some (p, s') \<and> kmfree p s' = Some (1, s')"
proof -
  obtain s c os where s: "mm_boot (\<lambda>_. 0) = Some s"
    "slb_inv s [(0x80801000, 0x1e7ff000)] [(c, 4, 16, [(0x80800000, 4096, os)])]" by (rule mm_booted)
  have "up_bound 100 = Some 128" by code_simp
  moreover have "room [(0x80801000, 0x1e7ff000)] (unat (pool_bytes 128) + 4096)"
    by (simp add: room_def pool_bytes_def Let_def sizeof_slb_pool_t_def)
  ultimately obtain p s' xs' cs' where "kmalloc 100 s = Some (p, s')" "rd s' (p - 4) = 100"
    "slb_inv s' xs' cs'"
    using kmalloc_ok [OF s(2), of 100] by (auto split: option.splits)
  then show ?thesis using kmfree_leaks [of s' xs' cs' p 100] s(1) by auto
qed

end
