(* ===== verification/Sched.thy ===== *)
theory Sched
  imports Slab_Correct LibString
begin

text \<open>
  \<open>kern/sched/policy_rr.c\<close> and \<open>kern/sched/sched_main.c\<close>: the six queues of processes, the
  moves between them, process control blocks, and the round-robin switch. A queue is a linked
  list of elements taken from the object caches; an element holds the address of a process
  control block.
\<close>

section \<open>State\<close>

datatype queue = Q_new | Q_ready | Q_running | Q_wait | Q_zombie | Q_abort

datatype context_id = Ctx_no | Ctx_ndef | Ctx_svc | Ctx_abort | Ctx_irq | Ctx_fiq

record sched_state = slb_state +
  q_head :: "queue \<Rightarrow> u32"
  q_tail :: "queue \<Rightarrow> u32"
  cnt_pcb :: u32
  pcb_list :: "u32 \<Rightarrow> u32"
  ttbr0 :: u32
  contexts :: "context_id \<Rightarrow> u32"

text \<open>The fields of \<open>queue_element_t\<close>, and those of \<open>pcb_t\<close> the kernel uses.\<close>

definition el_pcb :: "memory \<Rightarrow> u32 \<Rightarrow> u32" where "el_pcb m p = ld32 m p"
definition el_next :: "memory \<Rightarrow> u32 \<Rightarrow> u32" where "el_next m p = ld32 m (p + 4)"
definition sizeof_queue_element_t :: u32 where "sizeof_queue_element_t = 8"

definition pid_of :: "memory \<Rightarrow> u32 \<Rightarrow> u32" where "pid_of m p = ld32 m p"
definition ppid_of :: "memory \<Rightarrow> u32 \<Rightarrow> u32" where "ppid_of m p = ld32 m (p + 4)"
definition status_of :: "memory \<Rightarrow> u32 \<Rightarrow> u32" where "status_of m p = ld32 m (p + 16)"
definition ret_val_of :: "memory \<Rightarrow> u32 \<Rightarrow> u32" where "ret_val_of m p = ld32 m (p + 20)"
definition page_table_of :: "memory \<Rightarrow> u32 \<Rightarrow> u32" where "page_table_of m p = ld32 m (p + 24)"
definition cpu_of :: "u32 \<Rightarrow> u32" where "cpu_of p = p + 28"
definition sizeof_pcb_t :: u32 where "sizeof_pcb_t = 116"
definition sizeof_context_cpu_t :: u32 where "sizeof_context_cpu_t = 72"

text \<open>The registers of a \<open>context_cpu_t\<close>, by position.\<close>

definition cpu_reg :: "memory \<Rightarrow> u32 \<Rightarrow> u32 \<Rightarrow> u32" where "cpu_reg m c k = ld32 m (c + 4 * k)"

definition PC :: u32 where "PC = 13"
definition CPSR :: u32 where "CPSR = 14"
definition SP :: u32 where "SP = 16"
definition LR :: u32 where "LR = 17"

text \<open>\<open>proc_status_t\<close>.\<close>

definition NEW :: u32 where "NEW = 0"
definition READY :: u32 where "READY = 1"
definition RUNNING :: u32 where "RUNNING = 2"
definition WAIT :: u32 where "WAIT = 3"
definition ZOMBIE :: u32 where "ZOMBIE = 4"
definition ABORT :: u32 where "ABORT = 5"

definition MAX_PCB :: u32 where "MAX_PCB = 0x1000"

definition set_status :: "u32 \<Rightarrow> u32 \<Rightarrow> 'a machine_scheme \<Rightarrow> 'a machine_scheme" where
  "set_status task v s = wr (task + 16) v s"

section \<open>Queues\<close>

definition init_rr :: "'a sched_state_scheme \<Rightarrow> 'a sched_state_scheme" where
  "init_rr s = s\<lparr>q_head := \<lambda>_. 0, q_tail := \<lambda>_. 0\<rparr>"

definition queue_push :: "queue \<Rightarrow> u32 \<Rightarrow> 'a sched_state_scheme \<Rightarrow> 'a sched_state_scheme option" where
  "queue_push q task s = do {
     (element, s) \<leftarrow> slb_alloc sizeof_queue_element_t s;
     let s = wr (element + 4) 0 (wr element task s);
     Some (if q_head s q = 0
           then s\<lparr>q_head := (q_head s)(q := element), q_tail := (q_tail s)(q := element)\<rparr>
           else wr (q_tail s q + 4) element s\<lparr>q_tail := (q_tail s)(q := element)\<rparr>)
   }"

text \<open>The walk of \<open>queue_pop\<close> to the first element of the task, with its predecessor.\<close>

partial_function (option) queue_find :: "memory \<Rightarrow> u32 \<Rightarrow> u32 \<Rightarrow> u32 \<Rightarrow> (u32 \<times> u32) option" where
  [code]: "queue_find m task prev p =
     (if p \<noteq> 0 \<and> el_pcb m p \<noteq> task then queue_find m task p (el_next m p) else Some (prev, p))"

definition queue_pop :: "queue \<Rightarrow> u32 \<Rightarrow> 'a sched_state_scheme \<Rightarrow> 'a sched_state_scheme option" where
  "queue_pop q task s = do {
     (prev, p) \<leftarrow> queue_find (mem s) task 0 (q_head s q);
     if p = 0 then Some s
     else do {
       let s1 = (if el_pcb (mem s) (q_head s q) = task
                 then s\<lparr>q_head := (q_head s)(q := el_next (mem s) p)\<rparr> else s);
       let s2 = (if el_pcb (mem s1) (q_tail s1 q) = task
                 then s1\<lparr>q_tail := (q_tail s1)(q := prev)\<rparr> else s1);
       let s3 = (if prev \<noteq> 0 then wr (prev + 4) (el_next (mem s2) p) s2 else s2);
       (_, s4) \<leftarrow> slb_free p sizeof_queue_element_t s3;
       Some s4
     }
   }"

section \<open>The life cycle of a process\<close>

definition move_to ::
    "queue \<Rightarrow> queue \<Rightarrow> u32 \<Rightarrow> u32 \<Rightarrow> 'a sched_state_scheme \<Rightarrow> 'a sched_state_scheme option" where
  "move_to q q' st task s = do {
     s \<leftarrow> queue_pop q task s;
     s \<leftarrow> queue_push q' task s;
     Some (set_status task st s)
   }"

definition sched_new :: "u32 \<Rightarrow> 'a sched_state_scheme \<Rightarrow> 'a sched_state_scheme option" where
  "sched_new task s = do { s \<leftarrow> queue_push Q_new task s; Some (set_status task NEW s) }"

definition sched_mature :: "u32 \<Rightarrow> 'a sched_state_scheme \<Rightarrow> 'a sched_state_scheme option" where
  "sched_mature task = move_to Q_new Q_ready READY task"

definition sched_allow :: "u32 \<Rightarrow> 'a sched_state_scheme \<Rightarrow> 'a sched_state_scheme option" where
  "sched_allow task = move_to Q_ready Q_running RUNNING task"

definition sched_block :: "u32 \<Rightarrow> 'a sched_state_scheme \<Rightarrow> 'a sched_state_scheme option" where
  "sched_block task = move_to Q_running Q_wait WAIT task"

definition sched_preempt :: "u32 \<Rightarrow> 'a sched_state_scheme \<Rightarrow> 'a sched_state_scheme option" where
  "sched_preempt task = move_to Q_running Q_ready READY task"

definition sched_wake :: "u32 \<Rightarrow> 'a sched_state_scheme \<Rightarrow> 'a sched_state_scheme option" where
  "sched_wake task = move_to Q_wait Q_ready READY task"

definition sched_finish :: "u32 \<Rightarrow> 'a sched_state_scheme \<Rightarrow> 'a sched_state_scheme option" where
  "sched_finish task = move_to Q_running Q_zombie ZOMBIE task"

definition sched_kill :: "u32 \<Rightarrow> 'a sched_state_scheme \<Rightarrow> 'a sched_state_scheme option" where
  "sched_kill task s = do {
     let st = status_of (mem s) task;
     s \<leftarrow> (if st = NEW then queue_pop Q_new task s
           else if st = READY then queue_pop Q_ready task s
           else if st = RUNNING then queue_pop Q_running task s
           else if st = WAIT then queue_pop Q_wait task s
           else Some s);
     s \<leftarrow> queue_push Q_abort task s;
     Some (set_status task ABORT s)
   }"

definition sched_free :: "u32 \<Rightarrow> 'a sched_state_scheme \<Rightarrow> 'a sched_state_scheme option" where
  "sched_free task = queue_pop Q_zombie task"

text \<open>Searches: the block of the first element whose pid (or parent's pid) is the given one.\<close>

partial_function (option) queue_search :: "memory \<Rightarrow> (u32 \<Rightarrow> bool) \<Rightarrow> u32 \<Rightarrow> u32 option" where
  [code]: "queue_search m hit p =
     (if p = 0 then Some 0
      else if hit (el_pcb m p) then Some (el_pcb m p)
      else queue_search m hit (el_next m p))"

definition sched_get_bypid_in :: "queue \<Rightarrow> u32 \<Rightarrow> 'a sched_state_scheme \<Rightarrow> u32 option" where
  "sched_get_bypid_in q pid s = queue_search (mem s) (\<lambda>t. pid_of (mem s) t = pid) (q_head s q)"

definition sched_get_bypid :: "u32 \<Rightarrow> 'a sched_state_scheme \<Rightarrow> u32 option" where
  "sched_get_bypid pid s =
     (let try = (\<lambda>q next. do {
            pcb \<leftarrow> sched_get_bypid_in q pid s;
            if pcb \<noteq> 0 then Some pcb else next
          })
      in try Q_new (try Q_ready (try Q_running (try Q_wait (try Q_zombie (try Q_abort (Some 0)))))))"

definition sched_get_zombie_child :: "u32 \<Rightarrow> 'a sched_state_scheme \<Rightarrow> u32 option" where
  "sched_get_zombie_child ppid s = queue_search (mem s) (\<lambda>t. ppid_of (mem s) t = ppid) (q_head s Q_zombie)"

definition sched_get_running :: "'a sched_state_scheme \<Rightarrow> u32" where
  "sched_get_running s = el_pcb (mem s) (q_head s Q_running)"

definition sched_pick :: "'a sched_state_scheme \<Rightarrow> u32" where
  "sched_pick s = el_pcb (mem s) (q_head s Q_ready)"

section \<open>Diagnostics\<close>

definition tab :: string where "tab = [CHR 0x09]"

definition print_pcb :: "u32 \<Rightarrow> 'a machine_scheme \<Rightarrow> 'a machine_scheme" where
  "print_pcb task s =
     (let m = mem s; cpu = cpu_of task;
          line = (\<lambda>label fmt v. uart_spin_printf (label @ tab @ fmt @ crlf) [VWord v])
      in line ''  status:'' ''%d'' (status_of m task)
         (line ''    cpu, cpsr:'' ''%x'' (cpu_reg m cpu CPSR)
         (line ''    cpu, r0:'' ''%x'' (cpu_reg m cpu 0)
         (line ''    cpu, pc:'' ''%x'' (cpu_reg m cpu PC)
         (line ''    cpu, lr:'' ''%x'' (cpu_reg m cpu LR)
         (line ''    cpu, sp:'' ''%x'' (cpu_reg m cpu SP)
         (line ''  page table:'' ''%x'' (page_table_of m task)
         (line ''  pid:'' ''%d'' (pid_of m task)
         (uart_spin_printf (''---LOOK PCB---:'' @ crlf) [] s)))))))))"

partial_function (option) print_queue_loop :: "u32 \<Rightarrow> 'a machine_scheme \<Rightarrow> 'a machine_scheme option" where
  [code]: "print_queue_loop p s =
     (if p = 0 then Some s
      else print_queue_loop (el_next (mem s) p)
        (print_pcb (el_pcb (mem s) p) (uart_spin_puts crlf (puthex (el_pcb (mem s) p) s))))"

definition print_queue :: "queue \<Rightarrow> 'a sched_state_scheme \<Rightarrow> 'a sched_state_scheme option" where
  "print_queue q s = map_option (uart_spin_puts crlf) (print_queue_loop (q_head s q) s)"

definition sched_debug :: "'a sched_state_scheme \<Rightarrow> 'a sched_state_scheme option" where
  "sched_debug s = do {
     s \<leftarrow> print_queue Q_running (uart_spin_printf (''............running queue.....'' @ crlf) [] s);
     s \<leftarrow> print_queue Q_ready (uart_spin_printf (''............ready queue.....'' @ crlf) [] s);
     Some (uart_spin_printf (''.....'' @ crlf) [] s)
   }"

section \<open>Process control blocks and the switch\<close>

text \<open>
  \<open>move_TTBR0\<close> writes the translation table base register, whose value is also kept in the
  state, and invalidates the translation lookaside buffer. The array \<open>pcb_list\<close> has \<open>MAX_PCB\<close> entries;
  \<open>new_pcb\<close> only complains when it is full and writes past its end, which the model does not
  follow (\<open>None\<close>).
\<close>

definition move_TTBR0 :: "u32 \<Rightarrow> 'a sched_state_scheme \<Rightarrow> 'a sched_state_scheme" where
  "move_TTBR0 pt0_paddr s =
     (let s = uart_spin_printf (''______open___'' @ crlf) [] s;
          s = mcr 2 0 0 pt0_paddr (s\<lparr>ttbr0 := pt0_paddr\<rparr>)
      in invalidate_tlb (uart_spin_printf (''______epen___'' @ crlf) [] s))"

definition switch_mm :: "u32 \<Rightarrow> u32 \<Rightarrow> 'a sched_state_scheme \<Rightarrow> 'a sched_state_scheme" where
  "switch_mm pt_from pd_to s = move_TTBR0 (V2P pd_to) s"

definition copy_context :: "u32 \<Rightarrow> u32 \<Rightarrow> 'a machine_scheme \<Rightarrow> 'a machine_scheme" where
  "copy_context dst src s = s\<lparr>mem := snd (memcpy dst src sizeof_context_cpu_t (mem s))\<rparr>"

definition switch_to :: "u32 \<Rightarrow> u32 \<Rightarrow> u32 \<Rightarrow> 'a machine_scheme \<Rightarrow> 'a machine_scheme" where
  "switch_to cpu_from cpu_to on_return s =
     copy_context on_return cpu_to (copy_context cpu_from on_return s)"

definition context_switch :: "u32 \<Rightarrow> u32 \<Rightarrow> u32 \<Rightarrow> 'a sched_state_scheme \<Rightarrow> 'a sched_state_scheme" where
  "context_switch task_from task_to on_return s =
     (let note = uart_spin_printf (''@@@@@@@'' @ crlf) [];
          s1 = note s;
          s2 = note (switch_mm (page_table_of (mem s1) task_from) (page_table_of (mem s1) task_to) s1)
      in note (switch_to (cpu_of task_from) (cpu_of task_to) on_return s2))"

definition new_pcb :: "'a sched_state_scheme \<Rightarrow> (u32 \<times> 'a sched_state_scheme) option" where
  "new_pcb s =
     (if MAX_PCB \<le> cnt_pcb s then None
      else do {
        (p, s) \<leftarrow> slb_alloc sizeof_pcb_t s;
        let s1 = s\<lparr>pcb_list := (pcb_list s)(cnt_pcb s := p)\<rparr>;
        let s2 = s1\<lparr>mem := snd (memset p 0 sizeof_pcb_t (mem s1))\<rparr>;
        let s3 = wr p (cnt_pcb s2) (set_status p NEW s2);
        s4 \<leftarrow> sched_new p s3;
        Some (p, s4\<lparr>cnt_pcb := cnt_pcb s4 + 1\<rparr>)
      })"

definition init_pcb :: "'a sched_state_scheme \<Rightarrow> 'a sched_state_scheme" where
  "init_pcb s = s\<lparr>pcb_list := \<lambda>_. 0\<rparr>"

text \<open>\<open>sched_main\<close>, called on a timer interrupt: the running process goes to the end of the
  ready queue, the head of the ready queue runs.\<close>

definition sched_main :: "'a sched_state_scheme \<Rightarrow> 'a sched_state_scheme option" where
  "sched_main s = do {
     s \<leftarrow> sched_debug s;
     let s = uart_spin_printf (''---sched main() start------'' @ crlf) [] s;
     let now_pcb = sched_get_running s;
     s \<leftarrow> sched_preempt now_pcb s;
     let s = uart_spin_printf (''---sched main() 1------'' @ crlf) [] (print_pcb now_pcb s);
     let next_pcb = sched_pick s;
     s \<leftarrow> sched_allow next_pcb s;
     let s = uart_spin_printf (''---sched main() 2------'' @ crlf) [] (print_pcb next_pcb s);
     let s = context_switch now_pcb next_pcb (contexts s Ctx_irq) s;
     sched_debug (uart_spin_printf (''---sched main() byre------'' @ crlf) [] s)
   }"

end
