(* ===== verification/Sched_Correct.thy ===== *)
theory Sched_Correct
  imports Sched
begin

text \<open>
  The queues as lists of processes. Every queue element and every block the kernel holds
  (process control blocks, contexts) is a block of its own, disjoint from the allocator's
  memory; a push appends, a pop removes, and the status of a process agrees with its queue.
\<close>

section \<open>Queues in memory\<close>

type_synonym elems = "(u32 \<times> u32) list"

fun q_chain :: "memory \<Rightarrow> u32 \<Rightarrow> elems \<Rightarrow> u32 \<Rightarrow> bool" where
  "q_chain m p [] r \<longleftrightarrow> p = r"
| "q_chain m p ((e, t) # els) r \<longleftrightarrow> p = e \<and> e \<noteq> 0 \<and> el_pcb m e = t \<and> q_chain m (el_next m e) els r"

definition queue_ok :: "memory \<Rightarrow> u32 \<Rightarrow> u32 \<Rightarrow> elems \<Rightarrow> bool" where
  "queue_ok m h t els \<longleftrightarrow> q_chain m h els 0 \<and> (els \<noteq> [] \<longrightarrow> t = fst (last els))"

definition el_areas :: "elems \<Rightarrow> area list" where
  "el_areas els = map (\<lambda>(e, _). (e, 8)) els"

definition all_queues :: "queue list" where
  "all_queues = [Q_new, Q_ready, Q_running, Q_wait, Q_zombie, Q_abort]"

definition q_els :: "(queue \<Rightarrow> elems) \<Rightarrow> elems" where
  "q_els els = concat (map els all_queues)"

definition q_rest :: "queue \<Rightarrow> (queue \<Rightarrow> elems) \<Rightarrow> elems" where
  "q_rest q els = concat (map els (remove1 q all_queues))"

definition sched_inv ::
    "'a sched_state_scheme \<Rightarrow> area list \<Rightarrow> cache list \<Rightarrow> (queue \<Rightarrow> elems) \<Rightarrow> area list \<Rightarrow> bool" where
  "sched_inv s xs cs els blks \<longleftrightarrow> slb_inv s xs cs
     \<and> (\<forall>q. queue_ok (mem s) (q_head s q) (q_tail s q) (els q))
     \<and> blocks_disj (el_areas (q_els els) @ blks)
     \<and> foot (el_areas (q_els els) @ blks) \<inter> (foot xs \<union> foot (chunks cs)) = {}"

section \<open>Blocks and permutations\<close>

lemma blocks_disj_mset: "mset xs = mset ys \<Longrightarrow> blocks_disj xs \<longleftrightarrow> blocks_disj ys"
proof (induction xs arbitrary: ys)
  case (Cons x xs)
  obtain a n where x: "x = (a, n)" by force
  have "x \<in> set ys" using Cons.prems by (metis list.set_intros(1) mset_eq_setD)
  then obtain ys1 ys2 where ys: "ys = ys1 @ x # ys2" by (meson split_list)
  have m: "mset xs = mset (ys1 @ ys2)" using Cons.prems by (simp add: ys)
  have "foot xs = foot (ys1 @ ys2)" using mset_eq_setD [OF m] by (simp add: foot_def)
  then show ?case using Cons.IH [OF m] by (auto simp: ys x)
qed simp

lemma foot_mset: "mset xs = mset ys \<Longrightarrow> foot xs = foot ys"
  by (drule mset_eq_setD) (simp add: foot_def)

lemma el_areas_simps [simp]:
  "el_areas [] = []" "el_areas ((e, t) # els) = (e, 8) # el_areas els"
  "el_areas (els @ els') = el_areas els @ el_areas els'"
  by (simp_all add: el_areas_def)

lemma q_els_split:
  "mset (q_els els) = mset (els q @ q_rest q els)"
  "mset (q_els (els(q := xs))) = mset (xs @ q_rest q els)"
  by (cases q; simp add: q_els_def q_rest_def all_queues_def)+

lemma q_els_blocks:
  "blocks_disj (el_areas (q_els els) @ blks) \<longleftrightarrow> blocks_disj (el_areas (els q) @ el_areas (q_rest q els) @ blks)"
  "foot (el_areas (q_els els)) = foot (el_areas (els q)) \<union> foot (el_areas (q_rest q els))"
  "blocks_disj (el_areas (q_els (els(q := xs))) @ blks) \<longleftrightarrow> blocks_disj (el_areas xs @ el_areas (q_rest q els) @ blks)"
  "foot (el_areas (q_els (els(q := xs)))) = foot (el_areas xs) \<union> foot (el_areas (q_rest q els))"
proof -
  have 1: "mset (el_areas (q_els els)) = mset (el_areas (els q @ q_rest q els))"
    "mset (el_areas (q_els (els(q := xs)))) = mset (el_areas (xs @ q_rest q els))"
    unfolding el_areas_def mset_map q_els_split [of els q] q_els_split(2) [of els q xs] by simp_all
  then show "blocks_disj (el_areas (q_els els) @ blks) \<longleftrightarrow> blocks_disj (el_areas (els q) @ el_areas (q_rest q els) @ blks)"
    "blocks_disj (el_areas (q_els (els(q := xs))) @ blks) \<longleftrightarrow> blocks_disj (el_areas xs @ el_areas (q_rest q els) @ blks)"
    by (intro blocks_disj_mset; simp)+
  show "foot (el_areas (q_els els)) = foot (el_areas (els q)) \<union> foot (el_areas (q_rest q els))"
    using foot_mset [OF 1(1)] by simp
  show "foot (el_areas (q_els (els(q := xs)))) = foot (el_areas xs) \<union> foot (el_areas (q_rest q els))"
    using foot_mset [OF 1(2)] by simp
qed

lemma q_rest_other: "q' \<noteq> q \<Longrightarrow> foot (el_areas (els q')) \<subseteq> foot (el_areas (q_rest q els))"
  by (cases q; cases q') (auto simp: q_rest_def all_queues_def)

section \<open>Chains\<close>

lemma q_chain_append [simp]:
  "q_chain m p (xs @ ys) r \<longleftrightarrow> (\<exists>q. q_chain m p xs q \<and> q_chain m q ys r)"
  by (induction m p xs r rule: q_chain.induct) auto

lemma q_chain_frame:
  assumes "same_outside A m m'" and "A \<inter> foot (el_areas els) = {}"
  shows "q_chain m' p els r \<longleftrightarrow> q_chain m p els r"
  using assms(2)
proof (induction els arbitrary: p)
  case (Cons et els)
  obtain e t where et: "et = (e, t)" by force
  have "span e 8 \<inter> A = {}" using Cons.prems by (auto simp: et)
  from field_same [OF assms(1) this] have "el_pcb m' e = el_pcb m e" "el_next m' e = el_next m e"
    by (simp_all add: el_pcb_def el_next_def)
  then show ?case using Cons by (auto simp: et)
qed simp

lemma queue_ok_frame:
  "same_outside A m m' \<Longrightarrow> A \<inter> foot (el_areas els) = {} \<Longrightarrow> queue_ok m' h t els \<longleftrightarrow> queue_ok m h t els"
  by (simp add: queue_ok_def q_chain_frame)

lemma el_header: "span e 4 \<subseteq> span e 8" "span (e + 4) 4 \<subseteq> span e 8"
  by (auto intro!: span_mono span_offset_subset simp del: span_base)

text \<open>Appending an element whose fields are set.\<close>

lemma q_chain_snoc:
  assumes "q_chain m h (pre @ [(l, u)]) 0" and "blocks_disj (el_areas (pre @ [(l, u)]) @ [(e, 8)])"
    and "e \<noteq> 0" and "el_pcb m e = t" and "el_next m e = 0"
  shows "q_chain (st32 m (l + 4) e) h (pre @ [(l, u), (e, t)]) 0"
proof -
  let ?m' = "st32 m (l + 4) e"
  have disj: "span l 8 \<inter> foot (el_areas pre) = {}" "span l 8 \<inter> span e 8 = {}"
    using assms(2) by auto
  have same: "same_outside (span l 8) m ?m'" using el_header by (intro same_outside_st32)
  have "q_chain ?m' h pre l" using assms(1) q_chain_frame [OF same disj(1)] by auto
  moreover have "el_pcb ?m' l = u" "l \<noteq> 0" using assms(1) by (auto simp: el_pcb_def)
  moreover have "el_next ?m' l = e" by (simp add: el_next_def)
  moreover have "el_pcb ?m' e = t" "el_next ?m' e = 0"
    using assms(4,5) by (simp_all add: el_pcb_def el_next_def ld32_st32_structs [OF disj(2)])
  ultimately show ?thesis using assms(3) by auto
qed

section \<open>Push appends\<close>

text \<open>What a queue operation leaves alone: everything but the memory, the console, the
  allocators' heads and the queues' heads and tails.\<close>

definition q_only :: "'a sched_state_scheme \<Rightarrow> 'a sched_state_scheme \<Rightarrow> bool" where
  "q_only s s' \<longleftrightarrow>
     s'\<lparr>mem := \<lambda>_. 0, con := [], farea_head := 0, slb_head := 0, q_head := \<lambda>_. 0, q_tail := \<lambda>_. 0, io := []\<rparr>
     = s\<lparr>mem := \<lambda>_. 0, con := [], farea_head := 0, slb_head := 0, q_head := \<lambda>_. 0, q_tail := \<lambda>_. 0, io := []\<rparr>"

lemma q_only_refl [simp, frame_intro]: "q_only s s"
  by (simp add: q_only_def)

lemma q_only_trans [trans]: "q_only s s' \<Longrightarrow> q_only s' s'' \<Longrightarrow> q_only s s''"
  by (simp add: q_only_def)

lemma q_only_step [simp]:
  "q_only s (wr a v s') \<longleftrightarrow> q_only s s'" "q_only (wr a v s) s' \<longleftrightarrow> q_only s s'"
  "q_only s (s'\<lparr>mem := m\<rparr>) \<longleftrightarrow> q_only s s'" "q_only (s\<lparr>mem := m\<rparr>) s' \<longleftrightarrow> q_only s s'"
  "q_only s (s'\<lparr>q_head := f\<rparr>) \<longleftrightarrow> q_only s s'" "q_only (s\<lparr>q_head := f\<rparr>) s' \<longleftrightarrow> q_only s s'"
  "q_only s (s'\<lparr>q_tail := f\<rparr>) \<longleftrightarrow> q_only s s'" "q_only (s\<lparr>q_tail := f\<rparr>) s' \<longleftrightarrow> q_only s s'"
  "q_only s (kputs str s') \<longleftrightarrow> q_only s s'" "q_only (kputs str s) s' \<longleftrightarrow> q_only s s'"
  by (simp_all add: q_only_def wr_def kputs_def)

lemma slb_q_only: "slb_only s s' \<Longrightarrow> q_only s s' \<and> q_head s' = q_head s \<and> q_tail s' = q_tail s"
proof -
  assume a: "slb_only s s'"
  have "(s'\<lparr>mem := \<lambda>_. 0, con := [], farea_head := 0, slb_head := 0\<rparr>)\<lparr>q_head := \<lambda>_. 0, q_tail := \<lambda>_. 0, io := []\<rparr>
    = (s\<lparr>mem := \<lambda>_. 0, con := [], farea_head := 0, slb_head := 0\<rparr>)\<lparr>q_head := \<lambda>_. 0, q_tail := \<lambda>_. 0, io := []\<rparr>"
    using a by (simp add: slb_only_def)
  moreover have "q_head (s'\<lparr>mem := \<lambda>_. 0, con := [], farea_head := 0, slb_head := 0\<rparr>)
    = q_head (s\<lparr>mem := \<lambda>_. 0, con := [], farea_head := 0, slb_head := 0\<rparr>)"
    "q_tail (s'\<lparr>mem := \<lambda>_. 0, con := [], farea_head := 0, slb_head := 0\<rparr>)
    = q_tail (s\<lparr>mem := \<lambda>_. 0, con := [], farea_head := 0, slb_head := 0\<rparr>)"
    using a by (simp_all add: slb_only_def)
  ultimately show ?thesis by (simp add: q_only_def)
qed

lemma q_only_fields:
  assumes "q_only s s'"
  shows "cnt_pcb s' = cnt_pcb s" "pcb_list s' = pcb_list s" "ttbr0 s' = ttbr0 s" "contexts s' = contexts s"
proof -
  let ?e = "\<lambda>s. s\<lparr>mem := \<lambda>_. 0, con := [], farea_head := 0, slb_head := 0, q_head := \<lambda>_. 0, q_tail := \<lambda>_. 0, io := []\<rparr>"
  have "cnt_pcb (?e s') = cnt_pcb (?e s)" "pcb_list (?e s') = pcb_list (?e s)"
    "ttbr0 (?e s') = ttbr0 (?e s)" "contexts (?e s') = contexts (?e s)"
    using assms by (simp_all only: q_only_def)
  then show "cnt_pcb s' = cnt_pcb s" "pcb_list s' = pcb_list s" "ttbr0 s' = ttbr0 s" "contexts s' = contexts s"
    by simp_all
qed

definition sched_foot :: "area list \<Rightarrow> cache list \<Rightarrow> (queue \<Rightarrow> elems) \<Rightarrow> u32 set" where
  "sched_foot xs cs els = foot xs \<union> foot (chunks cs) \<union> foot (el_areas (q_els els))"

text \<open>What a push and a pop promise: the queues' lists, the invariant, and nothing but the
  scheduler's own memory changed; a push takes up to two pages.\<close>

definition sched_step ::
    "nat \<Rightarrow> 'a sched_state_scheme \<Rightarrow> area list \<Rightarrow> cache list \<Rightarrow> (queue \<Rightarrow> elems) \<Rightarrow> area list \<Rightarrow>
     (queue \<Rightarrow> elems) \<Rightarrow> 'a sched_state_scheme \<Rightarrow> bool" where
  "sched_step d s xs cs els blks els' s' \<longleftrightarrow> q_only s s'
     \<and> same_outside (sched_foot xs cs els) (mem s) (mem s')
     \<and> (\<exists>xs' cs'. sched_inv s' xs' cs' els' blks \<and> (\<forall>t > 0. room xs (t + d) \<longrightarrow> room xs' t)
         \<and> sched_foot xs' cs' els' \<subseteq> sched_foot xs cs els)"

lemma slb_alloc_8:
  assumes "slb_inv s xs cs"
  shows "(slb_alloc 8 s = None \<and> \<not> room xs 8192)
    \<or> (\<exists>p s'. slb_alloc 8 s = Some (p, s') \<and> slb_gives 8192 s xs cs 8 4 p s')"
proof -
  have req: "slb_request 8 0" by (simp add: slb_request_def)
  have sz: "slb_sz 8 = 8" "slb_al 8 0 = 4"
    by (simp_all add: slb_sz_def slb_al_def sizeof_slb_obj_t_def int_max_def int_min_def word_sless_alt)
  have "unat (pool_bytes 8) = 4096" by (simp add: pool_bytes_def Let_def sizeof_slb_pool_t_def)
  then show ?thesis using slb_alloc_align_ok [OF assms req] by (simp add: sz slb_alloc_def)
qed

lemma queue_push_ok:
  fixes s :: "'a sched_state_scheme"
  assumes inv: "sched_inv s xs cs els blks"
  shows "(queue_push q t s = None \<and> \<not> room xs 8192)
    \<or> (\<exists>e s'. queue_push q t s = Some s' \<and> sched_step 8192 s xs cs els blks (els(q := els q @ [(e, t)])) s')"
proof -
  let ?own = "foot xs \<union> foot (chunks cs)"
  have slb: "slb_inv s xs cs" and qs: "\<And>q. queue_ok (mem s) (q_head s q) (q_tail s q) (els q)"
    and bd: "blocks_disj (el_areas (q_els els) @ blks)"
    and out: "foot (el_areas (q_els els) @ blks) \<inter> ?own = {}"
    using inv by (auto simp: sched_inv_def)
  show ?thesis using slb_alloc_8 [OF slb]
  proof (elim disjE exE conjE)
    assume "slb_alloc 8 s = None" "\<not> room xs 8192"
    then show ?thesis by (simp add: queue_push_def sizeof_queue_element_t_def)
  next
    fix e s1 assume alloc: "slb_alloc 8 s = Some (e, s1)" and gives: "slb_gives 8192 s xs cs 8 4 e s1"
    from gives obtain xs' cs' where g: "span e 8 \<subseteq> ?own" "same_outside ?own (mem s) (mem s1)"
      "slb_inv s1 xs' cs'" "\<forall>t > 0. room xs (t + 8192) \<longrightarrow> room xs' t"
      "foot xs' \<union> foot (chunks cs') \<subseteq> ?own - span e 8"
      by (auto simp: slb_gives_def)
    have "slb_only s s1" using alloc slb_alloc_align_only by (auto simp: slb_alloc_def)
    then have only: "q_only s s1" "q_head s1 = q_head s" "q_tail s1 = q_tail s" using slb_q_only by auto
    have "?own \<subseteq> arena" using slb by (auto simp: slb_inv_def)
    moreover have "e \<in> span e 8" by simp
    ultimately have "e \<in> arena" using g(1) by blast
    then have e0: "e \<noteq> 0" by (auto simp: arena_def)
    define s2 where "s2 = wr (e + 4) 0 (wr e t s1)"
    have s2: "q_head s2 = q_head s" "q_tail s2 = q_tail s" "q_only s s2" "farea_head s2 = farea_head s1"
      "slb_head s2 = slb_head s1" "el_pcb (mem s2) e = t" "el_next (mem s2) e = 0"
      using only by (simp_all add: s2_def wr_def el_pcb_def el_next_def)
    have "same_outside (span e 8) (mem s1) (mem s2)"
      using el_header [of e] by (simp add: s2_def same_outside_st32 same_outside_st32_trans)
    note same12 = this
    then have same2: "same_outside ?own (mem s) (mem s2)"
      using g(1,2) by (blast intro: same_outside_trans same_outside_mono)
    have qs2: "queue_ok (mem s2) (q_head s q') (q_tail s q') (els q')" for q'
      using qs [of q'] queue_ok_frame [OF same2, of "els q'"] out q_els_blocks(2) [of els q'] by auto
    have dis: "span e 8 \<inter> (foot xs' \<union> foot (chunks cs')) = {}" using g(5) by blast
    have slb2: "slb_inv s2 xs' cs'" by (rule slb_inv_frame [OF g(3) same12 dis s2(4,5)])
    have bd': "blocks_disj (el_areas (els q) @ [(e, 8)] @ el_areas (q_rest q els) @ blks)"
      using bd [unfolded q_els_blocks(1) [of els blks q]] out g(1) q_els_blocks(2) [of els q] by auto
    show ?thesis
    proof (cases "q_head s q = 0")
      case True
      define s3 where "s3 = s2\<lparr>q_head := (q_head s)(q := e), q_tail := (q_tail s)(q := e)\<rparr>"
      have push: "queue_push q t s = Some s3"
        using True s2 by (simp add: queue_push_def alloc sizeof_queue_element_t_def s3_def s2_def only)
      have els0: "els q = []" using qs [of q] True by (cases "els q") (auto simp: queue_ok_def)
      have m3: "mem s3 = mem s2" by (simp add: s3_def)
      have "sched_inv s3 xs' cs' (els(q := els q @ [(e, t)])) blks"
        unfolding sched_inv_def
      proof (intro conjI allI)
        show "slb_inv s3 xs' cs'" using slb2
          by (simp add: s3_def slb_inv_def pages_inv_def)
        show "queue_ok (mem s3) (q_head s3 q') (q_tail s3 q') ((els(q := els q @ [(e, t)])) q')" for q'
          using qs2 [of q'] s2 e0 els0 by (auto simp: s3_def queue_ok_def)
        show "blocks_disj (el_areas (q_els (els(q := els q @ [(e, t)]))) @ blks)"
          using bd' by (subst q_els_blocks(3)) simp
        show "foot (el_areas (q_els (els(q := els q @ [(e, t)]))) @ blks) \<inter> (foot xs' \<union> foot (chunks cs')) = {}"
          using out g(5) q_els_blocks(2) [of els q] by (simp add: q_els_blocks(4)) blast
      qed
      moreover have "sched_foot xs' cs' (els(q := els q @ [(e, t)])) \<subseteq> sched_foot xs cs els"
        using g(1,5) q_els_blocks(2) [of els q] by (auto simp: sched_foot_def q_els_blocks(4))
      moreover have "same_outside (sched_foot xs cs els) (mem s) (mem s3)"
        using same2 unfolding m3 sched_foot_def by (rule same_outside_mono) blast
      moreover have "q_only s s3" using s2(3) by (simp add: s3_def)
      ultimately show ?thesis using push g(4) unfolding sched_step_def by blast
    next
      case False
      obtain pre l u where els1: "els q = pre @ [(l, u)]" and tail: "q_tail s q = l"
        using qs [of q] False by (cases "els q" rule: rev_cases) (auto simp: queue_ok_def)
      define s3 where "s3 = wr (l + 4) e (s2\<lparr>q_tail := (q_tail s)(q := e)\<rparr>)"
      have push: "queue_push q t s = Some s3"
        using False s2 by (simp add: queue_push_def alloc sizeof_queue_element_t_def s3_def s2_def only tail wr_def)
      have same23: "same_outside (span l 8) (mem s2) (mem s3)"
        using el_header(2) by (simp add: s3_def same_outside_st32)
      have l_in: "span l 8 \<subseteq> foot (el_areas (els q))" by (simp add: els1)
      have bd1: "blocks_disj (el_areas (pre @ [(l, u)]) @ [(e, 8)])" using bd' by (simp add: els1) blast
      have m3: "mem s3 = st32 (mem s2) (l + 4) e" by (simp add: s3_def)
      have "q_chain (mem s3) (q_head s q) (pre @ [(l, u), (e, t)]) 0"
        unfolding m3
        by (rule q_chain_snoc [OF _ bd1 e0 s2(6,7)]) (use qs2 [of q] in \<open>simp add: queue_ok_def els1\<close>)
      then have chain: "queue_ok (mem s3) (q_head s q) e (els q @ [(e, t)])"
        by (auto simp: queue_ok_def els1)
      have other: "queue_ok (mem s3) (q_head s q') (q_tail s q') (els q')" if "q' \<noteq> q" for q'
      proof -
        have "span l 8 \<inter> foot (el_areas (els q')) = {}"
          using bd' l_in q_rest_other [OF that, of els] by auto
        from queue_ok_frame [OF same23 this] show ?thesis using qs2 [of q'] by simp
      qed
      have "sched_inv s3 xs' cs' (els(q := els q @ [(e, t)])) blks"
        unfolding sched_inv_def
      proof (intro conjI allI)
        have "span l 8 \<inter> (foot xs' \<union> foot (chunks cs')) = {}"
          using out l_in q_els_blocks(2) [of els q] g(5) by auto
        then show "slb_inv s3 xs' cs'"
          by (rule slb_inv_frame [OF slb2 same23]) (simp_all add: s3_def wr_def)
        have heads: "q_head s3 = q_head s" "q_tail s3 = (q_tail s)(q := e)"
          using s2 by (simp_all add: s3_def wr_def)
        show "queue_ok (mem s3) (q_head s3 q') (q_tail s3 q') ((els(q := els q @ [(e, t)])) q')" for q'
          using chain other [of q'] by (simp add: heads)
        show "blocks_disj (el_areas (q_els (els(q := els q @ [(e, t)]))) @ blks)"
          using bd' by (subst q_els_blocks(3)) simp
        show "foot (el_areas (q_els (els(q := els q @ [(e, t)]))) @ blks) \<inter> (foot xs' \<union> foot (chunks cs')) = {}"
          using out g(5) q_els_blocks(2) [of els q] by (simp add: q_els_blocks(4)) blast
      qed
      moreover have "sched_foot xs' cs' (els(q := els q @ [(e, t)])) \<subseteq> sched_foot xs cs els"
        using g(1,5) q_els_blocks(2) [of els q] by (auto simp: sched_foot_def q_els_blocks(4))
      moreover have "same_outside (sched_foot xs cs els) (mem s) (mem s3)"
        using same2 same23 l_in q_els_blocks(2) [of els q] unfolding sched_foot_def
        by (blast intro: same_outside_trans same_outside_mono)
      moreover have "q_only s s3" using s2(3) by (simp add: s3_def)
      ultimately show ?thesis using push g(4) unfolding sched_step_def by blast
    qed
  qed
qed

section \<open>Pop removes\<close>

lemma queue_find_hit:
  "q_chain m p (pre @ (e, t) # post) r \<Longrightarrow> t \<notin> snd ` set pre
    \<Longrightarrow> queue_find m t prev p = Some (last (prev # map fst pre), e)"
proof (induction pre arbitrary: p prev)
  case Nil
  then show ?case by (subst queue_find.simps) auto
next
  case (Cons et pre)
  obtain e' t' where et: "et = (e', t')" by force
  have "q_chain m (el_next m e') (pre @ (e, t) # post) r" "t \<notin> snd ` set pre"
    "p = e'" "e' \<noteq> 0" "el_pcb m e' \<noteq> t"
    using Cons.prems by (auto simp: et)
  then show ?case using Cons.IH [of "el_next m e'" e'] by (subst queue_find.simps) (simp add: et)
qed

lemma queue_find_miss:
  "q_chain m p els 0 \<Longrightarrow> t \<notin> snd ` set els \<Longrightarrow> \<exists>prev'. queue_find m t prev p = Some (prev', 0)"
proof (induction els arbitrary: p prev)
  case Nil
  then show ?case by (subst queue_find.simps) auto
next
  case (Cons et els)
  obtain e' t' where et: "et = (e', t')" by force
  have "q_chain m (el_next m e') els 0" "t \<notin> snd ` set els" "p = e'" "e' \<noteq> 0" "el_pcb m e' \<noteq> t"
    using Cons.prems by (auto simp: et)
  then show ?case using Cons.IH [of "el_next m e'" e'] by (subst queue_find.simps) simp
qed

lemma q_chain_hd: "q_chain m p els 0 \<Longrightarrow> els \<noteq> [] \<Longrightarrow> el_pcb m p = snd (hd els)"
  by (cases els) auto

lemma q_chain_last: "q_chain m p els r \<Longrightarrow> els \<noteq> [] \<Longrightarrow> el_pcb m (fst (last els)) = snd (last els)"
  by (cases els rule: rev_cases) auto

text \<open>Unlinking an element: its predecessor takes its link.\<close>

lemma q_chain_unlink:
  assumes "q_chain m h (pre @ (l, u) # (e, t) # post) 0"
    and "blocks_disj (el_areas (pre @ (l, u) # (e, t) # post))"
  shows "q_chain (st32 m (l + 4) (el_next m e)) h (pre @ (l, u) # post) 0"
proof -
  let ?m' = "st32 m (l + 4) (el_next m e)"
  have same: "same_outside (span l 8) m ?m'" using el_header by (intro same_outside_st32)
  have disj: "span l 8 \<inter> foot (el_areas pre) = {}" "span l 8 \<inter> foot (el_areas post) = {}"
    using assms(2) by auto
  have "q_chain ?m' h pre l" using assms(1) q_chain_frame [OF same disj(1)] by auto
  moreover have "q_chain ?m' (el_next m e) post 0" using assms(1) q_chain_frame [OF same disj(2)] by auto
  moreover have "el_pcb ?m' l = u" "l \<noteq> 0" "el_next ?m' l = el_next m e"
    using assms(1) by (auto simp: el_pcb_def el_next_def)
  ultimately show ?thesis by auto
qed

definition without :: "u32 \<Rightarrow> elems \<Rightarrow> elems" where
  "without t els = filter (\<lambda>et. snd et \<noteq> t) els"

lemma without_hit:
  "distinct (map snd (pre @ (e, t) # post)) \<Longrightarrow> without t (pre @ (e, t) # post) = pre @ post"
  by (induction pre) (auto simp: without_def filter_id_conv image_iff)

lemma without_miss: "t \<notin> snd ` set els \<Longrightarrow> without t els = els"
  by (auto simp: without_def filter_id_conv image_iff)

lemma sched_step_fewer:
  assumes "sched_inv s xs cs els blks" and "q_only s s'" and "farea_head s' = farea_head s"
    and "slb_head s' = slb_head s" and "same_outside (foot (el_areas (els q))) (mem s) (mem s')"
    and "mset (el_areas (els q)) = mset (el_areas (el # els'))"
    and "queue_ok (mem s') (q_head s' q) (q_tail s' q) els'"
    and "\<And>q'. q' \<noteq> q \<Longrightarrow> q_head s' q' = q_head s q' \<and> q_tail s' q' = q_tail s q'"
  shows "sched_step 0 s xs cs els blks (els(q := els')) s'"
proof -
  have inv: "slb_inv s xs cs" "\<And>q. queue_ok (mem s) (q_head s q) (q_tail s q) (els q)"
    "blocks_disj (el_areas (q_els els) @ blks)"
    "foot (el_areas (q_els els) @ blks) \<inter> (foot xs \<union> foot (chunks cs)) = {}"
    using assms(1) by (auto simp: sched_inv_def)
  have sub: "foot (el_areas els') \<subseteq> foot (el_areas (els q))"
    using foot_mset [OF assms(6)] by (cases el) auto
  have out: "foot (el_areas (els q)) \<inter> (foot xs \<union> foot (chunks cs)) = {}"
    using inv(4) q_els_blocks(2) [of els q] by auto
  have bd: "blocks_disj (el_areas (els q) @ el_areas (q_rest q els) @ blks)"
    using inv(3) by (simp only: q_els_blocks(1) [of els blks q])
  then have bd': "blocks_disj (el_areas els' @ el_areas (q_rest q els) @ blks)"
    using sub blocks_disj_mset [OF assms(6)] by (cases el) auto
  have other: "queue_ok (mem s') (q_head s' q') (q_tail s' q') (els q')" if "q' \<noteq> q" for q'
  proof -
    have "foot (el_areas (els q)) \<inter> foot (el_areas (els q')) = {}"
      using bd q_rest_other [OF that, of els] by auto
    from queue_ok_frame [OF assms(5) this] show ?thesis using inv(2) [of q'] assms(8) [OF that] by simp
  qed
  have "sched_inv s' xs cs (els(q := els')) blks"
    unfolding sched_inv_def
  proof (intro conjI allI)
    show "slb_inv s' xs cs" by (rule slb_inv_frame [OF inv(1) assms(5) out assms(3,4)])
    show "queue_ok (mem s') (q_head s' q') (q_tail s' q') ((els(q := els')) q')" for q'
      using other [of q'] assms(7) by auto
    show "blocks_disj (el_areas (q_els (els(q := els'))) @ blks)"
      using bd' by (subst q_els_blocks(3)) simp
    show "foot (el_areas (q_els (els(q := els'))) @ blks) \<inter> (foot xs \<union> foot (chunks cs)) = {}"
      using inv(4) sub q_els_blocks(2) [of els q] by (simp add: q_els_blocks(4)) blast
  qed
  moreover have "sched_foot xs cs (els(q := els')) \<subseteq> sched_foot xs cs els"
    using sub q_els_blocks(2) [of els q] by (auto simp: sched_foot_def q_els_blocks(4))
  moreover have "same_outside (sched_foot xs cs els) (mem s) (mem s')"
    by (rule same_outside_mono [OF assms(5)]) (use q_els_blocks(2) [of els q] in \<open>auto simp: sched_foot_def\<close>)
  ultimately show ?thesis using assms(2) unfolding sched_step_def by auto
qed

lemma queue_pop_ok:
  fixes s :: "'a sched_state_scheme"
  assumes inv: "sched_inv s xs cs els blks" and dist: "distinct (map snd (els q))"
  shows "\<exists>s'. queue_pop q t s = Some s' \<and> sched_step 0 s xs cs els blks (els(q := without t (els q))) s'"
proof -
  have ok: "q_chain (mem s) (q_head s q) (els q) 0" "els q \<noteq> [] \<Longrightarrow> q_tail s q = fst (last (els q))"
    and slb: "slb_inv s xs cs"
    and bd: "blocks_disj (el_areas (els q) @ el_areas (q_rest q els) @ blks)"
    and out: "foot (el_areas (els q)) \<inter> (foot xs \<union> foot (chunks cs)) = {}"
    using inv q_els_blocks(1) [of els blks q] q_els_blocks(2) [of els q] by (auto simp: sched_inv_def queue_ok_def)
  show ?thesis
  proof (cases "t \<in> snd ` set (els q)")
    case False
    then obtain prev where "queue_pop q t s = Some s"
      using queue_find_miss [OF ok(1) False, of 0] by (auto simp: queue_pop_def)
    moreover have "els(q := without t (els q)) = els" using without_miss [OF False] by simp
    ultimately show ?thesis using inv unfolding sched_step_def by auto
  next
    case True
    then obtain e where "(e, t) \<in> set (els q)" by auto
    then obtain pre post where els: "els q = pre @ (e, t) # post" by (meson split_list)
    have pre: "t \<notin> snd ` set pre" and post: "t \<notin> snd ` set post" using dist by (auto simp: els)
    define prev where "prev = last (0 # map fst pre)"
    have find: "queue_find (mem s) t 0 (q_head s q) = Some (prev, e)"
      using queue_find_hit [OF ok(1) [unfolded els] pre] by (simp add: prev_def)
    have e0: "e \<noteq> 0" using ok(1) by (simp add: els)
    have hd: "el_pcb (mem s) (q_head s q) = t \<longleftrightarrow> pre = []"
      using q_chain_hd [OF ok(1)] pre by (cases pre) (auto simp: els)
    have tl: "el_pcb (mem s) (q_tail s q) = t \<longleftrightarrow> post = []"
      using q_chain_last [OF ok(1)] ok(2) post by (cases post rule: rev_cases) (auto simp: els)
    define s1 where "s1 = (if pre = [] then s\<lparr>q_head := (q_head s)(q := el_next (mem s) e)\<rparr> else s)"
    define s2 where "s2 = (if post = [] then s1\<lparr>q_tail := (q_tail s1)(q := prev)\<rparr> else s1)"
    define s3 where "s3 = (if prev \<noteq> 0 then wr (prev + 4) (el_next (mem s) e) s2 else s2)"
    have s2: "mem s2 = mem s" "q_only s s2" "farea_head s2 = farea_head s" "slb_head s2 = slb_head s"
      "q_head s2 = (if pre = [] then (q_head s)(q := el_next (mem s) e) else q_head s)"
      "q_tail s2 = (if post = [] then (q_tail s)(q := prev) else q_tail s)" "mem s1 = mem s" "q_tail s1 = q_tail s"
      by (auto simp: s1_def s2_def)
    have s3: "q_only s s3" "farea_head s3 = farea_head s" "slb_head s3 = slb_head s"
      "q_head s3 = q_head s2" "q_tail s3 = q_tail s2"
      using s2 by (auto simp: s3_def wr_def)
    have prev0: "prev = 0 \<longleftrightarrow> pre = []"
      using ok(1) by (cases pre rule: rev_cases) (auto simp: els prev_def)
    have same: "same_outside (foot (el_areas (els q))) (mem s) (mem s3)"
    proof (cases pre rule: rev_cases)
      case (snoc pre' lu)
      obtain l u where lu: "lu = (l, u)" by force
      have "span (l + 4) 4 \<subseteq> foot (el_areas (els q))" using el_header(2) [of l] by (auto simp: els snoc lu)
      then show ?thesis using s2(1) by (simp add: s3_def prev_def snoc lu same_outside_st32)
    qed (simp add: s3_def prev_def s2)
    have "slb_inv s3 xs cs" by (rule slb_inv_frame [OF slb same out s3(2,3)])
    then have free: "slb_free e 8 s3 = Some (1, s3)"
      using slb_free_align_0 [of s3 xs cs 8 e] by (simp add: slb_free_def)
    have pop: "queue_pop q t s = Some s3"
      using free by (cases "pre = []"; cases "post = []")
        (simp_all add: queue_pop_def find e0 hd tl prev0 sizeof_queue_element_t_def s1_def s2_def s3_def)
    have chain: "q_chain (mem s3) (q_head s3 q) (pre @ post) 0"
    proof (cases pre rule: rev_cases)
      case Nil
      then show ?thesis using ok(1) prev0 by (simp add: s3 s2 els) (simp add: s3_def s2)
    next
      case (snoc pre' lu)
      obtain l u where lu: "lu = (l, u)" by force
      have "q_chain (st32 (mem s) (l + 4) (el_next (mem s) e)) (q_head s q) (pre' @ (l, u) # post) 0"
        by (rule q_chain_unlink [where t = t]) (use ok(1) bd in \<open>auto simp: els snoc lu\<close>)
      moreover have "mem s3 = st32 (mem s) (l + 4) (el_next (mem s) e)"
        using prev0 s2(1) by (simp add: s3_def prev_def snoc lu)
      ultimately show ?thesis by (simp add: s3 s2 snoc lu)
    qed
    have "queue_ok (mem s3) (q_head s3 q) (q_tail s3 q) (pre @ post)"
      using chain ok(2) by (auto simp: queue_ok_def s3 s2 els prev_def last_map)
    then have "sched_step 0 s xs cs els blks (els(q := pre @ post)) s3"
      using sched_step_fewer [OF inv s3(1-3) same, of "(e, t)" "pre @ post"] s3(4,5) s2(5,6)
      by (auto simp: els)
    then show ?thesis using pop without_hit [of pre e t post] dist by (simp add: els)
  qed
qed

section \<open>The life cycle\<close>

text \<open>The scheduler's contract in terms of lists of processes: \<open>P q\<close> is the queue \<open>q\<close>.\<close>

type_synonym procs = "queue \<Rightarrow> u32 list"

fun queue_status :: "queue \<Rightarrow> u32" where
  "queue_status Q_new = NEW"
| "queue_status Q_ready = READY"
| "queue_status Q_running = RUNNING"
| "queue_status Q_wait = WAIT"
| "queue_status Q_zombie = ZOMBIE"
| "queue_status Q_abort = ABORT"

definition move :: "queue \<Rightarrow> queue \<Rightarrow> u32 \<Rightarrow> procs \<Rightarrow> procs" where
  "move q q' t P = (let P1 = P(q := removeAll t (P q)) in P1(q' := P1 q' @ [t]))"

definition one_queue :: "procs \<Rightarrow> bool" where
  "one_queue P \<longleftrightarrow> (\<forall>q. distinct (P q)) \<and> (\<forall>q q'. q \<noteq> q' \<longrightarrow> set (P q) \<inter> set (P q') = {})"

definition not_elsewhere :: "procs \<Rightarrow> queue \<Rightarrow> u32 \<Rightarrow> bool" where
  "not_elsewhere P q t \<longleftrightarrow> (\<forall>q'. q' \<noteq> q \<longrightarrow> t \<notin> set (P q'))"

definition statuses_ok :: "memory \<Rightarrow> procs \<Rightarrow> area list \<Rightarrow> bool" where
  "statuses_ok m P blks \<longleftrightarrow>
     (\<forall>q. \<forall>t \<in> set (P q). (t, sizeof_pcb_t) \<in> set blks \<and> status_of m t = queue_status q)"

definition procs_of :: "(queue \<Rightarrow> elems) \<Rightarrow> procs" where
  "procs_of els = (\<lambda>q. map snd (els q))"

definition sched_ok ::
    "'a sched_state_scheme \<Rightarrow> area list \<Rightarrow> cache list \<Rightarrow> procs \<Rightarrow> area list \<Rightarrow> bool" where
  "sched_ok s xs cs P blks \<longleftrightarrow> (\<exists>els. sched_inv s xs cs els blks \<and> P = procs_of els)
     \<and> one_queue P \<and> statuses_ok (mem s) P blks"

lemma procs_of_upd [simp]: "procs_of (els(q := xs)) = (procs_of els)(q := map snd xs)"
  by (auto simp: procs_of_def)

lemma map_snd_without [simp]: "map snd (without t els) = removeAll t (map snd els)"
  by (induction els) (auto simp: without_def)

lemma one_queue_move: "one_queue P \<Longrightarrow> not_elsewhere P q t \<Longrightarrow> one_queue (move q q' t P)"
  unfolding one_queue_def not_elsewhere_def move_def Let_def
  by (auto simp: distinct_removeAll) blast+

lemma one_queue_elsewhere: "one_queue P \<Longrightarrow> t \<in> set (P q) \<Longrightarrow> not_elsewhere P q t"
  by (auto simp: one_queue_def not_elsewhere_def)

lemma blocks_disj_pair:
  assumes "blocks_disj xs" and "(a, n) \<in> set xs" and "(b, k) \<in> set xs" and "(a, n) \<noteq> (b, k)"
  shows "span a (unat n) \<inter> span b (unat k) = {}"
proof -
  have "(b, k) \<in> set (remove1 (a, n) xs)" using assms(3,4) by (metis in_set_remove1)
  then show ?thesis using blocks_disj_remove1 [OF assms(1,2)] area_in_foot by blast
qed

text \<open>The client may write to the blocks it holds.\<close>

lemma sched_inv_client:
  assumes inv: "sched_inv s xs cs els blks" and same: "same_outside (foot blks) (mem s) (mem s')"
    and "farea_head s' = farea_head s" and "slb_head s' = slb_head s"
    and "q_head s' = q_head s" and "q_tail s' = q_tail s"
  shows "sched_inv s' xs cs els blks"
proof -
  have out: "foot blks \<inter> (foot xs \<union> foot (chunks cs)) = {}" and el: "foot blks \<inter> foot (el_areas (q_els els)) = {}"
    using inv by (auto simp: sched_inv_def)
  have "foot blks \<inter> foot (el_areas (els q)) = {}" for q using el q_els_blocks(2) [of els q] by auto
  then have "queue_ok (mem s') (q_head s' q) (q_tail s' q) (els q)" for q
    using inv queue_ok_frame [OF same, of "els q"] assms(5,6) by (auto simp: sched_inv_def)
  moreover have "slb_inv s xs cs" using inv by (simp add: sched_inv_def)
  from slb_inv_frame [OF this same out assms(3,4)] have "slb_inv s' xs cs" .
  ultimately show ?thesis using inv by (auto simp: sched_inv_def)
qed

lemma status_field: "span (t + 16) 4 \<subseteq> span t (unat sizeof_pcb_t)"
  by (rule span_offset_subset) (simp add: sizeof_pcb_t_def)

lemma same_outside_disj_ld32:
  "same_outside A m m' \<Longrightarrow> A \<inter> B = {} \<Longrightarrow> span a 4 \<subseteq> B \<Longrightarrow> ld32 m' a = ld32 m a"
  by (rule ld32_same_outside) blast+

text \<open>What a call of the scheduler promises its caller, who holds the blocks.\<close>

definition sched_does ::
    "nat \<Rightarrow> 'a sched_state_scheme \<Rightarrow> area list \<Rightarrow> procs \<Rightarrow> area list \<Rightarrow> u32 set \<Rightarrow> 'a sched_state_scheme \<Rightarrow> bool" where
  "sched_does d s xs P' blks A s' \<longleftrightarrow> q_only s s'
     \<and> (\<forall>x \<in> foot blks - A. mem s' x = mem s x)
     \<and> (\<exists>xs' cs'. sched_ok s' xs' cs' P' blks \<and> (\<forall>t > 0. room xs (t + d) \<longrightarrow> room xs' t))"

lemma sched_step_blocks:
  assumes "sched_inv s xs cs els blks" and "sched_step d s xs cs els blks els' s'" and "x \<in> foot blks"
  shows "mem s' x = mem s x"
proof -
  have "x \<notin> sched_foot xs cs els" using assms(1,3) by (auto simp: sched_inv_def sched_foot_def)
  then show ?thesis using assms(2) by (auto simp: sched_step_def same_outside_def)
qed

lemma sched_stepE:
  assumes "sched_step d s xs cs els blks els1 s1"
  obtains xs1 cs1 where "sched_inv s1 xs1 cs1 els1 blks" and "\<And>t. 0 < t \<Longrightarrow> room xs (t + d) \<Longrightarrow> room xs1 t"
    and "\<And>d' els2 s2. sched_step d' s1 xs1 cs1 els1 blks els2 s2 \<Longrightarrow> sched_step (d' + d) s xs cs els blks els2 s2"
proof -
  from assms obtain xs1 cs1 where 1: "sched_inv s1 xs1 cs1 els1 blks" "\<forall>t > 0. room xs (t + d) \<longrightarrow> room xs1 t"
    "sched_foot xs1 cs1 els1 \<subseteq> sched_foot xs cs els" "q_only s s1"
    "same_outside (sched_foot xs cs els) (mem s) (mem s1)"
    by (auto simp: sched_step_def)
  have "sched_step (d' + d) s xs cs els blks els2 s2" if "sched_step d' s1 xs1 cs1 els1 blks els2 s2" for d' els2 s2
  proof -
    from that obtain xs2 cs2 where 3: "sched_inv s2 xs2 cs2 els2 blks" "\<forall>t > 0. room xs1 (t + d') \<longrightarrow> room xs2 t"
      "sched_foot xs2 cs2 els2 \<subseteq> sched_foot xs1 cs1 els1" "q_only s1 s2"
      "same_outside (sched_foot xs1 cs1 els1) (mem s1) (mem s2)"
      by (auto simp: sched_step_def)
    have "same_outside (sched_foot xs cs els) (mem s) (mem s2)"
      using 1(3,5) 3(5) by (blast intro: same_outside_trans same_outside_mono)
    moreover have "\<forall>t > 0. room xs (t + (d' + d)) \<longrightarrow> room xs2 t" using 1(2) 3(2) by (simp add: add.assoc [symmetric])
    moreover have "sched_foot xs2 cs2 els2 \<subseteq> sched_foot xs cs els" using 1(3) 3(3) by blast
    ultimately show ?thesis using 1(4) 3(1,4) q_only_trans unfolding sched_step_def by blast
  qed
  then show ?thesis using that [of xs1 cs1] 1(1,2) by blast
qed

text \<open>The statuses of all processes but \<open>t\<close>. A status is written once the queues are right.\<close>

definition statuses_but :: "u32 \<Rightarrow> memory \<Rightarrow> procs \<Rightarrow> area list \<Rightarrow> bool" where
  "statuses_but t m P blks \<longleftrightarrow>
     (\<forall>q. \<forall>u \<in> set (P q). u \<noteq> t \<longrightarrow> (u, sizeof_pcb_t) \<in> set blks \<and> status_of m u = queue_status q)"

lemma statuses_ok_but: "statuses_ok m P blks \<Longrightarrow> statuses_but t m P blks"
  by (simp add: statuses_ok_def statuses_but_def)

lemma sched_ok_status:
  assumes st: "sched_step d s xs cs els blks els' s'" and inv: "sched_inv s xs cs els blks"
    and stat: "statuses_but t (mem s) P blks" and one: "one_queue (procs_of els')"
    and sub: "\<And>q u. u \<in> set (procs_of els' q) \<Longrightarrow> u \<noteq> t \<Longrightarrow> u \<in> set (P q)"
    and t: "(t, sizeof_pcb_t) \<in> set blks" and q: "\<And>q. t \<in> set (procs_of els' q) \<Longrightarrow> queue_status q = v"
  shows "sched_does d s xs (procs_of els') blks (span (t + 16) 4) (set_status t v s')"
proof -
  from st obtain xs' cs' where s': "sched_inv s' xs' cs' els' blks" "\<forall>t > 0. room xs (t + d) \<longrightarrow> room xs' t"
    "q_only s s'" by (auto simp: sched_step_def)
  note keep = sched_step_blocks [OF inv st]
  have foot: "span (t + 16) 4 \<subseteq> foot blks" using status_field [of t] area_in_foot [OF t] by blast
  have wr: "same_outside (span (t + 16) 4) (mem s') (mem (set_status t v s'))"
    by (simp add: set_status_def same_outside_st32)
  have bd: "blocks_disj blks" using inv by (simp add: sched_inv_def)
  have "sched_inv (set_status t v s') xs' cs' els' blks"
    by (rule sched_inv_client [OF s'(1) same_outside_mono [OF wr foot]]) (simp_all add: set_status_def wr_def)
  moreover have "statuses_ok (mem (set_status t v s')) (procs_of els') blks"
    unfolding statuses_ok_def
  proof (intro allI ballI)
    fix q u assume u: "u \<in> set (procs_of els' q)"
    show "(u, sizeof_pcb_t) \<in> set blks \<and> status_of (mem (set_status t v s')) u = queue_status q"
    proof (cases "u = t")
      case True
      then show ?thesis using t u assms(7) by (simp add: set_status_def status_of_def)
    next
      case False
      then have "u \<in> set (P q)" using sub u by blast
      then have b: "(u, sizeof_pcb_t) \<in> set blks" "status_of (mem s) u = queue_status q"
        using stat False by (auto simp: statuses_but_def)
      have "span t (unat sizeof_pcb_t) \<inter> span u (unat sizeof_pcb_t) = {}"
        using blocks_disj_pair [OF bd t b(1)] False by simp
      then have "ld32 (mem (set_status t v s')) (u + 16) = ld32 (mem s') (u + 16)"
        using same_outside_disj_ld32 [OF wr] status_field [of t] status_field [of u] by blast
      also have "\<dots> = ld32 (mem s) (u + 16)"
        using keep status_field [of u] area_in_foot [OF b(1)] by (intro ld32_cong) blast
      finally show ?thesis using b by (simp add: status_of_def)
    qed
  qed
  moreover have "\<forall>x \<in> foot blks - span (t + 16) 4. mem (set_status t v s') x = mem s x"
    using keep wr by (auto simp: same_outside_def)
  moreover have "q_only s (set_status t v s')" using s'(3) by (simp add: set_status_def)
  ultimately show ?thesis using one s'(2) unfolding sched_does_def sched_ok_def by blast
qed

lemma move_but_ok:
  assumes inv: "sched_inv s xs cs els blks" and P: "P = procs_of els" and one: "one_queue P" and stat: "statuses_but t (mem s) P blks"
    and t: "(t, sizeof_pcb_t) \<in> set blks" and out: "not_elsewhere P q t" and room: "room xs 8192"
  shows "\<exists>s'. move_to q q' (queue_status q') t s = Some s'
    \<and> sched_does 8192 s xs (move q q' t P) blks (span (t + 16) 4) s'"
proof -
  have "distinct (map snd (els q))" using one by (simp add: one_queue_def P procs_of_def)
  from queue_pop_ok [OF inv this] obtain s1 where pop: "queue_pop q t s = Some s1"
    "sched_step 0 s xs cs els blks (els(q := without t (els q))) s1" by blast
  define els1 where "els1 = els(q := without t (els q))"
  from pop(2) obtain xs1 cs1 where s1: "sched_inv s1 xs1 cs1 els1 blks" "room xs1 8192"
    "\<And>d' els2 s2. sched_step d' s1 xs1 cs1 els1 blks els2 s2 \<Longrightarrow> sched_step d' s xs cs els blks els2 s2"
    using room unfolding els1_def [symmetric] by (metis sched_stepE add_0_right zero_less_numeral)
  from queue_push_ok [OF s1(1), of q' t] s1(2) obtain e s2 where push: "queue_push q' t s1 = Some s2"
    "sched_step 8192 s1 xs1 cs1 els1 blks (els1(q' := els1 q' @ [(e, t)])) s2" by auto
  have P': "procs_of (els1(q' := els1 q' @ [(e, t)])) = move q q' t P"
    by (auto simp: move_def Let_def els1_def P procs_of_def)
  have "sched_does 8192 s xs (move q q' t P) blks (span (t + 16) 4) (set_status t (queue_status q') s2)"
    unfolding P' [symmetric]
  proof (rule sched_ok_status [OF s1(3) [OF push(2)] inv stat _ _ t])
    show "one_queue (procs_of (els1(q' := els1 q' @ [(e, t)])))"
      unfolding P' by (rule one_queue_move [OF one out])
    show "u \<in> set (procs_of (els1(q' := els1 q' @ [(e, t)])) q'') \<Longrightarrow> u \<noteq> t \<Longrightarrow> u \<in> set (P q'')" for q'' u
      unfolding P' by (auto simp: move_def Let_def split: if_splits)
    show "t \<in> set (procs_of (els1(q' := els1 q' @ [(e, t)])) q'') \<Longrightarrow> queue_status q'' = queue_status q'" for q''
      unfolding P' using out by (auto simp: move_def Let_def not_elsewhere_def split: if_splits)
  qed
  then show ?thesis using pop(1) push(1) by (simp add: move_to_def)
qed

lemma move_to_ok:
  assumes "sched_ok s xs cs P blks" and "(t, sizeof_pcb_t) \<in> set blks"
    and "not_elsewhere P q t" and "room xs 8192"
  shows "\<exists>s'. move_to q q' (queue_status q') t s = Some s'
    \<and> sched_does 8192 s xs (move q q' t P) blks (span (t + 16) 4) s'"
  using assms move_but_ok statuses_ok_but unfolding sched_ok_def by blast

section \<open>Diagnostics change the console only\<close>

definition con_only :: "'a machine_scheme \<Rightarrow> 'a machine_scheme \<Rightarrow> bool" where
  "con_only s s' \<longleftrightarrow> (\<exists>c t. s' = s\<lparr>con := c, io := t\<rparr>)"

lemma con_onlyI [intro]: "con_only s (s\<lparr>con := c, io := t\<rparr>)"
  by (auto simp: con_only_def)

lemma con_onlyI1 [intro]: "con_only s (s\<lparr>con := c\<rparr>)" "con_only s (s\<lparr>io := t\<rparr>)"
  unfolding con_only_def
  by (rule exI [of _ c], rule exI [of _ "io s"], simp) (rule exI [of _ "con s"], rule exI [of _ t], simp)

lemma con_only_refl [simp, frame_intro]: "con_only s s"
  unfolding con_only_def by (rule exI [of _ "con s"], rule exI [of _ "io s"]) simp

lemma con_only_trans [trans]: "con_only s s' \<Longrightarrow> con_only s' s'' \<Longrightarrow> con_only s s''"
proof -
  assume "con_only s s'" and "con_only s' s''"
  then obtain c t c' t' where "s' = s\<lparr>con := c, io := t\<rparr>" "s'' = s'\<lparr>con := c', io := t'\<rparr>"
    unfolding con_only_def by blast
  then have "s'' = s\<lparr>con := c', io := t'\<rparr>" by simp
  then show "con_only s s''" by (simp only: con_onlyI)
qed

lemma con_only_uart [simp, frame_intro]:
  "con_only s (uart_spin_puts str s)" "con_only s (uart_spin_printf fmt ap s)" "con_only s (puthex num s)"
proof -
  show "con_only s (uart_spin_puts str s)" by (auto simp: uart_spin_puts_def kputs_def)
  show "con_only s (uart_spin_printf fmt ap s)" by (rule uart_kputs [of fmt ap s]) (auto simp: kputs_def)
  show "con_only s (puthex num s)" by (auto simp: puthex_def uart_spin_puts_def kputs_def)
qed

lemma con_only_mcr [simp, frame_intro]: "con_only s (mcr n m k v s)" "con_only s (invalidate_tlb s)"
  by (auto simp: mcr_def invalidate_tlb_def)

lemma con_only_step [intro]:
  "con_only s s' \<Longrightarrow> con_only s (uart_spin_puts str s')"
  "con_only s s' \<Longrightarrow> con_only s (uart_spin_printf fmt ap s')"
  "con_only s s' \<Longrightarrow> con_only s (puthex num s')"
  "con_only s s' \<Longrightarrow> con_only s (mcr n m k v s')"
  "con_only s s' \<Longrightarrow> con_only s (invalidate_tlb s')"
  using con_only_trans con_only_uart con_only_mcr by blast+

lemma con_only_mem: "con_only s s' \<Longrightarrow> mem s' = mem s"
  by (auto simp: con_only_def)

lemma con_only_print_pcb [simp, frame_intro]: "con_only s (print_pcb task s)"
  unfolding print_pcb_def Let_def by (intro con_only_step con_only_refl)

lemma con_only_print_pcb_step [intro]: "con_only s s' \<Longrightarrow> con_only s (print_pcb task s')"
  using con_only_trans con_only_print_pcb by blast

lemma print_queue_loop_ok:
  "q_chain (mem s) p els 0 \<Longrightarrow> \<exists>s'. print_queue_loop p s = Some s' \<and> con_only s s'"
proof (induction els arbitrary: p s)
  case (Cons et els)
  obtain e t where et: "et = (e, t)" by force
  define s1 where "s1 = print_pcb t (uart_spin_puts crlf (puthex t s))"
  have con: "con_only s s1"
    unfolding s1_def by (intro con_only_step con_only_print_pcb_step con_only_refl)
  have p: "p = e" "e \<noteq> 0" "el_pcb (mem s) e = t" "q_chain (mem s1) (el_next (mem s) e) els 0"
    using Cons.prems con_only_mem [OF con] by (auto simp: et)
  from Cons.IH [OF p(4)] obtain s' where "print_queue_loop (el_next (mem s) e) s1 = Some s'" "con_only s1 s'"
    by blast
  then show ?case using p con con_only_trans
    by (subst print_queue_loop.simps) (auto simp: s1_def)
qed (simp add: print_queue_loop.simps)

lemma print_queue_ok:
  assumes "sched_ok s xs cs P blks"
  shows "\<exists>s'. print_queue q s = Some s' \<and> con_only s s'"
proof -
  from assms obtain els where "q_chain (mem s) (q_head s q) els 0"
    by (auto simp: sched_ok_def sched_inv_def queue_ok_def)
  from print_queue_loop_ok [OF this] show ?thesis
    unfolding print_queue_def by (metis con_only_trans con_only_uart(1) option.map(2))
qed

lemma sched_inv_con: "sched_inv (s\<lparr>con := c, io := t\<rparr>) xs cs els blks = sched_inv s xs cs els blks"
  by (simp add: sched_inv_def slb_inv_def pages_inv_def)

lemma sched_ok_con: "con_only s s' \<Longrightarrow> sched_ok s' xs cs P blks \<longleftrightarrow> sched_ok s xs cs P blks"
  by (auto simp: con_only_def sched_ok_def sched_inv_con)

lemma con_q_only: "con_only s s' \<Longrightarrow> q_only s s' \<and> q_head s' = q_head s"
  by (auto simp: con_only_def q_only_def)

lemma con_only_fields:
  "con_only s s' \<Longrightarrow> contexts s' = contexts s" "con_only s s' \<Longrightarrow> ttbr0 s' = ttbr0 s"
  by (auto simp: con_only_def)

lemma sched_debug_ok:
  assumes "sched_ok s xs cs P blks"
  shows "\<exists>s'. sched_debug s = Some s' \<and> con_only s s'"
proof -
  define s1 where "s1 = uart_spin_printf (''............running queue.....'' @ crlf) [] s"
  have 1: "con_only s s1" by (simp add: s1_def)
  from print_queue_ok [of s1] assms 1 obtain s2 where 2: "print_queue Q_running s1 = Some s2" "con_only s1 s2"
    by (metis sched_ok_con)
  define s3 where "s3 = uart_spin_printf (''............ready queue.....'' @ crlf) [] s2"
  have 3: "con_only s s3" using 1 2(2) con_only_trans con_only_uart(2) unfolding s3_def by blast
  from print_queue_ok [of s3] assms 3 obtain s4 where 4: "print_queue Q_ready s3 = Some s4" "con_only s3 s4"
    by (metis sched_ok_con)
  have "sched_debug s = Some (uart_spin_printf (''.....'' @ crlf) [] s4)"
    unfolding sched_debug_def s1_def [symmetric] 2(1) Option.bind.bind_lunit s3_def [symmetric] 4(1) ..
  moreover have "con_only s (uart_spin_printf (''.....'' @ crlf) [] s4)"
    using con_only_trans [OF 3 4(2)] by (rule con_only_step(2))
  ultimately show ?thesis by blast
qed

section \<open>The switch\<close>

lemma cpu_field: "span (cpu_of t) (unat sizeof_context_cpu_t) \<subseteq> span t (unat sizeof_pcb_t)"
  unfolding cpu_of_def by (rule span_offset_subset) (simp add: sizeof_pcb_t_def sizeof_context_cpu_t_def)

lemma cpu_reg_copied:
  assumes "unat k < 18"
  shows "cpu_reg (copied d c (unat sizeof_context_cpu_t) m) d k = cpu_reg m c k"
proof -
  have "unat (4 * k) + 4 \<le> 72" using assms by (simp add: unat_word_ariths)
  from ld32_copied [OF this, of d c m] show ?thesis by (simp add: cpu_reg_def sizeof_context_cpu_t_def)
qed

lemma cpu_reg_frame:
  assumes "unat k < 18" and "same_outside A m m'" and "A \<inter> span c (unat sizeof_context_cpu_t) = {}"
  shows "cpu_reg m' c k = cpu_reg m c k"
proof -
  have "unat (4 * k) + 4 \<le> unat sizeof_context_cpu_t"
    using assms(1) by (simp add: unat_word_ariths sizeof_context_cpu_t_def)
  from span_offset_subset [OF this, of c] show ?thesis
    unfolding cpu_reg_def by (rule same_outside_disj_ld32 [OF assms(2,3)])
qed

lemma switch_to_ok:
  fixes s :: "'a machine_scheme"
  assumes d: "span irq 72 \<inter> span (cpu_of a) 72 = {}" "span irq 72 \<inter> span (cpu_of b) 72 = {}"
    and ab: "a = b \<or> span (cpu_of a) 72 \<inter> span (cpu_of b) 72 = {}" and k: "unat k < 18"
  shows "cpu_reg (mem (switch_to (cpu_of a) (cpu_of b) irq s)) (cpu_of a) k = cpu_reg (mem s) irq k"
    and "cpu_reg (mem (switch_to (cpu_of a) (cpu_of b) irq s)) irq k
      = (if a = b then cpu_reg (mem s) irq k else cpu_reg (mem s) (cpu_of b) k)"
    and "\<exists>m. switch_to (cpu_of a) (cpu_of b) irq s = s\<lparr>mem := m\<rparr>
      \<and> same_outside (span (cpu_of a) 72 \<union> span irq 72) (mem s) m"
proof -
  note sz = sizeof_context_cpu_t_def
  let ?m1 = "copied (cpu_of a) irq 72 (mem s)"
  let ?m2 = "copied irq (cpu_of b) 72 ?m1"
  have s': "switch_to (cpu_of a) (cpu_of b) irq s = s\<lparr>mem := ?m2\<rparr>"
    using d by (simp add: switch_to_def copy_context_def memcpy_disj sz Int_commute)
  have same: "same_outside (span (cpu_of a) 72) (mem s) ?m1" "same_outside (span irq 72) ?m1 ?m2"
    by (rule copied_same_outside)+
  have "cpu_reg ?m2 (cpu_of a) k = cpu_reg ?m1 (cpu_of a) k"
    using cpu_reg_frame [OF k same(2)] d by (simp add: sz)
  then show "cpu_reg (mem (switch_to (cpu_of a) (cpu_of b) irq s)) (cpu_of a) k = cpu_reg (mem s) irq k"
    using cpu_reg_copied [OF k] by (simp add: s' sz)
  have "cpu_reg ?m2 irq k = cpu_reg ?m1 (cpu_of b) k" using cpu_reg_copied [OF k] by (simp add: sz)
  also have "\<dots> = (if a = b then cpu_reg (mem s) irq k else cpu_reg (mem s) (cpu_of b) k)"
    using cpu_reg_copied [OF k, of "cpu_of a" irq "mem s"] cpu_reg_frame [OF k same(1), of "cpu_of b"] ab
    by (auto simp: sz)
  finally show "cpu_reg (mem (switch_to (cpu_of a) (cpu_of b) irq s)) irq k
      = (if a = b then cpu_reg (mem s) irq k else cpu_reg (mem s) (cpu_of b) k)" by (simp add: s')
  show "\<exists>m. switch_to (cpu_of a) (cpu_of b) irq s = s\<lparr>mem := m\<rparr>
      \<and> same_outside (span (cpu_of a) 72 \<union> span irq 72) (mem s) m"
    using s' same by (blast intro: same_outside_trans same_outside_mono)
qed

lemma pcb_field_status:
  assumes "blocks_disj blks" and "(t, sizeof_pcb_t) \<in> set blks" and "(u, sizeof_pcb_t) \<in> set blks"
    and "20 \<le> unat k" and "unat k + n \<le> 116"
  shows "span (u + k) n \<inter> span (t + 16) 4 = {}"
proof (cases "u = t")
  case True
  have "unat (16 - k) = unat k + 4294967280 - 2 * unat k + 0 \<or> True" by simp
  have "n \<le> unat ((t + 16) - (t + k))" "4 \<le> unat ((t + k) - (t + 16))"
    using assms(4,5) u32_diff [of 16 k] u32_diff [of k 16] by simp_all
  then show ?thesis unfolding True by (rule span_disjI)
next
  case False
  have "span (u + k) n \<subseteq> span u (unat sizeof_pcb_t)"
    using assms(5) by (intro span_offset_subset) (simp add: sizeof_pcb_t_def)
  then show ?thesis using blocks_disj_pair [OF assms(1,2,3)] False status_field [of t] by blast
qed

text \<open>The caller may write to its blocks, as long as it leaves the status fields alone.\<close>

lemma sched_ok_client:
  assumes ok: "sched_ok s xs cs P blks" and same: "same_outside A (mem s) (mem s')" and A: "A \<subseteq> foot blks"
    and st: "\<And>q u. u \<in> set (P q) \<Longrightarrow> A \<inter> span (u + 16) 4 = {}"
    and "farea_head s' = farea_head s" "slb_head s' = slb_head s" "q_head s' = q_head s" "q_tail s' = q_tail s"
  shows "sched_ok s' xs cs P blks"
proof -
  from ok obtain els where inv: "sched_inv s xs cs els blks" "P = procs_of els" "one_queue P"
    "statuses_ok (mem s) P blks" by (auto simp: sched_ok_def)
  have "sched_inv s' xs cs els blks"
    by (rule sched_inv_client [OF inv(1) same_outside_mono [OF same A] assms(5-8)])
  moreover have "statuses_ok (mem s') P blks"
    unfolding statuses_ok_def
  proof (intro allI ballI)
    fix q u assume uq: "u \<in> set (P q)"
    then have u: "(u, sizeof_pcb_t) \<in> set blks" "status_of (mem s) u = queue_status q"
      using inv(4) by (auto simp: statuses_ok_def)
    have "ld32 (mem s') (u + 16) = ld32 (mem s) (u + 16)"
      using st [OF uq] by (intro ld32_same_outside [OF same]) blast
    then show "(u, sizeof_pcb_t) \<in> set blks \<and> status_of (mem s') u = queue_status q"
      using u by (simp add: status_of_def)
  qed
  ultimately show ?thesis using inv(2,3) unfolding sched_ok_def by blast
qed

lemma sched_ok_blocks:
  "sched_ok s xs cs P blks \<Longrightarrow> blocks_disj blks"
  "sched_ok s xs cs P blks \<Longrightarrow> t \<in> set (P q) \<Longrightarrow> (t, sizeof_pcb_t) \<in> set blks"
  "sched_ok s xs cs P blks \<Longrightarrow> P q \<noteq> [] \<Longrightarrow> el_pcb (mem s) (q_head s q) = hd (P q)"
  unfolding sched_ok_def sched_inv_def queue_ok_def statuses_ok_def
  by (auto simp: procs_of_def q_chain_hd hd_map)

lemma con_only_record: "con_only s s' \<Longrightarrow> farea_head s' = farea_head s" "con_only s s' \<Longrightarrow> slb_head s' = slb_head s"
  "con_only s s' \<Longrightarrow> q_head s' = q_head s" "con_only s s' \<Longrightarrow> q_tail s' = q_tail s"
  by (auto simp: con_only_def)

lemma context_switch_ok:
  assumes ok: "sched_ok s xs cs P blks" and bd: "blocks_disj blks"
    and a: "(a, sizeof_pcb_t) \<in> set blks" and b: "(b, sizeof_pcb_t) \<in> set blks"
    and irq: "(irq, sizeof_context_cpu_t) \<in> set blks" and s': "s' = context_switch a b irq s"
  shows "sched_ok s' xs cs P blks" and "ttbr0 s' = V2P (page_table_of (mem s) b)"
    and "contexts s' = contexts s"
    and "same_outside (span (cpu_of a) 72 \<union> span irq 72) (mem s) (mem s')"
    and "unat k < 18 \<Longrightarrow> cpu_reg (mem s') (cpu_of a) k = cpu_reg (mem s) irq k"
    and "unat k < 18 \<Longrightarrow> cpu_reg (mem s') irq k
      = (if a = b then cpu_reg (mem s) irq k else cpu_reg (mem s) (cpu_of b) k)"
proof -
  note sz = sizeof_context_cpu_t_def sizeof_pcb_t_def
  define s2 where "s2 = uart_spin_printf (''@@@@@@@'' @ crlf) []
    (switch_mm (page_table_of (mem s) a) (page_table_of (mem s) b) (uart_spin_printf (''@@@@@@@'' @ crlf) [] s))"
  define s3 where "s3 = switch_to (cpu_of a) (cpu_of b) irq s2"
  have s'3: "s' = uart_spin_printf (''@@@@@@@'' @ crlf) [] s3"
    unfolding s' context_switch_def Let_def s3_def s2_def by simp
  have con3: "con_only s3 s'" unfolding s'3 by (rule con_only_uart)
  define s1 where "s1 = uart_spin_printf (''@@@@@@@'' @ crlf) [] s"
  obtain c1 t1 where s1: "s1 = s\<lparr>con := c1, io := t1\<rparr>" unfolding s1_def using con_only_uart(2) con_only_def by blast
  let ?pt = "V2P (page_table_of (mem s) b)"
  define s11 where "s11 = uart_spin_printf (''______open___'' @ crlf) [] s1"
  obtain c11 t11 where s11: "s11 = s1\<lparr>con := c11, io := t11\<rparr>" unfolding s11_def using con_only_uart(2) con_only_def by blast
  have "con_only (s11\<lparr>ttbr0 := ?pt\<rparr>) s2"
    unfolding s2_def switch_mm_def move_TTBR0_def Let_def s1_def [symmetric] s11_def [symmetric]
    by (intro con_only_step con_only_refl)
  then obtain c t where "s2 = s11\<lparr>ttbr0 := ?pt\<rparr>\<lparr>con := c, io := t\<rparr>" unfolding con_only_def by blast
  then have s2: "s2 = s\<lparr>con := c, io := t, ttbr0 := ?pt\<rparr>" by (simp add: s11 s1)
  have out: "span irq 72 \<inter> span t (unat sizeof_pcb_t) = {}" if "(t, sizeof_pcb_t) \<in> set blks" for t
    using blocks_disj_pair [OF bd irq that] by (simp add: sz)
  have cpu: "span (cpu_of t) 72 \<subseteq> span t (unat sizeof_pcb_t)" for t using cpu_field [of t] by (simp add: sz)
  have ab: "a = b \<or> span (cpu_of a) 72 \<inter> span (cpu_of b) 72 = {}"
    using blocks_disj_pair [OF bd a b] cpu [of a] cpu [of b] by blast
  have d: "span irq 72 \<inter> span (cpu_of a) 72 = {}" "span irq 72 \<inter> span (cpu_of b) 72 = {}"
    using out [OF a] out [OF b] cpu by blast+
  note sw = switch_to_ok [OF d ab, of _ s2, folded s3_def]
  have m2: "mem s2 = mem s" by (simp add: s2)
  from sw(3) [of 0] obtain m where s3: "s3 = s2\<lparr>mem := m\<rparr>" "same_outside (span (cpu_of a) 72 \<union> span irq 72) (mem s) m"
    by (auto simp: m2)
  have m': "mem s' = m" using con_only_mem [OF con3] by (simp add: s3)
  show same: "same_outside (span (cpu_of a) 72 \<union> span irq 72) (mem s) (mem s')" using s3(2) m' by simp
  show "ttbr0 s' = V2P (page_table_of (mem s) b)" "contexts s' = contexts s"
    using con_only_fields [OF con3] by (simp_all add: s3 s2)
  show "unat k < 18 \<Longrightarrow> cpu_reg (mem s') (cpu_of a) k = cpu_reg (mem s) irq k"
    using sw(1) m' by (simp add: s3 m2)
  show "unat k < 18 \<Longrightarrow> cpu_reg (mem s') irq k
      = (if a = b then cpu_reg (mem s) irq k else cpu_reg (mem s) (cpu_of b) k)"
    using sw(2) m' by (simp add: s3 m2)
  show "sched_ok s' xs cs P blks"
  proof (rule sched_ok_client [OF ok same])
    show "span (cpu_of a) 72 \<union> span irq 72 \<subseteq> foot blks"
      using cpu area_in_foot [OF a] area_in_foot [OF irq] by (auto simp: sz)
    show "(span (cpu_of a) 72 \<union> span irq 72) \<inter> span (u + 16) 4 = {}" if uq: "u \<in> set (P q)" for q u
      using pcb_field_status [OF bd sched_ok_blocks(2) [OF ok uq] a, of 28 72]
        out [OF sched_ok_blocks(2) [OF ok uq]] status_field [of u] by (auto simp: cpu_of_def)
  qed (use con_only_record [OF con3] in \<open>simp_all add: s3 s2\<close>)
qed

section \<open>The timer tick\<close>

text \<open>Round robin on the lists: the running process goes behind the ready ones, the first of
  them runs.\<close>

definition tick :: "procs \<Rightarrow> procs" where
  "tick P = (let ready = P Q_ready @ [hd (P Q_running)]
     in P(Q_running := tl (P Q_running) @ [hd ready], Q_ready := tl ready))"

definition next_up :: "procs \<Rightarrow> u32" where
  "next_up P = hd (P Q_ready @ [hd (P Q_running)])"

lemma tick_moves:
  assumes "one_queue P" and "P Q_running = now # rest"
  shows "move Q_ready Q_running (next_up P) (move Q_running Q_ready now P) = tick P"
proof -
  have dist: "distinct (now # rest)" "distinct (P Q_ready)" "now \<notin> set (P Q_ready)"
    using assms unfolding one_queue_def by (metis, metis, metis disjoint_iff list.set_intros(1) queue.distinct(11))
  have "removeAll now rest = rest" using dist(1) by (simp add: removeAll_id)
  moreover have "removeAll (hd (P Q_ready @ [now])) (P Q_ready @ [now]) = tl (P Q_ready @ [now])"
    using dist(2,3) by (cases "P Q_ready") auto
  ultimately show ?thesis using assms(2) by (auto simp: move_def tick_def next_up_def Let_def)
qed

text \<open>The switch also changes \<open>ttbr0\<close>.\<close>

definition qt_only :: "'a sched_state_scheme \<Rightarrow> 'a sched_state_scheme \<Rightarrow> bool" where
  "qt_only s s' \<longleftrightarrow>
     s'\<lparr>mem := \<lambda>_. 0, con := [], farea_head := 0, slb_head := 0, q_head := \<lambda>_. 0, q_tail := \<lambda>_. 0, io := [], ttbr0 := 0\<rparr>
     = s\<lparr>mem := \<lambda>_. 0, con := [], farea_head := 0, slb_head := 0, q_head := \<lambda>_. 0, q_tail := \<lambda>_. 0, io := [], ttbr0 := 0\<rparr>"

lemma qt_only_trans [trans]: "qt_only s s' \<Longrightarrow> qt_only s' s'' \<Longrightarrow> qt_only s s''"
  by (simp add: qt_only_def)

lemma qt_onlyI: "q_only s s' \<Longrightarrow> qt_only s s'"
proof -
  assume "q_only s s'"
  then have "s'\<lparr>mem := \<lambda>_. 0, con := [], farea_head := 0, slb_head := 0, q_head := \<lambda>_. 0, q_tail := \<lambda>_. 0, io := []\<rparr>\<lparr>ttbr0 := 0\<rparr>
    = s\<lparr>mem := \<lambda>_. 0, con := [], farea_head := 0, slb_head := 0, q_head := \<lambda>_. 0, q_tail := \<lambda>_. 0, io := []\<rparr>\<lparr>ttbr0 := 0\<rparr>"
    by (simp only: q_only_def)
  then show ?thesis by (simp add: qt_only_def)
qed

lemma qt_only_con: "con_only s s' \<Longrightarrow> qt_only s s'"
  using con_q_only qt_onlyI by blast

lemma qt_only_context_switch: "qt_only s (context_switch a b irq s)"
proof -
  let ?n = "uart_spin_printf (''@@@@@@@'' @ crlf) []"
  have ttb: "qt_only s (s\<lparr>ttbr0 := v\<rparr>)" for v and s :: "'a sched_state_scheme" by (simp add: qt_only_def)
  have mm: "qt_only s (switch_mm v w s)" for v w and s :: "'a sched_state_scheme"
  proof -
    let ?a = "uart_spin_printf (''______open___'' @ crlf) [] s"
    have "con_only (?a\<lparr>ttbr0 := V2P w\<rparr>) (switch_mm v w s)"
      unfolding switch_mm_def move_TTBR0_def Let_def by (intro con_only_step con_only_refl)
    then show ?thesis using qt_only_trans [OF qt_only_con [OF con_only_uart(2)] ttb] qt_only_con qt_only_trans by blast
  qed
  have copy: "qt_only s (switch_to v w u s)" for v w u and s :: "'a sched_state_scheme"
    by (rule qt_onlyI) (simp add: switch_to_def copy_context_def)
  show ?thesis unfolding context_switch_def Let_def
    by (rule qt_only_trans [OF qt_only_trans [OF qt_only_trans [OF qt_only_con [OF con_only_uart(2)] mm]
      qt_only_trans [OF qt_only_con [OF con_only_uart(2)] copy]] qt_only_con [OF con_only_uart(2)]])
qed

definition sched_ticks :: "'a sched_state_scheme \<Rightarrow> area list \<Rightarrow> procs \<Rightarrow> area list \<Rightarrow> u32 \<Rightarrow> 'a sched_state_scheme \<Rightarrow> bool" where
  "sched_ticks s xs P blks irq s' \<longleftrightarrow> (let now = hd (P Q_running); next = next_up P in
       (\<exists>xs' cs'. sched_ok s' xs' cs' (tick P) blks \<and> (\<forall>t > 0. room xs (t + 16384) \<longrightarrow> room xs' t))
     \<and> ttbr0 s' = V2P (page_table_of (mem s) next) \<and> contexts s' = contexts s \<and> qt_only s s'
     \<and> (\<forall>k. unat k < 18 \<longrightarrow> cpu_reg (mem s') (cpu_of now) k = cpu_reg (mem s) irq k
         \<and> cpu_reg (mem s') irq k = (if next = now then cpu_reg (mem s) irq k else cpu_reg (mem s) (cpu_of next) k))
     \<and> (\<forall>x \<in> foot blks - (span (now + 16) 4 \<union> span (next + 16) 4 \<union> span (cpu_of now) 72 \<union> span irq 72).
         mem s' x = mem s x))"

lemma sched_main_ok:
  assumes ok: "sched_ok s xs cs P blks" and run: "P Q_running \<noteq> []" and irq: "contexts s Ctx_irq = irq"
    and irq_blk: "(irq, sizeof_context_cpu_t) \<in> set blks" and room: "room xs 16384"
  shows "\<exists>s'. sched_main s = Some s' \<and> sched_ticks s xs P blks irq s'"
proof -
  obtain now rest where now: "P Q_running = now # rest" using run by (cases "P Q_running") auto
  define next_p where "next_p = next_up P"
  note one = ok [unfolded sched_ok_def, THEN conjunct2, THEN conjunct1]
  have bd: "blocks_disj blks" using sched_ok_blocks(1) [OF ok] .
  have now_blk: "(now, sizeof_pcb_t) \<in> set blks" using sched_ok_blocks(2) [OF ok, of now Q_running] by (simp add: now)
  have next_in: "next_p \<in> set (P Q_ready @ [now])" by (cases "P Q_ready") (auto simp: next_p_def next_up_def now)
  then have next_blk: "(next_p, sizeof_pcb_t) \<in> set blks"
    using sched_ok_blocks(2) [OF ok, of next_p Q_ready] now_blk by auto
  from sched_debug_ok [OF ok] obtain s1 where s1: "sched_debug s = Some s1" "con_only s s1" by blast
  define s2 where "s2 = uart_spin_printf (''---sched main() start------'' @ crlf) [] s1"
  have con2: "con_only s s2" unfolding s2_def using s1(2) by (rule con_only_step(2))
  have ok2: "sched_ok s2 xs cs P blks" using ok sched_ok_con [OF con2] by simp
  have cur: "sched_get_running s2 = now" using sched_ok_blocks(3) [OF ok2, of Q_running] by (simp add: sched_get_running_def now)
  have "not_elsewhere P Q_running now" using one_queue_elsewhere [OF one] by (simp add: now)
  moreover have "room xs 8192" using room by (force simp: room_def)
  ultimately obtain s3 where s3: "sched_preempt now s2 = Some s3"
    "sched_does 8192 s2 xs (move Q_running Q_ready now P) blks (span (now + 16) 4) s3"
    using move_to_ok [OF ok2 now_blk, of Q_running Q_ready] by (auto simp: sched_preempt_def)
  define P1 where "P1 = move Q_running Q_ready now P"
  from s3(2) obtain xs1 cs1 where ok3: "sched_ok s3 xs1 cs1 P1 blks" "\<forall>t > 0. room xs (t + 8192) \<longrightarrow> room xs1 t"
    "\<forall>x \<in> foot blks - span (now + 16) 4. mem s3 x = mem s x" "q_only s2 s3"
    using con_only_mem [OF con2] by (auto simp: sched_does_def P1_def)
  define s4 where "s4 = uart_spin_printf (''---sched main() 1------'' @ crlf) [] (print_pcb now s3)"
  have con4: "con_only s3 s4" unfolding s4_def by (intro con_only_step con_only_print_pcb_step con_only_refl)
  have ok4: "sched_ok s4 xs1 cs1 P1 blks" using ok3(1) sched_ok_con [OF con4] by simp
  have P1_ready: "P1 Q_ready = P Q_ready @ [now]" by (simp add: P1_def move_def Let_def)
  then have pick: "sched_pick s4 = next_p"
    using sched_ok_blocks(3) [OF ok4, of Q_ready] by (simp add: sched_pick_def next_p_def next_up_def now)
  have "one_queue P1" using ok4 by (simp add: sched_ok_def)
  then have "not_elsewhere P1 Q_ready next_p" using next_in by (intro one_queue_elsewhere) (simp_all add: P1_ready)
  moreover have "room xs1 8192" using ok3(2) room by auto
  ultimately obtain s5 where s5: "sched_allow next_p s4 = Some s5"
    "sched_does 8192 s4 xs1 (move Q_ready Q_running next_p P1) blks (span (next_p + 16) 4) s5"
    using move_to_ok [OF ok4 next_blk, of Q_ready Q_running] by (auto simp: sched_allow_def)
  have P2: "move Q_ready Q_running next_p P1 = tick P" unfolding P1_def next_p_def by (rule tick_moves [OF one now])
  from s5(2) obtain xs2 cs2 where ok5: "sched_ok s5 xs2 cs2 (tick P) blks" "\<forall>t > 0. room xs1 (t + 8192) \<longrightarrow> room xs2 t"
    "\<forall>x \<in> foot blks - span (next_p + 16) 4. mem s5 x = mem s4 x" "q_only s4 s5"
    unfolding P2 by (auto simp: sched_does_def)
  define s6 where "s6 = uart_spin_printf (''---sched main() 2------'' @ crlf) [] (print_pcb next_p s5)"
  have con6: "con_only s5 s6" unfolding s6_def by (intro con_only_step con_only_print_pcb_step con_only_refl)
  have ok6: "sched_ok s6 xs2 cs2 (tick P) blks" using ok5(1) sched_ok_con [OF con6] by simp
  have ctx: "contexts s6 = contexts s"
    using con_only_fields(1) [OF con2] con_only_fields(1) [OF con4] con_only_fields(1) [OF con6]
      q_only_fields(4) [OF ok3(4)] q_only_fields(4) [OF ok5(4)] by simp
  have mem6: "mem s6 x = mem s x" if "x \<in> foot blks - (span (now + 16) 4 \<union> span (next_p + 16) 4)" for x
    using that ok3(3) ok5(3) con_only_mem [OF con4] con_only_mem [OF con6] by auto
  define s7 where "s7 = context_switch now next_p (contexts s6 Ctx_irq) s6"
  then have "s7 = context_switch now next_p irq s6" by (simp add: ctx irq)
  note sw = context_switch_ok [OF ok6 bd now_blk next_blk irq_blk this]
  from sched_debug_ok [OF sched_ok_con [THEN iffD2, OF con_only_uart(2), OF sw(1)]]
  obtain s8 where s8: "sched_debug (uart_spin_printf (''---sched main() byre------'' @ crlf) [] s7) = Some s8"
    "con_only (uart_spin_printf (''---sched main() byre------'' @ crlf) [] s7) s8" by blast
  have con8: "con_only s7 s8" using con_only_trans [OF con_only_uart(2) s8(2)] .
  have main: "sched_main s = Some s8"
    unfolding sched_main_def s1(1) Option.bind.bind_lunit Let_def s2_def [symmetric] cur s3(1) s4_def [symmetric]
      pick s5(1) s6_def [symmetric] s7_def [symmetric] s8(1) ..
  have keep: "ld32 (mem s6) (u + k) = ld32 (mem s) (u + k)"
    if "(u, sizeof_pcb_t) \<in> set blks" "20 \<le> unat k" "unat k + 4 \<le> 116" for u k
  proof (rule ld32_cong)
    fix x assume x: "x \<in> span (u + k) 4"
    have "span (u + k) 4 \<subseteq> span u (unat sizeof_pcb_t)"
      using that(3) by (intro span_offset_subset) (simp add: sizeof_pcb_t_def)
    then show "mem s6 x = mem s x"
      using x area_in_foot [OF that(1)] pcb_field_status [OF bd now_blk that] pcb_field_status [OF bd next_blk that]
      by (intro mem6) blast
  qed
  have keep_cpu: "cpu_reg (mem s6) (cpu_of u) k = cpu_reg (mem s) (cpu_of u) k"
    if "(u, sizeof_pcb_t) \<in> set blks" "unat k < 18" for u k
  proof -
    have "unat (28 + 4 * k) = 28 + 4 * unat k" using that(2) by (simp add: unat_word_ariths)
    then show ?thesis using keep [OF that(1), of "28 + 4 * k"] that(2)
      by (simp add: cpu_reg_def cpu_of_def add.assoc)
  qed
  have keep_irq: "cpu_reg (mem s6) irq k = cpu_reg (mem s) irq k" if "unat k < 18" for k
  proof -
    have "unat (4 * k) + 4 \<le> unat sizeof_context_cpu_t"
      using that by (simp add: unat_word_ariths sizeof_context_cpu_t_def)
    from span_offset_subset [OF this, of irq]
    have sub: "span (irq + 4 * k) 4 \<subseteq> span irq (unat sizeof_context_cpu_t)" .
    have "span irq (unat sizeof_context_cpu_t) \<inter> span t (unat sizeof_pcb_t) = {}" if "(t, sizeof_pcb_t) \<in> set blks" for t
      using blocks_disj_pair [OF bd irq_blk that] by (simp add: sizeof_context_cpu_t_def sizeof_pcb_t_def)
    from this [OF now_blk] this [OF next_blk] show ?thesis
      unfolding cpu_reg_def using sub area_in_foot [OF irq_blk] status_field [of now] status_field [of next_p]
      by (intro ld32_cong mem6) blast
  qed
  have hd_now: "hd (P Q_running) = now" by (simp add: now)
  have mem8: "mem s8 = mem s7" using con_only_mem [OF con8] .
  have "sched_ticks s xs P blks irq s8"
    unfolding sched_ticks_def Let_def hd_now next_p_def [symmetric]
  proof (intro conjI allI impI ballI)
    show "\<exists>xs' cs'. sched_ok s8 xs' cs' (tick P) blks \<and> (\<forall>t > 0. room xs (t + 16384) \<longrightarrow> room xs' t)"
    proof (intro exI conjI allI impI)
      show "sched_ok s8 xs2 cs2 (tick P) blks" using sw(1) sched_ok_con [OF con8] by simp
      show "room xs2 t" if "0 < t" "room xs (t + 16384)" for t
        using ok3(2) [rule_format, of "t + 8192"] ok5(2) [rule_format, of t] that by (simp add: add.assoc)
    qed
    show "ttbr0 s8 = V2P (page_table_of (mem s) next_p)"
      using sw(2) con_only_fields(2) [OF con8] keep [OF next_blk, of 24] by (simp add: page_table_of_def)
    show "contexts s8 = contexts s" using sw(3) con_only_fields(1) [OF con8] ctx by simp
    have "qt_only s s6"
      by (rule qt_only_trans [OF qt_only_trans [OF qt_only_trans [OF qt_only_con [OF con2] qt_onlyI [OF ok3(4)]]
        qt_only_trans [OF qt_only_con [OF con4] qt_onlyI [OF ok5(4)]]] qt_only_con [OF con6]])
    moreover have "qt_only s6 s7" unfolding s7_def by (rule qt_only_context_switch)
    ultimately show "qt_only s s8" using qt_only_con [OF con8] qt_only_trans by blast
    show "cpu_reg (mem s8) (cpu_of now) k = cpu_reg (mem s) irq k" if "unat k < 18" for k :: u32
      using sw(5) [OF that] keep_irq [OF that] by (simp add: mem8)
    show "cpu_reg (mem s8) irq k = (if next_p = now then cpu_reg (mem s) irq k else cpu_reg (mem s) (cpu_of next_p) k)"
      if "unat k < 18" for k :: u32
      using sw(6) [OF that] keep_irq [OF that] keep_cpu [OF next_blk that] by (auto simp: mem8)
    show "mem s8 x = mem s x"
      if "x \<in> foot blks - (span (now + 16) 4 \<union> span (next_p + 16) 4 \<union> span (cpu_of now) 72 \<union> span irq 72)" for x
      using same_outsideD [OF sw(4)] mem6 that by (simp add: mem8)
  qed
  with main show ?thesis by blast
qed

section \<open>Birth, death and the zombie\<close>

lemma push_ok:
  assumes ok: "sched_ok s xs cs P blks" and t: "(t, sizeof_pcb_t) \<in> set blks"
    and out: "\<And>q. t \<notin> set (P q)" and room: "room xs 8192"
  shows "\<exists>s'. queue_push q t s = Some s'
    \<and> sched_does 8192 s xs (P(q := P q @ [t])) blks (span (t + 16) 4) (set_status t (queue_status q) s')"
proof -
  from ok obtain els where inv: "sched_inv s xs cs els blks" and P: "P = procs_of els"
    and one: "one_queue P" and stat: "statuses_ok (mem s) P blks" by (auto simp: sched_ok_def)
  from queue_push_ok [OF inv, of q t] room obtain e s' where push: "queue_push q t s = Some s'"
    "sched_step 8192 s xs cs els blks (els(q := els q @ [(e, t)])) s'" by auto
  have P': "procs_of (els(q := els q @ [(e, t)])) = P(q := P q @ [t])"
    by (auto simp: P procs_of_def)
  have "sched_does 8192 s xs (P(q := P q @ [t])) blks (span (t + 16) 4) (set_status t (queue_status q) s')"
    unfolding P' [symmetric]
  proof (rule sched_ok_status [OF push(2) inv statuses_ok_but [OF stat] _ _ t])
    show "one_queue (procs_of (els(q := els q @ [(e, t)])))"
      using one out unfolding P' one_queue_def by auto
    show "u \<in> set (procs_of (els(q := els q @ [(e, t)])) q') \<Longrightarrow> u \<noteq> t \<Longrightarrow> u \<in> set (P q')" for q' u
      unfolding P' by (auto split: if_splits)
    show "t \<in> set (procs_of (els(q := els q @ [(e, t)])) q') \<Longrightarrow> queue_status q' = queue_status q" for q'
      unfolding P' using out by (auto split: if_splits)
  qed
  then show ?thesis using push(1) by blast
qed

lemma pop_ok:
  assumes ok: "sched_ok s xs cs P blks"
  shows "\<exists>s'. queue_pop q t s = Some s' \<and> sched_does 0 s xs (P(q := removeAll t (P q))) blks {} s'"
proof -
  from ok obtain els where inv: "sched_inv s xs cs els blks" and P: "P = procs_of els"
    and one: "one_queue P" and stat: "statuses_ok (mem s) P blks" by (auto simp: sched_ok_def)
  have "distinct (map snd (els q))" using one by (simp add: one_queue_def P procs_of_def)
  from queue_pop_ok [OF inv this] obtain s' where pop: "queue_pop q t s = Some s'"
    "sched_step 0 s xs cs els blks (els(q := without t (els q))) s'" by blast
  have P': "procs_of (els(q := without t (els q))) = P(q := removeAll t (P q))"
    by (auto simp: P procs_of_def)
  note keep = sched_step_blocks [OF inv pop(2)]
  have "statuses_ok (mem s') (P(q := removeAll t (P q))) blks"
    unfolding statuses_ok_def
  proof (intro allI ballI)
    fix q' u assume "u \<in> set ((P(q := removeAll t (P q))) q')"
    then have "u \<in> set (P q')" by (auto split: if_splits)
    then have u: "(u, sizeof_pcb_t) \<in> set blks" "status_of (mem s) u = queue_status q'"
      using stat by (auto simp: statuses_ok_def)
    have "ld32 (mem s') (u + 16) = ld32 (mem s) (u + 16)"
      using keep status_field [of u] area_in_foot [OF u(1)] by (intro ld32_cong) blast
    then show "(u, sizeof_pcb_t) \<in> set blks \<and> status_of (mem s') u = queue_status q'"
      using u by (simp add: status_of_def)
  qed
  moreover have "one_queue (P(q := removeAll t (P q)))"
    using one by (auto simp: one_queue_def distinct_removeAll)
  moreover from pop(2) obtain xs' cs' where "sched_inv s' xs' cs' (els(q := without t (els q))) blks"
    "\<forall>t > 0. room xs t \<longrightarrow> room xs' t" "q_only s s'"
    by (auto simp: sched_step_def)
  ultimately have "sched_does 0 s xs (P(q := removeAll t (P q))) blks {} s'"
    using keep P' [symmetric] unfolding sched_does_def sched_ok_def by (metis DiffD1 add_0_right)
  with pop(1) show ?thesis by blast
qed

lemma queue_status_eq: "queue_status q = NEW \<longleftrightarrow> q = Q_new" "queue_status q = READY \<longleftrightarrow> q = Q_ready"
  "queue_status q = RUNNING \<longleftrightarrow> q = Q_running" "queue_status q = WAIT \<longleftrightarrow> q = Q_wait"
  by (cases q; simp add: NEW_def READY_def RUNNING_def WAIT_def ZOMBIE_def ABORT_def)+

lemma sched_kill_ok:
  assumes ok: "sched_ok s xs cs P blks" and t: "t \<in> set (P q)" and q: "q \<notin> {Q_zombie, Q_abort}"
    and room: "room xs 8192"
  shows "\<exists>s'. sched_kill t s = Some s' \<and> sched_does 8192 s xs (move q Q_abort t P) blks (span (t + 16) 4) s'"
proof -
  have one: "one_queue P" and st: "status_of (mem s) t = queue_status q"
    using ok t by (auto simp: sched_ok_def statuses_ok_def)
  have "sched_kill t s = move_to q Q_abort (queue_status Q_abort) t s"
    using q unfolding sched_kill_def move_to_def st Let_def queue_status_eq by (cases q) simp_all
  then show ?thesis
    using move_to_ok [OF ok sched_ok_blocks(2) [OF ok t] one_queue_elsewhere [OF one t] room, of Q_abort] by simp
qed

text \<open>The memory a client takes from the object caches becomes a block it holds.\<close>

lemma sched_ok_alloc:
  assumes ok: "sched_ok s xs cs P blks" and gives: "slb_gives d s xs cs (slb_sz k) al p s'"
    and sz: "slb_sz k = k" and heads: "q_head s' = q_head s" "q_tail s' = q_tail s"
  obtains xs' cs' where "sched_ok s' xs' cs' P ((p, k) # blks)" and "\<And>t. 0 < t \<Longrightarrow> room xs (t + d) \<Longrightarrow> room xs' t"
    and "\<And>x. x \<in> foot blks \<Longrightarrow> mem s' x = mem s x" and "\<And>q. p \<notin> set (P q)"
proof -
  from ok obtain els where inv: "sched_inv s xs cs els blks" "P = procs_of els" "one_queue P"
    "statuses_ok (mem s) P blks" by (auto simp: sched_ok_def)
  let ?own = "foot xs \<union> foot (chunks cs)"
  have i: "\<And>q. queue_ok (mem s) (q_head s q) (q_tail s q) (els q)"
    "blocks_disj (el_areas (q_els els) @ blks)" "foot (el_areas (q_els els) @ blks) \<inter> ?own = {}"
    using inv(1) by (auto simp: sched_inv_def)
  from gives obtain xs' cs' where g: "span p (unat k) \<subseteq> ?own" "same_outside ?own (mem s) (mem s')"
    "slb_inv s' xs' cs'" "\<forall>t > 0. room xs (t + d) \<longrightarrow> room xs' t"
    "foot xs' \<union> foot (chunks cs') \<subseteq> ?own - span p (unat k)"
    by (auto simp: slb_gives_def sz)
  have keep: "mem s' x = mem s x" if "x \<in> foot blks" for x
    using that i(3) by (intro same_outsideD [OF g(2)]) auto
  have "queue_ok (mem s') (q_head s' q) (q_tail s' q) (els q)" for q
    using i(1) [of q] queue_ok_frame [OF g(2), of "els q"] i(3) q_els_blocks(2) [of els q] heads by auto
  moreover have "blocks_disj (el_areas (q_els els) @ (p, k) # blks)" using i(2,3) g(1) by auto
  moreover have "foot (el_areas (q_els els) @ (p, k) # blks) \<inter> (foot xs' \<union> foot (chunks cs')) = {}"
    using i(3) g(1,5) by auto
  ultimately have "sched_inv s' xs' cs' els ((p, k) # blks)" using g(3) unfolding sched_inv_def by blast
  moreover have "statuses_ok (mem s') P ((p, k) # blks)"
    unfolding statuses_ok_def
  proof (intro allI ballI)
    fix q u assume "u \<in> set (P q)"
    then have u: "(u, sizeof_pcb_t) \<in> set blks" "status_of (mem s) u = queue_status q"
      using inv(4) by (auto simp: statuses_ok_def)
    have "ld32 (mem s') (u + 16) = ld32 (mem s) (u + 16)"
      using keep status_field [of u] area_in_foot [OF u(1)] by (intro ld32_cong) blast
    then show "(u, sizeof_pcb_t) \<in> set ((p, k) # blks) \<and> status_of (mem s') u = queue_status q"
      using u by (simp add: status_of_def)
  qed
  moreover have "p \<notin> set (P q)" if "0 < unat k" for q
  proof
    assume "p \<in> set (P q)"
    then have "(p, sizeof_pcb_t) \<in> set blks" using inv(4) by (auto simp: statuses_ok_def)
    from area_in_foot [OF this] have "p \<in> foot blks"
      using span_base [of p "unat sizeof_pcb_t"] by (auto simp: sizeof_pcb_t_def simp del: span_base)
    moreover have "p \<in> ?own" using g(1) span_base [of p "unat k"] that by blast
    ultimately show False using i(3) by auto
  qed
  moreover have "0 < unat k"
    using sz by (auto simp: slb_sz_def int_max_def sizeof_slb_obj_t_def unat_gt_0 word_sless_alt split: if_splits)
  ultimately show ?thesis using that [of xs' cs'] g(4) keep inv(2,3) unfolding sched_ok_def by blast
qed

lemma slb_alloc_pcb:
  assumes "slb_inv s xs cs" and "room xs 8192"
  obtains p s' where "slb_alloc sizeof_pcb_t s = Some (p, s')" and "slb_gives 8192 s xs cs (slb_sz sizeof_pcb_t) 4 p s'"
    and "slb_only s s'"
proof -
  have req: "slb_request 116 0" by (simp add: slb_request_def)
  have sz: "slb_sz 116 = 116" "slb_al 116 0 = 4"
    by (simp_all add: slb_sz_def slb_al_def sizeof_slb_obj_t_def int_max_def int_min_def word_sless_alt)
  have "unat (pool_bytes 116) = 4096" by (simp add: pool_bytes_def Let_def sizeof_slb_pool_t_def)
  then obtain p s' where "slb_alloc 116 s = Some (p, s')" "slb_gives 8192 s xs cs 116 4 p s'"
    using slb_alloc_align_ok [OF assms(1) req] assms(2) by (auto simp: sz slb_alloc_def)
  moreover from this(1) have "slb_only s s'" using slb_alloc_align_only by (auto simp: slb_alloc_def)
  ultimately show ?thesis using that by (simp add: sizeof_pcb_t_def sz)
qed

lemma new_pcb_ok:
  fixes s :: "'a sched_state_scheme"
  assumes ok: "sched_ok s xs cs P blks" and cnt: "cnt_pcb s < MAX_PCB" and room: "room xs 16384"
  shows "\<exists>p s' xs' cs'. new_pcb s = Some (p, s')
    \<and> sched_ok s' xs' cs' (P(Q_new := P Q_new @ [p])) ((p, sizeof_pcb_t) # blks)
    \<and> (\<forall>q. p \<notin> set (P q)) \<and> pid_of (mem s') p = cnt_pcb s \<and> status_of (mem s') p = NEW
    \<and> (\<forall>k. 4 \<le> unat k \<and> unat k + 4 \<le> 16 \<or> 20 \<le> unat k \<and> unat k + 4 \<le> 116 \<longrightarrow> ld32 (mem s') (p + k) = 0)
    \<and> cnt_pcb s' = cnt_pcb s + 1 \<and> pcb_list s' = (pcb_list s)(cnt_pcb s := p)
    \<and> (\<forall>x \<in> foot blks. mem s' x = mem s x) \<and> (\<forall>t > 0. room xs (t + 16384) \<longrightarrow> room xs' t)
    \<and> q_only s (s'\<lparr>cnt_pcb := cnt_pcb s, pcb_list := pcb_list s\<rparr>)"
proof -
  have slb: "slb_inv s xs cs" using ok by (auto simp: sched_ok_def sched_inv_def)
  have "room xs 8192" using room by (force simp: room_def)
  from slb_alloc_pcb [OF slb this] obtain p s1 where alloc: "slb_alloc sizeof_pcb_t s = Some (p, s1)"
    and gives: "slb_gives 8192 s xs cs (slb_sz sizeof_pcb_t) 4 p s1" and only: "slb_only s s1" by blast
  have sz: "slb_sz sizeof_pcb_t = sizeof_pcb_t"
    by (simp add: slb_sz_def sizeof_slb_obj_t_def int_max_def word_sless_alt sizeof_pcb_t_def)
  note q1 = slb_q_only [OF only]
  from sched_ok_alloc [OF ok gives sz] q1 obtain xs1 cs1 where
    ok1: "sched_ok s1 xs1 cs1 P ((p, sizeof_pcb_t) # blks)" and room1: "\<And>t. 0 < t \<Longrightarrow> room xs (t + 8192) \<Longrightarrow> room xs1 t"
    and keep1: "\<And>x. x \<in> foot blks \<Longrightarrow> mem s1 x = mem s x" and fresh: "\<And>q. p \<notin> set (P q)" by metis
  let ?blks = "(p, sizeof_pcb_t) # blks"
  have cnt1: "cnt_pcb s1 = cnt_pcb s" "pcb_list s1 = pcb_list s" using q_only_fields q1 by blast+
  define s2 where "s2 = (s1\<lparr>pcb_list := (pcb_list s1)(cnt_pcb s1 := p)\<rparr>)
    \<lparr>mem := filled p 116 0 (mem s1)\<rparr>"
  define s3 where "s3 = wr p (cnt_pcb s2) (set_status p NEW s2)"
  have m3: "mem s3 = st32 (st32 (filled p 116 0 (mem s1)) (p + 16) NEW) p (cnt_pcb s)"
    by (simp add: s3_def s2_def set_status_def wr_def cnt1)
  have same3: "same_outside (span p (unat sizeof_pcb_t)) (mem s1) (mem s3)"
    unfolding m3 using status_field [of p] filled_same_outside [of p 116 "mem s1" 0] span_mono [of 4 116 p]
    by (intro same_outside_st32_trans) (auto simp: sizeof_pcb_t_def)
  have bd1: "blocks_disj ?blks" using sched_ok_blocks(1) [OF ok1] .
  have ok3: "sched_ok s3 xs1 cs1 P ?blks"
  proof (rule sched_ok_client [OF ok1 same3])
    show "span p (unat sizeof_pcb_t) \<inter> span (u + 16) 4 = {}" if "u \<in> set (P q)" for q u
      using blocks_disj_pair [OF bd1, of p sizeof_pcb_t u sizeof_pcb_t] sched_ok_blocks(2) [OF ok1 that]
        fresh that status_field [of u] by fastforce
  qed (simp_all add: s3_def s2_def set_status_def wr_def)
  have "room xs1 8192" using room1 room by simp
  from push_ok [OF ok3 _ fresh this, of Q_new] obtain s4 where push: "queue_push Q_new p s3 = Some s4"
    and does: "sched_does 8192 s3 xs1 (P(Q_new := P Q_new @ [p])) ?blks (span (p + 16) 4) (set_status p NEW s4)"
    by auto
  define s5 where "s5 = set_status p NEW s4"
  define s6 where "s6 = s5\<lparr>cnt_pcb := cnt_pcb s5 + 1\<rparr>"
  have new: "new_pcb s = Some (p, s6)"
    using cnt alloc push unfolding s3_def s2_def
    by (simp add: new_pcb_def memset_filled sched_new_def s6_def s5_def cnt1 sizeof_pcb_t_def linorder_not_le [symmetric])
  from does obtain xs2 cs2 where ok5: "sched_ok s5 xs2 cs2 (P(Q_new := P Q_new @ [p])) ?blks"
    and room5: "\<forall>t > 0. room xs1 (t + 8192) \<longrightarrow> room xs2 t" and keep5: "\<forall>x \<in> foot ?blks - span (p + 16) 4. mem s5 x = mem s3 x"
    and only5: "q_only s3 s5"
    by (auto simp: sched_does_def s5_def)
  have ok6: "sched_ok s6 xs2 cs2 (P(Q_new := P Q_new @ [p])) ?blks"
    by (rule sched_ok_client [OF ok5, where A = "{}"]) (simp_all add: s6_def)
  have m6: "mem s6 = mem s5" by (simp add: s6_def)
  have field: "ld32 (mem s6) (p + k) = ld32 (mem s3) (p + k)" if "unat k + 4 \<le> 116" "unat k + 4 \<le> 16 \<or> 20 \<le> unat k" for k
  proof (rule ld32_cong)
    fix x assume x: "x \<in> span (p + k) 4"
    have "span (p + k) 4 \<subseteq> span p (unat sizeof_pcb_t)"
      using that(1) by (intro span_offset_subset) (simp add: sizeof_pcb_t_def)
    moreover have "span (p + k) 4 \<inter> span (p + 16) 4 = {}"
      by (rule span_disjI) (use that u32_diff [of 16 k] u32_diff [of k 16] in auto)
    ultimately show "mem s6 x = mem s3 x" using x keep5 by (auto simp: m6)
  qed
  have zero: "ld32 (mem s6) (p + k) = 0"
    if k: "4 \<le> unat k \<and> unat k + 4 \<le> 16 \<or> 20 \<le> unat k \<and> unat k + 4 \<le> 116" for k
  proof -
    have "span (p + k) 4 \<inter> span p 4 = {}" "span (p + k) 4 \<inter> span (p + 16) 4 = {}"
      by (rule span_disjI; use k u32_diff [of 0 k] u32_diff [of 16 k] u32_diff [of k 16] in auto)+
    then have "ld32 (mem s3) (p + k) = ld32 (filled p 116 0 (mem s1)) (p + k)"
      by (simp add: m3 ld32_st32_disj)
    also have "\<dots> = 0" using k by (intro ld32_filled) auto
    finally show ?thesis using field [of k] k by auto
  qed
  have "pid_of (mem s6) p = cnt_pcb s" using field [of 0] by (simp add: pid_of_def m3)
  moreover have "status_of (mem s6) p = NEW" using ok6 by (auto simp: sched_ok_def statuses_ok_def dest!: spec [of _ Q_new])
  moreover have "cnt_pcb s6 = cnt_pcb s + 1" "pcb_list s6 = (pcb_list s)(cnt_pcb s := p)"
    using q_only_fields [OF only5] cnt1 by (simp_all add: s6_def s3_def s2_def set_status_def wr_def)
  moreover have "\<forall>x \<in> foot blks. mem s6 x = mem s x"
  proof
    fix x assume x: "x \<in> foot blks"
    then have "x \<notin> span p (unat sizeof_pcb_t)" using bd1 by auto
    moreover have "mem s5 x = mem s3 x" using x calculation keep5 status_field [of p] by auto
    ultimately show "mem s6 x = mem s x"
      using keep1 [OF x] same_outsideD [OF same3] by (simp add: m6)
  qed
  moreover have "\<forall>t > 0. room xs (t + 16384) \<longrightarrow> room xs2 t"
    using room1 room5 by (auto simp: add.assoc)
  moreover have "q_only s (s6\<lparr>cnt_pcb := cnt_pcb s, pcb_list := pcb_list s\<rparr>)"
  proof -
    let ?z = "\<lambda>s :: 'a sched_state_scheme. s\<lparr>mem := \<lambda>_. 0, con := [], farea_head := 0, slb_head := 0, q_head := \<lambda>_. 0, q_tail := \<lambda>_. 0, io := []\<rparr>"
    have "?z s5 = ?z s3" "?z s1 = ?z s" using only5 q1 by (simp_all only: q_only_def)
    then have e: "(?z s5)\<lparr>cnt_pcb := cnt_pcb s, pcb_list := pcb_list s\<rparr> = (?z s)\<lparr>cnt_pcb := cnt_pcb s, pcb_list := pcb_list s\<rparr>"
      by (simp add: s3_def s2_def set_status_def wr_def)
    have "?z (s6\<lparr>cnt_pcb := cnt_pcb s, pcb_list := pcb_list s\<rparr>) = (?z s5)\<lparr>cnt_pcb := cnt_pcb s, pcb_list := pcb_list s\<rparr>"
      unfolding s6_def by (rule sched_state.equality) simp_all
    also have "\<dots> = (?z s)\<lparr>cnt_pcb := cnt_pcb s, pcb_list := pcb_list s\<rparr>" by (rule e)
    also have "\<dots> = ?z s" by simp
    finally show ?thesis by (simp only: q_only_def)
  qed
  ultimately show ?thesis using new ok6 zero fresh by blast
qed

end
