(* ===== verification/Sched_Props.thy ===== *)
theory Sched_Props
  imports Sched_Correct
begin

text \<open>
  What the scheduler guarantees: the six moves of a process's life cycle refine moves between
  lists, a timer tick is a round-robin step, and every ready process gets its turn. The states
  of the witnesses are built from a booted allocator by the scheduler's own calls.
\<close>

section \<open>A scheduler after boot\<close>

definition boot_sched :: "slb_state \<Rightarrow> sched_state" where
  "boot_sched s = init_rr \<lparr>mem = mem s, con = con s, io = io s, farea_head = farea_head s, slb_head = slb_head s,
     q_head = \<lambda>_. 0, q_tail = \<lambda>_. 0, cnt_pcb = 0, pcb_list = \<lambda>_. 0, ttbr0 = 0,
     contexts = \<lambda>_. 0x3000\<rparr>"

text \<open>The kernel's static context blocks lie below the memory the allocators manage.\<close>

definition boot_blocks :: "area list" where
  "boot_blocks = [(0x1000, sizeof_pcb_t), (0x2000, sizeof_pcb_t), (0x3000, sizeof_context_cpu_t)]"

lemma boot_sched_ok:
  obtains s :: sched_state and cs where "sched_ok s [(0x80801000, 0x1e7ff000)] cs (\<lambda>_. []) boot_blocks"
    and "contexts s = (\<lambda>_. 0x3000)" and "cnt_pcb s = 0"
proof -
  obtain b c os where "mm_boot (\<lambda>_. 0) = Some b"
    and b: "slb_inv b [(0x80801000, 0x1e7ff000)] [(c, 4, 16, [(0x80800000, 4096, os)])]"
    by (rule mm_booted)
  let ?cs = "[(c, 4, 16, [(0x80800000, 4096, os)])]"
  have inv: "slb_inv (boot_sched b) [(0x80801000, 0x1e7ff000)] ?cs"
    using b by (simp add: boot_sched_def init_rr_def slb_inv_def pages_inv_def)
  have sub: "foot [(0x80801000, 0x1e7ff000)] \<union> foot (chunks ?cs) \<subseteq> arena" using b by (simp add: slb_inv_def)
  have disj: "blocks_disj boot_blocks"
    by (auto simp: boot_blocks_def sizeof_pcb_t_def sizeof_context_cpu_t_def span_nowrap)
  have out: "foot boot_blocks \<inter> arena = {}"
    by (auto simp: boot_blocks_def sizeof_pcb_t_def sizeof_context_cpu_t_def span_nowrap arena_def)
  have "sched_inv (boot_sched b) [(0x80801000, 0x1e7ff000)] ?cs (\<lambda>_. []) boot_blocks"
    unfolding sched_inv_def
  proof (intro conjI allI)
    show "slb_inv (boot_sched b) [(0x80801000, 0x1e7ff000)] ?cs" by (rule inv)
    show "queue_ok (mem (boot_sched b)) (q_head (boot_sched b) q) (q_tail (boot_sched b) q) []" for q
      by (simp add: queue_ok_def boot_sched_def init_rr_def)
    show "blocks_disj (el_areas (q_els (\<lambda>_. [])) @ boot_blocks)"
      using disj by (simp add: q_els_def all_queues_def)
    show "foot (el_areas (q_els (\<lambda>_. [])) @ boot_blocks)
        \<inter> (foot [(0x80801000, 0x1e7ff000)] \<union> foot (chunks ?cs)) = {}"
      using out sub by (simp only: foot_append) (auto simp: q_els_def all_queues_def)
  qed
  then have "sched_ok (boot_sched b) [(0x80801000, 0x1e7ff000)] ?cs (\<lambda>_. []) boot_blocks"
    by (auto simp: sched_ok_def procs_of_def one_queue_def statuses_ok_def)
  then show ?thesis by (rule that) (simp_all add: boot_sched_def init_rr_def)
qed

lemma room_boot: "room [(0x80801000, 0x1e7ff000)] n \<longleftrightarrow> n \<le> 511700992"
  by (simp add: room_def)

lemma sched_does_ok:
  assumes "sched_does d s xs P' blks A s'" and "0 < n" and "room xs (n + d)"
  obtains xs' cs' where "sched_ok s' xs' cs' P' blks" and "room xs' n" and "q_only s s'"
  using assms unfolding sched_does_def by blast

text \<open>A process in the new queue; one running and one ready.\<close>

lemma boot_new:
  obtains s :: sched_state and xs cs where "sched_ok s xs cs ((\<lambda>_. [])(Q_new := [0x1000])) boot_blocks"
    and "room xs 65536"
proof -
  obtain s :: sched_state and cs where s: "sched_ok s [(0x80801000, 0x1e7ff000)] cs (\<lambda>_. []) boot_blocks"
    "contexts s = (\<lambda>_. 0x3000)"
    using boot_sched_ok .
  have "(0x1000, sizeof_pcb_t) \<in> set boot_blocks" by (simp add: boot_blocks_def)
  from push_ok [OF s(1) this, of Q_new] obtain s' where s':
    "sched_does 8192 s [(0x80801000, 0x1e7ff000)] ((\<lambda>_. [])(Q_new := [0x1000])) boot_blocks
       (span (0x1000 + 16) 4) (set_status 0x1000 NEW s')"
    by (auto simp: room_boot)
  have r: "room [(0x80801000, 0x1e7ff000)] (65536 + 8192)" "0 < (65536 :: nat)" by (simp_all add: room_boot)
  show ?thesis using sched_does_ok [OF s' r(2,1)] that by metis
qed

lemma boot_running:
  obtains s :: sched_state and xs cs
  where "sched_ok s xs cs ((\<lambda>_. [])(Q_running := [0x1000], Q_ready := [0x2000])) boot_blocks"
    and "room xs 65536" and "contexts s = (\<lambda>_. 0x3000)"
proof -
  obtain s :: sched_state and cs where s: "sched_ok s [(0x80801000, 0x1e7ff000)] cs (\<lambda>_. []) boot_blocks"
    "contexts s = (\<lambda>_. 0x3000)"
    using boot_sched_ok .
  have blk: "(0x1000, sizeof_pcb_t) \<in> set boot_blocks" "(0x2000, sizeof_pcb_t) \<in> set boot_blocks"
    by (simp_all add: boot_blocks_def)
  from push_ok [OF s(1) blk(1), of Q_running] obtain s1 where s1:
    "sched_does 8192 s [(0x80801000, 0x1e7ff000)] ((\<lambda>_. [])(Q_running := [0x1000])) boot_blocks
       (span (0x1000 + 16) 4) s1"
    by (auto simp: room_boot)
  have r: "room [(0x80801000, 0x1e7ff000)] (73728 + 8192)" "0 < (73728 :: nat)" by (simp_all add: room_boot)
  define P1 where "P1 = (\<lambda>_ :: queue. [] :: u32 list)(Q_running := [0x1000])"
  from sched_does_ok [OF s1 r(2,1), folded P1_def] obtain xs1 cs1 where
    1: "sched_ok s1 xs1 cs1 P1 boot_blocks" "room xs1 73728" "q_only s s1" by metis
  have out: "0x2000 \<notin> set (P1 q)" for q by (simp add: P1_def)
  have "room xs1 8192" using 1(2) by (force simp: room_def)
  from push_ok [OF 1(1) blk(2) out this, of Q_ready] obtain s2 where s2:
    "sched_does 8192 s1 xs1 (P1(Q_ready := P1 Q_ready @ [0x2000])) boot_blocks (span (0x2000 + 16) 4) s2"
    by auto
  have P2: "P1(Q_ready := P1 Q_ready @ [0x2000]) = (\<lambda>_. [])(Q_running := [0x1000], Q_ready := [0x2000])"
    by (simp add: P1_def)
  have r: "room xs1 (65536 + 8192)" "0 < (65536 :: nat)" using 1(2) by simp_all
  from sched_does_ok [OF s2 [unfolded P2] r(2,1)] obtain xs2 cs2 where
    2: "sched_ok s2 xs2 cs2 ((\<lambda>_. [])(Q_running := [0x1000], Q_ready := [0x2000])) boot_blocks"
    "room xs2 65536" "q_only s1 s2" by metis
  show ?thesis
    using q_only_fields(4) [OF 1(3)] q_only_fields(4) [OF 2(3)] s(2) by (intro that [OF 2(1,2)]) simp
qed

section \<open>Results\<close>

text \<open>The moves of \<open>policy_rr.c\<close>: from, to, and the function.\<close>

definition life_cycle :: "(queue \<times> queue \<times> (u32 \<Rightarrow> 'a sched_state_scheme \<Rightarrow> 'a sched_state_scheme option)) list" where
  "life_cycle = [(Q_new, Q_ready, sched_mature), (Q_ready, Q_running, sched_allow),
     (Q_running, Q_wait, sched_block), (Q_running, Q_ready, sched_preempt), (Q_wait, Q_ready, sched_wake),
     (Q_running, Q_zombie, sched_finish)]"

text \<open>
  C3. The six functions that move a process refine a move between two lists. If the queues are
  well-formed and the process is in the source queue (and two pages can be had for the queue
  element), the function returns, the process is at the end of the target queue and nowhere
  else, its status is the target's, the other processes keep their order, and of the caller's
  blocks only the status field is written.
\<close>

theorem sched_moves_refine:
  assumes "sched_ok s xs cs P blks" and "(q, q', f) \<in> set life_cycle" and "t \<in> set (P q)" and "room xs 8192"
  shows "\<exists>s' xs' cs'. f t s = Some s' \<and> sched_ok s' xs' cs' (move q q' t P) blks
    \<and> status_of (mem s') t = queue_status q'
    \<and> (\<forall>x \<in> foot blks - span (t + 16) 4. mem s' x = mem s x)"
proof -
  have one: "one_queue P" and t: "(t, sizeof_pcb_t) \<in> set blks"
    using assms(1) sched_ok_blocks(2) [OF assms(1,3)] by (simp_all add: sched_ok_def)
  have f: "f t s = move_to q q' (queue_status q') t s"
    using assms(2) by (auto simp: life_cycle_def sched_mature_def sched_allow_def sched_block_def
        sched_preempt_def sched_wake_def sched_finish_def)
  obtain s' where s': "f t s = Some s'" "sched_does 8192 s xs (move q q' t P) blks (span (t + 16) 4) s'"
    using move_to_ok [OF assms(1) t one_queue_elsewhere [OF one assms(3)] assms(4), of q'] f by auto
  from s'(2) obtain xs' cs' where ok: "sched_ok s' xs' cs' (move q q' t P) blks"
    and keep: "\<forall>x \<in> foot blks - span (t + 16) 4. mem s' x = mem s x" unfolding sched_does_def by blast
  moreover have "t \<in> set (move q q' t P q')" by (simp add: move_def Let_def)
  ultimately show ?thesis using s'(1) by (auto simp: sched_ok_def statuses_ok_def)
qed

theorem sched_moves_refine_witness:
  "\<exists>s s' :: sched_state. \<exists>xs cs. sched_mature 0x1000 s = Some s'
    \<and> sched_ok s' xs cs ((\<lambda>_. [])(Q_ready := [0x1000])) boot_blocks"
proof -
  obtain s :: sched_state and xs cs where s: "sched_ok s xs cs ((\<lambda>_. [])(Q_new := [0x1000])) boot_blocks"
    "room xs 65536" by (rule boot_new)
  have m: "(Q_new, Q_ready, sched_mature) \<in> set life_cycle" by (simp add: life_cycle_def)
  have r: "room xs 8192" using s(2) by (force simp: room_def)
  have "move Q_new Q_ready 0x1000 ((\<lambda>_. [])(Q_new := [0x1000])) = (\<lambda>_. [])(Q_ready := [0x1000])"
    by (auto simp: move_def)
  with sched_moves_refine [OF s(1) m _ r, of "0x1000"] show ?thesis by auto
qed

text \<open>
  C9. A timer tick is one round-robin step. The running process goes to the end of the ready queue
  and the head of that queue runs; the registers interrupted by the timer are saved in the
  control block of the first, the interrupt returns with the registers and the page table of
  the second, and apart from the two status fields nothing else of the caller's blocks changes.
\<close>

theorem sched_main_round_robin:
  assumes "sched_ok s xs cs P blks" and "P Q_running \<noteq> []" and "contexts s Ctx_irq = irq"
    and "(irq, sizeof_context_cpu_t) \<in> set blks" and "room xs 16384"
  shows "\<exists>s'. sched_main s = Some s' \<and> sched_ticks s xs P blks irq s'"
  by (rule sched_main_ok [OF assms])

theorem sched_main_round_robin_witness:
  "\<exists>s s' :: sched_state. \<exists>xs cs. sched_main s = Some s'
    \<and> sched_ok s' xs cs ((\<lambda>_. [])(Q_running := [0x2000], Q_ready := [0x1000])) boot_blocks"
proof -
  obtain s :: sched_state and xs cs where s:
    "sched_ok s xs cs ((\<lambda>_. [])(Q_running := [0x1000], Q_ready := [0x2000])) boot_blocks"
    "room xs 65536" "contexts s = (\<lambda>_. 0x3000)" by (rule boot_running)
  have r: "room xs 16384" using s(2) by (force simp: room_def)
  have irq: "contexts s Ctx_irq = 0x3000" "(0x3000, sizeof_context_cpu_t) \<in> set boot_blocks"
    by (simp_all add: s(3) boot_blocks_def)
  have "tick ((\<lambda>_. [])(Q_running := [0x1000], Q_ready := [0x2000])) = (\<lambda>_. [])(Q_running := [0x2000], Q_ready := [0x1000])"
    by (auto simp: tick_def)
  with sched_main_round_robin [OF s(1) _ irq r] show ?thesis by (auto simp: sched_ticks_def Let_def)
qed

text \<open>The ticks of the timer, one after the other.\<close>

fun ticks :: "nat \<Rightarrow> 'a sched_state_scheme \<Rightarrow> 'a sched_state_scheme option" where
  "ticks 0 s = Some s"
| "ticks (Suc n) s = do { s \<leftarrow> sched_main s; ticks n s }"

lemma tick_rotate:
  assumes "P Q_running = [now]"
  shows "tick P Q_running @ tick P Q_ready = rotate1 (now # P Q_ready)" and "length (tick P Q_running) = 1"
  using assms by (cases "P Q_ready"; simp add: tick_def)+

lemma page_table_kept:
  assumes "sched_ticks s xs P blks irq s'" and "sched_ok s xs cs P blks" and "P Q_running \<noteq> []"
    and "(irq, sizeof_context_cpu_t) \<in> set blks" and u: "(u, sizeof_pcb_t) \<in> set blks"
  shows "page_table_of (mem s') u = page_table_of (mem s) u"
  unfolding page_table_of_def
proof (rule ld32_cong)
  fix x assume x: "x \<in> span (u + 24) 4"
  define now where "now = hd (P Q_running)"
  have bd: "blocks_disj blks" using sched_ok_blocks(1) [OF assms(2)] .
  have now: "(now, sizeof_pcb_t) \<in> set blks"
    using sched_ok_blocks(2) [OF assms(2), of now Q_running] assms(3) by (simp add: now_def)
  have nxt: "(next_up P, sizeof_pcb_t) \<in> set blks"
    using now sched_ok_blocks(2) [OF assms(2), of _ Q_ready] by (cases "P Q_ready") (auto simp: next_up_def now_def)
  have sub: "span (u + 24) 4 \<subseteq> span u (unat sizeof_pcb_t)"
    by (rule span_offset_subset) (simp add: sizeof_pcb_t_def)
  have "span (u + 24) 4 \<inter> span (cpu_of now) 72 = {}"
  proof (cases "u = now")
    case True
    show ?thesis unfolding True cpu_of_def by (rule span_disjI) simp_all
  next
    case False
    then show ?thesis
      using blocks_disj_pair [OF bd u now] sub cpu_field [of now] by (auto simp: sizeof_context_cpu_t_def)
  qed
  moreover have "span irq 72 \<inter> span u (unat sizeof_pcb_t) = {}"
    using blocks_disj_pair [OF bd assms(4) u] by (simp add: sizeof_context_cpu_t_def sizeof_pcb_t_def)
  moreover have "span (u + 24) 4 \<inter> span (now + 16) 4 = {}" "span (u + 24) 4 \<inter> span (next_up P + 16) 4 = {}"
    using pcb_field_status [OF bd now u, of 24 4] pcb_field_status [OF bd nxt u, of 24 4] by simp_all
  ultimately show "mem s' x = mem s x"
    using assms(1) x sub area_in_foot [OF u] unfolding sched_ticks_def Let_def now_def [symmetric] by blast
qed

lemma ticks_rotate:
  fixes s :: "'a sched_state_scheme"
  assumes "sched_ok s xs cs P blks" and "P Q_running = [now]" and "contexts s Ctx_irq = irq"
    and "(irq, sizeof_context_cpu_t) \<in> set blks" and "room xs (16384 * n + 1)"
  shows "\<exists>s' xs' cs' P' now'. ticks n s = Some s' \<and> sched_ok s' xs' cs' P' blks \<and> P' Q_running = [now']
    \<and> now' # P' Q_ready = rotate n (now # P Q_ready)
    \<and> (0 < n \<longrightarrow> ttbr0 s' = V2P (page_table_of (mem s) now'))"
  using assms
proof (induction n arbitrary: s xs cs P now)
  case 0
  then show ?case by auto
next
  case (Suc n)
  have "room xs 16384" using Suc.prems(5) by (force simp: room_def)
  from sched_main_ok [OF Suc.prems(1) _ Suc.prems(3,4) this] obtain s1 where s1: "sched_main s = Some s1"
    "sched_ticks s xs P blks irq s1" by (auto simp: Suc.prems(2))
  then obtain xs1 cs1 where ok1: "sched_ok s1 xs1 cs1 (tick P) blks" "\<forall>t > 0. room xs (t + 16384) \<longrightarrow> room xs1 t"
    "contexts s1 = contexts s" "ttbr0 s1 = V2P (page_table_of (mem s) (next_up P))"
    by (auto simp: sched_ticks_def Let_def)
  obtain now1 where now1: "tick P Q_running = [now1]" using tick_rotate(2) [of P, OF Suc.prems(2)]
    by (cases "tick P Q_running") auto
  have rot: "now1 # tick P Q_ready = rotate1 (now # P Q_ready)" using tick_rotate(1) [of P, OF Suc.prems(2)] now1 by simp
  have "room xs1 (16384 * n + 1)" using ok1(2) Suc.prems(5) by (simp add: add.commute)
  from Suc.IH [OF ok1(1) now1 _ Suc.prems(4) this] ok1(3) Suc.prems(3) obtain s' xs' cs' P' now' where
    s': "ticks n s1 = Some s'" "sched_ok s' xs' cs' P' blks" "P' Q_running = [now']"
      "now' # P' Q_ready = rotate n (now1 # tick P Q_ready)"
      "0 < n \<Longrightarrow> ttbr0 s' = V2P (page_table_of (mem s1) now')" by auto
  have "now' # P' Q_ready = rotate (Suc n) (now # P Q_ready)" using s'(4) by (simp add: rot rotate1_rotate_swap)
  moreover have "ttbr0 s' = V2P (page_table_of (mem s) now')"
  proof (cases "n = 0")
    case True
    then have "now' = next_up P" using s'(1,4) rot by (cases "P Q_ready") (simp_all add: next_up_def Suc.prems(2))
    then show ?thesis using True s'(1) ok1(4) by simp
  next
    case False
    have "now' \<in> set (now1 # tick P Q_ready)" using s'(4) by (metis list.set_intros(1) set_rotate)
    then have "(now', sizeof_pcb_t) \<in> set blks"
      using sched_ok_blocks(2) [OF ok1(1), of now' Q_running] sched_ok_blocks(2) [OF ok1(1), of now' Q_ready] now1 by auto
    then show ?thesis using page_table_kept [OF s1(2) Suc.prems(1) _ Suc.prems(4)] s'(5) False Suc.prems(2) by simp
  qed
  ultimately show ?case using s1(1) s'(1-3) by auto
qed

text \<open>
  C16. No process starves. With one process running and memory for the queue elements, a process
  that is \<open>k\<close>-th in the ready queue (from 0) runs after \<open>k + 1\<close> timer ticks, in its own
  address space.
\<close>

theorem sched_fair:
  assumes "sched_ok s xs cs P blks" and "P Q_running = [now]" and "contexts s Ctx_irq = irq"
    and "(irq, sizeof_context_cpu_t) \<in> set blks" and "k < length (P Q_ready)" and "room xs (16384 * (k + 1) + 1)"
  shows "\<exists>s'. ticks (k + 1) s = Some s' \<and> sched_get_running s' = P Q_ready ! k
    \<and> status_of (mem s') (P Q_ready ! k) = RUNNING \<and> ttbr0 s' = V2P (page_table_of (mem s) (P Q_ready ! k))"
proof -
  from ticks_rotate [OF assms(1-4,6)] obtain s' xs' cs' P' now' where
    s': "ticks (k + 1) s = Some s'" "sched_ok s' xs' cs' P' blks" "P' Q_running = [now']"
      "now' # P' Q_ready = rotate (k + 1) (now # P Q_ready)" "ttbr0 s' = V2P (page_table_of (mem s) now')"
    by auto
  have "now' = rotate (k + 1) (now # P Q_ready) ! 0" using s'(4) by (metis nth_Cons_0)
  also have "\<dots> = P Q_ready ! k" using assms(5) by (subst nth_rotate) simp_all
  finally have now': "now' = P Q_ready ! k" .
  have "sched_get_running s' = now'" using sched_ok_blocks(3) [OF s'(2), of Q_running] s'(3)
    by (simp add: sched_get_running_def)
  moreover have "status_of (mem s') now' = RUNNING"
    using s'(2,3) by (auto simp: sched_ok_def statuses_ok_def dest!: spec [of _ Q_running])
  ultimately show ?thesis using s'(1,5) now' by simp
qed

theorem sched_fair_witness:
  "\<exists>s s' :: sched_state. sched_get_running s = 0x1000 \<and> ticks 1 s = Some s' \<and> sched_get_running s' = 0x2000"
proof -
  obtain s :: sched_state and xs cs where s:
    "sched_ok s xs cs ((\<lambda>_. [])(Q_running := [0x1000], Q_ready := [0x2000])) boot_blocks"
    "room xs 65536" "contexts s = (\<lambda>_. 0x3000)" by (rule boot_running)
  have r: "room xs (16384 * (0 + 1) + 1)" using s(2) by (force simp: room_def)
  have irq: "contexts s Ctx_irq = 0x3000" "(0x3000, sizeof_context_cpu_t) \<in> set boot_blocks"
    by (simp_all add: s(3) boot_blocks_def)
  have "sched_get_running s = 0x1000"
    using sched_ok_blocks(3) [OF s(1), of Q_running] by (simp add: sched_get_running_def)
  then show ?thesis using sched_fair [OF s(1) _ irq, of "0x1000" 0] r by auto
qed

text \<open>
  C31. Killing a process that is new, ready, running or waiting moves it to the abort queue.
\<close>

theorem sched_kill_aborts:
  assumes "sched_ok s xs cs P blks" and "t \<in> set (P q)" and "q \<notin> {Q_zombie, Q_abort}" and "room xs 8192"
  shows "\<exists>s' xs' cs'. sched_kill t s = Some s' \<and> sched_ok s' xs' cs' (move q Q_abort t P) blks"
  using sched_kill_ok [OF assms] unfolding sched_does_def by blast

theorem sched_kill_aborts_witness:
  "\<exists>s s' :: sched_state. \<exists>xs cs. sched_kill 0x1000 s = Some s'
    \<and> sched_ok s' xs cs ((\<lambda>_. [])(Q_abort := [0x1000])) boot_blocks"
proof -
  obtain s :: sched_state and xs cs where s: "sched_ok s xs cs ((\<lambda>_. [])(Q_new := [0x1000])) boot_blocks"
    "room xs 65536" by (rule boot_new)
  have r: "room xs 8192" using s(2) by (force simp: room_def)
  have "move Q_new Q_abort 0x1000 ((\<lambda>_. [])(Q_new := [0x1000])) = (\<lambda>_. [])(Q_abort := [0x1000])"
    by (auto simp: move_def)
  with sched_kill_aborts [OF s(1) _ _ r, of "0x1000" Q_new] show ?thesis by auto
qed

text \<open>
  C30. A new process. \<open>new_pcb\<close> returns a block of its own, zeroed but for its pid, registered under
  that pid and last in the new queue; the other processes and the caller's blocks are as before.
\<close>

theorem new_pcb_correct:
  assumes "sched_ok s xs cs P blks" and "cnt_pcb s < MAX_PCB" and "room xs 16384"
  shows "\<exists>p s' xs' cs'. new_pcb s = Some (p, s')
    \<and> sched_ok s' xs' cs' (P(Q_new := P Q_new @ [p])) ((p, sizeof_pcb_t) # blks)
    \<and> (\<forall>q. p \<notin> set (P q)) \<and> pid_of (mem s') p = cnt_pcb s \<and> status_of (mem s') p = NEW
    \<and> (\<forall>k. 4 \<le> unat k \<and> unat k + 4 \<le> 16 \<or> 20 \<le> unat k \<and> unat k + 4 \<le> 116 \<longrightarrow> ld32 (mem s') (p + k) = 0)
    \<and> cnt_pcb s' = cnt_pcb s + 1 \<and> pcb_list s' = (pcb_list s)(cnt_pcb s := p)
    \<and> (\<forall>x \<in> foot blks. mem s' x = mem s x)"
  using new_pcb_ok [OF assms] by blast

theorem new_pcb_correct_witness:
  "\<exists>s s' :: sched_state. \<exists>p. new_pcb s = Some (p, s') \<and> pid_of (mem s') p = 0 \<and> cnt_pcb s' = 1"
proof -
  obtain s :: sched_state and cs where s: "sched_ok s [(0x80801000, 0x1e7ff000)] cs (\<lambda>_. []) boot_blocks"
    "contexts s = (\<lambda>_. 0x3000)" "cnt_pcb s = 0"
    using boot_sched_ok .
  have "cnt_pcb s < MAX_PCB" by (simp add: s(3) MAX_PCB_def)
  from new_pcb_correct [OF s(1) this] show ?thesis by (auto simp: room_boot s(3))
qed

end
