(* ===== verification/Bus.thy ===== *)
theory Bus
  imports Prelude
begin

text \<open>
  Device registers (\<open>include/arch/armv7a-le/asm/io.h\<close>). The hardware is not code of the
  kernel: it is a parameter that says, from the register accesses so far, what a read yields
  and what the device has stored in memory by then. Every access is appended to the trace
  \<open>io\<close> of the machine, so what a driver does to its device is a list of accesses.
\<close>

record hardware =
  hw_read :: "io_event list \<Rightarrow> u32 \<Rightarrow> u32"
  hw_dma :: "io_event list \<Rightarrow> memory \<Rightarrow> memory"

section \<open>Accesses\<close>

definition bus_read :: "hardware \<Rightarrow> io_event \<Rightarrow> 'a machine_scheme \<Rightarrow> 'a machine_scheme" where
  "bus_read hw e s = (let io' = io s @ [e] in s\<lparr>io := io', mem := hw_dma hw io' (mem s)\<rparr>)"

definition in8 :: "hardware \<Rightarrow> u32 \<Rightarrow> 'a machine_scheme \<Rightarrow> u8 \<times> 'a machine_scheme" where
  "in8 hw addr s = (let v = ucast (hw_read hw (io s) addr) in (v, bus_read hw (In8 addr v) s))"

definition in16 :: "hardware \<Rightarrow> u32 \<Rightarrow> 'a machine_scheme \<Rightarrow> u16 \<times> 'a machine_scheme" where
  "in16 hw addr s = (let v = ucast (hw_read hw (io s) addr) in (v, bus_read hw (In16 addr v) s))"

definition in32 :: "hardware \<Rightarrow> u32 \<Rightarrow> 'a machine_scheme \<Rightarrow> u32 \<times> 'a machine_scheme" where
  "in32 hw addr s = (let v = hw_read hw (io s) addr in (v, bus_read hw (In32 addr v) s))"

definition out8 :: "u32 \<Rightarrow> u8 \<Rightarrow> 'a machine_scheme \<Rightarrow> 'a machine_scheme" where
  "out8 addr data s = s\<lparr>io := io s @ [Out8 addr data]\<rparr>"

definition out16 :: "u32 \<Rightarrow> u16 \<Rightarrow> 'a machine_scheme \<Rightarrow> 'a machine_scheme" where
  "out16 addr data s = s\<lparr>io := io s @ [Out16 addr data]\<rparr>"

definition out32 :: "u32 \<Rightarrow> u32 \<Rightarrow> 'a machine_scheme \<Rightarrow> 'a machine_scheme" where
  "out32 addr data s = s\<lparr>io := io s @ [Out32 addr data]\<rparr>"

text \<open>\<open>reg |= v\<close> on a device register.\<close>

definition or32 :: "hardware \<Rightarrow> u32 \<Rightarrow> u32 \<Rightarrow> 'a machine_scheme \<Rightarrow> 'a machine_scheme" where
  "or32 hw addr v s = (let (x, s) = in32 hw addr s in out32 addr (x OR v) s)"

definition and32 :: "hardware \<Rightarrow> u32 \<Rightarrow> u32 \<Rightarrow> 'a machine_scheme \<Rightarrow> 'a machine_scheme" where
  "and32 hw addr v s = (let (x, s) = in32 hw addr s in out32 addr (x AND v) s)"

text \<open>Reading a register until its value satisfies a condition: \<open>while (!(cond));\<close>. The value
  is the last one read.\<close>

partial_function (option) spin_until ::
    "('s \<Rightarrow> 'v \<times> 's) \<Rightarrow> ('v \<Rightarrow> bool) \<Rightarrow> 's \<Rightarrow> ('v \<times> 's) option" where
  [code]: "spin_until acc ok s =
     (case acc s of (v, s') \<Rightarrow> if ok v then Some (v, s') else spin_until acc ok s')"

section \<open>What an access leaves alone\<close>

lemma con_bus [simp]:
  "con (bus_read hw e s) = con s" "con (out8 a v8 s) = con s" "con (out16 a v16 s) = con s" "con (out32 a v s) = con s"
  by (simp_all add: bus_read_def out8_def out16_def out32_def Let_def)

lemma mem_out [simp]:
  "mem (out8 a v8 s) = mem s" "mem (out16 a v16 s) = mem s" "mem (out32 a v s) = mem s"
  by (simp_all add: out8_def out16_def out32_def)

lemma io_bus [simp]:
  "io (bus_read hw e s) = io s @ [e]"
  "io (out8 a v8 s) = io s @ [Out8 a v8]" "io (out16 a v16 s) = io s @ [Out16 a v16]"
  "io (out32 a v s) = io s @ [Out32 a v]"
  by (simp_all add: bus_read_def out8_def out16_def out32_def Let_def)

text \<open>A driver only appends to the trace.\<close>

definition io_extends :: "'a machine_scheme \<Rightarrow> 'a machine_scheme \<Rightarrow> bool" where
  "io_extends s s' \<longleftrightarrow> (\<exists>es. io s' = io s @ es)"

lemma io_extends_refl [simp, frame_intro]: "io_extends s s"
  by (simp add: io_extends_def)

lemma io_extends_trans [trans]: "io_extends s s' \<Longrightarrow> io_extends s' s'' \<Longrightarrow> io_extends s s''"
  by (auto simp: io_extends_def)

lemma io_extends_bus [simp, frame_intro]:
  "io_extends s (bus_read hw e s)" "io_extends s (out8 a v8 s)" "io_extends s (out16 a v16 s)" "io_extends s (out32 a v s)"
  by (simp_all add: io_extends_def)

text \<open>Spinning ends when one of the reads that follow yields an accepted value.\<close>

lemma spin_until_hit: "acc s = (v, s') \<Longrightarrow> ok v \<Longrightarrow> spin_until acc ok s = Some (v, s')"
  by (simp add: spin_until.simps)

lemma spin_until_returns:
  "ok (fst (acc (((snd \<circ> acc) ^^ n) s))) \<Longrightarrow> \<exists>v s'. spin_until acc ok s = Some (v, s')"
proof (induction n arbitrary: s)
  case 0
  then show ?case by (cases "acc s") (simp add: spin_until.simps)
next
  case (Suc n)
  obtain v s1 where s1: "acc s = (v, s1)" by force
  have "((snd \<circ> acc) ^^ Suc n) s = ((snd \<circ> acc) ^^ n) s1" unfolding funpow_Suc_right using s1 by simp
  then have "ok (fst (acc (((snd \<circ> acc) ^^ n) s1)))" using Suc.prems by (simp only:)
  from Suc.IH [OF this] show ?case using s1 by (subst spin_until.simps) auto
qed

lemma spin_until_induct:
  assumes "spin_until acc ok s = Some (v, s')" and "\<And>s. P s s"
    and "\<And>s v s1 s'. acc s = (v, s1) \<Longrightarrow> P s1 s' \<Longrightarrow> P s s'"
  shows "ok v \<and> P s s'"
proof -
  have "acc = acc \<longrightarrow> ok = ok \<longrightarrow> ok (fst (v, s')) \<and> P s (snd (v, s'))"
  proof (rule spin_until.raw_induct [where P = "\<lambda>acc' ok' s r. acc' = acc \<longrightarrow> ok' = ok \<longrightarrow> ok (fst r) \<and> P s (snd r)",
        OF _ assms(1)], intro impI)
    fix f acc' ok' s r
    assume IH: "\<And>acc' ok' s r. f acc' ok' s = Some r \<Longrightarrow> acc' = acc \<longrightarrow> ok' = ok \<longrightarrow> ok (fst r) \<and> P s (snd r)"
      and eq: "(case acc' s of (v, s') \<Rightarrow> if ok' v then Some (v, s') else f acc' ok' s') = Some r"
      and acc: "acc' = acc" "ok' = ok"
    obtain v s1 where s1: "acc s = (v, s1)" by force
    show "ok (fst r) \<and> P s (snd r)"
    proof (cases "ok v")
      case True
      then show ?thesis using eq s1 assms(2,3) by (auto simp: acc)
    next
      case False
      then have "f acc' ok' s1 = Some r" using eq s1 by (simp add: acc)
      from IH [OF this] show ?thesis using assms(3) [OF s1] acc by simp
    qed
  qed
  then show ?thesis by simp
qed

end
