(* ===== verification/Dtb.thy ===== *)
theory Dtb
  imports Bus
begin

text \<open>
  Where the devices of the Zynq are (\<open>drivers/misc/dtb-zynq7000.h\<close>), and the variables of
  \<open>dtb-zynq7000.c\<close> the drivers read them from. The kernel never writes these variables.
\<close>

named_theorems dtb

section \<open>Physical addresses\<close>

definition OCM_PHYSBASE_LO :: u32 where [dtb]: "OCM_PHYSBASE_LO = 0x00000000"
definition DDR_PHYSBASE_SCU :: u32 where [dtb]: "DDR_PHYSBASE_SCU = 0x00000000"
definition DDR_PHYSBASE_NOSCU :: u32 where [dtb]: "DDR_PHYSBASE_NOSCU = 0x00100000"
definition AXI_GP0_PHYSBASE :: u32 where [dtb]: "AXI_GP0_PHYSBASE = 0x40000000"
definition AXI_GP1_PHYSBASE :: u32 where [dtb]: "AXI_GP1_PHYSBASE = 0x80000000"
definition DDR_PHYSEND :: u32 where [dtb]: "DDR_PHYSEND = 0x20000000"
definition UART0_PHYSBASE :: u32 where [dtb]: "UART0_PHYSBASE = 0xe0000000"
definition UART1_PHYSBASE :: u32 where [dtb]: "UART1_PHYSBASE = 0xe0001000"
definition USB0_PHYSBASE :: u32 where [dtb]: "USB0_PHYSBASE = 0xe0002000"
definition USB1_PHYSBASE :: u32 where [dtb]: "USB1_PHYSBASE = 0xe0003000"
definition I2C0_PHYSBASE :: u32 where [dtb]: "I2C0_PHYSBASE = 0xe0004000"
definition I2C1_PHYSBASE :: u32 where [dtb]: "I2C1_PHYSBASE = 0xe0005000"
definition SPI0_PHYSBASE :: u32 where [dtb]: "SPI0_PHYSBASE = 0xe0006000"
definition SPI1_PHYSBASE :: u32 where [dtb]: "SPI1_PHYSBASE = 0xe0007000"
definition CAN0_PHYSBASE :: u32 where [dtb]: "CAN0_PHYSBASE = 0xe0008000"
definition CAN1_PHYSBASE :: u32 where [dtb]: "CAN1_PHYSBASE = 0xe0009000"
definition GPIO_PHYSBASE :: u32 where [dtb]: "GPIO_PHYSBASE = 0xe000a000"
definition GEM0_PHYSBASE :: u32 where [dtb]: "GEM0_PHYSBASE = 0xe000b000"
definition GEM1_PHYSBASE :: u32 where [dtb]: "GEM1_PHYSBASE = 0xe000c000"
definition QSPI_PHYSBASE :: u32 where [dtb]: "QSPI_PHYSBASE = 0xe000d000"
definition SMCC_PHYSBASE :: u32 where [dtb]: "SMCC_PHYSBASE = 0xe000e000"
definition SD0_PHYSBASE :: u32 where [dtb]: "SD0_PHYSBASE = 0xe0100000"
definition SD1_PHYSBASE :: u32 where [dtb]: "SD1_PHYSBASE = 0xe0101000"
definition SMC_NAND_PHYSBASE :: u32 where [dtb]: "SMC_NAND_PHYSBASE = 0xe1000000"
definition SMC_SRAM0_PHYSBASE :: u32 where [dtb]: "SMC_SRAM0_PHYSBASE = 0xe2000000"
definition SMC_SRAM1_PHYSBASE :: u32 where [dtb]: "SMC_SRAM1_PHYSBASE = 0xe4000000"
definition SLCR_PHYSBASE :: u32 where [dtb]: "SLCR_PHYSBASE = 0xf8000000"
definition TTC0_PHYSBASE :: u32 where [dtb]: "TTC0_PHYSBASE = 0xf8001000"
definition TTC1_PHYSBASE :: u32 where [dtb]: "TTC1_PHYSBASE = 0xf8002000"
definition DMAC0_S_PHYSBASE :: u32 where [dtb]: "DMAC0_S_PHYSBASE = 0xf8003000"
definition DMAC0_NS_PHYSBASE :: u32 where [dtb]: "DMAC0_NS_PHYSBASE = 0xf8004000"
definition SWDT_PHYSBASE :: u32 where [dtb]: "SWDT_PHYSBASE = 0xf8005000"
definition DDRC_PHYSBASE :: u32 where [dtb]: "DDRC_PHYSBASE = 0xf8006000"
definition DEVCFG_PHYSBASE :: u32 where [dtb]: "DEVCFG_PHYSBASE = 0xf8007000"
definition AXI_HP0_PHYSBASE :: u32 where [dtb]: "AXI_HP0_PHYSBASE = 0xf8008000"
definition AXI_HP1_PHYSBASE :: u32 where [dtb]: "AXI_HP1_PHYSBASE = 0xf8009000"
definition AXI_HP2_PHYSBASE :: u32 where [dtb]: "AXI_HP2_PHYSBASE = 0xf800a000"
definition AXI_HP3_PHYSBASE :: u32 where [dtb]: "AXI_HP3_PHYSBASE = 0xf800b000"
definition OCMC_PHYSBASE :: u32 where [dtb]: "OCMC_PHYSBASE = 0xf800c000"
definition DEBUG_DAP_ROM_PHYSBASE :: u32 where [dtb]: "DEBUG_DAP_ROM_PHYSBASE = 0xf8800000"
definition DEBUG_ETB_PHYSBASE :: u32 where [dtb]: "DEBUG_ETB_PHYSBASE = 0xf8801000"
definition DEBUG_CTI_ETB_TPIU_PHYSBASE :: u32 where [dtb]: "DEBUG_CTI_ETB_TPIU_PHYSBASE = 0xf8802000"
definition DEBUG_TPIU_PHYSBASE :: u32 where [dtb]: "DEBUG_TPIU_PHYSBASE = 0xf8803000"
definition DEBUG_FUNNEL_PHYSBASE :: u32 where [dtb]: "DEBUG_FUNNEL_PHYSBASE = 0xf8804000"
definition DEBUG_ITM_PHYSBASE :: u32 where [dtb]: "DEBUG_ITM_PHYSBASE = 0xf8805000"
definition DEBUG_CTI_FTM_PHYSBASE :: u32 where [dtb]: "DEBUG_CTI_FTM_PHYSBASE = 0xf8809000"
definition DEBUG_FTM_PHYSBASE :: u32 where [dtb]: "DEBUG_FTM_PHYSBASE = 0xf880b000"
definition DEBUG_CPU_PMU0_PHYSBASE :: u32 where [dtb]: "DEBUG_CPU_PMU0_PHYSBASE = 0xf8891000"
definition DEBUG_CPU_PMU1_PHYSBASE :: u32 where [dtb]: "DEBUG_CPU_PMU1_PHYSBASE = 0xf8893000"
definition DEBUG_CPU_CTI0_PHYSBASE :: u32 where [dtb]: "DEBUG_CPU_CTI0_PHYSBASE = 0xf8898000"
definition DEBUG_CPU_CTI1_PHYSBASE :: u32 where [dtb]: "DEBUG_CPU_CTI1_PHYSBASE = 0xf8899000"
definition DEBUG_CPU_PTM0_PHYSBASE :: u32 where [dtb]: "DEBUG_CPU_PTM0_PHYSBASE = 0xf889c000"
definition DEBUG_CPU_PTM1_PHYSBASE :: u32 where [dtb]: "DEBUG_CPU_PTM1_PHYSBASE = 0xf889d000"
definition GPV_TRUSTZONE_PHYSBASE :: u32 where [dtb]: "GPV_TRUSTZONE_PHYSBASE = 0xf8900000"
definition GPV_QOS301_CPU_PHYSBASE :: u32 where [dtb]: "GPV_QOS301_CPU_PHYSBASE = 0xf8946000"
definition GPV_QOS301_DMAC_PHYSBASE :: u32 where [dtb]: "GPV_QOS301_DMAC_PHYSBASE = 0xf8947000"
definition GPV_QOS301_IOU_PHYSBASE :: u32 where [dtb]: "GPV_QOS301_IOU_PHYSBASE = 0xf8948000"
definition MPCORE_PHYSBASE :: u32 where [dtb]: "MPCORE_PHYSBASE = 0xf8f00000"
definition L2CACHE_PHYSBASE :: u32 where [dtb]: "L2CACHE_PHYSBASE = 0xf8f02000"
definition QSPI_LINEAR_PHYSBASE :: u32 where [dtb]: "QSPI_LINEAR_PHYSBASE = 0xfc000000"
definition OCM_PHYSBASE_HI :: u32 where [dtb]: "OCM_PHYSBASE_HI = 0xfffc0000"

section \<open>Variables\<close>

definition ocm_base :: u32 where [dtb]: "ocm_base = OCM_PHYSBASE_LO"
definition ddr_base :: u32 where [dtb]: "ddr_base = DDR_PHYSBASE_SCU"
definition axi_gp0_base :: u32 where [dtb]: "axi_gp0_base = AXI_GP0_PHYSBASE"
definition axi_gp1_base :: u32 where [dtb]: "axi_gp1_base = AXI_GP1_PHYSBASE"
definition qspi_linear_base :: u32 where [dtb]: "qspi_linear_base = QSPI_LINEAR_PHYSBASE"
definition ddr_end :: u32 where [dtb]: "ddr_end = DDR_PHYSEND"
definition uart0_base :: u32 where [dtb]: "uart0_base = UART0_PHYSBASE"
definition uart1_base :: u32 where [dtb]: "uart1_base = UART1_PHYSBASE"
definition usb0_base :: u32 where [dtb]: "usb0_base = USB0_PHYSBASE"
definition usb1_base :: u32 where [dtb]: "usb1_base = USB1_PHYSBASE"
definition i2c0_base :: u32 where [dtb]: "i2c0_base = I2C0_PHYSBASE"
definition i2c1_base :: u32 where [dtb]: "i2c1_base = I2C1_PHYSBASE"
definition spi0_base :: u32 where [dtb]: "spi0_base = SPI0_PHYSBASE"
definition spi1_base :: u32 where [dtb]: "spi1_base = SPI1_PHYSBASE"
definition can0_base :: u32 where [dtb]: "can0_base = CAN0_PHYSBASE"
definition can1_base :: u32 where [dtb]: "can1_base = CAN1_PHYSBASE"
definition gpio_base :: u32 where [dtb]: "gpio_base = GPIO_PHYSBASE"
definition gem0_base :: u32 where [dtb]: "gem0_base = GEM0_PHYSBASE"
definition gem1_base :: u32 where [dtb]: "gem1_base = GEM1_PHYSBASE"
definition qspi_base :: u32 where [dtb]: "qspi_base = QSPI_PHYSBASE"
definition smcc_base :: u32 where [dtb]: "smcc_base = SMCC_PHYSBASE"
definition sd0_base :: u32 where [dtb]: "sd0_base = SD0_PHYSBASE"
definition sd1_base :: u32 where [dtb]: "sd1_base = SD1_PHYSBASE"
definition smc_nand_base :: u32 where [dtb]: "smc_nand_base = SMC_NAND_PHYSBASE"
definition smc_sram0_base :: u32 where [dtb]: "smc_sram0_base = SMC_SRAM0_PHYSBASE"
definition smc_sram1_base :: u32 where [dtb]: "smc_sram1_base = SMC_SRAM1_PHYSBASE"
definition slcr_base :: u32 where [dtb]: "slcr_base = SLCR_PHYSBASE"
definition ttc0_base :: u32 where [dtb]: "ttc0_base = TTC0_PHYSBASE"
definition ttc1_base :: u32 where [dtb]: "ttc1_base = TTC1_PHYSBASE"
definition dmac0_s_base :: u32 where [dtb]: "dmac0_s_base = DMAC0_S_PHYSBASE"
definition dmac0_ns_base :: u32 where [dtb]: "dmac0_ns_base = DMAC0_NS_PHYSBASE"
definition swdt_base :: u32 where [dtb]: "swdt_base = SWDT_PHYSBASE"
definition ddrc_base :: u32 where [dtb]: "ddrc_base = DDRC_PHYSBASE"
definition devcfg_base :: u32 where [dtb]: "devcfg_base = DEVCFG_PHYSBASE"
definition axi_hp0_base :: u32 where [dtb]: "axi_hp0_base = AXI_HP0_PHYSBASE"
definition axi_hp1_base :: u32 where [dtb]: "axi_hp1_base = AXI_HP1_PHYSBASE"
definition axi_hp2_base :: u32 where [dtb]: "axi_hp2_base = AXI_HP2_PHYSBASE"
definition axi_hp3_base :: u32 where [dtb]: "axi_hp3_base = AXI_HP3_PHYSBASE"
definition ocmc_base :: u32 where [dtb]: "ocmc_base = OCMC_PHYSBASE"
definition debug_dap_rom_base :: u32 where [dtb]: "debug_dap_rom_base = DEBUG_DAP_ROM_PHYSBASE"
definition debug_etb_base :: u32 where [dtb]: "debug_etb_base = DEBUG_ETB_PHYSBASE"
definition debug_cti_etb_tpiu_base :: u32 where [dtb]: "debug_cti_etb_tpiu_base = DEBUG_CTI_ETB_TPIU_PHYSBASE"
definition debug_tpiu_base :: u32 where [dtb]: "debug_tpiu_base = DEBUG_TPIU_PHYSBASE"
definition debug_funnel_base :: u32 where [dtb]: "debug_funnel_base = DEBUG_FUNNEL_PHYSBASE"
definition debug_itm_base :: u32 where [dtb]: "debug_itm_base = DEBUG_ITM_PHYSBASE"
definition debug_cti_ftm_base :: u32 where [dtb]: "debug_cti_ftm_base = DEBUG_CTI_FTM_PHYSBASE"
definition debug_ftm_base :: u32 where [dtb]: "debug_ftm_base = DEBUG_FTM_PHYSBASE"
definition debug_cpu_pmu0_base :: u32 where [dtb]: "debug_cpu_pmu0_base = DEBUG_CPU_PMU0_PHYSBASE"
definition debug_cpu_pmu1_base :: u32 where [dtb]: "debug_cpu_pmu1_base = DEBUG_CPU_PMU1_PHYSBASE"
definition debug_cpu_cti0_base :: u32 where [dtb]: "debug_cpu_cti0_base = DEBUG_CPU_CTI0_PHYSBASE"
definition debug_cpu_cti1_base :: u32 where [dtb]: "debug_cpu_cti1_base = DEBUG_CPU_CTI1_PHYSBASE"
definition debug_cpu_ptm0_base :: u32 where [dtb]: "debug_cpu_ptm0_base = DEBUG_CPU_PTM0_PHYSBASE"
definition debug_cpu_ptm1_base :: u32 where [dtb]: "debug_cpu_ptm1_base = DEBUG_CPU_PTM1_PHYSBASE"
definition gpv_trustzone_base :: u32 where [dtb]: "gpv_trustzone_base = GPV_TRUSTZONE_PHYSBASE"
definition gpv_qos301_cpu_base :: u32 where [dtb]: "gpv_qos301_cpu_base = GPV_QOS301_CPU_PHYSBASE"
definition gpv_qos301_dmac_base :: u32 where [dtb]: "gpv_qos301_dmac_base = GPV_QOS301_DMAC_PHYSBASE"
definition gpv_qos301_iou_base :: u32 where [dtb]: "gpv_qos301_iou_base = GPV_QOS301_IOU_PHYSBASE"
definition mpcore_base :: u32 where [dtb]: "mpcore_base = MPCORE_PHYSBASE"
definition l2cache_base :: u32 where [dtb]: "l2cache_base = L2CACHE_PHYSBASE"

end
