(* ===== verification/Uart_Regs.thy ===== *)
theory Uart_Regs
  imports Dtb
begin

text \<open>
  The registers of the two serial ports: the Zynq one (\<open>drivers/serial/uart-zynq7000.h\<close>) and
  the 16550 (\<open>drivers/serial/uart16550.h\<close>).
\<close>

named_theorems uart_regs

section \<open>Zynq\<close>

definition UART_OFFSET_CR :: u32 where [uart_regs]: "UART_OFFSET_CR = 0x00"
definition UART_OFFSET_MR :: u32 where [uart_regs]: "UART_OFFSET_MR = 0x04"
definition UART_OFFSET_IER :: u32 where [uart_regs]: "UART_OFFSET_IER = 0x08"
definition UART_OFFSET_IDR :: u32 where [uart_regs]: "UART_OFFSET_IDR = 0x0c"
definition UART_OFFSET_IMR :: u32 where [uart_regs]: "UART_OFFSET_IMR = 0x10"
definition UART_OFFSET_ISR :: u32 where [uart_regs]: "UART_OFFSET_ISR = 0x14"
definition UART_OFFSET_BAUDGEN :: u32 where [uart_regs]: "UART_OFFSET_BAUDGEN = 0x18"
definition UART_OFFSET_RXTOUT :: u32 where [uart_regs]: "UART_OFFSET_RXTOUT = 0x1c"
definition UART_OFFSET_RXWM :: u32 where [uart_regs]: "UART_OFFSET_RXWM = 0x20"
definition UART_OFFSET_MODEMCR :: u32 where [uart_regs]: "UART_OFFSET_MODEMCR = 0x24"
definition UART_OFFSET_MODEMSR :: u32 where [uart_regs]: "UART_OFFSET_MODEMSR = 0x28"
definition UART_OFFSET_SR :: u32 where [uart_regs]: "UART_OFFSET_SR = 0x2c"
definition UART_OFFSET_FIFO :: u32 where [uart_regs]: "UART_OFFSET_FIFO = 0x30"
definition UART_OFFSET_BAUDDIV :: u32 where [uart_regs]: "UART_OFFSET_BAUDDIV = 0x34"
definition UART_OFFSET_FLOWDEL :: u32 where [uart_regs]: "UART_OFFSET_FLOWDEL = 0x38"
definition UART_OFFSET_TXWM :: u32 where [uart_regs]: "UART_OFFSET_TXWM = 0x44"
definition UART_CR_STOPBRK :: u32 where [uart_regs]: "UART_CR_STOPBRK = 0x0100"
definition UART_CR_STARTBRK :: u32 where [uart_regs]: "UART_CR_STARTBRK = 0x0080"
definition UART_CR_TORST :: u32 where [uart_regs]: "UART_CR_TORST = 0x0040"
definition UART_CR_EN_DIS_MASK :: u32 where [uart_regs]: "UART_CR_EN_DIS_MASK = 0x003c"
definition UART_CR_TX_DIS :: u32 where [uart_regs]: "UART_CR_TX_DIS = 0x0020"
definition UART_CR_TX_EN :: u32 where [uart_regs]: "UART_CR_TX_EN = 0x0010"
definition UART_CR_RX_DIS :: u32 where [uart_regs]: "UART_CR_RX_DIS = 0x0008"
definition UART_CR_RX_EN :: u32 where [uart_regs]: "UART_CR_RX_EN = 0x0004"
definition UART_CR_TXRST :: u32 where [uart_regs]: "UART_CR_TXRST = 0x0002"
definition UART_CR_RXRST :: u32 where [uart_regs]: "UART_CR_RXRST = 0x0001"
definition UART_MR_CCLK :: u32 where [uart_regs]: "UART_MR_CCLK = 0x00000400"
definition UART_MR_CHMODE_MASK :: u32 where [uart_regs]: "UART_MR_CHMODE_MASK = 0x00000300"
definition UART_MR_CHMODE_R_LOOP :: u32 where [uart_regs]: "UART_MR_CHMODE_R_LOOP = 0x00000300"
definition UART_MR_CHMODE_L_LOOP :: u32 where [uart_regs]: "UART_MR_CHMODE_L_LOOP = 0x00000200"
definition UART_MR_CHMODE_ECHO :: u32 where [uart_regs]: "UART_MR_CHMODE_ECHO = 0x00000100"
definition UART_MR_CHMODE_NORM :: u32 where [uart_regs]: "UART_MR_CHMODE_NORM = 0x00000000"
definition UART_MR_STOPMODE_MASK :: u32 where [uart_regs]: "UART_MR_STOPMODE_MASK = 0x000000a0"
definition UART_MR_STOPMODE_2_BIT :: u32 where [uart_regs]: "UART_MR_STOPMODE_2_BIT = 0x00000080"
definition UART_MR_STOPMODE_1_5_BIT :: u32 where [uart_regs]: "UART_MR_STOPMODE_1_5_BIT = 0x00000040"
definition UART_MR_STOPMODE_1_BIT :: u32 where [uart_regs]: "UART_MR_STOPMODE_1_BIT = 0x00000000"
definition UART_MR_PARITY_MASK :: u32 where [uart_regs]: "UART_MR_PARITY_MASK = 0x00000038"
definition UART_MR_PARITY_NONE :: u32 where [uart_regs]: "UART_MR_PARITY_NONE = 0x00000020"
definition UART_MR_PARITY_MARK :: u32 where [uart_regs]: "UART_MR_PARITY_MARK = 0x00000018"
definition UART_MR_PARITY_SPACE :: u32 where [uart_regs]: "UART_MR_PARITY_SPACE = 0x00000010"
definition UART_MR_PARITY_ODD :: u32 where [uart_regs]: "UART_MR_PARITY_ODD = 0x00000008"
definition UART_MR_PARITY_EVEN :: u32 where [uart_regs]: "UART_MR_PARITY_EVEN = 0x00000000"
definition UART_MR_CHARLEN_6_BIT :: u32 where [uart_regs]: "UART_MR_CHARLEN_6_BIT = 0x00000006"
definition UART_MR_CHARLEN_7_BIT :: u32 where [uart_regs]: "UART_MR_CHARLEN_7_BIT = 0x00000004"
definition UART_MR_CHARLEN_8_BIT :: u32 where [uart_regs]: "UART_MR_CHARLEN_8_BIT = 0x00000000"
definition UART_MR_CHARLEN_MASK :: u32 where [uart_regs]: "UART_MR_CHARLEN_MASK = 0x00000006"
definition UART_MR_CLKSEL :: u32 where [uart_regs]: "UART_MR_CLKSEL = 0x00000001"
definition UART_MR_CHMODE_SHIFT :: u32 where [uart_regs]: "UART_MR_CHMODE_SHIFT = 8"
definition UART_MR_STOPMODE_SHIFT :: u32 where [uart_regs]: "UART_MR_STOPMODE_SHIFT = 6"
definition UART_MR_PARITY_SHIFT :: u32 where [uart_regs]: "UART_MR_PARITY_SHIFT = 3"
definition UART_MR_CHARLEN_SHIFT :: u32 where [uart_regs]: "UART_MR_CHARLEN_SHIFT = 1"
definition UART_IXR_MASK :: u32 where [uart_regs]: "UART_IXR_MASK = 0x00001fff"
definition UART_IXR_TOVR :: u32 where [uart_regs]: "UART_IXR_TOVR = 0x00001000"
definition UART_IXR_TNFUL :: u32 where [uart_regs]: "UART_IXR_TNFUL = 0x00000800"
definition UART_IXR_TTRIG :: u32 where [uart_regs]: "UART_IXR_TTRIG = 0x00000400"
definition UART_IXR_DMS :: u32 where [uart_regs]: "UART_IXR_DMS = 0x00000200"
definition UART_IXR_TOUT :: u32 where [uart_regs]: "UART_IXR_TOUT = 0x00000100"
definition UART_IXR_PARITY :: u32 where [uart_regs]: "UART_IXR_PARITY = 0x00000080"
definition UART_IXR_FRAMING :: u32 where [uart_regs]: "UART_IXR_FRAMING = 0x00000040"
definition UART_IXR_OVER :: u32 where [uart_regs]: "UART_IXR_OVER = 0x00000020"
definition UART_IXR_TXFULL :: u32 where [uart_regs]: "UART_IXR_TXFULL = 0x00000010"
definition UART_IXR_TXEMPTY :: u32 where [uart_regs]: "UART_IXR_TXEMPTY = 0x00000008"
definition UART_IXR_RXFULL :: u32 where [uart_regs]: "UART_IXR_RXFULL = 0x00000004"
definition UART_IXR_RXEMPTY :: u32 where [uart_regs]: "UART_IXR_RXEMPTY = 0x00000002"
definition UART_IXR_RXOVR :: u32 where [uart_regs]: "UART_IXR_RXOVR = 0x00000001"
definition UART_SR_RXOVR :: u32 where [uart_regs]: "UART_SR_RXOVR = 0x0001"
definition UART_SR_RXEMPTY :: u32 where [uart_regs]: "UART_SR_RXEMPTY = 0x0002"
definition UART_SR_RXFULL :: u32 where [uart_regs]: "UART_SR_RXFULL = 0x0004"
definition UART_SR_TXEMPTY :: u32 where [uart_regs]: "UART_SR_TXEMPTY = 0x0008"
definition UART_SR_TXFULL :: u32 where [uart_regs]: "UART_SR_TXFULL = 0x0010"
definition UART_SR_RACTIVE :: u32 where [uart_regs]: "UART_SR_RACTIVE = 0x0400"
definition UART_SR_TACTIVE :: u32 where [uart_regs]: "UART_SR_TACTIVE = 0x0800"
definition UART_SR_FLOWDEL :: u32 where [uart_regs]: "UART_SR_FLOWDEL = 0x1000"
definition UART_SR_TTRIG :: u32 where [uart_regs]: "UART_SR_TTRIG = 0x2000"
definition UART_SR_TNFUL :: u32 where [uart_regs]: "UART_SR_TNFUL = 0x4000"
definition UART_BAUDGEN_MASK :: u32 where [uart_regs]: "UART_BAUDGEN_MASK = 0x0000ffff"
definition UART_BAUDGEN_DISABLE :: u32 where [uart_regs]: "UART_BAUDGEN_DISABLE = 0x00000000"
definition UART_BAUDGEN_RESET_VAL :: u32 where [uart_regs]: "UART_BAUDGEN_RESET_VAL = 0x0000028b"
definition UART_RXTOUT_DISABLE :: u32 where [uart_regs]: "UART_RXTOUT_DISABLE = 0x00000000"
definition UART_RXTOUT_MASK :: u32 where [uart_regs]: "UART_RXTOUT_MASK = 0x000000ff"
definition UART_RXWM_MASK :: u32 where [uart_regs]: "UART_RXWM_MASK = 0x0000003f"
definition UART_RXWM_RESET_VAL :: u32 where [uart_regs]: "UART_RXWM_RESET_VAL = 0x00000020"
definition UART_RXWM_DISABLE :: u32 where [uart_regs]: "UART_RXWM_DISABLE = 0x00000000"
definition UART_MODEMCR_FCM :: u32 where [uart_regs]: "UART_MODEMCR_FCM = 0x00000010"
definition UART_MODEMCR_RTS :: u32 where [uart_regs]: "UART_MODEMCR_RTS = 0x00000002"
definition UART_MODEMCR_DTR :: u32 where [uart_regs]: "UART_MODEMCR_DTR = 0x00000001"
definition UART_MODEMSR_FCMS :: u32 where [uart_regs]: "UART_MODEMSR_FCMS = 0x00000100"
definition UART_MODEMSR_DCD :: u32 where [uart_regs]: "UART_MODEMSR_DCD = 0x00000080"
definition UART_MODEMSR_RI :: u32 where [uart_regs]: "UART_MODEMSR_RI = 0x00000040"
definition UART_MODEMSR_DSR :: u32 where [uart_regs]: "UART_MODEMSR_DSR = 0x00000020"
definition UART_MODEMSR_CTS :: u32 where [uart_regs]: "UART_MODEMSR_CTS = 0x00000010"
definition UART_MODEMSR_DDCD :: u32 where [uart_regs]: "UART_MODEMSR_DDCD = 0x00000008"
definition UART_MODEMSR_TERI :: u32 where [uart_regs]: "UART_MODEMSR_TERI = 0x00000004"
definition UART_MODEMSR_DDSR :: u32 where [uart_regs]: "UART_MODEMSR_DDSR = 0x00000002"
definition UART_MODEMSR_DCTS :: u32 where [uart_regs]: "UART_MODEMSR_DCTS = 0x00000001"
definition UART_BAUDDIV_MASK :: u32 where [uart_regs]: "UART_BAUDDIV_MASK = 0x000000ff"
definition UART_BAUDDIV_RESET_VAL :: u32 where [uart_regs]: "UART_BAUDDIV_RESET_VAL = 0x0000000f"
definition UART_FLOWDEL_MASK :: u32 where [uart_regs]: "UART_FLOWDEL_MASK = 0x0000003f"
definition UART_TXWM_MASK :: u32 where [uart_regs]: "UART_TXWM_MASK = 0x0000003f"
definition UART_TXWM_RESET_VAL :: u32 where [uart_regs]: "UART_TXWM_RESET_VAL = 0x00000020"

section \<open>16550\<close>

definition UART16550_BAUD_2400 :: u32 where [uart_regs]: "UART16550_BAUD_2400 = 2400"
definition UART16550_BAUD_4800 :: u32 where [uart_regs]: "UART16550_BAUD_4800 = 4800"
definition UART16550_BAUD_9600 :: u32 where [uart_regs]: "UART16550_BAUD_9600 = 9600"
definition UART16550_BAUD_19200 :: u32 where [uart_regs]: "UART16550_BAUD_19200 = 19200"
definition UART16550_BAUD_38400 :: u32 where [uart_regs]: "UART16550_BAUD_38400 = 38400"
definition UART16550_BAUD_57600 :: u32 where [uart_regs]: "UART16550_BAUD_57600 = 57600"
definition UART16550_BAUD_115200 :: u32 where [uart_regs]: "UART16550_BAUD_115200 = 115200"
definition UART16550_REG_OFFSET :: u32 where [uart_regs]: "UART16550_REG_OFFSET = 1"
definition UART_RCV_BUFFER :: u32 where [uart_regs]: "UART_RCV_BUFFER = 0"
definition UART_TRANS_HOLD :: u32 where [uart_regs]: "UART_TRANS_HOLD = 0"
definition UART_INTR_ENABLE :: u32 where [uart_regs]: "UART_INTR_ENABLE = 1"
definition UART_INTR_ID :: u32 where [uart_regs]: "UART_INTR_ID = 2"
definition UART_FIFO_CONTROL :: u32 where [uart_regs]: "UART_FIFO_CONTROL = 2"
definition UART_LINE_CONTROL :: u32 where [uart_regs]: "UART_LINE_CONTROL = 3"
definition UART_MODEM_CONTROL :: u32 where [uart_regs]: "UART_MODEM_CONTROL = 4"
definition UART_LINE_STATUS :: u32 where [uart_regs]: "UART_LINE_STATUS = 5"
definition UART_MODEM_STATUS :: u32 where [uart_regs]: "UART_MODEM_STATUS = 6"
definition UART_DIVISOR_LSB :: u32 where [uart_regs]: "UART_DIVISOR_LSB = 0"
definition UART_DIVISOR_MSB :: u32 where [uart_regs]: "UART_DIVISOR_MSB = 1"
definition UART_IER_DSSI :: u8 where [uart_regs]: "UART_IER_DSSI = 0x08"
definition UART_IER_LSI :: u8 where [uart_regs]: "UART_IER_LSI = 0x04"
definition UART_IER_THREI :: u8 where [uart_regs]: "UART_IER_THREI = 0x02"
definition UART_IER_RBFI :: u8 where [uart_regs]: "UART_IER_RBFI = 0x01"
definition UART_IIR_IMASK :: u8 where [uart_regs]: "UART_IIR_IMASK = 0x0e"
definition UART_IIR_RECVERR :: u8 where [uart_regs]: "UART_IIR_RECVERR = 0x06"
definition UART_IIR_RBF :: u8 where [uart_regs]: "UART_IIR_RBF = 0x04"
definition UART_IIR_STALE :: u8 where [uart_regs]: "UART_IIR_STALE = 0x0c"
definition UART_IIR_TBE :: u8 where [uart_regs]: "UART_IIR_TBE = 0x02"
definition UART_IIR_DSS :: u8 where [uart_regs]: "UART_IIR_DSS = 0x00"
definition UART_IIR_nIP :: u8 where [uart_regs]: "UART_IIR_nIP = 0x01"
definition UART_FCR_RTB_1 :: u8 where [uart_regs]: "UART_FCR_RTB_1 = 0x00"
definition UART_FCR_RTB_4 :: u8 where [uart_regs]: "UART_FCR_RTB_4 = 0x40"
definition UART_FCR_RTB_8 :: u8 where [uart_regs]: "UART_FCR_RTB_8 = 0x80"
definition UART_FCR_RTB_14 :: u8 where [uart_regs]: "UART_FCR_RTB_14 = 0xc0"
definition UART_FCR_RST_TRANSMIT :: u8 where [uart_regs]: "UART_FCR_RST_TRANSMIT = 0x04"
definition UART_FCR_RST_RECEIVER :: u8 where [uart_regs]: "UART_FCR_RST_RECEIVER = 0x02"
definition UART_FCR_ENABLE :: u8 where [uart_regs]: "UART_FCR_ENABLE = 0x01"
definition UART_LCR_DLAB :: u8 where [uart_regs]: "UART_LCR_DLAB = 0x80"
definition UART_LCR_BREAK :: u8 where [uart_regs]: "UART_LCR_BREAK = 0x40"
definition UART_LCR_PARITY_NONE :: u8 where [uart_regs]: "UART_LCR_PARITY_NONE = 0x00"
definition UART_LCR_PARITY_ODD :: u8 where [uart_regs]: "UART_LCR_PARITY_ODD = 0x08"
definition UART_LCR_PARITY_EVEN :: u8 where [uart_regs]: "UART_LCR_PARITY_EVEN = 0x18"
definition UART_LCR_PARITY_MARK :: u8 where [uart_regs]: "UART_LCR_PARITY_MARK = 0x28"
definition UART_LCR_PARITY_SPACE :: u8 where [uart_regs]: "UART_LCR_PARITY_SPACE = 0x38"
definition UART_LCR_DATA_5BIT :: u8 where [uart_regs]: "UART_LCR_DATA_5BIT = 0x0"
definition UART_LCR_DATA_6BIT :: u8 where [uart_regs]: "UART_LCR_DATA_6BIT = 0x1"
definition UART_LCR_DATA_7BIT :: u8 where [uart_regs]: "UART_LCR_DATA_7BIT = 0x2"
definition UART_LCR_DATA_8BIT :: u8 where [uart_regs]: "UART_LCR_DATA_8BIT = 0x3"
definition UART_LCR_STOP_1BIT :: u8 where [uart_regs]: "UART_LCR_STOP_1BIT = 0x0"
definition UART_LCR_STOP_2BIT :: u8 where [uart_regs]: "UART_LCR_STOP_2BIT = 0x4"
definition UART_MCR_LOOPBACK_CTL :: u8 where [uart_regs]: "UART_MCR_LOOPBACK_CTL = 0x10"
definition UART_MCR_OUT2 :: u8 where [uart_regs]: "UART_MCR_OUT2 = 0x08"
definition UART_MCR_OUT1 :: u8 where [uart_regs]: "UART_MCR_OUT1 = 0x04"
definition UART_MCR_RTSC :: u8 where [uart_regs]: "UART_MCR_RTSC = 0x02"
definition UART_MCR_DTRC :: u8 where [uart_regs]: "UART_MCR_DTRC = 0x01"
definition UART_LSR_ERROR :: u8 where [uart_regs]: "UART_LSR_ERROR = 0x80"
definition UART_LSR_TEMT :: u8 where [uart_regs]: "UART_LSR_TEMT = 0x40"
definition UART_LSR_THRE :: u8 where [uart_regs]: "UART_LSR_THRE = 0x20"
definition UART_LSR_BREAK_INTR :: u8 where [uart_regs]: "UART_LSR_BREAK_INTR = 0x10"
definition UART_LSR_FRAME_ERROR :: u8 where [uart_regs]: "UART_LSR_FRAME_ERROR = 0x08"
definition UART_LSR_PARITY_ERROR :: u8 where [uart_regs]: "UART_LSR_PARITY_ERROR = 0x04"
definition UART_LSR_OVERRUN_ERROR :: u8 where [uart_regs]: "UART_LSR_OVERRUN_ERROR = 0x02"
definition UART_LSR_DATA_READY :: u8 where [uart_regs]: "UART_LSR_DATA_READY = 0x01"
definition UART_MSR_DCD :: u8 where [uart_regs]: "UART_MSR_DCD = 0x80"
definition UART_MSR_RI :: u8 where [uart_regs]: "UART_MSR_RI = 0x40"
definition UART_MSR_DSR :: u8 where [uart_regs]: "UART_MSR_DSR = 0x20"
definition UART_MSR_CTS :: u8 where [uart_regs]: "UART_MSR_CTS = 0x10"
definition UART_MSR_DDCD :: u8 where [uart_regs]: "UART_MSR_DDCD = 0x08"
definition UART_MSR_TERI :: u8 where [uart_regs]: "UART_MSR_TERI = 0x04"
definition UART_MSR_DDSR :: u8 where [uart_regs]: "UART_MSR_DDSR = 0x02"
definition UART_MSR_DCTS :: u8 where [uart_regs]: "UART_MSR_DCTS = 0x01"

end
