(* ===== verification/Uart.thy ===== *)
theory Uart
  imports Uart_Regs Printf
begin

text \<open>
  The serial drivers \<open>drivers/serial/uart-zynq7000.c\<close> and \<open>uart16550.c\<close>, and the routines of
  \<open>uart.c\<close> above them. What a driver sends is read off the trace of register writes. The
  contract of a serial port is the locale \<open>serial_port\<close>; both drivers meet it, on hardware
  that drains its transmitter. It justifies the console of the other components, where
  \<open>uart_spin_puts\<close> appends the string to \<open>con\<close>.
\<close>

section \<open>The Zynq port\<close>

definition UART_BASE :: u32 where [uart_regs]: "UART_BASE = uart1_base"

definition uart_disable :: "'a machine_scheme \<Rightarrow> 'a machine_scheme" where
  "uart_disable s = out32 (UART_BASE + UART_OFFSET_CR) (UART_CR_TX_DIS OR UART_CR_RX_DIS) s"

definition uart_init :: "'a machine_scheme \<Rightarrow> 'a machine_scheme" where
  "uart_init s =
     (let s = out32 (UART_BASE + UART_OFFSET_IDR) UART_IXR_MASK s;
          s = uart_disable s;
          s = out32 (UART_BASE + UART_OFFSET_CR) (UART_CR_TXRST OR UART_CR_RXRST) s;
          s = out32 (UART_BASE + UART_OFFSET_ISR) UART_IXR_MASK s;
          s = out32 (UART_BASE + UART_OFFSET_MR)
                (UART_MR_CHMODE_NORM OR UART_MR_CHARLEN_8_BIT OR UART_MR_PARITY_NONE OR UART_MR_STOPMODE_1_BIT) s;
          s = out32 (UART_BASE + UART_OFFSET_RXWM) UART_RXWM_RESET_VAL s;
          s = out32 (UART_BASE + UART_OFFSET_TXWM) UART_TXWM_RESET_VAL s;
          s = out32 (UART_BASE + UART_OFFSET_RXTOUT) UART_RXTOUT_DISABLE s;
          s = out32 (UART_BASE + UART_OFFSET_BAUDGEN) 0x3E s;
          s = out32 (UART_BASE + UART_OFFSET_BAUDDIV) 0x06 s
      in out32 (UART_BASE + UART_OFFSET_CR) (UART_CR_RX_DIS OR UART_CR_TX_DIS OR UART_CR_STOPBRK) s)"

definition uart_enable :: "'a machine_scheme \<Rightarrow> 'a machine_scheme" where
  "uart_enable s = out32 (UART_BASE + UART_OFFSET_CR) (UART_CR_TX_EN OR UART_CR_RX_EN) s"

definition uart_spin_getbyte :: "hardware \<Rightarrow> 'a machine_scheme \<Rightarrow> (u8 \<times> 'a machine_scheme) option" where
  "uart_spin_getbyte hw s = do {
     (_, s) \<leftarrow> spin_until (in32 hw (UART_BASE + UART_OFFSET_SR)) (\<lambda>v. v AND UART_SR_RXEMPTY = 0) s;
     let (v, s) = in32 hw (UART_BASE + UART_OFFSET_FIFO) s;
     Some (ucast v, s)
   }"

definition uart_spin_putbyte :: "hardware \<Rightarrow> u8 \<Rightarrow> 'a machine_scheme \<Rightarrow> 'a machine_scheme option" where
  "uart_spin_putbyte hw byte s = do {
     (_, s) \<leftarrow> spin_until (in32 hw (UART_BASE + UART_OFFSET_SR)) (\<lambda>v. v AND UART_SR_TXFULL = 0) s;
     Some (out32 (UART_BASE + UART_OFFSET_FIFO) (ucast byte) s)
   }"

section \<open>The 16550\<close>

text \<open>Its registers are bytes; \<open>UART_READ\<close> and \<open>UART_WRITE\<close> take an offset.\<close>

definition UART0_BASE :: u32 where [uart_regs]: "UART0_BASE = 0x1fe001e0"

definition UART_READ :: "hardware \<Rightarrow> u32 \<Rightarrow> 'a machine_scheme \<Rightarrow> u8 \<times> 'a machine_scheme" where
  "UART_READ hw reg s = in8 hw (UART0_BASE + reg) s"

definition UART_WRITE :: "u32 \<Rightarrow> u8 \<Rightarrow> 'a machine_scheme \<Rightarrow> 'a machine_scheme" where
  "UART_WRITE reg data s = out8 (UART0_BASE + reg) data s"

definition uart_init_16550 :: "'a machine_scheme \<Rightarrow> 'a machine_scheme" where
  "uart_init_16550 s = s"

definition uart_enable_16550 :: "hardware \<Rightarrow> 'a machine_scheme \<Rightarrow> 'a machine_scheme" where
  "uart_enable_16550 hw s =
     (let (mcr, s) = UART_READ hw UART_MODEM_CONTROL s
      in UART_WRITE UART_MODEM_CONTROL (mcr OR (UART_MCR_RTSC OR UART_MCR_DTRC)) s)"

definition uart_disable_16550 :: "hardware \<Rightarrow> 'a machine_scheme \<Rightarrow> 'a machine_scheme" where
  "uart_disable_16550 hw s =
     (let (mcr, s) = UART_READ hw UART_MODEM_CONTROL s
      in UART_WRITE UART_MODEM_CONTROL (mcr AND NOT (UART_MCR_RTSC OR UART_MCR_DTRC)) s)"

definition uart_spin_getbyte_16550 :: "hardware \<Rightarrow> 'a machine_scheme \<Rightarrow> (u8 \<times> 'a machine_scheme) option" where
  "uart_spin_getbyte_16550 hw s = do {
     (_, s) \<leftarrow> spin_until (UART_READ hw UART_LINE_STATUS) (\<lambda>v. v AND UART_LSR_DATA_READY \<noteq> 0) s;
     Some (UART_READ hw UART_RCV_BUFFER s)
   }"

definition uart_spin_putbyte_16550 :: "hardware \<Rightarrow> u8 \<Rightarrow> 'a machine_scheme \<Rightarrow> 'a machine_scheme option" where
  "uart_spin_putbyte_16550 hw byte s = do {
     (_, s) \<leftarrow> spin_until (UART_READ hw UART_LINE_STATUS) (\<lambda>v. v AND UART_LSR_THRE \<noteq> 0) s;
     Some (UART_WRITE UART_TRANS_HOLD byte s)
   }"

section \<open>Strings\<close>

text \<open>\<open>uart_spin_puts\<close> over a port, and \<open>uart_spin_gets\<close>, which stores what it receives up to
  and including a NUL.\<close>

fun put_bytes :: "(u8 \<Rightarrow> 's \<Rightarrow> 's option) \<Rightarrow> u8 list \<Rightarrow> 's \<Rightarrow> 's option" where
  "put_bytes putbyte [] s = Some s"
| "put_bytes putbyte (b # str) s = (if b = 0 then Some s else do { s \<leftarrow> putbyte b s; put_bytes putbyte str s })"

partial_function (option) uart_spin_gets ::
    "('a machine_scheme \<Rightarrow> (u8 \<times> 'a machine_scheme) option) \<Rightarrow> u32 \<Rightarrow> 'a machine_scheme \<Rightarrow> 'a machine_scheme option" where
  [code]: "uart_spin_gets getbyte p s = do {
     (b, s) \<leftarrow> getbyte s;
     let s = poke p b s;
     if b = 0 then Some s else uart_spin_gets getbyte (p + 1) s
   }"

section \<open>The contract of a serial port\<close>

locale serial_port =
  fixes putbyte :: "u8 \<Rightarrow> 's \<Rightarrow> 's option"
    and sent :: "'s \<Rightarrow> u8 list"
    and rest :: "'s \<Rightarrow> 'r"
    and live :: "'s \<Rightarrow> bool"
  assumes put_law: "live s \<Longrightarrow> \<exists>s'. putbyte b s = Some s' \<and> sent s' = sent s @ [b] \<and> rest s' = rest s \<and> live s'"
begin

lemma puts_sends:
  "live s \<Longrightarrow> \<exists>s'. put_bytes putbyte str s = Some s' \<and> sent s' = sent s @ takeWhile (\<lambda>b. b \<noteq> 0) str
    \<and> rest s' = rest s \<and> live s'"
proof (induction str arbitrary: s)
  case (Cons b str)
  show ?case
  proof (cases "b = 0")
    case False
    from put_law [OF Cons.prems] obtain s1 where s1: "putbyte b s = Some s1" "sent s1 = sent s @ [b]"
      "rest s1 = rest s" "live s1" by blast
    from Cons.IH [OF s1(4)] show ?thesis using s1 False by auto
  qed (simp add: Cons.prems)
qed simp

end

section \<open>Both drivers meet it\<close>

text \<open>The byte an access writes to the transmitter.\<close>

fun tx_byte :: "io_event \<Rightarrow> u8 list" where
  "tx_byte (Out32 a v) = (if a = UART_BASE + UART_OFFSET_FIFO then [ucast v] else [])"
| "tx_byte _ = []"

fun tx_byte_16550 :: "io_event \<Rightarrow> u8 list" where
  "tx_byte_16550 (Out8 a v) = (if a = UART0_BASE + UART_TRANS_HOLD then [v] else [])"
| "tx_byte_16550 _ = []"

text \<open>What leaves the port: a byte written while the transmitter has no room is lost. Room is what
  the status register would show at that moment, whether or not the driver has looked at it.\<close>

definition tx_room :: "hardware \<Rightarrow> u32 \<Rightarrow> (u32 \<Rightarrow> bool) \<Rightarrow> io_event list \<Rightarrow> bool" where
  "tx_room hw status ready t \<longleftrightarrow> ready (hw_read hw t status)"

definition sent_bytes :: "(io_event list \<Rightarrow> bool) \<Rightarrow> (io_event \<Rightarrow> u8 list) \<Rightarrow> 'a machine_scheme \<Rightarrow> u8 list" where
  "sent_bytes room tx s =
     concat (map (\<lambda>i. if room (take i (io s)) then tx (io s ! i) else []) [0..<length (io s)])"

text \<open>Hardware that makes room in the transmitter after finitely many status reads, whatever
  has happened before, keeps that room while the status is only read, and stores nothing in memory
  by itself. Nothing is said of the room after a byte has been written. \<open>ev v\<close> is the read of the
  status register that yields \<open>v\<close>.\<close>

definition drains :: "hardware \<Rightarrow> u32 \<Rightarrow> (u32 \<Rightarrow> io_event) \<Rightarrow> (u32 \<Rightarrow> bool) \<Rightarrow> bool" where
  "drains hw status ev ready \<longleftrightarrow> (\<forall>t m. hw_dma hw t m = m)
     \<and> (\<forall>t. \<exists>n. tx_room hw status ready (((\<lambda>t. t @ [ev (hw_read hw t status)]) ^^ n) t))
     \<and> (\<forall>t. tx_room hw status ready t \<longrightarrow> tx_room hw status ready (t @ [ev (hw_read hw t status)]))"

lemma sent_bytes_snoc:
  assumes "io s' = io s @ [e]"
  shows "sent_bytes room tx s' = sent_bytes room tx s @ (if room (io s) then tx e else [])"
proof -
  let ?f = "\<lambda>t i. if room (take i t) then tx (t ! i) else []"
  have "map (?f (io s @ [e])) [0..<length (io s)] = map (?f (io s)) [0..<length (io s)]"
    by (rule map_cong) (simp_all add: nth_append)
  moreover have "map (?f (io s @ [e])) [0..<length (io s @ [e])]
    = map (?f (io s @ [e])) [0..<length (io s)] @ [if room (io s) then tx e else []]" by simp
  ultimately show ?thesis unfolding sent_bytes_def assms by (simp only: concat_append) simp
qed

lemma sent_bytes_simps [simp]:
  "sent_bytes room tx (bus_read hw e s) = sent_bytes room tx s @ (if room (io s) then tx e else [])"
  "sent_bytes room tx (out8 a v8 s) = sent_bytes room tx s @ (if room (io s) then tx (Out8 a v8) else [])"
  "sent_bytes room tx (out32 a v s) = sent_bytes room tx s @ (if room (io s) then tx (Out32 a v) else [])"
  by (rule sent_bytes_snoc, simp)+

text \<open>Spinning ends with an access whose value is accepted.\<close>

lemma spin_until_exit: "spin_until acc ok s = Some (v, s') \<Longrightarrow> \<exists>s0. acc s0 = (v, s') \<and> ok v"
proof -
  assume "spin_until acc ok s = Some (v, s')"
  then have "\<exists>s0. acc s0 = (fst (v, s'), snd (v, s')) \<and> ok (fst (v, s'))"
    by (rule spin_until.raw_induct [rotated, where P = "\<lambda>acc ok _ r. \<exists>s0. acc s0 = (fst r, snd r) \<and> ok (fst r)"])
      (force split: prod.splits if_splits)
  then show ?thesis by simp
qed

text \<open>Waiting on a status register returns, changes only the trace, and leaves room.\<close>

lemma spin_io_returns:
  fixes acc :: "'a machine_scheme \<Rightarrow> 'v \<times> 'a machine_scheme"
  assumes acc: "\<And>s. acc s = (conv (hw_read hw (io s) status), bus_read hw (ev (hw_read hw (io s) status)) s)"
    and live: "drains hw status ev (\<lambda>v. ready (conv v))" and quiet: "\<And>v. tx (ev v) = []"
  shows "\<exists>v s'. spin_until acc ready s = Some (v, s') \<and> sent_bytes room tx s' = sent_bytes room tx s
    \<and> tx_room hw status (\<lambda>v. ready (conv v)) (io s') \<and> mem s' = mem s \<and> con s' = con s"
proof -
  have dma: "hw_dma hw t m = m" for t m using live by (simp add: drains_def)
  have keep: "tx_room hw status (\<lambda>v. ready (conv v)) (t @ [ev (hw_read hw t status)])"
    if "ready (conv (hw_read hw t status))" for t using live that by (simp add: drains_def tx_room_def)
  have tr: "io (((snd \<circ> acc) ^^ n) s) = ((\<lambda>t. t @ [ev (hw_read hw t status)]) ^^ n) (io s)" for n
    by (induction n) (simp_all add: acc)
  from live obtain n where "tx_room hw status (\<lambda>v. ready (conv v)) (((\<lambda>t. t @ [ev (hw_read hw t status)]) ^^ n) (io s))"
    unfolding drains_def by blast
  then have "ready (fst (acc (((snd \<circ> acc) ^^ n) s)))" by (simp add: acc tr tx_room_def)
  from spin_until_returns [of ready acc n s, OF this] obtain v s' where s': "spin_until acc ready s = Some (v, s')" by blast
  have mem: "mem (snd (acc s)) = mem s" "con (snd (acc s)) = con s"
    "sent_bytes room tx (snd (acc s)) = sent_bytes room tx s" for s :: "'a machine_scheme"
    by (simp_all add: acc quiet) (simp add: bus_read_def dma Let_def)
  have "ready v \<and> sent_bytes room tx s' = sent_bytes room tx s \<and> mem s' = mem s \<and> con s' = con s"
  proof (rule spin_until_induct [OF s'])
    fix s v s1 s' assume "acc s = (v, s1)"
      "sent_bytes room tx s' = sent_bytes room tx s1 \<and> mem s' = mem s1 \<and> con s' = con s1"
    then show "sent_bytes room tx s' = sent_bytes room tx s \<and> mem s' = mem s \<and> con s' = con s"
      using mem [of s] by simp
  qed simp
  moreover have "tx_room hw status (\<lambda>v. ready (conv v)) (io s')"
    using spin_until_exit [OF s'] keep by (auto simp: acc)
  ultimately show ?thesis using s' by blast
qed

definition zynq_room :: "hardware \<Rightarrow> io_event list \<Rightarrow> bool" where
  "zynq_room hw = tx_room hw (UART_BASE + UART_OFFSET_SR) (\<lambda>v. v AND UART_SR_TXFULL = 0)"

definition ns16550_room :: "hardware \<Rightarrow> io_event list \<Rightarrow> bool" where
  "ns16550_room hw = tx_room hw (UART0_BASE + UART_LINE_STATUS) (\<lambda>v. (ucast v :: u8) AND UART_LSR_THRE \<noteq> 0)"

definition zynq_drains :: "hardware \<Rightarrow> bool" where
  "zynq_drains hw \<longleftrightarrow> drains hw (UART_BASE + UART_OFFSET_SR) (In32 (UART_BASE + UART_OFFSET_SR))
     (\<lambda>v. v AND UART_SR_TXFULL = 0)"

definition ns16550_drains :: "hardware \<Rightarrow> bool" where
  "ns16550_drains hw \<longleftrightarrow> drains hw (UART0_BASE + UART_LINE_STATUS) (\<lambda>v. In8 (UART0_BASE + UART_LINE_STATUS) (ucast v))
     (\<lambda>v. (ucast v :: u8) AND UART_LSR_THRE \<noteq> 0)"

text \<open>The bytes a port has sent.\<close>

definition zynq_sent :: "hardware \<Rightarrow> 'a machine_scheme \<Rightarrow> u8 list" where
  "zynq_sent hw = sent_bytes (zynq_room hw) tx_byte"

definition ns16550_sent :: "hardware \<Rightarrow> 'a machine_scheme \<Rightarrow> u8 list" where
  "ns16550_sent hw = sent_bytes (ns16550_room hw) tx_byte_16550"

lemma zynq_put:
  assumes "zynq_drains hw"
  shows "\<exists>s'. uart_spin_putbyte hw b s = Some s' \<and> zynq_sent hw s' = zynq_sent hw s @ [b]
    \<and> (mem s', con s') = (mem s, con s)"
proof -
  obtain v s1 where "spin_until (in32 hw (UART_BASE + UART_OFFSET_SR)) (\<lambda>v. v AND UART_SR_TXFULL = 0) s = Some (v, s1)"
    "zynq_sent hw s1 = zynq_sent hw s" "zynq_room hw (io s1)" "mem s1 = mem s" "con s1 = con s"
    using spin_io_returns [of "in32 hw (UART_BASE + UART_OFFSET_SR)" "\<lambda>v. v" hw "UART_BASE + UART_OFFSET_SR"
        "In32 (UART_BASE + UART_OFFSET_SR)" "\<lambda>v. v AND UART_SR_TXFULL = 0" tx_byte s "zynq_room hw"] assms
    by (auto simp: zynq_drains_def zynq_sent_def zynq_room_def in32_def Let_def)
  moreover have "(ucast (ucast b :: u32) :: u8) = b" by (simp add: ucast_up_ucast_id is_up)
  ultimately show ?thesis by (simp add: uart_spin_putbyte_def zynq_sent_def)
qed

lemma ns16550_put:
  assumes "ns16550_drains hw"
  shows "\<exists>s'. uart_spin_putbyte_16550 hw b s = Some s' \<and> ns16550_sent hw s' = ns16550_sent hw s @ [b]
    \<and> (mem s', con s') = (mem s, con s)"
proof -
  obtain v s1 where "spin_until (UART_READ hw UART_LINE_STATUS) (\<lambda>v. v AND UART_LSR_THRE \<noteq> 0) s = Some (v, s1)"
    "ns16550_sent hw s1 = ns16550_sent hw s" "ns16550_room hw (io s1)" "mem s1 = mem s" "con s1 = con s"
    using spin_io_returns [of "UART_READ hw UART_LINE_STATUS" "\<lambda>v. ucast v" hw "UART0_BASE + UART_LINE_STATUS"
        "\<lambda>v. In8 (UART0_BASE + UART_LINE_STATUS) (ucast v)" "\<lambda>v. v AND UART_LSR_THRE \<noteq> 0" tx_byte_16550
        s "ns16550_room hw"] assms
    by (auto simp: ns16550_drains_def ns16550_sent_def ns16550_room_def UART_READ_def in8_def Let_def)
  then show ?thesis by (simp add: uart_spin_putbyte_16550_def UART_WRITE_def ns16550_sent_def)
qed

interpretation zynq: serial_port "uart_spin_putbyte hw" "zynq_sent hw" "\<lambda>s. (mem s, con s)" "\<lambda>_. zynq_drains hw" for hw
  by unfold_locales (use zynq_put in blast)

interpretation ns16550: serial_port "uart_spin_putbyte_16550 hw" "ns16550_sent hw" "\<lambda>s. (mem s, con s)"
    "\<lambda>_. ns16550_drains hw" for hw
  by unfold_locales (use ns16550_put in blast)

section \<open>Results\<close>

text \<open>
  C26. On hardware whose transmitters make room in the end, \<open>uart_spin_puts\<close> returns on both drivers,
  and what the port has sent is what it had sent before and the bytes of the string up to its NUL,
  in order: no byte is written while the transmitter is full and lost. The memory is left alone.
  The witness is a board whose transmitters hold one byte, are full after every write and have
  sent it once their status has been read.
\<close>

theorem uart_spin_puts_sends:
  assumes "zynq_drains hw" and "ns16550_drains hw"
  shows "(\<exists>s'. put_bytes (uart_spin_putbyte hw) str s = Some s'
      \<and> zynq_sent hw s' = zynq_sent hw s @ takeWhile (\<lambda>b. b \<noteq> 0) str \<and> mem s' = mem s)
    \<and> (\<exists>s'. put_bytes (uart_spin_putbyte_16550 hw) str s = Some s'
      \<and> ns16550_sent hw s' = ns16550_sent hw s @ takeWhile (\<lambda>b. b \<noteq> 0) str \<and> mem s' = mem s)"
  using zynq.puts_sends [OF assms(1), of str s] ns16550.puts_sends [OF assms(2), of str s] by auto

text \<open>A board with transmitters of one byte.\<close>

definition tx_board :: hardware where
  "tx_board = \<lparr>hw_read = \<lambda>t a. if a = UART0_BASE + UART_LINE_STATUS
        then (if t \<noteq> [] \<and> tx_byte_16550 (List.last t) \<noteq> [] then 0 else 0x20)
        else if a = UART_BASE + UART_OFFSET_SR
        then (if t \<noteq> [] \<and> tx_byte (List.last t) \<noteq> [] then UART_SR_TXFULL else 0) else 0,
      hw_dma = \<lambda>_ m. m\<rparr>"

lemma drainsI:
  assumes "\<And>t m. hw_dma hw t m = m" and "\<And>t. tx_room hw status ready (t @ [ev (hw_read hw t status)])"
  shows "drains hw status ev ready"
proof -
  have "tx_room hw status ready (((\<lambda>t. t @ [ev (hw_read hw t status)]) ^^ 1) t)" for t
    using assms(2) by simp
  then show ?thesis using assms unfolding drains_def by blast
qed

lemma tx_board_drains: "zynq_drains tx_board" "ns16550_drains tx_board"
  unfolding zynq_drains_def ns16550_drains_def
  by (rule drainsI; simp add: tx_board_def tx_room_def uart_regs dtb)+

theorem uart_spin_puts_sends_witness:
  "(\<exists>s'. put_bytes (uart_spin_putbyte tx_board) [0x4F, 0x4B, 0, 0x21] \<lparr>mem = \<lambda>_. 0, con = [], io = []\<rparr> = Some s'
      \<and> zynq_sent tx_board s' = [0x4F, 0x4B])
    \<and> (\<exists>s'. put_bytes (uart_spin_putbyte_16550 tx_board) [0x4F, 0x4B, 0, 0x21] \<lparr>mem = \<lambda>_. 0, con = [], io = []\<rparr> = Some s'
      \<and> ns16550_sent tx_board s' = [0x4F, 0x4B])"
  using uart_spin_puts_sends [OF tx_board_drains, of "[0x4F, 0x4B, 0, 0x21]" "\<lparr>mem = \<lambda>_. 0, con = [], io = []\<rparr>"]
  by (auto simp: zynq_sent_def ns16550_sent_def sent_bytes_def)

text \<open>The wait is needed: the same two bytes written without it leave only the first on the line.\<close>

lemma unwaited_byte_lost:
  "zynq_sent tx_board (out32 (UART_BASE + UART_OFFSET_FIFO) 0x4B
    (out32 (UART_BASE + UART_OFFSET_FIFO) 0x4F \<lparr>mem = \<lambda>_. 0, con = [], io = []\<rparr>)) = [0x4F]"
  by (simp add: zynq_sent_def) (simp add: sent_bytes_def zynq_room_def tx_room_def tx_board_def uart_regs dtb out32_def)

end
