(* ===== verification/Clock.thy ===== *)
theory Clock
  imports Dtb
begin

text \<open>
  The clocks: the 64-bit global timer of the Cortex-A9 (\<open>drivers/clock/gtc-a9mpcore.c\<close>), with
  the busy waits built on it, and the battery-backed clock of the Loongson board
  (\<open>drivers/clock/mc146818.c\<close>), whose registers hold binary-coded decimals.
\<close>

named_theorems clock_regs

section \<open>The global timer\<close>

text \<open>\<open>long\<close> has 32 bits on the ARM, so the products with \<open>GTC_TPS\<close> and \<open>GTC_TPUS\<close> are 32-bit
  and are sign-extended when they are added to the 64-bit time.\<close>

definition GTC_OFFSET :: u32 where [clock_regs]: "GTC_OFFSET = 0x200"
definition GTC_TPUS :: u32 where [clock_regs]: "GTC_TPUS = 400"
definition GTC_TPS :: u32 where [clock_regs]: "GTC_TPS = GTC_TPUS * 1000000"
definition GTC_COUNTER_LO_OFFSET :: u32 where [clock_regs]: "GTC_COUNTER_LO_OFFSET = 0x00"
definition GTC_COUNTER_HI_OFFSET :: u32 where [clock_regs]: "GTC_COUNTER_HI_OFFSET = 0x04"
definition GTC_CTRL_OFFSET :: u32 where [clock_regs]: "GTC_CTRL_OFFSET = 0x08"
definition GTC_INT_OFFSET :: u32 where [clock_regs]: "GTC_INT_OFFSET = 0x0c"
definition GTC_COMPARATOR_LO_OFFSET :: u32 where [clock_regs]: "GTC_COMPARATOR_LO_OFFSET = 0x10"
definition GTC_COMPARATOR_HI_OFFSET :: u32 where [clock_regs]: "GTC_COMPARATOR_HI_OFFSET = 0x14"
definition GTC_INCREMENT_OFFSET :: u32 where [clock_regs]: "GTC_INCREMENT_OFFSET = 0x18"

definition GTC_BASE :: u32 where [clock_regs]: "GTC_BASE = mpcore_base + GTC_OFFSET"

text \<open>High, low, high again, until both reads of the high word agree.\<close>

partial_function (option) gtc_get_time :: "hardware \<Rightarrow> 'a machine_scheme \<Rightarrow> (u64 \<times> 'a machine_scheme) option" where
  [code]: "gtc_get_time hw s =
     (case in32 hw (GTC_BASE + GTC_COUNTER_HI_OFFSET) s of (hi, s) \<Rightarrow>
      case in32 hw (GTC_BASE + GTC_COUNTER_LO_OFFSET) s of (lo, s) \<Rightarrow>
      case in32 hw (GTC_BASE + GTC_COUNTER_HI_OFFSET) s of (tmp, s) \<Rightarrow>
        if hi \<noteq> tmp then gtc_get_time hw s
        else Some (push_bit 32 (ucast hi) OR ucast lo, s))"

partial_function (option) wait_until :: "hardware \<Rightarrow> u64 \<Rightarrow> 'a machine_scheme \<Rightarrow> 'a machine_scheme option" where
  [code]: "wait_until hw time s = do {
     (time1, s) \<leftarrow> gtc_get_time hw s;
     if time1 < time then wait_until hw time s else Some s
   }"

definition sleep :: "hardware \<Rightarrow> u32 \<Rightarrow> 'a machine_scheme \<Rightarrow> 'a machine_scheme option" where
  "sleep hw sec s = do {
     (time, s) \<leftarrow> gtc_get_time hw s;
     wait_until hw (time + scast (GTC_TPS * sec)) s
   }"

definition usleep :: "hardware \<Rightarrow> u32 \<Rightarrow> 'a machine_scheme \<Rightarrow> 'a machine_scheme option" where
  "usleep hw usec s = do {
     (time, s) \<leftarrow> gtc_get_time hw s;
     wait_until hw (time + scast (GTC_TPUS * usec)) s
   }"

section \<open>The calendar clock\<close>

definition DS_REG_SEC :: u8 where [clock_regs]: "DS_REG_SEC = 0x00"
definition DS_REG_ASEC :: u8 where [clock_regs]: "DS_REG_ASEC = 0x01"
definition DS_REG_MIN :: u8 where [clock_regs]: "DS_REG_MIN = 0x02"
definition DS_REG_AMIN :: u8 where [clock_regs]: "DS_REG_AMIN = 0x03"
definition DS_REG_HOUR :: u8 where [clock_regs]: "DS_REG_HOUR = 0x04"
definition DS_REG_AHOUR :: u8 where [clock_regs]: "DS_REG_AHOUR = 0x05"
definition DS_REG_WDAY :: u8 where [clock_regs]: "DS_REG_WDAY = 0x06"
definition DS_REG_DATE :: u8 where [clock_regs]: "DS_REG_DATE = 0x07"
definition DS_REG_MONTH :: u8 where [clock_regs]: "DS_REG_MONTH = 0x08"
definition DS_REG_YEAR :: u8 where [clock_regs]: "DS_REG_YEAR = 0x09"
definition DS_REG_CTLA :: u8 where [clock_regs]: "DS_REG_CTLA = 0x0a"
definition DS_REG_CTLB :: u8 where [clock_regs]: "DS_REG_CTLB = 0x0b"
definition DS_REG_CTLC :: u8 where [clock_regs]: "DS_REG_CTLC = 0x0c"
definition DS_REG_CTLD :: u8 where [clock_regs]: "DS_REG_CTLD = 0x0d"
definition DS_MONTH_E32K :: u8 where [clock_regs]: "DS_MONTH_E32K = 0x40"
definition DS_MONTH_EOSC :: u8 where [clock_regs]: "DS_MONTH_EOSC = 0x80"
definition DS_CTLA_RS0 :: u8 where [clock_regs]: "DS_CTLA_RS0 = 0x01"
definition DS_CTLA_RS1 :: u8 where [clock_regs]: "DS_CTLA_RS1 = 0x02"
definition DS_CTLA_RS2 :: u8 where [clock_regs]: "DS_CTLA_RS2 = 0x04"
definition DS_CTLA_RS3 :: u8 where [clock_regs]: "DS_CTLA_RS3 = 0x08"
definition DS_CTLA_DV0 :: u8 where [clock_regs]: "DS_CTLA_DV0 = 0x10"
definition DS_CTLA_DV1 :: u8 where [clock_regs]: "DS_CTLA_DV1 = 0x20"
definition DS_CTLA_DV2 :: u8 where [clock_regs]: "DS_CTLA_DV2 = 0x40"
definition DS_CTLA_UIP :: u8 where [clock_regs]: "DS_CTLA_UIP = 0x80"
definition DS_CTLB_DSE :: u8 where [clock_regs]: "DS_CTLB_DSE = 0x01"
definition DS_CTLB_24 :: u8 where [clock_regs]: "DS_CTLB_24 = 0x02"
definition DS_CTLB_DM :: u8 where [clock_regs]: "DS_CTLB_DM = 0x04"
definition DS_CTLB_SQWE :: u8 where [clock_regs]: "DS_CTLB_SQWE = 0x08"
definition DS_CTLB_UIE :: u8 where [clock_regs]: "DS_CTLB_UIE = 0x10"
definition DS_CTLB_AIE :: u8 where [clock_regs]: "DS_CTLB_AIE = 0x20"
definition DS_CTLB_PIE :: u8 where [clock_regs]: "DS_CTLB_PIE = 0x40"
definition DS_CTLB_SET :: u8 where [clock_regs]: "DS_CTLB_SET = 0x80"
definition DS_REG_CENT :: u8 where [clock_regs]: "DS_REG_CENT = 0x48"
definition DS_EXRAM_LSB :: u8 where [clock_regs]: "DS_EXRAM_LSB = 0x50"
definition DS_EXRAM_MSB :: u8 where [clock_regs]: "DS_EXRAM_MSB = 0x51"
definition DS_EXRAM_DATA :: u8 where [clock_regs]: "DS_EXRAM_DATA = 0x53"
definition PCI_RTC_ADDR_REG :: u32 where [clock_regs]: "PCI_RTC_ADDR_REG = 0x70"
definition PCI_RTC_DATA_REG :: u32 where [clock_regs]: "PCI_RTC_DATA_REG = 0x71"

text \<open>The ports of the clock chip, mapped into memory (\<open>asm/pci.h\<close>).\<close>

definition PCI_PORT_BASE :: u32 where [clock_regs]: "PCI_PORT_BASE = 0x18000000"
definition pcimap :: "u32 \<Rightarrow> u32" where [clock_regs]: "pcimap port = PCI_PORT_BASE + port"

definition inb :: "hardware \<Rightarrow> u32 \<Rightarrow> 'a machine_scheme \<Rightarrow> u8 \<times> 'a machine_scheme" where
  "inb hw port s = in8 hw (pcimap port) s"

definition outb :: "u32 \<Rightarrow> u8 \<Rightarrow> 'a machine_scheme \<Rightarrow> 'a machine_scheme" where
  "outb port val s = out8 (pcimap port) val s"

definition rtc_readreg :: "hardware \<Rightarrow> u8 \<Rightarrow> 'a machine_scheme \<Rightarrow> u8 \<times> 'a machine_scheme" where
  "rtc_readreg hw reg s = inb hw PCI_RTC_DATA_REG (outb PCI_RTC_ADDR_REG reg s)"

definition rtc_writereg :: "u8 \<Rightarrow> u8 \<Rightarrow> 'a machine_scheme \<Rightarrow> 'a machine_scheme" where
  "rtc_writereg reg val s = outb PCI_RTC_DATA_REG val (outb PCI_RTC_ADDR_REG reg s)"

definition rtc_init :: "'a machine_scheme \<Rightarrow> 'a machine_scheme" where
  "rtc_init s = rtc_writereg DS_REG_CTLB DS_CTLB_24 (rtc_writereg DS_REG_CTLA (DS_CTLA_DV0 OR DS_CTLA_DV1) s)"

text \<open>C computes in \<open>int\<close> and truncates the result; no intermediate value overflows.\<close>

definition bcd_to_byte :: "u8 \<Rightarrow> u8" where
  "bcd_to_byte bcd = (bcd AND 0xF) + (drop_bit 4 bcd AND 0xF) * 10"

definition byte_to_bcd :: "u8 \<Rightarrow> u8" where
  "byte_to_bcd byte = push_bit 4 ((byte div 10) mod 10) + byte mod 10"

definition rtc_gettimereg :: "hardware \<Rightarrow> u8 \<Rightarrow> 'a machine_scheme \<Rightarrow> u8 \<times> 'a machine_scheme" where
  "rtc_gettimereg hw r s = (let (v, s) = rtc_readreg hw r s in (bcd_to_byte v, s))"

definition rtc_settimereg :: "hardware \<Rightarrow> u8 \<Rightarrow> u8 \<Rightarrow> 'a machine_scheme \<Rightarrow> 'a machine_scheme" where
  "rtc_settimereg hw r v s =
     (let (ctlb, s) = rtc_readreg hw DS_REG_CTLB s;
          s = rtc_writereg DS_REG_CTLB (ctlb OR DS_CTLB_SET) s;
          s = rtc_writereg r (byte_to_bcd v) s
      in rtc_writereg DS_REG_CTLB (ctlb AND NOT DS_CTLB_SET) s)"

definition rtc_getcentury :: "hardware \<Rightarrow> 'a machine_scheme \<Rightarrow> u8 \<times> 'a machine_scheme" where
  "rtc_getcentury hw = rtc_gettimereg hw DS_REG_CENT"
definition rtc_getyearshort :: "hardware \<Rightarrow> 'a machine_scheme \<Rightarrow> u8 \<times> 'a machine_scheme" where
  "rtc_getyearshort hw = rtc_gettimereg hw DS_REG_YEAR"
definition rtc_getmonth :: "hardware \<Rightarrow> 'a machine_scheme \<Rightarrow> u8 \<times> 'a machine_scheme" where
  "rtc_getmonth hw = rtc_gettimereg hw DS_REG_MONTH"
definition rtc_getday :: "hardware \<Rightarrow> 'a machine_scheme \<Rightarrow> u8 \<times> 'a machine_scheme" where
  "rtc_getday hw = rtc_gettimereg hw DS_REG_DATE"
definition rtc_getdayofweek :: "hardware \<Rightarrow> 'a machine_scheme \<Rightarrow> u8 \<times> 'a machine_scheme" where
  "rtc_getdayofweek hw = rtc_gettimereg hw DS_REG_WDAY"
definition rtc_gethour :: "hardware \<Rightarrow> 'a machine_scheme \<Rightarrow> u8 \<times> 'a machine_scheme" where
  "rtc_gethour hw = rtc_gettimereg hw DS_REG_HOUR"
definition rtc_getminute :: "hardware \<Rightarrow> 'a machine_scheme \<Rightarrow> u8 \<times> 'a machine_scheme" where
  "rtc_getminute hw = rtc_gettimereg hw DS_REG_MIN"
definition rtc_getsecond :: "hardware \<Rightarrow> 'a machine_scheme \<Rightarrow> u8 \<times> 'a machine_scheme" where
  "rtc_getsecond hw = rtc_gettimereg hw DS_REG_SEC"

definition rtc_getyear :: "hardware \<Rightarrow> 'a machine_scheme \<Rightarrow> u32 \<times> 'a machine_scheme" where
  "rtc_getyear hw s =
     (let (c, s) = rtc_getcentury hw s; (y, s) = rtc_getyearshort hw s in (ucast c * 100 + ucast y, s))"

definition rtc_setcentury :: "hardware \<Rightarrow> u8 \<Rightarrow> 'a machine_scheme \<Rightarrow> 'a machine_scheme" where
  "rtc_setcentury hw = rtc_settimereg hw DS_REG_CENT"
definition rtc_setyearshort :: "hardware \<Rightarrow> u8 \<Rightarrow> 'a machine_scheme \<Rightarrow> 'a machine_scheme" where
  "rtc_setyearshort hw = rtc_settimereg hw DS_REG_YEAR"
definition rtc_setmonth :: "hardware \<Rightarrow> u8 \<Rightarrow> 'a machine_scheme \<Rightarrow> 'a machine_scheme" where
  "rtc_setmonth hw = rtc_settimereg hw DS_REG_MONTH"
definition rtc_setday :: "hardware \<Rightarrow> u8 \<Rightarrow> 'a machine_scheme \<Rightarrow> 'a machine_scheme" where
  "rtc_setday hw = rtc_settimereg hw DS_REG_DATE"
definition rtc_setdayofweek :: "hardware \<Rightarrow> u8 \<Rightarrow> 'a machine_scheme \<Rightarrow> 'a machine_scheme" where
  "rtc_setdayofweek hw = rtc_settimereg hw DS_REG_WDAY"
definition rtc_sethour :: "hardware \<Rightarrow> u8 \<Rightarrow> 'a machine_scheme \<Rightarrow> 'a machine_scheme" where
  "rtc_sethour hw = rtc_settimereg hw DS_REG_HOUR"
definition rtc_setminute :: "hardware \<Rightarrow> u8 \<Rightarrow> 'a machine_scheme \<Rightarrow> 'a machine_scheme" where
  "rtc_setminute hw = rtc_settimereg hw DS_REG_MIN"
definition rtc_setsecond :: "hardware \<Rightarrow> u8 \<Rightarrow> 'a machine_scheme \<Rightarrow> 'a machine_scheme" where
  "rtc_setsecond hw = rtc_settimereg hw DS_REG_SEC"

definition rtc_setyear :: "hardware \<Rightarrow> u32 \<Rightarrow> 'a machine_scheme \<Rightarrow> 'a machine_scheme" where
  "rtc_setyear hw v s = rtc_setyearshort hw (ucast (v mod 100)) (rtc_setcentury hw (ucast (v div 100)) s)"

end
