(* ===== verification/Clock_Correct.thy ===== *)
theory Clock_Correct
  imports Clock
begin

text \<open>
  What the clocks promise. The chip of the calendar clock and the counter of the global timer
  are described by functions of the accesses so far; on hardware that behaves like them, years
  survive the trip through binary-coded decimals, a 64-bit time is never torn, and a busy wait
  returns, not too early.
\<close>

section \<open>Binary-coded decimals\<close>

lemma u8_parts:
  fixes x :: u8
  shows "unat (x AND 0xF) = unat x mod 16" and "unat (drop_bit 4 x) = unat x div 16"
    and "unat x < 16 \<Longrightarrow> unat (push_bit 4 x) = 16 * unat x"
proof -
  have "x AND 0xF = take_bit 4 x" by (simp add: take_bit_eq_mask mask_eq_exp_minus_1)
  then show "unat (x AND 0xF) = unat x mod 16" by (simp add: unsigned_take_bit_eq take_bit_eq_mod unat_mod_distrib)
  show "unat (drop_bit 4 x) = unat x div 16" by (simp add: unsigned_drop_bit_eq drop_bit_eq_div unat_div_distrib)
  show "unat x < 16 \<Longrightarrow> unat (push_bit 4 x) = 16 * unat x"
    by (simp add: push_bit_eq_mult unat_word_ariths)
qed

lemma bcd_roundtrip: "bcd_to_byte (byte_to_bcd b) = b mod 100"
proof -
  let ?d = "unat b div 10 mod 10" and ?e = "unat b mod 10"
  have d: "unat (b div 10 mod 10) = ?d" "unat (b mod 10) = ?e"
    by (simp_all add: unat_div_distrib unat_mod_distrib)
  have "unat (push_bit 4 (b div 10 mod 10)) = 16 * ?d" using d by (subst u8_parts(3)) simp_all
  then have bcd: "unat (byte_to_bcd b) = 16 * ?d + ?e"
    using d(2) by (simp add: byte_to_bcd_def unat_word_ariths)
  have "unat (byte_to_bcd b AND 0xF) = ?e" by (simp add: u8_parts bcd)
  moreover have "unat (drop_bit 4 (byte_to_bcd b) AND 0xF) = ?d" by (simp add: u8_parts bcd)
  ultimately have "unat (bcd_to_byte (byte_to_bcd b)) = (?e + ?d * 10) mod 256"
    by (simp add: bcd_to_byte_def unat_word_ariths)
  also have "\<dots> = unat (b mod 100)"
    using mod_mult2_eq [of "unat b" 10 10] by (simp add: unat_mod_distrib)
  finally show ?thesis by (simp add: word_unat_eq_iff)
qed

section \<open>The calendar clock\<close>

text \<open>The chip: the register selected through the address port, and the registers.\<close>

fun rtc_chip_step :: "io_event \<Rightarrow> u8 \<times> (u8 \<Rightarrow> u8) \<Rightarrow> u8 \<times> (u8 \<Rightarrow> u8)" where
  "rtc_chip_step (Out8 a v) (sel, regs) =
     (if a = pcimap PCI_RTC_ADDR_REG then (v, regs)
      else if a = pcimap PCI_RTC_DATA_REG then (sel, regs(sel := v)) else (sel, regs))"
| "rtc_chip_step _ c = c"

definition rtc_chip :: "io_event list \<Rightarrow> u8 \<times> (u8 \<Rightarrow> u8)" where
  "rtc_chip t = foldl (\<lambda>c e. rtc_chip_step e c) (0, \<lambda>_. 0) t"

definition rtc_regs :: "'a machine_scheme \<Rightarrow> u8 \<Rightarrow> u8" where
  "rtc_regs s = snd (rtc_chip (io s))"

definition has_rtc :: "hardware \<Rightarrow> bool" where
  "has_rtc hw \<longleftrightarrow> (\<forall>t. hw_read hw t (pcimap PCI_RTC_DATA_REG) = ucast (snd (rtc_chip t) (fst (rtc_chip t))))"

lemma rtc_ports [simp]: "pcimap PCI_RTC_ADDR_REG \<noteq> pcimap PCI_RTC_DATA_REG"
  by (simp add: clock_regs)

lemma rtc_chip_append [simp]: "rtc_chip (t @ es) = foldl (\<lambda>c e. rtc_chip_step e c) (rtc_chip t) es"
  by (simp add: rtc_chip_def)

lemma rtc_writereg_regs [simp]: "rtc_regs (rtc_writereg r v s) = (rtc_regs s)(r := v)"
  by (cases "rtc_chip (io s)") (simp add: rtc_regs_def rtc_writereg_def outb_def not_sym [OF rtc_ports])

lemma rtc_readreg_regs:
  assumes "has_rtc hw"
  shows "rtc_readreg hw r s = (rtc_regs s r, snd (rtc_readreg hw r s)) \<and> rtc_regs (snd (rtc_readreg hw r s)) = rtc_regs s"
proof -
  obtain sel regs where c: "rtc_chip (io s) = (sel, regs)" by force
  have "(ucast (ucast (regs r) :: u32) :: u8) = regs r" by (simp add: ucast_up_ucast_id is_up)
  then show ?thesis using assms
    by (simp add: rtc_readreg_def inb_def in8_def outb_def Let_def rtc_regs_def c has_rtc_def)
qed

lemma rtc_gettimereg_regs:
  assumes "has_rtc hw"
  shows "fst (rtc_gettimereg hw r s) = bcd_to_byte (rtc_regs s r)"
    and "rtc_regs (snd (rtc_gettimereg hw r s)) = rtc_regs s"
  using rtc_readreg_regs [OF assms, of r s] by (auto simp: rtc_gettimereg_def Let_def split: prod.splits)

lemma rtc_settimereg_regs:
  assumes "has_rtc hw"
  shows "rtc_regs (rtc_settimereg hw r v s)
    = (rtc_regs s)(DS_REG_CTLB := rtc_regs s DS_REG_CTLB OR DS_CTLB_SET, r := byte_to_bcd v,
        DS_REG_CTLB := rtc_regs s DS_REG_CTLB AND NOT DS_CTLB_SET)"
  using rtc_readreg_regs [OF assms, of DS_REG_CTLB s] by (auto simp: rtc_settimereg_def Let_def split: prod.splits)

lemma u32_small_u8:
  assumes "v < 256"
  shows "unat (ucast (v :: u32) :: u8) = unat v"
  using assms by (simp add: unsigned_ucast_eq take_bit_eq_mod word_less_nat_alt)

lemma unat_ucast_u8: "unat (ucast (b :: u8) :: u32) = unat b"
  using unsigned_less [of b, where ?'a = nat] by (simp add: unsigned_ucast_eq take_bit_nat_eq_self)

section \<open>The global timer\<close>

text \<open>The counter as a number that grows with every access, by at least one tick and by at
  most 2^20, and the two registers that show it.\<close>

definition has_gtc :: "hardware \<Rightarrow> (io_event list \<Rightarrow> nat) \<Rightarrow> bool" where
  "has_gtc hw c \<longleftrightarrow> (\<forall>t. hw_read hw t (GTC_BASE + GTC_COUNTER_LO_OFFSET) = of_nat (c t))
     \<and> (\<forall>t. hw_read hw t (GTC_BASE + GTC_COUNTER_HI_OFFSET) = of_nat (c t div 2 ^ 32))
     \<and> (\<forall>t e. c t < c (t @ [e]) \<and> c (t @ [e]) \<le> c t + 2 ^ 20)"

definition now_of :: "(io_event list \<Rightarrow> nat) \<Rightarrow> 'a machine_scheme \<Rightarrow> nat" where
  "now_of c s = c (io s)"

lemma gtc_reads:
  assumes "has_gtc hw c"
  shows "\<exists>s'. in32 hw (GTC_BASE + GTC_COUNTER_HI_OFFSET) s = (of_nat (now_of c s div 2 ^ 32), s')
      \<and> now_of c s < now_of c s' \<and> now_of c s' \<le> now_of c s + 2 ^ 20"
    and "\<exists>s'. in32 hw (GTC_BASE + GTC_COUNTER_LO_OFFSET) s = (of_nat (now_of c s), s')
      \<and> now_of c s < now_of c s' \<and> now_of c s' \<le> now_of c s + 2 ^ 20"
  using assms by (auto simp: has_gtc_def in32_def now_of_def Let_def)

lemma u64_parts: "push_bit 32 (ucast (of_nat (n div 2 ^ 32) :: u32)) OR ucast (of_nat n :: u32) = (of_nat n :: u64)"
proof (rule bit_eqI)
  fix k assume "possible_bit TYPE(u64) k"
  then have "k < 64" by simp
  moreover have "bit (n div 2 ^ 32) (k - 32) \<longleftrightarrow> bit n k" if "32 \<le> k"
    using that by (simp only: drop_bit_eq_div [symmetric] bit_drop_bit_eq o_def le_add_diff_inverse)
  ultimately show "bit (push_bit 32 (ucast (of_nat (n div 2 ^ 32) :: u32)) OR ucast (of_nat n :: u32) :: u64) k
      = bit (of_nat n :: u64) k"
    by (cases "32 \<le> k") (auto simp: bit_simps)
qed

text \<open>One round of reads: either the high words agree and the result is the counter at the
  second read, or the low word has just wrapped.\<close>

lemma gtc_round:
  fixes s :: "'a machine_scheme"
  assumes "has_gtc hw c" and "now_of c s + 2 ^ 31 < 2 ^ 64"
  obtains (fine) s2 s3 :: "'a machine_scheme" where "gtc_get_time hw s = Some (of_nat (now_of c s2), s3)"
      and "now_of c s \<le> now_of c s2" and "now_of c s2 < now_of c s3" and "now_of c s3 \<le> now_of c s + 3 * 2 ^ 20"
  | (again) s3 :: "'a machine_scheme" where "gtc_get_time hw s = gtc_get_time hw s3" and "now_of c s < now_of c s3"
      and "now_of c s3 \<le> now_of c s + 3 * 2 ^ 20" and "now_of c s3 mod 2 ^ 32 \<le> 3 * 2 ^ 20"
      and "now_of c s div 2 ^ 32 < now_of c s3 div 2 ^ 32"
proof -
  from gtc_reads(1) [OF assms(1), of s] obtain s1 where
    1: "in32 hw (GTC_BASE + GTC_COUNTER_HI_OFFSET) s = (of_nat (now_of c s div 2 ^ 32), s1)"
      "now_of c s < now_of c s1" "now_of c s1 \<le> now_of c s + 2 ^ 20" by blast
  from gtc_reads(2) [OF assms(1), of s1] obtain s2 where
    2: "in32 hw (GTC_BASE + GTC_COUNTER_LO_OFFSET) s1 = (of_nat (now_of c s1), s2)"
      "now_of c s1 < now_of c s2" "now_of c s2 \<le> now_of c s1 + 2 ^ 20" by blast
  from gtc_reads(1) [OF assms(1), of s2] obtain s3 where
    3: "in32 hw (GTC_BASE + GTC_COUNTER_HI_OFFSET) s2 = (of_nat (now_of c s2 div 2 ^ 32), s3)"
      "now_of c s2 < now_of c s3" "now_of c s3 \<le> now_of c s2 + 2 ^ 20" by blast
  let ?hi = "of_nat (now_of c s div 2 ^ 32) :: u32" and ?tmp = "of_nat (now_of c s2 div 2 ^ 32) :: u32"
  have step: "gtc_get_time hw s = (if ?hi \<noteq> ?tmp then gtc_get_time hw s3
      else Some (push_bit 32 (ucast ?hi) OR ucast (of_nat (now_of c s1) :: u32), s3))"
    by (subst gtc_get_time.simps) (simp add: 1(1) 2(1) 3(1))
  have small: "now_of c s div 2 ^ 32 < 2 ^ 32" "now_of c s2 div 2 ^ 32 < 2 ^ 32"
    using assms(2) 1(3) 2(3) by (simp_all add: less_mult_imp_div_less)
  then have eq: "?hi = ?tmp \<longleftrightarrow> now_of c s div 2 ^ 32 = now_of c s2 div 2 ^ 32"
    using unat_of_nat_u32 [of "now_of c s div 2 ^ 32"] unat_of_nat_u32 [of "now_of c s2 div 2 ^ 32"]
    by (simp add: word_unat_eq_iff)
  show ?thesis
  proof (cases "?hi = ?tmp")
    case True
    have "now_of c s div 2 ^ 32 \<le> now_of c s1 div 2 ^ 32" "now_of c s1 div 2 ^ 32 \<le> now_of c s2 div 2 ^ 32"
      using 1(2) 2(2) by (simp_all add: div_le_mono)
    then have "now_of c s1 div 2 ^ 32 = now_of c s div 2 ^ 32" using True eq by simp
    then have "gtc_get_time hw s = Some (of_nat (now_of c s1), s3)"
      using step True u64_parts [of "now_of c s1"] by simp
    then show ?thesis using fine [of s1 s3] 1(2,3) 2(2,3) 3(2,3) by simp
  next
    case False
    then have "gtc_get_time hw s = gtc_get_time hw s3" using step by simp
    moreover have wrap: "now_of c s div 2 ^ 32 < now_of c s3 div 2 ^ 32"
        using False eq 1(2) 2(2) 3(2) div_le_mono [of "now_of c s" "now_of c s2" "2 ^ 32"]
          div_le_mono [of "now_of c s2" "now_of c s3" "2 ^ 32"] by simp
    moreover have "now_of c s3 mod 2 ^ 32 \<le> 3 * 2 ^ 20"
    proof -
      from wrap have "(now_of c s div 2 ^ 32 + 1) * 2 ^ 32 \<le> now_of c s3" 
        by (metis Suc_eq_plus1 Suc_leI div_times_less_eq_dividend dual_order.trans mult_le_mono1)
      moreover have "now_of c s < (now_of c s div 2 ^ 32 + 1) * 2 ^ 32"
        using dividend_less_div_times [of "2 ^ 32" "now_of c s"] by simp
      ultimately have "now_of c s3 - (now_of c s div 2 ^ 32 + 1) * 2 ^ 32 \<le> 3 * 2 ^ 20"
        using 1(3) 2(3) 3(3) by simp
      moreover have "now_of c s3 mod 2 ^ 32 \<le> now_of c s3 - (now_of c s div 2 ^ 32 + 1) * 2 ^ 32"
        using \<open>(now_of c s div 2 ^ 32 + 1) * 2 ^ 32 \<le> now_of c s3\<close>
        by (metis le_add_diff_inverse2 mod_less_eq_dividend mod_mult_self1)
      ultimately show ?thesis by linarith
    qed
    ultimately show ?thesis using again [of s3] 1(2,3) 2(2,3) 3(2,3) by simp
  qed
qed

lemma no_wrap:
  fixes a b :: nat
  assumes "a \<le> b + 3145728" and "b mod 4294967296 \<le> 3145728"
  shows "a < (b div 4294967296 + 1) * 4294967296"
proof -
  have "b = b div 4294967296 * 4294967296 + b mod 4294967296" by (rule div_mult_mod_eq [symmetric])
  then have "a \<le> b div 4294967296 * 4294967296 + 6291456" using assms by linarith
  then show ?thesis unfolding add_mult_distrib by linarith
qed

lemma gtc_ok:
  assumes "has_gtc hw c" and "now_of c s + 2 ^ 32 < 2 ^ 64"
  shows "\<exists>v s'. gtc_get_time hw s = Some (of_nat v, s') \<and> now_of c s \<le> v \<and> v < now_of c s'
    \<and> now_of c s' \<le> now_of c s + 6 * 2 ^ 20"
proof -
  have "now_of c s + 2 ^ 31 < 2 ^ 64" using assms(2) by simp
  from assms(1) this show ?thesis
  proof (cases rule: gtc_round)
    case (fine s2 s3)
    then show ?thesis by (intro exI [of _ "now_of c s2"] exI [of _ s3]) simp
  next
    case (again s3)
    have "now_of c s3 + 2 ^ 31 < 2 ^ 64" using assms(2) again(3) by simp
    from assms(1) this show ?thesis
    proof (cases rule: gtc_round)
      case (fine s4 s5)
      then show ?thesis using again by (intro exI [of _ "now_of c s4"] exI [of _ s5]) simp
    next
      case (again s4)
      have "now_of c s4 div 2 ^ 32 = now_of c s3 div 2 ^ 32"
      proof (rule antisym)
        have "now_of c s4 < (now_of c s3 div 2 ^ 32 + 1) * 2 ^ 32"
          using no_wrap [of "now_of c s4" "now_of c s3"] again(3) \<open>now_of c s3 mod 2 ^ 32 \<le> 3 * 2 ^ 20\<close> by simp
        then show "now_of c s4 div 2 ^ 32 \<le> now_of c s3 div 2 ^ 32"
          by (metis less_Suc_eq_le Suc_eq_plus1 less_mult_imp_div_less)
      qed (use again(2) in \<open>simp add: div_le_mono\<close>)
      then show ?thesis using again(5) by simp
    qed
  qed
qed

lemma of_nat_u64_less:
  assumes "v < 2 ^ 64" and "w < 2 ^ 64"
  shows "(of_nat v :: u64) < of_nat w \<longleftrightarrow> v < w"
  using assms by (simp add: word_less_nat_alt unat_of_nat)

lemma wait_until_ok:
  fixes s :: "'a machine_scheme"
  assumes "has_gtc hw c" and "now_of c s + 2 ^ 33 < 2 ^ 64" and "target + 2 ^ 34 < 2 ^ 64"
  shows "\<exists>s'. wait_until hw (of_nat target) s = Some s' \<and> target \<le> now_of c s' \<and> now_of c s < now_of c s'
    \<and> now_of c s' \<le> (if target \<le> now_of c s then now_of c s + 6 * 2 ^ 20 else target + 12 * 2 ^ 20)"
  using assms(2)
proof (induction "target - now_of c s" arbitrary: s rule: less_induct)
  case less
  have "now_of c s + 2 ^ 32 < 2 ^ 64" using less.prems by simp
  from gtc_ok [OF assms(1) this] obtain v s1 where v: "gtc_get_time hw s = Some (of_nat v, s1)"
    "now_of c s \<le> v" "v < now_of c s1" "now_of c s1 \<le> now_of c s + 6 * 2 ^ 20" by blast
  have lt: "(of_nat v :: u64) < of_nat target \<longleftrightarrow> v < target"
    using v less.prems assms(3) by (intro of_nat_u64_less) simp_all
  show ?case
  proof (cases "v < target")
    case True
    then have "target - now_of c s1 < target - now_of c s" using v by linarith
    moreover have "now_of c s1 + 2 ^ 33 < 2 ^ 64" using v True assms(3) by simp
    ultimately obtain s' where s': "wait_until hw (of_nat target) s1 = Some s'" "target \<le> now_of c s'"
      "now_of c s1 < now_of c s'"
      "now_of c s' \<le> (if target \<le> now_of c s1 then now_of c s1 + 6 * 2 ^ 20 else target + 12 * 2 ^ 20)"
      using less.hyps [of s1] by blast
    have "now_of c s' \<le> target + 12 * 2 ^ 20" using s'(4) v True by (auto split: if_splits)
    then show ?thesis using v True lt s' by (subst wait_until.simps) simp
  next
    case False
    then show ?thesis using v lt by (subst wait_until.simps) auto
  qed
qed

section \<open>Results\<close>

text \<open>
  C29. Dates survive the chip. On hardware with the calendar clock, \<open>rtc_setyear\<close> followed by
  \<open>rtc_getyear\<close> gives the year back, for every year below 10000; so for the other fields below
  100. Setting a field leaves the clock running (the \<open>SET\<close> bit of register B is clear).
\<close>

theorem rtc_roundtrip:
  assumes "has_rtc hw" and "y < 10000" and "v < 100"
  shows "fst (rtc_getyear hw (rtc_setyear hw y s)) = y
    \<and> fst (rtc_getmonth hw (rtc_setmonth hw v s)) = v
    \<and> rtc_regs (rtc_setmonth hw v s) DS_REG_CTLB AND DS_CTLB_SET = 0"
proof (intro conjI)
  note regs = rtc_gettimereg_regs [OF assms(1)] rtc_settimereg_regs [OF assms(1)]
  have ne: "DS_REG_CTLB \<noteq> DS_REG_CENT" "DS_REG_CTLB \<noteq> DS_REG_YEAR" "DS_REG_CENT \<noteq> DS_REG_YEAR"
    "DS_REG_CTLB \<noteq> DS_REG_MONTH" "DS_REG_CENT \<noteq> DS_REG_CTLB" "DS_REG_YEAR \<noteq> DS_REG_CTLB"
    "DS_REG_YEAR \<noteq> DS_REG_CENT" "DS_REG_MONTH \<noteq> DS_REG_CTLB"
    by (simp_all add: clock_regs)
  define hi lo where "hi = (ucast (y div 100) :: u8)" and "lo = (ucast (y mod 100) :: u8)"
  have "y div 100 < 256" "y mod 100 < 256"
    using assms(2) by (simp_all add: word_less_nat_alt unat_div_distrib unat_mod_distrib)
  then have small: "unat hi = unat y div 100" "unat lo = unat y mod 100"
    by (simp_all add: hi_def lo_def u32_small_u8 unat_div_distrib unat_mod_distrib)
  have "unat y div 100 < 100" using assms(2) by (simp add: word_less_nat_alt)
  then have m: "hi mod 100 = hi" "lo mod 100 = lo"
    using small by (simp_all add: word_unat_eq_iff unat_mod_distrib)
  have "fst (rtc_getyear hw (rtc_setyear hw y s)) = ucast hi * 100 + ucast lo"
    by (simp add: rtc_getyear_def rtc_setyear_def rtc_getcentury_def rtc_getyearshort_def rtc_setcentury_def
        rtc_setyearshort_def Let_def split: prod.splits)
      (metis (no_types, lifting) bcd_roundtrip fst_conv snd_conv fun_upd_apply hi_def lo_def m ne regs)
  also have "unat \<dots> = unat y"
  proof -
    have sum: "unat hi * 100 + unat lo = unat y" using small by (simp only: div_mult_mod_eq)
    moreover have "unat y < 10000" using assms(2) by (simp add: word_less_nat_alt)
    ultimately have lt: "unat hi * 100 < 4294967296" "unat hi * 100 + unat lo < 4294967296" by linarith+
    show ?thesis by (simp add: unat_word_ariths unat_ucast_u8 mod_less [OF lt(1)] mod_less [OF lt(2)] sum mod_less [OF u32_bound])
  qed
  finally show "fst (rtc_getyear hw (rtc_setyear hw y s)) = y" by (simp add: word_unat_eq_iff)
  have "v mod 100 = v" using assms(3) by (simp add: word_unat_eq_iff unat_mod_distrib word_less_nat_alt)
  then show "fst (rtc_getmonth hw (rtc_setmonth hw v s)) = v"
    by (simp add: rtc_getmonth_def rtc_setmonth_def regs ne bcd_roundtrip)
  show "rtc_regs (rtc_setmonth hw v s) DS_REG_CTLB AND DS_CTLB_SET = 0"
    by (simp add: rtc_setmonth_def regs ne and.assoc)
qed

theorem rtc_roundtrip_witness:
  "\<exists>hw. fst (rtc_getyear hw (rtc_setyear hw 2016 \<lparr>mem = \<lambda>_. 0, con = [], io = []\<rparr>)) = 2016"
proof -
  define hw where "hw = \<lparr>hw_read = \<lambda>t a. ucast (snd (rtc_chip t) (fst (rtc_chip t))), hw_dma = \<lambda>_ m. m\<rparr>"
  have "has_rtc hw" by (simp add: has_rtc_def hw_def)
  from rtc_roundtrip [OF this, of 2016 1 "\<lparr>mem = \<lambda>_. 0, con = [], io = []\<rparr>"] show ?thesis by auto
qed

text \<open>
  C27. The 64-bit time is never torn. On hardware with the global timer, \<open>gtc_get_time\<close> returns,
  and the time it returns is one the counter had during the call, although the two halves are
  read one after the other and the low half may wrap in between.
\<close>

theorem gtc_get_time_untorn:
  assumes "has_gtc hw c" and "now_of c s + 2 ^ 32 < 2 ^ 64"
  shows "\<exists>v s'. gtc_get_time hw s = Some (v, s') \<and> now_of c s \<le> unat v \<and> unat v < now_of c s'"
proof -
  from gtc_ok [OF assms] obtain v s' where v: "gtc_get_time hw s = Some (of_nat v, s')"
    "now_of c s \<le> v" "v < now_of c s'" "now_of c s' \<le> now_of c s + 6 * 2 ^ 20" by blast
  moreover have "unat (of_nat v :: u64) = v" using v assms(2) by (simp add: unat_of_nat)
  ultimately show ?thesis by auto
qed

text \<open>A counter that is about to wrap its low word, and ticks once per access.\<close>

definition tick_clock :: "io_event list \<Rightarrow> nat" where
  "tick_clock t = 4294967294 + length t"

definition tick_hw :: hardware where
  "tick_hw = \<lparr>hw_read = \<lambda>t a. if a = GTC_BASE + GTC_COUNTER_LO_OFFSET then of_nat (tick_clock t)
     else of_nat (tick_clock t div 2 ^ 32), hw_dma = \<lambda>_ m. m\<rparr>"

lemma tick_hw_gtc: "has_gtc tick_hw tick_clock"
  by (simp add: has_gtc_def tick_hw_def tick_clock_def clock_regs)

theorem gtc_get_time_untorn_witness:
  "\<exists>v s'. gtc_get_time tick_hw \<lparr>mem = \<lambda>_. 0, con = [], io = []\<rparr> = Some (v, s') \<and> 4294967294 \<le> unat v"
  using gtc_get_time_untorn [OF tick_hw_gtc, of "\<lparr>mem = \<lambda>_. 0, con = [], io = []\<rparr>"]
  by (auto simp: now_of_def tick_clock_def)

lemma sleep_target:
  assumes "unat k < 2147483648" and "v + unat k < 2 ^ 64"
  shows "(of_nat v :: u64) + scast (k :: u32) = of_nat (v + unat k)"
proof -
  have "int (unat k) < 2147483648" using assms(1) by linarith
  then have "sint k = int (unat k)" using sint_u32 [of k] by simp
  then have "(scast k :: u64) = of_int (int (unat k))" by (simp only: scast_eq)
  then show ?thesis by (simp only: of_int_of_nat_eq of_nat_add)
qed

text \<open>
  C28. \<open>sleep\<close> waits. For up to five seconds, on hardware with the global timer, it returns, and by
  then the counter has advanced by 400 million ticks for every second asked for.
\<close>

theorem sleep_waits:
  assumes "has_gtc hw c" and "sec \<le> 5" and "now_of c s + 2 ^ 35 < 2 ^ 64"
  shows "\<exists>s'. sleep hw sec s = Some s' \<and> now_of c s + 400000000 * unat sec \<le> now_of c s'"
proof -
  have "now_of c s + 2 ^ 32 < 2 ^ 64" using assms(3) by simp
  from gtc_ok [OF assms(1) this] obtain v s1 where v: "gtc_get_time hw s = Some (of_nat v, s1)"
    "now_of c s \<le> v" "v < now_of c s1" "now_of c s1 \<le> now_of c s + 6 * 2 ^ 20" by blast
  have sec: "unat sec \<le> 5" using assms(2) by (simp add: word_le_nat_alt)
  then have k: "unat (GTC_TPS * sec) = 400000000 * unat sec"
    by (simp add: clock_regs unat_word_ariths)
  have t: "of_nat v + scast (GTC_TPS * sec) = (of_nat (v + 400000000 * unat sec) :: u64)"
    using sleep_target [of "GTC_TPS * sec" v] sec v assms(3) by (simp add: k)
  have "now_of c s1 + 2 ^ 33 < 2 ^ 64" "v + 400000000 * unat sec + 2 ^ 34 < 2 ^ 64"
    using v sec assms(3) by simp_all
  from wait_until_ok [OF assms(1) this] obtain s' where
    "wait_until hw (of_nat (v + 400000000 * unat sec)) s1 = Some s'" "v + 400000000 * unat sec \<le> now_of c s'"
    by blast
  then show ?thesis using v(2) by (simp add: sleep_def v(1) t del: of_nat_add)
qed

theorem sleep_waits_witness:
  "\<exists>s'. sleep tick_hw 1 \<lparr>mem = \<lambda>_. 0, con = [], io = []\<rparr> = Some s' \<and> 4694967294 \<le> now_of tick_clock s'"
  using sleep_waits [OF tick_hw_gtc, of 1 "\<lparr>mem = \<lambda>_. 0, con = [], io = []\<rparr>"]
  by (auto simp: now_of_def tick_clock_def)

text \<open>
  Above five seconds the product overflows. \<open>sleep\<close> of six seconds asks for a negative number
  of ticks: once the counter is past two thousand million ticks (five seconds), it returns
  within 12.6 million of them (31 milliseconds).
\<close>

theorem sleep_overflow:
  assumes "has_gtc hw c" and "2000000000 \<le> now_of c s" and "now_of c s + 2 ^ 35 < 2 ^ 64"
  shows "\<exists>s'. sleep hw 6 s = Some s' \<and> now_of c s' \<le> now_of c s + 12 * 2 ^ 20"
proof -
  have "now_of c s + 2 ^ 32 < 2 ^ 64" using assms(3) by simp
  from gtc_ok [OF assms(1) this] obtain v s1 where v: "gtc_get_time hw s = Some (of_nat v, s1)"
    "now_of c s \<le> v" "v < now_of c s1" "now_of c s1 \<le> now_of c s + 6 * 2 ^ 20" by blast
  have six: "(scast (GTC_TPS * 6) :: u64) = - 1894967296" by (simp add: clock_regs scast_eq)
  have "of_nat v + scast (GTC_TPS * 6) = (of_nat (v - 1894967296) :: u64)"
    using v(2) assms(2) unfolding six by (simp add: of_nat_diff)
  moreover have "now_of c s1 + 2 ^ 33 < 2 ^ 64" "v - 1894967296 + 2 ^ 34 < 2 ^ 64"
    using v assms(3) by simp_all
  from wait_until_ok [OF assms(1) this] v(3) obtain s' where
    "wait_until hw (of_nat (v - 1894967296)) s1 = Some s'" "now_of c s' \<le> now_of c s1 + 6 * 2 ^ 20"
    by (auto split: if_splits)
  ultimately show ?thesis using v(4) by (auto simp: sleep_def v(1))
qed

theorem sleep_overflow_witness:
  "\<exists>s'. sleep tick_hw 6 \<lparr>mem = \<lambda>_. 0, con = [], io = []\<rparr> = Some s' \<and> now_of tick_clock s' < 4294967296 + 12 * 2 ^ 20"
  using sleep_overflow [OF tick_hw_gtc, of "\<lparr>mem = \<lambda>_. 0, con = [], io = []\<rparr>"]
  by (auto simp: now_of_def tick_clock_def)

end
