(* ===== verification/Sd_Regs.thy ===== *)
theory Sd_Regs
  imports Dtb
begin

text \<open>
  The registers of the SD host controller, the bits in them and the commands
  (\<open>drivers/sd/sd-zynq7000.h\<close>), each at the width of the register it is for.
\<close>

named_theorems sd_regs

definition SD_SDMA_SYS_ADDR_OFFSET :: u32 where [sd_regs]: "SD_SDMA_SYS_ADDR_OFFSET = 0x00"
definition SD_BLK_SIZE_OFFSET :: u32 where [sd_regs]: "SD_BLK_SIZE_OFFSET = 0x04"
definition SD_BLK_CNT_OFFSET :: u32 where [sd_regs]: "SD_BLK_CNT_OFFSET = 0x06"
definition SD_ARGMT_OFFSET :: u32 where [sd_regs]: "SD_ARGMT_OFFSET = 0x08"
definition SD_XFER_MODE_OFFSET :: u32 where [sd_regs]: "SD_XFER_MODE_OFFSET = 0x0c"
definition SD_CMD_OFFSET :: u32 where [sd_regs]: "SD_CMD_OFFSET = 0x0e"
definition SD_RESP0_OFFSET :: u32 where [sd_regs]: "SD_RESP0_OFFSET = 0x10"
definition SD_RESP1_OFFSET :: u32 where [sd_regs]: "SD_RESP1_OFFSET = 0x14"
definition SD_RESP2_OFFSET :: u32 where [sd_regs]: "SD_RESP2_OFFSET = 0x18"
definition SD_RESP3_OFFSET :: u32 where [sd_regs]: "SD_RESP3_OFFSET = 0x1c"
definition SD_BUF_DAT_PORT_OFFSET :: u32 where [sd_regs]: "SD_BUF_DAT_PORT_OFFSET = 0x20"
definition SD_PRES_STATE_OFFSET :: u32 where [sd_regs]: "SD_PRES_STATE_OFFSET = 0x24"
definition SD_HOST_CTRL1_OFFSET :: u32 where [sd_regs]: "SD_HOST_CTRL1_OFFSET = 0x28"
definition SD_POWER_CTRL_OFFSET :: u32 where [sd_regs]: "SD_POWER_CTRL_OFFSET = 0x29"
definition SD_BLK_GAP_CTRL_OFFSET :: u32 where [sd_regs]: "SD_BLK_GAP_CTRL_OFFSET = 0x2a"
definition SD_WAKE_UP_CTRL_OFFSET :: u32 where [sd_regs]: "SD_WAKE_UP_CTRL_OFFSET = 0x2b"
definition SD_CLK_CTRL_OFFSET :: u32 where [sd_regs]: "SD_CLK_CTRL_OFFSET = 0x2c"
definition SD_TIMEOUT_CTRL_OFFSET :: u32 where [sd_regs]: "SD_TIMEOUT_CTRL_OFFSET = 0x2e"
definition SD_SW_RST_OFFSET :: u32 where [sd_regs]: "SD_SW_RST_OFFSET = 0x2f"
definition SD_NORM_INTR_STS_OFFSET :: u32 where [sd_regs]: "SD_NORM_INTR_STS_OFFSET = 0x30"
definition SD_ERR_INTR_STS_OFFSET :: u32 where [sd_regs]: "SD_ERR_INTR_STS_OFFSET = 0x32"
definition SD_NORM_INTR_STS_EN_OFFSET :: u32 where [sd_regs]: "SD_NORM_INTR_STS_EN_OFFSET = 0x34"
definition SD_ERR_INTR_STS_EN_OFFSET :: u32 where [sd_regs]: "SD_ERR_INTR_STS_EN_OFFSET = 0x36"
definition SD_NORM_INTR_SIG_EN_OFFSET :: u32 where [sd_regs]: "SD_NORM_INTR_SIG_EN_OFFSET = 0x38"
definition SD_ERR_INTR_SIG_EN_OFFSET :: u32 where [sd_regs]: "SD_ERR_INTR_SIG_EN_OFFSET = 0x3a"
definition SD_AUTO_CMD12_ERR_STS_OFFSET :: u32 where [sd_regs]: "SD_AUTO_CMD12_ERR_STS_OFFSET = 0x3c"
definition SD_HOST_CTRL2_OFFSET :: u32 where [sd_regs]: "SD_HOST_CTRL2_OFFSET = 0x3e"
definition SD_CAPS_OFFSET :: u32 where [sd_regs]: "SD_CAPS_OFFSET = 0x40"
definition SD_CAPS_EXT_OFFSET :: u32 where [sd_regs]: "SD_CAPS_EXT_OFFSET = 0x44"
definition SD_MAX_CURR_CAPS_OFFSET :: u32 where [sd_regs]: "SD_MAX_CURR_CAPS_OFFSET = 0x48"
definition SD_MAX_CURR_CAPS_EXT_OFFSET :: u32 where [sd_regs]: "SD_MAX_CURR_CAPS_EXT_OFFSET = 0x4c"
definition SD_FE_AUTO_CMD12_EIS_OFFSET :: u32 where [sd_regs]: "SD_FE_AUTO_CMD12_EIS_OFFSET = 0x50"
definition SD_FE_ERR_INT_STS_OFFSET :: u32 where [sd_regs]: "SD_FE_ERR_INT_STS_OFFSET = 0x52"
definition SD_ADMA_ERR_STS_OFFSET :: u32 where [sd_regs]: "SD_ADMA_ERR_STS_OFFSET = 0x54"
definition SD_ADMA_SAR_OFFSET :: u32 where [sd_regs]: "SD_ADMA_SAR_OFFSET = 0x58"
definition SD_ADMA_SAR_EXT_OFFSET :: u32 where [sd_regs]: "SD_ADMA_SAR_EXT_OFFSET = 0x5c"
definition SD_PRE_VAL_1_OFFSET :: u32 where [sd_regs]: "SD_PRE_VAL_1_OFFSET = 0x60"
definition SD_PRE_VAL_2_OFFSET :: u32 where [sd_regs]: "SD_PRE_VAL_2_OFFSET = 0x64"
definition SD_PRE_VAL_13_OFFSET :: u32 where [sd_regs]: "SD_PRE_VAL_13_OFFSET = 0x68"
definition SD_PRE_VAL_4_OFFSET :: u32 where [sd_regs]: "SD_PRE_VAL_4_OFFSET = 0x6c"
definition SD_SHARED_BUS_CTRL_OFFSET :: u32 where [sd_regs]: "SD_SHARED_BUS_CTRL_OFFSET = 0xe0"
definition SD_SLOT_INTR_STS_OFFSET :: u32 where [sd_regs]: "SD_SLOT_INTR_STS_OFFSET = 0xfc"
definition SD_HOST_CTRL_VER_OFFSET :: u32 where [sd_regs]: "SD_HOST_CTRL_VER_OFFSET = 0xfe"
definition SD_BLK_SIZE_MASK :: u16 where [sd_regs]: "SD_BLK_SIZE_MASK = 0x0fff"
definition SD_SDMA_BUFF_SIZE_MASK :: u16 where [sd_regs]: "SD_SDMA_BUFF_SIZE_MASK = 0x7000"
definition SD_TM_MUL_SIN_BLK_SEL :: u16 where [sd_regs]: "SD_TM_MUL_SIN_BLK_SEL = 0x20"
definition SD_TM_DAT_DIR_SEL :: u16 where [sd_regs]: "SD_TM_DAT_DIR_SEL = 0x10"
definition SD_TM_AUTO_CMD12_EN :: u16 where [sd_regs]: "SD_TM_AUTO_CMD12_EN = 0x04"
definition SD_TM_BLK_CNT_EN :: u16 where [sd_regs]: "SD_TM_BLK_CNT_EN = 0x02"
definition SD_TM_DMA_EN :: u16 where [sd_regs]: "SD_TM_DMA_EN = 0x01"
definition SD_PSR_WPS_PL :: u32 where [sd_regs]: "SD_PSR_WPS_PL = 0x00080000"
definition SD_PSR_CARD_DPL :: u32 where [sd_regs]: "SD_PSR_CARD_DPL = 0x00040000"
definition SD_PSR_CARD_STABLE :: u32 where [sd_regs]: "SD_PSR_CARD_STABLE = 0x00020000"
definition SD_PSR_CARD_INSRT :: u32 where [sd_regs]: "SD_PSR_CARD_INSRT = 0x00010000"
definition SD_PSR_BUFF_RD_EN :: u32 where [sd_regs]: "SD_PSR_BUFF_RD_EN = 0x00000800"
definition SD_PSR_BUFF_WR_EN :: u32 where [sd_regs]: "SD_PSR_BUFF_WR_EN = 0x00000400"
definition SD_PSR_RD_ACTIVE :: u32 where [sd_regs]: "SD_PSR_RD_ACTIVE = 0x00000200"
definition SD_PSR_WR_ACTIVE :: u32 where [sd_regs]: "SD_PSR_WR_ACTIVE = 0x00000100"
definition SD_PSR_DAT_ACTIVE :: u32 where [sd_regs]: "SD_PSR_DAT_ACTIVE = 0x00000004"
definition SD_PSR_INHIBIT_DAT :: u32 where [sd_regs]: "SD_PSR_INHIBIT_DAT = 0x00000002"
definition SD_PSR_INHIBIT_CMD :: u32 where [sd_regs]: "SD_PSR_INHIBIT_CMD = 0x00000001"
definition SD_HC_CARD_DET_SD :: u8 where [sd_regs]: "SD_HC_CARD_DET_SD = 0x80"
definition SD_HC_CARD_DET_TL :: u8 where [sd_regs]: "SD_HC_CARD_DET_TL = 0x40"
definition SD_HC_EXT_BUS_WIDTH :: u8 where [sd_regs]: "SD_HC_EXT_BUS_WIDTH = 0x20"
definition SD_HC_DMA_MASK :: u8 where [sd_regs]: "SD_HC_DMA_MASK = 0x18"
definition SD_HC_DMA_ADMA2_64 :: u8 where [sd_regs]: "SD_HC_DMA_ADMA2_64 = 0x18"
definition SD_HC_DMA_ADMA2_32 :: u8 where [sd_regs]: "SD_HC_DMA_ADMA2_32 = 0x10"
definition SD_HC_DMA_ADMA1 :: u8 where [sd_regs]: "SD_HC_DMA_ADMA1 = 0x08"
definition SD_HC_SPEED :: u8 where [sd_regs]: "SD_HC_SPEED = 0x04"
definition SD_HC_WIDTH :: u8 where [sd_regs]: "SD_HC_WIDTH = 0x02"
definition SD_HC_LED :: u8 where [sd_regs]: "SD_HC_LED = 0x01"
definition SD_HC_DMA_SDMA :: u8 where [sd_regs]: "SD_HC_DMA_SDMA = 0x00"
definition SD_PC_BUS_VSEL_MASK :: u8 where [sd_regs]: "SD_PC_BUS_VSEL_MASK = 0x0e"
definition SD_PC_BUS_VSEL_3V3 :: u8 where [sd_regs]: "SD_PC_BUS_VSEL_3V3 = 0x0e"
definition SD_PC_BUS_VSEL_3V0 :: u8 where [sd_regs]: "SD_PC_BUS_VSEL_3V0 = 0x0c"
definition SD_PC_BUS_VSEL_1V8 :: u8 where [sd_regs]: "SD_PC_BUS_VSEL_1V8 = 0x0a"
definition SD_PC_BUS_PWR :: u8 where [sd_regs]: "SD_PC_BUS_PWR = 0x01"
definition SD_BGC_BOOT_ACK :: u8 where [sd_regs]: "SD_BGC_BOOT_ACK = 0x80"
definition SD_BGC_ALT_BOOT_EN :: u8 where [sd_regs]: "SD_BGC_ALT_BOOT_EN = 0x40"
definition SD_BGC_BOOT_EN :: u8 where [sd_regs]: "SD_BGC_BOOT_EN = 0x20"
definition SD_BGC_SPI_MODE :: u8 where [sd_regs]: "SD_BGC_SPI_MODE = 0x10"
definition SD_BGC_INTR :: u8 where [sd_regs]: "SD_BGC_INTR = 0x08"
definition SD_BGC_RWC :: u8 where [sd_regs]: "SD_BGC_RWC = 0x04"
definition SD_BGC_CNT_REQ :: u8 where [sd_regs]: "SD_BGC_CNT_REQ = 0x02"
definition SD_BGC_STP_REQ :: u8 where [sd_regs]: "SD_BGC_STP_REQ = 0x01"
definition SD_WC_WUP_ON_REM :: u8 where [sd_regs]: "SD_WC_WUP_ON_REM = 0x04"
definition SD_WC_WUP_ON_INSRT :: u8 where [sd_regs]: "SD_WC_WUP_ON_INSRT = 0x02"
definition SD_WC_WUP_ON_INTR :: u8 where [sd_regs]: "SD_WC_WUP_ON_INTR = 0x01"
definition SD_CC_SDCLK_FREQ_MASK :: u16 where [sd_regs]: "SD_CC_SDCLK_FREQ_MASK = 0xff00"
definition SD_CC_SDCLK_FREQ_D256 :: u16 where [sd_regs]: "SD_CC_SDCLK_FREQ_D256 = 0x8000"
definition SD_CC_SDCLK_FREQ_D128 :: u16 where [sd_regs]: "SD_CC_SDCLK_FREQ_D128 = 0x4000"
definition SD_CC_SDCLK_FREQ_D64 :: u16 where [sd_regs]: "SD_CC_SDCLK_FREQ_D64 = 0x2000"
definition SD_CC_SDCLK_FREQ_D32 :: u16 where [sd_regs]: "SD_CC_SDCLK_FREQ_D32 = 0x1000"
definition SD_CC_SDCLK_FREQ_D16 :: u16 where [sd_regs]: "SD_CC_SDCLK_FREQ_D16 = 0x0800"
definition SD_CC_SDCLK_FREQ_D8 :: u16 where [sd_regs]: "SD_CC_SDCLK_FREQ_D8 = 0x0400"
definition SD_CC_SDCLK_FREQ_D4 :: u16 where [sd_regs]: "SD_CC_SDCLK_FREQ_D4 = 0x0200"
definition SD_CC_SDCLK_FREQ_D2 :: u16 where [sd_regs]: "SD_CC_SDCLK_FREQ_D2 = 0x0100"
definition SD_CC_SDCLK_FREQ_BASE :: u16 where [sd_regs]: "SD_CC_SDCLK_FREQ_BASE = 0x0000"
definition SD_CC_SDCLK_FREQ_EXT_MASK :: u16 where [sd_regs]: "SD_CC_SDCLK_FREQ_EXT_MASK = 0x00c0"
definition SD_CC_SD_CLK_GEN_SEL :: u16 where [sd_regs]: "SD_CC_SD_CLK_GEN_SEL = 0x0020"
definition SD_CC_SD_CLK_EN :: u16 where [sd_regs]: "SD_CC_SD_CLK_EN = 0x0004"
definition SD_CC_INT_CLK_STABLE :: u16 where [sd_regs]: "SD_CC_INT_CLK_STABLE = 0x0002"
definition SD_CC_INT_CLK_EN :: u16 where [sd_regs]: "SD_CC_INT_CLK_EN = 0x0001"
definition SD_CC_MAX_NUM_OF_DIV :: u16 where [sd_regs]: "SD_CC_MAX_NUM_OF_DIV = 9"
definition SD_CC_DIV_SHIFT :: u16 where [sd_regs]: "SD_CC_DIV_SHIFT = 8"
definition SD_TC_CNTR_VAL_MASK :: u8 where [sd_regs]: "SD_TC_CNTR_VAL_MASK = 0x0000000f"
definition SD_SWRST_ALL_MASK :: u8 where [sd_regs]: "SD_SWRST_ALL_MASK = 0x00000001"
definition SD_SWRST_CMD_LINE_MASK :: u8 where [sd_regs]: "SD_SWRST_CMD_LINE_MASK = 0x00000002"
definition SD_SWRST_DAT_LINE_MASK :: u8 where [sd_regs]: "SD_SWRST_DAT_LINE_MASK = 0x00000004"
definition SD_NORM_INTR_ALL :: u16 where [sd_regs]: "SD_NORM_INTR_ALL = 0xffff"
definition SD_INTR_ERR :: u16 where [sd_regs]: "SD_INTR_ERR = 0x8000"
definition SD_INTR_BOOT_ACK_RECV :: u16 where [sd_regs]: "SD_INTR_BOOT_ACK_RECV = 0x4000"
definition SD_INTR_BOOT_TERM :: u16 where [sd_regs]: "SD_INTR_BOOT_TERM = 0x2000"
definition SD_INTR_RE_TUNING :: u16 where [sd_regs]: "SD_INTR_RE_TUNING = 0x1000"
definition SD_INTR_INT_C :: u16 where [sd_regs]: "SD_INTR_INT_C = 0x0800"
definition SD_INTR_INT_B :: u16 where [sd_regs]: "SD_INTR_INT_B = 0x0400"
definition SD_INTR_INT_A :: u16 where [sd_regs]: "SD_INTR_INT_A = 0x0200"
definition SD_INTR_CARD :: u16 where [sd_regs]: "SD_INTR_CARD = 0x0100"
definition SD_INTR_CARD_REM :: u16 where [sd_regs]: "SD_INTR_CARD_REM = 0x0080"
definition SD_INTR_CARD_INSRT :: u16 where [sd_regs]: "SD_INTR_CARD_INSRT = 0x0040"
definition SD_INTR_BRR :: u16 where [sd_regs]: "SD_INTR_BRR = 0x0020"
definition SD_INTR_BWR :: u16 where [sd_regs]: "SD_INTR_BWR = 0x0010"
definition SD_INTR_DMA :: u16 where [sd_regs]: "SD_INTR_DMA = 0x0008"
definition SD_INTR_BGE :: u16 where [sd_regs]: "SD_INTR_BGE = 0x0004"
definition SD_INTR_TC :: u16 where [sd_regs]: "SD_INTR_TC = 0x0002"
definition SD_INTR_CC :: u16 where [sd_regs]: "SD_INTR_CC = 0x0001"
definition SD_ERR_INTR_ALL :: u16 where [sd_regs]: "SD_ERR_INTR_ALL = 0xf3ff"
definition SD_INTR_VEND_SPF_ERR :: u16 where [sd_regs]: "SD_INTR_VEND_SPF_ERR = 0xe000"
definition SD_INTR_ERR_TR :: u16 where [sd_regs]: "SD_INTR_ERR_TR = 0x1000"
definition SD_INTR_ERR_ADMA :: u16 where [sd_regs]: "SD_INTR_ERR_ADMA = 0x0200"
definition SD_INTR_ERR_AUTO_CMD12 :: u16 where [sd_regs]: "SD_INTR_ERR_AUTO_CMD12 = 0x0100"
definition SD_INTR_ERR_I_LMT :: u16 where [sd_regs]: "SD_INTR_ERR_I_LMT = 0x0080"
definition SD_INTR_ERR_DEB :: u16 where [sd_regs]: "SD_INTR_ERR_DEB = 0x0040"
definition SD_INTR_ERR_DCRC :: u16 where [sd_regs]: "SD_INTR_ERR_DCRC = 0x0020"
definition SD_INTR_ERR_DT :: u16 where [sd_regs]: "SD_INTR_ERR_DT = 0x0010"
definition SD_INTR_ERR_CI :: u16 where [sd_regs]: "SD_INTR_ERR_CI = 0x0008"
definition SD_INTR_ERR_CEB :: u16 where [sd_regs]: "SD_INTR_ERR_CEB = 0x0004"
definition SD_INTR_ERR_CCRC :: u16 where [sd_regs]: "SD_INTR_ERR_CCRC = 0x0002"
definition SD_INTR_ERR_CT :: u16 where [sd_regs]: "SD_INTR_ERR_CT = 0x0001"
definition SD_CMD_TYPE_MASK :: u16 where [sd_regs]: "SD_CMD_TYPE_MASK = 0xc0"
definition SD_CMD_TYPE_ABORT :: u16 where [sd_regs]: "SD_CMD_TYPE_ABORT = 0xc0"
definition SD_CMD_TYPE_RESUME :: u16 where [sd_regs]: "SD_CMD_TYPE_RESUME = 0x80"
definition SD_CMD_TYPE_SUSPEND :: u16 where [sd_regs]: "SD_CMD_TYPE_SUSPEND = 0x40"
definition SD_DAT_PRESENT :: u16 where [sd_regs]: "SD_DAT_PRESENT = 0x20"
definition SD_CMD_INX_CHK_EN :: u16 where [sd_regs]: "SD_CMD_INX_CHK_EN = 0x10"
definition SD_CMD_CRC_CHK_EN :: u16 where [sd_regs]: "SD_CMD_CRC_CHK_EN = 0x08"
definition SD_CMD_TYPE_NORM :: u16 where [sd_regs]: "SD_CMD_TYPE_NORM = 0x00"
definition SD_CMD_RESP_MASK :: u16 where [sd_regs]: "SD_CMD_RESP_MASK = 0x03"
definition SD_CMD_RESP_L48_BSY_CHK :: u16 where [sd_regs]: "SD_CMD_RESP_L48_BSY_CHK = 0x03"
definition SD_CMD_RESP_L48 :: u16 where [sd_regs]: "SD_CMD_RESP_L48 = 0x02"
definition SD_CMD_RESP_L136 :: u16 where [sd_regs]: "SD_CMD_RESP_L136 = 0x01"
definition SD_CMD_RESP_NONE :: u16 where [sd_regs]: "SD_CMD_RESP_NONE = 0x00"
definition SD_CMD_MASK :: u16 where [sd_regs]: "SD_CMD_MASK = 0x3f00"
definition SD_CMD0 :: u16 where [sd_regs]: "SD_CMD0 = 0x0000"
definition SD_CMD1 :: u16 where [sd_regs]: "SD_CMD1 = 0x0100"
definition SD_CMD2 :: u16 where [sd_regs]: "SD_CMD2 = 0x0200"
definition SD_CMD3 :: u16 where [sd_regs]: "SD_CMD3 = 0x0300"
definition SD_CMD4 :: u16 where [sd_regs]: "SD_CMD4 = 0x0400"
definition SD_CMD5 :: u16 where [sd_regs]: "SD_CMD5 = 0x0500"
definition SD_CMD6 :: u16 where [sd_regs]: "SD_CMD6 = 0x0600"
definition SD_CMD7 :: u16 where [sd_regs]: "SD_CMD7 = 0x0700"
definition SD_CMD8 :: u16 where [sd_regs]: "SD_CMD8 = 0x0800"
definition SD_CMD9 :: u16 where [sd_regs]: "SD_CMD9 = 0x0900"
definition SD_CMD10 :: u16 where [sd_regs]: "SD_CMD10 = 0x0a00"
definition SD_CMD12 :: u16 where [sd_regs]: "SD_CMD12 = 0x0c00"
definition SD_CMD16 :: u16 where [sd_regs]: "SD_CMD16 = 0x1000"
definition SD_CMD17 :: u16 where [sd_regs]: "SD_CMD17 = 0x1100"
definition SD_CMD18 :: u16 where [sd_regs]: "SD_CMD18 = 0x1200"
definition SD_CMD23 :: u16 where [sd_regs]: "SD_CMD23 = 0x1700"
definition SD_CMD24 :: u16 where [sd_regs]: "SD_CMD24 = 0x1800"
definition SD_CMD25 :: u16 where [sd_regs]: "SD_CMD25 = 0x1900"
definition SD_CMD41 :: u16 where [sd_regs]: "SD_CMD41 = 0x2900"
definition SD_CMD52 :: u16 where [sd_regs]: "SD_CMD52 = 0x3400"
definition SD_CMD55 :: u16 where [sd_regs]: "SD_CMD55 = 0x3700"
definition SD_CMD58 :: u16 where [sd_regs]: "SD_CMD58 = 0x3a00"
definition SD_ACMD6 :: u16 where [sd_regs]: "SD_ACMD6 = 0x8600"
definition SD_ACMD13 :: u16 where [sd_regs]: "SD_ACMD13 = 0x8d00"
definition SD_ACMD23 :: u16 where [sd_regs]: "SD_ACMD23 = 0x9700"
definition SD_ACMD41 :: u16 where [sd_regs]: "SD_ACMD41 = 0xa900"
definition SD_ACMD42 :: u16 where [sd_regs]: "SD_ACMD42 = 0xaa00"
definition SD_ACMD51 :: u16 where [sd_regs]: "SD_ACMD51 = 0xb300"
definition SD_RESP_NONE :: u16 where [sd_regs]: "SD_RESP_NONE = SD_CMD_RESP_NONE"
definition SD_RESP_R1 :: u16 where [sd_regs]: "SD_RESP_R1 = SD_CMD_RESP_L48 OR SD_CMD_CRC_CHK_EN OR SD_CMD_INX_CHK_EN"
definition SD_RESP_R1B :: u16 where [sd_regs]: "SD_RESP_R1B = SD_CMD_RESP_L48_BSY_CHK OR SD_CMD_CRC_CHK_EN OR SD_CMD_INX_CHK_EN"
definition SD_RESP_R2 :: u16 where [sd_regs]: "SD_RESP_R2 = SD_CMD_RESP_L136 OR SD_CMD_CRC_CHK_EN"
definition SD_RESP_R3 :: u16 where [sd_regs]: "SD_RESP_R3 = SD_CMD_RESP_L48"
definition SD_RESP_R6 :: u16 where [sd_regs]: "SD_RESP_R6 = SD_CMD_RESP_L48_BSY_CHK OR SD_CMD_CRC_CHK_EN OR SD_CMD_INX_CHK_EN"
definition SD_CAP_SPI_MODE :: u32 where [sd_regs]: "SD_CAP_SPI_MODE = 0x20000000"
definition SD_CAP_SPI_BLOCK_MODE :: u32 where [sd_regs]: "SD_CAP_SPI_BLOCK_MODE = 0x20000000"
definition SD_CAP_SYS_BUS_64 :: u32 where [sd_regs]: "SD_CAP_SYS_BUS_64 = 0x10000000"
definition SD_CAP_INTR_MODE :: u32 where [sd_regs]: "SD_CAP_INTR_MODE = 0x08000000"
definition SD_CAP_VOLT_1V8 :: u32 where [sd_regs]: "SD_CAP_VOLT_1V8 = 0x04000000"
definition SD_CAP_VOLT_3V0 :: u32 where [sd_regs]: "SD_CAP_VOLT_3V0 = 0x02000000"
definition SD_CAP_VOLT_3V3 :: u32 where [sd_regs]: "SD_CAP_VOLT_3V3 = 0x01000000"
definition SD_CAP_SUSP_RESUME :: u32 where [sd_regs]: "SD_CAP_SUSP_RESUME = 0x00800000"
definition SD_CAP_SDMA :: u32 where [sd_regs]: "SD_CAP_SDMA = 0x00400000"
definition SD_CAP_HIGH_SPEED :: u32 where [sd_regs]: "SD_CAP_HIGH_SPEED = 0x00200000"
definition SD_CAP_ADMA2 :: u32 where [sd_regs]: "SD_CAP_ADMA2 = 0x00080000"
definition SD_CAP_EXT_MEDIA_BUS :: u32 where [sd_regs]: "SD_CAP_EXT_MEDIA_BUS = 0x00040000"
definition SD_CAP_MAX_BLK_LEN_MASK :: u32 where [sd_regs]: "SD_CAP_MAX_BLK_LEN_MASK = 0x00030000"
definition SD_CAP_TOUT_CLK_UNIT :: u32 where [sd_regs]: "SD_CAP_TOUT_CLK_UNIT = 0x00000080"
definition SD_CAP_TOUT_CLK_FREQ :: u32 where [sd_regs]: "SD_CAP_TOUT_CLK_FREQ = 0x0000003f"
definition SD_CAP_MAX_BLK_LEN_512B :: u32 where [sd_regs]: "SD_CAP_MAX_BLK_LEN_512B = 0x00000000"
definition SD_DESC_MAX_LENGTH :: u32 where [sd_regs]: "SD_DESC_MAX_LENGTH = 65536"
definition SD_DESC_VALID :: u32 where [sd_regs]: "SD_DESC_VALID = 0x01"
definition SD_DESC_END :: u32 where [sd_regs]: "SD_DESC_END = 0x02"
definition SD_DESC_INT :: u32 where [sd_regs]: "SD_DESC_INT = 0x04"
definition SD_DESC_TRAN :: u32 where [sd_regs]: "SD_DESC_TRAN = 0x20"
definition SD_CMD8_VOL_PATTERN :: u32 where [sd_regs]: "SD_CMD8_VOL_PATTERN = 0x01aa"
definition SD_RESP_READY :: u32 where [sd_regs]: "SD_RESP_READY = 0x80000000"
definition SD_ACMD41_HCS :: u32 where [sd_regs]: "SD_ACMD41_HCS = 0x40000000"
definition SD_ACMD41_3V3 :: u32 where [sd_regs]: "SD_ACMD41_3V3 = 0x00300000"
definition SD_CMD1_HIGH_VOL :: u32 where [sd_regs]: "SD_CMD1_HIGH_VOL = 0x00ff8000"
definition SD_CMD1_DUAL_VOL :: u32 where [sd_regs]: "SD_CMD1_DUAL_VOL = 0x00ff8010"

end
