(* ===== verification/Sd.thy ===== *)
theory Sd
  imports Sd_Regs Clock
begin

text \<open>
  The driver of the SD host controller (\<open>drivers/sd/sd-zynq7000.c\<close>). Every wait is a loop on a
  status register, so every operation returns an \<open>option\<close>; the \<open>int\<close> results are those of
  the code.
\<close>

definition SD_BASE :: u32 where [sd_regs]: "SD_BASE = sd0_base"

definition sd_init :: "hardware \<Rightarrow> 'a machine_scheme \<Rightarrow> 'a machine_scheme option" where
  "sd_init hw s = do {
     let s = out8 (SD_BASE + SD_SW_RST_OFFSET) SD_SWRST_ALL_MASK s;
     (_, s) \<leftarrow> spin_until (in8 hw (SD_BASE + SD_SW_RST_OFFSET)) (\<lambda>v. v AND SD_SWRST_ALL_MASK = 0) s;
     let s = out16 (SD_BASE + SD_CLK_CTRL_OFFSET) (SD_CC_SDCLK_FREQ_D128 OR SD_CC_INT_CLK_EN) s;
     (_, s) \<leftarrow> spin_until (in16 hw (SD_BASE + SD_CLK_CTRL_OFFSET)) (\<lambda>v. v AND SD_CC_INT_CLK_STABLE \<noteq> 0) s;
     let (v, s) = in16 hw (SD_BASE + SD_CLK_CTRL_OFFSET) s;
     let s = out16 (SD_BASE + SD_CLK_CTRL_OFFSET) (v OR SD_CC_SD_CLK_EN) s;
     let s = out8 (SD_BASE + SD_POWER_CTRL_OFFSET) (SD_PC_BUS_VSEL_3V3 OR SD_PC_BUS_PWR) s;
     let s = out8 (SD_BASE + SD_HOST_CTRL1_OFFSET) SD_HC_DMA_SDMA s;
     let s = out16 (SD_BASE + SD_NORM_INTR_STS_EN_OFFSET) (SD_NORM_INTR_ALL AND NOT SD_INTR_CARD) s;
     let s = out16 (SD_BASE + SD_ERR_INTR_STS_EN_OFFSET) SD_ERR_INTR_ALL s;
     let s = out16 (SD_BASE + SD_NORM_INTR_SIG_EN_OFFSET) 0x0 s;
     let s = out16 (SD_BASE + SD_ERR_INTR_SIG_EN_OFFSET) 0x0 s;
     Some (out16 (SD_BASE + SD_BLK_SIZE_OFFSET) 512 s)
   }"

definition sd_frame_cmd :: "u16 \<Rightarrow> u16" where
  "sd_frame_cmd cmd =
     (let cmd =
        (if cmd \<in> {SD_CMD0, SD_CMD4} then cmd OR SD_RESP_NONE
         else if cmd \<in> {SD_ACMD6, SD_CMD7, SD_CMD10, SD_CMD12, SD_ACMD13, SD_CMD16, SD_ACMD42, SD_CMD52, SD_CMD55}
         then cmd OR SD_RESP_R1
         else if cmd \<in> {SD_CMD17, SD_CMD18, SD_CMD23, SD_ACMD23, SD_CMD24, SD_CMD25, SD_ACMD51}
         then cmd OR (SD_RESP_R1 OR SD_DAT_PRESENT)
         else if cmd = SD_CMD5 then cmd OR SD_RESP_R1B
         else if cmd \<in> {SD_CMD2, SD_CMD9} then cmd OR SD_RESP_R2
         else if cmd \<in> {SD_CMD1, SD_ACMD41} then cmd OR SD_RESP_R3
         else if cmd = SD_CMD3 then cmd OR SD_RESP_R6
         else if cmd = SD_CMD6 then cmd OR (SD_RESP_R1 OR SD_DAT_PRESENT)
         else if cmd = SD_CMD8 then cmd OR SD_RESP_R1
         else cmd)
      in cmd AND 0x3FFF)"

section \<open>Commands\<close>

text \<open>Waiting for the completion of a command.\<close>

partial_function (option) sd_wait_cc :: "hardware \<Rightarrow> 'a machine_scheme \<Rightarrow> (int \<times> 'a machine_scheme) option" where
  [code]: "sd_wait_cc hw s =
     (case in16 hw (SD_BASE + SD_NORM_INTR_STS_OFFSET) s of (result, s) \<Rightarrow>
        if result AND SD_INTR_ERR \<noteq> 0 then Some (-3, s)
        else if result AND SD_INTR_CC \<noteq> 0 then Some (0, out16 (SD_BASE + SD_NORM_INTR_STS_OFFSET) SD_INTR_CC s)
        else sd_wait_cc hw s)"

definition sd_xfer_mode :: "nat \<Rightarrow> u16" where
  "sd_xfer_mode mode =
     (if mode = 1 then SD_TM_MUL_SIN_BLK_SEL OR SD_TM_DAT_DIR_SEL OR SD_TM_AUTO_CMD12_EN OR SD_TM_BLK_CNT_EN OR SD_TM_DMA_EN
      else if mode = 2 then SD_TM_MUL_SIN_BLK_SEL OR SD_TM_AUTO_CMD12_EN OR SD_TM_BLK_CNT_EN OR SD_TM_DMA_EN
      else SD_TM_DMA_EN)"

definition sd_spin_send_cmd ::
    "hardware \<Rightarrow> u16 \<Rightarrow> u16 \<Rightarrow> u32 \<Rightarrow> nat \<Rightarrow> 'a machine_scheme \<Rightarrow> (int \<times> 'a machine_scheme) option" where
  "sd_spin_send_cmd hw cmd blk_count arg mode s =
     (let cmd = sd_frame_cmd cmd;
          (state, s) = in32 hw (SD_BASE + SD_PRES_STATE_OFFSET) s
      in if state AND SD_PSR_INHIBIT_CMD \<noteq> 0 then Some (-1, s)
         else if state AND SD_PSR_INHIBIT_DAT \<noteq> 0 \<and> cmd AND SD_DAT_PRESENT \<noteq> 0 then Some (-2, s)
         else let s = out16 (SD_BASE + SD_BLK_CNT_OFFSET) blk_count s;
                  s = out16 (SD_BASE + SD_TIMEOUT_CTRL_OFFSET) 0xE s;
                  s = out32 (SD_BASE + SD_ARGMT_OFFSET) arg s;
                  s = out16 (SD_BASE + SD_NORM_INTR_STS_OFFSET) SD_NORM_INTR_ALL s;
                  s = out16 (SD_BASE + SD_ERR_INTR_STS_OFFSET) SD_ERR_INTR_ALL s;
                  s = out16 (SD_BASE + SD_XFER_MODE_OFFSET) (sd_xfer_mode mode) s
              in sd_wait_cc hw (out16 (SD_BASE + SD_CMD_OFFSET) cmd s))"

section \<open>The memory card\<close>

text \<open>\<open>ret = cmd(..); if (ret) return err;\<close>\<close>

definition sd_step ::
    "(int \<times> 's) option \<Rightarrow> int \<Rightarrow> ('s \<Rightarrow> (int \<times> 's) option) \<Rightarrow> (int \<times> 's) option" where
  "sd_step r err k = do { (ret, s) \<leftarrow> r; if ret \<noteq> 0 then Some (err, s) else k s }"

text \<open>The two loops of the initialisation: until the card is ready, and until it has an
  address. They return 0 with the response, or the error.\<close>

partial_function (option) sd_acmd41_loop :: "hardware \<Rightarrow> 'a machine_scheme \<Rightarrow> (int \<times> u32 \<times> 'a machine_scheme) option" where
  [code]: "sd_acmd41_loop hw s = do {
     (ret, s) \<leftarrow> sd_spin_send_cmd hw SD_CMD55 0 0 0 s;
     if ret \<noteq> 0 then Some (-5, 0, s)
     else do {
       (ret, s) \<leftarrow> sd_spin_send_cmd hw SD_ACMD41 0 (SD_ACMD41_HCS OR SD_ACMD41_3V3) 0 s;
       if ret \<noteq> 0 then Some (-5, 0, s)
       else case in32 hw (SD_BASE + SD_RESP0_OFFSET) s of (resp, s) \<Rightarrow>
         if resp AND SD_RESP_READY = 0 then sd_acmd41_loop hw s else Some (0, resp, s)
     }
   }"

partial_function (option) sd_cmd3_loop :: "hardware \<Rightarrow> 'a machine_scheme \<Rightarrow> (int \<times> u32 \<times> 'a machine_scheme) option" where
  [code]: "sd_cmd3_loop hw s = do {
     (ret, s) \<leftarrow> sd_spin_send_cmd hw SD_CMD3 0 0 0 s;
     if ret \<noteq> 0 then Some (-7, 0, s)
     else case in32 hw (SD_BASE + SD_RESP0_OFFSET) s of (v, s) \<Rightarrow>
       let resp = v AND 0xFFFF0000
       in if resp = 0 then sd_cmd3_loop hw s else Some (0, resp, s)
   }"

text \<open>The second half of the initialisation, from \<open>CMD2\<close> on.\<close>

definition sd_select_card :: "hardware \<Rightarrow> int \<Rightarrow> 'a machine_scheme \<Rightarrow> (int \<times> 'a machine_scheme) option" where
  "sd_select_card hw cardtype s =
     sd_step (sd_spin_send_cmd hw SD_CMD2 0 0 0 s) (-6) (\<lambda>s. do {
       (ret, resp, s) \<leftarrow> sd_cmd3_loop hw s;
       if ret \<noteq> 0 then Some (ret, s)
       else sd_step (sd_spin_send_cmd hw SD_CMD9 0 resp 0 s) (-8) (\<lambda>s.
            sd_step (sd_spin_send_cmd hw SD_CMD7 0 resp 0 s) (-9) (\<lambda>s. Some (cardtype, s)))
     })"

definition sd_spin_init_mem_card :: "hardware \<Rightarrow> 'a machine_scheme \<Rightarrow> (int \<times> 'a machine_scheme) option" where
  "sd_spin_init_mem_card hw s =
     (let (state, s) = in32 hw (SD_BASE + SD_PRES_STATE_OFFSET) s
      in if state AND SD_PSR_CARD_INSRT = 0 then Some (-1, s)
         else do {
           s \<leftarrow> usleep hw 2000 s;
           sd_step (sd_spin_send_cmd hw SD_CMD0 0 0 0 s) (-2) (\<lambda>s.
           sd_step (sd_spin_send_cmd hw SD_CMD8 0 SD_CMD8_VOL_PATTERN 0 s) (-3) (\<lambda>s.
           let (resp, s) = in32 hw (SD_BASE + SD_RESP0_OFFSET) s
           in if resp \<noteq> SD_CMD8_VOL_PATTERN then Some (-4, s)
              else do {
                (ret, resp, s) \<leftarrow> sd_acmd41_loop hw s;
                if ret \<noteq> 0 then Some (ret, s)
                else sd_select_card hw (if resp AND SD_ACMD41_HCS \<noteq> 0 then 1 else 0) s
              }))
         })"

section \<open>Transfers\<close>

text \<open>Waiting for the completion of a transfer. At a boundary of the DMA buffer the controller
  stops; writing the address register makes it go on.\<close>

partial_function (option) sd_wait_tc :: "hardware \<Rightarrow> 'a machine_scheme \<Rightarrow> (int \<times> 'a machine_scheme) option" where
  [code]: "sd_wait_tc hw s =
     (case in16 hw (SD_BASE + SD_NORM_INTR_STS_OFFSET) s of (state16, s) \<Rightarrow>
        if state16 AND SD_INTR_ERR \<noteq> 0
        then Some (-3, out16 (SD_BASE + SD_ERR_INTR_STS_OFFSET) SD_ERR_INTR_ALL s)
        else let s = (if state16 AND SD_INTR_DMA \<noteq> 0
                      then let (next_paddr, s) = in32 hw (SD_BASE + SD_SDMA_SYS_ADDR_OFFSET) s
                           in out32 (SD_BASE + SD_SDMA_SYS_ADDR_OFFSET) next_paddr
                                (out16 (SD_BASE + SD_NORM_INTR_STS_OFFSET) SD_INTR_DMA s)
                      else s)
          in if state16 AND SD_INTR_TC = 0 then sd_wait_tc hw s
             else Some (0, out16 (SD_BASE + SD_NORM_INTR_STS_OFFSET) SD_INTR_TC s))"

definition sd_dma_spin_read ::
    "hardware \<Rightarrow> u32 \<Rightarrow> u16 \<Rightarrow> u32 \<Rightarrow> 'a machine_scheme \<Rightarrow> (int \<times> 'a machine_scheme) option" where
  "sd_dma_spin_read hw pa blk_count offset s =
     (let (state32, s) = in32 hw (SD_BASE + SD_PRES_STATE_OFFSET) s
      in if state32 AND SD_PSR_CARD_INSRT = 0 then Some (-1, s)
         else let s = out32 (SD_BASE + SD_SDMA_SYS_ADDR_OFFSET) pa s
              in sd_step (sd_spin_send_cmd hw SD_CMD18 blk_count offset 1 s) (-2) (sd_wait_tc hw))"

definition sd_dma_spin_write ::
    "hardware \<Rightarrow> u32 \<Rightarrow> u16 \<Rightarrow> u32 \<Rightarrow> 'a machine_scheme \<Rightarrow> (int \<times> 'a machine_scheme) option" where
  "sd_dma_spin_write hw pa blk_count offset s =
     (let (state32, s) = in32 hw (SD_BASE + SD_PRES_STATE_OFFSET) s
      in if state32 AND SD_PSR_CARD_INSRT = 0 then Some (-1, s)
         else let s = out32 (SD_BASE + SD_SDMA_SYS_ADDR_OFFSET) pa s
              in sd_step (sd_spin_send_cmd hw SD_CMD25 blk_count offset 2 s) (-2) (sd_wait_tc hw))"

end
