(* ===== verification/Fs.thy ===== *)
theory Fs
  imports Sched Sd
begin

text \<open>
  The file system (\<open>kern/fs/fs_manage.c\<close>): a table of data blocks, each with the next block of
  its chain and its address on the card; the chain of free blocks; and a list of file entries,
  each with a number, a name of at most nine characters, the chain of its blocks and the
  process that has it open. \<open>load_fs\<close> and \<open>checkpoint_fs\<close> move all of it from and to the card.

  Reading or writing through a null pointer is a data abort, whose handler
  (\<open>int_ent_data_abort\<close>) does not return, so it is \<open>None\<close>. A failed transfer where the code
  loops forever is \<open>None\<close> too.
\<close>

section \<open>State\<close>

record fs_state = sched_state +
  free_head :: u32
  db_table :: u32
  fentry_head :: u32
  fe_table :: u32

text \<open>\<open>datablock_t\<close> (8 bytes), \<open>fentry_t\<close> (28) and \<open>fentry_stored_t\<close> (20).\<close>

definition next_block :: "memory \<Rightarrow> u32 \<Rightarrow> u32" where "next_block m p = ld32 m p"
definition ondisk_addr :: "memory \<Rightarrow> u32 \<Rightarrow> u32" where "ondisk_addr m p = ld32 m (p + 4)"
definition sizeof_datablock_t :: u32 where "sizeof_datablock_t = 8"

definition index_number :: "memory \<Rightarrow> u32 \<Rightarrow> u32" where "index_number m p = ld32 m p"
definition file_name :: "u32 \<Rightarrow> u32" where "file_name p = p + 4"
definition first_block :: "memory \<Rightarrow> u32 \<Rightarrow> u32" where "first_block m p = ld32 m (p + 16)"
definition next_entry :: "memory \<Rightarrow> u32 \<Rightarrow> u32" where "next_entry m p = ld32 m (p + 20)"
definition occupied :: "memory \<Rightarrow> u32 \<Rightarrow> u32" where "occupied m p = ld32 m (p + 24)"
definition sizeof_fentry_t :: u32 where "sizeof_fentry_t = 28"

definition stored_index :: "memory \<Rightarrow> u32 \<Rightarrow> u32" where "stored_index m p = ld32 m p"
definition stored_addr :: "memory \<Rightarrow> u32 \<Rightarrow> u32" where "stored_addr m p = ld32 m (p + 4)"
definition stored_name :: "u32 \<Rightarrow> u32" where "stored_name p = p + 8"
definition sizeof_fentry_stored_t :: u32 where "sizeof_fentry_stored_t = 20"

definition FS_DATA_SIZE :: u32 where "FS_DATA_SIZE = 0x00100000"
definition STORAGE_SIZE :: u32 where "STORAGE_SIZE = 0x01000000"
definition STORAGE_BASE :: u32 where "STORAGE_BASE = 0xC0000000"
definition FS_BASE :: u32 where "FS_BASE = 0xC2000000"
definition STORAGE_BLOCK_SIZE :: u32 where "STORAGE_BLOCK_SIZE = 0x00000200"

text \<open>A dereference of \<open>p\<close>.\<close>

definition deref :: "u32 \<Rightarrow> unit option" where
  "deref p = (if p = 0 then None else Some ())"

text \<open>The number of blocks on the card.\<close>

definition n_blocks :: nat where
  "n_blocks = unat (drop_bit 9 STORAGE_SIZE)"

definition db :: "'a fs_state_scheme \<Rightarrow> nat \<Rightarrow> u32" where
  "db s i = db_table s + of_nat i * sizeof_datablock_t"

definition fe :: "'a fs_state_scheme \<Rightarrow> nat \<Rightarrow> u32" where
  "fe s i = fe_table s + of_nat i * sizeof_fentry_t"

text \<open>A pointer difference in an array of blocks.\<close>

definition db_index :: "'a fs_state_scheme \<Rightarrow> u32 \<Rightarrow> u32" where
  "db_index s p = signed_drop_bit 3 (p - db_table s)"

definition copy_name :: "u32 \<Rightarrow> u32 \<Rightarrow> 'a machine_scheme \<Rightarrow> 'a machine_scheme" where
  "copy_name dst src s = fold (\<lambda>j s. poke (dst + of_nat j) (mem s (src + of_nat j)) s) [0 ..< 10] s"

section \<open>The whole file system, from and to the card\<close>

text \<open>Both directions transfer \<open>2^15\<close> blocks at a time and then the rest.\<close>

definition fs_transfer ::
    "(u32 \<Rightarrow> u16 \<Rightarrow> u32 \<Rightarrow> 's \<Rightarrow> (int \<times> 's) option) \<Rightarrow> u32 \<Rightarrow> nat \<Rightarrow> ('s \<Rightarrow> 's) \<Rightarrow> 's \<Rightarrow> 's option" where
  "fs_transfer op pa blocks say_remain s = do {
     s \<leftarrow> loop (\<lambda>i s. do {
            (r, s) \<leftarrow> op (pa + 512 * of_nat (i * 2 ^ 15)) (2 ^ 15) (drop_bit 9 FS_BASE + of_nat (i * 2 ^ 15)) s;
            if r < 0 then None else Some s
          }) [0 ..< blocks div 2 ^ 15] s;
     let remain = blocks mod 2 ^ 15;
     if remain = 0 then Some s
     else do {
       let done_blocks = blocks div 2 ^ 15 * 2 ^ 15;
       (r, s) \<leftarrow> op (pa + 512 * of_nat done_blocks) (of_nat remain) (drop_bit 9 FS_BASE + of_nat done_blocks) (say_remain s);
       if r < 0 then None else Some s
     }
   }"

definition say_remain :: "nat \<Rightarrow> 'a machine_scheme \<Rightarrow> 'a machine_scheme" where
  "say_remain blocks s = puthex (of_nat (blocks mod 2 ^ 15)) (uart_spin_puts ''remaining_blocks: '' s)"

text \<open>The tables that the data at \<open>va\<close> describe.\<close>

definition load_db :: "u32 \<Rightarrow> nat \<Rightarrow> 'a fs_state_scheme \<Rightarrow> 'a fs_state_scheme" where
  "load_db arr1 i s =
     (let s = wr (db s i + 4) (STORAGE_BASE + of_nat (i * 2 ^ 9)) s;
          v = rd s (arr1 + 4 * of_nat i)
      in wr (db s i) (if v = -1 then 0 else db_table s + v * sizeof_datablock_t) s)"

definition load_fe :: "u32 \<Rightarrow> nat \<Rightarrow> nat \<Rightarrow> 'a fs_state_scheme \<Rightarrow> 'a fs_state_scheme" where
  "load_fe arr2 cnt i s =
     (let x = arr2 + of_nat i * sizeof_fentry_stored_t;
          s = wr (fe s i) (stored_index (mem s) x) s;
          s = wr (fe s i + 20) (if i + 1 < cnt then fe s (i + 1) else 0) s;
          s = wr (fe s i + 16) (db_table s + drop_bit 9 (stored_addr (mem s) x) * sizeof_datablock_t) s;
          s = puthex (stored_addr (mem s) x) (uart_spin_puts ''arr2[i].addr: '' s);
          s = puthex (first_block (mem s) (fe s i)) (uart_spin_puts ''first block: '' s);
          s = wr (fe s i + 24) (-1) s
      in copy_name (file_name (fe s i)) (stored_name x) s)"

definition read_image :: "u32 \<Rightarrow> 'a fs_state_scheme \<Rightarrow> 'a fs_state_scheme" where
  "read_image va s =
     (let at = rd s va;
          s = s\<lparr>free_head := if 0 \<le> sint at then db_table s + at * sizeof_datablock_t else 0\<rparr>;
          va = va + 4;
          s = fold (load_db va) [0 ..< n_blocks] s;
          va = va + drop_bit 9 STORAGE_SIZE * 4;
          cnt = nat (sint (rd s va));
          va = va + 4;
          s = s\<lparr>fentry_head := fe_table s\<rparr>
      in fold (load_fe va cnt) [0 ..< cnt] s)"

definition load_fs :: "hardware \<Rightarrow> 'a fs_state_scheme \<Rightarrow> 'a fs_state_scheme option" where
  "load_fs hw s = do {
     let blocks = unat (drop_bit 9 FS_DATA_SIZE);
     (va, s) \<leftarrow> kmalloc FS_DATA_SIZE s;
     let addr = va;
     (dbt, s) \<leftarrow> kmalloc (drop_bit 9 STORAGE_SIZE * sizeof_datablock_t) s;
     let s = s\<lparr>db_table := dbt\<rparr>;
     (fet, s) \<leftarrow> kmalloc (drop_bit 9 STORAGE_SIZE * sizeof_fentry_t) s;
     let s = s\<lparr>fe_table := fet\<rparr>;
     s \<leftarrow> fs_transfer (sd_dma_spin_read hw) (V2P va) blocks (say_remain blocks) s;
     let s = read_image va s;
     (_, s) \<leftarrow> kmfree addr (uart_spin_puts (''file systemed loaded.'' @ crlf) s);
     Some s
   }"

partial_function (option) count_entries :: "memory \<Rightarrow> u32 \<Rightarrow> nat \<Rightarrow> nat option" where
  [code]: "count_entries m x n = (if x = 0 then Some n else count_entries m (next_entry m x) (n + 1))"

partial_function (option) store_entries :: "u32 \<Rightarrow> u32 \<Rightarrow> nat \<Rightarrow> 'a machine_scheme \<Rightarrow> 'a machine_scheme option" where
  [code]: "store_entries arr2 x i s =
     (if x = 0 then Some s
      else do {
        let a = arr2 + of_nat i * sizeof_fentry_stored_t;
        let s = wr a (index_number (mem s) x) s;
        _ \<leftarrow> deref (first_block (mem s) x);
        let s = wr (a + 4) (ondisk_addr (mem s) (first_block (mem s) x) - STORAGE_BASE) s;
        let s = copy_name (stored_name a) (file_name x) s;
        store_entries arr2 (next_entry (mem s) x) (i + 1) s
      })"

definition store_db :: "u32 \<Rightarrow> nat \<Rightarrow> 'a fs_state_scheme \<Rightarrow> 'a fs_state_scheme" where
  "store_db arr1 i s =
     wr (arr1 + 4 * of_nat (i + 1))
       (if next_block (mem s) (db s i) = 0 then -1 else db_index s (next_block (mem s) (db s i))) s"

text \<open>The data that describe the tables, at \<open>va\<close>.\<close>

definition write_image :: "u32 \<Rightarrow> 'a fs_state_scheme \<Rightarrow> 'a fs_state_scheme option" where
  "write_image va s = do {
     let s = wr va (if free_head s = 0 then -1 else db_index s (free_head s)) s;
     let s = fold (store_db va) [0 ..< n_blocks] s;
     let va = va + (drop_bit 9 STORAGE_SIZE + 1) * 4;
     num_files \<leftarrow> count_entries (mem s) (fentry_head s) 0;
     let s = wr va (of_nat num_files) s;
     let va = va + 4;
     store_entries va (fentry_head s) 0 s
   }"

definition checkpoint_fs :: "hardware \<Rightarrow> 'a fs_state_scheme \<Rightarrow> (u32 \<times> 'a fs_state_scheme) option" where
  "checkpoint_fs hw s = do {
     let blocks = unat (drop_bit 9 FS_DATA_SIZE);
     (va, s) \<leftarrow> kmalloc FS_DATA_SIZE s;
     let pa = V2P va;
     let addr = va;
     s \<leftarrow> write_image va s;
     let tx = va + (drop_bit 9 STORAGE_SIZE + 1) * 4;
     let s = fold (\<lambda>i s. puthex (rd s (tx + 4 * of_nat i)) s) [0 ..< 10] s;
     s \<leftarrow> fs_transfer (sd_dma_spin_write hw) pa blocks (say_remain blocks) s;
     (_, s) \<leftarrow> kmfree addr (uart_spin_puts (''file systemed saved.'' @ crlf) s);
     Some (0, s)
   }"

definition build_fs :: "'a fs_state_scheme \<Rightarrow> 'a fs_state_scheme option" where
  "build_fs s = do {
     (dbt, s) \<leftarrow> kmalloc (drop_bit 9 STORAGE_SIZE * sizeof_datablock_t) s;
     let s = uart_spin_puts ''alloc#1'' (s\<lparr>db_table := dbt\<rparr>);
     let s = fold (\<lambda>i s.
           let s = wr (db s i + 4) (STORAGE_BASE + of_nat (i * 2 ^ 9)) s;
               s = wr (db s i) (db s (i + 1)) s
           in if i + 1 = n_blocks then wr (db s i) 0 s else s) [0 ..< n_blocks] s;
     Some (s\<lparr>free_head := db_table s, fentry_head := 0\<rparr>)
   }"

section \<open>Files\<close>

text \<open>The search for an entry, with the entry before it.\<close>

partial_function (option) fe_find :: "memory \<Rightarrow> u32 \<Rightarrow> u32 \<Rightarrow> u32 \<Rightarrow> (u32 \<times> u32) option" where
  [code]: "fe_find m idx px x =
     (if x \<noteq> 0 \<and> index_number m x \<noteq> idx then fe_find m idx x (next_entry m x) else Some (px, x))"

definition denied :: "memory \<Rightarrow> u32 \<Rightarrow> u32 \<Rightarrow> bool" where
  "denied m pid x \<longleftrightarrow> occupied m x \<noteq> -1 \<and> occupied m x \<noteq> pid"

definition open_file :: "u32 \<Rightarrow> u32 \<Rightarrow> 'a fs_state_scheme \<Rightarrow> (u32 \<times> 'a fs_state_scheme) option" where
  "open_file pid idx s = do {
     (_, x) \<leftarrow> fe_find (mem s) idx 0 (fentry_head s);
     Some (if x = 0 then (-1, s)
           else if denied (mem s) pid x then (-2, s)
           else (0, wr (x + 24) pid s))
   }"

definition close_file :: "u32 \<Rightarrow> u32 \<Rightarrow> 'a fs_state_scheme \<Rightarrow> (u32 \<times> 'a fs_state_scheme) option" where
  "close_file pid idx s = do {
     (_, x) \<leftarrow> fe_find (mem s) idx 0 (fentry_head s);
     Some (if x = 0 then (-1, s)
           else if denied (mem s) pid x then (-2, s)
           else (0, wr (x + 24) (-1) s))
   }"

text \<open>Following \<open>n\<close> links from \<open>x\<close>: the last block passed and the one after it, or nothing
  when the chain is shorter.\<close>

fun data_walk :: "memory \<Rightarrow> nat \<Rightarrow> u32 \<Rightarrow> u32 \<Rightarrow> (u32 \<times> u32) option" where
  "data_walk m 0 px x = Some (px, x)"
| "data_walk m (Suc n) px x = (if x = 0 then None else data_walk m n x (next_block m x))"

definition data_alloc :: "u32 \<Rightarrow> 'a fs_state_scheme \<Rightarrow> u32 \<times> 'a fs_state_scheme" where
  "data_alloc num_blocks s =
     (if num_blocks \<le>s 0 then (0, s)
      else case data_walk (mem s) (unat num_blocks) 0 (free_head s) of
        None \<Rightarrow> (0, uart_spin_puts ''no enough space on disk!'' s)
      | Some (px, x) \<Rightarrow>
          let s = (if px \<noteq> 0 then wr px 0 s else s)
          in (free_head s, s\<lparr>free_head := x\<rparr>))"

definition create_file :: "u32 \<Rightarrow> 'a fs_state_scheme \<Rightarrow> (u32 \<times> 'a fs_state_scheme) option" where
  "create_file idx s = do {
     (p, s) \<leftarrow> slb_alloc_align sizeof_fentry_t 0 s;
     _ \<leftarrow> deref p;
     let s = wr p idx (wr (p + 16) 0 (wr (p + 20) (fentry_head s) s));
     Some (0, wr (p + 24) (-1) (s\<lparr>fentry_head := p\<rparr>))
   }"

partial_function (option) last_block :: "memory \<Rightarrow> u32 \<Rightarrow> u32 option" where
  [code]: "last_block m pt = (if next_block m pt \<noteq> 0 then last_block m (next_block m pt) else Some pt)"

definition append_write :: "hardware \<Rightarrow> u32 \<Rightarrow> nat \<Rightarrow> u32 \<times> 'a machine_scheme \<Rightarrow> (u32 \<times> 'a machine_scheme) option" where
  "append_write hw addr i = (\<lambda>(p, s). do {
     let pa = V2P (addr + STORAGE_BLOCK_SIZE * of_nat i);
     _ \<leftarrow> deref p;
     (r, s) \<leftarrow> sd_dma_spin_write hw pa 1 (drop_bit 9 (ondisk_addr (mem s) p)) s;
     if r < 0 then None else Some (next_block (mem s) p, s)
   })"

definition append_file ::
    "hardware \<Rightarrow> u32 \<Rightarrow> u32 \<Rightarrow> u32 \<Rightarrow> u32 \<Rightarrow> 'a fs_state_scheme \<Rightarrow> (u32 \<times> 'a fs_state_scheme) option" where
  "append_file hw pid idx addr num s = (
     let (p, s) = data_alloc num s
     in if p = 0 then Some (-1, s)
     else do {
       (_, x) \<leftarrow> fe_find (mem s) idx 0 (fentry_head s);
       if x = 0 then Some (-2, s)
       else if denied (mem s) pid x then Some (-3, s)
       else do {
         s \<leftarrow> (if first_block (mem s) x \<noteq> 0
               then do { pt \<leftarrow> last_block (mem s) (first_block (mem s) x); Some (wr pt p s) }
               else Some (wr (x + 16) p s));
         (_, s) \<leftarrow> loop (append_write hw addr) [0 ..< nat (sint num)] (p, s);
         Some (0, s)
       }
     })"

text \<open>\<open>recycle_blocks\<close>: the loop stops at the last block, which alone is put on the free
  chain; for an empty chain the store after the loop goes through a null pointer.\<close>

partial_function (option) recycle_loop :: "u32 \<Rightarrow> 'a machine_scheme \<Rightarrow> (u32 \<times> 'a machine_scheme) option" where
  [code]: "recycle_loop x s =
     (if x = 0 then Some (0, s)
      else let s = wr (x + 4) 0 s
           in if next_block (mem s) x = 0 then Some (x, s) else recycle_loop (next_block (mem s) x) s)"

definition recycle_blocks :: "u32 \<Rightarrow> 'a fs_state_scheme \<Rightarrow> 'a fs_state_scheme option" where
  "recycle_blocks head s = do {
     (x, s) \<leftarrow> recycle_loop head s;
     _ \<leftarrow> deref x;
     Some (wr x (free_head s) s\<lparr>free_head := x\<rparr>)
   }"

definition recycle_file :: "u32 \<Rightarrow> u32 \<Rightarrow> 'a fs_state_scheme \<Rightarrow> (u32 \<times> 'a fs_state_scheme) option" where
  "recycle_file pid idx s = do {
     (px, x) \<leftarrow> fe_find (mem s) idx 0 (fentry_head s);
     if x = 0 then Some (-1, s)
     else if denied (mem s) pid x then Some (-2, s)
     else do {
       let s = (if px \<noteq> 0 then wr (px + 20) (next_entry (mem s) x) s else s);
       s \<leftarrow> recycle_blocks (first_block (mem s) x) s;
       Some (0, s)
     }
   }"

fun skip_blocks :: "memory \<Rightarrow> nat \<Rightarrow> u32 \<Rightarrow> u32 option" where
  "skip_blocks m 0 p = Some p"
| "skip_blocks m (Suc n) p = do { _ \<leftarrow> deref p; skip_blocks m n (next_block m p) }"

definition seek_datablock :: "u32 \<Rightarrow> u32 \<Rightarrow> u32 \<Rightarrow> 'a fs_state_scheme \<Rightarrow> u32 option" where
  "seek_datablock pid idx pos s = do {
     (_, x) \<leftarrow> fe_find (mem s) idx 0 (fentry_head s);
     if x = 0 \<or> denied (mem s) pid x then Some 0
     else skip_blocks (mem s) (unat pos) (first_block (mem s) x)
   }"

text \<open>The reading loop ends early at the end of the chain, and with a failure (here \<open>False\<close>).\<close>

fun read_blocks :: "hardware \<Rightarrow> u32 \<Rightarrow> nat list \<Rightarrow> u32 \<Rightarrow> 'a machine_scheme \<Rightarrow> (bool \<times> 'a machine_scheme) option" where
  "read_blocks hw ret [] p s = Some (True, s)"
| "read_blocks hw ret (i # is) p s =
     (if p = 0 then Some (True, s)
      else do {
        (r, s) \<leftarrow> sd_dma_spin_read hw (V2P (ret + STORAGE_BLOCK_SIZE * of_nat i)) 1 (drop_bit 9 (ondisk_addr (mem s) p)) s;
        if r < 0 then Some (False, uart_spin_puts (''error reading datablocks on disk'' @ crlf) s)
        else read_blocks hw ret is (next_block (mem s) p) s
      })"

definition read_datablock ::
    "hardware \<Rightarrow> u32 \<Rightarrow> u32 \<Rightarrow> u32 \<Rightarrow> u32 \<Rightarrow> 'a fs_state_scheme \<Rightarrow> (u32 \<times> 'a fs_state_scheme) option" where
  "read_datablock hw pid idx pos num s = do {
     p \<leftarrow> seek_datablock pid idx pos s;
     (ret, s) \<leftarrow> kmalloc (STORAGE_BLOCK_SIZE * num) s;
     (ok, s) \<leftarrow> read_blocks hw ret [0 ..< unat num] p s;
     Some (if ok then (ret, s) else (0, s))
   }"

section \<open>Names\<close>

definition name_matches :: "memory \<Rightarrow> u32 \<Rightarrow> u32 \<Rightarrow> u32 \<Rightarrow> bool" where
  "name_matches m name n x \<longleftrightarrow>
     (\<forall>j \<in> set [0 ..< nat (sint n)]. m (file_name x + of_nat j) = m (name + of_nat j)) \<and> m (file_name x + n) = 0"

partial_function (option) name_find :: "memory \<Rightarrow> u32 \<Rightarrow> u32 \<Rightarrow> u32 \<Rightarrow> u32 option" where
  [code]: "name_find m name n x =
     (if x = 0 then Some (-1)
      else if name_matches m name n x then Some (index_number m x)
      else name_find m name n (next_entry m x))"

definition fname_to_fd :: "u32 \<Rightarrow> u32 \<Rightarrow> 'a fs_state_scheme \<Rightarrow> u32 option" where
  "fname_to_fd name n s = (if 10 \<le>s n then Some (-1) else name_find (mem s) name n (fentry_head s))"

partial_function (option) free_fd :: "memory \<Rightarrow> u32 \<Rightarrow> u32 \<Rightarrow> u32 option" where
  [code]: "free_fd m head fd = do {
     (_, x) \<leftarrow> fe_find m fd 0 head;
     if x = 0 then Some fd else free_fd m head (fd + 1)
   }"

definition create_file_from_name ::
    "u32 \<Rightarrow> u32 \<Rightarrow> 'a fs_state_scheme \<Rightarrow> (u32 \<times> 'a fs_state_scheme) option" where
  "create_file_from_name name n s =
     (if 10 \<le>s n then Some (-1, s)
      else do {
        r \<leftarrow> fname_to_fd name n s;
        if r = 0 then Some (-2, s)
        else do {
          fd \<leftarrow> free_fd (mem s) (fentry_head s) 1;
          (p, s) \<leftarrow> slb_alloc_align sizeof_fentry_t 0 s;
          if p = 0 then Some (-3, s)
          else do {
            let s = wr p fd (wr (p + 16) 0 (wr (p + 20) (fentry_head s) s));
            let s = fold (\<lambda>j s. poke (file_name p + of_nat j) 0 s) [0 ..< nat (sint n)] s;
            let s = poke (file_name p + n) 0 s;
            Some (fd, wr (p + 24) (-1) (s\<lparr>fentry_head := p\<rparr>))
          }
        }
      })"

end
