(* ===== verification/Mmu.thy ===== *)
theory Mmu
  imports Slab LibString
begin

text \<open>
  Address translation: the constants of \<open>include/settings.h\<close>, the table entries of
  \<open>include/kern/mm/pte.h\<close>, the boot table built by \<open>mmu_low.c\<close> and cut down by \<open>mmu_high.c\<close>, and
  the mapping, unmapping and copying of user memory in \<open>kern/mm/mmap.c\<close>.

  Tables are in memory; the kernel reaches physical memory \<open>p\<close> at \<open>P2V p\<close>. The memory of the
  machine is indexed by the addresses the kernel uses; the hardware's translation of user
  addresses is \<open>translate\<close> on the tables.
\<close>

section \<open>Settings\<close>

named_theorems settings

definition PT_OFFSET :: u32 where [settings]: "PT_OFFSET = 0x00100000"
definition PTE_L1SIZE :: u32 where [settings]: "PTE_L1SIZE = 0x00004000"
definition PTE_L2SIZE :: u32 where [settings]: "PTE_L2SIZE = 0x00000400"
definition PTE_L1ALIGN :: u32 where [settings]: "PTE_L1ALIGN = PTE_L1SIZE"
definition PTE_L2ALIGN :: u32 where [settings]: "PTE_L2ALIGN = PTE_L2SIZE"
definition PAGE_L1SIZE :: u32 where [settings]: "PAGE_L1SIZE = 0x00100000"
definition PAGE_L2SIZE :: u32 where [settings]: "PAGE_L2SIZE = 0x00001000"
definition FRAME_SIZE :: u32 where [settings]: "FRAME_SIZE = PAGE_L2SIZE"
definition BLOCK_SIZE :: u32 where [settings]: "BLOCK_SIZE = 512"
definition USER_STACK :: u32 where [settings]: "USER_STACK = 0x00800000"
definition USER_ENTRY :: u32 where [settings]: "USER_ENTRY = 0x00300000"
definition SYS_STACK :: u32 where [settings]: "SYS_STACK = 0xD0FFFFF0"

section \<open>Table entries\<close>

text \<open>The bit fields, lowest first, of a first-level entry that points to a second-level table,
  of a section, of a page, and of an unused entry.\<close>

record ptel1_page_table_t =
  l1p_type :: "2 word"
  l1p_SBZ1 :: "1 word"
  l1p_NS :: "1 word"
  l1p_SBZ2 :: "1 word"
  l1p_domain :: "4 word"
  l1p_empty :: "1 word"
  l1p_base :: "22 word"

record ptel1_section_t =
  sec_type :: "2 word"
  sec_B :: "1 word"
  sec_C :: "1 word"
  sec_XN :: "1 word"
  sec_domain :: "4 word"
  sec_zero1 :: "1 word"
  sec_AP_L :: "2 word"
  sec_TEX :: "3 word"
  sec_AP_H :: "1 word"
  sec_S :: "1 word"
  sec_ng :: "1 word"
  sec_zero2 :: "1 word"
  sec_NS :: "1 word"
  sec_base :: "12 word"

record ptel2_page_t =
  l2_type :: "2 word"
  l2_memattr :: "2 word"
  l2_AP :: "2 word"
  l2_TEX :: "3 word"
  l2_APX :: "1 word"
  l2_S :: "1 word"
  l2_ng :: "1 word"
  l2_base :: "20 word"

record empty_pte =
  e_type :: "2 word"
  e_info :: "30 word"

text \<open>An entry read as each of them.\<close>

definition as_l1p :: "u32 \<Rightarrow> ptel1_page_table_t" where
  "as_l1p w = \<lparr>l1p_type = ucast w, l1p_SBZ1 = ucast (drop_bit 2 w), l1p_NS = ucast (drop_bit 3 w),
     l1p_SBZ2 = ucast (drop_bit 4 w), l1p_domain = ucast (drop_bit 5 w), l1p_empty = ucast (drop_bit 9 w),
     l1p_base = ucast (drop_bit 10 w)\<rparr>"

definition as_section :: "u32 \<Rightarrow> ptel1_section_t" where
  "as_section w = \<lparr>sec_type = ucast w, sec_B = ucast (drop_bit 2 w), sec_C = ucast (drop_bit 3 w),
     sec_XN = ucast (drop_bit 4 w), sec_domain = ucast (drop_bit 5 w), sec_zero1 = ucast (drop_bit 9 w),
     sec_AP_L = ucast (drop_bit 10 w), sec_TEX = ucast (drop_bit 12 w), sec_AP_H = ucast (drop_bit 15 w),
     sec_S = ucast (drop_bit 16 w), sec_ng = ucast (drop_bit 17 w), sec_zero2 = ucast (drop_bit 18 w),
     sec_NS = ucast (drop_bit 19 w), sec_base = ucast (drop_bit 20 w)\<rparr>"

definition as_l2 :: "u32 \<Rightarrow> ptel2_page_t" where
  "as_l2 w = \<lparr>l2_type = ucast w, l2_memattr = ucast (drop_bit 2 w), l2_AP = ucast (drop_bit 4 w),
     l2_TEX = ucast (drop_bit 6 w), l2_APX = ucast (drop_bit 9 w), l2_S = ucast (drop_bit 10 w),
     l2_ng = ucast (drop_bit 11 w), l2_base = ucast (drop_bit 12 w)\<rparr>"

definition as_empty :: "u32 \<Rightarrow> empty_pte" where
  "as_empty w = \<lparr>e_type = ucast w, e_info = ucast (drop_bit 2 w)\<rparr>"

text \<open>Entry \<open>i\<close> of a table.\<close>

definition entry :: "u32 \<Rightarrow> nat \<Rightarrow> u32" where
  "entry pt i = pt + 4 * of_nat i"

section \<open>The boot table\<close>

text \<open>\<open>PT0_BASE\<close> and \<open>PT1_BASE\<close> are the same table, before translation is on.\<close>

definition PT0_BASE :: u32 where "PT0_BASE = 0x100000"
definition PT1_BASE :: u32 where "PT1_BASE = 0x100000"

definition section_mask :: "u32 \<Rightarrow> u32" where
  "section_mask i = push_bit 20 i OR push_bit 17 0 OR push_bit 16 1 OR push_bit 10 2 OR 2"

definition io_sections :: "(nat \<times> u32) list" where
  "io_sections = [(0xE00, 0xE00), (0xE01, 0xE01), (0xE10, 0xE10), (0xE20, 0xE20), (0xE40, 0xE40),
     (0xF80, 0xF80), (0xF88, 0xF88), (0xF89, 0xF89), (0xF8F, 0xF8F), (0xFC0, 0xFC0),
     (0xD0F, 0x1FE), (0xDFF, 0x1FF), (0xFFF, 0x004)]"

definition prepare_page_table :: "memory \<Rightarrow> memory" where
  "prepare_page_table m =
     (let m = fold (\<lambda>i m. st32 (st32 m (entry PT1_BASE i) 0) (entry PT0_BASE i) 0) [0 ..< 0xFFF] m;
          m = fold (\<lambda>i m. let mask = section_mask (of_nat i)
                          in st32 (st32 m (entry PT0_BASE i) mask) (entry PT1_BASE (i + 0x800)) mask) [0 ..< 0x800] m
      in fold (\<lambda>(i, base) m. st32 m (entry PT1_BASE i) (section_mask base)) io_sections m)"

text \<open>\<open>asm_mmu\<close>: the translation table base, the domains, and the bit that turns translation
  on. \<open>sctlr\<close> is the value the control register had.\<close>

definition asm_mmu :: "u32 \<Rightarrow> u32 \<Rightarrow> u32 \<Rightarrow> 'a machine_scheme \<Rightarrow> 'a machine_scheme" where
  "asm_mmu sctlr pt0_paddr pt1_paddr s =
     (let s = mcr 2 0 0 pt0_paddr s;
          s = mcr 8 7 0 0 s;
          s = mcr 3 0 0 0xFFFF5555 s;
          s = s\<lparr>io := io s @ [Mrc 1 0 0 sctlr]\<rparr>
      in mcr 1 0 0 (sctlr OR 1) s)"

text \<open>\<open>mmu_low_main\<close> jumps to the address it returns here.\<close>

definition mmu_low_main :: "u32 \<Rightarrow> 'a machine_scheme \<Rightarrow> u32 \<times> 'a machine_scheme" where
  "mmu_low_main sctlr s =
     (0x80000000 + 0x200000, asm_mmu sctlr PT0_BASE PT1_BASE (s\<lparr>mem := prepare_page_table (mem s)\<rparr>))"

text \<open>In high memory the table is at \<open>page_table\<close>.\<close>

definition page_table :: u32 where "page_table = KERNEL_BASE + PT_OFFSET"

definition mmu_high_main :: "'a machine_scheme \<Rightarrow> u32 \<times> 'a machine_scheme" where
  "mmu_high_main s =
     (let s = fold (\<lambda>i s. wr (entry page_table i) 0 s) [0 ..< unat (drop_bit 20 KERNEL_BASE)] s
      in (0, invalidate_tlb s))"

definition move_TTBR1 :: "u32 \<Rightarrow> 'a machine_scheme \<Rightarrow> 'a machine_scheme" where
  "move_TTBR1 pt1_paddr s = invalidate_tlb (mcr 2 0 1 pt1_paddr s)"

end
