(* ===== verification/Gic.thy ===== *)
theory Gic
  imports Fs Mmu
begin

text \<open>
  Bringing up the interrupt controller (\<open>kern/init/arch/armv7a-le/zynq7000/interrupt.c\<close>), the
  snoop control unit (\<open>scu.c\<close>) and the first-level cache (\<open>l1cache.c\<close>), with the register
  offsets of \<open>interrupt.h\<close>, \<open>scu.h\<close> and \<open>asm/irq.h\<close> and the interrupt masks of the processor.
\<close>

section \<open>Registers\<close>

named_theorems gic_regs

text \<open>\<open>cpsr\<close> and \<open>sctlr\<close> are the processor's status and control registers, \<open>PERIPHBASE\<close> the
  static of \<open>scu.c\<close>.\<close>

record irq_state = fs_state +
  PERIPHBASE :: u32
  cpsr :: u32
  sctlr :: u32

definition ICCICR_OFFSET :: u32 where [gic_regs]: "ICCICR_OFFSET = 0x00000100"
definition ICCPMR_OFFSET :: u32 where [gic_regs]: "ICCPMR_OFFSET = 0x00000104"
definition ICCIAR_OFFSET :: u32 where [gic_regs]: "ICCIAR_OFFSET = 0x0000010c"
definition ICCEOIR_OFFSET :: u32 where [gic_regs]: "ICCEOIR_OFFSET = 0x00000110"
definition ICDDCR_OFFSET :: u32 where [gic_regs]: "ICDDCR_OFFSET = 0x00001000"
definition ICDISER_OFFSET :: u32 where [gic_regs]: "ICDISER_OFFSET = 0x00001100"
definition ICDIPR_OFFSET :: u32 where [gic_regs]: "ICDIPR_OFFSET = 0x00001400"
definition ICDIPTR_OFFSET :: u32 where [gic_regs]: "ICDIPTR_OFFSET = 0x00001800"
definition ICDICFR_OFFSET :: u32 where [gic_regs]: "ICDICFR_OFFSET = 0x00001c00"
definition ICDSGIR_OFFSET :: u32 where [gic_regs]: "ICDSGIR_OFFSET = 0x00001f00"
definition SCU_OFFSET :: u32 where [gic_regs]: "SCU_OFFSET = 0x0000"
definition SCU_CONTROL_OFFSET :: u32 where [gic_regs]: "SCU_CONTROL_OFFSET = 0x00"
definition SCU_CONFIG_OFFSET :: u32 where [gic_regs]: "SCU_CONFIG_OFFSET = 0x04"
definition SCU_FILT_ST_OFFSET :: u32 where [gic_regs]: "SCU_FILT_ST_OFFSET = 0x40"
definition SCU_FILT_ED_OFFSET :: u32 where [gic_regs]: "SCU_FILT_ED_OFFSET = 0x44"
definition SCU_SAC_OFFSET :: u32 where [gic_regs]: "SCU_SAC_OFFSET = 0x50"
definition ICC_ICR_OFFSET :: u32 where [gic_regs]: "ICC_ICR_OFFSET = 0x00"
definition ICC_PMR_OFFSET :: u32 where [gic_regs]: "ICC_PMR_OFFSET = 0x04"
definition ICC_BPR_OFFSET :: u32 where [gic_regs]: "ICC_BPR_OFFSET = 0x08"
definition ICC_IAR_OFFSET :: u32 where [gic_regs]: "ICC_IAR_OFFSET = 0x0c"
definition ICC_EOIR_OFFSET :: u32 where [gic_regs]: "ICC_EOIR_OFFSET = 0x10"
definition ICC_RPR_OFFSET :: u32 where [gic_regs]: "ICC_RPR_OFFSET = 0x14"
definition ICC_HPIR_OFFSET :: u32 where [gic_regs]: "ICC_HPIR_OFFSET = 0x18"
definition ICC_ABPR_OFFSET :: u32 where [gic_regs]: "ICC_ABPR_OFFSET = 0x1c"
definition ICC_IDR_OFFSET :: u32 where [gic_regs]: "ICC_IDR_OFFSET = 0x20"
definition ICD_DCR_OFFSET :: u32 where [gic_regs]: "ICD_DCR_OFFSET = 0x000"
definition ICD_ICTR_OFFSET :: u32 where [gic_regs]: "ICD_ICTR_OFFSET = 0x004"
definition ICD_IIDR_OFFSET :: u32 where [gic_regs]: "ICD_IIDR_OFFSET = 0x008"
definition ICD_ISR_OFFSET :: u32 where [gic_regs]: "ICD_ISR_OFFSET = 0x080"
definition ICD_ISER_OFFSET :: u32 where [gic_regs]: "ICD_ISER_OFFSET = 0x100"
definition ICD_ICER_OFFSET :: u32 where [gic_regs]: "ICD_ICER_OFFSET = 0x180"
definition ICD_ISPR_OFFSET :: u32 where [gic_regs]: "ICD_ISPR_OFFSET = 0x200"
definition ICD_ICPR_OFFSET :: u32 where [gic_regs]: "ICD_ICPR_OFFSET = 0x280"
definition ICD_ABR_OFFSET :: u32 where [gic_regs]: "ICD_ABR_OFFSET = 0x300"
definition ICD_IPR_OFFSET :: u32 where [gic_regs]: "ICD_IPR_OFFSET = 0x400"
definition ICD_IPTR_OFFSET :: u32 where [gic_regs]: "ICD_IPTR_OFFSET = 0x800"
definition ICD_ICFR_OFFSET :: u32 where [gic_regs]: "ICD_ICFR_OFFSET = 0xc00"
definition ICD_SGIR_OFFSET :: u32 where [gic_regs]: "ICD_SGIR_OFFSET = 0xf00"

definition ICC_PHYSBASE :: u32 where [gic_regs]: "ICC_PHYSBASE = MPCORE_PHYSBASE + 0x0100"
definition ICD_PHYSBASE :: u32 where [gic_regs]: "ICD_PHYSBASE = MPCORE_PHYSBASE + 0x1000"
definition icc_base :: u32 where [gic_regs]: "icc_base = mpcore_base + 0x0100"
definition icd_base :: u32 where [gic_regs]: "icd_base = mpcore_base + 0x1000"

text \<open>Register \<open>i\<close> of a group that starts at \<open>ofs\<close>.\<close>

definition reg :: "'a irq_state_scheme \<Rightarrow> u32 \<Rightarrow> nat \<Rightarrow> u32" where
  "reg s ofs i = PERIPHBASE s + ofs + 4 * of_nat i"

section \<open>The masks of the processor\<close>

definition icc_enable :: "'a machine_scheme \<Rightarrow> 'a machine_scheme" where
  "icc_enable s = out32 (icc_base + ICC_ICR_OFFSET) 0x1 s"

definition icc_disable :: "'a machine_scheme \<Rightarrow> 'a machine_scheme" where
  "icc_disable s = out32 (icc_base + ICC_ICR_OFFSET) 0x0 s"

definition irq_enable :: "'a irq_state_scheme \<Rightarrow> 'a irq_state_scheme" where
  "irq_enable s = s\<lparr>cpsr := cpsr s AND NOT 0x80\<rparr>"

definition irq_disable :: "'a irq_state_scheme \<Rightarrow> 'a irq_state_scheme" where
  "irq_disable s = s\<lparr>cpsr := cpsr s OR 0x80\<rparr>"

definition fiq_enable :: "'a irq_state_scheme \<Rightarrow> 'a irq_state_scheme" where
  "fiq_enable s = s\<lparr>cpsr := cpsr s AND NOT 0x40\<rparr>"

definition fiq_disable :: "'a irq_state_scheme \<Rightarrow> 'a irq_state_scheme" where
  "fiq_disable s = s\<lparr>cpsr := cpsr s OR 0x40\<rparr>"

definition interrupt_enable :: "'a irq_state_scheme \<Rightarrow> 'a irq_state_scheme" where
  "interrupt_enable s = s\<lparr>cpsr := cpsr s AND NOT 0xC0\<rparr>"

definition interrupt_disable :: "'a irq_state_scheme \<Rightarrow> 'a irq_state_scheme" where
  "interrupt_disable s = s\<lparr>cpsr := cpsr s OR 0xC0\<rparr>"

section \<open>The interrupt controller\<close>

definition print_reg :: "hardware \<Rightarrow> string \<Rightarrow> u32 \<Rightarrow> 'a machine_scheme \<Rightarrow> 'a machine_scheme" where
  "print_reg hw fmt a s = (let (v, s) = in32 hw a s in uart_spin_printf fmt [VWord v] s)"

definition puthex_reg :: "hardware \<Rightarrow> u32 \<Rightarrow> 'a machine_scheme \<Rightarrow> 'a machine_scheme" where
  "puthex_reg hw a s = (let (v, s) = in32 hw a s in puthex v s)"

definition check_ICDICFR :: "hardware \<Rightarrow> 'a irq_state_scheme \<Rightarrow> u32 \<times> 'a irq_state_scheme" where
  "check_ICDICFR hw s =
     (let icfr = reg s ICDICFR_OFFSET;
          (v, s) = in32 hw (icfr 0) s
      in if v \<noteq> 0xAAAAAAAA then (1, s)
         else let (v, s) = in32 hw (icfr 1) s
              in if v \<noteq> 0x7DC00000 then (1, s)
                 else (0, fold (\<lambda>i. puthex_reg hw (icfr i)) [0 ..< 6]
                           (uart_spin_puts (''information ICDICFR:'' @ crlf) s)))"

definition prepare_ICDDCR :: "hardware \<Rightarrow> 'a irq_state_scheme \<Rightarrow> 'a irq_state_scheme" where
  "prepare_ICDDCR hw s =
     (let dcr = reg s ICDDCR_OFFSET 0
      in print_reg hw (''icddcr'' @ tab @ ''%d'' @ crlf) dcr (or32 hw dcr 3 s))"

definition used_irq :: "nat \<Rightarrow> bool" where
  "used_irq i \<longleftrightarrow> 16 \<le> i \<and> i < 32 \<or> i = 36 \<or> i = 93 \<or> i = 94"

definition prepare_ICDIPTR :: "hardware \<Rightarrow> 'a irq_state_scheme \<Rightarrow> 'a irq_state_scheme" where
  "prepare_ICDIPTR hw s =
     (let iptr = PERIPHBASE s + ICDIPTR_OFFSET
      in fold (\<lambda>i s. if used_irq i then s
                     else let (v, s) = in8 hw (iptr + of_nat i) s
                          in out8 (iptr + of_nat i) (v AND 0xFC OR 1) s) [0 ..< 96] s)"

definition prepare_ICDIPR :: "'a irq_state_scheme \<Rightarrow> 'a irq_state_scheme" where
  "prepare_ICDIPR s =
     (let ipr = reg s ICDIPR_OFFSET
      in fold (\<lambda>i. out32 (ipr i) 0x01020304) [0 ..< 24] (uart_spin_puts (''icdipr'' @ crlf) s))"

definition prepare_ICDISER :: "hardware \<Rightarrow> 'a irq_state_scheme \<Rightarrow> 'a irq_state_scheme" where
  "prepare_ICDISER hw s =
     (let iser = reg s ICDISER_OFFSET;
          s = out32 (iser 0) 0xFFFFFFFF s;
          s = out32 (iser 1) 0xFFFFFFFF s;
          s = out32 (iser 2) 0xFFFFFFFF s
      in print_reg hw (''icdiser'' @ tab @ ''%x'' @ crlf) (iser 0) s)"

definition prepare_ICCPMR :: "hardware \<Rightarrow> 'a irq_state_scheme \<Rightarrow> 'a irq_state_scheme" where
  "prepare_ICCPMR hw s =
     (let pmr = reg s ICCPMR_OFFSET 0;
          (v, s) = in32 hw pmr s;
          s = out32 pmr (v AND 0xFFFFFF00 OR 0xFF) s
      in print_reg hw (''iccpmr'' @ tab @ ''%x'' @ crlf) pmr s)"

definition prepare_ICCICR :: "hardware \<Rightarrow> 'a irq_state_scheme \<Rightarrow> 'a irq_state_scheme" where
  "prepare_ICCICR hw s =
     (let icr = reg s ICCICR_OFFSET 0
      in print_reg hw (''iccicr'' @ tab @ ''%x'' @ crlf) icr (or32 hw icr 3 s))"

definition asm_sctlr :: "'a irq_state_scheme \<Rightarrow> 'a irq_state_scheme" where
  "asm_sctlr s =
     (let s = s\<lparr>io := io s @ [Mrc 1 0 0 (sctlr s)]\<rparr>;
          v = sctlr s AND 0xFEFFFFFF OR 0x2000;
          s = mcr 1 0 0 v (s\<lparr>sctlr := v\<rparr>)
      in s\<lparr>cpsr := cpsr s AND 0xFFFFFE3F\<rparr>)"

definition init_context_container :: "'a irq_state_scheme \<Rightarrow> 'a irq_state_scheme option" where
  "init_context_container =
     loop (\<lambda>c s. do {
       (p, s) \<leftarrow> slb_alloc sizeof_context_cpu_t s;
       Some (s\<lparr>contexts := (contexts s)(c := p)\<rparr>)
     }) [Ctx_no, Ctx_ndef, Ctx_svc, Ctx_abort, Ctx_irq, Ctx_fiq]"

definition interrupt_init :: "hardware \<Rightarrow> 'a irq_state_scheme \<Rightarrow> (u32 \<times> 'a irq_state_scheme) option" where
  "interrupt_init hw s =
     (let (r, s) = check_ICDICFR hw s
      in if r \<noteq> 0 then Some (1, s)
         else do {
           let s = prepare_ICDDCR hw s;
           let s = prepare_ICDIPTR hw s;
           let s = prepare_ICDIPR s;
           let s = prepare_ICDISER hw s;
           let s = prepare_ICCPMR hw s;
           let s = prepare_ICCICR hw s;
           s \<leftarrow> init_context_container (asm_sctlr s);
           Some (0, s)
         })"

section \<open>Snoop control unit and cache\<close>

text \<open>\<open>scu_register\<close> is a pointer to words, so the byte offsets of \<open>scu.h\<close> are multiplied by 4.
  \<open>cbar\<close> is the configuration base address register of the processor.\<close>

definition enable_scu :: "hardware \<Rightarrow> 'a irq_state_scheme \<Rightarrow> u32 \<times> 'a irq_state_scheme" where
  "enable_scu hw s =
     (let scu_register = \<lambda>k. PERIPHBASE s + 4 * k;
          s = or32 hw (scu_register SCU_SAC_OFFSET) 3 s;
          s = or32 hw (scu_register SCU_CONTROL_OFFSET) 1 s;
          s = uart_spin_puts (''---SCU control register:'' @ tab) s
      in (0, puthex_reg hw (scu_register SCU_CONTROL_OFFSET) s))"

definition scu_init :: "hardware \<Rightarrow> u32 \<Rightarrow> 'a irq_state_scheme \<Rightarrow> u32 \<times> 'a irq_state_scheme" where
  "scu_init hw cbar s =
     (let s = s\<lparr>PERIPHBASE := cbar AND 0xFFFFE000\<rparr>;
          s = uart_spin_puts (''---PERIPHBASE is at:'' @ tab) s;
          s = puthex (PERIPHBASE s) s;
          (r, s) = enable_scu hw s
      in (0, if r \<noteq> 0 then uart_spin_puts (''enable SCU failed.'' @ crlf) s else s))"

text \<open>\<open>r11\<close> is whatever that register holds.\<close>

definition l1cache_init :: "u32 \<Rightarrow> 'a irq_state_scheme \<Rightarrow> u32 \<times> 'a irq_state_scheme" where
  "l1cache_init r11 s =
     (let s = mcr 7 14 2 r11 (mcr 7 5 6 0 (mcr 7 5 0 0 (mcr 8 7 0 0 s)));
          s = s\<lparr>io := io s @ [Mrc 1 0 0 (sctlr s)]\<rparr>;
          v = sctlr s OR 0x1000 OR 0x0004
      in (0, mcr 1 0 0 v (s\<lparr>sctlr := v\<rparr>)))"

end
