(* ===== verification/Mmap.thy ===== *)
theory Mmap
  imports Mmu
begin

text \<open>
  \<open>kern/mm/mmap.c\<close>: mapping a range of user addresses to fresh pages, unmapping a range, and
  copying the user part of an address space. \<open>i\<close> is the index of a megabyte, \<open>j\<close> of a page in
  it; \<open>temp\<close> is the address they stand for.
\<close>

definition page_addr :: "nat \<Rightarrow> nat \<Rightarrow> u32" where
  "page_addr i j = of_nat i * PAGE_L1SIZE + of_nat j * PAGE_L2SIZE"

definition l1_range :: "u32 \<Rightarrow> u32 \<Rightarrow> nat list" where
  "l1_range start finish = [unat (start div PAGE_L1SIZE) ..< Suc (unat ((finish - 1) div PAGE_L1SIZE))]"

definition l2_range :: "nat list" where
  "l2_range = [0 ..< unat (drop_bit 2 PTE_L2SIZE)]"

definition say :: "string \<Rightarrow> 'a machine_scheme \<Rightarrow> 'a machine_scheme" where
  "say str = uart_spin_printf (str @ crlf) []"

definition zero_mem :: "u32 \<Rightarrow> u32 \<Rightarrow> 'a machine_scheme \<Rightarrow> 'a machine_scheme" where
  "zero_mem p n s = s\<lparr>mem := snd (memset p 0 n (mem s))\<rparr>"

definition copy_mem :: "u32 \<Rightarrow> u32 \<Rightarrow> u32 \<Rightarrow> 'a machine_scheme \<Rightarrow> 'a machine_scheme" where
  "copy_mem dst src n s = s\<lparr>mem := snd (memcpy dst src n (mem s))\<rparr>"

section \<open>Unmapping\<close>

definition unmmap_page :: "u32 \<Rightarrow> u32 \<Rightarrow> u32 \<Rightarrow> nat \<Rightarrow> nat \<Rightarrow> 'a slb_state_scheme \<Rightarrow> 'a slb_state_scheme option" where
  "unmmap_page start finish l2page i j s =
     (let temp = page_addr i j; e = as_l2 (rd s (entry l2page j))
      in if temp < start \<or> finish \<le> temp then Some s
         else if l2_type e = 2 \<or> l2_type e = 3
         then map_option snd (pages_free (ucast (l2_base e) * PAGE_L2SIZE) ((ucast (l2_base e) + 1) * PAGE_L2SIZE) s)
         else Some s)"

text \<open>The second-level table is taken to be at \<open>P2V (base)\<close>, without the factor of
  \<open>mmap\<close>; the first-level entry stays.\<close>

definition unmmap_l1 :: "u32 \<Rightarrow> u32 \<Rightarrow> u32 \<Rightarrow> nat \<Rightarrow> 'a slb_state_scheme \<Rightarrow> 'a slb_state_scheme option" where
  "unmmap_l1 pt_vaddr start finish i s =
     (let l1pte = as_l1p (rd s (entry pt_vaddr i)); l2page = P2V (ucast (l1p_base l1pte))
      in if l1p_type l1pte = 0 then Some s
         else do {
           s \<leftarrow> loop (unmmap_page start finish l2page i) l2_range s;
           (_, s) \<leftarrow> slb_free_align l2page PTE_L2SIZE PTE_L2ALIGN s;
           Some s
         })"

definition unmmap :: "u32 \<Rightarrow> u32 \<Rightarrow> u32 \<Rightarrow> 'a slb_state_scheme \<Rightarrow> 'a slb_state_scheme option" where
  "unmmap pt_vaddr start finish s = do {
     s \<leftarrow> loop (unmmap_l1 pt_vaddr start finish) (rev (l1_range start finish)) (say ''In unmmap()'' s);
     Some (say ''bye.'' (invalidate_tlb s))
   }"

section \<open>Mapping\<close>

text \<open>A fresh zeroed page for entry \<open>j\<close>, when it is empty.\<close>

definition fresh_page :: "u32 \<Rightarrow> u32 \<Rightarrow> nat \<Rightarrow> 'a slb_state_scheme \<Rightarrow> 'a slb_state_scheme option" where
  "fresh_page pattern2 l2page j s = do {
     (temp, s) \<leftarrow> pages_alloc PAGE_L2SIZE s;
     Some (wr (entry l2page j) (temp OR pattern2) (zero_mem (P2V temp) PAGE_L2SIZE s))
   }"

definition mmap_page ::
    "u32 \<Rightarrow> u32 \<Rightarrow> u32 \<Rightarrow> u32 \<Rightarrow> nat \<Rightarrow> nat \<Rightarrow> 'a slb_state_scheme \<Rightarrow> 'a slb_state_scheme option" where
  "mmap_page start finish pattern2 l2page i j s =
     (let temp = page_addr i j
      in if temp < start \<or> finish \<le> temp then Some s
         else if l2_type (as_l2 (rd s (entry l2page j))) = 0
         then map_option invalidate_tlb (fresh_page pattern2 l2page j s)
         else Some s)"

text \<open>A fresh empty second-level table for entry \<open>i\<close>.\<close>

definition fresh_table :: "u32 \<Rightarrow> u32 \<Rightarrow> nat \<Rightarrow> 'a slb_state_scheme \<Rightarrow> 'a slb_state_scheme option" where
  "fresh_table pattern1 pt i s = do {
     (temp, s) \<leftarrow> slb_alloc_align PTE_L2SIZE PTE_L2ALIGN s;
     Some (wr (entry pt i) (V2P temp OR pattern1) (zero_mem temp PTE_L2SIZE s))
   }"

definition mmap_l1 ::
    "u32 \<Rightarrow> u32 \<Rightarrow> u32 \<Rightarrow> u32 \<Rightarrow> u32 \<Rightarrow> nat \<Rightarrow> 'a slb_state_scheme \<Rightarrow> 'a slb_state_scheme option" where
  "mmap_l1 pt_vaddr start finish pattern1 pattern2 i s = do {
     s \<leftarrow> (if l1p_type (as_l1p (rd s (entry pt_vaddr i))) = 0
           then map_option invalidate_tlb (fresh_table pattern1 pt_vaddr i s) else Some s);
     let l2page = P2V (ucast (l1p_base (as_l1p (rd s (entry pt_vaddr i)))) * PTE_L2SIZE);
     loop (mmap_page start finish pattern2 l2page i) l2_range s
   }"

definition mmap :: "u32 \<Rightarrow> u32 \<Rightarrow> u32 \<Rightarrow> u32 \<Rightarrow> u32 \<Rightarrow> 'a slb_state_scheme \<Rightarrow> 'a slb_state_scheme option" where
  "mmap pt_vaddr start finish pattern1 pattern2 s = do {
     let s = say ''In mmap()'' s;
     let s = uart_spin_printf (''start: %x, finish %x'' @ crlf) [VWord start, VWord finish] s;
     s \<leftarrow> loop (mmap_l1 pt_vaddr start finish pattern1 pattern2) (l1_range start finish) s;
     Some (say ''bye.'' (invalidate_tlb s))
   }"

section \<open>Copying an address space\<close>

text \<open>A page mapped by a second-level table. The addresses given to \<open>memcpy\<close> are physical.\<close>

definition copy_page ::
    "u32 \<Rightarrow> u32 \<Rightarrow> u32 \<Rightarrow> u32 \<Rightarrow> u32 \<Rightarrow> nat \<Rightarrow> nat \<Rightarrow> 'a slb_state_scheme \<Rightarrow> 'a slb_state_scheme option" where
  "copy_page start finish pattern2 l2page_frm l2page_to i j s =
     (let temp = page_addr i j; frm = as_l2 (rd s (entry l2page_frm j))
      in if temp < start \<or> finish \<le> temp then Some s
         else if l2_type frm = 2 \<or> l2_type frm = 3
         then do {
           s \<leftarrow> (if l2_type (as_l2 (rd s (entry l2page_to j))) = 0 then fresh_page pattern2 l2page_to j s else Some s);
           Some (copy_mem (ucast (l2_base (as_l2 (rd s (entry l2page_to j)))) * PAGE_L2SIZE)
             (ucast (l2_base (as_l2 (rd s (entry l2page_frm j)))) * PAGE_L2SIZE) PAGE_L2SIZE s)
         }
         else Some s)"

text \<open>A page of a section.\<close>

definition copy_section_page ::
    "u32 \<Rightarrow> u32 \<Rightarrow> u32 \<Rightarrow> u32 \<Rightarrow> u32 \<Rightarrow> nat \<Rightarrow> nat \<Rightarrow> 'a slb_state_scheme \<Rightarrow> 'a slb_state_scheme option" where
  "copy_section_page start finish pattern2 section_base l2page_to i j s =
     (let temp = page_addr i j
      in if temp < start \<or> finish \<le> temp then Some s
         else do {
           s \<leftarrow> (if l2_type (as_l2 (rd s (entry l2page_to j))) = 0 then fresh_page pattern2 l2page_to j s else Some s);
           Some (copy_mem (P2V (ucast (l2_base (as_l2 (rd s (entry l2page_to j)))) * PAGE_L2SIZE))
             (P2V (section_base + of_nat j * PAGE_L2SIZE)) PAGE_L2SIZE s)
         })"

definition copy_l1 ::
    "u32 \<Rightarrow> u32 \<Rightarrow> u32 \<Rightarrow> u32 \<Rightarrow> u32 \<Rightarrow> u32 \<Rightarrow> nat \<Rightarrow> 'a slb_state_scheme \<Rightarrow> 'a slb_state_scheme option" where
  "copy_l1 pt_frm pt_to start finish pattern1 pattern2 i s =
     (if unat (KERNEL_BASE div PAGE_L1SIZE) \<le> i then Some (wr (entry pt_to i) (rd s (entry pt_frm i)) s)
      else let ty = l1p_type (as_l1p (rd s (entry pt_frm i)))
      in if ty = 0 \<or> ty = 3 then Some s
      else do {
        s \<leftarrow> (if l1p_type (as_l1p (rd s (entry pt_to i))) = 0 then fresh_table pattern1 pt_to i s else Some s);
        let frm = as_l1p (rd s (entry pt_frm i));
        let l2page_frm = P2V (ucast (l1p_base frm));
        let l2page_to = P2V (ucast (l1p_base (as_l1p (rd s (entry pt_to i)))) * PTE_L2SIZE);
        if l1p_type frm = 1
        then loop (copy_page start finish pattern2 l2page_frm l2page_to i) l2_range s
        else loop (copy_section_page start finish pattern2 (rd s (entry pt_frm i) AND 0xFFF00000) l2page_to i) l2_range s
      })"

definition copy_mem_img ::
    "u32 \<Rightarrow> u32 \<Rightarrow> u32 \<Rightarrow> u32 \<Rightarrow> u32 \<Rightarrow> u32 \<Rightarrow> 'a slb_state_scheme \<Rightarrow> 'a slb_state_scheme option" where
  "copy_mem_img pt_frm pt_to start finish pattern1 pattern2 s = do {
     s \<leftarrow> loop (copy_l1 pt_frm pt_to start finish pattern1 pattern2) (l1_range start finish) (say ''In copy_mem_img().'' s);
     Some (say ''bye.'' (invalidate_tlb s))
   }"

end
