(* ===== verification/Sd_Load.thy ===== *)
theory Sd_Load
  imports Sd Mmap
begin

text \<open>
  \<open>drivers/sd/use-sd-zynq7000.c\<close>: reading blocks to a user address. The destination is looked
  up in the tables, again at every page the transfer reaches.
\<close>

definition walk_v2p :: "u32 \<Rightarrow> u32 \<Rightarrow> 'a machine_scheme \<Rightarrow> u32 \<times> 'a machine_scheme" where
  "walk_v2p va pt s =
     (let s = say ''start'' s;
          l2tp = P2V (push_bit 10 (drop_bit 10 (rd s (pt + 4 * (va div PAGE_L1SIZE)))));
          s = uart_spin_printf (''l2tp%x'' @ crlf) [VWord l2tp] s;
          va = va mod PAGE_L1SIZE;
          s = uart_spin_printf (''va%x'' @ crlf) [VWord va] s;
          s = say ''2'' s;
          result = rd s (l2tp + 4 * (va div PAGE_L2SIZE)) AND 0xFFFFF000
      in (result, say ''3'' s))"

partial_function (option) sd_load_wait ::
    "hardware \<Rightarrow> u32 \<Rightarrow> u32 \<Rightarrow> 'a machine_scheme \<Rightarrow> (int \<times> 'a machine_scheme) option" where
  [code]: "sd_load_wait hw pt va s =
     (case in16 hw (SD_BASE + SD_NORM_INTR_STS_OFFSET) s of (state16, s) \<Rightarrow>
        if state16 AND SD_INTR_ERR \<noteq> 0
        then Some (-3, out16 (SD_BASE + SD_ERR_INTR_STS_OFFSET) SD_ERR_INTR_ALL s)
        else let (va, s) =
               (if state16 AND SD_INTR_DMA \<noteq> 0
                then let (next_paddr, s) = in32 hw (SD_BASE + SD_SDMA_SYS_ADDR_OFFSET) s;
                         s = uart_spin_printf (''next: %x'' @ crlf) [VWord next_paddr] s;
                         (va, next_paddr, s) =
                           (if next_paddr mod FRAME_SIZE = 0
                            then let va = va + 0x1000;
                                     (next_paddr, s) = walk_v2p va pt s
                                 in (va, next_paddr, uart_spin_printf (''----: %x'' @ crlf) [VWord next_paddr] s)
                            else (va, next_paddr, s));
                         s = out16 (SD_BASE + SD_NORM_INTR_STS_OFFSET) SD_INTR_DMA s
                     in (va, out32 (SD_BASE + SD_SDMA_SYS_ADDR_OFFSET) next_paddr s)
                else (va, s))
          in if state16 AND SD_INTR_TC = 0 then sd_load_wait hw pt va s
             else Some (0, out16 (SD_BASE + SD_NORM_INTR_STS_OFFSET) SD_INTR_TC s))"

definition sd_dma_spin_load ::
    "hardware \<Rightarrow> u32 \<Rightarrow> u16 \<Rightarrow> u32 \<Rightarrow> u32 \<Rightarrow> 'a machine_scheme \<Rightarrow> (int \<times> 'a machine_scheme) option" where
  "sd_dma_spin_load hw va blk_count offset pt s =
     (let (pa, s) = walk_v2p va pt s;
          s = uart_spin_printf (''va: %x'' @ [CHR 0x09] @ ''pa: %d'' @ crlf) [VWord va, VWord pa] s;
          (state32, s) = in32 hw (SD_BASE + SD_PRES_STATE_OFFSET) s
      in if state32 AND SD_PSR_CARD_INSRT = 0 then Some (-1, s)
         else let s = out32 (SD_BASE + SD_SDMA_SYS_ADDR_OFFSET) pa s
              in sd_step (sd_spin_send_cmd hw SD_CMD18 blk_count offset 1 s) (-2) (sd_load_wait hw pt va))"

end
