(* ===== verification/Elf.thy ===== *)
theory Elf
  imports Prelude
begin

text \<open>
  The headers of an ELF file (\<open>include/elf.h\<close>), read from memory: the file header and the
  program header, in the 32-bit and in the 64-bit format. Fields are little-endian, at the
  offsets C gives them (no padding in any of the four).
\<close>

definition ld64 :: "memory \<Rightarrow> u32 \<Rightarrow> u64" where
  "ld64 m a = ucast (ld32 m a) OR push_bit 32 (ucast (ld32 m (a + 4)))"

section \<open>File headers\<close>

definition EI_NIDENT :: nat where "EI_NIDENT = 16"

record elf32hdr =
  e_ident :: "u8 list"
  e_type :: u16
  e_machine :: u16
  e_version :: u32
  e_entry :: u32
  e_phoff :: u32
  e_shoff :: u32
  e_flags :: u32
  e_ehsize :: u16
  e_phentsize :: u16
  e_phnum :: u16
  e_shentsize :: u16
  e_shnum :: u16
  e_shstrndx :: u16

record elf64hdr =
  e64_ident :: "u8 list"
  e64_type :: u16
  e64_machine :: u16
  e64_version :: u32
  e64_entry :: u64
  e64_phoff :: u64
  e64_shoff :: u64
  e64_flags :: u32
  e64_ehsize :: u16
  e64_phentsize :: u16
  e64_phnum :: u16
  e64_shentsize :: u16
  e64_shnum :: u16
  e64_shstrndx :: u16

definition read_ident :: "memory \<Rightarrow> u32 \<Rightarrow> u8 list" where
  "read_ident m p = map (\<lambda>i. m (p + of_nat i)) [0 ..< EI_NIDENT]"

definition read_elf32hdr :: "memory \<Rightarrow> u32 \<Rightarrow> elf32hdr" where
  "read_elf32hdr m p = \<lparr>e_ident = read_ident m p, e_type = ld16 m (p + 16), e_machine = ld16 m (p + 18),
     e_version = ld32 m (p + 20), e_entry = ld32 m (p + 24), e_phoff = ld32 m (p + 28),
     e_shoff = ld32 m (p + 32), e_flags = ld32 m (p + 36), e_ehsize = ld16 m (p + 40),
     e_phentsize = ld16 m (p + 42), e_phnum = ld16 m (p + 44), e_shentsize = ld16 m (p + 46),
     e_shnum = ld16 m (p + 48), e_shstrndx = ld16 m (p + 50)\<rparr>"

definition read_elf64hdr :: "memory \<Rightarrow> u32 \<Rightarrow> elf64hdr" where
  "read_elf64hdr m p = \<lparr>e64_ident = read_ident m p, e64_type = ld16 m (p + 16), e64_machine = ld16 m (p + 18),
     e64_version = ld32 m (p + 20), e64_entry = ld64 m (p + 24), e64_phoff = ld64 m (p + 32),
     e64_shoff = ld64 m (p + 40), e64_flags = ld32 m (p + 48), e64_ehsize = ld16 m (p + 52),
     e64_phentsize = ld16 m (p + 54), e64_phnum = ld16 m (p + 56), e64_shentsize = ld16 m (p + 58),
     e64_shnum = ld16 m (p + 60), e64_shstrndx = ld16 m (p + 62)\<rparr>"

definition sizeof_elf64hdr :: u32 where "sizeof_elf64hdr = 64"

section \<open>Program headers\<close>

record elf32_phdr =
  p_type :: u32
  p_offset :: u32
  p_vaddr :: u32
  p_paddr :: u32
  p_filesz :: u32
  p_memsz :: u32
  p_flags :: u32
  p_align :: u32

record elf64_phdr =
  p64_type :: u32
  p64_flags :: u32
  p64_offset :: u64
  p64_vaddr :: u64
  p64_paddr :: u64
  p64_filesz :: u64
  p64_memsz :: u64
  p64_align :: u64

definition read_elf32_phdr :: "memory \<Rightarrow> u32 \<Rightarrow> elf32_phdr" where
  "read_elf32_phdr m p = \<lparr>p_type = ld32 m p, p_offset = ld32 m (p + 4), p_vaddr = ld32 m (p + 8),
     p_paddr = ld32 m (p + 12), p_filesz = ld32 m (p + 16), p_memsz = ld32 m (p + 20),
     p_flags = ld32 m (p + 24), p_align = ld32 m (p + 28)\<rparr>"

definition read_elf64_phdr :: "memory \<Rightarrow> u32 \<Rightarrow> elf64_phdr" where
  "read_elf64_phdr m p = \<lparr>p64_type = ld32 m p, p64_flags = ld32 m (p + 4), p64_offset = ld64 m (p + 8),
     p64_vaddr = ld64 m (p + 16), p64_paddr = ld64 m (p + 24), p64_filesz = ld64 m (p + 32),
     p64_memsz = ld64 m (p + 40), p64_align = ld64 m (p + 48)\<rparr>"

definition sizeof_elf64_phdr :: u32 where "sizeof_elf64_phdr = 56"

text \<open>The type of a segment to be loaded.\<close>

definition PT_LOAD :: u32 where "PT_LOAD = 1"

section \<open>Section headers\<close>

record elf32_shdr =
  sh_name :: u32
  sh_type :: u32
  sh_flags :: u32
  sh_addr :: u32
  sh_offset :: u32
  sh_size :: u32
  sh_link :: u32
  sh_info :: u32
  sh_addralign :: u32
  sh_entsize :: u32

definition read_elf32_shdr :: "memory \<Rightarrow> u32 \<Rightarrow> elf32_shdr" where
  "read_elf32_shdr m p = \<lparr>sh_name = ld32 m p, sh_type = ld32 m (p + 4), sh_flags = ld32 m (p + 8),
     sh_addr = ld32 m (p + 12), sh_offset = ld32 m (p + 16), sh_size = ld32 m (p + 20),
     sh_link = ld32 m (p + 24), sh_info = ld32 m (p + 28), sh_addralign = ld32 m (p + 32),
     sh_entsize = ld32 m (p + 36)\<rparr>"

definition sizeof_elf32_shdr :: u32 where "sizeof_elf32_shdr = 40"

end
