(* ===== verification/Syscall.thy ===== *)
theory Syscall
  imports Gic Sd_Load Uart Elf
begin

text \<open>
  System calls (\<open>kern/syscall.c\<close>): the dispatch on the call's number and the handlers. The
  caller's registers are in the context block \<open>context_svc\<close>; results go to its \<open>r0\<close>.
\<close>

named_theorems syscall_ids

definition ID_DEBUG :: u32 where [syscall_ids]: "ID_DEBUG = 0x0"
definition ID_FORK :: u32 where [syscall_ids]: "ID_FORK = 0x1"
definition ID_EXEC :: u32 where [syscall_ids]: "ID_EXEC = 0x2"
definition ID_KILL :: u32 where [syscall_ids]: "ID_KILL = 0x3"
definition ID_WAIT :: u32 where [syscall_ids]: "ID_WAIT = 0x4"
definition ID_GETPID :: u32 where [syscall_ids]: "ID_GETPID = 0x5"
definition ID_GETPPID :: u32 where [syscall_ids]: "ID_GETPPID = 0x6"
definition ID_EXIT :: u32 where [syscall_ids]: "ID_EXIT = 0x9"
definition ID_OPEN :: u32 where [syscall_ids]: "ID_OPEN = 0x10"
definition ID_CLOSE :: u32 where [syscall_ids]: "ID_CLOSE = 0x11"
definition ID_READ :: u32 where [syscall_ids]: "ID_READ = 0x12"
definition ID_WRITE :: u32 where [syscall_ids]: "ID_WRITE = 0x13"
definition ID_SEEK :: u32 where [syscall_ids]: "ID_SEEK = 0x14"
definition ID_CREATE :: u32 where [syscall_ids]: "ID_CREATE = 0x15"
definition ID_DELETE :: u32 where [syscall_ids]: "ID_DELETE = 0x16"
definition ID_SLEEP :: u32 where [syscall_ids]: "ID_SLEEP = 0x20"
definition ID_TIME :: u32 where [syscall_ids]: "ID_TIME = 0x21"
definition ID_CLOCK :: u32 where [syscall_ids]: "ID_CLOCK = 0x22"
definition ID_GETS :: u32 where [syscall_ids]: "ID_GETS = 0x30"
definition ID_PUTS :: u32 where [syscall_ids]: "ID_PUTS = 0x31"

section \<open>Registers of the caller\<close>

definition svc :: "'a sched_state_scheme \<Rightarrow> nat \<Rightarrow> u32" where
  "svc s k = rd s (contexts s Ctx_svc + 4 * of_nat k)"

definition set_svc :: "nat \<Rightarrow> u32 \<Rightarrow> 'a sched_state_scheme \<Rightarrow> 'a sched_state_scheme" where
  "set_svc k v s = wr (contexts s Ctx_svc + 4 * of_nat k) v s"

definition running_pid :: "'a sched_state_scheme \<Rightarrow> u32" where
  "running_pid s = pid_of (mem s) (sched_get_running s)"

text \<open>\<open>r0\<close> receives the result of a file operation.\<close>

definition to_r0 :: "(u32 \<times> 'a sched_state_scheme) option \<Rightarrow> 'a sched_state_scheme option" where
  "to_r0 r = map_option (\<lambda>(v, s). set_svc 0 v s) r"

section \<open>Console\<close>

text \<open>\<open>uart_spin_puts\<close> on a string in memory.\<close>

partial_function (option) puts_mem :: "u32 \<Rightarrow> 'a machine_scheme \<Rightarrow> 'a machine_scheme option" where
  [code]: "puts_mem p s =
     (if mem s p = 0 then Some s else puts_mem (p + 1) (kputs [char_of (unat (mem s p))] s))"

definition sys_gets :: "hardware \<Rightarrow> 'a sched_state_scheme \<Rightarrow> 'a sched_state_scheme option" where
  "sys_gets hw s = map_option (set_svc 0 0) (uart_spin_gets (uart_spin_getbyte hw) (svc s 0) s)"

definition sys_puts :: "'a sched_state_scheme \<Rightarrow> 'a sched_state_scheme option" where
  "sys_puts s = map_option (set_svc 0 0) (puts_mem (svc s 0) s)"

section \<open>Files\<close>

definition sys_open :: "'a fs_state_scheme \<Rightarrow> 'a fs_state_scheme option" where
  "sys_open s = do {
     let pid = running_pid s;
     fd \<leftarrow> fname_to_fd (svc s 0) (svc s 1) s;
     if fd = -1 then Some (set_svc 0 (-1) s) else to_r0 (open_file pid fd s)
   }"

definition sys_close :: "'a fs_state_scheme \<Rightarrow> 'a fs_state_scheme option" where
  "sys_close s = to_r0 (close_file (running_pid s) (svc s 0) s)"

definition n_blocks_of :: "u32 \<Rightarrow> u32" where
  "n_blocks_of n = signed_drop_bit 9 (n + 511)"

definition sys_read :: "hardware \<Rightarrow> 'a fs_state_scheme \<Rightarrow> 'a fs_state_scheme option" where
  "sys_read hw s = do {
     let n = svc s 2;
     let p = svc s 1;
     (res, s) \<leftarrow> read_datablock hw (running_pid s) (svc s 0) 0 (n_blocks_of n) s;
     if res = 0 then Some (set_svc 0 (-1) s)
     else do {
       let s = fold (\<lambda>i s. poke (p + of_nat i) (mem s (res + of_nat i)) s) [0 ..< nat (sint n)] s;
       Some (set_svc 1 res (set_svc 0 0 s))
     }
   }"

definition sys_write :: "hardware \<Rightarrow> 'a fs_state_scheme \<Rightarrow> 'a fs_state_scheme option" where
  "sys_write hw s = to_r0 (append_file hw (running_pid s) (svc s 0) (svc s 1) (n_blocks_of (svc s 2)) s)"

definition sys_create :: "'a fs_state_scheme \<Rightarrow> 'a fs_state_scheme option" where
  "sys_create s = to_r0 (create_file_from_name (svc s 0) (svc s 1) s)"

definition sys_delete :: "'a fs_state_scheme \<Rightarrow> 'a fs_state_scheme option" where
  "sys_delete s = to_r0 (recycle_file (running_pid s) (svc s 0) s)"

section \<open>Processes\<close>

text \<open>The attributes of a first-level entry and of a page.\<close>

definition PATTERN1 :: u32 where "PATTERN1 = 0x1E1"
definition PATTERN2 :: u32 where "PATTERN2 = 0x422"

definition sys_fork :: "'a sched_state_scheme \<Rightarrow> 'a sched_state_scheme option" where
  "sys_fork s = do {
     (c_pcb, s) \<leftarrow> new_pcb (say ''hello from fork'' s);
     let cpid = pid_of (mem s) c_pcb;
     let f_pcb = sched_get_running s;
     let s = copy_mem c_pcb f_pcb sizeof_pcb_t s;
     (pt, s) \<leftarrow> slb_alloc_align PTE_L1SIZE PTE_L1ALIGN s;
     let s = wr (c_pcb + 24) pt s;
     let s = zero_mem (page_table_of (mem s) c_pcb) PTE_L1SIZE s;
     s \<leftarrow> copy_mem_img (page_table_of (mem s) f_pcb) (page_table_of (mem s) c_pcb) 0 0xFFFFFFFF PATTERN1 PATTERN2 s;
     let s = say (tab @ ''cp.'') s;
     let s = wr c_pcb cpid s;
     let s = wr (c_pcb + 4) (pid_of (mem s) (sched_get_running s)) s;
     s \<leftarrow> sched_mature c_pcb s;
     let s = set_svc 0 (pid_of (mem s) c_pcb) s;
     let s = wr (cpu_of f_pcb) (pid_of (mem s) c_pcb) s;
     let s = wr (cpu_of c_pcb) 0 s;
     let s = say (tab @ ''cp.'') s;
     let s = print_pcb f_pcb (say (tab @ ''father'') s);
     Some (print_pcb c_pcb (say (tab @ ''child'') s))
   }"


text \<open>One round of the loop of \<open>_exec\<close> over the program headers, with the offset of the header
  it reads. The block offset goes through a byte. The offset of the header advances only behind
  a segment that is loaded.\<close>

definition exec_segment ::
    "hardware \<Rightarrow> u32 \<Rightarrow> u32 \<Rightarrow> u32 \<Rightarrow> u32 \<Rightarrow> nat \<Rightarrow> u32 \<times> 'a sched_state_scheme \<Rightarrow> (u32 \<times> 'a sched_state_scheme) option" where
  "exec_segment hw pt buffer start_block phentsize i = (\<lambda>(phoff, s). do {
     (_, s) \<leftarrow> sd_dma_spin_read hw (V2P buffer) 2 (start_block + phoff div BLOCK_SIZE) s;
     let p_header = (\<lambda>k. rd s (buffer + phoff mod BLOCK_SIZE + 4 * k));
     if p_header 0 \<noteq> PT_LOAD then Some (phoff, say ''type for program header not match!'' s)
     else do {
       let phe_offset = p_header 1;
       let phe_vaddr = p_header 2;
       let phe_memsz = p_header 5;
       let ofs = (ucast (phe_offset mod BLOCK_SIZE) :: u8);
       let start_id = phe_offset div BLOCK_SIZE;
       let end_id = (phe_offset + phe_memsz - 1) div BLOCK_SIZE + 1;
       s \<leftarrow> mmap pt (push_bit 12 (drop_bit 12 phe_vaddr)) (phe_vaddr + (end_id - start_id) * BLOCK_SIZE) PATTERN1 PATTERN2 s;
       (_, s) \<leftarrow> sd_dma_spin_load hw (phe_vaddr - ucast ofs) (ucast (end_id - start_id)) (start_id + start_block) pt s;
       Some (phoff + phentsize, s)
     }
   })"

definition sys_exec :: "hardware \<Rightarrow> 'a sched_state_scheme \<Rightarrow> 'a sched_state_scheme option" where
  "sys_exec hw s = do {
     let start_block = svc s 0;
     let task = sched_get_running s;
     let lpsr = cpu_reg (mem s) (cpu_of task) CPSR;
     s \<leftarrow> unmmap (page_table_of (mem s) task) 0 KERNEL_BASE s;
     (buffer, s) \<leftarrow> slb_alloc_align (BLOCK_SIZE * 5) BLOCK_SIZE s;
     (_, s) \<leftarrow> sd_dma_spin_read hw (V2P buffer) 3 start_block s;
     let s = (if mem s (buffer + 1) \<noteq> 0x45 \<or> mem s (buffer + 2) \<noteq> 0x4C \<or> mem s (buffer + 3) \<noteq> 0x46
              then say ''what?'' s else s);
     let entry = rd s (buffer + 0x18);
     let phoff = rd s (buffer + 0x1C);
     let phentsize = ucast (ld16 (mem s) (buffer + 0x2A));
     let phnum = unat (ld16 (mem s) (buffer + 0x2C));
     (_, s) \<leftarrow> loop (exec_segment hw (page_table_of (mem s) task) buffer start_block phentsize) [0 ..< phnum] (phoff, s);
     (_, s) \<leftarrow> slb_free_align buffer (BLOCK_SIZE * 5) BLOCK_SIZE s;
     s \<leftarrow> mmap (page_table_of (mem s) task) (KERNEL_BASE - USER_STACK) KERNEL_BASE PATTERN1 PATTERN2 s;
     let cpu = cpu_of task;
     let s = wr cpu entry (zero_mem cpu sizeof_context_cpu_t s);
     let lpsr = lpsr AND 0x0FFFFFE0 OR 0x10;
     let s = wr (cpu + 4 * (CPSR + 1)) lpsr (wr (cpu + 4 * CPSR) lpsr s);
     let s = wr (cpu + 4 * LR) USER_ENTRY (wr (cpu + 4 * PC) USER_ENTRY s);
     let s = copy_mem (contexts s Ctx_svc) cpu sizeof_context_cpu_t s;
     let s = print_pcb task (context_switch task task (contexts s Ctx_svc) s);
     let s = uart_spin_printf (''%x'' @ crlf) [VWord (rd s (entry + 0))] s;
     let s = uart_spin_printf (''%x'' @ crlf) [VWord (rd s (entry + 4))] s;
     let s = uart_spin_printf (''%x'' @ crlf) [VWord (rd s (entry + 8))] s;
     Some (say ''------cp final------'' s)
   }"

text \<open>\<open>_wait\<close> looks for a terminated child, and blocks and looks again when there is none,
  without giving the processor away.\<close>

partial_function (option) sys_wait_loop :: "u32 \<Rightarrow> 'a sched_state_scheme \<Rightarrow> 'a sched_state_scheme option" where
  [code]: "sys_wait_loop pcb s = do {
     c_pcb \<leftarrow> sched_get_zombie_child (pid_of (mem s) pcb) s;
     if c_pcb \<noteq> 0 then do {
       s \<leftarrow> sched_free c_pcb s;
       Some (set_svc 0 (ppid_of (mem s) c_pcb) s)
     }
     else do {
       s \<leftarrow> sched_block pcb s;
       sys_wait_loop pcb s
     }
   }"

definition sys_wait :: "'a sched_state_scheme \<Rightarrow> 'a sched_state_scheme option" where
  "sys_wait s = sys_wait_loop (sched_get_running s) s"

definition sys_exit :: "'a sched_state_scheme \<Rightarrow> 'a sched_state_scheme option" where
  "sys_exit s = do {
     let pcb = sched_get_running s;
     s \<leftarrow> sched_finish pcb s;
     f_pcb \<leftarrow> sched_get_bypid (ppid_of (mem s) pcb) s;
     _ \<leftarrow> deref f_pcb;
     if status_of (mem s) f_pcb = WAIT then sched_wake f_pcb s else Some s
   }"

definition sys_getpid :: "'a sched_state_scheme \<Rightarrow> 'a sched_state_scheme" where
  "sys_getpid s = set_svc 0 (pid_of (mem s) (sched_get_running s)) s"

definition sys_getppid :: "'a sched_state_scheme \<Rightarrow> 'a sched_state_scheme" where
  "sys_getppid s = set_svc 0 (ppid_of (mem s) (sched_get_running s)) s"

section \<open>Dispatch\<close>

definition svc_print :: "'a machine_scheme \<Rightarrow> 'a machine_scheme" where
  "svc_print s = uart_spin_printf ''Are you ok?'' [] s"

definition syscall :: "hardware \<Rightarrow> u32 \<Rightarrow> 'a fs_state_scheme \<Rightarrow> 'a fs_state_scheme option" where
  "syscall hw svc_id s = (
     let s = uart_spin_printf (''From syscall(), '' @ crlf @ ''  SVC id:'' @ tab @ ''%d.'' @ crlf) [VWord svc_id] s
     in if svc_id = ID_DEBUG then Some (svc_print s)
        else if svc_id = ID_FORK then sys_fork s
        else if svc_id = ID_EXEC then sys_exec hw s
        else if svc_id = ID_KILL then Some s
        else if svc_id = ID_WAIT then sys_wait s
        else if svc_id = ID_GETPID then Some (sys_getpid s)
        else if svc_id = ID_GETPPID then Some (sys_getppid s)
        else if svc_id = ID_EXIT then sys_exit s
        else if svc_id = ID_OPEN then sys_open s
        else if svc_id = ID_CLOSE then sys_close s
        else if svc_id = ID_READ then sys_read hw s
        else if svc_id = ID_WRITE then sys_write hw s
        else if svc_id = ID_SEEK then Some s
        else if svc_id = ID_CREATE then sys_create s
        else if svc_id = ID_DELETE then sys_delete s
        else if svc_id = ID_SLEEP then Some s
        else if svc_id = ID_TIME then Some s
        else if svc_id = ID_CLOCK then Some s
        else if svc_id = ID_GETS then sys_gets hw s
        else if svc_id = ID_PUTS then sys_puts s
        else Some s)"

end
