(* ===== verification/Interrupt.thy ===== *)
theory Interrupt
  imports Syscall
begin

text \<open>
  The interrupt entries (\<open>kern/arch/armv7a-le/zynq7000/interrupt.c\<close>). The assembly stub has
  stored \<open>r0\<close> to \<open>r12\<close> and the program counter in the context block of the mode and passes the
  stack pointer and the link register; \<open>spsr\<close> is the saved status register. An entry stores
  these three, copies the block to the running process, and gives back the values the stub
  restores. An entry that ends in an endless loop is \<open>None\<close>.
\<close>

record trap =
  t_sp :: u32
  t_lr :: u32
  t_spsr :: u32
  t_regs :: "nat \<Rightarrow> u32"

text \<open>What the stub restores: the status register, the link register and the stack pointer.\<close>

record resume =
  r_spsr :: u32
  r_lr :: u32
  r_sp :: u32

definition SPSR :: u32 where "SPSR = 15"

definition ctx :: "'a sched_state_scheme \<Rightarrow> context_id \<Rightarrow> u32 \<Rightarrow> u32" where
  "ctx s c k = cpu_reg (mem s) (contexts s c) k"

definition set_ctx :: "context_id \<Rightarrow> u32 \<Rightarrow> u32 \<Rightarrow> 'a sched_state_scheme \<Rightarrow> 'a sched_state_scheme" where
  "set_ctx c k v s = wr (contexts s c + 4 * k) v s"

text \<open>What every entry does first.\<close>

definition save_trap :: "context_id \<Rightarrow> trap \<Rightarrow> 'a sched_state_scheme \<Rightarrow> 'a sched_state_scheme" where
  "save_trap c t s = set_ctx c SPSR (t_spsr t) (set_ctx c LR (t_lr t) (set_ctx c SP (t_sp t) s))"

definition save_to_pcb :: "context_id \<Rightarrow> 'a sched_state_scheme \<Rightarrow> 'a sched_state_scheme" where
  "save_to_pcb c s = copy_mem (cpu_of (sched_get_running s)) (contexts s c) sizeof_context_cpu_t s"

definition print_ctx :: "context_id \<Rightarrow> 'a sched_state_scheme \<Rightarrow> 'a sched_state_scheme" where
  "print_ctx c s = fold (\<lambda>k s. puthex (ctx s c k) s) [SP, LR, PC, CPSR, SPSR] s"

definition resume_of :: "context_id \<Rightarrow> 'a sched_state_scheme \<Rightarrow> resume" where
  "resume_of c s = \<lparr>r_spsr = ctx s c SPSR, r_lr = ctx s c LR, r_sp = ctx s c SP\<rparr>"

text \<open>\<open>print_cpu\<close> prints \<open>cpsr\<close>, \<open>spsr\<close>, the stack pointer and three registers as they are at
  that point: \<open>t_regs\<close> 0 to 5.\<close>

definition print_cpu :: "trap \<Rightarrow> 'a machine_scheme \<Rightarrow> 'a machine_scheme" where
  "print_cpu t s =
     (let p = (\<lambda>label k. uart_spin_printf (label @ tab @ ''%x'' @ crlf) [VWord (t_regs t k)])
      in p ''r2:'' 5 (p ''r1:'' 4 (p ''r0:'' 3 (p ''sp:'' 2 (p ''spsr:'' 1 (p (''cpu'' @ crlf @ ''cpsr:'') 0 s))))))"

section \<open>The entries\<close>

text \<open>The undefined instruction, prefetch abort and data abort entries print and stop.\<close>

definition int_ent_ndef :: "trap \<Rightarrow> 'a sched_state_scheme \<Rightarrow> 'a sched_state_scheme" where
  "int_ent_ndef t s =
     (let s = save_to_pcb Ctx_ndef (save_trap Ctx_ndef t s)
      in print_ctx Ctx_ndef (uart_spin_puts (''Undefined instruction exception.'' @ crlf) s))"

definition int_ent_prefetch_abort :: "trap \<Rightarrow> 'a sched_state_scheme \<Rightarrow> 'a sched_state_scheme" where
  "int_ent_prefetch_abort t s =
     (let s = save_to_pcb Ctx_abort (save_trap Ctx_abort t s)
      in print_ctx Ctx_abort (uart_spin_puts (''It works!, now in prefetch abort'' @ crlf) s))"

definition int_ent_data_abort :: "trap \<Rightarrow> 'a sched_state_scheme \<Rightarrow> 'a sched_state_scheme" where
  "int_ent_data_abort t s =
     (let s = save_trap Ctx_abort t s;
          s = save_to_pcb Ctx_abort (set_ctx Ctx_abort PC (ctx s Ctx_abort PC - 4) s);
          s = print_cpu t (uart_spin_puts (''It works!, now in data abort'' @ crlf) s)
      in uart_spin_puts (''system down'' @ crlf) (print_ctx Ctx_abort s))"

text \<open>A system call: its number is in the low 24 bits of the instruction before the saved
  program counter.\<close>

definition int_ent_svc :: "hardware \<Rightarrow> trap \<Rightarrow> 'a fs_state_scheme \<Rightarrow> (resume \<times> 'a fs_state_scheme) option" where
  "int_ent_svc hw t s = (
     let s = save_trap Ctx_svc t s;
         s = uart_spin_printf (''%x'' @ crlf) [VWord (t_regs t 2)] s;
         s = save_to_pcb Ctx_svc s;
         s = print_cpu t (uart_spin_puts (''It works!, now in svc'' @ crlf) s);
         s = uart_spin_printf (''%x'' @ crlf) [VWord (ctx s Ctx_svc PC - 4)] s;
         svc_id = rd s (ctx s Ctx_svc PC - 4) AND 0x00FFFFFF
     in do {
       s \<leftarrow> syscall hw svc_id s;
       let s = uart_spin_puts (''bye'' @ crlf) (print_ctx Ctx_svc s);
       Some (resume_of Ctx_svc s, s)
     })"

text \<open>An interrupt is acknowledged by reading its number and ended by writing it back. Number
  29 is the private timer: it switches processes.\<close>

definition int_ent_irq :: "hardware \<Rightarrow> trap \<Rightarrow> 'a irq_state_scheme \<Rightarrow> (resume \<times> 'a irq_state_scheme) option" where
  "int_ent_irq hw t s = (
     let s = save_trap Ctx_irq t s;
         (irq_id, s) = in32 hw (PERIPHBASE s + ICCIAR_OFFSET) s;
         s = save_to_pcb Ctx_irq s;
         s = print_cpu t (puthex irq_id (uart_spin_puts (''It works!, now in irq'' @ crlf) s));
         s = print_ctx Ctx_irq (set_ctx Ctx_irq PC (ctx s Ctx_irq PC - 4) s)
     in do {
       s \<leftarrow> (if irq_id = 29 then sched_main s else Some s);
       let s = uart_spin_puts (''bye irq'' @ crlf) (print_ctx Ctx_irq s);
       let s = out32 (PERIPHBASE s + ICCEOIR_OFFSET) irq_id s;
       Some (resume_of Ctx_irq s, s)
     })"

definition int_ent_fiq :: "trap \<Rightarrow> 'a sched_state_scheme \<Rightarrow> resume \<times> 'a sched_state_scheme" where
  "int_ent_fiq t s =
     (let s = save_to_pcb Ctx_fiq (save_trap Ctx_fiq t s);
          s = uart_spin_puts (''It works!, now in fiq'' @ crlf) s
      in (resume_of Ctx_fiq s, s))"

text \<open>What follows an entry of the processor for each cause: it resumes, or the system stops.\<close>

datatype cause = Undefined_instruction | Supervisor_call | Prefetch_abort | Data_abort | Irq | Fiq

definition enter :: "hardware \<Rightarrow> cause \<Rightarrow> trap \<Rightarrow> 'a irq_state_scheme \<Rightarrow> (resume \<times> 'a irq_state_scheme) option" where
  "enter hw c t s =
     (case c of
        Supervisor_call \<Rightarrow> int_ent_svc hw t s
      | Irq \<Rightarrow> int_ent_irq hw t s
      | Fiq \<Rightarrow> Some (int_ent_fiq t s)
      | _ \<Rightarrow> None)"

end
