(* ===== verification/Init.thy ===== *)
theory Init
  imports Interrupt
begin

text \<open>
  Starting the kernel: \<open>kinit\<close> (\<open>kern/init/init.c\<close>) and \<open>init_sched\<close>
  (\<open>kern/sched/sched_init.c\<close>).

  The effect of an instruction \<open>SVC n\<close>, with a value in \<open>r0\<close>, on the kernel's state is a
  parameter: the assembly stub that fills the context block and calls \<open>int_ent_svc\<close>. Its result
  is the value of \<open>r0\<close> afterwards.
\<close>

type_synonym 's svc_trap = "nat \<Rightarrow> u32 \<Rightarrow> 's \<Rightarrow> (u32 \<times> 's) option"

section \<open>The first process\<close>

text \<open>The process control block of the running kernel, and a second one nobody uses.\<close>

definition first_pcb :: "'a irq_state_scheme \<Rightarrow> 'a irq_state_scheme option" where
  "first_pcb s = do {
     let s = say ''Init sched.'' (init_pcb s);
     (pcb_now, s) \<leftarrow> new_pcb s;
     let s = wr (pcb_now + 4) (pid_of (mem s) pcb_now) s;
     let s = wr (pcb_now + 20) 0 (set_status pcb_now RUNNING s);
     let s = wr (pcb_now + 24) (KERNEL_BASE + PT_OFFSET) s;
     s \<leftarrow> sched_mature pcb_now s;
     s \<leftarrow> sched_allow pcb_now s;
     (_, s) \<leftarrow> new_pcb s;
     Some s
   }"

definition private_timer :: "'a irq_state_scheme \<Rightarrow> nat \<Rightarrow> u32" where
  "private_timer s k = PERIPHBASE s + 0x0600 + 4 * of_nat k"

definition print_timer :: "hardware \<Rightarrow> 'a irq_state_scheme \<Rightarrow> 'a irq_state_scheme" where
  "print_timer hw s = fold (\<lambda>k s. puthex_reg hw (private_timer s k) s) [0, 1, 2, 3] s"

definition start_timer :: "hardware \<Rightarrow> 'a irq_state_scheme \<Rightarrow> 'a irq_state_scheme" where
  "start_timer hw s =
     (let pcr = private_timer s;
          s = out32 (pcr 1) 0x123400 (out32 (pcr 0) 0x123400 s);
          (v, s) = in32 hw (pcr 2) s
      in out32 (pcr 2) (v AND 0xFFFFFFF8 OR 7) s)"

text \<open>\<open>init_sched\<close> forks; the child prints and returns, the father starts the timer and executes
  the program at block \<open>0x003b9ad4\<close> of the card.\<close>

definition init_sched :: "hardware \<Rightarrow> 'a irq_state_scheme svc_trap \<Rightarrow> 'a irq_state_scheme \<Rightarrow> (u32 \<times> 'a irq_state_scheme) option" where
  "init_sched hw do_svc s = do {
     s \<leftarrow> first_pcb s;
     (cid, s) \<leftarrow> do_svc 1 0 (say ''------DEBUG------'' s);
     let s = say ''<><><><><>cp<><><><><><>'' s;
     if cid = 0 then do {
       let s = say ''~~~~~~'' (puthex (rd s 0xFFFF0000) s);
       Some (0, print_timer hw s)
     }
     else do {
       let s = puthex (rd s 0xFFFF0000) s;
       let s = uart_spin_printf (''fork succeed, cid= %d'' @ crlf) [VWord cid] s;
       let s = print_timer hw (say ''I am your father.'' s);
       (_, s) \<leftarrow> do_svc 2 0x003b9ad4 (start_timer hw s);
       Some (0, s)
     }
   }"

section \<open>\<open>kinit\<close>\<close>

definition report :: "string \<Rightarrow> u32 \<times> 'a machine_scheme \<Rightarrow> 'a machine_scheme" where
  "report msg = (\<lambda>(r, s). if r = 0 then uart_spin_puts (msg @ crlf) s else s)"

text \<open>Memory, the interrupt controller and the file system.\<close>

definition kinit_memory :: "hardware \<Rightarrow> 'a irq_state_scheme \<Rightarrow> 'a irq_state_scheme option" where
  "kinit_memory hw s = do {
     s \<leftarrow> map_option (report ''pages manage done.'') (init_pspace s);
     s \<leftarrow> map_option (report ''slb manage done.'') (slb_init s);
     s \<leftarrow> map_option (report ''int done.'') (interrupt_init hw s);
     load_fs hw s
   }"

text \<open>The state in which \<open>kinit\<close> enters its final endless loop. \<open>cbar\<close> and \<open>r11\<close> are processor
  registers.\<close>

definition kinit :: "hardware \<Rightarrow> u32 \<Rightarrow> u32 \<Rightarrow> 'a irq_state_scheme svc_trap \<Rightarrow> 'a irq_state_scheme \<Rightarrow> 'a irq_state_scheme option" where
  "kinit hw cbar r11 do_svc s = do {
     s \<leftarrow> sleep hw 1 s;
     s \<leftarrow> sd_init hw (uart_enable (uart_init s));
     (_, s) \<leftarrow> sd_spin_init_mem_card hw s;
     let s = uart_spin_puts (''GE'' @ crlf) s;
     let s = report ''MMU done.'' (mmu_high_main s);
     let s = report ''L1 cache done.'' (l1cache_init r11 s);
     let s = report ''SCU done.'' (scu_init hw cbar s);
     s \<leftarrow> kinit_memory hw s;
     s \<leftarrow> map_option (report ''sched done.'') (init_sched hw do_svc s);
     Some (uart_spin_puts (''------Live to tell the story------'' @ crlf) s)
   }"

end
