(* ===== verification/Irq_Correct.thy ===== *)
theory Irq_Correct
  imports Interrupt Sched_Props
begin

text \<open>
  The interrupt entry and the scheduler together: what happens between the assembly stub that
  has saved the registers of the running process and the one that restores those of the next.
\<close>

section \<open>The context block\<close>

lemma cpu_reg_st32:
  assumes "unat j < 18" and "unat k < 18"
  shows "cpu_reg (st32 m (c + 4 * j) v) c k = (if k = j then v else cpu_reg m c k)"
proof (cases "k = j")
  case False
  have u: "unat (4 * k) = 4 * unat k" "unat (4 * j) = 4 * unat j" using assms by (simp_all add: unat_word_ariths)
  have "unat k \<noteq> unat j" using False by (simp add: word_unat_eq_iff)
  then have "4 \<le> unat (4 * j - 4 * k)" "4 \<le> unat (4 * k - 4 * j)" using u assms unfolding u32_diff by auto
  then have "ld32 (st32 m (c + 4 * j) v) (c + 4 * k) = ld32 m (c + 4 * k)" by (intro ld32_st32_far) simp_all
  then show ?thesis using False by (simp add: cpu_reg_def)
qed (simp add: cpu_reg_def)

lemma cpu_reg_span: "unat k < 18 \<Longrightarrow> span (c + 4 * k) 4 \<subseteq> span c 72"
  by (rule span_offset_subset) (simp add: unat_word_ariths)

text \<open>The registers in the block after the entry has added the stack pointer, the link register
  and the status register, and moved the program counter back by one instruction.\<close>

definition interrupted :: "trap \<Rightarrow> memory \<Rightarrow> u32 \<Rightarrow> u32 \<Rightarrow> u32" where
  "interrupted t m c k = (if k = SP then t_sp t else if k = LR then t_lr t else if k = SPSR then t_spsr t
     else if k = PC then cpu_reg m c PC - 4 else cpu_reg m c k)"

lemma con_only_irq: "con_only s (s' :: 'a irq_state_scheme) \<Longrightarrow> PERIPHBASE s' = PERIPHBASE s"
  by (auto simp: con_only_def)

lemma qt_only_irq: "qt_only s (s' :: 'a irq_state_scheme) \<Longrightarrow> PERIPHBASE s' = PERIPHBASE s"
proof -
  let ?z = "\<lambda>s :: 'a irq_state_scheme. s\<lparr>mem := \<lambda>_. 0, con := [], farea_head := 0, slb_head := 0, q_head := \<lambda>_. 0, q_tail := \<lambda>_. 0, io := [], ttbr0 := 0\<rparr>"
  assume "qt_only s s'"
  then have "PERIPHBASE (?z s') = PERIPHBASE (?z s)" by (simp only: qt_only_def)
  then show ?thesis by simp
qed

lemma con_only_print_ctx [intro]: "con_only s s' \<Longrightarrow> con_only s (print_ctx c s')"
  by (simp add: print_ctx_def con_only_step(3))

lemma con_only_print_cpu [intro]: "con_only s s' \<Longrightarrow> con_only s (print_cpu t s')"
  unfolding print_cpu_def Let_def by (intro con_only_step)

section \<open>Before the scheduler\<close>

text \<open>The part of \<open>int_ent_irq\<close> before it looks at the number.\<close>

definition irq_head :: "hardware \<Rightarrow> trap \<Rightarrow> 'a irq_state_scheme \<Rightarrow> u32 \<times> 'a irq_state_scheme" where
  "irq_head hw t s = (
     let s = save_trap Ctx_irq t s;
         (irq_id, s) = in32 hw (PERIPHBASE s + ICCIAR_OFFSET) s;
         s = save_to_pcb Ctx_irq s;
         s = print_cpu t (puthex irq_id (uart_spin_puts (''It works!, now in irq'' @ crlf) s))
     in (irq_id, print_ctx Ctx_irq (set_ctx Ctx_irq PC (ctx s Ctx_irq PC - 4) s)))"

lemma int_ent_irq_head:
  "int_ent_irq hw t s = (case irq_head hw t s of (irq_id, s) \<Rightarrow> do {
     s \<leftarrow> (if irq_id = 29 then sched_main s else Some s);
     let s = uart_spin_puts (''bye irq'' @ crlf) (print_ctx Ctx_irq s);
     let s = out32 (PERIPHBASE s + ICCEOIR_OFFSET) irq_id s;
     Some (resume_of Ctx_irq s, s)
   })"
  unfolding int_ent_irq_def irq_head_def Let_def by (simp add: case_prod_beta)

lemma irq_head_ok:
  fixes s :: "'a irq_state_scheme"
  assumes ok: "sched_ok s xs cs P blks" and run: "P Q_running = now # rest" and irq: "contexts s Ctx_irq = irq"
    and irq_blk: "(irq, sizeof_context_cpu_t) \<in> set blks"
    and ack: "\<And>e m. hw_dma hw (io s @ [e]) m = m"
  shows "\<exists>s'. irq_head hw t s = (hw_read hw (io s) (PERIPHBASE s + ICCIAR_OFFSET), s') \<and> sched_ok s' xs cs P blks
    \<and> contexts s' = contexts s \<and> PERIPHBASE s' = PERIPHBASE s
    \<and> (\<forall>k. unat k < 18 \<longrightarrow> cpu_reg (mem s') irq k = interrupted t (mem s) irq k)
    \<and> same_outside (span irq 72 \<union> span (cpu_of now) 72) (mem s) (mem s')"
proof -
  note sz = sizeof_context_cpu_t_def sizeof_pcb_t_def
  let ?A = "span irq 72 \<union> span (cpu_of now) 72"
  have bd: "blocks_disj blks" and now_blk: "(now, sizeof_pcb_t) \<in> set blks"
    using sched_ok_blocks(1) [OF ok] sched_ok_blocks(2) [OF ok, of now Q_running] run by auto
  have cpu: "span (cpu_of u) 72 \<subseteq> span u (unat sizeof_pcb_t)" for u
    unfolding cpu_of_def by (rule span_offset_subset) (simp add: sz)
  have out: "span irq 72 \<inter> span u (unat sizeof_pcb_t) = {}" if "(u, sizeof_pcb_t) \<in> set blks" for u
    using blocks_disj_pair [OF bd irq_blk that] by (simp add: sz)
  then have disj: "span irq 72 \<inter> span (cpu_of now) 72 = {}" using now_blk cpu by blast
  have A: "?A \<subseteq> foot blks" using area_in_foot [OF now_blk] area_in_foot [OF irq_blk] cpu by (auto simp: sz)
  have st: "?A \<inter> span (u + 16) 4 = {}" if "u \<in> set (P q)" for u q
    using pcb_field_status [OF bd sched_ok_blocks(2) [OF ok that] now_blk, of 28 72] out [OF sched_ok_blocks(2) [OF ok that]]
      status_field [of u] by (auto simp: cpu_of_def)
  define s1 where "s1 = save_trap Ctx_irq t s"
  have m1: "mem s1 = st32 (st32 (st32 (mem s) (irq + 4 * SP) (t_sp t)) (irq + 4 * LR) (t_lr t)) (irq + 4 * SPSR) (t_spsr t)"
    by (simp add: s1_def save_trap_def set_ctx_def irq wr_def)
  have f1: "contexts s1 = contexts s" "PERIPHBASE s1 = PERIPHBASE s" "io s1 = io s" "farea_head s1 = farea_head s"
    "slb_head s1 = slb_head s" "q_head s1 = q_head s" "q_tail s1 = q_tail s"
    by (simp_all add: s1_def save_trap_def set_ctx_def wr_def)
  have u18: "unat SP < 18" "unat LR < 18" "unat SPSR < 18" "unat PC < 18" by (simp_all add: SP_def LR_def SPSR_def PC_def)
  have so1: "same_outside (span irq 72) (mem s) (mem s1)"
    unfolding m1 using u18 by (intro same_outside_st32_trans same_outside_refl cpu_reg_span)
  define s2 where "s2 = bus_read hw (In32 (PERIPHBASE s + ICCIAR_OFFSET) (hw_read hw (io s) (PERIPHBASE s + ICCIAR_OFFSET))) s1"
  have s2: "s2 = s1\<lparr>io := io s1 @ [In32 (PERIPHBASE s + ICCIAR_OFFSET) (hw_read hw (io s) (PERIPHBASE s + ICCIAR_OFFSET))]\<rparr>"
    using ack by (simp add: s2_def bus_read_def Let_def f1)
  have "el_pcb (mem s) (q_head s Q_running) = now" using sched_ok_blocks(3) [OF ok, of Q_running] run by simp
  moreover have ok1: "sched_ok s1 xs cs P blks"
    by (rule sched_ok_client [OF ok so1]) (use A st f1 in blast)+
  then have "el_pcb (mem s1) (q_head s1 Q_running) = now" using sched_ok_blocks(3) [OF ok1, of Q_running] run by simp
  ultimately have cur: "sched_get_running s2 = now" by (simp add: sched_get_running_def s2)
  have "mem s2 = mem s1" "contexts s2 = contexts s" by (simp_all add: s2 f1)
  moreover define s3 where "s3 = save_to_pcb Ctx_irq s2"
  ultimately have s3: "s3 = s2\<lparr>mem := copied (cpu_of now) irq 72 (mem s1)\<rparr>"
    using memcpy_disj [of "cpu_of now" sizeof_context_cpu_t irq "mem s1"] disj
    by (simp add: s3_def save_to_pcb_def copy_mem_def cur irq sz Int_commute)
  define s4 where "s4 = print_cpu t (puthex (hw_read hw (io s) (PERIPHBASE s + ICCIAR_OFFSET)) (uart_spin_puts (''It works!, now in irq'' @ crlf) s3))"
  have con4: "con_only s3 s4" unfolding s4_def by (intro con_only_print_cpu con_only_step con_only_refl)
  define s5 where "s5 = set_ctx Ctx_irq PC (ctx s4 Ctx_irq PC - 4) s4"
  define s6 where "s6 = print_ctx Ctx_irq s5"
  have con6: "con_only s5 s6" unfolding s6_def by (intro con_only_print_ctx con_only_refl)
  have c4: "contexts s4 = contexts s" using con_only_fields(1) [OF con4] f1 by (simp add: s3 s2)
  have head: "irq_head hw t s = (hw_read hw (io s) (PERIPHBASE s + ICCIAR_OFFSET), s6)"
    unfolding irq_head_def Let_def in32_def prod.case s1_def [symmetric] f1 s2_def [symmetric] s3_def [symmetric]
      s4_def [symmetric] s5_def [symmetric] s6_def ..
  let ?m3 = "copied (cpu_of now) irq 72 (mem s1)"
  have m6: "mem s6 = st32 ?m3 (irq + 4 * PC) (cpu_reg ?m3 irq PC - 4)"
    using con_only_mem [OF con6] con_only_mem [OF con4] c4 by (simp add: s5_def set_ctx_def ctx_def irq s3)
  have so3: "same_outside (span (cpu_of now) 72) (mem s1) ?m3" by (rule copied_same_outside)
  have "same_outside ?A (mem s) ?m3" using same_outside_mono [OF so1] same_outside_mono [OF so3] same_outside_trans by blast
  then have so6: "same_outside ?A (mem s) (mem s6)"
    unfolding m6 using cpu_reg_span [OF u18(4), of irq] by (intro same_outside_st32_trans) auto
  have r3: "cpu_reg ?m3 irq k = cpu_reg (mem s1) irq k" if "unat k < 18" for k
    using cpu_reg_frame [OF that so3, of irq] disj by (simp add: sz Int_commute)
  have r1: "cpu_reg (mem s1) irq k = (if k = SPSR then t_spsr t else if k = LR then t_lr t else if k = SP then t_sp t
      else cpu_reg (mem s) irq k)" if "unat k < 18" for k
    unfolding m1 cpu_reg_st32 [OF u18(3) that] cpu_reg_st32 [OF u18(2) that] cpu_reg_st32 [OF u18(1) that] ..
  have "cpu_reg (mem s6) irq k = interrupted t (mem s) irq k" if k: "unat k < 18" for k
    unfolding m6 cpu_reg_st32 [OF u18(4) k] r3 [OF k] r3 [OF u18(4)] r1 [OF k] r1 [OF u18(4)] interrupted_def
    by (simp add: SP_def LR_def SPSR_def PC_def)
  moreover have f6: "farea_head s6 = farea_head s" "slb_head s6 = slb_head s" "q_head s6 = q_head s" "q_tail s6 = q_tail s"
    using con_only_record [OF con6] con_only_record [OF con4] f1 by (simp_all add: s5_def set_ctx_def wr_def s3 s2)
  have "sched_ok s6 xs cs P blks" by (rule sched_ok_client [OF ok so6 A st f6])
  moreover have "contexts s6 = contexts s" "PERIPHBASE s6 = PERIPHBASE s"
    using con_only_fields(1) [OF con6] c4 con_only_irq [OF con6] con_only_irq [OF con4] f1
    by (simp_all add: s5_def set_ctx_def wr_def s3 s2)
  ultimately show ?thesis using head so6 by blast
qed

section \<open>The whole entry\<close>

lemma irq_tail:
  fixes s :: "'a irq_state_scheme"
  defines "s1 \<equiv> uart_spin_puts (''bye irq'' @ crlf) (print_ctx Ctx_irq s)"
  shows "PERIPHBASE s1 = PERIPHBASE s" and "con_only s (out32 a v s1)" and "last (io (out32 a v s1)) = Out32 a v"
    and "resume_of Ctx_irq (out32 a v s1) = \<lparr>r_spsr = cpu_reg (mem s) (contexts s Ctx_irq) SPSR,
      r_lr = cpu_reg (mem s) (contexts s Ctx_irq) LR, r_sp = cpu_reg (mem s) (contexts s Ctx_irq) SP\<rparr>"
proof -
  have "con_only s s1" unfolding s1_def by (intro con_only_step con_only_print_ctx con_only_refl)
  then show "PERIPHBASE s1 = PERIPHBASE s" by (rule con_only_irq)
  note \<open>con_only s s1\<close>
  moreover have "con_only s1 (out32 a v s1)" by (auto simp: out32_def)
  ultimately show con: "con_only s (out32 a v s1)" by (rule con_only_trans)
  show "last (io (out32 a v s1)) = Out32 a v" by (simp add: out32_def)
  show "resume_of Ctx_irq (out32 a v s1) = \<lparr>r_spsr = cpu_reg (mem s) (contexts s Ctx_irq) SPSR,
      r_lr = cpu_reg (mem s) (contexts s Ctx_irq) LR, r_sp = cpu_reg (mem s) (contexts s Ctx_irq) SP\<rparr>"
    using con_only_mem [OF con] con_only_fields(1) [OF con] by (simp add: resume_of_def ctx_def)
qed

text \<open>What an interrupt does: acknowledged and ended with its number; the timer makes the next
  process of the ready queue run, any other number goes on with the interrupted one.\<close>

definition irq_serves ::
    "hardware \<Rightarrow> trap \<Rightarrow> 'a irq_state_scheme \<Rightarrow> procs \<Rightarrow> area list \<Rightarrow> u32 \<Rightarrow> resume \<Rightarrow> 'a irq_state_scheme \<Rightarrow> bool" where
  "irq_serves hw t s P blks irq r s' \<longleftrightarrow> (let irq_id = hw_read hw (io s) (PERIPHBASE s + ICCIAR_OFFSET);
       now = hd (P Q_running); next = next_up P;
       regs = (\<lambda>k. if irq_id = 29 \<and> next \<noteq> now then cpu_reg (mem s) (cpu_of next) k else interrupted t (mem s) irq k)
     in (\<exists>xs' cs'. sched_ok s' xs' cs' (if irq_id = 29 then tick P else P) blks)
       \<and> (irq_id = 29 \<longrightarrow> (\<forall>k. unat k < 18 \<longrightarrow> cpu_reg (mem s') (cpu_of now) k = interrupted t (mem s) irq k))
       \<and> (\<forall>k. unat k < 18 \<longrightarrow> cpu_reg (mem s') irq k = regs k)
       \<and> r = \<lparr>r_spsr = regs SPSR, r_lr = regs LR, r_sp = regs SP\<rparr>
       \<and> last (io s') = Out32 (PERIPHBASE s + ICCEOIR_OFFSET) irq_id)"

lemma int_ent_irq_ok:
  fixes s :: "'a irq_state_scheme"
  assumes ok: "sched_ok s xs cs P blks" and run: "P Q_running \<noteq> []" and irq: "contexts s Ctx_irq = irq"
    and irq_blk: "(irq, sizeof_context_cpu_t) \<in> set blks" and room: "room xs 16384"
    and ack: "\<And>e m. hw_dma hw (io s @ [e]) m = m"
  shows "\<exists>r s'. int_ent_irq hw t s = Some (r, s') \<and> irq_serves hw t s P blks irq r s'"
proof -
  obtain now rest where now: "P Q_running = now # rest" using run by (cases "P Q_running") auto
  define irq_id where "irq_id = hw_read hw (io s) (PERIPHBASE s + ICCIAR_OFFSET)"
  from irq_head_ok [OF ok now irq irq_blk ack, of t] obtain s1 where
    1: "irq_head hw t s = (irq_id, s1)" "sched_ok s1 xs cs P blks" "contexts s1 = contexts s" "PERIPHBASE s1 = PERIPHBASE s"
      "\<And>k. unat k < 18 \<Longrightarrow> cpu_reg (mem s1) irq k = interrupted t (mem s) irq k"
      "same_outside (span irq 72 \<union> span (cpu_of now) 72) (mem s) (mem s1)"
    unfolding irq_id_def by blast
  have u18: "unat SP < 18" "unat LR < 18" "unat SPSR < 18" by (simp_all add: SP_def LR_def SPSR_def)
  show ?thesis
  proof (cases "irq_id = 29")
    case False
    define s' where "s' = out32 (PERIPHBASE s + ICCEOIR_OFFSET) irq_id (uart_spin_puts (''bye irq'' @ crlf) (print_ctx Ctx_irq s1))"
    note tail = irq_tail(2-4) [where s = s1 and a = "PERIPHBASE s + ICCEOIR_OFFSET" and v = irq_id, folded s'_def]
    have "PERIPHBASE (uart_spin_puts (''bye irq'' @ crlf) (print_ctx Ctx_irq s1)) = PERIPHBASE s"
      using irq_tail(1) [of s1] 1(4) by simp
    then have "int_ent_irq hw t s = Some (resume_of Ctx_irq s', s')"
      using False by (simp add: int_ent_irq_head 1(1) s'_def Let_def)
    moreover have "sched_ok s' xs cs P blks" using 1(2) sched_ok_con [OF tail(1)] by simp
    ultimately show ?thesis using False 1(5) u18 tail(2,3) con_only_mem [OF tail(1)]
      by (auto simp: irq_serves_def Let_def irq_id_def [symmetric] 1(3) irq)
  next
    case True
    from sched_main_ok [OF 1(2) run _ irq_blk room] 1(3) irq obtain s2 where
      2: "sched_main s1 = Some s2" "sched_ticks s1 xs P blks irq s2" by auto
    then have t2: "\<exists>xs' cs'. sched_ok s2 xs' cs' (tick P) blks" "contexts s2 = contexts s1" "qt_only s1 s2"
      "\<And>k. unat k < 18 \<Longrightarrow> cpu_reg (mem s2) (cpu_of now) k = cpu_reg (mem s1) irq k"
      "\<And>k. unat k < 18 \<Longrightarrow> cpu_reg (mem s2) irq k = (if next_up P = now then cpu_reg (mem s1) irq k else cpu_reg (mem s1) (cpu_of (next_up P)) k)"
      by (auto simp: sched_ticks_def Let_def now)
    define s' where "s' = out32 (PERIPHBASE s + ICCEOIR_OFFSET) irq_id (uart_spin_puts (''bye irq'' @ crlf) (print_ctx Ctx_irq s2))"
    note tail = irq_tail(2-4) [where s = s2 and a = "PERIPHBASE s + ICCEOIR_OFFSET" and v = irq_id, folded s'_def]
    have "PERIPHBASE (uart_spin_puts (''bye irq'' @ crlf) (print_ctx Ctx_irq s2)) = PERIPHBASE s"
      using irq_tail(1) [of s2] 1(4) qt_only_irq [OF t2(3)] by simp
    then have run': "int_ent_irq hw t s = Some (resume_of Ctx_irq s', s')"
      using True 2(1) by (simp add: int_ent_irq_head 1(1) s'_def Let_def)
    have other: "cpu_reg (mem s1) (cpu_of (next_up P)) k = cpu_reg (mem s) (cpu_of (next_up P)) k"
      if "unat k < 18" "next_up P \<noteq> now" for k
    proof (rule cpu_reg_frame [OF that(1) 1(6)])
      have bd: "blocks_disj blks" using sched_ok_blocks(1) [OF ok] .
      have cpu: "span (cpu_of u) 72 \<subseteq> span u (unat sizeof_pcb_t)" for u
        unfolding cpu_of_def by (rule span_offset_subset) (simp add: sizeof_pcb_t_def)
      have nb: "(now, sizeof_pcb_t) \<in> set blks" using sched_ok_blocks(2) [OF ok, of now Q_running] by (simp add: now)
      have "next_up P \<in> set (P Q_ready)" using that(2) by (cases "P Q_ready") (auto simp: next_up_def now)
      then have xb: "(next_up P, sizeof_pcb_t) \<in> set blks" using sched_ok_blocks(2) [OF ok] by blast
      have "span now (unat sizeof_pcb_t) \<inter> span (next_up P) (unat sizeof_pcb_t) = {}"
        using blocks_disj_pair [OF bd nb xb] that(2) by simp
      moreover have "span irq 72 \<inter> span (next_up P) (unat sizeof_pcb_t) = {}"
        using blocks_disj_pair [OF bd irq_blk xb] by (simp add: sizeof_context_cpu_t_def sizeof_pcb_t_def)
      ultimately show "(span irq 72 \<union> span (cpu_of now) 72) \<inter> span (cpu_of (next_up P)) (unat sizeof_context_cpu_t) = {}"
        using cpu [of now] cpu [of "next_up P"] by (simp add: sizeof_context_cpu_t_def) blast
    qed
    have m': "mem s' = mem s2" using con_only_mem [OF tail(1)] .
    have regs: "cpu_reg (mem s2) irq k = (if next_up P \<noteq> now then cpu_reg (mem s) (cpu_of (next_up P)) k else interrupted t (mem s) irq k)"
      if "unat k < 18" for k using t2(5) [OF that] 1(5) [OF that] other [OF that] by simp
    obtain xs' cs' where "sched_ok s2 xs' cs' (tick P) blks" using t2(1) by blast
    then have "sched_ok s' xs' cs' (tick P) blks" using sched_ok_con [OF tail(1)] by simp
    then have "irq_serves hw t s P blks irq (resume_of Ctx_irq s') s'"
      using regs u18 t2(4) 1(5) tail(2,3)
      unfolding irq_serves_def Let_def irq_id_def [symmetric] True m' by (auto simp: now t2(2) 1(3) irq)
    then show ?thesis using run' by blast
  qed
qed

section \<open>Results\<close>

text \<open>A booted scheduler as part of the whole kernel's state.\<close>

definition whole :: "sched_state \<Rightarrow> irq_state" where
  "whole s = \<lparr>mem = mem s, con = con s, io = io s, farea_head = farea_head s, slb_head = slb_head s,
     q_head = q_head s, q_tail = q_tail s, cnt_pcb = cnt_pcb s, pcb_list = pcb_list s, ttbr0 = ttbr0 s,
     contexts = contexts s, free_head = 0, db_table = 0, fentry_head = 0, fe_table = 0,
     PERIPHBASE = 0xF8F00000, cpsr = 0, sctlr = 0\<rparr>"

lemma whole_sched_ok: "sched_ok s xs cs P blks \<Longrightarrow> sched_ok (whole s) xs cs P blks"
  by (simp add: sched_ok_def sched_inv_def slb_inv_def pages_inv_def whole_def)

text \<open>
  C7. An interrupt entry reads the number of the interrupt, serves it and writes the number back.
  With number 29, the timer's, the registers of the interrupted process, with the program
  counter one instruction back, are saved in its control block, and the entry returns with
  those of the next ready process, which now runs; the interrupted one is last in the ready
  queue. With any other number the entry returns with the registers it was entered with. The
  queues stay well formed.
\<close>

theorem interrupt_served:
  assumes "sched_ok s xs cs P blks" and "P Q_running \<noteq> []" and "contexts s Ctx_irq = irq"
    and "(irq, sizeof_context_cpu_t) \<in> set blks" and "room xs 16384"
    and "\<And>e m. hw_dma hw (io s @ [e]) m = m"
  shows "\<exists>r s'. int_ent_irq hw t s = Some (r, s') \<and> irq_serves hw t s P blks irq r s'"
  by (rule int_ent_irq_ok [OF assms])

theorem interrupt_served_witness:
  "\<exists>hw t s r s' xs cs. int_ent_irq hw t (s :: irq_state) = Some (r, s')
    \<and> sched_ok s' xs cs ((\<lambda>_. [])(Q_running := [0x2000], Q_ready := [0x1000])) boot_blocks
    \<and> r_sp r = cpu_reg (mem s) (cpu_of 0x2000) SP \<and> last (io s') = Out32 0xF8F00110 29"
proof -
  obtain s :: sched_state and xs cs where s: "sched_ok s xs cs ((\<lambda>_. [])(Q_running := [0x1000], Q_ready := [0x2000])) boot_blocks"
    "room xs 65536" "contexts s = (\<lambda>_. 0x3000)" by (rule boot_running)
  let ?hw = "\<lparr>hw_read = \<lambda>_ _. 29, hw_dma = \<lambda>_ m. m\<rparr>" and ?t = "\<lparr>t_sp = 1, t_lr = 2, t_spsr = 3, t_regs = \<lambda>_. 0\<rparr>"
  let ?P = "(\<lambda>_ :: queue. [])(Q_running := [0x1000 :: u32], Q_ready := [0x2000])"
  have r: "room xs 16384" using s(2) by (force simp: room_def)
  have ctx: "contexts (whole s) Ctx_irq = 0x3000" using s(3) by (simp add: whole_def)
  have blk: "(0x3000, sizeof_context_cpu_t) \<in> set boot_blocks" by (simp add: boot_blocks_def)
  obtain r s' where run: "int_ent_irq ?hw ?t (whole s) = Some (r, s')" "irq_serves ?hw ?t (whole s) ?P boot_blocks 0x3000 r s'"
    using interrupt_served [OF whole_sched_ok [OF s(1)] _ ctx blk r, of ?hw ?t] by auto
  have "tick ?P = (\<lambda>_. [])(Q_running := [0x2000], Q_ready := [0x1000])" "next_up ?P = 0x2000" "hd (?P Q_running) = 0x1000"
    by (auto simp: tick_def next_up_def)
  then have "\<exists>xs cs. sched_ok s' xs cs ((\<lambda>_. [])(Q_running := [0x2000], Q_ready := [0x1000])) boot_blocks"
    "r_sp r = cpu_reg (mem (whole s)) (cpu_of 0x2000) SP" "last (io s') = Out32 0xF8F00110 29"
    using run(2) unfolding irq_serves_def Let_def by (simp_all add: whole_def ICCEOIR_OFFSET_def)
  then show ?thesis using run(1) by blast
qed

end
