(* ===== verification/Sd_Correct.thy ===== *)
theory Sd_Correct
  imports Sd
begin

text \<open>
  What a transfer from the card does. The controller, initialised for blocks of 512 bytes and
  simple DMA, and the card are described by \<open>has_sd\<close>, on the trace of register accesses: a card is
  there, commands complete, and between the command to read several blocks and the
  transfer-complete status it stores the blocks of the card at the address it was given, and
  nothing else. The command words and the transfer modes it understands are those of the SD host
  controller's specification, written out as numbers; of any other command that moves data,
  nothing is promised. \<open>at\<close> says at which address of the machine's memory a physical address is
  found.
\<close>

section \<open>The controller\<close>

text \<open>What the controller has been told: the address, block count, argument and transfer mode,
  whether a read is going on, which completions the driver has not acknowledged, and the writes
  commanded. \<open>j_lost\<close> says that it was given a data command it has no defined answer to.

  A command word has its index in bits 13 to 8, bit 5 for data, bits 4 and 3 for the checks of
  index and checksum, and 2 in bits 1 and 0 for a response of 48 bits: \<open>0x123A\<close> is CMD18, read
  multiple blocks, \<open>0x193A\<close> is CMD25, write multiple blocks. In the transfer mode, bit 0 enables
  DMA, bit 1 the block count, bits 3 and 2 say which command ends the transfer (1: CMD12), bit 4 is
  set for a read, and bit 5 for several blocks.\<close>

record sd_ctl =
  j_addr :: u32
  j_count :: u16
  j_arg :: u32
  j_mode :: u16
  j_lost :: bool
  j_busy :: bool
  j_cc :: bool
  j_open :: bool
  j_writes :: "(u32 \<times> u16 \<times> u32) list"

fun sd_ctl_step :: "io_event \<Rightarrow> sd_ctl \<Rightarrow> sd_ctl" where
  "sd_ctl_step (Out32 a v) c =
     (if a = SD_BASE + SD_SDMA_SYS_ADDR_OFFSET then if j_busy c then c else c\<lparr>j_addr := v\<rparr>
      else if a = SD_BASE + SD_ARGMT_OFFSET then c\<lparr>j_arg := v\<rparr> else c)"
| "sd_ctl_step (Out16 a v) c =
     (if a = SD_BASE + SD_BLK_CNT_OFFSET then c\<lparr>j_count := v\<rparr>
      else if a = SD_BASE + SD_XFER_MODE_OFFSET then c\<lparr>j_mode := v\<rparr>
      else if a = SD_BASE + SD_CMD_OFFSET \<and> v AND 0x20 \<noteq> 0
      then if v = 0x123A \<and> j_mode c AND 0x3F = 0x37 then c\<lparr>j_busy := True, j_cc := True, j_open := True\<rparr>
           else if v = 0x193A \<and> j_mode c AND 0x3F = 0x27
           then c\<lparr>j_cc := True, j_open := True, j_writes := j_writes c @ [(j_addr c, j_count c, j_arg c)]\<rparr>
           else c\<lparr>j_lost := True, j_busy := True\<rparr>
      else if a = SD_BASE + SD_NORM_INTR_STS_OFFSET
      then c\<lparr>j_cc := j_cc c \<and> v AND SD_INTR_CC = 0, j_open := j_open c \<and> v AND SD_INTR_TC = 0\<rparr>
      else c)"
| "sd_ctl_step (In16 a v) c =
     (if a = SD_BASE + SD_NORM_INTR_STS_OFFSET \<and> v AND SD_INTR_TC \<noteq> 0 then c\<lparr>j_busy := j_lost c\<rparr> else c)"
| "sd_ctl_step _ c = c"

definition sd_ctl :: "io_event list \<Rightarrow> sd_ctl" where
  "sd_ctl t = fold sd_ctl_step t \<lparr>j_addr = 0, j_count = 0, j_arg = 0, j_mode = 0, j_lost = False, j_busy = False, j_cc = False, j_open = False, j_writes = []\<rparr>"

lemma sd_ctl_append [simp]: "sd_ctl (t @ es) = fold sd_ctl_step es (sd_ctl t)"
  by (simp add: sd_ctl_def)

lemma sd_lost_busy: "j_lost (sd_ctl t) \<Longrightarrow> j_busy (sd_ctl t)"
proof (induction t rule: rev_induct)
  case (snoc e t)
  then show ?case by (cases e) (auto split: if_splits)
qed (simp add: sd_ctl_def)

text \<open>The driver's words are these.\<close>

lemma sd_words:
  "sd_frame_cmd SD_CMD18 = 0x123A" "sd_frame_cmd SD_CMD25 = 0x193A"
  "sd_xfer_mode 1 AND 0x3F = 0x37" "sd_xfer_mode (Suc 0) AND 0x3F = 0x37" "sd_xfer_mode 2 AND 0x3F = 0x27"
  by (simp_all add: sd_frame_cmd_def sd_xfer_mode_def sd_regs Let_def)

text \<open>The status register, and the accesses of one round of each wait.\<close>

definition sd_status :: "hardware \<Rightarrow> io_event list \<Rightarrow> u16" where
  "sd_status hw t = ucast (hw_read hw t (SD_BASE + SD_NORM_INTR_STS_OFFSET))"

definition sd_poll :: "hardware \<Rightarrow> io_event list \<Rightarrow> io_event list" where
  "sd_poll hw t = t @ [In16 (SD_BASE + SD_NORM_INTR_STS_OFFSET) (sd_status hw t)]"

definition sd_round :: "hardware \<Rightarrow> io_event list \<Rightarrow> io_event list" where
  "sd_round hw t =
     (let t1 = sd_poll hw t; a = SD_BASE + SD_SDMA_SYS_ADDR_OFFSET; v = hw_read hw t1 a
      in if sd_status hw t AND SD_INTR_DMA \<noteq> 0
         then t1 @ [In32 a v] @ [Out16 (SD_BASE + SD_NORM_INTR_STS_OFFSET) SD_INTR_DMA] @ [Out32 a v] else t1)"

text \<open>The memory after \<open>n\<close> blocks from block \<open>b\<close> of the card have been stored at \<open>p\<close>.\<close>

definition loaded :: "(nat \<Rightarrow> u8) \<Rightarrow> u32 \<Rightarrow> u16 \<Rightarrow> u32 \<Rightarrow> memory \<Rightarrow> memory" where
  "loaded disk p n b m = (\<lambda>x. if x \<in> span p (512 * unat n) then disk (512 * unat b + unat (x - p)) else m x)"

definition has_sd :: "hardware \<Rightarrow> (u32 \<Rightarrow> u32) \<Rightarrow> (nat \<Rightarrow> u8) \<Rightarrow> bool" where
  "has_sd hw at disk \<longleftrightarrow> (\<forall>t. let c = sd_ctl t; psr = hw_read hw t (SD_BASE + SD_PRES_STATE_OFFSET);
         window = span (at (j_addr c)) (512 * unat (j_count c)) in
     j_lost c \<or>
     (j_busy c \<or> psr AND SD_PSR_CARD_INSRT \<noteq> 0 \<and> psr AND SD_PSR_INHIBIT_CMD = 0 \<and> psr AND SD_PSR_INHIBIT_DAT = 0)
     \<and> sd_status hw t AND SD_INTR_ERR = 0
     \<and> (\<forall>e m. if j_busy c then same_outside window m (hw_dma hw (t @ [e]) m) else hw_dma hw (t @ [e]) m = m)
     \<and> (\<forall>v m. j_busy c \<longrightarrow> j_writes c = [] \<longrightarrow> v AND SD_INTR_TC \<noteq> 0
          \<longrightarrow> hw_dma hw (t @ [In16 (SD_BASE + SD_NORM_INTR_STS_OFFSET) v]) m = loaded disk (at (j_addr c)) (j_count c) (j_arg c) m)
     \<and> (j_cc c \<longrightarrow> (\<exists>k. sd_status hw ((sd_poll hw ^^ k) t) AND SD_INTR_CC \<noteq> 0))
     \<and> (j_open c \<longrightarrow> (\<exists>k. sd_status hw ((sd_round hw ^^ k) t) AND SD_INTR_TC \<noteq> 0)))"

lemma has_sd_known:
  assumes "has_sd hw at disk" and "\<not> j_lost (sd_ctl t)"
  shows "\<not> j_busy (sd_ctl t) \<Longrightarrow> hw_read hw t (SD_BASE + SD_PRES_STATE_OFFSET) AND SD_PSR_CARD_INSRT \<noteq> 0"
    and "\<not> j_busy (sd_ctl t) \<Longrightarrow> hw_read hw t (SD_BASE + SD_PRES_STATE_OFFSET) AND SD_PSR_INHIBIT_CMD = 0"
    and "\<not> j_busy (sd_ctl t) \<Longrightarrow> hw_read hw t (SD_BASE + SD_PRES_STATE_OFFSET) AND SD_PSR_INHIBIT_DAT = 0"
    and "sd_status hw t AND SD_INTR_ERR = 0"
    and "\<not> j_busy (sd_ctl t) \<Longrightarrow> hw_dma hw (t @ [e]) m = m"
    and "j_busy (sd_ctl t) \<Longrightarrow> same_outside (span (at (j_addr (sd_ctl t))) (512 * unat (j_count (sd_ctl t)))) m (hw_dma hw (t @ [e]) m)"
    and "j_busy (sd_ctl t) \<Longrightarrow> j_writes (sd_ctl t) = [] \<Longrightarrow> v AND SD_INTR_TC \<noteq> 0 \<Longrightarrow> hw_dma hw (t @ [In16 (SD_BASE + SD_NORM_INTR_STS_OFFSET) v]) m
      = loaded disk (at (j_addr (sd_ctl t))) (j_count (sd_ctl t)) (j_arg (sd_ctl t)) m"
    and "j_cc (sd_ctl t) \<Longrightarrow> \<exists>k. sd_status hw ((sd_poll hw ^^ k) t) AND SD_INTR_CC \<noteq> 0"
    and "j_open (sd_ctl t) \<Longrightarrow> \<exists>k. sd_status hw ((sd_round hw ^^ k) t) AND SD_INTR_TC \<noteq> 0"
  using assms unfolding has_sd_def Let_def by metis+

text \<open>An idle controller is not lost.\<close>

lemma has_sdD:
  assumes "has_sd hw at disk" and "\<not> j_busy (sd_ctl t)"
  shows "hw_read hw t (SD_BASE + SD_PRES_STATE_OFFSET) AND SD_PSR_CARD_INSRT \<noteq> 0"
    and "hw_read hw t (SD_BASE + SD_PRES_STATE_OFFSET) AND SD_PSR_INHIBIT_CMD = 0"
    and "hw_read hw t (SD_BASE + SD_PRES_STATE_OFFSET) AND SD_PSR_INHIBIT_DAT = 0"
    and "\<not> j_lost (sd_ctl t)"
    and "hw_dma hw (t @ [e]) m = m"
proof -
  show l: "\<not> j_lost (sd_ctl t)" using assms(2) sd_lost_busy by blast
  show "hw_read hw t (SD_BASE + SD_PRES_STATE_OFFSET) AND SD_PSR_CARD_INSRT \<noteq> 0"
    "hw_read hw t (SD_BASE + SD_PRES_STATE_OFFSET) AND SD_PSR_INHIBIT_CMD = 0"
    "hw_read hw t (SD_BASE + SD_PRES_STATE_OFFSET) AND SD_PSR_INHIBIT_DAT = 0" "hw_dma hw (t @ [e]) m = m"
    using has_sd_known(1-3,5) [OF assms(1) l assms(2)] by blast+
qed

section \<open>A transfer in progress\<close>

text \<open>Registers the driver touches do not coincide, and the acknowledgements are single bits.\<close>

lemma sd_addrs:
  "SD_ARGMT_OFFSET \<noteq> SD_SDMA_SYS_ADDR_OFFSET"
  "SD_TIMEOUT_CTRL_OFFSET \<noteq> SD_BLK_CNT_OFFSET"
  "SD_TIMEOUT_CTRL_OFFSET \<noteq> SD_CMD_OFFSET"
  "SD_TIMEOUT_CTRL_OFFSET \<noteq> SD_NORM_INTR_STS_OFFSET"
  "SD_ERR_INTR_STS_OFFSET \<noteq> SD_BLK_CNT_OFFSET"
  "SD_ERR_INTR_STS_OFFSET \<noteq> SD_CMD_OFFSET"
  "SD_ERR_INTR_STS_OFFSET \<noteq> SD_NORM_INTR_STS_OFFSET"
  "SD_XFER_MODE_OFFSET \<noteq> SD_BLK_CNT_OFFSET"
  "SD_XFER_MODE_OFFSET \<noteq> SD_CMD_OFFSET"
  "SD_CMD_OFFSET \<noteq> SD_XFER_MODE_OFFSET"
  "SD_TIMEOUT_CTRL_OFFSET \<noteq> SD_XFER_MODE_OFFSET"
  "SD_ERR_INTR_STS_OFFSET \<noteq> SD_XFER_MODE_OFFSET"
  "SD_NORM_INTR_STS_OFFSET \<noteq> SD_XFER_MODE_OFFSET"
  "SD_XFER_MODE_OFFSET \<noteq> SD_NORM_INTR_STS_OFFSET"
  "SD_NORM_INTR_STS_OFFSET \<noteq> SD_BLK_CNT_OFFSET"
  "SD_NORM_INTR_STS_OFFSET \<noteq> SD_CMD_OFFSET"
  "SD_CMD_OFFSET \<noteq> SD_BLK_CNT_OFFSET"
  by (simp_all add: sd_regs dtb)

lemma sd_bits:
  "SD_INTR_CC AND SD_INTR_TC = 0" "SD_INTR_DMA AND SD_INTR_TC = 0" "SD_INTR_DMA AND SD_INTR_CC = 0"
  "SD_INTR_TC AND SD_INTR_TC \<noteq> 0"
  by (simp_all add: sd_regs sd_frame_cmd_def Let_def)

text \<open>Only the memory and the trace change.\<close>

definition dev_only :: "'a machine_scheme \<Rightarrow> 'a machine_scheme \<Rightarrow> bool" where
  "dev_only s0 s \<longleftrightarrow> s\<lparr>mem := \<lambda>_. 0, io := []\<rparr> = s0\<lparr>mem := \<lambda>_. 0, io := []\<rparr>"

lemma dev_only_refl [simp]: "dev_only s s"
  by (simp add: dev_only_def)

lemma dev_only_trans [trans]: "dev_only s s' \<Longrightarrow> dev_only s' s'' \<Longrightarrow> dev_only s s''"
  by (simp add: dev_only_def)

lemma dev_only_bus [simp]:
  "dev_only s0 (bus_read hw e s) \<longleftrightarrow> dev_only s0 s" "dev_only s0 (out8 a v8 s) \<longleftrightarrow> dev_only s0 s"
  "dev_only s0 (out16 a v16 s) \<longleftrightarrow> dev_only s0 s" "dev_only s0 (out32 a v s) \<longleftrightarrow> dev_only s0 s"
  by (simp_all add: dev_only_def bus_read_def out8_def out16_def out32_def Let_def)

lemma dev_only_con: "dev_only s0 s \<Longrightarrow> con s = con s0"
proof -
  assume "dev_only s0 s"
  then have "con (s\<lparr>mem := \<lambda>_. 0, io := []\<rparr>) = con (s0\<lparr>mem := \<lambda>_. 0, io := []\<rparr>)" by (simp only: dev_only_def)
  then show ?thesis by simp
qed

definition xfer :: "(u32 \<Rightarrow> u32) \<Rightarrow> (nat \<Rightarrow> u8) \<Rightarrow> u32 \<Rightarrow> u16 \<Rightarrow> u32 \<Rightarrow> 'a machine_scheme \<Rightarrow> 'a machine_scheme \<Rightarrow> bool" where
  "xfer at disk pa n b s0 s \<longleftrightarrow> (let c = sd_ctl (io s) in
     dev_only s0 s \<and> \<not> j_lost c \<and> j_open c \<and> j_writes c = j_writes (sd_ctl (io s0))
     \<and> (if j_busy c
        then j_writes (sd_ctl (io s0)) = [] \<and> j_addr c = pa \<and> j_count c = n \<and> j_arg c = b
          \<and> same_outside (span (at pa) (512 * unat n)) (mem s0) (mem s)
        else mem s = loaded disk (at pa) n b (mem s0)))"

lemma loaded_same_outside: "same_outside (span p (512 * unat n)) m (loaded disk p n b m)"
  by (simp add: same_outside_def loaded_def)

lemma loaded_over: "same_outside (span p (512 * unat n)) m m' \<Longrightarrow> loaded disk p n b m' = loaded disk p n b m"
  by (auto simp: loaded_def same_outside_def)

text \<open>A read access in the middle of a transfer.\<close>

lemma xfer_step:
  assumes hw: "has_sd hw at disk" and x: "xfer at disk pa n b s0 s"
    and e: "e = In16 (SD_BASE + SD_NORM_INTR_STS_OFFSET) v \<or> sd_ctl_step e (sd_ctl (io s)) = sd_ctl (io s)"
  shows "xfer at disk pa n b s0 (bus_read hw e s)"
proof -
  let ?c = "sd_ctl (io s)" and ?m = "hw_dma hw (io s @ [e]) (mem s)"
  have f: "dev_only s0 s" "j_open ?c" "j_writes ?c = j_writes (sd_ctl (io s0))" and known: "\<not> j_lost ?c" using x by (simp_all add: xfer_def Let_def)
  have open': "j_open (sd_ctl_step e ?c)" "j_writes (sd_ctl_step e ?c) = j_writes (sd_ctl (io s0))"
    and known': "\<not> j_lost (sd_ctl_step e ?c)"
  proof -
    have "sd_ctl_step e ?c = ?c \<or> sd_ctl_step e ?c = ?c\<lparr>j_busy := False\<rparr>" using e known by auto
    then show "j_open (sd_ctl_step e ?c)" "j_writes (sd_ctl_step e ?c) = j_writes (sd_ctl (io s0))"
      "\<not> j_lost (sd_ctl_step e ?c)" using f(2,3) known by auto
  qed
  have m: "mem (bus_read hw e s) = ?m" by (simp add: bus_read_def Let_def)
  show ?thesis
  proof (cases "j_busy ?c")
    case False
    then have "?m = mem s" by (rule has_sdD(5) [OF hw])
    moreover have "\<not> j_busy (sd_ctl_step e ?c)" using e False known by (elim disjE) simp_all
    ultimately show ?thesis using x False open' known' by (simp add: xfer_def Let_def m)
  next
    case True
    have so: "same_outside (span (at pa) (512 * unat n)) (mem s0) (mem s)"
      and j: "j_addr ?c = pa" "j_count ?c = n" "j_arg ?c = b" and w: "j_writes ?c = []" "j_writes (sd_ctl (io s0)) = []" using x True by (simp_all add: xfer_def Let_def)
    have "same_outside (span (at pa) (512 * unat n)) (mem s) ?m" using has_sd_known(6) [OF hw known True, of "mem s" e] j by simp
    then have so': "same_outside (span (at pa) (512 * unat n)) (mem s0) ?m" by (rule same_outside_trans [OF so])
    show ?thesis
    proof (cases "e = In16 (SD_BASE + SD_NORM_INTR_STS_OFFSET) v \<and> v AND SD_INTR_TC \<noteq> 0")
      case tc: True
      then have "?m = loaded disk (at pa) n b (mem s)" using has_sd_known(7) [OF hw known True w(1), of v "mem s"] j by simp
      also have "\<dots> = loaded disk (at pa) n b (mem s0)" by (rule loaded_over [OF so])
      finally have "mem (bus_read hw e s) = loaded disk (at pa) n b (mem s0)" by (simp only: m)
      then show ?thesis using tc f known by (simp add: xfer_def Let_def)
    next
      case no: False
      then have "sd_ctl_step e ?c = ?c" using e by auto
      then show ?thesis using f j w so' True known by (simp add: xfer_def Let_def m)
    qed
  qed
qed

text \<open>An acknowledgement or a re-armed address in the middle of a transfer.\<close>

lemma xfer_out:
  assumes "xfer at disk pa n b s0 s"
  shows "v AND SD_INTR_TC = 0 \<Longrightarrow> xfer at disk pa n b s0 (out16 (SD_BASE + SD_NORM_INTR_STS_OFFSET) v s)"
    and "xfer at disk pa n b s0 (out32 (SD_BASE + SD_SDMA_SYS_ADDR_OFFSET) v' s)"
  using assms by (simp_all add: xfer_def Let_def sd_addrs)

lemma xfer_known:
  assumes "has_sd hw at disk" and "xfer at disk pa n b s0 s"
  shows "\<not> j_lost (sd_ctl (io s))" and "sd_status hw (io s) AND SD_INTR_ERR = 0"
  using assms(2) has_sd_known(4) [OF assms(1)] by (simp_all add: xfer_def Let_def)

section \<open>The two waits\<close>

lemma in16_status:
  "in16 hw (SD_BASE + SD_NORM_INTR_STS_OFFSET) s
    = (sd_status hw (io s), bus_read hw (In16 (SD_BASE + SD_NORM_INTR_STS_OFFSET) (sd_status hw (io s))) s)"
  by (simp add: in16_def sd_status_def Let_def)

lemma sd_wait_cc_ok:
  assumes hw: "has_sd hw at disk"
  shows "xfer at disk pa n b s0 s \<Longrightarrow> sd_status hw ((sd_poll hw ^^ k) (io s)) AND SD_INTR_CC \<noteq> 0
    \<Longrightarrow> \<exists>s'. sd_wait_cc hw s = Some (0, s') \<and> xfer at disk pa n b s0 s'"
proof (induction k arbitrary: s)
  case 0
  let ?s = "bus_read hw (In16 (SD_BASE + SD_NORM_INTR_STS_OFFSET) (sd_status hw (io s))) s"
  have "xfer at disk pa n b s0 ?s" using xfer_step [OF hw "0.prems"(1)] by blast
  then show ?case using "0.prems"(2) xfer_known(2) [OF hw "0.prems"(1)]
    by (subst sd_wait_cc.simps) (simp add: in16_status xfer_out(1) sd_bits)
next
  case (Suc k)
  let ?s = "bus_read hw (In16 (SD_BASE + SD_NORM_INTR_STS_OFFSET) (sd_status hw (io s))) s"
  have x: "xfer at disk pa n b s0 ?s" using xfer_step [OF hw Suc.prems(1)] by blast
  show ?case
  proof (cases "sd_status hw (io s) AND SD_INTR_CC = 0")
    case True
    have "io ?s = sd_poll hw (io s)" by (simp add: sd_poll_def)
    then have "sd_status hw ((sd_poll hw ^^ k) (io ?s)) AND SD_INTR_CC \<noteq> 0"
      using Suc.prems(2) by (simp add: funpow_swap1)
    from Suc.IH [OF x this] show ?thesis using True xfer_known(2) [OF hw Suc.prems(1)]
      by (subst sd_wait_cc.simps) (simp add: in16_status)
  next
    case False
    then show ?thesis using x False xfer_known(2) [OF hw Suc.prems(1)]
      by (subst sd_wait_cc.simps) (simp add: in16_status xfer_out(1) sd_bits)
  qed
qed

text \<open>One round of the second wait, behind the reading of the status.\<close>

definition sd_rearm :: "hardware \<Rightarrow> u16 \<Rightarrow> 'a machine_scheme \<Rightarrow> 'a machine_scheme" where
  "sd_rearm hw state16 s =
     (if state16 AND SD_INTR_DMA \<noteq> 0
      then let (next_paddr, s) = in32 hw (SD_BASE + SD_SDMA_SYS_ADDR_OFFSET) s
           in out32 (SD_BASE + SD_SDMA_SYS_ADDR_OFFSET) next_paddr
                (out16 (SD_BASE + SD_NORM_INTR_STS_OFFSET) SD_INTR_DMA s)
      else s)"

lemma xfer_rearm:
  assumes hw: "has_sd hw at disk" and x: "xfer at disk pa n b s0 s"
  shows "xfer at disk pa n b s0 (sd_rearm hw v s)"
    and "j_busy (sd_ctl (io (sd_rearm hw v s))) = j_busy (sd_ctl (io s))"
proof -
  let ?r = "SD_BASE + SD_SDMA_SYS_ADDR_OFFSET"
  have "xfer at disk pa n b s0 (bus_read hw (In32 ?r (hw_read hw (io s) ?r)) s)"
    by (rule xfer_step [OF hw x]) simp
  then show "xfer at disk pa n b s0 (sd_rearm hw v s)"
    using x by (simp add: sd_rearm_def in32_def Let_def xfer_out sd_bits)
  show "j_busy (sd_ctl (io (sd_rearm hw v s))) = j_busy (sd_ctl (io s))"
    by (simp add: sd_rearm_def in32_def Let_def sd_addrs)
qed

lemma sd_rearm_io: "io (sd_rearm hw (sd_status hw (io s))
    (bus_read hw (In16 (SD_BASE + SD_NORM_INTR_STS_OFFSET) (sd_status hw (io s))) s)) = sd_round hw (io s)"
  by (simp add: sd_rearm_def sd_round_def sd_poll_def in32_def Let_def)

lemma sd_wait_tc_unfold:
  "sd_wait_tc hw s = (let v = sd_status hw (io s);
      s1 = bus_read hw (In16 (SD_BASE + SD_NORM_INTR_STS_OFFSET) v) s
    in if v AND SD_INTR_ERR \<noteq> 0 then Some (-3, out16 (SD_BASE + SD_ERR_INTR_STS_OFFSET) SD_ERR_INTR_ALL s1)
       else if v AND SD_INTR_TC = 0 then sd_wait_tc hw (sd_rearm hw v s1)
       else Some (0, out16 (SD_BASE + SD_NORM_INTR_STS_OFFSET) SD_INTR_TC (sd_rearm hw v s1)))"
  by (subst sd_wait_tc.simps) (simp add: in16_status sd_rearm_def Let_def)

lemma sd_wait_tc_ok:
  assumes hw: "has_sd hw at disk"
  shows "xfer at disk pa n b s0 s \<Longrightarrow> sd_status hw ((sd_round hw ^^ k) (io s)) AND SD_INTR_TC \<noteq> 0
    \<Longrightarrow> \<exists>s'. sd_wait_tc hw s = Some (0, s') \<and> dev_only s0 s' \<and> \<not> j_busy (sd_ctl (io s'))
      \<and> j_writes (sd_ctl (io s')) = j_writes (sd_ctl (io s0)) \<and> mem s' = loaded disk (at pa) n b (mem s0)"
proof (induction k arbitrary: s)
  case prems: 0
  let ?v = "sd_status hw (io s)"
  let ?s = "sd_rearm hw ?v (bus_read hw (In16 (SD_BASE + SD_NORM_INTR_STS_OFFSET) ?v) s)"
  have x: "xfer at disk pa n b s0 ?s" using xfer_rearm(1) [OF hw xfer_step [OF hw prems(1)]] by blast
  have tc: "?v AND SD_INTR_TC \<noteq> 0" using prems(2) by simp
  have "\<not> j_busy (sd_ctl (io ?s))"
    using xfer_rearm(2) [OF hw xfer_step [OF hw prems(1)], of _ ?v ?v] tc xfer_known(1) [OF hw prems(1)] by auto
  then show ?case using x tc xfer_known(2) [OF hw prems(1)]
    by (subst sd_wait_tc_unfold) (simp add: Let_def xfer_def sd_addrs)
next
  case (Suc k)
  let ?v = "sd_status hw (io s)"
  let ?s = "sd_rearm hw ?v (bus_read hw (In16 (SD_BASE + SD_NORM_INTR_STS_OFFSET) ?v) s)"
  have x: "xfer at disk pa n b s0 ?s" using xfer_rearm(1) [OF hw xfer_step [OF hw Suc.prems(1)]] by blast
  show ?case
  proof (cases "?v AND SD_INTR_TC = 0")
    case True
    have "sd_status hw ((sd_round hw ^^ k) (io ?s)) AND SD_INTR_TC \<noteq> 0"
      using Suc.prems(2) unfolding sd_rearm_io by (simp add: funpow_swap1)
    from Suc.IH [OF x this] show ?thesis using True xfer_known(2) [OF hw Suc.prems(1)]
      by (subst sd_wait_tc_unfold) (simp add: Let_def)
  next
    case False
    have "\<not> j_busy (sd_ctl (io ?s))"
      using xfer_rearm(2) [OF hw xfer_step [OF hw Suc.prems(1)], of _ ?v ?v] False xfer_known(1) [OF hw Suc.prems(1)] by auto
    then show ?thesis using x False xfer_known(2) [OF hw Suc.prems(1)]
      by (subst sd_wait_tc_unfold) (simp add: Let_def xfer_def sd_addrs)
  qed
qed

section \<open>Reading and writing\<close>

text \<open>Up to the command, both directions do the same.\<close>

lemma sd_start:
  assumes hw: "has_sd hw at disk" and idle: "\<not> j_busy (sd_ctl (io s))"
  shows "\<exists>s2. dev_only s s2 \<and> mem s2 = mem s \<and> j_addr (sd_ctl (io s2)) = pa \<and> j_count (sd_ctl (io s2)) = n
    \<and> j_arg (sd_ctl (io s2)) = b \<and> \<not> j_busy (sd_ctl (io s2)) \<and> \<not> j_lost (sd_ctl (io s2)) \<and> j_writes (sd_ctl (io s2)) = j_writes (sd_ctl (io s))
    \<and> sd_dma_spin_read hw pa n b s = sd_step (sd_wait_cc hw (out16 (SD_BASE + SD_CMD_OFFSET) (sd_frame_cmd SD_CMD18)
        (out16 (SD_BASE + SD_XFER_MODE_OFFSET) (sd_xfer_mode 1) s2))) (-2) (sd_wait_tc hw)
    \<and> sd_dma_spin_write hw pa n b s = sd_step (sd_wait_cc hw (out16 (SD_BASE + SD_CMD_OFFSET) (sd_frame_cmd SD_CMD25)
        (out16 (SD_BASE + SD_XFER_MODE_OFFSET) (sd_xfer_mode 2) s2))) (-2) (sd_wait_tc hw)"
proof -
  define psr where "psr = SD_BASE + SD_PRES_STATE_OFFSET"
  define s1 where "s1 = out32 (SD_BASE + SD_SDMA_SYS_ADDR_OFFSET) pa (snd (in32 hw psr s))"
  have 1: "mem s1 = mem s" "dev_only s s1" "j_addr (sd_ctl (io s1)) = pa" "\<not> j_busy (sd_ctl (io s1))"
    "j_writes (sd_ctl (io s1)) = j_writes (sd_ctl (io s))"
    using has_sdD(5) [OF hw idle] idle by (simp_all add: s1_def in32_def Let_def bus_read_def [of hw _ s] dev_only_def out32_def)
  define s2 where "s2 = out16 (SD_BASE + SD_ERR_INTR_STS_OFFSET) SD_ERR_INTR_ALL (out16 (SD_BASE + SD_NORM_INTR_STS_OFFSET) SD_NORM_INTR_ALL
    (out32 (SD_BASE + SD_ARGMT_OFFSET) b (out16 (SD_BASE + SD_TIMEOUT_CTRL_OFFSET) 0xE
      (out16 (SD_BASE + SD_BLK_CNT_OFFSET) n (snd (in32 hw psr s1))))))"
  have m2: "mem s2 = mem s" using has_sdD(5) [OF hw 1(4)] 1(1)
    by (simp add: s2_def in32_def Let_def bus_read_def)
  have 2: "dev_only s s2" "j_addr (sd_ctl (io s2)) = pa" "\<not> j_busy (sd_ctl (io s2))"
    "j_count (sd_ctl (io s2)) = n" "j_arg (sd_ctl (io s2)) = b" "j_writes (sd_ctl (io s2)) = j_writes (sd_ctl (io s))"
    using 1 by (simp_all add: s2_def in32_def Let_def sd_addrs)
  have send: "sd_spin_send_cmd hw cmd n b mode s1 = sd_wait_cc hw (out16 (SD_BASE + SD_CMD_OFFSET) (sd_frame_cmd cmd)
        (out16 (SD_BASE + SD_XFER_MODE_OFFSET) (sd_xfer_mode mode) s2))" for cmd mode
    using has_sdD(2,3) [OF hw 1(4)] by (simp add: sd_spin_send_cmd_def Let_def in32_def s2_def psr_def)
  have "sd_dma_spin_read hw pa n b s = sd_step (sd_spin_send_cmd hw SD_CMD18 n b 1 s1) (-2) (sd_wait_tc hw)"
    "sd_dma_spin_write hw pa n b s = sd_step (sd_spin_send_cmd hw SD_CMD25 n b 2 s1) (-2) (sd_wait_tc hw)"
    using has_sdD(1) [OF hw idle]
    by (simp_all add: sd_dma_spin_read_def sd_dma_spin_write_def Let_def in32_def s1_def psr_def)
  then show ?thesis using 2 m2 sd_lost_busy unfolding send by blast
qed

text \<open>From the command on.\<close>

lemma sd_finish:
  assumes hw: "has_sd hw at disk" and x: "xfer at disk pa n b s0 s" and cc: "j_cc (sd_ctl (io s))"
  shows "\<exists>s'. sd_step (sd_wait_cc hw s) (-2) (sd_wait_tc hw) = Some (0, s') \<and> dev_only s0 s' \<and> \<not> j_busy (sd_ctl (io s'))
    \<and> j_writes (sd_ctl (io s')) = j_writes (sd_ctl (io s0)) \<and> mem s' = loaded disk (at pa) n b (mem s0)"
proof -
  obtain k where "sd_status hw ((sd_poll hw ^^ k) (io s)) AND SD_INTR_CC \<noteq> 0"
    using has_sd_known(8) [OF hw xfer_known(1) [OF hw x] cc] by blast
  from sd_wait_cc_ok [OF hw x this] obtain s4 where 4: "sd_wait_cc hw s = Some (0, s4)" "xfer at disk pa n b s0 s4" by blast
  have "j_open (sd_ctl (io s4))" using 4(2) by (simp add: xfer_def Let_def)
  then obtain k where "sd_status hw ((sd_round hw ^^ k) (io s4)) AND SD_INTR_TC \<noteq> 0" using has_sd_known(9) [OF hw xfer_known(1) [OF hw 4(2)]] by blast
  from sd_wait_tc_ok [OF hw 4(2) this] show ?thesis by (simp add: 4(1) sd_step_def)
qed

text \<open>No read is going on, and nothing has been written since the contents were \<open>disk\<close>.\<close>

definition sd_fresh :: "io_event list \<Rightarrow> bool" where
  "sd_fresh t \<longleftrightarrow> \<not> j_busy (sd_ctl t) \<and> j_writes (sd_ctl t) = []"

text \<open>The library forms of the results.\<close>

lemma sd_read_ok:
  assumes hw: "has_sd hw at disk" and fresh: "sd_fresh (io s)"
  shows "\<exists>s'. sd_dma_spin_read hw pa n b s = Some (0, s') \<and> dev_only s s' \<and> sd_fresh (io s')
    \<and> mem s' = loaded disk (at pa) n b (mem s)"
proof -
  have idle: "\<not> j_busy (sd_ctl (io s))" and none: "j_writes (sd_ctl (io s)) = []" using fresh by (simp_all add: sd_fresh_def)
  obtain s2 where 2: "dev_only s s2" "mem s2 = mem s" "j_addr (sd_ctl (io s2)) = pa" "j_count (sd_ctl (io s2)) = n"
    "j_arg (sd_ctl (io s2)) = b" "\<not> j_busy (sd_ctl (io s2))" "\<not> j_lost (sd_ctl (io s2))" "j_writes (sd_ctl (io s2)) = []"
    and run: "sd_dma_spin_read hw pa n b s = sd_step (sd_wait_cc hw (out16 (SD_BASE + SD_CMD_OFFSET) (sd_frame_cmd SD_CMD18)
        (out16 (SD_BASE + SD_XFER_MODE_OFFSET) (sd_xfer_mode 1) s2))) (-2) (sd_wait_tc hw)"
    using sd_start [OF hw idle, of pa n b] none by metis
  have "xfer at disk pa n b s (out16 (SD_BASE + SD_CMD_OFFSET) (sd_frame_cmd SD_CMD18)
        (out16 (SD_BASE + SD_XFER_MODE_OFFSET) (sd_xfer_mode 1) s2))"
    using 2 none by (simp add: xfer_def Let_def sd_addrs sd_words)
  from sd_finish [OF hw this] run none 2 show ?thesis by (auto simp: sd_addrs sd_fresh_def sd_words)
qed

lemma sd_write_ok:
  assumes hw: "has_sd hw at disk" and idle: "\<not> j_busy (sd_ctl (io s))"
  shows "\<exists>s'. sd_dma_spin_write hw pa n b s = Some (0, s') \<and> dev_only s s' \<and> \<not> j_busy (sd_ctl (io s'))
    \<and> j_writes (sd_ctl (io s')) = j_writes (sd_ctl (io s)) @ [(pa, n, b)] \<and> mem s' = mem s"
proof -
  obtain s2 where 2: "dev_only s s2" "mem s2 = mem s" "j_addr (sd_ctl (io s2)) = pa" "j_count (sd_ctl (io s2)) = n"
    "j_arg (sd_ctl (io s2)) = b" "\<not> j_busy (sd_ctl (io s2))" "\<not> j_lost (sd_ctl (io s2))" "j_writes (sd_ctl (io s2)) = j_writes (sd_ctl (io s))"
    and run: "sd_dma_spin_write hw pa n b s = sd_step (sd_wait_cc hw (out16 (SD_BASE + SD_CMD_OFFSET) (sd_frame_cmd SD_CMD25)
        (out16 (SD_BASE + SD_XFER_MODE_OFFSET) (sd_xfer_mode 2) s2))) (-2) (sd_wait_tc hw)"
    using sd_start [OF hw idle, of pa n b] by metis
  define s3 where "s3 = out16 (SD_BASE + SD_CMD_OFFSET) (sd_frame_cmd SD_CMD25)
        (out16 (SD_BASE + SD_XFER_MODE_OFFSET) (sd_xfer_mode 2) s2)"
  have 3: "dev_only s s3" "mem s3 = mem s" "\<not> j_busy (sd_ctl (io s3))" "\<not> j_lost (sd_ctl (io s3))" "j_cc (sd_ctl (io s3))" "j_open (sd_ctl (io s3))"
    "j_writes (sd_ctl (io s3)) = j_writes (sd_ctl (io s)) @ [(pa, n, b)]"
    using 2 by (simp_all add: s3_def sd_addrs sd_words)
  have none: "loaded disk p 0 b m = m" for p m by (simp add: loaded_def)
  have "xfer at disk pa 0 b s3 s3" using 3 by (simp add: xfer_def Let_def none)
  from sd_finish [OF hw this 3(5)] obtain s' where "sd_step (sd_wait_cc hw s3) (-2) (sd_wait_tc hw) = Some (0, s')"
    "dev_only s3 s'" "\<not> j_busy (sd_ctl (io s'))" "j_writes (sd_ctl (io s')) = j_writes (sd_ctl (io s3))" "mem s' = mem s3"
    unfolding none by blast
  then show ?thesis using 3 run unfolding s3_def [symmetric] by (metis dev_only_trans)
qed

section \<open>A card\<close>

text \<open>Hardware that meets \<open>has_sd\<close>: every status is good at once, and the transfer is done by
  the first status that is read behind the command.\<close>

definition quick_sd :: "(u32 \<Rightarrow> u32) \<Rightarrow> (nat \<Rightarrow> u8) \<Rightarrow> hardware" where
  "quick_sd at disk =
     \<lparr>hw_read = \<lambda>t a. if a = SD_BASE + SD_PRES_STATE_OFFSET then SD_PSR_CARD_INSRT
                    else if a = SD_BASE + SD_NORM_INTR_STS_OFFSET then ucast (SD_INTR_CC OR SD_INTR_TC) else 0,
      hw_dma = \<lambda>t m. let c = sd_ctl (butlast t) in
        if j_busy c \<and> sd_ctl_step (last t) c \<noteq> c then loaded disk (at (j_addr c)) (j_count c) (j_arg c) m else m\<rparr>"

lemma quick_sd_status: "sd_status (quick_sd at disk) t = SD_INTR_CC OR SD_INTR_TC"
  by (simp add: quick_sd_def sd_status_def sd_regs dtb)

lemma quick_sd_ok: "has_sd (quick_sd at disk) at disk"
proof -
  have psr: "hw_read (quick_sd at disk) t (SD_BASE + SD_PRES_STATE_OFFSET) = SD_PSR_CARD_INSRT" for t
    by (simp add: quick_sd_def)
  have bits: "SD_PSR_CARD_INSRT AND SD_PSR_CARD_INSRT \<noteq> 0" "SD_PSR_CARD_INSRT AND SD_PSR_INHIBIT_CMD = 0"
    "SD_PSR_CARD_INSRT AND SD_PSR_INHIBIT_DAT = 0" "(SD_INTR_CC OR SD_INTR_TC) AND SD_INTR_ERR = 0"
    "(SD_INTR_CC OR SD_INTR_TC) AND SD_INTR_CC \<noteq> 0" "(SD_INTR_CC OR SD_INTR_TC) AND SD_INTR_TC \<noteq> 0"
    by (simp_all add: sd_regs)
  have idle: "hw_dma (quick_sd at disk) (t @ [e]) m = m" if "\<not> j_busy (sd_ctl t)" for t e m
    using that by (simp add: quick_sd_def Let_def)
  have busy: "same_outside (span (at (j_addr (sd_ctl t))) (512 * unat (j_count (sd_ctl t)))) m
      (hw_dma (quick_sd at disk) (t @ [e]) m)" for t e m
    using loaded_same_outside by (simp add: quick_sd_def Let_def)
  have tc: "hw_dma (quick_sd at disk) (t @ [In16 (SD_BASE + SD_NORM_INTR_STS_OFFSET) v]) m
      = loaded disk (at (j_addr (sd_ctl t))) (j_count (sd_ctl t)) (j_arg (sd_ctl t)) m"
    if "j_busy (sd_ctl t)" "v AND SD_INTR_TC \<noteq> 0" "\<not> j_lost (sd_ctl t)" for t v m
  proof -
    have "j_busy ((sd_ctl t)\<lparr>j_busy := False\<rparr>) \<noteq> j_busy (sd_ctl t)" using that by simp
    then have "(sd_ctl t)\<lparr>j_busy := False\<rparr> \<noteq> sd_ctl t" by metis
    then show ?thesis using that by (simp add: quick_sd_def Let_def)
  qed
  show ?thesis
    unfolding has_sd_def Let_def psr quick_sd_status
    using bits idle busy tc by auto
qed

section \<open>Results\<close>

text \<open>
  C13. On a working card \<open>sd_dma_spin_read\<close> returns 0, and has stored exactly the blocks asked for:
  memory outside them and the console are unchanged, and the controller is idle again. The
  controller reads only on the specified command word, with a transfer mode that enables DMA and
  the block count, for several blocks, in the direction of a read, ended by CMD12.
\<close>

theorem sd_dma_spin_read_correct:
  assumes "has_sd hw at disk" and "sd_fresh (io s)"
  shows "\<exists>s'. sd_dma_spin_read hw pa n b s = Some (0, s') \<and> con s' = con s \<and> sd_fresh (io s')
    \<and> mem s' = (\<lambda>x. if unat (x - at pa) < 512 * unat n then disk (512 * unat b + unat (x - at pa)) else mem s x)"
proof -
  have "loaded disk (at pa) n b (mem s)
      = (\<lambda>x. if unat (x - at pa) < 512 * unat n then disk (512 * unat b + unat (x - at pa)) else mem s x)"
    by (rule ext) (simp add: loaded_def span_def)
  then show ?thesis using sd_read_ok [OF assms, of pa n b] dev_only_con by metis
qed

theorem sd_dma_spin_read_correct_witness:
  "\<exists>hw s'. sd_dma_spin_read hw 0x1000 1 7 \<lparr>mem = \<lambda>_. 0, con = [], io = []\<rparr> = Some (0, s')
    \<and> mem s' 0x1003 = 0x5A \<and> mem s' 0x1200 = 0"
proof -
  define disk where "disk = (\<lambda>a :: nat. if a = 3587 then 0x5A else (0 :: u8))"
  let ?s = "\<lparr>mem = \<lambda>_. 0, con = [], io = []\<rparr>"
  have "sd_fresh (io ?s)" by (simp add: sd_fresh_def sd_ctl_def)
  then obtain s' where run: "sd_dma_spin_read (quick_sd (\<lambda>p. p) disk) 0x1000 1 7 ?s = Some (0, s')"
    and m: "mem s' = (\<lambda>x. if unat (x - 0x1000) < 512 * unat (1 :: u16)
      then disk (512 * unat (7 :: u32) + unat (x - 0x1000)) else mem ?s x)"
    using sd_dma_spin_read_correct [OF quick_sd_ok [of "\<lambda>p. p" disk], of ?s "0x1000" 1 7] by blast
  have "mem s' 0x1003 = 0x5A" "mem s' 0x1200 = 0" by (simp_all add: m disk_def)
  then show ?thesis using run by blast
qed

end
