(* ===== verification/Fs_Correct.thy ===== *)
theory Fs_Correct
  imports Fs Sched_Correct Sd_Correct
begin

text \<open>
  The file system as lists. A file has a number, the process that has it open (\<open>-1\<close> for none)
  and the list of its blocks, each with the address the card has it at; the blocks of no file
  are in the free list. Entries and blocks do not overlap, so no block is in two places.
\<close>

section \<open>Files and blocks in memory\<close>

type_synonym blocks = "(u32 \<times> u32) list"

record fs_file =
  f_at :: u32
  f_no :: u32
  f_occ :: u32
  f_blocks :: blocks

fun blocks_at :: "memory \<Rightarrow> u32 \<Rightarrow> blocks \<Rightarrow> u32 \<Rightarrow> bool" where
  "blocks_at m p [] r \<longleftrightarrow> p = r"
| "blocks_at m p ((b, d) # bs) r \<longleftrightarrow> p = b \<and> b \<noteq> 0 \<and> ondisk_addr m b = d \<and> blocks_at m (next_block m b) bs r"

definition file_at :: "memory \<Rightarrow> fs_file \<Rightarrow> bool" where
  "file_at m f \<longleftrightarrow> f_at f \<noteq> 0 \<and> index_number m (f_at f) = f_no f \<and> occupied m (f_at f) = f_occ f
     \<and> blocks_at m (first_block m (f_at f)) (f_blocks f) 0"

fun entries_at :: "memory \<Rightarrow> u32 \<Rightarrow> fs_file list \<Rightarrow> u32 \<Rightarrow> bool" where
  "entries_at m p [] r \<longleftrightarrow> p = r"
| "entries_at m p (f # fs) r \<longleftrightarrow> p = f_at f \<and> file_at m f \<and> entries_at m (next_entry m p) fs r"

definition block_areas :: "blocks \<Rightarrow> area list" where
  "block_areas bs = map (\<lambda>(b, _). (b, 8)) bs"

definition file_areas :: "fs_file \<Rightarrow> area list" where
  "file_areas f = (f_at f, 28) # block_areas (f_blocks f)"

definition fs_areas :: "fs_file list \<Rightarrow> blocks \<Rightarrow> area list" where
  "fs_areas fs free = concat (map file_areas fs) @ block_areas free"

definition fs_holds :: "'a fs_state_scheme \<Rightarrow> fs_file list \<Rightarrow> blocks \<Rightarrow> bool" where
  "fs_holds s fs free \<longleftrightarrow> entries_at (mem s) (fentry_head s) fs 0 \<and> blocks_at (mem s) (free_head s) free 0
     \<and> blocks_disj (fs_areas fs free)"

lemma block_areas_simps [simp]:
  "block_areas [] = []" "block_areas ((b, d) # bs) = (b, 8) # block_areas bs"
  "block_areas (bs @ bs') = block_areas bs @ block_areas bs'"
  by (simp_all add: block_areas_def)

lemma file_areas_upd [simp]:
  "file_areas (f\<lparr>f_occ := v\<rparr>) = file_areas f" "file_areas (f\<lparr>f_no := v\<rparr>) = file_areas f"
  by (simp_all add: file_areas_def)

lemma fs_areas_simps [simp]:
  "fs_areas [] free = block_areas free"
  "fs_areas (f # fs) free = file_areas f @ fs_areas fs free"
  by (simp_all add: fs_areas_def)

lemma fs_areas_append: "fs_areas (fs @ fs') free = concat (map file_areas fs) @ fs_areas fs' free"
  by (simp add: fs_areas_def)

section \<open>Segments\<close>

lemma blocks_at_append [simp]:
  "blocks_at m p (bs @ bs') r \<longleftrightarrow> (\<exists>q. blocks_at m p bs q \<and> blocks_at m q bs' r)"
  by (induction bs arbitrary: p) auto

lemma entries_at_append [simp]:
  "entries_at m p (fs @ fs') r \<longleftrightarrow> (\<exists>q. entries_at m p fs q \<and> entries_at m q fs' r)"
  by (induction fs arbitrary: p) auto

definition first_of :: "blocks \<Rightarrow> u32" where
  "first_of bs = (case bs of [] \<Rightarrow> 0 | (b, _) # _ \<Rightarrow> b)"

lemma blocks_at_first: "blocks_at m p bs 0 \<Longrightarrow> p = first_of bs"
  by (cases bs) (auto simp: first_of_def)

lemma blocks_at_zero: "blocks_at m p bs 0 \<Longrightarrow> p = 0 \<longleftrightarrow> bs = []"
  by (cases bs) auto

section \<open>What stores leave alone\<close>

lemma span_4_8: "span b 4 \<subseteq> span b 8" "span (b + 4) 4 \<subseteq> span b 8"
  using span_mono [of 4 8 b] span_offset_subset [of 4 4 8 b] by simp_all

lemma span_4_28: "unat k \<le> 24 \<Longrightarrow> span (p + k) 4 \<subseteq> span p 28"
  by (rule span_offset_subset) simp

lemma blocks_at_frame:
  assumes "same_outside A m m'" and "foot (block_areas bs) \<inter> A = {}"
  shows "blocks_at m' p bs r = blocks_at m p bs r"
  using assms(2)
proof (induction bs arbitrary: p)
  case (Cons bd bs)
  obtain b d where bd: "bd = (b, d)" by force
  have "span b 8 \<inter> A = {}" "foot (block_areas bs) \<inter> A = {}" using Cons.prems by (auto simp: bd)
  then have "ld32 m' b = ld32 m b" "ld32 m' (b + 4) = ld32 m (b + 4)"
    using span_4_8 [of b] by (auto intro!: ld32_same_outside [OF assms(1)])
  then show ?case using Cons.IH [OF \<open>foot (block_areas bs) \<inter> A = {}\<close>]
    by (auto simp: bd next_block_def ondisk_addr_def)
qed simp

lemma entry_frame:
  assumes "same_outside A m m'" and "span p 28 \<inter> A = {}" and "unat k \<le> 24"
  shows "ld32 m' (p + k) = ld32 m (p + k)"
  using span_4_28 [OF assms(3), of p] assms(2) by (intro ld32_same_outside [OF assms(1)]) blast

lemma entry_frame_fields:
  assumes "same_outside A m m'" and "span p 28 \<inter> A = {}"
  shows "index_number m' p = index_number m p" and "occupied m' p = occupied m p"
    and "next_entry m' p = next_entry m p" and "first_block m' p = first_block m p"
  using entry_frame [OF assms, of 0] entry_frame [OF assms, of 24] entry_frame [OF assms, of 20]
    entry_frame [OF assms, of 16]
  by (simp_all add: index_number_def occupied_def next_entry_def first_block_def)

lemma file_at_frame:
  assumes "same_outside A m m'" and "foot (file_areas f) \<inter> A = {}"
  shows "file_at m' f = file_at m f"
proof -
  have "span (f_at f) 28 \<inter> A = {}" and b: "foot (block_areas (f_blocks f)) \<inter> A = {}"
    using assms(2) by (auto simp: file_areas_def)
  then show ?thesis using entry_frame_fields [OF assms(1)] blocks_at_frame [OF assms(1) b]
    by (simp add: file_at_def)
qed

lemma entries_at_frame:
  assumes "same_outside A m m'" and "foot (concat (map file_areas fs)) \<inter> A = {}"
  shows "entries_at m' p fs r = entries_at m p fs r"
  using assms(2)
proof (induction fs arbitrary: p)
  case (Cons f fs)
  have A: "foot (file_areas f) \<inter> A = {}" "foot (concat (map file_areas fs)) \<inter> A = {}" using Cons.prems by auto
  then have "span (f_at f) 28 \<inter> A = {}" by (auto simp: file_areas_def)
  then show ?case using entry_frame_fields [OF assms(1)] file_at_frame [OF assms(1) A(1)] Cons.IH [OF A(2)]
    by auto
qed simp

text \<open>Linking the last block of a segment to \<open>q\<close>.\<close>

lemma blocks_at_link:
  assumes "blocks_at m p (bs @ [(b, d)]) r" and "blocks_disj (block_areas (bs @ [(b, d)]))"
  shows "blocks_at (st32 m b q) p (bs @ [(b, d)]) q"
proof -
  have so: "same_outside (span b 4) m (st32 m b q)" by (rule same_outside_st32) simp
  have "foot (block_areas bs) \<inter> span b 4 = {}" using assms(2) span_4_8 [of b] by auto
  from blocks_at_frame [OF so this] assms(1) show ?thesis
    by (auto simp: next_block_def ondisk_addr_def)
qed

section \<open>Looking for a file\<close>

definition get_file :: "u32 \<Rightarrow> fs_file list \<Rightarrow> fs_file option" where
  "get_file idx fs = find (\<lambda>f. f_no f = idx) fs"

fun upd_file :: "u32 \<Rightarrow> (fs_file \<Rightarrow> fs_file) \<Rightarrow> fs_file list \<Rightarrow> fs_file list" where
  "upd_file idx g [] = []"
| "upd_file idx g (f # fs) = (if f_no f = idx then g f # fs else f # upd_file idx g fs)"

lemma get_file_split:
  "get_file idx fs = Some f \<Longrightarrow> \<exists>pre post. fs = pre @ f # post \<and> f_no f = idx \<and> (\<forall>g \<in> set pre. f_no g \<noteq> idx)"
proof (induction fs)
  case (Cons g fs)
  show ?case
  proof (cases "f_no g = idx")
    case True
    then have "g # fs = [] @ f # fs" "f_no f = idx" using Cons.prems by (simp_all add: get_file_def)
    then show ?thesis by fastforce
  next
    case False
    then obtain pre post where "fs = pre @ f # post" "f_no f = idx" "\<forall>g \<in> set pre. f_no g \<noteq> idx"
      using Cons by (auto simp: get_file_def)
    then have "g # fs = (g # pre) @ f # post \<and> f_no f = idx \<and> (\<forall>g \<in> set (g # pre). f_no g \<noteq> idx)" using False by simp
    then show ?thesis by blast
  qed
qed (simp add: get_file_def)

lemma upd_file_split [simp]:
  "\<forall>g \<in> set pre. f_no g \<noteq> f_no f \<Longrightarrow> upd_file (f_no f) u (pre @ f # post) = pre @ u f # post"
  by (induction pre) auto

lemma get_file_None: "get_file idx fs = None \<longleftrightarrow> (\<forall>g \<in> set fs. f_no g \<noteq> idx)"
  by (induction fs) (auto simp: get_file_def)

text \<open>The entry before a file, for \<open>recycle_file\<close>.\<close>

definition last_entry :: "u32 \<Rightarrow> fs_file list \<Rightarrow> u32" where
  "last_entry px fs = (if fs = [] then px else f_at (last fs))"

lemma fe_find_walk:
  "entries_at m p pre q \<Longrightarrow> \<forall>g \<in> set pre. f_no g \<noteq> idx \<Longrightarrow> fe_find m idx px p = fe_find m idx (last_entry px pre) q"
proof (induction pre arbitrary: p px)
  case (Cons g pre)
  have g: "p = f_at g" "p \<noteq> 0" "index_number m p \<noteq> idx" "entries_at m (next_entry m p) pre q"
    using Cons.prems by (auto simp: file_at_def)
  then have "fe_find m idx px p = fe_find m idx p (next_entry m p)" by (subst fe_find.simps) simp
  also have "\<dots> = fe_find m idx (last_entry p pre) q" using Cons.IH [OF g(4)] Cons.prems(2) by simp
  finally show ?case by (simp add: last_entry_def g(1))
qed (simp add: last_entry_def)

lemma fe_find_some:
  assumes "entries_at m p (pre @ f # post) 0" and "\<forall>g \<in> set pre. f_no g \<noteq> f_no f"
  shows "fe_find m (f_no f) px p = Some (last_entry px pre, f_at f)"
proof -
  from assms(1) obtain q where q: "entries_at m p pre q" "q = f_at f" "file_at m f" by auto
  have "fe_find m (f_no f) px p = fe_find m (f_no f) (last_entry px pre) q" by (rule fe_find_walk [OF q(1) assms(2)])
  then show ?thesis using q(2,3) by (subst (asm) (2) fe_find.simps) (simp add: file_at_def)
qed

lemma fe_find_none:
  assumes "entries_at m p fs 0" and "\<forall>g \<in> set fs. f_no g \<noteq> idx"
  shows "fe_find m idx px p = Some (last_entry px fs, 0)"
  using fe_find_walk [OF assms, of px] by (simp add: fe_find.simps)

section \<open>Allocation of blocks\<close>

lemma data_walk_ok:
  "blocks_at m x bs 0 \<Longrightarrow> data_walk m n px x = (if n \<le> length bs
     then Some (if n = 0 then px else fst (last (take n bs)), first_of (drop n bs)) else None)"
proof (induction n arbitrary: px x bs)
  case 0
  then show ?case by (simp add: blocks_at_first)
next
  case (Suc n)
  show ?case
  proof (cases bs)
    case (Cons bd bs')
    then have x: "x = fst bd" "x \<noteq> 0" "blocks_at m (next_block m x) bs' 0" using Suc.prems by (cases bd; auto)+
    show ?thesis using Suc.IH [OF x(3), of x] x(1,2) by (cases "take n bs'") (auto simp: Cons)
  qed (use Suc.prems in simp)
qed

lemma sint_nat: "0 < sint (x :: u32) \<Longrightarrow> unat x = nat (sint x)"
  using sint_u32 [of x] uint_bound [of x] by (auto split: if_splits)

lemma data_alloc_fails:
  assumes "blocks_at (mem s) (free_head s) free 0" and "nat (sint num) = 0 \<or> length free < nat (sint num)"
  shows "\<exists>c. data_alloc num s = (0, s\<lparr>con := c\<rparr>)"
proof (cases "num \<le>s 0")
  case True
  then have "data_alloc num s = (0, s\<lparr>con := con s\<rparr>)" by (simp add: data_alloc_def)
  then show ?thesis by blast
next
  case False
  then have pos: "0 < sint num" by (simp add: word_sle_eq)
  then have "length free < unat num" using assms(2) sint_nat [OF pos] by simp
  then have "data_walk (mem s) (unat num) 0 (free_head s) = None" using data_walk_ok [OF assms(1)] by simp
  then have "data_alloc num s = (0, uart_spin_puts ''no enough space on disk!'' s)" using False by (simp only: data_alloc_def) simp
  then show ?thesis unfolding uart_spin_puts_def kputs_def by blast
qed

lemma data_alloc_gives:
  assumes "blocks_at (mem s) (free_head s) free 0" and "0 < nat (sint num)" and "nat (sint num) \<le> length free"
    and "take (nat (sint num)) free = bs @ [(b, d)]"
  shows "data_alloc num s = (first_of free,
    s\<lparr>mem := st32 (mem s) b 0, free_head := first_of (drop (nat (sint num)) free)\<rparr>)"
proof -
  have n: "unat num = nat (sint num)" "\<not> num \<le>s 0" using assms(2) sint_nat [of num] by (simp_all add: word_sle_eq)
  have "blocks_at (mem s) (free_head s) (take (nat (sint num)) free @ drop (nat (sint num)) free) 0" using assms(1) by simp
  then have "b \<noteq> 0" unfolding assms(4) by auto
  then show ?thesis using assms n data_walk_ok [OF assms(1), of "unat num" 0] blocks_at_first [OF assms(1)]
    by (simp add: data_alloc_def wr_def)
qed

text \<open>The free list loses its first blocks, which are then a list of their own.\<close>

lemma data_alloc_splits:
  assumes holds: "fs_holds s fs (bs @ (b, d) # rest)" and m': "m' = st32 (mem s) b 0"
  shows "entries_at m' (fentry_head s) fs 0" and "blocks_at m' (first_of (bs @ (b, d) # rest)) (bs @ [(b, d)]) 0"
    and "blocks_at m' (first_of rest) rest 0"
proof -
  have e: "entries_at (mem s) (fentry_head s) fs 0" and f: "blocks_at (mem s) (free_head s) (bs @ (b, d) # rest) 0"
    and disj: "blocks_disj (fs_areas fs (bs @ (b, d) # rest))" using holds by (auto simp: fs_holds_def)
  have so: "same_outside (span b 4) (mem s) m'" unfolding m' by (rule same_outside_st32) simp
  have "foot (concat (map file_areas fs)) \<inter> span b 4 = {}" "foot (block_areas rest) \<inter> span b 4 = {}"
    using disj span_4_8 [of b] by (auto simp: fs_areas_def)
  note frame = entries_at_frame [OF so this(1)] blocks_at_frame [OF so this(2)]
  show "entries_at m' (fentry_head s) fs 0" using e frame(1) by simp
  obtain q where q: "blocks_at (mem s) (free_head s) (bs @ [(b, d)]) q" "blocks_at (mem s) q rest 0" using f by auto
  have "blocks_disj (block_areas (bs @ [(b, d)]))" using disj by (auto simp: fs_areas_def)
  from blocks_at_link [OF q(1) this, of 0] show "blocks_at m' (first_of (bs @ (b, d) # rest)) (bs @ [(b, d)]) 0"
    unfolding m' using blocks_at_first [OF f] by simp
  show "blocks_at m' (first_of rest) rest 0" using q(2) frame(2) blocks_at_first [OF q(2)] by simp
qed

section \<open>Appending to a file\<close>

lemma last_block_ok: "blocks_at m p (bs @ [(b, d)]) 0 \<Longrightarrow> last_block m p = Some b"
proof (induction bs arbitrary: p)
  case Nil
  then show ?case by (simp add: last_block.simps)
next
  case (Cons c bs)
  obtain b' d' where c: "c = (b', d')" by force
  have n: "blocks_at m (next_block m p) (bs @ [(b, d)]) 0" using Cons.prems by (auto simp: c)
  then have "next_block m p \<noteq> 0" using blocks_at_zero [OF n] by simp
  then show ?case using Cons.IH [OF n] by (subst last_block.simps) simp
qed

text \<open>One file of the list changes.\<close>

lemma entries_at_replace:
  assumes "entries_at m p (pre @ f # post) r" and so: "same_outside A m m'"
    and pre: "foot (concat (map file_areas pre)) \<inter> A = {}" and post: "foot (concat (map file_areas post)) \<inter> A = {}"
    and f': "file_at m' f'" "f_at f' = f_at f" "next_entry m' (f_at f) = next_entry m (f_at f)"
  shows "entries_at m' p (pre @ f' # post) r"
  using assms(1) f' entries_at_frame [OF so pre] entries_at_frame [OF so post] by auto

text \<open>The two ways to hang the new blocks \<open>bs\<close> on a file.\<close>

lemma file_at_first:
  assumes "file_at m f" and "f_blocks f = []" and "blocks_at m p bs 0" and "foot (block_areas bs) \<inter> span (f_at f) 28 = {}"
  shows "file_at (st32 m (f_at f + 16) p) (f\<lparr>f_blocks := bs\<rparr>)"
    and "next_entry (st32 m (f_at f + 16) p) (f_at f) = next_entry m (f_at f)"
proof -
  have "same_outside (span (f_at f) 28) m (st32 m (f_at f + 16) p)"
    by (rule same_outside_st32) (simp add: span_4_28)
  from blocks_at_frame [OF this assms(4)] assms(1,3)
  show "file_at (st32 m (f_at f + 16) p) (f\<lparr>f_blocks := bs\<rparr>)"
    by (simp add: file_at_def index_number_def occupied_def first_block_def)
  show "next_entry (st32 m (f_at f + 16) p) (f_at f) = next_entry m (f_at f)" by (simp add: next_entry_def)
qed

lemma file_at_last:
  assumes "file_at m f" and "f_blocks f = cs @ [(b, d)]" and "blocks_at m p bs 0"
    and "foot (block_areas bs) \<inter> span b 8 = {}" and "blocks_disj (file_areas f)"
  shows "file_at (st32 m b p) (f\<lparr>f_blocks := f_blocks f @ bs\<rparr>)"
    and "next_entry (st32 m b p) (f_at f) = next_entry m (f_at f)"
proof -
  have so: "same_outside (span b 4) m (st32 m b p)" by (rule same_outside_st32) simp
  have "span (f_at f) 28 \<inter> span b 4 = {}" "foot (block_areas bs) \<inter> span b 4 = {}"
    using assms(2,4,5) span_4_8 [of b] by (auto simp: file_areas_def)
  note fields = entry_frame_fields [OF so this(1)] blocks_at_frame [OF so this(2)]
  have "blocks_disj (block_areas (cs @ [(b, d)]))" using assms(2,5) by (simp add: file_areas_def)
  from blocks_at_link [OF _ this, of m _ 0 p] have "blocks_at (st32 m b p) (first_block m (f_at f)) (f_blocks f) p"
    using assms(1,2) unfolding file_at_def by metis
  then show "file_at (st32 m b p) (f\<lparr>f_blocks := f_blocks f @ bs\<rparr>)"
    using assms(1,3) fields by (auto simp: file_at_def)
  show "next_entry (st32 m b p) (f_at f) = next_entry m (f_at f)" by (rule fields)
qed

text \<open>What the operations change besides the blocks and entries.\<close>

definition fs_only :: "'a fs_state_scheme \<Rightarrow> 'a fs_state_scheme \<Rightarrow> bool" where
  "fs_only s s' \<longleftrightarrow> s'\<lparr>mem := \<lambda>_. 0, io := [], con := [], free_head := 0, fentry_head := 0\<rparr>
     = s\<lparr>mem := \<lambda>_. 0, io := [], con := [], free_head := 0, fentry_head := 0\<rparr>"

lemma fs_only_refl [simp, frame_intro]: "fs_only s s"
  by (simp add: fs_only_def)

lemma fs_only_trans [trans]: "fs_only s s' \<Longrightarrow> fs_only s' s'' \<Longrightarrow> fs_only s s''"
  by (simp add: fs_only_def)

lemma fs_only_upd [simp]:
  "fs_only s (s'\<lparr>mem := m\<rparr>) \<longleftrightarrow> fs_only s s'" "fs_only s (s'\<lparr>con := c\<rparr>) \<longleftrightarrow> fs_only s s'"
  "fs_only s (s'\<lparr>free_head := h\<rparr>) \<longleftrightarrow> fs_only s s'" "fs_only s (s'\<lparr>fentry_head := h\<rparr>) \<longleftrightarrow> fs_only s s'"
  "fs_only s (wr a v s') \<longleftrightarrow> fs_only s s'"
  by (simp_all add: fs_only_def wr_def)

lemma dev_only_fs: "dev_only s (s' :: 'a fs_state_scheme) \<Longrightarrow>
  fs_only s s' \<and> free_head s' = free_head s \<and> fentry_head s' = fentry_head s"
proof -
  assume d: "dev_only s s'"
  have "free_head (s'\<lparr>mem := \<lambda>_. 0, io := []\<rparr>) = free_head (s\<lparr>mem := \<lambda>_. 0, io := []\<rparr>)"
    "fentry_head (s'\<lparr>mem := \<lambda>_. 0, io := []\<rparr>) = fentry_head (s\<lparr>mem := \<lambda>_. 0, io := []\<rparr>)"
    "s'\<lparr>mem := \<lambda>_. 0, io := []\<rparr>\<lparr>con := [], free_head := 0, fentry_head := 0\<rparr>
      = s\<lparr>mem := \<lambda>_. 0, io := []\<rparr>\<lparr>con := [], free_head := 0, fentry_head := 0\<rparr>"
    using d by (simp_all only: dev_only_def)
  then show ?thesis by (simp add: fs_only_def)
qed

text \<open>The loop that writes the new blocks out.\<close>

definition write_jobs :: "u32 \<Rightarrow> blocks \<Rightarrow> (u32 \<times> u16 \<times> u32) list" where
  "write_jobs addr bs = map (\<lambda>(i, (b, d)). (V2P (addr + STORAGE_BLOCK_SIZE * of_nat i), 1, drop_bit 9 d)) (zip [0 ..< length bs] bs)"

lemma append_writes:
  assumes hw: "has_sd hw at disk"
  shows "blocks_at (mem s) p bs 0 \<Longrightarrow> \<not> j_busy (sd_ctl (io s)) \<Longrightarrow>
    \<exists>s'. loop (append_write hw addr) [k ..< k + length bs] (p, s) = Some (0, s') \<and> dev_only s s' \<and> mem s' = mem s
      \<and> \<not> j_busy (sd_ctl (io s')) \<and> j_writes (sd_ctl (io s')) = j_writes (sd_ctl (io s))
        @ map (\<lambda>(i, (b, d)). (V2P (addr + STORAGE_BLOCK_SIZE * of_nat i), 1, drop_bit 9 d)) (zip [k ..< k + length bs] bs)"
proof (induction bs arbitrary: p s k)
  case (Cons bd bs)
  obtain b d where bd: "bd = (b, d)" by force
  have p: "p = b" "b \<noteq> 0" "ondisk_addr (mem s) b = d" "blocks_at (mem s) (next_block (mem s) b) bs 0"
    using Cons.prems(1) by (auto simp: bd)
  obtain s1 where s1: "sd_dma_spin_write hw (V2P (addr + STORAGE_BLOCK_SIZE * of_nat k)) 1 (drop_bit 9 d) s = Some (0, s1)"
    "dev_only s s1" "\<not> j_busy (sd_ctl (io s1))" "mem s1 = mem s"
    "j_writes (sd_ctl (io s1)) = j_writes (sd_ctl (io s)) @ [(V2P (addr + STORAGE_BLOCK_SIZE * of_nat k), 1, drop_bit 9 d)]"
    using sd_write_ok [OF hw Cons.prems(2)] by blast
  have step: "append_write hw addr k (p, s) = Some (next_block (mem s) b, s1)"
    using p s1 by (simp add: append_write_def deref_def)
  have "blocks_at (mem s1) (next_block (mem s) b) bs 0" using p(4) s1(4) by simp
  from Cons.IH [OF this s1(3), of "Suc k"] obtain s' where
    "loop (append_write hw addr) [Suc k ..< Suc k + length bs] (next_block (mem s) b, s1) = Some (0, s')" "dev_only s1 s'"
    "mem s' = mem s" "\<not> j_busy (sd_ctl (io s'))" "j_writes (sd_ctl (io s')) = j_writes (sd_ctl (io s1))
        @ map (\<lambda>(i, (b, d)). (V2P (addr + STORAGE_BLOCK_SIZE * of_nat i), 1, drop_bit 9 d)) (zip [Suc k ..< Suc k + length bs] bs)"
    by (auto simp: s1(4))
  moreover have "[k ..< k + length (bd # bs)] = k # [Suc k ..< Suc k + length bs]" by (simp add: upt_rec)
  ultimately show ?case using step s1(2,5) dev_only_trans by (auto simp: bd)
qed simp

section \<open>The operations on lists\<close>

type_synonym fs_lists = "fs_file list \<times> blocks"

definition may_use :: "u32 \<Rightarrow> fs_file \<Rightarrow> bool" where
  "may_use pid f \<longleftrightarrow> f_occ f = -1 \<or> f_occ f = pid"

definition open_spec :: "u32 \<Rightarrow> u32 \<Rightarrow> fs_lists \<Rightarrow> u32 \<times> fs_lists" where
  "open_spec pid idx = (\<lambda>(fs, free). case get_file idx fs of
     None \<Rightarrow> (-1, fs, free)
   | Some f \<Rightarrow> if may_use pid f then (0, upd_file idx (\<lambda>f. f\<lparr>f_occ := pid\<rparr>) fs, free) else (-2, fs, free))"

definition close_spec :: "u32 \<Rightarrow> u32 \<Rightarrow> fs_lists \<Rightarrow> u32 \<times> fs_lists" where
  "close_spec pid idx = (\<lambda>(fs, free). case get_file idx fs of
     None \<Rightarrow> (-1, fs, free)
   | Some f \<Rightarrow> if may_use pid f then (0, upd_file idx (\<lambda>f. f\<lparr>f_occ := -1\<rparr>) fs, free) else (-2, fs, free))"

text \<open>The blocks are taken before the file is looked for, and stay taken when it is not found.\<close>

definition append_spec :: "u32 \<Rightarrow> u32 \<Rightarrow> nat \<Rightarrow> fs_lists \<Rightarrow> u32 \<times> fs_lists" where
  "append_spec pid idx n = (\<lambda>(fs, free).
     if n = 0 \<or> length free < n then (-1, fs, free)
     else case get_file idx fs of
       None \<Rightarrow> (-2, fs, drop n free)
     | Some f \<Rightarrow> if may_use pid f
         then (0, upd_file idx (\<lambda>f. f\<lparr>f_blocks := f_blocks f @ take n free\<rparr>) fs, drop n free)
         else (-3, fs, drop n free))"

text \<open>\<open>op\<close> does on the memory what \<open>spec\<close> does on the lists.\<close>

definition fs_does :: "'a fs_state_scheme \<Rightarrow> fs_file list \<Rightarrow> blocks \<Rightarrow> fs_lists \<Rightarrow> 'a fs_state_scheme \<Rightarrow> bool" where
  "fs_does s fs free r s' \<longleftrightarrow> fs_holds s' (fst r) (snd r) \<and> fs_only s s'
     \<and> same_outside (foot (fs_areas fs free)) (mem s) (mem s')"

lemma fs_does_same: "fs_holds s fs free \<Longrightarrow> fs_does s fs free (fs, free) s"
  by (simp add: fs_does_def)

lemma fs_holds_entry:
  assumes "fs_holds s (pre @ f # post) free"
  shows "file_at (mem s) f" and "blocks_disj (file_areas f)"
  using assms by (auto simp: fs_holds_def fs_areas_append)

lemma denied_iff: "file_at m f \<Longrightarrow> denied m pid (f_at f) \<longleftrightarrow> \<not> may_use pid f"
  by (auto simp: denied_def may_use_def file_at_def)

text \<open>Opening and closing set the owner.\<close>

lemma set_occupied:
  assumes holds: "fs_holds s (pre @ f # post) free"
  shows "fs_does s (pre @ f # post) free (pre @ f\<lparr>f_occ := v\<rparr> # post, free) (wr (f_at f + 24) v s)"
proof -
  let ?m = "st32 (mem s) (f_at f + 24) v"
  have e: "entries_at (mem s) (fentry_head s) (pre @ f # post) 0" and b: "blocks_at (mem s) (free_head s) free 0"
    and disj: "blocks_disj (fs_areas (pre @ f # post) free)" using holds by (simp_all add: fs_holds_def)
  have sub: "span (f_at f + 24) 4 \<subseteq> span (f_at f) 28" by (rule span_4_28) simp
  have so: "same_outside (span (f_at f) 28) (mem s) ?m" by (rule same_outside_st32 [OF sub])
  have d: "foot (concat (map file_areas pre)) \<inter> span (f_at f) 28 = {}" "foot (concat (map file_areas post)) \<inter> span (f_at f) 28 = {}"
    "foot (block_areas free) \<inter> span (f_at f) 28 = {}" "foot (block_areas (f_blocks f)) \<inter> span (f_at f) 28 = {}"
    using disj by (auto simp: fs_areas_def file_areas_def)
  have "file_at ?m (f\<lparr>f_occ := v\<rparr>)" "next_entry ?m (f_at f) = next_entry (mem s) (f_at f)"
    using fs_holds_entry(1) [OF holds] blocks_at_frame [OF so d(4)]
    by (simp_all add: file_at_def index_number_def occupied_def first_block_def next_entry_def)
  then have "entries_at ?m (fentry_head s) (pre @ f\<lparr>f_occ := v\<rparr> # post) 0"
    using entries_at_replace [OF e so d(1,2)] by simp
  moreover have "blocks_at ?m (free_head s) free 0" using b blocks_at_frame [OF so d(3)] by simp
  moreover have "span (f_at f) 28 \<subseteq> foot (fs_areas (pre @ f # post) free)" by (auto simp: fs_areas_def file_areas_def)
  from same_outside_mono [OF so this] have "same_outside (foot (fs_areas (pre @ f # post) free)) (mem s) ?m" .
  moreover have "fs_areas (pre @ f\<lparr>f_occ := v\<rparr> # post) free = fs_areas (pre @ f # post) free" by (simp add: fs_areas_def)
  ultimately show ?thesis using disj by (simp add: fs_does_def fs_holds_def wr_def)
qed

text \<open>The search of every operation.\<close>

lemma fe_find_cases:
  assumes "fs_holds s fs free"
  obtains (none) "get_file idx fs = None" "fe_find (mem s) idx 0 (fentry_head s) = Some (last_entry 0 fs, 0)"
  | (found) pre f post where "get_file idx fs = Some f" "fs = pre @ f # post" "f_no f = idx" "\<forall>g \<in> set pre. f_no g \<noteq> idx"
      "fe_find (mem s) idx 0 (fentry_head s) = Some (last_entry 0 pre, f_at f)" "file_at (mem s) f" "f_at f \<noteq> 0"
proof (cases "get_file idx fs")
  case None
  then show ?thesis using assms none fe_find_none [of "mem s" "fentry_head s" fs idx 0]
    by (auto simp: fs_holds_def get_file_None)
next
  case (Some f)
  then obtain pre post where fs: "fs = pre @ f # post" "f_no f = idx" "\<forall>g \<in> set pre. f_no g \<noteq> idx"
    using get_file_split by blast
  moreover have "fe_find (mem s) idx 0 (fentry_head s) = Some (last_entry 0 pre, f_at f)"
    using assms fe_find_some [of "mem s" "fentry_head s" pre f post 0] fs by (simp add: fs_holds_def)
  moreover have "file_at (mem s) f" using fs_holds_entry assms fs(1) by blast
  ultimately show ?thesis using found [OF Some] by (simp add: file_at_def)
qed

lemma open_file_ok:
  assumes holds: "fs_holds s fs free"
  shows "\<exists>s'. open_file pid idx s = Some (fst (open_spec pid idx (fs, free)), s')
    \<and> fs_does s fs free (snd (open_spec pid idx (fs, free))) s' \<and> io s' = io s"
  using holds
proof (cases rule: fe_find_cases [where idx = idx])
  case (found pre f post)
  then show ?thesis
    using fs_does_same [OF holds] set_occupied [of s pre f post free pid] holds denied_iff [OF found(6), of pid]
    by (auto simp: open_file_def open_spec_def wr_def)
qed (use fs_does_same [OF holds] in \<open>simp add: open_file_def open_spec_def\<close>)

lemma close_file_ok:
  assumes holds: "fs_holds s fs free"
  shows "\<exists>s'. close_file pid idx s = Some (fst (close_spec pid idx (fs, free)), s')
    \<and> fs_does s fs free (snd (close_spec pid idx (fs, free))) s' \<and> io s' = io s"
  using holds
proof (cases rule: fe_find_cases [where idx = idx])
  case (found pre f post)
  then show ?thesis
    using fs_does_same [OF holds] set_occupied [of s pre f post free "-1"] holds denied_iff [OF found(6), of pid]
    by (auto simp: close_file_def close_spec_def wr_def)
qed (use fs_does_same [OF holds] in \<open>simp add: close_file_def close_spec_def\<close>)

text \<open>New blocks \<open>new\<close> become the end of a file.\<close>

lemma fs_areas_move:
  "mset (fs_areas (pre @ f\<lparr>f_blocks := f_blocks f @ new\<rparr> # post) rest) = mset (fs_areas (pre @ f # post) (new @ rest))"
  by (simp add: fs_areas_def file_areas_def)

lemma hang_blocks:
  assumes holds: "fs_holds s (pre @ f # post) rest" and new: "blocks_at (mem s) p new 0"
    and disj: "blocks_disj (fs_areas (pre @ f # post) (new @ rest))"
  shows "\<exists>s'. (if first_block (mem s) (f_at f) \<noteq> 0
               then do { pt \<leftarrow> last_block (mem s) (first_block (mem s) (f_at f)); Some (wr pt p s) }
               else Some (wr (f_at f + 16) p s)) = Some s'
    \<and> fs_holds s' (pre @ f\<lparr>f_blocks := f_blocks f @ new\<rparr> # post) rest \<and> fs_only s s' \<and> io s' = io s
    \<and> same_outside (foot (file_areas f)) (mem s) (mem s') \<and> blocks_at (mem s') p new 0"
proof -
  have f: "file_at (mem s) f" and df: "blocks_disj (file_areas f)" using fs_holds_entry [OF holds] by blast+
  let ?f = "f\<lparr>f_blocks := f_blocks f @ new\<rparr>"
  have out: "foot (concat (map file_areas pre)) \<inter> foot (file_areas f) = {}" "foot (concat (map file_areas post)) \<inter> foot (file_areas f) = {}"
    "foot (block_areas new) \<inter> foot (file_areas f) = {}" "foot (block_areas rest) \<inter> foot (file_areas f) = {}"
    using disj by (auto simp: fs_areas_def)
  have does: "fs_holds (wr a p s) (pre @ ?f # post) rest \<and> same_outside (foot (file_areas f)) (mem s) (mem (wr a p s))
      \<and> blocks_at (mem (wr a p s)) p new 0"
    if "span a 4 \<subseteq> foot (file_areas f)" "file_at (st32 (mem s) a p) ?f"
      "next_entry (st32 (mem s) a p) (f_at f) = next_entry (mem s) (f_at f)" for a
  proof -
    have so: "same_outside (foot (file_areas f)) (mem s) (st32 (mem s) a p)" by (rule same_outside_st32 [OF that(1)])
    have "entries_at (mem s) (fentry_head s) (pre @ f # post) 0" "blocks_at (mem s) (free_head s) rest 0"
      using holds unfolding fs_holds_def by blast+
    moreover from entries_at_replace [OF this(1) so out(1,2) that(2) _ that(3)]
    have "entries_at (st32 (mem s) a p) (fentry_head s) (pre @ ?f # post) 0" by simp
    ultimately show ?thesis
      using blocks_at_frame [OF so out(3)] blocks_at_frame [OF so out(4)]
        blocks_disj_mset [OF fs_areas_move [of pre f new post rest]] disj new so
      by (simp add: fs_holds_def wr_def del: entries_at_append)
  qed
  show ?thesis
  proof (cases "f_blocks f" rule: rev_cases)
    case Nil
    then have "first_block (mem s) (f_at f) = 0" using f by (simp add: file_at_def)
    moreover have "span (f_at f + 16) 4 \<subseteq> foot (file_areas f)" using span_4_28 [of 16 "f_at f"] by (auto simp: file_areas_def)
    moreover have "foot (block_areas new) \<inter> span (f_at f) 28 = {}" using out(3) by (auto simp: file_areas_def)
    from file_at_first [OF f Nil new this]
    have "file_at (st32 (mem s) (f_at f + 16) p) ?f" "next_entry (st32 (mem s) (f_at f + 16) p) (f_at f) = next_entry (mem s) (f_at f)"
      by (simp_all add: Nil)
    ultimately show ?thesis using does [of "f_at f + 16"] by (simp add: wr_def)
  next
    case (snoc cs bd)
    obtain b d where b: "f_blocks f = cs @ [(b, d)]" using snoc by (cases bd) simp
    have blk: "blocks_at (mem s) (first_block (mem s) (f_at f)) (cs @ [(b, d)]) 0" using f b by (simp add: file_at_def)
    have "foot (block_areas new) \<inter> span b 8 = {}" using out(3) b by (auto simp: file_areas_def)
    from file_at_last [OF f b new this df]
    have "file_at (st32 (mem s) b p) ?f" "next_entry (st32 (mem s) b p) (f_at f) = next_entry (mem s) (f_at f)" by blast+
    moreover have "span b 4 \<subseteq> foot (file_areas f)" using span_4_8(1) [of b] b by (auto simp: file_areas_def)
    moreover have "first_block (mem s) (f_at f) \<noteq> 0" using blocks_at_zero [OF blk] by simp
    ultimately show ?thesis using does [of b] last_block_ok [OF blk] by (simp add: wr_def)
  qed
qed

lemma blocks_disj_fewer: "blocks_disj (fs_areas fs (new @ rest)) \<Longrightarrow> blocks_disj (fs_areas fs rest)"
  by (auto simp: fs_areas_def)

lemma same_outside_file: "foot (file_areas f) \<subseteq> foot (fs_areas (pre @ f # post) free)"
  by (auto simp: fs_areas_def)

lemma append_file_ok:
  fixes s :: "'a fs_state_scheme" and num :: u32
  assumes holds: "fs_holds s fs free" and hw: "has_sd hw at disk" and idle: "\<not> j_busy (sd_ctl (io s))"
  defines "n \<equiv> nat (sint num)"
  shows "\<exists>s'. append_file hw pid idx addr num s = Some (fst (append_spec pid idx n (fs, free)), s')
    \<and> fs_does s fs free (snd (append_spec pid idx n (fs, free))) s' \<and> \<not> j_busy (sd_ctl (io s'))
    \<and> j_writes (sd_ctl (io s')) = j_writes (sd_ctl (io s))
        @ (if fst (append_spec pid idx n (fs, free)) = 0 then write_jobs addr (take n free) else [])"
proof (cases "n = 0 \<or> length free < n")
  case True
  have "blocks_at (mem s) (free_head s) free 0" using holds by (simp add: fs_holds_def)
  from data_alloc_fails [OF this True [unfolded n_def]] obtain c where "data_alloc num s = (0, s\<lparr>con := c\<rparr>)" by blast
  then have "append_file hw pid idx addr num s = Some (-1, s\<lparr>con := c\<rparr>)" by (simp add: append_file_def)
  moreover have "fs_does s fs free (fs, free) (s\<lparr>con := c\<rparr>)" using holds by (simp add: fs_does_def fs_holds_def)
  ultimately show ?thesis using True idle by (simp add: append_spec_def)
next
  case False
  let ?new = "take n free" and ?rest = "drop n free"
  obtain bs b d where bs: "?new = bs @ [(b, d)]"
    using False by (cases "?new" rule: rev_cases) auto
  have free: "free = bs @ (b, d) # ?rest" using append_take_drop_id [of n free] unfolding bs by simp
  define s1 where "s1 = s\<lparr>mem := st32 (mem s) b 0, free_head := first_of ?rest\<rparr>"
  have f: "blocks_at (mem s) (free_head s) free 0" and disj: "blocks_disj (fs_areas fs free)"
    using holds by (simp_all add: fs_holds_def)
  have "0 < nat (sint num)" "nat (sint num) \<le> length free" using False by (auto simp: n_def)
  from data_alloc_gives [OF f this bs [unfolded n_def]]
  have alloc: "data_alloc num s = (first_of free, s1)" by (simp add: s1_def n_def)
  have p: "first_of free \<noteq> 0" using f blocks_at_first [OF f] False by (auto simp: blocks_at_zero [OF f])
  have split: "entries_at (mem s1) (fentry_head s1) fs 0" "blocks_at (mem s1) (first_of free) ?new 0"
    "blocks_at (mem s1) (free_head s1) ?rest 0"
    using data_alloc_splits [of s fs bs b d ?rest, folded free, OF holds refl] by (simp_all add: s1_def bs)
  have disj1: "blocks_disj (fs_areas fs (?new @ ?rest))" using disj by simp
  have holds1: "fs_holds s1 fs ?rest" using split blocks_disj_fewer [OF disj1] by (simp add: fs_holds_def)
  have "span b 4 \<subseteq> foot (block_areas free)" using span_4_8 [of b] by (subst free) auto
  then have so1: "same_outside (foot (fs_areas fs free)) (mem s) (mem s1)"
    by (simp add: s1_def) (intro same_outside_st32, auto simp: fs_areas_def)
  have only1: "fs_only s s1" "io s1 = io s" by (simp_all add: s1_def)
  have taken: "fs_does s fs free (fs, ?rest) s1" using holds1 only1 so1 by (simp add: fs_does_def)
  from holds1 show ?thesis
  proof (cases rule: fe_find_cases [where idx = idx])
    case none
    then have "append_file hw pid idx addr num s = Some (-2, s1)" using alloc p by (simp add: append_file_def)
    then show ?thesis using none False taken idle only1 by (simp add: append_spec_def)
  next
    case (found pre f post)
    show ?thesis
    proof (cases "may_use pid f")
      case no: False
      then have "append_file hw pid idx addr num s = Some (-3, s1)"
        using alloc p found denied_iff [OF found(6), of pid] by (simp add: append_file_def)
      then show ?thesis using found no False taken idle only1 by (simp add: append_spec_def)
    next
      case yes: True
      let ?f = "f\<lparr>f_blocks := f_blocks f @ ?new\<rparr>"
      from hang_blocks [of s1 pre f post ?rest "first_of free" ?new] obtain s2 where
        hang: "(if first_block (mem s1) (f_at f) \<noteq> 0
               then do { pt \<leftarrow> last_block (mem s1) (first_block (mem s1) (f_at f)); Some (wr pt (first_of free) s1) }
               else Some (wr (f_at f + 16) (first_of free) s1)) = Some s2"
        and 2: "fs_holds s2 (pre @ ?f # post) ?rest" "fs_only s1 s2" "io s2 = io s1"
          "same_outside (foot (file_areas f)) (mem s1) (mem s2)" "blocks_at (mem s2) (first_of free) ?new 0"
        using holds1 split(2) disj1 found(2) by metis
      have "\<not> j_busy (sd_ctl (io s2))" using idle 2(3) only1 by simp
      moreover have len: "length ?new = n" using False by simp
      ultimately obtain s3 where
        wrote: "loop (append_write hw addr) [0 ..< n] (first_of free, s2) = Some (0, s3)" and
        3: "dev_only s2 s3" "mem s3 = mem s2" "\<not> j_busy (sd_ctl (io s3))"
          "j_writes (sd_ctl (io s3)) = j_writes (sd_ctl (io s2)) @ write_jobs addr ?new"
        using append_writes [OF hw 2(5), of addr 0] unfolding write_jobs_def len add_0 by blast
      have run: "append_file hw pid idx addr num s = Some (0, s3)"
        using alloc p found denied_iff [OF found(6), of pid] yes hang wrote by (simp add: append_file_def n_def)
      have "fs_holds s3 (pre @ ?f # post) ?rest" and only3: "fs_only s2 s3" using 2(1) 3(2) dev_only_fs [OF 3(1)] by (simp_all add: fs_holds_def)
      moreover have "same_outside (foot (fs_areas fs free)) (mem s) (mem s3)"
        using same_outside_trans [OF so1 same_outside_mono [OF 2(4)]] same_outside_file [of f pre post free] found(2) 3(2) by simp
      ultimately have "fs_does s fs free (pre @ ?f # post, ?rest) s3"
        using fs_only_trans [OF fs_only_trans [OF only1(1) 2(2)] only3] by (simp add: fs_does_def)
      moreover have "append_spec pid idx n (fs, free) = (0, pre @ ?f # post, ?rest)"
        using found(1,3,4) yes False upd_file_split [of pre f] by (auto simp: append_spec_def found(2))
      ultimately show ?thesis using run 3 2(3) only1(2) by simp
    qed
  qed
qed

end
