(* ===== verification/Fs_Image.thy ===== *)
theory Fs_Image
  imports Fs_Correct
begin

text \<open>
  The file system on the card. The tables are a function from blocks to their successors and a list
  of files; the image is the same data with numbers of blocks instead of pointers. What
  \<open>checkpoint_fs\<close> puts into its buffer (\<open>write_image\<close>) describes the tables it was called with, and
  \<open>load_fs\<close> (\<open>read_image\<close>) builds tables that its buffer describes: the two are inverse, wherever the
  tables and the buffers lie.
\<close>

section \<open>Tables and images\<close>

record stored_file =
  s_no :: u32
  s_name :: "u8 list"
  s_first :: nat

text \<open>The \<open>j\<close>th block of the table at \<open>t\<close>, and no block.\<close>

definition blk :: "u32 \<Rightarrow> nat option \<Rightarrow> u32" where
  "blk t x = (case x of None \<Rightarrow> 0 | Some j \<Rightarrow> t + of_nat j * 8)"

definition blk_code :: "nat option \<Rightarrow> u32" where
  "blk_code x = (case x of None \<Rightarrow> -1 | Some j \<Rightarrow> of_nat j)"

definition in_range :: "nat option \<Rightarrow> bool" where
  "in_range x \<longleftrightarrow> (case x of None \<Rightarrow> True | Some j \<Rightarrow> j < n_blocks)"

definition entry_holds :: "memory \<Rightarrow> u32 \<Rightarrow> u32 \<Rightarrow> stored_file \<Rightarrow> bool" where
  "entry_holds m t q f \<longleftrightarrow> q \<noteq> 0 \<and> index_number m q = s_no f \<and> (\<forall>j < 10. m (file_name q + of_nat j) = s_name f ! j)
     \<and> first_block m q = blk t (Some (s_first f)) \<and> s_first f < n_blocks"

fun chain_holds :: "memory \<Rightarrow> u32 \<Rightarrow> u32 \<Rightarrow> u32 list \<Rightarrow> stored_file list \<Rightarrow> bool" where
  "chain_holds m t p [] fs \<longleftrightarrow> p = 0 \<and> fs = []"
| "chain_holds m t p (q # qs) [] \<longleftrightarrow> False"
| "chain_holds m t p (q # qs) (f # fs) \<longleftrightarrow> p = q \<and> entry_holds m t q f \<and> chain_holds m t (next_entry m q) qs fs"

definition table_holds :: "memory \<Rightarrow> u32 \<Rightarrow> (nat \<Rightarrow> nat option) \<Rightarrow> bool" where
  "table_holds m t nx \<longleftrightarrow> (\<forall>i < n_blocks. next_block m (blk t (Some i)) = blk t (nx i) \<and> in_range (nx i)
     \<and> ondisk_addr m (blk t (Some i)) = STORAGE_BASE + of_nat (i * 2 ^ 9))"

text \<open>The tables of a state: the free list begins at block \<open>h0\<close>, the entries are at \<open>qs\<close>.\<close>

definition tables_hold :: "'a fs_state_scheme \<Rightarrow> (nat \<Rightarrow> nat option) \<Rightarrow> nat option \<Rightarrow> u32 list \<Rightarrow> stored_file list \<Rightarrow> bool" where
  "tables_hold s nx h0 qs fs \<longleftrightarrow> table_holds (mem s) (db_table s) nx \<and> free_head s = blk (db_table s) h0 \<and> in_range h0
     \<and> chain_holds (mem s) (db_table s) (fentry_head s) qs fs"

definition stored_holds :: "memory \<Rightarrow> u32 \<Rightarrow> stored_file \<Rightarrow> bool" where
  "stored_holds m a f \<longleftrightarrow> stored_index m a = s_no f \<and> stored_addr m a = of_nat (s_first f * 2 ^ 9) \<and> s_first f < n_blocks
     \<and> (\<forall>j < 10. m (stored_name a + of_nat j) = s_name f ! j)"

definition image_size :: "nat \<Rightarrow> nat" where "image_size k = 4 * (n_blocks + 2) + 20 * k"

definition image_holds :: "memory \<Rightarrow> u32 \<Rightarrow> (nat \<Rightarrow> nat option) \<Rightarrow> nat option \<Rightarrow> stored_file list \<Rightarrow> bool" where
  "image_holds m va nx h0 fs \<longleftrightarrow> ld32 m va = blk_code h0 \<and> in_range h0
     \<and> (\<forall>i < n_blocks. ld32 m (va + of_nat (4 * (i + 1))) = blk_code (nx i) \<and> in_range (nx i))
     \<and> ld32 m (va + of_nat (4 * (n_blocks + 1))) = of_nat (length fs)
     \<and> (\<forall>i < length fs. stored_holds m (va + of_nat (image_size i)) (fs ! i))"

lemma n_blocks: "n_blocks = 32768"
  by (simp add: n_blocks_def STORAGE_SIZE_def)

section \<open>Pieces of an area\<close>

lemma unat_of_nat_small: "k < 2 ^ 32 \<Longrightarrow> unat (of_nat k :: u32) = k"
  by (rule unat_of_nat_u32) simp

lemma piece: "k + n \<le> l \<Longrightarrow> l \<le> 2 ^ 32 \<Longrightarrow> 0 < n \<Longrightarrow> span (a + of_nat k) n \<subseteq> span a l"
  using span_offset_subset [of "of_nat k" n l a] unat_of_nat_small [of k] by simp

lemma pieces_apart:
  assumes "k + n \<le> k'" and "k' + n' \<le> 2 ^ 32" and "0 < n'"
  shows "span (a + of_nat k) n \<inter> span (a + of_nat k') n' = {}"
proof (cases "n = 0")
  case False
  have d: "a + of_nat k' - (a + of_nat k) = of_nat (k' - k)" using assms(1) by (simp add: of_nat_diff)
  have u: "unat (of_nat (k' - k) :: u32) = k' - k" using assms by (intro unat_of_nat_small) simp
  show ?thesis
  proof (rule span_disjI)
    show "n \<le> unat (a + of_nat k' - (a + of_nat k))" unfolding d u using assms(1) by simp
    have "a + of_nat k \<noteq> a + of_nat k'" using u False assms(1) d by auto
    from unat_diff_flip [OF this] show "n' \<le> unat (a + of_nat k - (a + of_nat k'))" unfolding d u using assms by simp
  qed
qed (simp add: span_def)

text \<open>Pointers into the table.\<close>

lemma unat_blk: "j < n_blocks \<Longrightarrow> unat t + 8 * n_blocks \<le> 2 ^ 32 \<Longrightarrow> unat (blk t (Some j)) = unat t + 8 * j"
  using unat_of_nat_small [of "j * 8"] by (simp add: blk_def n_blocks unat_word_ariths)

lemma blk_nz: "j < n_blocks \<Longrightarrow> 0 < unat t \<Longrightarrow> unat t + 8 * n_blocks \<le> 2 ^ 32 \<Longrightarrow> blk t (Some j) \<noteq> 0"
  using unat_blk [of j t] by auto

lemma blk_code_eq:
  assumes "in_range x" and "0 < unat t" and "unat t + 8 * n_blocks \<le> 2 ^ 32"
  shows "(if blk t x = 0 then -1 else signed_drop_bit 3 (blk t x - t)) = blk_code x"
proof (cases x)
  case (Some j)
  then have j: "j < n_blocks" using assms(1) by (simp add: in_range_def)
  have "signed_drop_bit 3 (of_nat j * 8) = (of_nat j :: u32)"
  proof -
    have u: "uint (of_nat k :: u32) = int k" if "k < 2 ^ 31" for k
      using that by (simp add: unsigned_of_nat take_bit_nat_eq_self)
    have "sint (of_nat (j * 8) :: u32) = int (j * 8)" "sint (of_nat j :: u32) = int j"
      unfolding sint_u32 using u [of "j * 8"] u [of j] j by (simp_all add: n_blocks)
    then have "sint (signed_drop_bit 3 (of_nat j * 8) :: u32) = sint (of_nat j :: u32)"
      by (simp add: sint_signed_drop_bit_eq drop_bit_eq_div)
    then show ?thesis by (rule signed_word_eqI)
  qed
  then show ?thesis using blk_nz [OF j assms(2,3)] by (simp add: Some blk_def blk_code_def)
qed (simp add: blk_def blk_code_def)

section \<open>Writing\<close>

lemma db_blk: "db s i = blk (db_table s) (Some i)"
  by (simp add: db_def blk_def sizeof_datablock_t_def)

lemma fs_wr [simp]:
  "db_table (wr a v s) = db_table s" "free_head (wr a v s) = free_head s" "fentry_head (wr a v s) = fentry_head s"
  "fe_table (wr a v s) = fe_table s"
  by (simp_all add: wr_def)

lemma fs_mem:
  "db_table (s\<lparr>mem := m\<rparr>) = db_table s" "free_head (s\<lparr>mem := m\<rparr>) = free_head s" "fentry_head (s\<lparr>mem := m\<rparr>) = fentry_head s"
  "fe_table (s\<lparr>mem := m\<rparr>) = fe_table s"
  by simp_all

text \<open>The loop over the blocks.\<close>

lemma store_db_loop:
  fixes s :: "'a fs_state_scheme"
  assumes t: "table_holds (mem s) (db_table s) nx" and tab: "0 < unat (db_table s)" "unat (db_table s) + 8 * n_blocks \<le> 2 ^ 32"
    and apart: "span (db_table s) (8 * n_blocks) \<inter> span va l = {}" and l: "4 * (n_blocks + 1) \<le> l" "l \<le> 2 ^ 32"
  shows "k \<le> n_blocks \<Longrightarrow> \<exists>m. fold (store_db va) [0 ..< k] s = s\<lparr>mem := m\<rparr> \<and> same_outside (span (va + 4) (4 * k)) (mem s) m
    \<and> (\<forall>i < k. ld32 m (va + of_nat (4 * (i + 1))) = blk_code (nx i))"
proof (induction k)
  case 0
  show ?case by (rule exI [of _ "mem s"]) simp
next
  case (Suc k)
  then obtain m where m: "fold (store_db va) [0 ..< k] s = s\<lparr>mem := m\<rparr>" "same_outside (span (va + 4) (4 * k)) (mem s) m"
    "\<And>i. i < k \<Longrightarrow> ld32 m (va + of_nat (4 * (i + 1))) = blk_code (nx i)" by auto
  have k: "k < n_blocks" using Suc.prems by simp
  let ?b = "blk (db_table s) (Some k)"
  have "span ?b 4 \<subseteq> span (db_table s) (8 * n_blocks)"
    using piece [of "k * 8" 4 "8 * n_blocks" "db_table s"] k by (simp add: blk_def n_blocks)
  moreover have sub: "span (va + 4) (4 * k) \<subseteq> span va l"
  proof (cases "k = 0")
    case False
    then show ?thesis using piece [of 4 "4 * k" l va] k l by simp
  qed simp
  ultimately have "span ?b 4 \<inter> span (va + 4) (4 * k) = {}" using apart by blast
  from ld32_same_outside [OF m(2) this] have nb: "next_block m ?b = blk (db_table s) (nx k)"
    using t k by (simp add: next_block_def table_holds_def)
  have rng: "in_range (nx k)" using t k by (simp add: table_holds_def)
  have step: "store_db va k (s\<lparr>mem := m\<rparr>) = s\<lparr>mem := st32 m (va + of_nat (4 * (k + 1))) (blk_code (nx k))\<rparr>"
  proof -
    have "store_db va k (s\<lparr>mem := m\<rparr>) = wr (va + of_nat (4 * (k + 1)))
        (if blk (db_table s) (nx k) = 0 then -1 else signed_drop_bit 3 (blk (db_table s) (nx k) - db_table s)) (s\<lparr>mem := m\<rparr>)"
      by (simp add: store_db_def db_blk nb db_index_def)
    then show ?thesis unfolding blk_code_eq [OF rng tab] by (simp add: wr_def)
  qed
  let ?m = "st32 m (va + of_nat (4 * (k + 1))) (blk_code (nx k))"
  have "fold (store_db va) [0 ..< Suc k] s = s\<lparr>mem := ?m\<rparr>" using m(1) step by simp
  moreover have "same_outside (span (va + 4) (4 * Suc k)) (mem s) ?m"
  proof (rule same_outside_st32_trans)
    show "same_outside (span (va + 4) (4 * Suc k)) (mem s) m" by (rule same_outside_mono [OF m(2) span_mono]) simp
    show "span (va + of_nat (4 * (k + 1))) 4 \<subseteq> span (va + 4) (4 * Suc k)"
      using piece [of "4 * k" 4 "4 * Suc k" "va + 4"] k by (simp add: n_blocks algebra_simps)
  qed
  moreover have "ld32 ?m (va + of_nat (4 * (i + 1))) = blk_code (nx i)" if "i < Suc k" for i
  proof (cases "i = k")
    case False
    then have "span (va + of_nat (4 * (i + 1))) 4 \<inter> span (va + of_nat (4 * (k + 1))) 4 = {}"
      using that k by (intro pieces_apart) (simp_all add: n_blocks)
    then have "ld32 ?m (va + of_nat (4 * (i + 1))) = ld32 m (va + of_nat (4 * (i + 1)))" by (rule ld32_st32_disj)
    then show ?thesis using m(3) [of i] that False by simp
  qed simp
  ultimately show ?case by blast
qed

text \<open>What stores elsewhere leave alone.\<close>

lemma entry_fields_frame:
  assumes "same_outside A m m'" and "span q 28 \<inter> A = {}"
  shows "index_number m' q = index_number m q" and "first_block m' q = first_block m q" and "next_entry m' q = next_entry m q"
    and "occupied m' q = occupied m q" and "j < 10 \<Longrightarrow> m' (file_name q + of_nat j) = m (file_name q + of_nat j)"
proof -
  have f: "ld32 m' (q + of_nat k) = ld32 m (q + of_nat k)" if "k + 4 \<le> 28" for k
    by (rule ld32_same_outside [OF assms(1)]) (use piece [OF that, of q] assms(2) in auto)
  show "index_number m' q = index_number m q" "first_block m' q = first_block m q" "next_entry m' q = next_entry m q"
    "occupied m' q = occupied m q"
    using f [of 0] f [of 16] f [of 20] f [of 24] by (simp_all add: index_number_def first_block_def next_entry_def occupied_def)
  show "m' (file_name q + of_nat j) = m (file_name q + of_nat j)" if "j < 10"
  proof -
    have "span (q + of_nat (4 + j)) 1 \<subseteq> span q 28" using that by (intro piece) simp_all
    then have "q + of_nat (4 + j) \<notin> A" using assms(2) by auto
    then show ?thesis using same_outsideD [OF assms(1)] by (simp add: file_name_def add.assoc)
  qed
qed

lemma chain_frame:
  "same_outside A m m' \<Longrightarrow> (\<And>q. q \<in> set qs \<Longrightarrow> span q 28 \<inter> A = {}) \<Longrightarrow> chain_holds m t p qs fs \<Longrightarrow> chain_holds m' t p qs fs"
proof (induction m t p qs fs rule: chain_holds.induct)
  case (3 m t p q qs f fs)
  note fr = entry_fields_frame [OF "3.prems"(1), of q]
  have "entry_holds m' t q f" using "3.prems" fr by (simp add: entry_holds_def)
  then show ?case using "3.IH" "3.prems" fr(3) by simp
qed simp_all

lemma table_frame:
  assumes "same_outside A m m'" and "span t (8 * n_blocks) \<inter> A = {}" and "table_holds m t nx"
  shows "table_holds m' t nx"
proof -
  have "ld32 m' (t + of_nat k) = ld32 m (t + of_nat k)" if "k + 4 \<le> 8 * n_blocks" for k
    using ld32_same_outside [OF assms(1)] piece [OF that, of t] assms(2) by (auto simp: n_blocks)
  from this [of "i * 8" for i] this [of "i * 8 + 4" for i] show ?thesis
    using assms(3) by (simp add: table_holds_def next_block_def ondisk_addr_def blk_def add.assoc n_blocks)
qed

lemma stored_frame:
  assumes "same_outside A m m'" and "span a 20 \<inter> A = {}" and "stored_holds m a f"
  shows "stored_holds m' a f"
proof -
  have f: "ld32 m' (a + of_nat k) = ld32 m (a + of_nat k)" if "k + 4 \<le> 20" for k
    by (rule ld32_same_outside [OF assms(1)]) (use piece [OF that, of a] assms(2) in auto)
  have "m' (stored_name a + of_nat j) = m (stored_name a + of_nat j)" if "j < 10" for j
  proof -
    have "span (a + of_nat (8 + j)) 1 \<subseteq> span a 20" using that by (intro piece) simp_all
    then have "a + of_nat (8 + j) \<notin> A" using assms(2) by auto
    then show ?thesis using same_outsideD [OF assms(1)] by (simp add: stored_name_def add.assoc)
  qed
  then show ?thesis using assms(3) f [of 0] f [of 4] by (simp add: stored_holds_def stored_index_def stored_addr_def)
qed

subsection \<open>Entries\<close>

definition name_copy :: "u32 \<Rightarrow> u32 \<Rightarrow> memory \<Rightarrow> memory" where
  "name_copy dst src m = (\<lambda>x. if unat (x - dst) < 10 then m (src + (x - dst)) else m x)"

lemma copy_name_eq:
  fixes s :: "'a machine_scheme"
  assumes "span dst 10 \<inter> span src 10 = {}"
  shows "copy_name dst src s = s\<lparr>mem := name_copy dst src (mem s)\<rparr>"
proof -
  have "fold (\<lambda>j s. poke (dst + of_nat j) (mem s (src + of_nat j)) s) [0 ..< k] s
      = s\<lparr>mem := \<lambda>x. if unat (x - dst) < k then mem s (src + (x - dst)) else mem s x\<rparr>" if "k \<le> 10" for k
    using that
  proof (induction k)
    case (Suc k)
    have u: "unat (of_nat k :: u32) = k" using Suc.prems by (intro unat_of_nat_small) simp
    have x: "x = dst + of_nat k \<longleftrightarrow> unat (x - dst) = k" for x
    proof -
      have "x = dst + of_nat k \<longleftrightarrow> x - dst = of_nat k" by (simp add: diff_eq_eq add.commute)
      then show ?thesis by (simp only: word_unat_eq_iff u)
    qed
    have "src + of_nat k \<in> span src 10" using Suc.prems u by (simp add: span_def)
    then have "src + of_nat k \<notin> span dst 10" using assms by blast
    then have far: "\<not> unat (src + of_nat k - dst) < k" using Suc.prems by (simp add: span_def)
    have "src + of_nat k = src + (y - dst)" if "unat (y - dst) = k" for y
      using that x [of y] by simp
    then show ?case using Suc far by (auto simp: poke_def fun_eq_iff less_Suc_eq x)
  qed simp
  from this [of 10] show ?thesis by (simp add: copy_name_def name_copy_def)
qed

lemma count_chain: "chain_holds m t p qs fs \<Longrightarrow> count_entries m p n = Some (n + length fs)"
proof (induction m t p qs fs arbitrary: n rule: chain_holds.induct)
  case (1 m t p fs)
  then show ?case by (subst count_entries.simps) simp
next
  case (3 m t p q qs f fs)
  then show ?case by (subst count_entries.simps) (simp add: entry_holds_def)
qed simp

text \<open>One entry in the image.\<close>

lemma store_entry:
  fixes s :: "'a machine_scheme"
  assumes e: "entry_holds (mem s) t q f" and t: "table_holds (mem s) t nx" and tab: "0 < unat t" "unat t + 8 * n_blocks \<le> 2 ^ 32"
    and q: "span q 28 \<inter> span a 20 = {}" and a: "span t (8 * n_blocks) \<inter> span a 20 = {}" and arr: "a = arr2 + of_nat i * 20"
  shows "\<exists>m. store_entries arr2 q i s = store_entries arr2 (next_entry (mem s) q) (i + 1) (s\<lparr>mem := m\<rparr>)
    \<and> same_outside (span a 20) (mem s) m \<and> stored_holds m a f"
proof -
  define m1 where "m1 = st32 (mem s) a (s_no f)"
  have so1: "same_outside (span a 20) (mem s) m1" unfolding m1_def by (rule same_outside_st32 [OF span_mono]) simp
  have fb: "first_block m1 q = blk t (Some (s_first f))"
    using entry_fields_frame(2) [OF so1 q] e by (simp add: entry_holds_def)
  have k: "s_first f < n_blocks" using e by (simp add: entry_holds_def)
  have nz: "blk t (Some (s_first f)) \<noteq> 0" by (rule blk_nz [OF k tab])
  have ad: "ondisk_addr m1 (blk t (Some (s_first f))) = STORAGE_BASE + of_nat (s_first f * 2 ^ 9)"
    using table_frame [OF so1 a t] k by (simp add: table_holds_def)
  define m2 where "m2 = st32 m1 (a + 4) (of_nat (s_first f * 2 ^ 9))"
  have so2: "same_outside (span a 20) (mem s) m2"
    unfolding m2_def by (rule same_outside_st32_trans [OF so1]) (use span_offset_subset [of 4 4 20 a] in simp)
  have "span (stored_name a) 10 \<subseteq> span a 20" using span_offset_subset [of 8 10 20 a] by (simp add: stored_name_def)
  moreover have "span (file_name q) 10 \<subseteq> span q 28" using span_offset_subset [of 4 10 28 q] by (simp add: file_name_def)
  ultimately have dj: "span (stored_name a) 10 \<inter> span (file_name q) 10 = {}" using q by blast
  define m3 where "m3 = name_copy (stored_name a) (file_name q) m2"
  have so23: "same_outside (span (stored_name a) 10) m2 m3" by (simp add: m3_def name_copy_def same_outside_def span_def)
  have so3: "same_outside (span a 20) (mem s) m3"
    by (rule same_outside_trans [OF so2 same_outside_mono [OF so23 \<open>span (stored_name a) 10 \<subseteq> span a 20\<close>]])
  have copy: "copy_name (stored_name a) (file_name q) (s\<lparr>mem := m2\<rparr>) = s\<lparr>mem := m3\<rparr>"
    using copy_name_eq [OF dj, of "s\<lparr>mem := m2\<rparr>"] by (simp add: m3_def)
  have i1: "index_number (mem s) q = s_no f" "q \<noteq> 0" using e by (simp_all add: entry_holds_def)
  have w1: "wr a (s_no f) s = s\<lparr>mem := m1\<rparr>" by (simp add: wr_def m1_def)
  have w2: "wr (a + 4) (of_nat (s_first f * 2 ^ 9)) (s\<lparr>mem := m1\<rparr>) = s\<lparr>mem := m2\<rparr>" by (simp add: wr_def m2_def)
  have step: "store_entries arr2 q i s = store_entries arr2 (next_entry m3 q) (i + 1) (s\<lparr>mem := m3\<rparr>)"
    using i1(2) nz w2 by (subst store_entries.simps)
      (simp add: arr [symmetric] sizeof_fentry_stored_t_def i1 m1_def [symmetric] w1 fb ad copy deref_def del: of_nat_mult of_nat_power)
  have w: "ld32 m3 (a + of_nat j) = ld32 m2 (a + of_nat j)" if "j + 4 \<le> 8" for j
  proof (rule ld32_same_outside [OF so23])
    show "span (a + of_nat j) 4 \<inter> span (stored_name a) 10 = {}"
      using pieces_apart [of j 4 8 10 a] that by (simp add: stored_name_def)
  qed
  have "m3 (stored_name a + of_nat j) = s_name f ! j" if "j < 10" for j
  proof -
    have u: "unat (of_nat j :: u32) = j" using that by (intro unat_of_nat_small) simp
    have "m3 (stored_name a + of_nat j) = m2 (file_name q + of_nat j)" using u that by (simp add: m3_def name_copy_def)
    also have "\<dots> = mem s (file_name q + of_nat j)" by (rule entry_fields_frame(5) [OF so2 q that])
    finally show ?thesis using e that by (simp add: entry_holds_def)
  qed
  then have "stored_holds m3 a f" using w [of 0] w [of 4] k by (simp add: stored_holds_def stored_index_def stored_addr_def m2_def m1_def)
  moreover have "next_entry m3 q = next_entry (mem s) q" by (rule entry_fields_frame(3) [OF so3 q])
  ultimately show ?thesis using step so3 by metis
qed

lemma image_size_step: "image_size (k + j) = image_size k + 20 * j"
  by (simp add: image_size_def)

text \<open>All entries, from the \<open>i\<close>th on.\<close>

lemma store_chain:
  fixes s :: "'a machine_scheme"
  assumes tab: "0 < unat t" "unat t + 8 * n_blocks \<le> 2 ^ 32" and l: "l \<le> 2 ^ 32" and apart: "span t (8 * n_blocks) \<inter> span va l = {}"
  shows "chain_holds (mem s) t p qs fs \<Longrightarrow> table_holds (mem s) t nx \<Longrightarrow> (\<And>q. q \<in> set qs \<Longrightarrow> span q 28 \<inter> span va l = {}) \<Longrightarrow>
    image_size (i + length fs) \<le> l \<Longrightarrow>
    \<exists>m. store_entries (va + of_nat (image_size 0)) p i s = Some (s\<lparr>mem := m\<rparr>)
      \<and> same_outside (span (va + of_nat (image_size i)) (20 * length fs)) (mem s) m
      \<and> (\<forall>j < length fs. stored_holds m (va + of_nat (image_size (i + j))) (fs ! j))"
proof (induction fs arbitrary: s p qs i)
  case Nil
  then have "p = 0" by (cases qs) simp_all
  then show ?case by (intro exI [of _ "mem s"]) (subst store_entries.simps, simp)
next
  case (Cons f fs)
  then obtain q qs' where qs: "qs = q # qs'" by (cases qs) simp_all
  have p: "p = q" and e: "entry_holds (mem s) t q f" and c: "chain_holds (mem s) t (next_entry (mem s) q) qs' fs"
    using Cons.prems(1) by (simp_all add: qs)
  define a where "a = va + of_nat (image_size i)"
  have sub: "span a 20 \<subseteq> span va l"
    unfolding a_def using Cons.prems(4) l by (intro piece) (simp_all add: image_size_def)
  have qa: "span q 28 \<inter> span a 20 = {}" and ta: "span t (8 * n_blocks) \<inter> span a 20 = {}"
    using Cons.prems(3) [of q] sub apart by (auto simp: qs)
  have arr: "a = va + of_nat (image_size 0) + of_nat i * 20"
    by (simp add: a_def image_size_def)
  from store_entry [OF e Cons.prems(2) tab qa ta arr] obtain m where
    m: "store_entries (va + of_nat (image_size 0)) q i s
        = store_entries (va + of_nat (image_size 0)) (next_entry (mem s) q) (i + 1) (s\<lparr>mem := m\<rparr>)"
      "same_outside (span a 20) (mem s) m" "stored_holds m a f" by blast
  have qd: "span q' 28 \<inter> span a 20 = {}" if "q' \<in> set qs'" for q' using Cons.prems(3) [of q'] sub that by (auto simp: qs)
  have c': "chain_holds (mem (s\<lparr>mem := m\<rparr>)) t (next_entry (mem s) q) qs' fs" using chain_frame [OF m(2) qd c] by simp
  have t': "table_holds (mem (s\<lparr>mem := m\<rparr>)) t nx" using table_frame [OF m(2) ta Cons.prems(2)] by simp
  have l': "image_size (i + 1 + length fs) \<le> l" using Cons.prems(4) by simp
  from Cons.IH [OF c' t' _ l'] Cons.prems(3) obtain m' where
    m': "store_entries (va + of_nat (image_size 0)) (next_entry (mem s) q) (i + 1) (s\<lparr>mem := m\<rparr>) = Some (s\<lparr>mem := m'\<rparr>)"
      "same_outside (span (va + of_nat (image_size (i + 1))) (20 * length fs)) m m'"
      "\<And>j. j < length fs \<Longrightarrow> stored_holds m' (va + of_nat (image_size (i + 1 + j))) (fs ! j)" by (auto simp: qs)
  have "stored_holds m' a f"
  proof (rule stored_frame [OF m'(2) _ m(3)])
    show "span a 20 \<inter> span (va + of_nat (image_size (i + 1))) (20 * length fs) = {}"
    proof (cases "fs = []")
      case False
      then show ?thesis unfolding a_def
        using Cons.prems(4) l by (intro pieces_apart) (simp_all add: image_size_def)
    qed (simp add: span_def)
  qed
  then have "stored_holds m' (va + of_nat (image_size (i + j))) ((f # fs) ! j)" if "j < length (f # fs)" for j
    using m'(3) [of "j - 1"] that by (cases j) (simp_all add: a_def)
  moreover have "same_outside (span a (20 * length (f # fs))) (mem s) m'"
  proof (rule same_outside_trans [OF same_outside_mono [OF m(2)] same_outside_mono [OF m'(2)]])
    show "span a 20 \<subseteq> span a (20 * length (f # fs))" by (rule span_mono) simp
    show "span (va + of_nat (image_size (i + 1))) (20 * length fs) \<subseteq> span a (20 * length (f # fs))"
    proof (cases "fs = []")
      case False
      have e: "va + of_nat (image_size (i + 1)) = a + of_nat 20" by (simp add: a_def image_size_def)
      show ?thesis unfolding e using piece [of 20 "20 * length fs" "20 * length (f # fs)" a] False Cons.prems(4) l by (simp add: image_size_def)
    qed (simp add: span_def)
  qed
  moreover have "store_entries (va + of_nat (image_size 0)) p i s = Some (s\<lparr>mem := m'\<rparr>)" using m(1) m'(1) p by simp
  ultimately show ?case unfolding a_def by (intro exI [of _ m']) blast
qed

text \<open>What \<open>checkpoint_fs\<close> prepares for the card.\<close>

lemma write_image_ok:
  fixes s :: "'a fs_state_scheme"
  assumes h: "tables_hold s nx h0 qs fs" and tab: "0 < unat (db_table s)" "unat (db_table s) + 8 * n_blocks \<le> 2 ^ 32"
    and l: "image_size (length fs) \<le> l" "l \<le> 2 ^ 32" and apart: "span (db_table s) (8 * n_blocks) \<inter> span va l = {}"
    and entries: "\<And>q. q \<in> set qs \<Longrightarrow> span q 28 \<inter> span va l = {}"
  shows "\<exists>m. write_image va s = Some (s\<lparr>mem := m\<rparr>) \<and> same_outside (span va l) (mem s) m \<and> image_holds m va nx h0 fs"
proof -
  have t: "table_holds (mem s) (db_table s) nx" and fh: "free_head s = blk (db_table s) h0" and h0: "in_range h0"
    and c: "chain_holds (mem s) (db_table s) (fentry_head s) qs fs"
    using h by (simp_all add: tables_hold_def)
  have n: "4 * (n_blocks + 1) \<le> l" using l(1) by (simp add: image_size_def)
  define m1 where "m1 = st32 (mem s) va (blk_code h0)"
  have w1: "wr va (if free_head s = 0 then -1 else db_index s (free_head s)) s = s\<lparr>mem := m1\<rparr>"
    unfolding fh db_index_def blk_code_eq [OF h0 tab] by (simp add: wr_def m1_def)
  have so1: "same_outside (span va l) (mem s) m1" unfolding m1_def
    using n by (intro same_outside_st32 span_mono) simp
  let ?s1 = "s\<lparr>mem := m1\<rparr>"
  have t1: "table_holds (mem ?s1) (db_table ?s1) nx" using table_frame [OF so1 apart t] by simp
  have "\<exists>m. fold (store_db va) [0 ..< n_blocks] ?s1 = ?s1\<lparr>mem := m\<rparr> \<and> same_outside (span (va + 4) (4 * n_blocks)) (mem ?s1) m
    \<and> (\<forall>i < n_blocks. ld32 m (va + of_nat (4 * (i + 1))) = blk_code (nx i))"
    by (rule store_db_loop [OF t1, where l = l]) (use tab apart n l in simp_all)
  then obtain m2 where m2: "fold (store_db va) [0 ..< n_blocks] ?s1 = s\<lparr>mem := m2\<rparr>"
    "same_outside (span (va + 4) (4 * n_blocks)) m1 m2" "\<And>i. i < n_blocks \<Longrightarrow> ld32 m2 (va + of_nat (4 * (i + 1))) = blk_code (nx i)" by auto
  have so2: "same_outside (span va l) (mem s) m2"
  proof (rule same_outside_trans [OF so1 same_outside_mono [OF m2(2)]])
    show "span (va + 4) (4 * n_blocks) \<subseteq> span va l" using piece [of 4 "4 * n_blocks" l va] n l by (simp add: n_blocks)
  qed
  define c1 where "c1 = va + of_nat (4 * (n_blocks + 1))"
  define m3 where "m3 = st32 m2 c1 (of_nat (length fs))"
  have c1: "va + (drop_bit 9 STORAGE_SIZE + 1) * 4 = c1" "c1 + 4 = va + of_nat (image_size 0)"
    by (simp_all add: c1_def n_blocks STORAGE_SIZE_def image_size_def)
  have so3: "same_outside (span va l) (mem s) m3" unfolding m3_def
  proof (rule same_outside_st32_trans [OF so2])
    show "span c1 4 \<subseteq> span va l" unfolding c1_def using l by (intro piece) (simp_all add: image_size_def)
  qed
  let ?s3 = "s\<lparr>mem := m3\<rparr>"
  have c3: "chain_holds (mem ?s3) (db_table s) (fentry_head s) qs fs" using chain_frame [OF so3 entries c] by simp
  have t3: "table_holds (mem ?s3) (db_table s) nx" using table_frame [OF so3 apart t] by simp
  have l3: "image_size (0 + length fs) \<le> l" using l by simp
  from store_chain [OF tab l(2) apart c3 t3 entries l3] obtain m4 where
    m4: "store_entries (va + of_nat (image_size 0)) (fentry_head s) 0 ?s3 = Some (s\<lparr>mem := m4\<rparr>)"
      "same_outside (span (va + of_nat (image_size 0)) (20 * length fs)) m3 m4"
      "\<And>j. j < length fs \<Longrightarrow> stored_holds m4 (va + of_nat (image_size j)) (fs ! j)" by auto
  have c2: "chain_holds m2 (db_table s) (fentry_head s) qs fs" by (rule chain_frame [OF so2 entries c])
  have "write_image va s = Some (s\<lparr>mem := m4\<rparr>)"
    unfolding write_image_def Let_def w1 m2(1) c1
    using count_chain [OF c2, of 0] m4(1) by (simp add: wr_def m3_def [symmetric] c1)
  moreover have so4: "same_outside (span va l) (mem s) m4"
  proof (rule same_outside_trans [OF so3 same_outside_mono [OF m4(2)]])
    show "span (va + of_nat (image_size 0)) (20 * length fs) \<subseteq> span va l"
    proof (cases "fs = []")
      case False
      then show ?thesis using l by (intro piece) (simp_all add: image_size_def)
    qed (simp add: span_def)
  qed
  moreover have "image_holds m4 va nx h0 fs"
  proof -
    have late: "ld32 m4 (va + of_nat k) = ld32 m3 (va + of_nat k)" if "k + 4 \<le> image_size 0" for k
    proof (rule ld32_same_outside [OF m4(2)])
      show "span (va + of_nat k) 4 \<inter> span (va + of_nat (image_size 0)) (20 * length fs) = {}"
      proof (cases "fs = []")
        case False
        then show ?thesis using that l by (intro pieces_apart) (simp_all add: image_size_def)
      qed (simp add: span_def)
    qed
    have m3_low: "ld32 m3 (va + of_nat k) = ld32 m2 (va + of_nat k)" if "k + 4 \<le> 4 * (n_blocks + 1)" for k
      unfolding m3_def c1_def using that by (intro ld32_st32_disj pieces_apart) (simp_all add: n_blocks)
    have "ld32 m2 (va + of_nat 0) = ld32 m1 (va + of_nat 0)"
    proof (rule ld32_same_outside [OF m2(2)])
      show "span (va + of_nat 0) 4 \<inter> span (va + 4) (4 * n_blocks) = {}"
        using pieces_apart [of 0 4 4 "4 * n_blocks" va] by (simp add: n_blocks)
    qed
    then have "ld32 m4 va = blk_code h0" using late [of 0] m3_low [of 0] by (simp add: image_size_def m1_def)
    moreover have "ld32 m4 (va + of_nat (4 * (i + 1))) = blk_code (nx i)" if "i < n_blocks" for i
      using late [of "4 * (i + 1)"] m3_low [of "4 * (i + 1)"] m2(3) [OF that] that by (simp add: image_size_def)
    moreover have "ld32 m4 (va + of_nat (4 * (n_blocks + 1))) = of_nat (length fs)"
      using late [of "4 * (n_blocks + 1)"] by (simp add: image_size_def m3_def c1_def)
    ultimately show ?thesis using m4(3) t h0 by (simp add: image_holds_def table_holds_def)
  qed
  ultimately show ?thesis by blast
qed

section \<open>Reading\<close>

lemma blk_code_inj: "in_range x \<Longrightarrow> (blk_code x = -1) = (x = None)"
proof (cases x)
  case (Some j)
  assume "in_range x"
  then have "unat (of_nat j :: u32) = j" "j < 32768" using Some unat_of_nat_small [of j] by (simp_all add: in_range_def n_blocks)
  moreover have "(-1 :: u32) = 0xFFFFFFFF" by simp
  then have "unat (-1 :: u32) = 4294967295" by (simp only:) simp
  ultimately have "of_nat j \<noteq> (-1 :: u32)" by auto
  then show ?thesis using Some by (simp add: blk_code_def)
qed (simp add: blk_code_def)

text \<open>The table of blocks.\<close>

lemma load_db_loop:
  fixes s :: "'a fs_state_scheme"
  assumes im: "\<And>i. i < n_blocks \<Longrightarrow> ld32 (mem s) (va + of_nat (4 * (i + 1))) = blk_code (nx i) \<and> in_range (nx i)"
    and t: "t = db_table s" and tab: "unat t + 8 * n_blocks \<le> 2 ^ 32"
    and apart: "span t (8 * n_blocks) \<inter> span va l = {}" and l: "4 * (n_blocks + 1) \<le> l" "l \<le> 2 ^ 32"
  shows "k \<le> n_blocks \<Longrightarrow> \<exists>m. fold (load_db (va + 4)) [0 ..< k] s = s\<lparr>mem := m\<rparr> \<and> same_outside (span t (8 * k)) (mem s) m
    \<and> (\<forall>i < k. next_block m (blk t (Some i)) = blk t (nx i) \<and> ondisk_addr m (blk t (Some i)) = STORAGE_BASE + of_nat (i * 2 ^ 9))"
proof (induction k)
  case 0
  show ?case by (rule exI [of _ "mem s"]) simp
next
  case (Suc k)
  then obtain m where m: "fold (load_db (va + 4)) [0 ..< k] s = s\<lparr>mem := m\<rparr>" "same_outside (span t (8 * k)) (mem s) m"
    "\<And>i. i < k \<Longrightarrow> next_block m (blk t (Some i)) = blk t (nx i) \<and> ondisk_addr m (blk t (Some i)) = STORAGE_BASE + of_nat (i * 2 ^ 9)"
    by auto
  have k: "k < n_blocks" using Suc.prems by simp
  define b where "b = blk t (Some k)"
  have b: "b = t + of_nat (8 * k)" by (simp add: b_def blk_def mult.commute)
  define m1 where "m1 = st32 m (b + 4) (STORAGE_BASE + of_nat (k * 2 ^ 9))"
  have bsub: "span b 8 \<subseteq> span t (8 * Suc k)" unfolding b using k by (intro piece) (simp_all add: n_blocks)
  have so1: "same_outside (span t (8 * Suc k)) (mem s) m1" unfolding m1_def
  proof (rule same_outside_st32_trans [OF same_outside_mono [OF m(2) span_mono]])
    show "span (b + 4) 4 \<subseteq> span t (8 * Suc k)" using bsub span_offset_subset [of 4 4 8 b] by (simp add: subset_trans)
  qed simp
  have "span (va + of_nat (4 * (k + 1))) 4 \<subseteq> span va l" using l k by (intro piece) simp_all
  moreover have "span t (8 * Suc k) \<subseteq> span t (8 * n_blocks)" using k by (intro span_mono) simp
  ultimately have "span (va + of_nat (4 * (k + 1))) 4 \<inter> span t (8 * Suc k) = {}" using apart by blast
  from ld32_same_outside [OF so1 this] have v: "ld32 m1 (va + of_nat (4 * (k + 1))) = blk_code (nx k)" using im [OF k] by simp
  define m2 where "m2 = st32 m1 b (blk t (nx k))"
  have step: "load_db (va + 4) k (s\<lparr>mem := m\<rparr>) = s\<lparr>mem := m2\<rparr>"
  proof -
    have w: "wr (b + 4) (STORAGE_BASE + of_nat (k * 2 ^ 9)) (s\<lparr>mem := m\<rparr>) = s\<lparr>mem := m1\<rparr>" by (simp add: wr_def m1_def)
    have e: "va + 4 + 4 * of_nat k = va + of_nat (4 * (k + 1))" by (simp add: algebra_simps)
    have v2: "rd (s\<lparr>mem := m1\<rparr>) (va + 4 + 4 * of_nat k) = blk_code (nx k)" unfolding e using v by (simp add: rd_def)
    have target: "(if blk_code (nx k) = -1 then 0 else t + blk_code (nx k) * 8) = blk t (nx k)"
      using blk_code_inj [of "nx k"] im [OF k] by (cases "nx k") (simp_all add: blk_def blk_code_def)
    show ?thesis
      unfolding load_db_def Let_def db_blk fs_mem t [symmetric] b_def [symmetric] sizeof_datablock_t_def w v2 target
      by (simp add: wr_def m2_def)
  qed
  have so2: "same_outside (span t (8 * Suc k)) (mem s) m2" unfolding m2_def
    by (rule same_outside_st32_trans [OF so1]) (use bsub span_mono [of 4 8 b] in auto)
  have "next_block m2 (blk t (Some i)) = blk t (nx i) \<and> ondisk_addr m2 (blk t (Some i)) = STORAGE_BASE + of_nat (i * 2 ^ 9)" if "i < Suc k" for i
  proof (cases "i = k")
    case True
    then show ?thesis by (simp add: b_def [symmetric] next_block_def ondisk_addr_def m2_def m1_def)
  next
    case False
    then have i: "i < k" using that by simp
    have bi: "blk t (Some i) = t + of_nat (8 * i)" by (simp add: blk_def mult.commute)
    have "span b 8 \<inter> span (blk t (Some i)) 8 = {}"
      unfolding b bi using i k by (subst Int_commute, intro pieces_apart) (simp_all add: n_blocks)
    from ld32_st32_structs [OF this] have "ld32 m2 (blk t (Some i)) = ld32 m (blk t (Some i))" "ld32 m2 (blk t (Some i) + 4) = ld32 m (blk t (Some i) + 4)"
      unfolding m2_def m1_def by simp_all
    then show ?thesis using m(3) [OF i] by (simp add: next_block_def ondisk_addr_def)
  qed
  then show ?case using m(1) step so2 by (intro exI [of _ m2]) simp
qed

text \<open>One entry: only the console and the entry change.\<close>

definition fe_at :: "u32 \<Rightarrow> nat \<Rightarrow> u32" where "fe_at e i = e + of_nat (28 * i)"

lemma fe_fe_at: "fe s i = fe_at (fe_table s) i"
  by (simp add: fe_def fe_at_def sizeof_fentry_t_def mult.commute)

lemma puts_says: "\<exists>c. uart_spin_puts str s = s\<lparr>con := c\<rparr>" "\<exists>c. puthex v s = s\<lparr>con := c\<rparr>"
  by (auto simp: uart_spin_puts_def puthex_def kputs_def)

lemma load_fe_step:
  fixes s :: "'a fs_state_scheme"
  assumes st: "stored_holds (mem s) (va + of_nat (image_size i)) f" and q: "q = fe_at (fe_table s) i" "q \<noteq> 0"
    and apart: "span q 28 \<inter> span (va + of_nat (image_size i)) 20 = {}"
  shows "\<exists>m c. load_fe (va + of_nat (image_size 0)) cnt i s = s\<lparr>mem := m, con := c\<rparr> \<and> same_outside (span q 28) (mem s) m
    \<and> entry_holds m (db_table s) q f \<and> occupied m q = -1
    \<and> next_entry m q = (if i + 1 < cnt then fe_at (fe_table s) (i + 1) else 0)"
proof -
  define a where "a = va + of_nat (image_size i)"
  have arr: "va + of_nat (image_size 0) + of_nat i * 20 = a" by (simp add: a_def image_size_def)
  define n where "n = (if i + 1 < cnt then fe_at (fe_table s) (i + 1) else 0)"
  have k: "s_first f < n_blocks" using st by (simp add: stored_holds_def)
  have addr: "drop_bit 9 (of_nat (s_first f * 2 ^ 9) :: u32) = of_nat (s_first f)"
  proof -
    have "unat (of_nat (s_first f * 2 ^ 9) :: u32) = s_first f * 2 ^ 9" "unat (of_nat (s_first f) :: u32) = s_first f"
      using k by (intro unat_of_nat_small; simp add: n_blocks)+
    then show ?thesis by (simp add: word_unat_eq_iff unsigned_drop_bit_eq drop_bit_eq_div unat_div del: of_nat_mult of_nat_power)
  qed
  define m1 where "m1 = st32 (mem s) q (s_no f)"
  define m2 where "m2 = st32 m1 (q + 20) n"
  define m3 where "m3 = st32 m2 (q + 16) (blk (db_table s) (Some (s_first f)))"
  define m4 where "m4 = st32 m3 (q + 24) (-1)"
  define m5 where "m5 = name_copy (file_name q) (stored_name a) m4"
  have sub: "span q 4 \<subseteq> span q 28" "span (q + 20) 4 \<subseteq> span q 28" "span (q + 16) 4 \<subseteq> span q 28" "span (q + 24) 4 \<subseteq> span q 28"
    "span (file_name q) 10 \<subseteq> span q 28"
    using span_mono [of 4 28 q] span_offset_subset [of 20 4 28 q] span_offset_subset [of 16 4 28 q] span_offset_subset [of 24 4 28 q]
      span_offset_subset [of 4 10 28 q] by (simp_all add: file_name_def)
  have so1: "same_outside (span q 28) (mem s) m1" unfolding m1_def by (rule same_outside_st32 [OF sub(1)])
  have so2: "same_outside (span q 28) (mem s) m2" unfolding m2_def by (rule same_outside_st32_trans [OF so1 sub(2)])
  have so3: "same_outside (span q 28) (mem s) m3" unfolding m3_def by (rule same_outside_st32_trans [OF so2 sub(3)])
  have so4: "same_outside (span q 28) (mem s) m4" unfolding m4_def by (rule same_outside_st32_trans [OF so3 sub(4)])
  have so45: "same_outside (span (file_name q) 10) m4 m5" by (simp add: m5_def name_copy_def same_outside_def span_def)
  have so5: "same_outside (span q 28) (mem s) m5" by (rule same_outside_trans [OF so4 same_outside_mono [OF so45 sub(5)]])
  have ap: "span a 20 \<inter> span q 28 = {}" using apart unfolding a_def by blast
  have st_i: "stored_index (mem s) a = s_no f" using st by (simp add: a_def stored_holds_def)
  have st_a: "stored_addr m2 a = of_nat (s_first f * 2 ^ 9)" "stored_addr m3 a = of_nat (s_first f * 2 ^ 9)"
    and st4: "stored_holds m4 a f"
    using stored_frame [OF so2 ap] stored_frame [OF so3 ap] stored_frame [OF so4 ap] st by (simp_all add: a_def [symmetric] stored_holds_def)
  have "span (stored_name a) 10 \<subseteq> span a 20" using span_offset_subset [of 8 10 20 a] by (simp add: stored_name_def)
  then have dj: "span (file_name q) 10 \<inter> span (stored_name a) 10 = {}" using sub(5) ap by blast
  have "\<exists>c. load_fe (va + of_nat (image_size 0)) cnt i s = s\<lparr>mem := m5, con := c\<rparr>"
  proof -
    have w1: "wr q (stored_index (mem s) a) s = s\<lparr>mem := m1\<rparr>" by (simp add: wr_def m1_def st_i)
    have w2: "wr (q + 20) n (s\<lparr>mem := m1\<rparr>) = s\<lparr>mem := m2\<rparr>" by (simp add: wr_def m2_def)
    have w3: "wr (q + 16) (db_table s + of_nat (s_first f) * 8) (s\<lparr>mem := m2\<rparr>) = s\<lparr>mem := m3\<rparr>"
      by (simp add: wr_def m3_def blk_def)
    obtain c1 where c1: "uart_spin_puts ''arr2[i].addr: '' (s\<lparr>mem := m3\<rparr>) = s\<lparr>mem := m3, con := c1\<rparr>"
      using puts_says(1) [of "''arr2[i].addr: ''" "s\<lparr>mem := m3\<rparr>"] by auto
    obtain c2 where c2: "puthex (stored_addr m3 a) (s\<lparr>mem := m3, con := c1\<rparr>) = s\<lparr>mem := m3, con := c2\<rparr>"
      using puts_says(2) [of "stored_addr m3 a" "s\<lparr>mem := m3, con := c1\<rparr>"] by auto
    obtain c3 where c3: "uart_spin_puts ''first block: '' (s\<lparr>mem := m3, con := c2\<rparr>) = s\<lparr>mem := m3, con := c3\<rparr>"
      using puts_says(1) [of "''first block: ''" "s\<lparr>mem := m3, con := c2\<rparr>"] by auto
    obtain c4 where c4: "puthex (first_block m3 q) (s\<lparr>mem := m3, con := c3\<rparr>) = s\<lparr>mem := m3, con := c4\<rparr>"
      using puts_says(2) [of "first_block m3 q" "s\<lparr>mem := m3, con := c3\<rparr>"] by auto
    have w4: "wr (q + 24) (-1) (s\<lparr>mem := m3, con := c4\<rparr>) = s\<lparr>mem := m4, con := c4\<rparr>" by (simp add: wr_def m4_def)
    have w5: "copy_name (file_name q) (stored_name a) (s\<lparr>mem := m4, con := c4\<rparr>) = s\<lparr>mem := m5, con := c4\<rparr>"
      by (simp add: copy_name_eq [OF dj] m5_def)
    have sel: "mem (s\<lparr>mem := m, con := c\<rparr>) = m" "mem (s\<lparr>mem := m\<rparr>) = m" "db_table (s\<lparr>mem := m, con := c\<rparr>) = db_table s"
      "fe_table (s\<lparr>mem := m, con := c\<rparr>) = fe_table s" for m c by simp_all
    have "load_fe (va + of_nat (image_size 0)) cnt i s = s\<lparr>mem := m5, con := c4\<rparr>"
      unfolding load_fe_def Let_def fe_fe_at fs_mem sel sizeof_fentry_stored_t_def arr q(1) [symmetric] w1 n_def [symmetric] w2
        st_a(1) addr sizeof_datablock_t_def w3 c1 c2 c3 c4 w4 w5 ..
    then show ?thesis by blast
  qed
  moreover have far: "ld32 m5 (q + of_nat j) = ld32 m4 (q + of_nat j)" if "j = 0 \<or> 14 \<le> j \<and> j + 4 \<le> 28" for j
  proof (rule ld32_same_outside [OF so45])
    show "span (q + of_nat j) 4 \<inter> span (file_name q) 10 = {}"
      using that pieces_apart [of 0 4 4 10 q] pieces_apart [of 4 10 j 4 q] by (auto simp: file_name_def)
  qed
  moreover have "entry_holds m5 (db_table s) q f"
  proof -
    have "m5 (file_name q + of_nat j) = s_name f ! j" if "j < 10" for j
    proof -
      have u: "unat (of_nat j :: u32) = j" using that by (intro unat_of_nat_small) simp
      then show ?thesis using st4 that by (simp add: m5_def name_copy_def stored_holds_def)
    qed
    then show ?thesis using far [of 0] far [of 16] k q(2)
      by (simp add: entry_holds_def index_number_def first_block_def m4_def m3_def m2_def m1_def)
  qed
  moreover have "occupied m5 q = -1" "next_entry m5 q = n"
    using far [of 24] far [of 20] by (simp_all add: occupied_def next_entry_def m4_def m3_def m2_def)
  ultimately show ?thesis using so5 unfolding n_def by blast
qed

lemma load_fe_loop:
  fixes s :: "'a fs_state_scheme"
  assumes im: "\<And>i. i < length fs \<Longrightarrow> stored_holds (mem s) (va + of_nat (image_size i)) (fs ! i)"
    and e: "e = fe_table s" "0 < unat e" "unat e + 28 * length fs \<le> 2 ^ 32"
    and apart: "span e (28 * length fs) \<inter> span va l = {}" and l: "image_size (length fs) \<le> l" "l \<le> 2 ^ 32"
  shows "k \<le> length fs \<Longrightarrow> \<exists>m c. fold (load_fe (va + of_nat (image_size 0)) (length fs)) [0 ..< k] s = s\<lparr>mem := m, con := c\<rparr>
    \<and> same_outside (span e (28 * k)) (mem s) m
    \<and> (\<forall>i < k. entry_holds m (db_table s) (fe_at e i) (fs ! i) \<and> occupied m (fe_at e i) = -1
        \<and> next_entry m (fe_at e i) = (if i + 1 < length fs then fe_at e (i + 1) else 0))"
proof (induction k)
  case 0
  show ?case by (rule exI [of _ "mem s"], rule exI [of _ "con s"]) simp
next
  case (Suc k)
  then obtain m c where m: "fold (load_fe (va + of_nat (image_size 0)) (length fs)) [0 ..< k] s = s\<lparr>mem := m, con := c\<rparr>"
    "same_outside (span e (28 * k)) (mem s) m"
    "\<And>i. i < k \<Longrightarrow> entry_holds m (db_table s) (fe_at e i) (fs ! i) \<and> occupied m (fe_at e i) = -1
        \<and> next_entry m (fe_at e i) = (if i + 1 < length fs then fe_at e (i + 1) else 0)" by auto
  have k: "k < length fs" using Suc.prems by simp
  define a where "a = va + of_nat (image_size k)"
  have asub: "span a 20 \<subseteq> span va l" unfolding a_def
    using k l image_size_step [of k "length fs - k"] by (intro piece) simp_all
  have ksub: "span e (28 * k) \<subseteq> span e (28 * length fs)" using k by (intro span_mono) simp
  let ?q = "fe_at e k"
  have qsub: "span ?q 28 \<subseteq> span e (28 * length fs)" unfolding fe_at_def using k e(3) by (intro piece) simp_all
  have "unat (of_nat (28 * k) :: u32) = 28 * k" using k e(3) by (intro unat_of_nat_small) simp
  then have "unat ?q = unat e + 28 * k" using k e(3) by (simp add: fe_at_def unat_word_ariths)
  then have qnz: "?q \<noteq> 0" using e(2) by auto
  let ?s = "s\<lparr>mem := m, con := c\<rparr>"
  have "span a 20 \<inter> span e (28 * k) = {}" using asub ksub apart by blast
  from stored_frame [OF m(2) this] have st: "stored_holds (mem ?s) (va + of_nat (image_size k)) (fs ! k)"
    using im [OF k] by (simp add: a_def)
  have qe: "?q = fe_at (fe_table ?s) k" using e(1) by simp
  have "span ?q 28 \<inter> span (va + of_nat (image_size k)) 20 = {}" using qsub asub apart unfolding a_def by blast
  from load_fe_step [OF st qe qnz this, of "length fs"] obtain m' c' where
    m': "load_fe (va + of_nat (image_size 0)) (length fs) k ?s = ?s\<lparr>mem := m', con := c'\<rparr>" "same_outside (span ?q 28) m m'"
      "entry_holds m' (db_table s) ?q (fs ! k)" "occupied m' ?q = -1"
      "next_entry m' ?q = (if k + 1 < length fs then fe_at e (k + 1) else 0)" using e(1) by auto
  have so: "same_outside (span e (28 * Suc k)) (mem s) m'"
  proof (rule same_outside_trans [OF same_outside_mono [OF m(2) span_mono] same_outside_mono [OF m'(2)]])
    show "span ?q 28 \<subseteq> span e (28 * Suc k)" unfolding fe_at_def using k e(3) by (intro piece) simp_all
  qed simp
  have "entry_holds m' (db_table s) (fe_at e i) (fs ! i) \<and> occupied m' (fe_at e i) = -1
        \<and> next_entry m' (fe_at e i) = (if i + 1 < length fs then fe_at e (i + 1) else 0)" if "i < Suc k" for i
  proof (cases "i = k")
    case True
    then show ?thesis using m'(3-5) by simp
  next
    case False
    then have i: "i < k" using that by simp
    have "span (fe_at e i) 28 \<inter> span ?q 28 = {}" unfolding fe_at_def using i k e(3) by (intro pieces_apart) simp_all
    note fr = entry_fields_frame [OF m'(2) this]
    show ?thesis using m(3) [OF i] fr by (simp add: entry_holds_def)
  qed
  then show ?case using m(1) m'(1) so by (intro exI [of _ m'] exI [of _ c']) simp
qed

lemma entries_chain:
  "(\<And>i. i < length fs \<Longrightarrow> entry_holds m t (fe_at e (k + i)) (fs ! i)
      \<and> next_entry m (fe_at e (k + i)) = (if i + 1 < length fs then fe_at e (k + i + 1) else 0)) \<Longrightarrow>
    chain_holds m t (if fs = [] then 0 else fe_at e k) (map (fe_at e) [k ..< k + length fs]) fs"
proof (induction fs arbitrary: k)
  case (Cons f fs)
  have "chain_holds m t (if fs = [] then 0 else fe_at e (Suc k)) (map (fe_at e) [Suc k ..< Suc k + length fs]) fs"
    using Cons.prems [of "Suc i" for i] by (intro Cons.IH) simp
  moreover have "next_entry m (fe_at e k) = (if fs = [] then 0 else fe_at e (Suc k))" "entry_holds m t (fe_at e k) f"
    using Cons.prems [of 0] by auto
  moreover have "[k ..< k + length (f # fs)] = k # [Suc k ..< Suc k + length fs]" by (simp add: upt_rec)
  ultimately show ?case by simp
qed simp

text \<open>What \<open>load_fs\<close> makes of the data from the card.\<close>

lemma read_image_full:
  fixes s :: "'a fs_state_scheme"
  assumes im: "image_holds (mem s) va nx h0 fs" and ne: "fs \<noteq> []"
    and tab: "unat (db_table s) + 8 * n_blocks \<le> 2 ^ 32" and ent: "0 < unat (fe_table s)" "unat (fe_table s) + 28 * length fs \<le> 2 ^ 32"
    and l: "image_size (length fs) \<le> l" "l \<le> 2 ^ 32"
    and apart: "span (db_table s) (8 * n_blocks) \<inter> span va l = {}" "span (fe_table s) (28 * length fs) \<inter> span va l = {}"
      "span (db_table s) (8 * n_blocks) \<inter> span (fe_table s) (28 * length fs) = {}"
  shows "\<exists>m c. read_image va s = s\<lparr>free_head := blk (db_table s) h0, fentry_head := fe_table s, mem := m, con := c\<rparr>
    \<and> same_outside (span (db_table s) (8 * n_blocks) \<union> span (fe_table s) (28 * length fs)) (mem s) m
    \<and> table_holds m (db_table s) nx \<and> in_range h0
    \<and> chain_holds m (db_table s) (fe_table s) (map (fe_at (fe_table s)) [0 ..< length fs]) fs
    \<and> (\<forall>i < length fs. occupied m (fe_at (fe_table s) i) = -1)"
proof -
  let ?t = "db_table s" and ?e = "fe_table s"
  have h0: "in_range h0" and at: "rd s va = blk_code h0" and cnt: "ld32 (mem s) (va + of_nat (4 * (n_blocks + 1))) = of_nat (length fs)"
    and ib: "\<And>i. i < n_blocks \<Longrightarrow> ld32 (mem s) (va + of_nat (4 * (i + 1))) = blk_code (nx i) \<and> in_range (nx i)"
    and ie: "\<And>i. i < length fs \<Longrightarrow> stored_holds (mem s) (va + of_nat (image_size i)) (fs ! i)"
    using im by (simp_all add: image_holds_def rd_def)
  have sint_small: "sint (of_nat j :: u32) = int j" if "j < 2 ^ 31" for j
    unfolding sint_u32 using that by (simp add: unsigned_of_nat take_bit_nat_eq_self)
  have free: "(if 0 \<le> sint (rd s va) then ?t + rd s va * 8 else 0) = blk ?t h0"
  proof (cases h0)
    case (Some j)
    then show ?thesis using h0 sint_small [of j] by (simp add: at blk_def blk_code_def in_range_def n_blocks)
  qed (simp add: at blk_def blk_code_def)
  define s1 where "s1 = s\<lparr>free_head := blk ?t h0\<rparr>"
  have n: "4 * (n_blocks + 1) \<le> l" using l(1) by (simp add: image_size_def)
  have "\<exists>m. fold (load_db (va + 4)) [0 ..< n_blocks] s1 = s1\<lparr>mem := m\<rparr> \<and> same_outside (span ?t (8 * n_blocks)) (mem s1) m
    \<and> (\<forall>i < n_blocks. next_block m (blk ?t (Some i)) = blk ?t (nx i) \<and> ondisk_addr m (blk ?t (Some i)) = STORAGE_BASE + of_nat (i * 2 ^ 9))"
    by (rule load_db_loop [where l = l]) (use ib tab apart(1) n l in \<open>simp_all add: s1_def\<close>)
  then obtain m where m: "fold (load_db (va + 4)) [0 ..< n_blocks] s1 = s1\<lparr>mem := m\<rparr>" "same_outside (span ?t (8 * n_blocks)) (mem s) m"
    "\<And>i. i < n_blocks \<Longrightarrow> next_block m (blk ?t (Some i)) = blk ?t (nx i) \<and> ondisk_addr m (blk ?t (Some i)) = STORAGE_BASE + of_nat (i * 2 ^ 9)"
    by (auto simp: s1_def)
  have tm: "table_holds m ?t nx" using m(3) ib by (simp add: table_holds_def)
  define c1 where "c1 = va + of_nat (4 * (n_blocks + 1))"
  have c1: "va + 4 + drop_bit 9 STORAGE_SIZE * 4 = c1" "c1 + 4 = va + of_nat (image_size 0)"
    by (simp_all add: c1_def n_blocks STORAGE_SIZE_def image_size_def)
  have "span c1 4 \<subseteq> span va l" unfolding c1_def using l by (intro piece) (simp_all add: image_size_def)
  then have "span c1 4 \<inter> span ?t (8 * n_blocks) = {}" using apart(1) by blast
  from ld32_same_outside [OF m(2) this] have "ld32 m c1 = of_nat (length fs)" using cnt by (simp add: c1_def)
  moreover have "length fs < 2 ^ 31" using ent by simp
  ultimately have cnt': "nat (sint (ld32 m c1)) = length fs" using sint_small by simp
  define s2 where "s2 = s1\<lparr>mem := m, fentry_head := ?e\<rparr>"
  have ie2: "stored_holds (mem s2) (va + of_nat (image_size i)) (fs ! i)" if "i < length fs" for i
  proof -
    have "span (va + of_nat (image_size i)) 20 \<subseteq> span va l"
      using that l image_size_step [of i "length fs - i"] by (intro piece) simp_all
    then have "span (va + of_nat (image_size i)) 20 \<inter> span ?t (8 * n_blocks) = {}" using apart(1) by blast
    from stored_frame [OF m(2) this ie [OF that]] show ?thesis by (simp add: s2_def)
  qed
  have "\<exists>m' c. fold (load_fe (va + of_nat (image_size 0)) (length fs)) [0 ..< length fs] s2 = s2\<lparr>mem := m', con := c\<rparr>
    \<and> same_outside (span ?e (28 * length fs)) (mem s2) m'
    \<and> (\<forall>i < length fs. entry_holds m' (db_table s2) (fe_at ?e i) (fs ! i) \<and> occupied m' (fe_at ?e i) = -1
        \<and> next_entry m' (fe_at ?e i) = (if i + 1 < length fs then fe_at ?e (i + 1) else 0))"
    by (rule load_fe_loop [where l = l]) (use ie2 ent apart(2) l in \<open>simp_all add: s2_def s1_def\<close>)
  then obtain m' c where m': "fold (load_fe (va + of_nat (image_size 0)) (length fs)) [0 ..< length fs] s2 = s2\<lparr>mem := m', con := c\<rparr>"
    "same_outside (span ?e (28 * length fs)) m m'"
    "\<And>i. i < length fs \<Longrightarrow> entry_holds m' ?t (fe_at ?e i) (fs ! i) \<and> occupied m' (fe_at ?e i) = -1
        \<and> next_entry m' (fe_at ?e i) = (if i + 1 < length fs then fe_at ?e (i + 1) else 0)" by (auto simp: s2_def s1_def)
  have f1: "s\<lparr>free_head := if 0 \<le> sint (rd s va) then ?t + rd s va * sizeof_datablock_t else 0\<rparr> = s1"
    unfolding s1_def sizeof_datablock_t_def free ..
  have s2: "s1\<lparr>mem := m, fentry_head := fe_table (s1\<lparr>mem := m\<rparr>)\<rparr> = s2" by (simp add: s2_def s1_def)
  have "read_image va s = s2\<lparr>mem := m', con := c\<rparr>"
    unfolding read_image_def Let_def f1 m(1) c1 using m'(1) cnt' s2 by (simp add: rd_def c1)
  moreover have "same_outside (span ?t (8 * n_blocks) \<union> span ?e (28 * length fs)) (mem s) m'"
    by (rule same_outside_trans [OF same_outside_mono [OF m(2)] same_outside_mono [OF m'(2)]]) blast+
  moreover have "table_holds m' ?t nx" by (rule table_frame [OF m'(2) apart(3) tm])
  moreover have "chain_holds m' ?t (fe_at ?e 0) (map (fe_at ?e) [0 ..< length fs]) fs"
    using entries_chain [of fs m' ?t ?e 0] m'(3) ne by simp
  ultimately show ?thesis using m'(3) h0 by (intro exI [of _ m'] exI [of _ c]) (simp add: s2_def s1_def fe_at_def)
qed

lemma read_image_ok:
  fixes s :: "'a fs_state_scheme"
  assumes "image_holds (mem s) va nx h0 fs" and "fs \<noteq> []"
    and "unat (db_table s) + 8 * n_blocks \<le> 2 ^ 32" and "0 < unat (fe_table s)" and "unat (fe_table s) + 28 * length fs \<le> 2 ^ 32"
    and "image_size (length fs) \<le> l" and "l \<le> 2 ^ 32"
    and "span (db_table s) (8 * n_blocks) \<inter> span va l = {}" and "span (fe_table s) (28 * length fs) \<inter> span va l = {}"
    and "span (db_table s) (8 * n_blocks) \<inter> span (fe_table s) (28 * length fs) = {}"
  shows "tables_hold (read_image va s) nx h0 (map (fe_at (fe_table s)) [0 ..< length fs]) fs
    \<and> (\<forall>i < length fs. occupied (mem (read_image va s)) (fe_at (fe_table s) i) = -1)
    \<and> db_table (read_image va s) = db_table s"
  using read_image_full [OF assms] by (auto simp: tables_hold_def)

section \<open>There and back\<close>

text \<open>The buffer at \<open>va'\<close> of one memory is the one at \<open>va\<close> of another.\<close>

definition same_buffer :: "memory \<Rightarrow> u32 \<Rightarrow> memory \<Rightarrow> u32 \<Rightarrow> bool" where
  "same_buffer m va m' va' \<longleftrightarrow> (\<forall>k < unat FS_DATA_SIZE. m' (va' + of_nat k) = m (va + of_nat k))"

lemma ld32_offset:
  "ld32 m (a + of_nat k) = ucast (m (a + of_nat k)) OR push_bit 8 (ucast (m (a + of_nat (k + 1))))
     OR push_bit 16 (ucast (m (a + of_nat (k + 2)))) OR push_bit 24 (ucast (m (a + of_nat (k + 3))))"
proof -
  have e: "a + of_nat k + 1 = a + of_nat (k + 1)" "a + of_nat k + 2 = a + of_nat (k + 2)" "a + of_nat k + 3 = a + of_nat (k + 3)"
    by (simp_all add: algebra_simps)
  show ?thesis unfolding ld32_def e ..
qed

lemma image_moved:
  assumes "same_buffer m va m' va'" and "image_size (length fs) \<le> unat FS_DATA_SIZE" and im: "image_holds m va nx h0 fs"
  shows "image_holds m' va' nx h0 fs"
proof -
  have byte: "m' (va' + of_nat k) = m (va + of_nat k)" if "k < image_size (length fs)" for k
    using assms(1,2) that by (simp add: same_buffer_def)
  have word: "ld32 m' (va' + of_nat k) = ld32 m (va + of_nat k)" if "k + 4 \<le> image_size (length fs)" for k
  proof -
    have "m' (va' + of_nat (k + j)) = m (va + of_nat (k + j))" if "j < 4" for j
      using \<open>k + 4 \<le> image_size (length fs)\<close> that by (intro byte) simp
    from this [of 0] this [of 1] this [of 2] this [of 3] show ?thesis unfolding ld32_offset by simp
  qed
  have "ld32 m' va' = ld32 m va" using word [of 0] by (simp add: image_size_def)
  moreover have "ld32 m' (va' + of_nat (4 * (i + 1))) = ld32 m (va + of_nat (4 * (i + 1)))" if "i \<le> n_blocks" for i
    using that by (intro word) (simp add: image_size_def)
  moreover have "stored_holds m' (va' + of_nat (image_size i)) (fs ! i)" if "i < length fs" for i
  proof -
    have i: "image_size i + 20 \<le> image_size (length fs)" using image_size_step [of i "length fs - i"] that by simp
    have st: "stored_holds m (va + of_nat (image_size i)) (fs ! i)" using im that by (simp add: image_holds_def)
    have "m' (stored_name (va' + of_nat (image_size i)) + of_nat j) = m (stored_name (va + of_nat (image_size i)) + of_nat j)" if "j < 10" for j
      using byte [of "image_size i + 8 + j"] i that by (simp add: stored_name_def add.assoc)
    moreover have "ld32 m' (va' + of_nat (image_size i)) = ld32 m (va + of_nat (image_size i))" using i by (intro word) simp
    moreover have "ld32 m' (va' + of_nat (image_size i) + 4) = ld32 m (va + of_nat (image_size i) + 4)"
      using word [of "image_size i + 4"] i by (simp add: add.assoc)
    ultimately show ?thesis using st by (simp add: stored_holds_def stored_index_def stored_addr_def)
  qed
  ultimately show ?thesis using im by (simp add: image_holds_def)
qed

section \<open>An example\<close>

text \<open>A buffer at \<open>0x10000000\<close>: no free blocks, every chain a single block, one file.\<close>

definition card_bytes :: memory where
  "card_bytes x = (let k = unat (x - 0x10000000) in
     if k < 131076 then 0xFF else if k = 131076 then 1 else if k < 131080 then 0 else if k = 131080 then 5 else if k = 131088 then 0x61 else 0)"

definition demo_stored :: stored_file where
  "demo_stored = \<lparr>s_no = 5, s_name = [0x61, 0, 0, 0, 0, 0, 0, 0, 0, 0], s_first = 0\<rparr>"

lemma card_byte: "k < 2 ^ 32 \<Longrightarrow> card_bytes (0x10000000 + of_nat k) =
    (if k < 131076 then 0xFF else if k = 131076 then 1 else if k < 131080 then 0 else if k = 131080 then 5 else if k = 131088 then 0x61 else 0)"
  using unat_of_nat_small [of k] by (simp add: card_bytes_def)

lemma demo_image: "image_holds card_bytes 0x10000000 (\<lambda>_. None) None [demo_stored]"
proof -
  have word: "ld32 card_bytes (0x10000000 + of_nat k) = -1" if "k + 4 \<le> 131076" for k
  proof -
    have "card_bytes (0x10000000 + of_nat (k + j)) = 0xFF" if "j < 4" for j
      using \<open>k + 4 \<le> 131076\<close> that by (subst card_byte) simp_all
    from this [of 0] this [of 1] this [of 2] this [of 3] show ?thesis unfolding ld32_offset by simp
  qed
  have b: "card_bytes (0x10000000 + 131076) = 1" "card_bytes (0x10000000 + 131077) = 0" "card_bytes (0x10000000 + 131078) = 0"
    "card_bytes (0x10000000 + 131079) = 0"
    by (simp_all add: card_bytes_def)
  have "stored_holds card_bytes (0x10000000 + 131080) demo_stored"
  proof -
    have "card_bytes (0x10000000 + 131088 + of_nat j) = s_name demo_stored ! j" if "j < 10" for j
    proof -
      have "j \<in> {0, 1, 2, 3, 4, 5, 6, 7, 8, 9}" using that by auto
      then show ?thesis by (auto simp: card_bytes_def demo_stored_def)
    qed
    then show ?thesis
      by (simp add: stored_holds_def stored_index_def stored_addr_def stored_name_def ld32_def card_bytes_def demo_stored_def n_blocks)
  qed
  then show ?thesis using word [of 0] word [of "4 * (i + 1)" for i] b
    by (simp add: image_holds_def blk_code_def in_range_def n_blocks image_size_def ld32_def)
qed

definition demo_card :: fs_state where
  "demo_card = \<lparr>mem = card_bytes, con = [], io = [], farea_head = 0, slb_head = 0,
     q_head = \<lambda>_. 0, q_tail = \<lambda>_. 0, cnt_pcb = 0, pcb_list = \<lambda>_. 0, ttbr0 = 0, contexts = \<lambda>_. 0,
     free_head = 0, db_table = 0x20000000, fentry_head = 0, fe_table = 0x30000000\<rparr>"

end
