(* ===== verification/Fs_Reboot.thy ===== *)
theory Fs_Reboot
  imports Fs_Image Kmem
begin

text \<open>
  \<open>checkpoint_fs\<close> and \<open>load_fs\<close> as a whole: their buffers and tables from \<open>kmalloc\<close>, the transfer
  to or from the card, and the data of \<open>Fs_Image\<close> between them. Files survive a reboot.
\<close>

section \<open>The sizes\<close>

lemma fs_sizes:
  "unat FS_DATA_SIZE = 1048576" "unat (drop_bit 9 FS_DATA_SIZE) = 2048" "drop_bit 9 STORAGE_SIZE * sizeof_datablock_t = 262144"
  "drop_bit 9 STORAGE_SIZE * sizeof_fentry_t = 917504" "8 * n_blocks = 262144" "28 * n_blocks = 917504"
  by (simp_all add: FS_DATA_SIZE_def STORAGE_SIZE_def sizeof_datablock_t_def sizeof_fentry_t_def n_blocks)

lemma fs_bounds: "up_bound FS_DATA_SIZE = Some 0x200000" "up_bound 262144 = Some 0x80000" "up_bound 917504 = Some 0x100000"
proof -
  have "up_bound FS_DATA_SIZE = Some (2 ^ Suc 20)" by (rule up_bound_is) (simp_all add: fs_sizes)
  then show "up_bound FS_DATA_SIZE = Some 0x200000" by simp
  have "up_bound 262144 = Some (2 ^ Suc 18)" by (rule up_bound_is) simp_all
  then show "up_bound 262144 = Some 0x80000" by simp
  have "up_bound 917504 = Some (2 ^ Suc 19)" by (rule up_bound_is) simp_all
  then show "up_bound 917504 = Some 0x100000" by simp
qed

lemma fs_pools: "unat (pool_bytes 0x200000) = 20975616" "unat (pool_bytes 0x80000) = 5246976" "unat (pool_bytes 0x100000) = 10489856"
  by (simp_all add: pool_bytes_def Let_def sizeof_slb_pool_t_def)

lemma kmalloc_buffer:
  assumes "slb_inv s xs cs" and "room xs 20979712"
  obtains p s' xs' cs' where "kmalloc_gives FS_DATA_SIZE s xs cs 20979712 p s' xs' cs'"
  using kmalloc_full [OF assms(1) fs_bounds(1)] assms(2) by (auto simp: fs_pools fs_sizes)

lemma kmalloc_tables:
  assumes "slb_inv s xs cs"
  shows "room xs 5251072 \<Longrightarrow> \<exists>p s' xs' cs'. kmalloc_gives 262144 s xs cs 5251072 p s' xs' cs'"
    and "room xs 10493952 \<Longrightarrow> \<exists>p s' xs' cs'. kmalloc_gives 917504 s xs cs 10493952 p s' xs' cs'"
  using kmalloc_full [OF assms fs_bounds(2)] kmalloc_full [OF assms fs_bounds(3)] by (auto simp: fs_pools fs_sizes)

text \<open>A block of the arena does not wrap around.\<close>

lemma arena_block:
  assumes "span p n \<subseteq> arena" and "0 < n"
  shows "2147483648 \<le> unat p" and "unat p + n \<le> 2684354560"
proof -
  have "p \<in> arena" using assms by auto
  then have p: "2147483648 \<le> unat p" "unat p < 2684354560" by (simp_all add: arena_def)
  then show "2147483648 \<le> unat p" by simp
  show "unat p + n \<le> 2684354560"
  proof (rule ccontr)
    assume big: "\<not> ?thesis"
    define k where "k = 2684354560 - unat p"
    have k: "k < n" "unat (of_nat k :: u32) = k" using big p unat_of_nat_small [of k] by (simp_all add: k_def)
    then have "p + of_nat k \<in> span p n" by (simp add: span_def)
    then have "p + of_nat k \<in> arena" using assms(1) by blast
    moreover have "unat (p + of_nat k) = unat p + k" using k(2) p by (intro trans [OF unat_area_end]) (simp_all add: k_def)
    ultimately show False using p by (simp add: arena_def k_def)
  qed
qed

section \<open>Transfers\<close>

text \<open>The file system data are \<open>2048\<close> blocks: there is only the transfer of the rest.\<close>

lemma fs_transfer_2048:
  "fs_transfer op pa 2048 f s = do { (r, s) \<leftarrow> op pa 2048 (drop_bit 9 FS_BASE) (f s); if r < 0 then None else Some s }"
  by (simp add: fs_transfer_def)

lemma say_remain_con: "\<exists>c. say_remain n s = s\<lparr>con := c\<rparr>"
proof -
  obtain c where "uart_spin_puts ''remaining_blocks: '' s = s\<lparr>con := c\<rparr>" using puts_says(1) by blast
  moreover obtain c' where "puthex (of_nat (n mod 2 ^ 15)) (s\<lparr>con := c\<rparr>) = s\<lparr>con := c, con := c'\<rparr>" using puts_says(2) by blast
  ultimately show ?thesis by (auto simp: say_remain_def)
qed

lemma dev_only_tables:
  assumes "dev_only s (s' :: 'a fs_state_scheme)"
  shows "s' = s\<lparr>mem := mem s', io := io s'\<rparr>"
proof -
  have "(s'\<lparr>mem := \<lambda>_. 0, io := []\<rparr>)\<lparr>mem := mem s', io := io s'\<rparr> = (s\<lparr>mem := \<lambda>_. 0, io := []\<rparr>)\<lparr>mem := mem s', io := io s'\<rparr>"
    using assms unfolding dev_only_def by (rule arg_cong)
  then show ?thesis by simp
qed

lemma slb_only_tables:
  assumes "slb_only s (s' :: 'a fs_state_scheme)"
  shows "fentry_head s' = fentry_head s" "free_head s' = free_head s" "io s' = io s" "db_table s' = db_table s" "fe_table s' = fe_table s"
proof -
  let ?z = "\<lambda>s :: 'a fs_state_scheme. s\<lparr>mem := \<lambda>_. 0, con := [], farea_head := 0, slb_head := 0\<rparr>"
  have "fentry_head (?z s') = fentry_head (?z s)" "free_head (?z s') = free_head (?z s)" "io (?z s') = io (?z s)"
    "db_table (?z s') = db_table (?z s)" "fe_table (?z s') = fe_table (?z s)"
    using assms by (simp_all only: slb_only_def)
  then show "fentry_head s' = fentry_head s" "free_head s' = free_head s" "io s' = io s" "db_table s' = db_table s" "fe_table s' = fe_table s"
    by simp_all
qed


section \<open>Loading\<close>

text \<open>Only the memory, the devices and the tables change.\<close>

definition fs_load_only :: "'a fs_state_scheme \<Rightarrow> 'a fs_state_scheme \<Rightarrow> bool" where
  "fs_load_only s s' \<longleftrightarrow>
     s'\<lparr>mem := \<lambda>_. 0, con := [], farea_head := 0, slb_head := 0, io := [], free_head := 0, db_table := 0, fentry_head := 0, fe_table := 0\<rparr>
     = s\<lparr>mem := \<lambda>_. 0, con := [], farea_head := 0, slb_head := 0, io := [], free_head := 0, db_table := 0, fentry_head := 0, fe_table := 0\<rparr>"

lemma fs_load_only_refl [simp]: "fs_load_only s s"
  by (simp add: fs_load_only_def)

lemma fs_load_only_trans [trans]: "fs_load_only s s' \<Longrightarrow> fs_load_only s' s'' \<Longrightarrow> fs_load_only s s''"
  by (simp add: fs_load_only_def)

lemma fs_load_only_step [simp]:
  "fs_load_only s (s'\<lparr>mem := m\<rparr>) \<longleftrightarrow> fs_load_only s s'" "fs_load_only s (s'\<lparr>con := c\<rparr>) \<longleftrightarrow> fs_load_only s s'"
  "fs_load_only s (s'\<lparr>io := i\<rparr>) \<longleftrightarrow> fs_load_only s s'" "fs_load_only s (s'\<lparr>db_table := a\<rparr>) \<longleftrightarrow> fs_load_only s s'"
  "fs_load_only s (s'\<lparr>fe_table := a\<rparr>) \<longleftrightarrow> fs_load_only s s'" "fs_load_only s (s'\<lparr>free_head := a\<rparr>) \<longleftrightarrow> fs_load_only s s'"
  "fs_load_only s (s'\<lparr>fentry_head := a\<rparr>) \<longleftrightarrow> fs_load_only s s'"
  by (simp_all add: fs_load_only_def)

lemma slb_fs_load_only: "slb_only s s' \<Longrightarrow> fs_load_only s s'"
proof -
  assume "slb_only s s'"
  then have "(s'\<lparr>mem := \<lambda>_. 0, con := [], farea_head := 0, slb_head := 0\<rparr>)\<lparr>io := [], free_head := 0, db_table := 0, fentry_head := 0, fe_table := 0\<rparr>
      = (s\<lparr>mem := \<lambda>_. 0, con := [], farea_head := 0, slb_head := 0\<rparr>)\<lparr>io := [], free_head := 0, db_table := 0, fentry_head := 0, fe_table := 0\<rparr>"
    unfolding slb_only_def by (rule arg_cong)
  then show ?thesis by (simp add: fs_load_only_def)
qed

text \<open>The image of the card, which the buffer at \<open>a\<close> of the memory \<open>m\<close> is the source of.\<close>

definition on_card :: "(nat \<Rightarrow> u8) \<Rightarrow> memory \<Rightarrow> u32 \<Rightarrow> bool" where
  "on_card disk m a \<longleftrightarrow> (\<forall>k < unat FS_DATA_SIZE. disk (512 * unat (drop_bit 9 FS_BASE) + k) = m (a + of_nat k))"

text \<open>The tables lie outside \<open>A\<close> and do not wrap around.\<close>

definition tables_apart :: "'a fs_state_scheme \<Rightarrow> u32 list \<Rightarrow> u32 set \<Rightarrow> bool" where
  "tables_apart s qs A \<longleftrightarrow> 0 < unat (db_table s) \<and> unat (db_table s) + 8 * n_blocks \<le> 2 ^ 32
     \<and> span (db_table s) (8 * n_blocks) \<inter> A = {} \<and> (\<forall>q \<in> set qs. span q 28 \<inter> A = {})"

text \<open>The three allocations of \<open>load_fs\<close>.\<close>

lemma load_allocs:
  fixes t :: "'a fs_state_scheme"
  assumes inv: "slb_inv t ys ds" and room: "room ys 36724737"
  shows "\<exists>va t1 dbt t2 fet t3 ys3 ds3. kmalloc FS_DATA_SIZE t = Some (va, t1) \<and> kmalloc 262144 t1 = Some (dbt, t2)
    \<and> kmalloc 917504 (t2\<lparr>db_table := dbt\<rparr>) = Some (fet, t3) \<and> slb_inv t3 ys3 ds3 \<and> (\<forall>k > 0. room ys (k + 36724736) \<longrightarrow> room ys3 k)
    \<and> io t3 = io t \<and> db_table t3 = dbt \<and> rd t3 (va - 4) = FS_DATA_SIZE
    \<and> foot ys3 \<union> foot (chunks ds3) \<subseteq> foot ys \<union> foot (chunks ds) \<and> same_outside (foot ys \<union> foot (chunks ds)) (mem t) (mem t3)
    \<and> fs_load_only t t3 \<and> span (va - 4) 1048580 \<union> span dbt 262144 \<union> span fet 917504 \<subseteq> foot ys \<union> foot (chunks ds)
    \<and> span (va - 4) 1048580 \<subseteq> arena \<and> span dbt 262144 \<subseteq> arena \<and> span fet 917504 \<subseteq> arena
    \<and> span (va - 4) 1048580 \<inter> span dbt 262144 = {} \<and> span (va - 4) 1048580 \<inter> span fet 917504 = {} \<and> span dbt 262144 \<inter> span fet 917504 = {}
    \<and> (span (va - 4) 1048580 \<union> span dbt 262144 \<union> span fet 917504) \<inter> (foot ys3 \<union> foot (chunks ds3)) = {}"
proof -
  have tail: "span p n \<subseteq> span (p - 4) (n + 4)" for p :: u32 and n
    using span_offset_subset [of 4 n "n + 4" "p - 4"] by simp
  have "room ys 20979712" using room_mono [OF room] by simp
  from kmalloc_buffer [OF inv this] obtain va t1 ys1 ds1 where g1: "kmalloc_gives FS_DATA_SIZE t ys ds 20979712 va t1 ys1 ds1" .
  have "room ys1 5251072" using g1 room_mono [OF room, of "5251072 + 20979712"] by (simp add: kmalloc_gives_def)
  moreover have i1: "slb_inv t1 ys1 ds1" using g1 by (simp add: kmalloc_gives_def)
  ultimately obtain dbt t2 ys2 ds2 where g2: "kmalloc_gives 262144 t1 ys1 ds1 5251072 dbt t2 ys2 ds2"
    using kmalloc_tables(1) by blast
  have r2: "\<forall>k > 0. room ys (k + 26230784) \<longrightarrow> room ys2 k"
  proof (intro allI impI)
    fix k :: nat assume "0 < k" and "room ys (k + 26230784)"
    then have "room ys1 (k + 5251072)" using g1 by (simp add: kmalloc_gives_def add.assoc)
    then show "room ys2 k" using g2 \<open>0 < k\<close> by (simp add: kmalloc_gives_def)
  qed
  have "slb_inv t2 ys2 ds2" using g2 by (simp add: kmalloc_gives_def)
  then have "slb_inv (t2\<lparr>db_table := dbt\<rparr>) ys2 ds2" by (rule slb_inv_frame [where A = "{}"]) simp_all
  moreover have "room ys2 10493952" using r2 room_mono [OF room, of "10493952 + 26230784"] by simp
  ultimately obtain fet t3 ys3 ds3 where g3: "kmalloc_gives 917504 (t2\<lparr>db_table := dbt\<rparr>) ys2 ds2 10493952 fet t3 ys3 ds3"
    using kmalloc_tables(2) by blast
  have r3: "\<forall>k > 0. room ys (k + 36724736) \<longrightarrow> room ys3 k"
  proof (intro allI impI)
    fix k :: nat assume "0 < k" and "room ys (k + 36724736)"
    then have "room ys2 (k + 10493952)" using r2 by (simp add: add.assoc)
    then show "room ys3 k" using g3 \<open>0 < k\<close> by (simp add: kmalloc_gives_def)
  qed
  have own: "foot ys \<union> foot (chunks ds) \<subseteq> arena" using inv by (simp add: slb_inv_def)
  have 1: "kmalloc FS_DATA_SIZE t = Some (va, t1)" "rd t1 (va - 4) = FS_DATA_SIZE" "slb_only t t1"
    "span (va - 4) 1048580 \<subseteq> foot ys \<union> foot (chunks ds)"
    "foot ys1 \<union> foot (chunks ds1) \<subseteq> (foot ys \<union> foot (chunks ds)) - span (va - 4) 1048580"
    "same_outside (foot ys \<union> foot (chunks ds)) (mem t) (mem t1)"
    using g1 by (simp_all add: kmalloc_gives_def fs_sizes)
  have 2: "kmalloc 262144 t1 = Some (dbt, t2)" "slb_only t1 t2" "span (dbt - 4) 262148 \<subseteq> foot ys1 \<union> foot (chunks ds1)"
    "same_outside (foot ys1 \<union> foot (chunks ds1)) (mem t1) (mem t2)"
    "foot ys2 \<union> foot (chunks ds2) \<subseteq> (foot ys1 \<union> foot (chunks ds1)) - span (dbt - 4) 262148"
    using g2 by (simp_all add: kmalloc_gives_def)
  have 3: "kmalloc 917504 (t2\<lparr>db_table := dbt\<rparr>) = Some (fet, t3)" "slb_only (t2\<lparr>db_table := dbt\<rparr>) t3"
    "span (fet - 4) 917508 \<subseteq> foot ys2 \<union> foot (chunks ds2)" "same_outside (foot ys2 \<union> foot (chunks ds2)) (mem t2) (mem t3)"
    "slb_inv t3 ys3 ds3" "foot ys3 \<union> foot (chunks ds3) \<subseteq> (foot ys2 \<union> foot (chunks ds2)) - span (fet - 4) 917508"
    using g3 by (simp_all add: kmalloc_gives_def)
  have sub: "span dbt 262144 \<subseteq> span (dbt - 4) 262148" "span fet 917504 \<subseteq> span (fet - 4) 917508"
    using tail [of dbt 262144] tail [of fet 917504] by simp_all
  have "same_outside (foot ys1 \<union> foot (chunks ds1)) (mem t1) (mem t3)"
    by (rule same_outside_trans [OF 2(4) same_outside_mono [OF 3(4)]]) (use 2(5) in blast)
  moreover have "span (va - 4) 4 \<inter> (foot ys1 \<union> foot (chunks ds1)) = {}"
    using 1(5) span_mono [of 4 1048580 "va - 4"] by auto
  ultimately have "rd t3 (va - 4) = FS_DATA_SIZE" using 1(2) by (simp add: rd_def ld32_same_outside)
  moreover have "io t3 = io t" "db_table t3 = dbt"
    using slb_only_tables [OF 1(3)] slb_only_tables [OF 2(2)] slb_only_tables [OF 3(2)] by simp_all
  moreover have "foot ys3 \<union> foot (chunks ds3) \<subseteq> foot ys \<union> foot (chunks ds)" using 1(5) 2(5) 3(6) by blast
  moreover have "same_outside (foot ys \<union> foot (chunks ds)) (mem t) (mem t3)"
    by (rule same_outside_trans [OF same_outside_trans [OF 1(6) same_outside_mono [OF 2(4)]] same_outside_mono [OF 3(4)]])
      (use 1(5) 2(5) in blast)+
  moreover have "fs_load_only t t3"
    using fs_load_only_trans [OF fs_load_only_trans [OF slb_fs_load_only [OF 1(3)] slb_fs_load_only [OF 2(2)]], of t3]
      slb_fs_load_only [OF 3(2)] by (simp add: fs_load_only_def)
  moreover have "span (va - 4) 1048580 \<union> span dbt 262144 \<union> span fet 917504 \<subseteq> foot ys \<union> foot (chunks ds)"
    using sub 1(4,5) 2(3,5) 3(3) by blast
  moreover have "span (va - 4) 1048580 \<subseteq> arena" using 1(4) own by (rule subset_trans)
  moreover have "span dbt 262144 \<subseteq> arena" using sub(1) 2(3) 1(5) own by blast
  moreover have "span fet 917504 \<subseteq> arena" using sub(2) 3(3) 2(5) 1(5) own by blast
  moreover have "span (va - 4) 1048580 \<inter> span dbt 262144 = {}" using sub(1) 2(3) 1(5) by blast
  moreover have "span (va - 4) 1048580 \<inter> span fet 917504 = {}" using sub(2) 3(3) 2(5) 1(5) by blast
  moreover have "span dbt 262144 \<inter> span fet 917504 = {}" using sub 3(3) 2(5) by blast
  moreover have "(span (va - 4) 1048580 \<union> span dbt 262144 \<union> span fet 917504) \<inter> (foot ys3 \<union> foot (chunks ds3)) = {}"
    using sub 1(5) 2(5) 3(6) by blast
  moreover note 1(1) 2(1) 3(1,5) r3
  ultimately show ?thesis by (intro exI conjI)
qed


text \<open>The transfer from the card.\<close>

lemma load_transfer:
  fixes s :: "'a fs_state_scheme"
  assumes hw: "has_sd hw P2V disk" and fresh: "sd_fresh (io s)" and disk: "on_card disk m a"
  shows "\<exists>c i mm. fs_transfer (sd_dma_spin_read hw) (V2P va) 2048 (say_remain 2048) s = Some (s\<lparr>con := c, mem := mm, io := i\<rparr>)
    \<and> sd_fresh i \<and> same_outside (span va (unat FS_DATA_SIZE)) (mem s) mm \<and> same_buffer m a mm va"
proof -
  obtain c where c: "say_remain 2048 s = s\<lparr>con := c\<rparr>" using say_remain_con by blast
  have "sd_fresh (io (s\<lparr>con := c\<rparr>))" using fresh by simp
  from sd_read_ok [OF hw this, of "V2P va" 2048 "drop_bit 9 FS_BASE"] obtain s' where
    s': "sd_dma_spin_read hw (V2P va) 2048 (drop_bit 9 FS_BASE) (s\<lparr>con := c\<rparr>) = Some (0, s')" "dev_only (s\<lparr>con := c\<rparr>) s'"
    "sd_fresh (io s')" "mem s' = loaded disk va 2048 (drop_bit 9 FS_BASE) (mem s)" by auto
  have n: "512 * unat (2048 :: u16) = unat FS_DATA_SIZE" by (simp add: fs_sizes)
  have "fs_transfer (sd_dma_spin_read hw) (V2P va) 2048 (say_remain 2048) s = Some s'" by (simp add: fs_transfer_2048 c s'(1))
  moreover have "s' = s\<lparr>con := c, mem := mem s', io := io s'\<rparr>" using dev_only_tables [OF s'(2)] by simp
  moreover have "same_outside (span va (unat FS_DATA_SIZE)) (mem s) (mem s')"
    using loaded_same_outside [of va 2048 "mem s" disk "drop_bit 9 FS_BASE"] unfolding s'(4) n .
  moreover have "same_buffer m a (mem s') va"
    unfolding same_buffer_def
  proof (intro allI impI)
    fix k assume k: "k < unat FS_DATA_SIZE"
    then have u: "unat (of_nat k :: u32) = k" by (intro unat_of_nat_small) (simp add: fs_sizes)
    then have "va + of_nat k \<in> span va (512 * unat (2048 :: u16))" using k unfolding n by (simp add: span_def)
    then show "mem s' (va + of_nat k) = m (a + of_nat k)" using disk k u by (simp add: s'(4) loaded_def on_card_def)
  qed
  ultimately show ?thesis using s'(3) by (intro exI [of _ c] exI [of _ "io s'"] exI [of _ "mem s'"]) simp
qed

lemma load_fs_ok:
  fixes t :: "'a fs_state_scheme"
  assumes inv: "slb_inv t ys ds" and room: "room ys 36724737" and hw: "has_sd hw P2V disk" and fresh: "sd_fresh (io t)"
    and disk: "on_card disk m a" and im: "image_holds m a nx h0 fs" and fs: "fs \<noteq> []" "length fs \<le> n_blocks"
  shows "\<exists>t' ys' ds'. load_fs hw t = Some t' \<and> tables_hold t' nx h0 (map (fe_at (fe_table t')) [0 ..< length fs]) fs
    \<and> (\<forall>i < length fs. occupied (mem t') (fe_at (fe_table t') i) = -1) \<and> sd_fresh (io t') \<and> slb_inv t' ys' ds'
    \<and> (\<forall>k > 0. room ys (k + 36724736) \<longrightarrow> room ys' k)
    \<and> tables_apart t' (map (fe_at (fe_table t')) [0 ..< length fs]) (foot ys' \<union> foot (chunks ds'))
    \<and> fs_load_only t t' \<and> same_outside (foot ys \<union> foot (chunks ds)) (mem t) (mem t')
    \<and> blocks_disj [(db_table t', 262144), (fe_table t', 917504)]
    \<and> foot [(db_table t', 262144), (fe_table t', 917504)] \<union> (foot ys' \<union> foot (chunks ds')) \<subseteq> foot ys \<union> foot (chunks ds)
    \<and> foot [(db_table t', 262144), (fe_table t', 917504)] \<inter> (foot ys' \<union> foot (chunks ds')) = {}"
proof -
  obtain va t1 dbt t2 fet t3 ys3 ds3 where k: "kmalloc FS_DATA_SIZE t = Some (va, t1)" "kmalloc 262144 t1 = Some (dbt, t2)"
    "kmalloc 917504 (t2\<lparr>db_table := dbt\<rparr>) = Some (fet, t3)" "slb_inv t3 ys3 ds3" "\<forall>k > 0. room ys (k + 36724736) \<longrightarrow> room ys3 k"
    and io3: "io t3 = io t" and dbt: "db_table t3 = dbt" and word: "rd t3 (va - 4) = FS_DATA_SIZE"
    and less: "foot ys3 \<union> foot (chunks ds3) \<subseteq> foot ys \<union> foot (chunks ds)" "same_outside (foot ys \<union> foot (chunks ds)) (mem t) (mem t3)"
      "fs_load_only t t3" "span (va - 4) 1048580 \<union> span dbt 262144 \<union> span fet 917504 \<subseteq> foot ys \<union> foot (chunks ds)"
    and arena: "span (va - 4) 1048580 \<subseteq> arena" "span dbt 262144 \<subseteq> arena" "span fet 917504 \<subseteq> arena"
    and apart: "span (va - 4) 1048580 \<inter> span dbt 262144 = {}" "span (va - 4) 1048580 \<inter> span fet 917504 = {}"
      "span dbt 262144 \<inter> span fet 917504 = {}"
      "(span (va - 4) 1048580 \<union> span dbt 262144 \<union> span fet 917504) \<inter> (foot ys3 \<union> foot (chunks ds3)) = {}"
    using load_allocs [OF inv room] by (elim exE conjE) (rule that; assumption)
  define t4 where "t4 = t3\<lparr>fe_table := fet\<rparr>"
  have "sd_fresh (io t4)" using fresh io3 by (simp add: t4_def)
  from load_transfer [OF hw this disk, of va] obtain c i mm where
    x: "fs_transfer (sd_dma_spin_read hw) (V2P va) 2048 (say_remain 2048) t4 = Some (t4\<lparr>con := c, mem := mm, io := i\<rparr>)"
    "sd_fresh i" "same_outside (span va (unat FS_DATA_SIZE)) (mem t3) mm" "same_buffer m a mm va" by (auto simp: t4_def)
  define t5 where "t5 = t4\<lparr>con := c, mem := mm, io := i\<rparr>"
  have t5: "db_table t5 = dbt" "fe_table t5 = fet" "mem t5 = mm" by (simp_all add: t5_def t4_def dbt)
  have small: "image_size (length fs) \<le> unat FS_DATA_SIZE" using fs(2) by (simp add: image_size_def fs_sizes n_blocks)
  have buf: "span va (unat FS_DATA_SIZE) \<subseteq> span (va - 4) 1048580" using span_offset_subset [of 4 1048576 1048580 "va - 4"] by (simp add: fs_sizes)
  have ent: "28 * length fs \<le> 917504" "span fet (28 * length fs) \<subseteq> span fet 917504" using fs(2) by (simp_all add: n_blocks span_mono)
  note b = arena_block [OF arena(2)] arena_block [OF arena(3)]
  have "\<exists>m5 c5. read_image va t5 = t5\<lparr>free_head := blk (db_table t5) h0, fentry_head := fe_table t5, mem := m5, con := c5\<rparr>
    \<and> same_outside (span (db_table t5) (8 * n_blocks) \<union> span (fe_table t5) (28 * length fs)) (mem t5) m5
    \<and> table_holds m5 (db_table t5) nx \<and> in_range h0
    \<and> chain_holds m5 (db_table t5) (fe_table t5) (map (fe_at (fe_table t5)) [0 ..< length fs]) fs
    \<and> (\<forall>i < length fs. occupied m5 (fe_at (fe_table t5) i) = -1)"
  proof (rule read_image_full [OF _ fs(1), where va = va and l = "unat FS_DATA_SIZE"])
    show "image_holds (mem t5) va nx h0 fs" unfolding t5 by (rule image_moved [OF x(4) small im])
    show "span (db_table t5) (8 * n_blocks) \<inter> span va (unat FS_DATA_SIZE) = {}"
      "span (fe_table t5) (28 * length fs) \<inter> span va (unat FS_DATA_SIZE) = {}"
      "span (db_table t5) (8 * n_blocks) \<inter> span (fe_table t5) (28 * length fs) = {}"
      unfolding t5 fs_sizes(5) using apart(1,2,3) buf ent(2) by blast+
  qed (use b ent(1) small in \<open>simp_all add: t5 fs_sizes\<close>)
  then obtain m5 c5 where r: "read_image va t5 = t5\<lparr>free_head := blk dbt h0, fentry_head := fet, mem := m5, con := c5\<rparr>"
    "same_outside (span dbt 262144 \<union> span fet (28 * length fs)) mm m5" "table_holds m5 dbt nx" "in_range h0"
    "chain_holds m5 dbt fet (map (fe_at fet) [0 ..< length fs]) fs" "\<forall>i < length fs. occupied m5 (fe_at fet i) = -1"
    unfolding t5 fs_sizes(5) by (elim exE conjE) (rule that; assumption)
  obtain c6 where c6: "uart_spin_puts (''file systemed loaded.'' @ crlf) (read_image va t5) = (read_image va t5)\<lparr>con := c6\<rparr>"
    using puts_says(1) by blast
  define t6 where "t6 = (read_image va t5)\<lparr>con := c6\<rparr>"
  have t6: "mem t6 = m5" "db_table t6 = dbt" "fe_table t6 = fet" "free_head t6 = blk dbt h0" "fentry_head t6 = fet" "io t6 = i"
    "farea_head t6 = farea_head t3" "slb_head t6 = slb_head t3"
    unfolding t6_def r(1) by (simp_all add: t5_def t4_def dbt)
  have m5: "same_outside (span va (unat FS_DATA_SIZE) \<union> span dbt 262144 \<union> span fet 917504) (mem t3) m5"
    by (rule same_outside_trans [OF same_outside_mono [OF x(3)] same_outside_mono [OF r(2)]]) (use ent(2) in blast)+
  have inv6: "slb_inv t6 ys3 ds3"
    by (rule slb_inv_frame [OF k(4), of "span va (unat FS_DATA_SIZE) \<union> span dbt 262144 \<union> span fet 917504"])
      (use m5 apart(4) buf in \<open>auto simp: t6\<close>)
  have "span (va - 4) 4 \<inter> span va (unat FS_DATA_SIZE) = {}"
    using pieces_apart [of 0 4 4 1048576 "va - 4"] by (simp add: fs_sizes)
  moreover have "span (va - 4) 4 \<subseteq> span (va - 4) 1048580" by (rule span_mono) simp
  ultimately have "span (va - 4) 4 \<inter> (span va (unat FS_DATA_SIZE) \<union> span dbt 262144 \<union> span fet 917504) = {}"
    using apart(1,2) by blast
  then have "rd t6 (va - 4) = FS_DATA_SIZE" using ld32_same_outside [OF m5] word by (simp add: rd_def t6)
  then have "kmfree va t6 = Some (1, t6)"
    by (rule kmfree_ok [OF inv6]) (simp_all add: FS_DATA_SIZE_def)
  moreover have e6: "uart_spin_puts (''file systemed loaded.'' @ crlf) (read_image va t5) = t6" by (simp only: c6 t6_def)
  ultimately have "load_fs hw t = Some t6"
    using k(1-3) x(1) by (simp add: load_fs_def fs_sizes t4_def [symmetric] t5_def [symmetric] e6 [simplified])
  moreover have "tables_hold t6 nx h0 (map (fe_at fet) [0 ..< length fs]) fs" using r(3,4,5) by (simp add: tables_hold_def t6)
  moreover have "tables_apart t6 (map (fe_at fet) [0 ..< length fs]) (foot ys3 \<union> foot (chunks ds3))"
    unfolding tables_apart_def t6
  proof (intro conjI ballI)
    fix q assume "q \<in> set (map (fe_at fet) [0 ..< length fs])"
    then obtain i where i: "i < length fs" "q = fe_at fet i" by auto
    have "span q 28 \<subseteq> span fet 917504" unfolding i(2) fe_at_def using i(1) ent(1) by (intro piece) simp_all
    then show "span q 28 \<inter> (foot ys3 \<union> foot (chunks ds3)) = {}" using apart(4) by blast
  qed (use b apart(4) in \<open>auto simp: fs_sizes\<close>)
  moreover have "fs_load_only t t6" using less(3) unfolding t6_def r(1) by (simp add: t5_def t4_def)
  moreover have "same_outside (foot ys \<union> foot (chunks ds)) (mem t) (mem t6)"
    using same_outside_trans [OF less(2) same_outside_mono [OF m5]] less(4) buf by (simp add: t6) blast
  moreover have "foot [(dbt, 262144), (fet, 917504)] \<union> (foot ys3 \<union> foot (chunks ds3)) \<subseteq> foot ys \<union> foot (chunks ds)"
    "foot [(dbt, 262144), (fet, 917504)] \<inter> (foot ys3 \<union> foot (chunks ds3)) = {}"
    using less(1,4) apart(4) by (simp_all add: Int_Un_distrib Int_Un_distrib2)
  moreover have "blocks_disj [(dbt, 262144), (fet, 917504)]" using apart(3) by simp
  ultimately show ?thesis using inv6 x(2) r(6) k(5)
    by (intro exI [of _ t6] exI [of _ ys3] exI [of _ ds3]) (unfold t6, intro conjI; assumption)
qed


section \<open>Saving\<close>

lemma tables_frame:
  assumes "tables_hold s nx h0 qs fs" and "same_outside A (mem s) (mem s')" and "tables_apart s qs A"
    and "db_table s' = db_table s" and "free_head s' = free_head s" and "fentry_head s' = fentry_head s"
  shows "tables_hold s' nx h0 qs fs"
  using assms table_frame [OF assms(2)] chain_frame [OF assms(2)]
  by (simp add: tables_hold_def tables_apart_def)

lemma checkpoint_fs_ok:
  fixes s :: "'a fs_state_scheme"
  assumes files: "tables_hold s nx h0 qs fs" "length fs \<le> n_blocks" and inv: "slb_inv s xs cs" and room: "room xs 20979712"
    and apart: "tables_apart s qs (foot xs \<union> foot (chunks cs))" and hw: "has_sd hw at disk" and idle: "\<not> j_busy (sd_ctl (io s))"
  shows "\<exists>va s'. checkpoint_fs hw s = Some (0, s') \<and> image_holds (mem s') va nx h0 fs \<and> tables_hold s' nx h0 qs fs
    \<and> j_writes (sd_ctl (io s')) = j_writes (sd_ctl (io s)) @ [(V2P va, 2048, drop_bit 9 FS_BASE)] \<and> \<not> j_busy (sd_ctl (io s'))
    \<and> same_outside (foot xs \<union> foot (chunks cs)) (mem s) (mem s')"
proof -
  let ?own = "foot xs \<union> foot (chunks cs)" and ?n = "unat FS_DATA_SIZE"
  obtain va s1 xs' cs' where g: "kmalloc_gives FS_DATA_SIZE s xs cs 20979712 va s1 xs' cs'" by (rule kmalloc_buffer [OF inv room])
  have 1: "kmalloc FS_DATA_SIZE s = Some (va, s1)" "rd s1 (va - 4) = FS_DATA_SIZE" "slb_only s s1" "slb_inv s1 xs' cs'"
    "span (va - 4) 1048580 \<subseteq> ?own" "same_outside ?own (mem s) (mem s1)"
    "foot xs' \<union> foot (chunks cs') \<subseteq> ?own - span (va - 4) 1048580"
    using g by (simp_all add: kmalloc_gives_def fs_sizes)
  note f1 = slb_only_tables [OF 1(3)]
  have buf: "span va ?n \<subseteq> span (va - 4) 1048580" using span_offset_subset [of 4 1048576 1048580 "va - 4"] by (simp add: fs_sizes)
  then have own: "span va ?n \<subseteq> ?own" using 1(5) by (rule subset_trans)
  have t1: "tables_hold s1 nx h0 qs fs" by (rule tables_frame [OF files(1) 1(6) apart]) (simp_all add: f1)
  have a1: "tables_apart s1 qs (span va ?n)" using apart own f1(4) by (auto simp: tables_apart_def)
  have l: "image_size (length fs) \<le> ?n" "?n \<le> 2 ^ 32" using files(2) by (simp_all add: image_size_def fs_sizes n_blocks)
  from write_image_ok [OF t1 _ _ l] a1 obtain m where m: "write_image va s1 = Some (s1\<lparr>mem := m\<rparr>)"
    "same_outside (span va ?n) (mem s1) m" "image_holds m va nx h0 fs" unfolding tables_apart_def by blast
  define say where "say = fold (\<lambda>i s. puthex (rd s (va + (drop_bit 9 STORAGE_SIZE + 1) * 4 + 4 * of_nat i)) s) [0 ..< 10] (s1\<lparr>mem := m\<rparr>)"
  have "\<exists>c. fold (\<lambda>i s. puthex (rd s (va + (drop_bit 9 STORAGE_SIZE + 1) * 4 + 4 * of_nat i)) s) is (s1\<lparr>mem := m, con := c0\<rparr>)
      = s1\<lparr>mem := m, con := c\<rparr>" for "is" c0
  proof (induction "is" arbitrary: c0)
    case (Cons i "is")
    obtain c where "puthex (rd (s1\<lparr>mem := m, con := c0\<rparr>) (va + (drop_bit 9 STORAGE_SIZE + 1) * 4 + 4 * of_nat i)) (s1\<lparr>mem := m, con := c0\<rparr>)
        = (s1\<lparr>mem := m, con := c0\<rparr>)\<lparr>con := c\<rparr>" using puts_says(2) by blast
    then show ?case using Cons.IH [of c] by simp
  qed auto
  from this [of "[0 ..< 10]" "con (s1\<lparr>mem := m\<rparr>)"] obtain c where c: "say = s1\<lparr>mem := m, con := c\<rparr>" by (auto simp: say_def)
  obtain c1 where c1: "say_remain 2048 say = s1\<lparr>mem := m, con := c1\<rparr>" using say_remain_con [of 2048 say] by (auto simp: c)
  have "\<not> j_busy (sd_ctl (io (s1\<lparr>mem := m, con := c1\<rparr>)))" using idle by (simp add: f1)
  from sd_write_ok [OF hw this, of "V2P va" 2048 "drop_bit 9 FS_BASE"] obtain s2 where
    s2: "sd_dma_spin_write hw (V2P va) 2048 (drop_bit 9 FS_BASE) (s1\<lparr>mem := m, con := c1\<rparr>) = Some (0, s2)"
    "dev_only (s1\<lparr>mem := m, con := c1\<rparr>) s2" "\<not> j_busy (sd_ctl (io s2))" "mem s2 = m"
    "j_writes (sd_ctl (io s2)) = j_writes (sd_ctl (io s)) @ [(V2P va, 2048, drop_bit 9 FS_BASE)]" by (auto simp: f1)
  have e2: "s2 = s1\<lparr>con := c1, mem := m, io := io s2\<rparr>" using dev_only_tables [OF s2(2)] s2(4) by simp
  obtain c3 where c3: "uart_spin_puts (''file systemed saved.'' @ crlf) s2 = s2\<lparr>con := c3\<rparr>" using puts_says(1) by blast
  define s3 where "s3 = s2\<lparr>con := c3\<rparr>"
  have e3: "s3 = s1\<lparr>mem := m, io := io s2, con := c3\<rparr>" unfolding s3_def by (subst e2) simp
  have inv3: "slb_inv s3 xs' cs'"
    by (rule slb_inv_frame [OF 1(4), of "span va ?n"]) (use m(2) buf 1(7) in \<open>auto simp: e3\<close>)
  have "span (va - 4) 4 \<inter> span va ?n = {}" using pieces_apart [of 0 4 4 1048576 "va - 4"] by (simp add: fs_sizes)
  then have "rd s3 (va - 4) = FS_DATA_SIZE" using ld32_same_outside [OF m(2)] 1(2) by (simp add: rd_def e3)
  then have "kmfree va s3 = Some (1, s3)" by (rule kmfree_ok [OF inv3]) (simp_all add: FS_DATA_SIZE_def)
  moreover have e4: "uart_spin_puts (''file systemed saved.'' @ crlf) s2 = s3" by (simp only: c3 s3_def)
  moreover have "fs_transfer (sd_dma_spin_write hw) (V2P va) 2048 (say_remain 2048) say = Some s2"
    by (simp add: fs_transfer_2048 c1 s2(1))
  ultimately have "checkpoint_fs hw s = Some (0, s3)"
    using 1(1) m(1) by (simp add: checkpoint_fs_def fs_sizes say_def [simplified, symmetric] e4 [simplified] Let_def)
  moreover have "tables_hold s3 nx h0 qs fs" by (rule tables_frame [OF t1 _ a1]) (simp_all add: e3 m(2))
  moreover have "same_outside ?own (mem s) (mem s3)"
    using same_outside_trans [OF 1(6) same_outside_mono [OF m(2) own]] by (simp add: e3)
  ultimately show ?thesis using m(3) s2(3,5) by (intro exI [of _ va] exI [of _ s3]) (simp add: e3)
qed


section \<open>The files survive\<close>

text \<open>
  C6. Files survive a reboot. On a working card \<open>checkpoint_fs\<close> returns 0, commands one write, of
  \<open>2048\<close> blocks from its buffer to the place of the file system on the card, and leaves the tables
  as they are. In any later run of the kernel whose card has those bytes there, whose allocator has
  36 MB in one piece and which has not written to the card, \<open>load_fs\<close> returns, with the same free
  list, the same chains of blocks and the same files (numbers, names, first blocks), none of them open.
\<close>

theorem fs_survives_reboot:
  fixes s :: "'a fs_state_scheme"
  assumes "tables_hold s nx h0 qs fs" and "fs \<noteq> []" and "length fs \<le> n_blocks"
    and "slb_inv s xs cs" and "room xs 20979712" and "tables_apart s qs (foot xs \<union> foot (chunks cs))"
    and "has_sd hw P2V disk" and "\<not> j_busy (sd_ctl (io s))"
  shows "\<exists>va s'. checkpoint_fs hw s = Some (0, s') \<and> tables_hold s' nx h0 qs fs
    \<and> j_writes (sd_ctl (io s')) = j_writes (sd_ctl (io s)) @ [(V2P va, 2048, drop_bit 9 FS_BASE)]
    \<and> (\<forall>hw' disk' (t :: 'a fs_state_scheme) ys ds. has_sd hw' P2V disk' \<and> on_card disk' (mem s') va
        \<and> slb_inv t ys ds \<and> room ys 36724737 \<and> sd_fresh (io t) \<longrightarrow>
        (\<exists>t'. load_fs hw' t = Some t' \<and> tables_hold t' nx h0 (map (fe_at (fe_table t')) [0 ..< length fs]) fs
          \<and> (\<forall>i < length fs. occupied (mem t') (fe_at (fe_table t') i) = -1)))"
proof -
  obtain va s' where s': "checkpoint_fs hw s = Some (0, s')" "image_holds (mem s') va nx h0 fs" "tables_hold s' nx h0 qs fs"
    "j_writes (sd_ctl (io s')) = j_writes (sd_ctl (io s)) @ [(V2P va, 2048, drop_bit 9 FS_BASE)]"
    using checkpoint_fs_ok [OF assms(1,3-8)] by (elim exE conjE) (rule that)
  have "\<exists>t'. load_fs hw' t = Some t' \<and> tables_hold t' nx h0 (map (fe_at (fe_table t')) [0 ..< length fs]) fs
      \<and> (\<forall>i < length fs. occupied (mem t') (fe_at (fe_table t') i) = -1)"
    if "has_sd hw' P2V disk'" "on_card disk' (mem s') va" "slb_inv t ys ds" "room ys 36724737" "sd_fresh (io t)"
    for hw' disk' and t :: "'a fs_state_scheme" and ys ds
    using load_fs_ok [OF that(3,4,1,5,2) s'(2) assms(2,3)] by (elim exE conjE) (intro exI conjI)
  with s'(1,3,4) show ?thesis by blast
qed

text \<open>A booted kernel.\<close>

lemma fs_booted:
  obtains t :: fs_state and cs where "slb_inv t [(0x80801000, 0x1e7ff000)] cs" and "sd_fresh (io t)"
proof -
  obtain b c os where b: "mm_boot (\<lambda>_. 0) = Some b" "slb_inv b [(0x80801000, 0x1e7ff000)] [(c, 4, 16, [(0x80800000, 4096, os)])]"
    by (rule mm_booted)
  let ?t = "demo_card\<lparr>mem := mem b, farea_head := farea_head b, slb_head := slb_head b\<rparr>"
  have "slb_inv ?t [(0x80801000, 0x1e7ff000)] [(c, 4, 16, [(0x80800000, 4096, os)])]"
    using b(2) by (simp add: slb_inv_def pages_inv_def)
  moreover have "sd_fresh (io ?t)" by (simp add: sd_fresh_def sd_ctl_def demo_card_def)
  ultimately show thesis by (rule that)
qed

definition card_with :: "memory \<Rightarrow> u32 \<Rightarrow> nat \<Rightarrow> u8" where
  "card_with m a k = m (a + of_nat (k - 512 * unat (drop_bit 9 FS_BASE)))"

lemma on_card_with: "on_card (card_with m a) m a"
  by (simp add: on_card_def card_with_def)

theorem fs_survives_reboot_witness:
  "\<exists>(s :: fs_state) s' va (t' :: fs_state) hw hw' t. checkpoint_fs hw s = Some (0, s') \<and> load_fs hw' t = Some t'
    \<and> hw' = quick_sd P2V (card_with (mem s') va) \<and> tables_hold t' (\<lambda>_. None) None [fe_table t'] [demo_stored]"
proof -
  obtain t :: fs_state and cs where t: "slb_inv t [(0x80801000, 0x1e7ff000)] cs" "sd_fresh (io t)" by (rule fs_booted)
  have room: "room [(0x80801000, 0x1e7ff000)] 36724737" "room [(0x80801000, 0x1e7ff000)] (20979712 + 36724736)"
    by (simp_all add: room_def)
  have n: "[demo_stored] \<noteq> []" "length [demo_stored] \<le> n_blocks" by (simp_all add: n_blocks)
  obtain s :: fs_state and ys ds where l: "tables_hold s (\<lambda>_. None) None (map (fe_at (fe_table s)) [0 ..< length [demo_stored]]) [demo_stored]"
    "sd_fresh (io s)" "slb_inv s ys ds" "\<forall>k > 0. room [(0x80801000, 0x1e7ff000)] (k + 36724736) \<longrightarrow> room ys k"
    "tables_apart s (map (fe_at (fe_table s)) [0 ..< length [demo_stored]]) (foot ys \<union> foot (chunks ds))"
    using load_fs_ok [OF t(1) room(1) quick_sd_ok t(2) on_card_with demo_image n(1,2)] by (elim exE conjE) (rule that; assumption)
  have r: "room ys 20979712" using l(4) room(2) by simp
  have idle: "\<not> j_busy (sd_ctl (io s))" using l(2) by (simp add: sd_fresh_def)
  obtain va s' where s': "checkpoint_fs (quick_sd P2V (\<lambda>_. 0)) s = Some (0, s')"
    and again: "\<forall>hw' disk' (t :: fs_state) ys ds. has_sd hw' P2V disk' \<and> on_card disk' (mem s') va
        \<and> slb_inv t ys ds \<and> room ys 36724737 \<and> sd_fresh (io t) \<longrightarrow>
        (\<exists>t'. load_fs hw' t = Some t' \<and> tables_hold t' (\<lambda>_. None) None (map (fe_at (fe_table t')) [0 ..< length [demo_stored]]) [demo_stored]
          \<and> (\<forall>i < length [demo_stored]. occupied (mem t') (fe_at (fe_table t') i) = -1))"
    using fs_survives_reboot [OF l(1) n l(3) r l(5) quick_sd_ok [of P2V "\<lambda>_. 0"] idle] by (elim exE conjE) (rule that; assumption)
  have "has_sd (quick_sd P2V (card_with (mem s') va)) P2V (card_with (mem s') va) \<and> on_card (card_with (mem s') va) (mem s') va
    \<and> slb_inv t [(0x80801000, 0x1e7ff000)] cs \<and> room [(0x80801000, 0x1e7ff000)] 36724737 \<and> sd_fresh (io t)"
    by (intro conjI quick_sd_ok on_card_with t room(1))
  from again [rule_format, OF this] obtain t' where "load_fs (quick_sd P2V (card_with (mem s') va)) t = Some t'"
    "tables_hold t' (\<lambda>_. None) None (map (fe_at (fe_table t')) [0 ..< length [demo_stored]]) [demo_stored]"
    by (elim exE conjE) (rule that; assumption)
  moreover from this have "tables_hold t' (\<lambda>_. None) None [fe_table t'] [demo_stored]" by (simp add: fe_at_def)
  ultimately show ?thesis using s'(1) by blast
qed

end
