(* ===== verification/Init_Correct.thy ===== *)
theory Init_Correct
  imports Init Irq_Correct Fs_Reboot
begin

text \<open>
  Starting the kernel, from the page allocator to the first processes: the parts that have been
  verified on their own establish each other's assumptions.
\<close>

section \<open>Device registers\<close>

text \<open>The interrupt controller is set up by accesses that leave memory and the SD card alone.\<close>

definition gic_only :: "'a irq_state_scheme \<Rightarrow> 'a irq_state_scheme \<Rightarrow> bool" where
  "gic_only s s' \<longleftrightarrow> s'\<lparr>con := [], io := [], cpsr := 0, sctlr := 0\<rparr> = s\<lparr>con := [], io := [], cpsr := 0, sctlr := 0\<rparr> \<and> sd_fresh (io s')"

lemma gic_only_refl: "sd_fresh (io s) \<Longrightarrow> gic_only s s"
  by (simp add: gic_only_def)

lemma sd_fresh_snoc:
  "sd_fresh t \<Longrightarrow> sd_fresh (t @ [Out32 a v])" "sd_fresh t \<Longrightarrow> sd_fresh (t @ [In32 a v])" "sd_fresh t \<Longrightarrow> sd_fresh (t @ [In8 a w])"
  "sd_fresh t \<Longrightarrow> sd_fresh (t @ [Out8 a w])" "sd_fresh t \<Longrightarrow> sd_fresh (t @ [Mrc n m k v])" "sd_fresh t \<Longrightarrow> sd_fresh (t @ [Mcr n m k v])"
  by (simp_all add: sd_fresh_def)

lemma gic_fields:
  assumes "gic_only s s'"
  shows "gic_only s (s'\<lparr>con := c\<rparr>)" "sd_fresh t \<Longrightarrow> gic_only s (s'\<lparr>io := t\<rparr>)" "gic_only s (s'\<lparr>cpsr := v\<rparr>)" "gic_only s (s'\<lparr>sctlr := v\<rparr>)"
  using assms by (simp_all add: gic_only_def)

lemmas gic_con = gic_fields(1) and gic_io = gic_fields(2)

lemma gic_print:
  assumes "gic_only s s'"
  shows "gic_only s (uart_spin_puts str s')" "gic_only s (puthex n s')" "gic_only s (uart_spin_printf fmt ap s')"
proof -
  show "gic_only s (uart_spin_puts str s')" "gic_only s (puthex n s')"
    using gic_con [OF assms] puts_says(1) [of str s'] puts_says(2) [of n s'] by metis+
  obtain o' where "uart_spin_printf fmt ap s' = kputs o' s'" by (rule uart_kputs)
  then show "gic_only s (uart_spin_printf fmt ap s')" using gic_con [OF assms] by (simp add: kputs_def)
qed

lemma gic_write:
  assumes "gic_only s s'"
  shows "gic_only s (out32 a v s')" "gic_only s (out8 a w s')" "gic_only s (mcr n m k v s')"
  using gic_io [OF assms] assms by (simp_all add: out32_def out8_def mcr_def sd_fresh_snoc gic_only_def)

lemma gic_read:
  assumes "has_sd hw P2V disk" and "gic_only s s'"
  shows "gic_only s (snd (in32 hw a s'))" "gic_only s (snd (in8 hw a s'))"
proof -
  have f: "sd_fresh (io s')" "\<not> j_busy (sd_ctl (io s'))" using assms(2) by (simp_all add: gic_only_def sd_fresh_def)
  have "bus_read hw e s' = s'\<lparr>io := io s' @ [e]\<rparr>" for e
    using has_sdD(5) [OF assms(1) f(2)] by (simp add: bus_read_def Let_def)
  then show "gic_only s (snd (in32 hw a s'))" "gic_only s (snd (in8 hw a s'))"
    using gic_io [OF assms(2)] f(1) by (simp_all add: in32_def in8_def Let_def sd_fresh_snoc)
qed

lemma gic_fold: "(\<And>x s'. gic_only s s' \<Longrightarrow> gic_only s (f x s')) \<Longrightarrow> gic_only s s' \<Longrightarrow> gic_only s (fold f xs s')"
  by (induction xs arbitrary: s') simp_all

lemma gic_steps:
  assumes hw: "has_sd hw P2V disk" and s': "gic_only s s'"
  shows "gic_only s (print_reg hw fmt a s')" "gic_only s (puthex_reg hw a s')" "gic_only s (or32 hw a v s')"
  unfolding print_reg_def puthex_reg_def or32_def Let_def case_prod_beta
  by (intro gic_print gic_write gic_read [OF hw s'])+

lemma gic_prepare:
  assumes hw: "has_sd hw P2V disk" and s': "gic_only s s'"
  shows "gic_only s (prepare_ICDDCR hw s')" "gic_only s (prepare_ICDIPTR hw s')" "gic_only s (prepare_ICDIPR s')"
    "gic_only s (prepare_ICDISER hw s')" "gic_only s (prepare_ICCPMR hw s')" "gic_only s (prepare_ICCICR hw s')" "gic_only s (asm_sctlr s')"
proof -
  note r = gic_steps [OF hw] gic_write gic_print gic_read [OF hw]
  show "gic_only s (prepare_ICDDCR hw s')" unfolding prepare_ICDDCR_def Let_def by (intro r s')
  show "gic_only s (prepare_ICDIPTR hw s')" unfolding prepare_ICDIPTR_def Let_def case_prod_beta
    by (rule gic_fold [OF _ s']) (auto intro: r)
  show "gic_only s (prepare_ICDIPR s')" unfolding prepare_ICDIPR_def Let_def by (rule gic_fold) (intro r s'; assumption)+
  show "gic_only s (prepare_ICDISER hw s')" unfolding prepare_ICDISER_def Let_def by (intro r s')
  show "gic_only s (prepare_ICCPMR hw s')" unfolding prepare_ICCPMR_def Let_def case_prod_beta by (intro r s')
  show "gic_only s (prepare_ICCICR hw s')" unfolding prepare_ICCICR_def Let_def by (intro r s')
  have "gic_only s (s'\<lparr>io := io s' @ [Mrc 1 0 0 (sctlr s')]\<rparr>)"
    using gic_io [OF s'] s' by (simp add: sd_fresh_snoc gic_only_def)
  then show "gic_only s (asm_sctlr s')" unfolding asm_sctlr_def Let_def by (intro gic_write gic_fields(3,4))
qed


lemma gic_check:
  assumes hw: "has_sd hw P2V disk" and s: "sd_fresh (io s)"
    and v: "\<And>t. hw_read hw t (PERIPHBASE s + ICDICFR_OFFSET) = 0xAAAAAAAA" "\<And>t. hw_read hw t (PERIPHBASE s + ICDICFR_OFFSET + 4) = 0x7DC00000"
  shows "\<exists>s'. check_ICDICFR hw s = (0, s') \<and> gic_only s s'"
proof -
  note r = gic_read [OF hw gic_only_refl [OF s]]
  have fst: "fst (in32 hw (reg s ICDICFR_OFFSET 0) s) = 0xAAAAAAAA" "\<And>s'. fst (in32 hw (reg s ICDICFR_OFFSET 1) s') = 0x7DC00000"
    using v by (simp_all add: in32_def Let_def reg_def)
  let ?s2 = "snd (in32 hw (reg s ICDICFR_OFFSET 1) (snd (in32 hw (reg s ICDICFR_OFFSET 0) s)))"
  let ?s3 = "fold (\<lambda>i. puthex_reg hw (reg s ICDICFR_OFFSET i)) [0 ..< 6] (uart_spin_puts (''information ICDICFR:'' @ crlf) ?s2)"
  have "check_ICDICFR hw s = (0, ?s3)" unfolding check_ICDICFR_def Let_def case_prod_beta by (simp only: fst) simp
  moreover have "gic_only s ?s2" by (rule gic_read(1) [OF hw r(1)])
  then have "gic_only s ?s3" by (intro gic_fold gic_steps(2) [OF hw] gic_print(1))
  ultimately show ?thesis by blast
qed

text \<open>The whole of \<open>interrupt_init\<close> before the context blocks.\<close>

lemma interrupt_init_gic:
  assumes hw: "has_sd hw P2V disk" and s: "sd_fresh (io s)"
    and v: "\<And>t. hw_read hw t (PERIPHBASE s + ICDICFR_OFFSET) = 0xAAAAAAAA" "\<And>t. hw_read hw t (PERIPHBASE s + ICDICFR_OFFSET + 4) = 0x7DC00000"
  shows "\<exists>s'. interrupt_init hw s = map_option (Pair 0) (init_context_container s') \<and> gic_only s s'"
proof -
  obtain s1 where s1: "check_ICDICFR hw s = (0, s1)" "gic_only s s1" using gic_check [OF assms] by blast
  let ?s2 = "asm_sctlr (prepare_ICCICR hw (prepare_ICCPMR hw (prepare_ICDISER hw (prepare_ICDIPR (prepare_ICDIPTR hw (prepare_ICDDCR hw s1))))))"
  have "interrupt_init hw s = map_option (Pair 0) (init_context_container ?s2)"
    by (simp add: interrupt_init_def s1(1) Let_def split: bind_split option.split)
  moreover have "gic_only s ?s2" by (intro gic_prepare [OF hw] s1(2))
  ultimately show ?thesis by blast
qed

section \<open>The context blocks\<close>

lemma slb_alloc_ctx:
  assumes "slb_inv s xs cs" and "room xs 8192"
  obtains p s' where "slb_alloc sizeof_context_cpu_t s = Some (p, s')" and "slb_gives 8192 s xs cs sizeof_context_cpu_t 4 p s'"
    and "slb_only s s'"
proof -
  have req: "slb_request 72 0" by (simp add: slb_request_def)
  have sz: "slb_sz 72 = 72" "slb_al 72 0 = 4"
    by (simp_all add: slb_sz_def slb_al_def sizeof_slb_obj_t_def int_max_def int_min_def word_sless_alt)
  have "unat (pool_bytes 72) = 4096" by (simp add: pool_bytes_def Let_def sizeof_slb_pool_t_def)
  then obtain p s' where "slb_alloc 72 s = Some (p, s')" "slb_gives 8192 s xs cs 72 4 p s'"
    using slb_alloc_align_ok [OF assms(1) req] assms(2) by (auto simp: sz slb_alloc_def)
  moreover from this(1) have "slb_only s s'" using slb_alloc_align_only by (auto simp: slb_alloc_def)
  ultimately show ?thesis using that by (simp add: sizeof_context_cpu_t_def)
qed

text \<open>What the scheduler's statics are, the context pointers apart.\<close>

definition same_sched :: "'a sched_state_scheme \<Rightarrow> 'a sched_state_scheme \<Rightarrow> bool" where
  "same_sched s s' \<longleftrightarrow> q_head s' = q_head s \<and> q_tail s' = q_tail s \<and> cnt_pcb s' = cnt_pcb s"

lemma same_sched_slb: "slb_only s s' \<Longrightarrow> same_sched s s' \<and> contexts s' = contexts s \<and> io s' = io s"
  using slb_q_only [of s s'] q_only_fields [of s s'] by (auto simp: same_sched_def slb_only_def dest: arg_cong [where f = io])


definition ctx_alloc :: "context_id \<Rightarrow> 'a sched_state_scheme \<Rightarrow> 'a sched_state_scheme option" where
  "ctx_alloc c s = do { (p, s) \<leftarrow> slb_alloc sizeof_context_cpu_t s; Some (s\<lparr>contexts := (contexts s)(c := p)\<rparr>) }"

lemma contexts_ok:
  fixes s :: "'a sched_state_scheme"
  shows "slb_inv s xs cs \<Longrightarrow> blocks_disj blks \<Longrightarrow> foot blks \<inter> (foot xs \<union> foot (chunks cs)) = {}
    \<Longrightarrow> room xs (n + 8192 * length cl) \<Longrightarrow> 0 < n \<Longrightarrow> distinct cl \<Longrightarrow>
    \<exists>s' xs' cs' ps. loop ctx_alloc cl s = Some s' \<and> slb_inv s' xs' cs' \<and> blocks_disj (ps @ blks)
      \<and> foot (ps @ blks) \<inter> (foot xs' \<union> foot (chunks cs')) = {} \<and> room xs' n
      \<and> (\<forall>c \<in> set cl. (contexts s' c, sizeof_context_cpu_t) \<in> set ps) \<and> (\<forall>c. c \<notin> set cl \<longrightarrow> contexts s' c = contexts s c)
      \<and> same_sched s s' \<and> io s' = io s"
proof (induction cl arbitrary: s xs cs blks)
  case Nil
  then show ?case by (intro exI [of _ s] exI [of _ xs] exI [of _ cs] exI [of _ "[]"]) (simp add: same_sched_def)
next
  case (Cons c cl)
  have "room xs 8192" by (rule room_mono [OF Cons.prems(4)]) simp
  from slb_alloc_ctx [OF Cons.prems(1) this] obtain p s1 where alloc: "slb_alloc sizeof_context_cpu_t s = Some (p, s1)"
    and gives: "slb_gives 8192 s xs cs sizeof_context_cpu_t 4 p s1" and only: "slb_only s s1" .
  from gives obtain xs1 cs1 where g: "span p (unat sizeof_context_cpu_t) \<subseteq> foot xs \<union> foot (chunks cs)" "slb_inv s1 xs1 cs1"
    "\<forall>t > 0. room xs (t + 8192) \<longrightarrow> room xs1 t"
    "foot xs1 \<union> foot (chunks cs1) \<subseteq> (foot xs \<union> foot (chunks cs)) - span p (unat sizeof_context_cpu_t)"
    unfolding slb_gives_def by blast
  define s2 where "s2 = s1\<lparr>contexts := (contexts s1)(c := p)\<rparr>"
  have "slb_inv s2 xs1 cs1" by (rule slb_inv_frame [OF g(2), of "{}"]) (simp_all add: s2_def)
  moreover have "blocks_disj ((p, sizeof_context_cpu_t) # blks)" using Cons.prems(2,3) g(1) by auto
  moreover have "foot ((p, sizeof_context_cpu_t) # blks) \<inter> (foot xs1 \<union> foot (chunks cs1)) = {}"
    using Cons.prems(3) g(4) by (simp only: foot_Cons) blast
  moreover have "room xs1 (n + 8192 * length cl)" using g(3) Cons.prems(4,5) by (simp add: algebra_simps)
  ultimately obtain s' xs' cs' ps where ih: "loop ctx_alloc cl s2 = Some s'" "slb_inv s' xs' cs'"
    "blocks_disj (ps @ (p, sizeof_context_cpu_t) # blks)"
    "foot (ps @ (p, sizeof_context_cpu_t) # blks) \<inter> (foot xs' \<union> foot (chunks cs')) = {}" "room xs' n"
    "\<forall>c \<in> set cl. (contexts s' c, sizeof_context_cpu_t) \<in> set ps" "\<forall>c. c \<notin> set cl \<longrightarrow> contexts s' c = contexts s2 c"
    "same_sched s2 s'" "io s' = io s2"
    using Cons.IH [of s2 xs1 cs1 "(p, sizeof_context_cpu_t) # blks"] Cons.prems(5,6) by auto
  note only' = same_sched_slb [OF only]
  have "contexts s' c = p" using ih(7) Cons.prems(6) by (simp add: s2_def)
  moreover have "loop ctx_alloc (c # cl) s = Some s'" using ih(1) by (simp add: ctx_alloc_def alloc s2_def)
  ultimately show ?case using ih only'
    by (intro exI [of _ s'] exI [of _ xs'] exI [of _ cs'] exI [of _ "ps @ [(p, sizeof_context_cpu_t)]"])
      (auto simp: s2_def same_sched_def)
qed

lemma init_context_container_loop:
  "init_context_container s = loop ctx_alloc [Ctx_no, Ctx_ndef, Ctx_svc, Ctx_abort, Ctx_irq, Ctx_fiq] s"
proof -
  have "(\<lambda>c s. do { (p, s) \<leftarrow> slb_alloc sizeof_context_cpu_t s; Some (s\<lparr>contexts := (contexts s)(c := p)\<rparr>) }) = ctx_alloc"
    by (intro ext) (simp add: ctx_alloc_def)
  then show ?thesis unfolding init_context_container_def by (rule arg_cong [where f = "\<lambda>f. loop f _ s"])
qed

section \<open>Memory\<close>

lemma slb_init_only: "slb_init s = Some (r, s') \<Longrightarrow> slb_only s s'"
proof -
  assume i: "slb_init s = Some (r, s')"
  then obtain pool s1 where a: "pool_alloc 16 0 (s\<lparr>slb_head := 0\<rparr>) = Some (pool, s1)"
    by (auto simp: slb_init_def bind_eq_Some_conv)
  have "slb_only (s\<lparr>slb_head := 0\<rparr>) s1" by (rule pool_alloc_only [OF a])
  then show ?thesis using i by (auto simp: slb_init_def a Let_def split: if_splits)
qed

lemma report_con: "\<exists>c. report msg (r, s) = s\<lparr>con := c\<rparr>"
proof (cases "r = 0")
  case True
  then show ?thesis using puts_says(1) [of "msg @ crlf" s] by (simp add: report_def)
qed (auto simp: report_def intro: exI [of _ "con s"])

text \<open>The allocators, from any memory.\<close>

lemma boot_allocators:
  fixes s :: "'a irq_state_scheme"
  obtains s0 s1 c os where "map_option (report m1) (init_pspace s) = Some s0" and "map_option (report m2) (slb_init s0) = Some s1"
    and "slb_inv s1 [(0x80801000, 0x1e7ff000)] [(c, 4, 16, [(0x80800000, 4096, os)])]" and "slb_only s s1"
proof -
  obtain a where a: "init_pspace s = Some (0, a)" "pages_inv a [(0x80800000, 0x1e800000)]" using init_pspace_free by blast
  obtain k where k: "report m1 (0, a) = a\<lparr>con := k\<rparr>" using report_con by blast
  have "pages_inv (a\<lparr>con := k\<rparr>) [(0x80800000, 0x1e800000)]" using a(2) by (simp add: pages_inv_def)
  moreover have "foot [(0x80800000, 0x1e800000)] \<subseteq> arena" by (auto simp: arena_def span_nowrap)
  ultimately obtain b c os where b: "slb_init (a\<lparr>con := k\<rparr>) = Some (0, b)"
    "slb_inv b [(0x80801000, 0x1e7ff000)] [(c, 4, 16, [(0x80800000, 4096, os)])]"
    using slb_init_ok [of "a\<lparr>con := k\<rparr>" "[(0x80800000, 0x1e800000)]" "0x80800000" "[(0x80801000, 0x1e7ff000)]"] by auto
  obtain k' where k': "report m2 (0, b) = b\<lparr>con := k'\<rparr>" using report_con by blast
  have "slb_inv (b\<lparr>con := k'\<rparr>) [(0x80801000, 0x1e7ff000)] [(c, 4, 16, [(0x80800000, 4096, os)])]"
    using b(2) by (simp add: slb_inv_def pages_inv_def)
  moreover have "slb_only s a"
    using pages_slb_only [OF pages_free_only [of _ _ "s\<lparr>farea_head := 0\<rparr>" 0 a]] a(1) by (simp add: init_pspace_def slb_only_def)
  then have "slb_only s (b\<lparr>con := k'\<rparr>)" using slb_init_only [OF b(1)] by (simp add: slb_only_def)
  ultimately show thesis using that [of "a\<lparr>con := k\<rparr>" "b\<lparr>con := k'\<rparr>" c os] a(1) b(1) k k' by simp
qed


text \<open>From any memory to the files of the card.\<close>

lemma kinit_memory_ok:
  fixes s :: "'a irq_state_scheme"
  assumes hw: "has_sd hw P2V disk" and fresh: "sd_fresh (io s)"
    and gic: "\<And>t. hw_read hw t (PERIPHBASE s + ICDICFR_OFFSET) = 0xAAAAAAAA" "\<And>t. hw_read hw t (PERIPHBASE s + ICDICFR_OFFSET + 4) = 0x7DC00000"
    and card: "on_card disk m a" "image_holds m a nx h0 fs" and fs: "fs \<noteq> []" "length fs \<le> n_blocks"
  shows "\<exists>s' ys ds ps. kinit_memory hw s = Some s' \<and> slb_inv s' ys ds \<and> room ys 400000000
    \<and> blocks_disj ([(db_table s', 262144), (fe_table s', 917504)] @ ps)
    \<and> foot ([(db_table s', 262144), (fe_table s', 917504)] @ ps) \<inter> (foot ys \<union> foot (chunks ds)) = {}
    \<and> (\<forall>c. (contexts s' c, sizeof_context_cpu_t) \<in> set ps) \<and> same_sched s s'
    \<and> tables_hold s' nx h0 (map (fe_at (fe_table s')) [0 ..< length fs]) fs
    \<and> (\<forall>i < length fs. occupied (mem s') (fe_at (fe_table s') i) = -1)"
proof -
  let ?m1 = "''pages manage done.''" and ?m2 = "''slb manage done.''" and ?m3 = "''int done.''"
  obtain s0 s1 c os where s0: "map_option (report ?m1) (init_pspace s) = Some s0" "map_option (report ?m2) (slb_init s0) = Some s1"
    and s1: "slb_only s s1" "slb_inv s1 [(0x80801000, 0x1e7ff000)] [(c, 4, 16, [(0x80800000, 4096, os)])]" by (rule boot_allocators)
  let ?xs = "[(0x80801000, 0x1e7ff000)] :: area list" and ?cs = "[(c, 4, 16, [(0x80800000, 4096, os)])] :: cache list"
  note k1 = same_sched_slb [OF s1(1)]
  have "PERIPHBASE (s1\<lparr>mem := \<lambda>_. 0, con := [], farea_head := 0, slb_head := 0\<rparr>) = PERIPHBASE (s\<lparr>mem := \<lambda>_. 0, con := [], farea_head := 0, slb_head := 0\<rparr>)"
    using s1(1) by (simp only: slb_only_def)
  then have P: "PERIPHBASE s1 = PERIPHBASE s" by simp
  have "sd_fresh (io s1)" using fresh k1 by simp
  from interrupt_init_gic [OF hw this] gic obtain s2 where
    s2: "interrupt_init hw s1 = map_option (Pair 0) (init_context_container s2)" "gic_only s1 s2" by (auto simp: P)
  let ?z = "\<lambda>s :: 'a irq_state_scheme. s\<lparr>con := [], io := [], cpsr := 0, sctlr := 0\<rparr>"
  have z: "?z s2 = ?z s1" "sd_fresh (io s2)" using s2(2) by (simp_all add: gic_only_def)
  have g: "mem s2 = mem s1" "farea_head s2 = farea_head s1" "slb_head s2 = slb_head s1" "same_sched s1 s2"
    using arg_cong [OF z(1), of mem] arg_cong [OF z(1), of farea_head] arg_cong [OF z(1), of slb_head]
      arg_cong [OF z(1), of q_head] arg_cong [OF z(1), of q_tail] arg_cong [OF z(1), of cnt_pcb] by (simp_all add: same_sched_def)
  have i2: "slb_inv s2 ?xs ?cs" by (rule slb_inv_frame [OF s1(2), of "{}"]) (simp_all add: g)
  have "room ?xs (450000000 + 8192 * length [Ctx_no, Ctx_ndef, Ctx_svc, Ctx_abort, Ctx_irq, Ctx_fiq])" by (simp add: room_def)
  from contexts_ok [OF i2 _ _ this, of "[]"] obtain s3 xs3 cs3 ps where
    s3: "init_context_container s2 = Some s3" "slb_inv s3 xs3 cs3" "blocks_disj ps" "foot ps \<inter> (foot xs3 \<union> foot (chunks cs3)) = {}"
      "room xs3 450000000" "\<forall>c \<in> set [Ctx_no, Ctx_ndef, Ctx_svc, Ctx_abort, Ctx_irq, Ctx_fiq]. (contexts s3 c, sizeof_context_cpu_t) \<in> set ps"
      "same_sched s2 s3" "io s3 = io s2"
    unfolding init_context_container_loop by (auto simp: foot_def)
  obtain k where k: "report ?m3 (0, s3) = s3\<lparr>con := k\<rparr>" using report_con by blast
  let ?s4 = "s3\<lparr>con := k\<rparr>"
  have i4: "slb_inv ?s4 xs3 cs3" by (rule slb_inv_frame [OF s3(2), of "{}"]) simp_all
  have r4: "room xs3 36724737" by (rule room_mono [OF s3(5)]) simp
  have f4: "sd_fresh (io ?s4)" using z(2) s3(8) by simp
  obtain t ys ds where t: "load_fs hw ?s4 = Some t" "tables_hold t nx h0 (map (fe_at (fe_table t)) [0 ..< length fs]) fs"
    "\<forall>i < length fs. occupied (mem t) (fe_at (fe_table t) i) = -1" "slb_inv t ys ds" "\<forall>k > 0. room xs3 (k + 36724736) \<longrightarrow> room ys k"
    "fs_load_only ?s4 t" "blocks_disj [(db_table t, 262144), (fe_table t, 917504)]"
    "foot [(db_table t, 262144), (fe_table t, 917504)] \<union> (foot ys \<union> foot (chunks ds)) \<subseteq> foot xs3 \<union> foot (chunks cs3)"
    "foot [(db_table t, 262144), (fe_table t, 917504)] \<inter> (foot ys \<union> foot (chunks ds)) = {}"
    using load_fs_ok [OF i4 r4 hw f4 card fs] by (elim exE conjE) (rule that; assumption)
  let ?y = "\<lambda>s :: 'a irq_state_scheme. s\<lparr>mem := \<lambda>_. 0, con := [], farea_head := 0, slb_head := 0, io := [], free_head := 0, db_table := 0, fentry_head := 0, fe_table := 0\<rparr>"
  have y: "?y t = ?y ?s4" using t(6) by (simp only: fs_load_only_def)
  have f: "contexts t = contexts s3" "same_sched s3 t"
    using arg_cong [OF y, of contexts] arg_cong [OF y, of q_head] arg_cong [OF y, of q_tail] arg_cong [OF y, of cnt_pcb]
    by (simp_all add: same_sched_def)
  have "kinit_memory hw s = Some t"
    using s2(1) s3(1) t(1) k by (simp add: kinit_memory_def s0)
  moreover have "(contexts t c, sizeof_context_cpu_t) \<in> set ps" for c
    using s3(6) by (cases c) (simp_all add: f(1))
  moreover have "same_sched s t" using k1 g(4) s3(7) f(2) by (simp add: same_sched_def)
  moreover have "room ys 400000000" using t(5) room_mono [OF s3(5), of "400000000 + 36724736"] by simp
  moreover have "blocks_disj ([(db_table t, 262144), (fe_table t, 917504)] @ ps)"
    using t(7,8) s3(3,4) by auto
  moreover have "foot ([(db_table t, 262144), (fe_table t, 917504)] @ ps) \<inter> (foot ys \<union> foot (chunks ds)) = {}"
    using t(8,9) s3(4) unfolding foot_append by blast
  ultimately show ?thesis using t(2,3,4) by blast
qed


section \<open>The first processes\<close>

lemma q_only_kernel:
  assumes "q_only s (s' :: 'a fs_state_scheme)"
  shows "contexts s' = contexts s" "db_table s' = db_table s" "fe_table s' = fe_table s" "free_head s' = free_head s" "fentry_head s' = fentry_head s"
proof -
  let ?z = "\<lambda>s :: 'a fs_state_scheme. s\<lparr>mem := \<lambda>_. 0, con := [], farea_head := 0, slb_head := 0, q_head := \<lambda>_. 0, q_tail := \<lambda>_. 0, io := []\<rparr>"
  have e: "?z s' = ?z s" using assms by (simp only: q_only_def)
  from arg_cong [OF e, of contexts] arg_cong [OF e, of db_table] arg_cong [OF e, of fe_table] arg_cong [OF e, of free_head]
    arg_cong [OF e, of fentry_head]
  show "contexts s' = contexts s" "db_table s' = db_table s" "fe_table s' = fe_table s" "free_head s' = free_head s" "fentry_head s' = fentry_head s"
    by simp_all
qed

text \<open>What a step of \<open>first_pcb\<close> keeps.\<close>

definition keeps :: "area list \<Rightarrow> 'a fs_state_scheme \<Rightarrow> 'a fs_state_scheme \<Rightarrow> bool" where
  "keeps blks s s' \<longleftrightarrow> (\<forall>x \<in> foot blks. mem s' x = mem s x) \<and> contexts s' = contexts s \<and> db_table s' = db_table s
     \<and> fe_table s' = fe_table s \<and> free_head s' = free_head s \<and> fentry_head s' = fentry_head s"

lemma keeps_trans [trans]: "keeps blks s s' \<Longrightarrow> keeps blks s' s'' \<Longrightarrow> keeps blks s s''"
  by (simp add: keeps_def)

lemma new_pcb_keeps:
  fixes s :: "'a fs_state_scheme"
  assumes "\<forall>x \<in> foot blks. mem s' x = mem s x" and "q_only s (s'\<lparr>cnt_pcb := n, pcb_list := l\<rparr>)"
  shows "keeps blks s s'"
  using assms(1) q_only_kernel [OF assms(2)] by (simp add: keeps_def)

text \<open>A process whose status is wrong, alone in the queues.\<close>

lemma mature_first:
  fixes s :: "'a fs_state_scheme"
  assumes ok: "sched_ok s xs cs ((\<lambda>_. [])(Q_new := [p])) ((p, sizeof_pcb_t) # blks)" and room: "room xs (n + 16384)" "0 < n"
    and wr: "same_outside (span p (unat sizeof_pcb_t)) (mem s) m"
  shows "\<exists>s1 s2 xs' cs'. sched_mature p (s\<lparr>mem := m\<rparr>) = Some s1 \<and> sched_allow p s1 = Some s2
    \<and> sched_ok s2 xs' cs' ((\<lambda>_. [])(Q_running := [p])) ((p, sizeof_pcb_t) # blks) \<and> room xs' n
    \<and> (\<forall>x \<in> foot ((p, sizeof_pcb_t) # blks) - span (p + 16) 4. mem s2 x = m x) \<and> q_only (s\<lparr>mem := m\<rparr>) s2"
proof -
  let ?P = "(\<lambda>_. [])(Q_new := [p])" and ?blks = "(p, sizeof_pcb_t) # blks"
  obtain els where e: "sched_inv s xs cs els ?blks" "?P = procs_of els" "one_queue ?P" using ok by (auto simp: sched_ok_def)
  have "sched_inv (s\<lparr>mem := m\<rparr>) xs cs els ?blks"
    by (rule sched_inv_client [OF e(1)]) (use same_outside_mono [OF wr, of "foot ?blks"] in simp_all)
  moreover have "statuses_but p (mem (s\<lparr>mem := m\<rparr>)) ?P ?blks" by (simp add: statuses_but_def)
  moreover have "not_elsewhere ?P Q_new p" by (simp add: not_elsewhere_def)
  moreover have "room xs 8192" by (rule room_mono [OF room(1)]) simp
  ultimately obtain s1 where s1: "move_to Q_new Q_ready (queue_status Q_ready) p (s\<lparr>mem := m\<rparr>) = Some s1"
    "sched_does 8192 (s\<lparr>mem := m\<rparr>) xs (move Q_new Q_ready p ?P) ?blks (span (p + 16) 4) s1"
    using move_but_ok [of "s\<lparr>mem := m\<rparr>" xs cs els ?blks ?P p Q_new Q_ready] e(2,3) by auto
  have P1: "move Q_new Q_ready p ?P = (\<lambda>_. [])(Q_ready := [p])" by (auto simp: move_def)
  from s1(2) obtain xs1 cs1 where ok1: "sched_ok s1 xs1 cs1 ((\<lambda>_. [])(Q_ready := [p])) ?blks" "room xs1 (n + 8192)"
    "q_only (s\<lparr>mem := m\<rparr>) s1" "\<forall>x \<in> foot ?blks - span (p + 16) 4. mem s1 x = m x"
    using room by (auto simp: sched_does_def P1 add.commute [of _ n] dest!: spec [of _ "n + 8192"])
  have "not_elsewhere ((\<lambda>_. [])(Q_ready := [p])) Q_ready p" by (simp add: not_elsewhere_def)
  from move_to_ok [OF ok1(1) _ this room_mono [OF ok1(2)], of Q_running] obtain s2 where
    s2: "move_to Q_ready Q_running (queue_status Q_running) p s1 = Some s2"
    "sched_does 8192 s1 xs1 (move Q_ready Q_running p ((\<lambda>_. [])(Q_ready := [p]))) ?blks (span (p + 16) 4) s2" by auto
  have P2: "move Q_ready Q_running p ((\<lambda>_. [])(Q_ready := [p])) = (\<lambda>_. [])(Q_running := [p])" by (auto simp: move_def)
  from s2(2) obtain xs2 cs2 where ok2: "sched_ok s2 xs2 cs2 ((\<lambda>_. [])(Q_running := [p])) ?blks" "room xs2 n" "q_only s1 s2"
    "\<forall>x \<in> foot ?blks - span (p + 16) 4. mem s2 x = mem s1 x"
    using ok1(2) room(2) by (auto simp: sched_does_def P2)
  have q: "queue_status Q_ready = READY" "queue_status Q_running = RUNNING" by simp_all
  show ?thesis using s1(1) s2(1) ok1(4) ok2 q_only_trans [OF ok1(3) ok2(3)]
    unfolding q sched_mature_def sched_allow_def by (intro exI [of _ s1] exI [of _ s2] exI [of _ xs2] exI [of _ cs2]) simp
qed


lemma first_pcb_ok:
  fixes s :: "'a irq_state_scheme"
  assumes ok: "sched_ok s xs cs (\<lambda>_. []) blks" and cnt: "cnt_pcb s = 0" and room: "room xs (n + 49152)" "0 < n"
  shows "\<exists>p p' s' xs' cs'. first_pcb s = Some s'
    \<and> sched_ok s' xs' cs' ((\<lambda>_. [])(Q_running := [p], Q_new := [p'])) ((p', sizeof_pcb_t) # (p, sizeof_pcb_t) # blks) \<and> room xs' n
    \<and> pid_of (mem s') p = 0 \<and> pid_of (mem s') p' = 1 \<and> page_table_of (mem s') p = KERNEL_BASE + PT_OFFSET \<and> keeps blks s s'"
proof -
  define s0 where "s0 = say ''Init sched.'' (init_pcb s)"
  obtain c where s0: "s0 = s\<lparr>pcb_list := \<lambda>_. 0, con := c\<rparr>"
  proof -
    obtain o' where "s0 = kputs o' (init_pcb s)" unfolding s0_def say_def by (rule uart_kputs)
    then show thesis using that by (simp add: kputs_def init_pcb_def)
  qed
  have ok0: "sched_ok s0 xs cs (\<lambda>_. []) blks" by (rule sched_ok_client [OF ok, of "{}"]) (simp_all add: s0)
  have "cnt_pcb s0 < MAX_PCB" by (simp add: s0 cnt MAX_PCB_def)
  from new_pcb_ok [OF ok0 this room_mono [OF room(1)]] obtain p s1 xs1 cs1 where
    s1: "new_pcb s0 = Some (p, s1)" "sched_ok s1 xs1 cs1 ((\<lambda>_. [])(Q_new := [p])) ((p, sizeof_pcb_t) # blks)"
    "pid_of (mem s1) p = 0" "cnt_pcb s1 = 1" "\<forall>x \<in> foot blks. mem s1 x = mem s0 x" "room xs1 (n + 32768)"
    "q_only s0 (s1\<lparr>cnt_pcb := cnt_pcb s0, pcb_list := pcb_list s0\<rparr>)"
    using room by (auto simp: s0 cnt add.commute [of _ n] dest!: spec [of _ "n + 32768"])
  let ?blks = "(p, sizeof_pcb_t) # blks"
  define m where "m = st32 (st32 (st32 (st32 (mem s1) (p + 4) (pid_of (mem s1) p)) (p + 16) RUNNING) (p + 20) 0) (p + 24) (KERNEL_BASE + PT_OFFSET)"
  have fld: "span (p + k) 4 \<subseteq> span p (unat sizeof_pcb_t)" if "unat k + 4 \<le> 116" for k
    using that by (intro span_offset_subset) (simp add: sizeof_pcb_t_def)
  have wr: "same_outside (span p (unat sizeof_pcb_t)) (mem s1) m"
    unfolding m_def by (intro same_outside_st32_trans same_outside_refl fld) simp_all
  have far: "span (p + k) 4 \<inter> span (p + j) 4 = {}" if "unat k + 4 \<le> unat j" "unat j \<le> 100" for k j
    using pieces_apart [of "unat k" 4 "unat j" 4 p] that by simp
  have m: "ld32 m p = 0" "ld32 m (p + 24) = KERNEL_BASE + PT_OFFSET"
    using s1(3) far [of 0 4] far [of 0 16] far [of 0 20] far [of 0 24]
    by (simp_all add: m_def ld32_st32_disj pid_of_def)
  have "room xs1 ((n + 16384) + 16384)" by (rule room_mono [OF s1(6)]) simp
  from mature_first [OF s1(2) this _ wr] obtain s2 s3 xs3 cs3 where
    s3: "sched_mature p (s1\<lparr>mem := m\<rparr>) = Some s2" "sched_allow p s2 = Some s3"
    "sched_ok s3 xs3 cs3 ((\<lambda>_. [])(Q_running := [p])) ?blks" "room xs3 (n + 16384)"
    "\<forall>x \<in> foot ?blks - span (p + 16) 4. mem s3 x = m x" "q_only (s1\<lparr>mem := m\<rparr>) s3" by auto
  have cnt3: "cnt_pcb s3 = 1" using q_only_fields(1) [OF s3(6)] s1(4) by simp
  then have "cnt_pcb s3 < MAX_PCB" by (simp add: MAX_PCB_def)
  from new_pcb_ok [OF s3(3) this room_mono [OF s3(4)]] obtain p' s4 xs4 cs4 where
    s4: "new_pcb s3 = Some (p', s4)" "sched_ok s4 xs4 cs4 ((\<lambda>_. [])(Q_running := [p], Q_new := [p'])) ((p', sizeof_pcb_t) # ?blks)"
    "pid_of (mem s4) p' = 1" "\<forall>x \<in> foot ?blks. mem s4 x = mem s3 x" "room xs4 n"
    "q_only s3 (s4\<lparr>cnt_pcb := cnt_pcb s3, pcb_list := pcb_list s3\<rparr>)"
    using s3(4) room(2) by (auto simp: cnt3)
  have word: "ld32 (mem s4) (p + k) = ld32 m (p + k)" if "unat k + 4 \<le> 116" "unat k + 4 \<le> 16 \<or> 20 \<le> unat k" for k
  proof (rule ld32_cong)
    fix x assume x: "x \<in> span (p + k) 4"
    have "span (p + k) 4 \<inter> span (p + 16) 4 = {}"
      by (rule span_disjI) (use that u32_diff [of 16 k] u32_diff [of k 16] in auto)
    moreover have "x \<in> foot ?blks" using fld [OF that(1)] x by auto
    ultimately show "mem s4 x = m x" using s4(4) s3(5) x by auto
  qed
  have "blocks_disj ?blks" by (rule sched_ok_blocks(1) [OF s1(2)])
  then have out: "x \<notin> span p (unat sizeof_pcb_t)" if "x \<in> foot blks" for x using that by auto
  have "keeps blks s s0" by (simp add: keeps_def s0)
  also have "keeps blks s0 s1" by (rule new_pcb_keeps [OF s1(5,7)])
  also have "keeps blks s1 s3"
  proof -
    have "mem s3 x = mem s1 x" if "x \<in> foot blks" for x
    proof -
      have "x \<in> foot ?blks - span (p + 16) 4" using that out [OF that] status_field [of p] by auto
      then show ?thesis using s3(5) same_outsideD [OF wr out [OF that]] by simp
    qed
    then show ?thesis using q_only_kernel [OF s3(6)] by (simp add: keeps_def)
  qed
  also have "keeps blks s3 s4" by (rule new_pcb_keeps [OF _ s4(6)]) (use s4(4) in auto)
  finally have "keeps blks s s4" .
  moreover have "first_pcb s = Some s4"
  proof -
    have "wr (p + 24) (KERNEL_BASE + PT_OFFSET) (wr (p + 20) 0 (set_status p RUNNING (wr (p + 4) (pid_of (mem s1) p) s1))) = s1\<lparr>mem := m\<rparr>"
      by (simp add: wr_def set_status_def m_def)
    then show ?thesis using s1(1) s3(1,2) s4(1) by (simp add: first_pcb_def s0_def [symmetric] Let_def)
  qed
  moreover have "pid_of (mem s4) p = 0" "page_table_of (mem s4) p = KERNEL_BASE + PT_OFFSET"
    using word [of 0] word [of 24] m by (simp_all add: pid_of_def page_table_of_def)
  ultimately show ?thesis using s4(2,3,5) by blast
qed


section \<open>The kernel starts\<close>

text \<open>With empty queues the allocator's invariant is the scheduler's.\<close>

lemma sched_ok_empty:
  assumes "slb_inv s xs cs" and "q_head s = (\<lambda>_. 0)" and "q_tail s = (\<lambda>_. 0)"
    and "blocks_disj blks" and "foot blks \<inter> (foot xs \<union> foot (chunks cs)) = {}"
  shows "sched_ok s xs cs (\<lambda>_. []) blks"
proof -
  have "sched_inv s xs cs (\<lambda>_. []) blks"
    using assms by (simp add: sched_inv_def queue_ok_def q_els_def all_queues_def)
  then show ?thesis by (auto simp: sched_ok_def procs_of_def one_queue_def statuses_ok_def)
qed

text \<open>
  C8. The kernel starts. Whatever the memory holds, with a working card that has a file system and
  with the interrupt controller of this board, \<open>kinit\<close> gets through the page allocator, the object
  caches, the interrupt controller and \<open>load_fs\<close>, and \<open>init_sched\<close> through its first two control
  blocks. Then the first process, with pid 0 and the kernel's page table, runs, and the second
  one is new; the queues and the allocators are well formed; the six context blocks, the two control blocks and the
  two tables of the file system are blocks of their own; and the files are those of the card.
\<close>

theorem kernel_starts:
  fixes s :: "'a irq_state_scheme"
  assumes "has_sd hw P2V disk" and "sd_fresh (io s)" and "on_card disk m a" and "image_holds m a nx h0 fs"
    and "fs \<noteq> []" and "length fs \<le> n_blocks"
    and "\<And>t. hw_read hw t (PERIPHBASE s + ICDICFR_OFFSET) = 0xAAAAAAAA"
    and "\<And>t. hw_read hw t (PERIPHBASE s + ICDICFR_OFFSET + 4) = 0x7DC00000"
    and "q_head s = (\<lambda>_. 0)" and "q_tail s = (\<lambda>_. 0)" and "cnt_pcb s = 0"
  shows "\<exists>s1 s2 p p' xs cs ctxs. kinit_memory hw s = Some s1 \<and> first_pcb s1 = Some s2
    \<and> sched_ok s2 xs cs ((\<lambda>_. [])(Q_running := [p], Q_new := [p']))
        ([(p', sizeof_pcb_t), (p, sizeof_pcb_t), (db_table s2, 262144), (fe_table s2, 917504)] @ ctxs)
    \<and> (\<forall>c. (contexts s2 c, sizeof_context_cpu_t) \<in> set ctxs) \<and> room xs 0x10000000
    \<and> pid_of (mem s2) p = 0 \<and> pid_of (mem s2) p' = 1 \<and> page_table_of (mem s2) p = KERNEL_BASE + PT_OFFSET
    \<and> tables_hold s2 nx h0 (map (fe_at (fe_table s2)) [0 ..< length fs]) fs"
proof -
  obtain s1 ys ds ctxs where s1: "kinit_memory hw s = Some s1" "slb_inv s1 ys ds" "room ys 400000000"
    "blocks_disj ([(db_table s1, 262144), (fe_table s1, 917504)] @ ctxs)"
    "foot ([(db_table s1, 262144), (fe_table s1, 917504)] @ ctxs) \<inter> (foot ys \<union> foot (chunks ds)) = {}"
    "\<forall>c. (contexts s1 c, sizeof_context_cpu_t) \<in> set ctxs" "same_sched s s1"
    "tables_hold s1 nx h0 (map (fe_at (fe_table s1)) [0 ..< length fs]) fs"
    using kinit_memory_ok [OF assms(1,2,7,8,3,4,5,6)] by (elim exE conjE) (rule that; assumption)
  let ?blks = "[(db_table s1, 262144), (fe_table s1, 917504)] @ ctxs"
  have zero: "q_head s1 = (\<lambda>_. 0)" "q_tail s1 = (\<lambda>_. 0)" "cnt_pcb s1 = 0" using s1(7) assms(9-11) by (simp_all add: same_sched_def)
  have ok1: "sched_ok s1 ys ds (\<lambda>_. []) ?blks" by (rule sched_ok_empty [OF s1(2) zero(1,2) s1(4,5)])
  have r1: "room ys (0x10000000 + 49152)" by (rule room_mono [OF s1(3)]) simp
  have pos: "(0 :: nat) < 0x10000000" by simp
  obtain p p' s2 xs cs where
    s2: "first_pcb s1 = Some s2" "sched_ok s2 xs cs ((\<lambda>_. [])(Q_running := [p], Q_new := [p'])) ((p', sizeof_pcb_t) # (p, sizeof_pcb_t) # ?blks)"
    "room xs 0x10000000" "pid_of (mem s2) p = 0" "pid_of (mem s2) p' = 1" "page_table_of (mem s2) p = KERNEL_BASE + PT_OFFSET" "keeps ?blks s1 s2"
    using first_pcb_ok [OF ok1 zero(3) r1 pos] by (elim exE conjE) (rule that; assumption)
  let ?A = "- foot ?blks"
  have k: "contexts s2 = contexts s1" "db_table s2 = db_table s1" "fe_table s2 = fe_table s1" "free_head s2 = free_head s1"
    "fentry_head s2 = fentry_head s1" and same: "same_outside ?A (mem s1) (mem s2)"
    using s2(7) by (simp_all add: keeps_def same_outside_def)
  have h: "table_holds (mem s1) (db_table s1) nx" "free_head s1 = blk (db_table s1) h0" "in_range h0"
    "chain_holds (mem s1) (db_table s1) (fentry_head s1) (map (fe_at (fe_table s1)) [0 ..< length fs]) fs"
    using s1(8) by (simp_all only: tables_hold_def)
  have "span (db_table s1) (8 * n_blocks) \<inter> ?A = {}" by (auto simp: fs_sizes)
  from table_frame [OF same this h(1)] have h1: "table_holds (mem s2) (db_table s1) nx" .
  have ents: "span q 28 \<inter> ?A = {}" if "q \<in> set (map (fe_at (fe_table s1)) [0 ..< length fs])" for q
  proof -
    from that obtain i where i: "i < length fs" "q = fe_at (fe_table s1) i" by auto
    have "span q 28 \<subseteq> span (fe_table s1) 917504" unfolding i(2) fe_at_def using i(1) assms(6) by (intro piece) (simp_all add: n_blocks)
    then show ?thesis by auto
  qed
  have "chain_holds (mem s2) (db_table s1) (fentry_head s1) (map (fe_at (fe_table s1)) [0 ..< length fs]) fs"
    by (rule chain_frame [OF same ents h(4)])
  with h1 h(2,3) have "tables_hold s2 nx h0 (map (fe_at (fe_table s1)) [0 ..< length fs]) fs"
    by (simp only: tables_hold_def k)
  then show ?thesis using s1(1,6) s2(1-6) unfolding k by (intro exI [of _ s1] exI [of _ s2] exI [of _ p] exI [of _ p']
        exI [of _ xs] exI [of _ cs] exI [of _ ctxs]) (simp add: k)
qed


text \<open>The board: a card, and the two registers of the interrupt controller that are checked.\<close>

definition boot_board :: "(nat \<Rightarrow> u8) \<Rightarrow> hardware" where
  "boot_board disk = (quick_sd P2V disk)\<lparr>hw_read := \<lambda>t a. if a = 0xF8F01C00 then 0xAAAAAAAA else if a = 0xF8F01C04 then 0x7DC00000
     else hw_read (quick_sd P2V disk) t a\<rparr>"

lemma boot_board_sd: "has_sd (boot_board disk) P2V disk"
proof -
  have r: "hw_read (boot_board disk) t (SD_BASE + k) = hw_read (quick_sd P2V disk) t (SD_BASE + k)"
    if "k \<in> {SD_PRES_STATE_OFFSET, SD_NORM_INTR_STS_OFFSET, SD_SDMA_SYS_ADDR_OFFSET}" for t k
    using that by (auto simp: boot_board_def sd_regs dtb)
  have st: "sd_status (boot_board disk) t = sd_status (quick_sd P2V disk) t" for t by (simp add: sd_status_def r)
  have poll: "sd_poll (boot_board disk) = sd_poll (quick_sd P2V disk)" by (intro ext) (simp add: sd_poll_def st)
  have round: "sd_round (boot_board disk) = sd_round (quick_sd P2V disk)"
    by (intro ext) (simp add: sd_round_def st poll r Let_def)
  have dma: "hw_dma (boot_board disk) = hw_dma (quick_sd P2V disk)" by (simp add: boot_board_def)
  show ?thesis using quick_sd_ok [of P2V disk] unfolding has_sd_def st poll round dma by (simp add: r)
qed

definition demo_start :: irq_state where
  "demo_start = \<lparr>mem = \<lambda>_. 0, con = [], io = [], farea_head = 0, slb_head = 0, q_head = \<lambda>_. 0, q_tail = \<lambda>_. 0, cnt_pcb = 0,
     pcb_list = \<lambda>_. 0, ttbr0 = 0, contexts = \<lambda>_. 0, free_head = 0, db_table = 0, fentry_head = 0, fe_table = 0,
     PERIPHBASE = 0xF8F00000, cpsr = 0, sctlr = 0\<rparr>"

theorem kernel_starts_witness:
  "\<exists>s1 s2 p. kinit_memory (boot_board (card_with card_bytes 0x10000000)) demo_start = Some s1 \<and> first_pcb s1 = Some s2
    \<and> pid_of (mem s2) p = 0 \<and> tables_hold s2 (\<lambda>_. None) None [fe_table s2] [demo_stored]"
proof -
  let ?hw = "boot_board (card_with card_bytes 0x10000000)"
  have regs: "hw_read ?hw t (PERIPHBASE demo_start + ICDICFR_OFFSET) = 0xAAAAAAAA"
    "hw_read ?hw t (PERIPHBASE demo_start + ICDICFR_OFFSET + 4) = 0x7DC00000" for t
    by (simp_all add: boot_board_def demo_start_def gic_regs)
  have st: "sd_fresh (io demo_start)" "q_head demo_start = (\<lambda>_. 0)" "q_tail demo_start = (\<lambda>_. 0)" "cnt_pcb demo_start = 0"
    by (simp_all add: demo_start_def sd_fresh_def sd_ctl_def)
  have n: "[demo_stored] \<noteq> []" "length [demo_stored] \<le> n_blocks" by (simp_all add: n_blocks)
  from kernel_starts [OF boot_board_sd st(1) on_card_with demo_image n regs st(2-4)]
  obtain s1 s2 p where "kinit_memory ?hw demo_start = Some s1" "first_pcb s1 = Some s2" "pid_of (mem s2) p = 0"
    "tables_hold s2 (\<lambda>_. None) None (map (fe_at (fe_table s2)) [0 ..< length [demo_stored]]) [demo_stored]"
    by (elim exE conjE) (rule that; assumption)
  then show ?thesis by (auto simp: fe_at_def)
qed

end
