(* ===== verification/Boot.thy ===== *)
theory Boot
  imports Sd Elf Uart
begin

text \<open>
  Before the kernel: the firmware (\<open>firmware/arch/armv7a-le/bootmain.c\<close>), the loader in the
  master boot record of the card (\<open>boot/arch/armv7a-le/zynq7000/bootmain.c\<close>), an earlier version
  of it (\<open>trylo/load_elf.c\<close>), and the boot sector of the Loongson machine
  (\<open>boot/arch/mips64/loongson3a/bootsect.c\<close>).

  Translation is off here: the memory of the machine is physical memory. The loaders call the
  firmware's \<open>uart_spin_puts\<close> and \<open>sd_dma_spin_read\<close> through its vector table. A loader ends with
  a jump to the entry it found; its model returns that address.
\<close>

section \<open>Firmware\<close>

definition mbr_address :: u32 where "mbr_address = 0x100000"

text \<open>\<open>Inl\<close> is the address jumped to; \<open>Inr\<close> the state in which the firmware spins.\<close>

definition firmware_bootmain :: "hardware \<Rightarrow> 'a machine_scheme \<Rightarrow> (u32 \<times> 'a machine_scheme + 'a machine_scheme) option" where
  "firmware_bootmain hw s = do {
     s \<leftarrow> sleep hw 1 s;
     let s = uart_spin_puts (''FW: Hello!'' @ crlf) (uart_enable (uart_init s));
     s \<leftarrow> sd_init hw s;
     let s = uart_spin_puts (''FW: SD Controller initialized.'' @ crlf) s;
     (ret, s) \<leftarrow> sd_spin_init_mem_card hw s;
     if ret \<noteq> 0 \<and> ret \<noteq> 1 then Some (Inr (uart_spin_puts (''FW: Card initialization failed.'' @ crlf) s))
     else do {
       let s = uart_spin_puts ((if ret = 0 then ''FW: SD Card initialized.'' else ''FW: SDHC Card initialized.'') @ crlf) s;
       (ret, s) \<leftarrow> sd_dma_spin_read hw mbr_address 1 0 s;
       if ret \<noteq> 0 then Some (Inr (uart_spin_puts (''FW: Card read failed.'' @ crlf) s))
       else let s = uart_spin_puts (''FW: Card read OK.'' @ crlf) s
            in if mem s (mbr_address + 510) = 0x55 \<and> mem s (mbr_address + 511) = 0xAA
               then Some (Inl (mbr_address, uart_spin_puts (''FW: MBR valid.'' @ crlf) s))
               else Some (Inr (uart_spin_puts (''Now over.'' @ crlf) (uart_spin_puts (''So good.'' @ crlf)
                      (uart_spin_puts (''FW: MBR not valid.'' @ crlf) s))))
     }
   }"

section \<open>The loader in the master boot record\<close>

text \<open>A segment: its header is read again from the card. The offset of its first byte in a block
  goes through a byte.\<close>

definition mbr_segment ::
    "hardware \<Rightarrow> u32 \<Rightarrow> u32 \<Rightarrow> u16 \<Rightarrow> nat \<Rightarrow> u32 \<times> 'a machine_scheme \<Rightarrow> (u32 \<times> 'a machine_scheme) option" where
  "mbr_segment hw buffer elf_addr phentsize i = (\<lambda>(phoff, s). do {
     (_, s) \<leftarrow> sd_dma_spin_read hw buffer 2 (elf_addr + drop_bit 9 phoff) s;
     let p_header = (\<lambda>k. rd s (buffer + (phoff AND 511) + 4 * k));
     let phe_offset = p_header 1;
     let phe_paddr = p_header 3;
     let phe_filesz = p_header 4;
     let ofs = (ucast (phe_offset AND 511) :: u8);
     let start_id = drop_bit 9 phe_offset;
     let end_id = drop_bit 9 (phe_offset + phe_filesz - 1) + 1;
     (_, s) \<leftarrow> sd_dma_spin_read hw (phe_paddr - ucast ofs) (ucast (end_id - start_id)) (start_id + elf_addr) s;
     Some (phoff + ucast phentsize, s)
   })"

definition mbr_bootmain :: "hardware \<Rightarrow> 'a machine_scheme \<Rightarrow> (u32 \<times> 'a machine_scheme) option" where
  "mbr_bootmain hw s = do {
     let buffer = 0x1300002;
     (_, s) \<leftarrow> sd_dma_spin_read hw buffer 1 0 s;
     let elf_addr = rd s (buffer + 0x1D6);
     let buffer = 0x1200000;
     (_, s) \<leftarrow> sd_dma_spin_read hw buffer 3 elf_addr s;
     let kernel_entry = rd s (buffer + 0x18);
     let phoff = rd s (buffer + 0x1C);
     let phentsize = ld16 (mem s) (buffer + 0x2A);
     let phnum = ld16 (mem s) (buffer + 0x2C);
     (_, s) \<leftarrow> loop (mbr_segment hw buffer elf_addr phentsize) [0 ..< unat phnum] (phoff, s);
     Some (kernel_entry, uart_spin_puts ''DO'' s)
   }"

text \<open>The earlier version reads the header from block \<open>buffer + ..\<close> and takes a quarter of the
  header size as the step.\<close>

definition load_elf_segment ::
    "hardware \<Rightarrow> u32 \<Rightarrow> u32 \<Rightarrow> u16 \<Rightarrow> nat \<Rightarrow> u32 \<times> 'a machine_scheme \<Rightarrow> (u32 \<times> 'a machine_scheme) option" where
  "load_elf_segment hw buffer elf_addr phentsize i = (\<lambda>(phoff, s). do {
     (_, s) \<leftarrow> sd_dma_spin_read hw buffer 2 (buffer + drop_bit 9 phoff) s;
     let p_header = (\<lambda>k. rd s (buffer + (phoff AND 511) + 4 * k));
     let phe_offset = p_header 1;
     let phe_vaddr = p_header 2;
     let phe_filesz = p_header 4;
     let ofs = (ucast (phe_offset AND 511) :: u8);
     let start_id = drop_bit 9 phe_offset;
     let end_id = drop_bit 9 (phe_offset + phe_filesz - 1) + 1;
     (_, s) \<leftarrow> sd_dma_spin_read hw (phe_vaddr - ucast ofs) (ucast (end_id - start_id)) (start_id + elf_addr) s;
     Some (phoff + ucast (drop_bit 2 phentsize), s)
   })"

definition load_elf :: "hardware \<Rightarrow> 'a machine_scheme \<Rightarrow> (u32 \<times> 'a machine_scheme) option" where
  "load_elf hw s = do {
     let buffer = 0x130002;
     (_, s) \<leftarrow> sd_dma_spin_read hw buffer 1 0 s;
     let elf_addr = rd s (buffer + 0x1D6);
     let buffer = 0x120000;
     (_, s) \<leftarrow> sd_dma_spin_read hw buffer 3 elf_addr s;
     let kernel_entry = rd s (buffer + 0x18);
     let phoff = rd s (buffer + 0x1C);
     let phentsize = ld16 (mem s) (buffer + 0x2A);
     let phnum = ld16 (mem s) (buffer + 0x2C);
     (_, s) \<leftarrow> loop (load_elf_segment hw buffer elf_addr phentsize) [0 ..< unat phnum] (phoff, s);
     Some (kernel_entry, s)
   }"

section \<open>The boot sector of the Loongson machine\<close>

text \<open>PMON, the monitor that starts it, passes three functions on the disk: \<open>findsect\<close>, \<open>read\<close>
  and \<open>lseek\<close>. They are parameters, with the machine's state made explicit. A diagnostic
  breakpoint ends the run.\<close>

record 's pmon =
  findsect :: "u32 \<Rightarrow> 's \<Rightarrow> 's"
  pm_read :: "u32 \<Rightarrow> u32 \<Rightarrow> 's \<Rightarrow> u32 \<times> 's"
  pm_lseek :: "u32 \<Rightarrow> u32 \<Rightarrow> 's \<Rightarrow> u32 \<times> 's"

definition BUFFER :: u32 where "BUFFER = 0x80180000"
definition PART1_ENTRY :: u32 where "PART1_ENTRY = 0x1ce"
definition PART_SECTOR_START :: u32 where "PART_SECTOR_START = 0x8"

datatype boot_end = Break nat | Enter u32

text \<open>The loop over the program headers.\<close>

fun boot_segments :: "'a machine_scheme pmon \<Rightarrow> nat \<Rightarrow> u32 \<Rightarrow> 'a machine_scheme \<Rightarrow> nat option \<times> 'a machine_scheme" where
  "boot_segments pm 0 pos s = (None, s)"
| "boot_segments pm (Suc n) pos s =
     (let (r, s) = pm_read pm BUFFER sizeof_elf64_phdr s
      in if r = -1 then (Some 8, s)
      else let pos = pos + sizeof_elf64_phdr; ph = read_elf64_phdr (mem s) BUFFER
      in if p64_type ph \<noteq> PT_LOAD then boot_segments pm n pos s
      else let off = ucast (p64_offset ph) - pos;
               (r, s) = (if off \<noteq> 0 then pm_lseek pm off 1 s else (0, s))
      in if r = -1 then (Some 9, s)
      else let (r, s) = pm_read pm (ucast (p64_vaddr ph)) (ucast (p64_filesz ph)) s
      in if r = -1 then (Some 10, s)
      else let (r, s) = (if off \<noteq> 0 then pm_lseek pm (- off) 1 s else (0, s))
      in if r = -1 then (Some 11, s)
      else boot_segments pm n pos s)"

definition boot :: "'a machine_scheme pmon \<Rightarrow> u32 \<Rightarrow> 'a machine_scheme \<Rightarrow> boot_end \<times> 'a machine_scheme" where
  "boot pm base s =
     (let part1 = base + PART1_ENTRY;
          sector_start = ucast (ld16 (mem s) (part1 + PART_SECTOR_START + 2));
          sector_start = push_bit 16 sector_start + ucast (ld16 (mem s) (part1 + PART_SECTOR_START));
          s = findsect pm sector_start s;
          (_, s) = pm_read pm BUFFER sizeof_elf64hdr s;
          eh = read_elf64hdr (mem s) BUFFER;
          (stop, s) = boot_segments pm (unat (e64_phnum eh)) sizeof_elf64hdr s
      in (case stop of Some k \<Rightarrow> Break k | None \<Rightarrow> Enter (ucast (e64_entry eh)), s))"

end
