(* ===== verification/Boot_Correct.thy ===== *)
theory Boot_Correct
  imports Boot Sd_Correct
begin

text \<open>
  What the loader of the master boot record puts into memory. On hardware with a card, a segment
  is loaded at its physical address when the offset of its first byte in its block is below
  256, and 256 bytes too low otherwise, since the code keeps that offset in a byte.
\<close>

section \<open>Bytes and words of the card\<close>

definition card_word :: "(nat \<Rightarrow> u8) \<Rightarrow> nat \<Rightarrow> u32" where
  "card_word disk a = ucast (disk a) OR push_bit 8 (ucast (disk (a + 1)))
     OR push_bit 16 (ucast (disk (a + 2))) OR push_bit 24 (ucast (disk (a + 3)))"

lemma loaded_byte:
  "d < 512 * unat n \<Longrightarrow> loaded disk p n b m (p + of_nat d) = disk (512 * unat b + d)"
proof -
  assume d: "d < 512 * unat n"
  have "unat n < 65536" using unsigned_less [of n, where ?'a = nat] by simp
  then have "unat (of_nat d :: u32) = d" using d by (intro unat_of_nat_u32) simp
  then show ?thesis using d by (simp add: loaded_def span_def)
qed

lemma loaded_word:
  assumes "d + 4 \<le> 512 * unat n"
  shows "ld32 (loaded disk p n b m) (p + of_nat d) = card_word disk (512 * unat b + d)"
proof -
  have "p + of_nat d + 1 = p + of_nat (d + 1)" "p + of_nat d + 2 = p + of_nat (d + 2)"
    "p + of_nat d + 3 = p + of_nat (d + 3)" by simp_all
  then have "ld32 (loaded disk p n b m) (p + of_nat d)
    = ucast (loaded disk p n b m (p + of_nat d)) OR push_bit 8 (ucast (loaded disk p n b m (p + of_nat (d + 1))))
      OR push_bit 16 (ucast (loaded disk p n b m (p + of_nat (d + 2))))
      OR push_bit 24 (ucast (loaded disk p n b m (p + of_nat (d + 3))))"
    unfolding ld32_def by (simp only:)
  then show ?thesis using assms by (simp only: loaded_byte card_word_def add.assoc)
qed

section \<open>A segment\<close>

text \<open>The header of a segment is read at its offset in the file.\<close>

lemma block_split:
  assumes "unat e + unat p div 512 < 4294967296"
  shows "512 * unat (e + drop_bit 9 p) + unat (p AND 511) = 512 * unat e + unat (p :: u32)"
proof -
  have m: "unat (p AND 511) = unat p mod 512"
    using unat_and_mask_u32 [of p 9] by (simp add: mask_eq_exp_minus_1)
  have d: "unat (drop_bit 9 p) = unat p div 512" by (simp only: unat_drop_bit_eq) (simp add: drop_bit_eq_div)
  have "unat (e + drop_bit 9 p) = unat e + unat p div 512" using assms by (simp add: unat_word_ariths d)
  then show ?thesis unfolding m by simp
qed

lemma and_511: "unat ((p :: u32) AND 511) < 512"
  using unat_and_mask_u32 [of p 9] by (simp add: mask_eq_exp_minus_1)

definition low_by :: "u32 \<Rightarrow> nat" where
  "low_by off = (if unat off mod 512 < 256 then 0 else 256)"

lemma div_512_add: "(x + 33000000 :: nat) div 512 \<le> x div 512 + 64454"
proof -
  have "(x mod 512 + 33000000 mod 512) div 512 \<le> (1 :: nat)"
    using less_mult_imp_div_less [of "x mod 512 + 33000000 mod 512" 2 512] by simp
  then show ?thesis by (subst div_add1_eq) simp
qed

lemma blocks_cover:
  assumes "k < (f :: nat)"
  shows "x mod 512 + k < 512 * ((x + f - 1) div 512 + 1 - x div 512)"
proof -
  let ?y = "x + f - 1"
  have "x + k \<le> ?y" using assms by simp
  moreover have "?y < 512 * (?y div 512) + 512" using mult_div_mod_eq [of 512 ?y] mod_less_divisor [of 512 ?y] by linarith
  moreover have "x = 512 * (x div 512) + x mod 512" by simp
  moreover have "x div 512 \<le> ?y div 512" using assms by (intro div_le_mono) simp
  then obtain d where "?y div 512 = x div 512 + d" by (rule le_Suc_ex [THEN exE])
  moreover from this have "512 * (?y div 512 + 1 - x div 512) = 512 * d + 512" by simp
  ultimately show ?thesis by linarith
qed

lemma mod_256: "(x :: nat) mod 512 mod 256 + (if x mod 512 < 256 then 0 else 256) = x mod 512"
proof (cases "x mod 512 < 256")
  case False
  then have "x mod 512 mod 256 = (x mod 512 - 256) mod 256" by (intro le_mod_geq) simp
  also have "\<dots> = x mod 512 - 256" using mod_less_divisor [of 512 x] by (intro mod_less) linarith
  finally show ?thesis using False by simp
qed simp

text \<open>The number of blocks, and the address of the first of them.\<close>

lemma segment_blocks:
  fixes off filesz :: u32
  assumes "0 < unat filesz" and "unat off + unat filesz < 4294967296" and "unat filesz \<le> 33000000"
  shows "unat (ucast (drop_bit 9 (off + filesz - 1) + 1 - drop_bit 9 off) :: u16)
    = (unat off + unat filesz - 1) div 512 + 1 - unat off div 512"
proof -
  let ?n = "(unat off + unat filesz - 1) div 512 + 1 - unat off div 512"
  have dr: "unat (drop_bit 9 (x :: u32)) = unat x div 512" for x by (simp only: unat_drop_bit_eq) (simp add: drop_bit_eq_div)
  have sum: "unat (off + filesz) = unat off + unat filesz" using assms(2) by (simp add: unat_word_ariths)
  then have e: "unat (off + filesz - 1) = unat off + unat filesz - 1" using assms(1) by (simp add: unat_sub_if')
  have le: "unat off div 512 \<le> (unat off + unat filesz - 1) div 512" using assms(1) by (intro div_le_mono) simp
  have "(unat off + unat filesz - 1) div 512 < 8388608" using assms(2) by simp
  then have e1: "unat (drop_bit 9 (off + filesz - 1) + 1) = (unat off + unat filesz - 1) div 512 + 1"
    by (simp add: unat_word_ariths dr e)
  have n: "unat (drop_bit 9 (off + filesz - 1) + 1 - drop_bit 9 off) = ?n"
    using le by (simp add: unat_sub_if' e1 dr)
  have "?n < 65536"
  proof -
    have "unat off + unat filesz - 1 \<le> unat off + 33000000" using assms(3) by simp
    then have "(unat off + unat filesz - 1) div 512 \<le> (unat off + 33000000) div 512" by (rule div_le_mono)
    also have "\<dots> \<le> unat off div 512 + 64454" by (rule div_512_add)
    finally show ?thesis by simp
  qed
  then show ?thesis using n by (simp only: unsigned_ucast_eq) (simp add: take_bit_eq_mod)
qed

lemma segment_byte_offset: "unat (ucast (ucast ((off :: u32) AND 511) :: u8) :: u32) + low_by off = unat off mod 512"
proof -
  have m: "unat (off AND 511) = unat off mod 512"
    using unat_and_mask_u32 [of off 9] by (simp add: mask_eq_exp_minus_1)
  have "unat (ucast (ucast (off AND 511) :: u8) :: u32) = unat off mod 512 mod 256"
    by (simp add: unsigned_ucast_eq take_bit_eq_mod unat_mod_distrib m)
  then show ?thesis unfolding low_by_def by (simp only: mod_256)
qed

lemma mbr_segment_ok:
  assumes hw: "has_sd hw (\<lambda>p. p) disk" and idle: "sd_fresh (io s)"
    and hdr: "unat elf_addr + unat phoff div 512 < 4294967296"
    and off: "off = card_word disk (512 * unat elf_addr + unat phoff + 4)"
    and paddr: "paddr = card_word disk (512 * unat elf_addr + unat phoff + 12)"
    and filesz: "filesz = card_word disk (512 * unat elf_addr + unat phoff + 16)"
    and size: "0 < unat filesz" "unat off + unat filesz < 4294967296" "unat filesz \<le> 33000000"
      "unat elf_addr + unat off div 512 < 4294967296"
  shows "\<exists>s'. mbr_segment hw buffer elf_addr phentsize i (phoff, s) = Some (phoff + ucast phentsize, s')
    \<and> dev_only s s' \<and> sd_fresh (io s')
    \<and> (\<forall>k < unat filesz. mem s' (paddr + of_nat k) = disk (512 * unat elf_addr + unat off + k - low_by off))"
proof -
  obtain s1 where s1: "sd_dma_spin_read hw buffer 2 (elf_addr + drop_bit 9 phoff) s = Some (0, s1)" "dev_only s s1"
    "sd_fresh (io s1)" "mem s1 = loaded disk buffer 2 (elf_addr + drop_bit 9 phoff) (mem s)"
    using sd_read_ok [OF hw idle, of buffer 2 "elf_addr + drop_bit 9 phoff"] by blast
  let ?q = "unat (phoff AND 511)"
  have word: "rd s1 (buffer + (phoff AND 511) + of_nat w) = card_word disk (512 * unat elf_addr + unat phoff + w)"
    if "w \<le> 16" for w
  proof -
    have "?q + w + 4 \<le> 512 * unat (2 :: u16)" using and_511 [of phoff] that by simp
    from loaded_word [OF this, of disk buffer "elf_addr + drop_bit 9 phoff" "mem s"]
    have "rd s1 (buffer + of_nat (?q + w)) = card_word disk (512 * unat (elf_addr + drop_bit 9 phoff) + (?q + w))"
      by (simp only: rd_def s1(4))
    also have "512 * unat (elf_addr + drop_bit 9 phoff) + (?q + w) = 512 * unat elf_addr + unat phoff + w"
      using block_split [OF hdr] by simp
    finally have r: "rd s1 (buffer + of_nat (?q + w)) = card_word disk (512 * unat elf_addr + unat phoff + w)" .
    have "buffer + of_nat (?q + w) = buffer + (phoff AND 511) + of_nat w"
      by (simp add: add.assoc)
    then show ?thesis using r by (simp only:)
  qed
  have fields: "rd s1 (buffer + (phoff AND 511) + 4 * 1) = off" "rd s1 (buffer + (phoff AND 511) + 4 * 3) = paddr"
    "rd s1 (buffer + (phoff AND 511) + 4 * 4) = filesz"
    using word [of 4] word [of 12] word [of 16] by (simp_all add: off paddr filesz)
  define ofs where "ofs = (ucast (ucast (off AND 511) :: u8) :: u32)"
  define n where "n = (ucast (drop_bit 9 (off + filesz - 1) + 1 - drop_bit 9 off) :: u16)"
  obtain s2 where s2: "sd_dma_spin_read hw (paddr - ofs) n (drop_bit 9 off + elf_addr) s1 = Some (0, s2)" "dev_only s1 s2"
    "sd_fresh (io s2)" "mem s2 = loaded disk (paddr - ofs) n (drop_bit 9 off + elf_addr) (mem s1)"
    using sd_read_ok [OF hw s1(3), of "paddr - ofs" n "drop_bit 9 off + elf_addr"] by blast
  have run: "mbr_segment hw buffer elf_addr phentsize i (phoff, s) = Some (phoff + ucast phentsize, s2)"
    using s1(1) s2(1) fields by (simp add: mbr_segment_def Let_def ofs_def n_def)
  have byte: "mem s2 (paddr + of_nat k) = disk (512 * unat elf_addr + unat off + k - low_by off)"
    if "k < unat filesz" for k
  proof -
    have o: "unat ofs + low_by off = unat off mod 512" unfolding ofs_def by (rule segment_byte_offset)
    have "unat ofs + k < 512 * unat n"
    proof -
      have "unat off mod 512 + k < 512 * ((unat off + unat filesz - 1) div 512 + 1 - unat off div 512)"
        using blocks_cover [OF that] .
      then show ?thesis using o unfolding n_def segment_blocks [OF size(1-3)] by simp
    qed
    from loaded_byte [OF this, of disk "paddr - ofs" "drop_bit 9 off + elf_addr" "mem s1"]
    have "mem s2 (paddr + of_nat k) = disk (512 * unat (drop_bit 9 off + elf_addr) + (unat ofs + k))"
      by (simp add: s2(4))
    also have "512 * unat (drop_bit 9 off + elf_addr) + (unat ofs + k) = 512 * unat elf_addr + unat off + k - low_by off"
    proof -
      have dr: "unat (drop_bit 9 off) = unat off div 512" by (simp only: unat_drop_bit_eq) (simp add: drop_bit_eq_div)
      have "unat (drop_bit 9 off + elf_addr) = unat off div 512 + unat elf_addr"
        using size(4) by (simp add: unat_word_ariths dr)
      moreover have "unat off = 512 * (unat off div 512) + (unat ofs + low_by off)" unfolding o by simp
      ultimately show ?thesis by linarith
    qed
    finally show ?thesis .
  qed
  show ?thesis using run s1(2) s2(2,3) byte dev_only_trans by blast
qed

section \<open>Results\<close>

text \<open>
  C14. On a working card, the loader reads the header of a segment and stores the segment: every byte
  of it at its physical address if the segment starts in the first half of a block of the card.
  If it starts in the second half, the byte stored there is the one 256 places earlier in the
  file.
\<close>

theorem mbr_segment_places:
  assumes "has_sd hw (\<lambda>p. p) disk" and "sd_fresh (io s)"
    and "unat elf_addr + unat phoff div 512 < 4294967296"
    and "off = card_word disk (512 * unat elf_addr + unat phoff + 4)"
    and "paddr = card_word disk (512 * unat elf_addr + unat phoff + 12)"
    and "filesz = card_word disk (512 * unat elf_addr + unat phoff + 16)"
    and "0 < unat filesz" "unat off + unat filesz < 4294967296" "unat filesz \<le> 33000000"
      "unat elf_addr + unat off div 512 < 4294967296"
  shows "\<exists>s'. mbr_segment hw buffer elf_addr phentsize i (phoff, s) = Some (phoff + ucast phentsize, s')
    \<and> (\<forall>k < unat filesz. mem s' (paddr + of_nat k)
        = disk (512 * unat elf_addr + unat off + k - (if unat off mod 512 < 256 then 0 else 256)))"
  using mbr_segment_ok [OF assms, of buffer phentsize i] unfolding low_by_def by blast

theorem mbr_segment_places_witness:
  "\<exists>hw s'. mbr_segment hw 0x1200000 0 32 0 (0, \<lparr>mem = \<lambda>_. 0, con = [], io = []\<rparr>) = Some (32, s')
    \<and> mem s' 0x100000 = 1"
proof -
  define disk where "disk = (\<lambda>a :: nat. if a = 4 then 0x10 else if a = 5 then 1 else if a = 14 then 0x10
    else if a = 16 then 1 else if a = 272 then 0xAB else (0 :: u8))"
  have "card_word disk 4 = 0x110" "card_word disk 12 = 0x100000" "card_word disk 16 = 1"
    by (simp_all add: card_word_def disk_def)
  then show ?thesis
    using mbr_segment_places [OF quick_sd_ok [of "\<lambda>p. p" disk], of "\<lparr>mem = \<lambda>_. 0, con = [], io = []\<rparr>" 0 0
        "0x110" "0x100000" 1 "0x1200000" 32 0]
    by (auto simp: sd_fresh_def sd_ctl_def disk_def)
qed

end
