(* ===== verification/Mmu_Correct.thy ===== *)
theory Mmu_Correct
  imports Mmu
begin

text \<open>
  What the boot table maps. \<open>translate\<close> is the walk of the processor: a first-level entry is a
  section of a megabyte, or points to a table of pages. \<open>at\<close> says where physical memory is in
  the memory of the machine.
\<close>

definition translate :: "(u32 \<Rightarrow> u32) \<Rightarrow> memory \<Rightarrow> u32 \<Rightarrow> u32 \<Rightarrow> u32 option" where
  "translate at m pt va =
     (let e = ld32 m (entry pt (unat va div 0x100000))
      in if e AND 3 = 2 then Some ((e AND 0xFFF00000) + (va AND 0xFFFFF))
         else if e AND 3 = 1
         then let e2 = ld32 m (entry (at (e AND 0xFFFFFC00)) (unat va div 0x1000 mod 0x100))
              in if e2 AND 3 = 0 then None else Some ((e2 AND 0xFFFFF000) + (va AND 0xFFF))
         else None)"

section \<open>A table of 4096 entries\<close>

lemma entry_st32:
  assumes "i < 4096" and "j < 4096"
  shows "ld32 (st32 m (entry pt j) v) (entry pt i) = (if i = j then v else ld32 m (entry pt i))"
proof (cases "i = j")
  case False
  have u: "unat (of_nat k * 4 :: u32) = 4 * k" if "k < 4096" for k
    using that by (simp add: unat_word_ariths unat_of_nat)
  have "unat (entry pt j - entry pt i) \<ge> 4" if "i < 4096" "j < 4096" "i \<noteq> j" for i j
  proof -
    have "entry pt j - entry pt i = of_nat j * 4 - of_nat i * 4" by (simp add: entry_def)
    then show ?thesis using that by (simp add: unat_sub_if' u) arith
  qed
  then have "4 \<le> unat (entry pt j - entry pt i)" "4 \<le> unat (entry pt i - entry pt j)"
    using assms False by metis+
  then show ?thesis using False by (simp add: ld32_st32_far)
qed simp

text \<open>The two halves written by the second loop of \<open>prepare_page_table\<close>.\<close>

lemma halves:
  "k \<le> 0x800 \<Longrightarrow> i < 4096 \<Longrightarrow>
    ld32 (fold (\<lambda>i m. let mask = f i in st32 (st32 m (entry pt i) mask) (entry pt (i + 0x800)) mask) [0 ..< k] m) (entry pt i)
    = (if i < k then f i else if 0x800 \<le> i \<and> i < 0x800 + k then f (i - 0x800) else ld32 m (entry pt i))"
proof (induction k)
  case (Suc k)
  then show ?case by (simp add: Let_def entry_st32)
qed auto

text \<open>The single entries written at the end.\<close>

lemma singles:
  "\<forall>(j, b) \<in> set es. j < 4096 \<Longrightarrow> i < 4096 \<Longrightarrow>
    ld32 (fold (\<lambda>(j, b) m. st32 m (entry pt j) (f b)) es m) (entry pt i)
    = (case map_of (rev es) i of Some b \<Rightarrow> f b | None \<Rightarrow> ld32 m (entry pt i))"
proof (induction es arbitrary: m)
  case (Cons e es)
  then show ?case by (cases e) (auto simp: map_add_def entry_st32 split: option.splits)
qed simp

lemma prepared_entry:
  assumes "i < 4096"
  shows "ld32 (prepare_page_table m) (entry PT0_BASE i)
    = section_mask (case map_of io_sections i of Some b \<Rightarrow> b | None \<Rightarrow> of_nat (if i < 0x800 then i else i - 0x800))"
proof -
  have io: "\<forall>(j, b) \<in> set io_sections. j < 4096" by (simp add: io_sections_def)
  have rev: "map_of (rev io_sections) = map_of io_sections"
    by (rule map_of_eqI) (auto simp: io_sections_def)
  have pt: "PT1_BASE = PT0_BASE" by (simp add: PT0_BASE_def PT1_BASE_def)
  show ?thesis
    unfolding prepare_page_table_def Let_def pt singles [OF io assms, of PT0_BASE section_mask, unfolded rev]
    using halves [of "0x800" i "\<lambda>i. section_mask (of_nat i)" PT0_BASE] assms
    by (simp add: Let_def split: option.split)
qed

text \<open>A section entry.\<close>

lemma section_mask_bits:
  assumes "unat b < 4096"
  shows "section_mask b AND 3 = 2" and "unat (section_mask b AND 0xFFF00000) = unat b * 0x100000"
proof -
  have m: "section_mask b = push_bit 20 b OR 0x10802" by (simp add: section_mask_def or.assoc)
  have "push_bit 20 b AND 3 = take_bit 2 (push_bit 20 b)" by (simp add: take_bit_eq_mask mask_eq_exp_minus_1)
  then have "push_bit 20 b AND 3 = 0" by (simp add: take_bit_push_bit)
  then show "section_mask b AND 3 = 2" by (simp add: m bit.conj_disj_distrib2)
  have "b AND 0xFFF = b" using assms by (intro u32_eqI) (simp add: unat_and_FFF)
  moreover have "push_bit 20 b AND 0xFFF00000 = push_bit 20 (b AND 0xFFF)"
    using push_bit_and [of 20 b "0xFFF"] by simp
  ultimately have "section_mask b AND 0xFFF00000 = push_bit 20 b" by (simp add: m bit.conj_disj_distrib2)
  moreover have "unat (push_bit 20 b) = unat b * 0x100000"
    using assms by (simp add: push_bit_eq_mult unat_word_ariths)
  ultimately show "unat (section_mask b AND 0xFFF00000) = unat b * 0x100000" by simp
qed

text \<open>The address of a section table entry, by the entries the code lists.\<close>

definition sections_pa :: "u32 \<Rightarrow> u32" where
  "sections_pa va =
     (case map_of io_sections (unat va div 0x100000) of
        Some b \<Rightarrow> push_bit 20 b + (va AND 0xFFFFF)
      | None \<Rightarrow> if va < KERNEL_BASE then va else va - KERNEL_BASE)"

lemma sections_map_ok: "translate at (prepare_page_table m) PT0_BASE va = Some (sections_pa va)"
proof -
  let ?i = "unat va div 0x100000"
  have i: "?i < 4096" using u32_bound [of va] by simp
  define b where "b = (case map_of io_sections ?i of Some b \<Rightarrow> b | None \<Rightarrow> of_nat (if ?i < 0x800 then ?i else ?i - 0x800))"
  have small: "unat (of_nat k :: u32) = k" if "k < 4096" for k using that by (intro unat_of_nat_u32) simp
  have io: "unat x < 4096" if "map_of io_sections ?i = Some x" for x
    using map_of_SomeD [OF that] by (auto simp: io_sections_def)
  have k: "(if ?i < 0x800 then ?i else ?i - 0x800) < 4096" using i by (split if_split) linarith
  have ub: "unat b < 4096"
  proof (cases "map_of io_sections ?i")
    case None
    then show ?thesis unfolding b_def by (simp only: option.case small [OF k] k)
  next
    case (Some x)
    then show ?thesis using io by (simp add: b_def)
  qed
  have e: "ld32 (prepare_page_table m) (entry PT0_BASE ?i) = section_mask b" using prepared_entry [OF i] by (simp add: b_def)
  have t: "translate at (prepare_page_table m) PT0_BASE va = Some ((section_mask b AND 0xFFF00000) + (va AND 0xFFFFF))"
    using section_mask_bits [OF ub] by (simp add: translate_def Let_def e)
  have low: "unat (va AND 0xFFFFF) = unat va mod 0x100000"
    using unat_and_mask_u32 [of va 20] by (simp add: mask_eq_exp_minus_1)
  have sum: "unat ((section_mask b AND 0xFFF00000) + (va AND 0xFFFFF)) = unat b * 0x100000 + unat va mod 0x100000"
    using ub by (simp add: unat_word_ariths section_mask_bits(2) low)
  have "(section_mask b AND 0xFFF00000) + (va AND 0xFFFFF) = sections_pa va"
  proof (cases "map_of io_sections ?i")
    case (Some x)
    then have "b = x" by (simp add: b_def)
    moreover have "unat (push_bit 20 b) = unat b * 0x100000" using ub by (simp add: push_bit_eq_mult unat_word_ariths)
    ultimately have "section_mask b AND 0xFFF00000 = push_bit 20 x"
      using section_mask_bits(2) [OF ub] by (intro u32_eqI) simp
    then show ?thesis using Some by (simp add: sections_pa_def)
  next
    case None
    have div: "unat va = ?i * 0x100000 + unat va mod 0x100000" by simp
    show ?thesis
    proof (cases "va < KERNEL_BASE")
      case True
      then have "?i < 0x800" by (simp add: KERNEL_BASE_def word_less_nat_alt)
      then have "unat b = ?i" using None by (simp add: b_def small)
      then show ?thesis using sum div True None by (intro u32_eqI) (simp add: sections_pa_def)
    next
      case False
      then have ge: "0x80000000 \<le> unat va" by (simp add: KERNEL_BASE_def word_less_nat_alt)
      then have "\<not> ?i < 0x800" by simp
      moreover have "unat b = (if ?i < 0x800 then ?i else ?i - 0x800)"
        unfolding b_def by (simp only: None option.case small [OF k])
      ultimately have "unat b = ?i - 0x800" by simp
      moreover have "unat (va - KERNEL_BASE) = unat va - 0x80000000" using ge by (simp add: KERNEL_BASE_def unat_sub_if')
      moreover have "(?i - 0x800) * 0x100000 + unat va mod 0x100000 = unat va - 0x80000000"
        using div ge by linarith
      ultimately show ?thesis using sum False None by (intro u32_eqI) (simp add: sections_pa_def)
    qed
  qed
  then show ?thesis using t by simp
qed

text \<open>The address map, in addresses of the processor and not in entries of the table. Below 2 GB an
  address is its own; the registers of the Zynq are where the chip has them: the peripherals
  (\<open>E0000000\<close>), the memory controllers (\<open>E0100000\<close> to \<open>E4000000\<close>), the system level control
  (\<open>F8000000\<close>), the debugging blocks (\<open>F8800000\<close>), the private peripherals of the processors
  (\<open>F8F00000\<close>) and the flash (\<open>FC000000\<close>); two stacks at the end of the 512 MB of memory; the exception
  vectors at 4 MB; every other address above 2 GB is 2 GB above its place in memory.\<close>

definition boot_pa :: "u32 \<Rightarrow> u32" where
  "boot_pa va =
     (if va < 0x80000000 then va
      else if 0xD0F00000 \<le> va \<and> va \<le> 0xD0FFFFFF then va - 0xD0F00000 + 0x1FE00000
      else if 0xDFF00000 \<le> va \<and> va \<le> 0xDFFFFFFF then va - 0xDFF00000 + 0x1FF00000
      else if 0xE0000000 \<le> va \<and> va \<le> 0xE01FFFFF then va
      else if 0xE1000000 \<le> va \<and> va \<le> 0xE10FFFFF then va
      else if 0xE2000000 \<le> va \<and> va \<le> 0xE20FFFFF then va
      else if 0xE4000000 \<le> va \<and> va \<le> 0xE40FFFFF then va
      else if 0xF8000000 \<le> va \<and> va \<le> 0xF80FFFFF then va
      else if 0xF8800000 \<le> va \<and> va \<le> 0xF89FFFFF then va
      else if 0xF8F00000 \<le> va \<and> va \<le> 0xF8FFFFFF then va
      else if 0xFC000000 \<le> va \<and> va \<le> 0xFC0FFFFF then va
      else if 0xFFF00000 \<le> va then va - 0xFFF00000 + 0x00400000
      else va - 0x80000000)"

lemma outside_1: "(n :: nat) div 1048576 \<noteq> k \<Longrightarrow> lo = k * 1048576 \<Longrightarrow> hi = lo + 1048575 \<Longrightarrow> \<not> (lo \<le> n \<and> n \<le> hi)"
  by (auto dest: div_nat_eqI [of k 1048576 n, rotated])

lemma outside_2:
  assumes "(n :: nat) div 1048576 \<noteq> k" and "n div 1048576 \<noteq> k + 1" and "lo = k * 1048576" and "hi = lo + 2097151"
  shows "\<not> (lo \<le> n \<and> n \<le> hi)"
  using outside_1 [OF assms(1) refl refl] outside_1 [OF assms(2) refl refl] assms(3,4) by auto

lemma boot_pa_at:
  assumes "(k, b) \<in> set io_sections" and v: "unat va = k * 0x100000 + r" and r: "r < 0x100000"
  shows "unat (boot_pa va) = unat b * 0x100000 + r"
proof -
  have "unat (va - 0xD0F00000 + 0x1FE00000) = 0x1FE00000 + r" if "k = 0xD0F"
    using v r that by (simp add: unat_word_ariths unat_sub_if')
  moreover have "unat (va - 0xDFF00000 + 0x1FF00000) = 0x1FF00000 + r" if "k = 0xDFF"
    using v r that by (simp add: unat_word_ariths unat_sub_if')
  moreover have "unat (va - 0xFFF00000 + 0x00400000) = 0x00400000 + r" if "k = 0xFFF"
    using v r that by (simp add: unat_word_ariths unat_sub_if')
  ultimately show ?thesis
    using assms(1) r unfolding io_sections_def boot_pa_def word_le_nat_alt word_less_nat_alt v
    by (simp only: list.set insert_iff empty_iff prod.inject simp_thms) (elim disjE conjE; simp add: v)
qed

lemma boot_pa_sections: "boot_pa va = sections_pa va"
proof -
  let ?i = "unat va div 0x100000" and ?o = "unat va mod 0x100000"
  have v: "unat va = ?i * 0x100000 + ?o" "?o < 0x100000" by simp_all
  have low: "unat (va AND 0xFFFFF) = ?o"
    using unat_and_mask_u32 [of va 20] by (simp add: mask_eq_exp_minus_1)
  show ?thesis
  proof (cases "map_of io_sections ?i")
    case None
    then have i: "?i \<notin> {0xE00, 0xE01, 0xE10, 0xE20, 0xE40, 0xF80, 0xF88, 0xF89, 0xF8F, 0xFC0, 0xD0F, 0xDFF, 0xFFF}"
      unfolding map_of_eq_None_iff io_sections_def by simp
    have "boot_pa va = (if va < 0x80000000 then va else va - 0x80000000)"
    proof -
      have top: "\<not> 0xFFF00000 \<le> unat va" if "?i \<noteq> 0xFFF" using that u32_bound [of va] by linarith
      have "\<not> (0xD0F00000 \<le> unat va \<and> unat va \<le> 0xD0FFFFFF)" "\<not> (0xDFF00000 \<le> unat va \<and> unat va \<le> 0xDFFFFFFF)"
        "\<not> (0xE0000000 \<le> unat va \<and> unat va \<le> 0xE01FFFFF)" "\<not> (0xE1000000 \<le> unat va \<and> unat va \<le> 0xE10FFFFF)"
        "\<not> (0xE2000000 \<le> unat va \<and> unat va \<le> 0xE20FFFFF)" "\<not> (0xE4000000 \<le> unat va \<and> unat va \<le> 0xE40FFFFF)"
        "\<not> (0xF8000000 \<le> unat va \<and> unat va \<le> 0xF80FFFFF)" "\<not> (0xF8800000 \<le> unat va \<and> unat va \<le> 0xF89FFFFF)"
        "\<not> (0xF8F00000 \<le> unat va \<and> unat va \<le> 0xF8FFFFFF)" "\<not> (0xFC000000 \<le> unat va \<and> unat va \<le> 0xFC0FFFFF)"
        "\<not> 0xFFF00000 \<le> unat va"
        using i top
          outside_1 [of "unat va" "0xD0F", OF _ refl refl]  outside_1 [of "unat va" "0xDFF", OF _ refl refl]
          outside_2 [of "unat va" "0xE00", OF _ _ refl refl]  outside_1 [of "unat va" "0xE10", OF _ refl refl]
          outside_1 [of "unat va" "0xE20", OF _ refl refl]  outside_1 [of "unat va" "0xE40", OF _ refl refl]
          outside_1 [of "unat va" "0xF80", OF _ refl refl]  outside_2 [of "unat va" "0xF88", OF _ _ refl refl]
          outside_1 [of "unat va" "0xF8F", OF _ refl refl]  outside_1 [of "unat va" "0xFC0", OF _ refl refl]
        by simp_all
      then show ?thesis unfolding boot_pa_def word_le_nat_alt word_less_nat_alt by simp
    qed
    then show ?thesis by (simp add: sections_pa_def None KERNEL_BASE_def)
  next
    case (Some b)
    then have b: "(?i, b) \<in> set io_sections" by (rule map_of_SomeD)
    then have ub: "unat b < 4096" by (auto simp: io_sections_def)
    then have "unat (push_bit 20 b + (va AND 0xFFFFF)) = unat b * 0x100000 + ?o"
      by (simp add: push_bit_eq_mult unat_word_ariths low)
    then show ?thesis using boot_pa_at [OF b v] Some by (intro u32_eqI) (simp add: sections_pa_def)
  qed
qed

text \<open>The other fields of an entry: shared memory, no domain but 0, and the access permission that
  lets the kernel read and write and the user only read.\<close>

definition boot_section :: "u32 \<Rightarrow> ptel1_section_t" where
  "boot_section pa = \<lparr>sec_type = 2, sec_B = 0, sec_C = 0, sec_XN = 0, sec_domain = 0, sec_zero1 = 0,
     sec_AP_L = 2, sec_TEX = 0, sec_AP_H = 0, sec_S = 1, sec_ng = 0, sec_zero2 = 0, sec_NS = 0,
     sec_base = ucast (drop_bit 20 pa)\<rparr>"

lemma section_mask_fields:
  assumes "unat b < 4096"
  shows "as_section (section_mask b) = boot_section (push_bit 20 b)"
proof -
  have m: "section_mask b = push_bit 20 b OR 0x10802" by (simp add: section_mask_def or.assoc)
  have z: "(ucast (drop_bit k (push_bit 20 b)) :: 'a :: len word) = 0" if "k + LENGTH('a) \<le> 20" for k
    using that by (intro bit_word_eqI) (auto simp: bit_simps)
  have "drop_bit 20 (push_bit 20 b) = b"
    using assms by (intro u32_eqI) (simp add: unat_drop_bit_eq drop_bit_eq_div push_bit_eq_mult unat_word_ariths)
  then show ?thesis
    by (simp add: as_section_def boot_section_def m z z [of 0, simplified] unsigned_or_eq)
qed

lemma boot_entry: "as_section (ld32 (prepare_page_table m) (entry PT0_BASE (unat va div 0x100000))) = boot_section (boot_pa va)"
proof -
  let ?i = "unat va div 0x100000"
  have i: "?i < 4096" using u32_bound [of va] by simp
  have small: "unat (of_nat k :: u32) = k" if "k < 4096" for k using that by (intro unat_of_nat_u32) simp
  define b where "b = (case map_of io_sections ?i of Some b \<Rightarrow> b | None \<Rightarrow> of_nat (if ?i < 0x800 then ?i else ?i - 0x800))"
  have e: "ld32 (prepare_page_table m) (entry PT0_BASE ?i) = section_mask b" using prepared_entry [OF i] by (simp add: b_def)
  have ub: "unat b < 4096"
  proof (cases "map_of io_sections ?i")
    case None
    have "(if ?i < 0x800 then ?i else ?i - 0x800) < 4096" using i by (split if_split) linarith
    then show ?thesis unfolding b_def by (simp only: None option.case small)
  next
    case (Some x)
    then show ?thesis using map_of_SomeD [OF Some] by (auto simp: b_def io_sections_def)
  qed
  have "translate id (prepare_page_table m) PT0_BASE va = Some (boot_pa va)"
    using sections_map_ok by (simp add: boot_pa_sections)
  then have pa: "boot_pa va = (section_mask b AND 0xFFF00000) + (va AND 0xFFFFF)"
    using section_mask_bits(1) [OF ub] by (simp add: translate_def Let_def e)
  have low: "unat (va AND 0xFFFFF) = unat va mod 0x100000"
    using unat_and_mask_u32 [of va 20] by (simp add: mask_eq_exp_minus_1)
  have "unat (drop_bit 20 (boot_pa va)) = unat b"
    using ub by (simp add: pa unat_drop_bit_eq drop_bit_eq_div unat_word_ariths section_mask_bits(2) low)
  then have "drop_bit 20 (boot_pa va) = drop_bit 20 (push_bit 20 b)"
    using ub by (intro u32_eqI) (simp add: unat_drop_bit_eq drop_bit_eq_div push_bit_eq_mult unat_word_ariths)
  then show ?thesis using section_mask_fields [OF ub] by (simp add: e boot_section_def)
qed

section \<open>Cutting off the lower half\<close>

lemma mmu_high_entry:
  assumes "i < 4096"
  shows "ld32 (mem (snd (mmu_high_main s))) (entry page_table i)
    = (if i < 0x800 then 0 else ld32 (mem s) (entry page_table i))"
proof -
  have "k \<le> 4096 \<Longrightarrow> ld32 (mem (fold (\<lambda>i s. wr (entry page_table i) 0 s) [0 ..< k] s)) (entry page_table i)
      = (if i < k then 0 else ld32 (mem s) (entry page_table i))" for k
    using assms by (induction k) (auto simp: entry_st32)
  moreover have "unat (drop_bit 20 KERNEL_BASE) = 0x800" by (simp add: KERNEL_BASE_def)
  ultimately show ?thesis by (simp add: mmu_high_main_def Let_def)
qed

section \<open>Results\<close>

text \<open>
  C15. The boot table maps every address, whatever was in memory before: to \<open>boot_pa\<close>, by an
  entry for shared memory of domain 0 that the kernel may read and write and the user may only
  read. After \<open>mmu_high_main\<close> no address below the kernel is mapped, and the entries above are as
  before. This is not in all places the map of the comments, which put the stack at \<open>FFF00000\<close>, in
  the last of the 512 megabytes, and keep 1 MB to 2 MB for \<open>A0100000\<close>: \<open>FFF00000\<close> is mapped to the
  vectors at 4 MB, the stacks are at \<open>D0F00000\<close> and \<open>DFF00000\<close>, and \<open>A0100000\<close> is at 513 MB.
\<close>

theorem boot_map:
  "translate at (prepare_page_table m) PT0_BASE va = Some (boot_pa va)
    \<and> as_section (ld32 (prepare_page_table m) (entry PT0_BASE (unat va div 0x100000))) = boot_section (boot_pa va)
    \<and> (if va < KERNEL_BASE
       then translate at' (mem (snd (mmu_high_main s))) page_table va = None
       else ld32 (mem (snd (mmu_high_main s))) (entry page_table (unat va div 0x100000))
         = ld32 (mem s) (entry page_table (unat va div 0x100000)))"
proof -
  have i: "unat va div 0x100000 < 4096" using u32_bound [of va] by simp
  have "unat va div 0x100000 < 0x800 \<longleftrightarrow> va < KERNEL_BASE" by (auto simp: KERNEL_BASE_def word_less_nat_alt)
  then have e: "ld32 (mem (snd (mmu_high_main s))) (entry page_table (unat va div 0x100000))
      = (if va < KERNEL_BASE then 0 else ld32 (mem s) (entry page_table (unat va div 0x100000)))"
    using mmu_high_entry [OF i, of s] by simp
  have "if va < KERNEL_BASE then translate at' (mem (snd (mmu_high_main s))) page_table va = None
       else ld32 (mem (snd (mmu_high_main s))) (entry page_table (unat va div 0x100000))
         = ld32 (mem s) (entry page_table (unat va div 0x100000))"
    by (cases "va < KERNEL_BASE") (simp_all add: translate_def Let_def e)
  with boot_entry sections_map_ok show ?thesis by (simp only: boot_pa_sections)
qed

theorem boot_map_witness:
  "translate P2V (prepare_page_table (\<lambda>_. 0)) PT0_BASE 0xE0001030 = Some 0xE0001030
    \<and> translate P2V (prepare_page_table (\<lambda>_. 0)) PT0_BASE 0x80200000 = Some 0x00200000
    \<and> translate P2V (prepare_page_table (\<lambda>_. 0)) PT0_BASE 0xD0FFFFF0 = Some 0x1FEFFFF0
    \<and> translate P2V (prepare_page_table (\<lambda>_. 0)) PT0_BASE 0xFFF00018 = Some 0x00400018
    \<and> translate P2V (prepare_page_table (\<lambda>_. 0)) PT0_BASE 0xA0100000 = Some 0x20100000"
  using boot_map [THEN conjunct1, of P2V "\<lambda>_. 0" "0xE0001030"] boot_map [THEN conjunct1, of P2V "\<lambda>_. 0" "0x80200000"] boot_map [THEN conjunct1, of P2V "\<lambda>_. 0" "0xD0FFFFF0"]
    boot_map [THEN conjunct1, of P2V "\<lambda>_. 0" "0xFFF00018"] boot_map [THEN conjunct1, of P2V "\<lambda>_. 0" "0xA0100000"]
  by (simp add: boot_pa_def)

end
