(* ===== verification/Fs_Props.thy ===== *)
theory Fs_Props
  imports Fs_Correct
begin

text \<open>
  The rest of the file system's operations: deleting and creating files, and an invariant of the
  operations' runs. The runs leave out what the invariant does not survive, and the code does
  not prevent: recycling the first file, creating a number twice, and a negative length of a name.
\<close>

section \<open>Recycling\<close>

text \<open>The addresses of recycled blocks are erased.\<close>

definition erased :: "blocks \<Rightarrow> blocks" where
  "erased bs = map (\<lambda>(b, _). (b, 0)) bs"

lemma erased_simps [simp]: "erased [] = []" "erased ((b, d) # bs) = (b, 0) # erased bs" "erased (bs @ bs') = erased bs @ erased bs'"
  by (simp_all add: erased_def)

lemma block_areas_erased [simp]: "block_areas (erased bs) = block_areas bs"
  by (simp add: erased_def block_areas_def comp_def case_prod_beta)

lemma recycle_loop_ok:
  "blocks_at (mem s) p (cs @ [(b, d)]) 0 \<Longrightarrow> blocks_disj (block_areas (cs @ [(b, d)])) \<Longrightarrow>
    \<exists>m'. recycle_loop p s = Some (b, s\<lparr>mem := m'\<rparr>) \<and> blocks_at m' p (erased (cs @ [(b, d)])) 0
      \<and> same_outside (foot (block_areas (cs @ [(b, d)]))) (mem s) m'"
proof (induction cs arbitrary: p s)
  case Nil
  have "same_outside (span b 8) (mem s) (st32 (mem s) (b + 4) 0)" by (rule same_outside_st32) (rule span_4_8)
  then show ?case using Nil.prems
    by (intro exI [of _ "st32 (mem s) (b + 4) 0"], subst recycle_loop.simps) (simp add: wr_def next_block_def ondisk_addr_def)
next
  case (Cons c cs)
  obtain b' d' where c: "c = (b', d')" by force
  let ?s = "wr (b' + 4) 0 s"
  have p: "p = b'" "b' \<noteq> 0" "blocks_at (mem s) (next_block (mem s) b') (cs @ [(b, d)]) 0" using Cons.prems(1) by (auto simp: c)
  have so: "same_outside (span b' 8) (mem s) (mem ?s)" by (simp, rule same_outside_st32) (rule span_4_8)
  have out: "foot (block_areas (cs @ [(b, d)])) \<inter> span b' 8 = {}" and dj: "blocks_disj (block_areas (cs @ [(b, d)]))"
    using Cons.prems(2) by (auto simp: c)
  have nx: "next_block (mem ?s) b' = next_block (mem s) b'" by (simp add: next_block_def)
  have rest: "blocks_at (mem ?s) (next_block (mem ?s) b') (cs @ [(b, d)]) 0" using p(3) nx blocks_at_frame [OF so out] by simp
  from Cons.IH [OF rest dj] obtain m' where m': "recycle_loop (next_block (mem ?s) b') ?s = Some (b, ?s\<lparr>mem := m'\<rparr>)"
    "blocks_at m' (next_block (mem ?s) b') (erased (cs @ [(b, d)])) 0" "same_outside (foot (block_areas (cs @ [(b, d)]))) (mem ?s) m'"
    by blast
  have "next_block (mem ?s) b' \<noteq> 0" using blocks_at_zero [OF rest] by simp
  then have run: "recycle_loop p s = Some (b, s\<lparr>mem := m'\<rparr>)"
    using m'(1) p(1,2) by (subst recycle_loop.simps) (simp add: wr_def Let_def)
  have "span b' 4 \<inter> foot (block_areas (cs @ [(b, d)])) = {}" "span (b' + 4) 4 \<inter> foot (block_areas (cs @ [(b, d)])) = {}"
    using out span_4_8 [of b'] by blast+
  then have "next_block m' b' = next_block (mem ?s) b'" "ondisk_addr m' b' = 0"
    using ld32_same_outside [OF m'(3)] by (simp_all add: next_block_def ondisk_addr_def)
  moreover have "same_outside (foot (block_areas ((c # cs) @ [(b, d)]))) (mem s) m'"
    by (rule same_outside_trans [OF same_outside_mono [OF so] same_outside_mono [OF m'(3)]]) (auto simp: c)
  ultimately show ?case using run m'(2) p(1,2) by (auto simp: c)
qed

lemma recycle_blocks_ok:
  assumes "blocks_at (mem s) p (cs @ [(b, d)]) 0" and "blocks_disj (block_areas (cs @ [(b, d)]))"
  shows "\<exists>m'. recycle_blocks p s = Some (s\<lparr>mem := m', free_head := b\<rparr>)
      \<and> blocks_at m' p (erased (cs @ [(b, d)])) (free_head s) \<and> blocks_at m' b [(b, 0)] (free_head s)
      \<and> same_outside (foot (block_areas (cs @ [(b, d)]))) (mem s) m'"
proof -
  obtain m1 where m1: "recycle_loop p s = Some (b, s\<lparr>mem := m1\<rparr>)" "blocks_at m1 p (erased (cs @ [(b, d)])) 0"
    "same_outside (foot (block_areas (cs @ [(b, d)]))) (mem s) m1" using recycle_loop_ok [OF assms] by blast
  let ?m = "st32 m1 b (free_head s)"
  have "b \<noteq> 0" using assms(1) by simp
  then have "recycle_blocks p s = Some (s\<lparr>mem := ?m, free_head := b\<rparr>)"
    using m1(1) by (simp add: recycle_blocks_def deref_def wr_def)
  moreover have "blocks_at ?m p (erased (cs @ [(b, d)])) (free_head s)"
    using blocks_at_link [of m1 p "erased cs" b 0 0 "free_head s"] m1(2) assms(2) by simp
  moreover have "same_outside (foot (block_areas (cs @ [(b, d)]))) (mem s) ?m"
    by (rule same_outside_st32_trans [OF m1(3)]) (use span_4_8 [of b] in auto)
  ultimately show ?thesis by (intro exI [of _ ?m]) auto
qed

text \<open>
  A file that is not the first of the list is deleted. Of its blocks only the last becomes free,
  with its address erased.
\<close>

definition recycle_spec :: "u32 \<Rightarrow> u32 \<Rightarrow> fs_lists \<Rightarrow> u32 \<times> fs_lists" where
  "recycle_spec pid idx = (\<lambda>(fs, free). case get_file idx fs of
     None \<Rightarrow> (-1, fs, free)
   | Some f \<Rightarrow> if may_use pid f then (0, remove1 f fs, (fst (last (f_blocks f)), 0) # free) else (-2, fs, free))"

text \<open>The entry before takes over the link of the deleted one.\<close>

lemma unlink_entry:
  assumes holds: "fs_holds s (pre @ g # f # post) free"
  defines "m' \<equiv> st32 (mem s) (f_at g + 20) (next_entry (mem s) (f_at f))"
  shows "entries_at m' (fentry_head s) (pre @ g # post) 0" and "file_at m' f" and "blocks_at m' (free_head s) free 0"
    and "same_outside (span (f_at g) 28) (mem s) m'"
proof -
  have e: "entries_at (mem s) (fentry_head s) (pre @ g # f # post) 0" and b: "blocks_at (mem s) (free_head s) free 0"
    and disj: "blocks_disj (fs_areas (pre @ g # f # post) free)" using holds unfolding fs_holds_def by blast+
  show so: "same_outside (span (f_at g) 28) (mem s) m'"
    unfolding m'_def by (rule same_outside_st32) (simp add: span_4_28)
  have d: "foot (concat (map file_areas pre)) \<inter> span (f_at g) 28 = {}" "foot (concat (map file_areas post)) \<inter> span (f_at g) 28 = {}"
    "foot (block_areas free) \<inter> span (f_at g) 28 = {}" "foot (block_areas (f_blocks g)) \<inter> span (f_at g) 28 = {}"
    "foot (file_areas f) \<inter> span (f_at g) 28 = {}"
    using disj by (auto simp: fs_areas_def file_areas_def)
  have "file_at m' g" using e blocks_at_frame [OF so d(4)]
    by (auto simp: file_at_def m'_def index_number_def occupied_def first_block_def)
  moreover have "next_entry m' (f_at g) = next_entry (mem s) (f_at f)" by (simp add: m'_def next_entry_def)
  ultimately show "entries_at m' (fentry_head s) (pre @ g # post) 0"
    using e entries_at_frame [OF so d(1)] entries_at_frame [OF so d(2)] by auto
  show "file_at m' f" using e file_at_frame [OF so d(5)] by auto
  show "blocks_at m' (free_head s) free 0" using b blocks_at_frame [OF so d(3)] by simp
qed

lemma recycle_file_ok:
  assumes holds: "fs_holds s fs free" and inner: "fs \<noteq> [] \<Longrightarrow> f_no (hd fs) \<noteq> idx"
    and blocks: "\<And>f. get_file idx fs = Some f \<Longrightarrow> may_use pid f \<Longrightarrow> f_blocks f \<noteq> []"
  shows "\<exists>s'. recycle_file pid idx s = Some (fst (recycle_spec pid idx (fs, free)), s')
    \<and> fs_does s fs free (snd (recycle_spec pid idx (fs, free))) s' \<and> io s' = io s"
  using holds
proof (cases rule: fe_find_cases [where idx = idx])
  case none
  then show ?thesis using fs_does_same [OF holds] by (simp add: recycle_file_def recycle_spec_def)
next
  case (found pre f post)
  show ?thesis
  proof (cases "may_use pid f")
    case False
    then show ?thesis using fs_does_same [OF holds] found denied_iff [OF found(6), of pid]
      by (simp add: recycle_file_def recycle_spec_def)
  next
    case True
    obtain cs b d where b: "f_blocks f = cs @ [(b, d)]"
      using blocks [OF found(1) True] by (cases "f_blocks f" rule: rev_cases) auto
    have "pre \<noteq> []" using inner found(2,3) by auto
    then obtain pre' g where pre: "pre = pre' @ [g]" by (cases pre rule: rev_cases) auto
    have fs: "fs = pre' @ g # f # post" by (simp add: found(2) pre)
    define s1 where "s1 = wr (f_at g + 20) (next_entry (mem s) (f_at f)) s"
    have heads: "fentry_head s1 = fentry_head s" "free_head s1 = free_head s" "fs_only s s1" "io s1 = io s"
      by (simp_all add: s1_def, simp_all add: wr_def)
    have 1: "entries_at (mem s1) (fentry_head s) (pre' @ g # post) 0" "file_at (mem s1) f" "blocks_at (mem s1) (free_head s) free 0"
      "same_outside (span (f_at g) 28) (mem s) (mem s1)"
      using unlink_entry [of s pre' g f post free] holds by (simp_all add: s1_def fs del: entries_at_append)
    have disj: "blocks_disj (fs_areas fs free)" using holds by (simp add: fs_holds_def)
    have "blocks_at (mem s1) (first_block (mem s1) (f_at f)) (cs @ [(b, d)]) 0" using 1(2) b by (simp add: file_at_def)
    moreover have "blocks_disj (block_areas (cs @ [(b, d)]))" using fs_holds_entry(2) [of s "pre' @ [g]" f post free] holds by (simp add: fs file_areas_def b)
    ultimately obtain m' where m': "recycle_blocks (first_block (mem s1) (f_at f)) s1 = Some (s1\<lparr>mem := m', free_head := b\<rparr>)"
      "blocks_at m' b [(b, 0)] (free_head s)" "same_outside (foot (block_areas (f_blocks f))) (mem s1) m'"
      using recycle_blocks_ok [of s1 _ cs b d] heads(2) unfolding b by metis
    define s2 where "s2 = s1\<lparr>mem := m', free_head := b\<rparr>"
    have "f_at g \<noteq> 0" using holds by (auto simp: fs fs_holds_def file_at_def)
    then have run: "recycle_file pid idx s = Some (0, s2)"
      using found(5,7) denied_iff [OF found(6), of pid] True m'(1)
      by (simp add: recycle_file_def pre last_entry_def s1_def [symmetric] s2_def)
    have out: "foot (concat (map file_areas (pre' @ g # post))) \<inter> foot (block_areas (f_blocks f)) = {}"
      "foot (block_areas free) \<inter> foot (block_areas (f_blocks f)) = {}"
      using disj by (auto simp: fs fs_areas_def file_areas_def)
    have "entries_at m' (fentry_head s) (pre' @ g # post) 0" "blocks_at m' (free_head s) free 0"
      using 1(1,3) entries_at_frame [OF m'(3) out(1)] blocks_at_frame [OF m'(3) out(2)] by (simp_all del: entries_at_append)
    moreover have "blocks_disj (fs_areas (pre' @ g # post) ((b, 0) # free))"
      using disj by (auto simp: fs fs_areas_def file_areas_def b)
    ultimately have "fs_holds s2 (pre' @ g # post) ((b, 0) # free)" using m'(2) heads by (auto simp: fs_holds_def s2_def)
    moreover have "same_outside (foot (fs_areas fs free)) (mem s) m'"
      by (rule same_outside_trans [OF same_outside_mono [OF 1(4)] same_outside_mono [OF m'(3)]])
        (auto simp: fs fs_areas_def file_areas_def)
    moreover have "f \<notin> set pre" using found(3,4) by auto
    then have "remove1 f fs = pre' @ g # post" unfolding found(2) by (simp add: remove1_append) (simp add: pre)
    then have "recycle_spec pid idx (fs, free) = (0, pre' @ g # post, (b, 0) # free)"
      using found(1) True by (simp add: recycle_spec_def b)
    ultimately show ?thesis using run heads by (simp add: fs_does_def s2_def)
  qed
qed

text \<open>The first file of the list is not taken out of it, and its last block is linked to the
  free list: the file's blocks then run on into all free blocks.\<close>

lemma recycle_head_ok:
  assumes holds: "fs_holds s (f # post) free" and use: "may_use pid f" and b: "f_blocks f = cs @ [(b, d)]"
  shows "\<exists>s'. recycle_file pid (f_no f) s = Some (0, s') \<and> entries_at (mem s') (fentry_head s') [f\<lparr>f_blocks := erased (f_blocks f) @ free\<rparr>] (next_entry (mem s) (f_at f))
    \<and> blocks_at (mem s') (free_head s') ((b, 0) # free) 0"
proof -
  have f: "file_at (mem s) f" "fentry_head s = f_at f" and free: "blocks_at (mem s) (free_head s) free 0"
    and disj: "blocks_disj (fs_areas (f # post) free)" using holds by (simp_all add: fs_holds_def)
  have "fe_find (mem s) (f_no f) 0 (fentry_head s) = Some (0, f_at f)"
    using fe_find_some [of "mem s" "f_at f" "[]" f post 0] holds by (auto simp: fs_holds_def last_entry_def)
  moreover have "blocks_at (mem s) (first_block (mem s) (f_at f)) (cs @ [(b, d)]) 0" using f b by (simp add: file_at_def)
  moreover have "blocks_disj (block_areas (cs @ [(b, d)]))" using fs_holds_entry(2) [of s "[]" f post free] holds by (simp add: file_areas_def b)
  ultimately obtain m' where m': "recycle_blocks (first_block (mem s) (f_at f)) s = Some (s\<lparr>mem := m', free_head := b\<rparr>)"
    "blocks_at m' (first_block (mem s) (f_at f)) (erased (cs @ [(b, d)])) (free_head s)" "blocks_at m' b [(b, 0)] (free_head s)"
    "same_outside (foot (block_areas (f_blocks f))) (mem s) m'"
    and find: "fe_find (mem s) (f_no f) 0 (fentry_head s) = Some (0, f_at f)"
    using recycle_blocks_ok [of s _ cs b d] unfolding b by metis
  have run: "recycle_file pid (f_no f) s = Some (0, s\<lparr>mem := m', free_head := b\<rparr>)"
    using find m'(1) denied_iff [OF f(1), of pid] use f by (simp add: recycle_file_def file_at_def)
  have out: "span (f_at f) 28 \<inter> foot (block_areas (f_blocks f)) = {}" "foot (block_areas free) \<inter> foot (block_areas (f_blocks f)) = {}"
    using disj by (auto simp: fs_areas_def file_areas_def)
  have "blocks_at m' (free_head s) free 0" using free blocks_at_frame [OF m'(4) out(2)] by simp
  then show ?thesis using run m'(2,3) f entry_frame_fields [OF m'(4) out(1)] b by (auto simp: file_at_def)
qed

section \<open>The invariant\<close>

text \<open>The lists are in memory, no two files have the same number, and the allocator owns none of
  the blocks and entries.\<close>

definition fs_inv :: "'a fs_state_scheme \<Rightarrow> area list \<Rightarrow> cache list \<Rightarrow> fs_file list \<Rightarrow> blocks \<Rightarrow> bool" where
  "fs_inv s xs cs fs free \<longleftrightarrow> slb_inv s xs cs \<and> fs_holds s fs free \<and> distinct (map f_no fs)
     \<and> foot (fs_areas fs free) \<inter> (foot xs \<union> foot (chunks cs)) = {}"

lemma fs_only_fields:
  assumes "fs_only s s'"
  shows "farea_head s' = farea_head s" and "slb_head s' = slb_head s"
proof -
  let ?z = "\<lambda>s :: 'a fs_state_scheme. s\<lparr>mem := \<lambda>_. 0, io := [], con := [], free_head := 0, fentry_head := 0\<rparr>"
  have "farea_head (?z s') = farea_head (?z s)" "slb_head (?z s') = slb_head (?z s)"
    using assms by (simp_all only: fs_only_def)
  then show "farea_head s' = farea_head s" "slb_head s' = slb_head s" by simp_all
qed

lemma fs_inv_does:
  assumes inv: "fs_inv s xs cs fs free" and does: "fs_does s fs free (fs', free') s'"
    and sub: "foot (fs_areas fs' free') \<subseteq> foot (fs_areas fs free)" and nos: "distinct (map f_no fs')"
  shows "fs_inv s' xs cs fs' free'"
proof -
  have "slb_inv s' xs cs" using inv does fs_only_fields [of s s']
    by (intro slb_inv_frame [of s xs cs "foot (fs_areas fs free)" s']) (auto simp: fs_inv_def fs_does_def)
  then show ?thesis using inv does sub nos by (auto simp: fs_inv_def fs_does_def)
qed

text \<open>The operations on lists keep the numbers, and take no memory.\<close>

lemma upd_file_keeps:
  "(\<And>f. f_no (g f) = f_no f) \<Longrightarrow> map f_no (upd_file idx g fs) = map f_no fs"
  "(\<And>f. file_areas (g f) = file_areas f) \<Longrightarrow> map file_areas (upd_file idx g fs) = map file_areas fs"
  by (induction fs) auto

definition shrinks :: "fs_lists \<Rightarrow> fs_lists \<Rightarrow> bool" where
  "shrinks = (\<lambda>(fs, free) (fs', free'). foot (fs_areas fs' free') \<subseteq> foot (fs_areas fs free)
     \<and> (distinct (map f_no fs) \<longrightarrow> distinct (map f_no fs')))"

lemma shrinks_refl [simp]: "shrinks a a"
  by (cases a) (simp add: shrinks_def)

lemma foot_drop: "foot (block_areas (drop n free)) \<subseteq> foot (block_areas free)"
  by (subst (2) append_take_drop_id [of n free, symmetric]) (simp only: block_areas_simps foot_append, blast)

lemma open_close_shrinks: "shrinks a (snd (open_spec pid idx a))" "shrinks a (snd (close_spec pid idx a))"
  by (cases a; simp add: open_spec_def close_spec_def shrinks_def fs_areas_def upd_file_keeps split: option.split)+

lemma append_shrinks: "shrinks a (snd (append_spec pid idx n a))"
proof -
  obtain fs free where a: "a = (fs, free)" by force
  have drop: "foot (fs_areas fs (drop n free)) \<subseteq> foot (fs_areas fs free)" using foot_drop by (auto simp: fs_areas_def)
  show ?thesis
  proof (cases "get_file idx fs")
    case (Some f)
    then obtain pre post where fs: "fs = pre @ f # post" "f_no f = idx" "\<forall>g \<in> set pre. f_no g \<noteq> idx"
      using get_file_split by blast
    have "foot (fs_areas (pre @ f\<lparr>f_blocks := f_blocks f @ take n free\<rparr> # post) (drop n free)) = foot (fs_areas fs free)"
      using foot_mset [OF fs_areas_move [of pre f "take n free" post "drop n free"]] by (simp add: fs(1))
    then show ?thesis using drop Some fs upd_file_split [of pre f]
      by (auto simp: a append_spec_def shrinks_def)
  qed (use drop in \<open>simp add: a append_spec_def shrinks_def\<close>)
qed

lemma recycle_shrinks:
  assumes "\<And>f. get_file idx fs = Some f \<Longrightarrow> may_use pid f \<Longrightarrow> f_blocks f \<noteq> []"
  shows "shrinks (fs, free) (snd (recycle_spec pid idx (fs, free)))"
proof (cases "get_file idx fs")
  case (Some f)
  then obtain pre post where fs: "fs = pre @ f # post" "f_no f = idx" "\<forall>g \<in> set pre. f_no g \<noteq> idx"
    using get_file_split by blast
  show ?thesis
  proof (cases "may_use pid f")
    case True
    obtain cs b d where b: "f_blocks f = cs @ [(b, d)]" using assms [OF Some True] by (cases "f_blocks f" rule: rev_cases) auto
    have "f \<notin> set pre" using fs by auto
    then have "remove1 f fs = pre @ post" by (simp add: fs(1) remove1_append)
    then show ?thesis using Some b True by (auto simp: recycle_spec_def shrinks_def fs(1) fs_areas_def file_areas_def)
  qed (simp add: recycle_spec_def Some)
qed (simp add: recycle_spec_def)

section \<open>Creating a file\<close>

lemma fe_find_zero:
  assumes "entries_at m p fs 0"
  shows "\<exists>px' x. fe_find m idx px p = Some (px', x) \<and> (x = 0 \<longleftrightarrow> idx \<notin> f_no ` set fs)"
proof (cases "get_file idx fs")
  case None
  then show ?thesis using fe_find_none [OF assms, of idx px] by (auto simp: get_file_None)
next
  case (Some f)
  then obtain pre post where fs: "fs = pre @ f # post" "f_no f = idx" "\<forall>g \<in> set pre. f_no g \<noteq> idx"
    using get_file_split by blast
  moreover have "f_at f \<noteq> 0" using assms by (auto simp: fs(1) file_at_def)
  ultimately show ?thesis using fe_find_some [of m p pre f post px] assms by auto
qed

lemma free_fd_ok:
  "entries_at m head fs 0 \<Longrightarrow> fd + of_nat k \<notin> f_no ` set fs \<Longrightarrow> \<forall>j < k. fd + of_nat j \<in> f_no ` set fs \<Longrightarrow>
    free_fd m head fd = Some (fd + of_nat k)"
proof (induction k arbitrary: fd)
  case 0
  then show ?case using fe_find_zero [of m head fs fd 0] by (subst free_fd.simps) auto
next
  case (Suc k)
  have "fd + of_nat 0 \<in> f_no ` set fs" using Suc.prems(3) by blast
  then have "free_fd m head fd = free_fd m head (fd + 1)"
    using fe_find_zero [OF Suc.prems(1), of fd 0] by (subst free_fd.simps) auto
  also have "\<dots> = Some (fd + 1 + of_nat k)"
  proof (rule Suc.IH [OF Suc.prems(1)])
    show "fd + 1 + of_nat k \<notin> f_no ` set fs" using Suc.prems(2) by (simp add: add.assoc)
    show "\<forall>j < k. fd + 1 + of_nat j \<in> f_no ` set fs"
    proof (intro allI impI)
      fix j assume "j < k"
      then have "fd + of_nat (Suc j) \<in> f_no ` set fs" using Suc.prems(3) by blast
      then show "fd + 1 + of_nat j \<in> f_no ` set fs" by (simp add: add.assoc)
    qed
  qed
  finally show ?case by (simp add: add.assoc)
qed

text \<open>Entries are not at address zero and do not overlap, so there are fewer than \<open>2^32\<close> files
  and a number is free.\<close>

lemma file_areas_distinct: "blocks_disj (concat (map file_areas fs)) \<Longrightarrow> distinct (map f_at fs)"
proof (induction fs)
  case (Cons f fs)
  have "f_at f \<notin> f_at ` set fs"
  proof
    assume "f_at f \<in> f_at ` set fs"
    then obtain g where g: "g \<in> set fs" "f_at g = f_at f" by force
    have "(f_at g, 28) \<in> set (file_areas g)" by (simp add: file_areas_def)
    then have "(f_at f, 28) \<in> set (concat (map file_areas fs))" using g by auto
    from area_in_foot [OF this] have "span (f_at f) 28 \<subseteq> foot (concat (map file_areas fs))" by simp
    moreover have "span (f_at f) 28 \<inter> foot (concat (map file_areas fs)) = {}"
      using Cons.prems by (auto simp: file_areas_def [of f])
    ultimately have "span (f_at f) 28 = {}" by blast
    then show False using span_base [of "f_at f" 28] by simp
  qed
  then show ?case using Cons by auto
qed simp

lemma free_number:
  assumes "fs_holds s fs free"
  shows "\<exists>k. (fd :: u32) + of_nat k \<notin> f_no ` set fs"
proof -
  have dist: "distinct (map f_at fs)" using assms file_areas_distinct by (auto simp: fs_holds_def fs_areas_def)
  have "entries_at (mem s) p fs r \<Longrightarrow> 0 \<notin> f_at ` set fs" for p r
    by (induction fs arbitrary: p) (auto simp: file_at_def)
  then have "0 \<notin> f_at ` set fs" using assms by (auto simp: fs_holds_def)
  then have "set (map f_at fs) \<subset> UNIV" by (auto simp: set_eq_iff)
  then have "card (set (map f_at fs)) < card (UNIV :: u32 set)" by (intro psubset_card_mono) auto
  moreover have "card (f_no ` set fs) \<le> length fs" using card_image_le [of "set fs" f_no] card_length [of fs] by simp
  ultimately have "card (f_no ` set fs) < card (UNIV :: u32 set)" using distinct_card [OF dist] by simp
  then obtain v where v: "v \<notin> f_no ` set fs" by (metis UNIV_eq_I less_irrefl)
  have "fd + of_nat (unat (v - fd)) = v" by simp
  then show ?thesis using v by metis
qed

lemma free_fd_fresh:
  assumes "fs_holds s fs free"
  shows "\<exists>fd. free_fd (mem s) (fentry_head s) start = Some fd \<and> fd \<notin> f_no ` set fs"
proof -
  let ?P = "\<lambda>k. start + of_nat k \<notin> f_no ` set fs"
  have "?P (LEAST k. ?P k)" using free_number [OF assms] by (rule LeastI_ex)
  moreover have "\<forall>j < (LEAST k. ?P k). start + of_nat j \<in> f_no ` set fs" using not_less_Least by blast
  ultimately show ?thesis using free_fd_ok [of "mem s" "fentry_head s" fs start] assms by (auto simp: fs_holds_def)
qed

text \<open>The name of a new file: \<open>n\<close> zeros and the final zero.\<close>

definition blank_name :: "u32 \<Rightarrow> u32 \<Rightarrow> 'a machine_scheme \<Rightarrow> 'a machine_scheme" where
  "blank_name p n s = poke (file_name p + n) 0 (fold (\<lambda>j s. poke (file_name p + of_nat j) 0 s) [0 ..< nat (sint n)] s)"

lemma eq_plus_unat: "x = a + c \<longleftrightarrow> unat (x - a) = unat (c :: u32)"
proof -
  have "x = a + c \<longleftrightarrow> x - a = c" by (simp add: diff_eq_eq add.commute)
  then show ?thesis by (simp only: word_unat_eq_iff)
qed

lemma fold_poke:
  "fold (\<lambda>j s. poke (a + of_nat j) 0 s) [0 ..< k] s
    = s\<lparr>mem := \<lambda>x. if unat (x - a) < k then 0 else mem s x\<rparr>" if "k \<le> 10"
  using that
proof (induction k)
  case (Suc k)
  have u: "unat (of_nat k :: u32) = k" using Suc.prems by (intro unat_of_nat_u32) simp
  have "x = a + of_nat k \<longleftrightarrow> unat (x - a) = k" for x
    unfolding eq_plus_unat u ..
  then show ?case using Suc by (auto simp: poke_def fun_eq_iff less_Suc_eq)
qed simp

lemma blank_name_eq:
  assumes "0 \<le> sint n" and "sint n < 10"
  shows "blank_name p n s = s\<lparr>mem := \<lambda>x. if unat (x - (p + 4)) < Suc (unat n) then 0 else mem s x\<rparr>"
proof -
  have n: "nat (sint n) = unat n" "unat n < 10"
    using assms sint_nat [of n] by (cases "0 < sint n"; simp add: signed_eq_0_iff)+
  moreover have "x = p + 4 + n \<longleftrightarrow> unat (x - (p + 4)) = unat n" for x by (rule eq_plus_unat)
  ultimately show ?thesis using fold_poke [of "unat n" "p + 4" s]
    by (auto simp: blank_name_def file_name_def poke_def fun_eq_iff less_Suc_eq)
qed

definition new_file :: "u32 \<Rightarrow> u32 \<Rightarrow> fs_file" where
  "new_file p fd = \<lparr>f_at = p, f_no = fd, f_occ = -1, f_blocks = []\<rparr>"

text \<open>What \<open>create_file_from_name\<close> does with the entry it has allocated.\<close>

definition fill_entry :: "u32 \<Rightarrow> u32 \<Rightarrow> u32 \<Rightarrow> 'a fs_state_scheme \<Rightarrow> 'a fs_state_scheme" where
  "fill_entry p fd n s = (let s = blank_name p n (wr p fd (wr (p + 16) 0 (wr (p + 20) (fentry_head s) s)))
     in wr (p + 24) (-1) (s\<lparr>fentry_head := p\<rparr>))"

lemma fill_entry_ok:
  fixes s :: "'a fs_state_scheme"
  assumes n: "0 \<le> sint n" "sint n < 10" and p: "p \<noteq> 0"
  shows "file_at (mem (fill_entry p fd n s)) (new_file p fd)" and "next_entry (mem (fill_entry p fd n s)) p = fentry_head s"
    and "fentry_head (fill_entry p fd n s) = p" and "free_head (fill_entry p fd n s) = free_head s"
    and "fs_only s (fill_entry p fd n s)" and "same_outside (span p 28) (mem s) (mem (fill_entry p fd n s))"
    and "mem (fill_entry p fd n s) (p + 4) = 0" and "io (fill_entry p fd n s) = io s"
proof -
  define s1 where "s1 = wr p fd (wr (p + 16) 0 (wr (p + 20) (fentry_head s) s))"
  define m2 where "m2 = (\<lambda>x. if unat (x - (p + 4)) < Suc (unat n) then 0 else mem s1 x)"
  have eq: "fill_entry p fd n s = s1\<lparr>mem := st32 m2 (p + 24) (-1), fentry_head := p\<rparr>"
    unfolding fill_entry_def Let_def s1_def [symmetric] blank_name_eq [OF n] m2_def [symmetric] by (simp add: wr_def)
  have "unat n < 10" using n sint_nat [of n] by (cases "0 < sint n") (auto simp: signed_eq_0_iff)
  then have so2: "same_outside (span (p + 4) 10) (mem s1) m2" by (simp add: same_outside_def m2_def span_def)
  have keep: "ld32 m2 (p + k) = ld32 (mem s1) (p + k)" if "k = 0 \<or> k = 16 \<or> k = 20" for k
    using that by (intro ld32_same_outside [OF so2] span_disjI) auto
  have fields: "ld32 m2 p = fd" "ld32 m2 (p + 16) = 0" "ld32 m2 (p + 20) = fentry_head s"
    using keep [of 0] keep [of 16] keep [of 20] by (simp_all add: s1_def)
  then show "file_at (mem (fill_entry p fd n s)) (new_file p fd)" "next_entry (mem (fill_entry p fd n s)) p = fentry_head s"
    using p by (simp_all add: eq file_at_def new_file_def index_number_def occupied_def first_block_def next_entry_def)
  have so1: "same_outside (span p 28) (mem s) (mem s1)" unfolding s1_def mem_wr
    using span_mono [of 4 28 p] by (intro same_outside_st32_trans same_outside_refl span_4_28) auto
  have "span (p + 4) 10 \<subseteq> span p 28" by (rule span_offset_subset) simp
  from same_outside_trans [OF so1 same_outside_mono [OF so2 this]] have "same_outside (span p 28) (mem s) m2" .
  then show "same_outside (span p 28) (mem s) (mem (fill_entry p fd n s))"
    unfolding eq by (simp, intro same_outside_st32_trans span_4_28) auto
  have "p + 4 \<notin> span (p + 24) 4" by (simp add: span_def)
  then show "mem (fill_entry p fd n s) (p + 4) = 0" by (simp add: eq st32_out m2_def)
  show "fentry_head (fill_entry p fd n s) = p" by (simp add: eq)
  show "free_head (fill_entry p fd n s) = free_head s" "io (fill_entry p fd n s) = io s"
    unfolding eq by (simp_all add: s1_def wr_def)
  show "fs_only s (fill_entry p fd n s)" by (simp add: eq s1_def)
qed

lemma create_unfold:
  assumes "0 \<le> sint n" and "sint n < 10"
  shows "create_file_from_name name n s = do {
     r \<leftarrow> fname_to_fd name n s;
     if r = 0 then Some (-2, s)
     else do {
       fd \<leftarrow> free_fd (mem s) (fentry_head s) 1;
       (p, s) \<leftarrow> slb_alloc_align sizeof_fentry_t 0 s;
       if p = 0 then Some (-3, s) else Some (fd, fill_entry p fd n s)
     }
   }"
proof -
  have "\<not> 10 \<le>s n" using assms by (simp add: word_sle_eq)
  then show ?thesis
    by (simp add: create_file_from_name_def fill_entry_def blank_name_def Let_def cong: if_cong)
qed

lemma slb_alloc_entry:
  assumes "slb_inv s xs cs"
  shows "(slb_alloc_align sizeof_fentry_t 0 s = None \<and> \<not> room xs 8192)
    \<or> (\<exists>p s'. slb_alloc_align sizeof_fentry_t 0 s = Some (p, s') \<and> slb_gives 8192 s xs cs 28 4 p s')"
proof -
  have req: "slb_request 28 0" by (simp add: slb_request_def)
  have sz: "slb_sz 28 = 28" "slb_al 28 0 = 4"
    by (simp_all add: slb_sz_def slb_al_def sizeof_slb_obj_t_def int_max_def int_min_def word_sless_alt)
  have "unat (pool_bytes 28) = 4096" by (simp add: pool_bytes_def Let_def sizeof_slb_pool_t_def)
  then show ?thesis using slb_alloc_align_ok [OF assms req] by (simp add: sz sizeof_fentry_t_def)
qed

lemma slb_only_fs:
  assumes "slb_only s (s' :: 'a fs_state_scheme)"
  shows "fentry_head s' = fentry_head s" and "free_head s' = free_head s" and "io s' = io s"
proof -
  let ?z = "\<lambda>s :: 'a fs_state_scheme. s\<lparr>mem := \<lambda>_. 0, con := [], farea_head := 0, slb_head := 0\<rparr>"
  have "fentry_head (?z s') = fentry_head (?z s)" "free_head (?z s') = free_head (?z s)" "io (?z s') = io (?z s)"
    using assms by (simp_all only: slb_only_def)
  then show "fentry_head s' = fentry_head s" "free_head s' = free_head s" "io s' = io s" by simp_all
qed

text \<open>An allocated entry, filled in and put in front.\<close>

definition entry_filled :: "u32 \<Rightarrow> u32 \<Rightarrow> 'a fs_state_scheme \<Rightarrow> 'a fs_state_scheme \<Rightarrow> bool" where
  "entry_filled p fd s s' \<longleftrightarrow> file_at (mem s') (new_file p fd) \<and> next_entry (mem s') p = fentry_head s
     \<and> fentry_head s' = p \<and> free_head s' = free_head s \<and> fs_only s s' \<and> same_outside (span p 28) (mem s) (mem s')"

lemma slb_gives_nonnull:
  assumes inv: "slb_inv s xs cs" and gives: "slb_gives d s xs cs 28 al p s1"
  shows "p \<noteq> 0"
proof -
  have "p \<in> span p 28" by simp
  moreover have "foot xs \<union> foot (chunks cs) \<subseteq> arena" using inv by (simp add: slb_inv_def)
  moreover have "span p 28 \<subseteq> foot xs \<union> foot (chunks cs)" using gives by (auto simp: slb_gives_def)
  ultimately have "p \<in> arena" by blast
  then show ?thesis by (auto simp: arena_def)
qed

lemma entry_filled_holds:
  assumes inv: "fs_inv s xs cs fs free" and gives: "slb_gives d s xs cs 28 al p s1" and only: "slb_only s s1"
    and filled: "entry_filled p fd s1 s2" and fd: "fd \<notin> f_no ` set fs"
  shows "(\<exists>xs' cs'. fs_inv s2 xs' cs' (new_file p fd # fs) free)
    \<and> same_outside (foot xs \<union> foot (chunks cs)) (mem s) (mem s2)"
proof -
  let ?own = "foot xs \<union> foot (chunks cs)" and ?s = s2
  have i: "slb_inv s xs cs" "fs_holds s fs free" "distinct (map f_no fs)" "foot (fs_areas fs free) \<inter> ?own = {}"
    using inv by (simp_all add: fs_inv_def)
  from gives obtain xs' cs' where g: "span p 28 \<subseteq> ?own" "same_outside ?own (mem s) (mem s1)" "slb_inv s1 xs' cs'"
    "foot xs' \<union> foot (chunks cs') \<subseteq> ?own - span p 28" by (auto simp: slb_gives_def)
  have fill: "file_at (mem ?s) (new_file p fd)" "next_entry (mem ?s) p = fentry_head s1" "fentry_head ?s = p"
    "free_head ?s = free_head s1" "fs_only s1 ?s" "same_outside (span p 28) (mem s1) (mem ?s)"
    using filled by (simp_all add: entry_filled_def)
  have so: "same_outside ?own (mem s) (mem ?s)"
    using same_outside_trans [OF g(2) same_outside_mono [OF fill(6) g(1)]] .
  have out: "foot (concat (map file_areas fs)) \<inter> ?own = {}" "foot (block_areas free) \<inter> ?own = {}"
    using i(4) by (auto simp: fs_areas_def)
  have "entries_at (mem ?s) (fentry_head s) fs 0" "blocks_at (mem ?s) (free_head s) free 0"
    using i(2) entries_at_frame [OF so out(1)] blocks_at_frame [OF so out(2)] by (simp_all add: fs_holds_def)
  moreover have areas: "fs_areas (new_file p fd # fs) free = (p, 28) # fs_areas fs free" by (simp add: file_areas_def new_file_def)
  moreover have "blocks_disj ((p, 28) # fs_areas fs free)" using i(2,4) g(1) by (auto simp: fs_holds_def)
  ultimately have "fs_holds ?s (new_file p fd # fs) free"
    using fill slb_only_fs [OF only] unfolding fs_holds_def areas by (simp add: new_file_def)
  moreover have "slb_inv ?s xs' cs'" using g(3,4) fill(6) fs_only_fields [OF fill(5)]
    by (intro slb_inv_frame [of s1 xs' cs' "span p 28" ?s]) auto
  moreover have "distinct (map f_no (new_file p fd # fs))" using i(3) fd by (simp add: new_file_def)
  moreover have "foot ((p, 28) # fs_areas fs free) \<inter> (foot xs' \<union> foot (chunks cs')) = {}"
    using i(4) g(4) by auto
  ultimately have "fs_inv ?s xs' cs' (new_file p fd # fs) free" unfolding fs_inv_def areas by blast
  then show ?thesis using so by blast
qed

lemma fill_entry_holds:
  assumes inv: "fs_inv s xs cs fs free" and gives: "slb_gives d s xs cs 28 al p s1" and only: "slb_only s s1"
    and n: "0 \<le> sint n" "sint n < 10" and fd: "fd \<notin> f_no ` set fs"
  shows "p \<noteq> 0 \<and> (\<exists>xs' cs'. fs_inv (fill_entry p fd n s1) xs' cs' (new_file p fd # fs) free)
    \<and> same_outside (foot xs \<union> foot (chunks cs)) (mem s) (mem (fill_entry p fd n s1))"
proof -
  have p: "p \<noteq> 0" using inv by (intro slb_gives_nonnull [OF _ gives]) (simp add: fs_inv_def)
  have "entry_filled p fd s1 (fill_entry p fd n s1)" unfolding entry_filled_def using fill_entry_ok [OF n p] by blast
  from entry_filled_holds [OF inv gives only this fd] p show ?thesis by blast
qed

text \<open>\<open>create_file\<close>, which makes a file with the number it is given.\<close>

lemma create_file_ok:
  assumes inv: "fs_inv s xs cs fs free" and idx: "idx \<notin> f_no ` set fs" and run: "create_file idx s = Some (r, s')"
  shows "r = 0 \<and> (\<exists>p xs' cs'. fs_inv s' xs' cs' (new_file p idx # fs) free)
    \<and> same_outside (foot xs \<union> foot (chunks cs)) (mem s) (mem s') \<and> io s' = io s"
proof -
  have slb: "slb_inv s xs cs" using inv by (simp add: fs_inv_def)
  from run obtain p s1 where alloc: "slb_alloc_align sizeof_fentry_t 0 s = Some (p, s1)" and r: "r = 0"
    and s': "s' = wr (p + 24) (-1) ((wr p idx (wr (p + 16) 0 (wr (p + 20) (fentry_head s1) s1)))\<lparr>fentry_head := p\<rparr>)"
    by (auto simp: create_file_def Let_def split: bind_splits)
  then have gives: "slb_gives 8192 s xs cs 28 4 p s1" using slb_alloc_entry [OF slb] by auto
  have p: "p \<noteq> 0" by (rule slb_gives_nonnull [OF slb gives])
  have only: "slb_only s s1" by (rule slb_alloc_align_only [OF alloc])
  have "same_outside (span p 28) (mem s1) (mem s')" unfolding s' mem_wr
    using span_mono [of 4 28 p] by (simp, intro same_outside_st32_trans same_outside_refl span_4_28) auto
  then have "entry_filled p idx s1 s'"
    using p by (simp add: entry_filled_def s' wr_def file_at_def new_file_def index_number_def occupied_def first_block_def next_entry_def)
  from entry_filled_holds [OF inv gives only this idx] slb_only_fs(3) [OF only] r show ?thesis by (auto simp: s' wr_def)
qed

text \<open>The search by name.\<close>

lemma name_find_ok:
  "entries_at m x fs 0 \<Longrightarrow> name_find m name n x
    = Some (case find (\<lambda>f. name_matches m name n (f_at f)) fs of None \<Rightarrow> -1 | Some f \<Rightarrow> f_no f)"
proof (induction fs arbitrary: x)
  case Nil
  then show ?case by (simp add: name_find.simps)
next
  case (Cons f fs)
  then have "x = f_at f" "x \<noteq> 0" "index_number m x = f_no f" "entries_at m (next_entry m x) fs 0" by (auto simp: file_at_def)
  then show ?case using Cons.IH [of "next_entry m x"] by (subst name_find.simps) simp
qed

lemma create_ok:
  assumes inv: "fs_inv s xs cs fs free" and n: "0 \<le> sint n" "sint n < 10"
  shows "create_file_from_name name n s = None \<and> \<not> room xs 8192
    \<or> create_file_from_name name n s = Some (-2, s) \<and> fname_to_fd name n s = Some 0
    \<or> (\<exists>p fd s'. create_file_from_name name n s = Some (fd, s') \<and> fd \<notin> f_no ` set fs
        \<and> (\<exists>xs' cs'. fs_inv s' xs' cs' (new_file p fd # fs) free) \<and> mem s' (p + 4) = 0
        \<and> same_outside (foot xs \<union> foot (chunks cs)) (mem s) (mem s') \<and> fname_to_fd name n s \<noteq> Some 0
        \<and> io s' = io s)"
proof -
  have holds: "fs_holds s fs free" and slb: "slb_inv s xs cs" using inv by (simp_all add: fs_inv_def)
  have "\<not> 10 \<le>s n" using n by (simp add: word_sle_eq)
  then obtain r where r: "fname_to_fd name n s = Some r"
    using name_find_ok [of "mem s" "fentry_head s" fs name n] holds by (auto simp: fname_to_fd_def fs_holds_def)
  obtain fd where fd: "free_fd (mem s) (fentry_head s) 1 = Some fd" "fd \<notin> f_no ` set fs"
    using free_fd_fresh [OF holds] by blast
  show ?thesis
  proof (cases "r = 0")
    case True
    then show ?thesis by (simp add: create_unfold [OF n] r)
  next
    case False
    from slb_alloc_entry [OF slb] show ?thesis
    proof (elim disjE conjE exE)
      assume "slb_alloc_align sizeof_fentry_t 0 s = None" "\<not> room xs 8192"
      then show ?thesis using False by (simp add: create_unfold [OF n] r fd)
    next
      fix p s1 assume alloc: "slb_alloc_align sizeof_fentry_t 0 s = Some (p, s1)" and gives: "slb_gives 8192 s xs cs 28 4 p s1"
      note filled = fill_entry_holds [OF inv gives slb_alloc_align_only [OF alloc] n fd(2)]
      then have "create_file_from_name name n s = Some (fd, fill_entry p fd n s1)"
        using False alloc by (simp add: create_unfold [OF n] r fd)
      moreover have "mem (fill_entry p fd n s1) (p + 4) = 0" "io (fill_entry p fd n s1) = io s"
        using slb_only_fs(3) [OF slb_alloc_align_only [OF alloc]] by (simp_all add: fill_entry_ok(7,8) [OF n filled [THEN conjunct1]])
      ultimately show ?thesis using filled fd(2) False r
        by (intro disjI2, intro exI [of _ p] exI [of _ fd] exI [of _ "fill_entry p fd n s1"]) simp
    qed
  qed
qed

section \<open>Runs\<close>

text \<open>The states that calls of the operations reach, with the three conditions on the caller that the
  invariant below needs: a number given to \<open>create_file\<close> is new, a length given to
  \<open>create_file_from_name\<close> is not negative, and a file is recycled only while another one is in front
  of it in the list. The code checks none of them.\<close>

inductive fs_run :: "hardware \<Rightarrow> 'a fs_state_scheme \<Rightarrow> 'a fs_state_scheme \<Rightarrow> bool" for hw :: hardware and s0 :: "'a fs_state_scheme" where
  run_start: "fs_run hw s0 s0"
| run_open: "fs_run hw s0 s \<Longrightarrow> open_file pid idx s = Some (r, s') \<Longrightarrow> fs_run hw s0 s'"
| run_close: "fs_run hw s0 s \<Longrightarrow> close_file pid idx s = Some (r, s') \<Longrightarrow> fs_run hw s0 s'"
| run_append: "fs_run hw s0 s \<Longrightarrow> append_file hw pid idx addr num s = Some (r, s') \<Longrightarrow> fs_run hw s0 s'"
| run_create_file: "fs_run hw s0 s \<Longrightarrow> fe_find (mem s) idx 0 (fentry_head s) = Some (px, 0)
    \<Longrightarrow> create_file idx s = Some (r, s') \<Longrightarrow> fs_run hw s0 s'"
| run_create: "fs_run hw s0 s \<Longrightarrow> 0 \<le>s n \<Longrightarrow> create_file_from_name name n s = Some (r, s') \<Longrightarrow> fs_run hw s0 s'"
| run_recycle: "fs_run hw s0 s \<Longrightarrow> index_number (mem s) (fentry_head s) \<noteq> idx
    \<Longrightarrow> recycle_file pid idx s = Some (r, s') \<Longrightarrow> fs_run hw s0 s'"

lemma fs_does_inv:
  assumes inv: "fs_inv s xs cs fs free" and ok: "\<exists>s'. run = Some (fst r, s') \<and> fs_does s fs free (snd r) s' \<and> \<not> j_busy (sd_ctl (io s'))"
    and shr: "shrinks (fs, free) (snd r)" and run: "run = Some (v, s')"
  shows "(\<exists>xs cs fs free. fs_inv s' xs cs fs free) \<and> \<not> j_busy (sd_ctl (io s'))"
proof -
  obtain fs' free' where r: "snd r = (fs', free')" by force
  have "fs_does s fs free (fs', free') s'" "\<not> j_busy (sd_ctl (io s'))" using ok run r by auto
  moreover have "foot (fs_areas fs' free') \<subseteq> foot (fs_areas fs free)" "distinct (map f_no fs')"
    using shr inv by (simp_all add: r shrinks_def fs_inv_def)
  ultimately show ?thesis using fs_inv_does [OF inv] by blast
qed

text \<open>Recycling an empty file does not return.\<close>

lemma recycle_empty:
  assumes holds: "fs_holds s fs free" and f: "get_file idx fs = Some f" "f_blocks f = []" "may_use pid f"
    and inner: "f_no (hd fs) \<noteq> idx"
  shows "recycle_file pid idx s = None"
  using holds
proof (cases rule: fe_find_cases [where idx = idx])
  case (found pre g post)
  then have g: "g = f" using f by simp
  have "pre \<noteq> []" using inner found(2,3) by auto
  then obtain pre' h where pre: "pre = pre' @ [h]" by (cases pre rule: rev_cases) auto
  have "f_at h \<noteq> 0" using holds by (auto simp: found(2) pre fs_holds_def file_at_def)
  moreover have "file_at (mem (wr (f_at h + 20) (next_entry (mem s) (f_at f)) s)) f"
    using unlink_entry(2) [of s pre' h f post free] holds by (simp add: found(2) pre g)
  then have "first_block (mem (wr (f_at h + 20) (next_entry (mem s) (f_at f)) s)) (f_at f) = 0" using f(2) by (simp add: file_at_def)
  ultimately show ?thesis using found g f(3) denied_iff [OF found(6), of pid]
    by (simp add: recycle_file_def pre last_entry_def recycle_blocks_def recycle_loop.simps deref_def)
qed (use f in simp)

lemma fe_find_fresh:
  assumes "fs_holds s fs free" and "fe_find (mem s) idx 0 (fentry_head s) = Some (px, 0)"
  shows "idx \<notin> f_no ` set fs"
  using assms(1)
proof (cases rule: fe_find_cases [where idx = idx])
  case none
  then show ?thesis by (auto simp: get_file_None)
qed (use assms(2) in simp)

lemma fs_run_inv:
  assumes "fs_run hw s0 s" and hw: "has_sd hw at disk"
    and "fs_inv s0 xs0 cs0 fs0 free0" and "\<not> j_busy (sd_ctl (io s0))"
  shows "(\<exists>xs cs fs free. fs_inv s xs cs fs free) \<and> \<not> j_busy (sd_ctl (io s))"
  using assms(1)
proof (induction rule: fs_run.induct)
  case run_start
  then show ?case using assms by blast
next
  case (run_open s pid idx r s')
  then obtain xs cs fs free where inv: "fs_inv s xs cs fs free" and idle: "\<not> j_busy (sd_ctl (io s))" by blast
  then have "fs_holds s fs free" by (simp add: fs_inv_def)
  from open_file_ok [OF this, of pid idx] idle
  show ?case by (intro fs_does_inv [OF inv _ open_close_shrinks(1) run_open.hyps(2)]) auto
next
  case (run_close s pid idx r s')
  then obtain xs cs fs free where inv: "fs_inv s xs cs fs free" and idle: "\<not> j_busy (sd_ctl (io s))" by blast
  then have "fs_holds s fs free" by (simp add: fs_inv_def)
  from close_file_ok [OF this, of pid idx] idle
  show ?case by (intro fs_does_inv [OF inv _ open_close_shrinks(2) run_close.hyps(2)]) auto
next
  case (run_append s pid idx addr num r s')
  then obtain xs cs fs free where inv: "fs_inv s xs cs fs free" and idle: "\<not> j_busy (sd_ctl (io s))" by blast
  then have "fs_holds s fs free" by (simp add: fs_inv_def)
  from append_file_ok [OF this hw idle, of pid idx addr num]
  show ?case by (intro fs_does_inv [OF inv _ append_shrinks run_append.hyps(2)]) blast
next
  case (run_create_file s idx px r s')
  then obtain xs cs fs free where inv: "fs_inv s xs cs fs free" by blast
  then have holds: "fs_holds s fs free" by (simp add: fs_inv_def)
  have "idx \<notin> f_no ` set fs" using fe_find_fresh [OF holds run_create_file.hyps(2)] .
  from create_file_ok [OF inv this run_create_file.hyps(3)] run_create_file show ?case by auto
next
  case (run_create s n name r s')
  then obtain xs cs fs free where inv: "fs_inv s xs cs fs free" by blast
  show ?case
  proof (cases "10 \<le>s n")
    case True
    then show ?thesis using run_create by (simp add: create_file_from_name_def)
  next
    case False
    then have n: "0 \<le> sint n" "sint n < 10" using run_create.hyps(2) by (simp_all add: word_sle_eq)
    show ?thesis using create_ok [OF inv n, of name] run_create by auto
  qed
next
  case (run_recycle s idx pid r s')
  then obtain xs cs fs free where inv: "fs_inv s xs cs fs free" and idle: "\<not> j_busy (sd_ctl (io s))" by blast
  then have holds: "fs_holds s fs free" by (simp add: fs_inv_def)
  have hd: "f_no (hd fs) \<noteq> idx" if "fs \<noteq> []"
    using that run_recycle.hyps(2) holds by (cases fs) (auto simp: fs_holds_def file_at_def)
  have blocks: "f_blocks f \<noteq> []" if "get_file idx fs = Some f" "may_use pid f" for f
  proof
    assume "f_blocks f = []"
    moreover have "fs \<noteq> []" using that(1) by (auto simp: get_file_def)
    ultimately show False using recycle_empty [OF holds that(1) _ that(2)] hd run_recycle.hyps(3) by simp
  qed
  from recycle_file_ok [OF holds hd blocks, of pid] idle
  show ?case by (intro fs_does_inv [OF inv _ recycle_shrinks [OF blocks] run_recycle.hyps(3)]) auto
qed

section \<open>Names\<close>

lemma name_matches_frame:
  assumes so: "same_outside A m m'" and x: "span x 28 \<inter> A = {}" and name: "span name (unat n) \<inter> A = {}"
    and n: "0 \<le> sint n" "sint n < 10"
  shows "name_matches m' name n x = name_matches m name n x"
proof -
  have u: "nat (sint n) = unat n" "unat n < 10" using n sint_nat [of n] by (cases "0 < sint n"; simp add: signed_eq_0_iff)+
  have j: "m' (file_name x + of_nat j) = m (file_name x + of_nat j)" if "j < 10" for j
  proof -
    have "span (x + (4 + of_nat j)) 1 \<subseteq> span x 28"
      using that by (intro span_offset_subset) (simp add: unat_word_ariths unat_of_nat)
    then have "x + (4 + of_nat j) \<notin> A" using x by auto
    then show ?thesis using same_outsideD [OF so] by (simp add: file_name_def add.assoc)
  qed
  have "m' (name + of_nat j) = m (name + of_nat j)" if "j < unat n" for j
  proof -
    have "unat (of_nat j :: u32) = j" using that u(2) by (intro unat_of_nat_u32) simp
    then have "name + of_nat j \<in> span name (unat n)" using that by (simp add: span_def)
    then show ?thesis using same_outsideD [OF so] name by blast
  qed
  then show ?thesis using j u j [of "unat n"] by (simp add: name_matches_def)
qed

lemma create_hidden:
  assumes inv: "fs_inv s xs cs fs free" and n: "0 < sint n" "sint n < 10" and room: "room xs 8192"
    and other: "\<forall>f \<in> set fs. \<not> name_matches (mem s) name n (f_at f)" and first: "mem s name \<noteq> 0"
    and user: "span name (unat n) \<inter> (foot xs \<union> foot (chunks cs)) = {}"
  shows "\<exists>fd s'. create_file_from_name name n s = Some (fd, s') \<and> fd \<notin> f_no ` set fs \<and> fname_to_fd name n s' = Some (-1)"
proof -
  let ?own = "foot xs \<union> foot (chunks cs)"
  have n': "0 \<le> sint n" "\<not> 10 \<le>s n" and u: "0 < unat n" "nat (sint n) = unat n"
    using n sint_nat [of n] by (simp_all add: word_sle_eq)
  have holds: "fs_holds s fs free" and out: "foot (fs_areas fs free) \<inter> ?own = {}" using inv by (simp_all add: fs_inv_def)
  have "fname_to_fd name n s = Some (-1)"
  proof -
    have "find (\<lambda>f. name_matches (mem s) name n (f_at f)) fs = None" using other by (simp add: find_None_iff)
    then show ?thesis using name_find_ok [of "mem s" "fentry_head s" fs name n] holds n'(2)
      by (simp add: fname_to_fd_def fs_holds_def)
  qed
  with create_ok [OF inv n'(1) n(2), of name] room obtain p fd s' xs' cs' where
    run: "create_file_from_name name n s = Some (fd, s')" "fd \<notin> f_no ` set fs"
    and s': "fs_inv s' xs' cs' (new_file p fd # fs) free" "mem s' (p + 4) = 0" "same_outside ?own (mem s) (mem s')" by auto
  have "name \<in> span name (unat n)" using u(1) by simp
  then have "name \<notin> ?own" using user by blast
  from same_outsideD [OF s'(3) this] have "mem s' name \<noteq> 0" using first by simp
  then have new: "\<not> name_matches (mem s') name n p" using s'(2) u by (auto simp: name_matches_def file_name_def intro!: bexI [of _ 0])
  have old: "\<not> name_matches (mem s') name n (f_at f)" if "f \<in> set fs" for f
  proof -
    have "span (f_at f) 28 \<subseteq> foot (fs_areas fs free)" using that by (auto simp: fs_areas_def file_areas_def foot_def)
    then have "span (f_at f) 28 \<inter> ?own = {}" using out by blast
    from name_matches_frame [OF s'(3) this user n'(1) n(2)] other that show ?thesis by simp
  qed
  have none: "find (\<lambda>f. name_matches (mem s') name n (f_at f)) (new_file p fd # fs) = None"
    using new old by (auto simp: find_None_iff new_file_def)
  have "entries_at (mem s') (fentry_head s') (new_file p fd # fs) 0" using s'(1) unfolding fs_inv_def fs_holds_def by blast
  from name_find_ok [OF this, of name n] have "fname_to_fd name n s' = Some (-1)"
    using n'(2) unfolding none fname_to_fd_def by simp
  then show ?thesis using run by blast
qed

section \<open>A file system\<close>

text \<open>Two files with a block each and two free blocks, below the memory of the allocators.\<close>

definition demo_files :: "fs_file list" where
  "demo_files = [\<lparr>f_at = 0x1000, f_no = 1, f_occ = -1, f_blocks = [(0x2000, 0x200)]\<rparr>,
     \<lparr>f_at = 0x1020, f_no = 2, f_occ = 7, f_blocks = [(0x2018, 0x800)]\<rparr>]"

definition demo_free :: blocks where
  "demo_free = [(0x2008, 0x400), (0x2010, 0x600)]"

definition demo_mem :: "memory \<Rightarrow> memory" where
  "demo_mem m = fold (\<lambda>(a, v) m. st32 m a v)
     [(0x1000, 1), (0x1004, 0), (0x1010, 0x2000), (0x1014, 0x1020), (0x1018, -1),
      (0x1020, 2), (0x1024, 0), (0x1030, 0x2018), (0x1034, 0), (0x1038, 7), (0x2000, 0), (0x2004, 0x200),
      (0x2008, 0x2010), (0x200C, 0x400), (0x2010, 0), (0x2014, 0x600), (0x2018, 0), (0x201C, 0x800), (0x3000, 0x61)] m"

definition demo_fs :: "slb_state \<Rightarrow> fs_state" where
  "demo_fs s = \<lparr>mem = demo_mem (mem s), con = con s, io = [], farea_head = farea_head s, slb_head = slb_head s,
     q_head = \<lambda>_. 0, q_tail = \<lambda>_. 0, cnt_pcb = 0, pcb_list = \<lambda>_. 0, ttbr0 = 0, contexts = \<lambda>_. 0,
     free_head = 0x2008, db_table = 0x2000, fentry_head = 0x1000, fe_table = 0x1000\<rparr>"

lemma demo_words:
  "ld32 (demo_mem m) 0x1000 = 1" "ld32 (demo_mem m) 0x1010 = 0x2000" "ld32 (demo_mem m) 0x1014 = 0x1020" "ld32 (demo_mem m) 0x1018 = -1"
  "ld32 (demo_mem m) 0x1020 = 2" "ld32 (demo_mem m) 0x1030 = 0x2018" "ld32 (demo_mem m) 0x1034 = 0" "ld32 (demo_mem m) 0x1038 = 7"
  "ld32 (demo_mem m) 0x2000 = 0" "ld32 (demo_mem m) 0x2004 = 0x200" "ld32 (demo_mem m) 0x2008 = 0x2010" "ld32 (demo_mem m) 0x200C = 0x400"
  "ld32 (demo_mem m) 0x2010 = 0" "ld32 (demo_mem m) 0x2014 = 0x600" "ld32 (demo_mem m) 0x2018 = 0" "ld32 (demo_mem m) 0x201C = 0x800"
  by (simp_all add: demo_mem_def ld32_st32_far)

lemma demo_bytes: "demo_mem m 0x1004 = 0" "demo_mem m 0x1024 = 0" "demo_mem m 0x3000 = 0x61"
  by (simp_all add: demo_mem_def st32_def)

lemma demo_holds: "fs_holds (demo_fs s) demo_files demo_free"
proof -
  have "blocks_disj (fs_areas demo_files demo_free)"
    by (simp add: fs_areas_def file_areas_def demo_files_def demo_free_def) (auto simp: span_nowrap)
  then show ?thesis
    by (simp add: fs_holds_def demo_fs_def demo_files_def demo_free_def file_at_def demo_words
        index_number_def occupied_def first_block_def next_entry_def next_block_def ondisk_addr_def)
qed

lemma demo_mem_low: "same_outside {x. unat x < 0x4000} m (demo_mem m)"
proof -
  have gen: "same_outside {x. unat x < 0x4000} m (fold (\<lambda>(a, v) m. st32 m a v) ws m)"
    if "list_all (\<lambda>(a, _). unat a + 4 \<le> 0x4000) ws" for ws :: "(u32 \<times> u32) list"
    using that
  proof (induction ws arbitrary: m)
    case (Cons av ws)
    obtain a v where av: "av = (a, v)" by force
    have "span a 4 \<subseteq> {x. unat x < 0x4000}" using Cons.prems by (auto simp: av span_nowrap)
    then show ?case using Cons.IH [of "st32 m a v"] Cons.prems same_outside_trans [OF same_outside_st32]
      by (auto simp: av)
  qed simp
  show ?thesis unfolding demo_mem_def by (rule gen) simp
qed

lemma demo_ok:
  obtains b xs cs where "fs_inv (demo_fs b) xs cs demo_files demo_free" and "room xs 8192"
    and "span 0x3000 1 \<inter> (foot xs \<union> foot (chunks cs)) = {}"
proof -
  obtain b c os where "mm_boot (\<lambda>_. 0) = Some b"
    and b: "slb_inv b [(0x80801000, 0x1e7ff000)] [(c, 4, 16, [(0x80800000, 4096, os)])]"
    by (rule mm_booted)
  let ?xs = "[(0x80801000, 0x1e7ff000)] :: area list" and ?cs = "[(c, 4, 16, [(0x80800000, 4096, os)])]"
  have own: "foot ?xs \<union> foot (chunks ?cs) \<subseteq> arena" using b by (simp add: slb_inv_def)
  have "same_outside {x. unat x < 0x4000} (mem b) (mem (b\<lparr>mem := demo_mem (mem b)\<rparr>))" using demo_mem_low by simp
  moreover have "{x. unat x < 0x4000} \<inter> arena = {}" by (auto simp: arena_def)
  then have "{x. unat x < 0x4000} \<inter> (foot ?xs \<union> foot (chunks ?cs)) = {}" using own by blast
  ultimately have "slb_inv (b\<lparr>mem := demo_mem (mem b)\<rparr>) ?xs ?cs" by (rule slb_inv_frame [OF b]) simp_all
  then have "slb_inv (demo_fs b) ?xs ?cs" by (simp add: slb_inv_def pages_inv_def demo_fs_def)
  moreover have low: "foot (fs_areas demo_files demo_free) \<inter> arena = {}" "span 0x3000 1 \<inter> arena = {}"
    by (auto simp: fs_areas_def file_areas_def demo_files_def demo_free_def arena_def span_nowrap)
  moreover have "distinct (map f_no demo_files)" by (simp add: demo_files_def)
  moreover have "foot (fs_areas demo_files demo_free) \<inter> (foot ?xs \<union> foot (chunks ?cs)) = {}" using low(1) own by blast
  ultimately have "fs_inv (demo_fs b) ?xs ?cs demo_files demo_free" using demo_holds unfolding fs_inv_def by blast
  moreover have "room ?xs 8192" by (simp add: room_def)
  moreover have "span 0x3000 1 \<inter> (foot ?xs \<union> foot (chunks ?cs)) = {}" using low(2) own by blast
  ultimately show ?thesis by (rule that)
qed

lemma demo_idle: "io (demo_fs b) = []" "\<not> j_busy (sd_ctl [])" "j_writes (sd_ctl []) = []"
  by (simp_all add: demo_fs_def sd_ctl_def)

section \<open>Results\<close>

text \<open>
  C4. \<open>append_file\<close> does to the lists what \<open>append_spec\<close> says: with enough free blocks, and a file
  the process may use, the first free blocks become the end of the file and are written to the
  card in order, one block at a time, and nothing else changes; every error leaves the files
  alone, but where the file is missing or another process has it open, the blocks taken from
  the free list are in no list any more.
\<close>

theorem append_file_refines:
  assumes "fs_holds s fs free" and "has_sd hw at disk" and "\<not> j_busy (sd_ctl (io s))"
  shows "\<exists>s'. append_file hw pid idx addr num s = Some (fst (append_spec pid idx (nat (sint num)) (fs, free)), s')
    \<and> fs_does s fs free (snd (append_spec pid idx (nat (sint num)) (fs, free))) s' \<and> \<not> j_busy (sd_ctl (io s'))
    \<and> j_writes (sd_ctl (io s')) = j_writes (sd_ctl (io s))
        @ (if fst (append_spec pid idx (nat (sint num)) (fs, free)) = 0 then write_jobs addr (take (nat (sint num)) free) else [])"
  by (rule append_file_ok [OF assms])

theorem append_file_refines_witness:
  "\<exists>hw s s'. append_file hw 9 1 0x80000000 2 (s :: fs_state) = Some (0, s')
    \<and> j_writes (sd_ctl (io s')) = [(V2P 0x80000000, 1, 2), (V2P 0x80000200, 1, 3)]"
proof -
  obtain b :: slb_state where True by blast
  have two: "nat (sint (2 :: u32)) = 2" "take 2 demo_free = demo_free" "drop 2 demo_free = []" by (simp_all add: demo_free_def)
  have "append_spec 9 1 2 (demo_files, demo_free)
    = (0, [\<lparr>f_at = 0x1000, f_no = 1, f_occ = -1, f_blocks = [(0x2000, 0x200), (0x2008, 0x400), (0x2010, 0x600)]\<rparr>,
        \<lparr>f_at = 0x1020, f_no = 2, f_occ = 7, f_blocks = [(0x2018, 0x800)]\<rparr>], [])"
    unfolding append_spec_def prod.case two by (simp add: demo_files_def demo_free_def get_file_def may_use_def)
  moreover have "write_jobs 0x80000000 demo_free = [(V2P 0x80000000, 1, 2), (V2P 0x80000200, 1, 3)]"
    by (simp add: write_jobs_def demo_free_def upt_rec STORAGE_BLOCK_SIZE_def)
  moreover have "\<not> j_busy (sd_ctl (io (demo_fs b)))" by (simp add: demo_idle)
  ultimately show ?thesis
    using append_file_refines [OF demo_holds [of b] quick_sd_ok [of "\<lambda>p. p" "\<lambda>_. 0"], of 9 1 "0x80000000" 2]
    unfolding two by (auto simp: demo_idle)
qed

text \<open>
  C5. An invariant of the file operations, under three conditions on their caller that the code does
  not check. From a state where it holds, let any calls of \<open>open_file\<close>, \<open>close_file\<close> and
  \<open>append_file\<close> follow, with any arguments, of \<open>create_file\<close> with a number that no file has, of
  \<open>create_file_from_name\<close> with a length that is not negative, and of \<open>recycle_file\<close> for a number
  that is not the first file's. If these calls return, the entries and the blocks are still
  well-formed lists: no block is in two files, or in a file and free, no entry overlaps a block, no
  two files have the same number, and the allocator owns none of them. Nothing is said of other
  calls: recycling the first file breaks the lists, creating a number twice makes two files with the
  same number, and a negative length writes before the name.
\<close>

theorem fs_run_invariant:
  assumes "fs_run hw s0 s" and "has_sd hw at disk" and "fs_inv s0 xs0 cs0 fs0 free0" and "\<not> j_busy (sd_ctl (io s0))"
  shows "\<exists>xs cs fs free. fs_inv s xs cs fs free"
  using fs_run_inv [OF assms] by blast

theorem fs_run_invariant_witness:
  "\<exists>hw s0 s xs cs fs free. fs_run hw (s0 :: fs_state) s \<and> s \<noteq> s0 \<and> fs_inv s xs cs fs free"
proof -
  let ?hw = "quick_sd (\<lambda>p. p) (\<lambda>_. 0)"
  obtain b xs cs where inv: "fs_inv (demo_fs b) xs cs demo_files demo_free" "room xs 8192" by (rule demo_ok)
  have "open_spec 9 1 (demo_files, demo_free) = (0, [\<lparr>f_at = 0x1000, f_no = 1, f_occ = 9, f_blocks = [(0x2000, 0x200)]\<rparr>,
        \<lparr>f_at = 0x1020, f_no = 2, f_occ = 7, f_blocks = [(0x2018, 0x800)]\<rparr>], demo_free)"
    by (simp add: open_spec_def demo_files_def get_file_def may_use_def)
  with open_file_ok [OF demo_holds, of 9 1 b] obtain s where s: "open_file 9 1 (demo_fs b) = Some (0, s)"
    "fs_holds s [\<lparr>f_at = 0x1000, f_no = 1, f_occ = 9, f_blocks = [(0x2000, 0x200)]\<rparr>,
        \<lparr>f_at = 0x1020, f_no = 2, f_occ = 7, f_blocks = [(0x2018, 0x800)]\<rparr>] demo_free"
    by (auto simp: fs_does_def)
  have run: "fs_run ?hw (demo_fs b) s" by (rule run_open [OF run_start s(1)])
  have "occupied (mem s) 0x1000 = 9" using s(2) by (simp add: fs_holds_def file_at_def)
  moreover have "occupied (mem (demo_fs b)) 0x1000 = -1" by (simp add: occupied_def demo_fs_def demo_words)
  ultimately have "s \<noteq> demo_fs b" by auto
  moreover have "\<not> j_busy (sd_ctl (io (demo_fs b)))" by (simp add: demo_idle)
  ultimately show ?thesis using run fs_run_invariant [OF run quick_sd_ok inv(1)] by blast
qed

text \<open>
  C38. Recycling the first file of the list leaves it in the list, with blocks whose addresses on the
  card are erased, followed by all free blocks: file and free list overlap. Only its last block
  becomes free, and the next block that is allocated is this one, at address 0 of the card,
  where the boot record is.
\<close>

theorem recycle_first_corrupts:
  assumes "fs_holds s (f # post) free" and "may_use pid f" and "f_blocks f \<noteq> []"
  shows "\<exists>s'. recycle_file pid (f_no f) s = Some (0, s')
    \<and> entries_at (mem s') (fentry_head s') [f\<lparr>f_blocks := erased (f_blocks f) @ free\<rparr>] (next_entry (mem s) (f_at f))
    \<and> blocks_at (mem s') (free_head s') ((fst (last (f_blocks f)), 0) # free) 0
    \<and> fst (data_alloc 1 s') = fst (last (f_blocks f)) \<and> ondisk_addr (mem s') (fst (data_alloc 1 s')) = 0"
proof -
  obtain cs b d where b: "f_blocks f = cs @ [(b, d)]" using assms(3) by (cases "f_blocks f" rule: rev_cases) auto
  from recycle_head_ok [OF assms(1,2) b] obtain s' where s': "recycle_file pid (f_no f) s = Some (0, s')"
    "entries_at (mem s') (fentry_head s') [f\<lparr>f_blocks := erased (f_blocks f) @ free\<rparr>] (next_entry (mem s) (f_at f))"
    "blocks_at (mem s') (free_head s') ((b, 0) # free) 0" by blast
  have "fst (data_alloc 1 s') = b" using data_alloc_gives [OF s'(3), of 1 "[]" b 0] by (simp add: first_of_def)
  then show ?thesis using s' by (auto simp: b)
qed

theorem recycle_first_corrupts_witness:
  "\<exists>s s'. recycle_file 9 1 (s :: fs_state) = Some (0, s') \<and> fst (data_alloc 1 s') = 0x2000 \<and> ondisk_addr (mem s') 0x2000 = 0"
proof -
  obtain b :: slb_state where True by blast
  let ?f = "\<lparr>f_at = 0x1000, f_no = 1, f_occ = -1, f_blocks = [(0x2000, 0x200)]\<rparr> :: fs_file"
  have "fs_holds (demo_fs b) (?f # tl demo_files) demo_free" using demo_holds [of b] by (simp add: demo_files_def)
  from recycle_first_corrupts [OF this, of 9] show ?thesis by (auto simp: may_use_def)
qed

text \<open>
  \<open>create_file_from_name\<close> makes a file with a number no other file has, but stores an empty name:
  unless another file had it already, no file is found by the name afterwards.
\<close>

theorem created_file_not_found:
  assumes "fs_inv s xs cs fs free" and "0 < sint n" and "sint n < 10" and "room xs 8192"
    and "\<forall>f \<in> set fs. \<not> name_matches (mem s) name n (f_at f)" and "mem s name \<noteq> 0"
    and "span name (unat n) \<inter> (foot xs \<union> foot (chunks cs)) = {}"
  shows "\<exists>fd s'. create_file_from_name name n s = Some (fd, s') \<and> fd \<notin> f_no ` set fs \<and> fname_to_fd name n s' = Some (-1)"
  by (rule create_hidden [OF assms])

theorem created_file_not_found_witness:
  "\<exists>s fd s'. create_file_from_name 0x3000 1 (s :: fs_state) = Some (fd, s') \<and> fd \<notin> {1, 2} \<and> fname_to_fd 0x3000 1 s' = Some (-1)"
proof -
  obtain b xs cs where inv: "fs_inv (demo_fs b) xs cs demo_files demo_free" "room xs 8192"
    "span 0x3000 1 \<inter> (foot xs \<union> foot (chunks cs)) = {}" by (rule demo_ok)
  have "\<forall>f \<in> set demo_files. \<not> name_matches (mem (demo_fs b)) 0x3000 1 (f_at f)" "mem (demo_fs b) 0x3000 \<noteq> 0"
    by (simp_all add: demo_files_def name_matches_def demo_fs_def demo_bytes file_name_def)
  moreover have "f_no ` set demo_files = {1, 2}" by (auto simp: demo_files_def)
  ultimately show ?thesis using created_file_not_found [OF inv(1) _ _ inv(2), of 1 "0x3000"] inv(3) by auto
qed

end
