(* ===== verification/Layout.thy ===== *)
theory Layout
  imports Prelude
begin

text \<open>
  How C lays out a structure: members in order, each at the next offset its type may have, a bit
  field packed into the storage unit of its type while it fits, the members of a union on top of
  each other. Members of an anonymous structure or union are found as if they were members of
  the enclosing one. Positions are in bits, and the first bit field takes the lowest bits (the
  sources are compiled for a little-endian machine).
\<close>

section \<open>Types\<close>

datatype ctype =
    Uint nat
  | Bits nat nat
  | Array ctype nat
  | Struct "(string \<times> ctype) list"
  | Union "(string \<times> ctype) list"

definition round_up :: "nat \<Rightarrow> nat \<Rightarrow> nat" where
  "round_up a p = (p + a - 1) div a * a"

text \<open>Alignments in bytes, sizes in bits.\<close>

fun c_align :: "ctype \<Rightarrow> nat" and c_aligns :: "(string \<times> ctype) list \<Rightarrow> nat" where
  "c_align (Uint n) = n"
| "c_align (Bits n w) = n"
| "c_align (Array t k) = c_align t"
| "c_align (Struct fs) = c_aligns fs"
| "c_align (Union fs) = c_aligns fs"
| "c_aligns [] = 1"
| "c_aligns ((n, t) # fs) = max (c_align t) (c_aligns fs)"

definition place :: "ctype \<Rightarrow> nat \<Rightarrow> nat" where
  "place t p = (case t of
      Bits n w \<Rightarrow> if p div (8 * n) = (p + w - 1) div (8 * n) then p else round_up (8 * n) p
    | _ \<Rightarrow> round_up (8 * c_align t) p)"

fun c_bits :: "ctype \<Rightarrow> nat" and c_end :: "nat \<Rightarrow> (string \<times> ctype) list \<Rightarrow> nat"
    and c_widest :: "(string \<times> ctype) list \<Rightarrow> nat" where
  "c_bits (Uint n) = 8 * n"
| "c_bits (Bits n w) = w"
| "c_bits (Array t k) = k * c_bits t"
| "c_bits (Struct fs) = round_up (8 * c_aligns fs) (c_end 0 fs)"
| "c_bits (Union fs) = round_up (8 * c_aligns fs) (c_widest fs)"
| "c_end p [] = p"
| "c_end p ((n, t) # fs) = c_end (place t p + c_bits t) fs"
| "c_widest [] = 0"
| "c_widest ((n, t) # fs) = max (c_bits t) (c_widest fs)"

definition c_sizeof :: "ctype \<Rightarrow> nat" where
  "c_sizeof t = c_bits t div 8"

section \<open>Members\<close>

datatype sel = Fld string | Idx nat

fun c_off :: "ctype \<Rightarrow> sel list \<Rightarrow> (nat \<times> ctype) option"
    and c_member :: "bool \<Rightarrow> nat \<Rightarrow> (string \<times> ctype) list \<Rightarrow> string \<Rightarrow> sel list \<Rightarrow> (nat \<times> ctype) option" where
  "c_off t [] = Some (0, t)"
| "c_off (Array t k) (Idx i # ns) =
     (if i < k then map_option (\<lambda>(p, u). (i * c_bits t + p, u)) (c_off t ns) else None)"
| "c_off (Struct fs) (Fld n # ns) = c_member True 0 fs n ns"
| "c_off (Union fs) (Fld n # ns) = c_member False 0 fs n ns"
| "c_off t (s # ns) = None"
| "c_member sq p [] n ns = None"
| "c_member sq p ((m, t) # fs) n ns =
     (let q = (if sq then place t p else 0);
          r = (if m = n then c_off t ns else if m = [] then c_off t (Fld n # ns) else None)
      in case r of
           Some (k, u) \<Rightarrow> Some (q + k, u)
         | None \<Rightarrow> c_member sq (q + c_bits t) fs n ns)"

section \<open>Loads and stores\<close>

text \<open>Memory of a 64-bit machine, little-endian: the \<open>n\<close> bytes from \<open>a\<close> on as a number.\<close>

type_synonym memory64 = "u64 \<Rightarrow> u8"

fun ldn :: "memory64 \<Rightarrow> u64 \<Rightarrow> nat \<Rightarrow> u64" where
  "ldn m a 0 = 0"
| "ldn m a (Suc n) = ucast (m a) OR push_bit 8 (ldn m (a + 1) n)"

fun stn :: "memory64 \<Rightarrow> u64 \<Rightarrow> nat \<Rightarrow> u64 \<Rightarrow> memory64" where
  "stn m a 0 v = m"
| "stn m a (Suc n) v = stn (m(a := ucast v)) (a + 1) n (drop_bit 8 v)"

definition fill64 :: "u64 \<Rightarrow> nat \<Rightarrow> u8 \<Rightarrow> memory64 \<Rightarrow> memory64" where
  "fill64 a n c m = (\<lambda>x. if unat (x - a) < n then c else m x)"

text \<open>A member of the structure at \<open>a\<close>: a bit field is part of the storage unit it lies in.\<close>

definition c_load :: "ctype \<Rightarrow> sel list \<Rightarrow> memory64 \<Rightarrow> u64 \<Rightarrow> u64" where
  "c_load t path m a = (case c_off t path of
      Some (p, Uint n) \<Rightarrow> ldn m (a + of_nat (p div 8)) n
    | Some (p, Bits n w) \<Rightarrow>
        drop_bit (p mod (8 * n)) (ldn m (a + of_nat (p div (8 * n) * n)) n) AND mask w
    | _ \<Rightarrow> 0)"

definition c_store :: "ctype \<Rightarrow> sel list \<Rightarrow> u64 \<Rightarrow> u64 \<Rightarrow> memory64 \<Rightarrow> memory64" where
  "c_store t path v a m = (case c_off t path of
      Some (p, Uint n) \<Rightarrow> stn m (a + of_nat (p div 8)) n v
    | Some (p, Bits n w) \<Rightarrow>
        let b = a + of_nat (p div (8 * n) * n); k = p mod (8 * n)
        in stn m b n ((ldn m b n AND NOT (push_bit k (mask w))) OR push_bit k (v AND mask w))
    | _ \<Rightarrow> m)"

definition c_addr :: "ctype \<Rightarrow> sel list \<Rightarrow> u64 \<Rightarrow> u64" where
  "c_addr t path a = (case c_off t path of Some (p, _) \<Rightarrow> a + of_nat (p div 8) | None \<Rightarrow> a)"

section \<open>Members lie inside their structure\<close>

fun c_good :: "ctype \<Rightarrow> bool" and c_goods :: "(string \<times> ctype) list \<Rightarrow> bool" where
  "c_good (Uint n) \<longleftrightarrow> 0 < n"
| "c_good (Bits n w) \<longleftrightarrow> 0 < n \<and> w \<le> 8 * n"
| "c_good (Array t k) \<longleftrightarrow> c_good t"
| "c_good (Struct fs) \<longleftrightarrow> c_goods fs"
| "c_good (Union fs) \<longleftrightarrow> c_goods fs"
| "c_goods [] \<longleftrightarrow> True"
| "c_goods ((n, t) # fs) \<longleftrightarrow> c_good t \<and> c_goods fs"

lemma round_up_ge: "0 < a \<Longrightarrow> p \<le> round_up a p"
proof -
  assume "0 < a"
  then have "(p + a - 1) mod a \<le> a - 1" using mod_less_divisor [of a "p + a - 1"] by linarith
  then show "p \<le> round_up a p" using div_mult_mod_eq [of "p + a - 1" a] \<open>0 < a\<close> unfolding round_up_def by linarith
qed

lemma c_align_pos: "c_good t \<Longrightarrow> 0 < c_align t" "c_goods fs \<Longrightarrow> 0 < c_aligns fs"
  by (induction t and fs rule: c_align_c_aligns.induct) auto

lemma place_ge: "c_good t \<Longrightarrow> p \<le> place t p"
  using c_align_pos(1) [of t] by (cases t) (auto simp: place_def intro: round_up_ge)

lemma c_end_ge: "c_goods fs \<Longrightarrow> p \<le> c_end p fs"
proof (induction fs arbitrary: p)
  case (Cons f fs)
  obtain n t where f: "f = (n, t)" by force
  have "p \<le> place t p" using Cons.prems f by (simp add: place_ge)
  also have "\<dots> \<le> c_end (place t p + c_bits t) fs"
    using Cons.IH [of "place t p + c_bits t"] Cons.prems f by simp
  finally show ?case using f by simp
qed simp

lemma array_within: "(i :: nat) < k \<Longrightarrow> q + u \<le> b \<Longrightarrow> i * b + q + u \<le> k * b"
  using mult_le_mono1 [of "Suc i" k b] by simp

lemma c_off_within:
  "c_good t \<Longrightarrow> c_off t path = Some (p, u) \<Longrightarrow> p + c_bits u \<le> c_bits t"
  "c_goods fs \<Longrightarrow> c_member sq p0 fs n ns = Some (p, u) \<Longrightarrow>
     if sq then p0 \<le> p \<and> p + c_bits u \<le> c_end p0 fs else p + c_bits u \<le> c_widest fs"
proof (induction t path and sq p0 fs n ns arbitrary: p u and p u rule: c_off_c_member.induct)
  case (2 t k i ns)
  then show ?case by (auto split: if_splits simp: add.assoc intro: array_within [unfolded add.assoc])
next
  case (3 fs n ns)
  then have "p + c_bits u \<le> c_end 0 fs" by simp
  also have "\<dots> \<le> round_up (8 * c_aligns fs) (c_end 0 fs)"
    using c_align_pos(2) [of fs] "3.prems" by (intro round_up_ge) simp
  finally show ?case by simp
next
  case (4 fs n ns)
  then have "p + c_bits u \<le> c_widest fs" by simp
  also have "\<dots> \<le> round_up (8 * c_aligns fs) (c_widest fs)"
    using c_align_pos(2) [of fs] "4.prems" by (intro round_up_ge) simp
  finally show ?case by simp
next
  case (7 sq p0 m t fs n ns)
  let ?q = "if sq then place t p0 else 0"
  let ?r = "if m = n then c_off t ns else if m = [] then c_off t (Fld n # ns) else None"
  have q: "p0 \<le> place t p0" using "7.prems" by (simp add: place_ge)
  have g: "c_good t" "c_goods fs" using "7.prems" by simp_all
  show ?case
  proof (cases ?r)
    case None
    then have "c_member sq (?q + c_bits t) fs n ns = Some (p, u)" using "7.prems"(2) by (simp add: Let_def)
    then show ?thesis using "7.IH"(3) [OF refl refl None g(2)] q by (auto split: if_splits)
  next
    case (Some r)
    obtain k where k: "r = (k, u)" "p = ?q + k" using "7.prems"(2) Some by (cases r) (auto simp: Let_def split: option.splits)
    have "k + c_bits u \<le> c_bits t"
    proof (cases "m = n")
      case True
      then show ?thesis using "7.IH"(1) [OF refl _ g(1)] Some k by auto
    next
      case False
      then show ?thesis using "7.IH"(2) [OF refl False _ g(1)] Some k by (auto split: if_splits)
    qed
    then show ?thesis using k q c_end_ge [OF g(2), of "?q + c_bits t"] by auto
  qed
qed auto

end
