(* ===== verification/Ahci_Regs.thy ===== *)
theory Ahci_Regs
  imports Layout
begin

text \<open>
  The registers and structures of an AHCI disk controller: the register block of a port and of
  the controller (\<open>drivers/ata/ahci_hba.h\<close>), the frames between host and device
  (\<open>ahci_fis.h\<close>), the command structures in memory (\<open>ahci_cmd.h\<close>) and where the driver puts
  them (\<open>ahci.h\<close>). A structure is its list of members; \<open>Layout\<close> computes offsets and sizes.
\<close>

named_theorems ata_consts
named_theorems ata_structs

section \<open>Frames\<close>

definition FIS_H2D_REG :: u8 where [ata_consts]: "FIS_H2D_REG = 0x27"
definition FIS_D2H_REG :: u8 where [ata_consts]: "FIS_D2H_REG = 0x34"
definition FIS_SET_DEVICE_BITS :: u8 where [ata_consts]: "FIS_SET_DEVICE_BITS = 0xa1"
definition FIS_PIO_SETUP :: u8 where [ata_consts]: "FIS_PIO_SETUP = 0x5f"
definition FIS_DMA_ACTIVATE :: u8 where [ata_consts]: "FIS_DMA_ACTIVATE = 0x39"
definition FIS_DMA_SETUP :: u8 where [ata_consts]: "FIS_DMA_SETUP = 0x41"
definition FIS_DATA :: u8 where [ata_consts]: "FIS_DATA = 0x46"
definition FIS_BIST_ACTIVATE :: u8 where [ata_consts]: "FIS_BIST_ACTIVATE = 0x58"
definition FIS_WRITE_CMD :: u8 where [ata_consts]: "FIS_WRITE_CMD = 1"
definition FIS_WRITE_CTRL :: u8 where [ata_consts]: "FIS_WRITE_CTRL = 0"
definition FIS_CTRL_HOB :: u8 where [ata_consts]: "FIS_CTRL_HOB = 0x80"
definition FIS_CTRL_SRST :: u8 where [ata_consts]: "FIS_CTRL_SRST = 0x04"
definition FIS_CTRL_nIEN :: u8 where [ata_consts]: "FIS_CTRL_nIEN = 0x02"
definition FIS_STAT_BUSY :: u32 where [ata_consts]: "FIS_STAT_BUSY = 0x80"
definition FIS_STAT_DRDY :: u32 where [ata_consts]: "FIS_STAT_DRDY = 0x40"
definition FIS_STAT_DF :: u32 where [ata_consts]: "FIS_STAT_DF = 0x20"
definition FIS_STAT_SE :: u32 where [ata_consts]: "FIS_STAT_SE = 0x20"
definition FIS_STAT_SPEC :: u32 where [ata_consts]: "FIS_STAT_SPEC = 0x10"
definition FIS_STAT_DRQ :: u32 where [ata_consts]: "FIS_STAT_DRQ = 0x08"
definition FIS_STAT_ERR :: u32 where [ata_consts]: "FIS_STAT_ERR = 0x01"
definition FIS_STAT_CHK :: u32 where [ata_consts]: "FIS_STAT_CHK = 0x01"
definition FIS_ERROR_ABRT :: u8 where [ata_consts]: "FIS_ERROR_ABRT = 0x04"
definition FIS_DIR_SND2RCP :: u8 where [ata_consts]: "FIS_DIR_SND2RCP = 1"
definition FIS_DIR_RCP2SND :: u8 where [ata_consts]: "FIS_DIR_RCP2SND = 0"

definition fis_chs :: ctype where [ata_structs]:
  "fis_chs = Struct
    [(''sec'', Uint 1),
     (''cyl_l'', Uint 1),
     (''cyl_h'', Uint 1),
     (''head'', Bits 1 4),
     (''dev'', Bits 1 1),
     (''pad0'', Bits 1 1),
     (''mode'', Bits 1 1),
     (''pad1'', Bits 1 1),
     (''sec_e'', Uint 1),
     (''cyl_el'', Uint 1),
     (''cyl_eh'', Uint 1),
     ('''', Union
     [(''feat_e'', Uint 1),
      (''rsvd'', Uint 1)])]"

definition fis_lba :: ctype where [ata_structs]:
  "fis_lba = Struct
    [(''lba0'', Uint 1),
     (''lba2'', Uint 1),
     (''lba4'', Uint 1),
     (''pad0'', Bits 1 4),
     (''dev'', Bits 1 1),
     (''pad1'', Bits 1 1),
     (''mode'', Bits 1 1),
     (''pad2'', Bits 1 1),
     (''lba1'', Uint 1),
     (''lba3'', Uint 1),
     (''lba5'', Uint 1),
     ('''', Union
     [(''feat_e'', Uint 1),
      (''rsvd'', Uint 1)])]"

definition fis_reg_h2d :: ctype where [ata_structs]:
  "fis_reg_h2d = Struct
    [(''type'', Uint 1),
     (''_pad0'', Bits 1 7),
     (''event'', Bits 1 1),
     (''cmd'', Uint 1),
     (''feat'', Uint 1),
     ('''', Union
     [(''chs'', fis_chs),
      (''lba'', fis_lba)]),
     (''nsec_l'', Uint 1),
     (''nsec_h'', Uint 1),
     (''pad1'', Uint 1),
     (''ctrl'', Uint 1),
     (''pad2'', Uint 4)]"

definition fis_reg_d2h :: ctype where [ata_structs]:
  "fis_reg_d2h = Struct
    [(''type'', Uint 1),
     (''pad0'', Bits 1 6),
     (''intr'', Bits 1 1),
     (''event'', Bits 1 1),
     (''status'', Uint 1),
     (''error'', Uint 1),
     ('''', Union
     [(''chs'', fis_chs),
      (''lba'', fis_lba)]),
     (''nsec_l'', Uint 1),
     (''nsec_h'', Uint 1),
     (''pad1'', Uint 2),
     (''pad2'', Uint 4)]"

definition fis_set_dev_bits :: ctype where [ata_structs]:
  "fis_set_dev_bits = Struct
    [(''type'', Uint 1),
     (''pad0'', Bits 1 5),
     (''pad1'', Bits 1 1),
     (''intr'', Bits 1 1),
     (''pad2'', Bits 1 1),
     (''status'', Uint 1),
     (''error'', Uint 1),
     ('''', Union
     [(''pad3'', Uint 4),
      (''sactive'', Uint 4)])]"

definition fis_pio_setup :: ctype where [ata_structs]:
  "fis_pio_setup = Struct
    [(''type'', Uint 1),
     (''pad0'', Bits 1 5),
     (''writemem'', Bits 1 1),
     (''intr'', Bits 1 1),
     (''pad1'', Bits 1 1),
     (''begin_status'', Uint 1),
     (''error'', Uint 1),
     ('''', Union
     [(''chs'', fis_chs),
      (''lba'', fis_lba)]),
     (''nsec_l'', Uint 1),
     (''nsec_h'', Uint 1),
     (''pad2'', Uint 1),
     (''end_status'', Uint 1),
     (''nbytes'', Uint 2),
     (''pad3'', Uint 2)]"

definition fis_dma_setup :: ctype where [ata_structs]:
  "fis_dma_setup = Struct
    [(''type'', Uint 1),
     (''pad0'', Bits 1 5),
     (''dir'', Bits 1 1),
     (''intr'', Bits 1 1),
     (''auto_act'', Bits 1 1),
     (''pad1'', Uint 2),
     ('''', Union
     [(''dmabuf_l'', Uint 4),
      ('''', Struct
       [(''tag'', Uint 1),
        (''pad2'', Bits 4 24)])]),
     (''dmabuf_h'', Uint 4),
     (''pad3'', Uint 4),
     (''dmabuf_off'', Uint 4),
     (''transfer_count'', Uint 4),
     (''pad4'', Uint 4)]"

definition fis_dma_activate :: ctype where [ata_structs]:
  "fis_dma_activate = Struct
    [(''type'', Uint 1),
     (''pad0'', Bits 4 24)]"

definition fis_dma_data :: ctype where [ata_structs]:
  "fis_dma_data = Struct
    [(''type'', Uint 1),
     (''pad0'', Bits 4 24)]"

definition fis_recvbuf :: ctype where [ata_structs]:
  "fis_recvbuf = Struct
    [(''dsfis'', fis_dma_setup),
     (''pad0'', Array (Uint 4) 1),
     (''psfis'', fis_pio_setup),
     (''pad1'', Array (Uint 4) 3),
     (''rfis'', fis_reg_d2h),
     (''pad2'', Array (Uint 4) 1),
     (''sdbfis'', fis_set_dev_bits),
     (''ufis'', Array (Uint 1) 64),
     (''reserved'', Array (Uint 1) 96)]"

section \<open>Commands\<close>

definition ATA_IDENTIFY_DEVICE :: u8 where [ata_consts]: "ATA_IDENTIFY_DEVICE = 0xec"

section \<open>Command structures\<close>

definition AHCI_DATA_SIZE :: u64 where [ata_consts]: "AHCI_DATA_SIZE = 0x200"
definition AHCI_CMDDESCLIST_SIZE :: u64 where [ata_consts]: "AHCI_CMDDESCLIST_SIZE = 0x2000"
definition AHCI_CMDDATALIST_SIZE :: u64 where [ata_consts]: "AHCI_CMDDATALIST_SIZE = 0x4000"
definition AHCI_CMDLIST_SIZE :: u64 where [ata_consts]: "AHCI_CMDLIST_SIZE = 0x400"

definition ahci_prd :: ctype where [ata_structs]:
  "ahci_prd = Struct
    [(''dba'', Uint 4),
     (''dbau'', Uint 4),
     (''reserved'', Uint 4),
     (''dbc'', Bits 4 22),
     (''reserved2'', Bits 4 9),
     (''intr'', Bits 4 1)]"

definition ahci_cmdtbl :: ctype where [ata_structs]:
  "ahci_cmdtbl = Struct
    [('''', Union
     [(''cfis'', fis_reg_h2d),
      (''cfis_buf'', Array (Uint 1) 64)]),
     ('''', Union
     [(''acmd_buf'', Array (Uint 1) 16)]),
     (''reserved'', Array (Uint 1) 48)]"

definition ahci_cmdhdr :: ctype where [ata_structs]:
  "ahci_cmdhdr = Struct
    [(''cfl'', Bits 1 5),
     (''atapi'', Bits 1 1),
     (''write'', Bits 1 1),
     (''prefetch'', Bits 1 1),
     (''reset'', Bits 1 1),
     (''bist'', Bits 1 1),
     (''clear_on_ok'', Bits 1 1),
     (''rsvd'', Bits 1 1),
     (''pmp'', Bits 1 4),
     (''prdtl'', Uint 2),
     (''prdbc'', Uint 4),
     (''ctba'', Uint 4),
     (''ctbau'', Uint 4),
     (''reserved'', Array (Uint 4) 4)]"

definition ahci_cmdslot :: ctype where [ata_structs]:
  "ahci_cmdslot = Struct
    [(''ct'', ahci_cmdtbl),
     (''prd'', Array (ahci_prd) 8)]"

section \<open>Registers\<close>

definition PORT_INTR_CPD :: u32 where [ata_consts]: "PORT_INTR_CPD = 0x80000000"
definition PORT_INTR_TFE :: u32 where [ata_consts]: "PORT_INTR_TFE = 0x40000000"
definition PORT_INTR_HBF :: u32 where [ata_consts]: "PORT_INTR_HBF = 0x20000000"
definition PORT_INTR_HBD :: u32 where [ata_consts]: "PORT_INTR_HBD = 0x10000000"
definition PORT_INTR_IF :: u32 where [ata_consts]: "PORT_INTR_IF = 0x08000000"
definition PORT_INTR_INF :: u32 where [ata_consts]: "PORT_INTR_INF = 0x04000000"
definition PORT_INTR_OF :: u32 where [ata_consts]: "PORT_INTR_OF = 0x01000000"
definition PORT_INTR_IPM :: u32 where [ata_consts]: "PORT_INTR_IPM = 0x00800000"
definition PORT_INTR_PRC :: u32 where [ata_consts]: "PORT_INTR_PRC = 0x00400000"
definition PORT_INTR_DMP :: u32 where [ata_consts]: "PORT_INTR_DMP = 0x00000080"
definition PORT_INTR_PC :: u32 where [ata_consts]: "PORT_INTR_PC = 0x00000040"
definition PORT_INTR_DP :: u32 where [ata_consts]: "PORT_INTR_DP = 0x00000020"
definition PORT_INTR_UFIS :: u32 where [ata_consts]: "PORT_INTR_UFIS = 0x00000010"
definition PORT_INTR_SDB :: u32 where [ata_consts]: "PORT_INTR_SDB = 0x00000008"
definition PORT_INTR_DMAS :: u32 where [ata_consts]: "PORT_INTR_DMAS = 0x00000004"
definition PORT_INTR_PIOS :: u32 where [ata_consts]: "PORT_INTR_PIOS = 0x00000002"
definition PORT_INTR_DHR :: u32 where [ata_consts]: "PORT_INTR_DHR = 0x00000001"
definition PORT_CMD_ICC :: u32 where [ata_consts]: "PORT_CMD_ICC = 0xf0000000"
definition PORT_DEVSLEEP :: u32 where [ata_consts]: "PORT_DEVSLEEP = 0x80000000"
definition PORT_SLUMBER :: u32 where [ata_consts]: "PORT_SLUMBER = 0x60000000"
definition PORT_PARTIAL :: u32 where [ata_consts]: "PORT_PARTIAL = 0x20000000"
definition PORT_ACTIVE :: u32 where [ata_consts]: "PORT_ACTIVE = 0x10000000"
definition PORT_IDLE :: u32 where [ata_consts]: "PORT_IDLE = 0x00000000"
definition PORT_CMD_ASP :: u32 where [ata_consts]: "PORT_CMD_ASP = 0x08000000"
definition PORT_CMD_ALPE :: u32 where [ata_consts]: "PORT_CMD_ALPE = 0x04000000"
definition PORT_CMD_DLAE :: u32 where [ata_consts]: "PORT_CMD_DLAE = 0x02000000"
definition PORT_CMD_ATAPI :: u32 where [ata_consts]: "PORT_CMD_ATAPI = 0x01000000"
definition PORT_CMD_APSTE :: u32 where [ata_consts]: "PORT_CMD_APSTE = 0x00800000"
definition PORT_CMD_FBSCP :: u32 where [ata_consts]: "PORT_CMD_FBSCP = 0x00400000"
definition PORT_CMD_ESP :: u32 where [ata_consts]: "PORT_CMD_ESP = 0x00200000"
definition PORT_CMD_CPD :: u32 where [ata_consts]: "PORT_CMD_CPD = 0x00100000"
definition PORT_CMD_MPSP :: u32 where [ata_consts]: "PORT_CMD_MPSP = 0x00080000"
definition PORT_CMD_HPCP :: u32 where [ata_consts]: "PORT_CMD_HPCP = 0x00040000"
definition PORT_CMD_PMA :: u32 where [ata_consts]: "PORT_CMD_PMA = 0x00020000"
definition PORT_CMD_CPS :: u32 where [ata_consts]: "PORT_CMD_CPS = 0x00010000"
definition PORT_CMD_CR :: u32 where [ata_consts]: "PORT_CMD_CR = 0x00008000"
definition PORT_CMD_FR :: u32 where [ata_consts]: "PORT_CMD_FR = 0x00004000"
definition PORT_CMD_MPSS :: u32 where [ata_consts]: "PORT_CMD_MPSS = 0x00002000"
definition PORT_CMD_CCS :: u32 where [ata_consts]: "PORT_CMD_CCS = 0x00001f00"
definition PORT_CMD_FRE :: u32 where [ata_consts]: "PORT_CMD_FRE = 0x00000010"
definition PORT_CMD_CLO :: u32 where [ata_consts]: "PORT_CMD_CLO = 0x00000008"
definition PORT_CMD_POD :: u32 where [ata_consts]: "PORT_CMD_POD = 0x00000004"
definition PORT_CMD_SUD :: u32 where [ata_consts]: "PORT_CMD_SUD = 0x00000002"
definition PORT_CMD_START :: u32 where [ata_consts]: "PORT_CMD_START = 0x00000001"
definition PORT_CMD_CCS_SHIFT :: nat where [ata_consts]: "PORT_CMD_CCS_SHIFT = 8"
definition PORT_TFD_ERROR_MASK :: u32 where [ata_consts]: "PORT_TFD_ERROR_MASK = 0x0000ff00"
definition PORT_TFD_STATUS_MASK :: u32 where [ata_consts]: "PORT_TFD_STATUS_MASK = 0x000000ff"
definition PORT_TFD_ERROR_SHIFT :: nat where [ata_consts]: "PORT_TFD_ERROR_SHIFT = 8"
definition PORT_TFD_STATUS_SHIFT :: nat where [ata_consts]: "PORT_TFD_STATUS_SHIFT = 0"
definition PORT_SSTAT_DET_MASK :: u32 where [ata_consts]: "PORT_SSTAT_DET_MASK = 0x0000000f"
definition PORT_SSTAT_DET_NONE :: u32 where [ata_consts]: "PORT_SSTAT_DET_NONE = 0x00000000"
definition PORT_SSTAT_DET_PRESENT :: u32 where [ata_consts]: "PORT_SSTAT_DET_PRESENT = 0x00000001"
definition PORT_SSTAT_DET_CONNECT :: u32 where [ata_consts]: "PORT_SSTAT_DET_CONNECT = 0x00000003"
definition PORT_SSTAT_DET_OFFLINE :: u32 where [ata_consts]: "PORT_SSTAT_DET_OFFLINE = 0x00000004"
definition PORT_SSTAT_IPM_MASK :: u32 where [ata_consts]: "PORT_SSTAT_IPM_MASK = 0x00000f00"
definition PORT_SSTAT_IPM_ACTIVE :: u32 where [ata_consts]: "PORT_SSTAT_IPM_ACTIVE = 0x00000100"
definition PORT_SSTAT_IPM_PARTIAL :: u32 where [ata_consts]: "PORT_SSTAT_IPM_PARTIAL = 0x00000200"
definition PORT_SSTAT_IPM_SLUMBER :: u32 where [ata_consts]: "PORT_SSTAT_IPM_SLUMBER = 0x00000600"
definition PORT_SSTAT_IPM_DEVSLP :: u32 where [ata_consts]: "PORT_SSTAT_IPM_DEVSLP = 0x00000800"
definition PORT_SCNTL_DET_MASK :: u32 where [ata_consts]: "PORT_SCNTL_DET_MASK = 0x0000000f"
definition PORT_SCNTL_DET_NONE :: u32 where [ata_consts]: "PORT_SCNTL_DET_NONE = 0x00000000"
definition PORT_SCNTL_DET_RESET :: u32 where [ata_consts]: "PORT_SCNTL_DET_RESET = 0x00000001"
definition PORT_SCNTL_DET_OFFLINE :: u32 where [ata_consts]: "PORT_SCNTL_DET_OFFLINE = 0x00000004"
definition HBA_CAP_S64A :: u32 where [ata_consts]: "HBA_CAP_S64A = 0x80000000"
definition HBA_CAP_SNCQ :: u32 where [ata_consts]: "HBA_CAP_SNCQ = 0x40000000"
definition HBA_CAP_SSNTF :: u32 where [ata_consts]: "HBA_CAP_SSNTF = 0x20000000"
definition HBA_CAP_SMPS :: u32 where [ata_consts]: "HBA_CAP_SMPS = 0x10000000"
definition HBA_CAP_SSS :: u32 where [ata_consts]: "HBA_CAP_SSS = 0x08000000"
definition HBA_CAP_SALP :: u32 where [ata_consts]: "HBA_CAP_SALP = 0x04000000"
definition HBA_CAP_SAL :: u32 where [ata_consts]: "HBA_CAP_SAL = 0x02000000"
definition HBA_CAP_SCLO :: u32 where [ata_consts]: "HBA_CAP_SCLO = 0x01000000"
definition HBA_CAP_ISSMASK :: u32 where [ata_consts]: "HBA_CAP_ISSMASK = 0x00f00000"
definition HBA_SPEED_GEN1 :: u32 where [ata_consts]: "HBA_SPEED_GEN1 = 0x00100000"
definition HBA_SPEED_GEN2 :: u32 where [ata_consts]: "HBA_SPEED_GEN2 = 0x00200000"
definition HBA_SPEED_GEN3 :: u32 where [ata_consts]: "HBA_SPEED_GEN3 = 0x00300000"
definition HBA_CAP_SAM :: u32 where [ata_consts]: "HBA_CAP_SAM = 0x00040000"
definition HBA_CAP_SPM :: u32 where [ata_consts]: "HBA_CAP_SPM = 0x00020000"
definition HBA_CAP_FBSS :: u32 where [ata_consts]: "HBA_CAP_FBSS = 0x00010000"
definition HBA_CAP_PMD :: u32 where [ata_consts]: "HBA_CAP_PMD = 0x00008000"
definition HBA_CAP_SSC :: u32 where [ata_consts]: "HBA_CAP_SSC = 0x00004000"
definition HBA_CAP_PSC :: u32 where [ata_consts]: "HBA_CAP_PSC = 0x00002000"
definition HBA_CAP_SLOTS :: u32 where [ata_consts]: "HBA_CAP_SLOTS = 0x00001f00"
definition HBA_CAP_SLOTS_SHIFT :: nat where [ata_consts]: "HBA_CAP_SLOTS_SHIFT = 8"
definition HBA_CAP_CCCS :: u32 where [ata_consts]: "HBA_CAP_CCCS = 0x00000080"
definition HBA_CAP_EMS :: u32 where [ata_consts]: "HBA_CAP_EMS = 0x00000040"
definition HBA_CAP_SXS :: u32 where [ata_consts]: "HBA_CAP_SXS = 0x00000020"
definition HBA_CAP_PORTS :: u32 where [ata_consts]: "HBA_CAP_PORTS = 0x0000001f"
definition HBA_CAP_PORTS_SHIFT :: nat where [ata_consts]: "HBA_CAP_PORTS_SHIFT = 0"
definition HBA_GHC_AE :: u32 where [ata_consts]: "HBA_GHC_AE = 0x80000000"
definition HBA_GHC_MRSM :: u32 where [ata_consts]: "HBA_GHC_MRSM = 0x00000004"
definition HBA_GHC_IE :: u32 where [ata_consts]: "HBA_GHC_IE = 0x00000002"
definition HBA_GHC_HR :: u32 where [ata_consts]: "HBA_GHC_HR = 0x00000001"
definition HBA_CCC_CTL_TV_SHIFT :: nat where [ata_consts]: "HBA_CCC_CTL_TV_SHIFT = 16"
definition HBA_CCC_CTL_TV_MASK :: u32 where [ata_consts]: "HBA_CCC_CTL_TV_MASK = 0xffff0000"
definition HBA_CCC_CTL_CC_SHIFT :: nat where [ata_consts]: "HBA_CCC_CTL_CC_SHIFT = 8"
definition HBA_CCC_CTL_CC_MASK :: u32 where [ata_consts]: "HBA_CCC_CTL_CC_MASK = 0x0000ff00"
definition HBA_CCC_CTL_INT_SHIFT :: nat where [ata_consts]: "HBA_CCC_CTL_INT_SHIFT = 3"
definition HBA_CCC_CTL_INT_MASK :: u32 where [ata_consts]: "HBA_CCC_CTL_INT_MASK = 0x000000f8"
definition HBA_CCC_CTL_ENABLE :: u32 where [ata_consts]: "HBA_CCC_CTL_ENABLE = 0x00000001"

definition ahci_hba_port :: ctype where [ata_structs]:
  "ahci_hba_port = Struct
    [('''', Union
     [('''', Struct
       [(''clb'', Uint 4),
        (''clbu'', Uint 4),
        (''fb'', Uint 4),
        (''fbu'', Uint 4),
        (''intr_status'', Uint 4),
        (''intr_enable'', Uint 4),
        (''cmd'', Uint 4),
        (''reserved'', Uint 4),
        (''tfd'', Uint 4),
        (''sig'', Uint 4),
        (''sstatus'', Uint 4),
        (''scontrol'', Uint 4),
        (''serror'', Uint 4),
        (''sactive'', Uint 4),
        (''cmd_issue'', Uint 4),
        (''snotification'', Uint 4),
        (''fbs'', Uint 4),
        (''dev_sleep'', Uint 4)]),
      (''data'', Array (Uint 1) 128)])]"

definition ahci_hba :: ctype where [ata_structs]:
  "ahci_hba = Struct
    [('''', Union
     [('''', Struct
       [(''cap'', Uint 4),
        (''ghc'', Uint 4),
        (''intr_stat'', Uint 4),
        (''ports_impl'', Uint 4),
        (''version'', Uint 4),
        (''ccc_ctl'', Uint 4),
        (''ccc_ports'', Uint 4),
        (''em_loc'', Uint 4),
        (''em_ctl'', Uint 4),
        (''cap2'', Uint 4),
        (''bohc'', Uint 4)]),
      (''data'', Array (Uint 1) 256)]),
     (''port'', Array (ahci_hba_port) 32)]"

section \<open>Memory of the driver\<close>

definition AHCI_OFFSET :: u32 where [ata_consts]: "AHCI_OFFSET = 0x100000"
definition AHCI_PORT_RAM_SIZE :: u32 where [ata_consts]: "AHCI_PORT_RAM_SIZE = 0x8000"
definition AHCI_DATA_OFFSET :: u32 where [ata_consts]: "AHCI_DATA_OFFSET = 0x2000"
definition AHCI_CLB_OFFSET :: u32 where [ata_consts]: "AHCI_CLB_OFFSET = 0x6000"
definition AHCI_FB_OFFSET :: u32 where [ata_consts]: "AHCI_FB_OFFSET = 0x6400"

end
