(* ===== verification/Ahci.thy ===== *)
theory Ahci
  imports Ahci_Regs Printf Bus
begin

text \<open>
  The driver of the AHCI disk controller of the Loongson board (\<open>drivers/ata/ahci.c\<close>, with the
  inline functions of \<open>ahci_hba.h\<close>), on the 64-bit machine. Memory is indexed by the virtual
  addresses the kernel uses (\<open>asm/mm/page.h\<close>). The controller is a parameter, as in \<open>Bus\<close>:
  what it answers, and what it has stored in memory by a read, depend on the accesses so far.

  \<open>DMAPHY\<close>, \<open>MAXLOWERPHY\<close>, \<open>KSEG0_BASE\<close> and \<open>KSEG0_END\<close> are used by the driver but defined in
  no file of the repository: they are a parameter, too. \<open>pdebug\<close> is empty, as \<open>config.h\<close> does
  not define \<open>DEBUG\<close>.
\<close>

section \<open>The machine\<close>

datatype pio_event = Load u64 u32 | Store u64 u32

record ata_hardware =
  ata_read :: "pio_event list \<Rightarrow> u64 \<Rightarrow> u32"
  ata_dma :: "pio_event list \<Rightarrow> memory64 \<Rightarrow> memory64"

record ata_board =
  DMAPHY :: u64
  MAXLOWERPHY :: u64
  KSEG0_BASE :: u64
  KSEG0_END :: u64

record ata_state = machine +
  mem64 :: memory64
  pio :: "pio_event list"
  ahci_current_rambase :: u64

definition KSEG0 :: u64 where
  "KSEG0 = 0xffffffff80000000"

definition p2kv :: "ata_board \<Rightarrow> u64 \<Rightarrow> u64" where
  "p2kv bd paddr = (if paddr < MAXLOWERPHY bd then paddr + KSEG0 else 0)"

definition kv2p :: "ata_board \<Rightarrow> u64 \<Rightarrow> u64" where
  "kv2p bd kvaddr = (if kvaddr \<le> KSEG0_END bd \<and> kvaddr \<ge> KSEG0_BASE bd then kvaddr - KSEG0 else 0)"

text \<open>\<open>delay\<close> counts to \<open>10000 t\<close> and does nothing else.\<close>

function delay_loop :: "u64 \<Rightarrow> u64 \<Rightarrow> 's \<Rightarrow> 's" where
  "delay_loop i n s = (if i < n then delay_loop (i + 1) n s else s)"
  by auto
termination
proof (relation "measure (\<lambda>(i, n, _). unat (n - i))", goal_cases)
  case (2 i n s)
  have "unat (n - (i + 1)) = unat (n - i) - 1" and "unat (n - i) \<noteq> 0"
    using 2 unat_minus_one [of "n - i"] by (auto simp: diff_diff_eq unat_eq_zero)
  then show ?case by simp
qed simp

declare delay_loop.simps [simp del]

definition delay :: "u64 \<Rightarrow> 's \<Rightarrow> 's" where
  "delay t s = delay_loop 0 (t * 10000) s"

lemma delay_loop_id: "delay_loop i n s = s"
  by (induction i n s rule: delay_loop.induct) (subst delay_loop.simps, simp)

lemma delay_id [simp]: "delay t s = s"
  by (simp add: delay_def delay_loop_id)

text \<open>Access to a register of the block at \<open>base\<close>.\<close>

definition hload :: "ata_hardware \<Rightarrow> ctype \<Rightarrow> sel list \<Rightarrow> u64 \<Rightarrow> 'a ata_state_scheme \<Rightarrow> u32 \<times> 'a ata_state_scheme" where
  "hload hw t reg base s =
     (let a = c_addr t reg base; v = ata_read hw (pio s) a; tr = pio s @ [Load a v]
      in (v, s\<lparr>pio := tr, mem64 := ata_dma hw tr (mem64 s)\<rparr>))"

definition hstore :: "ctype \<Rightarrow> sel list \<Rightarrow> u32 \<Rightarrow> u64 \<Rightarrow> 'a ata_state_scheme \<Rightarrow> 'a ata_state_scheme" where
  "hstore t reg v base s = s\<lparr>pio := pio s @ [Store (c_addr t reg base) v]\<rparr>"

definition hupdate :: "ata_hardware \<Rightarrow> ctype \<Rightarrow> sel list \<Rightarrow> (u32 \<Rightarrow> u32) \<Rightarrow> u64 \<Rightarrow> 'a ata_state_scheme \<Rightarrow> 'a ata_state_scheme" where
  "hupdate hw t reg f base s = (let (v, s) = hload hw t reg base s in hstore t reg (f v) base s)"

abbreviation port_load :: "ata_hardware \<Rightarrow> string \<Rightarrow> u64 \<Rightarrow> 'a ata_state_scheme \<Rightarrow> u32 \<times> 'a ata_state_scheme" where
  "port_load hw r \<equiv> hload hw ahci_hba_port [Fld r]"

abbreviation port_store :: "string \<Rightarrow> u32 \<Rightarrow> u64 \<Rightarrow> 'a ata_state_scheme \<Rightarrow> 'a ata_state_scheme" where
  "port_store r \<equiv> hstore ahci_hba_port [Fld r]"

abbreviation port_update :: "ata_hardware \<Rightarrow> string \<Rightarrow> (u32 \<Rightarrow> u32) \<Rightarrow> u64 \<Rightarrow> 'a ata_state_scheme \<Rightarrow> 'a ata_state_scheme" where
  "port_update hw r \<equiv> hupdate hw ahci_hba_port [Fld r]"

abbreviation hba_load :: "ata_hardware \<Rightarrow> string \<Rightarrow> u64 \<Rightarrow> 'a ata_state_scheme \<Rightarrow> u32 \<times> 'a ata_state_scheme" where
  "hba_load hw r \<equiv> hload hw ahci_hba [Fld r]"

abbreviation hba_update :: "ata_hardware \<Rightarrow> string \<Rightarrow> (u32 \<Rightarrow> u32) \<Rightarrow> u64 \<Rightarrow> 'a ata_state_scheme \<Rightarrow> 'a ata_state_scheme" where
  "hba_update hw r \<equiv> hupdate hw ahci_hba [Fld r]"

section \<open>Ports\<close>

definition ahci_port_ccs :: "ata_hardware \<Rightarrow> u64 \<Rightarrow> 'a ata_state_scheme \<Rightarrow> u32 \<times> 'a ata_state_scheme" where
  "ahci_port_ccs hw port s =
     (let (v, s) = port_load hw ''cmd'' port s in (drop_bit PORT_CMD_CCS_SHIFT (v AND PORT_CMD_CCS), s))"

definition ahci_port_tfd_error :: "ata_hardware \<Rightarrow> u64 \<Rightarrow> 'a ata_state_scheme \<Rightarrow> u32 \<times> 'a ata_state_scheme" where
  "ahci_port_tfd_error hw port s =
     (let (v, s) = port_load hw ''tfd'' port s in (drop_bit PORT_TFD_ERROR_SHIFT (v AND PORT_TFD_ERROR_MASK), s))"

definition ahci_port_tfd_status :: "ata_hardware \<Rightarrow> u64 \<Rightarrow> 'a ata_state_scheme \<Rightarrow> u32 \<times> 'a ata_state_scheme" where
  "ahci_port_tfd_status hw port s =
     (let (v, s) = port_load hw ''tfd'' port s in (drop_bit PORT_TFD_STATUS_SHIFT (v AND PORT_TFD_STATUS_MASK), s))"

definition ahci_port_reset :: "ata_hardware \<Rightarrow> u64 \<Rightarrow> 'a ata_state_scheme \<Rightarrow> 'a ata_state_scheme" where
  "ahci_port_reset hw port s =
     (let s = port_update hw ''scontrol'' (\<lambda>v. v AND NOT PORT_SCNTL_DET_MASK OR PORT_SCNTL_DET_RESET) port s;
          s = delay 1 s
      in port_update hw ''scontrol'' (\<lambda>v. v AND NOT PORT_SCNTL_DET_MASK OR PORT_SCNTL_DET_NONE) port s)"

section \<open>The controller\<close>

definition ahci_hba_slots :: "ata_hardware \<Rightarrow> u64 \<Rightarrow> 'a ata_state_scheme \<Rightarrow> u32 \<times> 'a ata_state_scheme" where
  "ahci_hba_slots hw hba s =
     (let (v, s) = hba_load hw ''cap'' hba s in (drop_bit HBA_CAP_SLOTS_SHIFT (v AND HBA_CAP_SLOTS) + 1, s))"

definition ahci_hba_ports :: "ata_hardware \<Rightarrow> u64 \<Rightarrow> 'a ata_state_scheme \<Rightarrow> u32 \<times> 'a ata_state_scheme" where
  "ahci_hba_ports hw hba s =
     (let (v, s) = hba_load hw ''cap'' hba s in (drop_bit HBA_CAP_PORTS_SHIFT (v AND HBA_CAP_PORTS) + 1, s))"

definition ahci_support_ccc :: "ata_hardware \<Rightarrow> u64 \<Rightarrow> 'a ata_state_scheme \<Rightarrow> bool \<times> 'a ata_state_scheme" where
  "ahci_support_ccc hw hba s = (let (v, s) = hba_load hw ''cap'' hba s in (v AND HBA_CAP_CCCS \<noteq> 0, s))"

definition ahci_support_em :: "ata_hardware \<Rightarrow> u64 \<Rightarrow> 'a ata_state_scheme \<Rightarrow> bool \<times> 'a ata_state_scheme" where
  "ahci_support_em hw hba s = (let (v, s) = hba_load hw ''cap'' hba s in (v AND HBA_CAP_EMS \<noteq> 0, s))"

definition ahci_disable_intr :: "ata_hardware \<Rightarrow> u64 \<Rightarrow> 'a ata_state_scheme \<Rightarrow> 'a ata_state_scheme" where
  "ahci_disable_intr hw hba s = hba_update hw ''ghc'' (\<lambda>v. v AND NOT HBA_GHC_IE) hba s"

definition ahci_enable_intr :: "ata_hardware \<Rightarrow> u64 \<Rightarrow> 'a ata_state_scheme \<Rightarrow> 'a ata_state_scheme" where
  "ahci_enable_intr hw hba s = hba_update hw ''ghc'' (\<lambda>v. v OR HBA_GHC_IE) hba s"

definition ahci_hba_reset :: "ata_hardware \<Rightarrow> u64 \<Rightarrow> 'a ata_state_scheme \<Rightarrow> 'a ata_state_scheme option" where
  "ahci_hba_reset hw hba s = do {
     let s = hba_update hw ''ghc'' (\<lambda>v. v OR HBA_GHC_HR) hba s;
     (_, s) \<leftarrow> spin_until (hba_load hw ''ghc'' hba) (\<lambda>v. v AND HBA_GHC_HR = 0) s;
     Some s
   }"

text \<open>Command completion coalescing: a field of \<open>ccc_ctl\<close> is read or written where the controller
  has the feature.\<close>

definition ccc_get :: "ata_hardware \<Rightarrow> u32 \<Rightarrow> nat \<Rightarrow> u64 \<Rightarrow> 'a ata_state_scheme \<Rightarrow> u32 \<times> 'a ata_state_scheme" where
  "ccc_get hw msk sh hba s =
     (let (ok, s) = ahci_support_ccc hw hba s
      in if \<not> ok then (0, s)
         else let (v, s) = hba_load hw ''ccc_ctl'' hba s in (drop_bit sh (v AND msk), s))"

definition ccc_set :: "ata_hardware \<Rightarrow> (u32 \<Rightarrow> u32) \<Rightarrow> u64 \<Rightarrow> 'a ata_state_scheme \<Rightarrow> 'a ata_state_scheme" where
  "ccc_set hw f hba s =
     (let (ok, s) = ahci_support_ccc hw hba s in if \<not> ok then s else hba_update hw ''ccc_ctl'' f hba s)"

definition ahci_ccc_gettimeout :: "ata_hardware \<Rightarrow> u64 \<Rightarrow> 'a ata_state_scheme \<Rightarrow> u32 \<times> 'a ata_state_scheme" where
  "ahci_ccc_gettimeout hw = ccc_get hw HBA_CCC_CTL_TV_MASK HBA_CCC_CTL_TV_SHIFT"

definition ahci_ccc_settimeout :: "ata_hardware \<Rightarrow> u64 \<Rightarrow> u32 \<Rightarrow> 'a ata_state_scheme \<Rightarrow> 'a ata_state_scheme" where
  "ahci_ccc_settimeout hw hba tv =
     ccc_set hw (\<lambda>v. v AND NOT HBA_CCC_CTL_TV_MASK OR push_bit HBA_CCC_CTL_TV_SHIFT tv) hba"

definition ahci_ccc_getcc :: "ata_hardware \<Rightarrow> u64 \<Rightarrow> 'a ata_state_scheme \<Rightarrow> u32 \<times> 'a ata_state_scheme" where
  "ahci_ccc_getcc hw = ccc_get hw HBA_CCC_CTL_CC_MASK HBA_CCC_CTL_CC_SHIFT"

definition ahci_ccc_setcc :: "ata_hardware \<Rightarrow> u64 \<Rightarrow> u32 \<Rightarrow> 'a ata_state_scheme \<Rightarrow> 'a ata_state_scheme" where
  "ahci_ccc_setcc hw hba cc =
     ccc_set hw (\<lambda>v. v AND NOT HBA_CCC_CTL_CC_MASK OR push_bit HBA_CCC_CTL_CC_SHIFT cc) hba"

definition ahci_ccc_getintr :: "ata_hardware \<Rightarrow> u64 \<Rightarrow> 'a ata_state_scheme \<Rightarrow> u32 \<times> 'a ata_state_scheme" where
  "ahci_ccc_getintr hw = ccc_get hw HBA_CCC_CTL_INT_MASK HBA_CCC_CTL_INT_SHIFT"

definition ahci_ccc_setintr :: "ata_hardware \<Rightarrow> u64 \<Rightarrow> u32 \<Rightarrow> 'a ata_state_scheme \<Rightarrow> 'a ata_state_scheme" where
  "ahci_ccc_setintr hw hba intr =
     ccc_set hw (\<lambda>v. v AND NOT HBA_CCC_CTL_INT_MASK OR push_bit HBA_CCC_CTL_INT_SHIFT intr) hba"

definition ahci_enable_ccc :: "ata_hardware \<Rightarrow> u64 \<Rightarrow> 'a ata_state_scheme \<Rightarrow> 'a ata_state_scheme" where
  "ahci_enable_ccc hw = ccc_set hw (\<lambda>v. v OR HBA_CCC_CTL_ENABLE)"

definition ahci_disable_ccc :: "ata_hardware \<Rightarrow> u64 \<Rightarrow> 'a ata_state_scheme \<Rightarrow> 'a ata_state_scheme" where
  "ahci_disable_ccc hw = ccc_set hw (\<lambda>v. v AND NOT HBA_CCC_CTL_ENABLE)"

section \<open>The driver\<close>

text \<open>An access through a null pointer does not return. A structure in memory is written member
  by member.\<close>

definition deref64 :: "u64 \<Rightarrow> unit option" where
  "deref64 p = (if p = 0 then None else Some ())"

definition memset64 :: "u64 \<Rightarrow> u8 \<Rightarrow> nat \<Rightarrow> 'a ata_state_scheme \<Rightarrow> 'a ata_state_scheme" where
  "memset64 p c n s = s\<lparr>mem64 := fill64 p n c (mem64 s)\<rparr>"

definition cset :: "ctype \<Rightarrow> sel list \<Rightarrow> u64 \<Rightarrow> u64 \<Rightarrow> 'a ata_state_scheme \<Rightarrow> 'a ata_state_scheme" where
  "cset t path v a s = s\<lparr>mem64 := c_store t path v a (mem64 s)\<rparr>"

definition ahci_port_startable :: "ata_hardware \<Rightarrow> u64 \<Rightarrow> 'a ata_state_scheme \<Rightarrow> bool \<times> 'a ata_state_scheme" where
  "ahci_port_startable hw port s =
     (let (tfd_stat, s) = ahci_port_tfd_status hw port s;
          (x, s) = port_load hw ''sstatus'' port s; sstatus_det = x AND PORT_SSTAT_DET_MASK;
          (y, s) = port_load hw ''sstatus'' port s; sstatus_ipm = y AND PORT_SSTAT_IPM_MASK;
          (cmd, s) = port_load hw ''cmd'' port s
      in (cmd AND PORT_CMD_CR = 0 \<and> tfd_stat AND FIS_STAT_BUSY = 0 \<and> tfd_stat AND FIS_STAT_DRQ = 0
          \<and> (sstatus_det = PORT_SSTAT_DET_CONNECT \<or> sstatus_ipm = PORT_SSTAT_IPM_PARTIAL
             \<or> sstatus_ipm = PORT_SSTAT_IPM_SLUMBER \<or> sstatus_ipm = PORT_SSTAT_IPM_DEVSLP), s))"

definition ahci_wait_port :: "ata_hardware \<Rightarrow> u64 \<Rightarrow> 'a ata_state_scheme \<Rightarrow> 'a ata_state_scheme option" where
  "ahci_wait_port hw port s = do {
     (_, s) \<leftarrow> spin_until (ahci_port_tfd_status hw port)
       (\<lambda>stat. stat AND (FIS_STAT_BUSY OR FIS_STAT_DRQ OR FIS_STAT_ERR) = 0) s;
     Some s
   }"

definition ahci_port_start :: "ata_hardware \<Rightarrow> u64 \<Rightarrow> 'a ata_state_scheme \<Rightarrow> 'a ata_state_scheme option" where
  "ahci_port_start hw port s = do {
     (_, s) \<leftarrow> spin_until (ahci_port_startable hw port) (\<lambda>startable. startable) s;
     let s = port_update hw ''cmd'' (\<lambda>v. v OR PORT_CMD_FRE) port s;
     Some (port_update hw ''cmd'' (\<lambda>v. v OR PORT_CMD_START) port s)
   }"

text \<open>\<open>ahci_identify_device\<close>: the command slot, the command header, the wait, the print-out.\<close>

definition identify_slot :: "u64 \<Rightarrow> u32 \<Rightarrow> 'a ata_state_scheme \<Rightarrow> 'a ata_state_scheme" where
  "identify_slot cs db s =
     (let s = memset64 cs 0 (c_sizeof ahci_cmdslot) s;
          s = cset ahci_cmdslot [Fld ''prd'', Idx 0, Fld ''dba''] (ucast db) cs s;
          s = cset ahci_cmdslot [Fld ''prd'', Idx 0, Fld ''dbc''] (256 * 2 - 1) cs s;
          s = cset ahci_cmdslot [Fld ''ct'', Fld ''cfis'', Fld ''type''] (ucast FIS_H2D_REG) cs s;
          s = cset ahci_cmdslot [Fld ''ct'', Fld ''cfis'', Fld ''event''] (ucast FIS_WRITE_CMD) cs s;
          s = cset ahci_cmdslot [Fld ''ct'', Fld ''cfis'', Fld ''cmd''] (ucast ATA_IDENTIFY_DEVICE) cs s;
          s = cset ahci_cmdslot [Fld ''ct'', Fld ''cfis'', Fld ''lba'', Fld ''mode''] 1 cs s
      in cset ahci_cmdslot [Fld ''ct'', Fld ''cfis'', Fld ''nsec_l''] 1 cs s)"

definition identify_header :: "ata_board \<Rightarrow> u64 \<Rightarrow> u64 \<Rightarrow> 'a ata_state_scheme \<Rightarrow> 'a ata_state_scheme" where
  "identify_header bd ch cs s =
     (let s = memset64 ch 0 (c_sizeof ahci_cmdhdr) s;
          s = cset ahci_cmdhdr [Fld ''cfl''] (of_nat (c_sizeof fis_reg_h2d div 4)) ch s;
          s = cset ahci_cmdhdr [Fld ''clear_on_ok''] 1 ch s;
          s = cset ahci_cmdhdr [Fld ''prdtl''] 1 ch s;
          s = cset ahci_cmdhdr [Fld ''prefetch''] 1 ch s;
          s = cset ahci_cmdhdr [Fld ''ctba''] (kv2p bd (c_addr ahci_cmdslot [Fld ''ct''] cs)) ch s
      in cset ahci_cmdhdr [Fld ''ctbau''] 0 ch s)"

definition identify_poll :: "ata_hardware \<Rightarrow> u64 \<Rightarrow> 'a ata_state_scheme \<Rightarrow> u32 \<times> 'a ata_state_scheme" where
  "identify_poll hw port s =
     (let (st, s) = port_load hw ''intr_status'' port s;
          s = (if st \<noteq> 0 then delay 10000 s else s)
      in port_load hw ''cmd_issue'' port s)"

definition identify_print :: "u64 \<Rightarrow> 'a ata_state_scheme \<Rightarrow> 'a ata_state_scheme" where
  "identify_print data s = fold (\<lambda>i s.
     uart_spin_printf ''%04x%s''
       [VWord (ucast (ldn (mem64 s) (data + 2 * of_nat i) 2)),
        VStr (Some (if (i + 1) mod 8 \<noteq> 0 then '' '' else crlf))] s) [0 ..< 256] s"

definition ahci_identify_device ::
    "ata_board \<Rightarrow> ata_hardware \<Rightarrow> u64 \<Rightarrow> 'a ata_state_scheme \<Rightarrow> 'a ata_state_scheme option" where
  "ahci_identify_device bd hw port s = do {
     let (clb, s) = port_load hw ''clb'' port s;
     let csb = clb - AHCI_CLB_OFFSET;
     let db = clb - AHCI_CLB_OFFSET + AHCI_DATA_OFFSET;
     let ch = p2kv bd (ucast clb);
     let cs = p2kv bd (ucast csb);
     let data = p2kv bd (ucast db);
     let (fb, s) = port_load hw ''fb'' port s;
     _ \<leftarrow> deref64 cs;
     let s = identify_slot cs db s;
     _ \<leftarrow> deref64 ch;
     let s = identify_header bd ch cs s;
     s \<leftarrow> ahci_wait_port hw port s;
     _ \<leftarrow> deref64 data;
     let s = memset64 data 0 (2 * 256) s;
     let s = port_store ''cmd_issue'' 1 port s;
     (_, s) \<leftarrow> spin_until (identify_poll hw port) (\<lambda>v. v AND 1 = 0) s;
     let (st, s) = port_load hw ''intr_status'' port s;
     let s = (if st \<noteq> 0 then delay 10000 s else s);
     let s = uart_spin_printf (CHR 0x09 # CHR 0x09 # ''Identification Data'' @ crlf) [] s;
     let s = identify_print data s;
     _ \<leftarrow> deref64 (p2kv bd (ucast fb));
     Some (uart_spin_printf (''%02x'' @ crlf) [VWord (ucast (mem64 s (p2kv bd (ucast fb))))] s)
   }"

definition ENODEV :: int where "ENODEV = 19"
definition EINVAL :: int where "EINVAL = 22"

text \<open>\<open>ahci_init_port\<close>: halting, resetting and giving the port its receive buffer; then, with a
  device connected, starting it.\<close>

definition init_port_reset ::
    "ata_board \<Rightarrow> ata_hardware \<Rightarrow> u64 \<Rightarrow> 'a ata_state_scheme \<Rightarrow> (u32 \<times> 'a ata_state_scheme) option" where
  "init_port_reset bd hw port s = do {
     let fb = ahci_current_rambase s + ucast AHCI_FB_OFFSET;
     let fb_buf = p2kv bd fb;
     let s = port_update hw ''cmd'' (\<lambda>v. v AND NOT (PORT_CMD_FRE OR PORT_CMD_START)) port s;
     (_, s) \<leftarrow> spin_until (port_load hw ''cmd'' port) (\<lambda>v. v AND (PORT_CMD_CR OR PORT_CMD_FR) = 0) s;
     let s = port_update hw ''scontrol'' (\<lambda>v. v AND NOT PORT_SCNTL_DET_MASK OR PORT_SCNTL_DET_RESET) port s;
     let s = delay 1 s;
     let s = port_update hw ''scontrol'' (\<lambda>v. v AND NOT PORT_SCNTL_DET_MASK OR PORT_SCNTL_DET_NONE) port s;
     _ \<leftarrow> deref64 fb_buf;
     let s = memset64 fb_buf 0 (c_sizeof fis_recvbuf) s;
     let s = port_store ''fbu'' 0 port s;
     let s = port_store ''fb'' (ucast fb) port s;
     let s = port_update hw ''cmd'' (\<lambda>v. v OR (PORT_CMD_FRE OR PORT_CMD_SUD)) port s;
     let s = delay 1000 s;
     let (sstatus, s) = port_load hw ''sstatus'' port s;
     Some (sstatus AND PORT_SSTAT_DET_MASK, s)
   }"

definition init_port_start ::
    "ata_board \<Rightarrow> ata_hardware \<Rightarrow> u64 \<Rightarrow> u64 \<Rightarrow> 'a ata_state_scheme \<Rightarrow> 'a ata_state_scheme option" where
  "init_port_start bd hw port serror s = do {
     let clb = ahci_current_rambase s + ucast AHCI_CLB_OFFSET;
     let s = (if serror \<noteq> 0 then
                let (v, s) = port_load hw ''serror'' port s
                in s\<lparr>mem64 := stn (mem64 s) serror 4 (ucast v)\<rparr>
              else s);
     let s = port_store ''serror'' 0 port s;
     let s = port_store ''intr_status'' 0 port s;
     let (sig, s) = port_load hw ''sig'' port s;
     let s = uart_spin_printf (''Signature: %08x'' @ crlf) [VWord sig] s;
     s \<leftarrow> ahci_wait_port hw port s;
     let s = port_store ''clbu'' 0 port s;
     let s = port_store ''clb'' (ucast clb) port s;
     s \<leftarrow> ahci_port_start hw port s;
     s \<leftarrow> ahci_identify_device bd hw port s;
     Some (s\<lparr>ahci_current_rambase := ahci_current_rambase s + ucast AHCI_PORT_RAM_SIZE\<rparr>)
   }"

definition ahci_init_port ::
    "ata_board \<Rightarrow> ata_hardware \<Rightarrow> u64 \<Rightarrow> u64 \<Rightarrow> 'a ata_state_scheme \<Rightarrow> (int \<times> 'a ata_state_scheme) option" where
  "ahci_init_port bd hw port serror s = do {
     (sstatus_det, s) \<leftarrow> init_port_reset bd hw port s;
     if sstatus_det = PORT_SSTAT_DET_NONE \<or> sstatus_det = PORT_SSTAT_DET_OFFLINE then Some (- ENODEV, s)
     else if sstatus_det = PORT_SSTAT_DET_PRESENT \<or> sstatus_det = PORT_SSTAT_DET_CONNECT then
       do { s \<leftarrow> init_port_start bd hw port serror s; Some (0, s) }
     else Some (- EINVAL, s)
   }"

end
