(* ===== verification/Ahci_Correct.thy ===== *)
theory Ahci_Correct
  imports Ahci
begin

text \<open>
  What the AHCI driver does to a disk. The controller is described by \<open>ata_disk\<close>: it takes the
  command from the structures it finds in memory when the driver sets the bit in the issue
  register, and has stored the answer where the command says when it clears the bit. The
  driver's structures are such a command, and it prints the answer.
\<close>

section \<open>Layouts\<close>

lemma port_regs [simp]:
  "c_addr ahci_hba_port [Fld ''clb''] a = a"
  "c_addr ahci_hba_port [Fld ''clbu''] a = a + 4"
  "c_addr ahci_hba_port [Fld ''fb''] a = a + 8"
  "c_addr ahci_hba_port [Fld ''fbu''] a = a + 12"
  "c_addr ahci_hba_port [Fld ''intr_status''] a = a + 16"
  "c_addr ahci_hba_port [Fld ''cmd''] a = a + 24"
  "c_addr ahci_hba_port [Fld ''tfd''] a = a + 32"
  "c_addr ahci_hba_port [Fld ''sig''] a = a + 36"
  "c_addr ahci_hba_port [Fld ''sstatus''] a = a + 40"
  "c_addr ahci_hba_port [Fld ''scontrol''] a = a + 44"
  "c_addr ahci_hba_port [Fld ''serror''] a = a + 48"
  "c_addr ahci_hba_port [Fld ''cmd_issue''] a = a + 56"
  by (simp_all add: c_addr_def ahci_hba_port_def place_def round_up_def)

lemma slot_members [simp]:
  "c_off ahci_cmdslot [Fld ''ct''] = Some (0, ahci_cmdtbl)"
  "c_off ahci_cmdslot [Fld ''prd'', Idx 0, Fld ''dba''] = Some (1024, Uint 4)"
  "c_off ahci_cmdslot [Fld ''prd'', Idx 0, Fld ''dbau''] = Some (1056, Uint 4)"
  "c_off ahci_cmdslot [Fld ''prd'', Idx 0, Fld ''dbc''] = Some (1120, Bits 4 22)"
  "c_off ahci_cmdslot [Fld ''ct'', Fld ''cfis'', Fld ''type''] = Some (0, Uint 1)"
  "c_off ahci_cmdslot [Fld ''ct'', Fld ''cfis'', Fld ''event''] = Some (15, Bits 1 1)"
  "c_off ahci_cmdslot [Fld ''ct'', Fld ''cfis'', Fld ''cmd''] = Some (16, Uint 1)"
  "c_off ahci_cmdslot [Fld ''ct'', Fld ''cfis'', Fld ''lba'', Fld ''mode''] = Some (62, Bits 1 1)"
  "c_off ahci_cmdslot [Fld ''ct'', Fld ''cfis'', Fld ''nsec_l''] = Some (96, Uint 1)"
  by (simp_all add: ata_structs place_def round_up_def)

lemma header_members [simp]:
  "c_off ahci_cmdhdr [Fld ''cfl''] = Some (0, Bits 1 5)"
  "c_off ahci_cmdhdr [Fld ''atapi''] = Some (5, Bits 1 1)"
  "c_off ahci_cmdhdr [Fld ''write''] = Some (6, Bits 1 1)"
  "c_off ahci_cmdhdr [Fld ''prefetch''] = Some (7, Bits 1 1)"
  "c_off ahci_cmdhdr [Fld ''clear_on_ok''] = Some (10, Bits 1 1)"
  "c_off ahci_cmdhdr [Fld ''prdtl''] = Some (16, Uint 2)"
  "c_off ahci_cmdhdr [Fld ''ctba''] = Some (64, Uint 4)"
  "c_off ahci_cmdhdr [Fld ''ctbau''] = Some (96, Uint 4)"
  by (simp_all add: ata_structs place_def round_up_def)

lemma ata_sizes [simp]:
  "c_sizeof ahci_cmdslot = 256" "c_sizeof ahci_cmdhdr = 32" "c_sizeof fis_recvbuf = 256" "c_sizeof fis_reg_h2d = 20"
  by (simp_all add: c_sizeof_def ata_structs place_def round_up_def)

section \<open>The command in memory\<close>

text \<open>What a controller reads from the command list at \<open>clb\<close>, with physical memory seen at \<open>KSEG0\<close>:
  a single transfer of \<open>n\<close> bytes to the address \<open>dba\<close> for an ATA command.\<close>

definition phys :: "u32 \<Rightarrow> u64" where
  "phys p = ucast p + KSEG0"

definition ata_command :: "memory64 \<Rightarrow> u32 \<Rightarrow> (u8 \<times> u32 \<times> nat) option" where
  "ata_command m clb =
     (let ch = phys clb; hdr = (\<lambda>f. c_load ahci_cmdhdr [Fld f] m ch);
          cs = phys (ucast (hdr ''ctba'')); fis = (\<lambda>f. c_load ahci_cmdslot [Fld ''ct'', Fld ''cfis'', Fld f] m cs);
          prd = (\<lambda>f. c_load ahci_cmdslot [Fld ''prd'', Idx 0, Fld f] m cs)
      in if hdr ''cfl'' = 5 \<and> hdr ''atapi'' = 0 \<and> hdr ''write'' = 0 \<and> hdr ''prdtl'' = 1 \<and> hdr ''ctbau'' = 0
           \<and> fis ''type'' = ucast FIS_H2D_REG \<and> fis ''event'' = 1 \<and> prd ''dbau'' = 0
         then Some (ucast (fis ''cmd''), ucast (prd ''dba''), unat (prd ''dbc'') + 1) else None)"

definition board_ok :: "ata_board \<Rightarrow> bool" where
  "board_ok bd \<longleftrightarrow> MAXLOWERPHY bd \<le> 0x20000000 \<and> KSEG0_BASE bd = KSEG0 \<and> KSEG0_END bd = 0xffffffff9fffffff"

lemma mask_lits: "(mask 1 :: u64) = 1" "(mask 5 :: u64) = 31" "(mask 22 :: u64) = 0x3FFFFF"
  by (simp_all add: mask_eq_exp_minus_1)

text \<open>The stores as byte updates.\<close>

lemma stn_1 [simp]: "stn m a (Suc 0) v = m(a := ucast v)"
  by simp

lemma stn_2 [simp]: "stn m a 2 v = m(a := ucast v, a + 1 := ucast (drop_bit 8 v))"
  by (simp add: numeral_2_eq_2)

lemma stn_4 [simp]: "stn m a 4 v = m(a := ucast v, a + 1 := ucast (drop_bit 8 v), a + 2 := ucast (drop_bit 16 v), a + 3 := ucast (drop_bit 24 v))"
  by (simp add: numeral_eq_Suc add.assoc)

lemma ldn_1 [simp]: "ldn m a (Suc 0) = ucast (m a)"
  by simp

lemma ldn_2: "ldn m a 2 = ucast (m a) OR push_bit 8 (ucast (m (a + 1)))"
  by (simp add: numeral_2_eq_2)

lemma ldn_4: "ldn m a 4 = ucast (m a) OR push_bit 8 (ucast (m (a + 1))) OR push_bit 16 (ucast (m (a + 2))) OR push_bit 24 (ucast (m (a + 3)))"
  by (simp add: numeral_eq_Suc add.assoc push_bit_or or.assoc)

lemma slot_stores:
  "c_store ahci_cmdslot [Fld ''prd'', Idx 0, Fld ''dba''] v cs m
     = m(cs + 128 := ucast v, cs + 129 := ucast (drop_bit 8 v), cs + 130 := ucast (drop_bit 16 v), cs + 131 := ucast (drop_bit 24 v))"
  "c_store ahci_cmdslot [Fld ''ct'', Fld ''cfis'', Fld ''type''] v cs m = m(cs := ucast v)"
  "c_store ahci_cmdslot [Fld ''ct'', Fld ''cfis'', Fld ''cmd''] v cs m = m(cs + 2 := ucast v)"
  "c_store ahci_cmdslot [Fld ''ct'', Fld ''cfis'', Fld ''nsec_l''] v cs m = m(cs + 12 := ucast v)"
  by (simp_all add: c_store_def add.assoc)

lemma slot_bits:
  "m (cs + 1) = 0 \<Longrightarrow> c_store ahci_cmdslot [Fld ''ct'', Fld ''cfis'', Fld ''event''] 1 cs m = m(cs + 1 := 0x80)"
  "m (cs + 7) = 0 \<Longrightarrow> c_store ahci_cmdslot [Fld ''ct'', Fld ''cfis'', Fld ''lba'', Fld ''mode''] 1 cs m = m(cs + 7 := 0x40)"
  "m (cs + 140) = 0 \<Longrightarrow> m (cs + 141) = 0 \<Longrightarrow> m (cs + 142) = 0 \<Longrightarrow> m (cs + 143) = 0
    \<Longrightarrow> c_store ahci_cmdslot [Fld ''prd'', Idx 0, Fld ''dbc''] 511 cs m
       = m(cs + 140 := 511, cs + 141 := 1, cs + 142 := 0, cs + 143 := 0)"
  by (simp_all add: c_store_def Let_def mask_lits add.assoc ldn_4)

lemma header_stores:
  "m ch = 0 \<Longrightarrow> c_store ahci_cmdhdr [Fld ''cfl''] 5 ch m = m(ch := 5)"
  "m (ch + 1) = 0 \<Longrightarrow> c_store ahci_cmdhdr [Fld ''clear_on_ok''] 1 ch m = m(ch + 1 := 4)"
  "c_store ahci_cmdhdr [Fld ''prdtl''] 1 ch m = m(ch + 2 := 1, ch + 3 := 0)"
  "m ch = 5 \<Longrightarrow> c_store ahci_cmdhdr [Fld ''prefetch''] 1 ch m = m(ch := 0x85)"
  "c_store ahci_cmdhdr [Fld ''ctba''] v ch m
     = m(ch + 8 := ucast v, ch + 9 := ucast (drop_bit 8 v), ch + 10 := ucast (drop_bit 16 v), ch + 11 := ucast (drop_bit 24 v))"
  "c_store ahci_cmdhdr [Fld ''ctbau''] 0 ch m = m(ch + 12 := 0, ch + 13 := 0, ch + 14 := 0, ch + 15 := 0)"
  by (simp_all add: c_store_def Let_def mask_lits add.assoc)

lemma fill64_at [simp]: "fill64 a n c m a = (if 0 < n then c else m a)" "fill64 a n c m (a + k) = (if unat k < n then c else m (a + k))"
  "fill64 (a + i) n c m (a + k) = (if unat (k - i) < n then c else m (a + k))"
  "fill64 (a + i) n c m a = (if unat (- i) < n then c else m a)"
  by (simp_all add: fill64_def)

lemma u8_parts64: "ucast (ucast w :: u8) OR push_bit 8 (ucast (ucast (drop_bit 8 w) :: u8)) OR push_bit 16 (ucast (ucast (drop_bit 16 w) :: u8))
    OR push_bit 24 (ucast (ucast (drop_bit 24 w) :: u8)) = (ucast (w :: u32) :: u64)"
proof (rule bit_word_eqI)
  fix n :: nat
  show "bit (ucast (ucast w :: u8) OR push_bit 8 (ucast (ucast (drop_bit 8 w) :: u8)) OR push_bit 16 (ucast (ucast (drop_bit 16 w) :: u8))
    OR push_bit 24 (ucast (ucast (drop_bit 24 w) :: u8)) :: u64) n = bit (ucast (w :: u32) :: u64) n"
    by (cases "24 \<le> n"; cases "16 \<le> n") (auto simp: bit_simps dest: bit_imp_le_length)
qed

lemma ucast_down_64 [simp]: "(ucast (ucast (q :: u32) :: u64) :: u32) = q"
  by (rule bit_word_eqI) (auto simp: bit_simps dest: bit_imp_le_length)

lemma ucast_parts [simp]:
  "(ucast (ucast (db :: u32) :: u64) :: u8) = ucast db" "(ucast (drop_bit k (ucast (db :: u32) :: u64)) :: u8) = ucast (drop_bit k db)"
  by (rule bit_word_eqI, auto simp: bit_simps dest: bit_imp_le_length)+

lemma identify_slot_mem:
  "mem64 (identify_slot cs db s) = (fill64 cs 256 0 (mem64 s))
     (cs + 128 := ucast db, cs + 129 := ucast (drop_bit 8 db), cs + 130 := ucast (drop_bit 16 db), cs + 131 := ucast (drop_bit 24 db),
      cs + 140 := 511, cs + 141 := 1, cs + 142 := 0, cs + 143 := 0, cs := 0x27, cs + 1 := 0x80, cs + 2 := 0xec, cs + 7 := 0x40, cs + 12 := 1)"
  by (simp add: identify_slot_def cset_def memset64_def slot_stores slot_bits ata_consts)

lemma identify_header_mem:
  "mem64 (identify_header bd ch cs s) = (let ctba = kv2p bd cs in (fill64 ch 32 0 (mem64 s))
     (ch + 1 := 4, ch + 2 := 1, ch + 3 := 0, ch := 0x85,
      ch + 8 := ucast ctba, ch + 9 := ucast (drop_bit 8 ctba), ch + 10 := ucast (drop_bit 16 ctba), ch + 11 := ucast (drop_bit 24 ctba),
      ch + 12 := 0, ch + 13 := 0, ch + 14 := 0, ch + 15 := 0))"
proof -
  have "c_addr ahci_cmdslot [Fld ''ct''] cs = cs" by (simp add: c_addr_def)
  then show ?thesis
    by (simp add: identify_header_def cset_def memset64_def header_stores Let_def fun_upd_twist fun_upd_upd)
qed

lemma identify_frame [simp]:
  "con (identify_slot cs db s) = con s" "pio (identify_slot cs db s) = pio s" "ahci_current_rambase (identify_slot cs db s) = ahci_current_rambase s"
  "con (identify_header bd ch cs s) = con s" "pio (identify_header bd ch cs s) = pio s"
  "ahci_current_rambase (identify_header bd ch cs s) = ahci_current_rambase s"
  by (simp_all add: identify_slot_def identify_header_def cset_def memset64_def Let_def)

lemma unat_ucast_64 [simp]: "unat (ucast (a :: u32) :: u64) = unat a"
  by (simp add: unsigned_ucast_eq take_bit_nat_eq_self_iff order.strict_trans2 [OF u32_bound])

lemma ucast_plus_64: "unat a + unat b < 4294967296 \<Longrightarrow> (ucast (a + b :: u32) :: u64) = ucast a + ucast b"
  by (simp add: word_unat_eq_iff unat_word_ariths)

lemma identify_command:
  assumes bd: "board_ok bd" and clb: "AHCI_CLB_OFFSET \<le> clb" "ucast clb < MAXLOWERPHY bd"
  defines "cs \<equiv> phys (clb - AHCI_CLB_OFFSET)"
  shows "ata_command (fill64 (phys (clb - AHCI_CLB_OFFSET + AHCI_DATA_OFFSET)) 512 0
      (mem64 (identify_header bd (phys clb) cs (identify_slot cs db s)))) clb = Some (ATA_IDENTIFY_DEVICE, db, 512)"
proof -
  define q where "q = clb - AHCI_CLB_OFFSET"
  have q: "clb = q + AHCI_CLB_OFFSET" "unat q + 0x6000 = unat clb"
    using clb(1) unat_sub [of AHCI_CLB_OFFSET clb] word_le_nat_alt [of AHCI_CLB_OFFSET clb] by (simp_all add: q_def ata_consts)
  have low: "unat clb < 0x20000000" "unat q < 0x20000000"
    using bd clb(2) q(2) by (auto simp: board_ok_def word_less_nat_alt word_le_nat_alt)
  have ch: "phys clb = cs + 0x6000" and dat: "phys (q + AHCI_DATA_OFFSET) = cs + 0x2000"
    unfolding cs_def phys_def q(1) using low q(2) by (simp_all add: ata_consts ucast_plus_64)
  have "unat (ucast q :: u64) + unat KSEG0 < 18446744073709551616" using low by (simp add: KSEG0_def)
  then have "unat cs = unat q + 18446744071562067968" by (simp add: cs_def phys_def q_def [symmetric] unat_word_ariths KSEG0_def)
  then have kv: "kv2p bd cs = ucast q"
    using bd low by (simp add: kv2p_def board_ok_def word_le_nat_alt KSEG0_def cs_def phys_def q_def)
  have bk: "phys q = cs" by (simp add: cs_def q_def)
  define M where "M = fill64 (phys (clb - AHCI_CLB_OFFSET + AHCI_DATA_OFFSET)) 512 0
      (mem64 (identify_header bd (phys clb) cs (identify_slot cs db s)))"
  have M: "M = fill64 (cs + 0x2000) 512 0 ((fill64 (cs + 0x6000) 32 0 ((fill64 cs 256 0 (mem64 s))
     (cs + 128 := ucast db, cs + 129 := ucast (drop_bit 8 db), cs + 130 := ucast (drop_bit 16 db), cs + 131 := ucast (drop_bit 24 db),
      cs + 140 := 511, cs + 141 := 1, cs + 142 := 0, cs + 143 := 0, cs := 0x27, cs + 1 := 0x80, cs + 2 := 0xec, cs + 7 := 0x40, cs + 12 := 1)))
     (cs + 0x6001 := 4, cs + 0x6002 := 1, cs + 0x6003 := 0, cs + 0x6000 := 0x85,
      cs + 0x6008 := ucast q, cs + 0x6009 := ucast (drop_bit 8 q), cs + 0x600a := ucast (drop_bit 16 q), cs + 0x600b := ucast (drop_bit 24 q),
      cs + 0x600c := 0, cs + 0x600d := 0, cs + 0x600e := 0, cs + 0x600f := 0))"
    unfolding M_def q_def [symmetric] dat ch identify_header_mem identify_slot_mem kv Let_def by (simp add: add.assoc)
  have hdr: "M (cs + 0x6000) = 0x85" "M (cs + 0x6002) = 1" "M (cs + 0x6003) = 0" "M (cs + 0x6008) = ucast q"
    "M (cs + 0x6009) = ucast (drop_bit 8 q)" "M (cs + 0x600a) = ucast (drop_bit 16 q)" "M (cs + 0x600b) = ucast (drop_bit 24 q)"
    "M (cs + 0x600c) = 0" "M (cs + 0x600d) = 0" "M (cs + 0x600e) = 0" "M (cs + 0x600f) = 0"
    unfolding M by (simp_all del: fun_upd_apply add: fun_upd_other fun_upd_same)
  have slot: "M cs = 0x27" "M (cs + 1) = 0x80" "M (cs + 2) = 0xec"
    "M (cs + 128) = ucast db" "M (cs + 129) = ucast (drop_bit 8 db)" "M (cs + 130) = ucast (drop_bit 16 db)" "M (cs + 131) = ucast (drop_bit 24 db)"
    "M (cs + 132) = 0" "M (cs + 133) = 0" "M (cs + 134) = 0" "M (cs + 135) = 0"
    "M (cs + 140) = 511" "M (cs + 141) = 1" "M (cs + 142) = 0" "M (cs + 143) = 0"
    unfolding M by (simp_all del: fun_upd_apply add: fun_upd_other fun_upd_same)
  have h: "c_load ahci_cmdhdr [Fld ''cfl''] M (phys clb) = 5" "c_load ahci_cmdhdr [Fld ''atapi''] M (phys clb) = 0"
    "c_load ahci_cmdhdr [Fld ''write''] M (phys clb) = 0" "c_load ahci_cmdhdr [Fld ''prdtl''] M (phys clb) = 1"
    "c_load ahci_cmdhdr [Fld ''ctba''] M (phys clb) = ucast q" "c_load ahci_cmdhdr [Fld ''ctbau''] M (phys clb) = 0"
    unfolding ch by (simp_all add: c_load_def hdr ldn_2 ldn_4 mask_lits add.assoc u8_parts64)
  have t: "c_load ahci_cmdslot [Fld ''ct'', Fld ''cfis'', Fld ''type''] M cs = 0x27"
    "c_load ahci_cmdslot [Fld ''ct'', Fld ''cfis'', Fld ''event''] M cs = 1"
    "c_load ahci_cmdslot [Fld ''ct'', Fld ''cfis'', Fld ''cmd''] M cs = 0xec"
    "c_load ahci_cmdslot [Fld ''prd'', Idx 0, Fld ''dba''] M cs = ucast db"
    "c_load ahci_cmdslot [Fld ''prd'', Idx 0, Fld ''dbau''] M cs = 0"
    "c_load ahci_cmdslot [Fld ''prd'', Idx 0, Fld ''dbc''] M cs = 511"
    by (simp_all add: c_load_def slot ldn_4 mask_lits add.assoc u8_parts64)
  have "ata_command M clb = Some (ATA_IDENTIFY_DEVICE, db, 512)"
    using h t by (simp add: ata_command_def Let_def bk ata_consts)
  then show ?thesis by (simp only: M_def)
qed

section \<open>The controller\<close>

text \<open>What the trace says: the value last stored in a register, and whether the command of slot 0
  is issued and not yet seen complete.\<close>

definition stored :: "u64 \<Rightarrow> pio_event list \<Rightarrow> u32" where
  "stored a t = fold (\<lambda>e v. case e of Store b w \<Rightarrow> if b = a then w else v | Load b w \<Rightarrow> v) t 0"

definition issued :: "u64 \<Rightarrow> pio_event list \<Rightarrow> bool" where
  "issued port t = fold (\<lambda>e b. case e of
      Store a v \<Rightarrow> if a = port + 56 \<and> v AND 1 \<noteq> 0 then True else b
    | Load a v \<Rightarrow> if a = port + 56 \<and> v AND 1 = 0 then False else b) t False"

lemma trace_snoc [simp]:
  "stored a (t @ [Load b w]) = stored a t" "stored a (t @ [Store b w]) = (if b = a then w else stored a t)"
  "issued port (t @ [Load b w]) = (if b = port + 56 \<and> w AND 1 = 0 then False else issued port t)"
  "issued port (t @ [Store b w]) = (if b = port + 56 \<and> w AND 1 \<noteq> 0 then True else issued port t)"
  by (simp_all add: stored_def issued_def)

lemma trace_stores [simp]:
  "stored a (t @ [Store b v, Store c w]) = (if c = a then w else if b = a then v else stored a t)"
  "issued port (t @ [Store b v, Store c w]) \<longleftrightarrow>
     issued port t \<or> b = port + 56 \<and> v AND 1 \<noteq> 0 \<or> c = port + 56 \<and> w AND 1 \<noteq> 0"
  by (auto simp: stored_def issued_def)

text \<open>The AHCI rules for running a port: both buffers are set, with their upper halves, and the
  receiving of frames is enabled when the start bit is set; the buffers and the command register
  are then left alone while commands run. \<open>engine\<close> is the command list and the receive buffer a
  started port works with, \<open>requested\<close> those of a command that was issued to a started port and is
  not yet seen complete. The helpers take the trace with the last access first.\<close>

definition buffer_regs :: "u64 \<Rightarrow> u64 list" where
  "buffer_regs port = [port, port + 4, port + 8, port + 12]"

fun engine_of :: "u64 \<Rightarrow> pio_event list \<Rightarrow> (u32 \<times> u32) option" where
  "engine_of port [] = None"
| "engine_of port (Load a v # t) = engine_of port t"
| "engine_of port (Store a v # t) =
     (if a = port + 24
      then if v AND PORT_CMD_START \<noteq> 0 \<and> v AND PORT_CMD_FRE \<noteq> 0
             \<and> stored (port + 4) (rev t) = 0 \<and> stored (port + 12) (rev t) = 0
           then Some (stored port (rev t), stored (port + 8) (rev t)) else None
      else if a \<in> set (buffer_regs port) then None else engine_of port t)"

fun request_of :: "u64 \<Rightarrow> pio_event list \<Rightarrow> (u32 \<times> u32) option" where
  "request_of port [] = None"
| "request_of port (Load a v # t) = (if a = port + 56 \<and> v AND 1 = 0 then None else request_of port t)"
| "request_of port (Store a v # t) =
     (if a = port + 56 \<and> v AND 1 \<noteq> 0 then engine_of port t
      else if a = port + 24 \<or> a \<in> set (buffer_regs port) then None else request_of port t)"

definition engine :: "u64 \<Rightarrow> pio_event list \<Rightarrow> (u32 \<times> u32) option" where
  "engine port t = engine_of port (rev t)"

definition requested :: "u64 \<Rightarrow> pio_event list \<Rightarrow> (u32 \<times> u32) option" where
  "requested port t = request_of port (rev t)"

lemma engine_snoc [simp]:
  "engine port [] = None" "engine port (t @ [Load a v]) = engine port t"
  "engine port (t @ [Store a v]) =
     (if a = port + 24
      then if v AND PORT_CMD_START \<noteq> 0 \<and> v AND PORT_CMD_FRE \<noteq> 0 \<and> stored (port + 4) t = 0 \<and> stored (port + 12) t = 0
           then Some (stored port t, stored (port + 8) t) else None
      else if a \<in> set (buffer_regs port) then None else engine port t)"
  by (simp_all add: engine_def)

lemma engine_update:
  "engine port (t @ [Load b w, Store (port + 24) v]) =
     (if v AND PORT_CMD_START \<noteq> 0 \<and> v AND PORT_CMD_FRE \<noteq> 0 \<and> stored (port + 4) t = 0 \<and> stored (port + 12) t = 0
      then Some (stored port t, stored (port + 8) t) else None)"
  using engine_snoc(3) [of port "t @ [Load b w]" "port + 24" v] by simp

lemma requested_snoc [simp]:
  "requested port [] = None" "requested port (t @ [Load a v]) = (if a = port + 56 \<and> v AND 1 = 0 then None else requested port t)"
  "requested port (t @ [Store a v]) =
     (if a = port + 56 \<and> v AND 1 \<noteq> 0 then engine port t
      else if a = port + 24 \<or> a \<in> set (buffer_regs port) then None else requested port t)"
  by (simp_all add: requested_def engine_def)

lemma requested_issued: "requested port t = Some cf \<Longrightarrow> issued port t"
proof (induction t rule: rev_induct)
  case (snoc e t)
  then show ?case by (cases e) (auto split: if_splits)
qed simp

definition reg_poll :: "ata_hardware \<Rightarrow> u64 \<Rightarrow> pio_event list \<Rightarrow> pio_event list" where
  "reg_poll hw a t = t @ [Load a (ata_read hw t a)]"

text \<open>One round of the wait for \<open>ahci_port_startable\<close> and of the wait for the command, as traces.\<close>

definition pre_start_poll :: "ata_hardware \<Rightarrow> u64 \<Rightarrow> pio_event list \<Rightarrow> pio_event list" where
  "pre_start_poll hw port t = reg_poll hw (port + 40) (reg_poll hw (port + 40) (reg_poll hw (port + 32) t))"

definition start_poll :: "ata_hardware \<Rightarrow> u64 \<Rightarrow> pio_event list \<Rightarrow> pio_event list" where
  "start_poll hw port t = reg_poll hw (port + 24) (pre_start_poll hw port t)"

definition done_poll :: "ata_hardware \<Rightarrow> u64 \<Rightarrow> pio_event list \<Rightarrow> pio_event list" where
  "done_poll hw port t = reg_poll hw (port + 56) (reg_poll hw (port + 16) t)"

text \<open>The answer to IDENTIFY DEVICE is at the address of the command; besides, the controller may
  write its receive buffer and the byte count of the command header.\<close>

definition answered :: "(nat \<Rightarrow> u8) \<Rightarrow> u32 \<Rightarrow> u32 \<Rightarrow> memory64 \<Rightarrow> memory64 \<Rightarrow> bool" where
  "answered ident clb fb m m' \<longleftrightarrow> (case ata_command m clb of
      Some (cmd, dba, n) \<Rightarrow> cmd = ATA_IDENTIFY_DEVICE \<and> n = 512 \<longrightarrow>
        (\<forall>i<512. m' (phys dba + of_nat i) = ident i)
        \<and> (\<forall>x. 512 \<le> unat (x - phys dba) \<and> 256 \<le> unat (x - phys fb) \<and> 4 \<le> unat (x - (phys clb + 4)) \<longrightarrow> m' x = m x)
    | None \<Rightarrow> True)"

text \<open>A controller with a disk. The buffer registers and the enabling bits of the command register
  read as written; the detection field is constant. While nothing is issued the memory is left
  alone and the status becomes ready, and the engine stops when it is told to. A command issued to
  a port that has been started by the rules is completed after finitely many looks at the issue
  register, and answered from the command list the port was started with. Nothing is promised
  for a command issued to a port that was not started.\<close>

definition ata_disk :: "ata_hardware \<Rightarrow> u64 \<Rightarrow> u32 \<Rightarrow> (nat \<Rightarrow> u8) \<Rightarrow> bool" where
  "ata_disk hw port det ident \<longleftrightarrow> (\<forall>t.
     ata_read hw t port = stored port t \<and> ata_read hw t (port + 8) = stored (port + 8) t
     \<and> ata_read hw t (port + 24) AND PORT_CMD_START = stored (port + 24) t AND PORT_CMD_START
     \<and> ata_read hw t (port + 24) AND PORT_CMD_FRE = stored (port + 24) t AND PORT_CMD_FRE
     \<and> ata_read hw t (port + 40) AND PORT_SSTAT_DET_MASK = det
     \<and> (\<not> issued port t \<longrightarrow>
          (\<forall>e m. ata_dma hw (t @ [e]) m = m)
          \<and> (det = PORT_SSTAT_DET_CONNECT \<longrightarrow> (\<exists>k. ata_read hw ((reg_poll hw (port + 32) ^^ k) t) (port + 32) AND (FIS_STAT_BUSY OR FIS_STAT_DRQ OR FIS_STAT_ERR) = 0))
          \<and> (stored (port + 24) t AND (PORT_CMD_FRE OR PORT_CMD_START) = 0 \<longrightarrow>
               (\<exists>k. ata_read hw ((reg_poll hw (port + 24) ^^ k) t) (port + 24) AND (PORT_CMD_CR OR PORT_CMD_FR) = 0))
          \<and> (det = PORT_SSTAT_DET_CONNECT \<longrightarrow> stored (port + 24) t AND PORT_CMD_START = 0 \<longrightarrow>
               (\<exists>k. let t' = (start_poll hw port ^^ k) t in
                  ata_read hw t' (port + 32) AND (FIS_STAT_BUSY OR FIS_STAT_DRQ) = 0
                  \<and> ata_read hw (pre_start_poll hw port t') (port + 24) AND PORT_CMD_CR = 0)))
     \<and> (\<forall>clb fb. requested port t = Some (clb, fb) \<longrightarrow>
          (\<exists>k. ata_read hw (reg_poll hw (port + 16) ((done_poll hw port ^^ k) t)) (port + 56) AND 1 = 0)
          \<and> (\<forall>a v m. \<not> (a = port + 56 \<and> v AND 1 = 0) \<longrightarrow> ata_dma hw (t @ [Load a v]) m = m)
          \<and> (\<forall>v m. v AND 1 = 0 \<longrightarrow>
               answered ident clb fb m (ata_dma hw (t @ [Load (port + 56) v]) m))))"

section \<open>Waiting\<close>

lemma spin_until_inv:
  assumes acc: "\<And>s. Inv s \<Longrightarrow> fst (acc s) = g (h s) \<and> h (snd (acc s)) = f (h s) \<and> (ok (fst (acc s)) \<or> Inv (snd (acc s)))"
    and "Inv s" and "ok (g ((f ^^ k) (h s)))"
  shows "\<exists>v s0 s'. spin_until acc ok s = Some (v, s') \<and> ok v \<and> Inv s0 \<and> acc s0 = (v, s')"
  using assms(2,3)
proof (induction k arbitrary: s)
  case 0
  then have "ok (fst (acc s))" using acc [of s] by simp
  then show ?case using 0 spin_until_hit [of acc s "fst (acc s)" "snd (acc s)" ok] by (metis prod.collapse)
next
  case (Suc k)
  show ?case
  proof (cases "ok (fst (acc s))")
    case True
    then show ?thesis using Suc.prems(1) spin_until_hit [of acc s "fst (acc s)" "snd (acc s)" ok] by (metis prod.collapse)
  next
    case False
    then have "Inv (snd (acc s))" "ok (g ((f ^^ k) (h (snd (acc s)))))"
      using acc [OF Suc.prems(1)] Suc.prems(2) by (auto simp: funpow_swap1)
    from Suc.IH [OF this] obtain v s0 s' where r: "spin_until acc ok (snd (acc s)) = Some (v, s')" "ok v" "Inv s0" "acc s0 = (v, s')" by blast
    have "spin_until acc ok s = spin_until acc ok (snd (acc s))"
      using False by (subst spin_until.simps) (simp add: case_prod_beta)
    then show ?thesis using r by auto
  qed
qed

text \<open>Between commands the controller stores nothing, and loads change nothing but the trace.\<close>

definition waited :: "u64 \<Rightarrow> 'a ata_state_scheme \<Rightarrow> 'a ata_state_scheme \<Rightarrow> bool" where
  "waited port s0 s \<longleftrightarrow> s = s0\<lparr>pio := pio s\<rparr> \<and> \<not> issued port (pio s) \<and> (\<forall>a. stored a (pio s) = stored a (pio s0))
     \<and> engine port (pio s) = engine port (pio s0)"

lemma waited_refl: "\<not> issued port (pio s) \<Longrightarrow> waited port s s"
  by (simp add: waited_def)

lemma waited_trans: "waited port s0 s1 \<Longrightarrow> waited port s1 s2 \<Longrightarrow> waited port s0 s2"
proof -
  assume a: "waited port s0 s1" "waited port s1 s2"
  then have "s2 = s0\<lparr>pio := pio s1\<rparr>\<lparr>pio := pio s2\<rparr>" by (metis waited_def)
  then show ?thesis using a by (simp add: waited_def)
qed

lemma hload_waited:
  assumes "ata_disk hw port det ident" and "waited port s0 s"
  shows "fst (hload hw t r base s) = ata_read hw (pio s) (c_addr t r base)"
    "pio (snd (hload hw t r base s)) = reg_poll hw (c_addr t r base) (pio s)"
    "waited port s0 (snd (hload hw t r base s))"
proof -
  have "ata_dma hw (pio s @ [e]) (mem64 s) = mem64 s" for e
    using assms by (auto simp: ata_disk_def waited_def)
  then have "snd (hload hw t r base s) = s\<lparr>pio := reg_poll hw (c_addr t r base) (pio s)\<rparr>"
    by (simp add: hload_def Let_def reg_poll_def)
  moreover have "s = s0\<lparr>pio := pio s\<rparr>" using assms(2) by (simp add: waited_def)
  then have "s\<lparr>pio := x\<rparr> = s0\<lparr>pio := x\<rparr>" for x by (metis ata_state.surjective ata_state.update_convs(2) ata_state.select_convs)
  ultimately show "fst (hload hw t r base s) = ata_read hw (pio s) (c_addr t r base)"
    "pio (snd (hload hw t r base s)) = reg_poll hw (c_addr t r base) (pio s)"
    "waited port s0 (snd (hload hw t r base s))"
    using assms(2) by (simp_all add: hload_def Let_def waited_def reg_poll_def)
qed

lemma hload_eq:
  assumes "ata_disk hw port det ident" and "waited port s0 s"
  obtains s' where "hload hw t r base s = (ata_read hw (pio s) (c_addr t r base), s')"
    "pio s' = reg_poll hw (c_addr t r base) (pio s)" "waited port s0 s'"
  using hload_waited [OF assms] by (metis prod.collapse)

lemma stored_poll [simp]: "stored a (reg_poll hw b t) = stored a t" "engine port (reg_poll hw b t) = engine port t"
  by (simp_all add: reg_poll_def)

lemma status_masks: "drop_bit PORT_TFD_STATUS_SHIFT (v AND PORT_TFD_STATUS_MASK) AND (FIS_STAT_BUSY OR FIS_STAT_DRQ OR FIS_STAT_ERR)
    = v AND (FIS_STAT_BUSY OR FIS_STAT_DRQ OR FIS_STAT_ERR)"
  "drop_bit PORT_TFD_STATUS_SHIFT (v AND PORT_TFD_STATUS_MASK) AND FIS_STAT_BUSY = v AND FIS_STAT_BUSY"
  "drop_bit PORT_TFD_STATUS_SHIFT (v AND PORT_TFD_STATUS_MASK) AND FIS_STAT_DRQ = v AND FIS_STAT_DRQ"
  by (simp_all add: ata_consts and.assoc)

lemma wait_port_ok:
  assumes hw: "ata_disk hw port PORT_SSTAT_DET_CONNECT ident" and w: "waited port s0 s"
  shows "\<exists>s'. ahci_wait_port hw port s = Some s' \<and> waited port s0 s'"
proof -
  let ?rdy = "\<lambda>st :: u32. st AND (FIS_STAT_BUSY OR FIS_STAT_DRQ OR FIS_STAT_ERR) = 0"
  let ?g = "\<lambda>t. drop_bit PORT_TFD_STATUS_SHIFT (ata_read hw t (port + 32) AND PORT_TFD_STATUS_MASK)"
  have acc: "fst (ahci_port_tfd_status hw port s) = ?g (pio s) \<and> pio (snd (ahci_port_tfd_status hw port s)) = reg_poll hw (port + 32) (pio s)
      \<and> waited port s0 (snd (ahci_port_tfd_status hw port s))" if "waited port s0 s" for s
    using hload_waited [OF hw that, of ahci_hba_port "[Fld ''tfd'']" port] by (simp add: ahci_port_tfd_status_def case_prod_beta)
  have "\<not> issued port (pio s)" using w by (simp add: waited_def)
  then obtain k where "ata_read hw ((reg_poll hw (port + 32) ^^ k) (pio s)) (port + 32) AND (FIS_STAT_BUSY OR FIS_STAT_DRQ OR FIS_STAT_ERR) = 0"
    using hw unfolding ata_disk_def by blast
  then have "?rdy (?g ((reg_poll hw (port + 32) ^^ k) (pio s)))" by (simp only: status_masks)
  from spin_until_inv [where Inv = "waited port s0" and acc = "ahci_port_tfd_status hw port" and g = ?g and h = pio
      and f = "reg_poll hw (port + 32)" and ok = ?rdy, OF _ w this] acc
  obtain v s1 s' where "spin_until (ahci_port_tfd_status hw port) ?rdy s = Some (v, s')" "waited port s0 s1" "ahci_port_tfd_status hw port s1 = (v, s')"
    by blast
  then show ?thesis using acc [of s1] by (simp add: ahci_wait_port_def)
qed

lemma startable_ok:
  assumes hw: "ata_disk hw port PORT_SSTAT_DET_CONNECT ident" and w: "waited port s0 s"
  shows "fst (ahci_port_startable hw port s) \<longleftrightarrow> ata_read hw (pio s) (port + 32) AND (FIS_STAT_BUSY OR FIS_STAT_DRQ) = 0
      \<and> ata_read hw (pre_start_poll hw port (pio s)) (port + 24) AND PORT_CMD_CR = 0"
    and "pio (snd (ahci_port_startable hw port s)) = start_poll hw port (pio s)"
    and "waited port s0 (snd (ahci_port_startable hw port s))"
proof -
  from hload_eq [OF hw w, of ahci_hba_port "[Fld ''tfd'']" port] obtain s1 where
    s1: "port_load hw ''tfd'' port s = (ata_read hw (pio s) (port + 32), s1)" "pio s1 = reg_poll hw (port + 32) (pio s)" "waited port s0 s1"
    by (auto simp only: port_regs)
  from hload_eq [OF hw s1(3), of ahci_hba_port "[Fld ''sstatus'']" port] obtain s2 where
    s2: "port_load hw ''sstatus'' port s1 = (ata_read hw (pio s1) (port + 40), s2)" "pio s2 = reg_poll hw (port + 40) (pio s1)" "waited port s0 s2"
    by (auto simp only: port_regs)
  from hload_eq [OF hw s2(3), of ahci_hba_port "[Fld ''sstatus'']" port] obtain s3 where
    s3: "port_load hw ''sstatus'' port s2 = (ata_read hw (pio s2) (port + 40), s3)" "pio s3 = reg_poll hw (port + 40) (pio s2)" "waited port s0 s3"
    by (auto simp only: port_regs)
  from hload_eq [OF hw s3(3), of ahci_hba_port "[Fld ''cmd'']" port] obtain s4 where
    s4: "port_load hw ''cmd'' port s3 = (ata_read hw (pio s3) (port + 24), s4)" "pio s4 = reg_poll hw (port + 24) (pio s3)" "waited port s0 s4"
    by (auto simp only: port_regs)
  have det: "ata_read hw (pio s1) (port + 40) AND PORT_SSTAT_DET_MASK = PORT_SSTAT_DET_CONNECT" using hw unfolding ata_disk_def by blast
  have pre: "pio s3 = pre_start_poll hw port (pio s)" by (simp add: pre_start_poll_def s1(2) s2(2) s3(2))
  have or: "v AND (FIS_STAT_BUSY OR FIS_STAT_DRQ) = 0 \<longleftrightarrow> v AND FIS_STAT_BUSY = 0 \<and> v AND FIS_STAT_DRQ = 0" for v
    unfolding bit.conj_disj_distrib by (metis or_eq_0_iff)
  show "fst (ahci_port_startable hw port s) \<longleftrightarrow> ata_read hw (pio s) (port + 32) AND (FIS_STAT_BUSY OR FIS_STAT_DRQ) = 0
      \<and> ata_read hw (pre_start_poll hw port (pio s)) (port + 24) AND PORT_CMD_CR = 0"
    unfolding ahci_port_startable_def ahci_port_tfd_status_def or
    by (simp add: s1(1) s2(1) s3(1) s4(1) det status_masks Let_def pre conj_comms del: drop_bit_and)
  show "pio (snd (ahci_port_startable hw port s)) = start_poll hw port (pio s)" "waited port s0 (snd (ahci_port_startable hw port s))"
    unfolding ahci_port_startable_def ahci_port_tfd_status_def
    by (simp_all add: s1(1) s2(1) s3(1) s4 Let_def pre start_poll_def)
qed

lemma pio_only_trans: "s1 = s0\<lparr>pio := pio s1\<rparr> \<Longrightarrow> s2 = s1\<lparr>pio := pio s2\<rparr> \<Longrightarrow> s2 = s0\<lparr>pio := pio (s2 :: 'a ata_state_scheme)\<rparr>"
  by (metis ata_state.surjective ata_state.update_convs(2) ata_state.select_convs)

lemma waited_pio: "waited port s0 s \<Longrightarrow> s = s0\<lparr>pio := pio s\<rparr>" "waited port s0 s \<Longrightarrow> \<not> issued port (pio s)"
  "waited port s0 s \<Longrightarrow> stored a (pio s) = stored a (pio s0)" "waited port s0 s \<Longrightarrow> engine port (pio s) = engine port (pio s0)"
  by (simp_all add: waited_def)

text \<open>Storing in a register other than the issue register; \<open>reg |= v\<close> on one.\<close>

lemma hstore_idle:
  assumes "\<not> issued port (pio s)" and "c_addr t r base \<noteq> port + 56"
  shows "hstore t r v base s = s\<lparr>pio := pio (hstore t r v base s)\<rparr>" "\<not> issued port (pio (hstore t r v base s))"
    "stored a (pio (hstore t r v base s)) = (if a = c_addr t r base then v else stored a (pio s))"
  using assms by (auto simp: hstore_def)

lemma hupdate_idle:
  assumes hw: "ata_disk hw port det ident" and i: "\<not> issued port (pio s)" and a: "c_addr t r base = ra" "ra \<noteq> port + 56"
  shows "\<exists>s'. hupdate hw t r f base s = s' \<and> s' = s\<lparr>pio := pio s'\<rparr> \<and> \<not> issued port (pio s')
    \<and> pio s' = pio s @ [Load ra (ata_read hw (pio s) ra), Store ra (f (ata_read hw (pio s) ra))]
    \<and> (\<forall>b. stored b (pio s') = (if b = ra then f (ata_read hw (pio s) ra) else stored b (pio s)))"
proof -
  from hload_eq [OF hw waited_refl [OF i], of t r base] obtain s1 where
    s1: "hload hw t r base s = (ata_read hw (pio s) ra, s1)" "waited port s s1" "pio s1 = reg_poll hw ra (pio s)" unfolding a(1) by blast
  let ?s' = "hstore t r (f (ata_read hw (pio s) ra)) base s1"
  note w = waited_pio [OF s1(2)]
  note st = hstore_idle [OF w(2) a(2) [folded a(1)], where v = "f (ata_read hw (pio s) ra)"]
  have "hupdate hw t r f base s = ?s'" by (simp add: hupdate_def s1(1))
  moreover have "?s' = s\<lparr>pio := pio ?s'\<rparr>" by (rule pio_only_trans [OF w(1) st(1)])
  moreover have "stored b (pio ?s') = (if b = ra then f (ata_read hw (pio s) ra) else stored b (pio s))" for b
    unfolding st(3) a(1) by (simp add: w(3))
  moreover have "pio ?s' = pio s @ [Load ra (ata_read hw (pio s) ra), Store ra (f (ata_read hw (pio s) ra))]"
    by (simp add: hstore_def s1(3) a(1) reg_poll_def)
  ultimately show ?thesis using st(2) by blast
qed

lemma port_neq: "(port :: u64) + 24 \<noteq> port + 56" "port + 44 \<noteq> port + 56"
  by simp_all

lemma port_start_ok:
  assumes hw: "ata_disk hw port PORT_SSTAT_DET_CONNECT ident" and i: "\<not> issued port (pio s)" and c: "stored (port + 24) (pio s) AND PORT_CMD_START = 0"
    and upper: "stored (port + 4) (pio s) = 0" "stored (port + 12) (pio s) = 0"
  shows "\<exists>s'. ahci_port_start hw port s = Some s' \<and> s' = s\<lparr>pio := pio s'\<rparr> \<and> \<not> issued port (pio s')
     \<and> (\<forall>a. a \<noteq> port + 24 \<longrightarrow> stored a (pio s') = stored a (pio s))
     \<and> engine port (pio s') = Some (stored port (pio s), stored (port + 8) (pio s))"
proof -
  let ?g = "\<lambda>t. ata_read hw t (port + 32) AND (FIS_STAT_BUSY OR FIS_STAT_DRQ) = 0
      \<and> ata_read hw (pre_start_poll hw port t) (port + 24) AND PORT_CMD_CR = 0"
  obtain k where "?g ((start_poll hw port ^^ k) (pio s))"
    using hw i c unfolding ata_disk_def Let_def by blast
  from spin_until_inv [where Inv = "waited port s" and acc = "ahci_port_startable hw port" and g = ?g and h = pio
      and f = "start_poll hw port" and ok = "\<lambda>b. b", OF _ waited_refl [OF i] this] startable_ok [OF hw]
  obtain v s0 s1 where "spin_until (ahci_port_startable hw port) (\<lambda>b. b) s = Some (v, s1)" "waited port s s0" "ahci_port_startable hw port s0 = (v, s1)"
    by blast
  then have s1: "spin_until (ahci_port_startable hw port) (\<lambda>b. b) s = Some (v, s1)" "waited port s s1"
    using startable_ok(3) [OF hw, of s s0] by simp_all
  note w = waited_pio [OF s1(2)]
  from hupdate_idle [OF hw w(2) port_regs(6) port_neq(1), of "\<lambda>v. v OR PORT_CMD_FRE"] obtain s2 where
    s2: "port_update hw ''cmd'' (\<lambda>v. v OR PORT_CMD_FRE) port s1 = s2" "s2 = s1\<lparr>pio := pio s2\<rparr>" "\<not> issued port (pio s2)"
      "\<And>a. stored a (pio s2) = (if a = port + 24 then ata_read hw (pio s1) (port + 24) OR PORT_CMD_FRE else stored a (pio s1))"
    by blast
  from hupdate_idle [OF hw s2(3) port_regs(6) port_neq(1), of "\<lambda>v. v OR PORT_CMD_START"] obtain s3 where
    s3: "port_update hw ''cmd'' (\<lambda>v. v OR PORT_CMD_START) port s2 = s3" "s3 = s2\<lparr>pio := pio s3\<rparr>" "\<not> issued port (pio s3)"
      "pio s3 = pio s2 @ [Load (port + 24) (ata_read hw (pio s2) (port + 24)), Store (port + 24) (ata_read hw (pio s2) (port + 24) OR PORT_CMD_START)]"
      "\<And>a. stored a (pio s3) = (if a = port + 24 then ata_read hw (pio s2) (port + 24) OR PORT_CMD_START else stored a (pio s2))"
    by blast
  have "s3 = s\<lparr>pio := pio s3\<rparr>" by (rule pio_only_trans [OF w(1) pio_only_trans [OF s2(2) s3(2)]])
  moreover have "ahci_port_start hw port s = Some s3" by (simp add: ahci_port_start_def s1(1) s2(1) s3(1))
  moreover have "engine port (pio s3) = Some (stored port (pio s), stored (port + 8) (pio s))"
  proof -
    have "ata_read hw (pio s2) (port + 24) AND PORT_CMD_FRE = stored (port + 24) (pio s2) AND PORT_CMD_FRE"
      using hw unfolding ata_disk_def by blast
    then have "ata_read hw (pio s2) (port + 24) AND PORT_CMD_FRE \<noteq> 0"
      by (simp add: s2(4) ata_consts bit.conj_disj_distrib2)
    then have "(ata_read hw (pio s2) (port + 24) OR PORT_CMD_START) AND PORT_CMD_FRE \<noteq> 0"
      "(ata_read hw (pio s2) (port + 24) OR PORT_CMD_START) AND PORT_CMD_START \<noteq> 0"
      by (simp_all add: ata_consts bit.conj_disj_distrib2)
    then show ?thesis using upper by (simp add: s3(4) engine_update s2(4) w(3))
  qed
  ultimately show ?thesis using s2(4) s3(3,5) w(3) by auto
qed

section \<open>Identifying a device\<close>

text \<open>The text of a \<open>printf\<close>, and of the 256 words of the answer.\<close>

definition printed :: "string \<Rightarrow> va list \<Rightarrow> string" where
  "printed fmt ap = (case vsnprintf BUFSIZ fmt ap of Returns r buf \<Rightarrow> takeWhile (\<lambda>ch. ch \<noteq> NUL) buf | Undefined \<Rightarrow> [])"

definition ident_text :: "(nat \<Rightarrow> u8) \<Rightarrow> string" where
  "ident_text ident = concat (map (\<lambda>i. printed ''%04x%s''
     [VWord (ucast (ident (2 * i)) OR push_bit 8 (ucast (ident (2 * i + 1)))),
      VStr (Some (if (i + 1) mod 8 \<noteq> 0 then '' '' else crlf))]) [0 ..< 256])"

lemma uart_printed: "uart_spin_printf fmt ap s = kputs (printed fmt ap) s"
  by (simp add: uart_spin_printf_def uart_spin_vprintf_def uart_spin_puts_def printed_def kputs_def split: vsn_result.split)

lemma kputs_fields [simp]:
  "mem64 (kputs str s) = mem64 s" "pio (kputs str s) = pio s" "ahci_current_rambase (kputs str s) = ahci_current_rambase s"
  "con (kputs str s) = con s @ str"
  by (simp_all add: kputs_def)

lemma identify_print_ok:
  fixes s :: "'a ata_state_scheme"
  assumes "\<And>i. i < 512 \<Longrightarrow> mem64 s (data + of_nat i) = ident i"
  shows "identify_print data s = kputs (ident_text ident) s"
proof -
  have word: "(ucast (ldn (mem64 s) (data + 2 * of_nat i) 2) :: u32) = ucast (ident (2 * i)) OR push_bit 8 (ucast (ident (2 * i + 1)))"
    if "i < 256" for i
  proof -
    have "mem64 s (data + 2 * of_nat i) = ident (2 * i)" "mem64 s (data + 2 * of_nat i + 1) = ident (2 * i + 1)"
      using assms [of "2 * i"] assms [of "2 * i + 1"] that by (simp_all add: ac_simps)
    then show ?thesis by (simp add: ldn_2) (rule bit_word_eqI, auto simp: bit_simps)
  qed
  have fold: "fold (\<lambda>i s. uart_spin_printf ''%04x%s'' [VWord (ucast (ldn (mem64 s) (data + 2 * of_nat i) 2)),
        VStr (Some (if (i + 1) mod 8 \<noteq> 0 then '' '' else crlf))] s) is s'
      = kputs (concat (map (\<lambda>i. printed ''%04x%s'' [VWord (ucast (ident (2 * i)) OR push_bit 8 (ucast (ident (2 * i + 1)))),
      VStr (Some (if (i + 1) mod 8 \<noteq> 0 then '' '' else crlf))]) is)) s'"
    if "\<forall>i\<in>set is. i < 256" "mem64 s' = mem64 s" for "is" and s' :: "'a ata_state_scheme"
    using that
  proof (induction "is" arbitrary: s')
    case (Cons i "is")
    then show ?case by (simp add: uart_printed word) (simp add: kputs_def)
  qed (simp add: kputs_def)
  show ?thesis unfolding identify_print_def ident_text_def by (rule fold) auto
qed

lemma p2kv_phys: "ucast p < MAXLOWERPHY bd \<Longrightarrow> p2kv bd (ucast p) = phys p"
  by (simp add: p2kv_def phys_def)

lemma phys_nz: "board_ok bd \<Longrightarrow> ucast p < MAXLOWERPHY bd \<Longrightarrow> phys p \<noteq> 0"
proof -
  assume "board_ok bd" "ucast p < MAXLOWERPHY bd"
  then have "unat p < 0x20000000" by (auto simp: board_ok_def word_less_nat_alt word_le_nat_alt)
  then have "unat (phys p) = unat p + 18446744071562067968" by (simp add: phys_def KSEG0_def unat_word_ariths)
  then show ?thesis by auto
qed

lemma clb_places:
  assumes "board_ok bd" and "AHCI_CLB_OFFSET \<le> clb" and "ucast clb < MAXLOWERPHY bd"
  shows "ucast (clb - AHCI_CLB_OFFSET) < MAXLOWERPHY bd" "ucast (clb - AHCI_CLB_OFFSET + AHCI_DATA_OFFSET) < MAXLOWERPHY bd"
proof -
  define q where "q = clb - AHCI_CLB_OFFSET"
  have q: "unat q + 0x6000 = unat clb"
    using assms(2) unat_sub [of AHCI_CLB_OFFSET clb] word_le_nat_alt [of AHCI_CLB_OFFSET clb] by (simp add: q_def ata_consts)
  have "unat (q + AHCI_DATA_OFFSET) = unat q + 0x2000"
    using q u32_bound [of clb] by (simp add: unat_word_ariths AHCI_DATA_OFFSET_def)
  then show "ucast (clb - AHCI_CLB_OFFSET) < MAXLOWERPHY bd" "ucast (clb - AHCI_CLB_OFFSET + AHCI_DATA_OFFSET) < MAXLOWERPHY bd"
    using assms(3) q by (simp_all add: word_less_nat_alt q_def [symmetric])
qed

lemma pio_only_mem: "s' = s0\<lparr>pio := p, mem64 := m\<rparr> \<Longrightarrow> m = mem64 s0 \<Longrightarrow> s' = s0\<lparr>pio := p\<rparr>"
  by (cases s0) simp

lemma poll_ok:
  assumes hw: "ata_disk hw port det ident" and i: "requested port (pio s) = Some (clb, fb)" and s: "s = s0\<lparr>pio := pio s\<rparr>" "\<And>a. stored a (pio s) = stored a (pio s0)"
  defines "v \<equiv> ata_read hw (reg_poll hw (port + 16) (pio s)) (port + 56)"
  shows "\<exists>s'. identify_poll hw port s = (v, s') \<and> pio s' = done_poll hw port (pio s) \<and> (\<forall>a. stored a (pio s') = stored a (pio s0))
    \<and> (if v AND 1 = 0 then \<not> issued port (pio s') \<and> s' = s0\<lparr>pio := pio s', mem64 := mem64 s'\<rparr>
          \<and> answered ident clb fb (mem64 s0) (mem64 s')
       else requested port (pio s') = Some (clb, fb) \<and> s' = s0\<lparr>pio := pio s'\<rparr>)"
proof -
  let ?t1 = "reg_poll hw (port + 16) (pio s)"
  let ?s1 = "s\<lparr>pio := ?t1\<rparr>"
  have m: "mem64 s = mem64 s0" using s(1) by (metis ata_state.select_convs(1) ata_state.surjective ata_state.update_convs(2))
  have dma: "ata_dma hw (t @ [Load a x]) m = m" if "requested port t = Some (clb, fb)" "\<not> (a = port + 56 \<and> x AND 1 = 0)" for t a x m
    using hw that unfolding ata_disk_def by blast
  have done': "answered ident clb fb m (ata_dma hw (t @ [Load (port + 56) x]) m)" if "requested port t = Some (clb, fb)" "x AND 1 = 0" for t x m
    using hw that unfolding ata_disk_def by blast
  have s1: "port_load hw ''intr_status'' port s = (ata_read hw (pio s) (port + 16), ?s1)"
    using dma [OF i, of "port + 16"] by (simp add: hload_def Let_def reg_poll_def)
  have i1: "requested port ?t1 = Some (clb, fb)" using i by (simp add: reg_poll_def)
  let ?s2 = "?s1\<lparr>pio := done_poll hw port (pio s), mem64 := ata_dma hw (done_poll hw port (pio s)) (mem64 s)\<rparr>"
  have s2: "port_load hw ''cmd_issue'' port ?s1 = (v, ?s2)"
    by (simp add: hload_def Let_def done_poll_def v_def reg_poll_def)
  have p: "identify_poll hw port s = (v, ?s2)" by (simp add: identify_poll_def s1 s2)
  have t2: "done_poll hw port (pio s) = ?t1 @ [Load (port + 56) v]" by (simp add: done_poll_def v_def reg_poll_def)
  have st: "stored a (done_poll hw port (pio s)) = stored a (pio s0)" for a using s(2) by (simp add: done_poll_def)
  show ?thesis
  proof (cases "v AND 1 = 0")
    case True
    have "answered ident clb fb (mem64 s0) (mem64 ?s2)"
      using done' [OF i1 True, of "mem64 s"] s(2) by (simp add: t2 m)
    moreover have "?s2 = s0\<lparr>pio := pio ?s2, mem64 := mem64 ?s2\<rparr>" by (subst s(1)) simp
    moreover have "\<not> issued port (pio ?s2)" using True by (simp add: t2)
    ultimately have "\<not> issued port (pio ?s2) \<and> ?s2 = s0\<lparr>pio := pio ?s2, mem64 := mem64 ?s2\<rparr>
      \<and> answered ident clb fb (mem64 s0) (mem64 ?s2)" by blast
    moreover have "pio ?s2 = done_poll hw port (pio s)" by simp
    ultimately show ?thesis unfolding if_P [OF True] using p st by (metis (no_types))
  next
    case False
    have e: "mem64 ?s2 = mem64 s0" using dma [OF i1, of "port + 56" v] False by (simp add: t2 m)
    have "?s2 = s0\<lparr>pio := pio ?s2, mem64 := mem64 ?s2\<rparr>" by (subst s(1)) simp
    then have "?s2 = s0\<lparr>pio := pio ?s2\<rparr>" using e by (rule pio_only_mem)
    moreover have "requested port (pio ?s2) = Some (clb, fb)" using False i1 by (simp add: t2)
    moreover have "pio ?s2 = done_poll hw port (pio s)" by simp
    ultimately show ?thesis unfolding if_not_P [OF False] using p st by (metis (no_types))
  qed
qed

lemma command_done:
  assumes hw: "ata_disk hw port det ident" and i: "requested port (pio s) = Some (clb, fb)"
  shows "\<exists>v s'. spin_until (identify_poll hw port) (\<lambda>v. v AND 1 = 0) s = Some (v, s') \<and> \<not> issued port (pio s')
    \<and> s' = s\<lparr>pio := pio s', mem64 := mem64 s'\<rparr> \<and> (\<forall>a. stored a (pio s') = stored a (pio s))
    \<and> answered ident clb fb (mem64 s) (mem64 s')"
proof -
  let ?Inv = "\<lambda>s1. requested port (pio s1) = Some (clb, fb) \<and> s1 = s\<lparr>pio := pio s1\<rparr> \<and> (\<forall>a. stored a (pio s1) = stored a (pio s))"
  let ?g = "\<lambda>t. ata_read hw (reg_poll hw (port + 16) t) (port + 56)"
  have poll: "\<exists>s'. identify_poll hw port s1 = (?g (pio s1), s') \<and> pio s' = done_poll hw port (pio s1) \<and> (\<forall>a. stored a (pio s') = stored a (pio s))
    \<and> (if ?g (pio s1) AND 1 = 0 then \<not> issued port (pio s') \<and> s' = s\<lparr>pio := pio s', mem64 := mem64 s'\<rparr>
          \<and> answered ident clb fb (mem64 s) (mem64 s')
       else requested port (pio s') = Some (clb, fb) \<and> s' = s\<lparr>pio := pio s'\<rparr>)" if "?Inv s1" for s1
    using that by (intro poll_ok [OF hw]) blast+
  have acc: "fst (identify_poll hw port s1) = ?g (pio s1) \<and> pio (snd (identify_poll hw port s1)) = done_poll hw port (pio s1)
      \<and> (fst (identify_poll hw port s1) AND 1 = 0 \<or> ?Inv (snd (identify_poll hw port s1)))" if "?Inv s1" for s1
    using poll [OF that] by (metis fst_conv snd_conv)
  obtain k where k: "?g ((done_poll hw port ^^ k) (pio s)) AND 1 = 0" using hw i unfolding ata_disk_def by blast
  have start: "?Inv s" using i by simp
  from spin_until_inv [where Inv = ?Inv and acc = "identify_poll hw port" and g = ?g and h = pio
      and f = "done_poll hw port" and ok = "\<lambda>v. v AND 1 = 0", OF acc start k]
  obtain v s1 s' where s': "spin_until (identify_poll hw port) (\<lambda>v. v AND 1 = 0) s = Some (v, s')" "v AND 1 = 0"
    "?Inv s1" "identify_poll hw port s1 = (v, s')" by blast
  obtain s2 where "identify_poll hw port s1 = (?g (pio s1), s2)" "\<forall>a. stored a (pio s2) = stored a (pio s)"
    "if ?g (pio s1) AND 1 = 0 then \<not> issued port (pio s2) \<and> s2 = s\<lparr>pio := pio s2, mem64 := mem64 s2\<rparr>
          \<and> answered ident clb fb (mem64 s) (mem64 s2)
       else requested port (pio s2) = Some (clb, fb) \<and> s2 = s\<lparr>pio := pio s2\<rparr>" using poll [OF s'(3)] by blast
  then show ?thesis using s'(1,2,4) by (metis prod.inject)
qed

lemma waited_fields:
  assumes "waited port s0 s"
  shows "con s = con s0" "mem64 s = mem64 s0" "ahci_current_rambase s = ahci_current_rambase s0"
proof -
  have "con s = con (s0\<lparr>pio := pio s\<rparr>)" "mem64 s = mem64 (s0\<lparr>pio := pio s\<rparr>)"
    "ahci_current_rambase s = ahci_current_rambase (s0\<lparr>pio := pio s\<rparr>)" using waited_pio(1) [OF assms] by (rule arg_cong)+
  then show "con s = con s0" "mem64 s = mem64 s0" "ahci_current_rambase s = ahci_current_rambase s0" by simp_all
qed

text \<open>\<open>con\<close>, the memory and the trace are all that \<open>ahci_identify_device\<close> changes.\<close>

lemma identify_ok:
  assumes hw: "ata_disk hw port PORT_SSTAT_DET_CONNECT ident" and bd: "board_ok bd" and i: "\<not> issued port (pio s)"
    and clb: "AHCI_CLB_OFFSET \<le> stored port (pio s)" "ucast (stored port (pio s)) < MAXLOWERPHY bd"
    and fb: "ucast (stored (port + 8) (pio s)) < MAXLOWERPHY bd"
    and eng: "engine port (pio s) = Some (stored port (pio s), stored (port + 8) (pio s))"
  shows "\<exists>s' b. ahci_identify_device bd hw port s = Some s' \<and> \<not> issued port (pio s')
    \<and> con s' = con s @ printed (CHR 0x09 # CHR 0x09 # ''Identification Data'' @ crlf) [] @ ident_text ident @ printed (''%02x'' @ crlf) [VWord b]
    \<and> ahci_current_rambase s' = ahci_current_rambase s
    \<and> (\<forall>i<512. mem64 s' (phys (stored port (pio s) - AHCI_CLB_OFFSET + AHCI_DATA_OFFSET) + of_nat i) = ident i)"
proof -
  define clb where "clb = stored port (pio s)"
  define fb' where "fb' = stored (port + 8) (pio s)"
  define q where "q = clb - AHCI_CLB_OFFSET"
  define db where "db = q + AHCI_DATA_OFFSET"
  have low: "ucast clb < MAXLOWERPHY bd" "ucast q < MAXLOWERPHY bd" "ucast db < MAXLOWERPHY bd" "ucast fb' < MAXLOWERPHY bd"
    using clb fb clb_places [OF bd clb] by (simp_all add: clb_def q_def db_def fb'_def)
  note nz = low [THEN phys_nz [OF bd]] and kv = low [THEN p2kv_phys]
  have rd: "ata_read hw t port = stored port t" "ata_read hw t (port + 8) = stored (port + 8) t" for t
    using hw unfolding ata_disk_def by blast+
  from hload_eq [OF hw waited_refl [OF i], of ahci_hba_port "[Fld ''clb'']" port] obtain s1 where
    s1: "port_load hw ''clb'' port s = (clb, s1)" "waited port s s1" unfolding port_regs rd clb_def by blast
  from hload_eq [OF hw s1(2), of ahci_hba_port "[Fld ''fb'']" port] obtain s2 where
    s2: "port_load hw ''fb'' port s1 = (fb', s2)" "waited port s s2"
    unfolding port_regs rd fb'_def waited_pio(3) [OF s1(2)] by blast
  define s4 where "s4 = identify_header bd (phys clb) (phys q) (identify_slot (phys q) db s2)"
  have i4: "\<not> issued port (pio s4)" using waited_pio(2) [OF s2(2)] by (simp add: s4_def)
  from wait_port_ok [OF hw waited_refl [OF i4]] obtain s5 where
    s5: "ahci_wait_port hw port s4 = Some s5" "waited port s4 s5" by blast
  define s7 where "s7 = port_store ''cmd_issue'' 1 port (memset64 (phys db) 0 512 s5)"
  have fields: "con s7 = con s" "ahci_current_rambase s7 = ahci_current_rambase s"
    using waited_fields [OF s5(2)] waited_fields [OF s2(2)] by (simp_all add: s7_def s4_def hstore_def memset64_def)
  have i7: "requested port (pio s7) = Some (clb, fb')"
    using waited_pio(4) [OF s5(2)] waited_pio(4) [OF s2(2)] eng
    by (simp add: s7_def hstore_def memset64_def s4_def clb_def fb'_def)
  have st7: "stored a (pio s7) = stored a (pio s)" if "a \<noteq> port + 56" for a
    using that waited_pio(3) [OF s5(2)] waited_pio(3) [OF s2(2)] by (simp add: s7_def hstore_def memset64_def s4_def)
  have cmd: "ata_command (mem64 s7) clb = Some (ATA_IDENTIFY_DEVICE, db, 512)"
    using identify_command [OF bd, of clb db s2] clb low(1) waited_fields(2) [OF s5(2)]
    by (simp add: s7_def hstore_def memset64_def s4_def q_def db_def clb_def)
  from command_done [OF hw i7] obtain v s8 where
    s8: "spin_until (identify_poll hw port) (\<lambda>v. v AND 1 = 0) s7 = Some (v, s8)" "\<not> issued port (pio s8)"
      "s8 = s7\<lparr>pio := pio s8, mem64 := mem64 s8\<rparr>" "answered ident clb fb' (mem64 s7) (mem64 s8)"
    by blast
  have data: "mem64 s8 (phys db + of_nat i) = ident i" if "i < 512" for i
    using s8(4) that by (simp add: answered_def cmd)
  from hload_eq [OF hw waited_refl [OF s8(2)], of ahci_hba_port "[Fld ''intr_status'']" port] obtain st s9 where
    s9: "port_load hw ''intr_status'' port s8 = (st, s9)" "waited port s8 s9" by blast
  have m9: "mem64 s9 = mem64 s8" "con s9 = con s" "ahci_current_rambase s9 = ahci_current_rambase s" "\<not> issued port (pio s9)"
  proof -
    have "con s8 = con s7" "ahci_current_rambase s8 = ahci_current_rambase s7" using s8(3) by (metis ata_state.select_convs machine.select_convs ata_state.surjective ata_state.update_convs)+
    then show "mem64 s9 = mem64 s8" "con s9 = con s" "ahci_current_rambase s9 = ahci_current_rambase s" "\<not> issued port (pio s9)"
      using waited_fields [OF s9(2)] waited_pio(2) [OF s9(2)] fields by simp_all
  qed
  let ?hd = "CHR 0x09 # CHR 0x09 # ''Identification Data'' @ crlf"
  define s10 where "s10 = kputs (ident_text ident) (kputs (printed ?hd []) s9)"
  have pr: "identify_print (phys db) (kputs (printed ?hd []) s9) = s10"
    unfolding s10_def by (rule identify_print_ok) (simp add: m9 data)
  have "ahci_identify_device bd hw port s
      = Some (uart_spin_printf (''%02x'' @ crlf) [VWord (ucast (mem64 s10 (phys fb')))] s10)"
    using nz kv unfolding ahci_identify_device_def Let_def s1(1) s2(1) case_prod_conv q_def [symmetric] db_def [symmetric]
    by (simp add: deref64_def s4_def [symmetric] s5(1) s7_def [symmetric] s8(1) s9(1) uart_printed pr [simplified])
  moreover have "printed (''%02x'' @ crlf) [VWord (ucast (mem64 s10 (phys fb')))]
      = printed (''%02x'' @ crlf) [VWord (ucast (mem64 s8 (phys fb')))]" by (simp add: s10_def m9)
  ultimately show ?thesis
    using m9 data by (intro exI conjI) (assumption, auto simp: uart_printed s10_def db_def q_def clb_def)
qed

section \<open>Initialising a port\<close>

lemma pio_only_fields:
  assumes "s' = s\<lparr>pio := pio s'\<rparr>"
  shows "con s' = con s" "mem64 s' = mem64 s" "ahci_current_rambase s' = ahci_current_rambase s"
proof -
  have "con s' = con (s\<lparr>pio := pio s'\<rparr>)" "mem64 s' = mem64 (s\<lparr>pio := pio s'\<rparr>)"
    "ahci_current_rambase s' = ahci_current_rambase (s\<lparr>pio := pio s'\<rparr>)" using assms by (rule arg_cong)+
  then show "con s' = con s" "mem64 s' = mem64 s" "ahci_current_rambase s' = ahci_current_rambase s" by simp_all
qed

lemma cmd_stops:
  assumes hw: "ata_disk hw port det ident" and i: "\<not> issued port (pio s)"
    and c: "stored (port + 24) (pio s) AND (PORT_CMD_FRE OR PORT_CMD_START) = 0"
  shows "\<exists>v s'. spin_until (port_load hw ''cmd'' port) (\<lambda>v. v AND (PORT_CMD_CR OR PORT_CMD_FR) = 0) s = Some (v, s') \<and> waited port s s'"
proof -
  obtain k where k: "ata_read hw ((reg_poll hw (port + 24) ^^ k) (pio s)) (port + 24) AND (PORT_CMD_CR OR PORT_CMD_FR) = 0"
    using hw i c unfolding ata_disk_def by blast
  have acc: "fst (port_load hw ''cmd'' port s1) = ata_read hw (pio s1) (port + 24)
      \<and> pio (snd (port_load hw ''cmd'' port s1)) = reg_poll hw (port + 24) (pio s1) \<and> waited port s (snd (port_load hw ''cmd'' port s1))"
    if "waited port s s1" for s1 using hload_waited [OF hw that, of ahci_hba_port "[Fld ''cmd'']" port] by simp
  from spin_until_inv [where Inv = "waited port s" and acc = "port_load hw ''cmd'' port" and g = "\<lambda>t. ata_read hw t (port + 24)" and h = pio
      and f = "reg_poll hw (port + 24)" and ok = "\<lambda>v. v AND (PORT_CMD_CR OR PORT_CMD_FR) = 0", OF _ waited_refl [OF i] k] acc
  obtain v s1 s' where "spin_until (port_load hw ''cmd'' port) (\<lambda>v. v AND (PORT_CMD_CR OR PORT_CMD_FR) = 0) s = Some (v, s')"
    "waited port s s1" "port_load hw ''cmd'' port s1 = (v, s')" by blast
  then show ?thesis using acc [of s1] by auto
qed

text \<open>A store to a register in the middle of the driver.\<close>

definition dev_step :: "u64 \<Rightarrow> 'a ata_state_scheme \<Rightarrow> 'a ata_state_scheme \<Rightarrow> bool" where
  "dev_step port s s' \<longleftrightarrow> con s' = con s \<and> ahci_current_rambase s' = ahci_current_rambase s \<and> \<not> issued port (pio s')"

lemma dev_step_trans: "dev_step port s s1 \<Longrightarrow> dev_step port s1 s2 \<Longrightarrow> dev_step port s s2"
  by (simp add: dev_step_def)

lemma dev_step_pio: "s' = s\<lparr>pio := pio s'\<rparr> \<Longrightarrow> \<not> issued port (pio s') \<Longrightarrow> dev_step port s s'"
  using pio_only_fields [of s' s] by (simp add: dev_step_def)

lemma dev_step_waited: "waited port s s' \<Longrightarrow> dev_step port s s'"
  using waited_pio by (intro dev_step_pio)

lemma init_reset_ok:
  assumes hw: "ata_disk hw port det ident" and bd: "board_ok bd" and i: "\<not> issued port (pio s)"
    and fb: "p2kv bd (ahci_current_rambase s + ucast AHCI_FB_OFFSET) \<noteq> 0"
  shows "\<exists>s'. init_port_reset bd hw port s = Some (det, s') \<and> dev_step port s s'
    \<and> stored (port + 8) (pio s') = ucast (ahci_current_rambase s + ucast AHCI_FB_OFFSET) \<and> stored (port + 24) (pio s') AND PORT_CMD_START = 0
    \<and> stored port (pio s') = stored port (pio s) \<and> stored (port + 12) (pio s') = 0"
proof -
  have start: "ata_read hw t (port + 24) AND PORT_CMD_START = stored (port + 24) t AND PORT_CMD_START"
    and dt: "ata_read hw t (port + 40) AND PORT_SSTAT_DET_MASK = det" for t
    using hw unfolding ata_disk_def by blast+
  from hupdate_idle [OF hw i port_regs(6) port_neq(1), of "\<lambda>v. v AND NOT (PORT_CMD_FRE OR PORT_CMD_START)"] obtain s1 where
    s1: "port_update hw ''cmd'' (\<lambda>v. v AND NOT (PORT_CMD_FRE OR PORT_CMD_START)) port s = s1" "s1 = s\<lparr>pio := pio s1\<rparr>" "\<not> issued port (pio s1)"
      "\<And>b. stored b (pio s1) = (if b = port + 24 then ata_read hw (pio s) (port + 24) AND NOT (PORT_CMD_FRE OR PORT_CMD_START) else stored b (pio s))"
    by blast
  have off: "(v AND NOT (PORT_CMD_FRE OR PORT_CMD_START)) AND (PORT_CMD_FRE OR PORT_CMD_START) = 0"
    "(v AND NOT (PORT_CMD_FRE OR PORT_CMD_START)) AND PORT_CMD_START = 0" for v
    by (simp_all add: ata_consts and.assoc)
  from cmd_stops [OF hw s1(3)] obtain v s2 where
    s2: "spin_until (port_load hw ''cmd'' port) (\<lambda>v. v AND (PORT_CMD_CR OR PORT_CMD_FR) = 0) s1 = Some (v, s2)" "waited port s1 s2"
    using s1(4) off(1) by auto
  from hupdate_idle [OF hw waited_pio(2) [OF s2(2)] port_regs(10) port_neq(2), of "\<lambda>v. v AND NOT PORT_SCNTL_DET_MASK OR PORT_SCNTL_DET_RESET"] obtain s3 where
    s3: "port_update hw ''scontrol'' (\<lambda>v. v AND NOT PORT_SCNTL_DET_MASK OR PORT_SCNTL_DET_RESET) port s2 = s3" "s3 = s2\<lparr>pio := pio s3\<rparr>" "\<not> issued port (pio s3)"
      "stored (port + 24) (pio s3) = stored (port + 24) (pio s2)" "stored port (pio s3) = stored port (pio s2)" by auto
  from hupdate_idle [OF hw s3(3) port_regs(10) port_neq(2), of "\<lambda>v. v AND NOT PORT_SCNTL_DET_MASK OR PORT_SCNTL_DET_NONE"] obtain s4 where
    s4: "port_update hw ''scontrol'' (\<lambda>v. v AND NOT PORT_SCNTL_DET_MASK OR PORT_SCNTL_DET_NONE) port s3 = s4" "s4 = s3\<lparr>pio := pio s4\<rparr>" "\<not> issued port (pio s4)"
      "stored (port + 24) (pio s4) = stored (port + 24) (pio s3)" "stored port (pio s4) = stored port (pio s3)" by auto
  define fb where "fb = ahci_current_rambase s + ucast AHCI_FB_OFFSET"
  define s6 where "s6 = port_store ''fb'' (ucast fb) port (port_store ''fbu'' 0 port (memset64 (p2kv bd fb) 0 256 s4))"
  have s6: "dev_step port s4 s6" "stored (port + 8) (pio s6) = ucast fb" "stored (port + 24) (pio s6) = stored (port + 24) (pio s4)"
    "stored port (pio s6) = stored port (pio s4)" "stored (port + 12) (pio s6) = 0"
    using s4(3) by (simp_all add: s6_def hstore_def memset64_def dev_step_def)
  then have i6: "\<not> issued port (pio s6)" by (simp add: dev_step_def)
  from hupdate_idle [OF hw i6 port_regs(6) port_neq(1), of "\<lambda>v. v OR (PORT_CMD_FRE OR PORT_CMD_SUD)"] obtain s7 where
    s7: "port_update hw ''cmd'' (\<lambda>v. v OR (PORT_CMD_FRE OR PORT_CMD_SUD)) port s6 = s7" "s7 = s6\<lparr>pio := pio s7\<rparr>" "\<not> issued port (pio s7)"
      "\<And>b. stored b (pio s7) = (if b = port + 24 then ata_read hw (pio s6) (port + 24) OR (PORT_CMD_FRE OR PORT_CMD_SUD) else stored b (pio s6))"
    by blast
  from hload_eq [OF hw waited_refl [OF s7(3)], of ahci_hba_port "[Fld ''sstatus'']" port] obtain s8 where
    s8: "port_load hw ''sstatus'' port s7 = (ata_read hw (pio s7) (port + 40), s8)" "waited port s7 s8" unfolding port_regs by blast
  have "stored (port + 24) (pio s6) AND PORT_CMD_START = 0"
    using s6(3) s4(4) s3(4) waited_pio(3) [OF s2(2), of "port + 24"] s1(4) off(2) by simp
  then have "(ata_read hw (pio s6) (port + 24) OR (PORT_CMD_FRE OR PORT_CMD_SUD)) AND PORT_CMD_START = 0"
    unfolding bit.conj_disj_distrib2 start by (simp add: ata_consts)
  then have c8: "stored (port + 24) (pio s8) AND PORT_CMD_START = 0" using s7(4) waited_pio(3) [OF s8(2)] by simp
  have fb8: "stored (port + 8) (pio s8) = ucast fb" using s7(4) s6(2) waited_pio(3) [OF s8(2)] by simp
  have fbu8: "stored (port + 12) (pio s8) = 0" using s7(4) s6(5) waited_pio(3) [OF s8(2)] by simp
  have "dev_step port s s8"
    by (rule dev_step_trans [OF dev_step_pio [OF s1(2,3)] dev_step_trans [OF dev_step_waited [OF s2(2)]
      dev_step_trans [OF dev_step_pio [OF s3(2,3)] dev_step_trans [OF dev_step_pio [OF s4(2,3)]
      dev_step_trans [OF s6(1) dev_step_trans [OF dev_step_pio [OF s7(2,3)] dev_step_waited [OF s8(2)]]]]]]])
  moreover have "init_port_reset bd hw port s = Some (det, s8)"
    using fb unfolding init_port_reset_def Let_def fb_def [symmetric] s1(1) s2(1) bind.bind_lunit case_prod_conv s3(1) delay_id s4(1)
      deref64_def if_False ata_sizes s6_def [symmetric] s7(1) s8(1) dt by simp
  moreover have "stored port (pio s8) = stored port (pio s)"
    using waited_pio(3) [OF s8(2), of port] s7(4) s6(4) s4(5) s3(5) waited_pio(3) [OF s2(2), of port] s1(4) by simp
  ultimately show ?thesis using c8 fb8 fbu8 by (auto simp: fb_def)
qed

lemma fb_room:
  assumes bd: "board_ok bd" and room: "unat (ahci_current_rambase s) + 0x8000 \<le> unat (MAXLOWERPHY bd)"
  shows "p2kv bd (ahci_current_rambase s + ucast AHCI_FB_OFFSET) \<noteq> 0"
proof -
  have max: "unat (MAXLOWERPHY bd) \<le> 0x20000000" using bd by (auto simp: board_ok_def word_le_nat_alt)
  have r: "unat (ahci_current_rambase s + 0x6400) = unat (ahci_current_rambase s) + 0x6400"
    using room max by (simp add: unat_word_ariths)
  then have "unat (ahci_current_rambase s + 0x6400 + KSEG0) = unat (ahci_current_rambase s) + 0x6400 + 18446744071562067968"
    using room max by (simp add: unat_plus_if' KSEG0_def)
  then have "ahci_current_rambase s + 0x6400 + KSEG0 \<noteq> 0" by (metis add_is_0 numeral_neq_zero unsigned_0)
  moreover have "ahci_current_rambase s + 0x6400 < MAXLOWERPHY bd" using r room by (simp add: word_less_nat_alt)
  ultimately show ?thesis by (simp add: p2kv_def AHCI_FB_OFFSET_def)
qed

text \<open>With a device connected the port is started and its device identified. The four areas of the
  driver's memory are in the low physical memory.\<close>

lemma init_port_ok:
  assumes hw: "ata_disk hw port PORT_SSTAT_DET_CONNECT ident" and bd: "board_ok bd" and i: "\<not> issued port (pio s)"
    and room: "unat (ahci_current_rambase s) + 0x8000 \<le> unat (MAXLOWERPHY bd)"
  shows "\<exists>s' sig b. ahci_init_port bd hw port serror s = Some (0, s') \<and> \<not> issued port (pio s')
    \<and> con s' = con s @ printed (''Signature: %08x'' @ crlf) [VWord sig]
        @ printed (CHR 0x09 # CHR 0x09 # ''Identification Data'' @ crlf) [] @ ident_text ident @ printed (''%02x'' @ crlf) [VWord b]
    \<and> ahci_current_rambase s' = ahci_current_rambase s + 0x8000
    \<and> (\<forall>i<512. mem64 s' (ahci_current_rambase s + 0x2000 + KSEG0 + of_nat i) = ident i)"
proof -
  define r where "r = ahci_current_rambase s"
  have max: "unat (MAXLOWERPHY bd) \<le> 0x20000000" using bd by (auto simp: board_ok_def word_le_nat_alt)
  have in_low: "r + k < MAXLOWERPHY bd" "unat (r + k) = unat r + unat k" if "unat k < 0x8000" for k
    using that room max by (simp_all add: r_def word_less_nat_alt unat_word_ariths)
  have down: "ucast (ucast (r + k) :: u32) = r + k" if "unat k < 0x8000" for k
    using in_low(2) [OF that] that room max by (simp add: word_unat_eq_iff r_def unsigned_ucast_eq unsigned_take_bit_eq take_bit_nat_eq_self_iff)
  have small: "unat (ucast (r + k) :: u32) = unat r + unat k" if "unat k < 0x8000" for k
    using arg_cong [OF down [OF that], of unat] in_low(2) [OF that] by simp
  have offs: "ucast AHCI_FB_OFFSET = (0x6400 :: u64)" "ucast AHCI_CLB_OFFSET = (0x6000 :: u64)" "ucast AHCI_PORT_RAM_SIZE = (0x8000 :: u64)"
    by (simp_all add: ata_consts)
  from init_reset_ok [OF hw bd i fb_room [OF bd room]] obtain s1 where
    s1: "init_port_reset bd hw port s = Some (PORT_SSTAT_DET_CONNECT, s1)" "dev_step port s s1"
      "stored (port + 8) (pio s1) = ucast (r + 0x6400)" "stored (port + 24) (pio s1) AND PORT_CMD_START = 0"
      "stored (port + 12) (pio s1) = 0"
    unfolding r_def offs by blast
  define s2 where "s2 = (if serror \<noteq> 0 then let (v, s) = port_load hw ''serror'' port s1 in s\<lparr>mem64 := stn (mem64 s) serror 4 (ucast v)\<rparr> else s1)"
  have i1: "\<not> issued port (pio s1)" using s1(2) by (simp add: dev_step_def)
  have s2: "dev_step port s1 s2" "\<And>a. stored a (pio s2) = stored a (pio s1)"
  proof -
    from hload_eq [OF hw waited_refl [OF i1], of ahci_hba_port "[Fld ''serror'']" port] obtain v s' where
      l: "port_load hw ''serror'' port s1 = (v, s')" "waited port s1 s'" by blast
    show "dev_step port s1 s2" "\<And>a. stored a (pio s2) = stored a (pio s1)"
      using waited_fields [OF l(2)] waited_pio(2,3) [OF l(2)] i1 by (simp_all add: s2_def l(1) dev_step_def)
  qed
  define s3 where "s3 = port_store ''intr_status'' 0 port (port_store ''serror'' 0 port s2)"
  have s3: "dev_step port s2 s3" "\<And>a. a \<noteq> port + 16 \<Longrightarrow> a \<noteq> port + 48 \<Longrightarrow> stored a (pio s3) = stored a (pio s2)"
    using s2(1) by (simp_all add: s3_def hstore_def dev_step_def)
  have "\<not> issued port (pio s3)" using s3(1) by (simp add: dev_step_def)
  from hload_eq [OF hw waited_refl [OF this], of ahci_hba_port "[Fld ''sig'']" port] obtain sig s4 where
    s4: "port_load hw ''sig'' port s3 = (sig, s4)" "waited port s3 s4" by blast
  let ?sig = "printed (''Signature: %08x'' @ crlf) [VWord sig]"
  have "\<not> issued port (pio (kputs ?sig s4))" using waited_pio(2) [OF s4(2)] by simp
  from wait_port_ok [OF hw waited_refl [OF this]] obtain s5 where
    s5: "ahci_wait_port hw port (kputs ?sig s4) = Some s5" "waited port (kputs ?sig s4) s5" by blast
  define s6 where "s6 = port_store ''clb'' (ucast (r + 0x6000)) port (port_store ''clbu'' 0 port s5)"
  have s6: "dev_step port s5 s6" "stored port (pio s6) = ucast (r + 0x6000)" "stored (port + 4) (pio s6) = 0" "\<And>a. a \<noteq> port \<Longrightarrow> a \<noteq> port + 4 \<Longrightarrow> stored a (pio s6) = stored a (pio s5)"
    using waited_pio(2) [OF s5(2)] by (simp_all add: s6_def hstore_def dev_step_def)
  have st: "stored (port + 8) (pio s6) = ucast (r + 0x6400)" "stored (port + 24) (pio s6) AND PORT_CMD_START = 0"
    "stored (port + 12) (pio s6) = 0"
    using s1(3-5) s6(4) waited_pio(3) [OF s5(2)] waited_pio(3) [OF s4(2)] s3(2) s2(2) by simp_all
  have "\<not> issued port (pio s6)" using s6(1) by (simp add: dev_step_def)
  from port_start_ok [OF hw this st(2) s6(3) st(3)] obtain s7 where
    s7: "ahci_port_start hw port s6 = Some s7" "s7 = s6\<lparr>pio := pio s7\<rparr>" "\<not> issued port (pio s7)"
      "\<And>a. a \<noteq> port + 24 \<Longrightarrow> stored a (pio s7) = stored a (pio s6)"
      "engine port (pio s7) = Some (stored port (pio s6), stored (port + 8) (pio s6))" by blast
  have st7: "stored port (pio s7) = ucast (r + 0x6000)" "stored (port + 8) (pio s7) = ucast (r + 0x6400)"
    using s7(4) s6(2) st(1) by simp_all
  have clb: "AHCI_CLB_OFFSET \<le> stored port (pio s7)" "ucast (stored port (pio s7)) < MAXLOWERPHY bd" "ucast (stored (port + 8) (pio s7)) < MAXLOWERPHY bd"
    using in_low(1) [of "0x6000"] in_low(1) [of "0x6400"] down [of "0x6000"] down [of "0x6400"] small [of "0x6000"]
    by (simp_all add: st7 word_le_nat_alt AHCI_CLB_OFFSET_def)
  have "engine port (pio s7) = Some (stored port (pio s7), stored (port + 8) (pio s7))"
    using s7(5) by (simp add: st7 s6(2) st(1))
  from identify_ok [OF hw bd s7(3) clb this] obtain s8 b where
    s8: "ahci_identify_device bd hw port s7 = Some s8" "\<not> issued port (pio s8)"
    "con s8 = con s7 @ printed (CHR 0x09 # CHR 0x09 # ''Identification Data'' @ crlf) [] @ ident_text ident @ printed (''%02x'' @ crlf) [VWord b]"
    "ahci_current_rambase s8 = ahci_current_rambase s7"
    "\<forall>i<512. mem64 s8 (phys (ucast (r + 0x6000) - AHCI_CLB_OFFSET + AHCI_DATA_OFFSET) + of_nat i) = ident i"
    unfolding st7 by blast
  have dat: "phys (ucast (r + 0x6000) - AHCI_CLB_OFFSET + AHCI_DATA_OFFSET) = r + 0x2000 + KSEG0"
  proof -
    have "unat (ucast (r + 0x6000) - AHCI_CLB_OFFSET) = unat r"
      using small [of "0x6000"] by (simp add: u32_diff AHCI_CLB_OFFSET_def)
    then have "unat (ucast (r + 0x6000) - AHCI_CLB_OFFSET + AHCI_DATA_OFFSET) = unat (ucast (r + 0x2000) :: u32)"
      using small [of "0x2000"] room max by (simp add: unat_word_ariths AHCI_DATA_OFFSET_def r_def)
    then have "ucast (r + 0x6000) - AHCI_CLB_OFFSET + AHCI_DATA_OFFSET = ucast (r + 0x2000)" by (rule u32_eqI)
    then show ?thesis using down [of "0x2000"] by (simp add: phys_def)
  qed
  have base: "ahci_current_rambase s1 = r" "ahci_current_rambase s7 = r" and con7: "con s7 = con s @ ?sig"
    using s1(2) s2(1) s3(1) waited_fields [OF s4(2)] waited_fields [OF s5(2)] s6(1) pio_only_fields [OF s7(2)]
    by (simp_all add: dev_step_def r_def)
  define s9 where "s9 = s8\<lparr>ahci_current_rambase := ahci_current_rambase s8 + 0x8000\<rparr>"
  have "init_port_start bd hw port serror s1 = Some s9"
    unfolding init_port_start_def Let_def offs base(1) s2_def [unfolded Let_def, symmetric] s3_def [symmetric] s4(1) case_prod_conv
      uart_printed s5(1) bind.bind_lunit s6_def [symmetric] s7(1) s8(1) s9_def ..
  then have "ahci_init_port bd hw port serror s = Some (0, s9)"
    by (simp add: ahci_init_port_def s1(1) ata_consts)
  then show ?thesis
    using s8 con7 base by - (rule exI [of _ s9], rule exI [of _ sig], rule exI [of _ b], simp add: s9_def dat [unfolded r_def] r_def)
qed

section \<open>Command completion coalescing\<close>

definition has_ccc :: "ata_hardware \<Rightarrow> u64 \<Rightarrow> bool" where
  "has_ccc hw hba \<longleftrightarrow> (\<forall>t. ata_read hw t hba AND HBA_CAP_CCCS \<noteq> 0 \<and> ata_read hw t (hba + 20) = stored (hba + 20) t)"

lemma hba_regs [simp]: "c_addr ahci_hba [Fld ''cap''] a = a" "c_addr ahci_hba [Fld ''ccc_ctl''] a = a + 20"
  by (simp_all add: c_addr_def ahci_hba_def ahci_hba_port_def place_def round_up_def)

lemma ccc_get_field:
  "has_ccc hw hba \<Longrightarrow> fst (ccc_get hw msk sh hba s) = drop_bit sh (stored (hba + 20) (pio s) AND msk)"
  by (simp add: has_ccc_def ccc_get_def ahci_support_ccc_def hload_def Let_def stored_def)

lemma ccc_set_stores:
  "has_ccc hw hba \<Longrightarrow> stored (hba + 20) (pio (ccc_set hw f hba s)) = f (stored (hba + 20) (pio s))"
  by (simp add: has_ccc_def ccc_set_def ahci_support_ccc_def hload_def hupdate_def hstore_def Let_def stored_def)

lemma ccc_fields:
  fixes v x :: u32
  shows "drop_bit 16 ((v AND NOT 0xffff0000 OR push_bit 16 x) AND 0xffff0000) = take_bit 16 x"
    "drop_bit 8 ((v AND NOT 0xffff0000 OR push_bit 16 x) AND 0xff00) = drop_bit 8 (v AND 0xff00)"
    "drop_bit 3 ((v AND NOT 0xffff0000 OR push_bit 16 x) AND 0xf8) = drop_bit 3 (v AND 0xf8)"
    "drop_bit 8 ((v AND NOT 0xff00 OR push_bit 8 x) AND 0xff00) = take_bit 8 x"
    "drop_bit 16 ((v AND NOT 0xff00 OR push_bit 8 x) AND 0xffff0000) = drop_bit 16 (v AND 0xffff0000) OR take_bit 16 (drop_bit 8 x)"
proof -
  have m: "(0xffff0000 :: u32) = push_bit 16 (mask 16)" "(0xff00 :: u32) = push_bit 8 (mask 8)" "(0xf8 :: u32) = push_bit 3 (mask 5)"
    by (simp_all add: mask_eq_exp_minus_1 push_bit_eq_mult)
  show "drop_bit 16 ((v AND NOT 0xffff0000 OR push_bit 16 x) AND 0xffff0000) = take_bit 16 x"
    "drop_bit 8 ((v AND NOT 0xffff0000 OR push_bit 16 x) AND 0xff00) = drop_bit 8 (v AND 0xff00)"
    "drop_bit 3 ((v AND NOT 0xffff0000 OR push_bit 16 x) AND 0xf8) = drop_bit 3 (v AND 0xf8)"
    "drop_bit 8 ((v AND NOT 0xff00 OR push_bit 8 x) AND 0xff00) = take_bit 8 x"
    "drop_bit 16 ((v AND NOT 0xff00 OR push_bit 8 x) AND 0xffff0000) = drop_bit 16 (v AND 0xffff0000) OR take_bit 16 (drop_bit 8 x)"
    unfolding m by (rule bit_word_eqI, auto simp: bit_simps)+
qed

section \<open>Results\<close>

text \<open>
  C12. On a port with a device, \<open>ahci_init_port\<close> returns 0, the answer to IDENTIFY DEVICE is in the
  driver's memory and is printed: the port is started by the rules of the controller, which serves
  no other (both buffer addresses set, frames received, then the start bit), and the command slot,
  the command header and the frame built in memory are a command the controller understands. The
  driver takes the next \<open>AHCI_PORT_RAM_SIZE\<close> bytes for its structures.
\<close>

theorem ahci_init_port_identifies:
  assumes "ata_disk hw port PORT_SSTAT_DET_CONNECT ident" and "board_ok bd" and "\<not> issued port (pio s)"
    and "unat (ahci_current_rambase s) + 0x8000 \<le> unat (MAXLOWERPHY bd)"
  shows "\<exists>s' sig b. ahci_init_port bd hw port serror s = Some (0, s') \<and> \<not> issued port (pio s')
    \<and> con s' = con s @ printed (''Signature: %08x'' @ crlf) [VWord sig]
        @ printed (CHR 0x09 # CHR 0x09 # ''Identification Data'' @ crlf) [] @ ident_text ident @ printed (''%02x'' @ crlf) [VWord b]
    \<and> ahci_current_rambase s' = ahci_current_rambase s + 0x8000
    \<and> (\<forall>i<512. mem64 s' (ahci_current_rambase s + 0x2000 + KSEG0 + of_nat i) = ident i)"
  using assms by (rule init_port_ok)

text \<open>A controller that is never busy, answers at once and ignores commands to a port that is not
  started.\<close>

definition quick_disk :: "u64 \<Rightarrow> u32 \<Rightarrow> (nat \<Rightarrow> u8) \<Rightarrow> ata_hardware" where
  "quick_disk port det ident = \<lparr>
     ata_read = (\<lambda>t a. if a = port \<or> a = port + 8 then stored a t
        else if a = port + 24 then stored a t AND (PORT_CMD_START OR PORT_CMD_FRE) else if a = port + 40 then det else 0),
     ata_dma = (\<lambda>t m. case t of [] \<Rightarrow> m | _ \<Rightarrow> (case last t of
        Load a v \<Rightarrow> if a = port + 56 \<and> v AND 1 = 0 then
            (case requested port (butlast t) of None \<Rightarrow> m | Some (clb, fb) \<Rightarrow>
              (case ata_command m clb of Some (cmd, dba, n) \<Rightarrow>
                 (\<lambda>x. if unat (x - phys dba) < 512 then ident (unat (x - phys dba)) else m x) | None \<Rightarrow> m))
          else m
      | Store a v \<Rightarrow> m))\<rparr>"

lemma quick_disk_dma:
  "ata_dma (quick_disk port det ident) (t @ [Store a v]) m = m"
  "\<not> (a = port + 56 \<and> v AND 1 = 0 \<and> requested port t \<noteq> None) \<Longrightarrow> ata_dma (quick_disk port det ident) (t @ [Load a v]) m = m"
  "v AND 1 = 0 \<Longrightarrow> requested port t = Some (clb, fb) \<Longrightarrow> answered ident clb fb m (ata_dma (quick_disk port det ident) (t @ [Load (port + 56) v]) m)"
proof -
  have dma: "ata_dma (quick_disk port det ident) (t @ [e]) m = (case e of
        Load a v \<Rightarrow> if a = port + 56 \<and> v AND 1 = 0 then
            (case requested port t of None \<Rightarrow> m | Some (clb, fb) \<Rightarrow>
              (case ata_command m clb of Some (cmd, dba, n) \<Rightarrow>
                 (\<lambda>x. if unat (x - phys dba) < 512 then ident (unat (x - phys dba)) else m x) | None \<Rightarrow> m))
          else m
      | Store a v \<Rightarrow> m)" for e
    unfolding quick_disk_def ata_hardware.select_convs by (cases t; cases e) (simp_all add: butlast_append cong: if_cong)
  show "ata_dma (quick_disk port det ident) (t @ [Store a v]) m = m" by (simp add: dma)
  show "ata_dma (quick_disk port det ident) (t @ [Load a v]) m = m" if "\<not> (a = port + 56 \<and> v AND 1 = 0 \<and> requested port t \<noteq> None)"
    using that by (cases "requested port t") (auto simp: dma)
  assume v: "v AND 1 = 0" "requested port t = Some (clb, fb)"
  have of: "unat (of_nat i :: u64) = i" if "i < 512" for i using that by (simp add: unat_of_nat)
  show "answered ident clb fb m (ata_dma (quick_disk port det ident) (t @ [Load (port + 56) v]) m)"
    using v unfolding dma by (auto simp: answered_def of split: option.splits)
qed

lemma quick_disk_read [simp]:
  "ata_read (quick_disk port det ident) t a = (if a = port \<or> a = port + 8 then stored a t
     else if a = port + 24 then stored a t AND (PORT_CMD_START OR PORT_CMD_FRE) else if a = port + 40 then det else 0)"
  by (simp add: quick_disk_def)

lemma quick_disk_ok: "det AND PORT_SSTAT_DET_MASK = det \<Longrightarrow> ata_disk (quick_disk port det ident) port det ident"
proof -
  assume det: "det AND PORT_SSTAT_DET_MASK = det"
  have dma: "ata_dma (quick_disk port det ident) (t @ [e]) m = m" if "\<not> issued port t" for t e m
    using that requested_issued [of port t] by (cases e) (auto intro!: quick_disk_dma)
  have cr: "(v AND (PORT_CMD_START OR PORT_CMD_FRE)) AND (PORT_CMD_CR OR PORT_CMD_FR) = 0"
    "(v AND (PORT_CMD_START OR PORT_CMD_FRE)) AND PORT_CMD_CR = 0"
    "(v AND (PORT_CMD_START OR PORT_CMD_FRE)) AND PORT_CMD_START = v AND PORT_CMD_START"
    "(v AND (PORT_CMD_START OR PORT_CMD_FRE)) AND PORT_CMD_FRE = v AND PORT_CMD_FRE" for v
    by (simp_all add: ata_consts and.assoc)
  show ?thesis unfolding ata_disk_def Let_def
    by (intro allI conjI impI; (rule exI [of _ 0])?) (use dma in \<open>auto simp: det cr intro: quick_disk_dma\<close>)
qed

definition demo_board :: ata_board where
  "demo_board = \<lparr>DMAPHY = 0, MAXLOWERPHY = 0x10000000, KSEG0_BASE = KSEG0, KSEG0_END = 0xffffffff9fffffff\<rparr>"

definition demo_port :: u64 where
  "demo_port = 0x9000000018000100"

definition demo_ata :: ata_state where
  "demo_ata = \<lparr>mem = \<lambda>_. 0, con = [], io = [], mem64 = \<lambda>_. 0, pio = [], ahci_current_rambase = 0x100000\<rparr>"

lemma demo_ata:
  "board_ok demo_board" "\<not> issued port (pio demo_ata)" "unat (ahci_current_rambase demo_ata) + 0x8000 \<le> unat (MAXLOWERPHY demo_board)"
  "PORT_SSTAT_DET_CONNECT AND PORT_SSTAT_DET_MASK = PORT_SSTAT_DET_CONNECT"
  by (simp_all add: board_ok_def demo_board_def demo_ata_def issued_def ata_consts)

lemma ahci_init_port_identifies_witness:
  "\<exists>s' sig b. ahci_init_port demo_board (quick_disk demo_port PORT_SSTAT_DET_CONNECT of_nat) demo_port 0 demo_ata = Some (0, s')
    \<and> \<not> issued demo_port (pio s')
    \<and> con s' = con demo_ata @ printed (''Signature: %08x'' @ crlf) [VWord sig]
        @ printed (CHR 0x09 # CHR 0x09 # ''Identification Data'' @ crlf) [] @ ident_text of_nat @ printed (''%02x'' @ crlf) [VWord b]
    \<and> ahci_current_rambase s' = ahci_current_rambase demo_ata + 0x8000
    \<and> (\<forall>i<512. mem64 s' (ahci_current_rambase demo_ata + 0x2000 + KSEG0 + of_nat i) = of_nat i)"
  by (rule ahci_init_port_identifies) (simp_all add: quick_disk_ok demo_ata)

text \<open>
  C37. Without a device, or with the port offline, \<open>ahci_init_port\<close> returns \<open>-ENODEV\<close>, and
  \<open>-EINVAL\<close> on a value of the detection field it does not know, which the comment above the function
  does not mention (``Zero if success, or -ENODEV if failure''). In both cases nothing is printed, the
  memory stays available, the command list is not set and the port is left stopped.
\<close>

theorem ahci_init_port_no_device:
  assumes "ata_disk hw port det ident" and "board_ok bd" and "\<not> issued port (pio s)"
    and "unat (ahci_current_rambase s) + 0x8000 \<le> unat (MAXLOWERPHY bd)"
    and "det \<noteq> PORT_SSTAT_DET_PRESENT" and "det \<noteq> PORT_SSTAT_DET_CONNECT"
  shows "\<exists>s'. ahci_init_port bd hw port serror s
      = Some (if det = PORT_SSTAT_DET_NONE \<or> det = PORT_SSTAT_DET_OFFLINE then - ENODEV else - EINVAL, s')
    \<and> con s' = con s \<and> ahci_current_rambase s' = ahci_current_rambase s
    \<and> stored port (pio s') = stored port (pio s) \<and> stored (port + 24) (pio s') AND PORT_CMD_START = 0"
proof -
  from init_reset_ok [OF assms(1-3) fb_room [OF assms(2,4)]] obtain s' where
    "init_port_reset bd hw port s = Some (det, s')" "dev_step port s s'" "stored (port + 24) (pio s') AND PORT_CMD_START = 0"
    "stored port (pio s') = stored port (pio s)" by blast
  then show ?thesis using assms(5,6) by (simp add: ahci_init_port_def dev_step_def)
qed

lemma ahci_init_port_no_device_witness:
  "\<exists>s'. ahci_init_port demo_board (quick_disk demo_port 4 of_nat) demo_port 0 demo_ata = Some (- ENODEV, s')
    \<and> con s' = [] \<and> ahci_current_rambase s' = 0x100000
    \<and> stored demo_port (pio s') = 0 \<and> stored (demo_port + 24) (pio s') AND PORT_CMD_START = 0"
proof -
  have "(4 :: u32) AND PORT_SSTAT_DET_MASK = 4" by (simp add: ata_consts)
  from ahci_init_port_no_device [OF quick_disk_ok [OF this], of demo_board demo_port demo_ata, where serror = 0] show ?thesis
    by (simp add: demo_ata ata_consts) (simp add: demo_ata_def stored_def)
qed

text \<open>
  Of the fields of the coalescing register, \<open>ahci_ccc_settimeout\<close> changes only the timeout, to
  the low 16 bits of its argument. \<open>ahci_ccc_setcc\<close> does not mask its argument: the bits of a
  count above 255 end up in the timeout.
\<close>

theorem ccc_settings:
  assumes "has_ccc hw hba"
  shows "fst (ahci_ccc_gettimeout hw hba (ahci_ccc_settimeout hw hba tv s)) = take_bit 16 tv
    \<and> fst (ahci_ccc_getcc hw hba (ahci_ccc_settimeout hw hba tv s)) = fst (ahci_ccc_getcc hw hba s)
    \<and> fst (ahci_ccc_getintr hw hba (ahci_ccc_settimeout hw hba tv s)) = fst (ahci_ccc_getintr hw hba s)
    \<and> fst (ahci_ccc_getcc hw hba (ahci_ccc_setcc hw hba cc s)) = take_bit 8 cc
    \<and> fst (ahci_ccc_gettimeout hw hba (ahci_ccc_setcc hw hba cc s)) = fst (ahci_ccc_gettimeout hw hba s) OR take_bit 16 (drop_bit 8 cc)"
  unfolding ahci_ccc_gettimeout_def ahci_ccc_settimeout_def ahci_ccc_getcc_def ahci_ccc_setcc_def ahci_ccc_getintr_def
    ccc_get_field [OF assms] ccc_set_stores [OF assms] ata_consts ccc_fields by simp

definition ccc_hba :: ata_hardware where
  "ccc_hba = \<lparr>ata_read = (\<lambda>t a. if a = demo_port then HBA_CAP_CCCS else stored a t), ata_dma = (\<lambda>t m. m)\<rparr>"

lemma ccc_settings_witness:
  "fst (ahci_ccc_gettimeout ccc_hba demo_port (ahci_ccc_settimeout ccc_hba demo_port 5 demo_ata)) = 5
   \<and> fst (ahci_ccc_gettimeout ccc_hba demo_port (ahci_ccc_setcc ccc_hba demo_port 256 demo_ata))
       = fst (ahci_ccc_gettimeout ccc_hba demo_port demo_ata) OR 1"
proof -
  have "has_ccc ccc_hba demo_port" by (simp add: has_ccc_def ccc_hba_def ata_consts)
  from ccc_settings [OF this, of 5 demo_ata 256] show ?thesis by simp
qed

end
