(* ===== verification/Mips_Regs.thy ===== *)
theory Mips_Regs
  imports Bus
begin

text \<open>
  The system control coprocessor of the MIPS64 processor: its registers and their fields
  (\<open>asm/cp0regdef.h\<close>) and the macros that access them (\<open>asm/mipsregs.h\<close>). What a register holds is
  a parameter, a function of the accesses so far; an access is an event of the trace. A register
  is its number and its selector.
\<close>

named_theorems cp0_consts

section \<open>Registers\<close>

definition CP0_INDEX :: "nat \<times> nat" where [cp0_consts]: "CP0_INDEX = (0, 0)"
definition CP0_RANDOM :: "nat \<times> nat" where [cp0_consts]: "CP0_RANDOM = (1, 0)"
definition CP0_ENTRYLO0 :: "nat \<times> nat" where [cp0_consts]: "CP0_ENTRYLO0 = (2, 0)"
definition CP0_ENTRYLO1 :: "nat \<times> nat" where [cp0_consts]: "CP0_ENTRYLO1 = (3, 0)"
definition CP0_CONTEXT :: "nat \<times> nat" where [cp0_consts]: "CP0_CONTEXT = (4, 0)"
definition CP0_PAGEMASK :: "nat \<times> nat" where [cp0_consts]: "CP0_PAGEMASK = (5, 0)"
definition CP0_PAGEGRAIN :: "nat \<times> nat" where [cp0_consts]: "CP0_PAGEGRAIN = (5, 1)"
definition CP0_WIRED :: "nat \<times> nat" where [cp0_consts]: "CP0_WIRED = (6, 0)"
definition CP0_HWRENA :: "nat \<times> nat" where [cp0_consts]: "CP0_HWRENA = (7, 0)"
definition CP0_BADVADDR :: "nat \<times> nat" where [cp0_consts]: "CP0_BADVADDR = (8, 0)"
definition CP0_COUNT :: "nat \<times> nat" where [cp0_consts]: "CP0_COUNT = (9, 0)"
definition CP0_ENTRYHI :: "nat \<times> nat" where [cp0_consts]: "CP0_ENTRYHI = (10, 0)"
definition CP0_COMPARE :: "nat \<times> nat" where [cp0_consts]: "CP0_COMPARE = (11, 0)"
definition CP0_STATUS :: "nat \<times> nat" where [cp0_consts]: "CP0_STATUS = (12, 0)"
definition CP0_INTCTL :: "nat \<times> nat" where [cp0_consts]: "CP0_INTCTL = (12, 1)"
definition CP0_SRSCTL :: "nat \<times> nat" where [cp0_consts]: "CP0_SRSCTL = (12, 2)"
definition CP0_SRSMAP :: "nat \<times> nat" where [cp0_consts]: "CP0_SRSMAP = (12, 3)"
definition CP0_CAUSE :: "nat \<times> nat" where [cp0_consts]: "CP0_CAUSE = (13, 0)"
definition CP0_EPC :: "nat \<times> nat" where [cp0_consts]: "CP0_EPC = (14, 0)"
definition CP0_PRID :: "nat \<times> nat" where [cp0_consts]: "CP0_PRID = (15, 0)"
definition CP0_EBASE :: "nat \<times> nat" where [cp0_consts]: "CP0_EBASE = (15, 1)"
definition CP0_CONFIG :: "nat \<times> nat" where [cp0_consts]: "CP0_CONFIG = (16, 0)"
definition CP0_CONFIG1 :: "nat \<times> nat" where [cp0_consts]: "CP0_CONFIG1 = (16, 1)"
definition CP0_CONFIG2 :: "nat \<times> nat" where [cp0_consts]: "CP0_CONFIG2 = (16, 2)"
definition CP0_CONFIG3 :: "nat \<times> nat" where [cp0_consts]: "CP0_CONFIG3 = (16, 3)"
definition CP0_LLADDR :: "nat \<times> nat" where [cp0_consts]: "CP0_LLADDR = (17, 0)"
definition CP0_WATCHLO :: "nat \<times> nat" where [cp0_consts]: "CP0_WATCHLO = (18, 0)"
definition CP0_WATCHHI :: "nat \<times> nat" where [cp0_consts]: "CP0_WATCHHI = (19, 0)"
definition CP0_XCONTEXT :: "nat \<times> nat" where [cp0_consts]: "CP0_XCONTEXT = (20, 0)"
definition CP0_FRAMEMASK :: "nat \<times> nat" where [cp0_consts]: "CP0_FRAMEMASK = (21, 0)"
definition CP0_DIAGNOSTIC :: "nat \<times> nat" where [cp0_consts]: "CP0_DIAGNOSTIC = (22, 0)"
definition CP0_PERFCTL :: "nat \<times> nat" where [cp0_consts]: "CP0_PERFCTL = (25, 0)"
definition CP0_PERFCNT :: "nat \<times> nat" where [cp0_consts]: "CP0_PERFCNT = (25, 1)"
definition CP0_ECC :: "nat \<times> nat" where [cp0_consts]: "CP0_ECC = (26, 0)"
definition CP0_CACHEERR :: "nat \<times> nat" where [cp0_consts]: "CP0_CACHEERR = (27, 0)"
definition CP0_CERRADDR :: "nat \<times> nat" where [cp0_consts]: "CP0_CERRADDR = (27, 1)"
definition CP0_TAGLO :: "nat \<times> nat" where [cp0_consts]: "CP0_TAGLO = (28, 0)"
definition CP0_DATALO :: "nat \<times> nat" where [cp0_consts]: "CP0_DATALO = (28, 1)"
definition CP0_TAGHI :: "nat \<times> nat" where [cp0_consts]: "CP0_TAGHI = (29, 0)"
definition CP0_DATAHI :: "nat \<times> nat" where [cp0_consts]: "CP0_DATAHI = (29, 1)"
definition CP0_ERROREPC :: "nat \<times> nat" where [cp0_consts]: "CP0_ERROREPC = (30, 0)"
definition CP0_DESAVE :: "nat \<times> nat" where [cp0_consts]: "CP0_DESAVE = (31, 0)"

section \<open>Fields\<close>

definition ST_CU3 :: u32 where [cp0_consts]: "ST_CU3 = 0x80000000"
definition ST_CU2 :: u32 where [cp0_consts]: "ST_CU2 = 0x40000000"
definition ST_CU1 :: u32 where [cp0_consts]: "ST_CU1 = 0x20000000"
definition ST_CU0 :: u32 where [cp0_consts]: "ST_CU0 = 0x10000000"
definition ST_RP :: u32 where [cp0_consts]: "ST_RP = 0x08000000"
definition ST_FR :: u32 where [cp0_consts]: "ST_FR = 0x04000000"
definition ST_RE :: u32 where [cp0_consts]: "ST_RE = 0x02000000"
definition ST_MX :: u32 where [cp0_consts]: "ST_MX = 0x01000000"
definition ST_PX :: u32 where [cp0_consts]: "ST_PX = 0x00800000"
definition ST_BEV :: u32 where [cp0_consts]: "ST_BEV = 0x00400000"
definition ST_TS :: u32 where [cp0_consts]: "ST_TS = 0x00200000"
definition ST_SR :: u32 where [cp0_consts]: "ST_SR = 0x00100000"
definition ST_NMI :: u32 where [cp0_consts]: "ST_NMI = 0x00080000"
definition ST_IM :: u32 where [cp0_consts]: "ST_IM = 0x0000ff00"
definition ST_KX :: u32 where [cp0_consts]: "ST_KX = 0x00000080"
definition ST_SX :: u32 where [cp0_consts]: "ST_SX = 0x00000040"
definition ST_UX :: u32 where [cp0_consts]: "ST_UX = 0x00000020"
definition ST_EXCM :: u32 where [cp0_consts]: "ST_EXCM = 0x0000001f"
definition ST_KSU :: u32 where [cp0_consts]: "ST_KSU = 0x00000018"
definition KSU_USER :: u32 where [cp0_consts]: "KSU_USER = 0x00000010"
definition KSU_SUPERVISOR :: u32 where [cp0_consts]: "KSU_SUPERVISOR = 0x00000008"
definition KSU_KERNEL :: u32 where [cp0_consts]: "KSU_KERNEL = 0x00000000"
definition ST_ERL :: u32 where [cp0_consts]: "ST_ERL = 0x00000004"
definition ST_EXL :: u32 where [cp0_consts]: "ST_EXL = 0x00000002"
definition ST_IE :: u32 where [cp0_consts]: "ST_IE = 0x00000001"
definition NR_INTS :: nat where [cp0_consts]: "NR_INTS = 8"
definition CR_BD :: u32 where [cp0_consts]: "CR_BD = 0x80000000"
definition CR_TI :: u32 where [cp0_consts]: "CR_TI = 0x40000000"
definition CR_CE :: u32 where [cp0_consts]: "CR_CE = 0x30000000"
definition CR_DC :: u32 where [cp0_consts]: "CR_DC = 0x08000000"
definition CR_PCI :: u32 where [cp0_consts]: "CR_PCI = 0x04000000"
definition CR_IV :: u32 where [cp0_consts]: "CR_IV = 0x00800000"
definition CR_WP :: u32 where [cp0_consts]: "CR_WP = 0x00400000"
definition CR_IP :: u32 where [cp0_consts]: "CR_IP = 0x0000ff00"
definition CR_EC :: u32 where [cp0_consts]: "CR_EC = 0x0000007c"
definition EC_int :: u32 where [cp0_consts]: "EC_int = 0"
definition EC_tlbm :: u32 where [cp0_consts]: "EC_tlbm = 1"
definition EC_tlbl :: u32 where [cp0_consts]: "EC_tlbl = 2"
definition EC_tlbs :: u32 where [cp0_consts]: "EC_tlbs = 3"
definition EC_adel :: u32 where [cp0_consts]: "EC_adel = 4"
definition EC_ades :: u32 where [cp0_consts]: "EC_ades = 5"
definition EC_ibe :: u32 where [cp0_consts]: "EC_ibe = 6"
definition EC_dbe :: u32 where [cp0_consts]: "EC_dbe = 7"
definition EC_sys :: u32 where [cp0_consts]: "EC_sys = 8"
definition EC_bp :: u32 where [cp0_consts]: "EC_bp = 9"
definition EC_ri :: u32 where [cp0_consts]: "EC_ri = 10"
definition EC_cpu :: u32 where [cp0_consts]: "EC_cpu = 11"
definition EC_ov :: u32 where [cp0_consts]: "EC_ov = 12"
definition EC_tr :: u32 where [cp0_consts]: "EC_tr = 13"
definition EC_fpe :: u32 where [cp0_consts]: "EC_fpe = 15"
definition EC_is :: u32 where [cp0_consts]: "EC_is = 16"
definition EC_dib :: u32 where [cp0_consts]: "EC_dib = 19"
definition EC_ddbs :: u32 where [cp0_consts]: "EC_ddbs = 20"
definition EC_ddbl :: u32 where [cp0_consts]: "EC_ddbl = 21"
definition EC_watch :: u32 where [cp0_consts]: "EC_watch = 23"
definition EC_dbp :: u32 where [cp0_consts]: "EC_dbp = 26"
definition EC_dint :: u32 where [cp0_consts]: "EC_dint = 27"
definition EC_dss :: u32 where [cp0_consts]: "EC_dss = 28"
definition EC_cacheerr :: u32 where [cp0_consts]: "EC_cacheerr = 30"
definition PM_4K :: u32 where [cp0_consts]: "PM_4K = 0x00000000"
definition PM_8K :: u32 where [cp0_consts]: "PM_8K = 0x00002000"
definition PM_16K :: u32 where [cp0_consts]: "PM_16K = 0x00006000"
definition PM_32K :: u32 where [cp0_consts]: "PM_32K = 0x0000e000"
definition PM_64K :: u32 where [cp0_consts]: "PM_64K = 0x0001e000"
definition PM_128K :: u32 where [cp0_consts]: "PM_128K = 0x0003e000"
definition PM_256K :: u32 where [cp0_consts]: "PM_256K = 0x0007e000"
definition PM_512K :: u32 where [cp0_consts]: "PM_512K = 0x000fe000"
definition PM_1M :: u32 where [cp0_consts]: "PM_1M = 0x001fe000"
definition PM_2M :: u32 where [cp0_consts]: "PM_2M = 0x003fe000"
definition PM_4M :: u32 where [cp0_consts]: "PM_4M = 0x007fe000"
definition PM_8M :: u32 where [cp0_consts]: "PM_8M = 0x00ffe000"
definition PM_16M :: u32 where [cp0_consts]: "PM_16M = 0x01ffe000"
definition PM_32M :: u32 where [cp0_consts]: "PM_32M = 0x03ffe000"
definition PM_64M :: u32 where [cp0_consts]: "PM_64M = 0x07ffe000"
definition PM_256M :: u32 where [cp0_consts]: "PM_256M = 0x1fffe000"
definition PM_1G :: u32 where [cp0_consts]: "PM_1G = 0x7fffe000"
definition PG_ELPA :: u32 where [cp0_consts]: "PG_ELPA = 0x20000000"
definition CONF_CM :: u32 where [cp0_consts]: "CONF_CM = 0x80000000"
definition CONF_BE :: u32 where [cp0_consts]: "CONF_BE = 0x00008000"
definition CONF_AT :: u32 where [cp0_consts]: "CONF_AT = 0x00006000"
definition CONF_EM :: u32 where [cp0_consts]: "CONF_EM = 0x00004000"
definition CONF_EB :: u32 where [cp0_consts]: "CONF_EB = 0x00002000"
definition CONF_AR :: u32 where [cp0_consts]: "CONF_AR = 0x00001c00"
definition CONF_R2 :: u32 where [cp0_consts]: "CONF_R2 = 0x00000400"
definition CONF_MT :: u32 where [cp0_consts]: "CONF_MT = 0x00000380"
definition CONF_TLB :: u32 where [cp0_consts]: "CONF_TLB = 0x00000080"
definition CONF_VI :: u32 where [cp0_consts]: "CONF_VI = 0x00000008"
definition CONF_K0 :: u32 where [cp0_consts]: "CONF_K0 = 0x00000007"
definition CONF_CACHEABLE :: u32 where [cp0_consts]: "CONF_CACHEABLE = 0x00000003"
definition CONF_UNCACHED :: u32 where [cp0_consts]: "CONF_UNCACHED = 0x00000002"
definition EBASE_CPUNUM_MASK :: u32 where [cp0_consts]: "EBASE_CPUNUM_MASK = 0x3ff"
definition ENTHI_ASID_MASK :: u64 where [cp0_consts]: "ENTHI_ASID_MASK = 0xff"
definition ENTHI_KSU_MASK :: u64 where [cp0_consts]: "ENTHI_KSU_MASK = 0xc000000000000000"
definition ST_IMx :: "nat \<Rightarrow> u32" where "ST_IMx i = push_bit (i + 8) 1"
definition CR_IPx :: "nat \<Rightarrow> u32" where "CR_IPx i = push_bit (i + 8) 1"
definition EXCCODE :: "u32 \<Rightarrow> u32" where "EXCCODE x = drop_bit 2 (x AND CR_EC)"

section \<open>Accesses\<close>

type_synonym cp0 = "io_event list \<Rightarrow> nat \<Rightarrow> nat \<Rightarrow> u64"

definition read_64bit_c0_register :: "cp0 \<Rightarrow> nat \<Rightarrow> nat \<Rightarrow> 'a machine_scheme \<Rightarrow> u64 \<times> 'a machine_scheme" where
  "read_64bit_c0_register cp0 source sel s = (let v = cp0 (io s) source sel in (v, s\<lparr>io := io s @ [Mfc0 source sel v]\<rparr>))"

definition read_32bit_c0_register :: "cp0 \<Rightarrow> nat \<Rightarrow> nat \<Rightarrow> 'a machine_scheme \<Rightarrow> u32 \<times> 'a machine_scheme" where
  "read_32bit_c0_register cp0 source sel s = (let (v, s) = read_64bit_c0_register cp0 source sel s in (ucast v, s))"

definition write_64bit_c0_register :: "nat \<Rightarrow> nat \<Rightarrow> u64 \<Rightarrow> 'a machine_scheme \<Rightarrow> 'a machine_scheme" where
  "write_64bit_c0_register reg sel value s = s\<lparr>io := io s @ [Mtc0 reg sel value]\<rparr>"

text \<open>\<open>mtc0\<close> writes the sign-extended word.\<close>

definition write_32bit_c0_register :: "nat \<Rightarrow> nat \<Rightarrow> u32 \<Rightarrow> 'a machine_scheme \<Rightarrow> 'a machine_scheme" where
  "write_32bit_c0_register reg sel value s = write_64bit_c0_register reg sel (scast value) s"

text \<open>\<open>unsigned long\<close> has 64 bits here.\<close>

definition read_ulong_c0_register :: "cp0 \<Rightarrow> nat \<Rightarrow> nat \<Rightarrow> 'a machine_scheme \<Rightarrow> u64 \<times> 'a machine_scheme" where
  "read_ulong_c0_register = read_64bit_c0_register"

definition write_ulong_c0_register :: "nat \<Rightarrow> nat \<Rightarrow> u64 \<Rightarrow> 'a machine_scheme \<Rightarrow> 'a machine_scheme" where
  "write_ulong_c0_register = write_64bit_c0_register"

definition read_c0_index :: "cp0 \<Rightarrow> 'a machine_scheme \<Rightarrow> u32 \<times> 'a machine_scheme" where "read_c0_index cp0 = read_32bit_c0_register cp0 0 0"
definition write_c0_index :: "u32 \<Rightarrow> 'a machine_scheme \<Rightarrow> 'a machine_scheme" where "write_c0_index = write_32bit_c0_register 0 0"
definition read_c0_random :: "cp0 \<Rightarrow> 'a machine_scheme \<Rightarrow> u32 \<times> 'a machine_scheme" where "read_c0_random cp0 = read_32bit_c0_register cp0 1 0"
definition read_c0_entrylo0 :: "cp0 \<Rightarrow> 'a machine_scheme \<Rightarrow> u64 \<times> 'a machine_scheme" where "read_c0_entrylo0 cp0 = read_ulong_c0_register cp0 2 0"
definition write_c0_entrylo0 :: "u64 \<Rightarrow> 'a machine_scheme \<Rightarrow> 'a machine_scheme" where "write_c0_entrylo0 = write_ulong_c0_register 2 0"
definition read_c0_entrylo1 :: "cp0 \<Rightarrow> 'a machine_scheme \<Rightarrow> u64 \<times> 'a machine_scheme" where "read_c0_entrylo1 cp0 = read_ulong_c0_register cp0 3 0"
definition write_c0_entrylo1 :: "u64 \<Rightarrow> 'a machine_scheme \<Rightarrow> 'a machine_scheme" where "write_c0_entrylo1 = write_ulong_c0_register 3 0"
definition read_c0_context :: "cp0 \<Rightarrow> 'a machine_scheme \<Rightarrow> u64 \<times> 'a machine_scheme" where "read_c0_context cp0 = read_ulong_c0_register cp0 4 0"
definition write_c0_context :: "u64 \<Rightarrow> 'a machine_scheme \<Rightarrow> 'a machine_scheme" where "write_c0_context = write_ulong_c0_register 4 0"
definition read_c0_pagemask :: "cp0 \<Rightarrow> 'a machine_scheme \<Rightarrow> u32 \<times> 'a machine_scheme" where "read_c0_pagemask cp0 = read_32bit_c0_register cp0 5 0"
definition write_c0_pagemask :: "u32 \<Rightarrow> 'a machine_scheme \<Rightarrow> 'a machine_scheme" where "write_c0_pagemask = write_32bit_c0_register 5 0"
definition read_c0_pagegrain :: "cp0 \<Rightarrow> 'a machine_scheme \<Rightarrow> u32 \<times> 'a machine_scheme" where "read_c0_pagegrain cp0 = read_32bit_c0_register cp0 5 1"
definition write_c0_pagegrain :: "u32 \<Rightarrow> 'a machine_scheme \<Rightarrow> 'a machine_scheme" where "write_c0_pagegrain = write_32bit_c0_register 5 1"
definition read_c0_wired :: "cp0 \<Rightarrow> 'a machine_scheme \<Rightarrow> u32 \<times> 'a machine_scheme" where "read_c0_wired cp0 = read_32bit_c0_register cp0 6 0"
definition write_c0_wired :: "u32 \<Rightarrow> 'a machine_scheme \<Rightarrow> 'a machine_scheme" where "write_c0_wired = write_32bit_c0_register 6 0"
definition read_c0_hwrena :: "cp0 \<Rightarrow> 'a machine_scheme \<Rightarrow> u32 \<times> 'a machine_scheme" where "read_c0_hwrena cp0 = read_32bit_c0_register cp0 7 0"
definition write_c0_hwrena :: "u32 \<Rightarrow> 'a machine_scheme \<Rightarrow> 'a machine_scheme" where "write_c0_hwrena = write_32bit_c0_register 7 0"
definition read_c0_badvaddr :: "cp0 \<Rightarrow> 'a machine_scheme \<Rightarrow> u64 \<times> 'a machine_scheme" where "read_c0_badvaddr cp0 = read_ulong_c0_register cp0 8 0"
definition read_c0_count :: "cp0 \<Rightarrow> 'a machine_scheme \<Rightarrow> u32 \<times> 'a machine_scheme" where "read_c0_count cp0 = read_32bit_c0_register cp0 9 0"
definition write_c0_count :: "u32 \<Rightarrow> 'a machine_scheme \<Rightarrow> 'a machine_scheme" where "write_c0_count = write_32bit_c0_register 9 0"
definition read_c0_entryhi :: "cp0 \<Rightarrow> 'a machine_scheme \<Rightarrow> u64 \<times> 'a machine_scheme" where "read_c0_entryhi cp0 = read_ulong_c0_register cp0 10 0"
definition write_c0_entryhi :: "u64 \<Rightarrow> 'a machine_scheme \<Rightarrow> 'a machine_scheme" where "write_c0_entryhi = write_ulong_c0_register 10 0"
definition read_c0_compare :: "cp0 \<Rightarrow> 'a machine_scheme \<Rightarrow> u32 \<times> 'a machine_scheme" where "read_c0_compare cp0 = read_32bit_c0_register cp0 11 0"
definition write_c0_compare :: "u32 \<Rightarrow> 'a machine_scheme \<Rightarrow> 'a machine_scheme" where "write_c0_compare = write_32bit_c0_register 11 0"
definition read_c0_status :: "cp0 \<Rightarrow> 'a machine_scheme \<Rightarrow> u32 \<times> 'a machine_scheme" where "read_c0_status cp0 = read_32bit_c0_register cp0 12 0"
definition read_c0_intctl :: "cp0 \<Rightarrow> 'a machine_scheme \<Rightarrow> u32 \<times> 'a machine_scheme" where "read_c0_intctl cp0 = read_32bit_c0_register cp0 12 1"
definition write_c0_intctl :: "u32 \<Rightarrow> 'a machine_scheme \<Rightarrow> 'a machine_scheme" where "write_c0_intctl = write_32bit_c0_register 12 1"
definition read_c0_srsctl :: "cp0 \<Rightarrow> 'a machine_scheme \<Rightarrow> u32 \<times> 'a machine_scheme" where "read_c0_srsctl cp0 = read_32bit_c0_register cp0 12 2"
definition write_c0_srsctl :: "u32 \<Rightarrow> 'a machine_scheme \<Rightarrow> 'a machine_scheme" where "write_c0_srsctl = write_32bit_c0_register 12 2"
definition read_c0_cause :: "cp0 \<Rightarrow> 'a machine_scheme \<Rightarrow> u32 \<times> 'a machine_scheme" where "read_c0_cause cp0 = read_32bit_c0_register cp0 13 0"
definition write_c0_cause :: "u32 \<Rightarrow> 'a machine_scheme \<Rightarrow> 'a machine_scheme" where "write_c0_cause = write_32bit_c0_register 13 0"
definition read_c0_epc :: "cp0 \<Rightarrow> 'a machine_scheme \<Rightarrow> u64 \<times> 'a machine_scheme" where "read_c0_epc cp0 = read_ulong_c0_register cp0 14 0"
definition write_c0_epc :: "u64 \<Rightarrow> 'a machine_scheme \<Rightarrow> 'a machine_scheme" where "write_c0_epc = write_ulong_c0_register 14 0"
definition read_c0_prid :: "cp0 \<Rightarrow> 'a machine_scheme \<Rightarrow> u32 \<times> 'a machine_scheme" where "read_c0_prid cp0 = read_32bit_c0_register cp0 15 0"
definition read_c0_ebase :: "cp0 \<Rightarrow> 'a machine_scheme \<Rightarrow> u32 \<times> 'a machine_scheme" where "read_c0_ebase cp0 = read_32bit_c0_register cp0 15 1"
definition write_c0_ebase :: "u32 \<Rightarrow> 'a machine_scheme \<Rightarrow> 'a machine_scheme" where "write_c0_ebase = write_32bit_c0_register 15 1"
definition read_c0_config :: "cp0 \<Rightarrow> 'a machine_scheme \<Rightarrow> u32 \<times> 'a machine_scheme" where "read_c0_config cp0 = read_32bit_c0_register cp0 16 0"
definition read_c0_config1 :: "cp0 \<Rightarrow> 'a machine_scheme \<Rightarrow> u32 \<times> 'a machine_scheme" where "read_c0_config1 cp0 = read_32bit_c0_register cp0 16 1"
definition read_c0_config2 :: "cp0 \<Rightarrow> 'a machine_scheme \<Rightarrow> u32 \<times> 'a machine_scheme" where "read_c0_config2 cp0 = read_32bit_c0_register cp0 16 2"
definition read_c0_config3 :: "cp0 \<Rightarrow> 'a machine_scheme \<Rightarrow> u32 \<times> 'a machine_scheme" where "read_c0_config3 cp0 = read_32bit_c0_register cp0 16 3"
definition write_c0_config :: "u32 \<Rightarrow> 'a machine_scheme \<Rightarrow> 'a machine_scheme" where "write_c0_config = write_32bit_c0_register 16 0"
definition write_c0_config1 :: "u32 \<Rightarrow> 'a machine_scheme \<Rightarrow> 'a machine_scheme" where "write_c0_config1 = write_32bit_c0_register 16 1"
definition write_c0_config2 :: "u32 \<Rightarrow> 'a machine_scheme \<Rightarrow> 'a machine_scheme" where "write_c0_config2 = write_32bit_c0_register 16 2"
definition write_c0_config3 :: "u32 \<Rightarrow> 'a machine_scheme \<Rightarrow> 'a machine_scheme" where "write_c0_config3 = write_32bit_c0_register 16 3"
definition read_c0_lladdr :: "cp0 \<Rightarrow> 'a machine_scheme \<Rightarrow> u64 \<times> 'a machine_scheme" where "read_c0_lladdr cp0 = read_ulong_c0_register cp0 17 0"
definition read_c0_watchlo :: "cp0 \<Rightarrow> 'a machine_scheme \<Rightarrow> u64 \<times> 'a machine_scheme" where "read_c0_watchlo cp0 = read_ulong_c0_register cp0 18 0"
definition write_c0_watchlo :: "u64 \<Rightarrow> 'a machine_scheme \<Rightarrow> 'a machine_scheme" where "write_c0_watchlo = write_ulong_c0_register 18 0"
definition read_c0_watchhi :: "cp0 \<Rightarrow> 'a machine_scheme \<Rightarrow> u32 \<times> 'a machine_scheme" where "read_c0_watchhi cp0 = read_32bit_c0_register cp0 19 0"
definition write_c0_watchhi :: "u32 \<Rightarrow> 'a machine_scheme \<Rightarrow> 'a machine_scheme" where "write_c0_watchhi = write_32bit_c0_register 19 0"
definition read_c0_xcontext :: "cp0 \<Rightarrow> 'a machine_scheme \<Rightarrow> u64 \<times> 'a machine_scheme" where "read_c0_xcontext cp0 = read_ulong_c0_register cp0 20 0"
definition write_c0_xcontext :: "u64 \<Rightarrow> 'a machine_scheme \<Rightarrow> 'a machine_scheme" where "write_c0_xcontext = write_ulong_c0_register 20 0"
definition read_c0_framemask :: "cp0 \<Rightarrow> 'a machine_scheme \<Rightarrow> u32 \<times> 'a machine_scheme" where "read_c0_framemask cp0 = read_32bit_c0_register cp0 21 0"
definition write_c0_framemask :: "u32 \<Rightarrow> 'a machine_scheme \<Rightarrow> 'a machine_scheme" where "write_c0_framemask = write_32bit_c0_register 21 0"
definition read_c0_diag :: "cp0 \<Rightarrow> 'a machine_scheme \<Rightarrow> u32 \<times> 'a machine_scheme" where "read_c0_diag cp0 = read_32bit_c0_register cp0 22 0"
definition write_c0_diag :: "u32 \<Rightarrow> 'a machine_scheme \<Rightarrow> 'a machine_scheme" where "write_c0_diag = write_32bit_c0_register 22 0"
definition read_c0_perfctrl0 :: "cp0 \<Rightarrow> 'a machine_scheme \<Rightarrow> u32 \<times> 'a machine_scheme" where "read_c0_perfctrl0 cp0 = read_32bit_c0_register cp0 25 0"
definition write_c0_perfctrl0 :: "u32 \<Rightarrow> 'a machine_scheme \<Rightarrow> 'a machine_scheme" where "write_c0_perfctrl0 = write_32bit_c0_register 25 0"
definition read_c0_perfcntr0 :: "cp0 \<Rightarrow> 'a machine_scheme \<Rightarrow> u32 \<times> 'a machine_scheme" where "read_c0_perfcntr0 cp0 = read_32bit_c0_register cp0 25 1"
definition write_c0_perfcntr0 :: "u32 \<Rightarrow> 'a machine_scheme \<Rightarrow> 'a machine_scheme" where "write_c0_perfcntr0 = write_32bit_c0_register 25 1"
definition read_c0_perfctrl1 :: "cp0 \<Rightarrow> 'a machine_scheme \<Rightarrow> u32 \<times> 'a machine_scheme" where "read_c0_perfctrl1 cp0 = read_32bit_c0_register cp0 25 2"
definition write_c0_perfctrl1 :: "u32 \<Rightarrow> 'a machine_scheme \<Rightarrow> 'a machine_scheme" where "write_c0_perfctrl1 = write_32bit_c0_register 25 2"
definition read_c0_perfcntr1 :: "cp0 \<Rightarrow> 'a machine_scheme \<Rightarrow> u32 \<times> 'a machine_scheme" where "read_c0_perfcntr1 cp0 = read_32bit_c0_register cp0 25 3"
definition write_c0_perfcntr1 :: "u32 \<Rightarrow> 'a machine_scheme \<Rightarrow> 'a machine_scheme" where "write_c0_perfcntr1 = write_32bit_c0_register 25 3"
definition read_c0_ecc :: "cp0 \<Rightarrow> 'a machine_scheme \<Rightarrow> u32 \<times> 'a machine_scheme" where "read_c0_ecc cp0 = read_32bit_c0_register cp0 26 0"
definition write_c0_ecc :: "u32 \<Rightarrow> 'a machine_scheme \<Rightarrow> 'a machine_scheme" where "write_c0_ecc = write_32bit_c0_register 26 0"
definition read_c0_cacheerr :: "cp0 \<Rightarrow> 'a machine_scheme \<Rightarrow> u32 \<times> 'a machine_scheme" where "read_c0_cacheerr cp0 = read_32bit_c0_register cp0 27 0"
definition read_c0_cerraddr :: "cp0 \<Rightarrow> 'a machine_scheme \<Rightarrow> u64 \<times> 'a machine_scheme" where "read_c0_cerraddr cp0 = read_ulong_c0_register cp0 27 1"
definition write_c0_cerraddr :: "u64 \<Rightarrow> 'a machine_scheme \<Rightarrow> 'a machine_scheme" where "write_c0_cerraddr = write_ulong_c0_register 27 1"
definition read_c0_taglo :: "cp0 \<Rightarrow> 'a machine_scheme \<Rightarrow> u32 \<times> 'a machine_scheme" where "read_c0_taglo cp0 = read_32bit_c0_register cp0 28 0"
definition write_c0_taglo :: "u32 \<Rightarrow> 'a machine_scheme \<Rightarrow> 'a machine_scheme" where "write_c0_taglo = write_32bit_c0_register 28 0"
definition read_c0_taghi :: "cp0 \<Rightarrow> 'a machine_scheme \<Rightarrow> u32 \<times> 'a machine_scheme" where "read_c0_taghi cp0 = read_32bit_c0_register cp0 29 0"
definition write_c0_taghi :: "u32 \<Rightarrow> 'a machine_scheme \<Rightarrow> 'a machine_scheme" where "write_c0_taghi = write_32bit_c0_register 29 0"
definition read_c0_datalo :: "cp0 \<Rightarrow> 'a machine_scheme \<Rightarrow> u32 \<times> 'a machine_scheme" where "read_c0_datalo cp0 = read_32bit_c0_register cp0 28 1"
definition write_c0_datalo :: "u32 \<Rightarrow> 'a machine_scheme \<Rightarrow> 'a machine_scheme" where "write_c0_datalo = write_32bit_c0_register 28 1"
definition read_c0_datahi :: "cp0 \<Rightarrow> 'a machine_scheme \<Rightarrow> u32 \<times> 'a machine_scheme" where "read_c0_datahi cp0 = read_32bit_c0_register cp0 29 1"
definition write_c0_datahi :: "u32 \<Rightarrow> 'a machine_scheme \<Rightarrow> 'a machine_scheme" where "write_c0_datahi = write_32bit_c0_register 29 1"
definition read_c0_errorepc :: "cp0 \<Rightarrow> 'a machine_scheme \<Rightarrow> u64 \<times> 'a machine_scheme" where "read_c0_errorepc cp0 = read_ulong_c0_register cp0 30 0"
definition write_c0_errorepc :: "u64 \<Rightarrow> 'a machine_scheme \<Rightarrow> 'a machine_scheme" where "write_c0_errorepc = write_ulong_c0_register 30 0"
definition read_c0_desave :: "cp0 \<Rightarrow> 'a machine_scheme \<Rightarrow> u64 \<times> 'a machine_scheme" where "read_c0_desave cp0 = read_ulong_c0_register cp0 31 0"
definition write_c0_desave :: "u64 \<Rightarrow> 'a machine_scheme \<Rightarrow> 'a machine_scheme" where "write_c0_desave = write_ulong_c0_register 31 0"
definition write_c0_status :: "u32 \<Rightarrow> 'a machine_scheme \<Rightarrow> 'a machine_scheme" where "write_c0_status = write_32bit_c0_register 12 0"

section \<open>Setting and clearing bits\<close>

text \<open>The three functions \<open>__BUILD_SET_C0\<close> makes for a register; they return its old value.\<close>

definition set_c0_status :: "cp0 \<Rightarrow> u32 \<Rightarrow> 'a machine_scheme \<Rightarrow> u32 \<times> 'a machine_scheme" where
  "set_c0_status cp0 setm s = (let (res, s) = read_c0_status cp0 s in (res, write_c0_status (res OR setm) s))"

definition clear_c0_status :: "cp0 \<Rightarrow> u32 \<Rightarrow> 'a machine_scheme \<Rightarrow> u32 \<times> 'a machine_scheme" where
  "clear_c0_status cp0 clear s = (let (res, s) = read_c0_status cp0 s in (res, write_c0_status (res AND NOT clear) s))"

definition change_c0_status :: "cp0 \<Rightarrow> u32 \<Rightarrow> u32 \<Rightarrow> 'a machine_scheme \<Rightarrow> u32 \<times> 'a machine_scheme" where
  "change_c0_status cp0 change val s =
     (let (res, s) = read_c0_status cp0 s in (res, write_c0_status (res AND NOT change OR (val AND change)) s))"

definition set_c0_cause :: "cp0 \<Rightarrow> u32 \<Rightarrow> 'a machine_scheme \<Rightarrow> u32 \<times> 'a machine_scheme" where
  "set_c0_cause cp0 setm s = (let (res, s) = read_c0_cause cp0 s in (res, write_c0_cause (res OR setm) s))"

definition clear_c0_cause :: "cp0 \<Rightarrow> u32 \<Rightarrow> 'a machine_scheme \<Rightarrow> u32 \<times> 'a machine_scheme" where
  "clear_c0_cause cp0 clear s = (let (res, s) = read_c0_cause cp0 s in (res, write_c0_cause (res AND NOT clear) s))"

definition change_c0_cause :: "cp0 \<Rightarrow> u32 \<Rightarrow> u32 \<Rightarrow> 'a machine_scheme \<Rightarrow> u32 \<times> 'a machine_scheme" where
  "change_c0_cause cp0 change val s =
     (let (res, s) = read_c0_cause cp0 s in (res, write_c0_cause (res AND NOT change OR (val AND change)) s))"

definition set_c0_config :: "cp0 \<Rightarrow> u32 \<Rightarrow> 'a machine_scheme \<Rightarrow> u32 \<times> 'a machine_scheme" where
  "set_c0_config cp0 setm s = (let (res, s) = read_c0_config cp0 s in (res, write_c0_config (res OR setm) s))"

definition clear_c0_config :: "cp0 \<Rightarrow> u32 \<Rightarrow> 'a machine_scheme \<Rightarrow> u32 \<times> 'a machine_scheme" where
  "clear_c0_config cp0 clear s = (let (res, s) = read_c0_config cp0 s in (res, write_c0_config (res AND NOT clear) s))"

definition change_c0_config :: "cp0 \<Rightarrow> u32 \<Rightarrow> u32 \<Rightarrow> 'a machine_scheme \<Rightarrow> u32 \<times> 'a machine_scheme" where
  "change_c0_config cp0 change val s =
     (let (res, s) = read_c0_config cp0 s in (res, write_c0_config (res AND NOT change OR (val AND change)) s))"

end
