(* ===== verification/Mips.thy ===== *)
theory Mips
  imports Mips_Regs Clock Printf Ahci
begin

text \<open>
  The start of the kernel on the Loongson board: \<open>kern/arch/mips64/setup.c\<close>, which sets up the
  clocks and the interrupt controllers and reads the identification of an IDE disk, and
  \<open>kern/arch/mips64/trap/traps.c\<close>, which installs the exception vectors. \<open>cp0\<close> is what the
  coprocessor's registers hold. \<open>None\<close> is "does not return".
\<close>

record mips_state = ata_state +
  cpu_freq :: u64

section \<open>Clocks\<close>

text \<open>The counter of the Loongson 3A advances every second cycle (\<open>mach/config.h\<close>).\<close>

definition COUNT_TO_FREQ :: "u64 \<Rightarrow> u64" where "COUNT_TO_FREQ n = n * 2"
definition FREQ_TO_COUNT :: "u64 \<Rightarrow> u64" where "FREQ_TO_COUNT freq = freq div 2"
definition NR_FREQ_SAMPLES :: nat where "NR_FREQ_SAMPLES = 4"

definition printk :: "string \<Rightarrow> va list \<Rightarrow> 'a machine_scheme \<Rightarrow> 'a machine_scheme" where
  "printk fmt ap s = uart_spin_printf fmt ap s"

text \<open>One sample: the counter at the beginning and at the end of a second of the clock chip.\<close>

definition sample_read :: "hardware \<Rightarrow> cp0 \<Rightarrow> 'a machine_scheme \<Rightarrow> (u32 \<times> u8) \<times> 'a machine_scheme" where
  "sample_read hw cp0 s =
     (let (cnt_new, s) = read_c0_count cp0 s; (x, s) = rtc_getsecond hw s in ((cnt_new, x), s))"

definition count_sample :: "hardware \<Rightarrow> cp0 \<Rightarrow> 'a machine_scheme \<Rightarrow> (u32 \<times> 'a machine_scheme) option" where
  "count_sample hw cp0 s = do {
     let (sec, s) = rtc_getsecond hw s;
     let (cnt, s) = read_c0_count cp0 s;
     ((cnt_new, _), s) \<leftarrow> spin_until (sample_read hw cp0) (\<lambda>(_, x). x \<noteq> sec) s;
     Some (cnt_new - cnt, s)
   }"

fun count_samples :: "hardware \<Rightarrow> cp0 \<Rightarrow> nat \<Rightarrow> u64 \<Rightarrow> 'a machine_scheme \<Rightarrow> (u64 \<times> 'a machine_scheme) option" where
  "count_samples hw cp0 0 count_inc s = Some (count_inc, s)"
| "count_samples hw cp0 (Suc n) count_inc s = do {
     (d, s) \<leftarrow> count_sample hw cp0 s;
     count_samples hw cp0 n (count_inc + ucast d) s
   }"

text \<open>The first of the five samples is dropped.\<close>

definition probe_count_freq :: "hardware \<Rightarrow> cp0 \<Rightarrow> 'a mips_state_scheme \<Rightarrow> 'a mips_state_scheme option" where
  "probe_count_freq hw cp0 s = do {
     let (_, s) = read_c0_count cp0 s;
     (_, s) \<leftarrow> count_sample hw cp0 s;
     (count_inc, s) \<leftarrow> count_samples hw cp0 NR_FREQ_SAMPLES 0 s;
     Some (s\<lparr>cpu_freq := COUNT_TO_FREQ (count_inc div of_nat NR_FREQ_SAMPLES)\<rparr>)
   }"

text \<open>The arguments of the second \<open>printk\<close> are read from left to right here; C does not say.\<close>

definition clock_init :: "hardware \<Rightarrow> cp0 \<Rightarrow> 'a mips_state_scheme \<Rightarrow> 'a mips_state_scheme option" where
  "clock_init hw cp0 s = (
     let s = printk (''Initializing Real Time Clock (RTC)...'' @ crlf) [] s;
         s = rtc_init s;
         (year, s) = rtc_getyear hw s; (month, s) = rtc_getmonth hw s; (day, s) = rtc_getday hw s;
         (hour, s) = rtc_gethour hw s; (minute, s) = rtc_getminute hw s; (second, s) = rtc_getsecond hw s;
         s = printk (''Current time: %04d-%02d-%02d %02d:%02d:%02d'' @ crlf)
           [VWord year, VWord (ucast month), VWord (ucast day), VWord (ucast hour), VWord (ucast minute), VWord (ucast second)] s;
         s = printk (''Determining CPU frequency...'' @ crlf) [] s
     in do {
       s \<leftarrow> probe_count_freq hw cp0 s;
       Some (printk (''CPU frequency: %u'' @ crlf) [VWord (ucast (cpu_freq s))] s)
     })"

definition usleep_mips :: "cp0 \<Rightarrow> u32 \<Rightarrow> 'a mips_state_scheme \<Rightarrow> 'a mips_state_scheme option" where
  "usleep_mips cp0 usec s = do {
     let cnt_incs = (ucast (FREQ_TO_COUNT (cpu_freq s div 1000000 * ucast usec)) :: u32);
     let (cnt, s) = read_c0_count cp0 s;
     (_, s) \<leftarrow> spin_until (read_c0_count cp0) (\<lambda>now. \<not> now - cnt < cnt_incs) s;
     Some s
   }"

section \<open>The board\<close>

definition out8x :: "u64 \<Rightarrow> u8 \<Rightarrow> 'a machine_scheme \<Rightarrow> 'a machine_scheme" where
  "out8x addr data s = s\<lparr>io := io s @ [Out8x addr data]\<rparr>"

definition out32x :: "u64 \<Rightarrow> u32 \<Rightarrow> 'a machine_scheme \<Rightarrow> 'a machine_scheme" where
  "out32x addr data s = s\<lparr>io := io s @ [Out32x addr data]\<rparr>"

text \<open>The base address registers of the SATA/IDE controller: \<open>ide_bar i\<close> is the \<open>i\<close>th.\<close>

definition pci_cfg :: "u32 \<Rightarrow> u32" where
  "pci_cfg reg = 0x1a000000 OR push_bit 11 0x11 OR reg"

definition ide_bar :: "hardware \<Rightarrow> u32 \<Rightarrow> 'a machine_scheme \<Rightarrow> u32 \<times> 'a machine_scheme" where
  "ide_bar hw i s = (let (v, s) = in32 hw (pci_cfg (0x10 + 4 * i)) s in ((v OR 0x18000000) AND NOT 7, s))"

text \<open>Looking for drives: the result is the last one found, as \<open>port\<close> and \<open>slave\<close>, which the code
  leaves uninitialised when there is none.\<close>

definition ide_probe ::
    "hardware \<Rightarrow> cp0 \<Rightarrow> nat \<Rightarrow> u32 \<Rightarrow> nat \<Rightarrow> (nat \<times> nat) option \<times> 'a mips_state_scheme \<Rightarrow> ((nat \<times> nat) option \<times> 'a mips_state_scheme) option" where
  "ide_probe hw cp0 i bar j = (\<lambda>(found, s). do {
     let s = out8 (bar + 6) (0xe0 + push_bit 4 (of_nat j)) s;
     s \<leftarrow> usleep_mips cp0 1000 s;
     let (stat, s) = in8 hw (bar + 7) s;
     let s = printk (''IDE DEV %d:%d STAT %02x'' @ crlf) [VWord (of_nat i), VWord (of_nat j), VWord (ucast stat)] s;
     Some (if stat AND 0x40 \<noteq> 0 \<and> stat AND 0x21 = 0 then Some (i, j) else found, s)
   })"

definition ide_channel ::
    "hardware \<Rightarrow> cp0 \<Rightarrow> nat \<Rightarrow> (nat \<times> nat) option \<times> 'a mips_state_scheme \<Rightarrow> ((nat \<times> nat) option \<times> 'a mips_state_scheme) option" where
  "ide_channel hw cp0 i = (\<lambda>(found, s). do {
     let (bar, s) = ide_bar hw (of_nat i) s;
     r \<leftarrow> ide_probe hw cp0 i bar 0 (found, s);
     ide_probe hw cp0 i bar 1 r
   })"

definition ide_scan :: "hardware \<Rightarrow> cp0 \<Rightarrow> 'a mips_state_scheme \<Rightarrow> ((nat \<times> nat) option \<times> 'a mips_state_scheme) option" where
  "ide_scan hw cp0 s = loop (ide_channel hw cp0) [0 ..< 4] (None, s)"

definition ht_setup :: "hardware \<Rightarrow> 'a machine_scheme \<Rightarrow> 'a machine_scheme" where
  "ht_setup hw s =
     (let s = printk (''Setting up HT interrupts'' @ crlf) [] s;
          s = fold (\<lambda>k s. out8 (0x3ff01418 + of_nat k) 0x21 s) [0 ..< 8] s;
          s = out32x 0xefdfb0000a0 0xffffffff s;
          (inten, s) = in32 hw 0x3ff01424 s
      in out32 0x3ff01428 (inten OR push_bit 16 0xffff OR push_bit 10 1) s)"

definition i8259_setup :: "'a machine_scheme \<Rightarrow> 'a machine_scheme" where
  "i8259_setup s = fold (\<lambda>(addr, v) s. out8x addr v s)
     [(0xefdfc000021, 0xff), (0xefdfc0000a1, 0xff), (0xefdfc000020, 0x11), (0xefdfc000021, 32),
      (0xefdfc000021, push_bit 2 1), (0xefdfc000021, 1), (0xefdfc0000a0, 0x11), (0xefdfc0000a1, 40),
      (0xefdfc0000a1, 2), (0xefdfc0000a1, 1), (0xefdfc000021, 0xff), (0xefdfc0000a1, 0xff)]
     (printk (''Setting up i8259A'' @ crlf) [] s)"

text \<open>Reading the identification: two bytes at a time while the drive has data, at most 999 times.\<close>

fun identify_data :: "hardware \<Rightarrow> cp0 \<Rightarrow> u32 \<Rightarrow> nat \<Rightarrow> nat \<Rightarrow> 'a mips_state_scheme \<Rightarrow> 'a mips_state_scheme option" where
  "identify_data hw cp0 bar cnt 0 s = Some s"
| "identify_data hw cp0 bar cnt (Suc n) s = (
     let (stat, s) = in8 hw (bar + 7) s
     in if stat AND 8 = 0 then Some s
        else let (buf, s) = in8 hw bar s; (buf2, s) = in8 hw bar s;
                 s = printk ''%02x %02x%s'' [VWord (ucast buf), VWord (ucast buf2),
                   VStr (Some (if cnt mod 8 = 0 then crlf else '' ''))] s
             in do {
               s \<leftarrow> usleep_mips cp0 1 s;
               if cnt + 1 = 1000 then Some (printk (''Exceeds'' @ crlf) [] s)
               else identify_data hw cp0 bar (cnt + 1) n s
             })"

datatype setup_result = Finished | Drive_error | Uninitialised

definition identify_drive ::
    "hardware \<Rightarrow> cp0 \<Rightarrow> nat \<Rightarrow> nat \<Rightarrow> u32 \<Rightarrow> 'a mips_state_scheme \<Rightarrow> (setup_result \<times> 'a mips_state_scheme) option" where
  "identify_drive hw cp0 port slave cause s = do {
     let (bar, s) = ide_bar hw (of_nat port) s;
     let (bar_ctrl, s) = ide_bar hw (of_nat port + 1) s;
     let s = printk (''Identifying device...'' @ crlf) [] s;
     let s = out8 (bar + 6) (0xe0 + push_bit 4 (of_nat slave)) s;
     let s = out8 (bar_ctrl + 2) 0 s;
     let s = out8 (bar + 7) 0xec s;
     (_, s) \<leftarrow> spin_until (read_c0_cause cp0) (\<lambda>c. cause \<noteq> c) s;
     let (cause_after, s) = read_c0_cause cp0 s;
     let s = printk (''CAUSE AFTER: %08x'' @ crlf) [VWord cause_after] s;
     let (stat, s) = in8 hw (bar + 7) s;
     if stat AND 1 \<noteq> 0 then Some (Drive_error, printk (''ERROR?'' @ crlf) [] s)
     else do {
       s \<leftarrow> identify_data hw cp0 bar 1 999 s;
       Some (Finished, printk (''Finished'' @ crlf) [] s)
     }
   }"

definition setup_arch :: "hardware \<Rightarrow> cp0 \<Rightarrow> 'a mips_state_scheme \<Rightarrow> (setup_result \<times> 'a mips_state_scheme) option" where
  "setup_arch hw cp0 s = do {
     s \<leftarrow> clock_init hw cp0 s;
     let (bar5, s) = in32 hw (pci_cfg 0x24) s;
     let s = printk (''SATA BAR5 = %08x'' @ crlf) [VWord bar5] s;
     let (cap, s) = in32 hw bar5 s;
     let s = printk (''SATA CAP = %08x'' @ crlf) [VWord cap] s;
     let (ghc, s) = in32 hw (bar5 + 4) s;
     let s = printk (''SATA GHC = %08x'' @ crlf) [VWord ghc] s;
     (found, s) \<leftarrow> ide_scan hw cp0 s;
     let s = i8259_setup (ht_setup hw s);
     let (cause, s) = read_c0_cause cp0 s;
     let s = printk (''CAUSE BEFORE: %08x'' @ crlf) [VWord cause] s;
     (case found of
        None \<Rightarrow> Some (Uninitialised, s)
      | Some (port, slave) \<Rightarrow> identify_drive hw cp0 port slave cause s)
   }"

text \<open>\<open>main\<close> of \<open>kern/init/main.c\<close>; nothing follows the set-up of the board.\<close>

definition kmain :: "hardware \<Rightarrow> cp0 \<Rightarrow> 'a mips_state_scheme \<Rightarrow> (setup_result \<times> 'a mips_state_scheme) option" where
  "kmain hw cp0 s = setup_arch hw cp0 (printk (''Hello from kernel!'' @ crlf) [] s)"

section \<open>Exception vectors\<close>

definition EXCEPT_BASE :: u64 where "EXCEPT_BASE = 0xffffffff80000000"
definition EXCEPT_TLB :: u64 where "EXCEPT_TLB = EXCEPT_BASE"
definition EXCEPT_TLBX :: u64 where "EXCEPT_TLBX = EXCEPT_BASE + 0x80"
definition EXCEPT_CACHEERR :: u64 where "EXCEPT_CACHEERR = EXCEPT_BASE + 0x100"
definition EXCEPT_GENERIC :: u64 where "EXCEPT_GENERIC = EXCEPT_BASE + 0x180"

text \<open>\<open>memcpy\<close> as it is compiled for this machine, whose words have 8 bytes.\<close>

fun copy_bytes64 :: "u64 \<Rightarrow> u64 \<Rightarrow> nat \<Rightarrow> memory64 \<Rightarrow> memory64" where
  "copy_bytes64 dst src 0 m = m"
| "copy_bytes64 dst src (Suc n) m = copy_bytes64 (dst + 1) (src + 1) n (m(dst := m src))"

fun copy_words64 :: "u64 \<Rightarrow> u64 \<Rightarrow> nat \<Rightarrow> memory64 \<Rightarrow> memory64" where
  "copy_words64 dst src 0 m = m"
| "copy_words64 dst src (Suc n) m = copy_words64 (dst + 8) (src + 8) n (stn m dst 8 (ldn m src 8))"

definition memcpy64 :: "u64 \<Rightarrow> u64 \<Rightarrow> u64 \<Rightarrow> memory64 \<Rightarrow> memory64" where
  "memcpy64 dst src len m =
     (if len = 0 \<or> dst = src then m
      else let t = (if (src OR dst) AND 7 \<noteq> 0
                    then if (src XOR dst) AND 7 \<noteq> 0 \<or> len < 8 then len else 8 - (src AND 7)
                    else 0);
               m = copy_bytes64 dst src (unat t) m;
               len = len - t;
               dst = dst + t;
               src = src + t;
               t = len div 8;
               m = copy_words64 dst src (unat t) m;
               dst = dst + 8 * t;
               src = src + 8 * t
           in copy_bytes64 dst src (unat (len AND 7)) m)"

text \<open>\<open>except_generic\<close> is the address of the assembly stub.\<close>

definition trap_init :: "u64 \<Rightarrow> 'a ata_state_scheme \<Rightarrow> 'a ata_state_scheme" where
  "trap_init except_generic s = fold (\<lambda>v s. s\<lparr>mem64 := memcpy64 v except_generic 0x80 (mem64 s)\<rparr>)
     [EXCEPT_TLB, EXCEPT_TLBX, EXCEPT_CACHEERR, EXCEPT_GENERIC] s"

definition handle_exception :: "'tf \<Rightarrow> 's \<Rightarrow> 's" where
  "handle_exception tf s = s"

end
