(* ===== verification/Mips_Correct.thy ===== *)
theory Mips_Correct
  imports Mips Ahci_Correct
begin

text \<open>
  What the set-up code of the Loongson board does, on hardware whose clocks advance: the busy wait
  waits as long as it should, the exception vectors are installed, and without a drive the
  identification goes on with uninitialised variables.
\<close>

section \<open>The counter\<close>

text \<open>The 32-bit counter shows a number that grows with every access, by at most \<open>2^20\<close>.\<close>

definition has_count :: "cp0 \<Rightarrow> (io_event list \<Rightarrow> nat) \<Rightarrow> bool" where
  "has_count cp0 c \<longleftrightarrow> (\<forall>t. (ucast (cp0 t 9 0) :: u32) = of_nat (c t)) \<and> (\<forall>t e. c t < c (t @ [e]) \<and> c (t @ [e]) \<le> c t + 2 ^ 20)"

lemma read_count:
  assumes "has_count cp0 c"
  shows "\<exists>e. read_c0_count cp0 s = (of_nat (c (io s)), s\<lparr>io := io s @ [e]\<rparr>)"
  using assms by (auto simp: has_count_def read_c0_count_def read_32bit_c0_register_def read_64bit_c0_register_def Let_def)

lemma count_step: "has_count cp0 c \<Longrightarrow> c t < c (t @ [e]) \<and> c (t @ [e]) \<le> c t + 2 ^ 20"
  by (simp add: has_count_def)

lemma spin_until_step:
  "acc s = (v, s1) \<Longrightarrow> spin_until acc ok s = (if ok v then Some (v, s1) else spin_until acc ok s1)"
  by (subst spin_until.simps) simp

lemma spin_count:
  assumes c: "has_count cp0 c" and n: "n + 2 ^ 20 < 2 ^ 32"
  shows "c0 \<le> c (io s) \<Longrightarrow> c (io s) \<le> c0 + n + 2 ^ 20 \<Longrightarrow>
    \<exists>v t. spin_until (read_c0_count cp0) (\<lambda>now. \<not> now - of_nat c0 < (of_nat n :: u32)) s = Some (v, s\<lparr>io := t\<rparr>)
      \<and> c0 + n \<le> c t \<and> c t \<le> c0 + n + 2 ^ 21"
proof (induction "c0 + n - c (io s)" arbitrary: s rule: less_induct)
  case less
  obtain e where e: "read_c0_count cp0 s = (of_nat (c (io s)), s\<lparr>io := io s @ [e]\<rparr>)" using read_count [OF c] by blast
  let ?s1 = "s\<lparr>io := io s @ [e]\<rparr>"
  note step = count_step [OF c, of "io s" e]
  have d: "of_nat (c (io s)) - of_nat c0 = (of_nat (c (io s) - c0) :: u32)" using less.prems(1) by (simp add: of_nat_diff)
  have small: "c (io s) - c0 < 4294967296" "n < 4294967296" using less.prems(2) n by simp_all
  have lt: "of_nat (c (io s) - c0) < (of_nat n :: u32) \<longleftrightarrow> c (io s) - c0 < n"
    unfolding word_less_nat_alt unat_of_nat_u32 [OF small(1)] unat_of_nat_u32 [OF small(2)] ..
  note unfold = spin_until_step [where acc = "read_c0_count cp0", OF e, where ok = "\<lambda>now. \<not> now - of_nat c0 < of_nat n", unfolded d lt not_not]
  show ?case
  proof (cases "c (io s) - c0 < n")
    case False
    have "c0 + n \<le> c (io ?s1)" "c (io ?s1) \<le> c0 + n + 2 ^ 21"
      using False less.prems step by (simp_all, linarith+)
    then show ?thesis unfolding unfold if_P [OF False] by auto
  next
    case True
    have "c0 + n - c (io ?s1) < c0 + n - c (io s)" "c0 \<le> c (io ?s1)" "c (io ?s1) \<le> c0 + n + 2 ^ 20"
      using less.prems step True by (simp_all, linarith+)
    from less.hyps [OF this] obtain v t where
      "spin_until (read_c0_count cp0) (\<lambda>now. \<not> now - of_nat c0 < (of_nat n :: u32)) ?s1 = Some (v, ?s1\<lparr>io := t\<rparr>)"
      "c0 + n \<le> c t" "c t \<le> c0 + n + 2 ^ 21" by blast
    then show ?thesis using True unfolding unfold by auto
  qed
qed

definition usleep_ticks :: "u64 \<Rightarrow> u32 \<Rightarrow> nat" where
  "usleep_ticks freq usec = unat freq div 1000000 * unat usec div 2"

lemma usleep_ok:
  assumes c: "has_count cp0 c" and n: "usleep_ticks (cpu_freq s) usec + 2 ^ 20 < 2 ^ 32"
  shows "\<exists>t. usleep_mips cp0 usec s = Some (s\<lparr>io := t\<rparr>) \<and> c (io s) + usleep_ticks (cpu_freq s) usec \<le> c t
    \<and> c t \<le> c (io s) + usleep_ticks (cpu_freq s) usec + 2 ^ 22"
proof -
  let ?n = "usleep_ticks (cpu_freq s) usec"
  obtain e where e: "read_c0_count cp0 s = (of_nat (c (io s)), s\<lparr>io := io s @ [e]\<rparr>)" using read_count [OF c] by blast
  let ?s1 = "s\<lparr>io := io s @ [e]\<rparr>"
  have small: "unat (cpu_freq s) div 1000000 * unat usec < 2 ^ 64" using n by (simp add: usleep_ticks_def)
  have "unat (cpu_freq s div 1000000 * ucast usec) = unat (cpu_freq s) div 1000000 * unat usec"
    using small unsigned_less [of "cpu_freq s", where ?'a = nat]
    by (simp add: unat_word_ariths unat_div)
  then have n': "unat (FREQ_TO_COUNT (cpu_freq s div 1000000 * ucast usec)) = ?n"
    by (simp add: FREQ_TO_COUNT_def unat_div usleep_ticks_def)
  have incs: "ucast (FREQ_TO_COUNT (cpu_freq s div 1000000 * ucast usec)) = (of_nat ?n :: u32)"
    unfolding n' [symmetric] by simp
  note st = count_step [OF c, of "io s" e]
  have "c (io s) \<le> c (io ?s1)" "c (io ?s1) \<le> c (io s) + ?n + 2 ^ 20" using st by auto
  from spin_count [OF c n this] obtain v t where
    t: "spin_until (read_c0_count cp0) (\<lambda>now. \<not> now - of_nat (c (io s)) < (of_nat ?n :: u32)) ?s1 = Some (v, ?s1\<lparr>io := t\<rparr>)"
      "c (io s) + ?n \<le> c t" "c t \<le> c (io s) + ?n + 2 ^ 21" by blast
  have "usleep_mips cp0 usec s = Some (s\<lparr>io := t\<rparr>)" by (simp add: usleep_mips_def e incs t(1))
  then show ?thesis using t by auto
qed

section \<open>Finding no drive\<close>

text \<open>The seconds of the clock chip change: the wait of a sample ends.\<close>

definition seconds_pass :: "hardware \<Rightarrow> cp0 \<Rightarrow> bool" where
  "seconds_pass hw cp0 \<longleftrightarrow> (\<forall>(s :: unit mips_state_scheme) sec. \<exists>k.
     snd (fst (sample_read hw cp0 (((snd \<circ> sample_read hw cp0) ^^ k) s))) \<noteq> sec)"

text \<open>Status registers, at the seventh byte of a command block, never show a drive that is ready
  and neither busy with a fault nor in error.\<close>

definition no_drive :: "hardware \<Rightarrow> bool" where
  "no_drive hw \<longleftrightarrow> (\<forall>t a. a AND 7 = 7 \<longrightarrow>
     (ucast (hw_read hw t a) :: u8) AND 0x40 = 0 \<or> (ucast (hw_read hw t a) :: u8) AND 0x21 \<noteq> 0)"

definition freq_kept :: "'a mips_state_scheme \<Rightarrow> 'a mips_state_scheme \<Rightarrow> bool" where
  "freq_kept s s' \<longleftrightarrow> cpu_freq s' = cpu_freq s"

lemma freq_kept_steps [simp]:
  "cpu_freq (printk fmt ap s) = cpu_freq s" "cpu_freq (out8 a8 v8 s) = cpu_freq s" "cpu_freq (snd (in8 hw a8 s)) = cpu_freq s"
  "cpu_freq (snd (in32 hw a8 s)) = cpu_freq s"
  by (simp_all add: printk_def out8_def in8_def in32_def bus_read_def Let_def uart_spin_printf_def uart_spin_vprintf_def
      uart_spin_puts_def kputs_def split: vsn_result.split)

lemma bar_status: "((v OR 0x18000000) AND NOT 7) + 7 AND (7 :: u32) = 7"
proof -
  have "((v OR 0x18000000) AND NOT 7) + 7 = ((v OR 0x18000000) AND NOT 7) OR 7"
    by (rule disjunctive_add) (auto simp: bit_simps)
  then show ?thesis by (simp add: bit.conj_disj_distrib2 and.assoc)
qed

lemma ide_probe_none:
  assumes c: "has_count cp0 c" and hw: "no_drive hw" and n: "usleep_ticks (cpu_freq s) 1000 + 2 ^ 20 < 2 ^ 32"
    and bar: "bar + 7 AND 7 = 7"
  shows "\<exists>s'. ide_probe hw cp0 i bar j (None, s) = Some (None, s') \<and> cpu_freq s' = cpu_freq s"
proof -
  let ?s1 = "out8 (bar + 6) (0xe0 + push_bit 4 (of_nat j)) s"
  obtain t where t: "usleep_mips cp0 1000 ?s1 = Some (?s1\<lparr>io := t\<rparr>)" using usleep_ok [OF c, of ?s1 1000] n by auto
  let ?s2 = "?s1\<lparr>io := t\<rparr>"
  obtain stat s3 where s3: "in8 hw (bar + 7) ?s2 = (stat, s3)" by force
  have st: "stat = ucast (hw_read hw t (bar + 7))" "cpu_freq s3 = cpu_freq s"
    using s3 freq_kept_steps(3) [of hw "bar + 7" ?s2] by (auto simp: in8_def Let_def)
  have "\<not> (stat AND 0x40 \<noteq> 0 \<and> stat AND 0x21 = 0)" using hw bar unfolding no_drive_def st(1) by blast
  then show ?thesis using st by (simp add: ide_probe_def t s3)
qed

lemma ide_channel_none:
  assumes c: "has_count cp0 c" and hw: "no_drive hw" and n: "usleep_ticks (cpu_freq s) 1000 + 2 ^ 20 < 2 ^ 32"
  shows "\<exists>s'. ide_channel hw cp0 i (None, s) = Some (None, s') \<and> cpu_freq s' = cpu_freq s"
proof -
  obtain v s1 where s1: "in32 hw (pci_cfg (0x10 + 4 * of_nat i)) s = (v, s1)" by force
  have f: "cpu_freq s1 = cpu_freq s" using s1 freq_kept_steps(4) [of hw "pci_cfg (0x10 + 4 * of_nat i)" s] by simp
  let ?bar = "(v OR 0x18000000) AND NOT 7"
  have n1: "usleep_ticks (cpu_freq s1) 1000 + 2 ^ 20 < 2 ^ 32" using n f by simp
  from ide_probe_none [OF c hw n1 bar_status] obtain s2 where
    s2: "ide_probe hw cp0 i ?bar 0 (None, s1) = Some (None, s2)" "cpu_freq s2 = cpu_freq s1" by blast
  have n2: "usleep_ticks (cpu_freq s2) 1000 + 2 ^ 20 < 2 ^ 32" using n1 s2(2) by simp
  from ide_probe_none [OF c hw n2 bar_status] obtain s3 where
    s3: "ide_probe hw cp0 i ?bar 1 (None, s2) = Some (None, s3)" "cpu_freq s3 = cpu_freq s2" by blast
  have "ide_channel hw cp0 i (None, s) = Some (None, s3)"
    unfolding ide_channel_def ide_bar_def Let_def case_prod_conv s1 s2(1) bind.bind_lunit s3(1) ..
  then show ?thesis using f s2(2) s3(2) by simp
qed

lemma ide_scan_none:
  assumes c: "has_count cp0 c" and hw: "no_drive hw" and n: "usleep_ticks (cpu_freq s) 1000 + 2 ^ 20 < 2 ^ 32"
  shows "\<exists>s'. ide_scan hw cp0 s = Some (None, s')"
proof -
  have "\<exists>s'. loop (ide_channel hw cp0) is (None, s) = Some (None, s')" if "usleep_ticks (cpu_freq s) 1000 + 2 ^ 20 < 2 ^ 32" for "is" s
    using that
  proof (induction "is" arbitrary: s)
    case (Cons i "is")
    from ide_channel_none [OF c hw Cons.prems] obtain s1 where
      "ide_channel hw cp0 i (None, s) = Some (None, s1)" "cpu_freq s1 = cpu_freq s" by blast
    then show ?case using Cons.IH [of s1] Cons.prems by simp
  qed simp
  from this [OF n] show ?thesis unfolding ide_scan_def .
qed

lemma count_sample_returns:
  assumes "seconds_pass hw cp0"
  shows "\<exists>d s'. count_sample hw cp0 (s :: mips_state) = Some (d, s')"
proof -
  obtain sec s1 where s1: "rtc_getsecond hw s = (sec, s1)" by force
  obtain cnt s2 where s2: "read_c0_count cp0 s1 = (cnt, s2)" by force
  from assms obtain k where "(\<lambda>(_, x). x \<noteq> sec) (fst (sample_read hw cp0 (((snd \<circ> sample_read hw cp0) ^^ k) s2)))"
    by (auto simp: seconds_pass_def case_prod_beta)
  from spin_until_returns [where ok = "\<lambda>(_, x). x \<noteq> sec" and acc = "sample_read hw cp0", OF this] obtain v s3 where
    "spin_until (sample_read hw cp0) (\<lambda>(_, x). x \<noteq> sec) s2 = Some (v, s3)" by blast
  then show ?thesis by (cases v) (simp add: count_sample_def s1 s2)
qed

lemma count_samples_returns:
  assumes "seconds_pass hw cp0"
  shows "unat inc + n * (2 ^ 32 - 1) < 2 ^ 64 \<Longrightarrow>
    \<exists>r s'. count_samples hw cp0 n inc (s :: mips_state) = Some (r, s') \<and> unat r \<le> unat inc + n * (2 ^ 32 - 1)"
proof (induction n arbitrary: inc s)
  case (Suc n)
  obtain d s1 where d: "count_sample hw cp0 s = Some (d, s1)" using count_sample_returns [OF assms] by blast
  have u: "unat (inc + ucast d) = unat inc + unat d" using Suc.prems u32_bound [of d] by (simp add: unat_word_ariths)
  then have "unat (inc + ucast d) + n * (2 ^ 32 - 1) < 2 ^ 64" using Suc.prems u32_bound [of d] by simp
  from Suc.IH [OF this, of s1] obtain r s' where
    "count_samples hw cp0 n (inc + ucast d) s1 = Some (r, s')" "unat r \<le> unat (inc + ucast d) + n * (2 ^ 32 - 1)" by blast
  then show ?case using d u u32_bound [of d] by simp
qed simp

lemma clock_init_returns:
  assumes "seconds_pass hw cp0"
  shows "\<exists>s'. clock_init hw cp0 (s :: mips_state) = Some s' \<and> unat (cpu_freq s') < 2 ^ 33"
proof -
  have probe: "\<exists>s'. probe_count_freq hw cp0 s = Some s' \<and> unat (cpu_freq s') < 2 ^ 33" for s :: mips_state
  proof -
    obtain x s1 where s1: "read_c0_count cp0 s = (x, s1)" by force
    obtain d s2 where s2: "count_sample hw cp0 s1 = Some (d, s2)" using count_sample_returns [OF assms] by blast
    obtain r s3 where s3: "count_samples hw cp0 NR_FREQ_SAMPLES 0 s2 = Some (r, s3)" "unat r \<le> 4 * (2 ^ 32 - 1)"
      using count_samples_returns [OF assms, of 0 NR_FREQ_SAMPLES s2] by (auto simp: NR_FREQ_SAMPLES_def)
    have "unat (r div 4) = unat r div 4" by (simp add: unat_div)
    then have "unat (r div 4 * 2) < 2 ^ 33" using s3(2) by (simp add: unat_word_ariths)
    then show ?thesis using s1 s2 s3(1) by (simp add: probe_count_freq_def COUNT_TO_FREQ_def NR_FREQ_SAMPLES_def)
  qed
  have "\<exists>s'. (do { s \<leftarrow> probe_count_freq hw cp0 x; Some (printk fmt [VWord (ucast (cpu_freq s))] s) }) = Some s' \<and> unat (cpu_freq s') < 2 ^ 33"
    for x :: mips_state and fmt using probe [of x] by auto
  then show ?thesis unfolding clock_init_def Let_def case_prod_beta .
qed

lemma usleep_ticks_small: "unat f < 2 ^ 33 \<Longrightarrow> usleep_ticks f 1000 + 2 ^ 20 < 2 ^ 32"
  unfolding usleep_ticks_def by simp

lemma setup_no_drive_ok:
  assumes c: "has_count cp0 c" and sec: "seconds_pass hw cp0" and hw: "no_drive hw"
  shows "\<exists>s'. setup_arch hw cp0 (s :: mips_state) = Some (Uninitialised, s')"
proof -
  obtain s1 where s1: "clock_init hw cp0 s = Some s1" "unat (cpu_freq s1) < 2 ^ 33" using clock_init_returns [OF sec] by blast
  note n = usleep_ticks_small [OF s1(2)]
  have scan: "\<exists>s'. ide_scan hw cp0 s2 = Some (None, s')" if "cpu_freq s2 = cpu_freq s1" for s2 :: mips_state
    using ide_scan_none [OF c hw] n that by metis
  obtain bar5 s2 where s2: "in32 hw (pci_cfg 0x24) s1 = (bar5, s2)" by force
  obtain cap s3 where s3: "in32 hw bar5 (printk (''SATA BAR5 = %08x'' @ crlf) [VWord bar5] s2) = (cap, s3)" by force
  obtain ghc s4 where s4: "in32 hw (bar5 + 4) (printk (''SATA CAP = %08x'' @ crlf) [VWord cap] s3) = (ghc, s4)" by force
  have "cpu_freq s4 = cpu_freq s1"
    using arg_cong [OF s2, of "\<lambda>x. cpu_freq (snd x)"] arg_cong [OF s3, of "\<lambda>x. cpu_freq (snd x)"] arg_cong [OF s4, of "\<lambda>x. cpu_freq (snd x)"]
    by simp
  then have "cpu_freq (printk (''SATA GHC = %08x'' @ crlf) [VWord ghc] s4) = cpu_freq s1" by simp
  from scan [OF this] obtain s5 where
    s5: "ide_scan hw cp0 (printk (''SATA GHC = %08x'' @ crlf) [VWord ghc] s4) = Some (None, s5)" by blast
  show ?thesis
    unfolding setup_arch_def Let_def s1(1) bind.bind_lunit s2 case_prod_conv s3 s4 s5
    by (cases "read_c0_cause cp0 (i8259_setup (ht_setup hw s5))") simp
qed

section \<open>Vectors\<close>

lemma copy_bytes64_at:
  "(\<And>i. i < n \<Longrightarrow> n \<le> unat (src + of_nat i - dst)) \<Longrightarrow> n < 2 ^ 64 \<Longrightarrow>
    copy_bytes64 dst src n m x = (if unat (x - dst) < n then m (src + (x - dst)) else m x)"
proof (induction n arbitrary: dst src m)
  case (Suc n)
  have far: "n \<le> unat (src + 1 + of_nat i - (dst + 1))" if "i < n" for i
    using Suc.prems(1) [of i] that by (simp add: add_diff_eq)
  have "src + of_nat i \<noteq> dst" if "i < Suc n" for i using Suc.prems(1) [OF that] by auto
  then have keep: "(m(dst := m src)) (src + of_nat i) = m (src + of_nat i)" if "i < Suc n" for i using that by auto
  have n: "n < 2 ^ 64" using Suc.prems(2) by simp
  have IH: "copy_bytes64 dst src (Suc n) m x = (if unat (x - (dst + 1)) < n then (m(dst := m src)) (src + 1 + (x - (dst + 1))) else (m(dst := m src)) x)"
    unfolding copy_bytes64.simps(2) by (rule Suc.IH [OF far n])
  show ?case
  proof (cases "x = dst")
    case True
    have "(- 1 :: u64) = 0xFFFFFFFFFFFFFFFF" by simp
    then have "unat (- 1 :: u64) = 2 ^ 64 - 1" by (simp only:) simp
    then have "\<not> unat (x - (dst + 1)) < n" using True n by simp
    then show ?thesis using IH True by simp
  next
    case False
    then have nz: "x - dst \<noteq> 0" by simp
    have "unat (x - (dst + 1)) = unat (x - dst) - 1" using unat_minus_one [OF nz] by (simp add: diff_diff_eq)
    moreover have "unat (x - dst) \<noteq> 0" using nz by (simp only: unat_eq_zero) simp
    ultimately have u: "unat (x - (dst + 1)) < n \<longleftrightarrow> unat (x - dst) < Suc n" by linarith
    have e: "src + 1 + (x - (dst + 1)) = src + (x - dst)" by (simp add: algebra_simps)
    have "(m(dst := m src)) (src + (x - dst)) = m (src + (x - dst))" if "unat (x - dst) < Suc n"
      using keep [OF that] by simp
    then show ?thesis unfolding IH u e using False by simp
  qed
qed simp

lemma copy_bytes64_add: "copy_bytes64 dst src (n + k) m = copy_bytes64 (dst + of_nat n) (src + of_nat n) k (copy_bytes64 dst src n m)"
  by (induction n arbitrary: dst src m) (simp_all add: add.assoc add.commute [of 1])

text \<open>A word is copied as its bytes are.\<close>

lemma ldn_byte: "i < n \<Longrightarrow> n \<le> 8 \<Longrightarrow> (ucast (drop_bit (8 * i) (ldn m a n)) :: u8) = m (a + of_nat i)"
proof (induction n arbitrary: i a)
  case (Suc n)
  show ?case
  proof (cases i)
    case 0
    then show ?thesis by (auto intro!: bit_word_eqI simp: bit_simps)
  next
    case (Suc j)
    have "(ucast (drop_bit (8 * i) (ldn m a (Suc n))) :: u8) = ucast (drop_bit (8 * j) (ldn m (a + 1) n))"
    proof (rule bit_word_eqI)
      fix k assume k: "k < LENGTH(8)"
      have "\<not> bit (m a) (8 + 8 * j + k)" using bit_imp_le_length [of "m a" "8 + 8 * j + k"] by auto
      then show "bit (ucast (drop_bit (8 * i) (ldn m a (Suc n))) :: u8) k = bit (ucast (drop_bit (8 * j) (ldn m (a + 1) n)) :: u8) k"
        using Suc Suc.prems k by (auto simp: bit_simps)
    qed
    also have "\<dots> = m (a + 1 + of_nat j)" using Suc.IH [of j "a + 1"] Suc.prems Suc by simp
    finally show ?thesis by (simp add: Suc add.assoc)
  qed
qed simp

lemma word_copied:
  assumes far: "\<And>i. i < n \<Longrightarrow> n \<le> unat (src + of_nat i - dst)" and n: "n \<le> 8"
    and v: "\<And>i. i < n \<Longrightarrow> (ucast (drop_bit (8 * i) v) :: u8) = m (src + of_nat i)"
  shows "stn m dst n v = copy_bytes64 dst src n m"
  using assms
proof (induction n arbitrary: dst src m v)
  case (Suc n)
  have v0: "(ucast v :: u8) = m src" using Suc.prems(3) [of 0] by simp
  have ne: "src + of_nat i \<noteq> dst" if "i < Suc n" for i using Suc.prems(1) [OF that] by auto
  have v': "(ucast (drop_bit (8 * i) (drop_bit 8 v)) :: u8) = (m(dst := m src)) (src + 1 + of_nat i)" if "i < n" for i
    using Suc.prems(3) [of "Suc i"] ne [of "Suc i"] that by (simp add: add.assoc add.commute [of 8])
  have far': "n \<le> unat (src + 1 + of_nat i - (dst + 1))" if "i < n" for i
    using Suc.prems(1) [of i] that by (simp add: add_diff_eq)
  have n': "n \<le> 8" using Suc.prems(2) by simp
  show ?case unfolding stn.simps copy_bytes64.simps v0 by (rule Suc.IH [OF far' n' v'])
qed simp

lemma copy_words64_bytes:
  "(\<And>i. i < 8 * n \<Longrightarrow> 8 * n \<le> unat (src + of_nat i - dst)) \<Longrightarrow> 8 * n < 2 ^ 64 \<Longrightarrow>
    copy_words64 dst src n m = copy_bytes64 dst src (8 * n) m"
proof (induction n arbitrary: dst src m)
  case (Suc n)
  have far8: "8 \<le> unat (src + of_nat i - dst)" if "i < 8" for i using Suc.prems(1) [of i] that by simp
  have word: "stn m dst 8 (ldn m src 8) = copy_bytes64 dst src 8 m"
    by (rule word_copied [OF far8 order_refl ldn_byte]) simp_all
  have far': "8 * n \<le> unat (src + 8 + of_nat i - (dst + 8))" if "i < 8 * n" for i
    using Suc.prems(1) [of i] that by (simp add: algebra_simps)
  have n': "8 * n < 2 ^ 64" using Suc.prems(2) by simp
  have "copy_words64 dst src (Suc n) m = copy_bytes64 (dst + 8) (src + 8) (8 * n) (copy_bytes64 dst src 8 m)"
    unfolding copy_words64.simps word by (rule Suc.IH [OF far' n'])
  then show ?case using copy_bytes64_add [of dst src 8 "8 * n" m] by simp
qed simp

lemma far_shift:
  assumes "\<And>i. i < n \<Longrightarrow> n \<le> unat (src + of_nat i - dst)" and "h + k \<le> n" and "i < k"
  shows "k \<le> unat ((src + of_nat h) + of_nat i - (dst + of_nat h))"
  using assms(1) [of i] assms(2,3) by (simp add: algebra_simps)

lemma memcpy64_copies:
  assumes far: "\<And>i. i < unat len \<Longrightarrow> unat len \<le> unat (src + of_nat i - dst)"
  shows "memcpy64 dst src len m = copy_bytes64 dst src (unat len) m"
proof (cases "len = 0")
  case False
  then have pos: "0 < unat len" by (simp add: word_unat_eq_iff)
  have ne: "dst \<noteq> src" using far [OF pos] pos by auto
  define t where "t = (if (src OR dst) AND 7 \<noteq> 0 then if (src XOR dst) AND 7 \<noteq> 0 \<or> len < 8 then len else 8 - (src AND 7) else 0)"
  have seven: "unat (x AND 7) = unat x mod 8" for x :: u64
  proof -
    have "unat (x AND mask 3) = take_bit 3 (unat x)" by (simp only: take_bit_eq_mask [symmetric] unsigned_take_bit_eq)
    then show ?thesis by (simp add: take_bit_eq_mod mask_eq_exp_minus_1)
  qed
  have t: "unat t \<le> unat len" if "t \<noteq> len"
  proof -
    have "t = 0 \<or> t = 8 - (src AND 7) \<and> 8 \<le> len" using that by (auto simp: t_def not_less split: if_splits)
    moreover have "unat (8 - (src AND 7)) \<le> 8" by (subst unat_sub) (simp_all add: word_le_nat_alt seven)
    ultimately show ?thesis by (auto simp: word_le_nat_alt)
  qed
  define l where "l = len - t"
  have l: "unat l = unat len - unat t" using t by (cases "t = len") (simp_all add: l_def unat_sub word_le_nat_alt)
  have split: "unat len = unat t + (8 * unat (l div 8) + unat (l AND 7))"
    using t l by (cases "t = len") (simp_all add: seven unat_div)
  have t': "of_nat (unat t) = t" "of_nat (8 * unat (l div 8)) = 8 * (l div 8)" by simp_all
  have words: "copy_words64 (dst + t) (src + t) (unat (l div 8)) m' = copy_bytes64 (dst + t) (src + t) (8 * unat (l div 8)) m'" for m'
    using far_shift [OF far, of "unat t" "8 * unat (l div 8)"] split unsigned_less [of len, where ?'a = nat]
    by (intro copy_words64_bytes) (simp_all add: t')
  have "memcpy64 dst src len m = copy_bytes64 (dst + t + 8 * (l div 8)) (src + t + 8 * (l div 8)) (unat (l AND 7))
      (copy_bytes64 (dst + t) (src + t) (8 * unat (l div 8)) (copy_bytes64 dst src (unat t) m))"
    using False ne unfolding memcpy64_def Let_def t_def [symmetric] l_def [symmetric] words by simp
  also have "\<dots> = copy_bytes64 dst src (unat len) m"
    unfolding split copy_bytes64_add t' ..
  finally show ?thesis .
qed (simp add: memcpy64_def)

lemma vector_far:
  assumes "0x200 \<le> unat (a - EXCEPT_BASE)" and "k \<le> 0x180"
  shows "0x80 \<le> unat (a - (EXCEPT_BASE + of_nat k))"
proof -
  have k: "unat (of_nat k :: u64) = k" using assms(2) by (simp add: unat_of_nat take_bit_nat_eq_self)
  have "of_nat k \<le> a - EXCEPT_BASE" unfolding word_le_nat_alt k using assms by simp
  then have "unat (a - EXCEPT_BASE - of_nat k) = unat (a - EXCEPT_BASE) - k" using k by (simp add: unat_sub)
  then show ?thesis using assms by (simp add: diff_diff_eq)
qed

definition vectors :: "u64 list" where "vectors = [EXCEPT_TLB, EXCEPT_TLBX, EXCEPT_CACHEERR, EXCEPT_GENERIC]"

lemma vectors_far:
  assumes "0x200 \<le> unat (a - EXCEPT_BASE)" and "v \<in> set vectors"
  shows "0x80 \<le> unat (a - v)"
proof -
  have "v = EXCEPT_BASE + of_nat 0 \<or> v = EXCEPT_BASE + of_nat 0x80 \<or> v = EXCEPT_BASE + of_nat 0x100 \<or> v = EXCEPT_BASE + of_nat 0x180"
    using assms(2) unfolding vectors_def EXCEPT_TLB_def EXCEPT_TLBX_def EXCEPT_CACHEERR_def EXCEPT_GENERIC_def
    by auto
  then show ?thesis using vector_far [OF assms(1), of 0] vector_far [OF assms(1), of "0x80"] vector_far [OF assms(1), of "0x100"] vector_far [OF assms(1), of "0x180"]
    by auto
qed

lemma vectors_distinct:
  assumes "v \<in> set vectors" and "w \<in> set vectors" and "v \<noteq> w" and "i < 0x80"
  shows "0x80 \<le> unat (v + of_nat i - w)"
proof -
  have i: "unat (of_nat i :: u64) = i" using assms(4) by (simp add: unat_of_nat take_bit_nat_eq_self)
  have "0x80 \<le> unat (d + of_nat i)" if "d \<in> {0x80, 0x100, 0x180, 0xffffffffffffff80, 0xffffffffffffff00, 0xfffffffffffffe80 :: u64}" for d
    using that assms(4) i by (auto simp: unat_word_ariths)
  moreover have "v - w \<in> {0x80, 0x100, 0x180, 0xffffffffffffff80, 0xffffffffffffff00, 0xfffffffffffffe80}"
    using assms(1-3) by (auto simp: vectors_def EXCEPT_TLB_def EXCEPT_TLBX_def EXCEPT_CACHEERR_def EXCEPT_GENERIC_def EXCEPT_BASE_def)
  ultimately have "0x80 \<le> unat (v - w + of_nat i)" by blast
  then show ?thesis by (simp add: algebra_simps)
qed

lemma trap_init_ok:
  assumes far: "\<And>i. i < 0x80 \<Longrightarrow> 0x200 \<le> unat (g + of_nat i - EXCEPT_BASE)"
    and v: "v \<in> set vectors" and i: "i < 0x80"
  shows "mem64 (trap_init g s) (v + of_nat i) = mem64 s (g + of_nat i)"
proof -
  let ?step = "\<lambda>v (s :: 'a ata_state_scheme). s\<lparr>mem64 := memcpy64 v g 0x80 (mem64 s)\<rparr>"
  have at_v: "unat (of_nat j :: u64) = j" if "j < 0x80" for j using that by (simp add: unat_of_nat take_bit_nat_eq_self)
  have copy: "mem64 (?step w s) x = (if unat (x - w) < 0x80 then mem64 s (g + (x - w)) else mem64 s x)"
    if "w \<in> set vectors" for w x and s :: "'a ata_state_scheme"
  proof -
    have far': "unat (0x80 :: u64) \<le> unat (g + of_nat i - w)" if "i < unat (0x80 :: u64)" for i
      using vectors_far [OF far \<open>w \<in> set vectors\<close>, of i] that by simp
    show ?thesis using memcpy64_copies [OF far'] copy_bytes64_at [where n = "0x80" and src = g and dst = w, OF far' [simplified]] by simp
  qed
  have stub: "mem64 (fold ?step ws s) (g + of_nat j) = mem64 s (g + of_nat j)" if "set ws \<subseteq> set vectors" "j < 0x80"
    for ws j and s :: "'a ata_state_scheme"
    using that
  proof (induction ws arbitrary: s)
    case (Cons w ws)
    then have w: "w \<in> set vectors" and ws: "set ws \<subseteq> set vectors" by auto
    have "mem64 (?step w s) (g + of_nat j) = mem64 s (g + of_nat j)"
      using copy [OF w] vectors_far [OF far [OF that(2)] w] by (simp add: not_less [symmetric])
    then show ?case using Cons.IH [OF ws that(2), of "?step w s"] by simp
  qed simp
  have keep: "mem64 (fold ?step ws s) (v + of_nat i) = mem64 s (v + of_nat i)" if "set ws \<subseteq> set vectors" "v \<notin> set ws"
    for ws and s :: "'a ata_state_scheme"
    using that
  proof (induction ws arbitrary: s)
    case (Cons w ws)
    then have w: "w \<in> set vectors" and ws: "set ws \<subseteq> set vectors" "v \<notin> set ws" "v \<noteq> w" by auto
    have "mem64 (?step w s) (v + of_nat i) = mem64 s (v + of_nat i)"
      using copy [OF w] vectors_distinct [OF v w ws(3) i] by (simp add: not_less [symmetric])
    then show ?case using Cons.IH [OF ws(1,2), of "?step w s"] by simp
  qed simp
  have dist: "distinct vectors"
    by (simp add: vectors_def EXCEPT_TLB_def EXCEPT_TLBX_def EXCEPT_CACHEERR_def EXCEPT_GENERIC_def EXCEPT_BASE_def)
  obtain us ws where split: "vectors = us @ v # ws" using v by (meson split_list)
  have sub: "set us \<subseteq> set vectors" "set ws \<subseteq> set vectors" "v \<notin> set ws" using dist unfolding split by auto
  have "trap_init g s = fold ?step ws (?step v (fold ?step us s))"
    unfolding trap_init_def vectors_def [symmetric] split by simp
  then have "mem64 (trap_init g s) (v + of_nat i) = mem64 (?step v (fold ?step us s)) (v + of_nat i)"
    using keep [OF sub(2,3)] by simp
  also have "\<dots> = mem64 (fold ?step us s) (g + of_nat i)" using copy [OF v] at_v [OF i] i by simp
  also have "\<dots> = mem64 s (g + of_nat i)" by (rule stub [OF sub(1) i])
  finally show ?thesis .
qed

section \<open>What the code promises\<close>

text \<open>
  C34. \<open>usleep\<close> returns, having changed nothing but the accesses, after at least as many steps of the
  counter as the frequency asks for and not many more, when there are fewer than a whole turn of
  the counter.
\<close>

theorem usleep_waits:
  assumes "has_count cp0 c" and "usleep_ticks (cpu_freq s) usec + 2 ^ 20 < 2 ^ 32"
  shows "\<exists>t. usleep_mips cp0 usec s = Some (s\<lparr>io := t\<rparr>) \<and> c (io s) + usleep_ticks (cpu_freq s) usec \<le> c t
    \<and> c t \<le> c (io s) + usleep_ticks (cpu_freq s) usec + 2 ^ 22"
  by (rule usleep_ok [OF assms])

text \<open>A counter that counts the accesses, and a board with a clock chip and no drives.\<close>

definition demo_cp0 :: cp0 where "demo_cp0 = (\<lambda>t n sel. of_nat (length t))"

lemma demo_count: "has_count demo_cp0 length"
proof -
  have "(ucast (of_nat n :: u64) :: u32) = of_nat n" for n by (rule bit_word_eqI) (auto simp: bit_simps)
  then show ?thesis by (simp add: has_count_def demo_cp0_def)
qed

definition demo_mips :: mips_state where
  "demo_mips = ata_state.extend demo_ata (mips_state.fields 800000000)"

lemma demo_mips [simp]: "cpu_freq demo_mips = 800000000" "io demo_mips = []"
  by (simp_all add: demo_mips_def mips_state.defs ata_state.defs demo_ata_def)

lemma usleep_waits_witness:
  "\<exists>t. usleep_mips demo_cp0 1000 demo_mips = Some (demo_mips\<lparr>io := t\<rparr>) \<and> 400000 \<le> length t"
proof -
  have ticks: "usleep_ticks (cpu_freq demo_mips) 1000 = 400000" by (simp add: usleep_ticks_def)
  have "usleep_ticks (cpu_freq demo_mips) 1000 + 2 ^ 20 < 2 ^ 32" unfolding ticks by simp
  from usleep_waits [OF demo_count this] show ?thesis unfolding ticks by auto
qed

definition demo_board_hw :: hardware where
  "demo_board_hw = \<lparr>hw_read = (\<lambda>t a. if a AND 7 = 7 then 0 else of_nat (length t mod 2)), hw_dma = (\<lambda>t m. m)\<rparr>"

lemma demo_no_drive: "no_drive demo_board_hw"
  by (simp add: no_drive_def demo_board_hw_def)

lemma demo_sample:
  "snd (fst (sample_read demo_board_hw demo_cp0 s)) = bcd_to_byte (of_nat (length (io s) mod 2))
   \<and> length (io (snd (sample_read demo_board_hw demo_cp0 s))) = length (io s) + 3"
  by (simp add: sample_read_def read_c0_count_def read_32bit_c0_register_def read_64bit_c0_register_def rtc_getsecond_def
      rtc_gettimereg_def rtc_readreg_def inb_def outb_def in8_def out8_def bus_read_def demo_board_hw_def demo_cp0_def Let_def mod_Suc pcimap_def PCI_RTC_DATA_REG_def PCI_PORT_BASE_def)

lemma demo_seconds: "seconds_pass demo_board_hw demo_cp0"
  unfolding seconds_pass_def
proof (intro allI)
  fix s :: mips_state and sec
  let ?s1 = "snd (sample_read demo_board_hw demo_cp0 s)"
  have "snd (fst (sample_read demo_board_hw demo_cp0 s)) \<noteq> snd (fst (sample_read demo_board_hw demo_cp0 ?s1))"
  proof (cases "even (length (io s))")
    case True
    then have "length (io s) mod 2 = 0" "length (io ?s1) mod 2 = 1" using demo_sample [of s] by (simp_all add: mod2_eq_if)
    then show ?thesis using demo_sample [of s] demo_sample [of ?s1] by (simp add: bcd_to_byte_def)
  next
    case False
    then have "length (io s) mod 2 = 1" "length (io ?s1) mod 2 = 0" using demo_sample [of s] by (simp_all add: mod2_eq_if)
    then show ?thesis using demo_sample [of s] demo_sample [of ?s1] by (simp add: bcd_to_byte_def)
  qed
  then have "snd (fst (sample_read demo_board_hw demo_cp0 (((snd \<circ> sample_read demo_board_hw demo_cp0) ^^ 0) s))) \<noteq> sec
    \<or> snd (fst (sample_read demo_board_hw demo_cp0 (((snd \<circ> sample_read demo_board_hw demo_cp0) ^^ 1) s))) \<noteq> sec" by auto
  then show "\<exists>k. snd (fst (sample_read demo_board_hw demo_cp0 (((snd \<circ> sample_read demo_board_hw demo_cp0) ^^ k) s))) \<noteq> sec" by blast
qed

text \<open>
  C36. When no drive is ready, \<open>setup_arch\<close> comes to the identification of a drive with \<open>port\<close> and
  \<open>slave\<close> not initialised.
\<close>

theorem setup_no_drive:
  assumes "has_count cp0 c" and "seconds_pass hw cp0" and "no_drive hw"
  shows "\<exists>s'. setup_arch hw cp0 (s :: mips_state) = Some (Uninitialised, s')"
  by (rule setup_no_drive_ok [OF assms])

lemma setup_no_drive_witness: "\<exists>s'. setup_arch demo_board_hw demo_cp0 demo_mips = Some (Uninitialised, s')"
  by (rule setup_no_drive [OF demo_count demo_seconds demo_no_drive])

text \<open>
  C35. After \<open>trap_init\<close> each of the four exception vectors holds the 128 bytes at
  \<open>except_generic\<close>, which lie outside the vectors.
\<close>

theorem trap_vectors:
  assumes "\<And>i. i < 0x80 \<Longrightarrow> 0x200 \<le> unat (g + of_nat i - EXCEPT_BASE)"
    and "v \<in> {EXCEPT_TLB, EXCEPT_TLBX, EXCEPT_CACHEERR, EXCEPT_GENERIC}" and "i < 0x80"
  shows "mem64 (trap_init g s) (v + of_nat i) = mem64 s (g + of_nat i)"
  using trap_init_ok [OF assms(1) _ assms(3)] assms(2) by (simp add: vectors_def)

lemma trap_vectors_witness:
  "mem64 (trap_init 0xffffffff80001000 demo_ata) 0xffffffff80000185 = mem64 demo_ata 0xffffffff80001005"
proof -
  have far: "0x200 \<le> unat (0xffffffff80001000 + of_nat i - EXCEPT_BASE)" if "i < 0x80" for i
  proof -
    have e: "(0xffffffff80001000 + of_nat i - EXCEPT_BASE) = 0x1000 + of_nat i" by (simp add: EXCEPT_BASE_def)
    show ?thesis unfolding e using that by (simp add: unat_word_ariths unat_of_nat take_bit_nat_eq_self)
  qed
  have g: "EXCEPT_GENERIC \<in> {EXCEPT_TLB, EXCEPT_TLBX, EXCEPT_CACHEERR, EXCEPT_GENERIC}" by simp
  have "5 < (0x80 :: nat)" by simp
  from trap_vectors [OF far g this, of demo_ata] show ?thesis by (simp add: EXCEPT_GENERIC_def EXCEPT_BASE_def)
qed

end
