(* ===== verification/Debug.thy ===== *)
theory Debug
  imports Prelude
begin

text \<open>
  Looking up an instruction address in the debugging symbols (\<open>kern/debug/debug_info.c\<close>, with
  the entries of \<open>include/stab.h\<close>). The table is a list; \<open>*last\<close> is the number of the entry it
  points to counted from 1, and 0 for a null pointer. A name is the offset of a string in the
  string table, or nothing for a null pointer. \<open>is_func\<close> assigns where it means to compare, so
  the search overwrites the types of the table.
\<close>

named_theorems stab_types

definition N_GSYM :: u8 where [stab_types]: "N_GSYM = 0x20"
definition N_FNAME :: u8 where [stab_types]: "N_FNAME = 0x22"
definition N_FUN :: u8 where [stab_types]: "N_FUN = 0x24"
definition N_STSYM :: u8 where [stab_types]: "N_STSYM = 0x26"
definition N_LCSYM :: u8 where [stab_types]: "N_LCSYM = 0x28"
definition N_MAIN :: u8 where [stab_types]: "N_MAIN = 0x2a"
definition N_PC :: u8 where [stab_types]: "N_PC = 0x30"
definition N_RSYM :: u8 where [stab_types]: "N_RSYM = 0x40"
definition N_SLINE :: u8 where [stab_types]: "N_SLINE = 0x44"
definition N_DSLINE :: u8 where [stab_types]: "N_DSLINE = 0x46"
definition N_BSLINE :: u8 where [stab_types]: "N_BSLINE = 0x48"
definition N_SSYM :: u8 where [stab_types]: "N_SSYM = 0x60"
definition N_SO :: u8 where [stab_types]: "N_SO = 0x64"
definition N_LSYM :: u8 where [stab_types]: "N_LSYM = 0x80"
definition N_BINCL :: u8 where [stab_types]: "N_BINCL = 0x82"
definition N_SOL :: u8 where [stab_types]: "N_SOL = 0x84"
definition N_PSYM :: u8 where [stab_types]: "N_PSYM = 0xa0"
definition N_EINCL :: u8 where [stab_types]: "N_EINCL = 0xa2"
definition N_ENTRY :: u8 where [stab_types]: "N_ENTRY = 0xa4"
definition N_LBRAC :: u8 where [stab_types]: "N_LBRAC = 0xc0"
definition N_EXCL :: u8 where [stab_types]: "N_EXCL = 0xc2"
definition N_RBRAC :: u8 where [stab_types]: "N_RBRAC = 0xe0"
definition N_BCOMM :: u8 where [stab_types]: "N_BCOMM = 0xe2"
definition N_ECOMM :: u8 where [stab_types]: "N_ECOMM = 0xe4"
definition N_ECOML :: u8 where [stab_types]: "N_ECOML = 0xe8"
definition N_LENG :: u8 where [stab_types]: "N_LENG = 0xfe"

record stab =
  n_strx :: u32
  n_type :: u8
  n_other :: u8
  n_desc :: u16
  n_value :: u32

record debug_info =
  source_file :: "u32 option"
  func_name :: "u32 option"
  func_addr_lo :: u32
  line_num :: u32

definition is_source :: "stab \<Rightarrow> bool" where
  "is_source st \<longleftrightarrow> n_type st = N_SO \<and> n_desc st \<noteq> 0 \<or> n_type st = N_SOL"

definition is_textline :: "stab \<Rightarrow> bool" where
  "is_textline st \<longleftrightarrow> n_type st = N_SLINE"

text \<open>The value of the assignment, and the entry afterwards.\<close>

definition is_func :: "stab \<Rightarrow> bool \<times> stab" where
  "is_func st = (N_FUN \<noteq> 0, st\<lparr>n_type := N_FUN\<rparr>)"

text \<open>\<open>FIX_INSTRUCTION_ADDR\<close> (\<open>asm/util.h\<close>) clears the two lowest bits.\<close>

definition FIX_INSTRUCTION_ADDR :: "u32 \<Rightarrow> u32" where
  "FIX_INSTRUCTION_ADDR x = (x OR 3) XOR 3"

text \<open>What the loop keeps: the current source file with its address, the current function, and
  whether the address has been seen.\<close>

record scan =
  sc_file :: "u32 option"
  sc_base :: u32
  sc_func :: "u32 option"
  sc_faddr :: u32
  sc_found :: bool

fun scan_stabs ::
    "u32 \<Rightarrow> nat \<Rightarrow> scan \<Rightarrow> nat \<Rightarrow> stab list \<Rightarrow> debug_info \<Rightarrow> int \<times> debug_info \<times> nat \<times> stab list" where
  "scan_stabs addr i sc prev [] info = (-1, info, prev, [])"
| "scan_stabs addr i sc prev (st # sts) info =
     (if is_source st
      then let sc = sc\<lparr>sc_base := FIX_INSTRUCTION_ADDR (n_value st), sc_file := Some (n_strx st)\<rparr>;
               (r, info, prev, sts') = scan_stabs addr (i + 1) sc prev sts info
           in (r, info, prev, st # sts')
      else if is_textline st
      then if sc_base sc + n_value st = addr
           then let sc = sc\<lparr>sc_found := True\<rparr>
                in if prev < i
                   then (1, \<lparr>source_file = sc_file sc, func_name = sc_func sc, func_addr_lo = sc_faddr sc,
                             line_num = ucast (n_desc st)\<rparr>, i, st # sts)
                   else let (r, info, prev, sts') = scan_stabs addr (i + 1) sc prev sts info
                        in (r, info, prev, st # sts')
           else if sc_found sc then (0, info, prev, st # sts)
           else let (r, info, prev, sts') = scan_stabs addr (i + 1) sc prev sts info
                in (r, info, prev, st # sts')
      else let (fn, st') = is_func st;
               sc = (if fn then sc\<lparr>sc_faddr := n_value st', sc_func := Some (n_strx st')\<rparr> else sc);
               (r, info, prev, sts') = scan_stabs addr (i + 1) sc prev sts info
           in (r, info, prev, st' # sts'))"

definition get_debug_info ::
    "u32 \<Rightarrow> stab list \<Rightarrow> debug_info \<Rightarrow> nat \<Rightarrow> int \<times> debug_info \<times> nat \<times> stab list" where
  "get_debug_info addr table info prev =
     scan_stabs (FIX_INSTRUCTION_ADDR addr) 1
       \<lparr>sc_file = None, sc_base = 0, sc_func = None, sc_faddr = 0, sc_found = False\<rparr> prev table info"

end
