(* ===== verification/Stab.thy ===== *)
theory Stab
  imports Debug Layout
begin

text \<open>
  The tool that lists the debugging symbols of an ELF file (\<open>tools/stab/readstab.c\<close>), a program of
  the host. What it asks of the operating system is the parameter \<open>host\<close>: the bytes of the files
  that can be opened, the largest offset a file may have, at which offsets a read fails, and which
  sizes \<open>malloc\<close> grants. Memory the program has not written has no value: a buffer is a list of
  optional bytes, and using one without a value, or one outside its buffer, is \<open>Undefined\<close>. The host
  is little-endian, with 64-bit \<open>size_t\<close> and \<open>off_t\<close>; its header \<open>elf.h\<close> has the structures of the
  ELF standard. \<open>None\<close> is "does not return".
\<close>

record host =
  host_open :: "string \<Rightarrow> u8 list option"
  host_max :: nat
  host_read :: "nat \<Rightarrow> bool"
  host_malloc :: "u64 \<Rightarrow> bool"

text \<open>\<open>Exit code message output\<close>: the message is what \<open>err\<close> and \<open>errx\<close> print, without the name of the
  program and the text of \<open>errno\<close>.\<close>

datatype halt = Exit nat string string | Undefined

record tool =
  contents :: "u8 list"
  pos :: nat
  stdout :: string
  elf32 :: bool
  elf_little_endian :: bool

type_synonym buffer = "u8 option list"

definition bindE :: "'e + 'a \<Rightarrow> ('a \<Rightarrow> 'e + 'b) \<Rightarrow> 'e + 'b" where
  "bindE m f = (case m of Inl e \<Rightarrow> Inl e | Inr x \<Rightarrow> f x)"

lemma bindE_simps [simp]: "bindE (Inl e) f = Inl e" "bindE (Inr x) f = f x"
  by (simp_all add: bindE_def)

lemma bindE_Inr: "bindE m f = Inr y \<longleftrightarrow> (\<exists>x. m = Inr x \<and> f x = Inr y)"
  by (cases m) simp_all

section \<open>Byte order\<close>

definition bswap16 :: "u16 \<Rightarrow> u16" where
  "bswap16 x = push_bit 8 x OR drop_bit 8 x"

definition bswap32 :: "u32 \<Rightarrow> u32" where
  "bswap32 x = push_bit 16 (ucast (bswap16 (ucast x))) OR ucast (bswap16 (ucast (drop_bit 16 x)))"

definition bswap64 :: "u64 \<Rightarrow> u64" where
  "bswap64 x = push_bit 32 (ucast (bswap32 (ucast x))) OR ucast (bswap32 (ucast (drop_bit 32 x)))"

definition htofs :: "u16 \<Rightarrow> tool \<Rightarrow> u16" where "htofs x s = (if elf_little_endian s then x else bswap16 x)"
definition htofl :: "u32 \<Rightarrow> tool \<Rightarrow> u32" where "htofl x s = (if elf_little_endian s then x else bswap32 x)"
definition htofx :: "u64 \<Rightarrow> tool \<Rightarrow> u64" where "htofx x s = (if elf_little_endian s then x else bswap64 x)"
definition ftohs :: "u16 \<Rightarrow> tool \<Rightarrow> u16" where "ftohs x s = (if elf_little_endian s then x else bswap16 x)"
definition ftohl :: "u32 \<Rightarrow> tool \<Rightarrow> u32" where "ftohl x s = (if elf_little_endian s then x else bswap32 x)"
definition ftohx :: "u64 \<Rightarrow> tool \<Rightarrow> u64" where "ftohx x s = (if elf_little_endian s then x else bswap64 x)"

section \<open>The system\<close>

text \<open>A failing call ends the program.\<close>

definition err :: "nat \<Rightarrow> string \<Rightarrow> tool \<Rightarrow> 'a option \<Rightarrow> halt + 'a" where
  "err code msg s r = (case r of None \<Rightarrow> Inl (Exit code msg (stdout s)) | Some x \<Rightarrow> Inr x)"

definition lseek :: "host \<Rightarrow> int \<Rightarrow> tool \<Rightarrow> tool option" where
  "lseek h off s = (if 0 \<le> off \<and> off \<le> int (host_max h) then Some (s\<lparr>pos := nat off\<rparr>) else None)"

text \<open>\<open>read\<close> overwrites the beginning of the buffer, with as many bytes as there are.\<close>

definition read_fd :: "host \<Rightarrow> nat \<Rightarrow> buffer \<Rightarrow> tool \<Rightarrow> (buffer \<times> tool) option" where
  "read_fd h n buf s =
     (if host_read h (pos s)
      then let bs = take n (drop (pos s) (contents s))
           in Some (map Some bs @ drop (List.length bs) buf, s\<lparr>pos := pos s + List.length bs\<rparr>)
      else None)"

definition malloc :: "host \<Rightarrow> u64 \<Rightarrow> buffer option" where
  "malloc h n = (if host_malloc h n then Some (replicate (unat n) None) else None)"

definition printf :: "string \<Rightarrow> tool \<Rightarrow> tool" where
  "printf text s = s\<lparr>stdout := stdout s @ text\<rparr>"

section \<open>Buffers\<close>

definition byte :: "buffer \<Rightarrow> nat \<Rightarrow> halt + u8" where
  "byte b i = (if i < List.length b then case b ! i of Some x \<Rightarrow> Inr x | None \<Rightarrow> Inl Undefined else Inl Undefined)"

text \<open>A little-endian number of \<open>n\<close> bytes.\<close>

fun le_num :: "buffer \<Rightarrow> nat \<Rightarrow> nat \<Rightarrow> halt + u64" where
  "le_num b i 0 = Inr 0"
| "le_num b i (Suc n) = bindE (byte b i) (\<lambda>x. bindE (le_num b (i + 1) n) (\<lambda>y. Inr (ucast x OR push_bit 8 y)))"

text \<open>Whether the string at \<open>i\<close> is the given one (\<open>strcmp\<close>, which stops at the first difference).\<close>

fun strcmp :: "buffer \<Rightarrow> nat \<Rightarrow> u8 list \<Rightarrow> halt + bool" where
  "strcmp b i [] = bindE (byte b i) (\<lambda>x. Inr (x = 0))"
| "strcmp b i (c # cs) = bindE (byte b i) (\<lambda>x. if x = c then strcmp b (i + 1) cs else Inr False)"

text \<open>\<open>strncmp\<close> with a string of that length.\<close>

fun strncmp :: "buffer \<Rightarrow> nat \<Rightarrow> u8 list \<Rightarrow> halt + bool" where
  "strncmp b i [] = Inr True"
| "strncmp b i (c # cs) = bindE (byte b i) (\<lambda>x. if x = c then strncmp b (i + 1) cs else Inr False)"

text \<open>The string from \<open>i\<close> on, for \<open>%s\<close>.\<close>

fun take_string :: "buffer \<Rightarrow> halt + string" where
  "take_string [] = Inl Undefined"
| "take_string (None # b) = Inl Undefined"
| "take_string (Some x # b) = (if x = 0 then Inr [] else bindE (take_string b) (\<lambda>cs. Inr (char_of (unat x) # cs)))"

definition c_string :: "buffer \<Rightarrow> nat \<Rightarrow> halt + string" where
  "c_string b i = take_string (drop i b)"

text \<open>\<open>%-ws\<close>, \<open>%d\<close> of a number that is not negative, \<open>%08x\<close>.\<close>

definition pad_right :: "nat \<Rightarrow> string \<Rightarrow> string" where
  "pad_right w t = t @ replicate (w - List.length t) CHR '' ''"

fun decimal :: "nat \<Rightarrow> string" where
  "decimal n = (if n < 10 then [] else decimal (n div 10)) @ [char_of (48 + n mod 10)]"

declare decimal.simps [simp del]

definition hex_digit :: "nat \<Rightarrow> char" where
  "hex_digit d = char_of (if d < 10 then 48 + d else 87 + d)"

definition hex8 :: "u32 \<Rightarrow> string" where
  "hex8 x = map (\<lambda>i. hex_digit (unat (drop_bit i x AND 0xF))) [28, 24, 20, 16, 12, 8, 4, 0]"

section \<open>Structures\<close>

text \<open>The structures of the host's \<open>elf.h\<close>, with the members of those of \<open>include/elf.h\<close>.\<close>

named_theorems elf_structs

definition Elf32_Ehdr :: ctype where [elf_structs]:
  "Elf32_Ehdr = Struct [(''e_ident'', Array (Uint 1) 16), (''e_type'', Uint 2), (''e_machine'', Uint 2), (''e_version'', Uint 4),
     (''e_entry'', Uint 4), (''e_phoff'', Uint 4), (''e_shoff'', Uint 4), (''e_flags'', Uint 4), (''e_ehsize'', Uint 2),
     (''e_phentsize'', Uint 2), (''e_phnum'', Uint 2), (''e_shentsize'', Uint 2), (''e_shnum'', Uint 2), (''e_shstrndx'', Uint 2)]"

definition Elf64_Ehdr :: ctype where [elf_structs]:
  "Elf64_Ehdr = Struct [(''e_ident'', Array (Uint 1) 16), (''e_type'', Uint 2), (''e_machine'', Uint 2), (''e_version'', Uint 4),
     (''e_entry'', Uint 8), (''e_phoff'', Uint 8), (''e_shoff'', Uint 8), (''e_flags'', Uint 4), (''e_ehsize'', Uint 2),
     (''e_phentsize'', Uint 2), (''e_phnum'', Uint 2), (''e_shentsize'', Uint 2), (''e_shnum'', Uint 2), (''e_shstrndx'', Uint 2)]"

definition Elf32_Shdr :: ctype where [elf_structs]:
  "Elf32_Shdr = Struct [(''sh_name'', Uint 4), (''sh_type'', Uint 4), (''sh_flags'', Uint 4), (''sh_addr'', Uint 4), (''sh_offset'', Uint 4),
     (''sh_size'', Uint 4), (''sh_link'', Uint 4), (''sh_info'', Uint 4), (''sh_addralign'', Uint 4), (''sh_entsize'', Uint 4)]"

definition Elf64_Shdr :: ctype where [elf_structs]:
  "Elf64_Shdr = Struct [(''sh_name'', Uint 4), (''sh_type'', Uint 4), (''sh_flags'', Uint 8), (''sh_addr'', Uint 8), (''sh_offset'', Uint 8),
     (''sh_size'', Uint 8), (''sh_link'', Uint 4), (''sh_info'', Uint 4), (''sh_addralign'', Uint 8), (''sh_entsize'', Uint 8)]"

definition struct_stab :: ctype where [elf_structs]:
  "struct_stab = Struct [(''n_strx'', Uint 4), (''n_type'', Uint 1), (''n_other'', Uint 1), (''n_desc'', Uint 2), (''n_value'', Uint 4)]"

definition get_member :: "ctype \<Rightarrow> string \<Rightarrow> buffer \<Rightarrow> halt + u64" where
  "get_member t m b = (case c_off t [Fld m] of Some (p, Uint n) \<Rightarrow> le_num b (p div 8) n | _ \<Rightarrow> Inl Undefined)"

text \<open>A local structure, not initialised.\<close>

definition local_struct :: "ctype \<Rightarrow> buffer" where
  "local_struct t = replicate (c_sizeof t) None"

section \<open>Types of symbols\<close>

definition typecodes :: "u8 list" where
  "typecodes =
    [N_GSYM, N_FNAME, N_FUN, N_STSYM, N_LCSYM, N_MAIN, N_PC, N_RSYM, N_SLINE,
     N_DSLINE, N_BSLINE, N_SSYM, N_SO, N_LSYM, N_BINCL, N_SOL, N_PSYM, N_EINCL,
     N_ENTRY, N_LBRAC, N_EXCL, N_RBRAC, N_BCOMM, N_ECOMM, N_ECOML, N_LENG]"

text \<open>The elements of \<open>types\<close> without an initialiser are null pointers.\<close>

definition type_names :: "(u8 \<times> string) list" where
  "type_names =
    [(N_GSYM, ''global symbol''),
     (N_FNAME, ''f77 func''),
     (N_FUN, ''func''),
     (N_STSYM, ''data segment var''),
     (N_LCSYM, ''bss segment var''),
     (N_MAIN, ''main func''),
     (N_PC, ''global Pascal symbol''),
     (N_RSYM, ''register var''),
     (N_SLINE, ''text line #''),
     (N_DSLINE, ''data line #''),
     (N_BSLINE, ''bss line #''),
     (N_SSYM, ''struct/union element''),
     (N_SO, ''source file''),
     (N_LSYM, ''local var''),
     (N_BINCL, ''include begin''),
     (N_SOL, ''include source file''),
     (N_PSYM, ''argument var''),
     (N_EINCL, ''include end''),
     (N_ENTRY, ''alt. entry''),
     (N_LBRAC, ''left brace''),
     (N_EXCL, ''deleted include''),
     (N_RBRAC, ''right brace''),
     (N_BCOMM, ''common begin''),
     (N_ECOMM, ''common end''),
     (N_ECOML, ''common end local''),
     (N_LENG, ''length'')]"

definition types :: "u8 \<Rightarrow> string option" where
  "types = map_of type_names"

section \<open>Listing the symbols\<close>

text \<open>The name \<open>.stabs\<close> is what the code looks for.\<close>

definition STABSTR :: "u8 list" where "STABSTR = map of_char ''.stabstr''"
definition STABS :: "u8 list" where "STABS = map of_char ''.stabs''"

definition stab_heading :: string where
  "stab_heading = pad_right 20 ''Type'' @ '' '' @ pad_right 8 ''Desc'' @ '' '' @ pad_right 8 ''Other'' @ '' ''
     @ pad_right 8 ''Value'' @ '' '' @ ''Name'' @ [CHR 0x0A]"

text \<open>One line, of an entry that may have bytes without a value.\<close>

definition stab_line :: "buffer \<Rightarrow> buffer \<Rightarrow> halt + string" where
  "stab_line stab stabstr =
     bindE (get_member struct_stab ''n_type'' stab) (\<lambda>ty.
     bindE (get_member struct_stab ''n_desc'' stab) (\<lambda>desc.
     bindE (get_member struct_stab ''n_other'' stab) (\<lambda>other.
     bindE (get_member struct_stab ''n_value'' stab) (\<lambda>v.
     bindE (get_member struct_stab ''n_strx'' stab) (\<lambda>strx.
     bindE (c_string stabstr (unat strx)) (\<lambda>name.
     case types (ucast ty) of
       None \<Rightarrow> Inl Undefined
     | Some t \<Rightarrow> Inr (pad_right 20 t @ '' '' @ pad_right 8 (decimal (unat desc)) @ '' ''
         @ pad_right 8 (decimal (unat other)) @ '' '' @ hex8 (ucast v) @ '' '' @ name @ [CHR 0x0A])))))))"

text \<open>The loop over the entries: \<open>i\<close> has 32 bits, and the result of \<open>read\<close> is not looked at.\<close>

partial_function (option) print_stabs ::
    "host \<Rightarrow> buffer \<Rightarrow> u64 \<Rightarrow> u32 \<Rightarrow> buffer \<Rightarrow> tool \<Rightarrow> (halt + tool) option" where
  [code]: "print_stabs h stabstr n i stab s =
     (if ucast i < n
      then let (stab, s) = (case read_fd h (c_sizeof struct_stab) stab s of None \<Rightarrow> (stab, s) | Some r \<Rightarrow> r)
           in case stab_line stab stabstr of
                Inl e \<Rightarrow> Some (Inl e)
              | Inr line \<Rightarrow> print_stabs h stabstr n (i + 1) stab (printf line s)
      else Some (Inr s))"

text \<open>What the search keeps: the header read last, the one of \<open>.stabs\<close>, and the string table.\<close>

record sections =
  es :: buffer
  es_stab :: buffer
  stab_strings :: "buffer option"

text \<open>\<open>lseek\<close> to an offset of the file, a 64-bit number that becomes an \<open>off_t\<close>.\<close>

definition lseek_set :: "host \<Rightarrow> u64 \<Rightarrow> tool \<Rightarrow> halt + tool" where
  "lseek_set h off s = err 4 ''lseek'' s (lseek h (sint off) s)"

definition read_or_err :: "host \<Rightarrow> nat \<Rightarrow> buffer \<Rightarrow> tool \<Rightarrow> halt + (buffer \<times> tool)" where
  "read_or_err h n buf s = err 4 ''read'' s (read_fd h n buf s)"

text \<open>A section of \<open>sz\<close> bytes at \<open>off\<close>, in memory of its own.\<close>

definition load_section :: "host \<Rightarrow> u64 \<Rightarrow> u64 \<Rightarrow> tool \<Rightarrow> halt + (buffer \<times> tool)" where
  "load_section h off sz s =
     bindE (err 4 ''malloc'' s (malloc h sz)) (\<lambda>buf.
     bindE (lseek_set h off s) (\<lambda>s.
     read_or_err h (unat sz) buf s))"

text \<open>The offset of the header of the section names, from where the file is: the product of two
  16-bit numbers is an \<open>int\<close>, which must not overflow.\<close>

definition seek_shstrtab :: "host \<Rightarrow> u64 \<Rightarrow> u64 \<Rightarrow> tool \<Rightarrow> halt + tool" where
  "seek_shstrtab h entsize strndx s =
     (let k = uint entsize * uint strndx
      in if k < 2 ^ 31 then err 4 ''lseek'' s (lseek h (int (pos s) + k) s) else Inl Undefined)"

subsection \<open>64 bits\<close>

definition section_step64 :: "host \<Rightarrow> buffer \<Rightarrow> sections \<times> tool \<Rightarrow> halt + (sections \<times> tool)" where
  "section_step64 h shstrtab = (\<lambda>(x, s).
     bindE (read_or_err h (c_sizeof Elf64_Shdr) (es x) s) (\<lambda>(b, s).
     let x = x\<lparr>es := b\<rparr> in
     bindE (err 4 ''lseek'' s (lseek h (int (pos s)) s)) (\<lambda>s.
     let cur = pos s in
     bindE (get_member Elf64_Shdr ''sh_name'' b) (\<lambda>name.
     bindE (strcmp shstrtab (unat name) STABSTR) (\<lambda>is_str.
     bindE (if is_str
            then bindE (get_member Elf64_Shdr ''sh_size'' b) (\<lambda>sz.
                 bindE (get_member Elf64_Shdr ''sh_offset'' b) (\<lambda>off.
                 bindE (load_section h off sz s) (\<lambda>(buf, s).
                 Inr (x\<lparr>stab_strings := Some buf\<rparr>, s))))
            else bindE (strcmp shstrtab (unat name) STABS) (\<lambda>is_stab.
                 Inr (if is_stab then x\<lparr>es_stab := b\<rparr> else x, s)))
     (\<lambda>(x, s).
     bindE (err 4 ''lseek'' s (lseek h (int cur) s)) (\<lambda>s. Inr (x, s))))))))"

fun repeat :: "nat \<Rightarrow> ('s \<Rightarrow> 'e + 's) \<Rightarrow> 's \<Rightarrow> 'e + 's" where
  "repeat 0 f s = Inr s"
| "repeat (Suc n) f s = bindE (f s) (repeat n f)"

definition find_sections64 :: "host \<Rightarrow> buffer \<Rightarrow> tool \<Rightarrow> halt + (sections \<times> tool)" where
  "find_sections64 h eh s =
     bindE (get_member Elf64_Ehdr ''e_shoff'' eh) (\<lambda>shoff.
     bindE (lseek_set h shoff s) (\<lambda>s.
     bindE (get_member Elf64_Ehdr ''e_shentsize'' eh) (\<lambda>entsize.
     bindE (get_member Elf64_Ehdr ''e_shstrndx'' eh) (\<lambda>strndx.
     bindE (seek_shstrtab h entsize strndx s) (\<lambda>s.
     bindE (read_or_err h (c_sizeof Elf64_Shdr) (local_struct Elf64_Shdr) s) (\<lambda>(b, s).
     bindE (get_member Elf64_Shdr ''sh_size'' b) (\<lambda>sz.
     bindE (get_member Elf64_Shdr ''sh_offset'' b) (\<lambda>off.
     bindE (load_section h off sz s) (\<lambda>(shstrtab, s).
     bindE (lseek_set h shoff s) (\<lambda>s.
     bindE (get_member Elf64_Ehdr ''e_shnum'' eh) (\<lambda>shnum.
     repeat (unat shnum) (section_step64 h shstrtab)
       (\<lparr>es = b, es_stab = local_struct Elf64_Shdr, stab_strings = None\<rparr>, s))))))))))))"

definition readstab64 :: "host \<Rightarrow> buffer \<Rightarrow> tool \<Rightarrow> (halt + tool) option" where
  "readstab64 h eh s =
     (case bindE (find_sections64 h eh s) (\<lambda>(x, s).
           bindE (err 8 ''No stab string section found'' s (stab_strings x)) (\<lambda>stabstr.
           let s = printf stab_heading s in
           bindE (get_member Elf64_Shdr ''sh_offset'' (es_stab x)) (\<lambda>off.
           bindE (lseek_set h off s) (\<lambda>s.
           bindE (get_member Elf64_Shdr ''sh_size'' (es_stab x)) (\<lambda>sz.
           Inr (stabstr, sz div of_nat (c_sizeof struct_stab), s)))))) of
        Inl e \<Rightarrow> Some (Inl e)
      | Inr (stabstr, n, s) \<Rightarrow> print_stabs h stabstr n 0 (local_struct struct_stab) s)"

subsection \<open>32 bits\<close>

text \<open>Here the file is not moved back after the string table has been read, and the entries are
  those of the section whose header was read last.\<close>

definition section_step32 :: "host \<Rightarrow> buffer \<Rightarrow> sections \<times> tool \<Rightarrow> halt + (sections \<times> tool)" where
  "section_step32 h shstrtab = (\<lambda>(x, s).
     bindE (read_or_err h (c_sizeof Elf32_Shdr) (es x) s) (\<lambda>(b, s).
     let x = x\<lparr>es := b\<rparr> in
     bindE (get_member Elf32_Shdr ''sh_name'' b) (\<lambda>name.
     bindE (strcmp shstrtab (unat name) STABSTR) (\<lambda>is_str.
     if is_str
     then bindE (get_member Elf32_Shdr ''sh_size'' b) (\<lambda>sz.
          bindE (get_member Elf32_Shdr ''sh_offset'' b) (\<lambda>off.
          bindE (load_section h off sz s) (\<lambda>(buf, s).
          Inr (x\<lparr>stab_strings := Some buf\<rparr>, s))))
     else bindE (strcmp shstrtab (unat name) STABS) (\<lambda>is_stab.
          Inr (if is_stab then x\<lparr>es_stab := b\<rparr> else x, s))))))"

definition find_sections32 :: "host \<Rightarrow> buffer \<Rightarrow> tool \<Rightarrow> halt + (sections \<times> tool)" where
  "find_sections32 h eh s =
     bindE (get_member Elf32_Ehdr ''e_shoff'' eh) (\<lambda>shoff.
     bindE (lseek_set h shoff s) (\<lambda>s.
     bindE (get_member Elf32_Ehdr ''e_shentsize'' eh) (\<lambda>entsize.
     bindE (get_member Elf32_Ehdr ''e_shstrndx'' eh) (\<lambda>strndx.
     bindE (seek_shstrtab h entsize strndx s) (\<lambda>s.
     bindE (read_or_err h (c_sizeof Elf32_Shdr) (local_struct Elf32_Shdr) s) (\<lambda>(b, s).
     bindE (get_member Elf32_Shdr ''sh_size'' b) (\<lambda>sz.
     bindE (get_member Elf32_Shdr ''sh_offset'' b) (\<lambda>off.
     bindE (load_section h off sz s) (\<lambda>(shstrtab, s).
     bindE (lseek_set h shoff s) (\<lambda>s.
     bindE (get_member Elf32_Ehdr ''e_shnum'' eh) (\<lambda>shnum.
     repeat (unat shnum) (section_step32 h shstrtab)
       (\<lparr>es = b, es_stab = local_struct Elf32_Shdr, stab_strings = None\<rparr>, s))))))))))))"

definition readstab32 :: "host \<Rightarrow> buffer \<Rightarrow> tool \<Rightarrow> (halt + tool) option" where
  "readstab32 h eh s =
     (case bindE (find_sections32 h eh s) (\<lambda>(x, s).
           bindE (err 8 ''No stab string section found'' s (stab_strings x)) (\<lambda>stabstr.
           let s = printf stab_heading s in
           bindE (get_member Elf32_Shdr ''sh_offset'' (es x)) (\<lambda>off.
           bindE (lseek_set h off s) (\<lambda>s.
           bindE (get_member Elf32_Shdr ''sh_size'' (es x)) (\<lambda>sz.
           Inr (stabstr, sz div of_nat (c_sizeof struct_stab), s)))))) of
        Inl e \<Rightarrow> Some (Inl e)
      | Inr (stabstr, n, s) \<Rightarrow> print_stabs h stabstr n 0 (local_struct struct_stab) s)"

section \<open>The program\<close>

text \<open>The header of the file is a union of the two kinds of headers. The results of the two calls of
  \<open>lseek\<close> are not looked at.\<close>

definition ELFMAG :: "u8 list" where "ELFMAG = [0x7f, 0x45, 0x4c, 0x46]"
definition ELFCLASS32 :: u8 where "ELFCLASS32 = 1"
definition ELFCLASS64 :: u8 where "ELFCLASS64 = 2"
definition ELFDATA2LSB :: u8 where "ELFDATA2LSB = 1"
definition ELFDATA2MSB :: u8 where "ELFDATA2MSB = 2"

definition elf_header :: ctype where [elf_structs]:
  "elf_header = Union [(''eh32'', Elf32_Ehdr), (''eh64'', Elf64_Ehdr)]"

definition try_lseek :: "host \<Rightarrow> nat \<Rightarrow> tool \<Rightarrow> tool" where
  "try_lseek h off s = (case lseek h (int off) s of None \<Rightarrow> s | Some s \<Rightarrow> s)"

definition elf_class :: "host \<Rightarrow> string \<Rightarrow> u8 \<Rightarrow> tool \<Rightarrow> halt + tool" where
  "elf_class h fname c s =
     (if c = ELFCLASS32 then Inr ((try_lseek h (c_sizeof Elf32_Ehdr) s)\<lparr>elf32 := True\<rparr>)
      else if c = ELFCLASS64 then Inr ((try_lseek h (c_sizeof Elf64_Ehdr) s)\<lparr>elf32 := False\<rparr>)
      else Inl (Exit 8 (fname @ '': unknown ELF class'' @ [CHR 0x0A]) (stdout s)))"

definition elf_data :: "string \<Rightarrow> u8 \<Rightarrow> tool \<Rightarrow> halt + tool" where
  "elf_data fname d s =
     (if d = ELFDATA2LSB then Inr (s\<lparr>elf_little_endian := True\<rparr>)
      else if d = ELFDATA2MSB then Inr (s\<lparr>elf_little_endian := False\<rparr>)
      else Inl (Exit 8 (fname @ '': unknown data encoding'' @ [CHR 0x0A]) (stdout s)))"

definition readstab :: "host \<Rightarrow> string \<Rightarrow> tool \<Rightarrow> (halt + tool) option" where
  "readstab h fname s =
     (case bindE (err 2 ''open'' s (host_open h fname)) (\<lambda>bs.
           bindE (read_or_err h (c_sizeof elf_header) (local_struct elf_header) (s\<lparr>contents := bs, pos := 0\<rparr>)) (\<lambda>(eh, s).
           bindE (strncmp eh 0 ELFMAG) (\<lambda>is_elf.
           if \<not> is_elf then Inl (Exit 8 (fname @ '': not a valid ELF file'' @ [CHR 0x0A]) (stdout s)) else
           bindE (byte eh 4) (\<lambda>c.
           bindE (elf_class h fname c s) (\<lambda>s.
           bindE (byte eh 5) (\<lambda>d.
           bindE (elf_data fname d s) (\<lambda>s. Inr (eh, s)))))))) of
        Inl e \<Rightarrow> Some (Inl e)
      | Inr (eh, s) \<Rightarrow> if elf32 s then readstab32 h eh s else readstab64 h eh s)"

definition initial_tool :: tool where
  "initial_tool = \<lparr>contents = [], pos = 0, stdout = [], elf32 = False, elf_little_endian = False\<rparr>"

definition usage :: "string \<Rightarrow> halt" where
  "usage prog = Exit 1 [] (''Usage: '' @ prog @ '' <ELF-file>'' @ [CHR 0x0A])"

definition readstab_main :: "host \<Rightarrow> string list \<Rightarrow> halt option" where
  "readstab_main h argv = (case argv of
      [prog, fname] \<Rightarrow> map_option (case_sum id (\<lambda>s. Exit 0 [] (stdout s))) (readstab h fname initial_tool)
    | prog # _ \<Rightarrow> Some (usage prog)
    | [] \<Rightarrow> Some Undefined)"

end
