(* ===== verification/Stab_Correct.thy ===== *)
theory Stab_Correct
  imports Stab
begin

text \<open>
  What the tool lists: of a 64-bit file whose headers are sound, the entries of the last section
  called \<open>.stabs\<close>, with the names in the last one called \<open>.stabstr\<close>; without the one the result is
  undefined, without the other the tool says so. Of a 32-bit file it lists, as if they were
  entries, the bytes of the section whose header it read last.
\<close>

section \<open>Reading\<close>

abbreviation known :: "u8 list \<Rightarrow> buffer" where "known \<equiv> map Some"

definition chunk :: "nat \<Rightarrow> nat \<Rightarrow> 'a list \<Rightarrow> 'a list" where
  "chunk p n f = take n (drop p f)"

fun le_val :: "u8 list \<Rightarrow> u64" where
  "le_val [] = 0"
| "le_val (x # xs) = ucast x OR push_bit 8 (le_val xs)"

lemma length_chunk [simp]: "p + n \<le> length f \<Longrightarrow> length (chunk p n f) = n"
  by (simp add: chunk_def)

lemma chunk_chunk: "q + m \<le> n \<Longrightarrow> chunk q m (chunk p n f) = chunk (p + q) m f"
  by (simp add: chunk_def drop_take min_absorb1 add.commute)

lemma byte_known [simp]: "i < length f \<Longrightarrow> byte (known f) i = Inr (f ! i)"
  by (simp add: byte_def)

lemma le_num_known: "i + n \<le> length f \<Longrightarrow> le_num (known f) i n = Inr (le_val (chunk i n f))"
proof (induction n arbitrary: i)
  case (Suc n)
  have "chunk i (Suc n) f = f ! i # chunk (i + 1) n f"
    using Suc.prems by (simp add: chunk_def Cons_nth_drop_Suc [symmetric])
  then show ?case using Suc by simp
qed (simp add: chunk_def)

lemma le_val_bits: "bit (le_val bs) n \<Longrightarrow> n < 8 * length bs"
proof (induction bs arbitrary: n)
  case (Cons b bs)
  then have "bit b n \<or> 8 \<le> n \<and> bit (le_val bs) (n - 8)" by (auto simp: bit_simps)
  then show ?case using Cons.IH [of "n - 8"] bit_imp_le_length [of b n] by auto
qed simp

lemma le_val_less: "unat (le_val bs) < 2 ^ (8 * length bs)"
proof -
  have "take_bit (8 * length bs) (le_val bs) = le_val bs"
    by (rule bit_word_eqI) (auto simp: bit_simps dest: le_val_bits)
  then have "unat (le_val bs) = take_bit (8 * length bs) (unat (le_val bs))" by (metis unsigned_take_bit_eq)
  then show ?thesis by (metis take_bit_nat_less_exp)
qed

text \<open>A host that has the file and memory for its sections.\<close>

definition grants :: "host \<Rightarrow> nat \<Rightarrow> bool" where
  "grants h n \<longleftrightarrow> n \<le> host_max h \<and> n < 2 ^ 63 \<and> (\<forall>p \<le> n. host_read h p) \<and> (\<forall>k. unat k \<le> n \<longrightarrow> host_malloc h k)"

lemma read_fd_chunk:
  assumes "grants h (length (contents s))" and "pos s + n \<le> length (contents s)" and "length buf = n"
  shows "read_fd h n buf s = Some (known (chunk (pos s) n (contents s)), s\<lparr>pos := pos s + n\<rparr>)"
  using assms by (simp add: read_fd_def grants_def chunk_def Let_def min_absorb2)

lemma lseek_ok: "grants h n \<Longrightarrow> p \<le> n \<Longrightarrow> lseek h (int p) s = Some (s\<lparr>pos := p\<rparr>)"
  by (simp add: lseek_def grants_def)

lemma lseek_set_ok:
  assumes "grants h n" and "unat off \<le> n"
  shows "lseek_set h off s = Inr (s\<lparr>pos := unat off\<rparr>)"
proof -
  have "unat off < 2 ^ 63" using assms by (simp add: grants_def)
  then have "int (unat off) < int (2 ^ 63)" by (simp only: of_nat_less_iff)
  then have "uint off < 2 ^ 63" by simp
  moreover have "- (2 ^ 63) \<le> uint off" by (rule order.trans [OF _ uint_ge_0]) simp
  ultimately have "signed_take_bit 63 (uint off) = uint off" by (simp only: signed_take_bit_int_eq_self)
  then have "sint off = int (unat off)" by (simp add: sint_uint)
  then show ?thesis using lseek_ok [OF assms] by (simp add: lseek_set_def err_def)
qed

lemma load_section_ok:
  assumes "grants h (length (contents s))" and "unat off + unat sz \<le> length (contents s)"
  shows "load_section h off sz s = Inr (known (chunk (unat off) (unat sz) (contents s)), s\<lparr>pos := unat off + unat sz\<rparr>)"
proof -
  have "lseek_set h off s = Inr (s\<lparr>pos := unat off\<rparr>)" by (rule lseek_set_ok [OF assms(1) add_leD1 [OF assms(2)]])
  moreover have "malloc h sz = Some (replicate (unat sz) None)"
    using assms(1) add_leD2 [OF assms(2)] by (simp add: grants_def malloc_def)
  moreover have "read_fd h (unat sz) (replicate (unat sz) None) (s\<lparr>pos := unat off\<rparr>)
      = Some (known (chunk (unat off) (unat sz) (contents s)), s\<lparr>pos := unat off + unat sz\<rparr>)"
    using read_fd_chunk [of h "s\<lparr>pos := unat off\<rparr>" "unat sz"] assms by simp
  ultimately show ?thesis by (simp add: load_section_def err_def read_or_err_def)
qed

section \<open>Strings\<close>

lemma strcmp_known:
  "0 \<in> set (drop i f) \<Longrightarrow> 0 \<notin> set cs \<Longrightarrow> strcmp (known f) i cs = Inr (takeWhile (\<lambda>x. x \<noteq> 0) (drop i f) = cs)"
proof (induction cs arbitrary: i)
  case Nil
  then have "i < length f" by (cases "i < length f") auto
  then show ?case by (simp add: Cons_nth_drop_Suc [symmetric])
next
  case (Cons c cs)
  then have i: "i < length f" by (cases "i < length f") auto
  then have "drop i f = f ! i # drop (Suc i) f" by (simp add: Cons_nth_drop_Suc)
  then show ?case using Cons i by auto
qed

definition text_of :: "u8 list \<Rightarrow> string" where
  "text_of bs = map (\<lambda>x. char_of (unat x)) (takeWhile (\<lambda>x. x \<noteq> 0) bs)"

lemma take_string_known: "take_string (known f) = (if 0 \<in> set f then Inr (text_of f) else Inl Undefined)"
  by (induction f) (auto simp: text_of_def)

lemma c_string_known: "c_string (known f) i = (if 0 \<in> set (drop i f) then Inr (text_of (drop i f)) else Inl Undefined)"
  by (simp add: c_string_def drop_map take_string_known)

section \<open>Members\<close>

lemma sizes [simp]:
  "c_sizeof Elf64_Shdr = 64" "c_sizeof Elf32_Shdr = 40" "c_sizeof struct_stab = 12" "c_sizeof elf_header = 64"
  "c_sizeof Elf32_Ehdr = 52" "c_sizeof Elf64_Ehdr = 64"
  by (simp_all add: c_sizeof_def elf_structs place_def round_up_def)

lemma elf_members:
  "c_off Elf64_Shdr [Fld ''sh_name''] = Some (0, Uint 4)" "c_off Elf64_Shdr [Fld ''sh_offset''] = Some (192, Uint 8)"
  "c_off Elf64_Shdr [Fld ''sh_size''] = Some (256, Uint 8)"
  "c_off Elf32_Shdr [Fld ''sh_name''] = Some (0, Uint 4)" "c_off Elf32_Shdr [Fld ''sh_offset''] = Some (128, Uint 4)"
  "c_off Elf32_Shdr [Fld ''sh_size''] = Some (160, Uint 4)"
  "c_off Elf64_Ehdr [Fld ''e_shoff''] = Some (320, Uint 8)" "c_off Elf64_Ehdr [Fld ''e_shentsize''] = Some (464, Uint 2)"
  "c_off Elf64_Ehdr [Fld ''e_shnum''] = Some (480, Uint 2)" "c_off Elf64_Ehdr [Fld ''e_shstrndx''] = Some (496, Uint 2)"
  "c_off Elf32_Ehdr [Fld ''e_shoff''] = Some (256, Uint 4)" "c_off Elf32_Ehdr [Fld ''e_shentsize''] = Some (368, Uint 2)"
  "c_off Elf32_Ehdr [Fld ''e_shnum''] = Some (384, Uint 2)" "c_off Elf32_Ehdr [Fld ''e_shstrndx''] = Some (400, Uint 2)"
  "c_off struct_stab [Fld ''n_strx''] = Some (0, Uint 4)" "c_off struct_stab [Fld ''n_type''] = Some (32, Uint 1)"
  "c_off struct_stab [Fld ''n_other''] = Some (40, Uint 1)" "c_off struct_stab [Fld ''n_desc''] = Some (48, Uint 2)"
  "c_off struct_stab [Fld ''n_value''] = Some (64, Uint 4)"
  by (simp_all add: elf_structs place_def round_up_def)

lemma local_num: "0 < n \<Longrightarrow> le_num (local_struct t) i n = Inl Undefined"
  by (cases n) (simp_all add: byte_def local_struct_def)

text \<open>A member of a structure that has been read.\<close>

lemma member_known:
  "c_off t [Fld m] = Some (p, Uint k) \<Longrightarrow> p div 8 + k \<le> length b \<Longrightarrow> get_member t m (known b) = Inr (le_val (chunk (p div 8) k b))"
  by (simp add: get_member_def le_num_known)

section \<open>Lines\<close>

definition stab_at :: "u8 list \<Rightarrow> stab" where
  "stab_at e = \<lparr>n_strx = ucast (le_val (chunk 0 4 e)), n_type = ucast (le_val (chunk 4 1 e)), n_other = ucast (le_val (chunk 5 1 e)),
     n_desc = ucast (le_val (chunk 6 2 e)), n_value = ucast (le_val (chunk 8 4 e))\<rparr>"

text \<open>The line of an entry: none if its type is not in the table or its name has no end.\<close>

definition entry_text :: "u8 list \<Rightarrow> stab \<Rightarrow> string option" where
  "entry_text strs e =
     (if 0 \<in> set (drop (unat (n_strx e)) strs)
      then map_option (\<lambda>t. pad_right 20 t @ '' '' @ pad_right 8 (decimal (unat (n_desc e))) @ '' ''
         @ pad_right 8 (decimal (unat (n_other e))) @ '' '' @ hex8 (n_value e) @ '' ''
         @ text_of (drop (unat (n_strx e)) strs) @ [CHR 0x0A]) (types (n_type e))
      else None)"

lemma ucast_small: "unat (v :: u64) < 2 ^ LENGTH('a::len) \<Longrightarrow> unat (ucast v :: 'a word) = unat v"
  by (simp add: unsigned_ucast_eq take_bit_nat_eq_self)

lemma ucast_le_val:
  assumes "8 * length bs \<le> LENGTH('a::len)"
  shows "unat (ucast (le_val bs) :: 'a word) = unat (le_val bs)"
proof (rule ucast_small)
  have "unat (le_val bs) < 2 ^ (8 * length bs)" by (rule le_val_less)
  also have "\<dots> \<le> (2 :: nat) ^ LENGTH('a)" using assms by (rule power_increasing) simp
  finally show "unat (le_val bs) < 2 ^ LENGTH('a)" .
qed

lemma stab_line_known:
  assumes "length e = 12"
  shows "stab_line (known e) (known strs) = (case entry_text strs (stab_at e) of None \<Rightarrow> Inl Undefined | Some t \<Rightarrow> Inr t)"
proof -
  have small: "unat (ucast (le_val (chunk 0 4 e)) :: u32) = unat (le_val (chunk 0 4 e))"
    "unat (ucast (le_val (chunk 6 2 e)) :: u16) = unat (le_val (chunk 6 2 e))"
    "unat (ucast (le_val (chunk 5 1 e)) :: u8) = unat (le_val (chunk 5 1 e))"
    using assms by (simp_all add: ucast_le_val)
  note members = elf_members [THEN member_known]
  show ?thesis
    using small by (simp add: stab_line_def members assms c_string_known entry_text_def stab_at_def Let_def split: option.split)
qed

fun stabs_at :: "u8 list \<Rightarrow> nat \<Rightarrow> nat \<Rightarrow> stab list" where
  "stabs_at f p 0 = []"
| "stabs_at f p (Suc n) = stab_at (chunk p 12 f) # stabs_at f (p + 12) n"

fun listing :: "u8 list \<Rightarrow> stab list \<Rightarrow> string option" where
  "listing strs [] = Some []"
| "listing strs (e # rest) = (case entry_text strs e of None \<Rightarrow> None | Some t \<Rightarrow> map_option ((@) t) (listing strs rest))"

lemma unat_u32_u64: "unat (ucast (i :: u32) :: u64) = unat i"
  using u32_bound [of i] by (simp add: unsigned_ucast_eq take_bit_nat_eq_self)

lemma print_stabs_listing:
  assumes "grants h (length (contents s))" and "pos s + 12 * m \<le> length (contents s)" and "length stab = 12"
    and "unat n = unat i + m" and "unat n < 2 ^ 32"
  shows "print_stabs h (known strs) n i stab s =
    Some (case listing strs (stabs_at (contents s) (pos s) m) of
      None \<Rightarrow> Inl Undefined
    | Some t \<Rightarrow> Inr (s\<lparr>pos := pos s + 12 * m, stdout := stdout s @ t\<rparr>))"
  using assms
proof (induction m arbitrary: i stab s)
  case 0
  then have "\<not> ucast i < n" by (simp add: word_less_nat_alt unat_u32_u64)
  then show ?case by (subst print_stabs.simps) simp
next
  case (Suc m)
  have "ucast i < n" using Suc.prems by (simp add: word_less_nat_alt unat_u32_u64)
  moreover have r: "read_fd h 12 stab s = Some (known (chunk (pos s) 12 (contents s)), s\<lparr>pos := pos s + 12\<rparr>)"
    using Suc.prems by (intro read_fd_chunk) simp_all
  moreover have len: "length (chunk (pos s) 12 (contents s)) = 12" using Suc.prems by simp
  ultimately have step: "print_stabs h (known strs) n i stab s = (case entry_text strs (stab_at (chunk (pos s) 12 (contents s))) of
      None \<Rightarrow> Some (Inl Undefined)
    | Some t \<Rightarrow> print_stabs h (known strs) n (i + 1) (known (chunk (pos s) 12 (contents s))) (printf t (s\<lparr>pos := pos s + 12\<rparr>)))"
    by (subst print_stabs.simps) (simp add: stab_line_known [OF len] split: option.split)
  have i1: "unat n = unat (i + 1) + m" using Suc.prems(4,5) by (simp add: unat_word_ariths)
  have "print_stabs h (known strs) n (i + 1) (known (chunk (pos s) 12 (contents s))) (printf t (s\<lparr>pos := pos s + 12\<rparr>)) =
    Some (case listing strs (stabs_at (contents s) (pos s + 12) m) of
      None \<Rightarrow> Inl Undefined
    | Some u \<Rightarrow> Inr (s\<lparr>pos := pos s + 12 + 12 * m, stdout := stdout s @ t @ u\<rparr>))" for t
    using Suc.IH [of "printf t (s\<lparr>pos := pos s + 12\<rparr>)", OF _ _ _ i1] Suc.prems len by (simp add: printf_def cong: option.case_cong)
  then show ?case unfolding step by (simp split: option.split add: add.assoc)
qed

section \<open>Looking for the sections\<close>

fun last_named :: "(nat \<Rightarrow> u8 list) \<Rightarrow> u8 list \<Rightarrow> nat \<Rightarrow> nat option" where
  "last_named nm c 0 = None"
| "last_named nm c (Suc n) = (if nm n = c then Some n else last_named nm c n)"

definition section_name :: "u8 list \<Rightarrow> nat \<Rightarrow> u8 list" where
  "section_name tab i = takeWhile (\<lambda>x. x \<noteq> 0) (drop i tab)"

lemma names [simp]: "0 \<notin> set STABSTR" "0 \<notin> set STABS" "STABS \<noteq> STABSTR" "STABSTR \<noteq> STABS"
  by (simp_all add: STABSTR_def STABS_def)

subsection \<open>64 bits\<close>

definition shoff64 :: "u8 list \<Rightarrow> u64" where "shoff64 f = le_val (chunk 40 8 f)"
definition shentsize64 :: "u8 list \<Rightarrow> u64" where "shentsize64 f = le_val (chunk 58 2 f)"
definition shnum64 :: "u8 list \<Rightarrow> nat" where "shnum64 f = unat (le_val (chunk 60 2 f))"
definition shstrndx64 :: "u8 list \<Rightarrow> nat" where "shstrndx64 f = unat (le_val (chunk 62 2 f))"

text \<open>The header of section \<open>i\<close>, and what it says.\<close>

definition shdr64 :: "u8 list \<Rightarrow> nat \<Rightarrow> u8 list" where "shdr64 f i = chunk (unat (shoff64 f) + 64 * i) 64 f"
definition sname64 :: "u8 list \<Rightarrow> nat" where "sname64 b = unat (le_val (chunk 0 4 b))"
definition soff64 :: "u8 list \<Rightarrow> u64" where "soff64 b = le_val (chunk 24 8 b)"
definition ssize64 :: "u8 list \<Rightarrow> u64" where "ssize64 b = le_val (chunk 32 8 b)"

definition inside64 :: "u8 list \<Rightarrow> u8 list \<Rightarrow> bool" where
  "inside64 f b \<longleftrightarrow> unat (soff64 b) + unat (ssize64 b) \<le> length f"

definition bytes64 :: "u8 list \<Rightarrow> u8 list \<Rightarrow> u8 list" where
  "bytes64 f b = chunk (unat (soff64 b)) (unat (ssize64 b)) f"

definition shstrtab64 :: "u8 list \<Rightarrow> u8 list" where "shstrtab64 f = bytes64 f (shdr64 f (shstrndx64 f))"

definition named64 :: "u8 list \<Rightarrow> nat \<Rightarrow> u8 list" where
  "named64 f i = section_name (shstrtab64 f) (sname64 (shdr64 f i))"

lemma shdr64_read [simp]:
  assumes "length b = 64"
  shows "get_member Elf64_Shdr ''sh_name'' (known b) = Inr (le_val (chunk 0 4 b))"
    and "get_member Elf64_Shdr ''sh_offset'' (known b) = Inr (soff64 b)"
    and "get_member Elf64_Shdr ''sh_size'' (known b) = Inr (ssize64 b)"
  using assms by (simp_all add: elf_members [THEN member_known] soff64_def ssize64_def)

lemma section_step64_ok:
  assumes g: "grants h (length (contents s))" and p: "pos s + 64 \<le> length (contents s)" and len: "length (es x) = 64"
    and b: "b = chunk (pos s) 64 (contents s)" and z: "0 \<in> set (drop (sname64 b) tab)"
    and "in": "section_name tab (sname64 b) = STABSTR \<Longrightarrow> inside64 (contents s) b"
  shows "section_step64 h (known tab) (x, s) =
    Inr (x\<lparr>es := known b,
           stab_strings := (if section_name tab (sname64 b) = STABSTR then Some (known (bytes64 (contents s) b)) else stab_strings x),
           es_stab := (if section_name tab (sname64 b) = STABS then known b else es_stab x)\<rparr>,
         s\<lparr>pos := pos s + 64\<rparr>)"
proof -
  have lb: "length b = 64" using p b by simp
  have r: "read_fd h 64 (es x) s = Some (known b, s\<lparr>pos := pos s + 64\<rparr>)" using read_fd_chunk [OF g p len] b by simp
  have sk: "lseek h (int (pos s + 64)) t = Some (t\<lparr>pos := pos s + 64\<rparr>)" for t using lseek_ok [OF g p] .
  have cmp: "strcmp (known tab) (unat (le_val (chunk 0 4 b))) c = Inr (section_name tab (sname64 b) = c)" if "0 \<notin> set c" for c
    using strcmp_known [OF z that] by (simp add: sname64_def section_name_def)
  have load: "load_section h (soff64 b) (ssize64 b) (s\<lparr>pos := q\<rparr>) = Inr (known (bytes64 (contents s) b), s\<lparr>pos := unat (soff64 b) + unat (ssize64 b)\<rparr>)"
    if "section_name tab (sname64 b) = STABSTR" for q
    using load_section_ok [of h "s\<lparr>pos := q\<rparr>"] g "in" [OF that] by (simp add: inside64_def bytes64_def)
  show ?thesis
    unfolding section_step64_def case_prod_conv read_or_err_def sizes r
    by (cases "section_name tab (sname64 b) = STABSTR")
      (auto simp: err_def shdr64_read [OF lb] cmp load sk Let_def simp del: of_nat_add)
qed

text \<open>A file whose headers can be followed: they and the sections that are read lie inside the file,
  and the names of the sections have an end.\<close>

definition sound64 :: "u8 list \<Rightarrow> bool" where
  "sound64 f \<longleftrightarrow> 64 \<le> length f \<and> take 4 f = ELFMAG \<and> f ! 4 = ELFCLASS64 \<and> f ! 5 \<in> {ELFDATA2LSB, ELFDATA2MSB}
     \<and> shentsize64 f = 64 \<and> shstrndx64 f < shnum64 f \<and> unat (shoff64 f) + 64 * shnum64 f \<le> length f
     \<and> inside64 f (shdr64 f (shstrndx64 f))
     \<and> list_all (\<lambda>i. 0 \<in> set (drop (sname64 (shdr64 f i)) (shstrtab64 f))
          \<and> (named64 f i = STABSTR \<or> named64 f i = STABS \<longrightarrow> inside64 f (shdr64 f i))) [0 ..< shnum64 f]"

lemma sound64_header:
  assumes "sound64 f" and "i < shnum64 f"
  shows "unat (shoff64 f) + 64 * i + 64 \<le> length f" and "0 \<in> set (drop (sname64 (shdr64 f i)) (shstrtab64 f))"
    and "named64 f i = STABSTR \<or> named64 f i = STABS \<Longrightarrow> inside64 f (shdr64 f i)"
  using assms unfolding sound64_def by (auto simp: list_all_iff)

definition state64 :: "u8 list \<Rightarrow> buffer \<Rightarrow> nat \<Rightarrow> sections" where
  "state64 f b i =
     \<lparr>es = (case i of 0 \<Rightarrow> b | Suc j \<Rightarrow> known (shdr64 f j)),
      es_stab = (case last_named (named64 f) STABS i of None \<Rightarrow> local_struct Elf64_Shdr | Some j \<Rightarrow> known (shdr64 f j)),
      stab_strings = map_option (\<lambda>j. known (bytes64 f (shdr64 f j))) (last_named (named64 f) STABSTR i)\<rparr>"

lemma section_loop64:
  assumes g: "grants h (length f)" and sound: "sound64 f" and b: "length b = 64"
  shows "i + m \<le> shnum64 f \<Longrightarrow> contents s = f \<Longrightarrow> pos s = unat (shoff64 f) + 64 * i \<Longrightarrow>
    repeat m (section_step64 h (known (shstrtab64 f))) (state64 f b i, s) = Inr (state64 f b (i + m), s\<lparr>pos := unat (shoff64 f) + 64 * (i + m)\<rparr>)"
proof (induction m arbitrary: i s)
  case (Suc m)
  have i: "i < shnum64 f" using Suc.prems(1) by simp
  note hd = sound64_header [OF sound i]
  have p: "pos s + 64 \<le> length (contents s)" using hd(1) Suc.prems by simp
  have len: "length (es (state64 f b i)) = 64"
    using b i sound64_header(1) [OF sound] by (auto simp: state64_def shdr64_def split: nat.split)
  have g': "grants h (length (contents s))" using g Suc.prems by simp
  have sh: "shdr64 f i = chunk (pos s) 64 (contents s)" using Suc.prems by (simp add: shdr64_def)
  have "section_step64 h (known (shstrtab64 f)) (state64 f b i, s) = Inr (state64 f b (Suc i), s\<lparr>pos := pos s + 64\<rparr>)"
    using section_step64_ok [OF g' p len sh hd(2)] hd(3) Suc.prems(2)
    by (simp add: named64_def [symmetric]) (auto simp: state64_def)
  then show ?case using Suc.IH [of "Suc i" "s\<lparr>pos := pos s + 64\<rparr>"] Suc.prems by (simp add: algebra_simps)
qed simp

lemma ehdr64_read:
  assumes "64 \<le> length f"
  shows "get_member Elf64_Ehdr ''e_shoff'' (known (take 64 f)) = Inr (shoff64 f)"
    and "get_member Elf64_Ehdr ''e_shentsize'' (known (take 64 f)) = Inr (shentsize64 f)"
    and "get_member Elf64_Ehdr ''e_shnum'' (known (take 64 f)) = Inr (le_val (chunk 60 2 f))"
    and "get_member Elf64_Ehdr ''e_shstrndx'' (known (take 64 f)) = Inr (le_val (chunk 62 2 f))"
proof -
  have "chunk q m (take 64 f) = chunk q m f" if "q + m \<le> 64" for q m
    using chunk_chunk [OF that, of 0 f] by (simp add: chunk_def)
  then show "get_member Elf64_Ehdr ''e_shoff'' (known (take 64 f)) = Inr (shoff64 f)"
    "get_member Elf64_Ehdr ''e_shentsize'' (known (take 64 f)) = Inr (shentsize64 f)"
    "get_member Elf64_Ehdr ''e_shnum'' (known (take 64 f)) = Inr (le_val (chunk 60 2 f))"
    "get_member Elf64_Ehdr ''e_shstrndx'' (known (take 64 f)) = Inr (le_val (chunk 62 2 f))"
    using assms by (simp_all add: elf_members [THEN member_known] shoff64_def shentsize64_def)
qed

lemma find_sections64_ok:
  assumes g: "grants h (length f)" and sound: "sound64 f" and s: "contents s = f"
  shows "find_sections64 h (known (take 64 f)) s =
    Inr (state64 f (known (shdr64 f (shstrndx64 f))) (shnum64 f), s\<lparr>pos := unat (shoff64 f) + 64 * shnum64 f\<rparr>)"
proof -
  have len: "64 \<le> length f" and ent: "shentsize64 f = 64" and ndx: "shstrndx64 f < shnum64 f"
    and "in": "inside64 f (shdr64 f (shstrndx64 f))"
    using sound by (simp_all add: sound64_def)
  note read = ehdr64_read [OF len]
  note hd = sound64_header(1) [OF sound ndx]
  have ndx': "unat (le_val (chunk 62 2 f)) = shstrndx64 f" and num': "unat (le_val (chunk 60 2 f)) = shnum64 f"
    by (simp_all add: shstrndx64_def shnum64_def)
  have small: "shstrndx64 f < 65536" using le_val_less [of "chunk 62 2 f"] len by (simp add: shstrndx64_def)
  have seek: "lseek_set h (shoff64 f) t = Inr (t\<lparr>pos := unat (shoff64 f)\<rparr>)" for t
    using lseek_set_ok [OF g, of "shoff64 f"] hd by simp
  have product: "uint (64 :: u64) * uint (le_val (chunk 62 2 f)) = int (64 * shstrndx64 f)"
    unfolding ndx' [symmetric] by simp
  have "seek_shstrtab h (shentsize64 f) (le_val (chunk 62 2 f)) t = Inr (t\<lparr>pos := unat (shoff64 f) + 64 * shstrndx64 f\<rparr>)"
    if "pos t = unat (shoff64 f)" for t
  proof -
    have "unat (shoff64 f) + 64 * shstrndx64 f \<le> length f" using hd by simp
    from lseek_ok [OF g this, of t] show ?thesis
      using small that unfolding seek_shstrtab_def Let_def ent product by (simp add: err_def)
  qed
  then have seek2: "seek_shstrtab h (shentsize64 f) (le_val (chunk 62 2 f)) (s\<lparr>pos := unat (shoff64 f)\<rparr>)
      = Inr (s\<lparr>pos := unat (shoff64 f) + 64 * shstrndx64 f\<rparr>)" by simp
  have rd: "read_or_err h 64 (local_struct Elf64_Shdr) (s\<lparr>pos := unat (shoff64 f) + 64 * shstrndx64 f\<rparr>)
      = Inr (known (shdr64 f (shstrndx64 f)), s\<lparr>pos := unat (shoff64 f) + 64 * shstrndx64 f + 64\<rparr>)"
    using read_fd_chunk [of h "s\<lparr>pos := unat (shoff64 f) + 64 * shstrndx64 f\<rparr>" 64 "local_struct Elf64_Shdr"] g s hd
    by (simp add: read_or_err_def err_def shdr64_def local_struct_def)
  have hlen: "length (shdr64 f (shstrndx64 f)) = 64" using hd by (simp add: shdr64_def)
  have load: "load_section h (soff64 (shdr64 f (shstrndx64 f))) (ssize64 (shdr64 f (shstrndx64 f))) (s\<lparr>pos := q\<rparr>)
      = Inr (known (shstrtab64 f), s\<lparr>pos := unat (soff64 (shdr64 f (shstrndx64 f))) + unat (ssize64 (shdr64 f (shstrndx64 f)))\<rparr>)" for q
    using load_section_ok [of h "s\<lparr>pos := q\<rparr>"] g s "in" by (simp add: inside64_def bytes64_def shstrtab64_def)
  have init: "\<lparr>es = known (shdr64 f (shstrndx64 f)), es_stab = local_struct Elf64_Shdr, stab_strings = None\<rparr>
      = state64 f (known (shdr64 f (shstrndx64 f))) 0" by (simp add: state64_def)
  show ?thesis
    unfolding find_sections64_def read bindE_simps seek seek2 sizes rd case_prod_conv shdr64_read [OF hlen] load num' init
    using section_loop64 [OF g sound, of "known (shdr64 f (shstrndx64 f))" 0 "shnum64 f" "s\<lparr>pos := unat (shoff64 f)\<rparr>"] hlen s
    by (simp add: seek)
qed

text \<open>What the tool does with such a file.\<close>

definition outcome64 :: "u8 list \<Rightarrow> halt" where
  "outcome64 f =
     (case last_named (named64 f) STABSTR (shnum64 f) of
        None \<Rightarrow> Exit 8 ''No stab string section found'' []
      | Some a \<Rightarrow> (case last_named (named64 f) STABS (shnum64 f) of
          None \<Rightarrow> Undefined
        | Some b \<Rightarrow> (case listing (bytes64 f (shdr64 f a)) (stabs_at f (unat (soff64 (shdr64 f b))) (unat (ssize64 (shdr64 f b)) div 12)) of
            None \<Rightarrow> Undefined
          | Some t \<Rightarrow> Exit 0 [] (stab_heading @ t))))"

lemma last_named_prop: "last_named nm c n = Some i \<Longrightarrow> i < n \<and> nm i = c"
  by (induction n) (auto split: if_splits)

lemma readstab64_ok:
  assumes g: "grants h (length f)" and sound: "sound64 f" and s: "contents s = f" "stdout s = []" and small: "length f < 2 ^ 32"
  shows "map_option (case_sum id (\<lambda>s. Exit 0 [] (stdout s))) (readstab64 h (known (take 64 f)) s) = Some (outcome64 f)"
proof -
  note find = find_sections64_ok [OF g sound s(1)]
  show ?thesis
  proof (cases "last_named (named64 f) STABSTR (shnum64 f)")
    case None
    then show ?thesis by (simp add: readstab64_def find state64_def err_def s outcome64_def)
  next
    case a: (Some a)
    show ?thesis
    proof (cases "last_named (named64 f) STABS (shnum64 f)")
      case None
      have "get_member Elf64_Shdr ''sh_offset'' (local_struct Elf64_Shdr) = Inl Undefined"
        by (simp add: get_member_def elf_members local_num)
      then show ?thesis using a None by (simp add: readstab64_def find state64_def err_def outcome64_def Let_def)
    next
      case b: (Some b)
      note bb = last_named_prop [OF b]
      let ?b = "shdr64 f b"
      have "inside64 f ?b" using sound64_header(3) [OF sound, of b] bb by simp
      then have "in": "unat (soff64 ?b) + unat (ssize64 ?b) \<le> length f" by (simp add: inside64_def)
      have len: "length ?b = 64" using sound64_header(1) [OF sound, of b] bb by (simp add: shdr64_def)
      have seek: "lseek_set h (soff64 ?b) t = Inr (t\<lparr>pos := unat (soff64 ?b)\<rparr>)" for t
        using lseek_set_ok [OF g add_leD1 [OF "in"]] .
      let ?n = "ssize64 ?b div 12"
      have n: "unat ?n = unat (ssize64 ?b) div 12" by (simp add: unat_div)
      let ?s = "(printf stab_heading (s\<lparr>pos := unat (shoff64 f) + 64 * shnum64 f\<rparr>))\<lparr>pos := unat (soff64 ?b)\<rparr>"
      have "print_stabs h (known (bytes64 f (shdr64 f a))) ?n 0 (local_struct struct_stab) ?s =
        Some (case listing (bytes64 f (shdr64 f a)) (stabs_at (contents ?s) (pos ?s) (unat (ssize64 ?b) div 12)) of
          None \<Rightarrow> Inl Undefined
        | Some t \<Rightarrow> Inr (?s\<lparr>pos := pos ?s + 12 * (unat (ssize64 ?b) div 12), stdout := stdout ?s @ t\<rparr>))"
      proof (rule print_stabs_listing)
        show "grants h (length (contents ?s))" using g s by (simp add: printf_def)
        have "12 * (unat (ssize64 ?b) div 12) \<le> unat (ssize64 ?b)" by (rule times_div_less_eq_dividend)
        then have "unat (soff64 ?b) + 12 * (unat (ssize64 ?b) div 12) \<le> length f" using "in" by linarith
        then show "pos ?s + 12 * (unat (ssize64 ?b) div 12) \<le> length (contents ?s)" using s by (simp add: printf_def)
        show "length (local_struct struct_stab) = 12" by (simp add: local_struct_def)
        show "unat ?n = unat (0 :: u32) + unat (ssize64 ?b) div 12" using n by simp
        have "unat ?n \<le> unat (ssize64 ?b)" unfolding n by (rule div_le_dividend)
        also have "\<dots> \<le> length f" using "in" by (rule add_leD2)
        finally show "unat ?n < 2 ^ 32" using small by simp
      qed
      then show ?thesis
        unfolding readstab64_def find bindE_simps case_prod_conv
        using a b by (simp add: state64_def err_def shdr64_read [OF len] seek Let_def outcome64_def printf_def s split: option.split)
    qed
  qed
qed

subsection \<open>32 bits\<close>

definition shoff32 :: "u8 list \<Rightarrow> u64" where "shoff32 f = le_val (chunk 32 4 f)"
definition shentsize32 :: "u8 list \<Rightarrow> u64" where "shentsize32 f = le_val (chunk 46 2 f)"
definition shnum32 :: "u8 list \<Rightarrow> nat" where "shnum32 f = unat (le_val (chunk 48 2 f))"
definition shstrndx32 :: "u8 list \<Rightarrow> nat" where "shstrndx32 f = unat (le_val (chunk 50 2 f))"

text \<open>The header of section \<open>i\<close>, and what it says.\<close>

definition shdr32 :: "u8 list \<Rightarrow> nat \<Rightarrow> u8 list" where "shdr32 f i = chunk (unat (shoff32 f) + 40 * i) 40 f"
definition sname32 :: "u8 list \<Rightarrow> nat" where "sname32 b = unat (le_val (chunk 0 4 b))"
definition soff32 :: "u8 list \<Rightarrow> u64" where "soff32 b = le_val (chunk 16 4 b)"
definition ssize32 :: "u8 list \<Rightarrow> u64" where "ssize32 b = le_val (chunk 20 4 b)"

definition inside32 :: "u8 list \<Rightarrow> u8 list \<Rightarrow> bool" where
  "inside32 f b \<longleftrightarrow> unat (soff32 b) + unat (ssize32 b) \<le> length f"

definition bytes32 :: "u8 list \<Rightarrow> u8 list \<Rightarrow> u8 list" where
  "bytes32 f b = chunk (unat (soff32 b)) (unat (ssize32 b)) f"

definition shstrtab32 :: "u8 list \<Rightarrow> u8 list" where "shstrtab32 f = bytes32 f (shdr32 f (shstrndx32 f))"

definition named32 :: "u8 list \<Rightarrow> nat \<Rightarrow> u8 list" where
  "named32 f i = section_name (shstrtab32 f) (sname32 (shdr32 f i))"

lemma shdr32_read [simp]:
  assumes "length b = 40"
  shows "get_member Elf32_Shdr ''sh_name'' (known b) = Inr (le_val (chunk 0 4 b))"
    and "get_member Elf32_Shdr ''sh_offset'' (known b) = Inr (soff32 b)"
    and "get_member Elf32_Shdr ''sh_size'' (known b) = Inr (ssize32 b)"
  using assms by (simp_all add: elf_members [THEN member_known] soff32_def ssize32_def)

text \<open>The string table moves the file to its end.\<close>

lemma section_step32_ok:
  assumes g: "grants h (length (contents s))" and p: "pos s + 40 \<le> length (contents s)" and len: "length (es x) = 40"
    and b: "b = chunk (pos s) 40 (contents s)" and z: "0 \<in> set (drop (sname32 b) tab)"
    and "in": "section_name tab (sname32 b) = STABSTR \<Longrightarrow> inside32 (contents s) b"
  shows "section_step32 h (known tab) (x, s) =
    Inr (x\<lparr>es := known b,
           stab_strings := (if section_name tab (sname32 b) = STABSTR then Some (known (bytes32 (contents s) b)) else stab_strings x),
           es_stab := (if section_name tab (sname32 b) = STABS then known b else es_stab x)\<rparr>,
         s\<lparr>pos := (if section_name tab (sname32 b) = STABSTR then unat (soff32 b) + unat (ssize32 b) else pos s + 40)\<rparr>)"
proof -
  have lb: "length b = 40" using p b by simp
  have r: "read_fd h 40 (es x) s = Some (known b, s\<lparr>pos := pos s + 40\<rparr>)" using read_fd_chunk [OF g p len] b by simp
  have cmp: "strcmp (known tab) (unat (le_val (chunk 0 4 b))) c = Inr (section_name tab (sname32 b) = c)" if "0 \<notin> set c" for c
    using strcmp_known [OF z that] by (simp add: sname32_def section_name_def)
  have load: "load_section h (soff32 b) (ssize32 b) (s\<lparr>pos := q\<rparr>) = Inr (known (bytes32 (contents s) b), s\<lparr>pos := unat (soff32 b) + unat (ssize32 b)\<rparr>)"
    if "section_name tab (sname32 b) = STABSTR" for q
    using load_section_ok [of h "s\<lparr>pos := q\<rparr>"] g "in" [OF that] by (simp add: inside32_def bytes32_def)
  show ?thesis
    unfolding section_step32_def case_prod_conv read_or_err_def sizes r
    by (cases "section_name tab (sname32 b) = STABSTR")
      (auto simp: err_def shdr32_read [OF lb] cmp load Let_def simp del: of_nat_add)
qed

text \<open>A sound file whose string table is the last section, and the only one of that name.\<close>

definition sound32 :: "u8 list \<Rightarrow> bool" where
  "sound32 f \<longleftrightarrow> 64 \<le> length f \<and> take 4 f = ELFMAG \<and> f ! 4 = ELFCLASS32 \<and> f ! 5 \<in> {ELFDATA2LSB, ELFDATA2MSB}
     \<and> shentsize32 f = 40 \<and> shstrndx32 f < shnum32 f \<and> unat (shoff32 f) + 40 * shnum32 f \<le> length f
     \<and> inside32 f (shdr32 f (shstrndx32 f))
     \<and> list_all (\<lambda>i. 0 \<in> set (drop (sname32 (shdr32 f i)) (shstrtab32 f))
          \<and> (named32 f i = STABSTR \<longleftrightarrow> Suc i = shnum32 f)) [0 ..< shnum32 f]
     \<and> inside32 f (shdr32 f (shnum32 f - 1))"

lemma sound32_header:
  assumes "sound32 f" and "i < shnum32 f"
  shows "unat (shoff32 f) + 40 * i + 40 \<le> length f" and "0 \<in> set (drop (sname32 (shdr32 f i)) (shstrtab32 f))"
    and "named32 f i = STABSTR \<longleftrightarrow> Suc i = shnum32 f" and "named32 f i = STABSTR \<Longrightarrow> inside32 f (shdr32 f i)"
proof -
  show "unat (shoff32 f) + 40 * i + 40 \<le> length f" and "0 \<in> set (drop (sname32 (shdr32 f i)) (shstrtab32 f))"
    and eq: "named32 f i = STABSTR \<longleftrightarrow> Suc i = shnum32 f"
    using assms unfolding sound32_def by (auto simp: list_all_iff)
  show "inside32 f (shdr32 f i)" if "named32 f i = STABSTR"
  proof -
    have "i = shnum32 f - 1" using that eq by simp
    then show ?thesis using assms(1) by (simp add: sound32_def)
  qed
qed

definition state32 :: "u8 list \<Rightarrow> buffer \<Rightarrow> nat \<Rightarrow> sections" where
  "state32 f b i =
     \<lparr>es = (case i of 0 \<Rightarrow> b | Suc j \<Rightarrow> known (shdr32 f j)),
      es_stab = (case last_named (named32 f) STABS i of None \<Rightarrow> local_struct Elf32_Shdr | Some j \<Rightarrow> known (shdr32 f j)),
      stab_strings = map_option (\<lambda>j. known (bytes32 f (shdr32 f j))) (last_named (named32 f) STABSTR i)\<rparr>"

definition pos32 :: "u8 list \<Rightarrow> nat \<Rightarrow> nat" where
  "pos32 f i = (if i = shnum32 f then unat (soff32 (shdr32 f (i - 1))) + unat (ssize32 (shdr32 f (i - 1)))
     else unat (shoff32 f) + 40 * i)"

lemma section_loop32:
  assumes g: "grants h (length f)" and sound: "sound32 f" and b: "length b = 40"
  shows "i + m = shnum32 f \<Longrightarrow> contents s = f \<Longrightarrow> pos s = pos32 f i \<Longrightarrow>
    repeat m (section_step32 h (known (shstrtab32 f))) (state32 f b i, s) = Inr (state32 f b (i + m), s\<lparr>pos := pos32 f (i + m)\<rparr>)"
proof (induction m arbitrary: i s)
  case (Suc m)
  have i: "i < shnum32 f" using Suc.prems(1) by simp
  note hd = sound32_header [OF sound i]
  have ps: "pos s = unat (shoff32 f) + 40 * i" using Suc.prems(3) i by (simp add: pos32_def)
  have p: "pos s + 40 \<le> length (contents s)" using hd(1) Suc.prems(2) ps by simp
  have len: "length (es (state32 f b i)) = 40"
    using b i sound32_header(1) [OF sound] by (auto simp: state32_def shdr32_def split: nat.split)
  have g': "grants h (length (contents s))" using g Suc.prems by simp
  have sh: "shdr32 f i = chunk (pos s) 40 (contents s)" using Suc.prems(2) ps by (simp add: shdr32_def)
  have pn: "(if named32 f i = STABSTR then unat (soff32 (shdr32 f i)) + unat (ssize32 (shdr32 f i)) else pos s + 40) = pos32 f (Suc i)"
  proof -
    have "shnum32 f - Suc 0 = i" if "Suc i = shnum32 f" using that by simp
    then show ?thesis using hd(3) ps by (simp add: pos32_def)
  qed
  have "section_step32 h (known (shstrtab32 f)) (state32 f b i, s) = Inr (state32 f b (Suc i), s\<lparr>pos := pos32 f (Suc i)\<rparr>)"
    using section_step32_ok [OF g' p len sh hd(2)] hd(4) Suc.prems(2)
    by (simp add: named32_def [symmetric] pn) (auto simp: state32_def)
  then show ?case using Suc.IH [of "Suc i" "s\<lparr>pos := pos32 f (Suc i)\<rparr>"] Suc.prems by simp
qed simp

lemma ehdr32_read:
  assumes "64 \<le> length f"
  shows "get_member Elf32_Ehdr ''e_shoff'' (known (take 64 f)) = Inr (shoff32 f)"
    and "get_member Elf32_Ehdr ''e_shentsize'' (known (take 64 f)) = Inr (shentsize32 f)"
    and "get_member Elf32_Ehdr ''e_shnum'' (known (take 64 f)) = Inr (le_val (chunk 48 2 f))"
    and "get_member Elf32_Ehdr ''e_shstrndx'' (known (take 64 f)) = Inr (le_val (chunk 50 2 f))"
proof -
  have "chunk q m (take 64 f) = chunk q m f" if "q + m \<le> 64" for q m
    using chunk_chunk [OF that, of 0 f] by (simp add: chunk_def)
  then show "get_member Elf32_Ehdr ''e_shoff'' (known (take 64 f)) = Inr (shoff32 f)"
    "get_member Elf32_Ehdr ''e_shentsize'' (known (take 64 f)) = Inr (shentsize32 f)"
    "get_member Elf32_Ehdr ''e_shnum'' (known (take 64 f)) = Inr (le_val (chunk 48 2 f))"
    "get_member Elf32_Ehdr ''e_shstrndx'' (known (take 64 f)) = Inr (le_val (chunk 50 2 f))"
    using assms by (simp_all add: elf_members [THEN member_known] shoff32_def shentsize32_def)
qed

lemma find_sections32_ok:
  assumes g: "grants h (length f)" and sound: "sound32 f" and s: "contents s = f"
  shows "find_sections32 h (known (take 64 f)) s =
    Inr (state32 f (known (shdr32 f (shstrndx32 f))) (shnum32 f), s\<lparr>pos := pos32 f (shnum32 f)\<rparr>)"
proof -
  have len: "64 \<le> length f" and ent: "shentsize32 f = 40" and ndx: "shstrndx32 f < shnum32 f"
    and "in": "inside32 f (shdr32 f (shstrndx32 f))"
    using sound by (simp_all add: sound32_def)
  note read = ehdr32_read [OF len]
  note hd = sound32_header(1) [OF sound ndx]
  have ndx': "unat (le_val (chunk 50 2 f)) = shstrndx32 f" and num': "unat (le_val (chunk 48 2 f)) = shnum32 f"
    by (simp_all add: shstrndx32_def shnum32_def)
  have small: "shstrndx32 f < 65536" using le_val_less [of "chunk 50 2 f"] len by (simp add: shstrndx32_def)
  have seek: "lseek_set h (shoff32 f) t = Inr (t\<lparr>pos := unat (shoff32 f)\<rparr>)" for t
    using lseek_set_ok [OF g, of "shoff32 f"] hd by simp
  have product: "uint (40 :: u64) * uint (le_val (chunk 50 2 f)) = int (40 * shstrndx32 f)"
    unfolding ndx' [symmetric] by simp
  have "seek_shstrtab h (shentsize32 f) (le_val (chunk 50 2 f)) t = Inr (t\<lparr>pos := unat (shoff32 f) + 40 * shstrndx32 f\<rparr>)"
    if "pos t = unat (shoff32 f)" for t
  proof -
    have "unat (shoff32 f) + 40 * shstrndx32 f \<le> length f" using hd by simp
    from lseek_ok [OF g this, of t] show ?thesis
      using small that unfolding seek_shstrtab_def Let_def ent product by (simp add: err_def)
  qed
  then have seek2: "seek_shstrtab h (shentsize32 f) (le_val (chunk 50 2 f)) (s\<lparr>pos := unat (shoff32 f)\<rparr>)
      = Inr (s\<lparr>pos := unat (shoff32 f) + 40 * shstrndx32 f\<rparr>)" by simp
  have rd: "read_or_err h 40 (local_struct Elf32_Shdr) (s\<lparr>pos := unat (shoff32 f) + 40 * shstrndx32 f\<rparr>)
      = Inr (known (shdr32 f (shstrndx32 f)), s\<lparr>pos := unat (shoff32 f) + 40 * shstrndx32 f + 40\<rparr>)"
    using read_fd_chunk [of h "s\<lparr>pos := unat (shoff32 f) + 40 * shstrndx32 f\<rparr>" 40 "local_struct Elf32_Shdr"] g s hd
    by (simp add: read_or_err_def err_def shdr32_def local_struct_def)
  have hlen: "length (shdr32 f (shstrndx32 f)) = 40" using hd by (simp add: shdr32_def)
  have load: "load_section h (soff32 (shdr32 f (shstrndx32 f))) (ssize32 (shdr32 f (shstrndx32 f))) (s\<lparr>pos := q\<rparr>)
      = Inr (known (shstrtab32 f), s\<lparr>pos := unat (soff32 (shdr32 f (shstrndx32 f))) + unat (ssize32 (shdr32 f (shstrndx32 f)))\<rparr>)" for q
    using load_section_ok [of h "s\<lparr>pos := q\<rparr>"] g s "in" by (simp add: inside32_def bytes32_def shstrtab32_def)
  have init: "\<lparr>es = known (shdr32 f (shstrndx32 f)), es_stab = local_struct Elf32_Shdr, stab_strings = None\<rparr>
      = state32 f (known (shdr32 f (shstrndx32 f))) 0" by (simp add: state32_def)
  show ?thesis
    unfolding find_sections32_def read bindE_simps seek seek2 sizes rd case_prod_conv shdr32_read [OF hlen] load num' init
    using section_loop32 [OF g sound, of "known (shdr32 f (shstrndx32 f))" 0 "shnum32 f" "s\<lparr>pos := unat (shoff32 f)\<rparr>"] hlen s ndx
    by (simp add: seek pos32_def)
qed

text \<open>The tool lists the string table itself, as if it were made of entries.\<close>

definition outcome32 :: "u8 list \<Rightarrow> halt" where
  "outcome32 f =
     (let a = shdr32 f (shnum32 f - 1)
      in case listing (bytes32 f a) (stabs_at f (unat (soff32 a)) (unat (ssize32 a) div 12)) of
           None \<Rightarrow> Undefined
         | Some t \<Rightarrow> Exit 0 [] (stab_heading @ t))"

lemma readstab32_ok:
  assumes g: "grants h (length f)" and sound: "sound32 f" and s: "contents s = f" "stdout s = []" and small: "length f < 2 ^ 32"
  shows "map_option (case_sum id (\<lambda>s. Exit 0 [] (stdout s))) (readstab32 h (known (take 64 f)) s) = Some (outcome32 f)"
proof -
  note find = find_sections32_ok [OF g sound s(1)]
  have "0 < shnum32 f" using sound by (simp add: sound32_def)
  then obtain k where k: "shnum32 f = Suc k" by (cases "shnum32 f") simp_all
  then have ks: "k < shnum32 f" by simp
  note hd = sound32_header [OF sound ks]
  have name: "named32 f k = STABSTR" using hd(3) k by simp
  let ?b = "shdr32 f k"
  have "in": "unat (soff32 ?b) + unat (ssize32 ?b) \<le> length f" using hd(4) [OF name] by (simp add: inside32_def)
  have len: "length ?b = 40" using hd(1) by (simp add: shdr32_def)
  have seek: "lseek_set h (soff32 ?b) t = Inr (t\<lparr>pos := unat (soff32 ?b)\<rparr>)" for t
    using lseek_set_ok [OF g add_leD1 [OF "in"]] .
  have str: "last_named (named32 f) STABSTR (Suc k) = Some k" using name by simp
  let ?n = "ssize32 ?b div 12"
  have n: "unat ?n = unat (ssize32 ?b) div 12" by (simp add: unat_div)
  let ?s = "(printf stab_heading (s\<lparr>pos := pos32 f (Suc k)\<rparr>))\<lparr>pos := unat (soff32 ?b)\<rparr>"
  have "print_stabs h (known (bytes32 f ?b)) ?n 0 (local_struct struct_stab) ?s =
    Some (case listing (bytes32 f ?b) (stabs_at (contents ?s) (pos ?s) (unat (ssize32 ?b) div 12)) of
      None \<Rightarrow> Inl Undefined
    | Some t \<Rightarrow> Inr (?s\<lparr>pos := pos ?s + 12 * (unat (ssize32 ?b) div 12), stdout := stdout ?s @ t\<rparr>))"
  proof (rule print_stabs_listing)
    show "grants h (length (contents ?s))" using g s by (simp add: printf_def)
    have "12 * (unat (ssize32 ?b) div 12) \<le> unat (ssize32 ?b)" by (rule times_div_less_eq_dividend)
    then have "unat (soff32 ?b) + 12 * (unat (ssize32 ?b) div 12) \<le> length f" using "in" by linarith
    then show "pos ?s + 12 * (unat (ssize32 ?b) div 12) \<le> length (contents ?s)" using s by (simp add: printf_def)
    show "length (local_struct struct_stab) = 12" by (simp add: local_struct_def)
    show "unat ?n = unat (0 :: u32) + unat (ssize32 ?b) div 12" using n by simp
    have "unat ?n \<le> unat (ssize32 ?b)" unfolding n by (rule div_le_dividend)
    also have "\<dots> \<le> length f" using "in" by (rule add_leD2)
    finally show "unat ?n < 2 ^ 32" using small by simp
  qed
  then show ?thesis
    unfolding readstab32_def find bindE_simps case_prod_conv k
    using str by (simp add: state32_def err_def shdr32_read [OF len] seek Let_def outcome32_def k printf_def s split: option.split)
qed

section \<open>The program\<close>

lemma read_header:
  assumes "host_read h 0"
  shows "read_or_err h (c_sizeof elf_header) (local_struct elf_header) (s\<lparr>contents := f, pos := 0\<rparr>)
    = Inr (known (take 64 f) @ replicate (64 - length f) None, s\<lparr>contents := f, pos := min 64 (length f)\<rparr>)"
  using assms by (simp add: read_or_err_def err_def read_fd_def local_struct_def Let_def min_def)

lemma byte_prefix: "i < length f \<Longrightarrow> i < 64 \<Longrightarrow> byte (known (take 64 f) @ b) i = Inr (f ! i)"
  by (simp add: byte_def nth_append)

lemma strncmp_magic:
  assumes "4 \<le> length f"
  shows "strncmp (known (take 64 f) @ b) 0 ELFMAG = Inr (take 4 f = ELFMAG)"
proof -
  obtain x y z w r where f: "f = x # y # z # w # r"
    using assms by (cases f rule: remdups_adj.cases; cases "tl (tl f)" rule: remdups_adj.cases) auto
  show ?thesis by (simp add: f ELFMAG_def byte_def)
qed

text \<open>
  C32. Of a 64-bit file whose section headers can be followed \<open>readstab\<close> prints the entries of the
  last section called \<open>.stabs\<close>, with the names in the last one called \<open>.stabstr\<close>. Without a
  \<open>.stabstr\<close> it says so and exits with 8; without a \<open>.stabs\<close>, and with an entry whose type is not in the
  table or whose name has no end, its behaviour is undefined.
\<close>

theorem readstab_lists:
  assumes "host_open h fname = Some f" and "grants h (length f)" and "sound64 f" and "length f < 2 ^ 32"
  shows "readstab_main h [prog, fname] = Some (outcome64 f)"
proof -
  have f: "64 \<le> length f" "take 4 f = ELFMAG" "f ! 4 = ELFCLASS64" "f ! 5 = ELFDATA2LSB \<or> f ! 5 = ELFDATA2MSB"
    using assms(3) by (auto simp: sound64_def)
  have h0: "host_read h 0" and sk: "lseek h 64 t = Some (t\<lparr>pos := 64\<rparr>)" for t
    using assms(2) f(1) lseek_ok [OF assms(2) f(1), of t] by (simp_all add: grants_def)
  have n: "4 \<le> length f" "4 < length f" "5 < length f" using f(1) by simp_all
  let ?s = "\<lambda>e. initial_tool\<lparr>contents := f, pos := 64, elf32 := False, elf_little_endian := e\<rparr>"
  have "readstab h fname initial_tool = readstab64 h (known (take 64 f)) (?s (f ! 5 = ELFDATA2LSB))"
    unfolding readstab_def assms(1) err_def option.case bindE_simps read_header [OF h0] case_prod_conv strncmp_magic [OF n(1)]
      byte_prefix [OF n(2), simplified] byte_prefix [OF n(3), simplified] f(2,3)
    using f by (auto simp: elf_class_def elf_data_def try_lseek_def sk ELFCLASS32_def ELFCLASS64_def ELFDATA2LSB_def ELFDATA2MSB_def initial_tool_def)
  moreover have "map_option (case_sum id (\<lambda>s. Exit 0 [] (stdout s))) (readstab64 h (known (take 64 f)) (?s e)) = Some (outcome64 f)" for e
    by (rule readstab64_ok) (use assms in \<open>simp_all add: initial_tool_def\<close>)
  ultimately show ?thesis by (simp add: readstab_main_def)
qed

text \<open>
  C33. Of a 32-bit file whose last section is its \<open>.stabstr\<close>, \<open>readstab\<close> does not list the entries of
  \<open>.stabs\<close>: after the heading it takes the string table itself for entries, one for every 12 bytes,
  and ignores the rest. If each of these has a type that \<open>types\<close> names and a name that ends, it
  prints them and exits with 0. Otherwise its behaviour is undefined (\<open>outcome32\<close> is
  \<open>Undefined\<close>), and that is the case of most tables of 12 bytes or more, whose fifth byte is
  a letter of some name and seldom the number of a type.
\<close>

theorem readstab32_lists_strings:
  assumes "host_open h fname = Some f" and "grants h (length f)" and "sound32 f" and "length f < 2 ^ 32"
  shows "readstab_main h [prog, fname] = Some (outcome32 f)"
proof -
  have f: "64 \<le> length f" "take 4 f = ELFMAG" "f ! 4 = ELFCLASS32" "f ! 5 = ELFDATA2LSB \<or> f ! 5 = ELFDATA2MSB"
    using assms(3) by (auto simp: sound32_def)
  have h0: "host_read h 0" and sk: "lseek h 52 t = Some (t\<lparr>pos := 52\<rparr>)" for t
    using assms(2) f(1) lseek_ok [OF assms(2), of 52 t] by (simp_all add: grants_def)
  have n: "4 \<le> length f" "4 < length f" "5 < length f" using f(1) by simp_all
  let ?s = "\<lambda>e. initial_tool\<lparr>contents := f, pos := 52, elf32 := True, elf_little_endian := e\<rparr>"
  have "readstab h fname initial_tool = readstab32 h (known (take 64 f)) (?s (f ! 5 = ELFDATA2LSB))"
    unfolding readstab_def assms(1) err_def option.case bindE_simps read_header [OF h0] case_prod_conv strncmp_magic [OF n(1)]
      byte_prefix [OF n(2), simplified] byte_prefix [OF n(3), simplified] f(2,3)
    using f by (auto simp: elf_class_def elf_data_def try_lseek_def sk ELFCLASS32_def ELFDATA2LSB_def ELFDATA2MSB_def initial_tool_def)
  moreover have "map_option (case_sum id (\<lambda>s. Exit 0 [] (stdout s))) (readstab32 h (known (take 64 f)) (?s e)) = Some (outcome32 f)" for e
    by (rule readstab32_ok) (use assms in \<open>simp_all add: initial_tool_def\<close>)
  ultimately show ?thesis by (simp add: readstab_main_def)
qed

text \<open>
  A file that is not an ELF file, or whose header names no known class or byte order, is
  rejected with exit code 8 and a message that says which, and nothing is printed.
\<close>

theorem readstab_rejects:
  assumes "host_open h fname = Some f" and "host_read h 0" and "6 \<le> length f"
    and "\<not> (take 4 f = ELFMAG \<and> f ! 4 \<in> {ELFCLASS32, ELFCLASS64} \<and> f ! 5 \<in> {ELFDATA2LSB, ELFDATA2MSB})"
  shows "readstab_main h [prog, fname] = Some (Exit 8
    (fname @ (if take 4 f \<noteq> ELFMAG then '': not a valid ELF file''
              else if f ! 4 \<notin> {ELFCLASS32, ELFCLASS64} then '': unknown ELF class'' else '': unknown data encoding'') @ [CHR 0x0A]) [])"
proof -
  have n: "4 \<le> length f" "4 < length f" "5 < length f" using assms(3) by simp_all
  have out: "stdout (try_lseek h off s) = stdout s" for off s
    by (simp add: try_lseek_def lseek_def)
  have "readstab h fname initial_tool = Some (Inl (Exit 8
    (fname @ (if take 4 f \<noteq> ELFMAG then '': not a valid ELF file''
              else if f ! 4 \<notin> {ELFCLASS32, ELFCLASS64} then '': unknown ELF class'' else '': unknown data encoding'') @ [CHR 0x0A]) []))"
    unfolding readstab_def assms(1) err_def option.case bindE_simps read_header [OF assms(2)] case_prod_conv
      strncmp_magic [OF n(1)] byte_prefix [OF n(2), simplified] byte_prefix [OF n(3), simplified]
    using assms(4) by (auto simp: elf_class_def elf_data_def initial_tool_def out)
  then show ?thesis by (simp add: readstab_main_def)
qed

section \<open>Byte order\<close>

text \<open>The conversions, which nothing in the program calls.\<close>

lemma bswap_inverse: "bswap16 (bswap16 x) = x" "bswap32 (bswap32 y) = y" "bswap64 (bswap64 z) = z"
proof -
  show b16: "bswap16 (bswap16 x) = x" for x
    by (rule bit_word_eqI) (auto simp: bswap16_def bit_simps)
  show b32: "bswap32 (bswap32 y) = y" for y
  proof -
    have "(ucast (bswap32 y) :: u16) = bswap16 (ucast (drop_bit 16 y))" "(ucast (drop_bit 16 (bswap32 y)) :: u16) = bswap16 (ucast y)"
      by (rule bit_word_eqI, auto simp: bswap32_def bit_simps dest: bit_imp_le_length)+
    then show ?thesis unfolding bswap32_def [of "bswap32 y"]
      by (simp only: b16) (rule bit_word_eqI, auto simp: bit_simps dest: bit_imp_le_length)
  qed
  show "bswap64 (bswap64 z) = z"
  proof -
    have "(ucast (bswap64 z) :: u32) = bswap32 (ucast (drop_bit 32 z))" "(ucast (drop_bit 32 (bswap64 z)) :: u32) = bswap32 (ucast z)"
      by (rule bit_word_eqI, auto simp: bswap64_def bit_simps dest: bit_imp_le_length)+
    then show ?thesis unfolding bswap64_def [of "bswap64 z"] 
      by (simp only: b32) (rule bit_word_eqI, auto simp: bit_simps dest: bit_imp_le_length)
  qed
qed

lemma file_order_roundtrip:
  "ftohs (htofs x s) s = x" "ftohl (htofl y s) s = y" "ftohx (htofx z s) s = z"
  by (simp_all add: ftohs_def htofs_def ftohl_def htofl_def ftohx_def htofx_def bswap_inverse)

section \<open>Examples\<close>

definition le_bytes :: "nat \<Rightarrow> u64 \<Rightarrow> u8 list" where
  "le_bytes n v = map (\<lambda>i. ucast (drop_bit (8 * i) v)) [0 ..< n]"

definition demo_shdr :: "u64 \<Rightarrow> u64 \<Rightarrow> u64 \<Rightarrow> u8 list" where
  "demo_shdr name off sz = le_bytes 4 name @ le_bytes 20 0 @ le_bytes 8 off @ le_bytes 8 sz @ le_bytes 24 0"

definition demo_elf :: "u8 list" where
  "demo_elf = ELFMAG @ [2, 1] @ le_bytes 34 0 @ le_bytes 8 98 @ le_bytes 10 0 @ le_bytes 2 64 @ le_bytes 2 3 @ le_bytes 2 0
    @ map of_char ([CHR 0x00] @ ''.stabstr'' @ [CHR 0x00] @ ''.stabs'' @ [CHR 0x00])
    @ le_bytes 4 1 @ [0x64, 7] @ le_bytes 2 300 @ le_bytes 4 0x8000
    @ map of_char ([CHR 0x00] @ ''a.c'' @ [CHR 0x00])
    @ demo_shdr 0 64 17 @ demo_shdr 10 81 12 @ demo_shdr 1 93 5"

definition demo_host :: "u8 list \<Rightarrow> host" where
  "demo_host f = \<lparr>host_open = (\<lambda>n. if n = ''a.out'' then Some f else None), host_max = 1000, host_read = (\<lambda>_. True), host_malloc = (\<lambda>_. True)\<rparr>"

lemma demo_host: "host_open (demo_host f) ''a.out'' = Some f" "length f \<le> 1000 \<Longrightarrow> grants (demo_host f) (length f)"
  by (simp_all add: demo_host_def grants_def)

lemma demo_elf_list: "demo_elf =
    [127, 69, 76, 70, 2, 1, 0, 0, 0, 0, 0, 0, 0, 0, 0, 0, 0, 0, 0, 0, 0, 0, 0, 0, 0, 0, 0, 0, 0, 0, 0, 0,
     0, 0, 0, 0, 0, 0, 0, 0, 98, 0, 0, 0, 0, 0, 0, 0, 0, 0, 0, 0, 0, 0, 0, 0, 0, 0, 64, 0, 3, 0, 0, 0,
     0, 46, 115, 116, 97, 98, 115, 116, 114, 0, 46, 115, 116, 97, 98, 115, 0, 1, 0, 0, 0, 100, 7, 44, 1, 0, 128, 0, 0, 0, 97, 46,
     99, 0, 0, 0, 0, 0, 0, 0, 0, 0, 0, 0, 0, 0, 0, 0, 0, 0, 0, 0, 0, 0, 0, 0, 0, 0, 64, 0, 0, 0, 0, 0,
     0, 0, 17, 0, 0, 0, 0, 0, 0, 0, 0, 0, 0, 0, 0, 0, 0, 0, 0, 0, 0, 0, 0, 0, 0, 0, 0, 0, 0, 0, 0, 0,
     0, 0, 10, 0, 0, 0, 0, 0, 0, 0, 0, 0, 0, 0, 0, 0, 0, 0, 0, 0, 0, 0, 0, 0, 0, 0, 81, 0, 0, 0, 0, 0,
     0, 0, 12, 0, 0, 0, 0, 0, 0, 0, 0, 0, 0, 0, 0, 0, 0, 0, 0, 0, 0, 0, 0, 0, 0, 0, 0, 0, 0, 0, 0, 0,
     0, 0, 1, 0, 0, 0, 0, 0, 0, 0, 0, 0, 0, 0, 0, 0, 0, 0, 0, 0, 0, 0, 0, 0, 0, 0, 93, 0, 0, 0, 0, 0,
     0, 0, 5, 0, 0, 0, 0, 0, 0, 0, 0, 0, 0, 0, 0, 0, 0, 0, 0, 0, 0, 0, 0, 0, 0, 0, 0, 0, 0, 0, 0, 0,
     0, 0]"
  by (simp add: demo_elf_def le_bytes_def demo_shdr_def ELFMAG_def upt_rec)

lemma demo_fields:
  "shoff64 demo_elf = 98" "shentsize64 demo_elf = 64" "shnum64 demo_elf = 3" "shstrndx64 demo_elf = 0"
  by (simp_all add: shoff64_def shentsize64_def shnum64_def shstrndx64_def chunk_def demo_elf_list)

lemma demo_hdrs:
  "shdr64 demo_elf 0 = demo_shdr 0 64 17" "shdr64 demo_elf (Suc 0) = demo_shdr 10 81 12" "shdr64 demo_elf 2 = demo_shdr 1 93 5"
  unfolding shdr64_def demo_fields
  by (simp_all add: chunk_def demo_elf_list demo_shdr_def le_bytes_def upt_rec)

lemma demo_shdr_fields:
  "sname64 (demo_shdr 0 64 17) = 0" "soff64 (demo_shdr 0 64 17) = 64" "ssize64 (demo_shdr 0 64 17) = 17"
  "sname64 (demo_shdr 10 81 12) = 10" "soff64 (demo_shdr 10 81 12) = 81" "ssize64 (demo_shdr 10 81 12) = 12"
  "sname64 (demo_shdr 1 93 5) = 1" "soff64 (demo_shdr 1 93 5) = 93" "ssize64 (demo_shdr 1 93 5) = 5"
  by (simp_all add: sname64_def soff64_def ssize64_def chunk_def demo_shdr_def le_bytes_def upt_rec)

lemma demo_tab: "shstrtab64 demo_elf = map of_char ([CHR 0x00] @ ''.stabstr'' @ [CHR 0x00] @ ''.stabs'' @ [CHR 0x00])"
  unfolding shstrtab64_def demo_fields demo_hdrs bytes64_def demo_shdr_fields by (simp add: chunk_def demo_elf_list)

lemma demo_names:
  "named64 demo_elf 0 = []" "named64 demo_elf (Suc 0) = STABS" "named64 demo_elf 2 = STABSTR"
  by (simp_all add: named64_def demo_tab demo_hdrs demo_shdr_fields section_name_def STABS_def STABSTR_def)

lemma demo_len: "length demo_elf = 290" by (simp add: demo_elf_list)

lemma demo_upt: "[0 ..< 3] = [0, Suc 0, 2 :: nat]" by (simp add: upt_rec)

lemma demo_sound: "sound64 demo_elf"
proof -
  have "take 4 demo_elf = ELFMAG" "demo_elf ! 4 = ELFCLASS64" "demo_elf ! 5 = ELFDATA2LSB"
    by (simp_all add: demo_elf_list ELFMAG_def ELFCLASS64_def ELFDATA2LSB_def)
  then show ?thesis
    by (simp add: sound64_def demo_fields demo_len inside64_def demo_hdrs demo_shdr_fields demo_upt demo_tab demo_names)
qed

lemma demo_outcome: "outcome64 demo_elf = Exit 0 [] (stab_heading @ ''source file          300      7        00008000 a.c'' @ [CHR 0x0A])"
proof -
  have last: "last_named (named64 demo_elf) STABSTR 3 = Some 2" "last_named (named64 demo_elf) STABS 3 = Some 1"
    using demo_names by (simp_all add: numeral_3_eq_3 numeral_2_eq_2)
  have strs: "bytes64 demo_elf (demo_shdr 1 93 5) = map of_char ([CHR 0x00] @ ''a.c'' @ [CHR 0x00])"
    by (simp add: bytes64_def demo_shdr_fields chunk_def demo_elf_list)
  have e: "stabs_at demo_elf 81 1 = [\<lparr>n_strx = 1, n_type = N_SO, n_other = 7, n_desc = 300, n_value = 0x8000\<rparr>]"
    by (simp add: stab_at_def chunk_def demo_elf_list stab_types)
  have t: "listing (map of_char ([CHR 0x00] @ ''a.c'' @ [CHR 0x00])) [\<lparr>n_strx = 1, n_type = N_SO, n_other = 7, n_desc = 300, n_value = 0x8000\<rparr>]
    = Some (''source file          300      7        00008000 a.c'' @ [CHR 0x0A])"
    by code_simp
  show ?thesis unfolding outcome64_def demo_fields last option.case One_nat_def demo_hdrs demo_shdr_fields strs
    using e t by simp
qed

lemma readstab_lists_witness:
  "readstab_main (demo_host demo_elf) [''readstab'', ''a.out''] = Some (Exit 0 []
    (stab_heading @ ''source file          300      7        00008000 a.c'' @ [CHR 0x0A]))"
proof -
  have "grants (demo_host demo_elf) (length demo_elf)" by (rule demo_host(2)) (simp add: demo_len)
  moreover have "length demo_elf < 2 ^ 32" by (simp add: demo_len)
  ultimately show ?thesis unfolding demo_outcome [symmetric] by (intro readstab_lists demo_host(1) demo_sound)
qed

lemma readstab_rejects_witness:
  "readstab_main (demo_host (ELFMAG @ [7, 1])) [''readstab'', ''a.out''] = Some (Exit 8 (''a.out: unknown ELF class'' @ [CHR 0x0A]) [])"
  using readstab_rejects [OF demo_host(1), of "ELFMAG @ [7, 1]" "''readstab''"]
  by (simp add: demo_host_def ELFMAG_def ELFCLASS32_def ELFCLASS64_def)

definition demo_shdr32 :: "u64 \<Rightarrow> u64 \<Rightarrow> u64 \<Rightarrow> u8 list" where
  "demo_shdr32 name off sz = le_bytes 4 name @ le_bytes 12 0 @ le_bytes 4 off @ le_bytes 4 sz @ le_bytes 16 0"

definition demo_strs32 :: "u8 list" where
  "demo_strs32 = [0, 0, 0, 0] @ map of_char (''doc/a.c'' @ [CHR 0x00])"

definition demo_elf32 :: "u8 list" where
  "demo_elf32 = ELFMAG @ [1, 1] @ le_bytes 26 0 @ le_bytes 4 93 @ le_bytes 10 0 @ le_bytes 2 40 @ le_bytes 2 3 @ le_bytes 2 0
    @ map of_char ([CHR 0x00] @ ''.stabstr'' @ [CHR 0x00] @ ''.stabs'' @ [CHR 0x00])
    @ le_bytes 4 1 @ [0x64, 7] @ le_bytes 2 300 @ le_bytes 4 0x8000
    @ demo_strs32
    @ demo_shdr32 0 52 17 @ demo_shdr32 10 69 12 @ demo_shdr32 1 81 12"

lemma demo_elf32_list: "demo_elf32 =
    [127, 69, 76, 70, 1, 1, 0, 0, 0, 0, 0, 0, 0, 0, 0, 0, 0, 0, 0, 0, 0, 0, 0, 0, 0, 0, 0, 0, 0, 0, 0, 0,
     93, 0, 0, 0, 0, 0, 0, 0, 0, 0, 0, 0, 0, 0, 40, 0, 3, 0, 0, 0, 0, 46, 115, 116, 97, 98, 115, 116, 114, 0, 46, 115,
     116, 97, 98, 115, 0, 1, 0, 0, 0, 100, 7, 44, 1, 0, 128, 0, 0, 0, 0, 0, 0, 100, 111, 99, 47, 97, 46, 99, 0, 0, 0, 0,
     0, 0, 0, 0, 0, 0, 0, 0, 0, 0, 0, 0, 0, 52, 0, 0, 0, 17, 0, 0, 0, 0, 0, 0, 0, 0, 0, 0, 0, 0, 0, 0,
     0, 0, 0, 0, 0, 10, 0, 0, 0, 0, 0, 0, 0, 0, 0, 0, 0, 0, 0, 0, 0, 69, 0, 0, 0, 12, 0, 0, 0, 0, 0, 0,
     0, 0, 0, 0, 0, 0, 0, 0, 0, 0, 0, 0, 0, 1, 0, 0, 0, 0, 0, 0, 0, 0, 0, 0, 0, 0, 0, 0, 0, 81, 0, 0,
     0, 12, 0, 0, 0, 0, 0, 0, 0, 0, 0, 0, 0, 0, 0, 0, 0, 0, 0, 0, 0]"
  by (simp add: demo_elf32_def demo_strs32_def le_bytes_def demo_shdr32_def ELFMAG_def upt_rec)

lemma demo_fields32:
  "shoff32 demo_elf32 = 93" "shentsize32 demo_elf32 = 40" "shnum32 demo_elf32 = 3" "shstrndx32 demo_elf32 = 0" "length demo_elf32 = 213"
  by (simp_all add: shoff32_def shentsize32_def shnum32_def shstrndx32_def chunk_def demo_elf32_list)

lemma demo_hdrs32:
  "shdr32 demo_elf32 0 = demo_shdr32 0 52 17" "shdr32 demo_elf32 (Suc 0) = demo_shdr32 10 69 12" "shdr32 demo_elf32 2 = demo_shdr32 1 81 12"
  unfolding shdr32_def demo_fields32
  by (simp_all add: chunk_def demo_elf32_list demo_shdr32_def le_bytes_def upt_rec)

lemma demo_shdr_fields32:
  "sname32 (demo_shdr32 0 52 17) = 0" "soff32 (demo_shdr32 0 52 17) = 52" "ssize32 (demo_shdr32 0 52 17) = 17"
  "sname32 (demo_shdr32 10 69 12) = 10" "soff32 (demo_shdr32 10 69 12) = 69" "ssize32 (demo_shdr32 10 69 12) = 12"
  "sname32 (demo_shdr32 1 81 12) = 1" "soff32 (demo_shdr32 1 81 12) = 81" "ssize32 (demo_shdr32 1 81 12) = 12"
  by (simp_all add: sname32_def soff32_def ssize32_def chunk_def demo_shdr32_def le_bytes_def upt_rec)

lemma demo_tab32: "shstrtab32 demo_elf32 = map of_char ([CHR 0x00] @ ''.stabstr'' @ [CHR 0x00] @ ''.stabs'' @ [CHR 0x00])"
  unfolding shstrtab32_def demo_fields32 demo_hdrs32 bytes32_def demo_shdr_fields32 by (simp add: chunk_def demo_elf32_list)

lemma demo_names32:
  "named32 demo_elf32 0 = []" "named32 demo_elf32 (Suc 0) = STABS" "named32 demo_elf32 2 = STABSTR"
  by (simp_all add: named32_def demo_tab32 demo_hdrs32 demo_shdr_fields32 section_name_def STABS_def STABSTR_def)

lemma demo_sound32: "sound32 demo_elf32"
proof -
  have "take 4 demo_elf32 = ELFMAG" "demo_elf32 ! 4 = ELFCLASS32" "demo_elf32 ! 5 = ELFDATA2LSB"
    by (simp_all add: demo_elf32_list ELFMAG_def ELFCLASS32_def ELFDATA2LSB_def)
  moreover have "[] \<noteq> STABSTR" by (simp add: STABSTR_def)
  ultimately show ?thesis
    by (simp add: sound32_def demo_fields32 inside32_def demo_hdrs32 demo_shdr_fields32 demo_upt demo_tab32 demo_names32)
qed

text \<open>The file has an entry for \<open>a.c\<close>, which is not what is printed: the 12 bytes of its string
  table, taken for an entry, have the type \<open>N_SO\<close> by the letter \<open>d\<close> and the empty name.\<close>

lemma demo_outcome32:
  "outcome32 demo_elf32 = Exit 0 [] (stab_heading @ ''source file          12131    111      00632e61 '' @ [CHR 0x0A])"
proof -
  have strs: "bytes32 demo_elf32 (demo_shdr32 1 81 12) = demo_strs32"
    by (simp add: bytes32_def demo_shdr_fields32 chunk_def demo_elf32_list demo_strs32_def)
  have e: "stabs_at demo_elf32 81 1 = [\<lparr>n_strx = 0, n_type = N_SO, n_other = 111, n_desc = 12131, n_value = 0x632e61\<rparr>]"
    by (simp add: stab_at_def chunk_def demo_elf32_list stab_types)
  have c: "char_of (49 :: nat) = CHR ''1''" "char_of (50 :: nat) = CHR ''2''" "char_of (51 :: nat) = CHR ''3''" by code_simp+
  have d: "decimal 111 = ''111''" "decimal 12131 = ''12131''" by (simp_all add: decimal.simps c)
  have h: "hex8 (0x632e61 :: u32) = ''00632e61''" by code_simp
  have n: "text_of demo_strs32 = []" "0 \<in> set demo_strs32"
    by (simp_all add: demo_strs32_def text_of_def)
  have pad: "replicate 9 b = [b, b, b, b, b, b, b, b, b]" "replicate 5 b = [b, b, b, b, b]" "replicate 3 b = [b, b, b]" for b :: char
    by (simp_all add: numeral_eq_Suc)
  have ty: "types N_SO = Some ''source file''" by code_simp
  have t: "listing demo_strs32 [\<lparr>n_strx = 0, n_type = N_SO, n_other = 111, n_desc = 12131, n_value = 0x632e61\<rparr>]
    = Some (''source file          12131    111      00632e61 '' @ [CHR 0x0A])"
    by (simp add: entry_text_def d h n ty pad_right_def pad)
  have a: "shdr32 demo_elf32 (shnum32 demo_elf32 - 1) = demo_shdr32 1 81 12" by (simp add: demo_fields32 demo_hdrs32)
  have k: "unat (12 :: u64) div 12 = 1" "unat (81 :: u64) = 81" by simp_all
  show ?thesis unfolding outcome32_def a Let_def demo_shdr_fields32 strs k e t option.case by (rule refl)
qed

lemma readstab32_lists_strings_witness:
  "readstab_main (demo_host demo_elf32) [''readstab'', ''a.out''] = Some (Exit 0 []
    (stab_heading @ ''source file          12131    111      00632e61 '' @ [CHR 0x0A]))"
proof -
  have "grants (demo_host demo_elf32) (length demo_elf32)" by (rule demo_host(2)) (simp add: demo_fields32)
  moreover have "length demo_elf32 < 2 ^ 32" by (simp add: demo_fields32)
  ultimately show ?thesis unfolding demo_outcome32 [symmetric] by (intro readstab32_lists_strings demo_host(1) demo_sound32)
qed

end
