(* ===== verification/Headers.thy ===== *)
theory Headers
  imports Elf Mips
begin

text \<open>
  The constants of \<open>include/elf.h\<close>, \<open>include/errno.h\<close> and the MIPS \<open>asm/addrspace.h\<close> that no
  operation of the other theories uses: file types, machines, sections and segments; error
  numbers; and the segments of the 64-bit address space.
\<close>

section \<open>ELF files\<close>

definition EI_MAG0 :: u32 where "EI_MAG0 = 0"
definition ELFMAG0 :: u32 where "ELFMAG0 = 0x7f"
definition EI_MAG1 :: u32 where "EI_MAG1 = 1"
definition ELFMAG1 :: u32 where "ELFMAG1 = 0x45"
definition EI_MAG2 :: u32 where "EI_MAG2 = 2"
definition ELFMAG2 :: u32 where "ELFMAG2 = 0x4c"
definition EI_MAG3 :: u32 where "EI_MAG3 = 3"
definition ELFMAG3 :: u32 where "ELFMAG3 = 0x46"
definition SELFMAG :: u32 where "SELFMAG = 4"
definition EI_CLASS :: u32 where "EI_CLASS = 4"
definition ELFCLASSNONE :: u32 where "ELFCLASSNONE = 0"
definition ELFCLASSNUM :: u32 where "ELFCLASSNUM = 3"
definition EI_DATA :: u32 where "EI_DATA = 5"
definition ELFDATANONE :: u32 where "ELFDATANONE = 0"
definition ELFDATANUM :: u32 where "ELFDATANUM = 3"
definition EI_VERSION :: u32 where "EI_VERSION = 6"
definition EI_OSABI :: u32 where "EI_OSABI = 7"
definition ELFOSABI_NONE :: u32 where "ELFOSABI_NONE = 0"
definition ELFOSABI_SYSV :: u32 where "ELFOSABI_SYSV = 0"
definition ELFOSABI_HPUX :: u32 where "ELFOSABI_HPUX = 1"
definition ELFOSABI_NETBSD :: u32 where "ELFOSABI_NETBSD = 2"
definition ELFOSABI_GNU :: u32 where "ELFOSABI_GNU = 3"
definition ELFOSABI_LINUX :: u32 where "ELFOSABI_LINUX = ELFOSABI_GNU"
definition ELFOSABI_SOLARIS :: u32 where "ELFOSABI_SOLARIS = 6"
definition ELFOSABI_AIX :: u32 where "ELFOSABI_AIX = 7"
definition ELFOSABI_IRIX :: u32 where "ELFOSABI_IRIX = 8"
definition ELFOSABI_FREEBSD :: u32 where "ELFOSABI_FREEBSD = 9"
definition ELFOSABI_TRU64 :: u32 where "ELFOSABI_TRU64 = 10"
definition ELFOSABI_MODESTO :: u32 where "ELFOSABI_MODESTO = 11"
definition ELFOSABI_OPENBSD :: u32 where "ELFOSABI_OPENBSD = 12"
definition ELFOSABI_ARM_AEABI :: u32 where "ELFOSABI_ARM_AEABI = 64"
definition ELFOSABI_ARM :: u32 where "ELFOSABI_ARM = 97"
definition ELFOSABI_STANDALONE :: u32 where "ELFOSABI_STANDALONE = 255"
definition EI_ABIVERSION :: u32 where "EI_ABIVERSION = 8"
definition EI_PAD :: u32 where "EI_PAD = 9"
definition ET_NONE :: u32 where "ET_NONE = 0"
definition ET_REL :: u32 where "ET_REL = 1"
definition ET_EXEC :: u32 where "ET_EXEC = 2"
definition ET_DYN :: u32 where "ET_DYN = 3"
definition ET_CORE :: u32 where "ET_CORE = 4"
definition ET_NUM :: u32 where "ET_NUM = 5"
definition ET_LOOS :: u32 where "ET_LOOS = 0xfe00"
definition ET_HIOS :: u32 where "ET_HIOS = 0xfeff"
definition ET_LOPROC :: u32 where "ET_LOPROC = 0xff00"
definition ET_HIPROC :: u32 where "ET_HIPROC = 0xffff"
definition EM_NONE :: u32 where "EM_NONE = 0"
definition EM_M32 :: u32 where "EM_M32 = 1"
definition EM_SPARC :: u32 where "EM_SPARC = 2"
definition EM_386 :: u32 where "EM_386 = 3"
definition EM_68K :: u32 where "EM_68K = 4"
definition EM_88K :: u32 where "EM_88K = 5"
definition EM_860 :: u32 where "EM_860 = 7"
definition EM_MIPS :: u32 where "EM_MIPS = 8"
definition EM_S370 :: u32 where "EM_S370 = 9"
definition EM_MIPS_RS3_LE :: u32 where "EM_MIPS_RS3_LE = 10"
definition EM_PARISC :: u32 where "EM_PARISC = 15"
definition EM_VPP500 :: u32 where "EM_VPP500 = 17"
definition EM_SPARC32PLUS :: u32 where "EM_SPARC32PLUS = 18"
definition EM_960 :: u32 where "EM_960 = 19"
definition EM_PPC :: u32 where "EM_PPC = 20"
definition EM_PPC64 :: u32 where "EM_PPC64 = 21"
definition EM_S390 :: u32 where "EM_S390 = 22"
definition EM_V800 :: u32 where "EM_V800 = 36"
definition EM_FR20 :: u32 where "EM_FR20 = 37"
definition EM_RH32 :: u32 where "EM_RH32 = 38"
definition EM_RCE :: u32 where "EM_RCE = 39"
definition EM_ARM :: u32 where "EM_ARM = 40"
definition EM_FAKE_ALPHA :: u32 where "EM_FAKE_ALPHA = 41"
definition EM_SH :: u32 where "EM_SH = 42"
definition EM_SPARCV9 :: u32 where "EM_SPARCV9 = 43"
definition EM_TRICORE :: u32 where "EM_TRICORE = 44"
definition EM_ARC :: u32 where "EM_ARC = 45"
definition EM_H8_300 :: u32 where "EM_H8_300 = 46"
definition EM_H8_300H :: u32 where "EM_H8_300H = 47"
definition EM_H8S :: u32 where "EM_H8S = 48"
definition EM_H8_500 :: u32 where "EM_H8_500 = 49"
definition EM_IA_64 :: u32 where "EM_IA_64 = 50"
definition EM_MIPS_X :: u32 where "EM_MIPS_X = 51"
definition EM_COLDFIRE :: u32 where "EM_COLDFIRE = 52"
definition EM_68HC12 :: u32 where "EM_68HC12 = 53"
definition EM_MMA :: u32 where "EM_MMA = 54"
definition EM_PCP :: u32 where "EM_PCP = 55"
definition EM_NCPU :: u32 where "EM_NCPU = 56"
definition EM_NDR1 :: u32 where "EM_NDR1 = 57"
definition EM_STARCORE :: u32 where "EM_STARCORE = 58"
definition EM_ME16 :: u32 where "EM_ME16 = 59"
definition EM_ST100 :: u32 where "EM_ST100 = 60"
definition EM_TINYJ :: u32 where "EM_TINYJ = 61"
definition EM_X86_64 :: u32 where "EM_X86_64 = 62"
definition EM_PDSP :: u32 where "EM_PDSP = 63"
definition EM_FX66 :: u32 where "EM_FX66 = 66"
definition EM_ST9PLUS :: u32 where "EM_ST9PLUS = 67"
definition EM_ST7 :: u32 where "EM_ST7 = 68"
definition EM_68HC16 :: u32 where "EM_68HC16 = 69"
definition EM_68HC11 :: u32 where "EM_68HC11 = 70"
definition EM_68HC08 :: u32 where "EM_68HC08 = 71"
definition EM_68HC05 :: u32 where "EM_68HC05 = 72"
definition EM_SVX :: u32 where "EM_SVX = 73"
definition EM_ST19 :: u32 where "EM_ST19 = 74"
definition EM_VAX :: u32 where "EM_VAX = 75"
definition EM_CRIS :: u32 where "EM_CRIS = 76"
definition EM_JAVELIN :: u32 where "EM_JAVELIN = 77"
definition EM_FIREPATH :: u32 where "EM_FIREPATH = 78"
definition EM_ZSP :: u32 where "EM_ZSP = 79"
definition EM_MMIX :: u32 where "EM_MMIX = 80"
definition EM_HUANY :: u32 where "EM_HUANY = 81"
definition EM_PRISM :: u32 where "EM_PRISM = 82"
definition EM_AVR :: u32 where "EM_AVR = 83"
definition EM_FR30 :: u32 where "EM_FR30 = 84"
definition EM_D10V :: u32 where "EM_D10V = 85"
definition EM_D30V :: u32 where "EM_D30V = 86"
definition EM_V850 :: u32 where "EM_V850 = 87"
definition EM_M32R :: u32 where "EM_M32R = 88"
definition EM_MN10300 :: u32 where "EM_MN10300 = 89"
definition EM_MN10200 :: u32 where "EM_MN10200 = 90"
definition EM_PJ :: u32 where "EM_PJ = 91"
definition EM_OPENRISC :: u32 where "EM_OPENRISC = 92"
definition EM_ARC_A5 :: u32 where "EM_ARC_A5 = 93"
definition EM_XTENSA :: u32 where "EM_XTENSA = 94"
definition EM_AARCH64 :: u32 where "EM_AARCH64 = 183"
definition EM_TILEPRO :: u32 where "EM_TILEPRO = 188"
definition EM_MICROBLAZE :: u32 where "EM_MICROBLAZE = 189"
definition EM_TILEGX :: u32 where "EM_TILEGX = 191"
definition EM_NUM :: u32 where "EM_NUM = 192"
definition EM_ALPHA :: u32 where "EM_ALPHA = 0x9026"
definition EV_NONE :: u32 where "EV_NONE = 0"
definition EV_CURRENT :: u32 where "EV_CURRENT = 1"
definition EV_NUM :: u32 where "EV_NUM = 2"
definition SHN_UNDEF :: u32 where "SHN_UNDEF = 0"
definition SHN_LORESERVE :: u32 where "SHN_LORESERVE = 0xff00"
definition SHN_LOPROC :: u32 where "SHN_LOPROC = 0xff00"
definition SHN_BEFORE :: u32 where "SHN_BEFORE = 0xff00"
definition SHN_AFTER :: u32 where "SHN_AFTER = 0xff01"
definition SHN_HIPROC :: u32 where "SHN_HIPROC = 0xff1f"
definition SHN_LOOS :: u32 where "SHN_LOOS = 0xff20"
definition SHN_HIOS :: u32 where "SHN_HIOS = 0xff3f"
definition SHN_ABS :: u32 where "SHN_ABS = 0xfff1"
definition SHN_COMMON :: u32 where "SHN_COMMON = 0xfff2"
definition SHN_XINDEX :: u32 where "SHN_XINDEX = 0xffff"
definition SHN_HIRESERVE :: u32 where "SHN_HIRESERVE = 0xffff"
definition SHT_NULL :: u32 where "SHT_NULL = 0"
definition SHT_PROGBITS :: u32 where "SHT_PROGBITS = 1"
definition SHT_SYMTAB :: u32 where "SHT_SYMTAB = 2"
definition SHT_STRTAB :: u32 where "SHT_STRTAB = 3"
definition SHT_RELA :: u32 where "SHT_RELA = 4"
definition SHT_HASH :: u32 where "SHT_HASH = 5"
definition SHT_DYNAMIC :: u32 where "SHT_DYNAMIC = 6"
definition SHT_NOTE :: u32 where "SHT_NOTE = 7"
definition SHT_NOBITS :: u32 where "SHT_NOBITS = 8"
definition SHT_REL :: u32 where "SHT_REL = 9"
definition SHT_SHLIB :: u32 where "SHT_SHLIB = 10"
definition SHT_DYNSYM :: u32 where "SHT_DYNSYM = 11"
definition SHT_INIT_ARRAY :: u32 where "SHT_INIT_ARRAY = 14"
definition SHT_FINI_ARRAY :: u32 where "SHT_FINI_ARRAY = 15"
definition SHT_PREINIT_ARRAY :: u32 where "SHT_PREINIT_ARRAY = 16"
definition SHT_GROUP :: u32 where "SHT_GROUP = 17"
definition SHT_SYMTAB_SHNDX :: u32 where "SHT_SYMTAB_SHNDX = 18"
definition SHT_NUM :: u32 where "SHT_NUM = 19"
definition SHT_LOOS :: u32 where "SHT_LOOS = 0x60000000"
definition SHT_GNU_ATTRIBUTES :: u32 where "SHT_GNU_ATTRIBUTES = 0x6ffffff5"
definition SHT_GNU_HASH :: u32 where "SHT_GNU_HASH = 0x6ffffff6"
definition SHT_GNU_LIBLIST :: u32 where "SHT_GNU_LIBLIST = 0x6ffffff7"
definition SHT_CHECKSUM :: u32 where "SHT_CHECKSUM = 0x6ffffff8"
definition SHT_LOSUNW :: u32 where "SHT_LOSUNW = 0x6ffffffa"
definition SHT_SUNW_move :: u32 where "SHT_SUNW_move = 0x6ffffffa"
definition SHT_SUNW_COMDAT :: u32 where "SHT_SUNW_COMDAT = 0x6ffffffb"
definition SHT_SUNW_syminfo :: u32 where "SHT_SUNW_syminfo = 0x6ffffffc"
definition SHT_GNU_verdef :: u32 where "SHT_GNU_verdef = 0x6ffffffd"
definition SHT_GNU_verneed :: u32 where "SHT_GNU_verneed = 0x6ffffffe"
definition SHT_GNU_versym :: u32 where "SHT_GNU_versym = 0x6fffffff"
definition SHT_HISUNW :: u32 where "SHT_HISUNW = 0x6fffffff"
definition SHT_HIOS :: u32 where "SHT_HIOS = 0x6fffffff"
definition SHT_LOPROC :: u32 where "SHT_LOPROC = 0x70000000"
definition SHT_HIPROC :: u32 where "SHT_HIPROC = 0x7fffffff"
definition SHT_LOUSER :: u32 where "SHT_LOUSER = 0x80000000"
definition SHT_HIUSER :: u32 where "SHT_HIUSER = 0x8fffffff"
definition SHF_WRITE :: u32 where "SHF_WRITE = push_bit 0 1"
definition SHF_ALLOC :: u32 where "SHF_ALLOC = push_bit 1 1"
definition SHF_EXECINSTR :: u32 where "SHF_EXECINSTR = push_bit 2 1"
definition SHF_MERGE :: u32 where "SHF_MERGE = push_bit 4 1"
definition SHF_STRINGS :: u32 where "SHF_STRINGS = push_bit 5 1"
definition SHF_INFO_LINK :: u32 where "SHF_INFO_LINK = push_bit 6 1"
definition SHF_LINK_ORDER :: u32 where "SHF_LINK_ORDER = push_bit 7 1"
definition SHF_OS_NONCONFORMING :: u32 where "SHF_OS_NONCONFORMING = push_bit 8 1"
definition SHF_GROUP :: u32 where "SHF_GROUP = push_bit 9 1"
definition SHF_TLS :: u32 where "SHF_TLS = push_bit 10 1"
definition SHF_MASKOS :: u32 where "SHF_MASKOS = 0x0ff00000"
definition SHF_MASKPROC :: u32 where "SHF_MASKPROC = 0xf0000000"
definition SHF_ORDERED :: u32 where "SHF_ORDERED = push_bit 30 1"
definition SHF_EXCLUDE :: u32 where "SHF_EXCLUDE = push_bit 31 1"
definition PN_XNUM :: u32 where "PN_XNUM = 0xffff"
definition PT_NULL :: u32 where "PT_NULL = 0"
definition PT_DYNAMIC :: u32 where "PT_DYNAMIC = 2"
definition PT_INTERP :: u32 where "PT_INTERP = 3"
definition PT_NOTE :: u32 where "PT_NOTE = 4"
definition PT_SHLIB :: u32 where "PT_SHLIB = 5"
definition PT_PHDR :: u32 where "PT_PHDR = 6"
definition PT_TLS :: u32 where "PT_TLS = 7"
definition PT_NUM :: u32 where "PT_NUM = 8"
definition PT_LOOS :: u32 where "PT_LOOS = 0x60000000"
definition PT_GNU_EH_FRAME :: u32 where "PT_GNU_EH_FRAME = 0x6474e550"
definition PT_GNU_STACK :: u32 where "PT_GNU_STACK = 0x6474e551"
definition PT_GNU_RELRO :: u32 where "PT_GNU_RELRO = 0x6474e552"
definition PT_LOSUNW :: u32 where "PT_LOSUNW = 0x6ffffffa"
definition PT_SUNWBSS :: u32 where "PT_SUNWBSS = 0x6ffffffa"
definition PT_SUNWSTACK :: u32 where "PT_SUNWSTACK = 0x6ffffffb"
definition PT_HISUNW :: u32 where "PT_HISUNW = 0x6fffffff"
definition PT_HIOS :: u32 where "PT_HIOS = 0x6fffffff"
definition PT_LOPROC :: u32 where "PT_LOPROC = 0x70000000"
definition PT_HIPROC :: u32 where "PT_HIPROC = 0x7fffffff"
definition PF_X :: u32 where "PF_X = push_bit 0 1"
definition PF_W :: u32 where "PF_W = push_bit 1 1"
definition PF_R :: u32 where "PF_R = push_bit 2 1"
definition PF_MASKOS :: u32 where "PF_MASKOS = 0x0ff00000"
definition PF_MASKPROC :: u32 where "PF_MASKPROC = 0xf0000000"

section \<open>Error numbers\<close>

definition EPERM :: int where "EPERM = 1"
definition ENOENT :: int where "ENOENT = 2"
definition ESRCH :: int where "ESRCH = 3"
definition EINTR :: int where "EINTR = 4"
definition EIO :: int where "EIO = 5"
definition ENXIO :: int where "ENXIO = 6"
definition E2BIG :: int where "E2BIG = 7"
definition ENOEXEC :: int where "ENOEXEC = 8"
definition EBADF :: int where "EBADF = 9"
definition ECHILD :: int where "ECHILD = 10"
definition EDEADLK :: int where "EDEADLK = 11"
definition ENOMEM :: int where "ENOMEM = 12"
definition EACCES :: int where "EACCES = 13"
definition EFAULT :: int where "EFAULT = 14"
definition EBUSY :: int where "EBUSY = 16"
definition EEXIST :: int where "EEXIST = 17"
definition EXDEV :: int where "EXDEV = 18"
definition ENOTDIR :: int where "ENOTDIR = 20"
definition EISDIR :: int where "EISDIR = 21"
definition ENFILE :: int where "ENFILE = 23"
definition EMFILE :: int where "EMFILE = 24"
definition ENOTTY :: int where "ENOTTY = 25"
definition EFBIG :: int where "EFBIG = 27"
definition ENOSPC :: int where "ENOSPC = 28"
definition ESPIPE :: int where "ESPIPE = 29"
definition EROFS :: int where "EROFS = 30"
definition EMLINK :: int where "EMLINK = 31"
definition EPIPE :: int where "EPIPE = 32"

section \<open>Segments of the MIPS address space\<close>

definition XUSEG_BEGIN :: u64 where "XUSEG_BEGIN = 0x0000000000000000"
definition XUSEG_END :: u64 where "XUSEG_END = 0x0000ffffffffffff"
definition XUSEG :: u64 where "XUSEG = XUSEG_BEGIN"
definition XSUSEG_BEGIN :: u64 where "XSUSEG_BEGIN = XUSEG_BEGIN"
definition XSUSEG_END :: u64 where "XSUSEG_END = XUSEG_END"
definition XSSEG_BEGIN :: u64 where "XSSEG_BEGIN = 0x4000000000000000"
definition XSSEG_END :: u64 where "XSSEG_END = 0x4000ffffffffffff"
definition CSSEG_BEGIN :: u64 where "CSSEG_BEGIN = 0xffffffffc0000000"
definition CSSEG_END :: u64 where "CSSEG_END = 0xffffffffdfffffff"
definition XSUSEG :: u64 where "XSUSEG = XSUSEG_BEGIN"
definition XSSEG :: u64 where "XSSEG = XSSEG_BEGIN"
definition CSSEG :: u64 where "CSSEG = CSSEG_BEGIN"
definition XKUSEG_BEGIN :: u64 where "XKUSEG_BEGIN = XUSEG_BEGIN"
definition XKUSEG_END :: u64 where "XKUSEG_END = XUSEG_END"
definition XKSSEG_BEGIN :: u64 where "XKSSEG_BEGIN = XSSEG_BEGIN"
definition XKSSEG_END :: u64 where "XKSSEG_END = XSSEG_END"
definition XKPHY_BEGIN :: u64 where "XKPHY_BEGIN = 0x8000000000000000"
definition XKPHY_END :: u64 where "XKPHY_END = 0xbfffffffffffffff"
definition XKSEG_BEGIN :: u64 where "XKSEG_BEGIN = 0xc000000000000000"
definition XKSEG_END :: u64 where "XKSEG_END = 0xc00000ff7fffffff"
definition CKSEG0_BEGIN :: u64 where "CKSEG0_BEGIN = 0xffffffff80000000"
definition CKSEG0_END :: u64 where "CKSEG0_END = 0xffffffff9fffffff"
definition CKSEG1_BEGIN :: u64 where "CKSEG1_BEGIN = 0xffffffffa0000000"
definition CKSEG1_END :: u64 where "CKSEG1_END = 0xffffffffbfffffff"
definition CKSSEG_BEGIN :: u64 where "CKSSEG_BEGIN = 0xffffffffc0000000"
definition CKSSEG_END :: u64 where "CKSSEG_END = 0xffffffffdfffffff"
definition CKSEG3_BEGIN :: u64 where "CKSEG3_BEGIN = 0xffffffffe0000000"
definition CKSEG3_END :: u64 where "CKSEG3_END = 0xffffffffffffffff"
definition XKUSEG :: u64 where "XKUSEG = XKUSEG_BEGIN"
definition XKSSEG :: u64 where "XKSSEG = XKSSEG_BEGIN"
definition XKPHY :: u64 where "XKPHY = XKPHY_BEGIN"
definition XKSEG :: u64 where "XKSEG = XKSEG_BEGIN"
definition CKSEG0 :: u64 where "CKSEG0 = CKSEG0_BEGIN"
definition CKSEG1 :: u64 where "CKSEG1 = CKSEG1_BEGIN"
definition CKSSEG :: u64 where "CKSSEG = CKSSEG_BEGIN"
definition CKSEG3 :: u64 where "CKSEG3 = CKSEG3_BEGIN"
definition IO_BASE_CACHED :: u64 where "IO_BASE_CACHED = XKPHY + 0x1800000000000000"
definition IO_BASE :: u64 where "IO_BASE = XKPHY + 0x1000000000000000"
definition KERNBASE :: u64 where "KERNBASE = IO_BASE_CACHED"
definition USEG :: u64 where "USEG = XUSEG"
definition SSEG :: u64 where "SSEG = CSSEG"
definition KSEG1 :: u64 where "KSEG1 = CKSEG1"
definition KSSEG :: u64 where "KSSEG = CKSSEG"
definition KSEG3 :: u64 where "KSEG3 = CKSEG3"

end
