(* ===== verification/Spec2Isabelle.thy ===== *)
theory Spec2Isabelle
  imports Division LibString Kmem Sched_Props Uart Clock_Correct Init_Correct Boot_Correct Mmu_Correct Fs_Props Fs_Reboot Irq_Correct Ahci_Correct Mips_Correct Debug Stab_Correct Headers
begin

text \<open>
  A model of a small teaching kernel for the Zynq-7000 (two Cortex-A9 cores, ARMv7-A) and of the
  parts of its Loongson 3A (MIPS64) branch, with the theorems that say what its components do.

  \<^bold>\<open>The program.\<close> The firmware (\<open>firmware/\<close>) loads block 0 of the SD card; the loader in it
  (\<open>boot/\<close>) reads the segments of the kernel's ELF file from the card and jumps to the entry.
  \<open>mmu_low.c\<close> builds the boot page table, the kernel continues in the upper half of the address
  space and \<open>kinit\<close> (\<open>kern/init/init.c\<close>) starts the components in order: serial port, SD card,
  cache and snoop control unit, page allocator, object caches, interrupt controller, file system,
  scheduler. From then on the
  kernel runs in its interrupt entries (\<open>kern/arch/armv7a-le/zynq7000/interrupt.c\<close>): a system
  call is dispatched by \<open>kern/syscall.c\<close>, a timer interrupt switches to the next ready process.
  The page allocator gives pages to the object caches, these give blocks to \<open>kmalloc\<close>, the
  scheduler, the page tables and the file system; the file system and \<open>_exec\<close> call the SD driver.
  The Loongson branch has its own start (\<open>kern/init/main.c\<close>, \<open>kern/arch/mips64\<close>): it measures the
  clock, looks for a drive and copies the exception handlers to the vectors; its disk controller
  driver is \<open>drivers/ata\<close>.

  \<^bold>\<open>The machine.\<close> \<open>Prelude\<close>: \<open>u8\<close>, \<open>u16\<close>, \<open>u32\<close> and \<open>u64\<close> are words of their width, a pointer is a
  \<open>u32\<close>, the memory is a function from addresses to bytes with little-endian loads (\<open>ld32\<close>,
  \<open>rd\<close>) and stores (\<open>wr\<close>), and a structure field is an access at its C offset. The state is a
  chain of extensible records: \<open>machine\<close> (memory, console, register trace), then the static
  variables of one file after another, so an operation is typed by the state it uses. An
  operation is a function from state to state; one that may not return (a loop on a list, on a
  device, or an endless loop) yields an \<open>option\<close>, defined by \<open>partial_function\<close>, and \<open>None\<close> means
  it does not return. Error codes are the values the C functions return. \<open>Bus\<close>: an access to a
  device register is an event of the trace \<open>io\<close>; what a device answers, and what it stores by DMA,
  is a function of the trace, the parameter \<open>hardware\<close> of every driver. What a driver relies on is
  a predicate on that parameter (\<open>has_sd\<close>, \<open>drains\<close>, \<open>ata_disk\<close> and the like), instantiated by a
  concrete device in the witness of each theorem.

  \<^bold>\<open>The components\<close>, each theory with the definitions in the order of the C file:
  \<^item> \<open>Division\<close> (\<open>drivers/misc/division-arm.c\<close>), \<open>LibString\<close> (\<open>lib/libc/string\<close>), \<open>Printf\<close>
    (\<open>lib/libc/stdio/snprintf.c\<close>, \<open>uart-printf.c\<close>): against division on numbers, byte-wise copying,
    and parsing of the printed text.
  \<^item> \<open>Alloc\<close>, \<open>Pages\<close> (\<open>kern/mm/pages_manage.c\<close>), \<open>Slab\<close>, \<open>Slab_Correct\<close> (\<open>slb.c\<close>), \<open>Kmem\<close>
    (\<open>kmemory_manage.c\<close>): the contract of an allocator as a locale, the page allocator as a
    refinement of a sorted list of free areas, the object caches above it, by an invariant on the
    lists of caches, pools and objects in memory, every free object inside its pool; which block
    comes back, and to which pool, is stated exactly.
  \<^item> \<open>Sched\<close> (\<open>kern/sched\<close>), \<open>Sched_Correct\<close>, \<open>Sched_Props\<close>: six queues in memory refine six lists;
    a tick is a round-robin step; every ready process runs again.
  \<^item> \<open>Dtb\<close>, \<open>Bus\<close>, \<open>Uart_Regs\<close>, \<open>Uart\<close>, \<open>Clock\<close>, \<open>Clock_Correct\<close>, \<open>Sd_Regs\<close>, \<open>Sd\<close>, \<open>Sd_Load\<close>,
    \<open>Sd_Correct\<close> (\<open>drivers/\<close>): the serial ports under one contract, in which a byte written while the
    transmitter is full is lost; the clocks; the SD card behind a controller that transfers
    blocks only on the specified command word and transfer mode.
  \<^item> \<open>Mmu\<close>, \<open>Mmap\<close>, \<open>Mmu_Correct\<close> (\<open>mmu_low.c\<close>, \<open>mmu_high.c\<close>, \<open>pte.c\<close>, \<open>kern/mm/mmap.c\<close>): what
    the boot table translates to, by the walk of the processor: a table of addresses, which is not in
    all places the one the comments of the two files give.
  \<^item> \<open>Fs\<close> (\<open>kern/fs/fs_manage.c\<close>), \<open>Fs_Correct\<close>, \<open>Fs_Props\<close>: files and free blocks as lists, each
    operation as an operation on them, and an invariant of every sequence of calls that keeps three
    conditions the code does not check: a number given to \<open>create_file\<close> is new, the length of a
    name is not negative, and the file that is recycled is not the first of the list (recycling
    the first breaks the lists).
  \<^item> \<open>Fs_Image\<close>, \<open>Fs_Reboot\<close>: the tables and their image on the card; what \<open>checkpoint_fs\<close> writes is
    what \<open>load_fs\<close> reads in a later run, their buffers from \<open>kmalloc\<close> and their transfers included.
  \<^item> \<open>Gic\<close>, \<open>Syscall\<close>, \<open>Interrupt\<close>, \<open>Init\<close>, \<open>Irq_Correct\<close>, \<open>Init_Correct\<close>: the interrupt
    controller, the system calls, the interrupt entries and the start of the kernel; one interrupt
    from entry to return; and the start from any memory contents to the first process, where each
    component establishes what the next one assumes.
  \<^item> \<open>Elf\<close>, \<open>Boot\<close>, \<open>Boot_Correct\<close>, \<open>Debug\<close>: headers and loaders, and the lookup in the debugging
    symbols.
  \<^item> \<open>Layout\<close>, \<open>Ahci_Regs\<close>, \<open>Ahci\<close>, \<open>Ahci_Correct\<close> (\<open>drivers/ata\<close>): C structure layout, the
    registers and command structures of the disk controller, and the start of a port up to the
    identification of its drive, on a controller that executes commands only on a port that was
    given its buffers and started.
  \<^item> \<open>Mips_Regs\<close>, \<open>Mips\<close>, \<open>Mips_Correct\<close> (\<open>kern/arch/mips64\<close>, \<open>kern/init/main.c\<close>): coprocessor 0,
    the set-up of the Loongson board and the exception vectors.
  \<^item> \<open>Stab\<close>, \<open>Stab_Correct\<close> (\<open>tools/stab/readstab.c\<close>): the tool that lists debugging symbols, a
    program of the host, with what it prints and the errors it exits with.
  \<^item> \<open>Headers\<close>: the constants of \<open>elf.h\<close>, \<open>errno.h\<close> and \<open>asm/addrspace.h\<close> no operation uses.

  \<^bold>\<open>Bounds.\<close> There is no fuel: a loop is structural recursion, or a \<open>partial_function\<close> whose
  return is proved where the code returns. Where a theorem is about memory structures, its
  invariant bounds them by what 32-bit addresses can hold.

  \<^bold>\<open>Parameters\<close>, for what is not C code of the repository: the hardware (\<open>hardware\<close>, and
  \<open>ata_hardware\<close> with \<open>ata_board\<close> for the disk controller and the Loongson board's address ranges); the
  coprocessor reads of the MIPS processor (\<open>cp0\<close>); the register that holds the base of the private
  peripherals (\<open>cbar\<close>); the effect of an \<open>SVC\<close> instruction in \<open>init_sched\<close>; the monitor PMON of the
  Loongson board; the files and the memory of the machine \<open>readstab\<close> runs on (\<open>host\<close>).

  \<^bold>\<open>Not modelled.\<close> The assembly stubs and the headers of macros for them (\<open>asm.h\<close>, \<open>regdef.h\<close>);
  their effect on the context block is the argument \<open>trap\<close> of the entries. The self-tests
  \<open>test_fs\<close>, \<open>test_all_interrupt\<close> and \<open>debug_info_test.c\<close>, which nothing calls. The programs
  \<open>user/*.c\<close> and \<open>trylo/foo.c\<close>, and \<open>kern/init/stub.c\<close>: endless loops. \<open>device.h\<close> and \<open>smp.h\<close>,
  structures nothing uses; \<open>cp0regdef.h\<close> is modelled in one of its two identical copies;
  \<open>icd_enable\<close> and \<open>icd_disable\<close>, which use a register offset that is not defined anywhere.
\<close>

end
